(* ===== verification/Prelude.thy ===== *)
theory Prelude
  imports Main
begin

section \<open>Prelude: results, tables, text\<close>

text \<open>
  What every component of the store model shares:
  \<^item> results: a Python call that may raise is a value of \<open>'e + 'a\<close>, \<open>Inl\<close> the exception;
    \<open>bindE\<close> sequences two of them and stops at the first exception;
  \<^item> tables: a SQLite table is the list of its rows in rowid order; \<open>fetch\<close> is a
    \<^verbatim>\<open>SELECT ... WHERE id = ?\<close>, \<open>modify\<close> an \<^verbatim>\<open>UPDATE ... WHERE\<close>, \<open>next_id\<close> the
    rowid SQLite gives an \<^verbatim>\<open>INTEGER PRIMARY KEY\<close> (one more than the largest, 1 on an
    empty table);
  \<^item> the interfaces \<open>keyed_table\<close> and \<open>growing_table\<close>, the laws of lookup after update
    and after insert that every table of the model is interpreted with;
  \<^item> text: a Python string is a \<open>string\<close>, one \<open>char\<close> per code point (so code points
    below 256 only), with Python's \<open>str.strip\<close>, \<open>str(int)\<close> and \<open>str.join\<close>.
\<close>

named_theorems op_defs \<open>definitions of the operations, unfolded in functional proofs\<close>
named_theorems table_defs \<open>definitions of the row-level writes\<close>

subsection \<open>Results\<close>

definition bindE :: "'e + 'a \<Rightarrow> ('a \<Rightarrow> 'e + 'b) \<Rightarrow> 'e + 'b" where
  "bindE m k = (case m of Inl e \<Rightarrow> Inl e | Inr x \<Rightarrow> k x)"

lemma bindE_simps [simp]:
  "bindE (Inl e) k = Inl e"
  "bindE (Inr x) k = k x"
  by (simp_all add: bindE_def)

lemma bindE_Inr [simp]: "bindE m k = Inr y \<longleftrightarrow> (\<exists>x. m = Inr x \<and> k x = Inr y)"
  by (cases m) (auto simp: bindE_def)

lemma bindE_Inl: "bindE m k = Inl e \<longleftrightarrow> m = Inl e \<or> (\<exists>x. m = Inr x \<and> k x = Inl e)"
  by (cases m) (auto simp: bindE_def)

lemma bindE_cong [fundef_cong]:
  "m = m' \<Longrightarrow> (\<And>x. m' = Inr x \<Longrightarrow> k x = k' x) \<Longrightarrow> bindE m k = bindE m' k'"
  by (cases m') (auto simp: bindE_def)

text \<open>\<^verbatim>\<open>next(iter(xs), None)\<close>.\<close>

definition head_option :: "'a list \<Rightarrow> 'a option" where
  "head_option xs = (case xs of [] \<Rightarrow> None | x # _ \<Rightarrow> Some x)"

lemma head_option_simps [simp]:
  "head_option [] = None"
  "head_option (x # xs) = Some x"
  by (simp_all add: head_option_def)

lemma head_option_SomeD: "head_option xs = Some x \<Longrightarrow> x \<in> set xs"
  by (cases xs) auto

text \<open>A loop of calls over a list, each on the state the one before left.\<close>

fun foldE :: "('a \<Rightarrow> 's \<Rightarrow> 'e + 's) \<Rightarrow> 'a list \<Rightarrow> 's \<Rightarrow> 'e + 's" where
  "foldE f [] s = Inr s"
| "foldE f (x # xs) s = bindE (f x s) (foldE f xs)"

lemma foldE_invariant:
  assumes "foldE f xs s = Inr t" and "P s"
    and "\<And>x u v. x \<in> set xs \<Longrightarrow> f x u = Inr v \<Longrightarrow> P u \<Longrightarrow> P v"
  shows "P t"
  using assms
proof (induction xs arbitrary: s)
  case Nil
  then show ?case by simp
next
  case (Cons x xs)
  from Cons.prems(1) obtain u where "f x s = Inr u" "foldE f xs u = Inr t" by auto
  with Cons.prems(2,3) show ?case
    by (intro Cons.IH [of u]) auto
qed

lemma foldE_append: "foldE f (xs @ ys) s = bindE (foldE f xs s) (foldE f ys)"
  by (induction xs arbitrary: s) (auto simp: bindE_def split: sum.splits)

subsection \<open>Numbered lists\<close>

text \<open>The list is 1, 2, 3, ... without a gap, in this order.\<close>

definition numbered :: "nat list \<Rightarrow> bool" where
  "numbered xs \<longleftrightarrow> xs = map Suc [0..<length xs]"

lemma numbered_Nil [simp]: "numbered []"
  by (simp add: numbered_def)

lemma numbered_snoc [simp]: "numbered (xs @ [x]) \<longleftrightarrow> numbered xs \<and> x = Suc (length xs)"
  by (auto simp: numbered_def)

lemma numbered_set: "numbered xs \<Longrightarrow> set xs = Suc ` {0..<length xs}"
  by (metis numbered_def set_map set_upt)

lemma numbered_member: "numbered xs \<Longrightarrow> x \<in> set xs \<Longrightarrow> 1 \<le> x \<and> x \<le> length xs"
  by (auto simp: numbered_set)

lemma numbered_nth: "numbered xs \<Longrightarrow> i < length xs \<Longrightarrow> xs ! i = Suc i"
  by (metis numbered_def add_0 length_upt minus_nat.diff_0 nth_map nth_upt)

lemma numbered_distinct: "numbered xs \<Longrightarrow> distinct xs"
  by (metis numbered_def distinct_map distinct_upt inj_on_def old.nat.inject)

lemma numbered_max: "numbered xs \<Longrightarrow> foldr max xs 0 = length xs"
proof (induction xs rule: rev_induct)
  case Nil
  then show ?case by simp
next
  case (snoc x xs)
  have "foldr max xs b = max (foldr max xs 0) b" for b :: nat
    by (induction xs) auto
  from this [of x] snoc show ?case by simp
qed

subsection \<open>Tables\<close>

definition fetch :: "('r \<Rightarrow> 'k) \<Rightarrow> 'k \<Rightarrow> 'r list \<Rightarrow> 'r option" where
  "fetch key k rows = find (\<lambda>r. key r = k) rows"

definition modify :: "('r \<Rightarrow> bool) \<Rightarrow> ('r \<Rightarrow> 'r) \<Rightarrow> 'r list \<Rightarrow> 'r list" where
  "modify P f rows = map (\<lambda>r. if P r then f r else r) rows"

definition next_id :: "('r \<Rightarrow> nat) \<Rightarrow> 'r list \<Rightarrow> nat" where
  "next_id key rows = Suc (foldr (\<lambda>r m. max (key r) m) rows 0)"

definition keyed :: "('r \<Rightarrow> 'k) \<Rightarrow> 'r list \<Rightarrow> bool" where
  "keyed key rows \<longleftrightarrow> distinct (map key rows)"

lemma fetch_simps [simp]:
  "fetch key k [] = None"
  "fetch key k (r # rows) = (if key r = k then Some r else fetch key k rows)"
  by (simp_all add: fetch_def)

lemma fetch_SomeD: "fetch key k rows = Some r \<Longrightarrow> r \<in> set rows \<and> key r = k"
  by (induction rows) (auto split: if_splits)

lemma fetch_None_iff: "fetch key k rows = None \<longleftrightarrow> k \<notin> key ` set rows"
  by (induction rows) auto

lemma fetch_append: "fetch key k (xs @ ys) =
    (case fetch key k xs of None \<Rightarrow> fetch key k ys | Some r \<Rightarrow> Some r)"
  by (induction xs) auto

lemma fetch_member: "keyed key rows \<Longrightarrow> r \<in> set rows \<Longrightarrow> fetch key (key r) rows = Some r"
  by (induction rows) (auto simp: keyed_def)

lemma modify_simps [simp]:
  "modify P f [] = []"
  "modify P f (r # rows) = (if P r then f r else r) # modify P f rows"
  by (simp_all add: modify_def)

lemma modify_append [simp]: "modify P f (xs @ ys) = modify P f xs @ modify P f ys"
  by (simp add: modify_def)

lemma length_modify [simp]: "length (modify P f rows) = length rows"
  by (simp add: modify_def)

lemma set_modify: "set (modify P f rows) = (\<lambda>r. if P r then f r else r) ` set rows"
  by (simp add: modify_def)

lemma map_modify: "(\<And>r. P r \<Longrightarrow> g (f r) = g r) \<Longrightarrow> map g (modify P f rows) = map g rows"
  by (simp add: modify_def)

lemma keyed_modify: "keyed key rows \<Longrightarrow> (\<And>r. key (f r) = key r) \<Longrightarrow> keyed key (modify P f rows)"
  by (simp add: keyed_def map_modify)

lemma fetch_modify:
  assumes "\<And>r. key (f r) = key r"
  shows "fetch key k (modify P f rows) =
      map_option (\<lambda>r. if P r then f r else r) (fetch key k rows)"
  by (induction rows) (auto simp: assms)

lemma fetch_modify_key:
  assumes "\<And>r. key (f r) = key r"
  shows "fetch key k (modify (\<lambda>r. key r = j) f rows) =
      (if k = j then map_option f (fetch key k rows) else fetch key k rows)"
proof -
  have "fetch key k (modify (\<lambda>r. key r = j) f rows) =
      map_option (\<lambda>r. if key r = j then f r else r) (fetch key k rows)"
    using assms by (rule fetch_modify)
  then show ?thesis
    by (cases "fetch key k rows") (auto dest: fetch_SomeD)
qed

lemma filter_modify:
  "(\<And>r. P r \<Longrightarrow> Q (f r) = Q r) \<Longrightarrow> filter Q (modify P f rows) = modify P f (filter Q rows)"
  by (induction rows) auto

lemma next_id_greater: "r \<in> set rows \<Longrightarrow> key r < next_id key rows"
  by (induction rows) (auto simp: next_id_def less_Suc_eq_le)

lemma next_id_fresh: "fetch key (next_id key rows) rows = None"
  by (auto simp: fetch_None_iff dest: next_id_greater [where key = key])

lemma next_id_pos [simp]: "0 < next_id key rows"
  by (simp add: next_id_def)

lemma next_id_modify:
  assumes "\<And>r. key (f r) = key r"
  shows "next_id key (modify P f rows) = next_id key rows"
  by (induction rows) (auto simp: next_id_def assms)

lemma keyed_insert:
  "keyed key rows \<Longrightarrow> key r = next_id key rows \<Longrightarrow> keyed key (rows @ [r])"
  using next_id_fresh [of key rows] by (auto simp: keyed_def fetch_None_iff)

subsection \<open>Dictionaries in insertion order\<close>

text \<open>A Python dictionary as an association list: a new key goes to the end.\<close>

fun assoc_put :: "'k \<Rightarrow> 'v \<Rightarrow> ('k \<times> 'v) list \<Rightarrow> ('k \<times> 'v) list" where
  "assoc_put k x [] = [(k, x)]"
| "assoc_put k x ((j, y) # ps) = (if j = k then (k, x) # ps else (j, y) # assoc_put k x ps)"

lemma map_of_assoc_put: "map_of (assoc_put k x ps) = (map_of ps)(k \<mapsto> x)"
  by (induction k x ps rule: assoc_put.induct) auto

subsection \<open>The table interface\<close>

text \<open>
  \<open>lookup\<close> and \<open>update\<close> are what an operation of the store sees of one table: the row of an
  id, and an \<^verbatim>\<open>UPDATE ... WHERE id = ?\<close> that keeps the id. The laws are the ones every
  functional proof of an operation needs.
\<close>

locale keyed_table =
  fixes lookup :: "nat \<Rightarrow> 's \<Rightarrow> 'r option"
    and update :: "nat \<Rightarrow> ('r \<Rightarrow> 'r) \<Rightarrow> 's \<Rightarrow> 's"
    and key :: "'r \<Rightarrow> nat"
  assumes lookup_key: "lookup k s = Some r \<Longrightarrow> key r = k"
    and lookup_update: "(\<And>r. key (f r) = key r) \<Longrightarrow>
      lookup k (update j f s) = (if k = j then map_option f (lookup k s) else lookup k s)"
begin

lemma lookup_update_hit:
  "(\<And>r. key (f r) = key r) \<Longrightarrow> lookup k s = Some r \<Longrightarrow> lookup k (update k f s) = Some (f r)"
  by (simp add: lookup_update)

lemma lookup_update_miss:
  "(\<And>r. key (f r) = key r) \<Longrightarrow> k \<noteq> j \<Longrightarrow> lookup k (update j f s) = lookup k s"
  by (simp add: lookup_update)

lemma lookup_update_field:
  assumes "\<And>r. key (f r) = key r" and "\<And>r. g (f r) = g r"
  shows "map_option g (lookup k (update j f s)) = map_option g (lookup k s)"
proof (cases "k = j")
  case True
  with assms show ?thesis
    by (simp add: lookup_update option.map_comp o_def)
next
  case False
  with assms show ?thesis by (simp add: lookup_update)
qed

lemma lookup_update_twice:
  assumes "\<And>r. key (f r) = key r" and "\<And>r. key (g r) = key r"
  shows "lookup k (update j g (update j f s)) = lookup k (update j (\<lambda>r. g (f r)) s)"
  using assms by (simp add: lookup_update option.map_comp o_def)

end

locale growing_table = keyed_table lookup update key
  for lookup :: "nat \<Rightarrow> 's \<Rightarrow> 'r option"
    and update :: "nat \<Rightarrow> ('r \<Rightarrow> 'r) \<Rightarrow> 's \<Rightarrow> 's"
    and key :: "'r \<Rightarrow> nat" +
  fixes fresh :: "'s \<Rightarrow> nat"
    and insert :: "'r \<Rightarrow> 's \<Rightarrow> 's"
  assumes lookup_fresh: "lookup (fresh s) s = None"
    and lookup_insert: "key r = fresh s \<Longrightarrow>
      lookup k (insert r s) = (if k = fresh s then Some r else lookup k s)"
begin

lemma lookup_insert_new: "key r = fresh s \<Longrightarrow> lookup (key r) (insert r s) = Some r"
  by (simp add: lookup_insert)

lemma lookup_insert_old:
  "key r = fresh s \<Longrightarrow> lookup k s = Some q \<Longrightarrow> lookup k (insert r s) = Some q"
  by (auto simp: lookup_insert lookup_fresh)

lemma fresh_moves: "key r = fresh s \<Longrightarrow> fresh (insert r s) \<noteq> fresh s"
  using lookup_fresh [of "insert r s"] lookup_insert [of r s "fresh s"] by auto

end

text \<open>
  The laws at once for a table given as a field: \<open>rows\<close> reads it, \<open>put\<close> writes it.
\<close>

lemma keyed_table_field:
  assumes "\<And>g s. rows (put g s) = g (rows s)"
  shows "keyed_table (\<lambda>k s. fetch key k (rows s))
      (\<lambda>k f. put (modify (\<lambda>r. key r = k) f)) key"
  using assms by unfold_locales (auto simp: fetch_modify_key dest: fetch_SomeD)

lemma growing_table_field:
  assumes "\<And>g s. rows (put g s) = g (rows s)"
  shows "growing_table (\<lambda>k s. fetch key k (rows s))
      (\<lambda>k f. put (modify (\<lambda>r. key r = k) f)) key
      (\<lambda>s. next_id key (rows s)) (\<lambda>r. put (\<lambda>rows. rows @ [r]))"
  using assms
  by unfold_locales
    (auto simp: fetch_modify_key fetch_append next_id_fresh
      dest: fetch_SomeD split: option.splits)

end
