(* ===== verification/Text.thy ===== *)
theory Text
  imports Prelude
begin

section \<open>Text: the Python string operations the store uses\<close>

text \<open>
  A Python string is a \<open>string\<close>, one \<open>char\<close> per code point. \<open>py_space\<close> is
  \<^verbatim>\<open>str.isspace\<close> on the code points below 256, \<open>py_strip\<close> is \<^verbatim>\<open>str.strip()\<close>,
  \<open>blank\<close> the test \<^verbatim>\<open>not text.strip()\<close>, \<open>str_nat\<close> and \<open>str_int\<close> are \<^verbatim>\<open>str(n)\<close>,
  \<open>join\<close> is \<^verbatim>\<open>sep.join(parts)\<close> and \<open>py_replace\<close> is \<^verbatim>\<open>text.replace(old, new)\<close> for a
  non-empty \<open>old\<close>. The lemmas give what the store relies on: decimal numerals are
  injective, and \<open>join\<close> with a separator that no part contains can be undone.
\<close>

definition py_space :: "char \<Rightarrow> bool" where
  "py_space c \<longleftrightarrow>
     (let n = (of_char c :: nat)
      in 9 \<le> n \<and> n \<le> 13 \<or> 28 \<le> n \<and> n \<le> 32 \<or> n = 133 \<or> n = 160)"

definition py_strip :: "string \<Rightarrow> string" where
  "py_strip s = rev (dropWhile py_space (rev (dropWhile py_space s)))"

definition blank :: "string \<Rightarrow> bool" where
  "blank s \<longleftrightarrow> py_strip s = []"

lemma blank_iff: "blank s \<longleftrightarrow> (\<forall>c \<in> set s. py_space c)"
proof -
  have "blank s \<longleftrightarrow> (\<forall>c \<in> set (dropWhile py_space s). py_space c)"
    by (simp add: blank_def py_strip_def dropWhile_eq_Nil_conv)
  also have "\<dots> \<longleftrightarrow> (\<forall>c \<in> set s. py_space c)"
    by (induction s) auto
  finally show ?thesis .
qed

lemma blank_append [simp]: "blank (s @ t) \<longleftrightarrow> blank s \<and> blank t"
  by (auto simp: blank_iff)

text \<open>\<^verbatim>\<open>sub in text\<close>, and SQLite's \<^verbatim>\<open>text LIKE p || '%'\<close> (ASCII letters in either case).\<close>

fun py_prefix :: "string \<Rightarrow> string \<Rightarrow> bool" where
  "py_prefix [] t = True"
| "py_prefix (c # cs) [] = False"
| "py_prefix (c # cs) (d # ds) \<longleftrightarrow> c = d \<and> py_prefix cs ds"

fun py_contains :: "string \<Rightarrow> string \<Rightarrow> bool" where
  "py_contains sub [] = (sub = [])"
| "py_contains sub (c # cs) \<longleftrightarrow> py_prefix sub (c # cs) \<or> py_contains sub cs"

definition ascii_lower :: "char \<Rightarrow> char" where
  "ascii_lower c = (let n = (of_char c :: nat) in if 65 \<le> n \<and> n \<le> 90 then char_of (n + 32) else c)"

definition like_prefix :: "string \<Rightarrow> string \<Rightarrow> bool" where
  "like_prefix p t \<longleftrightarrow> py_prefix (map ascii_lower p) (map ascii_lower t)"

lemma py_prefix_iff: "py_prefix p t \<longleftrightarrow> (\<exists>r. t = p @ r)"
  by (induction p t rule: py_prefix.induct) auto

lemma py_contains_iff: "py_contains sub t \<longleftrightarrow> (\<exists>a b. t = a @ sub @ b)"
proof (induction sub t rule: py_contains.induct)
  case (2 sub c cs)
  then show ?case
    by (simp only: py_contains.simps py_prefix_iff)
      (metis append_Cons append_Nil append_eq_Cons_conv)
qed simp

subsection \<open>Lines\<close>

definition line_break :: "char \<Rightarrow> bool" where
  "line_break c \<longleftrightarrow> (let n = (of_char c :: nat)
     in n = 10 \<or> n = 11 \<or> n = 12 \<or> n = 13 \<or> n = 28 \<or> n = 29 \<or> n = 30 \<or> n = 133)"

text \<open>\<^verbatim>\<open>str.splitlines()\<close>: a CR LF is one break, a final break starts no line.\<close>

fun split_lines :: "string \<Rightarrow> string \<Rightarrow> string list" where
  "split_lines acc [] = (if acc = [] then [] else [rev acc])"
| "split_lines acc [c] = (if line_break c then [rev acc] else [rev (c # acc)])"
| "split_lines acc (c # d # cs) =
     (if c = CHR 13 \<and> d = CHR 10 then rev acc # split_lines [] cs
      else if line_break c then rev acc # split_lines [] (d # cs)
      else split_lines (c # acc) (d # cs))"

definition py_splitlines :: "string \<Rightarrow> string list" where
  "py_splitlines s = split_lines [] s"

subsection \<open>Decimal numerals\<close>

definition digit_char :: "nat \<Rightarrow> char" where
  "digit_char d = char_of (48 + d)"

fun str_nat :: "nat \<Rightarrow> string" where
  "str_nat n = (if n < 10 then [digit_char n] else str_nat (n div 10) @ [digit_char (n mod 10)])"

declare str_nat.simps [simp del]

definition str_int :: "int \<Rightarrow> string" where
  "str_int i = (if i < 0 then CHR ''-'' # str_nat (nat (- i)) else str_nat (nat i))"

definition digit_value :: "char \<Rightarrow> nat" where
  "digit_value c = of_char c - 48"

definition nat_of_digits :: "string \<Rightarrow> nat" where
  "nat_of_digits s = foldl (\<lambda>n c. 10 * n + digit_value c) 0 s"

lemma digit_value_char [simp]: "d < 10 \<Longrightarrow> digit_value (digit_char d) = d"
  by (simp add: digit_value_def digit_char_def of_char_of take_bit_eq_mod)

lemma digit_char_code: "d < 10 \<Longrightarrow> (of_char (digit_char d) :: nat) = 48 + d"
  by (simp add: digit_char_def of_char_of take_bit_eq_mod)

lemma nat_of_digits_str_nat [simp]: "nat_of_digits (str_nat n) = n"
proof (induction n rule: str_nat.induct)
  case (1 n)
  show ?case
  proof (cases "n < 10")
    case True
    then show ?thesis by (simp add: str_nat.simps [of n] nat_of_digits_def)
  next
    case False
    with 1 have "nat_of_digits (str_nat (n div 10)) = n div 10" by simp
    with False show ?thesis
      by (simp add: str_nat.simps [of n] nat_of_digits_def)
  qed
qed

lemma str_nat_inject [simp]: "str_nat m = str_nat n \<longleftrightarrow> m = n"
  by (metis nat_of_digits_str_nat)

lemma str_nat_nonempty [simp]: "str_nat n \<noteq> []"
  by (subst str_nat.simps) simp

lemma str_nat_digits: "c \<in> set (str_nat n) \<Longrightarrow> 48 \<le> (of_char c :: nat) \<and> (of_char c :: nat) < 58"
proof (induction n rule: str_nat.induct)
  case (1 n)
  show ?case
  proof (cases "n < 10")
    case True
    with 1 show ?thesis by (auto simp: str_nat.simps [of n] digit_char_code)
  next
    case False
    with 1 show ?thesis
      by (auto simp: str_nat.simps [of n] digit_char_code)
  qed
qed

lemma str_nat_no_char:
  "(of_char c :: nat) < 48 \<or> 58 \<le> (of_char c :: nat) \<Longrightarrow> c \<notin> set (str_nat n)"
  using str_nat_digits [of c n] by auto

lemma str_int_inject [simp]: "str_int i = str_int j \<longleftrightarrow> i = j"
proof -
  have "CHR ''-'' \<notin> set (str_nat n)" for n
    by (rule str_nat_no_char) simp
  then have "CHR ''-'' # x \<noteq> str_nat n" for x n
    by (metis list.set_intros(1))
  then show ?thesis
    by (auto simp: str_int_def dest: sym)
qed

subsection \<open>Joining\<close>

fun join :: "string \<Rightarrow> string list \<Rightarrow> string" where
  "join sep [] = []"
| "join sep [x] = x"
| "join sep (x # y # xs) = x @ sep @ join sep (y # xs)"

lemma append_sep_inject:
  assumes "c \<notin> set x" and "c \<notin> set y" and "x @ c # r = y @ c # q"
  shows "x = y \<and> r = q"
proof -
  have "takeWhile (\<lambda>d. d \<noteq> c) (x @ c # r) = x"
    and "takeWhile (\<lambda>d. d \<noteq> c) (y @ c # q) = y"
    using assms(1,2) by (auto simp: takeWhile_append)
  with assms(3) have "x = y" by metis
  with assms(3) show ?thesis by simp
qed

text \<open>Two lists joined by a character no part contains are equal when the results are.\<close>

lemma join_inject:
  assumes "\<And>x. x \<in> set xs \<Longrightarrow> c \<notin> set x" and "\<And>y. y \<in> set ys \<Longrightarrow> c \<notin> set y"
    and "xs \<noteq> []" and "ys \<noteq> []" and "join [c] xs = join [c] ys"
  shows "xs = ys"
  using assms
proof (induction "[c]" xs arbitrary: ys rule: join.induct)
  case 1
  then show ?case by simp
next
  case (2 x)
  obtain y zs where ys: "ys = y # zs" using "2.prems"(4) by (cases ys) auto
  show ?case
  proof (cases zs)
    case Nil
    with 2 ys show ?thesis by simp
  next
    case (Cons z ws)
    with 2 ys have "c \<in> set x" by simp
    with "2.prems"(1) show ?thesis by simp
  qed
next
  case (3 x y xs)
  obtain x' zs where ys: "ys = x' # zs" using "3.prems"(4) by (cases ys) auto
  show ?case
  proof (cases zs)
    case Nil
    with "3.prems"(5) ys have "c \<in> set x'" by auto
    with "3.prems"(2) ys show ?thesis by simp
  next
    case (Cons y' xs')
    have "x @ c # join [c] (y # xs) = x' @ c # join [c] (y' # xs')"
      using "3.prems"(5) ys Cons by simp
    then have "x = x' \<and> join [c] (y # xs) = join [c] (y' # xs')"
      using "3.prems"(1,2) ys by (intro append_sep_inject) auto
    moreover from this have "y # xs = y' # xs'"
      using "3.prems"(1,2) ys Cons by (intro "3.hyps") auto
    ultimately show ?thesis using ys Cons by simp
  qed
qed

subsection \<open>Replacing\<close>

function py_replace :: "string \<Rightarrow> string \<Rightarrow> string \<Rightarrow> string" where
  "py_replace old new s =
     (case s of
        [] \<Rightarrow> []
      | c # cs \<Rightarrow>
          if old \<noteq> [] \<and> take (length old) s = old
          then new @ py_replace old new (drop (length old) s)
          else c # py_replace old new cs)"
  by pat_completeness auto
termination
  by (relation "measure (\<lambda>(old, new, s). length s)") auto

declare py_replace.simps [simp del]

lemma py_replace_Nil [simp]: "py_replace old new [] = []"
  by (simp add: py_replace.simps)

lemma py_replace_hit:
  "old \<noteq> [] \<Longrightarrow> py_replace old new (old @ s) = new @ py_replace old new s"
proof -
  assume "old \<noteq> []"
  then obtain c cs where "old = c # cs" by (cases old) auto
  then show ?thesis
    by (simp add: py_replace.simps [of "c # cs" new "c # cs @ s"])
qed

lemma py_replace_miss:
  "take (length old) (c # cs) \<noteq> old \<Longrightarrow>
   py_replace old new (c # cs) = c # py_replace old new cs"
  by (simp add: py_replace.simps [of old new "c # cs"])

lemma py_replace_idle:
  assumes "c \<in> set old" and "c \<notin> set s"
  shows "py_replace old new s = s"
  using assms
proof (induction s)
  case Nil
  then show ?case by simp
next
  case (Cons d s)
  have "take (length old) (d # s) \<noteq> old"
  proof
    assume "take (length old) (d # s) = old"
    with Cons.prems(1) have "c \<in> set (take (length old) (d # s))" by simp
    then show False using Cons.prems(2) by (auto dest: in_set_takeD)
  qed
  with Cons show ?case by (simp add: py_replace_miss)
qed

lemma py_replace_not_blank:
  assumes "\<not> blank new" and "\<not> blank s"
  shows "\<not> blank (py_replace old new s)"
  using assms
proof (induction old new s rule: py_replace.induct)
  case (1 old new s)
  show ?case
  proof (cases s)
    case Nil
    with 1 show ?thesis by (simp add: blank_iff)
  next
    case (Cons c cs)
    show ?thesis
    proof (cases "old \<noteq> [] \<and> take (length old) s = old")
      case True
      then show ?thesis using Cons 1(3)
        by (simp add: py_replace.simps [of old new "c # cs"])
    next
      case False
      with 1 Cons show ?thesis
        by (auto simp: py_replace.simps [of old new "c # cs"] blank_iff)
    qed
  qed
qed

subsection \<open>Case and words\<close>

text \<open>\<^verbatim>\<open>str.lower()\<close> below code point 256, and \<^verbatim>\<open>str.split()\<close> with no separator.\<close>

definition lower_char :: "char \<Rightarrow> char" where
  "lower_char c = (let n = (of_char c :: nat)
     in if 65 \<le> n \<and> n \<le> 90 \<or> 192 \<le> n \<and> n \<le> 222 \<and> n \<noteq> 215 then char_of (n + 32) else c)"

definition py_lower :: "string \<Rightarrow> string" where
  "py_lower = map lower_char"

function py_words :: "string \<Rightarrow> string list" where
  "py_words s =
     (let b = dropWhile py_space s in
      if b = [] then []
      else takeWhile (\<lambda>c. \<not> py_space c) b # py_words (dropWhile (\<lambda>c. \<not> py_space c) b))"
  by pat_completeness auto
termination
proof (relation "measure length", simp)
  fix s b :: string
  assume b: "b = dropWhile py_space s" and ne: "b \<noteq> []"
  from ne have "\<not> py_space (hd b)" unfolding b by (rule hd_dropWhile)
  with ne have "length (dropWhile (\<lambda>c. \<not> py_space c) b) < length b"
    by (cases b) (auto simp: less_Suc_eq_le length_dropWhile_le)
  also have "length b \<le> length s" unfolding b by (rule length_dropWhile_le)
  finally show "(dropWhile (\<lambda>c. \<not> py_space c) b, s) \<in> measure length" by simp
qed

declare py_words.simps [simp del]

lemma py_lower_idem [simp]: "py_lower (py_lower s) = py_lower s"
proof -
  have "lower_char (lower_char c) = lower_char c" for c
    by (auto simp: lower_char_def Let_def of_char_of take_bit_eq_mod)
  then show ?thesis by (simp add: py_lower_def)
qed

lemma str_nat_short: "5 * length (str_nat n) \<le> n + 5"
proof (induction n rule: str_nat.induct)
  case (1 n)
  show ?case
  proof (cases "n < 10")
    case False
    with 1 have "5 * length (str_nat (n div 10)) \<le> n div 10 + 5" by simp
    with False show ?thesis by (simp add: str_nat.simps [of n])
  qed (simp add: str_nat.simps [of n])
qed

subsection \<open>Character classes on the bits of a character\<close>

text \<open>The same classes by the eight bits of a code point, which evaluation uses.\<close>

lemma py_space_code [code]:
  "py_space (Char b0 b1 b2 b3 b4 b5 b6 b7) \<longleftrightarrow>
     \<not> b6 \<and>
     (if b7 then (if b5 then \<not> b0 \<and> \<not> b1 \<and> \<not> b2 \<and> \<not> b3 \<and> \<not> b4 else b0 \<and> \<not> b1 \<and> b2 \<and> \<not> b3 \<and> \<not> b4)
      else if b5 then \<not> b0 \<and> \<not> b1 \<and> \<not> b2 \<and> \<not> b3 \<and> \<not> b4
      else if b4 then b3 \<and> b2
      else b3 \<and> (b0 \<or> b1 \<or> b2) \<and> \<not> (b2 \<and> b1))"
  by (cases b0; cases b1; cases b2; cases b3; cases b4; cases b5; cases b6; cases b7; simp add: py_space_def)

lemma line_break_code [code]:
  "line_break (Char b0 b1 b2 b3 b4 b5 b6 b7) \<longleftrightarrow>
     \<not> b6 \<and> \<not> b5 \<and>
     (if b7 then b0 \<and> \<not> b1 \<and> b2 \<and> \<not> b3 \<and> \<not> b4
      else b3 \<and> (if b4 then b2 \<and> \<not> (b1 \<and> b0) else b2 \<noteq> b1))"
  by (cases b0; cases b1; cases b2; cases b3; cases b4; cases b5; cases b6; cases b7; simp add: line_break_def)

lemma ascii_lower_code [code]:
  "ascii_lower (Char b0 b1 b2 b3 b4 b5 b6 b7) =
     Char b0 b1 b2 b3 b4 (b5 \<or> \<not> b7 \<and> b6 \<and> (b0 \<or> b1 \<or> b2 \<or> b3 \<or> b4)
       \<and> \<not> (b4 \<and> b3 \<and> (b2 \<or> b1 \<and> b0))) b6 b7"
  by (cases b0; cases b1; cases b2; cases b3; cases b4; cases b5; cases b6; cases b7;
      simp add: ascii_lower_def char_of_def bit_0)

lemma lower_char_code [code]:
  "lower_char (Char b0 b1 b2 b3 b4 b5 b6 b7) =
     Char b0 b1 b2 b3 b4 (b5 \<or> b6 \<and>
       (if b7 then \<not> (b4 \<and> b3 \<and> b2 \<and> b1 \<and> b0) \<and> \<not> (b4 \<and> \<not> b3 \<and> b2 \<and> b1 \<and> b0)
        else (b0 \<or> b1 \<or> b2 \<or> b3 \<or> b4) \<and> \<not> (b4 \<and> b3 \<and> (b2 \<or> b1 \<and> b0)))) b6 b7"
  by (cases b0; cases b1; cases b2; cases b3; cases b4; cases b5; cases b6; cases b7;
      simp add: lower_char_def char_of_def bit_0)

end
