(* ===== verification/Enums.thy ===== *)
theory Enums
  imports Text "HOL-Library.List_Lexorder" "HOL-Library.Char_ord"
begin

section \<open>Enums: the store's vocabularies and its two transition tables\<close>

text \<open>
  \<^verbatim>\<open>store/enums.py\<close>: one datatype per enumeration, with the member names of the source
  behind a prefix that keeps them apart (\<open>PH_WORKING\<close> is \<^verbatim>\<open>RunPhase.WORKING\<close>, \<open>TS_READY\<close> is
  \<^verbatim>\<open>TicketStatus.READY\<close>), and the \<^verbatim>\<open>.value\<close> of the ones the code prints or sorts by. A
  check such as \<^verbatim>\<open>if phase not in PHASES: raise\<close> is the typing of the argument. The two
  tables \<^verbatim>\<open>RUN_PHASE_TRANSITIONS\<close> and \<^verbatim>\<open>TICKET_TRANSITIONS\<close> are functions from a state to
  the list of its successors, standing for the source's \<^verbatim>\<open>frozenset\<close>.
\<close>

subsection \<open>Enumerations\<close>

datatype autonomy_profile = AP_PERSONAL | AP_SHARED_LOW_RISK | AP_PRODUCTION

datatype project_admission = AD_ENABLED | AD_HELD | AD_DISABLED

datatype ticket_status =
    TS_NEEDS_SPEC | TS_READY | TS_IN_FLIGHT | TS_BLOCKED_ON_DEPS
  | TS_BLOCKED_ON_OPERATOR | TS_MERGED | TS_ABANDONED

datatype criterion_witness_kind = CW_TEST | CW_VERIFY | CW_REVIEWER_READ

datatype criterion_status = CS_OPEN | CS_RETIRED

datatype board_column = BC_BACKLOG | BC_READY | BC_CANCELED

datatype pause_actor = PA_OPERATOR | PA_AUTOMATION

datatype affinity = AF_ANY | AF_GUI | AF_HEADLESS

datatype run_phase =
    PH_CLAIMED | PH_WORKING | PH_VERIFYING | PH_REVIEWING | PH_ADDRESSING | PH_MERGE_GATE
  | PH_AWAITING_MERGE_APPROVAL | PH_MERGING | PH_SQUASHING | PH_DONE
  | PH_BLOCKED_ON_OPERATOR | PH_FAILED | PH_KILLED | PH_REJECTED | PH_PAUSED

datatype park_kind =
    PK_PULL_REQUEST | PK_PULL_REQUEST_CLOSED | PK_THREAD | PK_FIX_DECLINED | PK_MERGE_LOCK
  | PK_QUESTION | PK_NOT_REPRODUCED | PK_CI | PK_ROUTE | PK_CONTRADICTION

datatype run_outcome =
    OC_MERGED | OC_KILLED | OC_ABANDONED | OC_FAILED | OC_REJECTED | OC_PAUSED

datatype failure_kind =
    FK_VERIFY | FK_REVIEW_ROUTE | FK_FIX_NO_PROGRESS | FK_NO_COMMITS | FK_BUDGET
  | FK_MERGE_LOCK | FK_INFRA | FK_SWEPT | FK_UNCLASSIFIED

datatype outcome_class = CL_WORK | CL_INFRA

datatype review_verdict = RV_PASS | RV_CHANGES_REQUESTED | RV_ERROR

datatype event_level = EL_NARRATIVE | EL_DETAIL

datatype ledger_kind =
    LK_MERGE | LK_FAILURE | LK_ROUND | LK_ADJUDICATION | LK_INTERVENTION | LK_NOTE

datatype ledger_source = LS_LOOP | LS_OPERATOR

datatype intervention_source = IS_SUPERVISOR | IS_HUMAN | IS_FACTORY | IS_AUTOMATION

datatype intervention_actor = IC_MAINTAINER | IC_OPERATOR | IC_SUPERVISOR

datatype intervention_trigger =
    IT_TIME_BOX | IT_OFF_CRITERIA | IT_LOOPING | IT_REVIEW_STUCK | IT_LINEAR_CANCELLED
  | IT_LINEAR_COMPLETED | IT_MANUAL | IT_BOARD_CANCELLED

datatype intervention_action =
    IA_REDIRECT | IA_KILL | IA_EXTEND_TIME_BOX | IA_RESUME | IA_CLOSE_OUT | IA_REQUEUE
  | IA_APPROVE | IA_REPOINT | IA_BABYSIT | IA_RECONCILE | IA_RESTART_SUPERVISOR
  | IA_LAUNCH_LOOP | IA_LAUNCH_BACKOFF | IA_ROUTE_FALLBACK | IA_CONFIG_EDIT
  | IA_OPERATOR_NOTE | IA_MIGRATE | IA_HOLD | IA_RELEASE_HOLD | IA_REGISTER_PROJECT
  | IA_DISABLE | IA_PAUSE | IA_ABORT | IA_ABORT_CLOSE | IA_APPROVE_STORY | IA_DECIDE
  | IA_STEER | IA_QUEUE_JUMP | IA_QUEUE_REMOVE

datatype gap_layer = GL_IMPOSSIBLE | GL_STATIC | GL_WITNESS | GL_GUIDANCE | GL_REVIEW | GL_NONE

datatype story_state = SY_PLANNED | SY_APPROVED | SY_PARKED | SY_CLOSED | SY_ABANDONED

datatype child_role = CR_COMPLETES | CR_ADVANCES | CR_SCAFFOLDING

datatype decision_kind = DK_UNMET | DK_REGRESSED | DK_PLAN_DRIFT

datatype witness_verdict = WV_ABSENT | WV_RED | WV_GREEN | WV_ERROR

datatype red_kind = RK_ASSERT | RK_EXCEPTION

datatype witness_verifier = VF_BASELINE | VF_LOOP | VF_OPERATOR

datatype gap_finder = GF_OPERATOR | GF_WITNESS

datatype follow_up_kind = FU_FEATURE | FU_GUARDRAIL

datatype proposal_state = PS_PROPOSED | PS_ACCEPTED | PS_REJECTED | PS_SUPERSEDED

datatype steer_kind = SK_AMENDMENT | SK_HINT

datatype scout_kind = SC_BUG | SC_RESEARCH | SC_RECON | SC_GUARDRAILS

datatype scout_subject = SB_RUN | SB_DEFECT | SB_TICKET | SB_PR

datatype scout_phase =
    SP_QUEUED | SP_PLANNING | SP_SWARMING | SP_SYNTHESIZING | SP_ANSWERING
  | SP_DONE | SP_FAILED | SP_STOPPED

datatype scout_task_mode = SM_READ | SM_RUN

datatype scout_task_phase = ST_QUEUED | ST_RUNNING | ST_DONE | ST_FAILED | ST_STOPPED

datatype thread_mode = TM_ASK | TM_STEER | TM_ANSWER

datatype firing_mode = FM_DRY_RUN | FM_ACT

datatype firing_state =
    FS_PROPOSED | FS_REFUSED | FS_LEASED | FS_CONFIRMED | FS_UNKNOWN | FS_CANCELED

subsection \<open>Values\<close>

fun status_value :: "ticket_status \<Rightarrow> string" where
  "status_value TS_NEEDS_SPEC = ''needs_spec''"
| "status_value TS_READY = ''ready''"
| "status_value TS_IN_FLIGHT = ''in_flight''"
| "status_value TS_BLOCKED_ON_DEPS = ''blocked_on_deps''"
| "status_value TS_BLOCKED_ON_OPERATOR = ''blocked_on_operator''"
| "status_value TS_MERGED = ''merged''"
| "status_value TS_ABANDONED = ''abandoned''"

fun phase_value :: "run_phase \<Rightarrow> string" where
  "phase_value PH_CLAIMED = ''claimed''"
| "phase_value PH_WORKING = ''working''"
| "phase_value PH_VERIFYING = ''verifying''"
| "phase_value PH_REVIEWING = ''reviewing''"
| "phase_value PH_ADDRESSING = ''addressing''"
| "phase_value PH_MERGE_GATE = ''merge_gate''"
| "phase_value PH_AWAITING_MERGE_APPROVAL = ''awaiting_merge_approval''"
| "phase_value PH_MERGING = ''merging''"
| "phase_value PH_SQUASHING = ''squashing''"
| "phase_value PH_DONE = ''done''"
| "phase_value PH_BLOCKED_ON_OPERATOR = ''blocked_on_operator''"
| "phase_value PH_FAILED = ''failed''"
| "phase_value PH_KILLED = ''killed''"
| "phase_value PH_REJECTED = ''rejected''"
| "phase_value PH_PAUSED = ''paused''"

fun outcome_value :: "run_outcome \<Rightarrow> string" where
  "outcome_value OC_MERGED = ''merged''"
| "outcome_value OC_KILLED = ''killed''"
| "outcome_value OC_ABANDONED = ''abandoned''"
| "outcome_value OC_FAILED = ''failed''"
| "outcome_value OC_REJECTED = ''rejected''"
| "outcome_value OC_PAUSED = ''paused''"

fun source_value :: "intervention_source \<Rightarrow> string" where
  "source_value IS_SUPERVISOR = ''supervisor''"
| "source_value IS_HUMAN = ''human''"
| "source_value IS_FACTORY = ''factory''"
| "source_value IS_AUTOMATION = ''automation''"

fun action_value :: "intervention_action \<Rightarrow> string" where
  "action_value IA_REDIRECT = ''redirect''"
| "action_value IA_KILL = ''kill''"
| "action_value IA_EXTEND_TIME_BOX = ''extend_time_box''"
| "action_value IA_RESUME = ''resume''"
| "action_value IA_CLOSE_OUT = ''close_out''"
| "action_value IA_REQUEUE = ''requeue''"
| "action_value IA_APPROVE = ''approve''"
| "action_value IA_REPOINT = ''repoint''"
| "action_value IA_BABYSIT = ''babysit''"
| "action_value IA_RECONCILE = ''reconcile''"
| "action_value IA_RESTART_SUPERVISOR = ''restart_supervisor''"
| "action_value IA_LAUNCH_LOOP = ''launch_loop''"
| "action_value IA_LAUNCH_BACKOFF = ''launch_backoff''"
| "action_value IA_ROUTE_FALLBACK = ''route_fallback''"
| "action_value IA_CONFIG_EDIT = ''config_edit''"
| "action_value IA_OPERATOR_NOTE = ''operator_note''"
| "action_value IA_MIGRATE = ''migrate''"
| "action_value IA_HOLD = ''hold''"
| "action_value IA_RELEASE_HOLD = ''release_hold''"
| "action_value IA_REGISTER_PROJECT = ''register_project''"
| "action_value IA_DISABLE = ''disable''"
| "action_value IA_PAUSE = ''pause''"
| "action_value IA_ABORT = ''abort''"
| "action_value IA_ABORT_CLOSE = ''abort_close''"
| "action_value IA_APPROVE_STORY = ''approve_story''"
| "action_value IA_DECIDE = ''decide''"
| "action_value IA_STEER = ''steer''"
| "action_value IA_QUEUE_JUMP = ''queue_jump''"
| "action_value IA_QUEUE_REMOVE = ''queue_remove''"

subsection \<open>Finite enumerations\<close>

text \<open>
  The two state types with a transition table, and the scouts', are instances of \<open>enum\<close>:
  a statement about all of their states is then decided by evaluation.
\<close>

instantiation run_phase :: enum
begin
definition enum_run_phase :: "run_phase list" where
  "enum_run_phase =
     [PH_CLAIMED, PH_WORKING, PH_VERIFYING, PH_REVIEWING, PH_ADDRESSING, PH_MERGE_GATE,
      PH_AWAITING_MERGE_APPROVAL, PH_MERGING, PH_SQUASHING, PH_DONE,
      PH_BLOCKED_ON_OPERATOR, PH_FAILED, PH_KILLED, PH_REJECTED, PH_PAUSED]"
definition enum_all_run_phase :: "(run_phase \<Rightarrow> bool) \<Rightarrow> bool" where
  "enum_all_run_phase P \<longleftrightarrow> list_all P enum_class.enum"
definition enum_ex_run_phase :: "(run_phase \<Rightarrow> bool) \<Rightarrow> bool" where
  "enum_ex_run_phase P \<longleftrightarrow> list_ex P enum_class.enum"
instance
proof
  show UNIV: "(UNIV :: run_phase set) = set enum_class.enum"
    by (auto simp: enum_run_phase_def intro: run_phase.exhaust)
  show "distinct (enum_class.enum :: run_phase list)"
    by (simp add: enum_run_phase_def)
  fix P :: "run_phase \<Rightarrow> bool"
  show "enum_class.enum_all P \<longleftrightarrow> Ball UNIV P" and "enum_class.enum_ex P \<longleftrightarrow> Bex UNIV P"
    unfolding UNIV by (simp_all add: enum_all_run_phase_def enum_ex_run_phase_def list_all_iff list_ex_iff)
qed
end

instantiation ticket_status :: enum
begin
definition enum_ticket_status :: "ticket_status list" where
  "enum_ticket_status =
     [TS_NEEDS_SPEC, TS_READY, TS_IN_FLIGHT, TS_BLOCKED_ON_DEPS, TS_BLOCKED_ON_OPERATOR,
      TS_MERGED, TS_ABANDONED]"
definition enum_all_ticket_status :: "(ticket_status \<Rightarrow> bool) \<Rightarrow> bool" where
  "enum_all_ticket_status P \<longleftrightarrow> list_all P enum_class.enum"
definition enum_ex_ticket_status :: "(ticket_status \<Rightarrow> bool) \<Rightarrow> bool" where
  "enum_ex_ticket_status P \<longleftrightarrow> list_ex P enum_class.enum"
instance
proof
  show UNIV: "(UNIV :: ticket_status set) = set enum_class.enum"
    by (auto simp: enum_ticket_status_def intro: ticket_status.exhaust)
  show "distinct (enum_class.enum :: ticket_status list)"
    by (simp add: enum_ticket_status_def)
  fix P :: "ticket_status \<Rightarrow> bool"
  show "enum_class.enum_all P \<longleftrightarrow> Ball UNIV P" and "enum_class.enum_ex P \<longleftrightarrow> Bex UNIV P"
    unfolding UNIV by (simp_all add: enum_all_ticket_status_def enum_ex_ticket_status_def list_all_iff list_ex_iff)
qed
end

subsection \<open>The transition tables\<close>

definition resumable_work_phases :: "run_phase list" where
  "resumable_work_phases = [PH_WORKING, PH_VERIFYING, PH_REVIEWING, PH_ADDRESSING]"

text \<open>The literal of \<^verbatim>\<open>RUN_PHASE_TRANSITIONS\<close>; \<open>PH_PAUSED\<close> has no entry in it yet.\<close>

fun run_phase_literal :: "run_phase \<Rightarrow> run_phase list" where
  "run_phase_literal PH_CLAIMED =
     [PH_WORKING, PH_MERGE_GATE, PH_AWAITING_MERGE_APPROVAL, PH_FAILED, PH_KILLED]"
| "run_phase_literal PH_WORKING =
     [PH_VERIFYING, PH_FAILED, PH_BLOCKED_ON_OPERATOR, PH_KILLED]"
| "run_phase_literal PH_VERIFYING =
     [PH_REVIEWING, PH_FAILED, PH_AWAITING_MERGE_APPROVAL, PH_KILLED]"
| "run_phase_literal PH_REVIEWING =
     [PH_ADDRESSING, PH_MERGE_GATE, PH_VERIFYING, PH_AWAITING_MERGE_APPROVAL, PH_FAILED,
      PH_KILLED]"
| "run_phase_literal PH_ADDRESSING =
     [PH_VERIFYING, PH_FAILED, PH_BLOCKED_ON_OPERATOR, PH_KILLED]"
| "run_phase_literal PH_MERGE_GATE =
     [PH_MERGING, PH_DONE, PH_VERIFYING, PH_AWAITING_MERGE_APPROVAL, PH_FAILED, PH_KILLED,
      PH_REJECTED]"
| "run_phase_literal PH_AWAITING_MERGE_APPROVAL = [PH_DONE, PH_FAILED, PH_KILLED, PH_REJECTED]"
| "run_phase_literal PH_MERGING =
     [PH_DONE, PH_FAILED, PH_VERIFYING, PH_MERGE_GATE, PH_AWAITING_MERGE_APPROVAL,
      PH_BLOCKED_ON_OPERATOR, PH_KILLED]"
| "run_phase_literal PH_SQUASHING = []"
| "run_phase_literal PH_DONE = []"
| "run_phase_literal PH_FAILED = resumable_work_phases"
| "run_phase_literal PH_BLOCKED_ON_OPERATOR = [PH_WORKING, PH_FAILED]"
| "run_phase_literal PH_KILLED = []"
| "run_phase_literal PH_REJECTED = []"
| "run_phase_literal PH_PAUSED = []"

text \<open>The loop after the literal adds \<^verbatim>\<open>paused\<close> to nine phases and gives it an entry.\<close>

definition pausable_phases :: "run_phase list" where
  "pausable_phases =
     [PH_CLAIMED, PH_WORKING, PH_VERIFYING, PH_REVIEWING, PH_ADDRESSING, PH_MERGE_GATE,
      PH_MERGING, PH_SQUASHING, PH_AWAITING_MERGE_APPROVAL]"

definition run_phase_transitions :: "run_phase \<Rightarrow> run_phase list" where
  "run_phase_transitions p =
     (if p = PH_PAUSED
      then [PH_WORKING, PH_VERIFYING, PH_REVIEWING, PH_ADDRESSING, PH_MERGE_GATE, PH_MERGING]
      else run_phase_literal p @ (if p \<in> set pausable_phases then [PH_PAUSED] else []))"

fun ticket_transitions :: "ticket_status \<Rightarrow> ticket_status list" where
  "ticket_transitions TS_NEEDS_SPEC = [TS_READY]"
| "ticket_transitions TS_READY = [TS_IN_FLIGHT, TS_BLOCKED_ON_DEPS]"
| "ticket_transitions TS_IN_FLIGHT = [TS_MERGED, TS_ABANDONED, TS_BLOCKED_ON_OPERATOR]"
| "ticket_transitions TS_BLOCKED_ON_DEPS = [TS_READY, TS_BLOCKED_ON_OPERATOR]"
| "ticket_transitions TS_BLOCKED_ON_OPERATOR = [TS_BLOCKED_ON_DEPS]"
| "ticket_transitions TS_MERGED = []"
| "ticket_transitions TS_ABANDONED = []"

fun terminal_phase :: "run_outcome \<Rightarrow> run_phase" where
  "terminal_phase OC_PAUSED = PH_PAUSED"
| "terminal_phase OC_REJECTED = PH_REJECTED"
| "terminal_phase OC_MERGED = PH_DONE"
| "terminal_phase OC_KILLED = PH_KILLED"
| "terminal_phase OC_ABANDONED = PH_FAILED"
| "terminal_phase OC_FAILED = PH_FAILED"

definition ended_phases :: "run_phase list" where
  "ended_phases = [PH_PAUSED, PH_REJECTED, PH_DONE, PH_KILLED, PH_FAILED]"

definition resumable_phases :: "run_phase list" where
  "resumable_phases = resumable_work_phases @ [PH_FAILED, PH_BLOCKED_ON_OPERATOR, PH_PAUSED]"

definition parked_phases :: "run_phase list" where
  "parked_phases = [PH_BLOCKED_ON_OPERATOR, PH_AWAITING_MERGE_APPROVAL]"

lemma terminal_phase_ended [simp]: "terminal_phase oc \<in> set ended_phases"
  by (cases oc) (simp_all add: ended_phases_def)

lemma ended_phases_terminal: "p \<in> set ended_phases \<longleftrightarrow> (\<exists>oc. terminal_phase oc = p)"
proof -
  have "\<forall>p. p \<in> set ended_phases \<longrightarrow>
      p \<in> terminal_phase ` {OC_MERGED, OC_KILLED, OC_REJECTED, OC_PAUSED, OC_FAILED}"
    by (auto simp: ended_phases_def image_def)
  then show ?thesis using terminal_phase_ended by blast
qed

text \<open>
  The phases nothing leaves: no successor in the table, and not one \<^verbatim>\<open>resume()\<close> takes.
\<close>

definition sealed_phases :: "run_phase list" where
  "sealed_phases = [PH_DONE, PH_KILLED, PH_REJECTED]"

lemma sealed_phases_iff:
  "p \<in> set sealed_phases \<longleftrightarrow> run_phase_transitions p = [] \<and> p \<notin> set resumable_phases"
  by (cases p) (simp_all add: sealed_phases_def run_phase_transitions_def pausable_phases_def
      resumable_phases_def resumable_work_phases_def)

subsection \<open>The mermaid rendering\<close>

text \<open>\<^verbatim>\<open>render_state_graph()\<close> of \<^verbatim>\<open>store/tickets.py\<close>, over a table given by its keys and edges.\<close>

definition render_state_graph :: "string list \<Rightarrow> (string \<Rightarrow> string list) \<Rightarrow> string" where
  "render_state_graph states succs =
     join ''\<newline>''
       ([''stateDiagram-v2''] @
        map (\<lambda>st. ''    '' @ st) (sort states) @
        concat (map (\<lambda>src. map (\<lambda>dst. ''    '' @ src @ '' --> '' @ dst) (sort (succs src)))
          (sort states)))
     @ ''\<newline>''"

end
