(* ===== verification/Redact.thy ===== *)
theory Redact
  imports Enums
begin

section \<open>Redact: the registered secret values and what is replaced by them\<close>

text \<open>
  The process-wide registry of \<^verbatim>\<open>holophyte/redact.py\<close> and the two functions the store calls
  before it writes text. \<^verbatim>\<open>_environment_values\<close> is a \<^verbatim>\<open>frozenset\<close>: the model keeps it as a
  list and the order of its elements is Python's iteration order, so a theorem for every
  list is one for every order. A JSON document is a \<open>json\<close> value.
\<close>

datatype json =
    JNull
  | JBool bool
  | JInt int
  | JStr string
  | JList "json list"
  | JObj "(string \<times> json) list"

definition REDACTED :: string where
  "REDACTED = ''[redacted]''"

text \<open>\<^verbatim>\<open>sorted(values, key=len, reverse=True)\<close> keeps the order of equal keys.\<close>

definition longest_first :: "string list \<Rightarrow> string list" where
  "longest_first vals = sort_key (\<lambda>v. - int (length v)) vals"

definition redact_values :: "string list \<Rightarrow> string \<Rightarrow> string" where
  "redact_values vals text = fold (\<lambda>v t. py_replace v REDACTED t) (longest_first vals) text"

primrec redact_document :: "string list \<Rightarrow> json \<Rightarrow> json" where
  "redact_document vals JNull = JNull"
| "redact_document vals (JBool b) = JBool b"
| "redact_document vals (JInt i) = JInt i"
| "redact_document vals (JStr s) = JStr (redact_values vals s)"
| "redact_document vals (JList xs) = JList (map (redact_document vals) xs)"
| "redact_document vals (JObj fields) = JObj (map (map_prod id (redact_document vals)) fields)"

subsection \<open>The registry\<close>

definition unquoted :: "string \<Rightarrow> string option" where
  "unquoted v =
     (if 2 \<le> length v \<and> (hd v = CHR 34 \<or> hd v = CHR 39) \<and> last v = hd v
      then Some (butlast (tl v)) else None)"

definition register_values :: "string list \<Rightarrow> string list \<Rightarrow> string list" where
  "register_values new held =
     remdups (held @ filter (\<lambda>v. v \<noteq> []) (new @ List.map_filter unquoted new))"

text \<open>\<^verbatim>\<open>with values_held(values)\<close>: the registry inside the block, and the one it leaves.\<close>

definition values_held_enter :: "string list \<Rightarrow> string list \<Rightarrow> string list" where
  "values_held_enter new before = register_values new before"

definition values_held_exit :: "string list \<Rightarrow> string list \<Rightarrow> string list \<Rightarrow> string list" where
  "values_held_exit new before current =
     (let added = filter (\<lambda>v. v \<notin> set before) (register_values new before)
      in remdups (before @ filter (\<lambda>v. v \<notin> set added) current))"

lemma set_longest_first [simp]: "set (longest_first vals) = set vals"
  by (simp add: longest_first_def)

lemma redacted_not_blank [simp]: "\<not> blank REDACTED"
  by (simp add: REDACTED_def blank_iff py_space_def)

lemma fold_replace_not_blank:
  "\<not> blank t \<Longrightarrow> \<not> blank (fold (\<lambda>v t. py_replace v REDACTED t) vs t)"
  by (induction vs arbitrary: t) (simp_all add: py_replace_not_blank)

lemma redact_values_not_blank [simp]: "\<not> blank t \<Longrightarrow> \<not> blank (redact_values vals t)"
  by (simp add: redact_values_def fold_replace_not_blank)

lemma redact_values_none [simp]: "redact_values [] t = t"
  by (simp add: redact_values_def longest_first_def)

text \<open>A text that lacks a character of every registered value is written as it is.\<close>

lemma redact_values_idle:
  assumes "\<And>v. v \<in> set vals \<Longrightarrow> \<exists>c \<in> set v. c \<notin> set t"
  shows "redact_values vals t = t"
proof -
  have "\<forall>v \<in> set vs. \<exists>c \<in> set v. c \<notin> set t \<Longrightarrow> fold (\<lambda>v t. py_replace v REDACTED t) vs t = t" for vs
    by (induction vs) (auto simp: py_replace_idle)
  then show ?thesis
    using assms by (simp add: redact_values_def)
qed

lemma register_values_nonempty:
  "[] \<notin> set held \<Longrightarrow> [] \<notin> set (register_values new held)"
  by (simp add: register_values_def)

lemma register_values_grows: "set held \<subseteq> set (register_values new held)"
  by (auto simp: register_values_def)

lemma values_held_restores:
  assumes "[] \<notin> set before"
  shows "set (values_held_exit new before (values_held_enter new before)) = set before"
  using register_values_grows [of before new]
  by (auto simp: values_held_exit_def values_held_enter_def)

end
