(* ===== verification/Store.thy ===== *)
theory Store
  imports Redact
begin

section \<open>Store: the tables, the row-level writes and the event log\<close>

text \<open>
  The data model of \<^verbatim>\<open>store/ddl.py\<close>: one record per table, one field per column (a column
  that may be NULL is an \<open>option\<close>, a column the code writes as JSON holds the value the
  JSON encodes), and \<open>store\<close>, the record of all tables. A table is the list of its rows in
  rowid order. \<open>upd_run k f\<close> is \<^verbatim>\<open>UPDATE runs SET ... WHERE id = k\<close>, \<open>upd_runs P f\<close> the
  same with another \<^verbatim>\<open>WHERE\<close>, \<open>add_run\<close> an \<^verbatim>\<open>INSERT\<close>, and likewise for the other tables.

  \<open>env\<close> is what an operation reads outside the store: the clock (the \<^verbatim>\<open>now\<close> the caller
  passes or \<^verbatim>\<open>time.time()\<close>), the registered secret values, the host, the process, the login
  name, the \<^verbatim>\<open>acting_as\<close> actor, and three functions of code outside the store: the evidence
  states \<^verbatim>\<open>ticket_template.parse(body)\<close> reads off a ticket body, the witness kinds
  \<^verbatim>\<open>ticket_criteria.witnesses(texts, commands)\<close> finds for criteria, and \<^verbatim>\<open>hashlib.sha256\<close>. An exception of the code is a value of \<open>err\<close>; every operation runs in
  one transaction, so an operation that raises leaves the store it was given.
\<close>

subsection \<open>Environment and exceptions\<close>

record env =
  clock :: int
  secrets :: "string list"
  host_name :: string
  process_id :: int
  login :: string
  acting :: intervention_actor
  evidence_of :: "string \<Rightarrow> string list"
  witnesses_of :: "string list \<Rightarrow> string list \<Rightarrow> (criterion_witness_kind \<times> string option) list"
  sha256 :: "string \<Rightarrow> string"

datatype err =
    NoRun nat
  | NoTicket nat
  | NoProject nat
  | RunEnded nat "run_outcome option" "string option"
  | IllegalPhase nat run_phase run_phase
  | IllegalStatus nat ticket_status ticket_status
  | NoStatusPath nat ticket_status ticket_status
  | NotParkedPhase run_phase
  | MergeShaNotMerged run_outcome
  | PayloadLevel
  | BlankText string
  | RedirectNeedsQuestion
  | IntegrityError string
  | AdmissionUnchanged nat
  | ProjectRequired
  | ClaimConflict string
  | RevisionMoved string nat nat
  | RequeueRefused string
  | ApproveRefused string
  | RepointRefused string
  | ResumeRefused nat
  | GuidanceNotAccepted nat
  | AlreadyEnded nat
  | CannotAbandon nat run_phase
  | CommentWithoutClose
  | ValueError string
  | FilingRefused "string list"
  | SteerRefused string
  | ScoutRefused nat scout_phase
  | ThreadRefused string
  | AskRefused string

subsection \<open>Rows\<close>

record project_row =
  p_id :: nat
  p_team :: string
  p_repo :: string
  p_branch :: string
  p_autonomy :: autonomy_profile
  p_high_risk :: "string list"
  p_verification :: "string option"
  p_admission :: project_admission
  p_hold_note :: "string option"
  p_asked_at :: "int option"
  p_backoff_until :: "int option"
  p_backoff :: "(string \<times> int \<times> int) option"
  p_active :: "nat option"
  p_seq :: nat

record ticket_row =
  t_id :: nat
  t_project :: nat
  t_issue :: string
  t_url :: "string option"
  t_board_state :: "string option"
  t_ident :: string
  t_title :: string
  t_body :: string
  t_status :: ticket_status
  t_criteria :: "string list"
  t_commands :: "string list"
  t_time_box :: "int option"
  t_affinity :: affinity
  t_depends :: "string list"
  t_active :: "nat option"
  t_last :: "nat option"
  t_question :: "string option"
  t_split_depth :: nat
  t_mirrored :: int
  t_column :: "board_column option"
  t_priority :: "int option"
  t_labels :: "string list"
  t_filed :: "int option"
  t_board_updated :: "int option"
  t_revision :: nat
  t_push_state :: "string option"
  t_push_from :: "string option"
  t_push_at :: "int option"
  t_gone :: "int option"
  t_parent :: "nat option"

record criterion_row =
  c_id :: nat
  c_ticket :: nat
  c_criterion :: nat
  c_position :: "nat option"
  c_text :: string
  c_kind :: criterion_witness_kind
  c_target :: "string option"
  c_status :: criterion_status
  c_source :: string
  c_steer :: "nat option"
  c_at :: int

text \<open>The frozen contract, \<^verbatim>\<open>contract_snapshot()\<close>; an older snapshot has no evidence states.\<close>

record contract =
  k_title :: string
  k_criteria :: "string list"
  k_commands :: "string list"
  k_evidence :: "string list option"

text \<open>The \<^verbatim>\<open>prSeen*\<close> columns of \<^verbatim>\<open>runs\<close>.\<close>

record pr_seen =
  ps_at :: "string option"
  ps_threads :: "int option"
  ps_open_threads :: "int option"
  ps_open_floor :: "int option"
  ps_checks :: "string option"
  ps_review :: "string option"
  ps_title :: "string option"
  ps_state :: "string option"
  ps_additions :: "int option"
  ps_deletions :: "int option"
  ps_changed :: "int option"
  ps_preview :: "string option"
  ps_shots :: "(string \<times> string) list option"
  ps_videos :: "(string \<times> string) list option"

record run_row =
  r_id :: nat
  r_ticket :: nat
  r_project :: nat
  r_attempt :: nat
  r_phase :: run_phase
  r_worker :: "string option"
  r_session :: "string option"
  r_branch :: "string option"
  r_pr :: "string option"
  r_park :: "park_kind option"
  r_started :: int
  r_heartbeat :: int
  r_ended :: "int option"
  r_rounds :: nat
  r_time_box :: "int option"
  r_working :: "int option"
  r_work_started :: "int option"
  r_verify :: "int option"
  r_verify_started :: "int option"
  r_snapshot :: "contract option"
  r_revision :: "nat option"
  r_story_gen :: "nat option"
  r_outcome :: "run_outcome option"
  r_reason :: "string option"
  r_failure :: "failure_kind option"
  r_merge_sha :: "string option"
  r_class :: outcome_class
  r_host :: "string option"
  r_pid :: "int option"
  r_stop :: "nat option"
  r_resume :: "run_phase option"
  r_candidate :: "string option"
  r_approved_sha :: "string option"
  r_approved_at :: "int option"
  r_approved_by :: "string option"
  r_round_cap :: "int option"
  r_seen :: pr_seen

text \<open>A review finding; \<open>fd_print\<close> is its \<^verbatim>\<open>fingerprint\<close> sub-object, used for the key.\<close>

datatype severity = SEV_P0 | SEV_P1 | SEV_P2 | SEV_NIT

record finding_key =
  fk_path :: string
  fk_severity :: severity
  fk_line :: "int option"

record finding =
  fd_key :: finding_key
  fd_print :: "finding_key option"
  fd_message :: string
  fd_evidence_only :: bool

record round_row =
  rr_id :: nat
  rr_run :: nat
  rr_round :: int
  rr_results :: "json list"
  rr_verdict :: review_verdict
  rr_findings :: "finding list"
  rr_fingerprint :: string
  rr_model :: string
  rr_started :: int
  rr_ended :: "int option"

text \<open>An event's payload: a JSON document, or a text \<^verbatim>\<open>json.loads\<close> refuses.\<close>

datatype payload = PDoc json | PText string

record event_row =
  e_id :: nat
  e_run :: "nat option"
  e_project :: "nat option"
  e_seq :: nat
  e_level :: event_level
  e_kind :: string
  e_summary :: string
  e_payload :: "payload option"
  e_at :: int
  e_scout :: "nat option"

record strike_row =
  s_run :: nat
  s_strikes :: nat
  s_last_seen :: int

record beat_row =
  b_pid :: int
  b_started :: int
  b_last :: int
  b_passes :: nat
  b_host :: "string option"

record restart_row =
  lr_id :: nat
  lr_project :: nat
  lr_sha :: string
  lr_at :: int
  lr_returned :: "int option"
  lr_reported :: "int option"

record ledger_row =
  l_id :: nat
  l_run :: nat
  l_ticket :: nat
  l_at :: int
  l_kind :: ledger_kind
  l_text :: string
  l_source :: ledger_source

record revision_row =
  v_ticket :: nat
  v_revision :: nat
  v_at :: int
  v_author :: string
  v_title :: string
  v_body :: string
  v_priority :: "int option"
  v_labels :: "string list"
  v_column :: "board_column option"

record note_row =
  n_id :: nat
  n_ticket :: nat
  n_run :: "nat option"
  n_at :: int
  n_author :: string
  n_kind :: string
  n_key :: "string option"
  n_text :: string
  n_posted :: "int option"
  n_error :: "string option"

record intervention_row =
  i_id :: nat
  i_run :: "nat option"
  i_project :: "nat option"
  i_source :: intervention_source
  i_trigger :: intervention_trigger
  i_action :: intervention_action
  i_note :: "string option"
  i_question :: "string option"
  i_guidance :: "string option"
  i_at :: int
  i_actor :: "intervention_actor option"
  i_firing :: "nat option"

text \<open>The approved plan document: the children and the dependency edges by identifier.\<close>

record plan_child =
  pc_ident :: string
  pc_role :: child_role
  pc_keys :: "string list"

record plan =
  pl_children :: "plan_child list"
  pl_edges :: "(string \<times> string list) list"

record story_row =
  y_ticket :: nat
  y_state :: story_state
  y_generation :: nat
  y_orders :: "string list"
  y_approved_rev :: "nat option"
  y_plan :: "plan option"
  y_approved_by :: "string option"
  y_approved_at :: "int option"
  y_closed_sha :: "string option"
  y_closed_at :: "int option"
  y_paths :: "string list option"

record witness_row =
  w_story :: nat
  w_key :: string
  w_criterion :: string
  w_file :: string
  w_command :: string
  w_source :: string
  w_hash :: string
  w_completed_by :: "nat option"

record child_row =
  ch_ticket :: nat
  ch_key :: string
  ch_story :: nat
  ch_role :: child_role

record result_row =
  wr_id :: nat
  wr_story :: nat
  wr_key :: string
  wr_sha :: string
  wr_verdict :: witness_verdict
  wr_red :: "red_kind option"
  wr_verifier :: witness_verifier
  wr_hash :: "string option"
  wr_evidence :: "string option"
  wr_seconds :: "int option"
  wr_at :: int
  wr_carried :: "string option"

record decision_row =
  d_id :: nat
  d_story :: nat
  d_ticket :: "nat option"
  d_kind :: decision_kind
  d_question :: string
  d_options :: "string list"
  d_default :: string
  d_answer :: "string option"
  d_answered_by :: "string option"
  d_answered_at :: "int option"
  d_at :: int

record follow_up_row =
  f_id :: nat
  f_run :: nat
  f_ticket :: nat
  f_sha :: string
  f_kind :: follow_up_kind
  f_given :: bool
  f_text :: string
  f_path :: "string option"
  f_line :: "int option"
  f_print :: string
  f_created :: int
  f_settled :: "int option"
  f_filed_as :: "string option"
  f_duplicate :: "string option"
  f_error :: "string option"

record proposal_row =
  q_id :: nat
  q_story :: nat
  q_follow_up :: nat
  q_raised_by :: nat
  q_title :: string
  q_body :: string
  q_state :: proposal_state
  q_child :: "nat option"
  q_decided_by :: "string option"
  q_decided_at :: "int option"
  q_at :: int

record steer_row =
  m_id :: nat
  m_ticket :: nat
  m_run :: "nat option"
  m_kind :: steer_kind
  m_note :: string
  m_author :: string
  m_at :: int
  m_intervention :: nat
  m_event :: "nat option"
  m_consumed_by :: "nat option"
  m_consumed_at :: "int option"
  m_interrupt :: bool
  m_withdrawn_by :: "nat option"

record scout_row =
  sc_id :: nat
  sc_project :: nat
  sc_ask :: string
  sc_kind :: scout_kind
  sc_links :: "string list"
  sc_lead_route :: "string option"
  sc_lead_session :: "string option"
  sc_helper_route :: "string option"
  sc_swarm :: "int option"
  sc_helper_turns :: "int option"
  sc_waves :: "int option"
  sc_budget :: int
  sc_phase :: scout_phase
  sc_reason :: "string option"
  sc_base :: "string option"
  sc_host :: "string option"
  sc_pid :: "int option"
  sc_created :: int
  sc_started :: "int option"
  sc_beat :: "int option"
  sc_ended :: "int option"
  sc_totals :: "json option"
  sc_subject_kind :: "scout_subject option"
  sc_subject_ref :: "string option"
  sc_title :: "string option"

record report_row =
  sr_id :: nat
  sr_scout :: nat
  sr_pass :: nat
  sr_report :: json
  sr_at :: int

record task_row =
  sk_id :: nat
  sk_scout :: nat
  sk_pass :: nat
  sk_wave :: nat
  sk_question :: string
  sk_title :: "string option"
  sk_paths :: "string list"
  sk_mode :: scout_task_mode
  sk_route :: "string option"
  sk_phase :: scout_task_phase
  sk_started :: "int option"
  sk_ended :: "int option"
  sk_duration :: "int option"
  sk_tokens :: "int option"
  sk_cost :: "int option"
  sk_excerpt :: "string option"

record action_row =
  sa_id :: nat
  sa_scout :: nat
  sa_pass :: nat
  sa_position :: nat
  sa_item :: json
  sa_key :: "string option"
  sa_filed :: "int option"

record message_row =
  tm_id :: nat
  tm_project :: nat
  tm_scout :: "nat option"
  tm_author :: string
  tm_mode :: thread_mode
  tm_text :: string
  tm_blocks :: "json list"
  tm_answers :: "nat option"
  tm_at :: int
  tm_consumed_by :: "nat option"
  tm_consumed_at :: "int option"

text \<open>A firing's \<^verbatim>\<open>detail\<close> object as an association list, as \<^verbatim>\<open>json_set\<close> edits it.\<close>

record firing_row =
  fr_id :: nat
  fr_project :: nat
  fr_automation :: string
  fr_revision :: nat
  fr_subject :: string
  fr_cause :: string
  fr_key :: string
  fr_mode :: firing_mode
  fr_state :: firing_state
  fr_reason :: string
  fr_detail :: "(string \<times> json) list"
  fr_created :: int
  fr_settled :: "int option"
  fr_lease :: "int option"
  fr_pid :: "int option"

record pause_row =
  ap_id :: nat
  ap_automation :: string
  ap_note :: string
  ap_actor :: pause_actor
  ap_created :: int
  ap_cleared :: "int option"
  ap_clear_note :: "string option"

record hold_row =
  mh_id :: nat
  mh_project :: nat
  mh_sha :: string
  mh_checks :: "string list"
  mh_firing :: nat
  mh_held :: int
  mh_ended :: "int option"
  mh_reason :: "string option"

subsection \<open>The store\<close>

record store =
  projects :: "project_row list"
  tickets :: "ticket_row list"
  criteria :: "criterion_row list"
  runs :: "run_row list"
  rounds :: "round_row list"
  events :: "event_row list"
  sweep_strikes :: "strike_row list"
  beats :: "beat_row list"
  restarts :: "restart_row list"
  ledger :: "ledger_row list"
  revisions :: "revision_row list"
  ticket_notes :: "note_row list"
  interventions :: "intervention_row list"
  stories :: "story_row list"
  story_witnesses :: "witness_row list"
  story_children :: "child_row list"
  witness_results :: "result_row list"
  decisions :: "decision_row list"
  follow_ups :: "follow_up_row list"
  proposals :: "proposal_row list"
  steer_notes :: "steer_row list"
  scouts :: "scout_row list"
  scout_reports :: "report_row list"
  scout_tasks :: "task_row list"
  scout_actions :: "action_row list"
  messages :: "message_row list"
  firings :: "firing_row list"
  pauses :: "pause_row list"
  holds :: "hold_row list"

definition empty_store :: store where
  "empty_store =
     \<lparr>projects = [], tickets = [], criteria = [], runs = [], rounds = [], events = [],
      sweep_strikes = [], beats = [], restarts = [], ledger = [], revisions = [], ticket_notes = [],
      interventions = [], stories = [], story_witnesses = [], story_children = [],
      witness_results = [], decisions = [], follow_ups = [], proposals = [], steer_notes = [],
      scouts = [], scout_reports = [], scout_tasks = [], scout_actions = [], messages = [],
      firings = [], pauses = [], holds = []\<rparr>"

subsection \<open>Reads by id and row-level writes\<close>

abbreviation run_of :: "nat \<Rightarrow> store \<Rightarrow> run_row option" where
  "run_of k s \<equiv> fetch r_id k (runs s)"

abbreviation ticket_of :: "nat \<Rightarrow> store \<Rightarrow> ticket_row option" where
  "ticket_of k s \<equiv> fetch t_id k (tickets s)"

abbreviation project_of :: "nat \<Rightarrow> store \<Rightarrow> project_row option" where
  "project_of k s \<equiv> fetch p_id k (projects s)"

abbreviation story_of :: "nat \<Rightarrow> store \<Rightarrow> story_row option" where
  "story_of k s \<equiv> fetch y_ticket k (stories s)"

abbreviation scout_of :: "nat \<Rightarrow> store \<Rightarrow> scout_row option" where
  "scout_of k s \<equiv> fetch sc_id k (scouts s)"

abbreviation firing_of :: "nat \<Rightarrow> store \<Rightarrow> firing_row option" where
  "firing_of k s \<equiv> fetch fr_id k (firings s)"

definition upd_run :: "nat \<Rightarrow> (run_row \<Rightarrow> run_row) \<Rightarrow> store \<Rightarrow> store" where
  [table_defs]: "upd_run k f = runs_update (modify (\<lambda>r. r_id r = k) f)"

definition upd_runs :: "(run_row \<Rightarrow> bool) \<Rightarrow> (run_row \<Rightarrow> run_row) \<Rightarrow> store \<Rightarrow> store" where
  [table_defs]: "upd_runs P f = runs_update (modify P f)"

definition add_run :: "run_row \<Rightarrow> store \<Rightarrow> store" where
  [table_defs]: "add_run r = runs_update (\<lambda>rows. rows @ [r])"

definition upd_ticket :: "nat \<Rightarrow> (ticket_row \<Rightarrow> ticket_row) \<Rightarrow> store \<Rightarrow> store" where
  [table_defs]: "upd_ticket k f = tickets_update (modify (\<lambda>t. t_id t = k) f)"

definition add_ticket :: "ticket_row \<Rightarrow> store \<Rightarrow> store" where
  [table_defs]: "add_ticket t = tickets_update (\<lambda>rows. rows @ [t])"

definition upd_project :: "nat \<Rightarrow> (project_row \<Rightarrow> project_row) \<Rightarrow> store \<Rightarrow> store" where
  [table_defs]: "upd_project k f = projects_update (modify (\<lambda>p. p_id p = k) f)"

definition upd_story :: "nat \<Rightarrow> (story_row \<Rightarrow> story_row) \<Rightarrow> store \<Rightarrow> store" where
  [table_defs]: "upd_story k f = stories_update (modify (\<lambda>y. y_ticket y = k) f)"

definition upd_scout :: "nat \<Rightarrow> (scout_row \<Rightarrow> scout_row) \<Rightarrow> store \<Rightarrow> store" where
  [table_defs]: "upd_scout k f = scouts_update (modify (\<lambda>c. sc_id c = k) f)"

definition upd_firing :: "nat \<Rightarrow> (firing_row \<Rightarrow> firing_row) \<Rightarrow> store \<Rightarrow> store" where
  [table_defs]: "upd_firing k f = firings_update (modify (\<lambda>c. fr_id c = k) f)"

definition next_run :: "store \<Rightarrow> nat" where
  [table_defs]: "next_run s = next_id r_id (runs s)"

interpretation runs_tab: growing_table "\<lambda>k s. fetch r_id k (runs s)" upd_run r_id next_run add_run
  using growing_table_field [of runs runs_update r_id]
  by (simp add: upd_run_def [abs_def] add_run_def [abs_def] next_run_def [abs_def])

interpretation tickets_tab: growing_table "\<lambda>k s. fetch t_id k (tickets s)" upd_ticket t_id
    "\<lambda>s. next_id t_id (tickets s)" add_ticket
  using growing_table_field [of tickets tickets_update t_id]
  by (simp add: upd_ticket_def [abs_def] add_ticket_def [abs_def])

interpretation projects_tab: keyed_table "\<lambda>k s. fetch p_id k (projects s)" upd_project p_id
  using keyed_table_field [of projects projects_update p_id]
  by (simp add: upd_project_def [abs_def])

interpretation stories_tab: keyed_table "\<lambda>k s. fetch y_ticket k (stories s)" upd_story y_ticket
  using keyed_table_field [of stories stories_update y_ticket]
  by (simp add: upd_story_def [abs_def])

interpretation scouts_tab: keyed_table "\<lambda>k s. fetch sc_id k (scouts s)" upd_scout sc_id
  using keyed_table_field [of scouts scouts_update sc_id]
  by (simp add: upd_scout_def [abs_def])

interpretation firings_tab: keyed_table "\<lambda>k s. fetch fr_id k (firings s)" upd_firing fr_id
  using keyed_table_field [of firings firings_update fr_id]
  by (simp add: upd_firing_def [abs_def])

end
