(* ===== verification/Desk.thy ===== *)
theory Desk
  imports Store
begin

section \<open>Desk: how the rows of the side tables live\<close>

text \<open>
  Beside the lifecycle of runs, tickets and stories the store keeps a dozen tables whose rows
  have a life of their own: firings, pauses, merge holds, scouts with their tasks, actions,
  reports and thread, follow-ups, proposals, decisions, steers. \<open>row_step\<close> is the one step all of
  them make: a row arrives, or rows change, under the conditions \<open>grows\<close> and \<open>moves\<close> of the table.
  Two interfaces carry the conditions over a history: \<open>lived_table\<close> (a row is never lost and
  its life is a path of \<open>moves\<close>) and \<open>unique_table\<close> (at most one row of a tag meets a
  condition). \<open>desk_safe\<close> says that every table of the desk took only such steps; it is part
  of what every operation of the store is proved to keep.
\<close>

subsection \<open>One table\<close>

inductive row_step ::
    "('r \<Rightarrow> 'k) \<Rightarrow> ('r list \<Rightarrow> 'r \<Rightarrow> bool) \<Rightarrow> ('r \<Rightarrow> 'r \<Rightarrow> bool) \<Rightarrow> 'r list \<Rightarrow> 'r list \<Rightarrow> bool"
  for key grows moves where
  arrive: "grows rows r \<Longrightarrow> row_step key grows moves rows (rows @ [r])"
| change: "(\<And>r. key (f r) = key r) \<Longrightarrow> (\<And>r. keyed key rows \<Longrightarrow> r \<in> set rows \<Longrightarrow> P r \<Longrightarrow> moves r (f r)) \<Longrightarrow>
    row_step key grows moves rows (modify P f rows)"

abbreviation row_run ::
    "('r \<Rightarrow> 'k) \<Rightarrow> ('r list \<Rightarrow> 'r \<Rightarrow> bool) \<Rightarrow> ('r \<Rightarrow> 'r \<Rightarrow> bool) \<Rightarrow> 'r list \<Rightarrow> 'r list \<Rightarrow> bool" where
  "row_run key grows moves \<equiv> (row_step key grows moves)\<^sup>*\<^sup>*"

locale lived_table =
  fixes key :: "'r \<Rightarrow> 'k"
    and grows :: "'r list \<Rightarrow> 'r \<Rightarrow> bool"
    and moves :: "'r \<Rightarrow> 'r \<Rightarrow> bool"
  assumes fresh: "grows rows r \<Longrightarrow> fetch key (key r) rows = None"
begin

lemma keyed_run: "row_run key grows moves rows rows' \<Longrightarrow> keyed key rows \<Longrightarrow> keyed key rows'"
proof (induction rule: rtranclp_induct)
  case (step y z)
  from step.hyps(2) step.IH [OF step.prems] show ?case
    by cases (auto simp: keyed_def fetch_None_iff map_modify dest!: fresh)
qed simp

lemma row_lives:
  "row_step key grows moves rows rows' \<Longrightarrow> keyed key rows \<Longrightarrow> fetch key k rows = Some r \<Longrightarrow>
   \<exists>q. fetch key k rows' = Some q \<and> moves\<^sup>*\<^sup>* r q"
proof (induction rule: row_step.induct)
  case (arrive rows q)
  then show ?case by (auto simp: fetch_append)
next
  case (change f rows P)
  then show ?case
    by (auto simp: fetch_modify dest: fetch_SomeD)
qed

lemma row_history:
  "row_run key grows moves rows rows' \<Longrightarrow> keyed key rows \<Longrightarrow> fetch key k rows = Some r \<Longrightarrow>
   \<exists>q. fetch key k rows' = Some q \<and> moves\<^sup>*\<^sup>* r q"
proof (induction rule: rtranclp_induct)
  case base
  then show ?case by blast
next
  case (step y z)
  then obtain q where "fetch key k y = Some q" "moves\<^sup>*\<^sup>* r q" by blast
  with row_lives [OF step.hyps(2) keyed_run [OF step.hyps(1)]] step.prems(1)
  show ?case by (meson rtranclp_trans)
qed

text \<open>A property of a row that every move keeps is kept by every history.\<close>

lemma row_keeps:
  assumes "row_run key grows moves rows rows'" and "keyed key rows" and "fetch key k rows = Some r" and "P r"
    and "\<And>x y. moves x y \<Longrightarrow> P x \<Longrightarrow> P y"
  shows "\<exists>q. fetch key k rows' = Some q \<and> P q"
proof -
  obtain q where q: "fetch key k rows' = Some q" "moves\<^sup>*\<^sup>* r q"
    using row_history [OF assms(1-3)] by blast
  from q(2) assms(4) have "P q"
    by (induction rule: rtranclp_induct) (auto intro: assms(5))
  with q(1) show ?thesis by blast
qed

end

locale unique_table = lived_table key grows moves
  for key :: "'r \<Rightarrow> 'k"
    and grows :: "'r list \<Rightarrow> 'r \<Rightarrow> bool"
    and moves :: "'r \<Rightarrow> 'r \<Rightarrow> bool" +
  fixes cond :: "'r \<Rightarrow> bool"
    and tag :: "'r \<Rightarrow> 't"
  assumes one: "grows rows r \<Longrightarrow> q \<in> set rows \<Longrightarrow> cond q \<Longrightarrow> cond r \<Longrightarrow> tag q \<noteq> tag r"
    and moves_tag: "moves r q \<Longrightarrow> tag q = tag r"
    and moves_cond: "moves r q \<Longrightarrow> cond q \<Longrightarrow> cond r"
begin

lemma unique_modify:
  "(\<And>r. r \<in> set rows \<Longrightarrow> P r \<Longrightarrow> moves r (f r)) \<Longrightarrow> distinct (map tag (filter cond rows)) \<Longrightarrow>
   distinct (map tag (filter cond (modify P f rows)))"
proof (induction rows)
  case (Cons r rows)
  have sub: "set (map tag (filter cond (modify P f rows))) \<subseteq> set (map tag (filter cond rows))"
    using Cons.prems(1) moves_tag moves_cond by (fastforce simp: set_modify)
  from Cons show ?case
    using sub moves_tag [of r "f r"] moves_cond [of r "f r"] by (auto split: if_splits)
qed simp

lemma unique_run:
  "row_run key grows moves rows rows' \<Longrightarrow> keyed key rows \<Longrightarrow> distinct (map tag (filter cond rows)) \<Longrightarrow>
   distinct (map tag (filter cond rows'))"
proof (induction rule: rtranclp_induct)
  case (step y z)
  have keyed: "keyed key y" and IH: "distinct (map tag (filter cond y))"
    using keyed_run step.hyps(1) step.prems step.IH by blast+
  from step.hyps(2) show ?case
  proof cases
    case (arrive r)
    with IH one [of y r] show ?thesis by fastforce
  next
    case (change f P)
    then show ?thesis
      using IH keyed unique_modify [of y P f] by simp
  qed
qed simp

lemma unique_member:
  assumes "distinct (map tag (filter cond rows))"
    and "r \<in> set rows" and "q \<in> set rows" and "cond r" and "cond q" and "tag r = tag q"
  shows "r = q"
  using assms by (auto simp: distinct_map inj_on_def)

end

text \<open>The two ways an operation takes a step.\<close>

lemma row_run_arrive: "grows rows r \<Longrightarrow> row_run key grows moves rows (rows @ [r])"
  by (rule r_into_rtranclp, rule row_step.arrive)

lemma row_run_change:
  "(\<And>r. key (f r) = key r) \<Longrightarrow> (\<And>r. keyed key rows \<Longrightarrow> r \<in> set rows \<Longrightarrow> P r \<Longrightarrow> moves r (f r)) \<Longrightarrow>
   row_run key grows moves rows (modify P f rows)"
  by (rule r_into_rtranclp, rule row_step.change)

text \<open>An \<^verbatim>\<open>UPDATE\<close> of the row of an id, the guard checked on that row.\<close>

lemma row_run_one:
  assumes "\<And>r. key (f r) = key r" and "r \<in> set rows" and "key r = k" and "moves r (f r)"
  shows "row_run key grows moves rows (modify (\<lambda>r. key r = k) f rows)"
proof (rule row_run_change)
  show "moves q (f q)" if "keyed key rows" "q \<in> set rows" "key q = k" for q
    using that assms fetch_member [of key rows q] fetch_member [of key rows r] by simp
qed (rule assms(1))

lemma row_run_fetched:
  assumes "\<And>r. key (f r) = key r" and "fetch key k rows = Some r" and "moves r (f r)"
  shows "row_run key grows moves rows (modify (\<lambda>r. key r = k) f rows)"
  using fetch_SomeD [OF assms(2)] assms by (intro row_run_one) auto

subsection \<open>Automations: firings, pauses, merge holds\<close>

text \<open>
  The states a firing moves between. A proposal is taken over by a lease or a refusal, a lease
  is settled, an \<open>unknown\<close> is decided by a person; the other three states are final.
\<close>

fun firing_edges :: "firing_state \<Rightarrow> firing_state list" where
  "firing_edges FS_PROPOSED = [FS_LEASED, FS_REFUSED]"
| "firing_edges FS_LEASED = [FS_REFUSED, FS_CONFIRMED, FS_UNKNOWN, FS_CANCELED]"
| "firing_edges FS_UNKNOWN = [FS_CONFIRMED, FS_CANCELED]"
| "firing_edges FS_REFUSED = []"
| "firing_edges FS_CONFIRMED = []"
| "firing_edges FS_CANCELED = []"

definition firing_grows :: "firing_row list \<Rightarrow> firing_row \<Rightarrow> bool" where
  "firing_grows rows r \<longleftrightarrow> fr_id r = next_id fr_id rows \<and> (\<forall>q \<in> set rows. fr_key q \<noteq> fr_key r)"

definition firing_moves :: "firing_row \<Rightarrow> firing_row \<Rightarrow> bool" where
  "firing_moves r q \<longleftrightarrow>
     fr_key q = fr_key r \<and> fr_project q = fr_project r
     \<and> (fr_state q = fr_state r \<or> fr_state q \<in> set (firing_edges (fr_state r)))
     \<and> (fr_pid r \<noteq> None \<longrightarrow> fr_pid q = fr_pid r)"

definition pause_grows :: "pause_row list \<Rightarrow> pause_row \<Rightarrow> bool" where
  "pause_grows rows r \<longleftrightarrow> ap_id r = next_id ap_id rows
     \<and> \<not> (\<exists>q \<in> set rows. ap_automation q = ap_automation r \<and> ap_cleared q = None)"

definition pause_moves :: "pause_row \<Rightarrow> pause_row \<Rightarrow> bool" where
  "pause_moves r q \<longleftrightarrow>
     ap_automation q = ap_automation r \<and> ap_cleared r = None \<and> ap_cleared q \<noteq> None"

definition hold_grows :: "hold_row list \<Rightarrow> hold_row \<Rightarrow> bool" where
  "hold_grows rows r \<longleftrightarrow> mh_id r = next_id mh_id rows
     \<and> \<not> (\<exists>q \<in> set rows. mh_project q = mh_project r \<and> mh_ended q = None)"

definition hold_moves :: "hold_row \<Rightarrow> hold_row \<Rightarrow> bool" where
  "hold_moves r q \<longleftrightarrow>
     mh_project q = mh_project r \<and> mh_firing q = mh_firing r \<and> mh_sha q = mh_sha r
     \<and> mh_ended r = None \<and> mh_ended q \<noteq> None"

subsection \<open>Scouts\<close>

fun scout_edges :: "scout_phase \<Rightarrow> scout_phase list" where
  "scout_edges SP_QUEUED = [SP_PLANNING]"
| "scout_edges SP_PLANNING = [SP_SWARMING, SP_SYNTHESIZING, SP_QUEUED, SP_DONE]"
| "scout_edges SP_SWARMING = [SP_SYNTHESIZING, SP_DONE]"
| "scout_edges SP_SYNTHESIZING = [SP_SWARMING, SP_DONE]"
| "scout_edges SP_ANSWERING = [SP_DONE]"
| "scout_edges _ = []"

definition scout_ended :: "scout_phase list" where
  "scout_ended = [SP_DONE, SP_FAILED, SP_STOPPED]"

definition task_ended :: "scout_task_phase list" where
  "task_ended = [ST_DONE, ST_FAILED, ST_STOPPED]"

text \<open>A live scout moves along an edge or ends; a done one is reopened by a thread message.\<close>

definition scout_may :: "scout_phase \<Rightarrow> scout_phase \<Rightarrow> bool" where
  "scout_may p q \<longleftrightarrow>
     p \<notin> set scout_ended \<and> (q = p \<or> q \<in> set (scout_edges p) \<or> q \<in> set scout_ended)
     \<or> p = SP_DONE \<and> (q = SP_ANSWERING \<or> q = SP_PLANNING)"

definition scout_grows :: "scout_row list \<Rightarrow> scout_row \<Rightarrow> bool" where
  "scout_grows rows r \<longleftrightarrow> sc_id r = next_id sc_id rows \<and> sc_phase r = SP_QUEUED"

definition scout_moves :: "scout_row \<Rightarrow> scout_row \<Rightarrow> bool" where
  "scout_moves r q \<longleftrightarrow> sc_project q = sc_project r \<and> sc_ask q = sc_ask r
     \<and> scout_may (sc_phase r) (sc_phase q)"

definition task_grows :: "task_row list \<Rightarrow> task_row \<Rightarrow> bool" where
  "task_grows rows r \<longleftrightarrow> sk_id r = next_id sk_id rows \<and> sk_phase r = ST_QUEUED"

definition task_moves :: "task_row \<Rightarrow> task_row \<Rightarrow> bool" where
  "task_moves r q \<longleftrightarrow> sk_scout q = sk_scout r \<and>
     (sk_phase r = ST_QUEUED \<and> sk_phase q = ST_RUNNING
      \<or> sk_phase r = ST_RUNNING \<and> sk_phase q \<in> set task_ended)"

definition report_grows :: "report_row list \<Rightarrow> report_row \<Rightarrow> bool" where
  "report_grows rows r \<longleftrightarrow> sr_id r = next_id sr_id rows
     \<and> \<not> (\<exists>q \<in> set rows. sr_scout q = sr_scout r \<and> sr_pass q = sr_pass r)"

text \<open>An item is known by its scout and position, the table's UNIQUE key.\<close>

definition action_at :: "action_row \<Rightarrow> nat \<times> nat" where
  "action_at r = (sa_scout r, sa_position r)"

definition action_grows :: "action_row list \<Rightarrow> action_row \<Rightarrow> bool" where
  "action_grows rows r \<longleftrightarrow>
     sa_position r = Suc (foldr max (map sa_position (filter (\<lambda>q. sa_scout q = sa_scout r) rows)) 0)
     \<and> sa_key r = None"

definition action_moves :: "action_row \<Rightarrow> action_row \<Rightarrow> bool" where
  "action_moves r q \<longleftrightarrow> sa_scout q = sa_scout r \<and> sa_position q = sa_position r
     \<and> sa_key r = None \<and> sa_key q \<noteq> None"

definition message_grows :: "message_row list \<Rightarrow> message_row \<Rightarrow> bool" where
  "message_grows rows r \<longleftrightarrow> tm_id r = next_id tm_id rows \<and> tm_consumed_by r = None"

definition message_moves :: "message_row \<Rightarrow> message_row \<Rightarrow> bool" where
  "message_moves r q \<longleftrightarrow> tm_scout q = tm_scout r \<and> tm_mode q = tm_mode r
     \<and> tm_text q = tm_text r \<and> tm_answers q = tm_answers r
     \<and> (tm_consumed_by r \<noteq> None \<longrightarrow> tm_consumed_by q = None)"

text \<open>The events of a scout are numbered from 1; the events of runs have their own machine.\<close>

definition event_grows :: "event_row list \<Rightarrow> event_row \<Rightarrow> bool" where
  "event_grows rows r \<longleftrightarrow> e_id r = next_id e_id rows \<and>
     (\<forall>k. e_scout r = Some k \<longrightarrow>
        e_seq r = Suc (foldr max (map e_seq (filter (\<lambda>q. e_scout q = Some k) rows)) 0))"

subsection \<open>Follow-ups, proposals, decisions, steers\<close>

definition follow_up_grows :: "follow_up_row list \<Rightarrow> follow_up_row \<Rightarrow> bool" where
  "follow_up_grows rows r \<longleftrightarrow> f_id r = next_id f_id rows \<and> f_settled r = None
     \<and> \<not> (\<exists>q \<in> set rows. f_run q = f_run r \<and> f_print q = f_print r)"

definition follow_up_moves :: "follow_up_row \<Rightarrow> follow_up_row \<Rightarrow> bool" where
  "follow_up_moves r q \<longleftrightarrow> f_run q = f_run r \<and> f_print q = f_print r \<and> f_text q = f_text r
     \<and> f_settled r = None \<and> f_settled q \<noteq> None"

definition proposal_grows :: "proposal_row list \<Rightarrow> proposal_row \<Rightarrow> bool" where
  "proposal_grows rows r \<longleftrightarrow> q_id r = next_id q_id rows \<and> q_state r = PS_PROPOSED
     \<and> \<not> (\<exists>q \<in> set rows. q_follow_up q = q_follow_up r)"

definition proposal_moves :: "proposal_row \<Rightarrow> proposal_row \<Rightarrow> bool" where
  "proposal_moves r q \<longleftrightarrow> q_story q = q_story r \<and> q_follow_up q = q_follow_up r
     \<and> q_state r = PS_PROPOSED \<and> q_state q \<noteq> PS_PROPOSED"

definition decision_grows :: "decision_row list \<Rightarrow> decision_row \<Rightarrow> bool" where
  "decision_grows rows r \<longleftrightarrow> d_id r = next_id d_id rows \<and> d_answer r = None"

definition decision_moves :: "decision_row \<Rightarrow> decision_row \<Rightarrow> bool" where
  "decision_moves r q \<longleftrightarrow> d_story q = d_story r \<and> d_question q = d_question r
     \<and> d_answer r = None \<and> d_answer q \<noteq> None"

definition steer_grows :: "steer_row list \<Rightarrow> steer_row \<Rightarrow> bool" where
  "steer_grows rows r \<longleftrightarrow> m_id r = next_id m_id rows
     \<and> m_consumed_by r = None \<and> m_withdrawn_by r = None"

definition steer_moves :: "steer_row \<Rightarrow> steer_row \<Rightarrow> bool" where
  "steer_moves r q \<longleftrightarrow> m_ticket q = m_ticket r \<and> m_kind q = m_kind r \<and> m_note q = m_note r
     \<and> (m_consumed_by r \<noteq> None \<longrightarrow> m_consumed_by q = m_consumed_by r)
     \<and> (m_withdrawn_by r \<noteq> None \<longrightarrow> m_withdrawn_by q = m_withdrawn_by r)"

lemmas moves_defs =
  firing_moves_def pause_moves_def hold_moves_def scout_moves_def task_moves_def action_moves_def
  message_moves_def follow_up_moves_def proposal_moves_def decision_moves_def steer_moves_def

lemmas grows_defs =
  firing_grows_def pause_grows_def hold_grows_def scout_grows_def task_grows_def report_grows_def
  action_grows_def message_grows_def event_grows_def follow_up_grows_def proposal_grows_def
  decision_grows_def steer_grows_def

subsection \<open>The whole desk\<close>

definition desk_safe :: "store \<Rightarrow> store \<Rightarrow> bool" where
  "desk_safe s t \<longleftrightarrow>
     row_run fr_id firing_grows firing_moves (firings s) (firings t)
     \<and> row_run ap_id pause_grows pause_moves (pauses s) (pauses t)
     \<and> row_run mh_id hold_grows hold_moves (holds s) (holds t)
     \<and> row_run sc_id scout_grows scout_moves (scouts s) (scouts t)
     \<and> row_run sk_id task_grows task_moves (scout_tasks s) (scout_tasks t)
     \<and> row_run sr_id report_grows (\<lambda>_ _. False) (scout_reports s) (scout_reports t)
     \<and> row_run action_at action_grows action_moves (scout_actions s) (scout_actions t)
     \<and> row_run tm_id message_grows message_moves (messages s) (messages t)
     \<and> row_run e_id event_grows (\<lambda>_ _. False) (events s) (events t)
     \<and> row_run f_id follow_up_grows follow_up_moves (follow_ups s) (follow_ups t)
     \<and> row_run q_id proposal_grows proposal_moves (proposals s) (proposals t)
     \<and> row_run d_id decision_grows decision_moves (decisions s) (decisions t)
     \<and> row_run m_id steer_grows steer_moves (steer_notes s) (steer_notes t)"

lemma desk_safe_refl [simp]: "desk_safe s s"
  by (simp add: desk_safe_def)

lemma desk_safe_trans: "desk_safe s t \<Longrightarrow> desk_safe t u \<Longrightarrow> desk_safe s u"
  unfolding desk_safe_def by (blast intro: rtranclp_trans)

text \<open>The tables an operation leaves alone need no proof: only the changed ones are left.\<close>

definition desk_kept :: "store \<Rightarrow> store \<Rightarrow> bool" where
  [simp]: "desk_kept s t \<longleftrightarrow> firings t = firings s \<and> pauses t = pauses s \<and> holds t = holds s
     \<and> scouts t = scouts s \<and> scout_tasks t = scout_tasks s \<and> scout_reports t = scout_reports s
     \<and> scout_actions t = scout_actions s \<and> messages t = messages s \<and> events t = events s
     \<and> follow_ups t = follow_ups s \<and> proposals t = proposals s \<and> decisions t = decisions s
     \<and> steer_notes t = steer_notes s"

lemma desk_kept_safe [simp]: "desk_kept s t \<Longrightarrow> desk_safe s t"
  by (simp add: desk_kept_def desk_safe_def)

text \<open>A write to another table is nothing to the desk; an event of no scout is an arrival.\<close>

lemma desk_safe_writes [simp]:
  "desk_safe s (upd_run k f t) \<longleftrightarrow> desk_safe s t"
  "desk_safe s (upd_runs P f t) \<longleftrightarrow> desk_safe s t"
  "desk_safe s (add_run r t) \<longleftrightarrow> desk_safe s t"
  "desk_safe s (upd_ticket k h t) \<longleftrightarrow> desk_safe s t"
  "desk_safe s (add_ticket x t) \<longleftrightarrow> desk_safe s t"
  "desk_safe s (upd_project k p t) \<longleftrightarrow> desk_safe s t"
  "desk_safe s (upd_story k y t) \<longleftrightarrow> desk_safe s t"
  "desk_safe s (stories_update g0 t) \<longleftrightarrow> desk_safe s t"
  "desk_safe s (runs_update g1 t) \<longleftrightarrow> desk_safe s t"
  "desk_safe s (tickets_update g2 t) \<longleftrightarrow> desk_safe s t"
  "desk_safe s (projects_update g3 t) \<longleftrightarrow> desk_safe s t"
  "desk_safe s (criteria_update g4 t) \<longleftrightarrow> desk_safe s t"
  "desk_safe s (rounds_update g5 t) \<longleftrightarrow> desk_safe s t"
  "desk_safe s (sweep_strikes_update g6 t) \<longleftrightarrow> desk_safe s t"
  "desk_safe s (beats_update g7 t) \<longleftrightarrow> desk_safe s t"
  "desk_safe s (restarts_update g8 t) \<longleftrightarrow> desk_safe s t"
  "desk_safe s (ledger_update g9 t) \<longleftrightarrow> desk_safe s t"
  "desk_safe s (revisions_update g10 t) \<longleftrightarrow> desk_safe s t"
  "desk_safe s (ticket_notes_update g11 t) \<longleftrightarrow> desk_safe s t"
  "desk_safe s (interventions_update g12 t) \<longleftrightarrow> desk_safe s t"
  "desk_safe s (story_witnesses_update g13 t) \<longleftrightarrow> desk_safe s t"
  "desk_safe s (story_children_update g14 t) \<longleftrightarrow> desk_safe s t"
  "desk_safe s (witness_results_update g15 t) \<longleftrightarrow> desk_safe s t"
  by (simp_all add: desk_safe_def table_defs)

lemma desk_safe_log [simp]:
  "e_id row = next_id e_id (events s) \<Longrightarrow> e_scout row = None \<Longrightarrow>
   desk_safe s (s\<lparr>events := events s @ [row]\<rparr>)"
  by (auto simp: desk_safe_def event_grows_def intro: row_run_arrive)

subsection \<open>The tables as interfaces\<close>

interpretation firing_life: unique_table fr_id firing_grows firing_moves "\<lambda>_. True" fr_key
  by unfold_locales (auto simp: firing_grows_def firing_moves_def next_id_fresh)

interpretation pause_life: unique_table ap_id pause_grows pause_moves
    "\<lambda>r. ap_cleared r = None" ap_automation
  by unfold_locales (auto simp: pause_grows_def pause_moves_def next_id_fresh)

interpretation hold_life: unique_table mh_id hold_grows hold_moves
    "\<lambda>r. mh_ended r = None" mh_project
  by unfold_locales (auto simp: hold_grows_def hold_moves_def next_id_fresh)

interpretation scout_life: lived_table sc_id scout_grows scout_moves
  by unfold_locales (simp add: scout_grows_def next_id_fresh)

interpretation task_life: lived_table sk_id task_grows task_moves
  by unfold_locales (simp add: task_grows_def next_id_fresh)

interpretation report_life: unique_table sr_id report_grows "\<lambda>_ _. False"
    "\<lambda>_. True" "\<lambda>r. (sr_scout r, sr_pass r)"
  by unfold_locales (auto simp: report_grows_def next_id_fresh)

lemma max_member: "x \<in> set xs \<Longrightarrow> x \<le> foldr max xs (0 :: nat)"
  by (induction xs) auto

interpretation action_life: lived_table action_at action_grows action_moves
proof
  fix rows r
  assume "action_grows rows r"
  then have "sa_position q < sa_position r" if "q \<in> set rows" "sa_scout q = sa_scout r" for q
    using that max_member [of "sa_position q" "map sa_position (filter (\<lambda>q. sa_scout q = sa_scout r) rows)"]
    by (auto simp: action_grows_def less_Suc_eq_le)
  then show "fetch action_at (action_at r) rows = None"
    by (force simp: fetch_None_iff action_at_def)
qed

interpretation message_life: lived_table tm_id message_grows message_moves
  by unfold_locales (simp add: message_grows_def next_id_fresh)

interpretation event_life: lived_table e_id event_grows "\<lambda>_ _. False"
  by unfold_locales (simp add: event_grows_def next_id_fresh)

interpretation follow_up_life: unique_table f_id follow_up_grows follow_up_moves
    "\<lambda>_. True" "\<lambda>r. (f_run r, f_print r)"
  by unfold_locales (auto simp: follow_up_grows_def follow_up_moves_def next_id_fresh)

interpretation proposal_life: unique_table q_id proposal_grows proposal_moves "\<lambda>_. True" q_follow_up
  by unfold_locales (auto simp: proposal_grows_def proposal_moves_def next_id_fresh)

interpretation decision_life: lived_table d_id decision_grows decision_moves
  by unfold_locales (simp add: decision_grows_def next_id_fresh)

interpretation steer_life: lived_table m_id steer_grows steer_moves
  by unfold_locales (simp add: steer_grows_def next_id_fresh)

end
