(* ===== verification/Spec.thy ===== *)
theory Spec
  imports Desk "HOL-Library.Sublist"
begin

section \<open>Spec: the lifecycle the store promises\<close>

text \<open>
  The abstract machine behind the operations: of a run its ticket, attempt, phase and end, of
  a ticket its project, status and lease, of a story its state, and the run and number of
  every event. \<open>spec_step\<close> has one rule per kind of change, with the guard the code must have
  checked. Every operation of the store is a finite sequence of such steps (\<open>refines\<close>) that
  only appends to the logs (\<open>appends\<close>) and steps the side tables as they live
  (\<open>desk_safe\<close>); \<open>safe\<close> is the three, and it composes.

  What every run of the machine keeps is proved once, here: ids are unique, a run has an
  outcome exactly when it has ended and then rests in that outcome's phase, a lease names a
  live run of its ticket, attempts and event numbers have no gap, one story is open per
  project; and what never moves again: sealed runs, final tickets, ended stories.
\<close>

subsection \<open>The abstract state\<close>

record run_life =
  u_id :: nat
  u_ticket :: nat
  u_attempt :: nat
  u_phase :: run_phase
  u_ended :: "int option"
  u_outcome :: "run_outcome option"

record ticket_life =
  x_id :: nat
  x_project :: nat
  x_status :: ticket_status
  x_active :: "nat option"

record spec =
  spec_runs :: "run_life list"
  spec_tickets :: "ticket_life list"
  spec_stories :: "(nat \<times> story_state) list"
  spec_log :: "(nat option \<times> nat) list"

definition run_core :: "run_row \<Rightarrow> run_life" where
  "run_core r =
     \<lparr>u_id = r_id r, u_ticket = r_ticket r, u_attempt = r_attempt r, u_phase = r_phase r,
      u_ended = r_ended r, u_outcome = r_outcome r\<rparr>"

definition ticket_core :: "ticket_row \<Rightarrow> ticket_life" where
  "ticket_core t =
     \<lparr>x_id = t_id t, x_project = t_project t, x_status = t_status t, x_active = t_active t\<rparr>"

definition spec_of :: "store \<Rightarrow> spec" where
  "spec_of s =
     \<lparr>spec_runs = map run_core (runs s), spec_tickets = map ticket_core (tickets s),
      spec_stories = map (\<lambda>y. (y_ticket y, y_state y)) (stories s),
      spec_log = map (\<lambda>e. (e_run e, e_seq e)) (events s)\<rparr>"

lemma fetch_run_core: "fetch u_id k (map run_core rs) = map_option run_core (fetch r_id k rs)"
  by (induction rs) (auto simp: run_core_def)

lemma fetch_ticket_core: "fetch x_id k (map ticket_core ts) = map_option ticket_core (fetch t_id k ts)"
  by (induction ts) (auto simp: ticket_core_def)

lemma fetch_story_core:
  "fetch fst k (map (\<lambda>y. (y_ticket y, y_state y)) ys) =
     map_option (\<lambda>y. (y_ticket y, y_state y)) (fetch y_ticket k ys)"
  by (induction ys) auto

lemma next_id_core [simp]:
  "next_id u_id (map run_core rs) = next_id r_id rs"
  "next_id x_id (map ticket_core ts) = next_id t_id ts"
  by (simp_all add: next_id_def foldr_map o_def run_core_def ticket_core_def)

subsection \<open>The steps\<close>

abbreviation set_run :: "nat \<Rightarrow> (run_life \<Rightarrow> run_life) \<Rightarrow> spec \<Rightarrow> spec" where
  "set_run k f a \<equiv> a\<lparr>spec_runs := modify (\<lambda>u. u_id u = k) f (spec_runs a)\<rparr>"

abbreviation set_status :: "nat \<Rightarrow> ticket_status \<Rightarrow> spec \<Rightarrow> spec" where
  "set_status k st a \<equiv>
     a\<lparr>spec_tickets := modify (\<lambda>x. x_id x = k) (\<lambda>x. x\<lparr>x_status := st\<rparr>) (spec_tickets a)\<rparr>"

abbreviation drop_lease :: "nat \<Rightarrow> nat \<Rightarrow> spec \<Rightarrow> spec" where
  "drop_lease tid k a \<equiv>
     a\<lparr>spec_tickets := modify (\<lambda>x. x_id x = tid \<and> x_active x = Some k)
         (\<lambda>x. x\<lparr>x_active := None\<rparr>) (spec_tickets a)\<rparr>"

abbreviation set_story :: "nat \<Rightarrow> story_state \<Rightarrow> spec \<Rightarrow> spec" where
  "set_story k st a \<equiv>
     a\<lparr>spec_stories := modify (\<lambda>y. fst y = k) (\<lambda>y. (fst y, st)) (spec_stories a)\<rparr>"

definition may_move :: "run_phase \<Rightarrow> run_phase \<Rightarrow> bool" where
  "may_move p q \<longleftrightarrow> q = p \<or> q \<in> set (run_phase_transitions p)"

definition open_story :: "story_state \<Rightarrow> bool" where
  "open_story st \<longleftrightarrow> st = SY_APPROVED \<or> st = SY_PARKED"

definition ended_story :: "story_state \<Rightarrow> bool" where
  "ended_story st \<longleftrightarrow> st = SY_CLOSED \<or> st = SY_ABANDONED"

definition seqs :: "nat \<Rightarrow> spec \<Rightarrow> nat list" where
  "seqs k a = map snd (filter (\<lambda>e. fst e = Some k) (spec_log a))"

text \<open>The two statuses a mirrored body moves a ticket between.\<close>

definition unspecced :: "ticket_status \<Rightarrow> bool" where
  "unspecced st \<longleftrightarrow> st = TS_NEEDS_SPEC \<or> st = TS_READY"

text \<open>
  The moves of a story's state but two: a re-plan takes an open story back to planned, the
  last answer takes a parked one back to approved.
\<close>

fun story_move :: "story_state \<Rightarrow> story_state \<Rightarrow> bool" where
  "story_move SY_PLANNED to \<longleftrightarrow> to = SY_ABANDONED"
| "story_move SY_APPROVED to \<longleftrightarrow> to \<in> {SY_PARKED, SY_CLOSED, SY_ABANDONED}"
| "story_move SY_PARKED to \<longleftrightarrow> to \<in> {SY_PARKED, SY_CLOSED, SY_ABANDONED}"
| "story_move SY_CLOSED to \<longleftrightarrow> False"
| "story_move SY_ABANDONED to \<longleftrightarrow> False"

inductive spec_step :: "spec \<Rightarrow> spec \<Rightarrow> bool" where
  log: "spec_step a (a\<lparr>spec_log := spec_log a @ [(Some k, Suc (foldr max (seqs k a) 0))]\<rparr>)"
| log_other: "spec_step a (a\<lparr>spec_log := spec_log a @ [(None, n)]\<rparr>)"
| move: "fetch u_id k (spec_runs a) = Some u \<Longrightarrow> u_ended u = None \<Longrightarrow> may_move (u_phase u) p \<Longrightarrow>
    spec_step a (set_run k (\<lambda>u. u\<lparr>u_phase := p\<rparr>) a)"
| finish: "fetch u_id k (spec_runs a) = Some u \<Longrightarrow> u_ended u = None \<Longrightarrow>
    may_move (u_phase u) (terminal_phase oc) \<Longrightarrow>
    spec_step a (drop_lease (u_ticket u) k
      (set_run k (\<lambda>u. u\<lparr>u_phase := terminal_phase oc, u_ended := Some now, u_outcome := Some oc\<rparr>) a))"
| give_back: "spec_step a (drop_lease tid k a)"
| reopen: "fetch u_id k (spec_runs a) = Some u \<Longrightarrow> u_phase u \<in> set resumable_phases \<Longrightarrow>
    spec_step a (set_run k (\<lambda>u. if p \<in> set ended_phases
      then u\<lparr>u_phase := q, u_ended := None, u_outcome := None\<rparr> else u\<lparr>u_phase := q\<rparr>) a)"
    if "p = u_phase u"
| take: "fetch x_id tid (spec_tickets a) = Some x \<Longrightarrow> x_active x = None \<Longrightarrow> k = next_id u_id (spec_runs a) \<Longrightarrow>
    n = Suc (length (filter (\<lambda>u. u_ticket u = tid) (spec_runs a))) \<Longrightarrow>
    spec_step a (a\<lparr>spec_runs := spec_runs a @ [\<lparr>u_id = k, u_ticket = tid, u_attempt = n,
        u_phase = PH_CLAIMED, u_ended = None, u_outcome = None\<rparr>],
      spec_tickets := modify (\<lambda>x. x_id x = tid \<and> x_project x = pid)
        (\<lambda>x. x\<lparr>x_active := Some k\<rparr>) (spec_tickets a)\<rparr>)"
| arrive: "st = TS_NEEDS_SPEC \<or> st = TS_READY \<Longrightarrow>
    spec_step a (a\<lparr>spec_tickets := spec_tickets a @
      [\<lparr>x_id = next_id x_id (spec_tickets a), x_project = pid, x_status = st, x_active = None\<rparr>]\<rparr>)"
| status: "fetch x_id tid (spec_tickets a) = Some x \<Longrightarrow> st \<in> set (ticket_transitions (x_status x)) \<Longrightarrow>
    spec_step a (set_status tid st a)"
| respec: "unspecced st \<Longrightarrow>
    spec_step a (a\<lparr>spec_tickets := modify (\<lambda>x. x_id x = tid \<and> unspecced (x_status x))
      (\<lambda>x. x\<lparr>x_status := st\<rparr>) (spec_tickets a)\<rparr>)"
| story_new: "fetch fst tid (spec_stories a) = None \<Longrightarrow> fetch x_id tid (spec_tickets a) \<noteq> None \<Longrightarrow>
    spec_step a (a\<lparr>spec_stories := spec_stories a @ [(tid, SY_PLANNED)]\<rparr>)"
| story_approve: "fetch fst tid (spec_stories a) = Some (tid, SY_PLANNED) \<Longrightarrow>
    fetch x_id tid (spec_tickets a) = Some x \<Longrightarrow>
    \<not> (\<exists>y \<in> set (spec_stories a). fst y \<noteq> tid \<and> open_story (snd y) \<and>
         (\<exists>z \<in> set (spec_tickets a). x_id z = fst y \<and> x_project z = x_project x)) \<Longrightarrow>
    spec_step a (set_story tid SY_APPROVED a)"
| story_moves: "fetch fst tid (spec_stories a) = Some (tid, st) \<Longrightarrow> story_move st st' \<Longrightarrow>
    spec_step a (set_story tid st' a)"
| story_replan: "spec_step a (a\<lparr>spec_stories := modify (\<lambda>y. fst y = tid \<and> open_story (snd y))
      (\<lambda>y. (fst y, SY_PLANNED)) (spec_stories a)\<rparr>)"
| story_answer: "spec_step a (a\<lparr>spec_stories := modify (\<lambda>y. fst y = tid \<and> snd y = SY_PARKED)
      (\<lambda>y. (fst y, SY_APPROVED)) (spec_stories a)\<rparr>)"

inductive_cases spec_step_cases: "spec_step a b"

subsection \<open>Refinement\<close>

definition refines :: "store \<Rightarrow> store \<Rightarrow> bool" where
  "refines s t \<longleftrightarrow> spec_step\<^sup>*\<^sup>* (spec_of s) (spec_of t)"

definition appends :: "store \<Rightarrow> store \<Rightarrow> bool" where
  "appends s t \<longleftrightarrow>
     prefix (events s) (events t) \<and> prefix (ledger s) (ledger t)
     \<and> prefix (interventions s) (interventions t) \<and> prefix (revisions s) (revisions t)"

definition safe :: "store \<Rightarrow> store \<Rightarrow> bool" where
  "safe s t \<longleftrightarrow> refines s t \<and> appends s t \<and> desk_safe s t"

lemma safe_refl [simp]: "safe s s"
  by (simp add: safe_def refines_def appends_def)

lemma safe_trans: "safe s t \<Longrightarrow> safe t u \<Longrightarrow> safe s u"
  by (auto simp: safe_def refines_def appends_def intro: rtranclp_trans prefix_order.trans desk_safe_trans)

lemma safe_step: "spec_step (spec_of s) (spec_of t) \<Longrightarrow> appends s t \<Longrightarrow> desk_safe s t \<Longrightarrow> safe s t"
  by (auto simp: safe_def refines_def)

text \<open>A call that changes no field the machine reads.\<close>

lemma safe_desk:
  assumes "map run_core (runs t) = map run_core (runs s)"
    and "map ticket_core (tickets t) = map ticket_core (tickets s)"
    and "map (\<lambda>y. (y_ticket y, y_state y)) (stories t) = map (\<lambda>y. (y_ticket y, y_state y)) (stories s)"
    and "events t = events s" and "prefix (ledger s) (ledger t)"
    and "prefix (interventions s) (interventions t)" and "prefix (revisions s) (revisions t)"
    and "desk_safe s t"
  shows "safe s t"
proof -
  have "spec_of t = spec_of s" using assms by (simp add: spec_of_def)
  with assms show ?thesis by (simp add: safe_def refines_def appends_def)
qed

text \<open>A call that changes none of the side tables either.\<close>

lemma safe_same:
  assumes "map run_core (runs t) = map run_core (runs s)"
    and "map ticket_core (tickets t) = map ticket_core (tickets s)"
    and "map (\<lambda>y. (y_ticket y, y_state y)) (stories t) = map (\<lambda>y. (y_ticket y, y_state y)) (stories s)"
    and "events t = events s" and "prefix (ledger s) (ledger t)"
    and "prefix (interventions s) (interventions t)" and "prefix (revisions s) (revisions t)"
    and "desk_kept s t"
  shows "safe s t"
  using assms by (intro safe_desk desk_kept_safe)

lemma upd_run_safe: "(\<And>r. run_core (f r) = run_core r) \<Longrightarrow> safe s (upd_run k f s)"
  by (rule safe_same) (simp_all add: upd_run_def map_modify)

lemma upd_runs_safe: "(\<And>r. run_core (f r) = run_core r) \<Longrightarrow> safe s (upd_runs P f s)"
  by (rule safe_same) (simp_all add: upd_runs_def map_modify)

lemma upd_ticket_safe: "(\<And>t. ticket_core (f t) = ticket_core t) \<Longrightarrow> safe s (upd_ticket k f s)"
  by (rule safe_same) (simp_all add: upd_ticket_def map_modify)

lemma upd_project_safe [simp]: "safe s (upd_project k f s)"
  by (rule safe_same) (simp_all add: upd_project_def)

lemma upd_story_safe:
  "(\<And>y. y_ticket (f y) = y_ticket y \<and> y_state (f y) = y_state y) \<Longrightarrow> safe s (upd_story k f s)"
  by (rule safe_same) (simp_all add: upd_story_def map_modify)

lemma safe_foldE:
  assumes "foldE f xs s = Inr t" and "\<And>x u v. x \<in> set xs \<Longrightarrow> f x u = Inr v \<Longrightarrow> safe u v"
  shows "safe s t"
  using assms(1)
proof (rule foldE_invariant [where P = "safe s"])
  show "safe s v" if "x \<in> set xs" "f x u = Inr v" "safe s u" for x u v
    using that assms(2) safe_trans by blast
qed simp

subsection \<open>Invariants of the machine\<close>

definition runs_inv :: "spec \<Rightarrow> bool" where
  "runs_inv a \<longleftrightarrow> keyed u_id (spec_runs a) \<and>
     (\<forall>u \<in> set (spec_runs a). (u_ended u = None \<longleftrightarrow> u_outcome u = None) \<and>
        (\<forall>oc. u_outcome u = Some oc \<longrightarrow> u_phase u = terminal_phase oc))"

definition lease_inv :: "spec \<Rightarrow> bool" where
  "lease_inv a \<longleftrightarrow> keyed x_id (spec_tickets a) \<and>
     (\<forall>x \<in> set (spec_tickets a). \<forall>k. x_active x = Some k \<longrightarrow>
        (\<exists>u \<in> set (spec_runs a). u_id u = k \<and> u_ticket u = x_id x \<and> u_ended u = None))"

definition attempts :: "nat \<Rightarrow> spec \<Rightarrow> nat list" where
  "attempts tid a = map u_attempt (filter (\<lambda>u. u_ticket u = tid) (spec_runs a))"

definition attempts_inv :: "spec \<Rightarrow> bool" where
  "attempts_inv a \<longleftrightarrow> (\<forall>tid. numbered (attempts tid a))"

definition log_inv :: "spec \<Rightarrow> bool" where
  "log_inv a \<longleftrightarrow> (\<forall>k. numbered (seqs k a))"

text \<open>The story \<open>i\<close> is open and its parent ticket is in project \<open>pid\<close>.\<close>

definition open_in :: "nat \<Rightarrow> spec \<Rightarrow> nat \<Rightarrow> bool" where
  "open_in pid a i \<longleftrightarrow>
     (\<exists>y \<in> set (spec_stories a). fst y = i \<and> open_story (snd y)) \<and>
     (\<exists>p \<in> set (spec_tickets a). x_id p = i \<and> x_project p = pid)"

definition one_open :: "spec \<Rightarrow> bool" where
  "one_open a \<longleftrightarrow> (\<forall>pid i j. open_in pid a i \<longrightarrow> open_in pid a j \<longrightarrow> i = j)"

definition stories_inv :: "spec \<Rightarrow> bool" where
  "stories_inv a \<longleftrightarrow> keyed fst (spec_stories a) \<and> keyed x_id (spec_tickets a)
     \<and> fst ` set (spec_stories a) \<subseteq> x_id ` set (spec_tickets a) \<and> one_open a"

lemma fetch_keyed: "keyed key rows \<Longrightarrow> fetch key k rows = Some r \<Longrightarrow> q \<in> set rows \<Longrightarrow> key q = k \<Longrightarrow> q = r"
  using fetch_member [of key rows q] by simp

lemma runs_inv_step: "spec_step a b \<Longrightarrow> runs_inv a \<Longrightarrow> runs_inv b"
proof (induction rule: spec_step.induct)
  case (move k a u p)
  then have "\<forall>w \<in> set (spec_runs a). u_id w = k \<longrightarrow> w = u"
    by (auto simp: runs_inv_def dest: fetch_keyed)
  with move show ?case
    by (auto simp: runs_inv_def keyed_modify set_modify)
next
  case (finish k a u oc now)
  then show ?case by (auto simp: runs_inv_def keyed_modify set_modify)
next
  case (reopen p u k a q)
  then have "\<forall>w \<in> set (spec_runs a). u_id w = k \<longrightarrow> w = u"
    by (auto simp: runs_inv_def dest: fetch_keyed)
  with reopen show ?case
    by (auto simp: runs_inv_def keyed_modify set_modify)
next
  case (take tid a x k n pid)
  then show ?case by (auto simp: runs_inv_def intro: keyed_insert)
qed (simp_all add: runs_inv_def)


text \<open>A lease is kept by a step that keeps the live runs and the leases.\<close>

definition leased :: "spec \<Rightarrow> ticket_life \<Rightarrow> bool" where
  "leased a x \<longleftrightarrow> (\<forall>k. x_active x = Some k \<longrightarrow>
     (\<exists>u \<in> set (spec_runs a). u_id u = k \<and> u_ticket u = x_id x \<and> u_ended u = None))"

lemma lease_inv_leased: "lease_inv a \<longleftrightarrow> keyed x_id (spec_tickets a) \<and> (\<forall>x \<in> set (spec_tickets a). leased a x)"
  by (auto simp: lease_inv_def leased_def)

lemma leased_set_run:
  assumes "leased a x" and "\<And>u. u_id (f u) = u_id u \<and> u_ticket (f u) = u_ticket u"
    and "\<And>u. u_ended u = None \<Longrightarrow> u_ended (f u) = None"
  shows "leased (set_run k f a) x"
  unfolding leased_def
proof (intro allI impI)
  fix j assume "x_active x = Some j"
  with assms(1) obtain u where u: "u \<in> set (spec_runs a)" "u_id u = j" "u_ticket u = x_id x"
    "u_ended u = None" by (auto simp: leased_def)
  with assms(2,3) show "\<exists>w \<in> set (spec_runs (set_run k f a)).
      u_id w = j \<and> u_ticket w = x_id x \<and> u_ended w = None"
    by (intro bexI [of _ "if u_id u = k then f u else u"]) (auto simp: set_modify)
qed

lemma lease_inv_step: "spec_step a b \<Longrightarrow> runs_inv a \<Longrightarrow> lease_inv a \<Longrightarrow> lease_inv b"
proof (induction rule: spec_step.induct)
  case (move k a u p)
  then show ?case
    unfolding lease_inv_leased by (auto intro!: leased_set_run)
next
  case (reopen p u k a q)
  then show ?case
    unfolding lease_inv_leased by (auto intro!: leased_set_run)
next
  case (finish k a u oc now)
  let ?f = "\<lambda>u. u\<lparr>u_phase := terminal_phase oc, u_ended := Some now, u_outcome := Some oc\<rparr>"
  let ?b = "drop_lease (u_ticket u) k (set_run k ?f a)"
  have "leased ?b x" if "x \<in> set (spec_tickets ?b)" for x
    unfolding leased_def
  proof (intro allI impI)
    fix j assume j: "x_active x = Some j"
    from that j obtain "x \<in> set (spec_tickets a)" and keep: "\<not> (x_id x = u_ticket u \<and> x_active x = Some k)"
      by (auto simp: set_modify)
    then obtain w where w: "w \<in> set (spec_runs a)" "u_id w = j" "u_ticket w = x_id x" "u_ended w = None"
      using finish(5) j by (auto simp: lease_inv_def)
    have "j \<noteq> k"
      using w keep j fetch_keyed [OF _ finish(1) w(1)] finish(4) by (auto simp: runs_inv_def)
    with w show "\<exists>w \<in> set (spec_runs ?b). u_id w = j \<and> u_ticket w = x_id x \<and> u_ended w = None"
      by (intro bexI [of _ w]) (auto simp: set_modify)
  qed
  moreover have "keyed x_id (spec_tickets ?b)"
    using finish(5) by (auto simp: lease_inv_def intro!: keyed_modify)
  ultimately show ?case unfolding lease_inv_leased by blast
next
  case (give_back a tid k)
  then show ?case by (auto simp: lease_inv_def keyed_modify set_modify)
next
  case (take tid a x k n pid)
  let ?u = "\<lparr>u_id = k, u_ticket = tid, u_attempt = n, u_phase = PH_CLAIMED, u_ended = None, u_outcome = None\<rparr>"
  from take show ?case by (fastforce simp: lease_inv_def keyed_modify set_modify)
next
  case (arrive st a pid)
  then show ?case by (auto simp: lease_inv_def intro: keyed_insert)
next
  case (status tid a x st)
  then show ?case by (auto simp: lease_inv_def keyed_modify set_modify)
next
  case (respec st a tid)
  then show ?case by (auto simp: lease_inv_def keyed_modify set_modify)
qed (simp_all add: lease_inv_def)

lemma attempts_set_run:
  "(\<And>u. u_ticket (f u) = u_ticket u \<and> u_attempt (f u) = u_attempt u) \<Longrightarrow>
   attempts tid (set_run k f a) = attempts tid a"
  by (simp add: attempts_def filter_modify map_modify)

lemma attempts_inv_step: "spec_step a b \<Longrightarrow> attempts_inv a \<Longrightarrow> attempts_inv b"
proof (induction rule: spec_step.induct)
  case (finish k a u oc now)
  have "attempts tid (drop_lease (u_ticket u) k (set_run k
      (\<lambda>u. u\<lparr>u_phase := terminal_phase oc, u_ended := Some now, u_outcome := Some oc\<rparr>) a)) =
      attempts tid a" for tid
    by (simp add: attempts_def filter_modify map_modify)
  with finish show ?case by (simp add: attempts_inv_def)
next
  case (take tid a x k n pid)
  then show ?case by (auto simp: attempts_inv_def attempts_def)
qed (simp_all add: attempts_inv_def attempts_def filter_modify map_modify)

lemma log_inv_step: "spec_step a b \<Longrightarrow> log_inv a \<Longrightarrow> log_inv b"
proof (induction rule: spec_step.induct)
  case (log a k)
  then have "numbered (seqs k a)" by (simp add: log_inv_def)
  from numbered_max [OF this] log show ?case by (auto simp: log_inv_def seqs_def)
next
  case (log_other a n)
  then show ?case by (simp add: log_inv_def seqs_def)
qed (simp_all add: log_inv_def seqs_def)

lemma stories_inv_mono:
  assumes "stories_inv a" and "keyed fst (spec_stories b)" and "keyed x_id (spec_tickets b)"
    and "fst ` set (spec_stories b) \<subseteq> x_id ` set (spec_tickets b)"
    and "\<And>pid i. open_in pid b i \<Longrightarrow> open_in pid a i"
  shows "stories_inv b"
proof -
  have "one_open b"
    using assms(1,5) unfolding stories_inv_def one_open_def by blast
  with assms(2,3,4) show ?thesis unfolding stories_inv_def by (intro conjI)
qed

lemma stories_inv_tickets:
  assumes "stories_inv a" and "\<And>x. x_id (f x) = x_id x" and "\<And>x. x_project (f x) = x_project x"
  shows "stories_inv (a\<lparr>spec_tickets := modify P f (spec_tickets a)\<rparr>)"
proof (rule stories_inv_mono [OF assms(1)])
  show "open_in pid a i" if "open_in pid (a\<lparr>spec_tickets := modify P f (spec_tickets a)\<rparr>) i" for pid i
    using that assms(2,3) by (auto simp: open_in_def set_modify split: if_splits)
  show "fst ` set (spec_stories (a\<lparr>spec_tickets := modify P f (spec_tickets a)\<rparr>))
      \<subseteq> x_id ` set (spec_tickets (a\<lparr>spec_tickets := modify P f (spec_tickets a)\<rparr>))"
    using assms map_modify [of P x_id f "spec_tickets a"]
    by (simp add: stories_inv_def) (metis list.set_map)
qed (use assms in \<open>auto simp: stories_inv_def keyed_modify\<close>)

lemma stories_inv_cong:
  "stories_inv a \<Longrightarrow> spec_stories b = spec_stories a \<Longrightarrow> spec_tickets b = spec_tickets a \<Longrightarrow> stories_inv b"
  unfolding stories_inv_def one_open_def open_in_def by metis

lemma fst_set_story: "fst ` set (modify (\<lambda>y. fst y = k) (\<lambda>y. (fst y, st)) ys) = fst ` set ys"
  by (induction ys) auto

lemma stories_inv_states:
  assumes "stories_inv a" and "\<And>y. y \<in> set (spec_stories a) \<Longrightarrow> P y \<Longrightarrow> open_story st \<Longrightarrow> open_story (snd y)"
  shows "stories_inv (a\<lparr>spec_stories := modify P (\<lambda>y. (fst y, st)) (spec_stories a)\<rparr>)"
proof (rule stories_inv_mono [OF assms(1)])
  have fsts: "map fst (modify P (\<lambda>y. (fst y, st)) ys) = map fst ys" for ys
    by (rule map_modify) simp
  show "keyed fst (spec_stories (a\<lparr>spec_stories := modify P (\<lambda>y. (fst y, st)) (spec_stories a)\<rparr>))"
    using assms(1) by (simp add: stories_inv_def keyed_def fsts)
  show "fst ` set (spec_stories (a\<lparr>spec_stories := modify P (\<lambda>y. (fst y, st)) (spec_stories a)\<rparr>))
      \<subseteq> x_id ` set (spec_tickets (a\<lparr>spec_stories := modify P (\<lambda>y. (fst y, st)) (spec_stories a)\<rparr>))"
    using assms(1) fsts [of "spec_stories a"] by (simp add: stories_inv_def) (metis list.set_map)
  show "open_in pid a i"
    if "open_in pid (a\<lparr>spec_stories := modify P (\<lambda>y. (fst y, st)) (spec_stories a)\<rparr>) i" for pid i
  proof -
    from that obtain y where y: "y \<in> set (spec_stories a)"
      and i: "fst (if P y then (fst y, st) else y) = i"
      and o: "open_story (snd (if P y then (fst y, st) else y))"
      and p: "\<exists>p \<in> set (spec_tickets a). x_id p = i \<and> x_project p = pid"
      by (force simp: open_in_def set_modify)
    have "fst y = i" "open_story (snd y)"
      using i o assms(2) [OF y] by (auto split: if_splits)
    with y p show ?thesis by (auto simp: open_in_def)
  qed
qed (use assms in \<open>auto simp: stories_inv_def\<close>)

lemma open_in_set_story:
  assumes "open_in pid (set_story tid st a) i"
  shows "(i \<noteq> tid \<and> open_in pid a i) \<or>
    (i = tid \<and> open_story st \<and> (\<exists>p \<in> set (spec_tickets a). x_id p = i \<and> x_project p = pid))"
proof -
  from assms obtain y where y: "y \<in> set (spec_stories a)"
    and i: "fst (if fst y = tid then (fst y, st) else y) = i"
    and o: "open_story (snd (if fst y = tid then (fst y, st) else y))"
    and p: "\<exists>p \<in> set (spec_tickets a). x_id p = i \<and> x_project p = pid"
    by (force simp: open_in_def set_modify)
  show ?thesis
  proof (cases "fst y = tid")
    case True
    with i o p show ?thesis by simp
  next
    case False
    with y i o p show ?thesis by (auto simp: open_in_def)
  qed
qed

lemma stories_inv_step: "spec_step a b \<Longrightarrow> stories_inv a \<Longrightarrow> stories_inv b"
proof (induction rule: spec_step.induct)
  case (take tid a x k n pid)
  from take(5) have "stories_inv (a\<lparr>spec_tickets := modify (\<lambda>x. x_id x = tid \<and> x_project x = pid)
      (\<lambda>x. x\<lparr>x_active := Some k\<rparr>) (spec_tickets a)\<rparr>)"
    by (rule stories_inv_tickets) simp_all
  then show ?case by (rule stories_inv_cong) simp_all
next
  case (finish k a u oc now)
  from finish(4) have "stories_inv (drop_lease (u_ticket u) k a)"
    by (rule stories_inv_tickets) simp_all
  then show ?case by (rule stories_inv_cong) simp_all
next
  case (give_back a tid k)
  then show ?case by (rule stories_inv_tickets) simp_all
next
  case (status tid a x st)
  from status(3) show ?case by (rule stories_inv_tickets) simp_all
next
  case (respec st a tid)
  from respec(2) show ?case by (rule stories_inv_tickets) simp_all
next
  case (arrive st a pid)
  let ?n = "next_id x_id (spec_tickets a)"
  let ?b = "a\<lparr>spec_tickets := spec_tickets a @
      [\<lparr>x_id = ?n, x_project = pid, x_status = st, x_active = None\<rparr>]\<rparr>"
  have fresh: "?n \<notin> x_id ` set (spec_tickets a)"
    using next_id_fresh [of x_id "spec_tickets a"] by (simp add: fetch_None_iff)
  show ?case
  proof (rule stories_inv_mono [OF arrive(2)])
    show "open_in pid' a i" if "open_in pid' ?b i" for pid' i
      using that fresh arrive(2) by (fastforce simp: open_in_def stories_inv_def)
  qed (use arrive(2) in \<open>auto simp: stories_inv_def intro: keyed_insert\<close>)
next
  case (story_new tid a)
  show ?case
  proof (rule stories_inv_mono [OF story_new(3)])
    show "open_in pid a i" if "open_in pid (a\<lparr>spec_stories := spec_stories a @ [(tid, SY_PLANNED)]\<rparr>) i" for pid i
      using that by (auto simp: open_in_def open_story_def)
  qed (use story_new in \<open>auto simp: stories_inv_def keyed_def fetch_None_iff dest: fetch_SomeD\<close>)
next
  case (story_moves tid a st st')
  have "open_story st" if "open_story st'"
    using that story_moves(2) by (cases st; auto simp: open_story_def)
  moreover have "(tid, st) \<in> set (spec_stories a)"
    using fetch_SomeD [OF story_moves(1)] by simp
  ultimately have "open_in pid a i" if "open_in pid (set_story tid st' a) i" for pid i
    using open_in_set_story [OF that] by (force simp: open_in_def)
  then show ?case
    using story_moves(3)
    by (intro stories_inv_mono [OF story_moves(3)])
      (auto simp: stories_inv_def keyed_modify fst_set_story)
next
  case (story_approve tid a x)
  have other: "i = tid" if "open_in (x_project x) a i" for i
    using that story_approve(3) by (auto simp: open_in_def)
  have mine: "pid = x_project x" if "open_in pid (set_story tid SY_APPROVED a) tid" for pid
    using that story_approve(2,4) fetch_keyed [of x_id "spec_tickets a" tid x]
    by (auto simp: open_in_def stories_inv_def)
  have rest: "open_in pid a i" if "open_in pid (set_story tid SY_APPROVED a) i" "i \<noteq> tid" for pid i
    using that open_in_set_story [OF that(1)] by blast
  have "one_open (set_story tid SY_APPROVED a)"
    unfolding one_open_def
    using other mine rest story_approve(4) by (metis stories_inv_def one_open_def)
  then show ?case
    using story_approve(4)
    by (auto simp: stories_inv_def keyed_modify fst_set_story)
next
  case (story_replan a tid)
  then show ?case by (rule stories_inv_states) (simp add: open_story_def)
next
  case (story_answer a tid)
  then show ?case by (rule stories_inv_states) (simp add: open_story_def)
qed (erule stories_inv_cong; simp)+

subsection \<open>What never moves again\<close>

lemma run_persists:
  "spec_step a b \<Longrightarrow> fetch u_id k (spec_runs a) = Some u \<Longrightarrow>
   \<exists>w. fetch u_id k (spec_runs b) = Some w \<and> u_ticket w = u_ticket u \<and> u_attempt w = u_attempt u"
  by (induction rule: spec_step.induct)
    (auto simp: fetch_modify_key fetch_append)

lemma sealed_step:
  "spec_step a b \<Longrightarrow> fetch u_id k (spec_runs a) = Some u \<Longrightarrow> u_phase u \<in> set sealed_phases \<Longrightarrow>
   \<exists>w. fetch u_id k (spec_runs b) = Some w \<and> u_phase w = u_phase u \<and> (u_ended u \<noteq> None \<longrightarrow> w = u)"
  by (induction rule: spec_step.induct)
    (auto simp: fetch_modify_key fetch_append may_move_def sealed_phases_iff)

definition final_status :: "ticket_status \<Rightarrow> bool" where
  "final_status st \<longleftrightarrow> st = TS_MERGED \<or> st = TS_ABANDONED"

lemma final_status_step:
  "spec_step a b \<Longrightarrow> fetch x_id tid (spec_tickets a) = Some x \<Longrightarrow> final_status (x_status x) \<Longrightarrow>
   \<exists>z. fetch x_id tid (spec_tickets b) = Some z \<and> x_status z = x_status x"
proof (induction rule: spec_step.induct)
  case (finish k a u oc now)
  then show ?case by (simp add: fetch_modify)
next
  case (give_back a tid' k)
  then show ?case by (simp add: fetch_modify)
next
  case (take tid' a y k n pid)
  then show ?case by (simp add: fetch_modify)
next
  case (respec st a tid')
  then show ?case by (auto simp: fetch_modify unspecced_def final_status_def)
qed (auto simp: fetch_modify_key fetch_append final_status_def)

lemma ended_story_step:
  "spec_step a b \<Longrightarrow> fetch fst tid (spec_stories a) = Some y \<Longrightarrow> ended_story (snd y) \<Longrightarrow>
   fetch fst tid (spec_stories b) = Some y"
proof (induction rule: spec_step.induct)
  case (story_replan a tid')
  then show ?case by (auto simp: fetch_modify open_story_def ended_story_def)
next
  case (story_answer a tid')
  then show ?case by (auto simp: fetch_modify ended_story_def)
qed (auto simp: fetch_modify_key fetch_append ended_story_def dest: fetch_SomeD)

end
