(* ===== verification/Log.thy ===== *)
theory Log
  imports Spec
begin

section \<open>Log: events, ledger, interventions, notes and revisions\<close>

text \<open>
  The append-only tables. \<open>append_event\<close>, \<open>record_event\<close> and \<open>record_ledger\<close> are of
  \<^verbatim>\<open>store/__init__.py\<close>, \<open>record_intervention\<close> and \<open>record_project_intervention\<close> of
  \<^verbatim>\<open>store/operate.py\<close>, \<open>record_note\<close> of \<^verbatim>\<open>store/notes.py\<close> and \<open>record_board_fields\<close> of
  \<^verbatim>\<open>store/revisions.py\<close>. An operation that returns a value returns it beside the store.

  The lemmas say which tables each write leaves alone (\<open>log_frame\<close>, the bundle the later
  theories rewrite with), that the events of one run are numbered 1, 2, 3, ... without a gap,
  and that the current revision of a ticket is its number of recorded revisions.
\<close>

named_theorems log_frame \<open>the tables an append-only write leaves alone\<close>

subsection \<open>Events\<close>

definition redact_event :: "env \<Rightarrow> string \<Rightarrow> payload option \<Rightarrow> string \<times> payload option" where
  "redact_event v summary payload =
     (redact_values (secrets v) summary,
      map_option (\<lambda>p. case p of
          PDoc d \<Rightarrow> PDoc (redact_document (secrets v) d)
        | PText t \<Rightarrow> PText (redact_values (secrets v) t)) payload)"

definition run_events :: "nat \<Rightarrow> store \<Rightarrow> event_row list" where
  "run_events rid s = filter (\<lambda>e. e_run e = Some rid) (events s)"

definition next_seq :: "nat \<Rightarrow> store \<Rightarrow> nat" where
  "next_seq rid s = foldr (\<lambda>e m. max (e_seq e) m) (run_events rid s) 0 + 1"

definition append_event ::
    "env \<Rightarrow> nat \<Rightarrow> event_level \<Rightarrow> string \<Rightarrow> string \<Rightarrow> int \<Rightarrow> payload option \<Rightarrow> store \<Rightarrow> nat \<times> store" where
  "append_event v rid level kind summary at payload s =
     (let (summary, payload) = redact_event v summary payload;
          seq = next_seq rid s;
          row = \<lparr>e_id = next_id e_id (events s), e_run = Some rid, e_project = None,
                 e_seq = seq, e_level = level, e_kind = kind, e_summary = summary,
                 e_payload = payload, e_at = at, e_scout = None\<rparr>
      in (seq, s\<lparr>events := events s @ [row]\<rparr>))"

abbreviation log_event ::
    "env \<Rightarrow> nat \<Rightarrow> event_level \<Rightarrow> string \<Rightarrow> string \<Rightarrow> int \<Rightarrow> payload option \<Rightarrow> store \<Rightarrow> store" where
  "log_event v rid level kind summary at payload s \<equiv>
     snd (append_event v rid level kind summary at payload s)"

definition record_event ::
    "env \<Rightarrow> nat \<Rightarrow> string \<Rightarrow> string \<Rightarrow> event_level \<Rightarrow> payload option \<Rightarrow> store \<Rightarrow> err + nat \<times> store" where
  [op_defs]: "record_event v rid kind summary level payload s =
     (if payload \<noteq> None \<and> level \<noteq> EL_DETAIL then Inl PayloadLevel
      else case run_of rid s of
          None \<Rightarrow> Inl (NoRun rid)
        | Some _ \<Rightarrow> Inr (append_event v rid level kind summary (clock v) payload s))"

subsection \<open>The ledger\<close>

definition record_ledger ::
    "env \<Rightarrow> nat \<Rightarrow> ledger_kind \<Rightarrow> string \<Rightarrow> ledger_source \<Rightarrow> store \<Rightarrow> err + nat \<times> store" where
  [op_defs]: "record_ledger v rid kind text source s =
     (let text = redact_values (secrets v) text in
      if blank text then Inl (BlankText ''text'')
      else case run_of rid s of
          None \<Rightarrow> Inl (NoRun rid)
        | Some r \<Rightarrow>
            (let lid = next_id l_id (ledger s);
                 row = \<lparr>l_id = lid, l_run = rid, l_ticket = r_ticket r, l_at = clock v,
                        l_kind = kind, l_text = text, l_source = source\<rparr>
             in Inr (lid, s\<lparr>ledger := ledger s @ [row]\<rparr>)))"

subsection \<open>Interventions\<close>

definition intervention_actor :: "env \<Rightarrow> intervention_source \<Rightarrow> intervention_actor option \<Rightarrow> intervention_actor" where
  "intervention_actor v source actor =
     (let actor = (case actor of None \<Rightarrow> acting v | Some a \<Rightarrow> a)
      in if source = IS_HUMAN then actor else IC_SUPERVISOR)"

definition insert_intervention :: "intervention_row \<Rightarrow> store \<Rightarrow> nat \<times> store" where
  "insert_intervention row s =
     (let iid = next_id i_id (interventions s)
      in (iid, s\<lparr>interventions := interventions s @ [row\<lparr>i_id := iid\<rparr>]\<rparr>))"

definition record_intervention ::
    "env \<Rightarrow> nat \<Rightarrow> intervention_action \<Rightarrow> string \<Rightarrow> intervention_source \<Rightarrow> intervention_trigger \<Rightarrow>
     string option \<Rightarrow> string option \<Rightarrow> intervention_actor option \<Rightarrow> nat option \<Rightarrow> store \<Rightarrow>
     err + nat \<times> store" where
  [op_defs]: "record_intervention v rid action note source trigger question guidance actor firing s =
     (if blank note then Inl (BlankText ''note'')
      else if action = IA_REDIRECT \<and> (case question of None \<Rightarrow> True | Some q \<Rightarrow> blank q)
      then Inl RedirectNeedsQuestion
      else case run_of rid s of
          None \<Rightarrow> Inl (NoRun rid)
        | Some _ \<Rightarrow>
            (let text = source_value source @ '' '' @ action_value action @ '': '' @ note;
                 (iid, s) = insert_intervention
                   \<lparr>i_id = 0, i_run = Some rid, i_project = None, i_source = source,
                    i_trigger = trigger, i_action = action,
                    i_note = (if action = IA_MIGRATE then None else Some note),
                    i_question = question, i_guidance = guidance, i_at = clock v,
                    i_actor = Some (intervention_actor v source actor), i_firing = firing\<rparr> s;
                 s = log_event v rid EL_NARRATIVE ''intervention'' text (clock v) None s
             in bindE (record_ledger v rid LK_INTERVENTION text
                         (if source = IS_HUMAN then LS_OPERATOR else LS_LOOP) s)
                  (\<lambda>(_, s). Inr (iid, s))))"

definition record_project_intervention ::
    "env \<Rightarrow> intervention_action \<Rightarrow> string \<Rightarrow> intervention_source \<Rightarrow> intervention_trigger \<Rightarrow>
     nat option \<Rightarrow> intervention_actor option \<Rightarrow> store \<Rightarrow> err + nat \<times> store" where
  [op_defs]: "record_project_intervention v action note source trigger project actor s =
     (if blank note then Inl (BlankText ''note'')
      else
        (let ids = map p_id (projects s);
             project = (if project = None \<and> length ids = 1 then Some (hd ids) else project)
         in case project of
             None \<Rightarrow>
               (if action \<noteq> IA_MIGRATE then Inl ProjectRequired
                else Inr (insert_intervention
                  \<lparr>i_id = 0, i_run = None, i_project = None, i_source = source,
                   i_trigger = trigger, i_action = action, i_note = Some note,
                   i_question = None, i_guidance = None, i_at = clock v,
                   i_actor = Some (intervention_actor v source actor), i_firing = None\<rparr> s))
           | Some pid \<Rightarrow>
               (if pid \<notin> set ids then Inl (NoProject pid)
                else Inr (insert_intervention
                  \<lparr>i_id = 0, i_run = None, i_project = Some pid, i_source = source,
                   i_trigger = trigger, i_action = action, i_note = Some note,
                   i_question = None, i_guidance = None, i_at = clock v,
                   i_actor = Some (intervention_actor v source actor), i_firing = None\<rparr> s))))"

subsection \<open>Notes\<close>

text \<open>\<^verbatim>\<open>ON CONFLICT (ticketId, dedupKey) DO NOTHING\<close>: a NULL key conflicts with nothing.\<close>

definition record_note ::
    "env \<Rightarrow> nat \<Rightarrow> string \<Rightarrow> string \<Rightarrow> string option \<Rightarrow> string \<Rightarrow> nat option \<Rightarrow> store \<Rightarrow> nat option \<times> store" where
  "record_note v tid kind text key author rid s =
     (if key \<noteq> None \<and> (\<exists>n \<in> set (ticket_notes s). n_ticket n = tid \<and> n_key n = key)
      then (None, s)
      else
        (let nid = next_id n_id (ticket_notes s);
             row = \<lparr>n_id = nid, n_ticket = tid, n_run = rid, n_at = clock v, n_author = author,
                    n_kind = kind, n_key = key, n_text = text, n_posted = None, n_error = None\<rparr>
         in (Some nid, s\<lparr>ticket_notes := ticket_notes s @ [row]\<rparr>)))"

definition mark_note_posted :: "env \<Rightarrow> nat \<Rightarrow> store \<Rightarrow> store" where
  "mark_note_posted v nid s =
     s\<lparr>ticket_notes := modify (\<lambda>n. n_id n = nid)
        (\<lambda>n. n\<lparr>n_posted := Some (clock v), n_error := None\<rparr>) (ticket_notes s)\<rparr>"

definition mark_note_failed :: "nat \<Rightarrow> string \<Rightarrow> store \<Rightarrow> store" where
  "mark_note_failed nid error s =
     s\<lparr>ticket_notes := modify (\<lambda>n. n_id n = nid) (\<lambda>n. n\<lparr>n_error := Some error\<rparr>) (ticket_notes s)\<rparr>"

subsection \<open>Revisions\<close>

text \<open>\<^verbatim>\<open>ORDER BY revision DESC LIMIT 1\<close>: the row with the largest revision number.\<close>

fun latest_revision :: "revision_row list \<Rightarrow> revision_row option" where
  "latest_revision [] = None"
| "latest_revision (x # xs) =
     (case latest_revision xs of
        None \<Rightarrow> Some x
      | Some y \<Rightarrow> if v_revision y < v_revision x then Some x else Some y)"

definition ticket_revisions :: "nat \<Rightarrow> store \<Rightarrow> revision_row list" where
  "ticket_revisions tid s = filter (\<lambda>x. v_ticket x = tid) (revisions s)"

definition same_fields :: "revision_row \<Rightarrow> ticket_row \<Rightarrow> bool" where
  "same_fields x t \<longleftrightarrow>
     v_title x = t_title t \<and> v_body x = t_body t \<and> v_priority x = t_priority t
     \<and> v_labels x = t_labels t \<and> v_column x = t_column t"

definition field_revision :: "env \<Rightarrow> string \<Rightarrow> nat \<Rightarrow> ticket_row \<Rightarrow> revision_row" where
  "field_revision v author revision t =
     \<lparr>v_ticket = t_id t, v_revision = revision, v_at = clock v, v_author = author,
      v_title = t_title t, v_body = t_body t, v_priority = t_priority t,
      v_labels = t_labels t, v_column = t_column t\<rparr>"

definition record_board_fields :: "env \<Rightarrow> nat \<Rightarrow> string \<Rightarrow> store \<Rightarrow> err + nat option \<times> store" where
  [op_defs]: "record_board_fields v tid author s =
     (case ticket_of tid s of
        None \<Rightarrow> Inl (NoTicket tid)
      | Some t \<Rightarrow>
          (let latest = latest_revision (ticket_revisions tid s) in
           if (case latest of None \<Rightarrow> False | Some x \<Rightarrow> same_fields x t) then Inr (None, s)
           else
             (let revision = (case latest of None \<Rightarrow> 1 | Some x \<Rightarrow> v_revision x + 1);
                  s = s\<lparr>revisions := revisions s @ [field_revision v author revision t]\<rparr>
              in Inr (Some revision, upd_ticket tid (\<lambda>t. t\<lparr>t_revision := revision\<rparr>) s))))"

subsection \<open>Frames\<close>

lemma append_event_frame [log_frame]:
  "runs (log_event v rid lv k sm at pl s) = runs s"
  "tickets (log_event v rid lv k sm at pl s) = tickets s"
  "projects (log_event v rid lv k sm at pl s) = projects s"
  "rounds (log_event v rid lv k sm at pl s) = rounds s"
  "ledger (log_event v rid lv k sm at pl s) = ledger s"
  "interventions (log_event v rid lv k sm at pl s) = interventions s"
  "revisions (log_event v rid lv k sm at pl s) = revisions s"
  "ticket_notes (log_event v rid lv k sm at pl s) = ticket_notes s"
  "stories (log_event v rid lv k sm at pl s) = stories s"
  "story_children (log_event v rid lv k sm at pl s) = story_children s"
  "sweep_strikes (log_event v rid lv k sm at pl s) = sweep_strikes s"
  "firings (log_event v rid lv k sm at pl s) = firings s"
  "pauses (log_event v rid lv k sm at pl s) = pauses s"
  "holds (log_event v rid lv k sm at pl s) = holds s"
  "scouts (log_event v rid lv k sm at pl s) = scouts s"
  "scout_tasks (log_event v rid lv k sm at pl s) = scout_tasks s"
  "scout_reports (log_event v rid lv k sm at pl s) = scout_reports s"
  "scout_actions (log_event v rid lv k sm at pl s) = scout_actions s"
  "messages (log_event v rid lv k sm at pl s) = messages s"
  "follow_ups (log_event v rid lv k sm at pl s) = follow_ups s"
  "proposals (log_event v rid lv k sm at pl s) = proposals s"
  "decisions (log_event v rid lv k sm at pl s) = decisions s"
  "steer_notes (log_event v rid lv k sm at pl s) = steer_notes s"
  "criteria (log_event v rid lv k sm at pl s) = criteria s"
  "restarts (log_event v rid lv k sm at pl s) = restarts s"
  "beats (log_event v rid lv k sm at pl s) = beats s"
  "story_witnesses (log_event v rid lv k sm at pl s) = story_witnesses s"
  "witness_results (log_event v rid lv k sm at pl s) = witness_results s"
  by (simp_all add: append_event_def Let_def split: prod.splits)

lemma insert_intervention_frame [log_frame]:
  "runs (snd (insert_intervention row s)) = runs s"
  "tickets (snd (insert_intervention row s)) = tickets s"
  "projects (snd (insert_intervention row s)) = projects s"
  "rounds (snd (insert_intervention row s)) = rounds s"
  "events (snd (insert_intervention row s)) = events s"
  "ledger (snd (insert_intervention row s)) = ledger s"
  "revisions (snd (insert_intervention row s)) = revisions s"
  "stories (snd (insert_intervention row s)) = stories s"
  "story_children (snd (insert_intervention row s)) = story_children s"
  "firings (snd (insert_intervention row s)) = firings s"
  "pauses (snd (insert_intervention row s)) = pauses s"
  "holds (snd (insert_intervention row s)) = holds s"
  "scouts (snd (insert_intervention row s)) = scouts s"
  "scout_tasks (snd (insert_intervention row s)) = scout_tasks s"
  "scout_reports (snd (insert_intervention row s)) = scout_reports s"
  "scout_actions (snd (insert_intervention row s)) = scout_actions s"
  "messages (snd (insert_intervention row s)) = messages s"
  "follow_ups (snd (insert_intervention row s)) = follow_ups s"
  "proposals (snd (insert_intervention row s)) = proposals s"
  "decisions (snd (insert_intervention row s)) = decisions s"
  "steer_notes (snd (insert_intervention row s)) = steer_notes s"
  by (simp_all add: insert_intervention_def Let_def)

text \<open>
  What an append-only call keeps: every table but the four logs, and of the event log the
  events before. \<open>keeps_rows s t\<close> is what the invariants of the runs and tickets need.
\<close>

definition keeps_rows :: "store \<Rightarrow> store \<Rightarrow> bool" where
  "keeps_rows s t \<longleftrightarrow>
     runs t = runs s \<and> tickets t = tickets s \<and> projects t = projects s \<and> rounds t = rounds s
     \<and> stories t = stories s \<and> story_children t = story_children s"

lemma keeps_rows_refl [simp]: "keeps_rows s s"
  by (simp add: keeps_rows_def)

lemma keeps_rows_trans: "keeps_rows s t \<Longrightarrow> keeps_rows t u \<Longrightarrow> keeps_rows s u"
  by (simp add: keeps_rows_def)

lemma log_event_keeps [simp]: "keeps_rows s (log_event v rid lv k sm at pl s)"
  by (simp add: keeps_rows_def log_frame)

lemma record_event_keeps: "record_event v rid k sm lv pl s = Inr (q, t) \<Longrightarrow> keeps_rows s t"
  using log_event_keeps [of s v rid lv k sm "clock v" pl]
  by (cases "append_event v rid lv k sm (clock v) pl s")
    (auto simp: record_event_def split: if_splits option.splits)

lemma record_ledger_keeps: "record_ledger v rid k tx so s = Inr (i, t) \<Longrightarrow> keeps_rows s t"
  by (auto simp: record_ledger_def keeps_rows_def Let_def split: if_splits option.splits)

lemma record_ledger_events: "record_ledger v rid k tx so s = Inr (i, t) \<Longrightarrow> events t = events s"
  by (auto simp: record_ledger_def Let_def split: if_splits option.splits)

lemma record_intervention_cases:
  assumes "record_intervention v rid a n so tr q g ac fi s = Inr (i, t)"
  obtains row lid where
    "\<not> blank n" "run_of rid s \<noteq> None" "i = next_id i_id (interventions s)"
    "i_run row = Some rid" "i_action row = a" "i_source row = so" "i_trigger row = tr"
    "i_id row = i"
    "record_ledger v rid LK_INTERVENTION
       (source_value so @ '' '' @ action_value a @ '': '' @ n)
       (if so = IS_HUMAN then LS_OPERATOR else LS_LOOP)
       (log_event v rid EL_NARRATIVE ''intervention''
          (source_value so @ '' '' @ action_value a @ '': '' @ n) (clock v) None
          (s\<lparr>interventions := interventions s @ [row]\<rparr>)) = Inr (lid, t)"
proof -
  define row where "row =
    \<lparr>i_id = next_id i_id (interventions s), i_run = Some rid, i_project = None, i_source = so,
     i_trigger = tr, i_action = a, i_note = (if a = IA_MIGRATE then None else Some n),
     i_question = q, i_guidance = g, i_at = clock v,
     i_actor = Some (intervention_actor v so ac), i_firing = fi\<rparr>"
  have "i = next_id i_id (interventions s) \<and> \<not> blank n \<and> run_of rid s \<noteq> None \<and>
    (\<exists>lid. record_ledger v rid LK_INTERVENTION
       (source_value so @ '' '' @ action_value a @ '': '' @ n)
       (if so = IS_HUMAN then LS_OPERATOR else LS_LOOP)
       (log_event v rid EL_NARRATIVE ''intervention''
          (source_value so @ '' '' @ action_value a @ '': '' @ n) (clock v) None
          (s\<lparr>interventions := interventions s @ [row]\<rparr>)) = Inr (lid, t))"
    using assms unfolding record_intervention_def insert_intervention_def Let_def row_def
    by (simp split: if_split_asm option.split_asm) blast+
  then show ?thesis
    by (elim conjE exE) (rule that [of row], simp_all add: row_def)
qed

lemma record_intervention_keeps:
  assumes "record_intervention v rid a n so tr q g ac fi s = Inr (i, t)"
  shows "keeps_rows s t"
proof -
  obtain row lid where
    "record_ledger v rid LK_INTERVENTION
       (source_value so @ '' '' @ action_value a @ '': '' @ n)
       (if so = IS_HUMAN then LS_OPERATOR else LS_LOOP)
       (log_event v rid EL_NARRATIVE ''intervention''
          (source_value so @ '' '' @ action_value a @ '': '' @ n) (clock v) None
          (s\<lparr>interventions := interventions s @ [row]\<rparr>)) = Inr (lid, t)"
    using assms by (rule record_intervention_cases)
  from record_ledger_keeps [OF this] show ?thesis
    by (simp add: keeps_rows_def log_frame)
qed

lemma record_project_intervention_keeps:
  "record_project_intervention v a n so tr p ac s = Inr (i, t) \<Longrightarrow> keeps_rows s t"
  by (auto simp: record_project_intervention_def keeps_rows_def insert_intervention_def Let_def
      split: if_splits option.splits)

lemma record_note_keeps: "keeps_rows s (snd (record_note v tid k tx key au rid s))"
  by (simp add: record_note_def keeps_rows_def Let_def)

subsection \<open>The event log of a run is numbered without a gap\<close>

definition seq_inv :: "store \<Rightarrow> bool" where
  "seq_inv s \<longleftrightarrow> (\<forall>rid. numbered (map e_seq (run_events rid s)))"

lemma foldr_max_seq: "foldr (\<lambda>e m. max (e_seq e) m) es 0 = foldr max (map e_seq es) 0"
  by (induction es) auto

lemma next_seq_length: "seq_inv s \<Longrightarrow> next_seq rid s = Suc (length (run_events rid s))"
  using numbered_max [of "map e_seq (run_events rid s)"]
  by (simp add: next_seq_def foldr_max_seq seq_inv_def)

lemma seq_inv_same_events: "seq_inv s \<Longrightarrow> events t = events s \<Longrightarrow> seq_inv t"
  by (simp add: seq_inv_def run_events_def)

lemma run_events_append_event:
  "run_events k (log_event v rid lv kd sm at pl s) =
     (if k = rid
      then run_events k s @ [last (events (log_event v rid lv kd sm at pl s))]
      else run_events k s)"
  by (auto simp: append_event_def run_events_def Let_def split: prod.splits)

lemma last_append_event_seq:
  "e_seq (last (events (log_event v rid lv kd sm at pl s))) = next_seq rid s"
  by (simp add: append_event_def Let_def split: prod.splits)

lemma log_event_seq_inv: "seq_inv s \<Longrightarrow> seq_inv (log_event v rid lv kd sm at pl s)"
  by (auto simp: seq_inv_def run_events_append_event last_append_event_seq next_seq_length)

lemma record_event_seq_inv:
  "record_event v rid k sm lv pl s = Inr (q, t) \<Longrightarrow> seq_inv s \<Longrightarrow> seq_inv t"
  using log_event_seq_inv [of s v rid lv k sm "clock v" pl]
  by (cases "append_event v rid lv k sm (clock v) pl s")
    (auto simp: record_event_def split: if_splits option.splits)

lemma record_intervention_seq_inv:
  assumes "record_intervention v rid a n so tr q g ac fi s = Inr (i, t)" and "seq_inv s"
  shows "seq_inv t"
proof -
  obtain row lid where led: "record_ledger v rid LK_INTERVENTION
       (source_value so @ '' '' @ action_value a @ '': '' @ n)
       (if so = IS_HUMAN then LS_OPERATOR else LS_LOOP)
       (log_event v rid EL_NARRATIVE ''intervention''
          (source_value so @ '' '' @ action_value a @ '': '' @ n) (clock v) None
          (s\<lparr>interventions := interventions s @ [row]\<rparr>)) = Inr (lid, t)"
    using assms(1) by (rule record_intervention_cases)
  have "seq_inv (s\<lparr>interventions := interventions s @ [row]\<rparr>)"
    by (rule seq_inv_same_events [OF assms(2)]) simp
  then show ?thesis
    by (rule seq_inv_same_events [OF log_event_seq_inv record_ledger_events [OF led]])
qed

subsection \<open>Notes are deduplicated\<close>

definition notes_inv :: "store \<Rightarrow> bool" where
  "notes_inv s \<longleftrightarrow>
     distinct (map (\<lambda>n. (n_ticket n, n_key n)) (filter (\<lambda>n. n_key n \<noteq> None) (ticket_notes s)))"

lemma record_note_inv: "notes_inv s \<Longrightarrow> notes_inv (snd (record_note v tid k tx key au rid s))"
  by (auto simp: notes_inv_def record_note_def Let_def)

lemma record_note_again:
  assumes "key \<noteq> None"
  shows "record_note v' tid k' tx' key au' rid' (snd (record_note v tid k tx key au rid s)) =
    (None, snd (record_note v tid k tx key au rid s))"
proof -
  have "\<exists>n \<in> set (ticket_notes (snd (record_note v tid k tx key au rid s))).
      n_ticket n = tid \<and> n_key n = key"
    by (simp add: record_note_def Let_def)
  with assms show ?thesis by (simp add: record_note_def [of v'])
qed

subsection \<open>Revisions are numbered without a gap\<close>

definition revision_inv :: "store \<Rightarrow> bool" where
  "revision_inv s \<longleftrightarrow>
     (\<forall>t \<in> set (tickets s).
        numbered (map v_revision (ticket_revisions (t_id t) s)) \<and>
        t_revision t = length (ticket_revisions (t_id t) s))"

lemma latest_revision_snoc:
  "(\<And>y. y \<in> set xs \<Longrightarrow> v_revision y < v_revision x) \<Longrightarrow> latest_revision (xs @ [x]) = Some x"
proof (induction xs)
  case (Cons a xs)
  then have "latest_revision (xs @ [x]) = Some x" and "v_revision a < v_revision x" by auto
  then show ?case by simp
qed simp

lemma latest_revision_numbered:
  assumes "numbered (map v_revision xs)"
  shows "latest_revision xs = (if xs = [] then None else Some (last xs)) \<and>
    (xs \<noteq> [] \<longrightarrow> v_revision (last xs) = length xs)"
proof (cases xs rule: rev_cases)
  case (snoc ys y)
  with assms have "numbered (map v_revision ys)" "v_revision y = Suc (length ys)"
    by auto
  then have "latest_revision (ys @ [y]) = Some y"
    using numbered_member [of "map v_revision ys"]
    by (intro latest_revision_snoc) (force simp: less_Suc_eq_le)
  with assms snoc show ?thesis by simp
qed simp

lemma record_board_fields_Some:
  assumes "record_board_fields v tid author s = Inr (Some n, s')"
  obtains t where "ticket_of tid s = Some t"
    "n = (case latest_revision (ticket_revisions tid s) of None \<Rightarrow> 1 | Some x \<Rightarrow> v_revision x + 1)"
    "s' = upd_ticket tid (\<lambda>t. t\<lparr>t_revision := n\<rparr>)
            (s\<lparr>revisions := revisions s @ [field_revision v author n t]\<rparr>)"
proof -
  obtain t where t: "ticket_of tid s = Some t"
    using assms by (auto simp: record_board_fields_def split: option.split_asm)
  with assms show ?thesis
    by (intro that [OF t])
      (auto simp: record_board_fields_def Let_def split: option.split_asm if_split_asm)
qed

lemma record_board_fields_None:
  assumes "record_board_fields v tid author s = Inr (None, s')"
  obtains t x where "ticket_of tid s = Some t" "s' = s"
    "latest_revision (ticket_revisions tid s) = Some x" "same_fields x t"
proof -
  obtain t where t: "ticket_of tid s = Some t"
    using assms by (auto simp: record_board_fields_def split: option.split_asm)
  moreover obtain x where "latest_revision (ticket_revisions tid s) = Some x"
    using assms t by (auto simp: record_board_fields_def Let_def split: option.split_asm if_split_asm)
  ultimately show ?thesis
    using assms
    by (intro that) (auto simp: record_board_fields_def Let_def split: if_split_asm)
qed

lemma field_revision_same [simp]: "same_fields (field_revision v author n t) t"
  by (simp add: field_revision_def same_fields_def)

lemma ticket_revisions_add:
  "ticket_revisions tid (upd_ticket k f (s\<lparr>revisions := revisions s @ [x]\<rparr>)) =
     ticket_revisions tid s @ (if v_ticket x = tid then [x] else [])"
  by (simp add: ticket_revisions_def upd_ticket_def)

lemma record_board_fields_number:
  assumes ok: "record_board_fields v tid author s = Inr (Some n, s')" and inv: "revision_inv s"
  shows "n = Suc (length (ticket_revisions tid s))"
proof -
  obtain t where t: "ticket_of tid s = Some t"
    and n: "n = (case latest_revision (ticket_revisions tid s) of None \<Rightarrow> 1 | Some x \<Rightarrow> v_revision x + 1)"
    using ok by (rule record_board_fields_Some)
  from inv t have "numbered (map v_revision (ticket_revisions tid s))"
    by (auto simp: revision_inv_def dest: fetch_SomeD)
  from latest_revision_numbered [OF this] n show ?thesis by (auto split: if_splits)
qed

lemma record_board_fields_inv:
  assumes ok: "record_board_fields v tid author s = Inr (res, s')" and inv: "revision_inv s"
  shows "revision_inv s'"
proof (cases res)
  case None
  with ok inv show ?thesis by (auto elim: record_board_fields_None)
next
  case (Some n)
  with ok have ok': "record_board_fields v tid author s = Inr (Some n, s')" by simp
  from ok' obtain t where t: "ticket_of tid s = Some t"
    and s': "s' = upd_ticket tid (\<lambda>t. t\<lparr>t_revision := n\<rparr>)
        (s\<lparr>revisions := revisions s @ [field_revision v author n t]\<rparr>)"
    by (rule record_board_fields_Some)
  have row: "v_ticket (field_revision v author n t) = tid" "v_revision (field_revision v author n t) = n"
    using t by (auto simp: field_revision_def dest: fetch_SomeD)
  have "numbered (map v_revision (ticket_revisions tid s))"
    using inv t by (auto simp: revision_inv_def dest: fetch_SomeD)
  with record_board_fields_number [OF ok' inv] row inv show ?thesis
    unfolding revision_inv_def s' ticket_revisions_add
    by (auto simp: upd_ticket_def set_modify)
qed

subsection \<open>The appending calls are safe\<close>

lemma log_core_seqs: "seqs rid (spec_of s) = map e_seq (run_events rid s)"
proof -
  have "map snd (filter (\<lambda>e. fst e = Some rid) (map (\<lambda>e. (e_run e, e_seq e)) es)) =
      map e_seq (filter (\<lambda>e. e_run e = Some rid) es)" for es
    by (induction es) auto
  then show ?thesis by (simp add: seqs_def spec_of_def run_events_def)
qed

lemma next_seq_abs: "next_seq rid s = Suc (foldr max (seqs rid (spec_of s)) 0)"
  by (simp add: next_seq_def log_core_seqs foldr_max_seq)

lemma log_event_abs:
  "spec_of (log_event v rid lv kd sm at pl s) =
     (spec_of s)\<lparr>spec_log := spec_log (spec_of s) @ [(Some rid, next_seq rid s)]\<rparr>"
  by (simp add: append_event_def spec_of_def Let_def split: prod.splits)

lemma log_event_safe [simp]: "safe s (log_event v rid lv kd sm at pl s)"
proof (rule safe_step)
  show "spec_step (spec_of s) (spec_of (log_event v rid lv kd sm at pl s))"
    unfolding log_event_abs next_seq_abs by (rule spec_step.log)
  show "appends s (log_event v rid lv kd sm at pl s)"
    by (simp add: appends_def append_event_def Let_def split: prod.splits)
  show "desk_safe s (log_event v rid lv kd sm at pl s)"
    by (simp add: append_event_def Let_def split: prod.splits)
qed

lemma record_event_safe: "record_event v rid k sm lv pl s = Inr (q, t) \<Longrightarrow> safe s t"
  using log_event_safe [of s v rid lv k sm "clock v" pl]
  by (cases "append_event v rid lv k sm (clock v) pl s")
    (auto simp: record_event_def split: if_splits option.splits)

lemma record_ledger_safe: "record_ledger v rid k tx so s = Inr (i, t) \<Longrightarrow> safe s t"
  by (rule safe_same) (auto simp: record_ledger_def Let_def split: if_splits option.splits)

lemma insert_intervention_safe [simp]: "safe s (snd (insert_intervention row s))"
  by (rule safe_same) (auto simp: insert_intervention_def Let_def)

lemma record_intervention_safe:
  assumes "record_intervention v rid a n so tr q g ac fi s = Inr (i, t)"
  shows "safe s t"
proof -
  obtain row lid where "record_ledger v rid LK_INTERVENTION
       (source_value so @ '' '' @ action_value a @ '': '' @ n)
       (if so = IS_HUMAN then LS_OPERATOR else LS_LOOP)
       (log_event v rid EL_NARRATIVE ''intervention''
          (source_value so @ '' '' @ action_value a @ '': '' @ n) (clock v) None
          (s\<lparr>interventions := interventions s @ [row]\<rparr>)) = Inr (lid, t)"
    using assms by (rule record_intervention_cases)
  from record_ledger_safe [OF this]
  have "safe (s\<lparr>interventions := interventions s @ [row]\<rparr>) t"
    using log_event_safe safe_trans by blast
  moreover have "safe s (s\<lparr>interventions := interventions s @ [row]\<rparr>)"
    by (rule safe_same) simp_all
  ultimately show ?thesis by (rule safe_trans [rotated])
qed

lemma record_project_intervention_safe:
  "record_project_intervention v a n so tr p ac s = Inr (i, t) \<Longrightarrow> safe s t"
  by (rule safe_same)
    (auto simp: record_project_intervention_def insert_intervention_def Let_def
      split: if_splits option.splits)

lemma record_note_safe [simp]: "safe s (snd (record_note v tid k tx key au rid s))"
  by (rule safe_same) (auto simp: record_note_def Let_def)

lemma mark_note_safe [simp]: "safe s (mark_note_posted v nid s)" "safe s (mark_note_failed nid er s)"
  by (rule safe_same; simp add: mark_note_posted_def mark_note_failed_def)+

lemma record_board_fields_safe:
  assumes "record_board_fields v tid author s = Inr (res, t)"
  shows "safe s t"
proof (cases res)
  case None
  with assms show ?thesis by (auto elim: record_board_fields_None)
next
  case (Some n)
  with assms have "record_board_fields v tid author s = Inr (Some n, t)" by simp
  then obtain r where "t = upd_ticket tid (\<lambda>t. t\<lparr>t_revision := n\<rparr>)
      (s\<lparr>revisions := revisions s @ [field_revision v author n r]\<rparr>)"
    by (rule record_board_fields_Some)
  then show ?thesis
    by (intro safe_same) (auto simp: upd_ticket_def map_modify ticket_core_def)
qed

subsection \<open>The row an intervention writes\<close>

lemma record_intervention_rows:
  assumes "record_intervention v rid a n so tr q g ac fi s = Inr (i, t)"
  shows "\<exists>row. interventions t = interventions s @ [row] \<and> i_id row = i \<and> i_run row = Some rid
    \<and> i_action row = a \<and> i_source row = so \<and> i_trigger row = tr \<and> i = next_id i_id (interventions s)"
proof -
  obtain row lid where row: "i = next_id i_id (interventions s)"
    "i_run row = Some rid" "i_action row = a" "i_source row = so" "i_trigger row = tr" "i_id row = i"
    and led: "record_ledger v rid LK_INTERVENTION
       (source_value so @ '' '' @ action_value a @ '': '' @ n)
       (if so = IS_HUMAN then LS_OPERATOR else LS_LOOP)
       (log_event v rid EL_NARRATIVE ''intervention''
          (source_value so @ '' '' @ action_value a @ '': '' @ n) (clock v) None
          (s\<lparr>interventions := interventions s @ [row]\<rparr>)) = Inr (lid, t)"
    using assms by (rule record_intervention_cases)
  have "interventions (log_event v rid EL_NARRATIVE ''intervention'' sm (clock v) None
          (s\<lparr>interventions := interventions s @ [row]\<rparr>)) = interventions s @ [row]" for sm
    by (simp add: log_frame)
  moreover have "record_ledger v rid k tx so' u = Inr (lid, t) \<Longrightarrow> interventions t = interventions u" for k tx so' u
    by (auto simp: record_ledger_def Let_def split: if_split_asm option.split_asm)
  ultimately have "interventions t = interventions s @ [row]" using led by metis
  with row show ?thesis by blast
qed

lemma record_intervention_fields:
  assumes "record_intervention v rid a n so tr q g ac fi s = Inr (i, t)"
  shows "runs t = runs s" "tickets t = tickets s" "rounds t = rounds s" "projects t = projects s"
    "stories t = stories s"
  using record_intervention_keeps [OF assms] by (simp_all add: keeps_rows_def)

lemma record_board_fields_result:
  assumes inv: "revision_inv s" and ok: "record_board_fields v tid author s = Inr (res, s')"
  shows "revision_inv s' \<and>
    (\<exists>t x. ticket_of tid s = Some t \<and> latest_revision (ticket_revisions tid s') = Some x \<and> same_fields x t
       \<and> v_revision x = length (ticket_revisions tid s')
       \<and> length (ticket_revisions tid s') = length (ticket_revisions tid s) + (if res = None then 0 else 1))"
proof (cases res)
  case None
  with ok obtain t x where t: "ticket_of tid s = Some t" "s' = s"
    "latest_revision (ticket_revisions tid s) = Some x" "same_fields x t"
    by (auto elim: record_board_fields_None)
  have "t \<in> set (tickets s)" "t_id t = tid" using fetch_SomeD [OF t(1)] by simp_all
  then have "numbered (map v_revision (ticket_revisions tid s))" using inv by (auto simp: revision_inv_def)
  from latest_revision_numbered [OF this] t have "v_revision x = length (ticket_revisions tid s)"
    by (auto split: if_split_asm)
  with t None inv show ?thesis by simp
next
  case (Some n)
  with ok obtain t where t: "ticket_of tid s = Some t"
    and n: "n = (case latest_revision (ticket_revisions tid s) of None \<Rightarrow> 1 | Some x \<Rightarrow> v_revision x + 1)"
    and s': "s' = upd_ticket tid (\<lambda>t. t\<lparr>t_revision := n\<rparr>)
            (s\<lparr>revisions := revisions s @ [field_revision v author n t]\<rparr>)"
    by (auto elim: record_board_fields_Some)
  have id: "t \<in> set (tickets s)" "t_id t = tid" using fetch_SomeD [OF t] by simp_all
  have num: "n = Suc (length (ticket_revisions tid s))"
    using record_board_fields_number inv ok Some by blast
  have rows: "ticket_revisions tid s' = ticket_revisions tid s @ [field_revision v author n t]"
    by (simp add: s' ticket_revisions_add id(2) field_revision_def)
  have old: "numbered (map v_revision (ticket_revisions tid s))" using inv id by (auto simp: revision_inv_def)
  have "latest_revision (ticket_revisions tid s') = Some (field_revision v author n t)"
    unfolding rows
    by (rule latest_revision_snoc) (use numbered_member [OF old] num in \<open>force simp: field_revision_def\<close>)
  moreover have "v_revision (field_revision v author n t) = n" by (simp add: field_revision_def)
  ultimately show ?thesis
    using record_board_fields_inv [OF ok inv] t rows num Some by simp
qed

end
