(* ===== verification/Tickets.thy ===== *)
theory Tickets
  imports Log "HOL-Library.Product_Lexorder"
begin

section \<open>Tickets: the status machine, pickability and the board mirror\<close>

text \<open>
  \<^verbatim>\<open>store/tickets.py\<close> and \<^verbatim>\<open>store/criteria.py\<close>: one edge of the status diagram
  (\<open>transition\<close>), the shortest path along it (\<open>status_path\<close>, the source's breadth-first
  search) and the walk along that path, the claimability predicate in its one-ticket and its
  whole-project form, the criteria history a mirrored body writes, and \<open>mirror_ticket\<close>, the
  upsert of a board issue.

  The lemmas: the search returns a shortest walk and finds one whenever there is one; a walk
  ends at the status asked for; \<open>merged\<close> and \<open>abandoned\<close> are final; the two pickability
  reads agree; a mirror moves a ticket only between \<open>needs_spec\<close> and \<open>ready\<close>.
\<close>

subsection \<open>One edge\<close>

definition story_advanced_kind :: string where
  "story_advanced_kind = ''story_advanced''"

definition story_advanced :: "nat \<Rightarrow> store \<Rightarrow> bool" where
  "story_advanced tid s \<longleftrightarrow>
     (\<exists>e \<in> set (events s). e_kind e = story_advanced_kind \<and>
        (case e_run e of None \<Rightarrow> False
         | Some rid \<Rightarrow> (\<exists>r \<in> set (runs s). r_id r = rid \<and> r_ticket r = tid)))"

definition bump_generation :: "nat \<Rightarrow> store \<Rightarrow> store" where
  "bump_generation tid s =
     s\<lparr>stories := modify
        (\<lambda>y. \<exists>c \<in> set (story_children s). ch_ticket c = tid \<and> ch_story c = y_ticket y)
        (\<lambda>y. y\<lparr>y_generation := y_generation y + 1\<rparr>) (stories s)\<rparr>"

definition transition :: "nat \<Rightarrow> ticket_status \<Rightarrow> store \<Rightarrow> err + ticket_status \<times> store" where
  [op_defs]: "transition tid to s =
     (case ticket_of tid s of
        None \<Rightarrow> Inl (NoTicket tid)
      | Some t \<Rightarrow>
          (if to \<notin> set (ticket_transitions (t_status t))
           then Inl (IllegalStatus tid (t_status t) to)
           else
             (let from_status = t_status t;
                  s = upd_ticket tid (\<lambda>t. t\<lparr>t_status := to\<rparr>) s;
                  s = (if from_status = TS_BLOCKED_ON_OPERATOR
                       then upd_runs (\<lambda>r. r_ticket r = tid) (\<lambda>r. r\<lparr>r_park := None\<rparr>) s else s);
                  s = (if to = TS_MERGED \<and> \<not> story_advanced tid s
                       then bump_generation tid s else s)
              in Inr (from_status, s))))"

subsection \<open>The shortest path\<close>

definition sorted_succs :: "ticket_status \<Rightarrow> ticket_status list" where
  "sorted_succs st = sort_key status_value (ticket_transitions st)"

text \<open>The inner \<^verbatim>\<open>for\<close> over the sorted successors: the path found, or frontier and seen.\<close>

fun expand_status ::
    "ticket_status \<Rightarrow> ticket_status list \<Rightarrow> ticket_status list \<Rightarrow>
     (ticket_status \<times> ticket_status list) list \<Rightarrow> ticket_status list \<Rightarrow>
     ticket_status list + (ticket_status \<times> ticket_status list) list \<times> ticket_status list" where
  "expand_status to path [] frontier seen = Inr (frontier, seen)"
| "expand_status to path (nxt # rest) frontier seen =
     (if nxt = to then Inl (path @ [nxt])
      else if nxt \<notin> set seen
      then expand_status to path rest (frontier @ [(nxt, path @ [nxt])]) (nxt # seen)
      else expand_status to path rest frontier seen)"

lemma expand_status_shrinks:
  "expand_status to path nxts frontier seen = Inr (frontier', seen') \<Longrightarrow>
   (frontier' = frontier \<and> seen' = seen) \<or> card (UNIV - set seen') < card (UNIV - set seen)"
proof (induction nxts arbitrary: frontier seen)
  case (Cons n nxts)
  show ?case
  proof (cases "n \<noteq> to \<and> n \<notin> set seen")
    case True
    have "card (UNIV - set (n # seen)) < card (UNIV - set seen)"
      using True by (intro psubset_card_mono) auto
    moreover have "card (UNIV - set seen') \<le> card (UNIV - set (n # seen))"
      using Cons.IH [of "frontier @ [(n, path @ [n])]" "n # seen"] Cons.prems True by auto
    ultimately show ?thesis by simp
  next
    case False
    with Cons show ?thesis by (auto split: if_splits)
  qed
qed simp

function status_search ::
    "ticket_status \<Rightarrow> (ticket_status \<times> ticket_status list) list \<Rightarrow> ticket_status list \<Rightarrow>
     ticket_status list option" where
  "status_search to [] seen = None"
| "status_search to ((status, path) # frontier) seen =
     (case expand_status to path (sorted_succs status) frontier seen of
        Inl p \<Rightarrow> Some p
      | Inr (frontier, seen) \<Rightarrow> status_search to frontier seen)"
  by pat_completeness auto
termination
  by (relation "measures [\<lambda>(to, frontier, seen). card (UNIV - set seen),
                          \<lambda>(to, frontier, seen). length frontier]")
    (auto dest!: expand_status_shrinks)

definition status_path :: "ticket_status \<Rightarrow> ticket_status \<Rightarrow> ticket_status list option" where
  "status_path from_status to = status_search to [(from_status, [])] [from_status]"

subsection \<open>The walk\<close>

definition move_status :: "nat \<Rightarrow> ticket_status \<Rightarrow> store \<Rightarrow> err + store" where
  "move_status tid to s = bindE (transition tid to s) (\<lambda>(_, s). Inr s)"

definition walk_ticket :: "nat \<Rightarrow> ticket_status \<Rightarrow> store \<Rightarrow> err + ticket_status list \<times> store" where
  [op_defs]: "walk_ticket tid to s =
     (case ticket_of tid s of
        None \<Rightarrow> Inl (NoTicket tid)
      | Some t \<Rightarrow>
          (if t_status t = to then Inr ([], s)
           else case status_path (t_status t) to of
               None \<Rightarrow> Inl (NoStatusPath tid (t_status t) to)
             | Some path \<Rightarrow>
                 bindE (foldE (move_status tid) path s)
                   (\<lambda>s. Inr (path, s))))"

subsection \<open>Pickability\<close>

datatype pickability =
    Pickable
  | NoSuchTicket nat
  | StatusNotReady ticket_status
  | RunActive nat
  | NoCriteria
  | NoCommands
  | DependencyMissing string
  | DependencyOpen string ticket_status

fun first_open_dependency :: "(string \<Rightarrow> ticket_status option) \<Rightarrow> string list \<Rightarrow> pickability" where
  "first_open_dependency dep_status [] = Pickable"
| "first_open_dependency dep_status (dep # deps) =
     (case dep_status dep of
        None \<Rightarrow> DependencyMissing dep
      | Some st \<Rightarrow>
          if st \<noteq> TS_MERGED then DependencyOpen dep st
          else first_open_dependency dep_status deps)"

definition pickability_of :: "ticket_row \<Rightarrow> (string \<Rightarrow> ticket_status option) \<Rightarrow> pickability" where
  "pickability_of t dep_status =
     (if t_status t \<noteq> TS_READY then StatusNotReady (t_status t)
      else case t_active t of
          Some rid \<Rightarrow> RunActive rid
        | None \<Rightarrow>
            if t_criteria t = [] then NoCriteria
            else if t_commands t = [] then NoCommands
            else first_open_dependency dep_status (t_depends t))"

definition issue_status :: "nat \<Rightarrow> store \<Rightarrow> string \<Rightarrow> ticket_status option" where
  "issue_status pid s dep =
     map_option t_status (find (\<lambda>u. t_issue u = dep \<and> t_project u = pid) (tickets s))"

definition pickable :: "nat \<Rightarrow> store \<Rightarrow> pickability" where
  "pickable tid s =
     (case ticket_of tid s of
        None \<Rightarrow> NoSuchTicket tid
      | Some t \<Rightarrow> pickability_of t (issue_status (t_project t) s))"

text \<open>
  \<open>pickable_tickets\<close> reads the project's rows once and looks dependencies up in the dictionary
  it builds from them, in which a later row of the same issue id wins.
\<close>

definition pickable_tickets :: "nat \<Rightarrow> store \<Rightarrow> (string \<times> pickability) list" where
  "pickable_tickets pid s =
     (let rows = filter (\<lambda>t. t_project t = pid) (tickets s);
          status_of = map_of (rev (map (\<lambda>t. (t_issue t, t_status t)) rows))
      in map (\<lambda>t. (t_ident t, pickability_of t status_of)) rows)"

subsection \<open>Criteria history\<close>

text \<open>\<^verbatim>\<open>ticket_criteria.split_id\<close>: the number of a leading \<^verbatim>\<open>**C12**\<close> mark, and the rest.\<close>

definition is_digit :: "char \<Rightarrow> bool" where
  "is_digit c \<longleftrightarrow> 48 \<le> (of_char c :: nat) \<and> (of_char c :: nat) < 58"

definition split_id :: "string \<Rightarrow> nat option \<times> string" where
  "split_id text =
     (let body = dropWhile py_space text;
          rest = drop 3 body;
          digits = takeWhile is_digit rest;
          after = dropWhile is_digit rest
      in if take 3 body = ''**C'' \<and> digits \<noteq> [] \<and> hd digits \<noteq> CHR ''0'' \<and> take 2 after = ''**''
         then (Some (nat_of_digits digits), dropWhile py_space (drop 2 after))
         else (None, text))"

definition withdrawn_steer :: "nat option \<Rightarrow> store \<Rightarrow> bool" where
  "withdrawn_steer steer s \<longleftrightarrow>
     (case steer of None \<Rightarrow> False
      | Some m \<Rightarrow> (case fetch m_id m (steer_notes s) of
            None \<Rightarrow> False | Some n \<Rightarrow> m_withdrawn_by n \<noteq> None))"

text \<open>\<^verbatim>\<open>dict.setdefault\<close> in a loop: of the rows of one key the first stays.\<close>

fun first_per :: "('r \<Rightarrow> 'k) \<Rightarrow> 'r list \<Rightarrow> 'r list" where
  "first_per key [] = []"
| "first_per key (r # rows) = r # first_per key (filter (\<lambda>q. key q \<noteq> key r) rows)"

definition current_criteria :: "nat \<Rightarrow> store \<Rightarrow> criterion_row list" where
  "current_criteria tid s =
     (let rows = rev (filter (\<lambda>c. c_ticket c = tid \<and> \<not> withdrawn_steer (c_steer c) s) (criteria s))
      in sort_key (\<lambda>c. (c_status c = CS_RETIRED, c_position c = None,
                        (case c_position c of None \<Rightarrow> 0 | Some p \<Rightarrow> p), c_criterion c))
           (first_per c_criterion rows))"

definition append_criterion ::
    "env \<Rightarrow> nat \<Rightarrow> nat \<Rightarrow> nat option \<Rightarrow> string \<Rightarrow> criterion_witness_kind \<Rightarrow> string option \<Rightarrow>
     criterion_status \<Rightarrow> string \<Rightarrow> nat option \<Rightarrow> store \<Rightarrow> store" where
  "append_criterion v tid number position text kind target status source steer s =
     s\<lparr>criteria := criteria s @
        [\<lparr>c_id = next_id c_id (criteria s), c_ticket = tid, c_criterion = number,
          c_position = position, c_text = text, c_kind = kind, c_target = target,
          c_status = status, c_source = source, c_steer = steer, c_at = clock v\<rparr>]\<rparr>"

definition criterion_number ::
    "nat option \<Rightarrow> string \<Rightarrow> criterion_row list \<Rightarrow> nat list \<Rightarrow> nat \<Rightarrow> nat" where
  "criterion_number explicit text history taken highest =
     (case explicit of
        Some n \<Rightarrow>
          if n \<notin> set taken then n
          else (case find (\<lambda>c. c_text c = text \<and> c_criterion c \<notin> set taken) history of
                  Some c \<Rightarrow> c_criterion c | None \<Rightarrow> highest + 1)
      | None \<Rightarrow>
          (case find (\<lambda>c. c_text c = text \<and> c_criterion c \<notin> set taken) history of
             Some c \<Rightarrow> c_criterion c | None \<Rightarrow> highest + 1))"

fun record_open_criteria ::
    "env \<Rightarrow> nat \<Rightarrow> criterion_row list \<Rightarrow> criterion_row list \<Rightarrow>
     (nat \<times> (nat option \<times> string) \<times> criterion_witness_kind \<times> string option) list \<Rightarrow>
     nat list \<Rightarrow> nat \<Rightarrow> store \<Rightarrow> nat list \<times> store" where
  "record_open_criteria v tid history latest [] taken highest s = (taken, s)"
| "record_open_criteria v tid history latest ((position, (explicit, text), kind, target) # rest)
     taken highest s =
     (let number = criterion_number explicit text history taken highest;
          changed = (case fetch c_criterion number latest of
              None \<Rightarrow> True
            | Some p \<Rightarrow> c_steer p \<noteq> None \<or>
                (c_position p, c_text p, c_status p) \<noteq> (Some position, text, CS_OPEN));
          s = (if changed
               then append_criterion v tid number (Some position) text kind target CS_OPEN
                      ''filed'' None s
               else s)
      in record_open_criteria v tid history latest rest (number # taken) (max highest number) s)"

definition record_criteria :: "env \<Rightarrow> nat \<Rightarrow> string list \<Rightarrow> string list \<Rightarrow> store \<Rightarrow> store" where
  "record_criteria v tid texts commands s =
     (if texts = [] then s
      else
        (let history = filter (\<lambda>c. c_ticket c = tid) (criteria s);
             latest = current_criteria tid s;
             highest = foldr (\<lambda>c m. max (c_criterion c) m) history 0;
             split = map split_id texts;
             found = zip [1..<Suc (length texts)]
                       (zip split (witnesses_of v (map snd split) commands));
             (taken, s) = record_open_criteria v tid history latest found [] highest s
         in fold (\<lambda>c s.
                if c_criterion c \<notin> set taken \<and> c_status c = CS_OPEN
                then append_criterion v tid (c_criterion c) None (c_text c) (c_kind c)
                       (c_target c) CS_RETIRED ''filed'' None s
                else s) latest s))"

subsection \<open>The mirror\<close>

text \<open>The arguments of \<^verbatim>\<open>mirror_ticket()\<close>; an absent optional field keeps the row's value.\<close>

record board_issue =
  bi_issue :: string
  bi_ident :: string
  bi_title :: string
  bi_criteria :: "string list"
  bi_commands :: "string list"
  bi_time_box :: "int option"
  bi_affinity :: affinity
  bi_depends :: "string list option"
  bi_body :: string
  bi_url :: "string option"
  bi_board_state :: "string option"
  bi_priority :: "int option"
  bi_labels :: "string list option"
  bi_column :: "board_column option"
  bi_filed :: "int option"
  bi_board_updated :: "int option"

definition coalesce :: "'a option \<Rightarrow> 'a option \<Rightarrow> 'a option" where
  "coalesce x y = (case x of None \<Rightarrow> y | Some _ \<Rightarrow> x)"

definition coalesce_list :: "'a option \<Rightarrow> 'a \<Rightarrow> 'a" where
  "coalesce_list x y = (case x of None \<Rightarrow> y | Some z \<Rightarrow> z)"

definition new_ticket :: "env \<Rightarrow> nat \<Rightarrow> nat \<Rightarrow> board_issue \<Rightarrow> ticket_row" where
  "new_ticket v tid pid b =
     \<lparr>t_id = tid, t_project = pid, t_issue = bi_issue b, t_url = bi_url b,
      t_board_state = bi_board_state b, t_ident = bi_ident b, t_title = bi_title b,
      t_body = bi_body b,
      t_status = (if bi_criteria b \<noteq> [] \<and> bi_commands b \<noteq> [] then TS_READY else TS_NEEDS_SPEC),
      t_criteria = bi_criteria b, t_commands = bi_commands b, t_time_box = bi_time_box b,
      t_affinity = bi_affinity b, t_depends = coalesce_list (bi_depends b) [],
      t_active = None, t_last = None, t_question = None, t_split_depth = 0,
      t_mirrored = clock v, t_column = bi_column b, t_priority = bi_priority b,
      t_labels = coalesce_list (bi_labels b) [], t_filed = bi_filed b,
      t_board_updated = bi_board_updated b, t_revision = 0, t_push_state = None,
      t_push_from = None, t_push_at = None, t_gone = None, t_parent = None\<rparr>"

definition mirrored_ticket ::
    "env \<Rightarrow> board_issue \<Rightarrow> string list \<Rightarrow> string list \<Rightarrow> ticket_status \<Rightarrow> ticket_row \<Rightarrow> ticket_row" where
  "mirrored_ticket v b crits cmds derived t =
     t\<lparr>t_ident := bi_ident b, t_title := bi_title b, t_body := bi_body b,
       t_status := (if t_status t = TS_NEEDS_SPEC \<or> t_status t = TS_READY then derived
                    else t_status t),
       t_criteria := crits, t_commands := cmds, t_time_box := bi_time_box b,
       t_affinity := bi_affinity b, t_depends := coalesce_list (bi_depends b) (t_depends t),
       t_mirrored := clock v, t_url := bi_url b, t_board_state := bi_board_state b,
       t_priority := coalesce (bi_priority b) (t_priority t),
       t_labels := coalesce_list (bi_labels b) (t_labels t),
       t_column := coalesce (bi_column b) (t_column t),
       t_filed := coalesce (bi_filed b) (t_filed t),
       t_board_updated := coalesce (bi_board_updated b) (t_board_updated t)\<rparr>"

definition mirror_ticket ::
    "env \<Rightarrow> nat \<Rightarrow> board_issue \<Rightarrow> nat option \<Rightarrow> string \<Rightarrow> store \<Rightarrow> err + nat \<times> store" where
  [op_defs]: "mirror_ticket v pid b expected author s =
     (case find (\<lambda>t. t_issue t = bi_issue b \<and> t_project t = pid) (tickets s) of
        None \<Rightarrow>
          (if project_of pid s = None \<or> bi_issue b \<in> t_issue ` set (tickets s)
           then Inl (IntegrityError ''tickets'')
           else
             (let tid = next_id t_id (tickets s);
                  s = add_ticket (new_ticket v tid pid b) s;
                  s = record_criteria v tid (bi_criteria b) (bi_commands b) s
              in bindE (record_board_fields v tid author s) (\<lambda>(_, s). Inr (tid, s))))
      | Some t \<Rightarrow>
          (if expected \<noteq> None \<and> expected \<noteq> Some (t_revision t) then Inr (t_id t, s)
           else
             (let tid = t_id t;
                  is_story = (story_of tid s \<noteq> None);
                  crits = (if is_story then [] else bi_criteria b);
                  cmds = (if is_story then [] else bi_commands b);
                  derived = (if crits \<noteq> [] \<and> cmds \<noteq> [] then TS_READY else TS_NEEDS_SPEC)
              in bindE (record_board_fields v tid ''unrecorded'' s) (\<lambda>(_, s).
                 let s = upd_ticket tid (mirrored_ticket v b crits cmds derived) s;
                     s = (if (t_body t, t_criteria t, t_commands t) \<noteq> (bi_body b, crits, cmds)
                          then record_criteria v tid crits cmds s else s)
                 in bindE (record_board_fields v tid author s) (\<lambda>(_, s). Inr (tid, s))))))"

subsection \<open>Projects\<close>

definition new_project :: "nat \<Rightarrow> string \<Rightarrow> string \<Rightarrow> string \<Rightarrow> autonomy_profile \<Rightarrow> project_row" where
  "new_project pid team path branch profile =
     \<lparr>p_id = pid, p_team = team, p_repo = path, p_branch = branch, p_autonomy = profile,
      p_high_risk = [], p_verification = None, p_admission = AD_ENABLED, p_hold_note = None,
      p_asked_at = None, p_backoff_until = None, p_backoff = None, p_active = None, p_seq = 0\<rparr>"

text \<open>\<^verbatim>\<open>_set_admission\<close>, and \<^verbatim>\<open>set_admission\<close>, which names the action of each state.\<close>

fun admission_action :: "project_admission \<Rightarrow> intervention_action" where
  "admission_action AD_ENABLED = IA_RELEASE_HOLD"
| "admission_action AD_HELD = IA_HOLD"
| "admission_action AD_DISABLED = IA_DISABLE"

definition set_admission :: "env \<Rightarrow> nat \<Rightarrow> project_admission \<Rightarrow> string \<Rightarrow> store \<Rightarrow> err + nat \<times> store" where
  [op_defs]: "set_admission v pid state note s =
     (if blank note then Inl (BlankText ''note'')
      else case project_of pid s of
          None \<Rightarrow> Inl (NoProject pid)
        | Some p \<Rightarrow>
            (if p_admission p = state then Inl (AdmissionUnchanged pid)
             else
               (let (iid, s) = insert_intervention
                      \<lparr>i_id = 0, i_run = None, i_project = Some pid, i_source = IS_HUMAN,
                       i_trigger = IT_MANUAL, i_action = admission_action state,
                       i_note = Some note, i_question = None, i_guidance = None,
                       i_at = clock v, i_actor = Some (intervention_actor v IS_HUMAN None),
                       i_firing = None\<rparr> s;
                    s = upd_project pid (\<lambda>p. p\<lparr>p_admission := state,
                          p_hold_note := (if state \<noteq> AD_ENABLED then Some note else None)\<rparr>) s
                in Inr (iid, s))))"

definition hold :: "env \<Rightarrow> nat \<Rightarrow> string \<Rightarrow> store \<Rightarrow> err + nat \<times> store" where
  "hold v pid note = set_admission v pid AD_HELD note"

definition release_hold :: "env \<Rightarrow> nat \<Rightarrow> string \<Rightarrow> store \<Rightarrow> err + nat \<times> store" where
  "release_hold v pid note = set_admission v pid AD_ENABLED note"

subsection \<open>The search finds a shortest walk\<close>

fun valid_walk :: "ticket_status \<Rightarrow> ticket_status list \<Rightarrow> ticket_status \<Rightarrow> bool" where
  "valid_walk a [] b \<longleftrightarrow> a = b"
| "valid_walk a (c # cs) b \<longleftrightarrow> c \<in> set (ticket_transitions a) \<and> valid_walk c cs b"

text \<open>
  The length of the path the search finds, \<open>None\<close> when it finds none, \<open>Some 0\<close> at the
  goal. Evaluation over the 343 triples of statuses shows that one edge lowers it by at most
  one, so no walk is shorter than it.
\<close>

definition search_dist :: "ticket_status \<Rightarrow> ticket_status \<Rightarrow> nat option" where
  "search_dist a b = (if a = b then Some 0 else map_option length (status_path a b))"

lemma search_dist_edge:
  "\<forall>a b. \<forall>c \<in> set (ticket_transitions a).
     (case search_dist c b of
        None \<Rightarrow> True
      | Some d \<Rightarrow> (case status_path a b of None \<Rightarrow> False | Some p \<Rightarrow> length p \<le> Suc d))"
  by code_simp

lemma status_path_valid: "\<forall>a b. case status_path a b of None \<Rightarrow> True | Some p \<Rightarrow> p \<noteq> [] \<and> valid_walk a p b"
  by code_simp

lemma status_path_None_iff_not: "status_path a b = None \<Longrightarrow> search_dist a b = (if a = b then Some 0 else None)"
  by (simp add: search_dist_def)

lemma valid_walk_dist:
  "valid_walk a q b \<Longrightarrow> \<exists>d. search_dist a b = Some d \<and> d \<le> length q"
proof (induction q arbitrary: a)
  case Nil
  then show ?case by (simp add: search_dist_def)
next
  case (Cons c q)
  then obtain d where d: "search_dist c b = Some d" "d \<le> length q" by auto
  from search_dist_edge Cons.prems d(1)
  obtain p where "status_path a b = Some p" "length p \<le> Suc d"
    by (fastforce split: option.splits)
  with d(2) show ?case by (auto simp: search_dist_def)
qed

lemma valid_walk_path:
  assumes "valid_walk a (c # q) b"
  obtains p where "status_path a b = Some p" "length p \<le> length (c # q)"
proof -
  from assms obtain d where d: "search_dist c b = Some d" "d \<le> length q"
    using valid_walk_dist [of c q b] by auto
  from search_dist_edge assms d(1)
  obtain p where "status_path a b = Some p" "length p \<le> Suc d"
    by (fastforce split: option.splits)
  with d(2) show ?thesis by (intro that) auto
qed

lemma status_path_SomeD: "status_path a b = Some p \<Longrightarrow> p \<noteq> [] \<and> valid_walk a p b"
  using status_path_valid [THEN spec, THEN spec, of a b] by simp

lemma valid_walk_last: "valid_walk a p b \<Longrightarrow> p \<noteq> [] \<Longrightarrow> last p = b"
  by (induction p arbitrary: a) auto

subsection \<open>The walk follows the edges\<close>

lemma transition_cases:
  assumes "transition tid to s = Inr (st, s')"
  obtains t where "ticket_of tid s = Some t" "st = t_status t" "to \<in> set (ticket_transitions st)"
    "tickets s' = modify (\<lambda>t. t_id t = tid) (\<lambda>t. t\<lparr>t_status := to\<rparr>) (tickets s)"
    "runs s' = (if st = TS_BLOCKED_ON_OPERATOR
       then modify (\<lambda>r. r_ticket r = tid) (\<lambda>r. r\<lparr>r_park := None\<rparr>) (runs s) else runs s)"
    "events s' = events s" "ledger s' = ledger s" "projects s' = projects s" "interventions s' = interventions s"
    "revisions s' = revisions s" "rounds s' = rounds s" "story_children s' = story_children s"
    "map y_ticket (stories s') = map y_ticket (stories s)"
    "map y_state (stories s') = map y_state (stories s)"
proof -
  obtain t where t: "ticket_of tid s = Some t"
    using assms by (auto simp: transition_def split: option.split_asm)
  show ?thesis
    using assms t
    by (intro that [OF t])
      (auto simp: transition_def table_defs bump_generation_def Let_def map_modify
        split: if_split_asm)
qed

lemma transition_ok:
  "ticket_of tid s = Some t \<Longrightarrow> to \<in> set (ticket_transitions (t_status t)) \<Longrightarrow>
   \<exists>s'. transition tid to s = Inr (t_status t, s')"
  by (simp add: transition_def Let_def)

lemma transition_ticket:
  assumes "transition tid to s = Inr (st, s')"
  shows "ticket_of k s' = (if k = tid then map_option (\<lambda>t. t\<lparr>t_status := to\<rparr>) (ticket_of k s)
                           else ticket_of k s)"
  using assms by (elim transition_cases) (simp add: fetch_modify_key)

lemma transition_safe:
  assumes "transition tid to s = Inr (st, s')"
  shows "safe s s'"
proof (rule safe_step)
  obtain t where t: "ticket_of tid s = Some t" "st = t_status t" "to \<in> set (ticket_transitions st)"
    and tk: "tickets s' = modify (\<lambda>t. t_id t = tid) (\<lambda>t. t\<lparr>t_status := to\<rparr>) (tickets s)"
    and rs: "runs s' = (if st = TS_BLOCKED_ON_OPERATOR
       then modify (\<lambda>r. r_ticket r = tid) (\<lambda>r. r\<lparr>r_park := None\<rparr>) (runs s) else runs s)"
    and ev: "events s' = events s"
    and ids: "map y_ticket (stories s') = map y_ticket (stories s)"
      "map y_state (stories s') = map y_state (stories s)"
    using assms by (rule transition_cases)
  have "map (\<lambda>y. (y_ticket y, y_state y)) ys = zip (map y_ticket ys) (map y_state ys)" for ys
    by (induction ys) auto
  then have stories: "map (\<lambda>y. (y_ticket y, y_state y)) (stories s') = map (\<lambda>y. (y_ticket y, y_state y)) (stories s)"
    using ids by metis
  have "spec_of s' = set_status tid to (spec_of s)"
    by (simp add: spec_of_def tk rs ev stories run_core_def ticket_core_def modify_def)
  moreover have "fetch x_id tid (spec_tickets (spec_of s)) = Some (ticket_core t)"
    using t(1) by (simp add: spec_of_def fetch_ticket_core)
  ultimately show "spec_step (spec_of s) (spec_of s')"
    using t(2,3) by (simp add: ticket_core_def) (rule spec_step.status, auto)
  show "appends s s'"
    using assms by (elim transition_cases) (simp add: appends_def transition_def)
  show "desk_safe s s'"
    using assms by (auto simp: transition_def bump_generation_def Let_def split: option.split_asm if_split_asm)
qed

abbreviation walk_steps :: "nat \<Rightarrow> ticket_status list \<Rightarrow> store \<Rightarrow> err + store" where
  "walk_steps tid path s \<equiv> foldE (move_status tid) path s"

lemma move_status_Inr [simp]: "move_status tid to s = Inr u \<longleftrightarrow> (\<exists>a. transition tid to s = Inr (a, u))"
  by (auto simp: move_status_def)

lemma transition_events: "transition tid to s = Inr (st, s') \<Longrightarrow> events s' = events s"
  by (elim transition_cases)

lemma walk_steps_ok:
  "ticket_of tid s = Some t \<Longrightarrow> valid_walk (t_status t) path b \<Longrightarrow>
   \<exists>s'. walk_steps tid path s = Inr s'"
proof (induction path arbitrary: s t)
  case Nil
  then show ?case by simp
next
  case (Cons c path)
  then obtain u where u: "transition tid c s = Inr (t_status t, u)"
    using transition_ok by fastforce
  with Cons.prems have "ticket_of tid u = Some (t\<lparr>t_status := c\<rparr>)"
    by (simp add: transition_ticket [OF u])
  with Cons.IH [of u "t\<lparr>t_status := c\<rparr>"] Cons.prems(2) u show ?case by simp
qed

lemma walk_steps_ticket:
  "walk_steps tid path s = Inr s' \<Longrightarrow>
   ticket_of k s' = (if k = tid \<and> path \<noteq> []
      then map_option (\<lambda>t. t\<lparr>t_status := last path\<rparr>) (ticket_of k s) else ticket_of k s)"
proof (induction path arbitrary: s)
  case (Cons c path)
  then obtain st u where u: "transition tid c s = Inr (st, u)" and rest: "walk_steps tid path u = Inr s'"
    by auto
  from Cons.IH [OF rest] show ?case
    by (auto simp: transition_ticket [OF u] option.map_comp o_def)
qed simp

lemma walk_ticket_cases:
  assumes "walk_ticket tid to s = Inr (path, s')"
  obtains t where "ticket_of tid s = Some t" "walk_steps tid path s = Inr s'"
    "path = [] \<and> t_status t = to \<or> path \<noteq> [] \<and> status_path (t_status t) to = Some path"
proof -
  obtain t where t: "ticket_of tid s = Some t"
    using assms by (auto simp: walk_ticket_def split: option.split_asm)
  show ?thesis
    using assms t
    by (intro that [OF t])
      (auto simp: walk_ticket_def dest: status_path_SomeD split: if_split_asm option.split_asm)
qed

lemma walk_steps_safe: "walk_steps tid path s = Inr s' \<Longrightarrow> safe s s'"
  by (erule safe_foldE) (auto intro: transition_safe)

lemma walk_ticket_safe: "walk_ticket tid to s = Inr (path, s') \<Longrightarrow> safe s s'"
  by (elim walk_ticket_cases) (rule walk_steps_safe)

lemma walk_steps_events: "walk_steps tid path s = Inr s' \<Longrightarrow> events s' = events s"
proof (erule foldE_invariant [where P = "\<lambda>u. events u = events s"])
  show "events v = events s" if "move_status tid x u = Inr v" "events u = events s" for x u v
    using that by (metis move_status_Inr transition_events)
qed simp

lemma walk_ticket_events: "walk_ticket tid to s = Inr (path, s') \<Longrightarrow> events s' = events s"
  by (elim walk_ticket_cases) (rule walk_steps_events)

lemma walk_steps_runs:
  "walk_steps tid path s = Inr s' \<Longrightarrow>
   run_of k s' = run_of k s \<or>
   run_of k s' = map_option (\<lambda>r. if r_ticket r = tid then r\<lparr>r_park := None\<rparr> else r) (run_of k s)"
proof (induction path arbitrary: s)
  case (Cons c path)
  then obtain st u where u: "transition tid c s = Inr (st, u)" and rest: "walk_steps tid path u = Inr s'"
    by auto
  have "run_of k u = run_of k s \<or>
      run_of k u = map_option (\<lambda>r. if r_ticket r = tid then r\<lparr>r_park := None\<rparr> else r) (run_of k s)"
    using u by (elim transition_cases) (auto simp: fetch_modify)
  with Cons.IH [OF rest] show ?case
    by (cases "run_of k s") auto
qed simp

lemma walk_ticket_ticket:
  assumes "walk_ticket tid to s = Inr (path, s')"
  shows "ticket_of k s' = (if k = tid then map_option (\<lambda>t. t\<lparr>t_status := to\<rparr>) (ticket_of k s)
                           else ticket_of k s)"
proof -
  obtain t where t: "ticket_of tid s = Some t" and w: "walk_steps tid path s = Inr s'"
    and p: "path = [] \<and> t_status t = to \<or> path \<noteq> [] \<and> status_path (t_status t) to = Some path"
    using assms by (rule walk_ticket_cases)
  have "path \<noteq> [] \<Longrightarrow> last path = to"
  proof -
    assume "path \<noteq> []"
    with p have "valid_walk (t_status t) path to" by (auto dest: status_path_SomeD)
    then show "last path = to"
      using \<open>path \<noteq> []\<close> by (rule valid_walk_last)
  qed
  with walk_steps_ticket [OF w, of k] p t show ?thesis by auto
qed

lemma walk_ticket_ok:
  assumes "ticket_of tid s = Some t" and "t_status t = to \<or> status_path (t_status t) to \<noteq> None"
  shows "\<exists>path s'. walk_ticket tid to s = Inr (path, s')"
  using assms walk_steps_ok [OF assms(1)]
  by (fastforce simp: walk_ticket_def dest: status_path_SomeD)

subsection \<open>The mirror is safe\<close>

lemma append_criterion_frame [log_frame]:
  "runs (append_criterion v tid n pos tx kd tg st so sr s) = runs s"
  "tickets (append_criterion v tid n pos tx kd tg st so sr s) = tickets s"
  "stories (append_criterion v tid n pos tx kd tg st so sr s) = stories s"
  "events (append_criterion v tid n pos tx kd tg st so sr s) = events s"
  "ledger (append_criterion v tid n pos tx kd tg st so sr s) = ledger s"
  "interventions (append_criterion v tid n pos tx kd tg st so sr s) = interventions s"
  "revisions (append_criterion v tid n pos tx kd tg st so sr s) = revisions s"
  by (simp_all add: append_criterion_def)

lemma append_criterion_safe [simp]: "safe s (append_criterion v tid n pos tx kd tg st so sr s)"
  by (rule safe_same) (simp_all add: append_criterion_def)

lemma record_open_criteria_safe:
  "safe s (snd (record_open_criteria v tid history latest found taken highest s))"
proof (induction v tid history latest found taken highest s rule: record_open_criteria.induct)
  case (2 v tid hs la po ex tx kd tg re tk hi s)
  show ?case
    unfolding record_open_criteria.simps Let_def
    by (rule safe_trans [OF _ "2.IH" [OF refl refl refl]]) simp
qed simp

lemma safe_fold: "(\<And>x u. safe u (f x u)) \<Longrightarrow> safe s (fold f xs s)"
proof (induction xs arbitrary: s)
  case (Cons x xs)
  then have "safe s (f x s)" "safe (f x s) (fold f xs (f x s))" by auto
  then show ?case by (simp add: safe_trans)
qed simp

lemma record_criteria_safe [simp]: "safe s (record_criteria v tid texts commands s)"
proof (cases "texts = []")
  case True
  then show ?thesis by (simp add: record_criteria_def)
next
  case False
  let ?retire = "\<lambda>taken c s. if c_criterion c \<notin> set taken \<and> c_status c = CS_OPEN
    then append_criterion v tid (c_criterion c) None (c_text c) (c_kind c) (c_target c)
           CS_RETIRED ''filed'' None s else s"
  obtain taken u found where
    u: "record_open_criteria v tid (filter (\<lambda>c. c_ticket c = tid) (criteria s)) (current_criteria tid s)
        found [] (foldr (\<lambda>c m. max (c_criterion c) m) (filter (\<lambda>c. c_ticket c = tid) (criteria s)) 0) s
        = (taken, u)"
    and found: "found = zip [1..<Suc (length texts)] (zip (map split_id texts)
        (witnesses_of v (map snd (map split_id texts)) commands))"
    by (metis surj_pair)
  have "record_criteria v tid texts commands s = fold (?retire taken) (current_criteria tid s) u"
    using False u unfolding record_criteria_def Let_def found by simp
  moreover have "safe s u" using record_open_criteria_safe [of s v tid] u by (metis snd_conv)
  moreover have "safe u (fold (?retire taken) (current_criteria tid s) u)" by (rule safe_fold) simp
  ultimately show ?thesis by (metis safe_trans)
qed

lemma add_ticket_safe:
  assumes "t_id t = next_id t_id (tickets s)" and "t_active t = None" and "unspecced (t_status t)"
  shows "safe s (add_ticket t s)"
proof (rule safe_step)
  have "spec_of (add_ticket t s) = (spec_of s)\<lparr>spec_tickets := spec_tickets (spec_of s) @
      [\<lparr>x_id = next_id x_id (spec_tickets (spec_of s)), x_project = t_project t, x_status = t_status t,
        x_active = None\<rparr>]\<rparr>"
    using assms by (simp add: spec_of_def add_ticket_def ticket_core_def [of t])
  then show "spec_step (spec_of s) (spec_of (add_ticket t s))"
    using spec_step.arrive [of "t_status t" "spec_of s" "t_project t"] assms(3)
    by (simp add: unspecced_def)
  show "appends s (add_ticket t s)" by (simp add: appends_def add_ticket_def)
qed simp

lemma respec_safe:
  assumes "unspecced derived"
    and "\<And>t. ticket_core (f t) = (if unspecced (t_status t) then (ticket_core t)\<lparr>x_status := derived\<rparr>
           else ticket_core t)"
  shows "safe s (upd_ticket tid f s)"
proof (rule safe_step)
  have "map ticket_core (modify (\<lambda>t. t_id t = tid) f ts) =
      modify (\<lambda>x. x_id x = tid \<and> unspecced (x_status x)) (\<lambda>x. x\<lparr>x_status := derived\<rparr>)
        (map ticket_core ts)" for ts
    by (induction ts) (auto simp: assms(2), auto simp: ticket_core_def)
  then have "spec_of (upd_ticket tid f s) = (spec_of s)\<lparr>spec_tickets :=
      modify (\<lambda>x. x_id x = tid \<and> unspecced (x_status x)) (\<lambda>x. x\<lparr>x_status := derived\<rparr>)
        (spec_tickets (spec_of s))\<rparr>"
    by (simp add: spec_of_def upd_ticket_def)
  then show "spec_step (spec_of s) (spec_of (upd_ticket tid f s))"
    using spec_step.respec [OF assms(1)] by simp
  show "appends s (upd_ticket tid f s)" by (simp add: appends_def upd_ticket_def)
qed simp

lemma mirrored_ticket_core:
  "ticket_core (mirrored_ticket v b crits cmds derived t) =
     (if unspecced (t_status t) then (ticket_core t)\<lparr>x_status := derived\<rparr> else ticket_core t)"
  by (simp add: mirrored_ticket_def ticket_core_def unspecced_def)

lemma mirror_ticket_safe:
  assumes "mirror_ticket v pid b expected author s = Inr (tid, s')"
  shows "safe s s'"
proof (cases "find (\<lambda>t. t_issue t = bi_issue b \<and> t_project t = pid) (tickets s)")
  case None
  define k where "k = next_id t_id (tickets s)"
  define u where "u = record_criteria v k (bi_criteria b) (bi_commands b) (add_ticket (new_ticket v k pid b) s)"
  have "safe s (add_ticket (new_ticket v k pid b) s)"
    by (rule add_ticket_safe) (simp_all add: new_ticket_def k_def unspecced_def)
  then have "safe s u" unfolding u_def by (rule safe_trans) simp
  moreover obtain res where "record_board_fields v k author u = Inr (res, s')"
    using assms None by (auto simp: mirror_ticket_def Let_def k_def u_def split: if_split_asm)
  ultimately show ?thesis using record_board_fields_safe safe_trans by blast
next
  case (Some t)
  show ?thesis
  proof (cases "expected \<noteq> None \<and> expected \<noteq> Some (t_revision t)")
    case True
    with assms Some show ?thesis by (simp add: mirror_ticket_def)
  next
    case False
    define k where "k = t_id t"
    define crits where "crits = (if story_of k s \<noteq> None then [] else bi_criteria b)"
    define cmds where "cmds = (if story_of k s \<noteq> None then [] else bi_commands b)"
    define derived where "derived = (if crits \<noteq> [] \<and> cmds \<noteq> [] then TS_READY else TS_NEEDS_SPEC)"
    obtain u r1 r2 where u: "record_board_fields v k ''unrecorded'' s = Inr (r1, u)"
      and s': "record_board_fields v k author
        (if (t_body t, t_criteria t, t_commands t) \<noteq> (bi_body b, crits, cmds)
         then record_criteria v k crits cmds (upd_ticket k (mirrored_ticket v b crits cmds derived) u)
         else upd_ticket k (mirrored_ticket v b crits cmds derived) u) = Inr (r2, s')"
      using assms Some False
      unfolding mirror_ticket_def Let_def k_def crits_def cmds_def derived_def
      by (auto simp del: prod.inject)
    define w where "w = (if (t_body t, t_criteria t, t_commands t) \<noteq> (bi_body b, crits, cmds)
         then record_criteria v k crits cmds (upd_ticket k (mirrored_ticket v b crits cmds derived) u)
         else upd_ticket k (mirrored_ticket v b crits cmds derived) u)"
    have "safe u (upd_ticket k (mirrored_ticket v b crits cmds derived) u)"
      by (rule respec_safe [OF _ mirrored_ticket_core]) (simp add: derived_def unspecced_def)
    then have "safe u w"
      unfolding w_def by (auto intro: safe_trans)
    moreover have "safe s u" using record_board_fields_safe [OF u] .
    moreover have "safe w s'" using record_board_fields_safe [OF s'] by (simp add: w_def)
    ultimately show ?thesis using safe_trans by blast
  qed
qed

lemma set_admission_safe: "set_admission v pid state note s = Inr (i, s') \<Longrightarrow> safe s s'"
  by (rule safe_same)
    (auto simp: set_admission_def insert_intervention_def upd_project_def Let_def
      split: if_split_asm option.split_asm)

subsection \<open>The two pickability reads agree\<close>

lemma map_of_rev_distinct: "distinct (map fst xs) \<Longrightarrow> map_of (rev xs) = map_of xs"
proof (induction xs)
  case (Cons x xs)
  then have "map_of xs (fst x) = None" by (auto simp: map_of_eq_None_iff)
  with Cons show ?case by (cases x) (auto simp: map_add_def fun_eq_iff split: option.split)
qed simp

lemma map_of_find:
  "map_of (map (\<lambda>t. (f t, g t)) rows) k = map_option g (find (\<lambda>t. f t = k) rows)"
  by (induction rows) auto

lemma find_filter: "find P (filter Q rows) = find (\<lambda>t. P t \<and> Q t) rows"
  by (induction rows) auto

lemma pickable_agrees:
  assumes issues: "distinct (map t_issue (tickets s))"
    and idents: "distinct (map t_ident (filter (\<lambda>u. t_project u = t_project t) (tickets s)))"
    and ids: "keyed t_id (tickets s)" and t: "t \<in> set (tickets s)"
  shows "map_of (rev (pickable_tickets (t_project t) s)) (t_ident t) = Some (pickable (t_id t) s)"
proof -
  let ?rows = "filter (\<lambda>u. t_project u = t_project t) (tickets s)"
  have "distinct (map t_issue ?rows)" using issues by (simp add: distinct_map_filter)
  then have "map_of (rev (map (\<lambda>t. (t_issue t, t_status t)) ?rows)) = issue_status (t_project t) s"
    by (subst map_of_rev_distinct)
      (auto simp: map_of_find issue_status_def find_filter o_def intro!: ext)
  then have rows: "pickable_tickets (t_project t) s =
      map (\<lambda>u. (t_ident u, pickability_of u (issue_status (t_project t) s))) ?rows"
    by (simp add: pickable_tickets_def Let_def)
  have "map_of (rev (pickable_tickets (t_project t) s)) (t_ident t) =
      map_of (pickable_tickets (t_project t) s) (t_ident t)"
    using idents by (subst map_of_rev_distinct) (simp_all add: rows o_def)
  also have "\<dots> = Some (pickability_of t (issue_status (t_project t) s))"
    using idents t by (subst map_of_eq_Some_iff) (auto simp: rows o_def)
  also have "\<dots> = Some (pickable (t_id t) s)"
    using fetch_member [OF ids t] by (simp add: pickable_def)
  finally show ?thesis .
qed

text \<open>What \<open>Pickable\<close> says.\<close>

lemma first_open_dependency_Pickable:
  "first_open_dependency dep_status deps = Pickable \<longleftrightarrow> (\<forall>dep \<in> set deps. dep_status dep = Some TS_MERGED)"
  by (induction deps) (auto split: option.splits)

lemma pickable_iff:
  "pickable tid s = Pickable \<longleftrightarrow>
   (\<exists>t. ticket_of tid s = Some t \<and> t_status t = TS_READY \<and> t_active t = None \<and> t_criteria t \<noteq> []
      \<and> t_commands t \<noteq> [] \<and> (\<forall>dep \<in> set (t_depends t). issue_status (t_project t) s dep = Some TS_MERGED))"
  by (auto simp: pickable_def pickability_of_def first_open_dependency_Pickable split: option.splits)

subsection \<open>A walk leaves the runs but their park kind\<close>

lemma walk_ticket_run:
  assumes "walk_ticket tid to s = Inr (path, s')" and "run_of k s = Some r"
  shows "\<exists>r'. run_of k s' = Some r' \<and> (r' = r \<or> r' = r\<lparr>r_park := None\<rparr>)"
proof -
  obtain t where "ticket_of tid s = Some t" and w: "walk_steps tid path s = Inr s'"
    using assms(1) by (auto elim: walk_ticket_cases)
  from walk_steps_runs [OF w, of k] assms(2) show ?thesis by auto
qed

end
