(* ===== verification/Runs.thy ===== *)
theory Runs
  imports Tickets
begin

section \<open>Runs: phases, parking, the single-column writes and the frozen contract\<close>

text \<open>
  The run API of \<^verbatim>\<open>store/__init__.py\<close> and the writes of \<^verbatim>\<open>store/writes.py\<close>. \<open>live_run\<close> is
  the read that opens \<open>set_phase\<close>, \<open>set_branch\<close>, \<open>set_review_round_cap\<close> and
  \<open>record_agent_session\<close>: the run must exist and must not have ended.

  The lemmas: a phase change follows the transition table, writes one event and touches
  nothing but the phase and the heartbeat of the run; parking gives the lease back; the
  drift of two contracts names exactly the fields that differ.
\<close>

subsection \<open>The frozen contract\<close>

definition contract_snapshot ::
    "string \<Rightarrow> string list \<Rightarrow> string list \<Rightarrow> string list \<Rightarrow> contract" where
  "contract_snapshot title crits commands evidence =
     \<lparr>k_title = title, k_criteria = crits, k_commands = commands, k_evidence = Some evidence\<rparr>"

definition run_contract :: "nat \<Rightarrow> store \<Rightarrow> err + contract option" where
  "run_contract rid s =
     (case run_of rid s of None \<Rightarrow> Inl (NoRun rid) | Some r \<Rightarrow> Inr (r_snapshot r))"

definition evidence_states :: "contract \<Rightarrow> string list" where
  "evidence_states c = (case k_evidence c of None \<Rightarrow> [] | Some xs \<Rightarrow> xs)"

definition contract_drift :: "contract option \<Rightarrow> contract option \<Rightarrow> string list" where
  "contract_drift before after =
     (case (before, after) of
        (Some was, Some is_now) \<Rightarrow>
          (if k_title was \<noteq> k_title is_now then [''title''] else []) @
          (if k_criteria was \<noteq> k_criteria is_now then [''acceptanceCriteria''] else []) @
          (if k_commands was \<noteq> k_commands is_now then [''verificationCommands''] else []) @
          (if evidence_states was \<noteq> evidence_states is_now then [''evidenceStates''] else [])
      | _ \<Rightarrow> [])"

subsection \<open>Phase changes\<close>

definition live_run :: "nat \<Rightarrow> store \<Rightarrow> err + run_row" where
  "live_run rid s =
     (case run_of rid s of
        None \<Rightarrow> Inl (NoRun rid)
      | Some r \<Rightarrow>
          (if r_ended r \<noteq> None then Inl (RunEnded rid (r_outcome r) (r_reason r)) else Inr r))"

definition phase_note :: "string option \<Rightarrow> string" where
  "phase_note note = (case note of None \<Rightarrow> '''' | Some n \<Rightarrow> if n = '''' then '''' else '': '' @ n)"

definition set_phase ::
    "env \<Rightarrow> nat \<Rightarrow> run_phase \<Rightarrow> string option \<Rightarrow> store \<Rightarrow> err + run_phase \<times> store" where
  [op_defs]: "set_phase v rid phase note s =
     bindE (live_run rid s) (\<lambda>r.
       let previous = r_phase r in
       if phase \<noteq> previous \<and> phase \<notin> set (run_phase_transitions previous)
       then Inl (IllegalPhase rid previous phase)
       else
         (let s = upd_run rid (\<lambda>r. r\<lparr>r_phase := phase, r_heartbeat := clock v\<rparr>) s;
              s = log_event v rid EL_NARRATIVE ''phase_change''
                    (phase_value previous @ '' -> '' @ phase_value phase @ phase_note note)
                    (clock v) None s
          in Inr (previous, s)))"

definition set_branch :: "nat \<Rightarrow> string \<Rightarrow> store \<Rightarrow> err + store" where
  [op_defs]: "set_branch rid branch s =
     bindE (live_run rid s) (\<lambda>_. Inr (upd_run rid (\<lambda>r. r\<lparr>r_branch := Some branch\<rparr>) s))"

definition set_review_round_cap :: "nat \<Rightarrow> int \<Rightarrow> store \<Rightarrow> err + store" where
  [op_defs]: "set_review_round_cap rid cap s =
     bindE (live_run rid s) (\<lambda>_. Inr (upd_run rid (\<lambda>r. r\<lparr>r_round_cap := Some cap\<rparr>) s))"

definition heartbeat :: "env \<Rightarrow> nat \<Rightarrow> store \<Rightarrow> bool \<times> store" where
  [op_defs]: "heartbeat v rid s =
     (case run_of rid s of
        Some r \<Rightarrow>
          (if r_ended r = None then (True, upd_run rid (\<lambda>r. r\<lparr>r_heartbeat := clock v\<rparr>) s)
           else (False, s))
      | None \<Rightarrow> (False, s))"

definition run_phase :: "nat \<Rightarrow> store \<Rightarrow> err + run_phase" where
  "run_phase rid s = (case run_of rid s of None \<Rightarrow> Inl (NoRun rid) | Some r \<Rightarrow> Inr (r_phase r))"

definition record_agent_session ::
    "env \<Rightarrow> nat \<Rightarrow> string \<Rightarrow> string \<Rightarrow> string \<Rightarrow> store \<Rightarrow> err + store" where
  [op_defs]: "record_agent_session v rid session role route s =
     bindE (live_run rid s) (\<lambda>_.
       bindE (record_event v rid ''agent_session'' (role @ '' session: '' @ session) EL_DETAIL
                (Some (PDoc (JObj [(''session_id'', JStr session), (''role'', JStr role),
                                   (''route'', JStr route)]))) s)
         (\<lambda>(_, s). Inr (upd_run rid (\<lambda>r. r\<lparr>r_session := Some session\<rparr>) s)))"

subsection \<open>What a pull request looked like\<close>

definition record_pr_seen :: "nat \<Rightarrow> pr_seen \<Rightarrow> bool \<Rightarrow> bool \<Rightarrow> store \<Rightarrow> store" where
  [op_defs]: "record_pr_seen rid seen parked_only facts_only s =
     upd_runs (\<lambda>r. r_id r = rid \<and> (parked_only \<longrightarrow> r_phase r = PH_AWAITING_MERGE_APPROVAL))
       (\<lambda>r. r\<lparr>r_seen :=
          (if facts_only
           then seen\<lparr>ps_at := ps_at (r_seen r), ps_threads := ps_threads (r_seen r)\<rparr>
           else seen)\<rparr>) s"

subsection \<open>Parking\<close>

definition parked_row ::
    "park_kind \<Rightarrow> string option \<Rightarrow> string option \<Rightarrow> string option \<Rightarrow> run_row \<Rightarrow> run_row" where
  "parked_row kind candidate pr_url approved r =
     r\<lparr>r_park := Some kind, r_candidate := coalesce candidate (r_candidate r),
       r_pr := coalesce pr_url (r_pr r), r_approved_sha := coalesce approved (r_approved_sha r)\<rparr>"

text \<open>\<^verbatim>\<open>UPDATE tickets SET activeRunId = NULL, lastRunId = ? WHERE id = ? AND activeRunId = ?\<close>.\<close>

definition lease_back :: "nat \<Rightarrow> nat \<Rightarrow> store \<Rightarrow> store" where
  "lease_back tid rid s =
     s\<lparr>tickets := modify (\<lambda>t. t_id t = tid \<and> t_active t = Some rid)
        (\<lambda>t. t\<lparr>t_active := None, t_last := Some rid\<rparr>) (tickets s)\<rparr>"

definition park ::
    "env \<Rightarrow> nat \<Rightarrow> run_phase \<Rightarrow> string option \<Rightarrow> string option \<Rightarrow> string option \<Rightarrow>
     string option \<Rightarrow> pr_seen option \<Rightarrow> park_kind \<Rightarrow> store \<Rightarrow> err + store" where
  [op_defs]: "park v rid phase note candidate pr_url approved seen kind s =
     (if phase \<notin> set parked_phases then Inl (NotParkedPhase phase)
      else case run_of rid s of
          None \<Rightarrow> Inl (NoRun rid)
        | Some r \<Rightarrow>
            bindE (set_phase v rid phase note s) (\<lambda>(_, s).
              let s = upd_run rid (parked_row kind candidate pr_url approved) s;
                  s = (case seen of None \<Rightarrow> s | Some q \<Rightarrow> record_pr_seen rid q False False s)
              in Inr (lease_back (r_ticket r) rid s)))"

subsection \<open>The single-column writes\<close>

definition set_board_state :: "nat \<Rightarrow> string option \<Rightarrow> board_column option \<Rightarrow> store \<Rightarrow> store" where
  [op_defs]: "set_board_state tid state column =
     upd_ticket tid (\<lambda>t. t\<lparr>t_board_state := state, t_column := coalesce column (t_column t)\<rparr>)"

definition set_gone_since :: "nat \<Rightarrow> int option \<Rightarrow> store \<Rightarrow> store" where
  [op_defs]: "set_gone_since tid at = upd_ticket tid (\<lambda>t. t\<lparr>t_gone := at\<rparr>)"

definition record_push :: "env \<Rightarrow> nat \<Rightarrow> string \<Rightarrow> store \<Rightarrow> bool \<times> store" where
  [op_defs]: "record_push v tid state s =
     (case ticket_of tid s of
        None \<Rightarrow> (False, s)
      | Some t \<Rightarrow>
          (if t_board_state t = Some state then (False, s)
           else (True, upd_ticket tid (\<lambda>t. t\<lparr>t_push_state := Some state,
                   t_push_from := t_board_state t, t_push_at := Some (clock v)\<rparr>) s)))"

definition clear_push :: "nat \<Rightarrow> store \<Rightarrow> store" where
  [op_defs]: "clear_push tid =
     upd_ticket tid (\<lambda>t. t\<lparr>t_push_state := None, t_push_from := None, t_push_at := None\<rparr>)"

definition set_question :: "nat \<Rightarrow> string option \<Rightarrow> park_kind option \<Rightarrow> store \<Rightarrow> store" where
  [op_defs]: "set_question tid question kind s =
     (let s = upd_ticket tid (\<lambda>t. t\<lparr>t_question := question\<rparr>) s
      in case kind of
          None \<Rightarrow> s
        | Some k \<Rightarrow>
            (case ticket_of tid s of
               None \<Rightarrow> s
             | Some t \<Rightarrow>
                 (case coalesce (t_active t) (t_last t) of
                    None \<Rightarrow> s
                  | Some rid \<Rightarrow> upd_run rid (\<lambda>r. r\<lparr>r_park := Some k\<rparr>) s)))"

definition set_pr_seen_state :: "nat \<Rightarrow> string option \<Rightarrow> store \<Rightarrow> store" where
  [op_defs]: "set_pr_seen_state rid state =
     upd_runs (\<lambda>r. r_id r = rid \<and> r_phase r = PH_AWAITING_MERGE_APPROVAL)
       (\<lambda>r. r\<lparr>r_seen := (r_seen r)\<lparr>ps_state := state\<rparr>\<rparr>)"

definition clear_merge_sha :: "nat \<Rightarrow> store \<Rightarrow> store" where
  [op_defs]: "clear_merge_sha rid = upd_run rid (\<lambda>r. r\<lparr>r_merge_sha := None\<rparr>)"

definition set_pull_request :: "nat \<Rightarrow> string option \<Rightarrow> string option \<Rightarrow> store \<Rightarrow> store" where
  [op_defs]: "set_pull_request rid url candidate =
     upd_run rid (\<lambda>r. case candidate of
         None \<Rightarrow> r\<lparr>r_pr := url\<rparr>
       | Some c \<Rightarrow> r\<lparr>r_pr := url, r_candidate := Some c\<rparr>)"

definition reason_head :: nat where "reason_head = 1000"
definition reason_tail :: nat where "reason_tail = 900"

definition cut_reason :: "string \<Rightarrow> string" where
  "cut_reason reason =
     take reason_head reason @ ''\<newline>[... '' @
     str_nat (length reason - reason_head - reason_tail) @
     '' characters cut; the run's outcome_reason event keeps them ...]\<newline>'' @
     drop (length reason - reason_tail) reason"

definition bounded_reason :: "env \<Rightarrow> nat \<Rightarrow> string option \<Rightarrow> store \<Rightarrow> string option \<times> store" where
  [op_defs]: "bounded_reason v rid reason s =
     (case reason of
        None \<Rightarrow> (None, s)
      | Some t \<Rightarrow>
          (if length t \<le> reason_head + reason_tail + 100 then (reason, s)
           else (Some (cut_reason t),
                 log_event v rid EL_DETAIL ''outcome_reason'' ''the run's whole outcome reason''
                   (clock v) (Some (PText t)) s)))"

definition set_outcome_reason :: "env \<Rightarrow> nat \<Rightarrow> string option \<Rightarrow> store \<Rightarrow> store" where
  [op_defs]: "set_outcome_reason v rid reason s =
     (let (reason, s) = bounded_reason v rid reason s
      in upd_run rid (\<lambda>r. r\<lparr>r_reason := reason\<rparr>) s)"

definition stamp_board_ask :: "nat \<Rightarrow> int \<Rightarrow> store \<Rightarrow> store" where
  [op_defs]: "stamp_board_ask pid at = upd_project pid (\<lambda>p. p\<lparr>p_asked_at := Some at\<rparr>)"

subsection \<open>Phase changes follow the table\<close>

lemma live_run_Inr [simp]: "live_run rid s = Inr r \<longleftrightarrow> run_of rid s = Some r \<and> r_ended r = None"
  by (auto simp: live_run_def split: option.splits)

lemma set_phase_iff:
  "set_phase v rid phase note s = Inr (previous, s') \<longleftrightarrow>
   (\<exists>r. run_of rid s = Some r \<and> r_ended r = None \<and> previous = r_phase r \<and> may_move previous phase \<and>
      s' = log_event v rid EL_NARRATIVE ''phase_change''
             (phase_value previous @ '' -> '' @ phase_value phase @ phase_note note) (clock v) None
             (upd_run rid (\<lambda>r. r\<lparr>r_phase := phase, r_heartbeat := clock v\<rparr>) s))"
  by (auto simp: set_phase_def may_move_def Let_def split: if_split_asm)

lemma set_phase_run:
  assumes "set_phase v rid phase note s = Inr (previous, s')" and "run_of rid s = Some r"
  shows "run_of rid s' = Some (r\<lparr>r_phase := phase, r_heartbeat := clock v\<rparr>)"
  using assms by (auto simp: set_phase_iff log_frame upd_run_def fetch_modify_key)

lemma set_phase_safe:
  assumes "set_phase v rid phase note s = Inr (previous, s')"
  shows "safe s s'"
proof -
  obtain r where r: "run_of rid s = Some r" "r_ended r = None" "may_move (r_phase r) phase"
    and s': "s' = log_event v rid EL_NARRATIVE ''phase_change''
             (phase_value previous @ '' -> '' @ phase_value phase @ phase_note note) (clock v) None
             (upd_run rid (\<lambda>r. r\<lparr>r_phase := phase, r_heartbeat := clock v\<rparr>) s)"
    using assms by (auto simp: set_phase_iff)
  let ?u = "upd_run rid (\<lambda>r. r\<lparr>r_phase := phase, r_heartbeat := clock v\<rparr>) s"
  have "spec_of ?u = set_run rid (\<lambda>u. u\<lparr>u_phase := phase\<rparr>) (spec_of s)"
    by (simp add: spec_of_def upd_run_def modify_def run_core_def)
  moreover have "fetch u_id rid (spec_runs (spec_of s)) = Some (run_core r)"
    using r by (simp add: spec_of_def fetch_run_core)
  ultimately have "spec_step (spec_of s) (spec_of ?u)"
    using r spec_step.move [of rid "spec_of s" "run_core r" phase] by (simp add: run_core_def)
  then have "safe s ?u"
    by (rule safe_step) (simp add: appends_def upd_run_def, simp)
  then show ?thesis unfolding s' by (rule safe_trans) simp
qed

subsection \<open>The other writes are safe\<close>

lemma set_branch_safe: "set_branch rid br s = Inr s' \<Longrightarrow> safe s s'"
  by (auto simp: set_branch_def run_core_def intro!: upd_run_safe)

lemma set_review_round_cap_safe: "set_review_round_cap rid cap s = Inr s' \<Longrightarrow> safe s s'"
  by (auto simp: set_review_round_cap_def run_core_def intro!: upd_run_safe)

lemma heartbeat_safe [simp]: "safe s (snd (heartbeat v rid s))"
  by (auto simp: heartbeat_def run_core_def intro!: upd_run_safe split: option.split)

lemma record_agent_session_safe:
  assumes "record_agent_session v rid session role route s = Inr s'"
  shows "safe s s'"
proof -
  obtain q u where u: "record_event v rid ''agent_session'' (role @ '' session: '' @ session) EL_DETAIL
        (Some (PDoc (JObj [(''session_id'', JStr session), (''role'', JStr role), (''route'', JStr route)]))) s
        = Inr (q, u)"
    and s': "s' = upd_run rid (\<lambda>r. r\<lparr>r_session := Some session\<rparr>) u"
    using assms by (auto simp: record_agent_session_def)
  from record_event_safe [OF u] show ?thesis
    unfolding s' by (rule safe_trans) (simp add: upd_run_safe run_core_def)
qed

lemma record_pr_seen_safe [simp]: "safe s (record_pr_seen rid seen parked facts s)"
  by (simp add: record_pr_seen_def upd_runs_safe run_core_def)

lemma single_column_safe [simp]:
  "safe s (set_board_state tid state column s)" "safe s (set_gone_since tid at s)"
  "safe s (clear_push tid s)" "safe s (set_pr_seen_state rid st s)" "safe s (clear_merge_sha rid s)"
  "safe s (set_pull_request rid url cand s)" "safe s (stamp_board_ask pid tm s)"
  by (simp_all add: op_defs upd_ticket_safe upd_run_safe upd_runs_safe ticket_core_def run_core_def
      split: option.split)

lemma record_push_safe [simp]: "safe s (snd (record_push v tid state s))"
  by (auto simp: record_push_def ticket_core_def intro!: upd_ticket_safe split: option.split)

lemma set_question_safe [simp]: "safe s (set_question tid q k s)"
proof -
  let ?u = "upd_ticket tid (\<lambda>t. t\<lparr>t_question := q\<rparr>) s"
  have u: "safe s ?u" by (simp add: upd_ticket_safe ticket_core_def)
  have "safe s (upd_run rid (\<lambda>r. r\<lparr>r_park := Some pk\<rparr>) ?u)" for rid pk
    by (rule safe_trans [OF u]) (simp add: upd_run_safe run_core_def)
  with u show ?thesis by (simp add: set_question_def Let_def split: option.split)
qed

lemma bounded_reason_safe: "safe s (snd (bounded_reason v rid reason s))"
  by (auto simp: bounded_reason_def split: option.split)

lemma set_outcome_reason_safe [simp]: "safe s (set_outcome_reason v rid reason s)"
  by (auto simp: set_outcome_reason_def run_core_def split: prod.split
      intro!: safe_trans [OF _ upd_run_safe])
    (metis bounded_reason_safe snd_conv)

text \<open>Giving a lease back, as \<open>park\<close> and \<open>release\<close> do.\<close>

lemma lease_back_safe [simp]: "safe s (lease_back tid rid s)"
proof (rule safe_step)
  have "map ticket_core (modify (\<lambda>t. t_id t = tid \<and> t_active t = Some rid)
      (\<lambda>t. t\<lparr>t_active := None, t_last := Some rid\<rparr>) ts) =
    modify (\<lambda>x. x_id x = tid \<and> x_active x = Some rid) (\<lambda>x. x\<lparr>x_active := None\<rparr>) (map ticket_core ts)" for ts
    by (induction ts) (auto simp: ticket_core_def)
  then have "spec_of (lease_back tid rid s) = drop_lease tid rid (spec_of s)"
    by (simp add: spec_of_def lease_back_def)
  then show "spec_step (spec_of s) (spec_of (lease_back tid rid s))" by (simp add: spec_step.give_back)
qed (simp_all add: appends_def lease_back_def)

lemma park_cases:
  assumes "park v rid phase note cand pr approved seen kind s = Inr s'"
  obtains r previous u where "run_of rid s = Some r" "phase \<in> set parked_phases"
    "set_phase v rid phase note s = Inr (previous, u)"
    "s' = lease_back (r_ticket r) rid
       (case seen of None \<Rightarrow> upd_run rid (parked_row kind cand pr approved) u
        | Some q \<Rightarrow> record_pr_seen rid q False False (upd_run rid (parked_row kind cand pr approved) u))"
proof -
  obtain r where r: "run_of rid s = Some r" and phase: "phase \<in> set parked_phases"
    using assms by (auto simp: park_def split: if_split_asm option.split_asm)
  obtain previous u where u: "set_phase v rid phase note s = Inr (previous, u)"
    using assms r phase by (auto simp: park_def)
  from assms r phase u show ?thesis
    by (intro that [OF r phase u]) (simp add: park_def Let_def)
qed

lemma park_safe:
  assumes "park v rid phase note cand pr approved seen kind s = Inr s'"
  shows "safe s s'"
proof -
  obtain r previous u where "run_of rid s = Some r" "phase \<in> set parked_phases"
    and u: "set_phase v rid phase note s = Inr (previous, u)"
    and s': "s' = lease_back (r_ticket r) rid
       (case seen of None \<Rightarrow> upd_run rid (parked_row kind cand pr approved) u
        | Some q \<Rightarrow> record_pr_seen rid q False False (upd_run rid (parked_row kind cand pr approved) u))"
    using assms by (rule park_cases)
  have w: "safe u (upd_run rid (parked_row kind cand pr approved) u)"
    by (simp add: upd_run_safe run_core_def parked_row_def)
  have "safe u s'"
    unfolding s' by (rule safe_trans [OF _ lease_back_safe])
      (auto intro: w safe_trans [OF w] split: option.split)
  with set_phase_safe [OF u] show ?thesis by (rule safe_trans)
qed

subsection \<open>The bounded reason\<close>

lemma cut_reason_shape:
  assumes "2000 < length t"
  shows "length (cut_reason t) \<le> length t" "take 1000 (cut_reason t) = take 1000 t"
    "drop (length (cut_reason t) - 900) (cut_reason t) = drop (length t - 900) t"
proof -
  obtain mid where c: "cut_reason t = take 1000 t @ mid @ drop (length t - 900) t"
    and mid: "length mid = 70 + length (str_nat (length t - 1900))"
    by (simp add: cut_reason_def reason_head_def reason_tail_def)
  show "take 1000 (cut_reason t) = take 1000 t"
    "drop (length (cut_reason t) - 900) (cut_reason t) = drop (length t - 900) t"
    using assms by (simp_all add: c)
  show "length (cut_reason t) \<le> length t"
    using assms mid str_nat_short [of "length t - 1900"] by (simp add: c)
qed

lemma bounded_reason_spec:
  "\<exists>x. fst (bounded_reason v rid (Some t) s) = Some x \<and> length x \<le> length t
    \<and> take 1000 x = take 1000 t \<and> drop (length x - 900) x = drop (length t - 900) t
    \<and> (x = t \<and> snd (bounded_reason v rid (Some t) s) = s
       \<or> 2000 < length t \<and> (\<exists>e. events (snd (bounded_reason v rid (Some t) s)) = events s @ [e]
            \<and> e_run e = Some rid \<and> e_payload e = Some (PText (redact_values (secrets v) t))))"
proof (cases "2000 < length t")
  case True
  then show ?thesis
    using cut_reason_shape [OF True]
    by (simp add: bounded_reason_def reason_head_def reason_tail_def append_event_def redact_event_def Let_def)
qed (simp add: bounded_reason_def reason_head_def reason_tail_def)

end
