(* ===== verification/Operate.thy ===== *)
theory Operate
  imports Runs
begin

section \<open>Operate: the writes that end, resume, requeue and stop runs\<close>

text \<open>
  \<^verbatim>\<open>store/operate.py\<close>, one definition per function: \<open>release\<close> ends a run and gives the
  lease back, \<open>requeue\<close>, \<open>approve\<close>, \<open>babysit\<close> and \<open>repoint\<close> are the operator's verbs on
  a ticket whose run ended or is parked, \<open>pause\<close> and \<open>abort\<close> ask a live run to stop,
  \<open>resume\<close> re-enters a stopped one, and the rest is the supervisor's bookkeeping (strikes,
  heartbeats, loop restarts). \<open>clock v\<close> is the \<^verbatim>\<open>now\<close> of every call.
\<close>

subsection \<open>Release\<close>

definition counted_rounds :: "nat \<Rightarrow> store \<Rightarrow> nat" where
  "counted_rounds rid s =
     length (filter (\<lambda>q. rr_run q = rid \<and> rr_verdict q \<noteq> RV_ERROR) (rounds s))"

definition resume_point :: "run_outcome \<Rightarrow> run_phase option \<Rightarrow> run_phase \<Rightarrow> run_phase option" where
  "resume_point outcome given stopped_in =
     (if outcome = OC_PAUSED then given
      else if terminal_phase outcome = PH_FAILED \<and> stopped_in \<in> set resumable_work_phases
      then Some stopped_in else None)"

definition end_run ::
    "env \<Rightarrow> run_outcome \<Rightarrow> string option \<Rightarrow> outcome_class \<Rightarrow> string option \<Rightarrow>
     failure_kind option \<Rightarrow> run_phase option \<Rightarrow> string option \<Rightarrow> nat \<Rightarrow> run_row \<Rightarrow> run_row" where
  "end_run v outcome reason cls merge_sha failure resume_phase candidate count r =
     r\<lparr>r_ended := Some (clock v), r_outcome := Some outcome, r_reason := reason, r_class := cls,
       r_resume := resume_phase, r_merge_sha := merge_sha, r_failure := failure,
       r_candidate := coalesce candidate (r_candidate r), r_rounds := count\<rparr>"

definition release ::
    "env \<Rightarrow> nat \<Rightarrow> run_outcome \<Rightarrow> string option \<Rightarrow> outcome_class \<Rightarrow> string option \<Rightarrow>
     failure_kind option \<Rightarrow> run_phase option \<Rightarrow> string option \<Rightarrow> store \<Rightarrow> err + store" where
  [op_defs]: "release v rid outcome reason cls merge_sha failure resume_phase candidate s =
     (let failure = (if outcome = OC_FAILED
                     then Some (case failure of None \<Rightarrow> FK_UNCLASSIFIED | Some k \<Rightarrow> k) else None);
          reason = map_option (redact_values (secrets v)) reason
      in if merge_sha \<noteq> None \<and> outcome \<noteq> OC_MERGED then Inl (MergeShaNotMerged outcome)
         else case run_of rid s of
             None \<Rightarrow> Inl (NoRun rid)
           | Some r \<Rightarrow>
               (if r_ended r \<noteq> None \<and> r_phase r \<in> set ended_phases then Inr s
                else
                  (let (reason, s) = bounded_reason v rid reason s
                   in bindE (set_phase v rid (terminal_phase outcome)
                               (Some (''run ended, outcome '' @ outcome_value outcome)) s)
                        (\<lambda>(stopped_in, s).
                          let s = upd_run rid (end_run v outcome reason cls merge_sha failure
                                    (resume_point outcome resume_phase stopped_in) candidate
                                    (counted_rounds rid s)) s
                          in Inr (lease_back (r_ticket r) rid s)))))"

abbreviation release_abandoned :: "env \<Rightarrow> nat \<Rightarrow> string \<Rightarrow> store \<Rightarrow> err + store" where
  "release_abandoned v rid reason \<equiv>
     release v rid OC_ABANDONED (Some reason) CL_WORK None None None None"

subsection \<open>Requeue\<close>

definition relaunch_limit :: nat where "relaunch_limit = 2"

text \<open>The run of an intervention joined with its row: \<^verbatim>\<open>JOIN runs r ON r.id = i.runId\<close>.\<close>

definition intervention_run :: "intervention_row \<Rightarrow> store \<Rightarrow> run_row option" where
  "intervention_run i s = (case i_run i of None \<Rightarrow> None | Some rid \<Rightarrow> run_of rid s)"

definition of_ticket :: "nat \<Rightarrow> store \<Rightarrow> intervention_row \<Rightarrow> bool" where
  "of_ticket tid s i = (case intervention_run i s of None \<Rightarrow> False | Some r \<Rightarrow> r_ticket r = tid)"

definition last_human_act :: "nat \<Rightarrow> store \<Rightarrow> nat" where
  "last_human_act tid s =
     foldr (\<lambda>i m. max (i_id i) m)
       (filter (\<lambda>i. of_ticket tid s i \<and> i_source i = IS_HUMAN \<and> i_action i \<noteq> IA_REQUEUE)
         (interventions s)) 0"

definition relaunches :: "nat \<Rightarrow> store \<Rightarrow> nat list" where
  "relaunches tid s =
     map (\<lambda>i. the (i_run i))
       (rev (filter (\<lambda>i. of_ticket tid s i \<and> i_action i = IA_REQUEUE
               \<and> (case intervention_run i s of None \<Rightarrow> False
                  | Some r \<Rightarrow> r_outcome r = Some OC_FAILED \<or> r_outcome r = Some OC_REJECTED)
               \<and> last_human_act tid s < i_id i)
         (interventions s)))"

definition aborted :: "nat option \<Rightarrow> store \<Rightarrow> bool" where
  "aborted rid s \<longleftrightarrow> rid \<noteq> None \<and>
     (\<exists>i \<in> set (interventions s).
        i_run i = rid \<and> (i_action i = IA_ABORT \<or> i_action i = IA_ABORT_CLOSE))"

text \<open>
  \<^verbatim>\<open>_requeue_admits\<close>: \<open>Inr k\<close> when the requeue may go on, \<open>k\<close> the park kind of a run to
  be released first; \<open>Inl\<close> with the rule that refuses it.
\<close>

definition requeue_admits ::
    "ticket_status \<Rightarrow> run_row option \<Rightarrow> bool \<Rightarrow> err + park_kind option" where
  "requeue_admits status run was_aborted =
     (let parked = (status = TS_BLOCKED_ON_OPERATOR) in
      case run of
        None \<Rightarrow>
          (if status \<noteq> TS_IN_FLIGHT then Inl (RequeueRefused ''not in_flight'')
           else Inl (RequeueRefused ''no ended run''))
      | Some r \<Rightarrow>
          (if parked \<and> r_phase r = PH_BLOCKED_ON_OPERATOR \<and> r_park r = Some PK_CONTRADICTION
           then Inr (r_park r)
           else if parked \<and> r_phase r = PH_AWAITING_MERGE_APPROVAL
           then (if r_park r = Some PK_NOT_REPRODUCED then Inr (r_park r)
                 else Inl (RequeueRefused ''parked awaiting merge approval''))
           else if r_outcome r = Some OC_ABANDONED \<and> \<not> was_aborted
           then Inl (RequeueRefused ''abandoned but not aborted'')
           else if status \<noteq> TS_IN_FLIGHT \<and>
             \<not> (parked \<and> r_outcome r \<in> {Some OC_FAILED, Some OC_REJECTED, Some OC_ABANDONED})
           then Inl (RequeueRefused ''not in_flight'')
           else if r_outcome r \<notin> {Some OC_FAILED, Some OC_REJECTED, Some OC_ABANDONED}
           then Inl (RequeueRefused ''not failed, rejected or aborted'')
           else Inr None))"

fun released_text :: "park_kind \<Rightarrow> string" where
  "released_text PK_NOT_REPRODUCED = ''not reproduced''"
| "released_text PK_CONTRADICTION = ''contradiction''"
| "released_text _ = ''''"

definition board_closed :: "string option \<Rightarrow> bool" where
  "board_closed state \<longleftrightarrow> state \<in> {Some ''Backlog'', Some ''Canceled'', Some ''Done''}"

definition forced_note :: "nat \<Rightarrow> string \<Rightarrow> string" where
  "forced_note n note = ''forced past '' @ str_nat n @ '' relaunches: '' @ note"

text \<open>
  The state a requeue reads at once: the guards up to the intervention, giving the park kind
  to release, and the note to record.
\<close>

definition requeue_guard ::
    "nat \<Rightarrow> string \<Rightarrow> bool \<Rightarrow> store \<Rightarrow> err + nat option \<times> park_kind option \<times> string" where
  "requeue_guard tid note force s =
     (case ticket_of tid s of
        None \<Rightarrow> Inl (RequeueRefused ''no ticket'')
      | Some t \<Rightarrow>
          (if board_closed (t_board_state t) then Inl (RequeueRefused ''board state'')
           else if t_active t \<noteq> None then Inl (RequeueRefused ''run still live'')
           else
             (let run = (case t_last t of None \<Rightarrow> None | Some rid \<Rightarrow> run_of rid s)
              in bindE (requeue_admits (t_status t) run (aborted (t_last t) s)) (\<lambda>released.
                   let again = length (relaunches tid s) in
                   if relaunch_limit \<le> again
                   then (if \<not> force then Inl (RequeueRefused ''relaunch limit'')
                         else if blank note then Inl (RequeueRefused ''blank diagnosis'')
                         else Inr (t_last t, released, forced_note again note))
                   else Inr (t_last t, released, note)))))"

definition requeue ::
    "env \<Rightarrow> nat \<Rightarrow> string \<Rightarrow> intervention_source \<Rightarrow> bool \<Rightarrow> store \<Rightarrow> err + nat \<times> store" where
  [op_defs]: "requeue v tid note source force s =
     bindE (requeue_guard tid note force s) (\<lambda>(last, released, note).
       case last of
         None \<Rightarrow> Inl (RequeueRefused ''no ended run'')
       | Some rid \<Rightarrow>
           bindE (record_intervention v rid IA_REQUEUE note source IT_MANUAL None None None None s)
             (\<lambda>(_, s).
             bindE (case released of
                 None \<Rightarrow> Inr s
               | Some k \<Rightarrow> release_abandoned v rid
                   (released_text k @ ''; requeued for another attempt'') s) (\<lambda>s.
               let s = upd_ticket tid (\<lambda>t. t\<lparr>t_question := None\<rparr>) s;
                   s = upd_run rid (\<lambda>r. r\<lparr>r_approved_at := None, r_approved_by := None\<rparr>) s
               in bindE (walk_ticket tid TS_READY s) (\<lambda>(_, s). Inr (rid, s)))))"

subsection \<open>Approve and babysit\<close>

definition approved_resume_phase :: run_phase where
  "approved_resume_phase = PH_MERGE_GATE"

definition parked_guard :: "nat \<Rightarrow> nat option \<Rightarrow> bool \<Rightarrow> store \<Rightarrow> err + nat" where
  "parked_guard tid expected require_pr s =
     (case ticket_of tid s of
        None \<Rightarrow> Inl (ApproveRefused ''no ticket'')
      | Some t \<Rightarrow>
          (if t_active t \<noteq> None then Inl (ApproveRefused ''run still live'')
           else if t_status t \<noteq> TS_BLOCKED_ON_OPERATOR
           then Inl (ApproveRefused ''not blocked_on_operator'')
           else if expected \<noteq> None \<and> t_last t \<noteq> expected
           then Inl (ApproveRefused ''newest run is another'')
           else case t_last t of
               None \<Rightarrow> Inl (ApproveRefused ''no run'')
             | Some rid \<Rightarrow>
                 (case run_of rid s of
                    None \<Rightarrow> Inl (ApproveRefused ''no run'')
                  | Some r \<Rightarrow>
                      (if r_phase r \<noteq> PH_AWAITING_MERGE_APPROVAL
                       then Inl (ApproveRefused ''not awaiting_merge_approval'')
                       else if require_pr \<and> r_pr r = None
                       then Inl (ApproveRefused ''parked with no pull request'')
                       else Inr rid))))"

text \<open>
  \<open>before\<close> is the \<^verbatim>\<open>before_release\<close> callback, a write made between the intervention and
  the release.
\<close>

definition release_parked ::
    "env \<Rightarrow> nat \<Rightarrow> intervention_action \<Rightarrow> string \<Rightarrow> string \<Rightarrow> bool \<Rightarrow> intervention_source \<Rightarrow>
     string option \<Rightarrow> (store \<Rightarrow> err + store) \<Rightarrow> nat option \<Rightarrow> nat option \<Rightarrow> store \<Rightarrow>
     err + nat \<times> store" where
  [op_defs]: "release_parked v tid action note reason require_pr source guidance before expected firing s =
     bindE (parked_guard tid expected require_pr s) (\<lambda>rid.
       bindE (record_intervention v rid action note source IT_MANUAL None guidance None firing s)
         (\<lambda>(_, s).
         bindE (before s) (\<lambda>s.
           bindE (release_abandoned v rid reason s) (\<lambda>s.
             let s = upd_run rid (\<lambda>r. r\<lparr>r_resume := Some approved_resume_phase,
                       r_approved_at := (if action = IA_APPROVE then Some (clock v) else None),
                       r_approved_by := (if action = IA_APPROVE then Some (login v) else None)\<rparr>) s;
                 s = (if action = IA_BABYSIT \<or> action = IA_OPERATOR_NOTE
                      then upd_ticket tid (\<lambda>t. t\<lparr>t_question := None\<rparr>) s else s)
             in bindE (walk_ticket tid TS_READY s) (\<lambda>(_, s). Inr (rid, s))))))"

definition approve ::
    "env \<Rightarrow> nat \<Rightarrow> string \<Rightarrow> nat option \<Rightarrow> store \<Rightarrow> err + nat \<times> store" where
  "approve v tid note expected =
     release_parked v tid IA_APPROVE note
       ''approved for merge; the next claim resumes the candidate at the merge gate''
       False IS_HUMAN None Inr expected None"

definition babysit ::
    "env \<Rightarrow> nat \<Rightarrow> string \<Rightarrow> intervention_source \<Rightarrow> nat option \<Rightarrow> store \<Rightarrow> err + nat \<times> store" where
  "babysit v tid note source firing =
     release_parked v tid IA_BABYSIT note
       ''sent back to the babysitter; the next claim resumes the candidate on its pull request''
       True source None Inr None firing"

subsection \<open>Re-pointing\<close>

definition is_hex :: "char \<Rightarrow> bool" where
  "is_hex c \<longleftrightarrow> (let n = (of_char c :: nat)
     in 48 \<le> n \<and> n < 58 \<or> 65 \<le> n \<and> n < 71 \<or> 97 \<le> n \<and> n < 103)"

definition full_sha :: "string \<Rightarrow> bool" where
  "full_sha sha \<longleftrightarrow> length sha = 40 \<and> list_all is_hex sha"

definition repoint_summary :: "string option \<Rightarrow> string \<Rightarrow> string \<Rightarrow> string" where
  "repoint_summary old sha note =
     ''candidate re-pointed from '' @ (case old of None \<Rightarrow> ''None'' | Some x \<Rightarrow> x) @
     '' to '' @ sha @ '': '' @ note"

definition repoint :: "env \<Rightarrow> nat \<Rightarrow> string \<Rightarrow> string \<Rightarrow> store \<Rightarrow>
     err + (nat \<times> string option) \<times> store" where
  [op_defs]: "repoint v tid sha note s =
     (if \<not> full_sha sha then Inl (RepointRefused ''not a full sha'')
      else
        (let sha = py_lower sha in
         case ticket_of tid s of
           None \<Rightarrow> Inl (RepointRefused ''no ticket'')
         | Some t \<Rightarrow>
             (if t_active t \<noteq> None then Inl (RepointRefused ''run still live'')
              else case (case t_last t of None \<Rightarrow> None | Some rid \<Rightarrow> run_of rid s) of
                  None \<Rightarrow> Inl (RepointRefused ''no run'')
                | Some r \<Rightarrow>
                    (if r_resume r \<noteq> None then Inl (RepointRefused ''already approved'')
                     else if r_phase r \<noteq> PH_AWAITING_MERGE_APPROVAL
                     then Inl (RepointRefused ''not awaiting_merge_approval'')
                     else
                       (let rid = r_id r in
                        bindE (record_intervention v rid IA_REPOINT note IS_HUMAN IT_MANUAL None
                                 (Some note) None None s) (\<lambda>(_, s).
                          let s = log_event v rid EL_NARRATIVE ''repoint''
                                (repoint_summary (r_candidate r) sha note) (clock v) None s;
                              s = upd_run rid (\<lambda>r. r\<lparr>r_candidate := Some sha\<rparr>) s
                          in Inr ((rid, r_candidate r), s)))))))"

subsection \<open>Pause and abort\<close>

definition pause ::
    "env \<Rightarrow> nat \<Rightarrow> string \<Rightarrow> intervention_source \<Rightarrow> store \<Rightarrow> err + nat \<times> store" where
  [op_defs]: "pause v rid note source s =
     (case run_of rid s of
        None \<Rightarrow> Inl (NoRun rid)
      | Some r \<Rightarrow>
          (if r_ended r \<noteq> None then Inl (AlreadyEnded rid)
           else case r_stop r of
               Some request \<Rightarrow> Inr (request, s)
             | None \<Rightarrow>
                 bindE (record_intervention v rid IA_PAUSE note source IT_MANUAL None (Some note)
                          None None s)
                   (\<lambda>(request, s).
                     Inr (request, upd_run rid (\<lambda>r. r\<lparr>r_stop := Some request\<rparr>) s))))"

definition cancel_triggers :: "intervention_trigger list" where
  "cancel_triggers = [IT_LINEAR_CANCELLED, IT_BOARD_CANCELLED]"

definition pending_stop :: "run_row \<Rightarrow> store \<Rightarrow> intervention_row option" where
  "pending_stop r s =
     (case r_stop r of None \<Rightarrow> None | Some i \<Rightarrow> fetch i_id i (interventions s))"

definition is_cancel :: "intervention_row option \<Rightarrow> bool" where
  "is_cancel q = (case q of None \<Rightarrow> False | Some i \<Rightarrow> i_trigger i \<in> set cancel_triggers)"

definition has_action :: "intervention_action \<Rightarrow> intervention_row option \<Rightarrow> bool" where
  "has_action a q = (case q of None \<Rightarrow> False | Some i \<Rightarrow> i_action i = a)"

definition abort_request ::
    "env \<Rightarrow> nat \<Rightarrow> string \<Rightarrow> intervention_source \<Rightarrow> intervention_action \<Rightarrow>
     intervention_trigger \<Rightarrow> string option \<Rightarrow> store \<Rightarrow> err + nat \<times> store" where
  [op_defs]: "abort_request v rid note source wanted trigger comment s =
     bindE (record_intervention v rid wanted note source trigger None (Some note) None None s)
       (\<lambda>(request, s).
         let s = upd_run rid (\<lambda>r. r\<lparr>r_stop := Some request\<rparr>) s
         in Inr (request,
              (case comment of
                 None \<Rightarrow> s
               | Some c \<Rightarrow> log_event v rid EL_DETAIL ''abort_pr_comment''
                   ''pull request comment for the abort'' (clock v)
                   (Some (PDoc (JObj [(''intervention'', JInt (int request)),
                                      (''body'', JStr c)]))) s)))"

definition abort ::
    "env \<Rightarrow> nat \<Rightarrow> string \<Rightarrow> intervention_source \<Rightarrow> bool \<Rightarrow> intervention_trigger \<Rightarrow>
     string option \<Rightarrow> store \<Rightarrow> err + nat \<times> store" where
  [op_defs]: "abort v rid note source close trigger comment s =
     (if (case comment of None \<Rightarrow> False | Some c \<Rightarrow> blank c) then Inl (ValueError ''pr_comment'')
      else if comment \<noteq> None \<and> \<not> close then Inl CommentWithoutClose
      else case run_of rid s of
          None \<Rightarrow> Inl (NoRun rid)
        | Some r \<Rightarrow>
            (if r_ended r \<noteq> None then Inl (AlreadyEnded rid)
             else if terminal_phase OC_ABANDONED \<notin> set (run_phase_transitions (r_phase r))
             then Inl (CannotAbandon rid (r_phase r))
             else
               (let pending = pending_stop r s;
                    wanted = (if close \<or> has_action IA_ABORT_CLOSE pending
                              then IA_ABORT_CLOSE else IA_ABORT);
                    trigger = (case pending of
                        None \<Rightarrow> trigger
                      | Some i \<Rightarrow> if is_cancel pending then i_trigger i else trigger);
                    cancels = (trigger \<in> set cancel_triggers \<and> \<not> is_cancel pending)
                in case pending of
                    Some i \<Rightarrow>
                      (if (i_action i = wanted \<or> i_action i = IA_ABORT_CLOSE) \<and> \<not> cancels
                       then Inr (i_id i, s)
                       else abort_request v rid note source wanted trigger comment s)
                  | None \<Rightarrow> abort_request v rid note source wanted trigger comment s)))"

subsection \<open>Resume\<close>

definition resume_target :: "run_phase \<Rightarrow> run_phase option \<Rightarrow> run_phase" where
  "resume_target phase resume_phase =
     (case resume_phase of
        Some p \<Rightarrow>
          (if phase = PH_FAILED \<or> phase = PH_PAUSED then p
           else if phase = PH_BLOCKED_ON_OPERATOR then PH_WORKING else phase)
      | None \<Rightarrow>
          (if phase = PH_FAILED \<or> phase = PH_BLOCKED_ON_OPERATOR then PH_WORKING else phase))"

definition reopen_run :: "run_phase \<Rightarrow> run_phase \<Rightarrow> run_row \<Rightarrow> run_row" where
  "reopen_run phase target r =
     (let r = r\<lparr>r_phase := target, r_resume := None, r_park := None, r_stop := None\<rparr>
      in if phase \<in> set ended_phases
         then r\<lparr>r_ended := None, r_outcome := None, r_reason := None, r_failure := None,
                r_class := CL_WORK\<rparr>
         else r)"

definition resume ::
    "env \<Rightarrow> nat \<Rightarrow> string option \<Rightarrow> intervention_source \<Rightarrow> string option \<Rightarrow> store \<Rightarrow>
     err + run_phase \<times> store" where
  [op_defs]: "resume v rid guidance source note s =
     (if (case guidance of None \<Rightarrow> False | Some g \<Rightarrow> blank g) then Inl (ValueError ''guidance'')
      else case run_of rid s of
          None \<Rightarrow> Inl (ResumeRefused rid)
        | Some r \<Rightarrow>
            (if guidance \<noteq> None \<and> r_phase r \<noteq> PH_BLOCKED_ON_OPERATOR
             then Inl (GuidanceNotAccepted rid)
             else if r_phase r \<notin> set resumable_phases then Inl (ResumeRefused rid)
             else
               (let target = resume_target (r_phase r) (r_resume r);
                    s = upd_run rid (reopen_run (r_phase r) target) s;
                    (_, s) = insert_intervention
                      \<lparr>i_id = 0, i_run = Some rid, i_project = None, i_source = source,
                       i_trigger = IT_MANUAL, i_action = IA_RESUME, i_note = note,
                       i_question = None, i_guidance = guidance, i_at = clock v,
                       i_actor = Some (intervention_actor v source None), i_firing = None\<rparr> s
                in Inr (target, s))))"

subsection \<open>The supervisor's sweep\<close>

definition strike_of :: "nat \<Rightarrow> store \<Rightarrow> strike_row option" where
  "strike_of rid s = fetch s_run rid (sweep_strikes s)"

definition next_strike :: "int \<Rightarrow> strike_row option \<Rightarrow> nat" where
  "next_strike beat row =
     (case row of None \<Rightarrow> 1 | Some k \<Rightarrow> if s_last_seen k < beat then 1 else s_strikes k + 1)"

definition record_strike :: "env \<Rightarrow> nat \<Rightarrow> bool \<Rightarrow> int \<Rightarrow> store \<Rightarrow> err + nat \<times> store" where
  [op_defs]: "record_strike v rid stale beat s =
     (case run_of rid s of
        None \<Rightarrow> Inl (NoRun rid)
      | Some _ \<Rightarrow>
          (let others = filter (\<lambda>k. s_run k \<noteq> rid) (sweep_strikes s) in
           if \<not> stale then Inr (0, s\<lparr>sweep_strikes := others\<rparr>)
           else
             (let row = strike_of rid s;
                  strikes = next_strike beat row;
                  new = \<lparr>s_run = rid, s_strikes = strikes, s_last_seen = clock v\<rparr>
              in Inr (strikes, s\<lparr>sweep_strikes :=
                   (if row = None then sweep_strikes s @ [new]
                    else modify (\<lambda>k. s_run k = rid) (\<lambda>_. new) (sweep_strikes s))\<rparr>))))"

definition record_supervisor_heartbeat :: "env \<Rightarrow> int \<Rightarrow> int \<Rightarrow> store \<Rightarrow> nat \<times> store" where
  [op_defs]: "record_supervisor_heartbeat v pid started s =
     (case find (\<lambda>b. b_pid b = pid \<and> b_started b = started) (beats s) of
        None \<Rightarrow>
          (1, s\<lparr>beats := beats s @ [\<lparr>b_pid = pid, b_started = started, b_last = clock v,
                 b_passes = 1, b_host = Some (host_name v)\<rparr>]\<rparr>)
      | Some b \<Rightarrow>
          (b_passes b + 1,
           s\<lparr>beats := modify (\<lambda>b. b_pid b = pid \<and> b_started b = started)
              (\<lambda>b. b\<lparr>b_last := clock v, b_passes := b_passes b + 1, b_host := Some (host_name v)\<rparr>)
              (beats s)\<rparr>))"

text \<open>\<^verbatim>\<open>ORDER BY lastBeat DESC, startedAt DESC LIMIT 1\<close>.\<close>

fun latest_beat :: "beat_row list \<Rightarrow> beat_row option" where
  "latest_beat [] = None"
| "latest_beat (b # bs) =
     (case latest_beat bs of
        None \<Rightarrow> Some b
      | Some c \<Rightarrow> if (b_last b, b_started b) < (b_last c, b_started c) then Some c else Some b)"

definition latest_supervisor_heartbeat :: "store \<Rightarrow> beat_row option" where
  "latest_supervisor_heartbeat s = latest_beat (beats s)"

definition record_loop_restart :: "env \<Rightarrow> nat \<Rightarrow> string \<Rightarrow> store \<Rightarrow> nat \<times> store" where
  [op_defs]: "record_loop_restart v pid sha s =
     (let i = next_id lr_id (restarts s)
      in (i, s\<lparr>restarts := restarts s @ [\<lparr>lr_id = i, lr_project = pid, lr_sha = sha,
               lr_at = clock v, lr_returned = None, lr_reported = None\<rparr>]\<rparr>))"

definition awaiting_return :: "nat \<Rightarrow> restart_row \<Rightarrow> bool" where
  "awaiting_return pid q \<longleftrightarrow> lr_project q = pid \<and> lr_returned q = None"

definition record_loop_return :: "env \<Rightarrow> nat \<Rightarrow> store \<Rightarrow> nat \<times> store" where
  [op_defs]: "record_loop_return v pid s =
     (length (filter (awaiting_return pid) (restarts s)),
      s\<lparr>restarts := modify (awaiting_return pid)
         (\<lambda>q. q\<lparr>lr_returned := Some (clock v)\<rparr>) (restarts s)\<rparr>)"

definition overdue :: "env \<Rightarrow> int \<Rightarrow> store \<Rightarrow> restart_row \<Rightarrow> bool" where
  "overdue v grace s q \<longleftrightarrow>
     lr_returned q = None \<and> lr_reported q = None \<and> lr_at q \<le> clock v - grace \<and>
     \<not> (\<exists>r \<in> set (runs s). r_project r = lr_project q \<and> lr_at q < r_heartbeat r)"

definition unreturned_loop_restarts ::
    "env \<Rightarrow> int \<Rightarrow> store \<Rightarrow> (nat \<times> nat \<times> string \<times> int) list \<times> store" where
  [op_defs]: "unreturned_loop_restarts v grace s =
     (let rows = sort_key (\<lambda>q. (lr_at q, lr_id q)) (filter (overdue v grace s) (restarts s))
      in (map (\<lambda>q. (lr_id q, lr_project q, lr_sha q, clock v - lr_at q)) rows,
          s\<lparr>restarts := modify (\<lambda>q. lr_id q \<in> lr_id ` set rows)
             (\<lambda>q. q\<lparr>lr_reported := Some (clock v)\<rparr>) (restarts s)\<rparr>))"

subsection \<open>The author's actor\<close>

definition author_actor :: "string \<Rightarrow> intervention_actor option" where
  "author_actor author =
     (if py_lower (py_strip author) = ''maintainer'' then Some IC_MAINTAINER else None)"

subsection \<open>Release ends the run once\<close>

lemma bounded_reason_frame:
  assumes "bounded_reason v rid reason s = (reason', u)"
  shows "runs u = runs s" "tickets u = tickets s" "rounds u = rounds s" "projects u = projects s"
    "interventions u = interventions s" "stories u = stories s"
  using assms by (auto simp: bounded_reason_def log_frame split: option.split_asm if_split_asm)

lemma release_cases:
  assumes "release v rid outcome reason cls merge_sha failure resume_phase candidate s = Inr s'"
  obtains
    (again) r where "run_of rid s = Some r" "r_ended r \<noteq> None" "r_phase r \<in> set ended_phases" "s' = s"
  | (ends) r reason' u w where "run_of rid s = Some r" "merge_sha \<noteq> None \<longrightarrow> outcome = OC_MERGED"
      "bounded_reason v rid (map_option (redact_values (secrets v)) reason) s = (reason', u)"
      "set_phase v rid (terminal_phase outcome)
         (Some (''run ended, outcome '' @ outcome_value outcome)) u = Inr (r_phase r, w)"
      "r_ended r = None"
      "s' = lease_back (r_ticket r) rid (upd_run rid (end_run v outcome reason' cls merge_sha
         (if outcome = OC_FAILED then Some (case failure of None \<Rightarrow> FK_UNCLASSIFIED | Some k \<Rightarrow> k) else None)
         (resume_point outcome resume_phase (r_phase r)) candidate (counted_rounds rid w)) w)"
proof -
  have sha: "merge_sha \<noteq> None \<longrightarrow> outcome = OC_MERGED"
    using assms by (auto simp: release_def Let_def split: if_split_asm)
  obtain r where r: "run_of rid s = Some r"
    using assms by (auto simp: release_def Let_def split: if_split_asm option.split_asm)
  show ?thesis
  proof (cases "r_ended r \<noteq> None \<and> r_phase r \<in> set ended_phases")
    case True
    with assms r sha show ?thesis by (intro again [OF r]) (auto simp: release_def Let_def)
  next
    case False
    obtain reason' u where u: "bounded_reason v rid (map_option (redact_values (secrets v)) reason) s = (reason', u)"
      by fastforce
    have run_u: "run_of rid u = Some r" using r bounded_reason_frame(1) [OF u] by simp
    obtain stopped w where w: "set_phase v rid (terminal_phase outcome)
         (Some (''run ended, outcome '' @ outcome_value outcome)) u = Inr (stopped, w)"
      and s': "s' = lease_back (r_ticket r) rid (upd_run rid (end_run v outcome reason' cls merge_sha
         (if outcome = OC_FAILED then Some (case failure of None \<Rightarrow> FK_UNCLASSIFIED | Some k \<Rightarrow> k) else None)
         (resume_point outcome resume_phase stopped) candidate (counted_rounds rid w)) w)"
      using assms r False sha u by (auto simp: release_def Let_def)
    from w run_u have "stopped = r_phase r" and "r_ended r = None" by (auto simp: set_phase_iff)
    with r sha u w s' show ?thesis by (intro ends) simp_all
  qed
qed

text \<open>The row a release writes.\<close>

lemma lease_back_frame [simp]:
  "runs (lease_back tid rid s) = runs s" "events (lease_back tid rid s) = events s"
  "interventions (lease_back tid rid s) = interventions s" "projects (lease_back tid rid s) = projects s"
  by (simp_all add: lease_back_def)

lemma lease_back_ticket:
  "ticket_of k (lease_back tid rid s) =
     map_option (\<lambda>t. if t_id t = tid \<and> t_active t = Some rid
       then t\<lparr>t_active := None, t_last := Some rid\<rparr> else t) (ticket_of k s)"
  by (simp add: lease_back_def fetch_modify)

lemma release_ends_run:
  assumes ok: "release v rid outcome reason cls merge_sha failure resume_phase candidate s = Inr s'"
    and r: "run_of rid s = Some r" and live: "r_ended r = None"
  shows "\<exists>r'. run_of rid s' = Some r' \<and> r_phase r' = terminal_phase outcome
    \<and> r_ended r' = Some (clock v) \<and> r_outcome r' = Some outcome \<and> r_class r' = cls
    \<and> r_merge_sha r' = merge_sha \<and> r_resume r' = resume_point outcome resume_phase (r_phase r)
    \<and> r_ticket r' = r_ticket r \<and> r_candidate r' = coalesce candidate (r_candidate r)
    \<and> (r_failure r' \<noteq> None \<longleftrightarrow> outcome = OC_FAILED) \<and> r_rounds r' = counted_rounds rid s"
  using ok
proof (cases rule: release_cases)
  case (again q)
  with r live show ?thesis by simp
next
  case (ends q reason' u w)
  then have q: "q = r" using r by simp
  have "run_of rid u = Some r" using bounded_reason_frame(1) [OF ends(3)] r by simp
  with ends(4) have w: "run_of rid w = Some (r\<lparr>r_phase := terminal_phase outcome, r_heartbeat := clock v\<rparr>)"
    by (rule set_phase_run)
  have "rounds w = rounds s"
    using ends(4) bounded_reason_frame(3) [OF ends(3)] by (auto simp: set_phase_iff log_frame upd_run_def)
  then have "counted_rounds rid w = counted_rounds rid s" by (simp add: counted_rounds_def)
  with w show ?thesis
    by (auto simp: ends(6) q upd_run_def fetch_modify_key end_run_def)
qed

lemma release_gives_lease_back:
  assumes ok: "release v rid outcome reason cls merge_sha failure resume_phase candidate s = Inr s'"
    and r: "run_of rid s = Some r" and live: "r_ended r = None"
  shows "ticket_of k s' = map_option (\<lambda>t. if t_id t = r_ticket r \<and> t_active t = Some rid
       then t\<lparr>t_active := None, t_last := Some rid\<rparr> else t) (ticket_of k s)"
  using ok
proof (cases rule: release_cases)
  case (again q)
  with r live show ?thesis by simp
next
  case (ends q reason' u w)
  have "tickets w = tickets s"
    using ends(4) bounded_reason_frame(2) [OF ends(3)] by (auto simp: set_phase_iff log_frame upd_run_def)
  with ends(1) r show ?thesis by (simp add: ends(6) lease_back_ticket upd_run_def)
qed

lemma release_again:
  assumes "run_of rid s = Some r" and "r_ended r \<noteq> None" and "r_phase r \<in> set ended_phases"
    and "merge_sha \<noteq> None \<longrightarrow> outcome = OC_MERGED"
  shows "release v rid outcome reason cls merge_sha failure resume_phase candidate s = Inr s"
  using assms by (auto simp: release_def Let_def)

subsection \<open>Release is safe\<close>

lemma end_run_abs:
  "map run_core (modify (\<lambda>r. r_id r = rid) (end_run v outcome reason cls sha fk rp cand n)
      (modify (\<lambda>r. r_id r = rid) (\<lambda>r. r\<lparr>r_phase := terminal_phase outcome, r_heartbeat := hb\<rparr>) rs)) =
   modify (\<lambda>u. u_id u = rid) (\<lambda>u. u\<lparr>u_phase := terminal_phase outcome,
      u_ended := Some (clock v), u_outcome := Some outcome\<rparr>) (map run_core rs)"
  by (induction rs) (auto simp: run_core_def end_run_def)

lemma lease_back_abs: "spec_of (lease_back tid rid s) = drop_lease tid rid (spec_of s)"
proof -
  have "map ticket_core (modify (\<lambda>t. t_id t = tid \<and> t_active t = Some rid)
      (\<lambda>t. t\<lparr>t_active := None, t_last := Some rid\<rparr>) ts) =
    modify (\<lambda>x. x_id x = tid \<and> x_active x = Some rid) (\<lambda>x. x\<lparr>x_active := None\<rparr>) (map ticket_core ts)" for ts
    by (induction ts) (auto simp: ticket_core_def)
  then show ?thesis by (simp add: spec_of_def lease_back_def)
qed

lemma abs_upd_run:
  "spec_of (upd_run k f s) = (spec_of s)\<lparr>spec_runs := map run_core (modify (\<lambda>r. r_id r = k) f (runs s))\<rparr>"
  by (simp add: spec_of_def upd_run_def)

lemma next_seq_upd_run: "next_seq k (upd_run j f s) = next_seq k s"
  by (simp add: next_seq_def run_events_def upd_run_def)

lemma release_safe:
  assumes "release v rid outcome reason cls merge_sha failure resume_phase candidate s = Inr s'"
  shows "safe s s'"
  using assms
proof (cases rule: release_cases)
  case (again r)
  then show ?thesis by simp
next
  case (ends r reason' u w)
  define fin :: "run_life \<Rightarrow> run_life" where "fin = (\<lambda>x. x\<lparr>u_phase := terminal_phase outcome, u_ended := Some (clock v),
    u_outcome := Some outcome\<rparr>)"
  obtain sm where w: "w = log_event v rid EL_NARRATIVE ''phase_change'' sm (clock v) None
      (upd_run rid (\<lambda>r. r\<lparr>r_phase := terminal_phase outcome, r_heartbeat := clock v\<rparr>) u)"
    and move: "may_move (r_phase r) (terminal_phase outcome)"
    using ends(4) by (auto simp: set_phase_iff)
  have u: "safe s u" using bounded_reason_safe [of s v rid] ends(3) by (metis snd_conv)
  have run_u: "run_of rid u = Some r" using bounded_reason_frame(1) [OF ends(3)] ends(1) by simp
  let ?b = "drop_lease (r_ticket r) rid (set_run rid fin (spec_of u))"
  have step: "spec_step (spec_of u) ?b"
    using spec_step.finish [of rid "spec_of u" "run_core r" outcome "clock v"] run_u move ends(5)
    by (simp add: fin_def spec_of_def fetch_run_core run_core_def)
  have log: "spec_step ?b (?b\<lparr>spec_log := spec_log ?b @ [(Some rid, Suc (foldr max (seqs rid ?b) 0))]\<rparr>)"
    by (rule spec_step.log)
  let ?hb = "\<lambda>r :: run_row. r\<lparr>r_phase := terminal_phase outcome, r_heartbeat := clock v\<rparr>"
  have "spec_of w = (spec_of (upd_run rid ?hb u))\<lparr>spec_log := spec_log (spec_of u) @ [(Some rid, next_seq rid u)]\<rparr>"
    unfolding w log_event_abs by (simp add: abs_upd_run next_seq_upd_run)
  then have "spec_of w = (spec_of u)\<lparr>spec_runs := map run_core (modify (\<lambda>r. r_id r = rid) ?hb (runs u)),
      spec_log := spec_log (spec_of u) @ [(Some rid, next_seq rid u)]\<rparr>"
    by (simp add: abs_upd_run)
  moreover have "runs w = modify (\<lambda>r. r_id r = rid) ?hb (runs u)"
    unfolding w by (simp add: log_frame upd_run_def)
  ultimately have "spec_of s' = ?b\<lparr>spec_log := spec_log (spec_of u) @ [(Some rid, next_seq rid u)]\<rparr>"
    unfolding ends(6) lease_back_abs abs_upd_run fin_def
    by (simp add: end_run_abs) (simp add: spec_of_def)
  then have abs_s': "spec_of s' = ?b\<lparr>spec_log := spec_log ?b @ [(Some rid, Suc (foldr max (seqs rid ?b) 0))]\<rparr>"
    by (simp add: next_seq_abs seqs_def)
  have "refines u s'"
    unfolding refines_def abs_s' using step log by (rule converse_rtranclp_into_rtranclp [OF _ r_into_rtranclp])
  moreover have "appends u s'"
    unfolding ends(6) w
    by (simp add: appends_def lease_back_def upd_run_def append_event_def Let_def split: prod.splits)
  moreover have "desk_safe u s'"
  proof -
    have "desk_safe u (log_event v rid EL_NARRATIVE ''phase_change'' sm (clock v) None (upd_run rid ?hb u))"
      by (rule desk_safe_trans [of _ "upd_run rid ?hb u"])
        (use log_event_safe in \<open>simp_all add: safe_def\<close>)
    moreover have "desk_safe t (lease_back tid k t)" for t tid k
      using lease_back_safe by (simp add: safe_def)
    ultimately show ?thesis
      unfolding ends(6) w by (blast intro: desk_safe_trans desk_safe_writes [THEN iffD2])
  qed
  ultimately show ?thesis using u safe_trans safe_def by blast
qed

subsection \<open>The operator's verbs are safe\<close>

lemma requeue_cases:
  assumes "requeue v tid note source force s = Inr (rid, s')"
  obtains released note' i u w path where
    "requeue_guard tid note force s = Inr (Some rid, released, note')"
    "record_intervention v rid IA_REQUEUE note' source IT_MANUAL None None None None s = Inr (i, u)"
    "(case released of None \<Rightarrow> Inr u
      | Some k \<Rightarrow> release_abandoned v rid (released_text k @ ''; requeued for another attempt'') u) = Inr w"
    "walk_ticket tid TS_READY
       (upd_run rid (\<lambda>r. r\<lparr>r_approved_at := None, r_approved_by := None\<rparr>)
         (upd_ticket tid (\<lambda>t. t\<lparr>t_question := None\<rparr>) w)) = Inr (path, s')"
proof -
  obtain lst released note' where g: "requeue_guard tid note force s = Inr (lst, released, note')"
    using assms by (auto simp: requeue_def)
  with assms obtain k where lst: "lst = Some k" by (auto simp: requeue_def split: option.split_asm)
  with assms g have "k = rid" by (auto simp: requeue_def Let_def)
  with assms g lst show ?thesis by (auto simp: requeue_def Let_def intro: that)
qed

lemma requeue_safe:
  assumes "requeue v tid note source force s = Inr (rid, s')"
  shows "safe s s'"
  using assms
proof (rule requeue_cases)
  fix released note' i u w path
  assume u: "record_intervention v rid IA_REQUEUE note' source IT_MANUAL None None None None s = Inr (i, u)"
    and w: "(case released of None \<Rightarrow> Inr u
      | Some k \<Rightarrow> release_abandoned v rid (released_text k @ ''; requeued for another attempt'') u) = Inr w"
    and walk: "walk_ticket tid TS_READY
       (upd_run rid (\<lambda>r. r\<lparr>r_approved_at := None, r_approved_by := None\<rparr>)
         (upd_ticket tid (\<lambda>t. t\<lparr>t_question := None\<rparr>) w)) = Inr (path, s')"
  have "safe u w" using w by (auto intro: release_safe split: option.split_asm)
  moreover have "safe w (upd_ticket tid (\<lambda>t. t\<lparr>t_question := None\<rparr>) w)"
    by (simp add: upd_ticket_safe ticket_core_def)
  moreover have "safe x (upd_run rid (\<lambda>r. r\<lparr>r_approved_at := None, r_approved_by := None\<rparr>) x)" for x
    by (simp add: upd_run_safe run_core_def)
  ultimately show "safe s s'"
    using record_intervention_safe [OF u] walk_ticket_safe [OF walk] by (meson safe_trans)
qed

definition approved_row :: "env \<Rightarrow> intervention_action \<Rightarrow> run_row \<Rightarrow> run_row" where
  "approved_row v action r =
     r\<lparr>r_resume := Some approved_resume_phase,
       r_approved_at := (if action = IA_APPROVE then Some (clock v) else None),
       r_approved_by := (if action = IA_APPROVE then Some (login v) else None)\<rparr>"

lemma release_parked_cases:
  assumes "release_parked v tid action note reason require_pr source guidance before expected firing s = Inr (rid, s')"
  obtains i u w x path where
    "parked_guard tid expected require_pr s = Inr rid"
    "record_intervention v rid action note source IT_MANUAL None guidance None firing s = Inr (i, u)"
    "before u = Inr w" "release_abandoned v rid reason w = Inr x"
    "walk_ticket tid TS_READY
       (if action = IA_BABYSIT \<or> action = IA_OPERATOR_NOTE
        then upd_ticket tid (\<lambda>t. t\<lparr>t_question := None\<rparr>) (upd_run rid (approved_row v action) x)
        else upd_run rid (approved_row v action) x) = Inr (path, s')"
  using assms unfolding release_parked_def Let_def approved_row_def [abs_def] by auto

lemma release_parked_safe:
  assumes ok: "release_parked v tid action note reason require_pr source guidance before expected firing s = Inr (rid, s')"
    and before: "\<And>u w. before u = Inr w \<Longrightarrow> safe u w"
  shows "safe s s'"
  using ok
proof (rule release_parked_cases)
  fix i u w x path
  assume u: "record_intervention v rid action note source IT_MANUAL None guidance None firing s = Inr (i, u)"
    and w: "before u = Inr w" and x: "release_abandoned v rid reason w = Inr x"
    and walk: "walk_ticket tid TS_READY
       (if action = IA_BABYSIT \<or> action = IA_OPERATOR_NOTE
        then upd_ticket tid (\<lambda>t. t\<lparr>t_question := None\<rparr>) (upd_run rid (approved_row v action) x)
        else upd_run rid (approved_row v action) x) = Inr (path, s')"
  have "safe x (upd_run rid (approved_row v action) x)"
    by (simp add: upd_run_safe run_core_def approved_row_def)
  moreover have "safe y (upd_ticket tid (\<lambda>t. t\<lparr>t_question := None\<rparr>) y)" for y
    by (simp add: upd_ticket_safe ticket_core_def)
  ultimately have "safe x (if action = IA_BABYSIT \<or> action = IA_OPERATOR_NOTE
        then upd_ticket tid (\<lambda>t. t\<lparr>t_question := None\<rparr>) (upd_run rid (approved_row v action) x)
        else upd_run rid (approved_row v action) x)"
    by (auto intro: safe_trans)
  then show "safe s s'"
    using record_intervention_safe [OF u] before [OF w] release_safe [OF x] walk_ticket_safe [OF walk]
    by (meson safe_trans)
qed

lemma approve_safe: "approve v tid note expected s = Inr (rid, s') \<Longrightarrow> safe s s'"
  unfolding approve_def by (rule release_parked_safe) auto

lemma babysit_safe: "babysit v tid note source firing s = Inr (rid, s') \<Longrightarrow> safe s s'"
  unfolding babysit_def by (rule release_parked_safe) auto

lemma repoint_cases:
  assumes "repoint v tid sha note s = Inr ((rid, old), s')"
  obtains t r i u where "full_sha sha" "ticket_of tid s = Some t" "t_active t = None"
    "t_last t = Some (r_id r)" "run_of (r_id r) s = Some r" "rid = r_id r" "old = r_candidate r"
    "r_resume r = None" "r_phase r = PH_AWAITING_MERGE_APPROVAL"
    "record_intervention v rid IA_REPOINT note IS_HUMAN IT_MANUAL None (Some note) None None s = Inr (i, u)"
    "s' = upd_run rid (\<lambda>r. r\<lparr>r_candidate := Some (py_lower sha)\<rparr>)
       (log_event v rid EL_NARRATIVE ''repoint''
         (repoint_summary old (py_lower sha) note) (clock v) None u)"
proof -
  obtain t where sha: "full_sha sha" and t: "ticket_of tid s = Some t" "t_active t = None"
    using assms by (auto simp: repoint_def Let_def split: if_split_asm option.split_asm)
  then obtain k r where k: "t_last t = Some k" and r: "run_of k s = Some r"
    using assms by (auto simp: repoint_def Let_def split: if_split_asm option.split_asm)
  have k': "k = r_id r" using r by (auto dest: fetch_SomeD)
  obtain i u where u: "record_intervention v k IA_REPOINT note IS_HUMAN IT_MANUAL None (Some note) None None s = Inr (i, u)"
    and s': "s' = upd_run k (\<lambda>r. r\<lparr>r_candidate := Some (py_lower sha)\<rparr>)
       (log_event v k EL_NARRATIVE ''repoint'' (repoint_summary (r_candidate r) (py_lower sha) note) (clock v) None u)"
    and res: "rid = k" "old = r_candidate r"
    and guard: "r_resume r = None" "r_phase r = PH_AWAITING_MERGE_APPROVAL"
    using assms sha t k r k' by (auto simp: repoint_def Let_def split: if_split_asm)
  show ?thesis
    by (rule that [OF sha t _ _ _ _ guard]) (use k r k' u s' res in simp_all)
qed

lemma repoint_safe:
  assumes "repoint v tid sha note s = Inr (res, s')"
  shows "safe s s'"
proof -
  obtain rid old where "res = (rid, old)" by (cases res)
  with assms have "repoint v tid sha note s = Inr ((rid, old), s')" by simp
  then show ?thesis
  proof (rule repoint_cases)
    fix t r i u
    assume u: "record_intervention v rid IA_REPOINT note IS_HUMAN IT_MANUAL None (Some note) None None s = Inr (i, u)"
      and s': "s' = upd_run rid (\<lambda>r. r\<lparr>r_candidate := Some (py_lower sha)\<rparr>)
       (log_event v rid EL_NARRATIVE ''repoint''
         (repoint_summary old (py_lower sha) note) (clock v) None u)"
    have "safe x (upd_run rid (\<lambda>r. r\<lparr>r_candidate := Some (py_lower sha)\<rparr>) x)" for x
      by (simp add: upd_run_safe run_core_def)
    then show "safe s s'"
      using record_intervention_safe [OF u] log_event_safe unfolding s' by (meson safe_trans)
  qed
qed

lemma stop_safe:
  assumes "record_intervention v rid a note source trigger None g None None s = Inr (i, u)"
  shows "safe s (upd_run rid (\<lambda>r. r\<lparr>r_stop := Some i\<rparr>) u)"
  using record_intervention_safe [OF assms]
  by (rule safe_trans) (simp add: upd_run_safe run_core_def)

lemma pause_safe: "pause v rid note source s = Inr (i, s') \<Longrightarrow> safe s s'"
  by (auto simp: pause_def intro: stop_safe split: option.split_asm if_split_asm)

lemma abort_request_safe:
  assumes "abort_request v rid note source wanted trigger comment s = Inr (i, s')"
  shows "safe s s'"
proof -
  obtain u where u: "record_intervention v rid wanted note source trigger None (Some note) None None s = Inr (i, u)"
    and s': "s' = (case comment of None \<Rightarrow> upd_run rid (\<lambda>r. r\<lparr>r_stop := Some i\<rparr>) u
      | Some c \<Rightarrow> log_event v rid EL_DETAIL ''abort_pr_comment''
          ''pull request comment for the abort'' (clock v)
          (Some (PDoc (JObj [(''intervention'', JInt (int i)), (''body'', JStr c)])))
          (upd_run rid (\<lambda>r. r\<lparr>r_stop := Some i\<rparr>) u))"
    using assms by (auto simp: abort_request_def Let_def)
  from stop_safe [OF u] show ?thesis
    unfolding s' by (auto intro: safe_trans split: option.split)
qed

lemma abort_cases:
  assumes "abort v rid note source close trigger comment s = Inr (i, s')"
  obtains
    (pending) r q where "run_of rid s = Some r" "r_ended r = None" "pending_stop r s = Some q"
      "i = i_id q" "s' = s" "i_action q = IA_ABORT_CLOSE \<or> \<not> close \<and> i_action q = IA_ABORT"
  | (requested) r wanted trigger' where "run_of rid s = Some r" "r_ended r = None"
      "PH_FAILED \<in> set (run_phase_transitions (r_phase r))"
      "wanted = (if close \<or> has_action IA_ABORT_CLOSE (pending_stop r s) then IA_ABORT_CLOSE else IA_ABORT)"
      "abort_request v rid note source wanted trigger' comment s = Inr (i, s')"
proof -
  obtain r where r: "run_of rid s = Some r" "r_ended r = None"
      "PH_FAILED \<in> set (run_phase_transitions (r_phase r))"
    using assms by (auto simp: abort_def Let_def split: if_split_asm option.split_asm)
  show ?thesis
  proof (cases "pending_stop r s")
    case None
    with assms r show ?thesis
      by (intro requested [OF r]) (auto simp: abort_def Let_def split: if_split_asm)
  next
    case (Some q)
    with assms r show ?thesis
      by (auto simp: abort_def Let_def has_action_def split: if_split_asm
          intro: pending [OF r(1,2) Some] requested [OF r])
  qed
qed

lemma abort_safe: "abort v rid note source close trigger comment s = Inr (i, s') \<Longrightarrow> safe s s'"
  by (erule abort_cases) (auto intro: abort_request_safe)

subsection \<open>Resume re-enters the recorded phase\<close>

lemma resume_iff:
  "resume v rid guidance source note s = Inr (target, s') \<longleftrightarrow>
   (\<exists>r. run_of rid s = Some r \<and> r_phase r \<in> set resumable_phases
      \<and> (\<forall>g. guidance = Some g \<longrightarrow> \<not> blank g \<and> r_phase r = PH_BLOCKED_ON_OPERATOR)
      \<and> target = resume_target (r_phase r) (r_resume r)
      \<and> s' = snd (insert_intervention
            \<lparr>i_id = 0, i_run = Some rid, i_project = None, i_source = source,
             i_trigger = IT_MANUAL, i_action = IA_RESUME, i_note = note,
             i_question = None, i_guidance = guidance, i_at = clock v,
             i_actor = Some (intervention_actor v source None), i_firing = None\<rparr>
            (upd_run rid (reopen_run (r_phase r) target) s)))"
proof (cases "run_of rid s")
  case None
  then show ?thesis by (simp add: resume_def)
next
  case (Some r)
  then show ?thesis
    by (cases guidance) (auto simp: resume_def Let_def case_prod_unfold split: if_split_asm)
qed

lemma resume_run:
  assumes "resume v rid guidance source note s = Inr (target, s')" and "run_of rid s = Some r"
  shows "run_of rid s' = Some (reopen_run (r_phase r) target r)"
  using assms by (auto simp: resume_iff log_frame upd_run_def fetch_modify_key reopen_run_def Let_def)

lemma reopen_run_core:
  "run_core (reopen_run p q r) = (if p \<in> set ended_phases
     then (run_core r)\<lparr>u_phase := q, u_ended := None, u_outcome := None\<rparr>
     else (run_core r)\<lparr>u_phase := q\<rparr>)"
  by (simp add: reopen_run_def run_core_def Let_def)

lemma resume_safe:
  assumes "resume v rid guidance source note s = Inr (target, s')"
  shows "safe s s'"
proof -
  obtain r row where r: "run_of rid s = Some r" "r_phase r \<in> set resumable_phases"
    and s': "s' = snd (insert_intervention row (upd_run rid (reopen_run (r_phase r) target) s))"
    using assms unfolding resume_iff by blast
  let ?f = "\<lambda>u :: run_life. if r_phase r \<in> set ended_phases
      then u\<lparr>u_phase := target, u_ended := None, u_outcome := None\<rparr> else u\<lparr>u_phase := target\<rparr>"
  have "map run_core (modify (\<lambda>q. r_id q = rid) (reopen_run (r_phase r) target) rs) =
      modify (\<lambda>u. u_id u = rid) ?f (map run_core rs)" for rs
    by (induction rs) (auto simp: reopen_run_core, auto simp: run_core_def)
  then have "spec_of (upd_run rid (reopen_run (r_phase r) target) s) = set_run rid ?f (spec_of s)"
    by (simp add: spec_of_def upd_run_def)
  moreover have "spec_step (spec_of s) (set_run rid ?f (spec_of s))"
    by (rule spec_step.reopen [of "r_phase r" "run_core r"])
      (use r in \<open>simp_all add: spec_of_def fetch_run_core run_core_def\<close>)
  ultimately have "safe s (upd_run rid (reopen_run (r_phase r) target) s)"
    by (intro safe_step) (simp_all add: appends_def upd_run_def)
  then show ?thesis unfolding s' by (rule safe_trans) simp
qed

subsection \<open>The supervisor's bookkeeping is safe\<close>

lemma record_strike_safe: "record_strike v rid stale beat s = Inr (n, s') \<Longrightarrow> safe s s'"
  by (rule safe_same) (auto simp: record_strike_def Let_def split: option.split_asm if_split_asm)

lemma supervisor_safe [simp]:
  "safe s (snd (record_supervisor_heartbeat v pid started s))"
  "safe s (snd (record_loop_restart v p sha s))"
  "safe s (snd (record_loop_return v p s))"
  "safe s (snd (unreturned_loop_restarts v grace s))"
  by (rule safe_same; simp add: op_defs Let_def split: option.split)+

subsection \<open>Approval\<close>

lemma parked_guard_iff:
  "parked_guard tid expected require_pr s = Inr rid \<longleftrightarrow>
   (\<exists>t r. ticket_of tid s = Some t \<and> t_active t = None \<and> t_status t = TS_BLOCKED_ON_OPERATOR
      \<and> t_last t = Some rid \<and> (expected \<noteq> None \<longrightarrow> expected = Some rid) \<and> run_of rid s = Some r
      \<and> r_phase r = PH_AWAITING_MERGE_APPROVAL \<and> (require_pr \<longrightarrow> r_pr r \<noteq> None))"
  by (auto simp: parked_guard_def split: option.splits)

text \<open>
  What an approval and a babysit leave: the run ended abandoned with the merge gate as its
  resume point, the ticket ready and without a lease.
\<close>

lemma release_parked_result:
  assumes ok: "release_parked v tid action note reason require_pr source guidance before expected firing s = Inr (rid, s')"
    and live: "run_of rid s = Some r" "r_ended r = None"
    and before: "\<And>u w. before u = Inr w \<Longrightarrow> runs w = runs u \<and> tickets w = tickets u"
  shows "(\<exists>r'. run_of rid s' = Some r' \<and> r_ended r' = Some (clock v) \<and> r_outcome r' = Some OC_ABANDONED
      \<and> r_phase r' = PH_FAILED \<and> r_resume r' = Some PH_MERGE_GATE
      \<and> r_approved_at r' = (if action = IA_APPROVE then Some (clock v) else None)
      \<and> r_approved_by r' = (if action = IA_APPROVE then Some (login v) else None))
    \<and> (\<exists>t'. ticket_of tid s' = Some t' \<and> t_status t' = TS_READY \<and> t_active t' = None)"
  using ok
proof (rule release_parked_cases)
  fix i u w x path
  assume guard: "parked_guard tid expected require_pr s = Inr rid"
    and u: "record_intervention v rid action note source IT_MANUAL None guidance None firing s = Inr (i, u)"
    and w: "before u = Inr w" and x: "release_abandoned v rid reason w = Inr x"
    and walk: "walk_ticket tid TS_READY
       (if action = IA_BABYSIT \<or> action = IA_OPERATOR_NOTE
        then upd_ticket tid (\<lambda>t. t\<lparr>t_question := None\<rparr>) (upd_run rid (approved_row v action) x)
        else upd_run rid (approved_row v action) x) = Inr (path, s')"
    (is "walk_ticket tid TS_READY ?y = _")
  obtain t where t: "ticket_of tid s = Some t" "t_active t = None"
    using guard by (auto simp: parked_guard_iff)
  have run_w: "run_of rid w = Some r" and tick_w: "ticket_of tid w = Some t"
    using live t record_intervention_fields [OF u] before [OF w] by simp_all
  obtain q where q: "run_of rid x = Some q" "r_phase q = PH_FAILED" "r_ended q = Some (clock v)"
    "r_outcome q = Some OC_ABANDONED"
    using release_ends_run [OF x run_w live(2)] by auto
  have "ticket_of tid x = Some t"
    using release_gives_lease_back [OF x run_w live(2), of tid] tick_w t(2) by simp
  then have "\<exists>t2. ticket_of tid ?y = Some t2 \<and> t_active t2 = None"
    using t(2) by (simp add: upd_ticket_def upd_run_def fetch_modify_key)
  then obtain t2 where t2: "ticket_of tid ?y = Some t2" "t_active t2 = None" by blast
  have "run_of rid ?y = Some (approved_row v action q)"
    using q(1) by (auto simp: upd_ticket_def upd_run_def fetch_modify_key approved_row_def)
  from walk_ticket_run [OF walk this] obtain r' where "run_of rid s' = Some r'"
    "r' = approved_row v action q \<or> r' = (approved_row v action q)\<lparr>r_park := None\<rparr>" by blast
  then have "\<exists>r'. run_of rid s' = Some r' \<and> r_ended r' = Some (clock v) \<and> r_outcome r' = Some OC_ABANDONED
      \<and> r_phase r' = PH_FAILED \<and> r_resume r' = Some PH_MERGE_GATE
      \<and> r_approved_at r' = (if action = IA_APPROVE then Some (clock v) else None)
      \<and> r_approved_by r' = (if action = IA_APPROVE then Some (login v) else None)"
    using q by (auto simp: approved_row_def approved_resume_phase_def)
  moreover have "ticket_of tid s' = Some (t2\<lparr>t_status := TS_READY\<rparr>)"
    using walk_ticket_ticket [OF walk, of tid] t2(1) by simp
  ultimately show ?thesis using t2(2) by auto
qed

subsection \<open>Requeue\<close>

lemma requeue_admits_refuses: "requeue_admits status run ab = Inl e \<Longrightarrow> \<exists>why. e = RequeueRefused why"
  by (auto simp: requeue_admits_def Let_def split: option.split_asm if_split_asm)

lemma requeue_guard_refuses: "requeue_guard tid note force s = Inl e \<Longrightarrow> \<exists>why. e = RequeueRefused why"
  by (auto simp: requeue_guard_def Let_def bindE_Inl dest: requeue_admits_refuses
      split: option.split_asm if_split_asm)

lemma requeue_guard_limit:
  assumes "requeue_guard tid note force s = Inr (lst, released, note')"
  shows "(length (relaunches tid s) < relaunch_limit \<and> note' = note) \<or>
    (force \<and> \<not> blank note \<and> note' = forced_note (length (relaunches tid s)) note)"
  using assms by (auto simp: requeue_guard_def Let_def split: option.split_asm if_split_asm)

lemma requeue_result:
  assumes ok: "requeue v tid note source force s = Inr (rid, s')"
  shows "(\<exists>t t'. ticket_of tid s = Some t \<and> t_last t = Some rid \<and> t_active t = None
      \<and> ticket_of tid s' = Some t' \<and> t_status t' = TS_READY \<and> t_active t' = None \<and> t_question t' = None)
    \<and> (length (relaunches tid s) < relaunch_limit \<or> force \<and> \<not> blank note)"
  using ok
proof (rule requeue_cases)
  fix released note' i u w path
  assume guard: "requeue_guard tid note force s = Inr (Some rid, released, note')"
    and u: "record_intervention v rid IA_REQUEUE note' source IT_MANUAL None None None None s = Inr (i, u)"
    and w: "(case released of None \<Rightarrow> Inr u
      | Some k \<Rightarrow> release_abandoned v rid (released_text k @ ''; requeued for another attempt'') u) = Inr w"
    and walk: "walk_ticket tid TS_READY
       (upd_run rid (\<lambda>r. r\<lparr>r_approved_at := None, r_approved_by := None\<rparr>)
         (upd_ticket tid (\<lambda>t. t\<lparr>t_question := None\<rparr>) w)) = Inr (path, s')"
  obtain t where t: "ticket_of tid s = Some t" "t_active t = None" "t_last t = Some rid"
    using guard by (auto simp: requeue_guard_def Let_def split: option.split_asm if_split_asm)
  have tu: "ticket_of tid u = Some t" using t record_intervention_fields [OF u] by simp
  have "\<exists>t2. ticket_of tid w = Some t2 \<and> t_active t2 = None"
  proof (cases released)
    case None
    with w tu t(2) show ?thesis by simp
  next
    case (Some k)
    with w have rel: "release_abandoned v rid (released_text k @ ''; requeued for another attempt'') u = Inr w" by simp
    from rel show ?thesis
    proof (cases rule: release_cases)
      case (again r)
      with tu t(2) show ?thesis by simp
    next
      case (ends r reason' u' w')
      from release_gives_lease_back [OF rel ends(1,5), of tid] tu t(2) show ?thesis by simp
    qed
  qed
  then obtain t2 where "ticket_of tid w = Some t2" "t_active t2 = None" by blast
  then have "\<exists>t'. ticket_of tid s' = Some t' \<and> t_status t' = TS_READY \<and> t_active t' = None \<and> t_question t' = None"
    using walk_ticket_ticket [OF walk, of tid] by (simp add: upd_run_def upd_ticket_def fetch_modify_key)
  with t requeue_guard_limit [OF guard] show ?thesis by blast
qed

subsection \<open>Stops\<close>

lemma abort_keeps_close:
  assumes ok: "abort v rid note source close trigger comment s = Inr (i, s')"
    and r: "run_of rid s = Some r" and q: "pending_stop r s = Some q" "i_action q = IA_ABORT_CLOSE"
  shows "\<exists>r' q'. run_of rid s' = Some r' \<and> pending_stop r' s' = Some q' \<and> i_id q' = i \<and> i_action q' = IA_ABORT_CLOSE"
  using ok
proof (cases rule: abort_cases)
  case (pending p q')
  with r q show ?thesis by auto
next
  case (requested p wanted trigger')
  with r q have wanted: "wanted = IA_ABORT_CLOSE" by (simp add: has_action_def)
  obtain u where u: "record_intervention v rid wanted note source trigger' None (Some note) None None s = Inr (i, u)"
    and s': "s' = (case comment of None \<Rightarrow> upd_run rid (\<lambda>r. r\<lparr>r_stop := Some i\<rparr>) u
      | Some c \<Rightarrow> log_event v rid EL_DETAIL ''abort_pr_comment''
          ''pull request comment for the abort'' (clock v)
          (Some (PDoc (JObj [(''intervention'', JInt (int i)), (''body'', JStr c)])))
          (upd_run rid (\<lambda>r. r\<lparr>r_stop := Some i\<rparr>) u))"
    using requested(5) by (auto simp: abort_request_def Let_def)
  obtain row where row: "interventions u = interventions s @ [row]" "i_id row = i" "i_action row = wanted"
    "i = next_id i_id (interventions s)"
    using record_intervention_rows [OF u] by blast
  have "run_of rid s' = Some (r\<lparr>r_stop := Some i\<rparr>)"
    using r record_intervention_fields(1) [OF u]
    by (simp add: s' log_frame upd_run_def fetch_modify_key split: option.split)
  moreover have "interventions s' = interventions u"
    by (simp add: s' log_frame upd_run_def split: option.split)
  then have "fetch i_id i (interventions s') = Some row"
    using row next_id_fresh [of i_id "interventions s"] by (simp add: fetch_append)
  ultimately show ?thesis using row wanted by (auto simp: pending_stop_def)
qed

subsection \<open>Strikes count the silent sweeps\<close>

text \<open>The sweeps \<open>vs\<close>, each of which found the run stale with its heartbeat at \<open>beat\<close>.\<close>

fun silent_sweeps :: "env list \<Rightarrow> nat \<Rightarrow> int \<Rightarrow> store \<Rightarrow> err + store" where
  "silent_sweeps [] rid beat s = Inr s"
| "silent_sweeps (v # vs) rid beat s =
     bindE (record_strike v rid True beat s) (\<lambda>(_, s). silent_sweeps vs rid beat s)"

lemma record_strike_stale:
  assumes "run_of rid s = Some r"
  shows "\<exists>s'. record_strike v rid True beat s = Inr (next_strike beat (strike_of rid s), s')
    \<and> runs s' = runs s \<and> strike_of rid s' =
        Some \<lparr>s_run = rid, s_strikes = next_strike beat (strike_of rid s), s_last_seen = clock v\<rparr>"
proof (cases "strike_of rid s")
  case None
  with assms show ?thesis
    by (simp add: record_strike_def Let_def strike_of_def fetch_append)
next
  case (Some k)
  have "fetch s_run rid (modify (\<lambda>k. s_run k = rid) (\<lambda>_. x) ks) =
      map_option (\<lambda>k. if s_run k = rid then x else k) (fetch s_run rid ks)" if "s_run x = rid" for x :: strike_row and ks
    by (induction ks) (auto simp: that)
  with assms Some show ?thesis
    by (auto simp: record_strike_def Let_def strike_of_def dest: fetch_SomeD)
qed

lemma silent_sweeps_count:
  assumes "run_of rid s = Some r" and "\<forall>v \<in> set vs. beat \<le> clock v"
    and "strike_of rid s = Some k" and "beat \<le> s_last_seen k"
  shows "\<exists>s' k'. silent_sweeps vs rid beat s = Inr s' \<and> strike_of rid s' = Some k'
    \<and> s_strikes k' = s_strikes k + length vs"
  using assms
proof (induction vs arbitrary: s k)
  case (Cons v vs)
  from record_strike_stale [OF Cons.prems(1), of v beat] obtain s' where
    s': "record_strike v rid True beat s = Inr (next_strike beat (strike_of rid s), s')" "runs s' = runs s"
      "strike_of rid s' = Some \<lparr>s_run = rid, s_strikes = next_strike beat (strike_of rid s), s_last_seen = clock v\<rparr>"
    by blast
  have "next_strike beat (strike_of rid s) = s_strikes k + 1"
    using Cons.prems(3,4) by (simp add: next_strike_def)
  with Cons.IH [of s', OF _ _ s'(3)] Cons.prems s' show ?case by auto
qed auto

subsection \<open>Loop restarts are reported once\<close>

lemma unreturned_reports_overdue:
  "set (map fst (fst (unreturned_loop_restarts v grace s))) = lr_id ` set (filter (overdue v grace s) (restarts s))"
  by (auto simp: unreturned_loop_restarts_def Let_def image_iff)

lemma unreturned_once:
  assumes "i \<in> set (map fst (fst (unreturned_loop_restarts v grace s)))"
  shows "i \<notin> set (map fst (fst (unreturned_loop_restarts v' grace' (snd (unreturned_loop_restarts v grace s)))))"
proof -
  let ?t = "snd (unreturned_loop_restarts v grace s)"
  have "lr_reported q \<noteq> None" if "q \<in> set (restarts ?t)" "lr_id q = i" for q
    using that assms
    by (auto simp: unreturned_loop_restarts_def Let_def set_modify split: if_splits)
  moreover have "\<exists>q \<in> set (restarts ?t). lr_id q = i \<and> lr_reported q = None"
    if "i \<in> set (map fst (fst (unreturned_loop_restarts v' grace' ?t)))"
    using that unfolding unreturned_reports_overdue by (auto simp: overdue_def)
  ultimately show ?thesis by blast
qed

end
