(* ===== verification/Stories.thy ===== *)
theory Stories
  imports Operate
begin

section \<open>Stories: plans, the frontier, decisions and their ends\<close>

text \<open>
  \<^verbatim>\<open>store/stories.py\<close>. A story is a parent ticket, its witnesses (\<open>story_witnesses\<close>) and
  its children (\<open>story_children\<close>, one row per witness a child names, one with an empty key
  for scaffolding). \<open>new_child\<close> is the triple the caller passes, \<open>new_witness\<close> the
  dictionary. The approved plan is the \<open>plan\<close> record; its \<^verbatim>\<open>edges\<close> object is an association
  list by identifier. A Python dictionary built in a loop is an association list that
  \<open>assoc_put\<close> extends in place.
\<close>

subsection \<open>Checks of the arguments\<close>

record new_witness =
  nw_key :: string
  nw_criterion :: string
  nw_file :: string
  nw_command :: string
  nw_source :: string

type_synonym new_child = "nat \<times> child_role \<times> string list"

fun check_text :: "(string \<times> string) list \<Rightarrow> err + unit" where
  "check_text [] = Inr ()"
| "check_text ((name, text) # rest) =
     (if blank text then Inl (BlankText name) else check_text rest)"

fun check_witnesses :: "new_witness list \<Rightarrow> string list \<Rightarrow> err + string list" where
  "check_witnesses [] keys = Inr keys"
| "check_witnesses (w # ws) keys =
     bindE (check_text [(''key'', nw_key w), (''criterion'', nw_criterion w), (''file'', nw_file w),
                        (''command'', nw_command w), (''source'', nw_source w)]) (\<lambda>_.
       if nw_key w \<in> set keys then Inl (ValueError ''witness key is given twice'')
       else check_witnesses ws (nw_key w # keys))"

definition check_paths :: "string list \<Rightarrow> err + string list option" where
  "check_paths paths =
     (if list_ex blank paths then Inl (ValueError ''a witness path is blank'')
      else Inr (if paths = [] then None else Some paths))"

text \<open>The inner loop over the keys of one child, then the outer over the children.\<close>

fun check_child_keys ::
    "nat \<Rightarrow> child_role \<Rightarrow> string list \<Rightarrow> string list \<Rightarrow> (string \<times> nat) list \<Rightarrow>
     err + (string \<times> nat) list" where
  "check_child_keys tid role [] keys completed = Inr completed"
| "check_child_keys tid role (k # ks) keys completed =
     (if k \<notin> set keys then Inl (ValueError ''names no witness'')
      else if role = CR_COMPLETES \<and> map_of completed k \<noteq> None
      then Inl (ValueError ''completed by two children'')
      else check_child_keys tid role ks keys
             (if role = CR_COMPLETES then assoc_put k tid completed else completed))"

fun check_children ::
    "nat \<Rightarrow> new_child list \<Rightarrow> string list \<Rightarrow> nat list \<Rightarrow> (string \<times> nat) list \<Rightarrow>
     err + (string \<times> nat) list" where
  "check_children parent [] keys seen completed = Inr completed"
| "check_children parent ((tid, role, ks) # rest) keys seen completed =
     (if tid = parent then Inl (ValueError ''is the parent'')
      else if tid \<in> set seen then Inl (ValueError ''is given twice'')
      else if role = CR_SCAFFOLDING \<and> ks \<noteq> [] then Inl (ValueError ''scaffolding names no witness'')
      else if role \<noteq> CR_SCAFFOLDING \<and> ks = [] then Inl (ValueError ''names a witness'')
      else if \<not> distinct ks then Inl (ValueError ''names a witness twice'')
      else bindE (check_child_keys tid role ks keys completed)
             (check_children parent rest keys (tid # seen)))"

definition check_orders :: "string list \<Rightarrow> err + unit" where
  "check_orders orders =
     (if list_ex blank orders then Inl (ValueError ''a standing order is blank'') else Inr ())"

definition check_plan ::
    "nat \<Rightarrow> new_witness list \<Rightarrow> new_child list \<Rightarrow> string list \<Rightarrow> string list \<Rightarrow>
     err + (string \<times> nat) list \<times> string list option" where
  "check_plan parent ws children orders paths =
     bindE (check_witnesses ws []) (\<lambda>keys.
     bindE (check_children parent children keys [] []) (\<lambda>completed_by.
     bindE (check_orders orders) (\<lambda>_.
     bindE (check_paths paths) (\<lambda>paths. Inr (completed_by, paths)))))"

subsection \<open>Reads\<close>

definition story_state :: "nat \<Rightarrow> store \<Rightarrow> err + story_state" where
  "story_state tid s =
     (case story_of tid s of
        None \<Rightarrow> Inl (ValueError ''has no story'')
      | Some y \<Rightarrow> Inr (y_state y))"

definition has_story :: "nat \<Rightarrow> store \<Rightarrow> bool" where
  "has_story tid s \<longleftrightarrow> story_of tid s \<noteq> None"

definition child_row_of :: "nat \<Rightarrow> store \<Rightarrow> child_row option" where
  "child_row_of tid s = find (\<lambda>c. ch_ticket c = tid) (story_children s)"

text \<open>
  The row \<^verbatim>\<open>story()\<close> finds: the ticket's own story or the one it is a child of, the smaller
  id when it is both (a \<^verbatim>\<open>ticketId IN (a, b)\<close> scan).
\<close>

definition story_row :: "nat \<Rightarrow> store \<Rightarrow> story_row option" where
  "story_row tid s =
     (let own = (\<lambda>y. y_ticket y = tid);
          parent = (\<lambda>y. map_option ch_story (child_row_of tid s) = Some (y_ticket y))
      in case sort_key y_ticket (filter (\<lambda>y. own y \<or> parent y) (stories s)) of
          [] \<Rightarrow> None
        | y # _ \<Rightarrow> Some y)"

definition open_decisions :: "nat \<Rightarrow> store \<Rightarrow> decision_row list" where
  "open_decisions sid s = filter (\<lambda>d. d_story d = sid \<and> d_answer d = None) (decisions s)"

definition children_ids :: "nat \<Rightarrow> store \<Rightarrow> nat list" where
  "children_ids sid s = remdups (map ch_ticket (filter (\<lambda>c. ch_story c = sid) (story_children s)))"

text \<open>\<^verbatim>\<open>_child_rows\<close>: the tickets of the children, in ticket order.\<close>

definition child_tickets :: "nat \<Rightarrow> store \<Rightarrow> ticket_row list" where
  "child_tickets sid s = filter (\<lambda>t. t_id t \<in> set (children_ids sid s)) (tickets s)"

subsection \<open>The plan\<close>

definition add_key :: "string \<Rightarrow> plan_child \<Rightarrow> plan_child" where
  "add_key key c = (if key = [] then c else c\<lparr>pc_keys := pc_keys c @ [key]\<rparr>)"

text \<open>One row of \<^verbatim>\<open>_plan\<close>'s query: the identifier, the role, the key, the dependencies.\<close>

definition plan_step :: "string \<times> child_role \<times> string \<times> string list \<Rightarrow> plan \<Rightarrow> plan" where
  "plan_step row p =
     (case row of (ident, role, key, depends) \<Rightarrow>
        (let children = (if list_ex (\<lambda>c. pc_ident c = ident) (pl_children p) then pl_children p
                         else pl_children p @ [\<lparr>pc_ident = ident, pc_role = role, pc_keys = []\<rparr>])
         in \<lparr>pl_children = modify (\<lambda>c. pc_ident c = ident) (add_key key) children,
             pl_edges = assoc_put ident depends (pl_edges p)\<rparr>))"

definition plan_rows :: "nat \<Rightarrow> store \<Rightarrow> (string \<times> child_role \<times> string \<times> string list) list" where
  "plan_rows sid s =
     map (\<lambda>(t, c). (t_ident t, ch_role c, ch_key c, t_depends t))
       (sort_key (\<lambda>(t, c). (t_id t, ch_key c))
         (concat (map (\<lambda>c. map (\<lambda>t. (t, c)) (filter (\<lambda>t. t_id t = ch_ticket c) (tickets s)))
           (filter (\<lambda>c. ch_story c = sid) (story_children s)))))"

definition plan_of :: "nat \<Rightarrow> store \<Rightarrow> plan" where
  "plan_of sid s = fold plan_step (plan_rows sid s) \<lparr>pl_children = [], pl_edges = []\<rparr>"

subsection \<open>Filing\<close>

fun check_child_tickets :: "nat option \<Rightarrow> nat \<Rightarrow> nat list \<Rightarrow> store \<Rightarrow> err + unit" where
  "check_child_tickets allowed project [] s = Inr ()"
| "check_child_tickets allowed project (tid # rest) s =
     (case ticket_of tid s of
        None \<Rightarrow> Inl (ValueError ''is not in the store'')
      | Some t \<Rightarrow>
          (if t_project t \<noteq> project then Inl (ValueError ''is in another project'')
           else if t_parent t \<noteq> None \<and> t_parent t \<noteq> allowed
           then Inl (ValueError ''already serves a story'')
           else if has_story tid s then Inl (ValueError ''already owns a story'')
           else check_child_tickets allowed project rest s))"

definition check_tickets :: "nat \<Rightarrow> nat list \<Rightarrow> store \<Rightarrow> err + unit" where
  "check_tickets parent ids s =
     (if list_ex (\<lambda>tid. ticket_of tid s = None) (parent # ids)
      then Inl (ValueError ''is not in the store'')
      else if has_story parent s then Inl (ValueError ''already has a story'')
      else case ticket_of parent s of
          None \<Rightarrow> Inl (ValueError ''is not in the store'')
        | Some t \<Rightarrow> check_child_tickets None (t_project t) ids s)"

definition insert_plan ::
    "env \<Rightarrow> nat \<Rightarrow> new_witness list \<Rightarrow> new_child list \<Rightarrow> (string \<times> nat) list \<Rightarrow> store \<Rightarrow> store" where
  "insert_plan v parent ws children completed_by s =
     (let wrows = map (\<lambda>w. \<lparr>w_story = parent, w_key = nw_key w, w_criterion = nw_criterion w,
              w_file = nw_file w, w_command = nw_command w, w_source = nw_source w,
              w_hash = sha256 v (nw_source w), w_completed_by = map_of completed_by (nw_key w)\<rparr>) ws;
          crows = concat (map (\<lambda>(tid, role, ks). map (\<lambda>k.
              \<lparr>ch_ticket = tid, ch_key = k, ch_story = parent, ch_role = role\<rparr>)
              (if ks = [] then [[]] else ks)) children)
      in s\<lparr>story_witnesses := story_witnesses s @ wrows,
           story_children := story_children s @ crows,
           tickets := modify (\<lambda>t. t_id t \<in> fst ` set children)
             (\<lambda>t. t\<lparr>t_parent := Some parent\<rparr>) (tickets s)\<rparr>)"

definition new_story :: "nat \<Rightarrow> string list \<Rightarrow> string list option \<Rightarrow> story_row" where
  "new_story parent orders paths =
     \<lparr>y_ticket = parent, y_state = SY_PLANNED, y_generation = 0, y_orders = orders,
      y_approved_rev = None, y_plan = None, y_approved_by = None, y_approved_at = None,
      y_closed_sha = None, y_closed_at = None, y_paths = paths\<rparr>"

definition file_story ::
    "env \<Rightarrow> nat \<Rightarrow> new_witness list \<Rightarrow> new_child list \<Rightarrow> string list \<Rightarrow> string list \<Rightarrow> store \<Rightarrow>
     err + store" where
  [op_defs]: "file_story v parent ws children orders paths s =
     bindE (check_plan parent ws children orders paths) (\<lambda>(completed_by, paths).
     bindE (check_tickets parent (map fst children) s) (\<lambda>_.
       Inr (insert_plan v parent ws children completed_by
              (s\<lparr>stories := stories s @ [new_story parent orders paths]\<rparr>))))"

subsection \<open>Re-planning\<close>

definition record_plan_revision :: "env \<Rightarrow> nat \<Rightarrow> store \<Rightarrow> store" where
  "record_plan_revision v tid s =
     (case ticket_of tid s of
        None \<Rightarrow> s
      | Some t \<Rightarrow>
          (let revision = (case latest_revision (ticket_revisions tid s) of
                 None \<Rightarrow> 1 | Some x \<Rightarrow> v_revision x + 1)
           in upd_ticket tid (\<lambda>t. t\<lparr>t_revision := revision\<rparr>)
                (s\<lparr>revisions := revisions s @ [field_revision v ''cli'' revision t]\<rparr>)))"

definition check_replanned :: "nat \<Rightarrow> nat list \<Rightarrow> store \<Rightarrow> err + unit" where
  "check_replanned parent ids s =
     (if list_ex (\<lambda>tid. tid \<notin> set ids) (children_ids parent s)
      then Inl (ValueError ''is not in the new plan'')
      else case ticket_of parent s of
          None \<Rightarrow> Inl (ValueError ''is not in the store'')
        | Some t \<Rightarrow> check_child_tickets (Some parent) (t_project t) ids s)"

definition replanned_row :: "string list \<Rightarrow> string list option \<Rightarrow> story_row \<Rightarrow> story_row" where
  "replanned_row orders paths y =
     y\<lparr>y_orders := orders, y_paths := paths,
       y_state := (if open_story (y_state y) then SY_PLANNED else y_state y)\<rparr>"

definition replan_story ::
    "env \<Rightarrow> nat \<Rightarrow> new_witness list \<Rightarrow> new_child list \<Rightarrow> string list \<Rightarrow> bool \<Rightarrow> string list \<Rightarrow>
     store \<Rightarrow> err + story_state \<times> store" where
  [op_defs]: "replan_story v parent ws children orders body_revised paths s =
     bindE (check_plan parent ws children orders paths) (\<lambda>(completed_by, paths).
     bindE (story_state parent s) (\<lambda>state.
       if ended_story state then Inl (ValueError ''story has ended'')
       else bindE (check_replanned parent (map fst children) s) (\<lambda>_.
         let s = s\<lparr>story_children := filter (\<lambda>c. ch_story c \<noteq> parent) (story_children s),
                   story_witnesses := filter (\<lambda>w. w_story w \<noteq> parent) (story_witnesses s)\<rparr>;
             s = insert_plan v parent ws children completed_by s;
             s = upd_story parent (replanned_row orders paths) s;
             s = (if body_revised then s else record_plan_revision v parent s)
         in bindE (story_state parent s) (\<lambda>state. Inr (state, s)))))"

subsection \<open>Approval\<close>

definition other_open_story :: "nat \<Rightarrow> nat \<Rightarrow> store \<Rightarrow> bool" where
  "other_open_story pid parent s \<longleftrightarrow>
     (\<exists>y \<in> set (stories s). y_ticket y \<noteq> parent \<and> open_story (y_state y) \<and>
        (\<exists>t \<in> set (tickets s). t_id t = y_ticket y \<and> t_project t = pid))"

definition approve_story ::
    "env \<Rightarrow> nat \<Rightarrow> nat \<Rightarrow> string \<Rightarrow> string \<Rightarrow> store \<Rightarrow> err + nat \<times> store" where
  [op_defs]: "approve_story v parent revision author note s =
     bindE (check_text [(''author'', author), (''note'', note)]) (\<lambda>_.
     bindE (story_state parent s) (\<lambda>state.
       if state \<noteq> SY_PLANNED then Inl (ValueError ''story is not planned'')
       else case ticket_of parent s of
           None \<Rightarrow> Inl (NoTicket parent)
         | Some t \<Rightarrow>
             (if t_revision t \<noteq> revision then Inl (ValueError ''parent moved'')
              else if other_open_story (t_project t) parent s
              then Inl (ValueError ''one story is open at a time'')
              else
                (let s = upd_story parent (\<lambda>y. y\<lparr>y_state := SY_APPROVED,
                           y_approved_rev := Some revision, y_plan := Some (plan_of parent s),
                           y_approved_by := Some author, y_approved_at := Some (clock v)\<rparr>) s
                 in record_project_intervention v IA_APPROVE_STORY note IS_HUMAN IT_MANUAL
                      (Some (t_project t)) None s))))"

subsection \<open>Advancing\<close>

definition advanced_text :: "nat \<Rightarrow> string" where
  "advanced_text n = ''story generation advanced to '' @ str_nat n @ '' by this run's merge''"

definition advance_story :: "env \<Rightarrow> nat \<Rightarrow> store \<Rightarrow> err + nat option \<times> store" where
  [op_defs]: "advance_story v rid s =
     (case run_of rid s of
        None \<Rightarrow> Inl (NoRun rid)
      | Some r \<Rightarrow>
          (case child_row_of (r_ticket r) s of
             None \<Rightarrow> Inr (None, s)
           | Some c \<Rightarrow>
               (if story_advanced (r_ticket r) s then Inr (None, s)
                else
                  (let s = upd_story (ch_story c) (\<lambda>y. y\<lparr>y_generation := y_generation y + 1\<rparr>) s
                   in case story_of (ch_story c) s of
                       None \<Rightarrow> Inl (IntegrityError ''stories'')
                     | Some y \<Rightarrow>
                         Inr (Some (y_generation y),
                              log_event v rid EL_NARRATIVE story_advanced_kind
                                (advanced_text (y_generation y)) (clock v) None s)))))"

subsection \<open>Decisions\<close>

definition park_story ::
    "env \<Rightarrow> nat \<Rightarrow> decision_kind \<Rightarrow> string \<Rightarrow> string list \<Rightarrow> string \<Rightarrow> nat option \<Rightarrow> store \<Rightarrow>
     err + nat \<times> store" where
  [op_defs]: "park_story v sid kind question options dflt tid s =
     bindE (check_text [(''question'', question)]) (\<lambda>_.
       if options = [] then Inl (ValueError ''lists no options'')
       else bindE (check_text (map (Pair ''option'') options)) (\<lambda>_.
       if \<not> distinct options then Inl (ValueError ''lists an option twice'')
       else if dflt \<notin> set options then Inl (ValueError ''default is not an option'')
       else bindE (story_state sid s) (\<lambda>state.
         if \<not> open_story state then Inl (ValueError ''story is not open'')
         else if (case tid of None \<Rightarrow> False | Some k \<Rightarrow> k \<notin> set (children_ids sid s))
         then Inl (ValueError ''is not a child'')
         else
           (let s = upd_story sid (\<lambda>y. y\<lparr>y_state := SY_PARKED\<rparr>) s;
                i = next_id d_id (decisions s);
                row = \<lparr>d_id = i, d_story = sid, d_ticket = tid, d_kind = kind,
                  d_question = question, d_options = options, d_default = dflt,
                  d_answer = None, d_answered_by = None, d_answered_at = None, d_at = clock v\<rparr>
            in Inr (i, s\<lparr>decisions := decisions s @ [row]\<rparr>)))))"

definition answer_decision ::
    "env \<Rightarrow> nat \<Rightarrow> string \<Rightarrow> string \<Rightarrow> string \<Rightarrow> store \<Rightarrow> err + story_state \<times> store" where
  [op_defs]: "answer_decision v did answer author note s =
     bindE (check_text [(''author'', author), (''note'', note)]) (\<lambda>_.
       case fetch d_id did (decisions s) of
         None \<Rightarrow> Inl (ValueError ''no decision'')
       | Some d \<Rightarrow>
           bindE (story_state (d_story d) s) (\<lambda>state.
             if ended_story state then Inl (ValueError ''story has ended'')
             else if d_answer d \<noteq> None then Inl (ValueError ''already answered'')
             else if answer \<notin> set (d_options d) then Inl (ValueError ''not an option'')
             else
               (let s = s\<lparr>decisions := modify (\<lambda>d. d_id d = did)
                      (\<lambda>d. d\<lparr>d_answer := Some answer, d_answered_by := Some author,
                             d_answered_at := Some (clock v)\<rparr>) (decisions s)\<rparr>
                in case ticket_of (d_story d) s of
                    None \<Rightarrow> Inl (NoTicket (d_story d))
                  | Some t \<Rightarrow>
                      bindE (record_project_intervention v IA_DECIDE note IS_HUMAN IT_MANUAL
                               (Some (t_project t)) None s) (\<lambda>(_, s).
                        let s = (if open_decisions (d_story d) s = []
                                 then upd_story (d_story d) (\<lambda>y. if y_state y = SY_PARKED
                                        then y\<lparr>y_state := SY_APPROVED\<rparr> else y) s
                                 else s)
                        in bindE (story_state (d_story d) s) (\<lambda>state. Inr (state, s))))))"

subsection \<open>Witnesses\<close>

definition record_witness_result ::
    "env \<Rightarrow> nat \<Rightarrow> string \<Rightarrow> string \<Rightarrow> witness_verdict \<Rightarrow> witness_verifier \<Rightarrow> red_kind option \<Rightarrow>
     string option \<Rightarrow> string option \<Rightarrow> int option \<Rightarrow> string option \<Rightarrow> store \<Rightarrow> err + nat \<times> store" where
  [op_defs]: "record_witness_result v sid key sha verdict verifier red file_hash evidence secs carried s =
     bindE (check_text [(''main_sha'', sha)]) (\<lambda>_.
     bindE (case carried of None \<Rightarrow> Inr () | Some c \<Rightarrow> check_text [(''carried_from'', c)]) (\<lambda>_.
       if verdict = WV_RED \<and> red = None then Inl (ValueError ''redKind'')
       else if verdict \<noteq> WV_RED \<and> red \<noteq> None then Inl (ValueError ''has no redKind'')
       else bindE (story_state sid s) (\<lambda>_.
         if \<not> list_ex (\<lambda>w. w_story w = sid \<and> w_key w = key) (story_witnesses s)
         then Inl (ValueError ''has no witness'')
         else
           (let i = next_id wr_id (witness_results s);
                row = \<lparr>wr_id = i, wr_story = sid, wr_key = key, wr_sha = sha, wr_verdict = verdict,
                  wr_red = red, wr_verifier = verifier, wr_hash = file_hash,
                  wr_evidence = evidence, wr_seconds = secs, wr_at = clock v,
                  wr_carried = carried\<rparr>
            in Inr (i, s\<lparr>witness_results := witness_results s @ [row]\<rparr>)))))"

text \<open>\<^verbatim>\<open>witness_ledger\<close> for one sha: the newest result of each key, by key.\<close>

definition witness_ledger :: "nat \<Rightarrow> string option \<Rightarrow> store \<Rightarrow> result_row list" where
  "witness_ledger sid sha s =
     (case sha of
        None \<Rightarrow> filter (\<lambda>x. wr_story x = sid) (witness_results s)
      | Some m \<Rightarrow> sort_key wr_key
          (first_per wr_key (rev (filter (\<lambda>x. wr_story x = sid \<and> wr_sha x = m) (witness_results s)))))"

definition accept_witness :: "env \<Rightarrow> nat \<Rightarrow> string \<Rightarrow> string \<Rightarrow> store \<Rightarrow> err + store" where
  [op_defs]: "accept_witness v sid key source s =
     bindE (check_text [(''source'', source)]) (\<lambda>_.
     bindE (story_state sid s) (\<lambda>state.
       if \<not> open_story state then Inl (ValueError ''story is not open'')
       else if \<not> list_ex (\<lambda>w. w_story w = sid \<and> w_key w = key) (story_witnesses s)
       then Inl (ValueError ''has no witness'')
       else Inr (s\<lparr>story_witnesses := modify (\<lambda>w. w_story w = sid \<and> w_key w = key)
              (\<lambda>w. w\<lparr>w_source := source, w_hash := sha256 v source\<rparr>) (story_witnesses s)\<rparr>)))"

subsection \<open>Edges\<close>

definition put_edge :: "string \<Rightarrow> string list \<Rightarrow> plan \<Rightarrow> plan" where
  "put_edge ident deps p = p\<lparr>pl_edges := assoc_put ident deps (pl_edges p)\<rparr>"

definition reapprove_edges :: "nat \<Rightarrow> nat \<Rightarrow> store \<Rightarrow> err + store" where
  [op_defs]: "reapprove_edges sid tid s =
     bindE (story_state sid s) (\<lambda>state.
       if \<not> open_story state then Inl (ValueError ''story is not open'')
       else case find (\<lambda>t. t_id t = tid) (child_tickets sid s) of
           None \<Rightarrow> Inl (ValueError ''is not a child'')
         | Some t \<Rightarrow>
             (case story_of sid s of
                None \<Rightarrow> Inl (ValueError ''has no story'')
              | Some y \<Rightarrow>
                  (case y_plan y of
                     None \<Rightarrow> Inl (ValueError ''approvedPlan'')
                   | Some p \<Rightarrow>
                       Inr (upd_story sid
                         (\<lambda>y. y\<lparr>y_plan := Some (put_edge (t_ident t) (t_depends t) p)\<rparr>) s))))"

fun add_new :: "string list \<Rightarrow> string list \<Rightarrow> string list" where
  "add_new rewired [] = rewired"
| "add_new rewired (e # es) = add_new (if e \<in> set rewired then rewired else rewired @ [e]) es"

fun inherit_edges :: "string list \<Rightarrow> string list \<Rightarrow> string \<Rightarrow> string list \<Rightarrow> string list" where
  "inherit_edges rewired [] canceled inherited = rewired"
| "inherit_edges rewired (dep # deps) canceled inherited =
     inherit_edges (add_new rewired (if dep = canceled then inherited else [dep])) deps
       canceled inherited"

definition inherited_edges :: "string list \<Rightarrow> string \<Rightarrow> string list \<Rightarrow> string list" where
  "inherited_edges depends canceled inherited = inherit_edges [] depends canceled inherited"

definition edges_of :: "plan \<Rightarrow> string \<Rightarrow> string list" where
  "edges_of p ident = (case map_of (pl_edges p) ident of None \<Rightarrow> [] | Some ds \<Rightarrow> ds)"

definition rewire_approved_edge :: "nat \<Rightarrow> string \<Rightarrow> string list \<Rightarrow> store \<Rightarrow> err + store" where
  "rewire_approved_edge tid canceled inherited s =
     (case story_row tid s of
        None \<Rightarrow> Inr s
      | Some y \<Rightarrow>
          (if y_ticket y = tid \<or> \<not> open_story (y_state y) then Inr s
           else case (y_plan y, ticket_of tid s) of
               (Some p, Some t) \<Rightarrow>
                 (if canceled \<notin> set (edges_of p (t_ident t)) then Inr s
                  else Inr (upd_story (y_ticket y) (\<lambda>y. y\<lparr>y_plan := Some (put_edge (t_ident t)
                         (inherited_edges (edges_of p (t_ident t)) canceled inherited) p)\<rparr>) s))
             | _ \<Rightarrow> Inl (ValueError ''approvedPlan'')))"

subsection \<open>Closing and abandoning\<close>

definition supersede_decisions :: "env \<Rightarrow> nat \<Rightarrow> string \<Rightarrow> store \<Rightarrow> store" where
  "supersede_decisions v sid operation s =
     s\<lparr>decisions := modify (\<lambda>d. d_story d = sid \<and> d_answer d = None)
         (\<lambda>d. d\<lparr>d_answer := Some ''superseded'', d_answered_by := Some operation,
                d_answered_at := Some (clock v)\<rparr>) (decisions s),
       proposals := modify (\<lambda>q. q_story q = sid \<and> q_state q = PS_PROPOSED)
         (\<lambda>q. q\<lparr>q_state := PS_SUPERSEDED, q_decided_by := Some operation,
                q_decided_at := Some (clock v)\<rparr>) (proposals s)\<rparr>"

definition unclaimed_child :: "nat \<Rightarrow> store \<Rightarrow> ticket_row \<Rightarrow> bool" where
  "unclaimed_child sid s t \<longleftrightarrow>
     t_id t \<in> set (children_ids sid s)
     \<and> t_status t \<noteq> TS_MERGED \<and> t_status t \<noteq> TS_ABANDONED
     \<and> t_column t \<noteq> Some BC_BACKLOG \<and> t_column t \<noteq> Some BC_CANCELED
     \<and> \<not> (\<exists>r \<in> set (runs s). r_ticket r = t_id t \<and> r_ended r = None)"

definition str_option :: "nat option \<Rightarrow> string" where
  "str_option n = (case n of None \<Rightarrow> ''None'' | Some k \<Rightarrow> str_nat k)"

definition backlog_one :: "env \<Rightarrow> string \<Rightarrow> string \<Rightarrow> nat \<Rightarrow> store \<Rightarrow> err + store" where
  "backlog_one v note author tid s =
     (let s = set_board_state tid (Some ''Backlog'') (Some BC_BACKLOG) s
      in bindE (record_board_fields v tid author s) (\<lambda>(revision, s).
           Inr (snd (record_note v tid ''move'' note (Some (''move:'' @ str_option revision))
                       author None s))))"

definition backlog_unclaimed :: "env \<Rightarrow> nat \<Rightarrow> string \<Rightarrow> string \<Rightarrow> store \<Rightarrow> err + store" where
  "backlog_unclaimed v sid note author s =
     foldE (backlog_one v note author) (sort (map t_id (filter (unclaimed_child sid s) (tickets s)))) s"

definition abandon_story :: "env \<Rightarrow> nat \<Rightarrow> string \<Rightarrow> string \<Rightarrow> store \<Rightarrow> err + store" where
  [op_defs]: "abandon_story v sid note author s =
     bindE (check_text [(''note'', note), (''author'', author)]) (\<lambda>_.
     bindE (story_state sid s) (\<lambda>state.
       if ended_story state then Inl (ValueError ''story has ended'')
       else
         (let s = upd_story sid (\<lambda>y. y\<lparr>y_state := SY_ABANDONED\<rparr>) s;
              s = supersede_decisions v sid ''abandon_story'' s
          in case ticket_of sid s of
              None \<Rightarrow> Inl (NoTicket sid)
            | Some t \<Rightarrow>
                bindE (if t_status t \<noteq> TS_MERGED \<and> t_status t \<noteq> TS_ABANDONED
                       then bindE (walk_ticket sid TS_ABANDONED s) (\<lambda>(_, s). Inr s)
                       else Inr s)
                  (backlog_unclaimed v sid note author))))"

definition close_story :: "env \<Rightarrow> nat \<Rightarrow> string \<Rightarrow> string \<Rightarrow> store \<Rightarrow> err + store" where
  [op_defs]: "close_story v sid sha note s =
     bindE (check_text [(''main_sha'', sha), (''note'', note)]) (\<lambda>_.
     bindE (story_state sid s) (\<lambda>state.
       if \<not> open_story state then Inl (ValueError ''story is not open'')
       else
         (let s = upd_story sid (\<lambda>y. y\<lparr>y_state := SY_CLOSED, y_closed_sha := Some sha,
                    y_closed_at := Some (clock v)\<rparr>) s;
              s = supersede_decisions v sid ''close_story'' s
          in bindE (walk_ticket sid TS_MERGED s) (\<lambda>(_, s).
               let s = snd (record_note v sid ''verdict'' note
                         (Some (''story-closed:'' @ str_nat sid @ '':'' @ sha)) ''factory'' None s)
               in backlog_unclaimed v sid (''story closed on its witnesses at '' @ sha)
                    ''factory'' s))))"

subsection \<open>Stories are safe\<close>

lemma story_step_safe:
  assumes "spec_step (spec_of s) (set_story sid st (spec_of s))"
    and "\<And>y. y_ticket y = sid \<Longrightarrow> y_ticket (f y) = sid \<and> y_state (f y) = st"
  shows "safe s (upd_story sid f s)"
proof (rule safe_step)
  have "map (\<lambda>y. (y_ticket y, y_state y)) (modify (\<lambda>y. y_ticket y = sid) f ys) =
      modify (\<lambda>y. fst y = sid) (\<lambda>y. (fst y, st)) (map (\<lambda>y. (y_ticket y, y_state y)) ys)" for ys
    by (induction ys) (auto simp: assms(2))
  then have "spec_of (upd_story sid f s) = set_story sid st (spec_of s)"
    by (simp add: spec_of_def upd_story_def)
  with assms(1) show "spec_step (spec_of s) (spec_of (upd_story sid f s))" by simp
qed (simp add: appends_def upd_story_def, simp)

lemma story_state_Inr: "story_state sid s = Inr st \<longleftrightarrow> (\<exists>y. story_of sid s = Some y \<and> y_state y = st)"
  by (auto simp: story_state_def split: option.splits)

lemma spec_story: "story_state sid s = Inr st \<Longrightarrow> fetch fst sid (spec_stories (spec_of s)) = Some (sid, st)"
  by (auto simp: story_state_Inr spec_of_def fetch_story_core dest: fetch_SomeD)

lemma story_moves_safe:
  assumes "story_state sid s = Inr st" and "story_move st st'"
    and "\<And>y. y_ticket y = sid \<Longrightarrow> y_ticket (f y) = sid \<and> y_state (f y) = st'"
  shows "safe s (upd_story sid f s)"
  by (rule story_step_safe [OF spec_step.story_moves [OF spec_story [OF assms(1)] assms(2)] assms(3)])

lemma insert_plan_safe [simp]: "safe s (insert_plan v parent ws children completed s)"
  by (rule safe_same) (simp_all add: insert_plan_def Let_def map_modify ticket_core_def)

lemma file_story_safe:
  assumes "file_story v parent ws children orders paths s = Inr s'"
  shows "safe s s'"
proof -
  obtain completed paths' where check: "check_tickets parent (map fst children) s = Inr ()"
    and s': "s' = insert_plan v parent ws children completed
      (s\<lparr>stories := stories s @ [new_story parent orders paths']\<rparr>)"
    using assms by (auto simp: file_story_def)
  have "ticket_of parent s \<noteq> None" "story_of parent s = None"
    using check by (auto simp: check_tickets_def has_story_def split: if_split_asm)
  then have "safe s (s\<lparr>stories := stories s @ [new_story parent orders paths']\<rparr>)"
    using spec_step.story_new [of parent "spec_of s"]
    by (intro safe_step)
      (auto simp: appends_def spec_of_def fetch_story_core fetch_ticket_core new_story_def)
  then show ?thesis unfolding s' by (rule safe_trans) simp
qed

lemma record_plan_revision_safe [simp]: "safe s (record_plan_revision v tid s)"
  by (rule safe_same)
    (auto simp: record_plan_revision_def Let_def upd_ticket_def map_modify ticket_core_def split: option.split)

lemma replanned_safe: "safe s (upd_story parent (replanned_row orders paths) s)"
proof (rule safe_step)
  have "map (\<lambda>y. (y_ticket y, y_state y)) (modify (\<lambda>y. y_ticket y = parent) (replanned_row orders paths) ys) =
      modify (\<lambda>y. fst y = parent \<and> open_story (snd y)) (\<lambda>y. (fst y, SY_PLANNED))
        (map (\<lambda>y. (y_ticket y, y_state y)) ys)" for ys
    by (induction ys) (auto simp: replanned_row_def)
  then show "spec_step (spec_of s) (spec_of (upd_story parent (replanned_row orders paths) s))"
    using spec_step.story_replan [of "spec_of s" parent] by (simp add: spec_of_def upd_story_def)
qed (simp add: appends_def upd_story_def, simp)

lemma replan_story_safe:
  assumes "replan_story v parent ws children orders body_revised paths s = Inr (st, s')"
  shows "safe s s'"
proof -
  let ?bare = "s\<lparr>story_children := filter (\<lambda>c. ch_story c \<noteq> parent) (story_children s),
           story_witnesses := filter (\<lambda>w. w_story w \<noteq> parent) (story_witnesses s)\<rparr>"
  obtain completed paths' where
    s': "s' = (let u = upd_story parent (replanned_row orders paths') (insert_plan v parent ws children completed ?bare)
      in if body_revised then u else record_plan_revision v parent u)"
    using assms by (auto simp: replan_story_def Let_def split: if_split_asm)
  have "safe s ?bare" by (rule safe_same) simp_all
  then have "safe s (upd_story parent (replanned_row orders paths') (insert_plan v parent ws children completed ?bare))"
    using replanned_safe insert_plan_safe by (meson safe_trans)
  then show ?thesis unfolding s' Let_def by (auto intro: safe_trans)
qed

lemma approve_story_cases:
  assumes "approve_story v parent revision author note s = Inr (i, s')"
  obtains t u where "story_state parent s = Inr SY_PLANNED" "ticket_of parent s = Some t"
    "t_revision t = revision" "\<not> other_open_story (t_project t) parent s"
    "u = upd_story parent (\<lambda>y. y\<lparr>y_state := SY_APPROVED,
                           y_approved_rev := Some revision, y_plan := Some (plan_of parent s),
                           y_approved_by := Some author, y_approved_at := Some (clock v)\<rparr>) s"
    "record_project_intervention v IA_APPROVE_STORY note IS_HUMAN IT_MANUAL (Some (t_project t)) None u = Inr (i, s')"
  using assms
  by (auto simp: approve_story_def Let_def split: if_split_asm option.split_asm)

lemma approve_story_safe:
  assumes "approve_story v parent revision author note s = Inr (i, s')"
  shows "safe s s'"
  using assms
proof (rule approve_story_cases)
  fix t u
  assume st: "story_state parent s = Inr SY_PLANNED" and t: "ticket_of parent s = Some t"
    and other: "\<not> other_open_story (t_project t) parent s"
    and u: "u = upd_story parent (\<lambda>y. y\<lparr>y_state := SY_APPROVED,
                           y_approved_rev := Some revision, y_plan := Some (plan_of parent s),
                           y_approved_by := Some author, y_approved_at := Some (clock v)\<rparr>) s"
    and i: "record_project_intervention v IA_APPROVE_STORY note IS_HUMAN IT_MANUAL (Some (t_project t)) None u = Inr (i, s')"
  have "safe s u" unfolding u
  proof (rule story_step_safe [OF spec_step.story_approve [OF spec_story [OF st]]])
    show "fetch x_id parent (spec_tickets (spec_of s)) = Some (ticket_core t)"
      using t by (simp add: spec_of_def fetch_ticket_core)
    show "\<not> (\<exists>y \<in> set (spec_stories (spec_of s)). fst y \<noteq> parent \<and> open_story (snd y) \<and>
         (\<exists>z \<in> set (spec_tickets (spec_of s)). x_id z = fst y \<and> x_project z = x_project (ticket_core t)))"
      using other by (auto simp: other_open_story_def spec_of_def ticket_core_def)
  qed simp
  then show "safe s s'" using record_project_intervention_safe [OF i] by (rule safe_trans)
qed

lemma advance_story_safe:
  assumes "advance_story v rid s = Inr (g, s')"
  shows "safe s s'"
proof -
  have u: "safe s (upd_story k (\<lambda>y. y\<lparr>y_generation := Suc (y_generation y)\<rparr>) s)" for k
    by (rule upd_story_safe) simp
  show ?thesis
    using assms
    by (auto simp: advance_story_def Let_def intro: u safe_trans [OF u log_event_safe]
        split: if_split_asm option.split_asm)
qed

lemma park_story_safe:
  assumes "park_story v sid kind q opts dflt tid s = Inr (i, s')"
  shows "safe s s'"
proof -
  obtain state row where state: "story_state sid s = Inr state" "open_story state"
    and s': "s' = (upd_story sid (\<lambda>y. y\<lparr>y_state := SY_PARKED\<rparr>) s)\<lparr>decisions := decisions s @ [row]\<rparr>"
    and new: "d_id row = next_id d_id (decisions s)" "d_answer row = None"
    using assms by (auto simp: park_story_def Let_def upd_story_def split: if_split_asm)
  have "safe s (upd_story sid (\<lambda>y. y\<lparr>y_state := SY_PARKED\<rparr>) s)"
    by (rule story_moves_safe [OF state(1)]) (use state(2) in \<open>auto simp: open_story_def\<close>)
  moreover have "desk_safe (upd_story sid (\<lambda>y. y\<lparr>y_state := SY_PARKED\<rparr>) s) s'"
    using new by (simp add: s' desk_safe_def upd_story_def row_run_arrive decision_grows_def)
  ultimately show ?thesis
    by (elim safe_trans) (intro safe_desk, simp_all add: s')
qed

lemma answered_safe:
  "safe s (upd_story k (\<lambda>y. if y_state y = SY_PARKED then y\<lparr>y_state := SY_APPROVED\<rparr> else y) s)" (is "safe s ?t")
proof (rule safe_step)
  have "map (\<lambda>y. (y_ticket y, y_state y)) (modify (\<lambda>y. y_ticket y = k)
        (\<lambda>y. if y_state y = SY_PARKED then y\<lparr>y_state := SY_APPROVED\<rparr> else y) ys) =
      modify (\<lambda>y. fst y = k \<and> snd y = SY_PARKED) (\<lambda>y. (fst y, SY_APPROVED))
        (map (\<lambda>y. (y_ticket y, y_state y)) ys)" for ys :: "story_row list"
    by (induction ys) auto
  then show "spec_step (spec_of s) (spec_of ?t)"
    using spec_step.story_answer [of "spec_of s" k] by (simp add: spec_of_def upd_story_def)
qed (simp add: appends_def upd_story_def, simp)

lemma answer_decision_cases:
  assumes "answer_decision v did answer author note s = Inr (st, s')"
  obtains d state t i u where "fetch d_id did (decisions s) = Some d"
    "story_state (d_story d) s = Inr state" "\<not> ended_story state" "d_answer d = None"
    "answer \<in> set (d_options d)" "ticket_of (d_story d) s = Some t"
    "record_project_intervention v IA_DECIDE note IS_HUMAN IT_MANUAL (Some (t_project t)) None
       (s\<lparr>decisions := modify (\<lambda>d. d_id d = did)
          (\<lambda>d. d\<lparr>d_answer := Some answer, d_answered_by := Some author,
                 d_answered_at := Some (clock v)\<rparr>) (decisions s)\<rparr>) = Inr (i, u)"
    "s' = (if open_decisions (d_story d) u = []
           then upd_story (d_story d) (\<lambda>y. if y_state y = SY_PARKED
                                        then y\<lparr>y_state := SY_APPROVED\<rparr> else y) u
           else u)" "story_state (d_story d) s' = Inr st"
  using assms
  by (auto simp: answer_decision_def Let_def split: if_split_asm option.split_asm)

lemma answer_decision_safe:
  assumes "answer_decision v did answer author note s = Inr (st, s')"
  shows "safe s s'"
  using assms
proof (rule answer_decision_cases)
  fix d :: decision_row and state t i u
  assume i: "record_project_intervention v IA_DECIDE note IS_HUMAN IT_MANUAL (Some (t_project t)) None
       (s\<lparr>decisions := modify (\<lambda>d. d_id d = did)
          (\<lambda>d. d\<lparr>d_answer := Some answer, d_answered_by := Some author,
                 d_answered_at := Some (clock v)\<rparr>) (decisions s)\<rparr>) = Inr (i, u)"
    and s': "s' = (if open_decisions (d_story d) u = []
           then upd_story (d_story d) (\<lambda>y. if y_state y = SY_PARKED
                                        then y\<lparr>y_state := SY_APPROVED\<rparr> else y) u
           else u)"
  assume open': "fetch d_id did (decisions s) = Some d" "d_answer d = None"
  have "safe s (s\<lparr>decisions := modify (\<lambda>d. d_id d = did)
          (\<lambda>d. d\<lparr>d_answer := Some answer, d_answered_by := Some author,
                 d_answered_at := Some (clock v)\<rparr>) (decisions s)\<rparr>)"
    by (rule safe_desk)
      (use open' in \<open>auto simp: desk_safe_def decision_moves_def intro!: row_run_fetched [OF _ open'(1)]\<close>)
  then have "safe s u" using record_project_intervention_safe [OF i] by (rule safe_trans)
  then show "safe s s'" unfolding s' by (auto intro: safe_trans answered_safe)
qed

lemma witness_safe:
  "record_witness_result v sid key sha vd vf red fh ev sec car s = Inr (i, s') \<Longrightarrow> safe s s'"
  "accept_witness v sid key source s = Inr s'' \<Longrightarrow> safe s s''"
  by (rule safe_same; auto simp: record_witness_result_def accept_witness_def Let_def
      split: if_split_asm option.split_asm)+

lemma upd_plan_safe [simp]: "safe s (upd_story k (\<lambda>y. y\<lparr>y_plan := p\<rparr>) s)"
  by (rule upd_story_safe) simp

lemma edges_safe:
  "reapprove_edges sid tid s = Inr s' \<Longrightarrow> safe s s'"
  "rewire_approved_edge tid canceled inherited s = Inr s'' \<Longrightarrow> safe s s''"
  by (auto simp: reapprove_edges_def rewire_approved_edge_def split: if_split_asm option.split_asm)

lemma backlog_unclaimed_safe: "backlog_unclaimed v sid note author s = Inr s' \<Longrightarrow> safe s s'"
  unfolding backlog_unclaimed_def
proof (erule safe_foldE)
  fix tid u w
  assume "backlog_one v note author tid u = Inr w"
  then obtain r x where x: "record_board_fields v tid author
        (set_board_state tid (Some ''Backlog'') (Some BC_BACKLOG) u) = Inr (r, x)"
    and w: "w = snd (record_note v tid ''move'' note (Some (''move:'' @ str_option r)) author None x)"
    by (auto simp: backlog_one_def Let_def)
  have "safe u (set_board_state tid (Some ''Backlog'') (Some BC_BACKLOG) u)" by simp
  then show "safe u w" using record_board_fields_safe [OF x] record_note_safe unfolding w by (meson safe_trans)
qed

lemma supersede_decisions_safe [simp]: "safe s (supersede_decisions v sid operation s)"
proof (rule safe_desk)
  show "desk_safe s (supersede_decisions v sid operation s)"
    by (simp add: desk_safe_def supersede_decisions_def)
      (intro conjI row_run_change; simp add: decision_moves_def proposal_moves_def)
qed (simp_all add: supersede_decisions_def)

lemma supersede_frame [simp]:
  "tickets (supersede_decisions v sid operation s) = tickets s"
  "stories (supersede_decisions v sid operation s) = stories s"
  by (simp_all add: supersede_decisions_def)

lemma abandon_story_safe:
  assumes "abandon_story v sid note author s = Inr s'"
  shows "safe s s'"
proof -
  let ?u = "supersede_decisions v sid ''abandon_story'' (upd_story sid (\<lambda>y. y\<lparr>y_state := SY_ABANDONED\<rparr>) s)"
  obtain state w where state: "story_state sid s = Inr state" "\<not> ended_story state"
    and w: "w = ?u \<or> (\<exists>path. walk_ticket sid TS_ABANDONED ?u = Inr (path, w))"
    and s': "backlog_unclaimed v sid note author w = Inr s'"
    using assms
    by (fastforce simp: abandon_story_def Let_def split: if_split_asm option.split_asm)
  have "story_move state SY_ABANDONED" using state(2) by (cases state) (auto simp: ended_story_def)
  then have "safe s (upd_story sid (\<lambda>y. y\<lparr>y_state := SY_ABANDONED\<rparr>) s)"
    by (rule story_moves_safe [OF state(1)]) simp
  then have "safe s ?u" by (rule safe_trans) simp
  moreover have "safe ?u w" using w walk_ticket_safe by auto
  ultimately show ?thesis using backlog_unclaimed_safe [OF s'] by (meson safe_trans)
qed

lemma close_story_cases:
  assumes "close_story v sid sha note s = Inr s'"
  obtains state u path w where "story_state sid s = Inr state" "open_story state"
    "u = supersede_decisions v sid ''close_story'' (upd_story sid (\<lambda>y. y\<lparr>y_state := SY_CLOSED,
         y_closed_sha := Some sha, y_closed_at := Some (clock v)\<rparr>) s)"
    "walk_ticket sid TS_MERGED u = Inr (path, w)"
    "backlog_unclaimed v sid (''story closed on its witnesses at '' @ sha) ''factory''
       (snd (record_note v sid ''verdict'' note (Some (''story-closed:'' @ str_nat sid @ '':'' @ sha))
          ''factory'' None w)) = Inr s'"
  using assms by (auto simp: close_story_def Let_def split: if_split_asm)

lemma close_story_safe:
  assumes "close_story v sid sha note s = Inr s'"
  shows "safe s s'"
  using assms
proof (rule close_story_cases)
  fix state u path w
  assume state: "story_state sid s = Inr state" "open_story state"
    and u: "u = supersede_decisions v sid ''close_story'' (upd_story sid (\<lambda>y. y\<lparr>y_state := SY_CLOSED,
         y_closed_sha := Some sha, y_closed_at := Some (clock v)\<rparr>) s)"
    and w: "walk_ticket sid TS_MERGED u = Inr (path, w)"
    and s': "backlog_unclaimed v sid (''story closed on its witnesses at '' @ sha) ''factory''
       (snd (record_note v sid ''verdict'' note (Some (''story-closed:'' @ str_nat sid @ '':'' @ sha))
          ''factory'' None w)) = Inr s'"
  have "story_move state SY_CLOSED" using state(2) by (auto simp: open_story_def)
  then have "safe s (upd_story sid (\<lambda>y. y\<lparr>y_state := SY_CLOSED,
         y_closed_sha := Some sha, y_closed_at := Some (clock v)\<rparr>) s)"
    by (rule story_moves_safe [OF state(1)]) simp
  then have "safe s u" unfolding u by (rule safe_trans) simp
  then show "safe s s'"
    using walk_ticket_safe [OF w] backlog_unclaimed_safe [OF s'] record_note_safe by (meson safe_trans)
qed

subsection \<open>Inherited edges\<close>

lemma set_add_new: "set (add_new r es) = set r \<union> set es"
  by (induction r es rule: add_new.induct) auto

lemma distinct_add_new: "distinct r \<Longrightarrow> distinct (add_new r es)"
  by (induction r es rule: add_new.induct) auto

lemma inherit_edges_facts:
  "set (inherit_edges r deps c inh) =
     set r \<union> (set deps - {c}) \<union> (if c \<in> set deps then set inh else {})"
  "distinct r \<Longrightarrow> distinct (inherit_edges r deps c inh)"
  by (induction r deps c inh rule: inherit_edges.induct) (auto simp: set_add_new distinct_add_new)

lemma inherited_edges_facts:
  "set (inherited_edges deps c inh) = (set deps - {c}) \<union> (if c \<in> set deps then set inh else {})"
  "distinct (inherited_edges deps c inh)"
  by (auto simp: inherited_edges_def inherit_edges_facts)

subsection \<open>A parked story has an open decision\<close>

definition parked_inv :: "store \<Rightarrow> bool" where
  "parked_inv s \<longleftrightarrow> (\<forall>y \<in> set (stories s). y_state y = SY_PARKED \<longrightarrow> open_decisions (y_ticket y) s \<noteq> [])"

text \<open>The answer that leaves no decision open approves the story, any other leaves it parked.\<close>

lemma answer_decision_result:
  assumes ok: "answer_decision v did answer author note s = Inr (st, s')"
    and d: "fetch d_id did (decisions s) = Some d" and y: "story_of (d_story d) s = Some y"
    and keys: "keyed d_id (decisions s)"
  shows "st = (if y_state y = SY_PARKED \<and> filter (\<lambda>q. d_id q \<noteq> did) (open_decisions (d_story d) s) = []
      then SY_APPROVED else y_state y)
    \<and> answer \<in> set (d_options d) \<and> d_answer d = None
    \<and> map_option d_answer (fetch d_id did (decisions s')) = Some (Some answer)"
  using ok
proof (rule answer_decision_cases)
  let ?f = "\<lambda>d. d\<lparr>d_answer := Some answer, d_answered_by := Some author, d_answered_at := Some (clock v)\<rparr>"
  let ?w = "s\<lparr>decisions := modify (\<lambda>d. d_id d = did) ?f (decisions s)\<rparr>"
  fix d' state t i u
  assume d': "fetch d_id did (decisions s) = Some d'" and open_d: "d_answer d' = None" "answer \<in> set (d_options d')"
    and i: "record_project_intervention v IA_DECIDE note IS_HUMAN IT_MANUAL (Some (t_project t)) None ?w = Inr (i, u)"
    and s': "s' = (if open_decisions (d_story d') u = []
           then upd_story (d_story d') (\<lambda>y. if y_state y = SY_PARKED
                                        then y\<lparr>y_state := SY_APPROVED\<rparr> else y) u
           else u)" and st: "story_state (d_story d') s' = Inr st"
  have same: "d' = d" using d d' by simp
  have du: "decisions u = decisions ?w" and su: "stories u = stories s"
    using i by (auto simp: record_project_intervention_def insert_intervention_def Let_def split: if_split_asm option.split_asm)
  have "open_decisions k u = filter (\<lambda>q. d_id q \<noteq> did) (open_decisions k s)" for k
  proof -
    have "filter (\<lambda>d. d_story d = k \<and> d_answer d = None) (modify (\<lambda>d. d_id d = did) ?f ds) =
        filter (\<lambda>q. d_id q \<noteq> did) (filter (\<lambda>d. d_story d = k \<and> d_answer d = None) ds)" for ds
      by (induction ds) auto
    then show ?thesis by (simp add: open_decisions_def du)
  qed
  moreover have "fetch d_id did (decisions s') = Some (?f d)"
    using d s' du by (simp add: upd_story_def fetch_modify_key split: if_splits)
  moreover have "y_ticket y = d_story d" using y by (auto dest: fetch_SomeD)
  ultimately show ?thesis
    using st y su open_d unfolding s' same
    by (auto simp: story_state_Inr upd_story_def fetch_modify split: if_splits)
qed

end
