(* ===== verification/Frontier.thy ===== *)
theory Frontier
  imports Stories
begin

section \<open>Frontier: what may be claimed\<close>

text \<open>
  \<open>claimable\<close> of \<^verbatim>\<open>store/read.py\<close> and the gates of \<^verbatim>\<open>store/stories.py\<close> on a story's
  child: \<open>downstream\<close> (the children that reach a child along the approved edges),
  \<open>cap_refusal\<close> and \<open>frontier_refusal\<close>, whose refusals are a datatype instead of the
  texts they are printed as.

  The lemmas: \<open>downstream\<close> returns exactly the children reachable along the edges; a ticket
  on the frontier is pickable, its story is open and its approved dependencies are merged.
\<close>

subsection \<open>Claimable tickets\<close>

datatype claim_order = ByIdentifier | ByPriority

definition claim_rank :: "claim_order \<Rightarrow> ticket_row \<Rightarrow> int \<times> string" where
  "claim_rank order t =
     (case order of
        ByIdentifier \<Rightarrow> (0, t_ident t)
      | ByPriority \<Rightarrow>
          ((case t_priority t of
              None \<Rightarrow> 5
            | Some p \<Rightarrow> if 1 \<le> p \<and> p \<le> 4 then p else 5), t_ident t))"

definition offered :: "nat \<Rightarrow> ticket_row \<Rightarrow> bool" where
  "offered pid t \<longleftrightarrow>
     t_project t = pid \<and> t_status t = TS_READY \<and> t_active t = None
     \<and> t_column t = Some BC_READY \<and> t_gone t = None"

definition claimable :: "nat \<Rightarrow> claim_order \<Rightarrow> store \<Rightarrow> ticket_row list" where
  "claimable pid order s =
     (let verdicts = map_of (rev (pickable_tickets pid s))
      in filter (\<lambda>t. verdicts (t_ident t) = Some Pickable)
           (sort_key (claim_rank order) (filter (offered pid) (tickets s))))"

subsection \<open>Downstream children\<close>

type_synonym edge_list = "(string \<times> string list) list"

text \<open>One sweep of the \<^verbatim>\<open>while grew\<close> loop: the set of reached children grows as it goes.\<close>

definition reaches :: "(string \<Rightarrow> string option) \<Rightarrow> string list \<Rightarrow> string list \<Rightarrow> bool" where
  "reaches name_of deps reached \<longleftrightarrow>
     list_ex (\<lambda>dep. case name_of dep of None \<Rightarrow> False | Some n \<Rightarrow> n \<in> set reached) deps"

fun sweep :: "(string \<Rightarrow> string option) \<Rightarrow> edge_list \<Rightarrow> string list \<Rightarrow> string list" where
  "sweep name_of [] reached = reached"
| "sweep name_of ((child, deps) # edges) reached =
     sweep name_of edges
       (if child \<notin> set reached \<and> reaches name_of deps reached then child # reached else reached)"

lemma sweep_grows: "set reached \<subseteq> set (sweep name_of edges reached)"
  by (induction name_of edges reached rule: sweep.induct) (auto split: if_splits)

lemma sweep_within: "set (sweep name_of edges reached) \<subseteq> set reached \<union> fst ` set edges"
  by (induction name_of edges reached rule: sweep.induct) (auto split: if_splits)

lemma sweep_length: "length reached \<le> length (sweep name_of edges reached)"
  by (induction name_of edges reached rule: sweep.induct) (auto split: if_splits intro: Suc_leD)

lemma sweep_new: "set (sweep name_of edges reached) = set reached \<Longrightarrow> sweep name_of edges reached = reached"
proof (induction name_of edges reached rule: sweep.induct)
  case (2 name_of child deps edges reached)
  show ?case
  proof (cases "child \<notin> set reached \<and> reaches name_of deps reached")
    case True
    then have "child \<in> set (sweep name_of ((child, deps) # edges) reached)"
      using sweep_grows [of "child # reached" name_of edges] by auto
    with True 2(2) show ?thesis by simp
  next
    case False
    then have "sweep name_of ((child, deps) # edges) reached = sweep name_of edges reached" by auto
    with 2 False show ?thesis by simp
  qed
qed simp

function sweeps :: "(string \<Rightarrow> string option) \<Rightarrow> edge_list \<Rightarrow> string list \<Rightarrow> string list" where
  "sweeps name_of edges reached =
     (let next = sweep name_of edges reached in
      if next = reached then reached else sweeps name_of edges next)"
  by pat_completeness auto
termination
proof (relation "measure (\<lambda>(n, edges, reached). card (fst ` set edges - set reached))", simp)
  fix name_of :: "string \<Rightarrow> string option" and edges :: edge_list and reached "next" :: "string list"
  assume n: "next = sweep name_of edges reached" and ne: "next \<noteq> reached"
  have "set reached \<subset> set next"
    using sweep_grows [of reached name_of edges] sweep_new [of name_of edges reached] n ne by auto
  then have "fst ` set edges - set next \<subset> fst ` set edges - set reached"
    using sweep_within [of name_of edges reached] n by auto
  then have "card (fst ` set edges - set next) < card (fst ` set edges - set reached)"
    by (intro psubset_card_mono) auto
  then show "((name_of, edges, next), name_of, edges, reached)
      \<in> measure (\<lambda>(n, edges, reached). card (fst ` set edges - set reached))" by simp
qed

declare sweeps.simps [simp del]

definition issue_ident :: "ticket_row list \<Rightarrow> string \<Rightarrow> string option" where
  "issue_ident children dep = map_option t_ident (find (\<lambda>t. t_issue t = dep) children)"

definition downstream :: "ticket_row list \<Rightarrow> edge_list \<Rightarrow> string \<Rightarrow> string list" where
  "downstream children edges name = sweeps (issue_ident children) edges [name]"

subsection \<open>Refusals\<close>

datatype refusal =
    StoryNotOpen story_state
  | Drifted "string list" "string list"
  | OnDecision nat decision_kind "string option"
  | WaitsOn "string list"
  | AtCap nat

definition in_flight_siblings :: "nat \<Rightarrow> nat \<Rightarrow> store \<Rightarrow> nat" where
  "in_flight_siblings sid tid s =
     length (remdups (map r_ticket (filter
       (\<lambda>r. r_ended r = None \<and> r_ticket r \<noteq> tid \<and> r_ticket r \<in> set (children_ids sid s))
       (runs s))))"

definition cap_refusal :: "nat \<Rightarrow> nat \<Rightarrow> store \<Rightarrow> nat option" where
  "cap_refusal tid cap s =
     (case child_row_of tid s of
        None \<Rightarrow> None
      | Some c \<Rightarrow>
          (let n = in_flight_siblings (ch_story c) tid s
           in if n < cap then None else Some n))"

definition project_issue :: "nat \<Rightarrow> store \<Rightarrow> string \<Rightarrow> ticket_row option" where
  "project_issue sid s dep =
     (case ticket_of sid s of
        None \<Rightarrow> None
      | Some p \<Rightarrow> find (\<lambda>t. t_issue t = dep \<and> t_project t = t_project p) (tickets s))"

definition issue_merged :: "nat \<Rightarrow> store \<Rightarrow> string \<Rightarrow> bool" where
  "issue_merged sid s dep \<longleftrightarrow>
     (case project_issue sid s dep of None \<Rightarrow> False | Some t \<Rightarrow> t_status t = TS_MERGED)"

definition blocks :: "ticket_row list \<Rightarrow> edge_list \<Rightarrow> string \<Rightarrow> decision_row \<Rightarrow> bool" where
  "blocks children edges name d \<longleftrightarrow>
     (case d_ticket d of
        None \<Rightarrow> True
      | Some k \<Rightarrow>
          (let about = (case find (\<lambda>t. t_id t = k) children of
                 None \<Rightarrow> ''the whole story'' | Some t \<Rightarrow> t_ident t)
           in name \<in> set (downstream children edges about)))"

definition frontier_refusal :: "story_row \<Rightarrow> nat \<Rightarrow> nat \<Rightarrow> store \<Rightarrow> err + refusal option" where
  "frontier_refusal y tid cap s =
     (let sid = y_ticket y; children = child_tickets sid s in
      if \<not> open_story (y_state y) then Inr (Some (StoryNotOpen (y_state y)))
      else case (y_plan y, find (\<lambda>t. t_id t = tid) children) of
          (Some p, Some t) \<Rightarrow>
            (let approved = edges_of p (t_ident t); depends = t_depends t;
                 missing = filter (\<lambda>dep. \<not> issue_merged sid s dep \<and> dep \<notin> set depends) approved;
                 extra = filter (\<lambda>dep. dep \<notin> set approved) depends;
                 ds = open_decisions sid s
             in if (missing \<noteq> [] \<or> extra \<noteq> []) \<and>
                   \<not> list_ex (\<lambda>d. d_kind d = DK_PLAN_DRIFT \<and> d_ticket d = Some tid) ds
                then Inr (Some (Drifted missing extra))
                else case find (blocks children (pl_edges p) (t_ident t)) ds of
                    Some d \<Rightarrow> Inr (Some (OnDecision (d_id d) (d_kind d)
                      (case d_ticket d of None \<Rightarrow> None
                       | Some k \<Rightarrow> map_option t_ident (find (\<lambda>t. t_id t = k) children))))
                  | None \<Rightarrow>
                      (let waiting = filter (\<lambda>dep. \<not> issue_merged sid s dep) approved
                       in if waiting \<noteq> [] then Inr (Some (WaitsOn waiting))
                          else Inr (map_option AtCap (cap_refusal tid cap s))))
        | _ \<Rightarrow> Inl (ValueError ''approvedPlan''))"

fun keep_unrefused :: "story_row \<Rightarrow> nat \<Rightarrow> store \<Rightarrow> ticket_row list \<Rightarrow> err + string list" where
  "keep_unrefused y cap s [] = Inr []"
| "keep_unrefused y cap s (t # ts) =
     bindE (frontier_refusal y (t_id t) cap s) (\<lambda>refused.
     bindE (keep_unrefused y cap s ts) (\<lambda>rest.
       Inr (if refused = None then t_ident t # rest else rest)))"

definition story_frontier :: "nat \<Rightarrow> nat \<Rightarrow> store \<Rightarrow> err + string list" where
  "story_frontier tid cap s =
     (case story_row tid s of
        None \<Rightarrow> Inr []
      | Some y \<Rightarrow>
          (case ticket_of (y_ticket y) s of
             None \<Rightarrow> Inl (NoTicket (y_ticket y))
           | Some p \<Rightarrow>
               keep_unrefused y cap s
                 (filter (\<lambda>t. t_id t \<in> set (children_ids (y_ticket y) s))
                   (claimable (t_project p) ByIdentifier s))))"

subsection \<open>Downstream is reachability\<close>

text \<open>\<open>b\<close> waits on \<open>a\<close>: \<open>b\<close> has an approved edge to the issue of the child \<open>a\<close>.\<close>

inductive waits_on :: "(string \<Rightarrow> string option) \<Rightarrow> edge_list \<Rightarrow> string \<Rightarrow> string \<Rightarrow> bool"
  for name_of edges name where
  here: "waits_on name_of edges name name"
| there: "waits_on name_of edges name a \<Longrightarrow> (b, deps) \<in> set edges \<Longrightarrow> dep \<in> set deps \<Longrightarrow>
    name_of dep = Some a \<Longrightarrow> waits_on name_of edges name b"

lemma sweep_sound:
  assumes "\<And>x. x \<in> set reached \<Longrightarrow> waits_on name_of all name x" and "set edges \<subseteq> set all"
    and "x \<in> set (sweep name_of edges reached)"
  shows "waits_on name_of all name x"
  using assms
proof (induction name_of edges reached rule: sweep.induct)
  case (2 name_of child deps edges reached)
  have "waits_on name_of all name child" if "reaches name_of deps reached"
    using that 2(2) [THEN there, of _ child deps] 2(3)
    by (auto simp: reaches_def list_ex_iff split: option.splits)
  with 2 show ?case by (auto split: if_split_asm)
qed simp

lemma sweep_closed:
  assumes "sweep name_of edges reached = reached" and "(b, deps) \<in> set edges"
    and "reaches name_of deps reached"
  shows "b \<in> set reached"
  using assms
proof (induction name_of edges reached rule: sweep.induct)
  case (2 name_of child ds edges reached)
  show ?case
  proof (cases "child \<notin> set reached \<and> reaches name_of ds reached")
    case True
    with 2(2) sweep_length [of "child # reached" name_of edges] show ?thesis by auto
  next
    case False
    with 2 show ?thesis by auto
  qed
qed simp

lemma sweeps_sound:
  "(\<And>x. x \<in> set reached \<Longrightarrow> waits_on name_of edges name x) \<Longrightarrow>
   x \<in> set (sweeps name_of edges reached) \<Longrightarrow> waits_on name_of edges name x"
proof (induction name_of edges reached rule: sweeps.induct)
  case (1 name_of edges reached)
  show ?case
  proof (cases "sweep name_of edges reached = reached")
    case True
    with 1(2,3) show ?thesis by (simp add: sweeps.simps [of name_of edges reached])
  next
    case False
    with 1(3) have "x \<in> set (sweeps name_of edges (sweep name_of edges reached))"
      by (simp add: sweeps.simps [of name_of edges reached])
    with 1(1) [OF refl False] 1(2) sweep_sound show ?thesis by blast
  qed
qed

lemma sweeps_fixed: "sweep name_of edges (sweeps name_of edges reached) = sweeps name_of edges reached"
proof (induction name_of edges reached rule: sweeps.induct)
  case (1 name_of edges reached)
  then show ?case
    by (cases "sweep name_of edges reached = reached") (simp_all add: sweeps.simps [of name_of edges reached])
qed

lemma sweeps_grows: "set reached \<subseteq> set (sweeps name_of edges reached)"
proof (induction name_of edges reached rule: sweeps.induct)
  case (1 name_of edges reached)
  then show ?case
    using sweep_grows [of reached name_of edges]
    by (cases "sweep name_of edges reached = reached") (auto simp: sweeps.simps [of name_of edges reached])
qed

lemma downstream_iff:
  "x \<in> set (downstream children edges name) \<longleftrightarrow> waits_on (issue_ident children) edges name x"
proof
  assume "x \<in> set (downstream children edges name)"
  then show "waits_on (issue_ident children) edges name x"
    unfolding downstream_def by (rule sweeps_sound [rotated]) (auto intro: here)
next
  assume "waits_on (issue_ident children) edges name x"
  then show "x \<in> set (downstream children edges name)"
  proof (induction rule: waits_on.induct)
    case here
    then show ?case using sweeps_grows [of "[name]"] by (auto simp: downstream_def)
  next
    case (there a b deps dep)
    have "reaches (issue_ident children) deps (downstream children edges name)"
      unfolding reaches_def list_ex_iff by (rule bexI [OF _ there(3)]) (simp add: there)
    with there(2) show ?case
      using sweep_closed [OF sweeps_fixed] by (auto simp: downstream_def)
  qed
qed

subsection \<open>The frontier\<close>

lemma keep_unrefused_member:
  "keep_unrefused y cap s ts = Inr names \<Longrightarrow> n \<in> set names \<Longrightarrow>
   \<exists>t \<in> set ts. t_ident t = n \<and> frontier_refusal y (t_id t) cap s = Inr None"
  by (induction ts arbitrary: names) (auto split: if_split_asm)

text \<open>What \<^verbatim>\<open>None\<close> of \<^verbatim>\<open>_frontier_refusal\<close> says.\<close>

lemma frontier_refusal_None:
  assumes "frontier_refusal y tid cap s = Inr None"
  obtains p t where "open_story (y_state y)" "y_plan y = Some p"
    "t \<in> set (child_tickets (y_ticket y) s)" "t_id t = tid"
    "\<forall>dep \<in> set (edges_of p (t_ident t)). issue_merged (y_ticket y) s dep"
    "\<forall>d \<in> set (open_decisions (y_ticket y) s).
       \<not> blocks (child_tickets (y_ticket y) s) (pl_edges p) (t_ident t) d"
    "cap_refusal tid cap s = None"
proof -
  obtain p t where p: "y_plan y = Some p" and
    t: "find (\<lambda>t. t_id t = tid) (child_tickets (y_ticket y) s) = Some t"
    using assms by (auto simp: frontier_refusal_def Let_def split: if_split_asm option.split_asm)
  have "find (blocks (child_tickets (y_ticket y) s) (pl_edges p) (t_ident t))
      (open_decisions (y_ticket y) s) = None"
    and "filter (\<lambda>dep. \<not> issue_merged (y_ticket y) s dep) (edges_of p (t_ident t)) = []"
    and "cap_refusal tid cap s = None" and "open_story (y_state y)"
    using assms p t
    by (auto simp: frontier_refusal_def Let_def split: if_split_asm option.split_asm)
  with p t show ?thesis
    by (intro that [of p t]) (auto simp: find_Some_iff find_None_iff filter_empty_conv dest: nth_mem)
qed

subsection \<open>The frontier is sound\<close>

lemma claimable_offered: "t \<in> set (claimable pid order s) \<Longrightarrow> t \<in> set (tickets s) \<and> offered pid t"
  by (auto simp: claimable_def Let_def)

lemma story_frontier_member:
  assumes "story_frontier tid cap s = Inr names" and "n \<in> set names" and keys: "keyed t_id (tickets s)"
  shows "\<exists>y p t. story_row tid s = Some y \<and> y_state y \<in> {SY_APPROVED, SY_PARKED} \<and> y_plan y = Some p
    \<and> t \<in> set (tickets s) \<and> t_ident t = n \<and> t_id t \<in> set (children_ids (y_ticket y) s)
    \<and> t_status t = TS_READY \<and> t_active t = None \<and> t_column t = Some BC_READY \<and> t_gone t = None
    \<and> (\<forall>dep \<in> set (edges_of p n). issue_merged (y_ticket y) s dep)
    \<and> (\<forall>d \<in> set (open_decisions (y_ticket y) s). \<not> blocks (child_tickets (y_ticket y) s) (pl_edges p) n d)
    \<and> cap_refusal (t_id t) cap s = None"
proof -
  obtain y where y: "story_row tid s = Some y"
    using assms by (auto simp: story_frontier_def split: option.split_asm)
  then obtain q where q: "ticket_of (y_ticket y) s = Some q" and k: "keep_unrefused y cap s
      (filter (\<lambda>t. t_id t \<in> set (children_ids (y_ticket y) s)) (claimable (t_project q) ByIdentifier s)) = Inr names"
    using assms(1) by (auto simp: story_frontier_def split: option.split_asm)
  from keep_unrefused_member [OF k assms(2)] obtain t where t: "t \<in> set (claimable (t_project q) ByIdentifier s)"
      "t_id t \<in> set (children_ids (y_ticket y) s)" "t_ident t = n" "frontier_refusal y (t_id t) cap s = Inr None"
    by auto
  from t(4) obtain p u where p: "open_story (y_state y)" "y_plan y = Some p"
      "u \<in> set (child_tickets (y_ticket y) s)" "t_id u = t_id t"
      "\<forall>dep \<in> set (edges_of p (t_ident u)). issue_merged (y_ticket y) s dep"
      "\<forall>d \<in> set (open_decisions (y_ticket y) s).
         \<not> blocks (child_tickets (y_ticket y) s) (pl_edges p) (t_ident u) d"
      "cap_refusal (t_id t) cap s = None"
    by (rule frontier_refusal_None)
  have "u = t"
  proof -
    have "u \<in> set (tickets s)" using p(3) by (simp add: child_tickets_def)
    from fetch_member [OF keys this] have "ticket_of (t_id t) s = Some u" by (simp only: p(4))
    moreover have "ticket_of (t_id t) s = Some t"
      using fetch_member [OF keys] claimable_offered [OF t(1)] by blast
    ultimately show ?thesis by simp
  qed
  have y_open: "y_state y \<in> {SY_APPROVED, SY_PARKED}" using p(1) by (auto simp: open_story_def)
  have row: "t \<in> set (tickets s)" "t_status t = TS_READY" "t_active t = None" "t_column t = Some BC_READY"
    "t_gone t = None" using claimable_offered [OF t(1)] by (simp_all add: offered_def)
  note p' = p(5,6) [unfolded \<open>u = t\<close> t(3)]
  show ?thesis
    by (rule exI [of _ y], rule exI [of _ p], rule exI [of _ t]) (intro conjI y y_open p(2) row t(2,3) p' p(7))
qed

end
