(* ===== verification/Claim.thy ===== *)
theory Claim
  imports Frontier
begin

section \<open>Claim: taking a ticket's lease\<close>

text \<open>
  \<open>claim\<close> of \<^verbatim>\<open>store/__init__.py\<close>: \<open>Inr (None, s)\<close> when the project is held or disabled,
  \<open>Inl (ClaimConflict ...)\<close> when the claim loses, else the new run. \<open>BEGIN IMMEDIATE\<close> makes
  the whole call one atomic step of the store.
\<close>

definition assert_admitted :: "nat \<Rightarrow> nat \<Rightarrow> store \<Rightarrow> err + unit" where
  "assert_admitted tid expected s =
     (case ticket_of tid s of
        None \<Rightarrow> Inr ()
      | Some t \<Rightarrow>
          (if t_revision t \<noteq> expected then Inl (RevisionMoved (t_ident t) expected (t_revision t))
           else if t_column t \<noteq> Some BC_READY \<or> t_status t \<noteq> TS_READY
           then Inl (ClaimConflict ''not ready'')
           else if t_gone t \<noteq> None then Inl (ClaimConflict ''gone from the board'')
           else Inr ()))"

definition story_generation :: "nat \<Rightarrow> store \<Rightarrow> nat option" where
  "story_generation tid s =
     map_option y_generation
       (find (\<lambda>y. \<exists>c \<in> set (story_children s). ch_ticket c = tid \<and> ch_story c = y_ticket y)
         (stories s))"

definition no_pr_seen :: pr_seen where
  "no_pr_seen =
     \<lparr>ps_at = None, ps_threads = None, ps_open_threads = None, ps_open_floor = None,
      ps_checks = None, ps_review = None, ps_title = None, ps_state = None, ps_additions = None,
      ps_deletions = None, ps_changed = None, ps_preview = None, ps_shots = None,
      ps_videos = None\<rparr>"

definition new_run ::
    "env \<Rightarrow> nat \<Rightarrow> nat \<Rightarrow> nat \<Rightarrow> nat \<Rightarrow> ticket_row option \<Rightarrow> nat option \<Rightarrow> run_row" where
  "new_run v rid pid tid attempt ticket gen =
     \<lparr>r_id = rid, r_ticket = tid, r_project = pid, r_attempt = attempt, r_phase = PH_CLAIMED,
      r_worker = None, r_session = None, r_branch = None, r_pr = None, r_park = None,
      r_started = clock v, r_heartbeat = clock v, r_ended = None, r_rounds = 0,
      r_time_box = (case ticket of None \<Rightarrow> None | Some t \<Rightarrow> t_time_box t),
      r_working = Some 0, r_work_started = None, r_verify = Some 0, r_verify_started = None,
      r_snapshot = map_option (\<lambda>t. contract_snapshot (t_title t) (t_criteria t) (t_commands t)
                                 (evidence_of v (t_body t))) ticket,
      r_revision = (case ticket of None \<Rightarrow> None
                    | Some t \<Rightarrow> if t_revision t = 0 then None else Some (t_revision t)),
      r_story_gen = gen, r_outcome = None, r_reason = None, r_failure = None,
      r_merge_sha = None, r_class = CL_WORK, r_host = Some (host_name v),
      r_pid = Some (process_id v), r_stop = None, r_resume = None, r_candidate = None,
      r_approved_sha = None, r_approved_at = None, r_approved_by = None, r_round_cap = None,
      r_seen = no_pr_seen\<rparr>"

definition claim ::
    "env \<Rightarrow> nat \<Rightarrow> nat \<Rightarrow> nat option \<Rightarrow> nat option \<Rightarrow> store \<Rightarrow> err + nat option \<times> store" where
  [op_defs]: "claim v pid tid expected cap s =
     (if (case project_of pid s of None \<Rightarrow> False
          | Some p \<Rightarrow> p_admission p = AD_HELD \<or> p_admission p = AD_DISABLED)
      then Inr (None, s)
      else if (case ticket_of tid s of None \<Rightarrow> False | Some t \<Rightarrow> t_active t \<noteq> None)
      then Inl (ClaimConflict ''lease already held'')
      else bindE (case expected of None \<Rightarrow> Inr () | Some r \<Rightarrow> assert_admitted tid r s) (\<lambda>_.
        if (case cap of None \<Rightarrow> False | Some c \<Rightarrow> cap_refusal tid c s \<noteq> None)
        then Inl (ClaimConflict ''max_parallel'')
        else
          (let prior = length (filter (\<lambda>r. r_ticket r = tid) (runs s));
               rid = next_run s;
               owned = length (filter (\<lambda>t. t_id t = tid \<and> t_project t = pid) (tickets s));
               s = add_run (new_run v rid pid tid (prior + 1) (ticket_of tid s)
                     (story_generation tid s)) s;
               s = s\<lparr>tickets := modify (\<lambda>t. t_id t = tid \<and> t_project t = pid)
                       (\<lambda>t. t\<lparr>t_active := Some rid\<rparr>) (tickets s)\<rparr>
           in if owned \<noteq> 1 then Inl (ClaimConflict ''not a ticket of the project'')
              else Inr (Some rid, s))))"

text \<open>The two ways a claim returns; \<open>won\<close> gives the whole new state.\<close>

definition won_claim :: "env \<Rightarrow> nat \<Rightarrow> nat \<Rightarrow> ticket_row \<Rightarrow> store \<Rightarrow> store" where
  "won_claim v pid tid t s =
     s\<lparr>runs := runs s @ [new_run v (next_run s) pid tid
          (Suc (length (filter (\<lambda>r. r_ticket r = tid) (runs s)))) (Some t) (story_generation tid s)],
       tickets := modify (\<lambda>t. t_id t = tid \<and> t_project t = pid)
          (\<lambda>t. t\<lparr>t_active := Some (next_run s)\<rparr>) (tickets s)\<rparr>"

definition claim_admits :: "nat \<Rightarrow> nat \<Rightarrow> nat option \<Rightarrow> nat option \<Rightarrow> ticket_row \<Rightarrow> store \<Rightarrow> bool" where
  "claim_admits pid tid expected cap t s \<longleftrightarrow>
     t_active t = None \<and> t_project t = pid
     \<and> (\<forall>p. project_of pid s = Some p \<longrightarrow> p_admission p = AD_ENABLED)
     \<and> (\<forall>r. expected = Some r \<longrightarrow> t_revision t = r \<and> t_column t = Some BC_READY
            \<and> t_status t = TS_READY \<and> t_gone t = None)
     \<and> (\<forall>c. cap = Some c \<longrightarrow> cap_refusal tid c s = None)"

lemma owned_keyed:
  assumes "keyed t_id rows"
  shows "filter (\<lambda>t. t_id t = tid \<and> t_project t = pid) rows =
    (case fetch t_id tid rows of None \<Rightarrow> [] | Some t \<Rightarrow> if t_project t = pid then [t] else [])"
  using assms
proof (induction rows)
  case (Cons a rows)
  then have IH: "filter (\<lambda>t. t_id t = tid \<and> t_project t = pid) rows =
      (case fetch t_id tid rows of None \<Rightarrow> [] | Some t \<Rightarrow> if t_project t = pid then [t] else [])"
    by (simp add: keyed_def)
  show ?case
  proof (cases "t_id a = tid")
    case True
    with Cons.prems have "fetch t_id tid rows = None"
      by (auto simp: keyed_def fetch_None_iff)
    with IH True show ?thesis by simp
  next
    case False
    with IH show ?thesis by simp
  qed
qed simp

lemma claim_iff:
  assumes "keyed t_id (tickets s)"
  shows "claim v pid tid expected cap s = Inr (Some rid, s') \<longleftrightarrow>
    (\<exists>t. ticket_of tid s = Some t \<and> claim_admits pid tid expected cap t s
       \<and> rid = next_run s \<and> s' = won_claim v pid tid t s)"
proof (cases "ticket_of tid s")
  case None
  with owned_keyed [OF assms, of tid pid] show ?thesis
    by (auto simp: claim_def Let_def split: if_split_asm option.split_asm)
next
  case (Some t)
  have adm: "(case project_of pid s of None \<Rightarrow> False
          | Some p \<Rightarrow> p_admission p = AD_HELD \<or> p_admission p = AD_DISABLED) \<longleftrightarrow>
      \<not> (\<forall>p. project_of pid s = Some p \<longrightarrow> p_admission p = AD_ENABLED)"
    by (cases "project_of pid s") (auto intro: project_admission.exhaust)
  have rev: "(case expected of None \<Rightarrow> Inr () | Some r \<Rightarrow> assert_admitted tid r s) = Inr () \<longleftrightarrow>
      (\<forall>r. expected = Some r \<longrightarrow> t_revision t = r \<and> t_column t = Some BC_READY
            \<and> t_status t = TS_READY \<and> t_gone t = None)"
    using Some by (auto simp: assert_admitted_def split: option.splits)
  have cp: "(case cap of None \<Rightarrow> False | Some c \<Rightarrow> cap_refusal tid c s \<noteq> None) \<longleftrightarrow>
      \<not> (\<forall>c. cap = Some c \<longrightarrow> cap_refusal tid c s = None)"
    by (cases cap) auto
  have own: "length (filter (\<lambda>t. t_id t = tid \<and> t_project t = pid) (tickets s)) \<noteq> 1 \<longleftrightarrow> t_project t \<noteq> pid"
    using Some by (simp add: owned_keyed [OF assms])
  have act: "(case ticket_of tid s of None \<Rightarrow> False | Some t \<Rightarrow> t_active t \<noteq> None) \<longleftrightarrow> t_active t \<noteq> None"
    using Some by simp
  have state: "(add_run r s)\<lparr>tickets := modify P f (tickets (add_run r s))\<rparr> =
      s\<lparr>runs := runs s @ [r], tickets := modify P f (tickets s)\<rparr>" for r P f
    by (simp add: add_run_def)
  show ?thesis
    unfolding claim_def adm act cp Let_def own state
    by (auto simp: Some rev claim_admits_def won_claim_def)
qed

lemma claim_None:
  assumes "claim v pid tid expected cap s = Inr (None, s')"
  shows "s' = s \<and> (\<exists>p. project_of pid s = Some p \<and> p_admission p \<noteq> AD_ENABLED)"
  using assms by (auto simp: claim_def Let_def split: if_split_asm option.split_asm)

lemma claim_SomeD:
  assumes "keyed t_id (tickets s)" and "claim v pid tid expected cap s = Inr (res, s')"
  shows "s' = s \<or> (\<exists>t. ticket_of tid s = Some t \<and> claim_admits pid tid expected cap t s
      \<and> res = Some (next_run s) \<and> s' = won_claim v pid tid t s)"
proof (cases res)
  case None
  with assms(2) claim_None show ?thesis by blast
next
  case (Some rid)
  with assms claim_iff [OF assms(1), of v pid tid expected cap rid s'] show ?thesis by auto
qed

text \<open>A second claim of the ticket, by any caller, loses.\<close>

lemma claim_twice:
  assumes "keyed t_id (tickets s)" and "claim v pid tid expected cap s = Inr (Some rid, s')"
    and "project_of pid' s = None \<or> (\<exists>p. project_of pid' s = Some p \<and> p_admission p = AD_ENABLED)"
  shows "claim v' pid' tid expected' cap' s' = Inl (ClaimConflict ''lease already held'')"
proof -
  from assms obtain t where t: "ticket_of tid s = Some t" "t_project t = pid"
    and s': "s' = won_claim v pid tid t s"
    by (auto simp: claim_iff claim_admits_def)
  have "ticket_of tid s' = Some (t\<lparr>t_active := Some (next_run s)\<rparr>)"
    using t fetch_SomeD [of t_id tid "tickets s" t] by (simp add: s' won_claim_def fetch_modify)
  moreover have "project_of pid' s' = project_of pid' s"
    by (simp add: s' won_claim_def)
  ultimately show ?thesis
    using assms(3) by (auto simp: claim_def)
qed

subsection \<open>A claim is safe\<close>

lemma claim_won:
  assumes "claim v pid tid expected cap s = Inr (res, s')"
  shows "s' = s \<or> (\<exists>t. ticket_of tid s = Some t \<and> t_active t = None \<and> s' = won_claim v pid tid t s)"
proof -
  have state: "(add_run r s)\<lparr>tickets := modify P f (tickets (add_run r s))\<rparr> =
      s\<lparr>runs := runs s @ [r], tickets := modify P f (tickets s)\<rparr>" for r P f
    by (simp add: add_run_def)
  show ?thesis
  proof (cases "ticket_of tid s")
    case (Some t)
    with assms show ?thesis
      unfolding claim_def Let_def state by (auto simp: won_claim_def split: if_split_asm)
  next
    case None
    then have "filter (\<lambda>t. t_id t = tid \<and> t_project t = pid) (tickets s) = []"
      by (auto simp: fetch_None_iff filter_empty_conv)
    with assms None show ?thesis
      by (auto simp: claim_def Let_def split: if_split_asm)
  qed
qed

lemma claim_safe:
  assumes "claim v pid tid expected cap s = Inr (res, s')"
  shows "safe s s'"
proof -
  have "safe s (won_claim v pid tid t s)" if t: "ticket_of tid s = Some t" "t_active t = None" for t
  proof (rule safe_step)
    let ?n = "length (filter (\<lambda>r. r_ticket r = tid) (runs s))"
    have cores: "map ticket_core (modify (\<lambda>t. t_id t = tid \<and> t_project t = pid)
          (\<lambda>t. t\<lparr>t_active := Some (next_run s)\<rparr>) ts) =
        modify (\<lambda>x. x_id x = tid \<and> x_project x = pid) (\<lambda>x. x\<lparr>x_active := Some (next_run s)\<rparr>)
          (map ticket_core ts)" for ts
      by (induction ts) (auto simp: ticket_core_def)
    have count: "length (filter ((\<lambda>u. u_ticket u = tid) \<circ> run_core) rs) =
        length (filter (\<lambda>r. r_ticket r = tid) rs)" for rs
      by (induction rs) (auto simp: run_core_def)
    have new: "run_core (new_run v (next_run s) pid tid (Suc ?n) (Some t) g) =
        \<lparr>u_id = next_run s, u_ticket = tid, u_attempt = Suc ?n, u_phase = PH_CLAIMED,
         u_ended = None, u_outcome = None\<rparr>" for g
      by (simp add: run_core_def new_run_def)
    have eq: "spec_of (won_claim v pid tid t s) = (spec_of s)\<lparr>
        spec_runs := spec_runs (spec_of s) @ [\<lparr>u_id = next_run s, u_ticket = tid, u_attempt = Suc ?n,
           u_phase = PH_CLAIMED, u_ended = None, u_outcome = None\<rparr>],
        spec_tickets := modify (\<lambda>x. x_id x = tid \<and> x_project x = pid)
          (\<lambda>x. x\<lparr>x_active := Some (next_run s)\<rparr>) (spec_tickets (spec_of s))\<rparr>"
      by (simp add: spec_of_def won_claim_def cores new)
    show "spec_step (spec_of s) (spec_of (won_claim v pid tid t s))"
      unfolding eq
      by (rule spec_step.take [of tid _ "ticket_core t"])
        (use t count [of "runs s"] in \<open>simp_all add: spec_of_def fetch_ticket_core next_run_def\<close>,
         simp add: ticket_core_def)
    show "appends s (won_claim v pid tid t s)" by (simp add: appends_def won_claim_def)
    show "desk_safe s (won_claim v pid tid t s)" by (simp add: won_claim_def)
  qed
  with claim_won [OF assms] show ?thesis by auto
qed

end
