(* ===== verification/Findings.thy ===== *)
theory Findings
  imports Log Complex_Main "HOL-Library.List_Lexorder" "HOL-Library.Char_ord"
    "HOL-Library.Product_Lexorder"
begin

section \<open>Findings: the canonical form, the overlap of two rounds, the review rounds\<close>

text \<open>
  The review-round part of \<^verbatim>\<open>store/__init__.py\<close>. A Python set of keys is a list without
  duplicates. \<open>findings_fingerprint\<close> is \<open>sha256 v\<close> of \<open>canonical_form\<close>; the lemmas show
  that the canonical form loses nothing: two lists of findings have the same one exactly when
  they have the same set of keys, because no accepted path holds a separator. The overlap of
  two rounds is a ratio between 0 and 1, symmetric, and 1 exactly when the rounds complain
  about the same keys (or, for a single shared key, with the same messages). The float
  quotient of the code is the exact rational here.
\<close>

subsection \<open>Keys\<close>

definition severity_value :: "severity \<Rightarrow> string" where
  "severity_value sv = (case sv of SEV_P0 \<Rightarrow> ''p0'' | SEV_P1 \<Rightarrow> ''p1'' | SEV_P2 \<Rightarrow> ''p2'' | SEV_NIT \<Rightarrow> ''nit'')"

definition field_sep :: char where "field_sep = CHR 0x1F"
definition record_sep :: char where "record_sep = CHR 0x1E"
definition no_line :: int where "no_line = - 1"
definition criteria_path :: string where "criteria_path = ''criteria''"

definition key_finding :: "finding \<Rightarrow> finding_key" where
  "key_finding f = (case fd_print f of None \<Rightarrow> fd_key f | Some k \<Rightarrow> k)"

type_synonym key = "string \<times> int \<times> string"

definition finding_ok :: "finding \<Rightarrow> bool" where
  "finding_ok f \<longleftrightarrow>
     (let k = key_finding f
      in fk_path k \<noteq> [] \<and> field_sep \<notin> set (fk_path k) \<and> record_sep \<notin> set (fk_path k) \<and>
         (case fk_line k of None \<Rightarrow> True | Some n \<Rightarrow> 1 \<le> n))"

definition key_of :: "finding \<Rightarrow> key" where
  "key_of f =
     (let k = key_finding f
      in (fk_path k, (case fk_line k of None \<Rightarrow> no_line | Some n \<Rightarrow> n),
          severity_value (fk_severity k)))"

definition finding_keys :: "finding list \<Rightarrow> err + key list" where
  "finding_keys fs =
     (if list_all finding_ok fs
      then Inr (remdups (map key_of (filter (\<lambda>f. \<not> fd_evidence_only f) fs)))
      else Inl (ValueError ''finding''))"

subsection \<open>The fingerprint\<close>

definition record_text :: "key \<Rightarrow> string" where
  "record_text k = (case k of (path, line, sev) \<Rightarrow> join [field_sep] [path, str_int line, sev])"

definition canonical_form :: "key list \<Rightarrow> string" where
  "canonical_form ks = join [record_sep] (map record_text (sort ks))"

definition findings_fingerprint :: "env \<Rightarrow> finding list \<Rightarrow> err + string" where
  "findings_fingerprint v fs =
     bindE (finding_keys fs) (\<lambda>ks. Inr (sha256 v (canonical_form ks)))"

subsection \<open>The overlap\<close>

definition message_digest :: "finding \<Rightarrow> string" where
  "message_digest f = py_lower (join '' '' (py_words (fd_message f)))"

definition code_finding :: "finding \<Rightarrow> bool" where
  "code_finding f \<longleftrightarrow> \<not> fd_evidence_only f \<and> fk_path (key_finding f) \<noteq> criteria_path"

definition is_criteria :: "key \<Rightarrow> bool" where
  "is_criteria k \<longleftrightarrow> fst k = criteria_path"

definition findings_overlap :: "finding list \<Rightarrow> finding list \<Rightarrow> err + rat option" where
  "findings_overlap earlier later =
     bindE (finding_keys earlier) (\<lambda>earlier_keys.
     bindE (finding_keys later) (\<lambda>later_keys.
       let restated = list_ex is_criteria (earlier_keys @ later_keys);
           earlier_keys = filter (\<lambda>k. \<not> is_criteria k) earlier_keys;
           later_keys = filter (\<lambda>k. \<not> is_criteria k) later_keys;
           earlier = filter code_finding earlier;
           later = filter code_finding later;
           union = remdups (earlier_keys @ later_keys)
       in if union = [] then Inr (if restated then None else Some 1)
          else if length union = 1 \<and> earlier \<noteq> [] \<and> later \<noteq> []
          then Inr (Some (if set (map message_digest earlier) = set (map message_digest later)
                          then 1 else 0))
          else Inr (Some (of_nat (length (filter (\<lambda>k. k \<in> set later_keys) earlier_keys))
                          / of_nat (length union)))))"

subsection \<open>Review rounds\<close>

definition record_review_round ::
    "env \<Rightarrow> nat \<Rightarrow> int \<Rightarrow> review_verdict \<Rightarrow> string \<Rightarrow> finding list \<Rightarrow> json list \<Rightarrow>
     int option \<Rightarrow> int option \<Rightarrow> store \<Rightarrow> err + nat \<times> store" where
  [op_defs]: "record_review_round v rid num verdict model findings results started ended s =
     (if num < 1 then Inl (ValueError ''round'')
      else bindE (findings_fingerprint v findings) (\<lambda>fingerprint.
        case run_of rid s of
          None \<Rightarrow> Inl (NoRun rid)
        | Some _ \<Rightarrow>
            (if \<exists>q \<in> set (rounds s). rr_run q = rid \<and> rr_round q = num
             then Inl (IntegrityError ''reviewRounds'')
             else
               (let i = next_id rr_id (rounds s);
                    row = \<lparr>rr_id = i, rr_run = rid, rr_round = num,
                      rr_results = map (redact_document (secrets v)) results,
                      rr_verdict = verdict, rr_findings = findings,
                      rr_fingerprint = fingerprint, rr_model = model,
                      rr_started = (case started of None \<Rightarrow> clock v | Some t \<Rightarrow> t),
                      rr_ended = ended\<rparr>
                in Inr (i, s\<lparr>rounds := rounds s @ [row]\<rparr>)))))"

subsection \<open>The canonical form determines the keys\<close>

lemma severity_value_inject [simp]: "severity_value a = severity_value b \<longleftrightarrow> a = b"
  by (cases a; cases b) (simp_all add: severity_value_def)

definition key_ok :: "key \<Rightarrow> bool" where
  "key_ok k \<longleftrightarrow>
     field_sep \<notin> set (fst k) \<and> record_sep \<notin> set (fst k) \<and> snd (snd k) \<in> range severity_value"

lemma finding_keys_ok: "finding_keys fs = Inr ks \<Longrightarrow> k \<in> set ks \<Longrightarrow> key_ok k"
  by (auto simp: finding_keys_def key_ok_def key_of_def finding_ok_def Let_def list_all_iff
      split: if_split_asm)

lemma str_int_chars: "c \<in> set (str_int i) \<Longrightarrow> c = CHR ''-'' \<or> 48 \<le> (of_char c :: nat) \<and> (of_char c :: nat) < 58"
  using str_nat_digits by (auto simp: str_int_def split: if_split_asm)

lemma str_int_no_sep [simp]: "field_sep \<notin> set (str_int i)" "record_sep \<notin> set (str_int i)"
  using str_int_chars [of field_sep i] str_int_chars [of record_sep i]
  by (auto simp: field_sep_def record_sep_def)

lemma severity_no_sep [simp]: "field_sep \<notin> set (severity_value x)" "record_sep \<notin> set (severity_value x)"
  by (cases x; simp add: severity_value_def field_sep_def record_sep_def)+

lemma record_text_inject:
  assumes "key_ok k" and "key_ok q" and "record_text k = record_text q"
  shows "k = q"
proof -
  obtain p n s where k: "k = (p, n, s)" by (cases k) auto
  obtain p' n' s' where q: "q = (p', n', s')" by (cases q) auto
  have "[p, str_int n, s] = [p', str_int n', s']"
    using assms unfolding k q
    by (intro join_inject [where c = field_sep]) (auto simp: key_ok_def record_text_def)
  with k q show ?thesis by simp
qed

lemma record_text_no_sep: "key_ok k \<Longrightarrow> record_sep \<notin> set (record_text k)"
  by (cases k) (auto simp: key_ok_def record_text_def, simp_all add: field_sep_def record_sep_def)

lemma record_text_nonempty: "record_text k \<noteq> []"
  by (cases k) (simp add: record_text_def)

lemma canonical_form_inject:
  assumes ok: "\<And>k. k \<in> set ks \<union> set qs \<Longrightarrow> key_ok k"
    and dist: "distinct ks" "distinct qs"
    and eq: "canonical_form ks = canonical_form qs"
  shows "set ks = set qs"
proof -
  have empty: "canonical_form xs = [] \<longleftrightarrow> xs = []" for xs
  proof (cases "sort xs")
    case Nil
    then show ?thesis by (metis canonical_form_def join.simps(1) list.map_disc_iff set_empty set_sort)
  next
    case (Cons y ys)
    then have "canonical_form xs \<noteq> []"
      using record_text_nonempty [of y] by (cases ys) (auto simp: canonical_form_def)
    moreover have "xs \<noteq> []" using Cons by auto
    ultimately show ?thesis by simp
  qed
  show ?thesis
  proof (cases "ks = [] \<or> qs = []")
    case True
    then show ?thesis using eq empty by metis
  next
    case False
    have "map record_text (sort ks) = map record_text (sort qs)"
      by (rule join_inject [where c = record_sep])
        (use False eq ok record_text_no_sep in \<open>auto simp: canonical_form_def\<close>,
         (metis set_empty set_sort)+)
    then have "record_text ` set ks = record_text ` set qs"
      by (metis list.set_map set_sort)
    moreover have "inj_on record_text (set ks \<union> set qs)"
      by (rule inj_onI) (blast intro: record_text_inject ok)
    ultimately show ?thesis
      by (metis inj_on_image_eq_iff sup_ge1 sup_ge2)
  qed
qed

lemma canonical_form_cong: "distinct ks \<Longrightarrow> distinct qs \<Longrightarrow> set ks = set qs \<Longrightarrow>
    canonical_form ks = canonical_form qs"
  unfolding canonical_form_def
  by (rule arg_cong [where f = "\<lambda>xs. join [record_sep] (map record_text xs)"])
    (rule sorted_distinct_set_unique, simp_all)

lemma finding_keys_distinct: "finding_keys fs = Inr ks \<Longrightarrow> distinct ks"
  by (auto simp: finding_keys_def split: if_split_asm)

text \<open>Two accepted rounds have the same fingerprint text exactly when they have the same keys.\<close>

lemma fingerprint_determines:
  assumes "finding_keys fs = Inr ks" and "finding_keys gs = Inr qs"
  shows "canonical_form ks = canonical_form qs \<longleftrightarrow> set ks = set qs"
proof
  assume "canonical_form ks = canonical_form qs"
  then show "set ks = set qs"
    using assms
    by (intro canonical_form_inject) (auto dest: finding_keys_ok finding_keys_distinct)
next
  assume "set ks = set qs"
  then show "canonical_form ks = canonical_form qs"
    using assms by (intro canonical_form_cong) (auto dest: finding_keys_distinct)
qed

subsection \<open>The overlap is a ratio\<close>

lemma overlap_ratio_bounds:
  fixes xs ys :: "'a list"
  assumes "distinct xs" and "distinct ys"
  shows "length (filter (\<lambda>k. k \<in> set ys) xs) \<le> length (remdups (xs @ ys))"
proof -
  have "length (filter (\<lambda>k. k \<in> set ys) xs) \<le> length xs" by simp
  also have "length xs = card (set xs)" using assms by (simp add: distinct_card)
  also have "\<dots> \<le> card (set (xs @ ys))" by (intro card_mono) auto
  also have "\<dots> = length (remdups (xs @ ys))" by (simp add: length_remdups_card_conv)
  finally show ?thesis .
qed

lemma overlap_ratio_sym:
  assumes "distinct xs" and "distinct ys"
  shows "length (filter (\<lambda>k. k \<in> set ys) xs) = length (filter (\<lambda>k. k \<in> set xs) ys)"
proof -
  have "card (set (filter (\<lambda>k. k \<in> set ys) xs)) = card (set (filter (\<lambda>k. k \<in> set xs) ys))"
    by (rule arg_cong [where f = card]) auto
  with assms show ?thesis by (simp only: distinct_card distinct_filter)
qed

lemma length_remdups_sym: "length (remdups (xs @ ys)) = length (remdups (ys @ xs))"
  by (simp add: length_remdups_card_conv Un_commute)

subsection \<open>Recording a round is safe\<close>

lemma record_review_round_safe:
  "record_review_round v rid num verdict model fs rs st en s = Inr (i, s') \<Longrightarrow> safe s s'"
  by (rule safe_same)
    (auto simp: record_review_round_def Let_def split: if_split_asm option.split_asm)

subsection \<open>The overlap is symmetric and a ratio\<close>

definition code_keys :: "key list \<Rightarrow> key list" where
  "code_keys ks = filter (\<lambda>k. \<not> is_criteria k) ks"

text \<open>The overlap once the keys are accepted.\<close>

definition overlap :: "finding list \<Rightarrow> finding list \<Rightarrow> key list \<Rightarrow> key list \<Rightarrow> rat option" where
  "overlap fs gs ks qs =
     (let fs = filter code_finding fs; gs = filter code_finding gs;
          union = remdups (code_keys ks @ code_keys qs)
      in if union = [] then (if list_ex is_criteria (ks @ qs) then None else Some 1)
         else if length union = 1 \<and> fs \<noteq> [] \<and> gs \<noteq> []
         then Some (if set (map message_digest fs) = set (map message_digest gs) then 1 else 0)
         else Some (of_nat (length (filter (\<lambda>k. k \<in> set (code_keys qs)) (code_keys ks)))
                    / of_nat (length union)))"

lemma findings_overlap_overlap:
  "finding_keys fs = Inr ks \<Longrightarrow> finding_keys gs = Inr qs \<Longrightarrow> findings_overlap fs gs = Inr (overlap fs gs ks qs)"
  by (simp add: findings_overlap_def overlap_def code_keys_def Let_def)

lemma overlap_sym:
  assumes "distinct ks" and "distinct qs"
  shows "overlap fs gs ks qs = overlap gs fs qs ks"
proof -
  have "remdups (code_keys ks @ code_keys qs) = [] \<longleftrightarrow> remdups (code_keys qs @ code_keys ks) = []" by auto
  moreover have "length (remdups (code_keys ks @ code_keys qs)) = length (remdups (code_keys qs @ code_keys ks))"
    by (rule length_remdups_sym)
  moreover have "length (filter (\<lambda>k. k \<in> set (code_keys qs)) (code_keys ks)) =
      length (filter (\<lambda>k. k \<in> set (code_keys ks)) (code_keys qs))"
    by (rule overlap_ratio_sym) (use assms in \<open>simp_all add: code_keys_def\<close>)
  moreover have "list_ex is_criteria (ks @ qs) = list_ex is_criteria (qs @ ks)" by auto
  ultimately show ?thesis
    unfolding overlap_def Let_def by (smt (verit) eq_commute)
qed

lemma overlap_bounds:
  assumes "distinct ks" and "distinct qs" and "overlap fs gs ks qs = Some x"
  shows "0 \<le> x \<and> x \<le> 1"
proof -
  have "length (filter (\<lambda>k. k \<in> set (code_keys qs)) (code_keys ks)) \<le> length (remdups (code_keys ks @ code_keys qs))"
    by (rule overlap_ratio_bounds) (use assms in \<open>simp_all add: code_keys_def\<close>)
  then show ?thesis
    using assms(3) by (auto simp: overlap_def Let_def divide_le_eq split: if_split_asm)
qed

lemma overlap_same_keys:
  assumes "distinct ks" and "set (code_keys qs) = set (code_keys ks)" and "distinct qs"
    and "length (code_keys ks) \<noteq> 1" and "code_keys ks \<noteq> []"
  shows "overlap fs gs ks qs = Some 1"
proof -
  have nonempty: "remdups (code_keys ks @ code_keys qs) \<noteq> []" using assms(5) by auto
  have "card (set (code_keys ks)) = length (code_keys ks)"
    by (rule distinct_card) (use assms(1) in \<open>simp add: code_keys_def\<close>)
  then have "length (remdups (code_keys ks @ code_keys qs)) = length (code_keys ks)"
    by (simp add: length_remdups_card_conv assms(2))
  moreover have "filter (\<lambda>k. k \<in> set (code_keys qs)) (code_keys ks) = code_keys ks"
    using assms(2) by simp
  ultimately show ?thesis using nonempty assms(4,5) by (simp add: overlap_def Let_def)
qed

end
