(* ===== verification/Working.thy ===== *)
theory Working
  imports Runs
begin

section \<open>Working: the work clock of a run and the launch backoff of a project\<close>

text \<open>
  \<^verbatim>\<open>store/working.py\<close>: a run's committed milliseconds (\<open>r_working\<close>, \<open>r_verify\<close>) and the
  span in flight. The context manager \<^verbatim>\<open>working()\<close> is its two ends, \<open>enter_working\<close> and
  \<open>exit_working\<close>; the \<^verbatim>\<open>ContextVar\<close> of active runs is a list the caller threads, and the
  value \<open>enter_working\<close> returns is the run whose span this call owns.

  \<^verbatim>\<open>store/launch_backoff.py\<close>: the interval doubles from 60 seconds up to 1800, a pending
  failure is recorded with interval 0 and only when there is none.

  The lemmas: the two parts of a run's work add up to the whole at every moment, settling
  commits the whole and stops the clock, a nested span leaves the clock alone; the interval
  after n failures is \<open>min 1800 (60 * 2 ^ n)\<close>.
\<close>

subsection \<open>The clock's reads\<close>

definition effective_work :: "run_row \<Rightarrow> int \<Rightarrow> int option" where
  "effective_work r now =
     map_option (\<lambda>w. w + (case r_work_started r of None \<Rightarrow> 0 | Some t \<Rightarrow> now - t)) (r_working r)"

definition open_verify :: "run_row \<Rightarrow> int \<Rightarrow> int" where
  "open_verify r now = (case r_verify_started r of None \<Rightarrow> 0 | Some t \<Rightarrow> now - t)"

definition agent_work :: "run_row \<Rightarrow> int \<Rightarrow> int option" where
  "agent_work r now =
     (case (effective_work r now, r_verify r) of
        (Some spent, Some w) \<Rightarrow> Some (spent - w - open_verify r now)
      | (spent, _) \<Rightarrow> spent)"

definition verify_work :: "run_row \<Rightarrow> int \<Rightarrow> int option" where
  "verify_work r now = map_option (\<lambda>w. w + open_verify r now) (r_verify r)"

definition chain_work :: "(run_row \<Rightarrow> int \<Rightarrow> int option) \<Rightarrow> run_row list \<Rightarrow> int \<Rightarrow> int option" where
  "chain_work clk rs now =
     (let spans = concat (map (\<lambda>r.
            case clk r (case r_ended r of None \<Rightarrow> now | Some t \<Rightarrow> t) of
              None \<Rightarrow> [] | Some x \<Rightarrow> [x]) rs)
      in if spans = [] then None else Some (sum_list spans))"

subsection \<open>The clock's writes\<close>

definition settled :: "int \<Rightarrow> run_row \<Rightarrow> run_row" where
  "settled now r =
     r\<lparr>r_working := (case (r_working r, r_work_started r) of
          (Some w, Some t) \<Rightarrow> Some (w + (now - t)) | _ \<Rightarrow> None),
       r_verify := (case r_verify_started r of
          None \<Rightarrow> r_verify r | Some t \<Rightarrow> map_option (\<lambda>w. w + (now - t)) (r_verify r)),
       r_work_started := None, r_verify_started := None\<rparr>"

definition settle_work :: "env \<Rightarrow> nat \<Rightarrow> store \<Rightarrow> store" where
  [op_defs]: "settle_work v rid =
     upd_runs (\<lambda>r. r_id r = rid \<and> r_work_started r \<noteq> None) (settled (clock v))"

definition owns_idle_clock :: "nat \<Rightarrow> store \<Rightarrow> run_row \<Rightarrow> bool" where
  "owns_idle_clock rid s r \<longleftrightarrow>
     r_id r = rid \<and> r_work_started r = None \<and> r_ended r = None
     \<and> (\<exists>t \<in> set (tickets s). t_id t = r_ticket r \<and> t_active t = Some rid)"

definition start_work :: "env \<Rightarrow> nat \<Rightarrow> bool \<Rightarrow> store \<Rightarrow> err + store" where
  [op_defs]: "start_work v rid verify s =
     bindE (live_run rid s) (\<lambda>r.
       if \<not> owns_idle_clock rid s r then Inl (ClaimConflict ''does not own an idle work clock'')
       else Inr (upd_run rid (\<lambda>r. r\<lparr>r_work_started := Some (clock v),
              r_verify_started := (if verify then Some (clock v) else None)\<rparr>) s))"

definition enter_working ::
    "env \<Rightarrow> nat option \<Rightarrow> bool \<Rightarrow> nat list \<Rightarrow> store \<Rightarrow> err + (nat option \<times> nat list) \<times> store" where
  "enter_working v rid verify active s =
     (case rid of
        None \<Rightarrow> Inr ((None, active), s)
      | Some k \<Rightarrow>
          (if k \<in> set active then Inr ((None, active), s)
           else bindE (start_work v k verify s) (\<lambda>s. Inr ((Some k, k # active), s))))"

definition exit_working :: "env \<Rightarrow> nat option \<Rightarrow> nat list \<Rightarrow> store \<Rightarrow> nat list \<times> store" where
  "exit_working v owner active s =
     (case owner of
        None \<Rightarrow> (active, s)
      | Some k \<Rightarrow> (removeAll k active, settle_work v k s))"

subsection \<open>Launch backoff\<close>

text \<open>A project's backoff row: the reason, since when, the interval in seconds.\<close>

definition project_event :: "env \<Rightarrow> nat \<Rightarrow> string \<Rightarrow> string \<Rightarrow> nat option \<Rightarrow> store \<Rightarrow> err + store" where
  "project_event v pid kind note rid s =
     (case rid of
        Some k \<Rightarrow> bindE (record_event v k kind note EL_NARRATIVE None s) (\<lambda>(_, s). Inr s)
      | None \<Rightarrow>
          Inr (s\<lparr>events := events s @
            [\<lparr>e_id = next_id e_id (events s), e_run = None, e_project = Some pid, e_seq = 1,
              e_level = EL_NARRATIVE, e_kind = kind, e_summary = note, e_payload = None,
              e_at = clock v, e_scout = None\<rparr>]\<rparr>))"

definition project_intervention ::
    "env \<Rightarrow> nat \<Rightarrow> intervention_action \<Rightarrow> string \<Rightarrow> nat option \<Rightarrow> store \<Rightarrow> err + store" where
  "project_intervention v pid action note rid s =
     (case rid of
        Some k \<Rightarrow>
          bindE (record_intervention v k action note IS_SUPERVISOR IT_MANUAL None None None None s)
            (\<lambda>(_, s). Inr s)
      | None \<Rightarrow>
          (let (_, s) = insert_intervention
                 \<lparr>i_id = 0, i_run = None, i_project = Some pid, i_source = IS_SUPERVISOR,
                  i_trigger = IT_MANUAL, i_action = action, i_note = None, i_question = None,
                  i_guidance = None, i_at = clock v, i_actor = Some IC_SUPERVISOR,
                  i_firing = None\<rparr> s
           in project_event v pid (action_value action) note None s))"

definition backoff_interval :: "bool \<Rightarrow> (string \<times> int \<times> int) option \<Rightarrow> int" where
  "backoff_interval pending previous =
     (if pending then 0
      else min 1800 (max 60 (case previous of None \<Rightarrow> 60 | Some (_, _, interval) \<Rightarrow> 2 * interval)))"

definition current_backoff :: "nat \<Rightarrow> store \<Rightarrow> (string \<times> int \<times> int) option" where
  "current_backoff pid s =
     (case project_of pid s of None \<Rightarrow> None | Some p \<Rightarrow> p_backoff p)"

definition backoff_note :: "int \<Rightarrow> string \<Rightarrow> string" where
  "backoff_note interval reason =
     ''implementer route down; retry in '' @ str_int interval @ ''s: '' @ reason"

definition backoff_failure ::
    "env \<Rightarrow> nat \<Rightarrow> string \<Rightarrow> bool \<Rightarrow> nat option \<Rightarrow> store \<Rightarrow> err + string \<times> store" where
  [op_defs]: "backoff_failure v pid reason pending rid s =
     (let previous = current_backoff pid s in
      case (pending, previous) of
        (True, Some (old, _, _)) \<Rightarrow> Inr (old, s)
      | _ \<Rightarrow>
          (let since = (case previous of None \<Rightarrow> clock v | Some (_, t, _) \<Rightarrow> t);
               interval = backoff_interval pending previous;
               note = backoff_note interval reason
           in bindE (if previous = None then project_event v pid ''route_down'' reason rid s
                     else Inr s) (\<lambda>s.
              bindE (if pending then Inr s
                     else project_intervention v pid IA_LAUNCH_BACKOFF note rid s) (\<lambda>s.
                Inr (note, upd_project pid (\<lambda>p. p\<lparr>
                  p_backoff_until := Some (clock v + interval * 1000),
                  p_backoff := Some (reason, since, interval)\<rparr>) s)))))"

definition clear_backoff :: "nat \<Rightarrow> store \<Rightarrow> store" where
  [op_defs]: "clear_backoff pid =
     upd_project pid (\<lambda>p. p\<lparr>p_backoff_until := None, p_backoff := None\<rparr>)"

text \<open>The project a startup failure is charged to, and the run it is logged on.\<close>

definition owed_project ::
    "(nat option \<times> nat option) list \<Rightarrow> nat option \<Rightarrow> store \<Rightarrow> nat option \<times> nat option" where
  "owed_project owed pid s =
     (let (ticket, run) = (case find (\<lambda>(t, r). t \<noteq> None \<or> r \<noteq> None) owed of
            None \<Rightarrow> (None, None) | Some x \<Rightarrow> x)
      in if pid \<noteq> None then (pid, run)
         else case ticket of
             Some t \<Rightarrow> (map_option t_project (ticket_of t s), run)
           | None \<Rightarrow>
               (case run of
                  Some r \<Rightarrow> (map_option r_project (run_of r s), run)
                | None \<Rightarrow>
                    ((case sort (map p_id (projects s)) of [] \<Rightarrow> None | p # _ \<Rightarrow> Some p), None)))"

subsection \<open>Facts of the clock\<close>

lemma effective_work_settled:
  assumes "r_work_started r \<noteq> None"
  shows "effective_work (settled now r) later = effective_work r now"
  using assms by (auto simp: effective_work_def settled_def split: option.splits)

lemma work_splits:
  "effective_work r now = Some whole \<Longrightarrow> r_verify r \<noteq> None \<Longrightarrow>
   \<exists>a w. agent_work r now = Some a \<and> verify_work r now = Some w \<and> a + w = whole"
  by (auto simp: agent_work_def verify_work_def)

lemma start_work_Inr:
  "start_work v rid verify s = Inr s' \<longleftrightarrow>
   (\<exists>r. run_of rid s = Some r \<and> owns_idle_clock rid s r \<and>
      s' = upd_run rid (\<lambda>r. r\<lparr>r_work_started := Some (clock v),
              r_verify_started := (if verify then Some (clock v) else None)\<rparr>) s)"
  by (auto simp: start_work_def live_run_def owns_idle_clock_def split: option.splits)

text \<open>A span entered at one clock and left at another adds their difference, once.\<close>

lemma working_span:
  assumes enter: "enter_working v (Some rid) verify active s = Inr ((owner, active'), s')"
    and idle: "rid \<notin> set active" and r: "run_of rid s = Some r" and w: "r_working r = Some w"
  shows "\<exists>r'. run_of rid (snd (exit_working v' owner active' s')) = Some r'
    \<and> effective_work r' later = Some (w + (clock v' - clock v)) \<and> r_work_started r' = None
    \<and> fst (exit_working v' owner active' s') = active"
proof -
  have owner: "owner = Some rid" and active': "active' = rid # active"
    and start: "start_work v rid verify s = Inr s'"
    using enter idle by (auto simp: enter_working_def)
  define r1 where "r1 = r\<lparr>r_work_started := Some (clock v),
      r_verify_started := (if verify then Some (clock v) else None)\<rparr>"
  have "run_of rid s' = Some r1"
    using start r by (auto simp: start_work_Inr r1_def upd_run_def fetch_modify_key)
  moreover have "r_id r1 = rid" using r by (auto simp: r1_def dest: fetch_SomeD)
  ultimately have "run_of rid (settle_work v' rid s') = Some (settled (clock v') r1)"
    by (simp add: settle_work_def upd_runs_def fetch_modify settled_def r1_def)
  moreover have "effective_work (settled (clock v') r1) later = Some (w + (clock v' - clock v))"
    using w by (simp add: effective_work_def settled_def r1_def)
  moreover have "r_work_started (settled (clock v') r1) = None" by (simp add: settled_def)
  ultimately show ?thesis
    using idle by (auto simp: exit_working_def owner active')
qed

subsection \<open>Facts of the backoff\<close>

fun nth_interval :: "nat \<Rightarrow> int" where
  "nth_interval 0 = backoff_interval False None"
| "nth_interval (Suc n) = backoff_interval False (Some ([], 0, nth_interval n))"

lemma nth_interval: "nth_interval n = min 1800 (60 * 2 ^ n)"
proof (induction n)
  case 0
  then show ?case by (simp add: backoff_interval_def)
next
  case (Suc n)
  have "min 1800 (max 60 (2 * min 1800 (60 * x))) = min 1800 (120 * x)" if "1 \<le> x" for x :: int
    using that by linarith
  from this [of "2 ^ n"]
  have "min 1800 (max 60 (2 * min 1800 (60 * 2 ^ n))) = min 1800 (120 * (2::int) ^ n)" by simp
  with Suc show ?case by (simp add: backoff_interval_def)
qed

lemma backoff_interval_bounds: "60 \<le> backoff_interval False p" "backoff_interval False p \<le> 1800"
  by (auto simp: backoff_interval_def)

subsection \<open>The clock and the backoff are safe\<close>

lemma settle_work_safe [simp]: "safe s (settle_work v rid s)"
  by (simp add: settle_work_def upd_runs_safe run_core_def settled_def)

lemma start_work_safe: "start_work v rid verify s = Inr s' \<Longrightarrow> safe s s'"
  by (auto simp: start_work_Inr run_core_def intro!: upd_run_safe)

lemma enter_working_safe: "enter_working v rid verify active s = Inr (x, s') \<Longrightarrow> safe s s'"
  by (auto simp: enter_working_def intro: start_work_safe split: option.split_asm if_split_asm)

lemma exit_working_safe [simp]: "safe s (snd (exit_working v owner active s))"
  by (simp add: exit_working_def split: option.split)

lemma project_event_safe: "project_event v pid kind note rid s = Inr s' \<Longrightarrow> safe s s'"
proof (cases rid)
  case (Some k)
  then show "project_event v pid kind note rid s = Inr s' \<Longrightarrow> safe s s'"
    by (auto simp: project_event_def intro: record_event_safe)
next
  case None
  let ?row = "\<lparr>e_id = next_id e_id (events s), e_run = None, e_project = Some pid, e_seq = 1,
              e_level = EL_NARRATIVE, e_kind = kind, e_summary = note, e_payload = None,
              e_at = clock v, e_scout = None\<rparr>"
  have "safe s (s\<lparr>events := events s @ [?row]\<rparr>)"
    using spec_step.log_other [of "spec_of s" 1]
    by (intro safe_step desk_safe_log) (simp_all add: spec_of_def appends_def)
  with None show "project_event v pid kind note rid s = Inr s' \<Longrightarrow> safe s s'"
    by (auto simp: project_event_def)
qed

lemma project_intervention_safe:
  assumes "project_intervention v pid action note rid s = Inr s'"
  shows "safe s s'"
proof (cases rid)
  case (Some k)
  with assms show ?thesis
    by (auto simp: project_intervention_def intro: record_intervention_safe)
next
  case None
  with assms obtain row where
    "project_event v pid (action_value action) note None (snd (insert_intervention row s)) = Inr s'"
    by (auto simp: project_intervention_def case_prod_unfold)
  from project_event_safe [OF this] show ?thesis
    using insert_intervention_safe safe_trans by blast
qed

lemma backoff_failure_cases:
  assumes "backoff_failure v pid reason pending rid s = Inr (note, s')"
  obtains
    (known) old since iv where "pending" "current_backoff pid s = Some (old, since, iv)" "note = old" "s' = s"
  | (charged) u w where
      "(if current_backoff pid s = None then project_event v pid ''route_down'' reason rid s else Inr s) = Inr u"
      "(if pending then Inr u else project_intervention v pid IA_LAUNCH_BACKOFF note rid u) = Inr w"
      "note = backoff_note (backoff_interval pending (current_backoff pid s)) reason"
      "s' = upd_project pid (\<lambda>p. p\<lparr>
          p_backoff_until := Some (clock v + backoff_interval pending (current_backoff pid s) * 1000),
          p_backoff := Some (reason, (case current_backoff pid s of None \<Rightarrow> clock v | Some (x, t, y) \<Rightarrow> t),
            backoff_interval pending (current_backoff pid s))\<rparr>) w"
proof (cases "\<exists>old since iv. pending \<and> current_backoff pid s = Some (old, since, iv)")
  case True
  with assms show ?thesis by (auto simp: backoff_failure_def Let_def intro: known)
next
  case False
  then have eq: "(case (pending, current_backoff pid s) of
        (True, Some (old, _, _)) \<Rightarrow> x old | _ \<Rightarrow> y) = y" for x :: "string \<Rightarrow> err + string \<times> store" and y
    by (cases pending; cases "current_backoff pid s") auto
  from assms show ?thesis
    unfolding backoff_failure_def Let_def eq by (auto simp: Let_def intro: charged)
qed

lemma backoff_failure_safe:
  assumes "backoff_failure v pid reason pending rid s = Inr (note, s')"
  shows "safe s s'"
  using assms
proof (cases rule: backoff_failure_cases)
  case (known old since iv)
  then show ?thesis by simp
next
  case (charged u w)
  have "safe s u" using charged(1) by (auto intro: project_event_safe split: if_split_asm)
  moreover have "safe u w" using charged(2) by (auto intro: project_intervention_safe split: if_split_asm)
  ultimately show ?thesis unfolding charged(4) by (meson safe_trans upd_project_safe)
qed

lemma clear_backoff_safe [simp]: "safe s (clear_backoff pid s)"
  by (simp add: clear_backoff_def)

subsection \<open>A row of failures\<close>

fun route_failures :: "env list \<Rightarrow> nat \<Rightarrow> string \<Rightarrow> store \<Rightarrow> err + store" where
  "route_failures [] pid reason s = Inr s"
| "route_failures (v # vs) pid reason s =
     bindE (backoff_failure v pid reason False None s) (\<lambda>(_, s). route_failures vs pid reason s)"

lemma backoff_failure_project:
  assumes "project_of pid s = Some p"
  shows "\<exists>note s'. backoff_failure v pid reason False None s = Inr (note, s') \<and>
    project_of pid s' = Some (p\<lparr>p_backoff_until := Some (clock v + backoff_interval False (p_backoff p) * 1000),
      p_backoff := Some (reason, (case p_backoff p of None \<Rightarrow> clock v | Some (x, t, y) \<Rightarrow> t),
        backoff_interval False (p_backoff p))\<rparr>)"
proof -
  have "current_backoff pid s = p_backoff p" using assms by (simp add: current_backoff_def)
  then show ?thesis
    using assms
    by (cases "p_backoff p")
      (auto simp: backoff_failure_def Let_def project_event_def project_intervention_def
        insert_intervention_def upd_project_def fetch_modify_key case_prod_unfold)
qed

lemma route_failures_interval:
  assumes "project_of pid s = Some p" and "p_backoff p = Some (r, since, nth_interval n)"
  shows "\<exists>s' p' r'. route_failures vs pid reason s = Inr s' \<and> project_of pid s' = Some p'
    \<and> p_backoff p' = Some (r', since, nth_interval (n + length vs))"
  using assms
proof (induction vs arbitrary: s p r n)
  case (Cons v vs)
  obtain nt s1 p1 where s1: "backoff_failure v pid reason False None s = Inr (nt, s1)"
    "project_of pid s1 = Some p1" "p_backoff p1 = Some (reason, since, nth_interval (Suc n))"
    using backoff_failure_project [OF Cons.prems(1), of v reason] Cons.prems(2)
    by (auto simp: backoff_interval_def)
  from Cons.IH [OF s1(2,3)] s1(1) show ?case by auto
qed auto

end
