(* ===== verification/Board.thy ===== *)
theory Board
  imports Operate Stories
begin

section \<open>Board: filing, editing, moving and canceling a native board's tickets\<close>

text \<open>
  \<^verbatim>\<open>store/board.py\<close>. What the module calls outside the store is a field of \<open>board_code\<close>: the
  judgement of a ticket text against a repository (problems, each with whether it is a
  \<^verbatim>\<open>PrivateProblem\<close>, and advisories), the \<^verbatim>\<open>Depends on\<close> identifiers of a text, the contract
  \<^verbatim>\<open>task_contract(parse_body(...))\<close> with its budget in minutes, and \<^verbatim>\<open>rewrite_depends\<close>.

  The lemmas give the refusals in the order the code makes them, that a refused call writes
  nothing, that filing numbers tickets by the project's counter, and that resolving readies
  exactly the waiting tickets whose dependencies are merged.
\<close>

record board_code =
  bc_judge :: "string \<Rightarrow> string \<Rightarrow> (string \<times> bool) list \<times> string list"
  bc_depends :: "string \<Rightarrow> string list"
  bc_contract :: "string \<Rightarrow> string \<Rightarrow> string \<times> string list \<times> string list \<times> int"
  bc_rewrite :: "string \<Rightarrow> string list \<Rightarrow> string"

fun board_state_name :: "board_column \<Rightarrow> string" where
  "board_state_name BC_BACKLOG = ''Backlog''"
| "board_state_name BC_READY = ''Ready''"
| "board_state_name BC_CANCELED = ''Canceled''"

subsection \<open>Reads\<close>

definition repo_path :: "nat \<Rightarrow> store \<Rightarrow> err + string" where
  "repo_path pid s =
     (case project_of pid s of
        None \<Rightarrow> Inl (FilingRefused [''project does not exist''])
      | Some p \<Rightarrow> Inr (p_repo p))"

definition ticket_problems :: "board_code \<Rightarrow> string \<Rightarrow> string \<Rightarrow> (string \<times> bool) list" where
  "ticket_problems bc txt repo = fst (bc_judge bc repo txt)"

definition blocks_filing :: "(string \<times> bool) list \<Rightarrow> board_column option \<Rightarrow> bool" where
  "blocks_filing problems column \<longleftrightarrow>
     problems \<noteq> [] \<and> (column \<noteq> Some BC_BACKLOG \<or> list_ex snd problems)"

definition named_ticket :: "nat \<Rightarrow> string \<Rightarrow> store \<Rightarrow> ticket_row option" where
  "named_ticket pid ident s = find (\<lambda>t. t_project t = pid \<and> t_ident t = ident) (tickets s)"

text \<open>
  The rows of the project but the ticket itself, by identifier (of two rows the last): the
  issue ids the text depends on, and whether one of them is unmerged.
\<close>

definition dependencies ::
    "board_code \<Rightarrow> nat \<Rightarrow> string \<Rightarrow> nat option \<Rightarrow> store \<Rightarrow> err + string list \<times> bool" where
  "dependencies bc pid txt self s =
     (let named = bc_depends bc txt;
          rows = map_of (rev (map (\<lambda>t. (t_ident t, t)) (filter (\<lambda>t. t_project t = pid \<and> Some (t_id t) \<noteq> self)
            (tickets s))));
          unknown = filter (\<lambda>dep. rows dep = None) named;
          found = List.map_filter rows named
      in if unknown \<noteq> []
         then Inl (FilingRefused (map (\<lambda>dep. ''Depends on names no ticket of this project: '' @ dep) unknown))
         else Inr (map t_issue found, list_ex (\<lambda>t. t_status t \<noteq> TS_MERGED) found))"

record ticket_check =
  tc_problems :: "string list"
  tc_advisories :: "string list"
  tc_blocks :: bool

definition check_ticket ::
    "env \<Rightarrow> board_code \<Rightarrow> nat \<Rightarrow> string \<Rightarrow> string option \<Rightarrow> board_column option \<Rightarrow> store \<Rightarrow>
     err + ticket_check" where
  "check_ticket v bc pid txt ident column s =
     bindE (repo_path pid s) (\<lambda>repo.
       let (problems, advisories) = bc_judge bc repo txt;
           row = Option.bind ident (\<lambda>i. named_ticket pid i s);
           self = map_option t_id row;
           column = (case row of None \<Rightarrow> column | Some t \<Rightarrow> t_column t);
           unknown = (case dependencies bc pid txt self s of
             Inl (FilingRefused ps) \<Rightarrow> map (redact_values (secrets v)) ps | _ \<Rightarrow> [])
       in Inr \<lparr>tc_problems = map fst problems @ unknown, tc_advisories = advisories,
               tc_blocks = (unknown \<noteq> [] \<or> blocks_filing problems column)\<rparr>)"

subsection \<open>Writes shared by the operations\<close>

record board_fields =
  bf_priority :: "int option"
  bf_labels :: "string list option"
  bf_column :: "board_column option"
  bf_filed :: "int option"
  bf_url :: "string option"
  bf_state :: "string option"
  bf_affinity :: affinity

definition write_ticket ::
    "env \<Rightarrow> board_code \<Rightarrow> nat \<Rightarrow> string \<Rightarrow> string \<Rightarrow> string \<Rightarrow> bool \<Rightarrow> string \<Rightarrow> string list \<Rightarrow> board_fields \<Rightarrow>
     nat option \<Rightarrow> store \<Rightarrow> err + nat \<times> store" where
  "write_ticket v bc pid issue ident txt specced author depends f expected s =
     (let (title, criteria, commands, budget) = bc_contract bc ident txt
      in mirror_ticket v pid
           \<lparr>bi_issue = issue, bi_ident = ident, bi_title = title,
            bi_criteria = (if specced then criteria else []),
            bi_commands = (if specced then commands else []),
            bi_time_box = Some (budget * 60 * 1000), bi_affinity = bf_affinity f,
            bi_depends = Some depends, bi_body = txt, bi_url = bf_url f, bi_board_state = bf_state f,
            bi_priority = bf_priority f, bi_labels = bf_labels f, bi_column = bf_column f,
            bi_filed = bf_filed f, bi_board_updated = Some (clock v)\<rparr> expected author s)"

definition park_waiting :: "nat \<Rightarrow> bool \<Rightarrow> store \<Rightarrow> err + store" where
  "park_waiting tid waiting s =
     (case ticket_of tid s of
        None \<Rightarrow> Inl (ValueError ''NoneType is not iterable'')
      | Some t \<Rightarrow>
          (if waiting \<and> t_status t = TS_READY
           then bindE (transition tid TS_BLOCKED_ON_DEPS s) (\<lambda>(_, s). Inr s) else Inr s))"

definition record_column ::
    "env \<Rightarrow> nat \<Rightarrow> board_column \<Rightarrow> string \<Rightarrow> string \<Rightarrow> string \<Rightarrow> store \<Rightarrow> err + nat option \<times> store" where
  "record_column v tid column kind txt author s =
     (let s = set_board_state tid (Some (board_state_name column)) (Some column) s
      in bindE (record_board_fields v tid author s) (\<lambda>(revision, s).
           Inr (revision, snd (record_note v tid kind txt
             (Some (kind @ '':'' @ str_option revision)) author None s))))"

definition open_ticket :: "nat \<Rightarrow> string \<Rightarrow> nat \<Rightarrow> store \<Rightarrow> err + ticket_row" where
  "open_ticket pid ident expected s =
     (case named_ticket pid ident s of
        None \<Rightarrow> Inl (FilingRefused [''no ticket in this project''])
      | Some t \<Rightarrow>
          (if t_revision t \<noteq> expected then Inl (RevisionMoved ident expected (t_revision t))
           else if t_column t = Some BC_CANCELED then Inl (FilingRefused [''is canceled''])
           else if t_status t = TS_MERGED \<or> t_status t = TS_ABANDONED
           then Inl (FilingRefused [''is closed''])
           else Inr t))"

subsection \<open>Filing and editing\<close>

definition file_ticket ::
    "env \<Rightarrow> board_code \<Rightarrow> nat \<Rightarrow> string \<Rightarrow> string \<Rightarrow> board_column \<Rightarrow> int option \<Rightarrow> string \<Rightarrow> store \<Rightarrow>
     err + string \<times> store" where
  [op_defs]: "file_ticket v bc pid key txt column priority author s =
     bindE (repo_path pid s) (\<lambda>repo.
       let problems = ticket_problems bc txt repo
       in if blocks_filing problems (Some column) then Inl (FilingRefused (map fst problems))
          else bindE (dependencies bc pid txt None s) (\<lambda>(depends, waiting).
            let s = upd_project pid (\<lambda>p. p\<lparr>p_seq := p_seq p + 1\<rparr>) s
            in case project_of pid s of
                 None \<Rightarrow> Inl (ValueError ''NoneType is not iterable'')
               | Some p \<Rightarrow>
                   (let ident = key @ ''-'' @ str_nat (p_seq p)
                    in if ident \<in> t_issue ` set (tickets s)
                       then Inl (FilingRefused [''ticket '' @ ident @ '' already exists''])
                       else bindE (write_ticket v bc pid ident ident txt (problems = []) author depends
                              \<lparr>bf_priority = priority, bf_labels = None, bf_column = Some column,
                               bf_filed = Some (clock v), bf_url = None, bf_state = None,
                               bf_affinity = AF_ANY\<rparr> None s) (\<lambda>(tid, s).
                         bindE (park_waiting tid waiting s) (\<lambda>s. Inr (ident, s))))))"

definition edit_ticket ::
    "env \<Rightarrow> board_code \<Rightarrow> nat \<Rightarrow> string \<Rightarrow> string \<Rightarrow> nat \<Rightarrow> string \<Rightarrow> int option \<Rightarrow> string list option \<Rightarrow>
     store \<Rightarrow> err + nat \<times> store" where
  [op_defs]: "edit_ticket v bc pid ident txt expected author priority labels s =
     bindE (repo_path pid s) (\<lambda>repo.
       let problems = ticket_problems bc txt repo
       in case named_ticket pid ident s of
            None \<Rightarrow> Inl (FilingRefused [''no ticket in this project''])
          | Some t \<Rightarrow>
              (if t_revision t \<noteq> expected then Inl (RevisionMoved ident expected (t_revision t))
               else if blocks_filing problems (t_column t) then Inl (FilingRefused (map fst problems))
               else bindE (dependencies bc pid txt (Some (t_id t)) s) (\<lambda>(depends, waiting).
                 bindE (write_ticket v bc pid (t_issue t) ident txt (problems = []) author depends
                     \<lparr>bf_priority = priority, bf_labels = labels, bf_column = None,
                      bf_filed = None, bf_url = t_url t, bf_state = t_board_state t,
                      bf_affinity = t_affinity t\<rparr> (Some expected) s) (\<lambda>(_, s).
                 bindE (park_waiting (t_id t) waiting s) (\<lambda>s.
                   case ticket_of (t_id t) s of
                     None \<Rightarrow> Inl (ValueError ''NoneType is not iterable'')
                   | Some t \<Rightarrow> Inr (t_revision t, s))))))"

subsection \<open>Moving\<close>

definition move_ticket ::
    "env \<Rightarrow> board_code \<Rightarrow> nat \<Rightarrow> string \<Rightarrow> board_column \<Rightarrow> nat \<Rightarrow> string \<Rightarrow> string option \<Rightarrow> store \<Rightarrow>
     err + nat option \<times> store" where
  [op_defs]: "move_ticket v bc pid ident column expected author note s =
     (if column = BC_CANCELED then Inl (ValueError ''a ticket moves to ready or backlog'')
      else bindE (repo_path pid s) (\<lambda>repo.
        bindE (open_ticket pid ident expected s) (\<lambda>t.
          if t_column t = Some column then Inl (FilingRefused [''nothing changed''])
          else
            (let problems = ticket_problems bc (t_body t) repo
             in if column = BC_READY \<and> problems \<noteq> [] then Inl (FilingRefused (map fst problems))
                else record_column v (t_id t) column ''move''
                       (case note of
                          None \<Rightarrow> ''Moved to '' @ board_state_name column @ ''.''
                        | Some n \<Rightarrow> if n = [] then ''Moved to '' @ board_state_name column @ ''.'' else n)
                       author s))))"

subsection \<open>Resolving dependencies\<close>

definition project_tickets :: "nat \<Rightarrow> store \<Rightarrow> ticket_row list" where
  "project_tickets pid s = sort_key t_id (filter (\<lambda>t. t_project t = pid) (tickets s))"

definition status_of_issue :: "nat \<Rightarrow> store \<Rightarrow> string \<Rightarrow> ticket_status option" where
  "status_of_issue pid s =
     map_of (rev (map (\<lambda>t. (t_issue t, t_status t)) (project_tickets pid s)))"

definition deps_merged :: "(string \<Rightarrow> ticket_status option) \<Rightarrow> string list \<Rightarrow> bool" where
  "deps_merged status_of depends \<longleftrightarrow> list_all (\<lambda>dep. status_of dep = Some TS_MERGED) depends"

definition resolvable :: "(string \<Rightarrow> ticket_status option) \<Rightarrow> ticket_row \<Rightarrow> bool" where
  "resolvable status_of t \<longleftrightarrow>
     t_status t = TS_BLOCKED_ON_DEPS \<and> t_depends t \<noteq> [] \<and> t_criteria t \<noteq> [] \<and> t_commands t \<noteq> []
     \<and> deps_merged status_of (t_depends t)"

abbreviation ready_ticket :: "nat \<Rightarrow> store \<Rightarrow> err + store" where
  "ready_ticket tid s \<equiv> bindE (transition tid TS_READY s) (\<lambda>(_, s). Inr s)"

definition resolve_dependencies :: "nat \<Rightarrow> store \<Rightarrow> err + string list \<times> store" where
  [op_defs]: "resolve_dependencies pid s =
     (let met = filter (resolvable (status_of_issue pid s)) (project_tickets pid s)
      in bindE (foldE (\<lambda>t. ready_ticket (t_id t)) met s) (\<lambda>s. Inr (map t_ident met, s)))"

subsection \<open>Canceling\<close>

definition rewrite_dependencies ::
    "env \<Rightarrow> board_code \<Rightarrow> nat \<Rightarrow> nat \<Rightarrow> string list \<Rightarrow> string list \<Rightarrow> string \<Rightarrow> store \<Rightarrow> err + store" where
  "rewrite_dependencies v bc pid tid rewired named author s =
     (case ticket_of tid s of
        None \<Rightarrow> Inl (ValueError ''NoneType is not iterable'')
      | Some t \<Rightarrow>
          bindE (write_ticket v bc pid (t_issue t) (t_ident t) (bc_rewrite bc (t_body t) named)
              (t_criteria t \<noteq> []) author rewired
              \<lparr>bf_priority = None, bf_labels = None, bf_column = None, bf_filed = None,
               bf_url = t_url t, bf_state = t_board_state t, bf_affinity = t_affinity t\<rparr>
              (Some (t_revision t)) s) (\<lambda>(_, s). Inr s))"

definition ready_if_met ::
    "nat \<Rightarrow> string list \<Rightarrow> (string \<Rightarrow> ticket_status option) \<Rightarrow> store \<Rightarrow> err + store" where
  "ready_if_met tid depends status_of s =
     (case ticket_of tid s of
        None \<Rightarrow> Inl (ValueError ''NoneType is not iterable'')
      | Some t \<Rightarrow>
          (if t_status t = TS_BLOCKED_ON_DEPS \<and> t_criteria t \<noteq> [] \<and> t_commands t \<noteq> []
              \<and> deps_merged status_of depends
           then ready_ticket tid s else Inr s))"

definition rewire_one ::
    "env \<Rightarrow> board_code \<Rightarrow> nat \<Rightarrow> ticket_row \<Rightarrow> (string \<Rightarrow> string) \<Rightarrow> (string \<Rightarrow> ticket_status option) \<Rightarrow>
     string \<Rightarrow> ticket_row \<Rightarrow> store \<Rightarrow> err + store" where
  "rewire_one v bc pid c name_of status_of author t s =
     (let rewired = inherited_edges (t_depends t) (t_issue c) (t_depends c);
          named = map name_of rewired
      in bindE (rewrite_dependencies v bc pid (t_id t) rewired named author s) (\<lambda>s.
         let s = snd (record_note v (t_id t) ''rewire''
               (t_ident c @ '' was canceled: Depends on '' @ t_ident c @ '' is now ''
                 @ (if join '', '' named = [] then ''none'' else join '', '' named))
               (Some (''rewire:'' @ t_ident c)) author None s)
         in bindE (ready_if_met (t_id t) rewired status_of s) (\<lambda>s.
            rewire_approved_edge (t_id t) (t_issue c) (t_depends c) s)))"

definition depends_on_canceled :: "string \<Rightarrow> ticket_row \<Rightarrow> bool" where
  "depends_on_canceled issue t \<longleftrightarrow>
     issue \<in> set (t_depends t) \<and> t_status t \<noteq> TS_MERGED \<and> t_status t \<noteq> TS_ABANDONED
     \<and> t_column t \<noteq> Some BC_CANCELED"

definition rewire_dependents ::
    "env \<Rightarrow> board_code \<Rightarrow> nat \<Rightarrow> nat \<Rightarrow> string \<Rightarrow> store \<Rightarrow> err + store" where
  "rewire_dependents v bc pid canceled author s =
     (case ticket_of canceled s of
        None \<Rightarrow> Inl (ValueError ''NoneType is not iterable'')
      | Some c \<Rightarrow>
          (let rows = project_tickets pid s;
               names = map_of (rev (map (\<lambda>t. (t_issue t, t_ident t)) rows));
               name_of = (\<lambda>dep. case names dep of None \<Rightarrow> dep | Some i \<Rightarrow> i)
           in foldE (rewire_one v bc pid c name_of (status_of_issue pid s) author)
                (filter (depends_on_canceled (t_issue c)) rows) s))"

definition last_run :: "nat \<Rightarrow> store \<Rightarrow> run_row option" where
  "last_run tid s = Option.bind (ticket_of tid s) (\<lambda>t. Option.bind (t_last t) (\<lambda>k. run_of k s))"

definition merged_park :: "run_row \<Rightarrow> bool" where
  "merged_park r \<longleftrightarrow>
     r_ended r = None \<and> r_phase r = PH_BLOCKED_ON_OPERATOR \<and> r_park r \<noteq> Some PK_CONTRADICTION"

definition refuse_merged_park :: "nat \<Rightarrow> store \<Rightarrow> err + unit" where
  "refuse_merged_park tid s =
     (case last_run tid s of
        None \<Rightarrow> Inr ()
      | Some r \<Rightarrow>
          if merged_park r
          then Inl (FilingRefused [''parked blocked_on_operator after its merge landed'']) else Inr ())"

definition closable_park :: "run_row \<Rightarrow> bool" where
  "closable_park r \<longleftrightarrow>
     r_ended r = None \<and> (r_phase r = PH_AWAITING_MERGE_APPROVAL \<or> r_park r = Some PK_CONTRADICTION)"

definition close_parked_run :: "env \<Rightarrow> nat \<Rightarrow> string \<Rightarrow> store \<Rightarrow> err + bool \<times> store" where
  "close_parked_run v tid ident s =
     (case last_run tid s of
        None \<Rightarrow> Inr (False, s)
      | Some r \<Rightarrow>
          (if \<not> closable_park r then Inr (False, s)
           else
             (let kept = (case r_pr r of None \<Rightarrow> [] | Some url \<Rightarrow> '' and '' @ url @ '' left open'')
              in bindE (record_intervention v (r_id r) IA_CLOSE_OUT
                     (ident @ '' canceled on the board; run '' @ str_nat (r_id r)
                       @ '' ended abandoned'' @ kept)
                     IS_HUMAN IT_BOARD_CANCELLED None None None None s) (\<lambda>(_, s).
                 bindE (release_abandoned v (r_id r) (''canceled on the board'' @ kept) s) (\<lambda>s.
                   Inr (True, s))))))"

definition parked_on_pull_request :: "nat \<Rightarrow> store \<Rightarrow> bool" where
  "parked_on_pull_request tid s \<longleftrightarrow>
     (case last_run tid s of
        None \<Rightarrow> False
      | Some r \<Rightarrow> (r_phase r = PH_AWAITING_MERGE_APPROVAL \<or> r_phase r = PH_REJECTED) \<and> r_pr r \<noteq> None)"

abbreviation abandon_ticket :: "nat \<Rightarrow> store \<Rightarrow> err + store" where
  "abandon_ticket tid s \<equiv> bindE (walk_ticket tid TS_ABANDONED s) (\<lambda>(_, s). Inr s)"

text \<open>What becomes of the ticket's run: a live one is asked to stop, a parked one ends.\<close>

definition cancel_run :: "env \<Rightarrow> ticket_row \<Rightarrow> string \<Rightarrow> string \<Rightarrow> store \<Rightarrow> err + store" where
  "cancel_run v t ident note s =
     (case t_active t of
        Some rid \<Rightarrow> bindE (abort v rid note IS_HUMAN False IT_BOARD_CANCELLED None s) (\<lambda>(_, s). Inr s)
      | None \<Rightarrow>
          bindE (close_parked_run v (t_id t) ident s) (\<lambda>(closed, s).
            if closed then abandon_ticket (t_id t) s
            else if t_status t \<noteq> TS_BLOCKED_ON_OPERATOR \<or> \<not> parked_on_pull_request (t_id t) s
            then abandon_ticket (t_id t) s
            else Inr s))"

definition cancel_ticket ::
    "env \<Rightarrow> board_code \<Rightarrow> nat \<Rightarrow> string \<Rightarrow> nat \<Rightarrow> string \<Rightarrow> string \<Rightarrow> store \<Rightarrow> err + nat option \<times> store" where
  [op_defs]: "cancel_ticket v bc pid ident expected note author s =
     bindE (open_ticket pid ident expected s) (\<lambda>t.
     bindE (refuse_merged_park (t_id t) s) (\<lambda>_.
     bindE (record_column v (t_id t) BC_CANCELED ''cancel'' note author s) (\<lambda>(revision, s).
     bindE (rewire_dependents v bc pid (t_id t) author s) (\<lambda>s.
     bindE (cancel_run v t ident note s) (\<lambda>s.
     bindE (case story_row (t_id t) s of
              None \<Rightarrow> Inr s
            | Some y \<Rightarrow> if y_ticket y = t_id t then abandon_story v (t_id t) note author s else Inr s) (\<lambda>s.
       Inr (revision, s)))))))"

subsection \<open>Refusals, in the order the code makes them\<close>

lemma file_unknown_project: "project_of pid s = None \<Longrightarrow> file_ticket v bc pid key txt c pr au s = Inl (FilingRefused [''project does not exist''])"
  by (simp add: file_ticket_def repo_path_def)

lemma file_refused_text:
  assumes "project_of pid s = Some p" and "ticket_problems bc txt (p_repo p) \<noteq> []"
    and "column \<noteq> BC_BACKLOG"
  shows "file_ticket v bc pid key txt column pr au s
    = Inl (FilingRefused (map fst (ticket_problems bc txt (p_repo p))))"
  using assms by (simp add: file_ticket_def repo_path_def blocks_filing_def)

text \<open>A private literal is refused in every column, the backlog too.\<close>

lemma private_blocks: "list_ex snd problems \<Longrightarrow> blocks_filing problems column"
  by (cases problems) (auto simp: blocks_filing_def)

lemma file_refused_private:
  assumes "project_of pid s = Some p" and "list_ex snd (ticket_problems bc txt (p_repo p))"
  shows "file_ticket v bc pid key txt column pr au s
    = Inl (FilingRefused (map fst (ticket_problems bc txt (p_repo p))))"
  using assms by (simp add: file_ticket_def repo_path_def private_blocks)

lemma open_ticket_Inr:
  "open_ticket pid ident expected s = Inr t \<longleftrightarrow>
     named_ticket pid ident s = Some t \<and> t_revision t = expected \<and> t_column t \<noteq> Some BC_CANCELED
     \<and> t_status t \<noteq> TS_MERGED \<and> t_status t \<noteq> TS_ABANDONED"
  by (auto simp: open_ticket_def split: option.split)

lemma open_ticket_moved:
  "named_ticket pid ident s = Some t \<Longrightarrow> t_revision t \<noteq> expected \<Longrightarrow>
   open_ticket pid ident expected s = Inl (RevisionMoved ident expected (t_revision t))"
  by (simp add: open_ticket_def)

lemma refuse_merged_park_Inr:
  "refuse_merged_park tid s = Inr u \<longleftrightarrow> (\<forall>r. last_run tid s = Some r \<longrightarrow> \<not> merged_park r)"
  by (auto simp: refuse_merged_park_def split: option.split)

subsection \<open>Resolving readies exactly the tickets whose dependencies are merged\<close>

definition readied :: "nat set \<Rightarrow> ticket_row \<Rightarrow> ticket_row" where
  "readied ids t = (if t_id t \<in> ids then t\<lparr>t_status := TS_READY\<rparr> else t)"

lemma ready_ticket_tickets:
  assumes "ready_ticket tid s = Inr u"
  shows "tickets u = map (readied {tid}) (tickets s)"
proof -
  obtain old where "transition tid TS_READY s = Inr (old, u)" using assms by auto
  then show ?thesis by (elim transition_cases) (simp add: modify_def readied_def)
qed

lemma readied_readied: "readied A (readied B t) = readied (A \<union> B) t"
  by (simp add: readied_def)

lemma ready_all_tickets:
  assumes "foldE (\<lambda>t. ready_ticket (t_id t)) met s = Inr u"
  shows "tickets u = map (readied (t_id ` set met)) (tickets s)"
  using assms
proof (induction met arbitrary: s)
  case Nil
  then show ?case by (simp add: readied_def)
next
  case (Cons m met)
  then obtain w where w: "ready_ticket (t_id m) s = Inr w"
    and u: "foldE (\<lambda>t. ready_ticket (t_id t)) met w = Inr u" by auto
  show ?case
    using Cons.IH [OF u] ready_ticket_tickets [OF w] by (simp add: readied_readied o_def)
qed

text \<open>No resolution fails: every ticket it readies still waits when its turn comes.\<close>

lemma ready_all_ok:
  assumes "distinct (map t_id met)"
    and "\<And>t. t \<in> set met \<Longrightarrow> \<exists>q. ticket_of (t_id t) s = Some q \<and> t_status q = TS_BLOCKED_ON_DEPS"
  shows "\<exists>u. foldE (\<lambda>t. ready_ticket (t_id t)) met s = Inr u"
  using assms
proof (induction met arbitrary: s)
  case (Cons m met)
  obtain q where q: "ticket_of (t_id m) s = Some q" "t_status q = TS_BLOCKED_ON_DEPS"
    using Cons.prems(2) by auto
  then obtain w where w: "transition (t_id m) TS_READY s = Inr (TS_BLOCKED_ON_DEPS, w)"
    using transition_ok [OF q(1), of TS_READY] by auto
  have "\<exists>q. ticket_of (t_id t) w = Some q \<and> t_status q = TS_BLOCKED_ON_DEPS" if "t \<in> set met" for t
    using Cons.prems that transition_ticket [OF w, of "t_id t"] by (auto simp: image_iff)
  with Cons.IH [of w] Cons.prems(1) w show ?case by auto
qed simp

lemma project_tickets_set [simp]: "set (project_tickets pid s) = {t \<in> set (tickets s). t_project t = pid}"
  by (simp add: project_tickets_def)

lemma project_tickets_distinct:
  "keyed t_id (tickets s) \<Longrightarrow> distinct (map t_id (filter P (project_tickets pid s)))"
  unfolding project_tickets_def keyed_def
  by (intro distinct_map_filter) (simp add: distinct_map inj_on_def)

lemma insort_key_map: "insort_key f (g x) (map g xs) = map g (insort_key (f \<circ> g) x xs)"
  by (induction xs) auto

lemma sort_key_map: "sort_key f (map g xs) = map g (sort_key (f \<circ> g) xs)"
  by (induction xs) (simp_all add: insort_key_map o_def)

lemma map_of_same_value:
  "(\<And>x. x \<in> set xs \<Longrightarrow> h x = M \<longleftrightarrow> h' x = M) \<Longrightarrow>
   map_of (map (\<lambda>x. (k x, h x)) xs) d = Some M \<longleftrightarrow> map_of (map (\<lambda>x. (k x, h' x)) xs) d = Some M"
  by (induction xs) auto

lemma readied_fields [simp]:
  "t_id (readied ids t) = t_id t" "t_project (readied ids t) = t_project t"
  "t_issue (readied ids t) = t_issue t" "t_depends (readied ids t) = t_depends t"
  "t_criteria (readied ids t) = t_criteria t" "t_commands (readied ids t) = t_commands t"
  by (simp_all add: readied_def)

lemma project_tickets_readied:
  "tickets u = map (readied ids) (tickets s) \<Longrightarrow>
   project_tickets pid u = map (readied ids) (project_tickets pid s)"
  by (simp add: project_tickets_def filter_map o_def sort_key_map)

text \<open>Readying tickets that wait changes no dependency's being merged.\<close>

lemma deps_merged_readied:
  assumes "tickets u = map (readied ids) (tickets s)"
    and "\<And>t. t \<in> set (tickets s) \<Longrightarrow> t_id t \<in> ids \<Longrightarrow> t_status t = TS_BLOCKED_ON_DEPS"
  shows "deps_merged (status_of_issue pid u) ds \<longleftrightarrow> deps_merged (status_of_issue pid s) ds"
proof -
  have "status_of_issue pid u d = Some TS_MERGED \<longleftrightarrow> status_of_issue pid s d = Some TS_MERGED" for d
    unfolding status_of_issue_def project_tickets_readied [OF assms(1)] rev_map map_map o_def readied_fields
    by (rule map_of_same_value) (auto simp: readied_def dest: assms(2))
  then show ?thesis by (simp add: deps_merged_def)
qed

lemma resolve_readies:
  fixes pid :: nat and s :: store
  assumes "keyed t_id (tickets s)"
  defines "met \<equiv> filter (resolvable (status_of_issue pid s)) (project_tickets pid s)"
  obtains u where "resolve_dependencies pid s = Inr (map t_ident met, u)"
    and "tickets u = map (readied (t_id ` set met)) (tickets s)"
    and "filter (resolvable (status_of_issue pid u)) (project_tickets pid u) = []"
proof -
  have "\<exists>q. ticket_of (t_id t) s = Some q \<and> t_status q = TS_BLOCKED_ON_DEPS" if "t \<in> set met" for t
    using that assms(1) by (auto simp: met_def resolvable_def fetch_member)
  moreover have "distinct (map t_id met)"
    using assms(1) by (simp add: met_def project_tickets_distinct)
  ultimately obtain u where u: "foldE (\<lambda>t. ready_ticket (t_id t)) met s = Inr u"
    using ready_all_ok by blast
  note tickets = ready_all_tickets [OF u]
  have waits: "t_status t = TS_BLOCKED_ON_DEPS" if t: "t \<in> set (tickets s)" "t_id t \<in> t_id ` set met" for t
  proof -
    obtain q where "q \<in> set met" "t_id t = t_id q" using t(2) by auto
    moreover from this have "q \<in> set (tickets s)" by (simp add: met_def)
    ultimately have "q = t"
      using fetch_member [OF assms(1), of q] fetch_member [OF assms(1), of t] t(1) by simp
    with \<open>q \<in> set met\<close> show ?thesis by (simp add: met_def resolvable_def)
  qed
  have "\<not> resolvable (status_of_issue pid u) (readied (t_id ` set met) t)" if "t \<in> set (project_tickets pid s)" for t
    using that deps_merged_readied [OF tickets waits, of pid]
    by (auto simp: resolvable_def readied_def met_def)
  then have "filter (resolvable (status_of_issue pid u)) (project_tickets pid u) = []"
    unfolding project_tickets_readied [OF tickets] by (simp add: filter_empty_conv)
  then show ?thesis
    using u tickets by (intro that) (auto simp: resolve_dependencies_def met_def)
qed

subsection \<open>Every call is safe\<close>

lemma write_ticket_safe: "write_ticket v bc pid is i tx sp au d f ex s = Inr (k, t) \<Longrightarrow> safe s t"
  unfolding write_ticket_def by (auto simp: Let_def split: prod.split_asm dest: mirror_ticket_safe)

lemma ready_ticket_safe: "ready_ticket k s = Inr t \<Longrightarrow> safe s t"
  by (auto intro: transition_safe)

lemma park_waiting_safe: "park_waiting k w s = Inr t \<Longrightarrow> safe s t"
  by (auto simp: park_waiting_def intro: transition_safe split: option.split_asm if_split_asm)

lemma record_column_safe:
  assumes "record_column v k col kd tx au s = Inr (rv, t)"
  shows "safe s t"
proof -
  let ?s = "set_board_state k (Some (board_state_name col)) (Some col) s"
  obtain u where u: "record_board_fields v k au ?s = Inr (rv, u)"
    and t: "t = snd (record_note v k kd tx (Some (kd @ '':'' @ str_option rv)) au None u)"
    using assms unfolding record_column_def Let_def by auto
  have "safe s ?s" "safe ?s u" "safe u t" using record_board_fields_safe [OF u] t by simp_all
  then show ?thesis using safe_trans by blast
qed

lemma file_ticket_cases:
  assumes "file_ticket v bc pid key txt column priority author s = Inr (ident, s')"
  obtains p u depends waiting tid w repo where "repo_path pid s = Inr repo"
    "\<not> blocks_filing (ticket_problems bc txt repo) (Some column)"
    "dependencies bc pid txt None s = Inr (depends, waiting)"
    "u = upd_project pid (\<lambda>p. p\<lparr>p_seq := p_seq p + 1\<rparr>) s" "project_of pid u = Some p"
    "ident = key @ ''-'' @ str_nat (p_seq p)" "ident \<notin> t_issue ` set (tickets u)"
    "write_ticket v bc pid ident ident txt (ticket_problems bc txt repo = []) author depends
       \<lparr>bf_priority = priority, bf_labels = None, bf_column = Some column, bf_filed = Some (clock v),
        bf_url = None, bf_state = None, bf_affinity = AF_ANY\<rparr> None u = Inr (tid, w)"
    "park_waiting tid waiting w = Inr s'"
proof -
  let ?u = "upd_project pid (\<lambda>p. p\<lparr>p_seq := p_seq p + 1\<rparr>) s"
  obtain repo where repo: "repo_path pid s = Inr repo"
    using assms unfolding file_ticket_def by auto
  with assms have ok: "\<not> blocks_filing (ticket_problems bc txt repo) (Some column)"
    unfolding file_ticket_def by (auto simp: Let_def)
  with assms repo obtain depends waiting where d: "dependencies bc pid txt None s = Inr (depends, waiting)"
    unfolding file_ticket_def by (auto simp: Let_def)
  with assms repo ok obtain p where p: "project_of pid ?u = Some p"
    unfolding file_ticket_def by (cases "project_of pid ?u") (auto simp: Let_def)
  let ?i = "key @ ''-'' @ str_nat (p_seq p)"
  have i: "?i \<notin> t_issue ` set (tickets ?u)"
    using assms repo ok d p unfolding file_ticket_def by (auto simp: Let_def split: if_split_asm)
  obtain tid w where "write_ticket v bc pid ?i ?i txt (ticket_problems bc txt repo = []) author depends
       \<lparr>bf_priority = priority, bf_labels = None, bf_column = Some column, bf_filed = Some (clock v),
        bf_url = None, bf_state = None, bf_affinity = AF_ANY\<rparr> None ?u = Inr (tid, w)"
    "park_waiting tid waiting w = Inr s'" "ident = ?i"
    using assms repo ok d p i unfolding file_ticket_def by (auto simp: Let_def)
  with that repo ok d p i show ?thesis by blast
qed

lemma file_ticket_safe: "file_ticket v bc pid key tx c pr au s = Inr (i, t) \<Longrightarrow> safe s t"
  by (elim file_ticket_cases) (metis safe_trans upd_project_safe write_ticket_safe park_waiting_safe)

lemma edit_ticket_cases:
  assumes "edit_ticket v bc pid ident txt expected author priority labels s = Inr (rv, s')"
  obtains t repo depends waiting k w where "repo_path pid s = Inr repo" "named_ticket pid ident s = Some t"
    "t_revision t = expected" "\<not> blocks_filing (ticket_problems bc txt repo) (t_column t)"
    "dependencies bc pid txt (Some (t_id t)) s = Inr (depends, waiting)"
    "write_ticket v bc pid (t_issue t) ident txt (ticket_problems bc txt repo = []) author depends
       \<lparr>bf_priority = priority, bf_labels = labels, bf_column = None, bf_filed = None,
        bf_url = t_url t, bf_state = t_board_state t, bf_affinity = t_affinity t\<rparr> (Some expected) s = Inr (k, w)"
    "park_waiting (t_id t) waiting w = Inr s'"
proof -
  obtain repo where repo: "repo_path pid s = Inr repo"
    using assms unfolding edit_ticket_def by auto
  with assms obtain t where t: "named_ticket pid ident s = Some t"
    unfolding edit_ticket_def by (cases "named_ticket pid ident s") (auto simp: Let_def)
  with assms repo have ok: "t_revision t = expected" "\<not> blocks_filing (ticket_problems bc txt repo) (t_column t)"
    unfolding edit_ticket_def by (auto simp: Let_def split: if_split_asm)
  with assms repo t obtain depends waiting where d: "dependencies bc pid txt (Some (t_id t)) s = Inr (depends, waiting)"
    unfolding edit_ticket_def by (auto simp: Let_def)
  with assms repo t ok obtain k w u where "write_ticket v bc pid (t_issue t) ident txt (ticket_problems bc txt repo = []) author depends
       \<lparr>bf_priority = priority, bf_labels = labels, bf_column = None, bf_filed = None,
        bf_url = t_url t, bf_state = t_board_state t, bf_affinity = t_affinity t\<rparr> (Some expected) s = Inr (k, w)"
    "park_waiting (t_id t) waiting w = Inr u"
    "(case ticket_of (t_id t) u of None \<Rightarrow> Inl (ValueError ''NoneType is not iterable'')
       | Some t \<Rightarrow> Inr (t_revision t, u)) = Inr (rv, s')"
    unfolding edit_ticket_def by (auto simp: Let_def)
  moreover from this(3) have "u = s'" by (simp split: option.split_asm)
  ultimately show ?thesis using that repo t ok d by blast
qed

lemma edit_ticket_safe: "edit_ticket v bc pid i tx ex au pr ls s = Inr (rv, t) \<Longrightarrow> safe s t"
  by (elim edit_ticket_cases) (metis safe_trans write_ticket_safe park_waiting_safe)

lemma move_ticket_safe: "move_ticket v bc pid i c ex au n s = Inr (rv, t) \<Longrightarrow> safe s t"
  unfolding move_ticket_def Let_def
  by (auto split: if_split_asm elim: record_column_safe)

lemma resolve_dependencies_safe: "resolve_dependencies pid s = Inr (is, t) \<Longrightarrow> safe s t"
  unfolding resolve_dependencies_def Let_def
  by (auto elim!: safe_foldE intro: transition_safe)

lemma ready_if_met_safe: "ready_if_met k ds st s = Inr t \<Longrightarrow> safe s t"
  by (auto simp: ready_if_met_def intro: transition_safe split: option.split_asm if_split_asm)

lemma rewrite_dependencies_safe: "rewrite_dependencies v bc pid k rw nm au s = Inr t \<Longrightarrow> safe s t"
  by (auto simp: rewrite_dependencies_def split: option.split_asm dest: write_ticket_safe)

lemma rewire_one_safe:
  assumes "rewire_one v bc pid c name st au x s = Inr t"
  shows "safe s t"
proof -
  obtain u n w where u: "rewrite_dependencies v bc pid (t_id x)
      (inherited_edges (t_depends x) (t_issue c) (t_depends c)) n au s = Inr u"
    and w: "\<exists>txt key. ready_if_met (t_id x) (inherited_edges (t_depends x) (t_issue c) (t_depends c)) st
      (snd (record_note v (t_id x) ''rewire'' txt key au None u)) = Inr w"
    and t: "rewire_approved_edge (t_id x) (t_issue c) (t_depends c) w = Inr t"
    using assms unfolding rewire_one_def Let_def by (simp only: bindE_Inr) blast
  have "safe u w" using w ready_if_met_safe safe_trans record_note_safe by blast
  with rewrite_dependencies_safe [OF u] edges_safe(2) [OF t] show ?thesis using safe_trans by blast
qed

lemma rewire_dependents_safe: "rewire_dependents v bc pid k au s = Inr t \<Longrightarrow> safe s t"
  unfolding rewire_dependents_def Let_def
  by (auto split: option.split_asm elim!: safe_foldE intro: rewire_one_safe)

lemma close_parked_run_safe: "close_parked_run v k i s = Inr (b, t) \<Longrightarrow> safe s t"
  unfolding close_parked_run_def Let_def
  by (auto split: option.split_asm if_split_asm dest!: record_intervention_safe release_safe intro: safe_trans)

lemma cancel_run_safe:
  assumes "cancel_run v x i n s = Inr t"
  shows "safe s t"
proof (cases "t_active x")
  case None
  then obtain b u where "close_parked_run v (t_id x) i s = Inr (b, u)"
    and "t = u \<or> (\<exists>p. walk_ticket (t_id x) TS_ABANDONED u = Inr (p, t))"
    using assms unfolding cancel_run_def by (auto split: if_split_asm)
  then show ?thesis using close_parked_run_safe walk_ticket_safe safe_trans by blast
next
  case (Some r)
  with assms show ?thesis by (auto simp: cancel_run_def intro: abort_safe)
qed

lemma cancel_ticket_safe:
  assumes "cancel_ticket v bc pid i ex n au s = Inr (rv, t)"
  shows "safe s t"
proof -
  obtain x u w y where "record_column v (t_id x) BC_CANCELED ''cancel'' n au s = Inr (rv, u)"
    and "rewire_dependents v bc pid (t_id x) au u = Inr w"
    and "cancel_run v x i n w = Inr y"
    and "t = y \<or> abandon_story v (t_id x) n au y = Inr t"
    using assms unfolding cancel_ticket_def
    by (simp only: bindE_Inr split_paired_Ex prod.case) (auto split: option.split_asm if_split_asm)
  then have "safe s u" "safe u w" "safe w y" "safe y t"
    by (auto intro: record_column_safe rewire_dependents_safe cancel_run_safe abandon_story_safe)
  then show ?thesis by (blast intro: safe_trans)
qed

end
