(* ===== verification/Automations.thy ===== *)
theory Automations
  imports Log
begin

section \<open>Automations: firings, pauses and merge holds\<close>

text \<open>
  \<^verbatim>\<open>store/automations.py\<close>. A firing is one row per key: reserved once, leased, taken by a
  worker, settled. Its \<^verbatim>\<open>detail\<close> is a JSON object, an association list here; \<open>json_at\<close> is
  \<^verbatim>\<open>json_extract(detail, '$.key')\<close> (a missing key and a JSON null are both SQL NULL),
  \<open>assoc_put\<close> one path of \<^verbatim>\<open>json_set\<close>, \<open>dumps_sorted\<close> \<^verbatim>\<open>json.dumps(sort_keys=True)\<close>. The store is
  at the current schema, so the guards for a table an older build lacks are not modelled. The
  replay counter is the number the same statement wrote; \<^verbatim>\<open>detail.hold\<close> is a number too.

  The lemmas say that each write is a step of the tables' lives: one row per key, one open
  pause per automation, one open hold per project, a settled firing settled for good.
\<close>

subsection \<open>The detail object\<close>

primrec sort_doc :: "json \<Rightarrow> json" where
  "sort_doc JNull = JNull"
| "sort_doc (JBool b) = JBool b"
| "sort_doc (JInt i) = JInt i"
| "sort_doc (JStr x) = JStr x"
| "sort_doc (JList xs) = JList (map sort_doc xs)"
| "sort_doc (JObj fs) = JObj (sort_key fst (map (map_prod id sort_doc) fs))"

definition dumps_sorted :: "(string \<times> json) list \<Rightarrow> (string \<times> json) list" where
  "dumps_sorted detail = sort_key fst (map (map_prod id sort_doc) detail)"

definition json_at :: "string \<Rightarrow> (string \<times> json) list \<Rightarrow> json option" where
  "json_at k detail = (case map_of detail k of Some JNull \<Rightarrow> None | x \<Rightarrow> x)"

subsection \<open>Reserving a firing\<close>

definition settled_states :: "firing_state list" where
  "settled_states = [FS_REFUSED, FS_CONFIRMED, FS_UNKNOWN, FS_CANCELED]"

definition firing_key :: "string \<Rightarrow> nat \<Rightarrow> nat \<Rightarrow> string \<Rightarrow> string \<Rightarrow> string" where
  "firing_key automation revision project subject cause =
     join '':'' [automation, str_nat revision, str_nat project, subject, cause]"

record act_count =
  ac_queued :: nat
  ac_hour :: nat
  ac_today :: nat

definition act_counts :: "nat \<Rightarrow> string \<Rightarrow> string \<Rightarrow> int \<Rightarrow> int \<Rightarrow> store \<Rightarrow> act_count" where
  "act_counts project automation action hour_since day_since s =
     (let acts = filter (\<lambda>r. fr_project r = project \<and> fr_automation r = automation
            \<and> fr_mode r = FM_ACT \<and> json_at ''action'' (fr_detail r) = Some (JStr action)
            \<and> json_at ''limit'' (fr_detail r) = None) (firings s)
      in \<lparr>ac_queued = length (filter (\<lambda>r. fr_state r = FS_LEASED) acts),
          ac_hour = length (filter (\<lambda>r. hour_since \<le> fr_created r) acts),
          ac_today = length (filter (\<lambda>r. day_since \<le> fr_created r) acts)\<rparr>)"

text \<open>
  \<^verbatim>\<open>limit\<close> is the caller's callback on the connection. A key a row holds already is taken
  over only from a proposal, and only by a lease or its refusal.
\<close>

definition taken_over ::
    "firing_mode \<Rightarrow> firing_state \<Rightarrow> string \<Rightarrow> (string \<times> json) list \<Rightarrow> int \<Rightarrow> int option \<Rightarrow> int option \<Rightarrow>
     firing_row \<Rightarrow> firing_row" where
  "taken_over mode state reason detail now settled lease r =
     r\<lparr>fr_mode := mode, fr_state := state, fr_reason := reason, fr_detail := dumps_sorted detail,
       fr_created := now, fr_settled := settled, fr_lease := lease\<rparr>"

definition reserve_firing ::
    "env \<Rightarrow> nat \<Rightarrow> string \<Rightarrow> nat \<Rightarrow> string \<Rightarrow> string \<Rightarrow> firing_mode \<Rightarrow> string \<Rightarrow> (string \<times> json) list \<Rightarrow>
     int option \<Rightarrow> (store \<Rightarrow> string option) option \<Rightarrow> store \<Rightarrow> err + nat option \<times> store" where
  [op_defs]: "reserve_firing v project automation revision subject cause mode reason detail
      lease_until limit s =
     (let key = firing_key automation revision project subject cause;
          state = (if lease_until = None then FS_PROPOSED else FS_LEASED);
          limited = (case limit of None \<Rightarrow> None
                     | Some f \<Rightarrow> if state = FS_PROPOSED then None else f s);
          (state, reason, settled, lease, detail) =
            (case limited of
               None \<Rightarrow> (state, reason, None, lease_until, detail)
             | Some why \<Rightarrow> (FS_REFUSED, why, Some (clock v), None,
                            assoc_put ''limit'' (JStr why) detail))
      in case find (\<lambda>r. fr_key r = key) (firings s) of
           None \<Rightarrow>
             (if project_of project s = None then Inl (IntegrityError ''automationFirings'')
              else
                (let i = next_id fr_id (firings s);
                     row = \<lparr>fr_id = i, fr_project = project, fr_automation = automation,
                       fr_revision = revision, fr_subject = subject, fr_cause = cause,
                       fr_key = key, fr_mode = mode, fr_state = state, fr_reason = reason,
                       fr_detail = dumps_sorted detail, fr_created = clock v,
                       fr_settled = settled, fr_lease = lease, fr_pid = None\<rparr>
                 in Inr (Some i, s\<lparr>firings := firings s @ [row]\<rparr>)))
         | Some r \<Rightarrow>
             (if fr_state r = FS_PROPOSED \<and> (state = FS_LEASED \<or> state = FS_REFUSED)
              then Inr (Some (fr_id r),
                s\<lparr>firings := modify (\<lambda>q. fr_key q = key \<and> fr_state q = FS_PROPOSED)
                    (taken_over mode state reason detail (clock v) settled lease) (firings s)\<rparr>)
              else Inr (None, s)))"

subsection \<open>Reads\<close>

text \<open>\<^verbatim>\<open>LIMIT -1\<close> is no limit.\<close>

definition all_firings :: "int \<Rightarrow> store \<Rightarrow> firing_row list" where
  "all_firings limit s =
     (let rows = sort_key (\<lambda>r. - fr_created r) (rev (sort_key fr_id (firings s)))
      in if limit < 0 then rows else take (nat limit) rows)"

definition keyed_firing :: "nat \<Rightarrow> string \<Rightarrow> nat \<Rightarrow> string \<Rightarrow> string \<Rightarrow> store \<Rightarrow> err + nat" where
  "keyed_firing project automation revision subject cause s =
     (case find (\<lambda>r. fr_key r = firing_key automation revision project subject cause) (firings s) of
        None \<Rightarrow> Inl (ValueError ''NoneType is not subscriptable'')
      | Some r \<Rightarrow> Inr (fr_id r))"

definition firing :: "nat \<Rightarrow> store \<Rightarrow> firing_row option" where
  "firing fid s = firing_of fid s"

record firing_intervention =
  fi_id :: nat
  fi_run :: "nat option"
  fi_identifier :: "string option"
  fi_action :: intervention_action
  fi_source :: intervention_source
  fi_actor :: "intervention_actor option"
  fi_note :: "string option"
  fi_at :: int

definition run_ticket :: "nat option \<Rightarrow> store \<Rightarrow> ticket_row option" where
  "run_ticket rid s = Option.bind rid (\<lambda>k. Option.bind (run_of k s) (\<lambda>r. ticket_of (r_ticket r) s))"

definition firing_interventions :: "nat \<Rightarrow> store \<Rightarrow> firing_intervention list" where
  "firing_interventions fid s =
     map (\<lambda>i. \<lparr>fi_id = i_id i, fi_run = i_run i, fi_identifier = map_option t_ident (run_ticket (i_run i) s),
               fi_action = i_action i, fi_source = i_source i, fi_actor = i_actor i,
               fi_note = i_note i, fi_at = i_at i\<rparr>)
       (sort_key i_id (filter (\<lambda>i. i_firing i = Some fid) (interventions s)))"

definition firing_states :: "firing_state list" where
  "firing_states = [FS_PROPOSED, FS_REFUSED, FS_LEASED, FS_CONFIRMED, FS_UNKNOWN, FS_CANCELED]"

definition firing_counts :: "int \<Rightarrow> store \<Rightarrow> (firing_state \<times> nat) list \<times> nat \<times> nat" where
  "firing_counts since s =
     (let new = filter (\<lambda>r. since \<le> fr_created r) (firings s)
      in (map (\<lambda>st. (st, length (filter (\<lambda>r. fr_state r = st) new))) firing_states,
          length (filter (\<lambda>h. since \<le> mh_held h) (holds s)),
          length (filter (\<lambda>i. i_source i = IS_AUTOMATION \<and> i_action i = IA_BABYSIT \<and> since \<le> i_at i)
            (interventions s))))"

subsection \<open>A firing's life\<close>

text \<open>An \<^verbatim>\<open>UPDATE automationFirings\<close>: \<^verbatim>\<open>cursor.rowcount\<close> and the store after it.\<close>

definition update_firings ::
    "(firing_row \<Rightarrow> bool) \<Rightarrow> (firing_row \<Rightarrow> firing_row) \<Rightarrow> store \<Rightarrow> nat \<times> store" where
  "update_firings P f s = (length (filter P (firings s)), s\<lparr>firings := modify P f (firings s)\<rparr>)"

definition settle_unknown :: "env \<Rightarrow> nat \<Rightarrow> firing_state \<Rightarrow> string \<Rightarrow> string \<Rightarrow> store \<Rightarrow> err + bool \<times> store" where
  [op_defs]: "settle_unknown v fid state note who s =
     (if state \<noteq> FS_CONFIRMED \<and> state \<noteq> FS_CANCELED
      then Inl (ValueError ''an unknown firing settles as confirmed or canceled'')
      else
        (let (n, s) = update_firings (\<lambda>r. fr_id r = fid \<and> fr_state r = FS_UNKNOWN)
               (\<lambda>r. r\<lparr>fr_state := state,
                      fr_detail := assoc_put ''settled_by''
                        (JObj [(''note'', JStr note), (''login'', JStr who), (''at'', JInt (clock v))])
                        (fr_detail r)\<rparr>) s
         in Inr (n = 1, s)))"

definition take_firing :: "env \<Rightarrow> nat \<Rightarrow> int \<Rightarrow> store \<Rightarrow> firing_row option \<times> store" where
  [op_defs]: "take_firing v fid pid s =
     (let (n, s) = update_firings
            (\<lambda>r. fr_id r = fid \<and> fr_state r = FS_LEASED \<and> fr_pid r = None
               \<and> (case fr_lease r of None \<Rightarrow> False | Some until \<Rightarrow> clock v < until))
            (\<lambda>r. r\<lparr>fr_pid := Some pid\<rparr>) s
      in (if n = 0 then None else firing fid s, s))"

definition settle_firing ::
    "env \<Rightarrow> nat \<Rightarrow> int option \<Rightarrow> firing_state \<Rightarrow> string \<Rightarrow> (string \<times> json) list option \<Rightarrow> store \<Rightarrow>
     err + bool \<times> store" where
  [op_defs]: "settle_firing v fid pid state reason detail s =
     (if state \<notin> set settled_states then Inl (ValueError ''a firing settles as a settled state'')
      else
        (let (n, s) = update_firings
               (\<lambda>r. fr_id r = fid \<and> fr_state r = FS_LEASED \<and> fr_pid r = pid)
               (\<lambda>r. r\<lparr>fr_state := state, fr_reason := reason,
                      fr_detail := (case detail of None \<Rightarrow> fr_detail r | Some d \<Rightarrow> dumps_sorted d),
                      fr_settled := Some (clock v)\<rparr>) s
         in Inr (n = 1, s)))"

definition replays :: "(string \<times> json) list \<Rightarrow> int" where
  "replays detail = (case json_at ''replays'' detail of Some (JInt n) \<Rightarrow> n | _ \<Rightarrow> 0)"

definition replay_firing :: "env \<Rightarrow> nat \<Rightarrow> int \<Rightarrow> store \<Rightarrow> bool \<times> store" where
  [op_defs]: "replay_firing v fid lease_until s =
     (let (n, s) = update_firings
            (\<lambda>r. fr_id r = fid \<and> fr_state r = FS_LEASED \<and> fr_pid r = None
               \<and> (case fr_lease r of None \<Rightarrow> False | Some until \<Rightarrow> until \<le> clock v))
            (\<lambda>r. r\<lparr>fr_lease := Some lease_until,
                   fr_detail := assoc_put ''replays'' (JInt (replays (fr_detail r) + 1)) (fr_detail r)\<rparr>) s
      in (n = 1, s))"

definition record_result :: "env \<Rightarrow> nat \<Rightarrow> string \<Rightarrow> string \<Rightarrow> string list \<Rightarrow> store \<Rightarrow> bool \<times> store" where
  [op_defs]: "record_result v fid result reason checks s =
     (let (n, s) = update_firings
            (\<lambda>r. fr_id r = fid \<and> fr_state r = FS_CONFIRMED \<and> json_at ''result'' (fr_detail r) = None)
            (\<lambda>r. r\<lparr>fr_reason := reason,
                   fr_detail := assoc_put ''result_checks'' (JList (map JStr (sort checks)))
                     (assoc_put ''result_at'' (JInt (clock v))
                       (assoc_put ''result'' (JStr result) (fr_detail r)))\<rparr>) s
      in (n = 1, s))"

subsection \<open>Pauses\<close>

definition automation_pause :: "string \<Rightarrow> store \<Rightarrow> pause_row option" where
  "automation_pause automation s =
     find (\<lambda>p. ap_automation p = automation \<and> ap_cleared p = None) (pauses s)"

text \<open>\<^verbatim>\<open>ON CONFLICT DO NOTHING\<close> on the partial unique index \<^verbatim>\<open>automationPauses_open\<close>.\<close>

definition pause_automation ::
    "env \<Rightarrow> string \<Rightarrow> string \<Rightarrow> pause_actor \<Rightarrow> store \<Rightarrow> nat option \<times> store" where
  [op_defs]: "pause_automation v automation note actor s =
     (if automation_pause automation s \<noteq> None then (None, s)
      else
        (let i = next_id ap_id (pauses s);
             row = \<lparr>ap_id = i, ap_automation = automation, ap_note = note, ap_actor = actor,
                    ap_created = clock v, ap_cleared = None, ap_clear_note = None\<rparr>
         in (Some i, s\<lparr>pauses := pauses s @ [row]\<rparr>)))"

definition resume_automation :: "env \<Rightarrow> string \<Rightarrow> string \<Rightarrow> store \<Rightarrow> nat option \<times> store" where
  [op_defs]: "resume_automation v automation note s =
     (case automation_pause automation s of
        None \<Rightarrow> (None, s)
      | Some p \<Rightarrow> (Some (ap_id p),
          s\<lparr>pauses := modify (\<lambda>q. ap_id q = ap_id p)
             (\<lambda>q. q\<lparr>ap_cleared := Some (clock v), ap_clear_note := Some note\<rparr>) (pauses s)\<rparr>))"

subsection \<open>Merge holds\<close>

definition open_merge_hold :: "nat \<Rightarrow> store \<Rightarrow> hold_row option" where
  "open_merge_hold project s = find (\<lambda>h. mh_project h = project \<and> mh_ended h = None) (holds s)"

definition firing_holds :: "firing_row \<Rightarrow> store \<Rightarrow> hold_row list" where
  "firing_holds r s =
     sort_key mh_id (filter (\<lambda>h. mh_firing h = fr_id r
       \<or> map_of (fr_detail r) ''hold'' = Some (JInt (int (mh_id h)))) (holds s))"

definition end_merge_hold :: "env \<Rightarrow> nat \<Rightarrow> string \<Rightarrow> store \<Rightarrow> bool \<times> store" where
  [op_defs]: "end_merge_hold v hid reason s =
     (let P = (\<lambda>h. mh_id h = hid \<and> mh_ended h = None)
      in (length (filter P (holds s)) = 1,
          s\<lparr>holds := modify P (\<lambda>h. h\<lparr>mh_ended := Some (clock v), mh_reason := Some reason\<rparr>) (holds s)\<rparr>))"

definition SUPERSEDED :: string where
  "SUPERSEDED = ''superseded by ''"

definition place_merge_hold ::
    "env \<Rightarrow> nat \<Rightarrow> nat \<Rightarrow> string \<Rightarrow> string list \<Rightarrow> string \<Rightarrow> store \<Rightarrow> err + nat \<times> store" where
  [op_defs]: "place_merge_hold v project fid sha checks reason s =
     (let s = (case open_merge_hold project s of
                 None \<Rightarrow> s
               | Some h \<Rightarrow> snd (end_merge_hold v (mh_id h) (SUPERSEDED @ take 12 sha) s))
      in if open_merge_hold project s \<noteq> None \<or> project_of project s = None \<or> firing_of fid s = None
         then Inl (IntegrityError ''mergeHolds'')
         else
           (let i = next_id mh_id (holds s);
                row = \<lparr>mh_id = i, mh_project = project, mh_sha = sha, mh_checks = checks,
                       mh_firing = fid, mh_held = clock v, mh_ended = None, mh_reason = None\<rparr>;
                s = s\<lparr>holds := holds s @ [row]\<rparr>;
                s = snd (update_firings (\<lambda>r. fr_id r = fid \<and> fr_state r = FS_LEASED)
                      (\<lambda>r. r\<lparr>fr_state := FS_CONFIRMED, fr_reason := reason,
                             fr_settled := Some (clock v)\<rparr>) s)
            in Inr (i, s)))"

subsection \<open>The runs a hold parked\<close>

record held_run =
  hr_run :: nat
  hr_ticket :: nat
  hr_identifier :: string
  hr_last :: "nat option"
  hr_phase :: run_phase
  hr_ended :: "int option"
  hr_touched :: bool
  hr_reparked :: bool

text \<open>
  The holds of the project that superseded one another up to this one: those after the last
  earlier hold that ended for another reason (an earlier hold without a reason is not one).
\<close>

definition hold_chain :: "nat \<Rightarrow> store \<Rightarrow> nat list" where
  "hold_chain hid s =
     (case fetch mh_id hid (holds s) of
        None \<Rightarrow> []
      | Some h \<Rightarrow>
          (let breaks = filter (\<lambda>p. mh_project p = mh_project h \<and> mh_id p < mh_id h
                 \<and> (case mh_reason p of None \<Rightarrow> False
                    | Some why \<Rightarrow> \<not> like_prefix SUPERSEDED why)) (holds s);
               start = foldr max (map mh_id breaks) 0
           in map mh_id (filter (\<lambda>m. mh_project m = mh_project h \<and> mh_id m \<le> mh_id h
                \<and> start < mh_id m) (holds s))))"

definition payload_at :: "string \<Rightarrow> payload option \<Rightarrow> json option" where
  "payload_at k p = (case p of Some (PDoc (JObj fs)) \<Rightarrow> json_at k fs | _ \<Rightarrow> None)"

definition parked_by_hold :: "nat list \<Rightarrow> store \<Rightarrow> event_row \<Rightarrow> bool" where
  "parked_by_hold chain s e \<longleftrightarrow>
     e_kind e = ''main_hold_parked''
     \<and> payload_at ''hold'' (e_payload e) \<in> set (map (\<lambda>i. Some (JInt (int i))) chain)
     \<and> \<not> (\<exists>p \<in> set (events s). e_run p = e_run e \<and> e_kind p = ''main_hold_parked'' \<and> e_id e < e_id p)"

definition later_events :: "event_row \<Rightarrow> store \<Rightarrow> event_row list" where
  "later_events e s = filter (\<lambda>p. e_run p = e_run e \<and> e_id e < e_id p) (events s)"

definition held_run_row :: "store \<Rightarrow> event_row \<Rightarrow> held_run option" where
  "held_run_row s e =
     Option.bind (e_run e) (\<lambda>rid. Option.bind (run_of rid s) (\<lambda>r. map_option (\<lambda>t.
       \<lparr>hr_run = rid, hr_ticket = r_ticket r, hr_identifier = t_ident t, hr_last = t_last t,
        hr_phase = r_phase r, hr_ended = r_ended r,
        hr_touched = list_ex (\<lambda>i. i_run i = Some rid \<and> i_source i = IS_HUMAN \<and> e_at e \<le> i_at i)
          (interventions s),
        hr_reparked = (list_ex (\<lambda>p. e_kind p = ''pr_wake_breaker'' \<or> e_kind p = ''ci_expired'') (later_events e s)
          \<or> 1 < length (filter (\<lambda>p. e_kind p = ''phase_change''
                \<and> py_contains '' -> awaiting_merge_approval'' (e_summary p)) (later_events e s)))\<rparr>)
       (ticket_of (r_ticket r) s)))"

definition held_runs :: "nat \<Rightarrow> store \<Rightarrow> held_run list" where
  "held_runs hid s =
     sort_key hr_run (List.map_filter (held_run_row s)
       (filter (parked_by_hold (hold_chain hid s) s) (events s)))"

subsection \<open>Every write is a step of the tables' lives\<close>

lemma firings_safe:
  "row_run fr_id firing_grows firing_moves (firings s) rows \<Longrightarrow> safe s (s\<lparr>firings := rows\<rparr>)"
  by (rule safe_desk) (simp_all add: desk_safe_def)

lemma pauses_safe: "row_run ap_id pause_grows pause_moves (pauses s) rows \<Longrightarrow> safe s (s\<lparr>pauses := rows\<rparr>)"
  by (rule safe_desk) (simp_all add: desk_safe_def)

lemma holds_safe: "row_run mh_id hold_grows hold_moves (holds s) rows \<Longrightarrow> safe s (s\<lparr>holds := rows\<rparr>)"
  by (rule safe_desk) (simp_all add: desk_safe_def)

lemma update_firings_safe:
  assumes "\<And>r. fr_id (f r) = fr_id r" and "\<And>r. P r \<Longrightarrow> firing_moves r (f r)"
  shows "safe s (snd (update_firings P f s))"
  unfolding update_firings_def snd_conv using assms by (intro firings_safe row_run_change) auto

lemma find_NoneD: "find P xs = None \<Longrightarrow> x \<in> set xs \<Longrightarrow> \<not> P x"
  by (simp add: find_None_iff)

lemma reserve_firing_cases:
  assumes "reserve_firing v project automation revision subject cause mode reason detail lease limit s
      = Inr (res, t)"
  obtains (new) row where "res = Some (fr_id row)" "t = s\<lparr>firings := firings s @ [row]\<rparr>"
      "fr_id row = next_id fr_id (firings s)"
      "fr_key row = firing_key automation revision project subject cause"
      "\<forall>q \<in> set (firings s). fr_key q \<noteq> fr_key row"
      "fr_state row \<in> {FS_PROPOSED, FS_LEASED, FS_REFUSED}" "fr_pid row = None"
    | (takes) r st why so le de where "r \<in> set (firings s)" "fr_state r = FS_PROPOSED" "res = Some (fr_id r)"
      "fr_key r = firing_key automation revision project subject cause"
      "st = FS_LEASED \<or> st = FS_REFUSED"
      "t = s\<lparr>firings := modify (\<lambda>q. fr_key q = fr_key r \<and> fr_state q = FS_PROPOSED)
             (taken_over mode st why de (clock v) so le) (firings s)\<rparr>"
    | (held) r where "r \<in> set (firings s)" "res = None" "t = s"
      "fr_key r = firing_key automation revision project subject cause"
proof -
  let ?key = "firing_key automation revision project subject cause"
  show ?thesis
  proof (cases "find (\<lambda>r. fr_key r = ?key) (firings s)")
    case None
    then have fresh: "\<forall>q \<in> set (firings s). fr_key q \<noteq> ?key" by (auto simp: find_None_iff)
    show ?thesis
      using assms None fresh
      by (auto simp: reserve_firing_def Let_def split: option.split_asm if_split_asm
          intro!: new)
  next
    case (Some r)
    then have r: "r \<in> set (firings s)" "fr_key r = ?key" by (auto simp: find_Some_iff)
    show ?thesis
      using assms Some r
      by (auto simp: reserve_firing_def Let_def split: option.split_asm if_split_asm
          intro: held [OF r(1)] takes [OF r(1)])
  qed
qed

lemma reserve_firing_safe:
  assumes "reserve_firing v project automation revision subject cause mode reason detail lease limit s
      = Inr (res, t)"
  shows "safe s t"
  using assms
proof (cases rule: reserve_firing_cases)
  case (new row)
  then show ?thesis by (auto intro!: firings_safe row_run_arrive simp: firing_grows_def)
next
  case (takes r st why so le de)
  then show ?thesis
    by (auto intro!: firings_safe row_run_change simp: firing_moves_def taken_over_def)
qed simp

lemma update_firings_step:
  "update_firings P f s = (n, t) \<Longrightarrow> (\<And>r. fr_id (f r) = fr_id r) \<Longrightarrow>
   (\<And>r. P r \<Longrightarrow> firing_moves r (f r)) \<Longrightarrow> safe s t"
  using update_firings_safe [of f P s] by (metis snd_conv)

lemma settle_unknown_safe: "settle_unknown v fid st n w s = Inr (b, t) \<Longrightarrow> safe s t"
  by (auto simp: settle_unknown_def Let_def firing_moves_def split: if_split_asm prod.split_asm
      elim!: update_firings_step)

lemma take_firing_safe [simp]: "safe s (snd (take_firing v fid pid s))"
  by (auto simp: take_firing_def Let_def firing_moves_def split: prod.split elim!: update_firings_step)

lemma settle_firing_safe: "settle_firing v fid p st why d s = Inr (b, t) \<Longrightarrow> safe s t"
  by (auto simp: settle_firing_def Let_def firing_moves_def settled_states_def
      split: if_split_asm prod.split_asm elim!: update_firings_step)

lemma replay_firing_safe [simp]: "safe s (snd (replay_firing v fid until s))"
  by (auto simp: replay_firing_def Let_def firing_moves_def split: prod.split elim!: update_firings_step)

lemma record_result_safe [simp]: "safe s (snd (record_result v fid res why cs s))"
  by (auto simp: record_result_def Let_def firing_moves_def split: prod.split elim!: update_firings_step)

lemma pause_automation_safe [simp]: "safe s (snd (pause_automation v au n ac s))"
  by (auto simp: pause_automation_def automation_pause_def Let_def pause_grows_def find_None_iff
      intro!: pauses_safe row_run_arrive)

lemma resume_automation_safe [simp]: "safe s (snd (resume_automation v au n s))"
proof (cases "automation_pause au s")
  case (Some p)
  then have p: "p \<in> set (pauses s)" "ap_cleared p = None"
    by (auto simp: automation_pause_def find_Some_iff)
  then show ?thesis
    by (auto simp: resume_automation_def Some pause_moves_def intro!: pauses_safe row_run_one [OF _ p(1)])
qed (simp add: resume_automation_def)

lemma end_merge_hold_safe [simp]: "safe s (snd (end_merge_hold v hid why s))"
  by (auto simp: end_merge_hold_def Let_def hold_moves_def intro!: holds_safe row_run_change)

lemma place_merge_hold_safe:
  assumes "place_merge_hold v project fid sha cs why s = Inr (i, t)"
  shows "safe s t"
proof -
  define u where "u = (case open_merge_hold project s of None \<Rightarrow> s
     | Some h \<Rightarrow> snd (end_merge_hold v (mh_id h) (SUPERSEDED @ take 12 sha) s))"
  have s_u: "safe s u" by (auto simp: u_def split: option.split)
  define row where "row = \<lparr>mh_id = next_id mh_id (holds u), mh_project = project, mh_sha = sha,
    mh_checks = cs, mh_firing = fid, mh_held = clock v, mh_ended = None, mh_reason = None\<rparr>"
  have free: "open_merge_hold project u = None"
    and t: "t = snd (update_firings (\<lambda>r. fr_id r = fid \<and> fr_state r = FS_LEASED)
        (\<lambda>r. r\<lparr>fr_state := FS_CONFIRMED, fr_reason := why, fr_settled := Some (clock v)\<rparr>)
        (u\<lparr>holds := holds u @ [row]\<rparr>))"
    using assms by (auto simp: place_merge_hold_def Let_def u_def [symmetric] row_def split: if_split_asm)
  have u_h: "safe u (u\<lparr>holds := holds u @ [row]\<rparr>)"
    using free by (intro holds_safe row_run_arrive)
      (auto simp: row_def hold_grows_def open_merge_hold_def find_None_iff)
  have "safe (u\<lparr>holds := holds u @ [row]\<rparr>) t"
    unfolding t by (rule update_firings_safe) (simp_all add: firing_moves_def)
  then show ?thesis using s_u u_h by (blast intro: safe_trans)
qed

end
