(* ===== verification/Scouts.thy ===== *)
theory Scouts
  imports Automations
begin

section \<open>Scouts: phases, tasks, reports, action items and events\<close>

text \<open>
  \<^verbatim>\<open>store/scouts.py\<close>. \<open>held\<close> is the process-wide table \<^verbatim>\<open>_HOLDS\<close> of the scouts this process
  holds, by scout (one database, so the path of its key is left out): a write to a scout the
  process holds is refused once another process owns the row. A task's cost is kept and never
  computed with.

  The lemmas say which scouts admit a write (\<open>live_scout_Inr\<close>) and that each write is a step of
  the scout's life: along \<^verbatim>\<open>EDGES\<close>, to an ended phase, or none.
\<close>

subsection \<open>Who may write\<close>

type_synonym held = "nat \<Rightarrow> int option"

definition PASS_STARTED :: string where
  "PASS_STARTED = ''scout_pass_started''"

definition scout_phase_of :: "nat \<Rightarrow> store \<Rightarrow> err + scout_phase" where
  "scout_phase_of sid s =
     (case scout_of sid s of None \<Rightarrow> Inl (ValueError ''no scout'') | Some c \<Rightarrow> Inr (sc_phase c))"

definition held_check :: "held \<Rightarrow> nat \<Rightarrow> scout_phase \<Rightarrow> store \<Rightarrow> err + unit" where
  "held_check h sid phase s =
     (case h sid of
        None \<Rightarrow> Inr ()
      | Some pid \<Rightarrow>
          (case scout_of sid s of
             None \<Rightarrow> Inl (ValueError ''NoneType is not iterable'')
           | Some c \<Rightarrow> if sc_pid c \<noteq> Some pid then Inl (ScoutRefused sid phase) else Inr ()))"

definition live_scout :: "held \<Rightarrow> nat \<Rightarrow> store \<Rightarrow> err + scout_phase" where
  "live_scout h sid s =
     bindE (scout_phase_of sid s) (\<lambda>phase.
       if phase \<in> set scout_ended then Inl (ScoutRefused sid phase)
       else bindE (held_check h sid phase s) (\<lambda>_. Inr phase))"

text \<open>\<^verbatim>\<open>with holding_scout(conn, scout_id, pid)\<close>: the table inside the block, and after it.\<close>

definition holding_enter :: "nat \<Rightarrow> int \<Rightarrow> held \<Rightarrow> held" where
  "holding_enter sid pid h = h(sid := Some pid)"

definition holding_exit :: "nat \<Rightarrow> held \<Rightarrow> held" where
  "holding_exit sid h = h(sid := None)"

definition or_host :: "env \<Rightarrow> string option \<Rightarrow> string" where
  "or_host v host = (case host of None \<Rightarrow> host_name v | Some x \<Rightarrow> if x = [] then host_name v else x)"

subsection \<open>Phases\<close>

record new_scout =
  ns_kind :: scout_kind
  ns_links :: "string list"
  ns_lead_route :: "string option"
  ns_helper_route :: "string option"
  ns_swarm :: "int option"
  ns_helper_turns :: "int option"
  ns_waves :: "int option"
  ns_budget :: int
  ns_subject :: "(scout_subject \<times> string) option"

definition create_scout :: "env \<Rightarrow> nat \<Rightarrow> string \<Rightarrow> new_scout \<Rightarrow> store \<Rightarrow> err + nat \<times> store" where
  [op_defs]: "create_scout v project ask n s =
     (if blank ask then Inl (BlankText ''ask'')
      else if project_of project s = None then Inl (IntegrityError ''scouts'')
      else
        (let i = next_id sc_id (scouts s);
             row = \<lparr>sc_id = i, sc_project = project, sc_ask = py_strip ask, sc_kind = ns_kind n,
               sc_links = ns_links n, sc_lead_route = ns_lead_route n, sc_lead_session = None,
               sc_helper_route = ns_helper_route n, sc_swarm = ns_swarm n,
               sc_helper_turns = ns_helper_turns n, sc_waves = ns_waves n, sc_budget = ns_budget n,
               sc_phase = SP_QUEUED, sc_reason = None, sc_base = None, sc_host = None,
               sc_pid = None, sc_created = clock v, sc_started = None, sc_beat = None,
               sc_ended = None, sc_totals = None, sc_subject_kind = map_option fst (ns_subject n),
               sc_subject_ref = map_option snd (ns_subject n), sc_title = None\<rparr>
         in Inr (i, s\<lparr>scouts := scouts s @ [row]\<rparr>)))"

definition unclaimed :: "nat \<Rightarrow> store \<Rightarrow> bool" where
  "unclaimed sid s \<longleftrightarrow> (case scout_of sid s of None \<Rightarrow> False | Some c \<Rightarrow> sc_pid c = None)"

definition steered :: "nat \<Rightarrow> store \<Rightarrow> bool" where
  "steered sid s \<longleftrightarrow> (\<exists>e \<in> set (events s). e_scout e = Some sid \<and> e_kind e = PASS_STARTED)"

definition move_scout ::
    "env \<Rightarrow> held \<Rightarrow> nat \<Rightarrow> scout_phase \<Rightarrow> string option \<Rightarrow> string option \<Rightarrow> store \<Rightarrow> err + store" where
  [op_defs]: "move_scout v h sid phase base_sha host s =
     bindE (live_scout h sid s) (\<lambda>current.
       if phase \<notin> set (scout_edges current) then Inl (ScoutRefused sid current)
       else if phase = SP_DONE \<and> current \<noteq> SP_ANSWERING \<and> \<not> steered sid s
       then Inl (ScoutRefused sid current)
       else if phase = SP_PLANNING \<and> (base_sha = None \<or> base_sha = Some [])
       then Inl (ValueError ''a scout moves to planning with a base sha'')
       else if phase = SP_QUEUED then
         (if \<not> unclaimed sid s then Inl (ScoutRefused sid current)
          else Inr (upd_scout sid (\<lambda>c. c\<lparr>sc_phase := phase, sc_base := None, sc_started := None,
                 sc_beat := None, sc_host := None\<rparr>) s))
       else if phase = SP_PLANNING then
         Inr (upd_scout sid (\<lambda>c. c\<lparr>sc_phase := phase, sc_base := base_sha,
           sc_started := Some (clock v), sc_beat := Some (clock v), sc_host := Some (or_host v host)\<rparr>) s)
       else Inr (upd_scout sid (\<lambda>c. c\<lparr>sc_phase := phase\<rparr>) s))"

definition reopen_scout :: "env \<Rightarrow> nat \<Rightarrow> scout_phase \<Rightarrow> string option \<Rightarrow> store \<Rightarrow> store" where
  [op_defs]: "reopen_scout v sid phase host s =
     upd_scout sid (\<lambda>c. c\<lparr>sc_phase := phase, sc_pid := None, sc_host := Some (or_host v host),
       sc_beat := Some (clock v)\<rparr>) s"

definition beat_scout :: "env \<Rightarrow> held \<Rightarrow> nat \<Rightarrow> int option \<Rightarrow> store \<Rightarrow> err + store" where
  [op_defs]: "beat_scout v h sid pid s =
     bindE (live_scout h sid s) (\<lambda>_.
       Inr (upd_scout sid (\<lambda>c. c\<lparr>sc_beat := Some (clock v),
              sc_pid := (case sc_pid c of None \<Rightarrow> pid | Some p \<Rightarrow> Some p)\<rparr>) s))"

definition claim_scout :: "env \<Rightarrow> held \<Rightarrow> nat \<Rightarrow> int \<Rightarrow> string option \<Rightarrow> store \<Rightarrow> err + store" where
  [op_defs]: "claim_scout v h sid pid host s =
     bindE (live_scout h sid s) (\<lambda>phase.
       if phase \<noteq> SP_PLANNING \<or> \<not> unclaimed sid s then Inl (ScoutRefused sid phase)
       else Inr (upd_scout sid (\<lambda>c. c\<lparr>sc_pid := Some pid, sc_host := Some (or_host v host),
              sc_beat := Some (clock v)\<rparr>) s))"

definition end_scout ::
    "env \<Rightarrow> held \<Rightarrow> nat \<Rightarrow> scout_phase \<Rightarrow> string \<Rightarrow> json option \<Rightarrow> store \<Rightarrow> err + store" where
  [op_defs]: "end_scout v h sid phase reason totals s =
     (if phase \<notin> set scout_ended then Inl (ValueError ''a scout ends done, failed or stopped'')
      else if blank reason then Inl (BlankText ''reason'')
      else bindE (live_scout h sid s) (\<lambda>_.
        Inr (upd_scout sid (\<lambda>c. c\<lparr>sc_phase := phase, sc_reason := Some (py_strip reason),
               sc_totals := totals, sc_ended := Some (clock v)\<rparr>) s)))"

definition set_scout_session :: "held \<Rightarrow> nat \<Rightarrow> string option \<Rightarrow> store \<Rightarrow> err + store" where
  [op_defs]: "set_scout_session h sid session s =
     bindE (live_scout h sid s) (\<lambda>_. Inr (upd_scout sid (\<lambda>c. c\<lparr>sc_lead_session := session\<rparr>) s))"

definition record_scout_title :: "held \<Rightarrow> nat \<Rightarrow> string option \<Rightarrow> store \<Rightarrow> err + store" where
  [op_defs]: "record_scout_title h sid title s =
     bindE (live_scout h sid s) (\<lambda>_.
       Inr (upd_scout sid (\<lambda>c. if sc_title c = None then c\<lparr>sc_title := title\<rparr> else c) s))"

subsection \<open>Reports and tasks\<close>

definition record_scout_report :: "env \<Rightarrow> held \<Rightarrow> nat \<Rightarrow> nat \<Rightarrow> json \<Rightarrow> store \<Rightarrow> err + nat \<times> store" where
  [op_defs]: "record_scout_report v h sid pass report s =
     bindE (live_scout h sid s) (\<lambda>phase.
       if \<exists>r \<in> set (scout_reports s). sr_scout r = sid \<and> sr_pass r = pass
       then Inl (ScoutRefused sid phase)
       else if pass = 0 then Inl (IntegrityError ''scoutReports'')
       else
         (let i = next_id sr_id (scout_reports s);
              row = \<lparr>sr_id = i, sr_scout = sid, sr_pass = pass, sr_report = report, sr_at = clock v\<rparr>
          in Inr (i, s\<lparr>scout_reports := scout_reports s @ [row]\<rparr>)))"

record new_task =
  nt_question :: string
  nt_title :: "string option"
  nt_paths :: "string list"
  nt_mode :: scout_task_mode
  nt_route :: "string option"

definition insert_task :: "nat \<Rightarrow> nat \<Rightarrow> nat \<Rightarrow> new_task \<Rightarrow> store \<Rightarrow> nat \<times> store" where
  "insert_task sid pass wave n s =
     (let i = next_id sk_id (scout_tasks s);
          row = \<lparr>sk_id = i, sk_scout = sid, sk_pass = pass, sk_wave = wave,
            sk_question = nt_question n, sk_title = nt_title n, sk_paths = nt_paths n,
            sk_mode = nt_mode n, sk_route = nt_route n, sk_phase = ST_QUEUED, sk_started = None,
            sk_ended = None, sk_duration = None, sk_tokens = None, sk_cost = None, sk_excerpt = None\<rparr>
      in (i, s\<lparr>scout_tasks := scout_tasks s @ [row]\<rparr>))"

fun insert_tasks :: "nat \<Rightarrow> nat \<Rightarrow> nat \<Rightarrow> new_task list \<Rightarrow> store \<Rightarrow> nat list \<times> store" where
  "insert_tasks sid pass wave [] s = ([], s)"
| "insert_tasks sid pass wave (n # ns) s =
     (let (i, s) = insert_task sid pass wave n s;
          (is, s) = insert_tasks sid pass wave ns s
      in (i # is, s))"

definition record_scout_tasks ::
    "held \<Rightarrow> nat \<Rightarrow> nat \<Rightarrow> nat \<Rightarrow> new_task list \<Rightarrow> store \<Rightarrow> err + nat list \<times> store" where
  [op_defs]: "record_scout_tasks h sid pass wave tasks s =
     bindE (live_scout h sid s) (\<lambda>_.
       if tasks \<noteq> [] \<and> (pass = 0 \<or> wave = 0) then Inl (IntegrityError ''scoutTasks'')
       else Inr (insert_tasks sid pass wave tasks s))"

definition task_of :: "nat \<Rightarrow> store \<Rightarrow> err + task_row \<times> scout_phase" where
  "task_of k s =
     (case fetch sk_id k (scout_tasks s) of
        None \<Rightarrow> Inl (ValueError ''no scout task'')
      | Some t \<Rightarrow>
          (case scout_of (sk_scout t) s of
             None \<Rightarrow> Inl (ValueError ''no scout task'')
           | Some c \<Rightarrow> Inr (t, sc_phase c)))"

definition start_scout_task :: "env \<Rightarrow> held \<Rightarrow> nat \<Rightarrow> store \<Rightarrow> err + store" where
  [op_defs]: "start_scout_task v h k s =
     bindE (task_of k s) (\<lambda>(t, scout_phase).
     bindE (live_scout h (sk_scout t) s) (\<lambda>_.
       if sk_phase t \<noteq> ST_QUEUED then Inl (ScoutRefused (sk_scout t) scout_phase)
       else Inr (s\<lparr>scout_tasks := modify (\<lambda>t. sk_id t = k)
              (\<lambda>t. t\<lparr>sk_phase := ST_RUNNING, sk_started := Some (clock v)\<rparr>) (scout_tasks s)\<rparr>)))"

text \<open>A running task without a start time: the subtraction raises.\<close>

definition end_scout_task ::
    "env \<Rightarrow> held \<Rightarrow> nat \<Rightarrow> scout_task_phase \<Rightarrow> int option \<Rightarrow> int option \<Rightarrow> string option \<Rightarrow> store \<Rightarrow>
     err + store" where
  [op_defs]: "end_scout_task v h k phase tokens cost excerpt s =
     (if phase \<notin> set task_ended then Inl (ValueError ''a task ends done, failed or stopped'')
      else bindE (task_of k s) (\<lambda>(t, scout_phase).
        bindE (live_scout h (sk_scout t) s) (\<lambda>_.
          if sk_phase t \<in> set task_ended then Inl (ScoutRefused (sk_scout t) scout_phase)
          else if sk_phase t \<noteq> ST_RUNNING then Inl (ScoutRefused (sk_scout t) scout_phase)
          else case sk_started t of
              None \<Rightarrow> Inl (ValueError ''unsupported operand'')
            | Some started \<Rightarrow>
                Inr (s\<lparr>scout_tasks := modify (\<lambda>t. sk_id t = k)
                   (\<lambda>t. t\<lparr>sk_phase := phase, sk_ended := Some (clock v),
                          sk_duration := Some (clock v - started), sk_tokens := tokens,
                          sk_cost := cost, sk_excerpt := excerpt\<rparr>) (scout_tasks s)\<rparr>))))"

subsection \<open>Action items\<close>

definition next_position :: "nat \<Rightarrow> store \<Rightarrow> nat" where
  "next_position sid s =
     Suc (foldr max (map sa_position (filter (\<lambda>a. sa_scout a = sid) (scout_actions s))) 0)"

definition insert_action :: "nat \<Rightarrow> nat \<Rightarrow> nat \<Rightarrow> json \<Rightarrow> store \<Rightarrow> store" where
  "insert_action sid pass position item s =
     (let row = \<lparr>sa_id = next_id sa_id (scout_actions s), sa_scout = sid, sa_pass = pass,
            sa_position = position, sa_item = item, sa_key = None, sa_filed = None\<rparr>
      in s\<lparr>scout_actions := scout_actions s @ [row]\<rparr>)"

text \<open>\<^verbatim>\<open>enumerate(items, last + 1)\<close>.\<close>

fun insert_actions :: "nat \<Rightarrow> nat \<Rightarrow> nat \<Rightarrow> json list \<Rightarrow> store \<Rightarrow> store" where
  "insert_actions sid pass position [] s = s"
| "insert_actions sid pass position (x # xs) s =
     insert_actions sid pass (Suc position) xs (insert_action sid pass position x s)"

definition record_scout_actions ::
    "held \<Rightarrow> nat \<Rightarrow> nat \<Rightarrow> json list \<Rightarrow> store \<Rightarrow> err + nat list \<times> store" where
  [op_defs]: "record_scout_actions h sid pass items s =
     bindE (live_scout h sid s) (\<lambda>_.
       let start = next_position sid s
       in if items \<noteq> [] \<and> pass = 0 then Inl (IntegrityError ''scoutActions'')
          else Inr ([start..<start + length items], insert_actions sid pass start items s))"

definition file_scout_action :: "env \<Rightarrow> nat \<Rightarrow> nat \<Rightarrow> string \<Rightarrow> store \<Rightarrow> err + store" where
  [op_defs]: "file_scout_action v sid position key s =
     (if blank key then Inl (BlankText ''ticket key'')
      else bindE (scout_phase_of sid s) (\<lambda>phase.
        if phase \<noteq> SP_DONE then Inl (ScoutRefused sid phase)
        else case find (\<lambda>a. sa_scout a = sid \<and> sa_position a = position) (scout_actions s) of
            None \<Rightarrow> Inl (ValueError ''has no item'')
          | Some a \<Rightarrow>
              (if sa_key a \<noteq> None then Inl (ScoutRefused sid phase)
               else Inr (s\<lparr>scout_actions :=
                 modify (\<lambda>a. sa_scout a = sid \<and> sa_position a = position)
                   (\<lambda>a. a\<lparr>sa_key := Some key, sa_filed := Some (clock v)\<rparr>) (scout_actions s)\<rparr>))))"

subsection \<open>Events\<close>

definition scout_events :: "nat \<Rightarrow> store \<Rightarrow> event_row list" where
  "scout_events sid s = filter (\<lambda>e. e_scout e = Some sid) (events s)"

definition next_scout_seq :: "nat \<Rightarrow> store \<Rightarrow> nat" where
  "next_scout_seq sid s = Suc (foldr max (map e_seq (scout_events sid s)) 0)"

definition record_scout_event ::
    "env \<Rightarrow> held \<Rightarrow> nat \<Rightarrow> string \<Rightarrow> string \<Rightarrow> event_level \<Rightarrow> payload option \<Rightarrow> store \<Rightarrow>
     err + nat \<times> store" where
  [op_defs]: "record_scout_event v h sid kind summary level payload s =
     (if payload \<noteq> None \<and> level \<noteq> EL_DETAIL then Inl PayloadLevel
      else
        (let (summary, payload) = redact_event v summary payload
         in bindE (live_scout h sid s) (\<lambda>_.
              case scout_of sid s of
                None \<Rightarrow> Inl (ValueError ''NoneType is not iterable'')
              | Some c \<Rightarrow>
                  (let seq = next_scout_seq sid s;
                       row = \<lparr>e_id = next_id e_id (events s), e_run = None,
                         e_project = Some (sc_project c), e_seq = seq, e_level = level,
                         e_kind = kind, e_summary = summary, e_payload = payload,
                         e_at = clock v, e_scout = Some sid\<rparr>
                   in Inr (seq, s\<lparr>events := events s @ [row]\<rparr>)))))"

definition scout :: "nat \<Rightarrow> store \<Rightarrow> scout_row option" where
  "scout sid s = scout_of sid s"

definition scouts_in :: "scout_phase list \<Rightarrow> store \<Rightarrow> scout_row list" where
  "scouts_in phases s =
     sort_key sc_created (sort_key sc_id (filter (\<lambda>c. sc_phase c \<in> set phases) (scouts s)))"

subsection \<open>Live scouts\<close>

lemma live_scout_Inr:
  "live_scout h sid s = Inr p \<longleftrightarrow>
     (\<exists>c. scout_of sid s = Some c \<and> p = sc_phase c \<and> p \<notin> set scout_ended
        \<and> (\<forall>pid. h sid = Some pid \<longrightarrow> sc_pid c = Some pid))"
  by (auto simp: live_scout_def scout_phase_of_def held_check_def split: option.split)

lemma scouts_safe: "row_run sc_id scout_grows scout_moves (scouts s) rows \<Longrightarrow> safe s (s\<lparr>scouts := rows\<rparr>)"
  by (rule safe_desk) (simp_all add: desk_safe_def)

lemma upd_scout_step:
  assumes "scout_of sid s = Some c" and "\<And>c. sc_id (f c) = sc_id c" and "scout_moves c (f c)"
  shows "safe s (upd_scout sid f s)"
proof (rule safe_desk)
  have "row_run sc_id scout_grows scout_moves (scouts s) (modify (\<lambda>c. sc_id c = sid) f (scouts s))"
    by (rule row_run_fetched) (use assms in auto)
  then show "desk_safe s (upd_scout sid f s)" by (simp add: desk_safe_def upd_scout_def)
qed (simp_all add: upd_scout_def)

lemma create_scout_safe: "create_scout v p a n s = Inr (i, t) \<Longrightarrow> safe s t"
  by (auto simp: create_scout_def Let_def scout_grows_def split: if_split_asm
      intro!: scouts_safe row_run_arrive)

lemma move_scout_safe: "move_scout v h sid p b ho s = Inr t \<Longrightarrow> safe s t"
  by (auto simp: move_scout_def live_scout_Inr scout_moves_def scout_may_def
      split: if_split_asm intro!: upd_scout_step)

lemma beat_scout_safe: "beat_scout v h sid pid s = Inr t \<Longrightarrow> safe s t"
  by (auto simp: beat_scout_def live_scout_Inr scout_moves_def scout_may_def intro!: upd_scout_step)

lemma claim_scout_safe: "claim_scout v h sid pid ho s = Inr t \<Longrightarrow> safe s t"
  by (auto simp: claim_scout_def live_scout_Inr scout_moves_def scout_may_def
      split: if_split_asm intro!: upd_scout_step)

lemma end_scout_safe: "end_scout v h sid p why to s = Inr t \<Longrightarrow> safe s t"
  by (auto simp: end_scout_def live_scout_Inr scout_moves_def scout_may_def
      split: if_split_asm intro!: upd_scout_step)

lemma scout_columns_safe:
  "set_scout_session h sid se s = Inr t \<Longrightarrow> safe s t"
  "record_scout_title h sid ti s = Inr t \<Longrightarrow> safe s t"
  by (auto simp: set_scout_session_def record_scout_title_def live_scout_Inr scout_moves_def scout_may_def
      intro!: upd_scout_step)

lemma record_scout_report_safe: "record_scout_report v h sid pa r s = Inr (i, t) \<Longrightarrow> safe s t"
  by (auto simp: record_scout_report_def Let_def report_grows_def desk_safe_def split: if_split_asm
      intro!: safe_desk row_run_arrive)

lemma scout_tasks_safe:
  "row_run sk_id task_grows task_moves (scout_tasks s) rows \<Longrightarrow> safe s (s\<lparr>scout_tasks := rows\<rparr>)"
  by (rule safe_desk) (simp_all add: desk_safe_def)

lemma insert_tasks_safe: "safe s (snd (insert_tasks sid pa wa ns s))"
proof (induction ns arbitrary: s)
  case (Cons n ns)
  have "safe s (snd (insert_task sid pa wa n s))"
    by (auto simp: insert_task_def Let_def task_grows_def intro!: scout_tasks_safe row_run_arrive)
  then show ?case
    using Cons [of "snd (insert_task sid pa wa n s)"] by (auto split: prod.split intro: safe_trans)
qed simp

lemma record_scout_tasks_safe:
  assumes "record_scout_tasks h sid pa wa ns s = Inr (is, t)"
  shows "safe s t"
proof -
  have "t = snd (insert_tasks sid pa wa ns s)"
    using assms by (auto simp: record_scout_tasks_def split: if_split_asm)
  then show ?thesis by (simp add: insert_tasks_safe)
qed

lemma task_of_Inr: "task_of k s = Inr (r, p) \<Longrightarrow> fetch sk_id k (scout_tasks s) = Some r"
  by (auto simp: task_of_def split: option.split_asm)

lemma start_scout_task_safe: "start_scout_task v h k s = Inr t \<Longrightarrow> safe s t"
  by (auto simp: start_scout_task_def task_moves_def split: if_split_asm
      dest!: task_of_Inr intro!: scout_tasks_safe row_run_fetched)

lemma end_scout_task_safe: "end_scout_task v h k p to co ex s = Inr t \<Longrightarrow> safe s t"
  by (auto simp: end_scout_task_def task_moves_def split: if_split_asm option.split_asm
      dest!: task_of_Inr intro!: scout_tasks_safe row_run_fetched)

lemma scout_actions_safe:
  "row_run action_at action_grows action_moves (scout_actions s) rows \<Longrightarrow> safe s (s\<lparr>scout_actions := rows\<rparr>)"
  by (rule safe_desk) (simp_all add: desk_safe_def)

lemma foldr_max_snoc: "foldr max (xs @ [n]) 0 = max (foldr max xs 0) (n :: nat)"
  by (induction xs) auto

lemma next_position_insert:
  "next_position sid (insert_action sid pa (next_position sid s) x s) = Suc (next_position sid s)"
  by (simp add: next_position_def insert_action_def Let_def foldr_max_snoc del: foldr_append)

lemma insert_actions_safe: "safe s (insert_actions sid pa (next_position sid s) xs s)"
proof (induction xs arbitrary: s)
  case (Cons x xs)
  have "safe s (insert_action sid pa (next_position sid s) x s)"
    by (auto simp: insert_action_def Let_def action_grows_def next_position_def
        intro!: scout_actions_safe row_run_arrive)
  then show ?case
    using Cons [of "insert_action sid pa (next_position sid s) x s"]
    by (auto simp: next_position_insert intro: safe_trans)
qed simp

lemma record_scout_actions_safe: "record_scout_actions h sid pa xs s = Inr (ps, t) \<Longrightarrow> safe s t"
  by (auto simp: record_scout_actions_def Let_def insert_actions_safe split: if_split_asm)

lemma file_scout_action_safe:
  assumes "file_scout_action v sid pos k s = Inr t"
  shows "safe s t"
proof -
  obtain a where "find (\<lambda>a. sa_scout a = sid \<and> sa_position a = pos) (scout_actions s) = Some a"
    and none: "sa_key a = None"
    and t: "t = s\<lparr>scout_actions := modify (\<lambda>a. sa_scout a = sid \<and> sa_position a = pos)
              (\<lambda>a. a\<lparr>sa_key := Some k, sa_filed := Some (clock v)\<rparr>) (scout_actions s)\<rparr>"
    using assms by (auto simp: file_scout_action_def split: if_split_asm option.split_asm)
  then have a: "a \<in> set (scout_actions s)" "action_at a = (sid, pos)"
    by (auto simp: find_Some_iff action_at_def)
  have "row_run action_at action_grows action_moves (scout_actions s)
      (modify (\<lambda>a. action_at a = (sid, pos)) (\<lambda>a. a\<lparr>sa_key := Some k, sa_filed := Some (clock v)\<rparr>)
        (scout_actions s))"
    by (rule row_run_one [where r = a]) (use a none in \<open>auto simp: action_moves_def action_at_def\<close>)
  then show ?thesis
    unfolding t by (intro scout_actions_safe) (simp add: action_at_def)
qed

lemma record_scout_event_safe:
  assumes "record_scout_event v h sid k sm lv pl s = Inr (q, t)"
  shows "safe s t"
proof -
  obtain c where c: "scout_of sid s = Some c"
    using assms by (auto simp: record_scout_event_def Let_def live_scout_Inr split: if_split_asm prod.split_asm)
  define row where "row = \<lparr>e_id = next_id e_id (events s), e_run = None,
    e_project = Some (sc_project c), e_seq = next_scout_seq sid s, e_level = lv, e_kind = k,
    e_summary = fst (redact_event v sm pl), e_payload = snd (redact_event v sm pl),
    e_at = clock v, e_scout = Some sid\<rparr>"
  have t: "t = s\<lparr>events := events s @ [row]\<rparr>"
    using assms c
    by (auto simp: record_scout_event_def Let_def row_def split: if_split_asm prod.split_asm)
  have row: "e_id row = next_id e_id (events s)" "e_run row = None" "e_scout row = Some sid"
    "e_seq row = next_scout_seq sid s" by (simp_all add: row_def)
  show ?thesis
    unfolding t
  proof (rule safe_step)
    show "spec_step (spec_of s) (spec_of (s\<lparr>events := events s @ [row]\<rparr>))"
      using spec_step.log_other [of "spec_of s" "e_seq row"] row by (simp add: spec_of_def)
    show "desk_safe s (s\<lparr>events := events s @ [row]\<rparr>)"
      using row by (auto simp: desk_safe_def event_grows_def next_scout_seq_def scout_events_def
          intro!: row_run_arrive)
  qed (simp add: appends_def)
qed

end
