(* ===== verification/Thread.thy ===== *)
theory Thread
  imports Scouts
begin

section \<open>Thread: a person's asks and steers of a scout, and its answers\<close>

text \<open>
  \<^verbatim>\<open>store/scout_thread.py\<close>. A message is untaken while \<^verbatim>\<open>consumedBy\<close> is NULL; an ask or a steer
  of a done scout is taken by reopening the scout, a steer of a running one by its next wave, and
  each taking is an event of the scout. The database is the store's, so a message's event is
  found by its scout and number.
\<close>

definition ANSWER_STARTED :: string where
  "ANSWER_STARTED = ''scout_answer_started''"

definition START_FAILED :: string where
  "START_FAILED = ''scout_start_failed''"

definition STEER_TAKEN :: string where
  "STEER_TAKEN = ''scout_steer_taken''"

definition SQLITE_INT64_MAX :: nat where
  "SQLITE_INT64_MAX = 2 ^ 63 - 1"

definition oldest_first :: "message_row list \<Rightarrow> message_row list" where
  "oldest_first ms = sort_key tm_at (sort_key tm_id ms)"

definition waiting_message :: "nat \<Rightarrow> thread_mode list \<Rightarrow> store \<Rightarrow> nat option" where
  "waiting_message sid modes s =
     (case oldest_first (filter (\<lambda>m. tm_scout m = Some sid \<and> tm_mode m \<in> set modes
         \<and> tm_consumed_by m = None) (messages s)) of
        [] \<Rightarrow> None
      | m # _ \<Rightarrow> Some (tm_id m))"

definition block_type :: "json \<Rightarrow> string option" where
  "block_type b =
     (case b of JObj fs \<Rightarrow> (case map_of fs ''type'' of Some (JStr k) \<Rightarrow> Some k | _ \<Rightarrow> None) | _ \<Rightarrow> None)"

definition check_blocks :: "json list \<Rightarrow> err + json list" where
  "check_blocks blocks =
     (if list_all (\<lambda>b. block_type b \<in> {Some ''finding'', Some ''action'', Some ''proposal''}) blocks
      then Inr blocks else Inl (ThreadRefused ''block type''))"

definition proposes :: "json list \<Rightarrow> bool" where
  "proposes blocks \<longleftrightarrow> list_ex (\<lambda>b. block_type b = Some ''proposal'') blocks"

definition answered_message :: "nat \<Rightarrow> nat \<Rightarrow> store \<Rightarrow> err + thread_mode \<times> json list" where
  "answered_message sid aid s =
     (case (if SQLITE_INT64_MAX < aid then None else fetch tm_id aid (messages s)) of
        None \<Rightarrow> Inl (ThreadRefused ''not a message of the scout'')
      | Some m \<Rightarrow>
          (if tm_scout m \<noteq> Some sid then Inl (ThreadRefused ''not a message of the scout'')
           else Inr (tm_mode m, tm_blocks m)))"

definition check_anchor :: "nat \<Rightarrow> nat option \<Rightarrow> json list \<Rightarrow> store \<Rightarrow> err + unit" where
  "check_anchor sid answers blocks s =
     (case answers of
        None \<Rightarrow> Inl (ThreadRefused ''an answer names its ask'')
      | Some aid \<Rightarrow> bindE (answered_message sid aid s) (\<lambda>(mode, _).
          if mode \<noteq> TM_ASK \<and> \<not> (mode = TM_STEER \<and> proposes blocks)
          then Inl (ThreadRefused ''an answer answers an ask'') else Inr ()))"

definition check_card :: "nat \<Rightarrow> nat \<Rightarrow> store \<Rightarrow> err + unit" where
  "check_card sid aid s =
     bindE (answered_message sid aid s) (\<lambda>(mode, blocks).
       if mode \<noteq> TM_ANSWER \<or> \<not> proposes blocks then Inl (ThreadRefused ''not a card of the scout'')
       else if \<exists>m \<in> set (messages s). tm_answers m = Some aid \<and> tm_mode m \<in> {TM_ASK, TM_STEER}
       then Inl (ThreadRefused ''already answers the card'')
       else Inr ())"

definition check_person :: "nat \<Rightarrow> scout_phase \<Rightarrow> nat option \<Rightarrow> store \<Rightarrow> err + unit" where
  "check_person sid phase answers s =
     (if phase \<in> set scout_ended \<and> phase \<noteq> SP_DONE then Inl (ThreadRefused ''not done or running'')
      else bindE (case answers of None \<Rightarrow> Inr () | Some aid \<Rightarrow> check_card sid aid s) (\<lambda>_.
        if waiting_message sid [TM_ASK, TM_STEER] s \<noteq> None then Inl (ThreadRefused ''not taken yet'')
        else Inr ()))"

definition new_message ::
    "env \<Rightarrow> scout_row \<Rightarrow> nat \<Rightarrow> string \<Rightarrow> thread_mode \<Rightarrow> string \<Rightarrow> json list \<Rightarrow> nat option \<Rightarrow> store \<Rightarrow> message_row" where
  "new_message v c sid author mode txt blocks answers s =
     \<lparr>tm_id = next_id tm_id (messages s), tm_project = sc_project c, tm_scout = Some sid,
      tm_author = py_strip author, tm_mode = mode,
      tm_text = redact_values (secrets v) (py_strip txt),
      tm_blocks = map (redact_document (secrets v)) blocks, tm_answers = answers,
      tm_at = clock v, tm_consumed_by = None, tm_consumed_at = None\<rparr>"

definition post_message ::
    "env \<Rightarrow> nat \<Rightarrow> string \<Rightarrow> thread_mode \<Rightarrow> string \<Rightarrow> json list \<Rightarrow> nat option \<Rightarrow> store \<Rightarrow>
     err + nat \<times> store" where
  [op_defs]: "post_message v sid author mode txt blocks answers s =
     (if blank txt then Inl (BlankText ''text'')
      else if blank author then Inl (BlankText ''author'')
      else bindE (check_blocks blocks) (\<lambda>listed.
        case scout_of sid s of
          None \<Rightarrow> Inl (ThreadRefused ''no such scout'')
        | Some c \<Rightarrow>
            bindE (if mode = TM_ANSWER then check_anchor sid answers listed s
                   else check_person sid (sc_phase c) answers s) (\<lambda>_.
              let row = new_message v c sid author mode txt listed answers s
              in Inr (tm_id row, s\<lparr>messages := messages s @ [row]\<rparr>))))"

lemma new_message_id [simp]: "tm_id (new_message v c sid au mo tx bs an s) = next_id tm_id (messages s)"
  by (simp add: new_message_def)

lemma post_message_cases:
  assumes "post_message v sid au mo tx bs an s = Inr (i, t)"
  obtains c where "scout_of sid s = Some c" "\<not> blank tx" "\<not> blank au"
    "mo \<noteq> TM_ANSWER \<Longrightarrow> check_person sid (sc_phase c) an s = Inr ()"
    "mo = TM_ANSWER \<Longrightarrow> check_anchor sid an bs s = Inr ()"
    "i = next_id tm_id (messages s)"
    "t = s\<lparr>messages := messages s @ [new_message v c sid au mo tx bs an s]\<rparr>"
proof -
  from assms obtain c where c: "scout_of sid s = Some c"
    by (auto simp: post_message_def split: if_split_asm option.split_asm)
  show ?thesis
    using assms by (intro that [OF c]; cases "mo = TM_ANSWER")
      (auto simp: post_message_def check_blocks_def Let_def c split: if_split_asm)
qed

definition scout_message :: "nat \<Rightarrow> store \<Rightarrow> (nat \<times> message_row \<times> scout_phase) option" where
  "scout_message mid s =
     Option.bind (fetch tm_id mid (messages s)) (\<lambda>m. Option.bind (tm_scout m) (\<lambda>sid.
       map_option (\<lambda>c. (sid, m, sc_phase c)) (scout_of sid s)))"

definition consume_message ::
    "env \<Rightarrow> held \<Rightarrow> nat \<Rightarrow> nat \<Rightarrow> string \<Rightarrow> string \<Rightarrow> (string \<times> json) list \<Rightarrow> store \<Rightarrow>
     err + nat \<times> store" where
  "consume_message v h sid mid kind summary payload s =
     bindE (record_scout_event v h sid kind summary EL_DETAIL (Some (PDoc (JObj payload))) s) (\<lambda>(seq, s).
       case find (\<lambda>e. e_scout e = Some sid \<and> e_seq e = seq) (events s) of
         None \<Rightarrow> Inl (ValueError ''NoneType is not iterable'')
       | Some e \<Rightarrow> Inr (e_id e, s\<lparr>messages := modify (\<lambda>m. tm_id m = mid)
             (\<lambda>m. m\<lparr>tm_consumed_by := Some (e_id e), tm_consumed_at := Some (clock v)\<rparr>) (messages s)\<rparr>))"

definition last_pass :: "nat \<Rightarrow> store \<Rightarrow> nat" where
  "last_pass sid s = foldr max (map sr_pass (filter (\<lambda>r. sr_scout r = sid) (scout_reports s))) 0"

definition take_message :: "env \<Rightarrow> held \<Rightarrow> nat \<Rightarrow> string option \<Rightarrow> store \<Rightarrow> err + nat \<times> store" where
  [op_defs]: "take_message v h mid host s =
     (case scout_message mid s of
        None \<Rightarrow> Inl (ThreadRefused ''no such message'')
      | Some (sid, m, phase) \<Rightarrow>
          (if tm_consumed_by m \<noteq> None then Inl (ThreadRefused ''already taken'')
           else if tm_mode m = TM_ANSWER then Inl (ThreadRefused ''an answer is not taken'')
           else if phase \<noteq> SP_DONE then Inl (ThreadRefused ''scout is not done'')
           else if tm_mode m = TM_ASK then
             consume_message v h sid mid ANSWER_STARTED (''answering message '' @ str_nat mid)
               [(''message'', JInt (int mid))] (reopen_scout v sid SP_ANSWERING host s)
           else
             (let n = Suc (last_pass sid s) in
              consume_message v h sid mid PASS_STARTED
                (''pass '' @ str_nat n @ '' steered by message '' @ str_nat mid)
                [(''message'', JInt (int mid)), (''pass'', JInt (int n))]
                (reopen_scout v sid SP_PLANNING host s))))"

definition take_steer :: "env \<Rightarrow> held \<Rightarrow> nat \<Rightarrow> nat \<Rightarrow> store \<Rightarrow> err + message_row option \<times> store" where
  [op_defs]: "take_steer v h sid wave s =
     (case scout_of sid s of
        None \<Rightarrow> Inr (None, s)
      | Some c \<Rightarrow>
          (if sc_phase c \<in> set scout_ended then Inr (None, s)
           else case waiting_message sid [TM_STEER] s of
               None \<Rightarrow> Inr (None, s)
             | Some mid \<Rightarrow>
                 bindE (consume_message v h sid mid STEER_TAKEN (''steer taken for wave '' @ str_nat wave)
                     [(''message'', JInt (int mid)), (''wave'', JInt (int wave))] s) (\<lambda>(_, s).
                   Inr (fetch tm_id mid (messages s), s))))"

definition release_message :: "env \<Rightarrow> held \<Rightarrow> nat \<Rightarrow> string \<Rightarrow> store \<Rightarrow> err + store" where
  [op_defs]: "release_message v h mid reason s =
     (case scout_message mid s of
        None \<Rightarrow> Inl (ThreadRefused ''no such message'')
      | Some (sid, m, phase) \<Rightarrow>
          (if tm_consumed_by m = None \<or> phase \<noteq> SP_ANSWERING
           then Inl (ThreadRefused ''not an answer in progress'')
           else
             bindE (record_scout_event v h sid START_FAILED
                 (''could not start: '' @ reason @ ''; message '' @ str_nat mid @ '' waits for the next pass'')
                 EL_DETAIL (Some (PDoc (JObj [(''message'', JInt (int mid)), (''reason'', JStr reason)]))) s)
               (\<lambda>(_, s). move_scout v h sid SP_DONE None None
                 (s\<lparr>messages := modify (\<lambda>m. tm_id m = mid)
                    (\<lambda>m. m\<lparr>tm_consumed_by := None, tm_consumed_at := None\<rparr>) (messages s)\<rparr>))))"

definition thread_of :: "nat \<Rightarrow> store \<Rightarrow> message_row list" where
  "thread_of sid s = oldest_first (filter (\<lambda>m. tm_scout m = Some sid) (messages s))"

definition waiting_messages :: "store \<Rightarrow> message_row list" where
  "waiting_messages s =
     oldest_first (filter (\<lambda>m. tm_mode m \<in> {TM_ASK, TM_STEER} \<and> tm_consumed_by m = None
       \<and> (case tm_scout m of None \<Rightarrow> False
          | Some sid \<Rightarrow> \<exists>c \<in> set (scouts s). sc_id c = sid \<and> sc_phase c = SP_DONE)) (messages s))"

subsection \<open>Every call is safe\<close>

lemma messages_safe:
  "row_run tm_id message_grows message_moves (messages s) rows \<Longrightarrow> safe s (s\<lparr>messages := rows\<rparr>)"
  by (rule safe_desk) (simp_all add: desk_safe_def)

lemma post_message_safe: "post_message v sid au mo tx bs an s = Inr (i, t) \<Longrightarrow> safe s t"
  by (erule post_message_cases)
    (simp add: messages_safe row_run_arrive message_grows_def new_message_def)

lemma record_scout_event_messages:
  "record_scout_event v h sid k sm lv pl s = Inr (q, t) \<Longrightarrow> messages t = messages s \<and> scouts t = scouts s"
  by (auto simp: record_scout_event_def Let_def split: if_split_asm prod.split_asm option.split_asm)

lemma consume_message_safe:
  assumes "consume_message v h sid mid k sm pl s = Inr (i, t)"
    and "m \<in> set (messages s)" and "tm_id m = mid" and "tm_consumed_by m = None"
  shows "safe s t"
proof -
  obtain seq u where u: "record_scout_event v h sid k sm EL_DETAIL (Some (PDoc (JObj pl))) s = Inr (seq, u)"
    and t: "t = u\<lparr>messages := modify (\<lambda>m. tm_id m = mid)
       (\<lambda>m. m\<lparr>tm_consumed_by := Some i, tm_consumed_at := Some (clock v)\<rparr>) (messages u)\<rparr>"
    using assms(1) by (auto simp: consume_message_def split: option.split_asm)
  from u have "messages u = messages s" by (simp add: record_scout_event_messages)
  then have "safe u t"
    unfolding t using assms(2-4)
    by (intro messages_safe row_run_one [where r = m]) (auto simp: message_moves_def)
  with record_scout_event_safe [OF u] show ?thesis by (rule safe_trans)
qed

lemma reopen_scout_safe:
  assumes "scout_of sid s = Some c" and "sc_phase c = SP_DONE" and "p = SP_ANSWERING \<or> p = SP_PLANNING"
  shows "safe s (reopen_scout v sid p ho s)"
  unfolding reopen_scout_def
  by (rule upd_scout_step [OF assms(1)]) (use assms in \<open>auto simp: scout_moves_def scout_may_def\<close>)

lemma reopen_scout_messages [simp]: "messages (reopen_scout v sid p ho s) = messages s"
  by (simp add: reopen_scout_def upd_scout_def)

lemma scout_message_Some:
  "scout_message mid s = Some (sid, m, p) \<longleftrightarrow>
     fetch tm_id mid (messages s) = Some m \<and> tm_scout m = Some sid
     \<and> (\<exists>c. scout_of sid s = Some c \<and> sc_phase c = p)"
  by (auto simp: scout_message_def bind_eq_Some_conv)

lemma take_message_cases:
  assumes "take_message v h mid ho s = Inr (e, t)"
  obtains sid m c p k sm pl where "fetch tm_id mid (messages s) = Some m" "tm_consumed_by m = None"
    "tm_scout m = Some sid" "tm_mode m \<noteq> TM_ANSWER" "scout_of sid s = Some c" "sc_phase c = SP_DONE"
    "p = (if tm_mode m = TM_ASK then SP_ANSWERING else SP_PLANNING)"
    "k = (if tm_mode m = TM_ASK then ANSWER_STARTED else PASS_STARTED)"
    "consume_message v h sid mid k sm pl (reopen_scout v sid p ho s) = Inr (e, t)"
proof -
  obtain sid m c where m: "fetch tm_id mid (messages s) = Some m" "tm_scout m = Some sid"
    and c: "scout_of sid s = Some c"
    using assms by (auto simp: take_message_def scout_message_Some split: option.split_asm)
  then have msg: "scout_message mid s = Some (sid, m, sc_phase c)" by (simp add: scout_message_Some)
  with assms have none: "tm_consumed_by m = None" "tm_mode m \<noteq> TM_ANSWER" "sc_phase c = SP_DONE"
    by (auto simp: take_message_def split: if_split_asm)
  show ?thesis
  proof (cases "tm_mode m = TM_ASK")
    case True
    then show ?thesis
      using assms msg none by (intro that [OF m(1) none(1) m(2) none(2) c none(3) refl refl])
        (auto simp: take_message_def)
  next
    case False
    then show ?thesis
      using assms msg none by (intro that [OF m(1) none(1) m(2) none(2) c none(3) refl refl])
        (auto simp: take_message_def Let_def)
  qed
qed

lemma take_message_safe:
  assumes "take_message v h mid ho s = Inr (e, t)"
  shows "safe s t"
  using assms
proof (rule take_message_cases)
  fix sid m c p k sm pl
  assume m: "fetch tm_id mid (messages s) = Some m" "tm_consumed_by m = None"
    and c: "scout_of sid s = Some c" "sc_phase c = SP_DONE"
    and p: "p = (if tm_mode m = TM_ASK then SP_ANSWERING else SP_PLANNING)"
    and t: "consume_message v h sid mid k sm pl (reopen_scout v sid p ho s) = Inr (e, t)"
  have "safe (reopen_scout v sid p ho s) t"
    using consume_message_safe [OF t, of m] fetch_SomeD [OF m(1)] m(2) by simp
  moreover have "p = SP_ANSWERING \<or> p = SP_PLANNING" by (simp add: p)
  ultimately show "safe s t" using reopen_scout_safe [OF c] safe_trans by blast
qed

lemma oldest_first_set [simp]: "set (oldest_first ms) = set ms"
  by (simp add: oldest_first_def)

lemma waiting_message_Some:
  assumes "waiting_message sid modes s = Some mid"
  obtains m where "m \<in> set (messages s)" "tm_id m = mid" "tm_scout m = Some sid"
    "tm_mode m \<in> set modes" "tm_consumed_by m = None"
proof -
  let ?ms = "filter (\<lambda>m. tm_scout m = Some sid \<and> tm_mode m \<in> set modes \<and> tm_consumed_by m = None) (messages s)"
  obtain m rest where "oldest_first ?ms = m # rest" "mid = tm_id m"
    using assms by (auto simp: waiting_message_def split: list.split_asm)
  then have "m \<in> set (oldest_first ?ms)" by simp
  then have "m \<in> set ?ms" by (simp only: oldest_first_set)
  with \<open>mid = tm_id m\<close> show ?thesis by (intro that) auto
qed

lemma take_steer_safe:
  assumes "take_steer v h sid wave s = Inr (r, t)"
  shows "safe s t"
proof (cases "t = s")
  case False
  then obtain mid i u where "waiting_message sid [TM_STEER] s = Some mid"
    and "consume_message v h sid mid STEER_TAKEN (''steer taken for wave '' @ str_nat wave)
       [(''message'', JInt (int mid)), (''wave'', JInt (int wave))] s = Inr (i, t)"
    using assms by (auto simp: take_steer_def split: option.split_asm if_split_asm)
  then show ?thesis by (auto elim!: waiting_message_Some consume_message_safe)
qed simp

lemma release_message_safe:
  assumes "release_message v h mid why s = Inr t"
  shows "safe s t"
proof -
  obtain m sid q u where m: "fetch tm_id mid (messages s) = Some m" "tm_consumed_by m \<noteq> None"
    and u: "record_scout_event v h sid START_FAILED
         (''could not start: '' @ why @ ''; message '' @ str_nat mid @ '' waits for the next pass'')
         EL_DETAIL (Some (PDoc (JObj [(''message'', JInt (int mid)), (''reason'', JStr why)]))) s = Inr (q, u)"
    and t: "move_scout v h sid SP_DONE None None
         (u\<lparr>messages := modify (\<lambda>m. tm_id m = mid)
            (\<lambda>m. m\<lparr>tm_consumed_by := None, tm_consumed_at := None\<rparr>) (messages u)\<rparr>) = Inr t"
    using assms by (auto simp: release_message_def scout_message_Some split: option.split_asm if_split_asm)
  from u have "messages u = messages s" by (simp add: record_scout_event_messages)
  then have "safe u (u\<lparr>messages := modify (\<lambda>m. tm_id m = mid)
      (\<lambda>m. m\<lparr>tm_consumed_by := None, tm_consumed_at := None\<rparr>) (messages u)\<rparr>)"
    using m by (intro messages_safe row_run_fetched) (auto simp: message_moves_def)
  with record_scout_event_safe [OF u] move_scout_safe [OF t] show ?thesis by (meson safe_trans)
qed

subsection \<open>Which messages can be taken\<close>

lemma find_snoc: "P x \<Longrightarrow> \<exists>y. find P (xs @ [x]) = Some y"
  by (induction xs) auto

lemma consume_message_ok:
  assumes "live_scout h sid s = Inr p"
  shows "\<exists>e u. consume_message v h sid mid k sm pl s = Inr (e, u) \<and> scouts u = scouts s \<and>
    messages u = modify (\<lambda>m. tm_id m = mid)
      (\<lambda>m. m\<lparr>tm_consumed_by := Some e, tm_consumed_at := Some (clock v)\<rparr>) (messages s)"
proof -
  obtain c where c: "scout_of sid s = Some c" using assms by (auto simp: live_scout_Inr)
  obtain tx doc where r: "redact_event v sm (Some (PDoc (JObj pl))) = (tx, doc)" by fastforce
  let ?row = "\<lparr>e_id = next_id e_id (events s), e_run = None,
    e_project = Some (sc_project c), e_seq = next_scout_seq sid s, e_level = EL_DETAIL, e_kind = k,
    e_summary = tx, e_payload = doc, e_at = clock v, e_scout = Some sid\<rparr>"
  obtain y where "find (\<lambda>e. e_scout e = Some sid \<and> e_seq e = next_scout_seq sid s) (events s @ [?row]) = Some y"
    using find_snoc [of "\<lambda>e. e_scout e = Some sid \<and> e_seq e = next_scout_seq sid s" ?row "events s"] by auto
  then show ?thesis
    using assms c r by (simp add: consume_message_def record_scout_event_def Let_def)
qed

lemma consume_message_refused:
  "live_scout h sid s = Inl x \<Longrightarrow> consume_message v h sid mid k sm pl s = Inl x"
  by (simp add: consume_message_def record_scout_event_def Let_def split: prod.split)

text \<open>The reopened scout has no owner: a process that holds it is refused, any other is not.\<close>

lemma live_reopened:
  assumes "scout_of sid s = Some c" and "p = SP_ANSWERING \<or> p = SP_PLANNING"
  shows "live_scout h sid (reopen_scout v sid p ho s) = (if h sid = None then Inr p else Inl (ScoutRefused sid p))"
  using assms
  by (auto simp: live_scout_def scout_phase_of_def held_check_def scout_ended_def reopen_scout_def
      upd_scout_def fetch_modify_key)

definition takeable :: "nat \<Rightarrow> nat \<Rightarrow> store \<Rightarrow> bool" where
  "takeable mid sid s \<longleftrightarrow> (\<exists>m \<in> set (waiting_messages s). tm_id m = mid \<and> tm_scout m = Some sid)"

lemma takeable_iff:
  assumes "keyed tm_id (messages s)" and "keyed sc_id (scouts s)"
  shows "takeable mid sid s \<longleftrightarrow> (\<exists>m c. fetch tm_id mid (messages s) = Some m \<and> tm_scout m = Some sid
    \<and> tm_mode m \<noteq> TM_ANSWER \<and> tm_consumed_by m = None \<and> scout_of sid s = Some c \<and> sc_phase c = SP_DONE)"
proof -
  have modes: "tm_mode m \<in> {TM_ASK, TM_STEER} \<longleftrightarrow> tm_mode m \<noteq> TM_ANSWER" for m
    by (cases "tm_mode m") auto
  have "(\<exists>c \<in> set (scouts s). sc_id c = sid \<and> sc_phase c = SP_DONE)
      \<longleftrightarrow> (\<exists>c. scout_of sid s = Some c \<and> sc_phase c = SP_DONE)" for sid
    using fetch_member [OF assms(2)] by (auto dest: fetch_SomeD)
  then show ?thesis
    using fetch_member [OF assms(1)]
    unfolding takeable_def waiting_messages_def oldest_first_set set_filter modes
    by (auto dest: fetch_SomeD split: option.splits)
qed

lemma take_message_result:
  assumes "keyed tm_id (messages s)" and "keyed sc_id (scouts s)"
  shows "case take_message v h mid ho s of
      Inr (e, t) \<Rightarrow> (\<exists>sid. takeable mid sid s \<and> h sid = None)
        \<and> map_option tm_consumed_by (fetch tm_id mid (messages t)) = Some (Some e)
    | Inl (ThreadRefused _) \<Rightarrow> \<not> (\<exists>sid. takeable mid sid s)
    | Inl (ScoutRefused sid _) \<Rightarrow> takeable mid sid s \<and> h sid \<noteq> None
    | Inl _ \<Rightarrow> False"
proof (cases "\<exists>sid. takeable mid sid s")
  case False
  then have "\<exists>w. take_message v h mid ho s = Inl (ThreadRefused w)"
    unfolding takeable_iff [OF assms]
    by (auto simp: take_message_def scout_message_Some split: option.split)
  with False show ?thesis by auto
next
  case True
  then obtain sid m c where m: "fetch tm_id mid (messages s) = Some m" "tm_scout m = Some sid"
      "tm_mode m \<noteq> TM_ANSWER" "tm_consumed_by m = None"
    and c: "scout_of sid s = Some c" "sc_phase c = SP_DONE"
    unfolding takeable_iff [OF assms] by blast
  then have t: "takeable mid sid s" unfolding takeable_iff [OF assms] by blast
  have "scout_message mid s = Some (sid, m, SP_DONE)" using m c by (simp add: scout_message_Some)
  then obtain p k sm pl where p: "p = SP_ANSWERING \<or> p = SP_PLANNING"
    and take: "take_message v h mid ho s = consume_message v h sid mid k sm pl (reopen_scout v sid p ho s)"
    using m by (cases "tm_mode m = TM_ASK") (auto simp: take_message_def Let_def)
  show ?thesis
  proof (cases "h sid = None")
    case True
    then obtain e u where "consume_message v h sid mid k sm pl (reopen_scout v sid p ho s) = Inr (e, u)"
      "messages u = modify (\<lambda>m. tm_id m = mid)
        (\<lambda>m. m\<lparr>tm_consumed_by := Some e, tm_consumed_at := Some (clock v)\<rparr>) (messages s)"
      using consume_message_ok [of h sid "reopen_scout v sid p ho s" p] live_reopened [OF c(1) p] by force
    with take t True m(1) show ?thesis by (auto simp: fetch_modify_key)
  next
    case False
    with live_reopened [OF c(1) p, of h v ho]
    have "consume_message v h sid mid k sm pl (reopen_scout v sid p ho s) = Inl (ScoutRefused sid p)"
      by (simp add: consume_message_refused)
    with take t False show ?thesis by simp
  qed
qed

end
