(* ===== verification/FollowUps.thy ===== *)
theory FollowUps
  imports Stories
begin

section \<open>Follow-ups and proposals\<close>

text \<open>
  \<^verbatim>\<open>store/follow_ups.py\<close> and \<^verbatim>\<open>store/story_proposals.py\<close>: the FOLLOW_UP lines of a run, pending
  until settled once at the merge, and a story child's follow-up proposed as a new child. The
  payloads of the events are the JSON the code dumps. \<open>normalise\<close> of \<open>story_duplicate\<close> is the
  caller's function.

  The lemmas say that a follow-up settles once and stays settled, and that a proposal is decided
  once, by an acceptance that adds exactly one scaffolding child.
\<close>

subsection \<open>Follow-ups\<close>

fun follow_up_kind_value :: "follow_up_kind \<Rightarrow> string" where
  "follow_up_kind_value FU_FEATURE = ''feature''"
| "follow_up_kind_value FU_GUARDRAIL = ''guardrail''"

definition follow_up_payload ::
    "nat \<Rightarrow> follow_up_kind \<Rightarrow> string \<Rightarrow> string option \<Rightarrow> payload" where
  "follow_up_payload k kind fingerprint key =
     PDoc (JObj ([(''id'', JInt (int k)), (''kind'', JStr (follow_up_kind_value kind)),
       (''fingerprint'', JStr fingerprint)]
       @ (case key of None \<Rightarrow> [] | Some x \<Rightarrow> [(''key'', JStr x)])))"

definition record_follow_up ::
    "env \<Rightarrow> nat \<Rightarrow> string \<Rightarrow> follow_up_kind \<Rightarrow> bool \<Rightarrow> string \<Rightarrow> string \<Rightarrow> string option \<Rightarrow> int option \<Rightarrow>
     store \<Rightarrow> err + nat option \<times> store" where
  [op_defs]: "record_follow_up v rid sha kind given txt fingerprint path line s =
     (case run_of rid s of
        None \<Rightarrow> Inl (ValueError ''no run'')
      | Some r \<Rightarrow>
          (if \<exists>f \<in> set (follow_ups s). f_run f = rid \<and> f_print f = fingerprint then Inr (None, s)
           else
             (let i = next_id f_id (follow_ups s);
                  row = \<lparr>f_id = i, f_run = rid, f_ticket = r_ticket r, f_sha = sha, f_kind = kind,
                    f_given = given, f_text = txt, f_path = path, f_line = line,
                    f_print = fingerprint, f_created = clock v, f_settled = None,
                    f_filed_as = None, f_duplicate = None, f_error = None\<rparr>;
                  s = s\<lparr>follow_ups := follow_ups s @ [row]\<rparr>
              in if given then Inr (Some i, s)
                 else bindE (record_event v rid ''follow_up_kind_missing''
                        (''follow-up '' @ str_nat i @ '': kind not given; filed as ''
                           @ follow_up_kind_value kind)
                        EL_DETAIL (Some (follow_up_payload i kind fingerprint None)) s)
                      (\<lambda>(_, s). Inr (Some i, s)))))"

text \<open>The run's pending rows, and those of every unmerged run of its ticket.\<close>

definition pending_follow_ups :: "nat \<Rightarrow> store \<Rightarrow> follow_up_row list" where
  "pending_follow_ups rid s =
     sort_key f_id (filter (\<lambda>f. f_settled f = None \<and>
       (f_run f = rid \<or>
        (\<exists>e \<in> set (runs s). r_id e = f_run f \<and> r_outcome e \<noteq> Some OC_MERGED
           \<and> (\<exists>m \<in> set (runs s). r_id m = rid \<and> r_ticket e = r_ticket m)))) (follow_ups s))"

definition follow_up_project :: "follow_up_row \<Rightarrow> store \<Rightarrow> nat option" where
  "follow_up_project f s = map_option r_project (run_of (f_run f) s)"

definition joined_draft :: "nat \<Rightarrow> follow_up_row \<Rightarrow> store \<Rightarrow> bool" where
  "joined_draft project f s \<longleftrightarrow> f_duplicate f \<noteq> None \<and>
     (\<exists>d \<in> set (follow_ups s). f_filed_as d = f_duplicate f \<and> follow_up_project d s = Some project)"

definition draft_of :: "follow_up_row \<Rightarrow> string option" where
  "draft_of f = (case f_filed_as f of None \<Rightarrow> f_duplicate f | Some key \<Rightarrow> Some key)"

text \<open>\<^verbatim>\<open>list(dict.fromkeys(...))\<close> keeps the first of equal keys.\<close>

definition filed_drafts :: "nat \<Rightarrow> store \<Rightarrow> string option list" where
  "filed_drafts fid s =
     (case fetch f_id fid (follow_ups s) of
        None \<Rightarrow> []
      | Some this \<Rightarrow>
          (case follow_up_project this s of
             None \<Rightarrow> []
           | Some project \<Rightarrow>
               first_per id (map draft_of (rev (sort_key f_id (filter (\<lambda>f.
                 follow_up_project f s = Some project \<and> f_id f \<noteq> f_id this
                 \<and> f_print f = f_print this \<and> f_kind f = FU_FEATURE
                 \<and> (f_filed_as f \<noteq> None \<or> joined_draft project f s)) (follow_ups s)))))))"

text \<open>
  \<^verbatim>\<open>_settle\<close>: \<open>upd\<close> writes the columns passed by keyword, \<open>key\<close> is
  \<^verbatim>\<open>named or columns.get("filedAs") or columns.get("duplicateOf")\<close>.
\<close>

definition settle_follow_up ::
    "env \<Rightarrow> nat \<Rightarrow> string \<Rightarrow> string \<Rightarrow> (follow_up_row \<Rightarrow> follow_up_row) \<Rightarrow> string option \<Rightarrow> store \<Rightarrow>
     err + bool \<times> store" where
  [op_defs]: "settle_follow_up v fid event summary upd key s =
     (case fetch f_id fid (follow_ups s) of
        None \<Rightarrow> Inl (ValueError ''no follow-up'')
      | Some f \<Rightarrow>
          (if f_settled f \<noteq> None then Inr (False, s)
           else
             (let s = s\<lparr>follow_ups := modify (\<lambda>g. f_id g = fid \<and> f_settled g = None)
                    (\<lambda>g. upd (g\<lparr>f_settled := Some (clock v)\<rparr>)) (follow_ups s)\<rparr>
              in bindE (record_event v (f_run f) event
                     (''follow-up '' @ str_nat fid @ '': '' @ summary) EL_DETAIL
                     (Some (follow_up_payload fid (f_kind f) (f_print f) key)) s)
                   (\<lambda>(_, s). Inr (True, s)))))"

definition py_or :: "string \<Rightarrow> string option" where
  "py_or x = (if x = [] then None else Some x)"

definition settle_filed :: "env \<Rightarrow> nat \<Rightarrow> string \<Rightarrow> store \<Rightarrow> err + bool \<times> store" where
  "settle_filed v fid key s = settle_follow_up v fid ''follow_up_filed'' (''filed as '' @ key)
     (\<lambda>f. f\<lparr>f_filed_as := Some key\<rparr>) (py_or key) s"

definition settle_duplicate :: "env \<Rightarrow> nat \<Rightarrow> string \<Rightarrow> string \<Rightarrow> store \<Rightarrow> err + bool \<times> store" where
  "settle_duplicate v fid key draft s = settle_follow_up v fid ''follow_up_duplicate''
     (''duplicate of '' @ draft @ '' '' @ key) (\<lambda>f. f\<lparr>f_duplicate := Some key\<rparr>) (Some key) s"

definition settle_superseded :: "env \<Rightarrow> nat \<Rightarrow> string \<Rightarrow> store \<Rightarrow> err + bool \<times> store" where
  "settle_superseded v fid sha s = settle_follow_up v fid ''follow_up_superseded''
     (''superseded by fix commit '' @ sha) id (py_or sha) s"

definition settle_ledger :: "env \<Rightarrow> nat \<Rightarrow> store \<Rightarrow> err + bool \<times> store" where
  "settle_ledger v fid s = settle_follow_up v fid ''follow_up_ledger''
     ''kept in the findings ledger'' id None s"

definition settle_unfiled :: "env \<Rightarrow> nat \<Rightarrow> string \<Rightarrow> store \<Rightarrow> err + bool \<times> store" where
  "settle_unfiled v fid error s = settle_follow_up v fid ''follow_up_unfiled''
     (''not filed: '' @ error) (\<lambda>f. f\<lparr>f_error := Some error\<rparr>) None s"

subsection \<open>What a follow-up came to\<close>

fun settled_event :: "string \<Rightarrow> string option" where
  "settled_event kind =
     (if kind = ''follow_up_filed'' then Some ''filed''
      else if kind = ''follow_up_duplicate'' then Some ''duplicate''
      else if kind = ''follow_up_ledger'' then Some ''ledger''
      else if kind = ''follow_up_superseded'' then Some ''superseded''
      else if kind = ''follow_up_unfiled'' then Some ''unfiled''
      else None)"

fun eventless_state :: "follow_up_kind \<Rightarrow> string" where
  "eventless_state FU_GUARDRAIL = ''ledger''"
| "eventless_state FU_FEATURE = ''superseded''"

definition event_names :: "event_row \<Rightarrow> nat \<Rightarrow> bool" where
  "event_names e fid \<longleftrightarrow>
     (case e_payload e of
        Some (PDoc (JObj fs)) \<Rightarrow> map_of fs ''id'' = Some (JInt (int fid))
      | _ \<Rightarrow> False)"

definition settling_event :: "follow_up_row \<Rightarrow> store \<Rightarrow> string option" where
  "settling_event f s =
     (case rev (sort_key e_seq (filter (\<lambda>e. e_run e = Some (f_run f) \<and> settled_event (e_kind e) \<noteq> None
         \<and> event_names e (f_id f)) (events s))) of
        [] \<Rightarrow> None
      | e # _ \<Rightarrow> settled_event (e_kind e))"

definition follow_up_state :: "follow_up_row \<Rightarrow> store \<Rightarrow> string" where
  "follow_up_state f s =
     (if f_settled f = None then ''pending''
      else case settling_event f s of None \<Rightarrow> eventless_state (f_kind f) | Some st \<Rightarrow> st)"

definition follow_ups_since ::
    "int \<Rightarrow> int option \<Rightarrow> store \<Rightarrow> (follow_up_row \<times> string \<times> string) list" where
  "follow_ups_since since until s =
     List.map_filter (\<lambda>f. map_option (\<lambda>t. (f, t_ident t, follow_up_state f s)) (ticket_of (f_ticket f) s))
       (rev (sort_key f_created (sort_key f_id (filter (\<lambda>f.
         (since \<le> f_created f \<or> until = None \<and> f_settled f = None)
         \<and> (case until of None \<Rightarrow> True | Some u \<Rightarrow> f_created f < u)) (follow_ups s)))))"

subsection \<open>Proposals\<close>

definition proposal_key :: "nat \<Rightarrow> string" where
  "proposal_key i = CHR ''p'' # str_nat i"

definition proposable :: "story_state \<Rightarrow> bool" where
  "proposable st \<longleftrightarrow> st \<in> {SY_PLANNED, SY_APPROVED, SY_PARKED}"

definition record_proposal ::
    "env \<Rightarrow> nat \<Rightarrow> nat \<Rightarrow> nat \<Rightarrow> string \<Rightarrow> string \<Rightarrow> store \<Rightarrow> err + nat \<times> store" where
  [op_defs]: "record_proposal v sid fid raised title body s =
     bindE (story_state sid s) (\<lambda>state.
       if \<not> proposable state then Inl (ValueError ''story has ended'')
       else if raised \<notin> set (children_ids sid s) then Inl (ValueError ''is not a child of story'')
       else if (\<exists>q \<in> set (proposals s). q_follow_up q = fid) \<or> fetch f_id fid (follow_ups s) = None
          \<or> ticket_of raised s = None
       then Inl (IntegrityError ''storyProposals'')
       else
         (let i = next_id q_id (proposals s);
              row = \<lparr>q_id = i, q_story = sid, q_follow_up = fid, q_raised_by = raised,
                q_title = title, q_body = body, q_state = PS_PROPOSED, q_child = None,
                q_decided_by = None, q_decided_at = None, q_at = clock v\<rparr>;
              s = s\<lparr>proposals := proposals s @ [row]\<rparr>
          in case ticket_of sid s of
               None \<Rightarrow> Inl (ValueError ''NoneType is not iterable'')
             | Some t \<Rightarrow>
                 bindE (settle_follow_up v fid ''follow_up_proposed''
                     (''proposed as '' @ proposal_key i @ '' of story '' @ t_ident t) id
                     (Some (proposal_key i)) s) (\<lambda>(settled, s).
                   if settled then Inr (i, s) else Inl (ValueError ''is already settled''))))"

definition decidable_proposal :: "nat \<Rightarrow> store \<Rightarrow> err + nat \<times> nat" where
  "decidable_proposal i s =
     (case fetch q_id i (proposals s) of
        None \<Rightarrow> Inl (ValueError ''no proposal'')
      | Some q \<Rightarrow>
          (case (story_of (q_story q) s, ticket_of (q_story q) s) of
             (Some y, Some t) \<Rightarrow>
               (if \<not> proposable (y_state y) then Inl (ValueError ''story has ended'')
                else if q_state q \<noteq> PS_PROPOSED then Inl (ValueError ''proposal is already decided'')
                else Inr (q_story q, t_project t))
           | _ \<Rightarrow> Inl (ValueError ''no proposal'')))"

definition decide_proposal ::
    "env \<Rightarrow> nat \<Rightarrow> proposal_state \<Rightarrow> nat option \<Rightarrow> string \<Rightarrow> string \<Rightarrow> nat \<Rightarrow> store \<Rightarrow> err + store" where
  "decide_proposal v i state child author note project s =
     bindE (record_project_intervention v IA_DECIDE note IS_HUMAN IT_MANUAL (Some project) None s) (\<lambda>(_, s).
       Inr (s\<lparr>proposals := modify (\<lambda>q. q_id q = i)
         (\<lambda>q. q\<lparr>q_state := state, q_child := child, q_decided_by := Some author,
                q_decided_at := Some (clock v)\<rparr>) (proposals s)\<rparr>))"

definition add_child_to_plan :: "string \<Rightarrow> string list \<Rightarrow> plan \<Rightarrow> plan" where
  "add_child_to_plan ident depends p =
     p\<lparr>pl_children := pl_children p @ [\<lparr>pc_ident = ident, pc_role = CR_SCAFFOLDING, pc_keys = []\<rparr>],
       pl_edges := assoc_put ident depends (pl_edges p)\<rparr>"

definition adopt_child :: "nat \<Rightarrow> ticket_row \<Rightarrow> store \<Rightarrow> store" where
  "adopt_child sid t s =
     (let s = s\<lparr>story_children := story_children s
            @ [\<lparr>ch_ticket = t_id t, ch_key = [], ch_story = sid, ch_role = CR_SCAFFOLDING\<rparr>]\<rparr>;
          s = upd_ticket (t_id t) (\<lambda>t. t\<lparr>t_parent := Some sid\<rparr>) s
      in upd_story sid (\<lambda>y. y\<lparr>y_plan := map_option (add_child_to_plan (t_ident t) (t_depends t)) (y_plan y)\<rparr>) s)"

definition accept_proposal :: "env \<Rightarrow> nat \<Rightarrow> nat \<Rightarrow> string \<Rightarrow> string \<Rightarrow> store \<Rightarrow> err + store" where
  [op_defs]: "accept_proposal v i child author note s =
     bindE (decidable_proposal i s) (\<lambda>(sid, project).
       case find (\<lambda>t. t_id t = child \<and> t_project t = project) (tickets s) of
         None \<Rightarrow> Inl (ValueError ''not in the story's project'')
       | Some t \<Rightarrow>
           (if t_parent t \<noteq> None \<or> (\<exists>c \<in> set (story_children s). ch_ticket c = child)
            then Inl (ValueError ''already serves a story'')
            else decide_proposal v i PS_ACCEPTED (Some child) author note project (adopt_child sid t s)))"

definition reject_proposal :: "env \<Rightarrow> nat \<Rightarrow> string \<Rightarrow> string \<Rightarrow> store \<Rightarrow> err + store" where
  [op_defs]: "reject_proposal v i author note s =
     bindE (decidable_proposal i s) (\<lambda>(_, project).
       decide_proposal v i PS_REJECTED None author note project s)"

definition open_proposals :: "nat \<Rightarrow> store \<Rightarrow> (nat \<times> string \<times> string) list" where
  "open_proposals sid s =
     List.map_filter (\<lambda>q.
       case (ticket_of (q_raised_by q) s, fetch f_id (q_follow_up q) (follow_ups s)) of
         (Some t, Some f) \<Rightarrow> Some (q_id q, t_ident t, f_text f)
       | _ \<Rightarrow> None)
       (sort_key q_id (filter (\<lambda>q. q_story q = sid \<and> q_state q = PS_PROPOSED) (proposals s)))"

datatype duplicate = DuplicateChild string | DuplicateProposal string

definition repeats_proposal :: "string \<Rightarrow> store \<Rightarrow> proposal_row \<Rightarrow> bool" where
  "repeats_proposal fingerprint s q \<longleftrightarrow>
     (case fetch f_id (q_follow_up q) (follow_ups s) of
        None \<Rightarrow> False
      | Some f \<Rightarrow> f_print f = fingerprint
          \<or> (\<exists>j \<in> set (follow_ups s). f_print j = fingerprint
               \<and> f_duplicate j = Some (proposal_key (q_id q))))"

definition story_duplicate ::
    "nat \<Rightarrow> string \<Rightarrow> string \<Rightarrow> (string \<Rightarrow> string) \<Rightarrow> store \<Rightarrow> duplicate option" where
  "story_duplicate sid fingerprint txt normalise s =
     (case find (\<lambda>t. py_contains (''Follow-up fingerprint: '' @ fingerprint) (t_body t)
           \<or> normalise (t_title t) = normalise txt)
         (sort_key t_id (filter (\<lambda>t. t_status t \<noteq> TS_ABANDONED) (child_tickets sid s))) of
        Some t \<Rightarrow> Some (DuplicateChild (t_ident t))
      | None \<Rightarrow>
          (case sort_key q_id (filter (\<lambda>q. q_story q = sid \<and> repeats_proposal fingerprint s q)
               (proposals s)) of
             [] \<Rightarrow> None
           | q # _ \<Rightarrow> Some (DuplicateProposal (proposal_key (q_id q)))))"

subsection \<open>Every call is safe\<close>

lemma follow_ups_safe:
  "row_run f_id follow_up_grows follow_up_moves (follow_ups s) rows \<Longrightarrow> safe s (s\<lparr>follow_ups := rows\<rparr>)"
  by (rule safe_desk) (simp_all add: desk_safe_def)

lemma proposals_safe:
  "row_run q_id proposal_grows proposal_moves (proposals s) rows \<Longrightarrow> safe s (s\<lparr>proposals := rows\<rparr>)"
  by (rule safe_desk) (simp_all add: desk_safe_def)

lemma record_follow_up_safe:
  assumes "record_follow_up v rid sha k g tx fp pa li s = Inr (i, t)"
  shows "safe s t"
proof -
  obtain r where r: "run_of rid s = Some r"
    using assms by (auto simp: record_follow_up_def split: option.split_asm)
  define row where "row = \<lparr>f_id = next_id f_id (follow_ups s), f_run = rid, f_ticket = r_ticket r,
    f_sha = sha, f_kind = k, f_given = g, f_text = tx, f_path = pa, f_line = li, f_print = fp,
    f_created = clock v, f_settled = None, f_filed_as = None, f_duplicate = None, f_error = None\<rparr>"
  let ?u = "s\<lparr>follow_ups := follow_ups s @ [row]\<rparr>"
  have "t = s \<or> (\<forall>f \<in> set (follow_ups s). \<not> (f_run f = rid \<and> f_print f = fp))
      \<and> (t = ?u \<or> (\<exists>sm pl q. record_event v rid ''follow_up_kind_missing'' sm EL_DETAIL pl ?u = Inr (q, t)))"
    using assms r unfolding record_follow_up_def row_def Let_def by (auto split: if_split_asm)
  moreover have "safe s ?u" if "\<forall>f \<in> set (follow_ups s). \<not> (f_run f = rid \<and> f_print f = fp)"
    using that by (intro follow_ups_safe row_run_arrive) (auto simp: follow_up_grows_def row_def)
  ultimately show ?thesis
    by (auto intro: safe_trans record_event_safe)
qed

lemma settle_follow_up_cases:
  assumes "settle_follow_up v fid ev sm upd key s = Inr (b, t)"
  obtains (already) f where "fetch f_id fid (follow_ups s) = Some f" "f_settled f \<noteq> None" "\<not> b" "t = s"
    | (settles) f q where "fetch f_id fid (follow_ups s) = Some f" "f_settled f = None" "b"
      "record_event v (f_run f) ev (''follow-up '' @ str_nat fid @ '': '' @ sm) EL_DETAIL
         (Some (follow_up_payload fid (f_kind f) (f_print f) key))
         (s\<lparr>follow_ups := modify (\<lambda>g. f_id g = fid \<and> f_settled g = None)
            (\<lambda>g. upd (g\<lparr>f_settled := Some (clock v)\<rparr>)) (follow_ups s)\<rparr>) = Inr (q, t)"
  using assms unfolding settle_follow_up_def Let_def
  by (auto split: option.split_asm if_split_asm)

text \<open>The columns a settling call writes beside \<^verbatim>\<open>settledAt\<close>: none of the row's identity.\<close>

definition settling :: "(follow_up_row \<Rightarrow> follow_up_row) \<Rightarrow> bool" where
  "settling upd \<longleftrightarrow> (\<forall>f. f_id (upd f) = f_id f \<and> f_run (upd f) = f_run f \<and> f_print (upd f) = f_print f
     \<and> f_text (upd f) = f_text f \<and> f_settled (upd f) = f_settled f)"

lemma settle_follow_up_safe:
  assumes "settle_follow_up v fid ev sm upd key s = Inr (b, t)" and "settling upd"
  shows "safe s t"
  using assms(1)
proof (cases rule: settle_follow_up_cases)
  case (settles f q)
  have "safe s (s\<lparr>follow_ups := modify (\<lambda>g. f_id g = fid \<and> f_settled g = None)
      (\<lambda>g. upd (g\<lparr>f_settled := Some (clock v)\<rparr>)) (follow_ups s)\<rparr>)"
    using assms(2) by (intro follow_ups_safe row_run_change) (auto simp: settling_def follow_up_moves_def)
  with record_event_safe [OF settles(4)] show ?thesis by (blast intro: safe_trans)
qed simp

lemma settlings_safe:
  "settle_filed v fid key s = Inr (b, t) \<Longrightarrow> safe s t"
  "settle_duplicate v fid key dr s = Inr (b, t) \<Longrightarrow> safe s t"
  "settle_superseded v fid sha s = Inr (b, t) \<Longrightarrow> safe s t"
  "settle_ledger v fid s = Inr (b, t) \<Longrightarrow> safe s t"
  "settle_unfiled v fid er s = Inr (b, t) \<Longrightarrow> safe s t"
  by (auto simp: settle_filed_def settle_duplicate_def settle_superseded_def settle_ledger_def
      settle_unfiled_def settling_def elim!: settle_follow_up_safe)

lemma record_proposal_safe:
  assumes "record_proposal v sid fid ra ti bo s = Inr (i, t)"
  shows "safe s t"
proof -
  define row where "row = \<lparr>q_id = next_id q_id (proposals s), q_story = sid, q_follow_up = fid,
    q_raised_by = ra, q_title = ti, q_body = bo, q_state = PS_PROPOSED, q_child = None,
    q_decided_by = None, q_decided_at = None, q_at = clock v\<rparr>"
  let ?u = "s\<lparr>proposals := proposals s @ [row]\<rparr>"
  obtain sm key where fresh: "\<not> (\<exists>q \<in> set (proposals s). q_follow_up q = fid)"
    and t: "settle_follow_up v fid ''follow_up_proposed'' sm id key ?u = Inr (True, t)"
    using assms unfolding record_proposal_def row_def Let_def
    by (auto split: if_split_asm option.split_asm)
  have "safe s ?u"
    using fresh by (intro proposals_safe row_run_arrive) (auto simp: proposal_grows_def row_def)
  moreover have "safe ?u t"
    using t by (rule settle_follow_up_safe) (simp add: settling_def)
  ultimately show ?thesis by (rule safe_trans)
qed

lemma decidable_proposal_Inr:
  "decidable_proposal i s = Inr (sid, project) \<Longrightarrow>
   \<exists>q t y. fetch q_id i (proposals s) = Some q \<and> q_state q = PS_PROPOSED \<and> q_story q = sid
     \<and> ticket_of sid s = Some t \<and> t_project t = project \<and> story_of sid s = Some y \<and> proposable (y_state y)"
  by (auto simp: decidable_proposal_def split: option.split_asm if_split_asm prod.split_asm)

lemma decide_proposal_safe:
  assumes "decide_proposal v i st ch au n pid s = Inr t"
    and "fetch q_id i (proposals s) = Some q" and "q_state q = PS_PROPOSED" and "st \<noteq> PS_PROPOSED"
  shows "safe s t"
proof -
  obtain k u where u: "record_project_intervention v IA_DECIDE n IS_HUMAN IT_MANUAL (Some pid) None s = Inr (k, u)"
    and t: "t = u\<lparr>proposals := modify (\<lambda>q. q_id q = i)
         (\<lambda>q. q\<lparr>q_state := st, q_child := ch, q_decided_by := Some au,
                q_decided_at := Some (clock v)\<rparr>) (proposals u)\<rparr>"
    using assms(1) by (auto simp: decide_proposal_def)
  have "proposals u = proposals s"
    using u by (auto simp: record_project_intervention_def insert_intervention_def Let_def
        split: if_split_asm option.split_asm)
  then have "safe u t"
    unfolding t using assms(2-4)
    by (intro proposals_safe row_run_fetched) (auto simp: proposal_moves_def)
  with record_project_intervention_safe [OF u] show ?thesis by (rule safe_trans)
qed

lemma adopt_child_safe: "safe s (adopt_child sid t s)"
  unfolding adopt_child_def Let_def
  by (intro safe_trans [OF safe_trans [OF _ upd_ticket_safe] upd_story_safe] safe_same)
    (simp_all add: ticket_core_def)

lemma adopt_child_proposals [simp]: "proposals (adopt_child sid t s) = proposals s"
  by (simp add: adopt_child_def Let_def upd_ticket_def upd_story_def)

lemma accept_proposal_cases:
  assumes "accept_proposal v i child au n s = Inr t"
  obtains q c where "fetch q_id i (proposals s) = Some q" "q_state q = PS_PROPOSED"
    "find (\<lambda>x. t_id x = child \<and> Some (t_project x) = map_option t_project (ticket_of (q_story q) s))
       (tickets s) = Some c"
    "t_parent c = None" "\<forall>x \<in> set (story_children s). ch_ticket x \<noteq> child"
    "decide_proposal v i PS_ACCEPTED (Some child) au n (t_project c) (adopt_child (q_story q) c s) = Inr t"
proof -
  obtain sid pid where d: "decidable_proposal i s = Inr (sid, pid)"
    using assms by (auto simp: accept_proposal_def)
  then obtain q x where q: "fetch q_id i (proposals s) = Some q" "q_state q = PS_PROPOSED" "q_story q = sid"
    and x: "ticket_of sid s = Some x" "t_project x = pid"
    using decidable_proposal_Inr by blast
  from assms d obtain c where c: "find (\<lambda>t. t_id t = child \<and> t_project t = pid) (tickets s) = Some c"
    "t_parent c = None" "\<forall>x \<in> set (story_children s). ch_ticket x \<noteq> child"
    "decide_proposal v i PS_ACCEPTED (Some child) au n pid (adopt_child sid c s) = Inr t"
    by (auto simp: accept_proposal_def split: option.split_asm if_split_asm)
  then have "t_project c = pid" by (auto simp: find_Some_iff)
  with c q x show ?thesis by (intro that [OF q(1,2)]) auto
qed

lemma accept_proposal_safe:
  assumes "accept_proposal v i child au n s = Inr t"
  shows "safe s t"
  using assms
proof (rule accept_proposal_cases)
  fix q c
  assume "fetch q_id i (proposals s) = Some q" "q_state q = PS_PROPOSED"
    and d: "decide_proposal v i PS_ACCEPTED (Some child) au n (t_project c) (adopt_child (q_story q) c s) = Inr t"
  then have "safe (adopt_child (q_story q) c s) t"
    using decide_proposal_safe [OF d, of q] by simp
  with adopt_child_safe show "safe s t" by (rule safe_trans)
qed

lemma reject_proposal_safe: "reject_proposal v i au n s = Inr t \<Longrightarrow> safe s t"
  by (auto simp: reject_proposal_def dest!: decidable_proposal_Inr elim: decide_proposal_safe)

end
