(* ===== verification/Dumps.thy ===== *)
theory Dumps
  imports Redact
begin

section \<open>Dumps: the JSON text of a document\<close>

text \<open>
  \<^verbatim>\<open>json.dumps(document)\<close> with Python's defaults, where the store keeps the text itself (the
  note and guidance of an operator note): \<^verbatim>\<open>", "\<close> and \<^verbatim>\<open>": "\<close> between the parts, and every
  character outside printable ASCII escaped. The lemmas give what a reader of the text relies
  on: a quoted string can be read back (\<open>unquote_quote\<close>).
\<close>

definition hex_char :: "nat \<Rightarrow> char" where
  "hex_char d = (if d < 10 then char_of (48 + d) else char_of (87 + d))"

definition escape_char :: "char \<Rightarrow> string" where
  "escape_char c =
     (let n = (of_char c :: nat)
      in if n = 34 then [CHR 92, CHR 34]
         else if n = 92 then [CHR 92, CHR 92]
         else if n = 10 then [CHR 92, CHR ''n'']
         else if n = 13 then [CHR 92, CHR ''r'']
         else if n = 9 then [CHR 92, CHR ''t'']
         else if n = 12 then [CHR 92, CHR ''f'']
         else if n = 8 then [CHR 92, CHR ''b'']
         else if n < 32 \<or> 126 < n
         then [CHR 92, CHR ''u'', CHR ''0'', CHR ''0'', hex_char (n div 16), hex_char (n mod 16)]
         else [c])"

definition quote :: "string \<Rightarrow> string" where
  "quote s = CHR 34 # concat (map escape_char s) @ [CHR 34]"

primrec json_dumps :: "json \<Rightarrow> string" where
  "json_dumps JNull = ''null''"
| "json_dumps (JBool b) = (if b then ''true'' else ''false'')"
| "json_dumps (JInt i) = str_int i"
| "json_dumps (JStr s) = quote s"
| "json_dumps (JList xs) = CHR ''['' # join '', '' (map json_dumps xs) @ '']''"
| "json_dumps (JObj fs) = CHR ''{'' #
     join '', '' (map (\<lambda>(k, d). quote k @ '': '' @ d) (map (map_prod id json_dumps) fs)) @ ''}''"

subsection \<open>Reading a quoted string back\<close>

definition hex_value :: "char \<Rightarrow> nat" where
  "hex_value c = (let n = (of_char c :: nat) in if n < 58 then n - 48 else n - 87)"

fun unescape :: "string \<Rightarrow> string" where
  "unescape [] = []"
| "unescape (c # cs) =
     (if c \<noteq> CHR 92 then c # unescape cs
      else case cs of
          [] \<Rightarrow> []
        | d # ds \<Rightarrow>
            (if d = CHR ''n'' then CHR 10 # unescape ds
             else if d = CHR ''r'' then CHR 13 # unescape ds
             else if d = CHR ''t'' then CHR 9 # unescape ds
             else if d = CHR ''f'' then CHR 12 # unescape ds
             else if d = CHR ''b'' then CHR 8 # unescape ds
             else if d = CHR ''u''
             then char_of (16 * hex_value (ds ! 2) + hex_value (ds ! 3)) # unescape (drop 4 ds)
             else d # unescape ds))"

definition unquote :: "string \<Rightarrow> string" where
  "unquote t = unescape (butlast (tl t))"

lemma hex_value_char [simp]: "d < 16 \<Longrightarrow> hex_value (hex_char d) = d"
  by (auto simp: hex_value_def hex_char_def of_char_of take_bit_eq_mod Let_def)

lemma char_of_code: "char_of (of_char c :: nat) = c"
  by simp

lemma unescape_escape: "unescape (escape_char c @ t) = c # unescape t"
proof -
  define n where "n = (of_char c :: nat)"
  have c: "c = char_of n" by (simp add: n_def)
  have n: "n < 256" by (simp add: n_def)
  define short where "short = [34, 92, 10, 13, 9, 12, 8 :: nat]"
  consider (short) "n \<in> set short" | (hex) "n \<notin> set short" "n < 32 \<or> 126 < n"
    | (plain) "n \<notin> set short" "\<not> (n < 32 \<or> 126 < n)" by blast
  then show ?thesis
  proof cases
    case short
    then have "n = 34 \<or> n = 92 \<or> n = 10 \<or> n = 13 \<or> n = 9 \<or> n = 12 \<or> n = 8"
      by (simp add: short_def)
    then show ?thesis
      by (elim disjE; simp add: escape_char_def n_def [symmetric]; simp add: c char_of_def bit_0)
  next
    case hex
    then have e: "escape_char c = [CHR 92, CHR ''u'', CHR ''0'', CHR ''0'', hex_char (n div 16), hex_char (n mod 16)]"
      by (simp add: escape_char_def n_def [symmetric] short_def)
    have "n div 16 < 16" using n by (simp add: less_mult_imp_div_less)
    then have "16 * hex_value (hex_char (n div 16)) + hex_value (hex_char (n mod 16)) = n" by simp
    then show ?thesis
      unfolding e by (simp add: n_def)
  next
    case plain
    then have e: "escape_char c = [c]"
      by (simp add: escape_char_def n_def [symmetric] short_def)
    have "n \<noteq> 92" using plain by (simp add: short_def)
    then have "c \<noteq> CHR 92" unfolding n_def by auto
    then show ?thesis unfolding e by simp
  qed
qed

theorem unquote_quote: "unquote (quote s) = s"
proof -
  have "unescape (concat (map escape_char s)) = s"
    by (induction s) (simp_all add: unescape_escape)
  then show ?thesis by (simp add: unquote_def quote_def)
qed

end
