(* ===== verification/Notes.thy ===== *)
theory Notes
  imports Operate Automations Dumps
begin

section \<open>Notes: operator notes and console asks on a pull request\<close>

text \<open>
  \<^verbatim>\<open>store/operator_notes.py\<close> and \<^verbatim>\<open>store/console_asks.py\<close>: a maintainer's instruction or question
  is an event of the run, its consumption or answer another event that names it by id. A note's
  payload is the JSON the code dumps; \<^verbatim>\<open>json_extract\<close> of a payload that is no JSON object is
  NULL here (such payloads are never written under these kinds). \<^verbatim>\<open>report_lines\<close>, which renders
  Python \<^verbatim>\<open>repr\<close>s, is not modelled.
\<close>

definition payload_int :: "string \<Rightarrow> payload option \<Rightarrow> int option" where
  "payload_int k p = (case payload_at k p of Some (JInt i) \<Rightarrow> Some i | _ \<Rightarrow> None)"

definition payload_text :: "string \<Rightarrow> payload option \<Rightarrow> string option" where
  "payload_text k p = (case payload_at k p of Some (JStr x) \<Rightarrow> Some x | _ \<Rightarrow> None)"

subsection \<open>Writing a note\<close>

definition instruction :: "string \<Rightarrow> string \<Rightarrow> bool \<Rightarrow> err + json" where
  "instruction note author hint =
     (if blank note then Inl (BlankText ''note'')
      else if blank author then Inl (BlankText ''author'')
      else Inr (JObj ([(''note'', JStr (py_strip note)), (''author'', JStr (py_strip author))]
             @ (if hint then [(''hint'', JBool True)] else []))))"

definition note_summary :: "string \<Rightarrow> string \<Rightarrow> string" where
  "note_summary note author = py_strip author @ '': '' @ py_strip note"

definition write_note :: "env \<Rightarrow> nat \<Rightarrow> string \<Rightarrow> string \<Rightarrow> json \<Rightarrow> store \<Rightarrow> err + nat \<times> store" where
  "write_note v rid note author data s =
     record_event v rid ''operator_note'' (note_summary note author) EL_DETAIL (Some (PDoc data)) s"

definition latest_event :: "nat \<Rightarrow> string \<Rightarrow> store \<Rightarrow> err + nat" where
  "latest_event rid kind s =
     (case rev (sort_key e_id (filter (\<lambda>e. e_run e = Some rid \<and> e_kind e = kind) (events s))) of
        [] \<Rightarrow> Inl (ValueError ''NoneType is not subscriptable'')
      | e # _ \<Rightarrow> Inr (e_id e))"

definition newest_ticket_of :: "nat \<Rightarrow> store \<Rightarrow> ticket_row option" where
  "newest_ticket_of rid s =
     Option.bind (run_of rid s) (\<lambda>r. find (\<lambda>t. t_id t = r_ticket r \<and> t_last t = Some rid) (tickets s))"

definition send_back :: "env \<Rightarrow> nat \<Rightarrow> string \<Rightarrow> string \<Rightarrow> bool \<Rightarrow> store \<Rightarrow> err + nat \<times> store" where
  [op_defs]: "send_back v rid note author hint s =
     bindE (instruction note author hint) (\<lambda>data.
       case newest_ticket_of rid s of
         None \<Rightarrow> Inl (ValueError ''run must be the ticket's latest parked attempt'')
       | Some t \<Rightarrow>
           bindE (release_parked v (t_id t) IA_OPERATOR_NOTE (json_dumps data)
               ''sent back with a maintainer instruction'' True IS_HUMAN (Some (json_dumps data))
               (\<lambda>s. bindE (write_note v rid note author data s) (\<lambda>(_, s). Inr s)) None None s) (\<lambda>(_, s).
             bindE (latest_event rid ''operator_note'' s) (\<lambda>e. Inr (e, s))))"

definition add_note :: "env \<Rightarrow> nat \<Rightarrow> string \<Rightarrow> string \<Rightarrow> bool \<Rightarrow> store \<Rightarrow> err + nat \<times> store" where
  [op_defs]: "add_note v rid note author hint s =
     bindE (instruction note author hint) (\<lambda>data.
       if (case (newest_ticket_of rid s, run_of rid s) of
             (Some t, Some r) \<Rightarrow> t_active t = None \<and> r_pr r \<noteq> None \<and> r_resume r = Some PH_MERGE_GATE
           | _ \<Rightarrow> False)
       then bindE (record_intervention v rid IA_OPERATOR_NOTE (json_dumps data) IS_HUMAN IT_MANUAL None
                (Some (json_dumps data)) None None s) (\<lambda>(_, s).
              bindE (write_note v rid note author data s) (\<lambda>(_, s).
                bindE (latest_event rid ''operator_note'' s) (\<lambda>e. Inr (e, s))))
       else Inl (ValueError ''run must be the ticket's latest attempt''))"

definition babysit_phases :: "run_phase list" where
  "babysit_phases = [PH_MERGE_GATE, PH_VERIFYING, PH_REVIEWING]"

definition babysitting :: "nat \<Rightarrow> store \<Rightarrow> bool" where
  "babysitting rid s \<longleftrightarrow>
     (\<exists>t \<in> set (tickets s). t_active t = Some rid)
     \<and> (case run_of rid s of
          None \<Rightarrow> False
        | Some r \<Rightarrow> r_ended r = None \<and> r_phase r \<in> set babysit_phases \<and> r_pr r \<noteq> None)"

definition note_live :: "env \<Rightarrow> nat \<Rightarrow> string \<Rightarrow> string \<Rightarrow> bool \<Rightarrow> store \<Rightarrow> err + nat \<times> store" where
  [op_defs]: "note_live v rid note author hint s =
     bindE (instruction note author hint) (\<lambda>data.
       if \<not> babysitting rid s then Inl (ValueError ''run must be live, babysitting its pull request'')
       else bindE (write_note v rid note author data s) (\<lambda>(_, s).
              bindE (latest_event rid ''operator_note'' s) (\<lambda>e. Inr (e, s))))"

subsection \<open>Reading and consuming notes\<close>

record operator_note =
  on_event :: nat
  on_data :: "(string \<times> json) list"
  on_consumed :: "(nat option \<times> json option) option"

definition first_naming :: "string \<Rightarrow> nat \<Rightarrow> store \<Rightarrow> event_row option" where
  "first_naming kind eid s =
     (case sort_key e_id (filter (\<lambda>e. e_kind e = kind \<and> payload_int ''event_id'' (e_payload e) = Some (int eid))
         (events s)) of
        [] \<Rightarrow> None
      | e # _ \<Rightarrow> Some e)"

text \<open>\<^verbatim>\<open>r.prUrl = COALESCE(current.prUrl, ?)\<close>: NULL equals nothing.\<close>

definition same_pr :: "run_row \<Rightarrow> run_row \<Rightarrow> string option \<Rightarrow> bool" where
  "same_pr r current pr_url \<longleftrightarrow>
     r_pr r \<noteq> None \<and> r_pr r = (case r_pr current of None \<Rightarrow> pr_url | Some u \<Rightarrow> Some u)"

definition note_of_run :: "run_row \<Rightarrow> string option \<Rightarrow> store \<Rightarrow> event_row \<Rightarrow> bool" where
  "note_of_run current pr_url s e \<longleftrightarrow>
     e_kind e = ''operator_note''
     \<and> (case Option.bind (e_run e) (\<lambda>k. run_of k s) of
          None \<Rightarrow> False
        | Some r \<Rightarrow> r_ticket r = r_ticket current \<and> r_id r \<le> r_id current
            \<and> (r_id r = r_id current \<or> same_pr r current pr_url
               \<or> list_ex (\<lambda>c. e_run c = Some (r_id current) \<and> e_kind c = ''operator_note_consumed''
                   \<and> payload_int ''event_id'' (e_payload c) = Some (int (e_id e))) (events s)))"

definition operator_note :: "store \<Rightarrow> event_row \<Rightarrow> operator_note" where
  "operator_note s e =
     \<lparr>on_event = e_id e,
      on_data = (case e_payload e of Some (PDoc (JObj fs)) \<Rightarrow> fs | _ \<Rightarrow> []),
      on_consumed = map_option (\<lambda>c. (e_run c, payload_at ''round'' (e_payload c)))
        (first_naming ''operator_note_consumed'' (e_id e) s)\<rparr>"

definition operator_notes :: "nat \<Rightarrow> bool \<Rightarrow> string option \<Rightarrow> store \<Rightarrow> operator_note list" where
  "operator_notes rid pending pr_url s =
     (case run_of rid s of
        None \<Rightarrow> []
      | Some current \<Rightarrow>
          filter (\<lambda>n. \<not> pending \<or> on_consumed n = None)
            (map (operator_note s) (sort_key e_id (filter (note_of_run current pr_url s) (events s)))))"

definition begin_merge ::
    "nat \<Rightarrow> string option \<Rightarrow> (store \<Rightarrow> err + store) \<Rightarrow> store \<Rightarrow> err + bool \<times> store" where
  [op_defs]: "begin_merge rid pr_url enter_merging s =
     (if operator_notes rid True pr_url s \<noteq> [] then Inr (False, s)
      else bindE (enter_merging s) (\<lambda>s. Inr (True, s)))"

definition consume_note :: "env \<Rightarrow> nat \<Rightarrow> int \<Rightarrow> nat \<Rightarrow> store \<Rightarrow> err + store" where
  "consume_note v rid rnd eid s =
     bindE (record_event v rid ''operator_note_consumed''
         (''operator_note event '' @ str_nat eid @ '' drove round '' @ str_int rnd) EL_DETAIL
         (Some (PDoc (JObj [(''event_id'', JInt (int eid)), (''round'', JInt rnd)]))) s) (\<lambda>(_, s).
       bindE (record_ledger v rid LK_ROUND
           (''Round '' @ str_int rnd @ '': ADDRESS operator_note event '' @ str_nat eid) LS_LOOP s) (\<lambda>(_, s).
         Inr s))"

definition consume_notes :: "env \<Rightarrow> nat \<Rightarrow> nat list \<Rightarrow> int \<Rightarrow> store \<Rightarrow> err + store" where
  [op_defs]: "consume_notes v rid eids rnd s = foldE (consume_note v rid rnd) eids s"

definition round_notes :: "nat \<Rightarrow> int \<Rightarrow> store \<Rightarrow> operator_note list" where
  "round_notes rid rnd s =
     filter (\<lambda>n. on_consumed n = Some (Some rid, Some (JInt rnd))) (operator_notes rid False None s)"

subsection \<open>Console asks\<close>

record console_ask =
  ca_id :: nat
  ca_question :: "string option"
  ca_author :: "json option"
  ca_asked :: int
  ca_answered :: "int option"
  ca_url :: "json option"
  ca_answer :: "json option"

definition answering_event :: "nat \<Rightarrow> nat \<Rightarrow> store \<Rightarrow> event_row option" where
  "answering_event tid eid s =
     (case sort_key e_id (filter (\<lambda>x. e_kind x = ''console_ask_answered''
           \<and> payload_int ''event_id'' (e_payload x) = Some (int eid)
           \<and> map_option r_ticket (Option.bind (e_run x) (\<lambda>k. run_of k s)) = Some tid) (events s)) of
        [] \<Rightarrow> None
      | x # _ \<Rightarrow> Some x)"

definition ask_of_run :: "run_row \<Rightarrow> string option \<Rightarrow> store \<Rightarrow> event_row \<Rightarrow> bool" where
  "ask_of_run current pr_url s e \<longleftrightarrow>
     e_kind e = ''console_ask''
     \<and> (case Option.bind (e_run e) (\<lambda>k. run_of k s) of
          None \<Rightarrow> False
        | Some r \<Rightarrow> r_ticket r = r_ticket current \<and> same_pr r current pr_url)"

definition console_ask :: "run_row \<Rightarrow> store \<Rightarrow> event_row \<Rightarrow> console_ask" where
  "console_ask current s e =
     (let a = answering_event (r_ticket current) (e_id e) s
      in \<lparr>ca_id = e_id e, ca_question = payload_text ''question'' (e_payload e),
          ca_author = payload_at ''author'' (e_payload e), ca_asked = e_at e,
          ca_answered = map_option e_at a,
          ca_url = Option.bind a (\<lambda>a. payload_at ''url'' (e_payload a)),
          ca_answer = Option.bind a (\<lambda>a. payload_at ''answer'' (e_payload a))\<rparr>)"

definition console_asks :: "nat \<Rightarrow> string option \<Rightarrow> store \<Rightarrow> console_ask list" where
  "console_asks rid pr_url s =
     (case run_of rid s of
        None \<Rightarrow> []
      | Some current \<Rightarrow>
          map (console_ask current s) (sort_key e_id (filter (ask_of_run current pr_url s) (events s))))"

definition pending_asks :: "nat \<Rightarrow> string option \<Rightarrow> store \<Rightarrow> console_ask list" where
  "pending_asks rid pr_url s = filter (\<lambda>a. ca_answered a = None) (console_asks rid pr_url s)"

definition ask_console :: "env \<Rightarrow> nat \<Rightarrow> string \<Rightarrow> string \<Rightarrow> store \<Rightarrow> err + nat \<times> store" where
  [op_defs]: "ask_console v rid question author s =
     (if blank question then Inl (AskRefused ''empty_question'')
      else case run_of rid s of
          None \<Rightarrow> Inl (ValueError ''NoneType is not iterable'')
        | Some r \<Rightarrow>
            (if r_pr r = None then Inl (AskRefused ''no_pull_request'')
             else if pending_asks rid None s \<noteq> [] then Inl (AskRefused ''ask_pending'')
             else if r_outcome r \<noteq> None \<and> r_outcome r \<noteq> Some OC_PAUSED then Inl (AskRefused ''finished'')
             else
               bindE (release_parked v (r_ticket r) IA_BABYSIT
                   (author @ '' via the console: ask: '' @ py_strip question)
                   ''sent back to the babysitter to answer a console ask'' True IS_HUMAN None
                   (\<lambda>s. bindE (record_event v rid ''console_ask'' (author @ '' asked: '' @ py_strip question)
                      EL_DETAIL (Some (PDoc (JObj [(''question'', JStr (py_strip question)),
                        (''author'', JStr author)]))) s) (\<lambda>(_, s). Inr s)) (Some rid) None s) (\<lambda>(_, s).
                 bindE (latest_event rid ''console_ask'' s) (\<lambda>e. Inr (e, s)))))"

definition answer_ask ::
    "env \<Rightarrow> nat \<Rightarrow> nat \<Rightarrow> string option \<Rightarrow> string \<Rightarrow> store \<Rightarrow> err + nat \<times> store" where
  [op_defs]: "answer_ask v rid eid url answer s =
     record_event v rid ''console_ask_answered''
       (''console ask event '' @ str_nat eid @ '' answered ''
         @ (case url of None \<Rightarrow> ''in the console'' | Some u \<Rightarrow> if u = [] then ''in the console'' else ''on '' @ u))
       EL_DETAIL (Some (PDoc (JObj [(''event_id'', JInt (int eid)),
         (''url'', (case url of None \<Rightarrow> JNull | Some u \<Rightarrow> JStr u)), (''answer'', JStr answer)]))) s"

subsection \<open>Every call is safe\<close>

lemma write_note_safe: "write_note v rid n au d s = Inr (q, t) \<Longrightarrow> safe s t"
  unfolding write_note_def by (rule record_event_safe)

lemma send_back_safe:
  assumes "send_back v rid n au h s = Inr (e, t)"
  shows "safe s t"
proof -
  obtain data k x where "release_parked v k IA_OPERATOR_NOTE (json_dumps data)
      ''sent back with a maintainer instruction'' True IS_HUMAN (Some (json_dumps data))
      (\<lambda>s. bindE (write_note v rid n au data s) (\<lambda>(_, s). Inr s)) None None s = Inr (x, t)"
    using assms by (auto simp: send_back_def split: option.split_asm)
  then show ?thesis by (rule release_parked_safe) (auto dest: write_note_safe)
qed

lemma add_note_safe:
  assumes "add_note v rid n au h s = Inr (e, t)"
  shows "safe s t"
proof -
  obtain data i u q where u: "record_intervention v rid IA_OPERATOR_NOTE (json_dumps data) IS_HUMAN IT_MANUAL None
      (Some (json_dumps data)) None None s = Inr (i, u)"
    and t: "write_note v rid n au data u = Inr (q, t)"
    using assms by (auto simp: add_note_def split: if_split_asm)
  show ?thesis using record_intervention_safe [OF u] write_note_safe [OF t] by (rule safe_trans)
qed

lemma note_live_safe: "note_live v rid n au h s = Inr (e, t) \<Longrightarrow> safe s t"
  by (auto simp: note_live_def split: if_split_asm dest: write_note_safe)

lemma consume_notes_safe: "consume_notes v rid es rnd s = Inr t \<Longrightarrow> safe s t"
  unfolding consume_notes_def
  by (erule safe_foldE) (auto simp: consume_note_def intro: safe_trans record_event_safe record_ledger_safe)

lemma ask_console_safe:
  assumes "ask_console v rid q au s = Inr (e, t)"
  shows "safe s t"
proof -
  obtain k n d x where "release_parked v k IA_BABYSIT n
      ''sent back to the babysitter to answer a console ask'' True IS_HUMAN None
      (\<lambda>s. bindE (record_event v rid ''console_ask'' (au @ '' asked: '' @ py_strip q)
          EL_DETAIL (Some (PDoc d)) s) (\<lambda>(_, s). Inr s)) (Some rid) None s = Inr (x, t)"
    using assms by (fastforce simp: ask_console_def split: option.split_asm if_split_asm)
  then show ?thesis by (rule release_parked_safe) (auto dest: record_event_safe)
qed

lemma answer_ask_safe: "answer_ask v rid eid url an s = Inr (q, t) \<Longrightarrow> safe s t"
  unfolding answer_ask_def by (rule record_event_safe)

lemma begin_merge_safe:
  "begin_merge rid u enter s = Inr (b, t) \<Longrightarrow> (\<And>x y. enter x = Inr y \<Longrightarrow> safe x y) \<Longrightarrow> safe s t"
  by (auto simp: begin_merge_def split: if_split_asm)

end
