(* ===== verification/Amend.thy ===== *)
theory Amend
  imports Tickets
begin

section \<open>Amend: criterion edits in a maintainer's note\<close>

text \<open>
  \<^verbatim>\<open>amendment_edits()\<close> of \<^verbatim>\<open>holophyte/tickets/ticket_criteria.py\<close>, its two regular expressions
  as explicit scans (letters in either case; \<^verbatim>\<open>\s\<close> is \<open>py_space\<close>), and the rest of
  \<^verbatim>\<open>store/criteria.py\<close>: \<open>amend\<close>, \<open>criterion_numbers\<close> and \<open>backfill_criteria\<close>. Whether a text
  reads as an operator's witness is the function \<open>problems\<close>.

  The lemmas say that an amendment only appends to the criteria, that a dropped criterion is
  retired, and that an added one gets a number no criterion of the ticket had.
\<close>

subsection \<open>One line of a note\<close>

datatype edit = Replace nat string | Drop nat string | Add string

text \<open>The rest of the text after a word, and after at least one space.\<close>

definition after_word :: "string \<Rightarrow> string \<Rightarrow> string option" where
  "after_word w s = (if map ascii_lower (take (length w) s) = w then Some (drop (length w) s) else None)"

definition after_space :: "string \<Rightarrow> string option" where
  "after_space s = (case s of [] \<Rightarrow> None | c # _ \<Rightarrow> if py_space c then Some (dropWhile py_space s) else None)"

definition after_colon :: "string \<Rightarrow> string option" where
  "after_colon s = (case dropWhile py_space s of [] \<Rightarrow> None | c # cs \<Rightarrow> if c = CHR '':'' then Some cs else None)"

text \<open>\<^verbatim>\<open>\s+C([1-9][0-9]*)\<close>.\<close>

definition after_id :: "string \<Rightarrow> (nat \<times> string) option" where
  "after_id s =
     Option.bind (after_space s) (\<lambda>s. Option.bind (after_word ''c'' s) (\<lambda>s.
       let digits = takeWhile is_digit s
       in if digits = [] \<or> hd digits = CHR ''0'' then None
          else Some (nat_of_digits digits, dropWhile is_digit s)))"

definition nonempty :: "string \<Rightarrow> string option" where
  "nonempty s = (if s = [] then None else Some s)"

definition edit_line :: "string \<Rightarrow> edit option" where
  "edit_line line =
     (let body = dropWhile py_space line in
      case after_word ''replace'' body of
        Some rest \<Rightarrow>
          Option.bind (after_id rest) (\<lambda>(n, rest). Option.bind (after_colon rest) (\<lambda>rest.
            map_option (Replace n) (nonempty (py_strip rest))))
      | None \<Rightarrow>
          (case after_word ''drop'' body of
             Some rest \<Rightarrow>
               Option.bind (after_id rest) (\<lambda>(n, rest).
                 if blank rest then Some (Drop n [])
                 else map_option (\<lambda>rest. Drop n (py_strip rest)) (after_colon rest))
           | None \<Rightarrow>
               Option.bind (after_word ''add'' body) (\<lambda>rest. Option.bind (after_colon rest) (\<lambda>rest.
                 map_option Add (nonempty (py_strip rest))))))"

text \<open>\<^verbatim>\<open>_EDIT_COMMAND\<close>: a line that means to be an edit.\<close>

definition command_id :: "string \<Rightarrow> bool" where
  "command_id s \<longleftrightarrow>
     (case Option.bind (after_space s) (after_word ''c'') of
        None \<Rightarrow> False
      | Some s \<Rightarrow> takeWhile is_digit s \<noteq> []
          \<and> (case dropWhile is_digit s of [] \<Rightarrow> True | c # _ \<Rightarrow> py_space c \<or> c = CHR '':''))"

definition edit_command :: "string \<Rightarrow> bool" where
  "edit_command line \<longleftrightarrow>
     (let body = dropWhile py_space line;
          named = (\<lambda>w. case after_word w body of None \<Rightarrow> False | Some rest \<Rightarrow> command_id rest)
      in named ''replace'' \<or> named ''drop''
         \<or> (case after_word ''add'' body of None \<Rightarrow> False | Some rest \<Rightarrow> after_colon rest \<noteq> None))"

fun edits_of_lines :: "string list \<Rightarrow> err + edit list \<times> string list" where
  "edits_of_lines [] = Inr ([], [])"
| "edits_of_lines (line # rest) =
     (case edit_line line of
        Some e \<Rightarrow> bindE (edits_of_lines rest) (\<lambda>(es, others). Inr (e # es, others))
      | None \<Rightarrow>
          (if edit_command line then Inl (ValueError ''malformed criterion edit'')
           else bindE (edits_of_lines rest) (\<lambda>(es, others). Inr (es, line # others))))"

definition amendment_edits :: "string \<Rightarrow> err + edit list \<times> string" where
  "amendment_edits note =
     bindE (edits_of_lines (py_splitlines note)) (\<lambda>(es, others).
       Inr (es, if es \<noteq> [] then join ''\<newline>'' others else note))"

subsection \<open>Applying the edits\<close>

record amended =
  am_position :: "nat option"
  am_text :: string
  am_kind :: criterion_witness_kind
  am_target :: "string option"
  am_status :: criterion_status

definition amended_row :: "criterion_row \<Rightarrow> amended" where
  "amended_row c = \<lparr>am_position = c_position c, am_text = c_text c, am_kind = c_kind c,
     am_target = c_target c, am_status = c_status c\<rparr>"

definition last_position :: "(nat \<times> amended) list \<Rightarrow> nat" where
  "last_position latest = foldr max (map (\<lambda>(_, a). case am_position a of None \<Rightarrow> 0 | Some p \<Rightarrow> p) latest) 0"

type_synonym amend_state = "(nat \<times> amended) list \<times> nat \<times> store"

definition put_criterion ::
    "env \<Rightarrow> nat \<Rightarrow> nat \<Rightarrow> (string \<Rightarrow> string list \<Rightarrow> bool) \<Rightarrow> string list \<Rightarrow> nat \<Rightarrow> nat option \<Rightarrow> string \<Rightarrow>
     amend_state \<Rightarrow> err + amend_state" where
  "put_criterion v tid steer problems commands number position txt = (\<lambda>(latest, highest, s).
     if problems txt commands then Inl (SteerRefused ''reads as an operator witness'')
     else case witnesses_of v [txt] commands of
         [] \<Rightarrow> Inl (ValueError ''list index out of range'')
       | (kind, target) # _ \<Rightarrow>
           Inr (assoc_put number \<lparr>am_position = position, am_text = txt, am_kind = kind,
                  am_target = target, am_status = CS_OPEN\<rparr> latest, highest,
                append_criterion v tid number position txt kind target CS_OPEN ''amendment'' (Some steer) s))"

definition drop_criterion ::
    "env \<Rightarrow> nat \<Rightarrow> nat \<Rightarrow> nat \<Rightarrow> amended \<Rightarrow> amend_state \<Rightarrow> err + amend_state" where
  "drop_criterion v tid steer number a = (\<lambda>(latest, highest, s).
     Inr (assoc_put number (a\<lparr>am_status := CS_RETIRED\<rparr>) latest, highest,
       append_criterion v tid number None (am_text a) (am_kind a) (am_target a) CS_RETIRED
         ''amendment'' (Some steer) s))"

definition standing_criterion :: "nat \<Rightarrow> (nat \<times> amended) list \<Rightarrow> amended option" where
  "standing_criterion number latest =
     (case map_of latest number of
        None \<Rightarrow> None | Some a \<Rightarrow> if am_status a = CS_RETIRED then None else Some a)"

fun amend_one ::
    "env \<Rightarrow> nat \<Rightarrow> nat \<Rightarrow> (string \<Rightarrow> string list \<Rightarrow> bool) \<Rightarrow> string list \<Rightarrow> edit \<Rightarrow> amend_state \<Rightarrow>
     err + amend_state" where
  "amend_one v tid steer problems commands (Drop number _) (latest, highest, s) =
     (case standing_criterion number latest of
        None \<Rightarrow> Inl (SteerRefused ''names no current criterion'')
      | Some a \<Rightarrow> drop_criterion v tid steer number a (latest, highest, s))"
| "amend_one v tid steer problems commands (Replace number txt) (latest, highest, s) =
     (case standing_criterion number latest of
        None \<Rightarrow> Inl (SteerRefused ''names no current criterion'')
      | Some a \<Rightarrow> put_criterion v tid steer problems commands number (am_position a) txt (latest, highest, s))"
| "amend_one v tid steer problems commands (Add txt) (latest, highest, s) =
     put_criterion v tid steer problems commands (Suc highest) (Some (Suc (last_position latest))) txt
       (latest, Suc highest, s)"

definition highest_criterion :: "nat \<Rightarrow> store \<Rightarrow> nat" where
  "highest_criterion tid s =
     foldr max (map c_criterion (filter (\<lambda>c. c_ticket c = tid) (criteria s))) 0"

definition amend ::
    "env \<Rightarrow> (string \<Rightarrow> string list \<Rightarrow> bool) \<Rightarrow> nat \<Rightarrow> edit list \<Rightarrow> nat \<Rightarrow> store \<Rightarrow> err + store" where
  [op_defs]: "amend v problems tid edits steer s =
     (case ticket_of tid s of
        None \<Rightarrow> Inl (ValueError ''NoneType is not subscriptable'')
      | Some t \<Rightarrow>
          bindE (foldE (amend_one v tid steer problems (t_commands t)) edits
              (map (\<lambda>c. (c_criterion c, amended_row c)) (current_criteria tid s),
               highest_criterion tid s, s)) (\<lambda>(_, _, s). Inr s))"

subsection \<open>Numbers and backfill\<close>

definition criterion_numbers :: "nat \<Rightarrow> store \<Rightarrow> (string \<times> nat) list" where
  "criterion_numbers tid s =
     first_per fst (map (\<lambda>c. (c_text c, c_criterion c))
       (sort_key (\<lambda>c. c_steer c \<noteq> None) (rev (sort_key c_id
         (filter (\<lambda>c. c_ticket c = tid \<and> \<not> withdrawn_steer (c_steer c) s) (criteria s))))))"

definition backfill_ticket :: "env \<Rightarrow> ticket_row \<Rightarrow> store \<Rightarrow> store" where
  "backfill_ticket v t s =
     (let texts = map (snd \<circ> split_id) (t_criteria t)
      in fold (\<lambda>(position, txt, kind, target) s.
             append_criterion v (t_id t) position (Some position) txt kind target CS_OPEN
               ''backfill'' None s)
           (zip [1..<Suc (length texts)] (zip texts (witnesses_of v texts (t_commands t)))) s)"

definition backfill_criteria :: "env \<Rightarrow> store \<Rightarrow> store" where
  [op_defs]: "backfill_criteria v s =
     fold (backfill_ticket v) (filter (\<lambda>t. t_status t \<noteq> TS_MERGED \<and> t_status t \<noteq> TS_ABANDONED
       \<and> \<not> (\<exists>c \<in> set (criteria s). c_ticket c = t_id t)) (tickets s)) s"

subsection \<open>Every call is safe, and what an edit leaves\<close>

lemma amend_one_steps:
  assumes "amend_one v tid steer problems commands e (latest, highest, s) = Inr (latest', highest', t)"
  shows "safe s t \<and> highest \<le> highest' \<and> (\<exists>row. criteria t = criteria s @ [row] \<and> c_ticket row = tid
    \<and> c_steer row = Some steer \<and>
      (case e of
         Add txt \<Rightarrow> c_criterion row = Suc highest \<and> c_text row = txt \<and> c_status row = CS_OPEN
       | Replace n txt \<Rightarrow> c_criterion row = n \<and> c_text row = txt \<and> c_status row = CS_OPEN
       | Drop n _ \<Rightarrow> c_criterion row = n \<and> c_status row = CS_RETIRED))"
proof (cases e)
  case (Drop n x)
  with assms show ?thesis
    by (auto simp: drop_criterion_def append_criterion_def intro!: safe_same split: option.split_asm)
next
  case (Replace n x)
  with assms show ?thesis
    by (auto simp: put_criterion_def append_criterion_def intro!: safe_same
        split: option.split_asm if_split_asm list.split_asm prod.split_asm)
next
  case (Add x)
  with assms show ?thesis
    by (auto simp: put_criterion_def append_criterion_def intro!: safe_same
        split: option.split_asm if_split_asm list.split_asm prod.split_asm)
qed

lemma amend_fold_safe:
  "foldE (amend_one v tid steer problems commands) es (latest, highest, s) = Inr (latest', highest', t) \<Longrightarrow>
   safe s t \<and> (\<exists>rows. criteria t = criteria s @ rows \<and> length rows = length es)"
proof (induction es arbitrary: latest highest s)
  case (Cons e es)
  then obtain l h u where e: "amend_one v tid steer problems commands e (latest, highest, s) = Inr (l, h, u)"
    and es: "foldE (amend_one v tid steer problems commands) es (l, h, u) = Inr (latest', highest', t)"
    by auto
  from amend_one_steps [OF e] Cons.IH [OF es] show ?case
    by (auto intro: safe_trans)
qed simp

lemma amend_safe:
  assumes "amend v problems tid es steer s = Inr t"
  shows "safe s t \<and> (\<exists>rows. criteria t = criteria s @ rows \<and> length rows = length es)"
  using assms by (auto simp: amend_def dest: amend_fold_safe split: option.split_asm)

lemma backfill_ticket_safe: "safe s (backfill_ticket v t s)"
  unfolding backfill_ticket_def Let_def by (rule safe_fold) (auto split: prod.split)

lemma backfill_criteria_safe [simp]: "safe s (backfill_criteria v s)"
  unfolding backfill_criteria_def by (rule safe_fold) (rule backfill_ticket_safe)

end
