(* ===== verification/Steers.thy ===== *)
theory Steers
  imports Notes Amend
begin

section \<open>Steers: a maintainer's steer on a ticket\<close>

text \<open>
  \<^verbatim>\<open>store/steer_notes.py\<close>: an amendment of a ticket's contract or one turn's hint. Where the
  steer lands depends on the ticket: its live run, its parked pull request, its last run, or the
  project; \<open>steer\<close> is that decision, with every refusal. \<open>problems\<close> is the check of an amended
  criterion's text (see \<open>Amend\<close>).

  The lemmas say that every call is safe: a steer is consumed once and withdrawn once, and its
  text never changes.
\<close>

fun steer_kind_value :: "steer_kind \<Rightarrow> string" where
  "steer_kind_value SK_AMENDMENT = ''amendment''"
| "steer_kind_value SK_HINT = ''hint''"

definition steer_sealed :: "ticket_status \<Rightarrow> bool" where
  "steer_sealed st \<longleftrightarrow> st = TS_MERGED \<or> st = TS_ABANDONED"

definition gate_phases :: "run_phase list" where
  "gate_phases = [PH_MERGE_GATE, PH_MERGING]"

definition live_phases :: "run_phase list" where
  "live_phases = [PH_CLAIMED, PH_WORKING, PH_VERIFYING, PH_REVIEWING, PH_ADDRESSING]"

record steered =
  st_id :: nat
  st_kind :: steer_kind
  st_intervention :: nat
  st_run :: "nat option"
  st_event :: "nat option"
  st_live :: bool

text \<open>The texts of one call: the note and author stripped, the kind, the operator's check.\<close>

record steer_call =
  sl_ticket :: ticket_row
  sl_kind :: steer_kind
  sl_note :: string
  sl_author :: string
  sl_interrupt :: bool
  sl_problems :: "string \<Rightarrow> string list \<Rightarrow> bool"

definition steer_text :: "steer_call \<Rightarrow> string" where
  "steer_text c = steer_kind_value (sl_kind c) @ '' for '' @ t_ident (sl_ticket c) @ '': '' @ sl_note c"

definition insert_steer ::
    "env \<Rightarrow> steer_call \<Rightarrow> nat option \<Rightarrow> nat \<Rightarrow> nat option \<Rightarrow> bool \<Rightarrow> bool \<Rightarrow> store \<Rightarrow> err + steered \<times> store" where
  "insert_steer v c rid intervention event interrupt live s =
     (case amendment_edits (sl_note c) of
        Inl _ \<Rightarrow> Inl (SteerRefused ''malformed criterion edit'')
      | Inr (edits, _) \<Rightarrow>
          (if edits \<noteq> [] \<and> sl_kind c = SK_HINT
           then Inl (SteerRefused ''criterion edits require an amendment, not a hint'')
           else
             (let i = next_id m_id (steer_notes s);
                  row = \<lparr>m_id = i, m_ticket = t_id (sl_ticket c), m_run = rid, m_kind = sl_kind c,
                    m_note = sl_note c, m_author = sl_author c, m_at = clock v,
                    m_intervention = intervention, m_event = event, m_consumed_by = None,
                    m_consumed_at = None, m_interrupt = interrupt, m_withdrawn_by = None\<rparr>;
                  s = s\<lparr>steer_notes := steer_notes s @ [row]\<rparr>
              in bindE (if edits = [] then Inr s
                        else amend v (sl_problems c) (t_id (sl_ticket c)) edits i s) (\<lambda>s.
                   Inr (\<lparr>st_id = i, st_kind = sl_kind c, st_intervention = intervention,
                          st_run = rid, st_event = event, st_live = live\<rparr>, s)))))"

definition babysat_steer :: "env \<Rightarrow> steer_call \<Rightarrow> nat \<Rightarrow> store \<Rightarrow> err + steered \<times> store" where
  "babysat_steer v c rid s =
     bindE (record_intervention v rid IA_STEER (steer_text c) IS_HUMAN IT_MANUAL None None None None s) (\<lambda>(i, s).
     bindE (note_live v rid (sl_note c) (sl_author c) (sl_kind c = SK_HINT) s) (\<lambda>(e, s).
       insert_steer v c (Some rid) i (Some e) (sl_interrupt c) True s))"

definition steer_closed :: "nat \<Rightarrow> store \<Rightarrow> bool" where
  "steer_closed rid s \<longleftrightarrow> (\<exists>e \<in> set (events s). e_run e = Some rid \<and> e_kind e = ''steer_closed'')"

definition live_steer ::
    "env \<Rightarrow> steer_call \<Rightarrow> nat \<Rightarrow> run_phase option \<Rightarrow> store \<Rightarrow> err + steered \<times> store" where
  "live_steer v c live res s =
     (case run_of live s of
        None \<Rightarrow> Inl (ValueError ''NoneType is not iterable'')
      | Some r \<Rightarrow>
          (let on_pr = r_pr r \<noteq> None \<and> r_pr r \<noteq> Some [] in
           if r_phase r \<in> set babysit_phases \<and> on_pr then babysat_steer v c live s
           else if r_phase r \<notin> set live_phases \<or> on_pr \<or> steer_closed live s
           then Inl (SteerRefused ''past its last implementer turn'')
           else if r_phase r = PH_CLAIMED \<and> (\<exists>p \<in> set gate_phases. res = Some p)
           then Inl (SteerRefused ''past the implement turn'')
           else
             bindE (record_intervention v live IA_STEER (steer_text c) IS_HUMAN IT_MANUAL None None None None s)
               (\<lambda>(i, s). insert_steer v c (Some live) i None (sl_interrupt c) True s)))"

text \<open>\<^verbatim>\<open>SELECT MAX(id)\<close>: NULL, which the insert refuses, where there is none.\<close>

definition note_intervention :: "nat \<Rightarrow> store \<Rightarrow> err + nat" where
  "note_intervention rid s =
     (let ids = map i_id (filter (\<lambda>i. i_run i = Some rid \<and> i_action i = IA_OPERATOR_NOTE) (interventions s))
      in if ids = [] then Inl (IntegrityError ''steerNotes'') else Inr (foldr max ids 0))"

text \<open>On the ticket's last run, or on its project where no run was.\<close>

definition ticket_intervention ::
    "env \<Rightarrow> string \<Rightarrow> intervention_source \<Rightarrow> ticket_row \<Rightarrow> store \<Rightarrow> err + nat \<times> store" where
  "ticket_intervention v txt source t s =
     (case t_last t of
        None \<Rightarrow> record_project_intervention v IA_STEER txt source IT_MANUAL (Some (t_project t)) None s
      | Some k \<Rightarrow> record_intervention v k IA_STEER txt source IT_MANUAL None None None None s)"

definition noted_steer ::
    "env \<Rightarrow> steer_call \<Rightarrow> nat \<Rightarrow> (store \<Rightarrow> err + nat \<times> store) \<Rightarrow> store \<Rightarrow> err + steered \<times> store" where
  "noted_steer v c rid wrt s =
     bindE (wrt s) (\<lambda>(e, s).
       bindE (note_intervention rid s) (\<lambda>i. insert_steer v c (Some rid) i (Some e) False False s))"

definition steer ::
    "env \<Rightarrow> (string \<Rightarrow> string list \<Rightarrow> bool) \<Rightarrow> nat \<Rightarrow> string \<Rightarrow> string \<Rightarrow> bool \<Rightarrow> bool \<Rightarrow>
     intervention_source \<Rightarrow> store \<Rightarrow> err + steered \<times> store" where
  [op_defs]: "steer v problems tid note author hint interrupt source s =
     (if blank note then Inl (BlankText ''note'')
      else if blank author then Inl (BlankText ''author'')
      else case ticket_of tid s of
          None \<Rightarrow> Inl (SteerRefused ''ticket does not exist'')
        | Some t \<Rightarrow>
            (let c = \<lparr>sl_ticket = t, sl_kind = (if hint then SK_HINT else SK_AMENDMENT),
                   sl_note = py_strip note, sl_author = py_strip author,
                   sl_interrupt = interrupt, sl_problems = problems\<rparr>;
                 run = Option.bind (t_last t) (\<lambda>k. run_of k s);
                 res = Option.bind run r_resume;
                 outcome = Option.bind run r_outcome;
                 on_pr = (case Option.bind run r_pr of None \<Rightarrow> False | Some u \<Rightarrow> u \<noteq> [])
             in case t_active t of
                  Some live \<Rightarrow> live_steer v c live res s
                | None \<Rightarrow>
                    (if interrupt then Inl (SteerRefused ''no live run'')
                     else if steer_sealed (t_status t) then Inl (SteerRefused ''nothing is left to steer'')
                     else if t_status t = TS_BLOCKED_ON_OPERATOR then
                       (case t_last t of
                          Some k \<Rightarrow>
                            (if map_option r_phase run \<noteq> Some PH_AWAITING_MERGE_APPROVAL \<or> \<not> on_pr
                             then Inl (SteerRefused ''parked with no pull request'')
                             else noted_steer v c k (send_back v k (sl_note c) (sl_author c) hint) s)
                        | None \<Rightarrow> Inl (SteerRefused ''parked with no pull request''))
                     else if res = Some PH_MERGE_GATE \<and> on_pr \<and> outcome \<noteq> Some OC_PAUSED then
                       (case t_last t of
                          Some k \<Rightarrow> noted_steer v c k (add_note v k (sl_note c) (sl_author c) hint) s
                        | None \<Rightarrow> Inl (SteerRefused ''no run''))
                     else if res = Some PH_MERGE_GATE \<or> res = Some PH_MERGING
                       \<or> outcome = Some OC_PAUSED \<and> res \<noteq> None \<and> res \<noteq> Some PH_WORKING
                     then Inl (SteerRefused ''past the implement turn'')
                     else bindE (ticket_intervention v (steer_text c) source t s) (\<lambda>(i, s).
                       insert_steer v c (t_last t) i None False False s))))"

subsection \<open>Withdrawing, closing, consuming\<close>

definition standing_amendment :: "nat \<Rightarrow> steer_row \<Rightarrow> bool" where
  "standing_amendment tid m \<longleftrightarrow> m_ticket m = tid \<and> m_kind m = SK_AMENDMENT \<and> m_withdrawn_by m = None"

definition withdraw :: "env \<Rightarrow> nat \<Rightarrow> string \<Rightarrow> store \<Rightarrow> err + (nat \<times> nat) \<times> store" where
  [op_defs]: "withdraw v tid note s =
     (if blank note then Inl (BlankText ''note'')
      else case ticket_of tid s of
          None \<Rightarrow> Inl (SteerRefused ''ticket does not exist'')
        | Some t \<Rightarrow>
            (if steer_sealed (t_status t) then Inl (SteerRefused ''nothing is left to steer'')
             else if t_active t \<noteq> None then Inl (SteerRefused ''has a live run'')
             else
               (let count = length (filter (standing_amendment tid) (steer_notes s));
                    txt = ''withdraw '' @ str_nat count @ '' amendment(s) for '' @ t_ident t @ '': ''
                      @ py_strip note
                in if count = 0 then Inl (SteerRefused ''no amendment to withdraw'')
                   else
                     bindE (ticket_intervention v txt IS_HUMAN t s) (\<lambda>(i, s).
                       Inr ((count, i), s\<lparr>steer_notes := modify (standing_amendment tid)
                         (\<lambda>m. m\<lparr>m_withdrawn_by := Some i\<rparr>) (steer_notes s)\<rparr>)))))"

definition steer_waits :: "nat \<Rightarrow> store \<Rightarrow> bool" where
  "steer_waits rid s \<longleftrightarrow>
     (case run_of rid s of
        None \<Rightarrow> False
      | Some r \<Rightarrow> \<exists>m \<in> set (steer_notes s). m_ticket m = r_ticket r \<and> m_event m = None
          \<and> m_consumed_by m = None \<and> m_withdrawn_by m = None)"

definition close_steering :: "env \<Rightarrow> nat \<Rightarrow> store \<Rightarrow> err + bool \<times> store" where
  [op_defs]: "close_steering v rid s =
     (if steer_waits rid s then Inr (False, s)
      else bindE (record_event v rid ''steer_closed'' ''steering closed: no implementer turn remains''
             EL_DETAIL None s) (\<lambda>(_, s). Inr (True, s)))"

definition consume_steer :: "env \<Rightarrow> nat \<Rightarrow> nat \<Rightarrow> store \<Rightarrow> store" where
  "consume_steer v rid mid s =
     s\<lparr>steer_notes := modify (\<lambda>m. m_id m = mid \<and> m_consumed_by m = None)
        (\<lambda>m. m\<lparr>m_consumed_by := Some rid, m_consumed_at := Some (clock v)\<rparr>) (steer_notes s)\<rparr>"

definition consume_steers :: "env \<Rightarrow> nat list \<Rightarrow> nat \<Rightarrow> store \<Rightarrow> store" where
  [op_defs]: "consume_steers v mids rid s = fold (consume_steer v rid) mids s"

subsection \<open>Reads\<close>

definition standing :: "nat \<Rightarrow> store \<Rightarrow> string list" where
  "standing tid s = map m_note (sort_key m_id (filter (standing_amendment tid) (steer_notes s)))"

definition withdrawn_events :: "nat \<Rightarrow> store \<Rightarrow> nat list" where
  "withdrawn_events tid s =
     remdups (List.map_filter m_event (filter (\<lambda>m. m_ticket m = tid \<and> m_withdrawn_by m \<noteq> None) (steer_notes s)))"

definition reached_live :: "steer_row \<Rightarrow> store \<Rightarrow> bool" where
  "reached_live m s \<longleftrightarrow>
     (case Option.bind (m_run m) (\<lambda>k. run_of k s) of
        None \<Rightarrow> False
      | Some r \<Rightarrow> (case r_ended r of None \<Rightarrow> True | Some e \<Rightarrow> m_at m \<le> e))"

definition steer_reads :: "nat \<Rightarrow> (steer_row \<Rightarrow> bool) \<Rightarrow> store \<Rightarrow> (steer_row \<times> bool) list" where
  "steer_reads tid P s =
     map (\<lambda>m. (m, reached_live m s)) (sort_key m_id (filter (\<lambda>m. m_ticket m = tid \<and> m_event m = None
       \<and> m_withdrawn_by m = None \<and> P m) (steer_notes s)))"

definition amendments :: "nat \<Rightarrow> store \<Rightarrow> (steer_row \<times> bool) list" where
  "amendments tid s = steer_reads tid (\<lambda>m. m_kind m = SK_AMENDMENT) s"

definition pending_steers :: "nat \<Rightarrow> steer_kind option \<Rightarrow> store \<Rightarrow> (steer_row \<times> bool) list" where
  "pending_steers tid kind s =
     steer_reads tid (\<lambda>m. m_consumed_by m = None \<and> (case kind of None \<Rightarrow> True | Some k \<Rightarrow> m_kind m = k)) s"

definition adoptable :: "run_row \<Rightarrow> store \<Rightarrow> revision_row \<Rightarrow> bool" where
  "adoptable r s x \<longleftrightarrow>
     v_ticket x = r_ticket r
     \<and> (case r_revision r of None \<Rightarrow> False | Some n \<Rightarrow> n < v_revision x)
     \<and> (\<exists>m \<in> set (steer_notes s). m_run m = Some (r_id r) \<and> m_kind m = SK_AMENDMENT
          \<and> m_withdrawn_by m = None \<and> v_at x < m_at m)"

definition body_at :: "run_row \<Rightarrow> nat option \<Rightarrow> store \<Rightarrow> string option" where
  "body_at r n s = Option.bind n (\<lambda>n. map_option v_body
     (find (\<lambda>x. v_ticket x = r_ticket r \<and> v_revision x = n) (revisions s)))"

definition adopted_revision :: "nat \<Rightarrow> store \<Rightarrow> nat option" where
  "adopted_revision rid s =
     Option.bind (run_of rid s) (\<lambda>r.
       case map v_revision (filter (adoptable r s) (revisions s)) of
         [] \<Rightarrow> None
       | ns \<Rightarrow>
           (let n = foldr max ns 0
            in if body_at r (Some n) s \<noteq> body_at r (r_revision r) s then Some n else None))"

definition uncarried :: "steer_row \<Rightarrow> store \<Rightarrow> bool" where
  "uncarried m s \<longleftrightarrow> m_consumed_by m = None
     \<and> (case m_event m of None \<Rightarrow> True
        | Some e \<Rightarrow> first_naming ''operator_note_consumed'' e s = None)"

definition interrupting :: "nat \<Rightarrow> store \<Rightarrow> bool" where
  "interrupting rid s \<longleftrightarrow>
     (\<exists>m \<in> set (steer_notes s). m_run m = Some rid \<and> m_interrupt m \<and> uncarried m s)"

definition babysat_interrupts :: "nat \<Rightarrow> store \<Rightarrow> (steer_row \<times> nat) list" where
  "babysat_interrupts rid s =
     List.map_filter (\<lambda>m. map_option (Pair m) (m_event m))
       (sort_key m_id (filter (\<lambda>m. m_run m = Some rid \<and> m_interrupt m \<and> uncarried m s) (steer_notes s)))"

text \<open>The run and time that read a steer: its own columns, else its note's consumption.\<close>

definition steer_reader :: "steer_row \<Rightarrow> store \<Rightarrow> nat option \<times> int option" where
  "steer_reader m s =
     (let c = Option.bind (m_event m) (\<lambda>e. first_naming ''operator_note_consumed'' e s)
      in (case m_consumed_by m of None \<Rightarrow> Option.bind c e_run | Some k \<Rightarrow> Some k,
          case m_consumed_at m of None \<Rightarrow> map_option e_at c | Some n \<Rightarrow> Some n))"

record chain_note =
  cn_steer :: steer_row
  cn_run :: "nat option"
  cn_consumed :: "nat option \<times> int option"

definition chain_notes :: "nat \<Rightarrow> int \<Rightarrow> store \<Rightarrow> chain_note list" where
  "chain_notes tid since s =
     map (\<lambda>m. \<lparr>cn_steer = m, cn_run = (if reached_live m s then m_run m else None),
               cn_consumed = steer_reader m s\<rparr>)
       (sort_key m_at (sort_key m_id (filter (\<lambda>m. m_ticket m = tid \<and> since \<le> m_at m) (steer_notes s))))"

definition all_steers :: "store \<Rightarrow> (string \<times> steer_row \<times> nat option \<times> int option) list" where
  "all_steers s =
     List.map_filter (\<lambda>m. map_option (\<lambda>t. (t_ident t, m, steer_reader m s)) (ticket_of (m_ticket m) s))
       (sort_key m_id (steer_notes s))"

definition event_texts :: "nat \<Rightarrow> string \<Rightarrow> string \<Rightarrow> store \<Rightarrow> (string \<times> string) list" where
  "event_texts tid kind key s =
     List.map_filter (\<lambda>e. map_option (Pair (e_kind e)) (payload_text key (e_payload e)))
       (filter (\<lambda>e. e_kind e = kind
         \<and> map_option r_ticket (Option.bind (e_run e) (\<lambda>k. run_of k s)) = Some tid) (events s))"

definition console_notes :: "nat \<Rightarrow> store \<Rightarrow> (string \<times> string) list" where
  "console_notes tid s =
     filter (\<lambda>(_, txt). txt \<noteq> [])
       (map (\<lambda>m. (''steer'', m_note m)) (filter (\<lambda>m. m_ticket m = tid) (steer_notes s))
        @ event_texts tid ''operator_note'' ''note'' s
        @ event_texts tid ''console_ask'' ''question'' s
        @ List.map_filter (\<lambda>i. map_option (Pair (action_value (i_action i))) (i_note i))
            (filter (\<lambda>i. map_option r_ticket (Option.bind (i_run i) (\<lambda>k. run_of k s)) = Some tid
               \<and> (i_action i \<in> {IA_REQUEUE, IA_ABORT, IA_ABORT_CLOSE}
                  \<or> i_action i = IA_BABYSIT \<and> i_source i = IS_HUMAN)) (interventions s)))"

subsection \<open>Every call is safe\<close>

lemma steer_notes_safe:
  "row_run m_id steer_grows steer_moves (steer_notes s) rows \<Longrightarrow> safe s (s\<lparr>steer_notes := rows\<rparr>)"
  by (rule safe_desk) (simp_all add: desk_safe_def)

lemma insert_steer_safe:
  assumes "insert_steer v c rid i e ii li s = Inr (r, t)"
  shows "safe s t"
proof -
  define row where "row = \<lparr>m_id = next_id m_id (steer_notes s), m_ticket = t_id (sl_ticket c), m_run = rid,
    m_kind = sl_kind c, m_note = sl_note c, m_author = sl_author c, m_at = clock v, m_intervention = i,
    m_event = e, m_consumed_by = None, m_consumed_at = None, m_interrupt = ii, m_withdrawn_by = None\<rparr>"
  let ?u = "s\<lparr>steer_notes := steer_notes s @ [row]\<rparr>"
  have "t = ?u \<or> (\<exists>es k. amend v (sl_problems c) (t_id (sl_ticket c)) es k ?u = Inr t)"
    using assms unfolding insert_steer_def row_def Let_def
    by (auto split: sum.split_asm prod.split_asm if_split_asm)
  moreover have "safe s ?u"
    by (intro steer_notes_safe row_run_arrive) (simp add: steer_grows_def row_def)
  ultimately show ?thesis using amend_safe safe_trans by blast
qed

lemma babysat_steer_safe: "babysat_steer v c rid s = Inr (r, t) \<Longrightarrow> safe s t"
  unfolding babysat_steer_def
  by (auto dest!: record_intervention_safe note_live_safe insert_steer_safe intro: safe_trans)

lemma live_steer_safe: "live_steer v c k re s = Inr (r, t) \<Longrightarrow> safe s t"
  unfolding live_steer_def Let_def
  by (auto dest!: record_intervention_safe insert_steer_safe babysat_steer_safe intro: safe_trans
      split: option.split_asm if_split_asm)

lemma noted_steer_safe:
  assumes "noted_steer v c k wrt s = Inr (r, t)" and "\<And>e u. wrt s = Inr (e, u) \<Longrightarrow> safe s u"
  shows "safe s t"
proof -
  obtain e u i where u: "wrt s = Inr (e, u)" and t: "insert_steer v c (Some k) i (Some e) False False u = Inr (r, t)"
    using assms(1) unfolding noted_steer_def by auto
  from assms(2) [OF u] insert_steer_safe [OF t] show ?thesis by (rule safe_trans)
qed

lemma noted_sent_safe: "noted_steer v c k (send_back v k no au h) s = Inr (r, t) \<Longrightarrow> safe s t"
  by (erule noted_steer_safe) (rule send_back_safe)

lemma noted_added_safe: "noted_steer v c k (add_note v k no au h) s = Inr (r, t) \<Longrightarrow> safe s t"
  by (erule noted_steer_safe) (rule add_note_safe)

lemma ticket_intervention_safe: "ticket_intervention v tx src x s = Inr (i, t) \<Longrightarrow> safe s t"
  by (auto simp: ticket_intervention_def split: option.split_asm
      intro: record_intervention_safe record_project_intervention_safe)

lemma steer_idle_safe:
  "ticket_intervention v tx src x s = Inr (i, u) \<Longrightarrow> insert_steer v c k i None False False u = Inr (r, t) \<Longrightarrow>
   safe s t"
  by (rule safe_trans [OF ticket_intervention_safe insert_steer_safe])

lemma steer_safe:
  assumes "steer v pr tid n au h ii src s = Inr (r, t)"
  shows "safe s t"
proof -
  obtain x where x: "ticket_of tid s = Some x"
    using assms by (auto simp: steer_def split: if_split_asm option.split_asm)
  show ?thesis
  proof (cases "t_active x")
    case None
    with assms x show ?thesis
      unfolding steer_def Let_def
      by (auto split: if_split_asm option.split_asm
          elim: noted_sent_safe noted_added_safe steer_idle_safe)
  next
    case (Some k)
    with assms x obtain c re where "live_steer v c k re s = Inr (r, t)"
      unfolding steer_def Let_def by (simp split: if_split_asm)
    then show ?thesis by (rule live_steer_safe)
  qed
qed

lemma withdraw_safe:
  assumes "withdraw v tid n s = Inr (r, t)"
  shows "safe s t"
proof -
  obtain x i u tx where u: "ticket_intervention v tx IS_HUMAN x s = Inr (i, u)"
    and t: "t = u\<lparr>steer_notes := modify (standing_amendment tid)
       (\<lambda>m. m\<lparr>m_withdrawn_by := Some i\<rparr>) (steer_notes u)\<rparr>"
    using assms unfolding withdraw_def Let_def
    by (simp split: if_split_asm option.split_asm) blast
  have "safe u t"
    unfolding t by (intro steer_notes_safe row_run_change) (auto simp: steer_moves_def standing_amendment_def)
  with ticket_intervention_safe [OF u] show ?thesis by (rule safe_trans)
qed

lemma close_steering_safe: "close_steering v rid s = Inr (b, t) \<Longrightarrow> safe s t"
  by (auto simp: close_steering_def split: if_split_asm intro: record_event_safe)

lemma consume_steers_safe [simp]: "safe s (consume_steers v ms rid s)"
  unfolding consume_steers_def
  by (rule safe_fold) (auto simp: consume_steer_def steer_moves_def intro!: steer_notes_safe row_run_change)

end
