(* ===== verification/System.thy ===== *)
theory System
  imports Claim Findings Working Board Thread FollowUps Steers
begin

section \<open>System: every operation is a run of the lifecycle\<close>

text \<open>
  \<open>store_step s t\<close> holds when one call of one operation of the store, with any arguments and
  any environment, takes the store \<open>s\<close> to \<open>t\<close>: one rule per operation. A call that raises
  leaves the store, so it needs no rule. \<open>store_step_safe\<close> is the simulation; two interfaces
  carry it over to every history of calls: \<open>simulation\<close>, whose client proves an invariant on
  the machine once, and \<open>append_only\<close>, whose client knows a row of a log forever.
\<close>

subsection \<open>The interfaces\<close>

locale simulation =
  fixes step :: "'s \<Rightarrow> 's \<Rightarrow> bool"
    and spec :: "'a \<Rightarrow> 'a \<Rightarrow> bool"
    and view :: "'s \<Rightarrow> 'a"
  assumes simulates: "step s t \<Longrightarrow> spec\<^sup>*\<^sup>* (view s) (view t)"
begin

lemma history: "step\<^sup>*\<^sup>* s t \<Longrightarrow> spec\<^sup>*\<^sup>* (view s) (view t)"
  by (induction rule: rtranclp_induct) (auto dest: simulates)

lemma invariant:
  assumes "step\<^sup>*\<^sup>* s t" and "I (view s)" and "\<And>a b. spec a b \<Longrightarrow> I a \<Longrightarrow> I b"
  shows "I (view t)"
proof -
  have "spec\<^sup>*\<^sup>* a b \<Longrightarrow> I a \<Longrightarrow> I b" for a b
    by (induction rule: rtranclp_induct) (auto dest: assms(3))
  with history [OF assms(1)] assms(2) show ?thesis by blast
qed

end

locale append_only =
  fixes step :: "'s \<Rightarrow> 's \<Rightarrow> bool"
    and rows :: "'s \<Rightarrow> 'r list"
  assumes grows: "step s t \<Longrightarrow> prefix (rows s) (rows t)"
begin

lemma history_grows: "step\<^sup>*\<^sup>* s t \<Longrightarrow> prefix (rows s) (rows t)"
  by (induction rule: rtranclp_induct) (auto dest: grows intro: prefix_order.trans)

lemma row_stays: "step\<^sup>*\<^sup>* s t \<Longrightarrow> i < length (rows s) \<Longrightarrow> i < length (rows t) \<and> rows t ! i = rows s ! i"
  by (drule history_grows) (auto simp: prefix_def nth_append)

end

subsection \<open>The operations\<close>

inductive store_step :: "store \<Rightarrow> store \<Rightarrow> bool" where
  record_event: "record_event v rid k sm lv pl s = Inr (q, t) \<Longrightarrow> store_step s t"
| record_ledger: "record_ledger v rid lk tx so s = Inr (q, t) \<Longrightarrow> store_step s t"
| record_intervention: "record_intervention v rid a n src tr qu g ac fi s = Inr (q, t) \<Longrightarrow> store_step s t"
| record_project_intervention: "record_project_intervention v a n src tr p ac s = Inr (q, t) \<Longrightarrow> store_step s t"
| record_note: "store_step s (snd (record_note v tid k tx key au r s))"
| mark_note_posted: "store_step s (mark_note_posted v nid s)"
| mark_note_failed: "store_step s (mark_note_failed nid er s)"
| record_board_fields: "record_board_fields v tid au s = Inr (rv, t) \<Longrightarrow> store_step s t"
| transition: "transition tid st s = Inr (old, t) \<Longrightarrow> store_step s t"
| walk_ticket: "walk_ticket tid st s = Inr (path, t) \<Longrightarrow> store_step s t"
| mirror_ticket: "mirror_ticket v pid b expected au s = Inr (tid, t) \<Longrightarrow> store_step s t"
| set_admission: "set_admission v pid state n s = Inr (q, t) \<Longrightarrow> store_step s t"
| claim: "claim v pid tid expected cap s = Inr (won, t) \<Longrightarrow> store_step s t"
| set_phase: "set_phase v rid p nt s = Inr (old, t) \<Longrightarrow> store_step s t"
| set_branch: "set_branch rid br s = Inr t \<Longrightarrow> store_step s t"
| set_review_round_cap: "set_review_round_cap rid c s = Inr t \<Longrightarrow> store_step s t"
| heartbeat: "store_step s (snd (heartbeat v rid s))"
| record_agent_session: "record_agent_session v rid se ro rt s = Inr t \<Longrightarrow> store_step s t"
| record_pr_seen: "store_step s (record_pr_seen rid seen parked facts s)"
| park: "park v rid p nt ca pr ap seen kind s = Inr t \<Longrightarrow> store_step s t"
| set_board_state: "store_step s (set_board_state tid bs col s)"
| set_gone_since: "store_step s (set_gone_since tid gone s)"
| record_push: "store_step s (snd (record_push v tid ps s))"
| clear_push: "store_step s (clear_push tid s)"
| set_question: "store_step s (set_question tid qn pk s)"
| set_pr_seen_state: "store_step s (set_pr_seen_state rid st s)"
| clear_merge_sha: "store_step s (clear_merge_sha rid s)"
| set_pull_request: "store_step s (set_pull_request rid url ca s)"
| set_outcome_reason: "store_step s (set_outcome_reason v rid reason s)"
| stamp_board_ask: "store_step s (stamp_board_ask pid tm s)"
| record_review_round: "record_review_round v rid num vd model fs rs b e s = Inr (q, t) \<Longrightarrow> store_step s t"
| release: "release v rid oc reason cls sha fk rp ca s = Inr t \<Longrightarrow> store_step s t"
| requeue: "requeue v tid n src force s = Inr (rid, t) \<Longrightarrow> store_step s t"
| approve: "approve v tid n expected s = Inr (rid, t) \<Longrightarrow> store_step s t"
| babysit: "babysit v tid n src fi s = Inr (rid, t) \<Longrightarrow> store_step s t"
| repoint: "repoint v tid sha n s = Inr (res, t) \<Longrightarrow> store_step s t"
| pause: "pause v rid n src s = Inr (q, t) \<Longrightarrow> store_step s t"
| abort: "abort v rid n src close tr cm s = Inr (q, t) \<Longrightarrow> store_step s t"
| resume: "resume v rid g src nt s = Inr (p, t) \<Longrightarrow> store_step s t"
| record_strike: "record_strike v rid stale beat s = Inr (n, t) \<Longrightarrow> store_step s t"
| record_supervisor_heartbeat: "store_step s (snd (record_supervisor_heartbeat v pd st s))"
| record_loop_restart: "store_step s (snd (record_loop_restart v pid sha s))"
| record_loop_return: "store_step s (snd (record_loop_return v pid s))"
| unreturned_loop_restarts: "store_step s (snd (unreturned_loop_restarts v grace s))"
| enter_working: "enter_working v wr vf active s = Inr (x, t) \<Longrightarrow> store_step s t"
| exit_working: "store_step s (snd (exit_working v owner active s))"
| backoff_failure: "backoff_failure v pid reason pending wr s = Inr (nt, t) \<Longrightarrow> store_step s t"
| clear_backoff: "store_step s (clear_backoff pid s)"
| file_story: "file_story v tid ws ch od pa s = Inr t \<Longrightarrow> store_step s t"
| replan_story: "replan_story v tid ws ch od br pa s = Inr (st, t) \<Longrightarrow> store_step s t"
| approve_story: "approve_story v tid rv au n s = Inr (q, t) \<Longrightarrow> store_step s t"
| advance_story: "advance_story v rid s = Inr (g, t) \<Longrightarrow> store_step s t"
| park_story: "park_story v tid dk qs op df ct s = Inr (q, t) \<Longrightarrow> store_step s t"
| answer_decision: "answer_decision v did an au n s = Inr (st, t) \<Longrightarrow> store_step s t"
| record_witness_result: "record_witness_result v tid key sha vd vf red fh ev sec car s = Inr (q, t) \<Longrightarrow> store_step s t"
| accept_witness: "accept_witness v tid key src s = Inr t \<Longrightarrow> store_step s t"
| reapprove_edges: "reapprove_edges tid ct s = Inr t \<Longrightarrow> store_step s t"
| abandon_story: "abandon_story v tid n au s = Inr t \<Longrightarrow> store_step s t"
| close_story: "close_story v tid sha n s = Inr t \<Longrightarrow> store_step s t"
| file_ticket: "file_ticket v bc pid key tx col pr au s = Inr (i, t) \<Longrightarrow> store_step s t"
| edit_ticket: "edit_ticket v bc pid i tx ex au pr ls s = Inr (rv, t) \<Longrightarrow> store_step s t"
| move_ticket: "move_ticket v bc pid i col ex au n s = Inr (rv, t) \<Longrightarrow> store_step s t"
| cancel_ticket: "cancel_ticket v bc pid i ex n au s = Inr (rv, t) \<Longrightarrow> store_step s t"
| resolve_dependencies: "resolve_dependencies pid s = Inr (is, t) \<Longrightarrow> store_step s t"
| amend: "amend v pb tid es k s = Inr t \<Longrightarrow> store_step s t"
| backfill_criteria: "store_step s (backfill_criteria v s)"
| reserve_firing: "reserve_firing v pid au rv su ca mo re de le li s = Inr (x, t) \<Longrightarrow> store_step s t"
| settle_unknown: "settle_unknown v fid st n w s = Inr (b, t) \<Longrightarrow> store_step s t"
| take_firing: "store_step s (snd (take_firing v fid pd s))"
| settle_firing: "settle_firing v fid pd st why d s = Inr (b, t) \<Longrightarrow> store_step s t"
| replay_firing: "store_step s (snd (replay_firing v fid until s))"
| record_result: "store_step s (snd (record_result v fid res why cs s))"
| pause_automation: "store_step s (snd (pause_automation v au n ac s))"
| resume_automation: "store_step s (snd (resume_automation v au n s))"
| end_merge_hold: "store_step s (snd (end_merge_hold v hid why s))"
| place_merge_hold: "place_merge_hold v pid fid sha cs why s = Inr (i, t) \<Longrightarrow> store_step s t"
| create_scout: "create_scout v pid ask n s = Inr (i, t) \<Longrightarrow> store_step s t"
| move_scout: "move_scout v h sid p b ho s = Inr t \<Longrightarrow> store_step s t"
| beat_scout: "beat_scout v h sid pd s = Inr t \<Longrightarrow> store_step s t"
| claim_scout: "claim_scout v h sid pd ho s = Inr t \<Longrightarrow> store_step s t"
| end_scout: "end_scout v h sid p why to s = Inr t \<Longrightarrow> store_step s t"
| set_scout_session: "set_scout_session h sid se s = Inr t \<Longrightarrow> store_step s t"
| record_scout_title: "record_scout_title h sid ti s = Inr t \<Longrightarrow> store_step s t"
| record_scout_report: "record_scout_report v h sid pa r s = Inr (i, t) \<Longrightarrow> store_step s t"
| record_scout_tasks: "record_scout_tasks h sid pa wa ns s = Inr (is, t) \<Longrightarrow> store_step s t"
| start_scout_task: "start_scout_task v h k s = Inr t \<Longrightarrow> store_step s t"
| end_scout_task: "end_scout_task v h k p to co ex s = Inr t \<Longrightarrow> store_step s t"
| record_scout_actions: "record_scout_actions h sid pa xs s = Inr (ps, t) \<Longrightarrow> store_step s t"
| file_scout_action: "file_scout_action v sid pos k s = Inr t \<Longrightarrow> store_step s t"
| record_scout_event: "record_scout_event v h sid k sm lv pl s = Inr (q, t) \<Longrightarrow> store_step s t"
| post_message: "post_message v sid au mo tx bs an s = Inr (i, t) \<Longrightarrow> store_step s t"
| take_message: "take_message v h mid ho s = Inr (e, t) \<Longrightarrow> store_step s t"
| take_steer: "take_steer v h sid wave s = Inr (r, t) \<Longrightarrow> store_step s t"
| release_message: "release_message v h mid why s = Inr t \<Longrightarrow> store_step s t"
| record_follow_up: "record_follow_up v rid sha k g tx fp pa li s = Inr (i, t) \<Longrightarrow> store_step s t"
| settle_filed: "settle_filed v fid key s = Inr (b, t) \<Longrightarrow> store_step s t"
| settle_duplicate: "settle_duplicate v fid key dr s = Inr (b, t) \<Longrightarrow> store_step s t"
| settle_superseded: "settle_superseded v fid sha s = Inr (b, t) \<Longrightarrow> store_step s t"
| settle_ledger: "settle_ledger v fid s = Inr (b, t) \<Longrightarrow> store_step s t"
| settle_unfiled: "settle_unfiled v fid er s = Inr (b, t) \<Longrightarrow> store_step s t"
| record_proposal: "record_proposal v sid fid ra ti bo s = Inr (i, t) \<Longrightarrow> store_step s t"
| accept_proposal: "accept_proposal v i child au n s = Inr t \<Longrightarrow> store_step s t"
| reject_proposal: "reject_proposal v i au n s = Inr t \<Longrightarrow> store_step s t"
| send_back: "send_back v rid n au hi s = Inr (e, t) \<Longrightarrow> store_step s t"
| add_note: "add_note v rid n au hi s = Inr (e, t) \<Longrightarrow> store_step s t"
| note_live: "note_live v rid n au hi s = Inr (e, t) \<Longrightarrow> store_step s t"
| consume_notes: "consume_notes v rid es rnd s = Inr t \<Longrightarrow> store_step s t"
| begin_merge: "begin_merge rid u (\<lambda>x. bindE (set_phase v rid PH_MERGING nt x) (\<lambda>(_, y). Inr y)) s = Inr (b, t) \<Longrightarrow>
    store_step s t"
| ask_console: "ask_console v rid q au s = Inr (e, t) \<Longrightarrow> store_step s t"
| answer_ask: "answer_ask v rid eid u an s = Inr (q, t) \<Longrightarrow> store_step s t"
| steer: "steer v pb tid n au hi ii src s = Inr (r, t) \<Longrightarrow> store_step s t"
| withdraw: "withdraw v tid n s = Inr (r, t) \<Longrightarrow> store_step s t"
| close_steering: "close_steering v rid s = Inr (b, t) \<Longrightarrow> store_step s t"
| consume_steers: "store_step s (consume_steers v ms rid s)"

inductive_cases store_step_cases: "store_step s t"

lemmas op_safe =
  record_event_safe record_ledger_safe record_intervention_safe record_project_intervention_safe
  record_board_fields_safe transition_safe walk_ticket_safe mirror_ticket_safe set_admission_safe
  claim_safe set_phase_safe set_branch_safe set_review_round_cap_safe record_agent_session_safe
  park_safe record_review_round_safe release_safe requeue_safe approve_safe babysit_safe
  repoint_safe pause_safe abort_safe resume_safe record_strike_safe enter_working_safe
  backoff_failure_safe file_story_safe replan_story_safe approve_story_safe advance_story_safe
  park_story_safe answer_decision_safe witness_safe edges_safe abandon_story_safe close_story_safe

lemmas board_safe =
  file_ticket_safe edit_ticket_safe move_ticket_safe cancel_ticket_safe resolve_dependencies_safe
  amend_safe [THEN conjunct1]

lemmas automation_safe = reserve_firing_safe settle_unknown_safe settle_firing_safe place_merge_hold_safe

lemmas scout_safe =
  create_scout_safe move_scout_safe beat_scout_safe claim_scout_safe end_scout_safe scout_columns_safe
  record_scout_report_safe record_scout_tasks_safe start_scout_task_safe end_scout_task_safe
  record_scout_actions_safe file_scout_action_safe record_scout_event_safe post_message_safe
  take_message_safe take_steer_safe release_message_safe

lemmas note_safe =
  record_follow_up_safe settlings_safe record_proposal_safe accept_proposal_safe reject_proposal_safe
  send_back_safe add_note_safe note_live_safe consume_notes_safe ask_console_safe answer_ask_safe
  steer_safe withdraw_safe close_steering_safe

lemma merge_begun_safe:
  "begin_merge rid u (\<lambda>x. bindE (set_phase v rid PH_MERGING nt x) (\<lambda>(_, y). Inr y)) s = Inr (b, t) \<Longrightarrow> safe s t"
  by (erule begin_merge_safe) (auto intro: set_phase_safe)

theorem store_step_safe: "store_step s t \<Longrightarrow> safe s t"
  by (induction rule: store_step.induct)
    (simp | erule op_safe board_safe automation_safe scout_safe note_safe merge_begun_safe)+

interpretation life: simulation store_step spec_step spec_of
  by unfold_locales (use store_step_safe in \<open>auto simp: safe_def refines_def\<close>)

interpretation event_log: append_only store_step events
  by unfold_locales (use store_step_safe in \<open>auto simp: safe_def appends_def\<close>)

interpretation ledger_log: append_only store_step ledger
  by unfold_locales (use store_step_safe in \<open>auto simp: safe_def appends_def\<close>)

interpretation intervention_log: append_only store_step interventions
  by unfold_locales (use store_step_safe in \<open>auto simp: safe_def appends_def\<close>)

interpretation revision_log: append_only store_step revisions
  by unfold_locales (use store_step_safe in \<open>auto simp: safe_def appends_def\<close>)

subsection \<open>Histories\<close>

text \<open>A store as \<^verbatim>\<open>store init\<close> and \<^verbatim>\<open>register_project\<close> leave it: projects and nothing else.\<close>

definition fresh_store :: "store \<Rightarrow> bool" where
  "fresh_store s \<longleftrightarrow> s = empty_store\<lparr>projects := projects s\<rparr>"

definition reachable :: "store \<Rightarrow> bool" where
  "reachable s \<longleftrightarrow> (\<exists>s0. fresh_store s0 \<and> store_step\<^sup>*\<^sup>* s0 s)"

lemma fresh_spec: "fresh_store s \<Longrightarrow> spec_of s = \<lparr>spec_runs = [], spec_tickets = [], spec_stories = [], spec_log = []\<rparr>"
  unfolding fresh_store_def by (drule arg_cong [where f = spec_of]) (simp add: spec_of_def empty_store_def)

lemma reachable_invariant:
  assumes "reachable s" and "I \<lparr>spec_runs = [], spec_tickets = [], spec_stories = [], spec_log = []\<rparr>"
    and "\<And>a b. spec_step a b \<Longrightarrow> I a \<Longrightarrow> I b"
  shows "I (spec_of s)"
proof -
  from assms(1) obtain s0 where "fresh_store s0" "store_step\<^sup>*\<^sup>* s0 s" by (auto simp: reachable_def)
  with assms(2,3) show ?thesis
    by (intro life.invariant [of s0 s I]) (simp_all add: fresh_spec)
qed

lemma reachable_runs_inv:
  assumes "reachable s"
  shows "runs_inv (spec_of s)"
  by (rule reachable_invariant [where I = runs_inv, OF assms])
    (simp add: runs_inv_def keyed_def, blast intro: runs_inv_step)

lemma reachable_lease_inv:
  assumes "reachable s"
  shows "runs_inv (spec_of s) \<and> lease_inv (spec_of s)"
  by (rule reachable_invariant [where I = "\<lambda>a. runs_inv a \<and> lease_inv a", OF assms])
    (simp add: runs_inv_def lease_inv_def keyed_def, blast intro: runs_inv_step lease_inv_step)

lemma reachable_attempts_inv:
  assumes "reachable s"
  shows "attempts_inv (spec_of s)"
  by (rule reachable_invariant [where I = attempts_inv, OF assms])
    (simp add: attempts_inv_def attempts_def, blast intro: attempts_inv_step)

lemma reachable_log_inv:
  assumes "reachable s"
  shows "log_inv (spec_of s)"
  by (rule reachable_invariant [where I = log_inv, OF assms])
    (simp add: log_inv_def seqs_def, blast intro: log_inv_step)

lemma reachable_stories_inv:
  assumes "reachable s"
  shows "stories_inv (spec_of s)"
  by (rule reachable_invariant [where I = stories_inv, OF assms])
    (simp add: stories_inv_def one_open_def open_in_def keyed_def, blast intro: stories_inv_step)

text \<open>The invariants read back on the rows.\<close>

lemma reachable_keyed: "reachable s \<Longrightarrow> keyed r_id (runs s) \<and> keyed t_id (tickets s)"
proof -
  assume s: "reachable s"
  have "u_id \<circ> run_core = r_id" "x_id \<circ> ticket_core = t_id"
    by (auto simp: run_core_def ticket_core_def)
  then show ?thesis
    using reachable_lease_inv [OF s] by (simp add: runs_inv_def lease_inv_def keyed_def spec_of_def)
qed

lemma run_core_of: "run_of k s = Some r \<Longrightarrow> fetch u_id k (spec_runs (spec_of s)) = Some (run_core r)"
  by (simp add: spec_of_def fetch_run_core)

lemma ticket_core_of: "ticket_of k s = Some t \<Longrightarrow> fetch x_id k (spec_tickets (spec_of s)) = Some (ticket_core t)"
  by (simp add: spec_of_def fetch_ticket_core)

lemma of_run_core:
  "fetch u_id k (spec_runs (spec_of s)) = Some u \<Longrightarrow> \<exists>r. run_of k s = Some r \<and> run_core r = u"
  by (auto simp: spec_of_def fetch_run_core)

lemma of_ticket_core:
  "fetch x_id k (spec_tickets (spec_of s)) = Some x \<Longrightarrow> \<exists>t. ticket_of k s = Some t \<and> ticket_core t = x"
  by (auto simp: spec_of_def fetch_ticket_core)

text \<open>A lease read back on the rows, and what a history of the machine leaves alone.\<close>

lemma lease_row:
  assumes "reachable s" and "t \<in> set (tickets s)" and "t_active t = Some k"
  shows "\<exists>r. run_of k s = Some r \<and> r_ticket r = t_id t \<and> r_ended r = None"
proof -
  have "ticket_core t \<in> set (spec_tickets (spec_of s))" and "x_active (ticket_core t) = Some k"
    using assms(2,3) by (auto simp: spec_of_def ticket_core_def)
  then obtain u where u: "u \<in> set (spec_runs (spec_of s))" "u_id u = k"
      "u_ticket u = x_id (ticket_core t)" "u_ended u = None"
    using reachable_lease_inv [OF assms(1)] unfolding lease_inv_def by blast
  moreover have "keyed u_id (spec_runs (spec_of s))"
    using reachable_runs_inv [OF assms(1)] by (simp add: runs_inv_def)
  ultimately have "fetch u_id k (spec_runs (spec_of s)) = Some u"
    using fetch_member [of u_id "spec_runs (spec_of s)" u] by simp
  then obtain r where "run_of k s = Some r" "run_core r = u"
    using of_run_core by blast
  with u show ?thesis by (auto simp: run_core_def ticket_core_def)
qed

lemma reachable_run:
  assumes "reachable s" and "run_of k s = Some r"
  shows "(r_ended r = None \<longleftrightarrow> r_outcome r = None) \<and>
    (\<forall>oc. r_outcome r = Some oc \<longrightarrow> r_phase r = terminal_phase oc)"
proof -
  have "run_core r \<in> set (spec_runs (spec_of s))"
    using assms(2) by (auto simp: spec_of_def dest: fetch_SomeD)
  then show ?thesis
    using reachable_runs_inv [OF assms(1)] by (force simp: runs_inv_def run_core_def)
qed

lemma sealed_history:
  assumes "spec_step\<^sup>*\<^sup>* a b" and "fetch u_id k (spec_runs a) = Some u"
    and "u_phase u \<in> set sealed_phases" and "u_ended u \<noteq> None"
  shows "fetch u_id k (spec_runs b) = Some u"
  using assms(1)
proof (induction rule: rtranclp_induct)
  case (step b c)
  with sealed_step [OF step(2) step(3)] assms(3,4) show ?case by auto
qed (rule assms(2))

lemma final_history:
  assumes "spec_step\<^sup>*\<^sup>* a b" and "fetch x_id k (spec_tickets a) = Some x" and "final_status (x_status x)"
  shows "\<exists>z. fetch x_id k (spec_tickets b) = Some z \<and> x_status z = x_status x"
  using assms(1)
proof (induction rule: rtranclp_induct)
  case (step b c)
  then obtain z where z: "fetch x_id k (spec_tickets b) = Some z" "x_status z = x_status x" by blast
  with final_status_step [OF step(2) z(1)] assms(3) show ?case by auto
qed (use assms(2) in auto)

lemma ended_history:
  assumes "spec_step\<^sup>*\<^sup>* a b" and "fetch fst k (spec_stories a) = Some y" and "ended_story (snd y)"
  shows "fetch fst k (spec_stories b) = Some y"
  using assms(1)
proof (induction rule: rtranclp_induct)
  case (step b c)
  with ended_story_step [OF step(2) step(3)] assms(3) show ?case by auto
qed (rule assms(2))

lemma run_history:
  assumes "spec_step\<^sup>*\<^sup>* a b" and "fetch u_id k (spec_runs a) = Some u"
  shows "\<exists>w. fetch u_id k (spec_runs b) = Some w \<and> u_ticket w = u_ticket u \<and> u_attempt w = u_attempt u"
  using assms(1)
proof (induction rule: rtranclp_induct)
  case (step b c)
  then obtain w where "fetch u_id k (spec_runs b) = Some w" "u_ticket w = u_ticket u" "u_attempt w = u_attempt u" by blast
  with run_persists [OF step(2)] show ?case by metis
qed (use assms(2) in auto)

subsection \<open>The desk over every history\<close>

lemma desk_history: "store_step\<^sup>*\<^sup>* s t \<Longrightarrow> desk_safe s t"
proof (induction rule: rtranclp_induct)
  case (step y z)
  with store_step_safe [of y z] show ?case by (auto simp: safe_def intro: desk_safe_trans)
qed simp

text \<open>The keys \<^verbatim>\<open>store/ddl.py\<close> declares: the ids of every table, and its \<^verbatim>\<open>UNIQUE\<close> clauses.\<close>

definition desk_keyed :: "store \<Rightarrow> bool" where
  "desk_keyed s \<longleftrightarrow>
     keyed fr_id (firings s) \<and> keyed fr_key (firings s)
     \<and> keyed ap_id (pauses s) \<and> keyed mh_id (holds s)
     \<and> keyed sc_id (scouts s) \<and> keyed sk_id (scout_tasks s)
     \<and> keyed sr_id (scout_reports s) \<and> keyed (\<lambda>r. (sr_scout r, sr_pass r)) (scout_reports s)
     \<and> keyed (\<lambda>r. (sa_scout r, sa_position r)) (scout_actions s)
     \<and> keyed tm_id (messages s) \<and> keyed e_id (events s)
     \<and> keyed f_id (follow_ups s) \<and> keyed (\<lambda>f. (f_run f, f_print f)) (follow_ups s)
     \<and> keyed q_id (proposals s) \<and> keyed q_follow_up (proposals s)
     \<and> keyed d_id (decisions s) \<and> keyed m_id (steer_notes s)"

lemma desk_run: 
  assumes "reachable s"
  obtains s0 where "fresh_store s0" "store_step\<^sup>*\<^sup>* s0 s" "desk_safe s0 s"
  using assms desk_history unfolding reachable_def by blast

lemma fresh_desk:
  assumes "fresh_store s"
  shows "firings s = []" "pauses s = []" "holds s = []" "scouts s = []" "scout_tasks s = []"
    "scout_reports s = []" "scout_actions s = []" "messages s = []" "events s = []"
    "follow_ups s = []" "proposals s = []" "decisions s = []" "steer_notes s = []"
  using assms unfolding fresh_store_def
  by (metis empty_store_def store.select_convs store.simps)+

lemma keyed_Nil [simp]: "keyed k []"
  by (simp add: keyed_def)

lemma reachable_desk_keyed:
  assumes "reachable s"
  shows "desk_keyed s"
proof -
  obtain s0 where s0: "fresh_store s0" and d: "desk_safe s0 s" using assms by (rule desk_run)
  note runs = d [unfolded desk_safe_def fresh_desk [OF s0]]
  have unique: "keyed fr_key (firings s)" "keyed (\<lambda>r. (sr_scout r, sr_pass r)) (scout_reports s)"
    "keyed (\<lambda>f. (f_run f, f_print f)) (follow_ups s)" "keyed q_follow_up (proposals s)"
    using runs firing_life.unique_run [of "[]" "firings s"] report_life.unique_run [of "[]" "scout_reports s"]
      follow_up_life.unique_run [of "[]" "follow_ups s"] proposal_life.unique_run [of "[]" "proposals s"]
    by (simp_all add: keyed_def)
  have "action_at = (\<lambda>r. (sa_scout r, sa_position r))" by (simp add: action_at_def fun_eq_iff)
  with runs action_life.keyed_run [of "[]" "scout_actions s"]
  have "keyed (\<lambda>r. (sa_scout r, sa_position r)) (scout_actions s)" by simp
  with unique runs show ?thesis
    unfolding desk_keyed_def
    by (simp add: firing_life.keyed_run [of "[]"] pause_life.keyed_run [of "[]"] hold_life.keyed_run [of "[]"]
        scout_life.keyed_run [of "[]"] task_life.keyed_run [of "[]"] report_life.keyed_run [of "[]"]
        message_life.keyed_run [of "[]"] event_life.keyed_run [of "[]"] follow_up_life.keyed_run [of "[]"]
        proposal_life.keyed_run [of "[]"] decision_life.keyed_run [of "[]"] steer_life.keyed_run [of "[]"])
qed

lemma reachable_open_rows:
  assumes "reachable s"
  shows "distinct (map mh_project (filter (\<lambda>h. mh_ended h = None) (holds s)))"
    and "distinct (map ap_automation (filter (\<lambda>p. ap_cleared p = None) (pauses s)))"
proof -
  obtain s0 where s0: "fresh_store s0" and d: "desk_safe s0 s" using assms by (rule desk_run)
  note runs = d [unfolded desk_safe_def fresh_desk [OF s0]]
  show "distinct (map mh_project (filter (\<lambda>h. mh_ended h = None) (holds s)))"
    using runs hold_life.unique_run [of "[]" "holds s"] by simp
  show "distinct (map ap_automation (filter (\<lambda>p. ap_cleared p = None) (pauses s)))"
    using runs pause_life.unique_run [of "[]" "pauses s"] by simp
qed

text \<open>What a row of the desk keeps through every further call.\<close>

lemma desk_tables:
  assumes "store_step\<^sup>*\<^sup>* s t"
  shows "row_run fr_id firing_grows firing_moves (firings s) (firings t)"
    and "row_run sc_id scout_grows scout_moves (scouts s) (scouts t)"
    and "row_run sk_id task_grows task_moves (scout_tasks s) (scout_tasks t)"
  using desk_history [OF assms] by (simp_all add: desk_safe_def)

lemma desk_keys:
  assumes "reachable s"
  shows "keyed fr_id (firings s)" "keyed sc_id (scouts s)" "keyed sk_id (scout_tasks s)" "keyed tm_id (messages s)"
  using reachable_desk_keyed [OF assms] by (simp_all add: desk_keyed_def)

definition firing_keeps :: "firing_row \<Rightarrow> firing_row \<Rightarrow> bool" where
  "firing_keeps r q \<longleftrightarrow> fr_key q = fr_key r \<and> fr_project q = fr_project r
    \<and> (fr_state r \<in> {FS_REFUSED, FS_CONFIRMED, FS_CANCELED} \<longrightarrow> fr_state q = fr_state r)
    \<and> (fr_state q = FS_PROPOSED \<longrightarrow> fr_state r = FS_PROPOSED)
    \<and> (fr_pid r \<noteq> None \<longrightarrow> fr_pid q = fr_pid r)"

lemma firing_keeps_step: "firing_keeps r y \<Longrightarrow> firing_moves y z \<Longrightarrow> firing_keeps r z"
  unfolding firing_keeps_def firing_moves_def
  by (cases "fr_state r"; cases "fr_state y"; simp; elim conjE disjE; simp)

lemma firing_history:
  assumes "reachable s" and "store_step\<^sup>*\<^sup>* s t" and "firing_of k s = Some r"
  shows "\<exists>q. firing_of k t = Some q \<and> firing_keeps r q"
proof (rule firing_life.row_keeps [OF desk_tables(1) [OF assms(2)] desk_keys(1) [OF assms(1)] assms(3)])
  show "firing_keeps r r" by (simp add: firing_keeps_def)
qed (rule firing_keeps_step)

lemma scout_moves_final:
  "scout_moves x y \<Longrightarrow> sc_phase x = SP_FAILED \<or> sc_phase x = SP_STOPPED \<Longrightarrow> sc_phase y = sc_phase x"
  by (auto simp: scout_moves_def scout_may_def scout_ended_def)

lemma scout_stays_ended:
  assumes "reachable s" and "store_step\<^sup>*\<^sup>* s t" and "scout_of k s = Some c"
    and "p = SP_FAILED \<or> p = SP_STOPPED" and "sc_phase c = p"
  shows "\<exists>c'. scout_of k t = Some c' \<and> sc_phase c' = p"
proof (rule scout_life.row_keeps [where P = "\<lambda>y. sc_phase y = p", OF desk_tables(2) [OF assms(2)] desk_keys(2) [OF assms(1)] assms(3,5)])
  show "sc_phase y = p" if "scout_moves x y" "sc_phase x = p" for x y
    using scout_moves_final [OF that(1)] that(2) assms(4) by simp
qed

lemma task_stays_ended:
  assumes "reachable s" and "store_step\<^sup>*\<^sup>* s t" and "fetch sk_id k (scout_tasks s) = Some x"
    and "p \<in> set task_ended" and "sk_phase x = p"
  shows "\<exists>x'. fetch sk_id k (scout_tasks t) = Some x' \<and> sk_phase x' = p"
proof (rule task_life.row_keeps [where P = "\<lambda>y. sk_phase y = p", OF desk_tables(3) [OF assms(2)] desk_keys(3) [OF assms(1)] assms(3,5)])
  show "sk_phase z = p" if "task_moves y z" "sk_phase y = p" for y z
    using that assms(4) by (auto simp: task_moves_def task_ended_def)
qed

end
