(* ===== verification/Demo.thy ===== *)
theory Demo
  imports System
begin

section \<open>Demo: a concrete history\<close>

text \<open>
  A small project with one ticket, its run and a story, on which the properties with
  hypotheses are instantiated. \<open>demo_env\<close> fixes the parameters of \<open>env\<close>: the hash is the
  identity, a ticket body has no evidence states, every criterion is read by a reviewer.
\<close>

definition demo_env :: env where
  "demo_env =
     \<lparr>clock = 1000, secrets = [''hunter2''], host_name = ''host'', process_id = 7, login = ''op'',
      acting = IC_OPERATOR, evidence_of = (\<lambda>_. []),
      witnesses_of = (\<lambda>texts _. map (\<lambda>_. (CW_REVIEWER_READ, None)) texts), sha256 = (\<lambda>t. t)\<rparr>"

definition demo_issue :: board_issue where
  "demo_issue =
     \<lparr>bi_issue = ''i1'', bi_ident = ''K-1'', bi_title = ''t'', bi_criteria = [''c''],
      bi_commands = [''make''], bi_time_box = None, bi_affinity = AF_ANY, bi_depends = None,
      bi_body = ''b'', bi_url = None, bi_board_state = Some ''Ready'', bi_priority = None,
      bi_labels = None, bi_column = Some BC_READY, bi_filed = None, bi_board_updated = None\<rparr>"

text \<open>The store of a result, \<open>empty_store\<close> when the call raised.\<close>

definition after :: "err + 'a \<times> store \<Rightarrow> store" where
  "after r = (case r of Inr (_, s) \<Rightarrow> s | Inl _ \<Rightarrow> empty_store)"

definition after' :: "err + store \<Rightarrow> store" where
  "after' r = (case r of Inr s \<Rightarrow> s | Inl _ \<Rightarrow> empty_store)"

definition demo0 :: store where
  "demo0 = empty_store\<lparr>projects := [new_project 1 ''team'' ''/repo'' ''main'' AP_PERSONAL]\<rparr>"

definition demo1 :: store where
  "demo1 = after (mirror_ticket demo_env 1 demo_issue None ''board'' demo0)"

definition demo2 :: store where
  "demo2 = after (claim demo_env 1 1 (Some 1) (Some 2) demo1)"

lemma demo0_fresh: "fresh_store demo0"
  by (simp add: fresh_store_def demo0_def)

lemma demo1_ok: "mirror_ticket demo_env 1 demo_issue None ''board'' demo0 = Inr (1, demo1)"
  by code_simp

lemma demo2_ok: "claim demo_env 1 1 (Some 1) (Some 2) demo1 = Inr (Some 1, demo2)"
  by code_simp

text \<open>The run works, fails in the work phase, is requeued, claimed again and merged.\<close>

definition demo3 :: store where
  "demo3 = after (set_phase demo_env 1 PH_WORKING None demo2)"

definition demo4 :: store where
  "demo4 = after' (release demo_env 1 OC_FAILED (Some ''verify failed'') CL_WORK None
     (Some FK_VERIFY) None None demo3)"

definition demo_gate :: store where
  "demo_gate = after (set_phase demo_env 1 PH_MERGE_GATE None demo2)"

definition demo_merged :: store where
  "demo_merged = after' (release demo_env 1 OC_MERGED None CL_WORK (Some ''sha'') None None None
     (after (walk_ticket 1 TS_IN_FLIGHT demo_gate)))"

definition demo_closed :: store where
  "demo_closed = after (walk_ticket 1 TS_MERGED demo_merged)"

definition demo_noted :: store where
  "demo_noted = snd (record_note demo_env 1 ''verdict'' ''merged'' (Some ''v'') ''factory'' None demo_closed)"

lemma demo3_ok: "set_phase demo_env 1 PH_WORKING None demo2 = Inr (PH_CLAIMED, demo3)"
  by code_simp

lemma demo4_ok: "release demo_env 1 OC_FAILED (Some ''verify failed'') CL_WORK None
     (Some FK_VERIFY) None None demo3 = Inr demo4"
  by code_simp

text \<open>The run parked on its pull request, and its approval.\<close>

definition demo_flight :: store where
  "demo_flight = after (walk_ticket 1 TS_IN_FLIGHT demo2)"

definition demo_parked :: store where
  "demo_parked = after (walk_ticket 1 TS_BLOCKED_ON_OPERATOR
     (after' (park demo_env 1 PH_AWAITING_MERGE_APPROVAL None (Some ''cand'') (Some ''url'') None None
        PK_PULL_REQUEST (after (set_phase demo_env 1 PH_MERGE_GATE None demo_flight)))))"

definition demo_approved :: store where
  "demo_approved = after (approve demo_env 1 ''ship it'' None demo_parked)"

lemma demo_approved_ok: "approve demo_env 1 ''ship it'' None demo_parked = Inr (1, demo_approved)"
  by code_simp

text \<open>The history is reachable.\<close>

lemma demo1_step: "store_step demo0 demo1"
  using demo1_ok by (rule store_step.mirror_ticket)

lemma demo2_step: "store_step demo1 demo2"
  using demo2_ok by (rule store_step.claim)

lemma demo2_reachable: "reachable demo2"
  unfolding reachable_def
  using demo0_fresh demo1_step demo2_step by (meson rtranclp.rtrancl_into_rtrancl rtranclp.rtrancl_refl)

lemma demo4_reachable: "reachable demo4"
proof -
  have "store_step demo2 demo3" "store_step demo3 demo4"
    using demo3_ok demo4_ok by (blast intro: store_step.set_phase store_step.release)+
  with demo2_reachable show ?thesis
    unfolding reachable_def by (meson rtranclp.rtrancl_into_rtrancl)
qed

text \<open>A run that fails on the working phase, its requeue and the second claim.\<close>

definition demo_failed :: store where
  "demo_failed = after' (release demo_env 1 OC_FAILED (Some ''verify failed'') CL_WORK None
     (Some FK_VERIFY) None None (after (set_phase demo_env 1 PH_WORKING None demo_flight)))"

definition demo_requeued :: store where
  "demo_requeued = after (requeue demo_env 1 ''try again'' IS_HUMAN False demo_failed)"

definition demo_again :: store where
  "demo_again = after (claim demo_env 1 1 (Some 1) None demo_requeued)"

lemma demo_history_ok:
  "walk_ticket 1 TS_IN_FLIGHT demo2 = Inr ([TS_IN_FLIGHT], demo_flight)"
  "set_phase demo_env 1 PH_WORKING None demo_flight = Inr (PH_CLAIMED, after (set_phase demo_env 1 PH_WORKING None demo_flight))"
  "release demo_env 1 OC_FAILED (Some ''verify failed'') CL_WORK None
     (Some FK_VERIFY) None None (after (set_phase demo_env 1 PH_WORKING None demo_flight)) = Inr demo_failed"
  "requeue demo_env 1 ''try again'' IS_HUMAN False demo_failed = Inr (1, demo_requeued)"
  "claim demo_env 1 1 (Some 1) None demo_requeued = Inr (Some 2, demo_again)"
  by code_simp+

lemma demo_again_reachable: "reachable demo_again"
proof -
  note steps = store_step.walk_ticket [OF demo_history_ok(1)] store_step.set_phase [OF demo_history_ok(2)]
    store_step.release [OF demo_history_ok(3)] store_step.requeue [OF demo_history_ok(4)]
    store_step.claim [OF demo_history_ok(5)]
  from demo2_reachable steps show ?thesis
    unfolding reachable_def by (meson rtranclp.rtrancl_into_rtrancl)
qed

text \<open>A run aborted with its pull request closed, struck, timed, and a loop restart.\<close>

definition demo_aborted :: store where
  "demo_aborted = after (abort demo_env 1 ''stop'' IS_HUMAN True IT_MANUAL None demo3)"

definition demo_aborted_twice :: store where
  "demo_aborted_twice = after (abort demo_env 1 ''stop again'' IS_HUMAN False IT_BOARD_CANCELLED None demo_aborted)"

lemma demo_aborted_twice_ok:
  "abort demo_env 1 ''stop again'' IS_HUMAN False IT_BOARD_CANCELLED None demo_aborted = Inr (2, demo_aborted_twice)"
  by code_simp

definition demo_struck :: store where
  "demo_struck = after (record_strike demo_env 1 True 500 demo3)"

definition demo_restarted :: store where
  "demo_restarted = snd (record_loop_restart demo_env 1 ''sha'' demo1)"

definition demo_timed :: store where
  "demo_timed = after (enter_working demo_env (Some 1) False [] demo2)"

lemma demo_timed_ok: "enter_working demo_env (Some 1) False [] demo2 = Inr ((Some 1, [1]), demo_timed)"
  by code_simp

lemma demo_park_ok:
  "set_phase demo_env 1 PH_MERGE_GATE None demo_flight =
     Inr (PH_CLAIMED, after (set_phase demo_env 1 PH_MERGE_GATE None demo_flight))"
  "park demo_env 1 PH_AWAITING_MERGE_APPROVAL None (Some ''cand'') (Some ''url'') None None PK_PULL_REQUEST
     (after (set_phase demo_env 1 PH_MERGE_GATE None demo_flight)) =
     Inr (after' (park demo_env 1 PH_AWAITING_MERGE_APPROVAL None (Some ''cand'') (Some ''url'') None None
        PK_PULL_REQUEST (after (set_phase demo_env 1 PH_MERGE_GATE None demo_flight))))"
  "walk_ticket 1 TS_BLOCKED_ON_OPERATOR
     (after' (park demo_env 1 PH_AWAITING_MERGE_APPROVAL None (Some ''cand'') (Some ''url'') None None
        PK_PULL_REQUEST (after (set_phase demo_env 1 PH_MERGE_GATE None demo_flight)))) =
     Inr ([TS_BLOCKED_ON_OPERATOR], demo_parked)"
  by code_simp+

lemma demo_parked_reachable: "reachable demo_parked"
proof -
  note steps = store_step.walk_ticket [OF demo_history_ok(1)] store_step.set_phase [OF demo_park_ok(1)]
    store_step.park [OF demo_park_ok(2)] store_step.walk_ticket [OF demo_park_ok(3)]
  from demo2_reachable steps show ?thesis
    unfolding reachable_def by (meson rtranclp.rtrancl_into_rtrancl)
qed

text \<open>Two findings in different files, and a retitled ticket.\<close>

definition demo_findings :: "finding list" where
  "demo_findings =
     map (\<lambda>(p, n, t).
         \<lparr>fd_key = \<lparr>fk_path = p, fk_severity = SEV_P1, fk_line = Some n\<rparr>, fd_print = None,
          fd_message = t, fd_evidence_only = False\<rparr>)
       [(''a.py'', 3, ''x''), (''b.py'', 40, ''y'')]"

definition demo_retitled :: store where
  "demo_retitled = after (record_board_fields demo_env 1 ''op''
     (upd_ticket 1 (\<lambda>t. t\<lparr>t_title := ''new title''\<rparr>) demo1))"

subsection \<open>A story of two children\<close>

definition demo_child :: "string \<Rightarrow> string \<Rightarrow> string list \<Rightarrow> board_issue" where
  "demo_child issue ident deps =
     demo_issue\<lparr>bi_issue := issue, bi_ident := ident, bi_depends := Some deps\<rparr>"

definition demo_tickets :: store where
  "demo_tickets =
     after (mirror_ticket demo_env 1 (demo_child ''i3'' ''K-3'' [''i2'']) None ''board''
       (after (mirror_ticket demo_env 1 (demo_child ''i2'' ''K-2'' []) None ''board'' demo1)))"

definition demo_filed :: store where
  "demo_filed = after' (file_story demo_env 1
     [\<lparr>nw_key = ''w'', nw_criterion = ''it works'', nw_file = ''test_w.py'', nw_command = ''pytest'',
       nw_source = ''def test(): pass''\<rparr>]
     [(2, CR_COMPLETES, [''w'']), (3, CR_SCAFFOLDING, [])] [] [] demo_tickets)"

definition demo_open :: store where
  "demo_open = after (approve_story demo_env 1 1 ''op'' ''go'' demo_filed)"

definition demo_asked :: store where
  "demo_asked = after (park_story demo_env 1 DK_UNMET ''which way?'' [''left'', ''right''] ''left'' (Some 2) demo_open)"

definition demo_left :: store where
  "demo_left = after (answer_decision demo_env 1 ''left'' ''op'' ''left it is'' demo_asked)"

definition demo_dropped :: store where
  "demo_dropped = after' (abandon_story demo_env 1 ''not worth it'' ''op'' demo_open)"

lemma demo_tickets_ok:
  "mirror_ticket demo_env 1 (demo_child ''i3'' ''K-3'' [''i2'']) None ''board''
     (after (mirror_ticket demo_env 1 (demo_child ''i2'' ''K-2'' []) None ''board'' demo1)) = Inr (3, demo_tickets)"
  "mirror_ticket demo_env 1 (demo_child ''i2'' ''K-2'' []) None ''board'' demo1 =
     Inr (2, after (mirror_ticket demo_env 1 (demo_child ''i2'' ''K-2'' []) None ''board'' demo1))"
  by code_simp+

lemma demo_open_ok: "approve_story demo_env 1 1 ''op'' ''go'' demo_filed = Inr (1, demo_open)"
  by code_simp

lemma demo_filed_ok: "file_story demo_env 1
     [\<lparr>nw_key = ''w'', nw_criterion = ''it works'', nw_file = ''test_w.py'', nw_command = ''pytest'',
       nw_source = ''def test(): pass''\<rparr>]
     [(2, CR_COMPLETES, [''w'']), (3, CR_SCAFFOLDING, [])] [] [] demo_tickets = Inr demo_filed"
  by code_simp

lemma demo_dropped_ok: "abandon_story demo_env 1 ''not worth it'' ''op'' demo_open = Inr demo_dropped"
  by code_simp

lemma demo_open_reachable: "reachable demo_open"
proof -
  have "store_step demo1 (after (mirror_ticket demo_env 1 (demo_child ''i2'' ''K-2'' []) None ''board'' demo1))"
    using demo_tickets_ok(2) by (rule store_step.mirror_ticket)
  moreover have "store_step (after (mirror_ticket demo_env 1 (demo_child ''i2'' ''K-2'' []) None ''board'' demo1)) demo_tickets"
    using demo_tickets_ok(1) by (rule store_step.mirror_ticket)
  moreover have "store_step demo_tickets demo_filed"
    using demo_filed_ok by (rule store_step.file_story)
  moreover have "store_step demo_filed demo_open"
    using demo_open_ok by (rule store_step.approve_story)
  ultimately show ?thesis
    unfolding reachable_def using demo0_fresh demo1_step
    by (meson converse_rtranclp_into_rtranclp rtranclp.rtrancl_refl)
qed

text \<open>The merged ticket and the abandoned story move no further.\<close>

lemma demo_closed_ok: "walk_ticket 1 TS_MERGED demo_merged = Inr ([TS_MERGED], demo_closed)"
  by code_simp

subsection \<open>The desk: a firing, a scout with a question, a ticket that waits\<close>

definition demo_leased :: store where
  "demo_leased = after (reserve_firing demo_env 1 ''requeue'' 1 ''run'' ''failed'' FM_ACT ''why'' []
     (Some 2000) None demo0)"

definition demo_settled :: store where
  "demo_settled = after (settle_firing demo_env 1 None FS_CONFIRMED ''done'' None demo_leased)"

lemma demo_firing_ok:
  "reserve_firing demo_env 1 ''requeue'' 1 ''run'' ''failed'' FM_ACT ''why'' [] (Some 2000) None demo0
     = Inr (Some 1, demo_leased)"
  "settle_firing demo_env 1 None FS_CONFIRMED ''done'' None demo_leased = Inr (True, demo_settled)"
  by code_simp+

definition demo_ask :: new_scout where
  "demo_ask = \<lparr>ns_kind = SC_BUG, ns_links = [], ns_lead_route = None, ns_helper_route = None, ns_swarm = None,
     ns_helper_turns = None, ns_waves = None, ns_budget = 30, ns_subject = None\<rparr>"

definition demo_scout :: store where
  "demo_scout = after (create_scout demo_env 1 ''why does it fail'' demo_ask demo0)"

definition demo_failed_scout :: store where
  "demo_failed_scout = after' (end_scout demo_env (\<lambda>_. None) 1 SP_FAILED ''no reply'' None demo_scout)"

definition demo_scouted :: store where
  "demo_scouted = after' (end_scout demo_env (\<lambda>_. None) 1 SP_DONE ''reported'' None demo_scout)"

definition demo_question :: store where
  "demo_question = after (post_message demo_env 1 ''op'' TM_ASK ''which file'' [] None demo_scouted)"

lemma demo_scout_ok:
  "create_scout demo_env 1 ''why does it fail'' demo_ask demo0 = Inr (1, demo_scout)"
  "end_scout demo_env (\<lambda>_. None) 1 SP_FAILED ''no reply'' None demo_scout = Inr demo_failed_scout"
  "end_scout demo_env (\<lambda>_. None) 1 SP_DONE ''reported'' None demo_scout = Inr demo_scouted"
  "post_message demo_env 1 ''op'' TM_ASK ''which file'' [] None demo_scouted = Inr (1, demo_question)"
  by code_simp+

lemma demo0_reachable: "reachable demo0"
  unfolding reachable_def using demo0_fresh by blast

lemma reachable_more: "reachable s \<Longrightarrow> store_step s t \<Longrightarrow> reachable t"
  unfolding reachable_def by (meson rtranclp.rtrancl_into_rtrancl)

lemma demo_settled_reachable: "reachable demo_leased" "reachable demo_settled"
  using demo0_reachable demo_firing_ok
  by (meson reachable_more store_step.reserve_firing store_step.settle_firing)+

lemma demo_scout_reachable: "reachable demo_scout" "reachable demo_failed_scout" "reachable demo_question"
  using demo0_reachable demo_scout_ok
  by (meson reachable_more store_step.create_scout store_step.end_scout store_step.post_message)+

text \<open>A ticket that waits for the first one, which is merged.\<close>

definition demo_second :: store where
  "demo_second = after (mirror_ticket demo_env 1 (demo_child ''i2'' ''K-2'' [''i1'']) None ''board'' demo_closed)"

definition demo_waiting :: store where
  "demo_waiting = after (transition 2 TS_BLOCKED_ON_DEPS demo_second)"

lemma demo_waiting_ok:
  "mirror_ticket demo_env 1 (demo_child ''i2'' ''K-2'' [''i1'']) None ''board'' demo_closed = Inr (2, demo_second)"
  "transition 2 TS_BLOCKED_ON_DEPS demo_second = Inr (TS_READY, demo_waiting)"
  by code_simp+

lemma demo_merged_ok:
  "set_phase demo_env 1 PH_MERGE_GATE None demo2 = Inr (PH_CLAIMED, demo_gate)"
  "walk_ticket 1 TS_IN_FLIGHT demo_gate = Inr ([TS_IN_FLIGHT], after (walk_ticket 1 TS_IN_FLIGHT demo_gate))"
  "release demo_env 1 OC_MERGED None CL_WORK (Some ''sha'') None None None
     (after (walk_ticket 1 TS_IN_FLIGHT demo_gate)) = Inr demo_merged"
  by code_simp+

lemma demo_waiting_reachable: "reachable demo_waiting"
proof -
  have "reachable demo_merged"
    using demo2_reachable demo_merged_ok
    by (meson reachable_more store_step.set_phase store_step.walk_ticket store_step.release)
  then show ?thesis
    using demo_closed_ok demo_waiting_ok
    by (meson reachable_more store_step.walk_ticket store_step.mirror_ticket store_step.transition)
qed

end
