(* ===== verification/StoryGraph.thy ===== *)
theory StoryGraph
  imports Text
begin

section \<open>StoryGraph: cycles and ancestors in the children of a story\<close>

text \<open>
  \<^verbatim>\<open>_cycle\<close> and \<^verbatim>\<open>_ancestors\<close> of \<^verbatim>\<open>holophyte/tickets/story_template.py\<close>: a depth-first search that
  returns the first cycle it closes, and the work list that collects what a slug depends on.
  Edges are a dictionary from a slug to its dependencies. A slug that is no key has none (the
  code only asks for keys).

  The lemmas: the search returns a cycle exactly when there is one; the ancestors are exactly the
  slugs reachable by dependencies.
\<close>

type_synonym slug_edges = "(string \<times> string list) list"

definition deps_of :: "slug_edges \<Rightarrow> string \<Rightarrow> string list" where
  "deps_of edges slug = (case map_of edges slug of None \<Rightarrow> [] | Some ds \<Rightarrow> ds)"

definition depends_rel :: "slug_edges \<Rightarrow> (string \<times> string) set" where
  "depends_rel edges = {(x, y). y \<in> set (deps_of edges x)}"

lemma depends_rel_iff [simp]: "(x, y) \<in> depends_rel edges \<longleftrightarrow> y \<in> set (deps_of edges x)"
  by (simp add: depends_rel_def)

lemma deps_of_key: "deps_of edges x \<noteq> [] \<Longrightarrow> x \<in> set (map fst edges)"
  using map_of_eq_None_iff [of edges x] by (auto simp: deps_of_def split: option.splits)

subsection \<open>The search\<close>

datatype mark = Open | Closed

text \<open>
  \<open>visit edges path deps st\<close> is the loop of \<^verbatim>\<open>visit(path)\<close> over what is left of the
  dependencies of the last slug of \<open>path\<close>; the nested call opens the dependency first.
\<close>

function visit ::
    "slug_edges \<Rightarrow> string list \<Rightarrow> string list \<Rightarrow> (string \<rightharpoonup> mark) \<Rightarrow> string list option \<times> (string \<rightharpoonup> mark)" where
  "visit edges path [] st = (None, st)"
| "visit edges path (dep # deps) st =
     (case st dep of
        Some Open \<Rightarrow> (Some (dropWhile (\<lambda>x. x \<noteq> dep) path @ [dep]), st)
      | Some Closed \<Rightarrow> visit edges path deps st
      | None \<Rightarrow>
          (case visit edges (path @ [dep]) (deps_of edges dep) (st(dep \<mapsto> Open)) of
             (Some found, st') \<Rightarrow> (Some found, st')
           | (None, st') \<Rightarrow> visit edges path deps (st'(dep \<mapsto> Closed))))"
  by pat_completeness auto

lemma visit_marks:
  assumes "visit_dom (edges, path, deps, st)"
  shows "dom st \<subseteq> dom (snd (visit edges path deps st))"
  using assms
proof (induction rule: visit.pinduct)
  case (2 edges path dep deps st)
  show ?case
  proof (cases "st dep")
    case None
    obtain found st' where v: "visit edges (path @ [dep]) (deps_of edges dep) (st(dep \<mapsto> Open)) = (found, st')"
      by (cases "visit edges (path @ [dep]) (deps_of edges dep) (st(dep \<mapsto> Open))")
    have "dom (st(dep \<mapsto> Open)) \<subseteq> dom st'" using 2(2) [OF None] unfolding v snd_conv .
    then have "dom st \<subseteq> dom st'" by auto
    moreover have "dom (st'(dep \<mapsto> Closed)) \<subseteq> dom (snd (visit edges path deps (st'(dep \<mapsto> Closed))))"
      if "found = None" using 2(3) [OF None v [symmetric] that] .
    ultimately show ?thesis using v None 2(1) by (cases found) (auto simp: visit.psimps)
  next
    case (Some m)
    then show ?thesis using 2 by (cases m) (auto simp: visit.psimps)
  qed
qed (simp add: visit.psimps)

abbreviation unmarked :: "slug_edges \<Rightarrow> (string \<rightharpoonup> mark) \<Rightarrow> string set" where
  "unmarked edges st \<equiv> set (map fst edges) - dom st"

termination visit
proof (relation "measures [\<lambda>(edges, path, deps, st). card (unmarked edges st), \<lambda>(edges, path, deps, st). length deps]")
  fix edges :: slug_edges and path and dep :: string and deps and st :: "string \<rightharpoonup> mark"
  assume none: "st dep = None"
  let ?m = "measures [\<lambda>(edges :: slug_edges, path :: string list, deps, st :: string \<rightharpoonup> mark). card (unmarked edges st),
    \<lambda>(edges, path, deps :: string list, st). length deps]"
  show "((edges, path @ [dep], deps_of edges dep, st(dep \<mapsto> Open)), (edges, path, dep # deps, st)) \<in> ?m"
  proof (cases "dep \<in> set (map fst edges)")
    case True
    then have "card (unmarked edges (st(dep \<mapsto> Open))) < card (unmarked edges st)"
      using none by (intro psubset_card_mono) auto
    then show ?thesis by simp
  next
    case False
    then have "unmarked edges (st(dep \<mapsto> Open)) = unmarked edges st" by auto
    moreover have "deps_of edges dep = []" using deps_of_key False by blast
    ultimately show ?thesis by simp
  qed
next
  fix edges :: slug_edges and path and dep :: string and deps and st :: "string \<rightharpoonup> mark" and found st'
  assume none: "st dep = None"
    and v: "(found, st') = visit edges (path @ [dep]) (deps_of edges dep) (st(dep \<mapsto> Open))"
    and "found = None"
    and d: "visit_dom (edges, path @ [dep], deps_of edges dep, st(dep \<mapsto> Open))"
  have "dom st \<subseteq> dom (st'(dep \<mapsto> Closed))"
    using visit_marks [OF d, folded v] by auto
  then have "card (unmarked edges (st'(dep \<mapsto> Closed))) \<le> card (unmarked edges st)"
    by (intro card_mono) auto
  then have "card (unmarked edges (st'(dep \<mapsto> Closed))) < card (unmarked edges st)
      \<or> card (unmarked edges (st'(dep \<mapsto> Closed))) = card (unmarked edges st)"
    by (simp add: le_eq_less_or_eq)
  then show "((edges, path, deps, st'(dep \<mapsto> Closed)), (edges, path, dep # deps, st)) \<in>
    measures [\<lambda>(edges, path, deps, st). card (unmarked edges st), \<lambda>(edges, path, deps, st). length deps]"
    by simp
qed simp_all

text \<open>The loop over the slugs.\<close>

fun cycle_from :: "slug_edges \<Rightarrow> string list \<Rightarrow> (string \<rightharpoonup> mark) \<Rightarrow> string list option" where
  "cycle_from edges [] st = None"
| "cycle_from edges (slug # slugs) st =
     (if st slug \<noteq> None then cycle_from edges slugs st
      else (case visit edges [slug] (deps_of edges slug) (st(slug \<mapsto> Open)) of
              (Some found, _) \<Rightarrow> Some found
            | (None, st') \<Rightarrow> cycle_from edges slugs (st'(slug \<mapsto> Closed))))"

definition story_cycle :: "slug_edges \<Rightarrow> string list option" where
  "story_cycle edges = cycle_from edges (map fst edges) (\<lambda>_. None)"

subsection \<open>The search is right\<close>

definition is_cycle :: "slug_edges \<Rightarrow> string list \<Rightarrow> bool" where
  "is_cycle edges c \<longleftrightarrow>
     2 \<le> length c \<and> hd c = last c \<and> successively (\<lambda>x y. y \<in> set (deps_of edges x)) c"

lemma successively_reach:
  assumes "successively (\<lambda>x y. y \<in> set (deps_of edges x)) (x # ys)" and "ys \<noteq> []"
  shows "(x, last ys) \<in> (depends_rel edges)\<^sup>+"
  using assms
proof (induction ys arbitrary: x)
  case (Cons y ys)
  have step: "(x, y) \<in> depends_rel edges" using Cons.prems(1) by simp
  show ?case
  proof (cases "ys = []")
    case True
    then show ?thesis using step by auto
  next
    case False
    then have "(y, last ys) \<in> (depends_rel edges)\<^sup>+"
      using Cons.IH [of y] Cons.prems(1) by simp
    then show ?thesis using step False by (auto intro: trancl_into_trancl2)
  qed
qed simp

lemma is_cycle_not_acyclic: "is_cycle edges c \<Longrightarrow> \<not> acyclic (depends_rel edges)"
proof -
  assume c: "is_cycle edges c"
  then obtain x ys where "c = x # ys" "ys \<noteq> []"
    by (cases c; cases "tl c") (auto simp: is_cycle_def)
  then show ?thesis using c successively_reach [of edges x ys] by (auto simp: is_cycle_def acyclic_def)
qed

text \<open>The marks a search that found nothing leaves.\<close>

lemma visit_keeps:
  assumes "visit edges path deps st = (None, st')" and "st x \<noteq> None"
  shows "st' x = st x"
  using assms
proof (induction edges path deps st arbitrary: st' rule: visit.induct)
  case (2 edges path dep deps st)
  show ?case
  proof (cases "st dep")
    case None
    then obtain st'' where v: "visit edges (path @ [dep]) (deps_of edges dep) (st(dep \<mapsto> Open)) = (None, st'')"
      and w: "visit edges path deps (st''(dep \<mapsto> Closed)) = (None, st')"
      using 2(4) by (auto split: prod.splits option.splits)
    have "x \<noteq> dep" using None 2(5) by auto
    then have "st'' x = st x" using 2(1) [OF None v] 2(5) by simp
    then show ?thesis using 2(2) [OF None v [symmetric] refl w] \<open>x \<noteq> dep\<close> 2(5) by simp
  next
    case (Some m)
    then show ?thesis using 2 by (cases m) auto
  qed
qed simp

lemma visit_opens:
  assumes "visit edges path deps st = (None, st')" and "st' x = Some Open"
  shows "st x = Some Open"
  using assms
proof (induction edges path deps st arbitrary: st' rule: visit.induct)
  case (2 edges path dep deps st)
  show ?case
  proof (cases "st dep")
    case None
    then obtain st'' where v: "visit edges (path @ [dep]) (deps_of edges dep) (st(dep \<mapsto> Open)) = (None, st'')"
      and w: "visit edges path deps (st''(dep \<mapsto> Closed)) = (None, st')"
      using 2(4) by (auto split: prod.splits option.splits)
    have "(st''(dep \<mapsto> Closed)) x = Some Open" using 2(2) [OF None v [symmetric] refl w 2(5)] .
    then have "x \<noteq> dep" "st'' x = Some Open" by (auto split: if_split_asm)
    then show ?thesis using 2(1) [OF None v] by auto
  next
    case (Some m)
    then show ?thesis using 2 by (cases m) auto
  qed
qed simp

definition closed_marks :: "slug_edges \<Rightarrow> (string \<rightharpoonup> mark) \<Rightarrow> bool" where
  "closed_marks edges st \<longleftrightarrow>
     (\<forall>x. st x = Some Closed \<longrightarrow>
        (\<forall>y \<in> set (deps_of edges x). st y = Some Closed) \<and> (x, x) \<notin> (depends_rel edges)\<^sup>+)"

lemma closed_marks_reach:
  assumes "closed_marks edges st" and "(x, y) \<in> (depends_rel edges)\<^sup>+" and "st x = Some Closed"
  shows "st y = Some Closed"
  using assms(2,3)
proof (induction rule: trancl_induct)
  case (base y)
  then show ?case using assms(1) by (auto simp: closed_marks_def)
next
  case (step y z)
  then show ?case using assms(1) by (auto simp: closed_marks_def)
qed

lemma closed_marks_close:
  assumes m: "closed_marks edges st" and o: "st dep = Some Open"
    and deps: "\<forall>d \<in> set (deps_of edges dep). st d = Some Closed"
  shows "closed_marks edges (st(dep \<mapsto> Closed))"
proof -
  have "(dep, dep) \<notin> (depends_rel edges)\<^sup>+"
  proof
    assume "(dep, dep) \<in> (depends_rel edges)\<^sup>+"
    then obtain d where d: "d \<in> set (deps_of edges dep)" "(d, dep) \<in> (depends_rel edges)\<^sup>*"
      by (auto dest: tranclD)
    then have "d = dep \<or> (d, dep) \<in> (depends_rel edges)\<^sup>+" by (auto simp: rtrancl_eq_or_trancl)
    then have "st dep = Some Closed" using deps d(1) closed_marks_reach [OF m] by auto
    with o show False by simp
  qed
  then show ?thesis using m deps by (auto simp: closed_marks_def)
qed

lemma visit_none:
  assumes "visit edges path deps st = (None, st')" and "closed_marks edges st"
  shows "closed_marks edges st' \<and> (\<forall>d \<in> set deps. st' d = Some Closed)"
  using assms
proof (induction edges path deps st arbitrary: st' rule: visit.induct)
  case (2 edges path dep deps st)
  show ?case
  proof (cases "st dep")
    case None
    then obtain st'' where v: "visit edges (path @ [dep]) (deps_of edges dep) (st(dep \<mapsto> Open)) = (None, st'')"
      and w: "visit edges path deps (st''(dep \<mapsto> Closed)) = (None, st')"
      using 2(4) by (auto split: prod.splits option.splits)
    have opened: "closed_marks edges (st(dep \<mapsto> Open))" using 2(5) None by (auto simp: closed_marks_def)
    from 2(1) [OF None v opened]
    have inner: "closed_marks edges st''" "\<forall>d \<in> set (deps_of edges dep). st'' d = Some Closed"
      by blast+
    have "st'' dep = Some Open" using visit_keeps [OF v, of dep] by simp
    then have "closed_marks edges (st''(dep \<mapsto> Closed))" using closed_marks_close inner by blast
    then have "closed_marks edges st' \<and> (\<forall>d \<in> set deps. st' d = Some Closed)"
      using 2(2) [OF None v [symmetric] refl w] by blast
    moreover have "st' dep = Some Closed" using visit_keeps [OF w, of dep] by simp
    ultimately show ?thesis by simp
  next
    case (Some m)
    then have c: "m = Closed" "visit edges path deps st = (None, st')" using 2(4) by (cases m; simp)+
    then have "closed_marks edges st' \<and> (\<forall>d \<in> set deps. st' d = Some Closed)"
      using 2(3) [OF _ _ _ 2(5)] Some by auto
    moreover have "st' dep = Some Closed" using visit_keeps [OF c(2), of dep] Some c(1) by simp
    ultimately show ?thesis by simp
  qed
qed simp

lemma visit_some:
  assumes "visit edges path deps st = (Some c, st')"
    and "path \<noteq> []" and "successively (\<lambda>x y. y \<in> set (deps_of edges x)) path"
    and "set deps \<subseteq> set (deps_of edges (last path))"
    and "\<forall>x. st x = Some Open \<longrightarrow> x \<in> set path"
  shows "is_cycle edges c"
  using assms
proof (induction edges path deps st arbitrary: st' rule: visit.induct)
  case (2 edges path dep deps st)
  show ?case
  proof (cases "st dep")
    case None
    let ?v = "visit edges (path @ [dep]) (deps_of edges dep) (st(dep \<mapsto> Open))"
    have longer: "path @ [dep] \<noteq> []" "successively (\<lambda>x y. y \<in> set (deps_of edges x)) (path @ [dep])"
      "set (deps_of edges dep) \<subseteq> set (deps_of edges (last (path @ [dep])))"
      "\<forall>x. (st(dep \<mapsto> Open)) x = Some Open \<longrightarrow> x \<in> set (path @ [dep])"
      using 2(5-8) by (auto simp: successively_append_iff)
    obtain found st'' where v: "?v = (found, st'')" by (cases ?v)
    show ?thesis
    proof (cases found)
      case None': None
      then have w: "visit edges path deps (st''(dep \<mapsto> Closed)) = (Some c, st')"
        using 2(4) None v by simp
      have "(st''(dep \<mapsto> Closed)) x = Some Open \<longrightarrow> x \<in> set path" for x
        using visit_opens [OF v [unfolded None'], of x] 2(8) by (cases "x = dep") auto
      then show ?thesis using 2(2) [OF None v [symmetric] None' w 2(5,6)] 2(7) by simp
    next
      case (Some c')
      then have v': "?v = (Some c, st'')" using 2(4) None v by simp
      show ?thesis by (rule 2(1) [OF None v' longer])
    qed
  next
    case (Some m)
    show ?thesis
    proof (cases m)
      case Closed
      then show ?thesis using 2(3) [OF _ _ _ 2(5,6)] Some 2(4,7,8) by simp
    next
      case Open
      then have c: "c = dropWhile (\<lambda>x. x \<noteq> dep) path @ [dep]" and "dep \<in> set path"
        using 2(4,8) Some by auto
      let ?rest = "dropWhile (\<lambda>x. x \<noteq> dep) path"
      have ne: "?rest \<noteq> []" using \<open>dep \<in> set path\<close> by auto
      then have "hd ?rest = dep" using hd_dropWhile [OF ne] by simp
      moreover have "last ?rest = last path" using ne by (metis dropWhile_eq_drop last_drop drop_eq_Nil not_le)
      moreover have "successively (\<lambda>x y. y \<in> set (deps_of edges x)) ?rest"
        using 2(6) by (metis successively_append_iff takeWhile_dropWhile_id)
      ultimately show ?thesis
        using ne 2(7) by (auto simp: c is_cycle_def successively_append_iff Suc_le_eq)
    qed
  qed
qed simp

lemma cycle_from_some:
  assumes "cycle_from edges slugs st = Some c" and "\<forall>x. st x \<noteq> Some Open"
  shows "is_cycle edges c"
  using assms
proof (induction slugs arbitrary: st)
  case (Cons slug slugs)
  show ?case
  proof (cases "st slug")
    case None
    let ?v = "visit edges [slug] (deps_of edges slug) (st(slug \<mapsto> Open))"
    obtain found st' where v: "?v = (found, st')" by (cases ?v)
    show ?thesis
    proof (cases found)
      case None': None
      have "(st'(slug \<mapsto> Closed)) x \<noteq> Some Open" for x
        using visit_opens [OF v [unfolded None'], of x] Cons.prems(2) by (cases "x = slug") auto
      then show ?thesis using Cons None None' v by simp
    next
      case (Some c')
      then show ?thesis using visit_some [of edges "[slug]" _ _ c st'] v None Cons.prems
        by (auto split: if_split_asm)
    qed
  qed (use Cons in simp)
qed simp

lemma cycle_from_none:
  assumes "cycle_from edges slugs st = None" and "\<forall>x. st x \<noteq> Some Open" and "closed_marks edges st"
  shows "\<exists>st'. closed_marks edges st' \<and> (\<forall>x. st x \<noteq> None \<longrightarrow> st' x \<noteq> None) \<and> (\<forall>x \<in> set slugs. st' x \<noteq> None)
    \<and> (\<forall>x. st' x \<noteq> Some Open)"
  using assms
proof (induction slugs arbitrary: st)
  case (Cons slug slugs)
  show ?case
  proof (cases "st slug")
    case None
    then obtain st' where v: "visit edges [slug] (deps_of edges slug) (st(slug \<mapsto> Open)) = (None, st')"
      and w: "cycle_from edges slugs (st'(slug \<mapsto> Closed)) = None"
      using Cons.prems(1) by (auto split: prod.splits option.splits)
    have "closed_marks edges (st(slug \<mapsto> Open))" using Cons.prems(3) None by (auto simp: closed_marks_def)
    then have "closed_marks edges st'" "\<forall>d \<in> set (deps_of edges slug). st' d = Some Closed"
      using visit_none [OF v] by auto
    moreover have "st' slug = Some Open" using visit_keeps [OF v, of slug] by simp
    ultimately have m: "closed_marks edges (st'(slug \<mapsto> Closed))" using closed_marks_close by blast
    have "(st'(slug \<mapsto> Closed)) x \<noteq> Some Open" for x
      using visit_opens [OF v, of x] Cons.prems(2) by (cases "x = slug") auto
    then obtain st'' where s: "closed_marks edges st''" "\<forall>x \<in> set slugs. st'' x \<noteq> None" "\<forall>x. st'' x \<noteq> Some Open"
      and kept: "\<forall>x. (st'(slug \<mapsto> Closed)) x \<noteq> None \<longrightarrow> st'' x \<noteq> None"
      using Cons.IH [OF w _ m] by blast
    have "st'' x \<noteq> None" if "st x \<noteq> None \<or> x = slug" for x
    proof -
      have "(st'(slug \<mapsto> Closed)) x \<noteq> None"
        using that visit_keeps [OF v, of x] by (cases "x = slug") auto
      then show ?thesis using kept by blast
    qed
    then show ?thesis using s by (intro exI [of _ st'']) auto
  next
    case (Some m)
    then have w: "cycle_from edges slugs st = None" using Cons.prems(1) by simp
    obtain st' where s: "closed_marks edges st'" "\<forall>x. st x \<noteq> None \<longrightarrow> st' x \<noteq> None"
        "\<forall>x \<in> set slugs. st' x \<noteq> None" "\<forall>x. st' x \<noteq> Some Open"
      using Cons.IH [OF w Cons.prems(2,3)] by blast
    then show ?thesis using Some by (intro exI [of _ st']) auto
  qed
qed auto

lemma story_cycle_some: "story_cycle edges = Some c \<Longrightarrow> is_cycle edges c"
  using cycle_from_some [of edges "map fst edges" "\<lambda>_. None" c] by (simp add: story_cycle_def)

lemma story_cycle_none_iff: "story_cycle edges = None \<longleftrightarrow> acyclic (depends_rel edges)"
proof
  assume "story_cycle edges = None"
  then obtain st where st: "closed_marks edges st" "\<forall>x \<in> set (map fst edges). st x \<noteq> None" "\<forall>x. st x \<noteq> Some Open"
    using cycle_from_none [of edges "map fst edges" "\<lambda>_. None"] by (auto simp: story_cycle_def closed_marks_def)
  show "acyclic (depends_rel edges)"
    unfolding acyclic_def
  proof (intro allI notI)
    fix x
    assume loop: "(x, x) \<in> (depends_rel edges)\<^sup>+"
    then have "deps_of edges x \<noteq> []" by (auto dest!: tranclD)
    then have "st x \<noteq> None" using st(2) deps_of_key by blast
    then have "st x = Some Closed" using st(3) by (metis mark.exhaust not_None_eq)
    then show False using st(1) loop by (auto simp: closed_marks_def)
  qed
next
  assume "acyclic (depends_rel edges)"
  then show "story_cycle edges = None"
    using story_cycle_some is_cycle_not_acyclic by (cases "story_cycle edges") auto
qed

subsection \<open>Ancestors\<close>

text \<open>The stack is held with its top first.\<close>

function ancestors_from :: "slug_edges \<Rightarrow> string list \<Rightarrow> string list \<Rightarrow> string list" where
  "ancestors_from edges seen [] = seen"
| "ancestors_from edges seen (dep # stack) =
     (if dep \<in> set seen then ancestors_from edges seen stack
      else ancestors_from edges (dep # seen) (rev (deps_of edges dep) @ stack))"
  by pat_completeness auto
termination
proof (relation "measures [\<lambda>(edges, seen, stack). card (set (map fst edges) - set seen),
    \<lambda>(edges, seen, stack). length stack]")
  fix edges :: slug_edges and seen and dep :: string and stack
  assume "dep \<notin> set seen"
  show "((edges, dep # seen, rev (deps_of edges dep) @ stack), (edges, seen, dep # stack)) \<in>
    measures [\<lambda>(edges, seen, stack). card (set (map fst edges) - set seen), \<lambda>(edges, seen, stack). length stack]"
  proof (cases "dep \<in> set (map fst edges)")
    case True
    then have "card (set (map fst edges) - set (dep # seen)) < card (set (map fst edges) - set seen)"
      using \<open>dep \<notin> set seen\<close> by (intro psubset_card_mono) auto
    then show ?thesis by simp
  next
    case False
    then have "set (map fst edges) - set (dep # seen) = set (map fst edges) - set seen" by auto
    moreover have "deps_of edges dep = []" using deps_of_key False by blast
    ultimately show ?thesis by simp
  qed
qed simp_all

definition ancestors :: "string \<Rightarrow> slug_edges \<Rightarrow> string list" where
  "ancestors slug edges = ancestors_from edges [] (rev (deps_of edges slug))"

lemma ancestors_from_reach:
  "set (ancestors_from edges seen stack) \<subseteq> (depends_rel edges)\<^sup>* `` (set seen \<union> set stack)"
proof (induction edges seen stack rule: ancestors_from.induct)
  case (2 edges seen dep stack)
  have "(depends_rel edges)\<^sup>* `` set (deps_of edges dep) \<subseteq> (depends_rel edges)\<^sup>* `` {dep}"
    by (auto intro: converse_rtrancl_into_rtrancl)
  then have "(depends_rel edges)\<^sup>* `` (set (dep # seen) \<union> set (rev (deps_of edges dep) @ stack))
      \<subseteq> (depends_rel edges)\<^sup>* `` (set seen \<union> set (dep # stack))"
    by (simp only: set_append set_rev list.set Image_Un) blast
  moreover have "(depends_rel edges)\<^sup>* `` (set seen \<union> set stack) \<subseteq> (depends_rel edges)\<^sup>* `` (set seen \<union> set (dep # stack))"
    by auto
  ultimately show ?case
    using 2 by (cases "dep \<in> set seen") (simp only: ancestors_from.simps if_True if_False, blast)+
qed auto

lemma ancestors_from_closed:
  assumes "\<forall>x \<in> set seen. set (deps_of edges x) \<subseteq> set seen \<union> set stack"
  shows "set seen \<union> set stack \<subseteq> set (ancestors_from edges seen stack)
    \<and> (\<forall>x \<in> set (ancestors_from edges seen stack). set (deps_of edges x) \<subseteq> set (ancestors_from edges seen stack))"
  using assms
proof (induction edges seen stack rule: ancestors_from.induct)
  case (2 edges seen dep stack)
  show ?case
  proof (cases "dep \<in> set seen")
    case True
    then show ?thesis using 2(1) [OF True] 2(3) by auto
  next
    case False
    have "\<forall>x \<in> set (dep # seen). set (deps_of edges x) \<subseteq> set (dep # seen) \<union> set (rev (deps_of edges dep) @ stack)"
      using 2(3) by auto
    from 2(2) [OF False this] show ?thesis using False by auto
  qed
qed simp

lemma ancestors_exact: "set (ancestors slug edges) = {y. (slug, y) \<in> (depends_rel edges)\<^sup>+}"
proof
  show "set (ancestors slug edges) \<subseteq> {y. (slug, y) \<in> (depends_rel edges)\<^sup>+}"
  proof
    fix y
    assume "y \<in> set (ancestors slug edges)"
    then obtain d where "d \<in> set (deps_of edges slug)" "(d, y) \<in> (depends_rel edges)\<^sup>*"
      using ancestors_from_reach [of edges "[]" "rev (deps_of edges slug)"] by (auto simp: ancestors_def)
    then show "y \<in> {y. (slug, y) \<in> (depends_rel edges)\<^sup>+}" by (auto intro: rtrancl_into_trancl2)
  qed
  have c: "set (deps_of edges slug) \<subseteq> set (ancestors slug edges)"
    "\<forall>x \<in> set (ancestors slug edges). set (deps_of edges x) \<subseteq> set (ancestors slug edges)"
    using ancestors_from_closed [of "[]" edges "rev (deps_of edges slug)"] by (auto simp: ancestors_def)
  have "y \<in> set (ancestors slug edges)" if "(slug, y) \<in> (depends_rel edges)\<^sup>+" for y
    using that by (induction rule: trancl_induct) (use c in auto)
  then show "{y. (slug, y) \<in> (depends_rel edges)\<^sup>+} \<subseteq> set (ancestors slug edges)" by blast
qed

end
