(* ===== verification/Regex.thy ===== *)
theory Regex
  imports Text
begin

section \<open>Regex: Python's regular expressions\<close>

text \<open>
  The part of Python's \<^verbatim>\<open>re\<close> the code uses, with its backtracking order. A pattern is a value of
  \<open>re\<close>; \<open>results\<close> lists every way to match it at a position, the one Python tries first at the
  head, so that a match is the head of the list. A position is a cursor: the text before it,
  reversed, and the text after it. An iteration of a repetition that matches nothing ends the
  repetition, as in \<^verbatim>\<open>sre\<close>.

  \<open>re_match\<close>, \<open>re_fullmatch\<close> and \<open>re_search\<close> are the methods of these names; \<open>re_all\<close> is
  \<^verbatim>\<open>finditer\<close> together with the texts between the matches, from which \<open>re_sub\<close>, \<open>re_findall\<close>
  and \<open>re_split\<close> are read off. The lemmas: a match consumes a piece of the text and nothing is
  lost between the matches; how the repetition of a character class matches.
\<close>

subsection \<open>Patterns\<close>

datatype re =
    Eps
  | Chr "char \<Rightarrow> bool"
  | Cat re re
  | Alt re re
  | Rep bool nat "nat option" re
  | Grp nat re
  | Back nat
  | Ahead bool re
  | Behind bool "char \<Rightarrow> bool"
  | Bol bool
  | Eol bool
  | Bnd

text \<open>\<open>Rep greedy least most\<close>; \<open>Bol\<close> and \<open>Eol\<close> are \<^verbatim>\<open>^\<close> and \<^verbatim>\<open>$\<close>, true under \<^verbatim>\<open>re.M\<close>; \<open>Bnd\<close> is \<^verbatim>\<open>\b\<close>.\<close>

definition is_digit_char :: "char \<Rightarrow> bool" where
  "is_digit_char c \<longleftrightarrow> (let n = (of_char c :: nat) in 48 \<le> n \<and> n \<le> 57)"

definition ascii_letter :: "char \<Rightarrow> bool" where
  "ascii_letter c \<longleftrightarrow> (let n = (of_char c :: nat) in 65 \<le> n \<and> n \<le> 90 \<or> 97 \<le> n \<and> n \<le> 122)"

definition word_char :: "char \<Rightarrow> bool" where
  "word_char c \<longleftrightarrow> (let n = (of_char c :: nat)
     in 48 \<le> n \<and> n \<le> 57 \<or> 65 \<le> n \<and> n \<le> 90 \<or> 97 \<le> n \<and> n \<le> 122 \<or> n = 95
        \<or> n \<in> {170, 178, 179, 181, 185, 186, 188, 189, 190}
        \<or> 192 \<le> n \<and> n \<noteq> 215 \<and> n \<noteq> 247)"

text \<open>The same by the bits of a code point, which evaluation uses.\<close>

lemma is_digit_char_code [code]:
  "is_digit_char (Char b0 b1 b2 b3 b4 b5 b6 b7) \<longleftrightarrow>
     \<not> b7 \<and> \<not> b6 \<and> b5 \<and> b4 \<and> (b3 \<longrightarrow> \<not> b2 \<and> \<not> b1)"
  by (cases b0; cases b1; cases b2; cases b3; cases b4; cases b5; cases b6; cases b7; simp add: is_digit_char_def)

lemma ascii_letter_code [code]:
  "ascii_letter (Char b0 b1 b2 b3 b4 b5 b6 b7) \<longleftrightarrow>
     \<not> b7 \<and> b6 \<and> (b0 \<or> b1 \<or> b2 \<or> b3 \<or> b4) \<and> \<not> (b4 \<and> b3 \<and> (b2 \<or> b1 \<and> b0))"
  by (cases b0; cases b1; cases b2; cases b3; cases b4; cases b5; cases b6; cases b7; simp add: ascii_letter_def)

lemma word_char_code [code]:
  "word_char (Char b0 b1 b2 b3 b4 b5 b6 b7) \<longleftrightarrow>
     (if b7 then (if b6 then \<not> (b4 \<and> \<not> b3 \<and> b2 \<and> b1 \<and> b0)
        else b5 \<and> (if b4 then (if b3 then (if b2 then \<not> (b1 \<and> b0) else b1 \<noteq> b0)
                               else (if b2 then \<not> b1 \<and> b0 else b1))
                    else b3 \<and> \<not> b2 \<and> b1 \<and> \<not> b0))
      else if b6 then (b0 \<or> b1 \<or> b2 \<or> b3 \<or> b4) \<and> \<not> (b4 \<and> b3 \<and> (b2 \<or> b1 \<and> b0))
        \<or> \<not> b5 \<and> b4 \<and> b3 \<and> b2 \<and> b1 \<and> b0
      else b5 \<and> b4 \<and> (b3 \<longrightarrow> \<not> b2 \<and> \<not> b1))"
  by (cases b0; cases b1; cases b2; cases b3; cases b4; cases b5; cases b6; cases b7; simp add: word_char_def)

definition ch :: "char \<Rightarrow> re" where "ch c = Chr (\<lambda>d. d = c)"
definition ch_i :: "char \<Rightarrow> re" where "ch_i c = Chr (\<lambda>d. lower_char d = lower_char c)"
definition any_of :: "string \<Rightarrow> re" where "any_of cs = Chr (\<lambda>d. d \<in> set cs)"
definition none_of :: "string \<Rightarrow> re" where "none_of cs = Chr (\<lambda>d. d \<notin> set cs)"
definition dot :: re where "dot = Chr (\<lambda>d. d \<noteq> CHR 0x0A)"
definition dot_all :: re where "dot_all = Chr (\<lambda>_. True)"
definition digit :: re where "digit = Chr is_digit_char"
definition space :: re where "space = Chr py_space"
definition non_space :: re where "non_space = Chr (\<lambda>d. \<not> py_space d)"
definition word :: re where "word = Chr word_char"

fun seq :: "re list \<Rightarrow> re" where
  "seq [] = Eps"
| "seq [r] = r"
| "seq (r # q # rs) = Cat r (seq (q # rs))"

fun alts :: "re list \<Rightarrow> re" where
  "alts [] = Eps"
| "alts [r] = r"
| "alts (r # q # rs) = Alt r (alts (q # rs))"

definition lit :: "string \<Rightarrow> re" where "lit s = seq (map ch s)"
definition lit_i :: "string \<Rightarrow> re" where "lit_i s = seq (map ch_i s)"
definition star :: "re \<Rightarrow> re" where "star r = Rep True 0 None r"
definition plus :: "re \<Rightarrow> re" where "plus r = Rep True 1 None r"
definition maybe :: "re \<Rightarrow> re" where "maybe r = Rep True 0 (Some 1) r"
definition star_lazy :: "re \<Rightarrow> re" where "star_lazy r = Rep False 0 None r"
definition plus_lazy :: "re \<Rightarrow> re" where "plus_lazy r = Rep False 1 None r"
definition exactly :: "nat \<Rightarrow> re \<Rightarrow> re" where "exactly n r = Rep True n (Some n) r"

lemmas pattern_defs = ch_def any_of_def none_of_def dot_def dot_all_def digit_def space_def
  non_space_def word_def star_def plus_def maybe_def star_lazy_def plus_lazy_def exactly_def

subsection \<open>Matching\<close>

type_synonym cursor = "string \<times> string"
type_synonym groups = "(nat \<times> nat \<times> string) list"
type_synonym state = "cursor \<times> groups"

fun times :: "nat \<Rightarrow> (state \<Rightarrow> state list) \<Rightarrow> state \<Rightarrow> state list" where
  "times 0 m st = [st]"
| "times (Suc n) m st = concat (map (times n m) (m st))"

text \<open>The optional iterations: the list bounds their number, since each consumes a character.\<close>

fun repeats :: "bool \<Rightarrow> (state \<Rightarrow> state list) \<Rightarrow> string \<Rightarrow> state \<Rightarrow> state list" where
  "repeats greedy m [] st = [st]"
| "repeats greedy m (_ # budget) st =
     (let more = concat (map (repeats greedy m budget) (filter (\<lambda>q. fst q \<noteq> fst st) (m st)))
      in if greedy then more @ [st] else st # more)"

definition budget :: "nat \<Rightarrow> nat option \<Rightarrow> state \<Rightarrow> string" where
  "budget least most st =
     (case most of None \<Rightarrow> snd (fst st) | Some n \<Rightarrow> take (n - least) (snd (fst st)))"

definition at_word :: "string \<Rightarrow> bool" where
  "at_word s = (case s of [] \<Rightarrow> False | c # _ \<Rightarrow> word_char c)"

definition consume :: "string \<Rightarrow> state \<Rightarrow> state list" where
  "consume s st = (case st of ((b, a), g) \<Rightarrow>
     if py_prefix s a then [((rev s @ b, drop (length s) a), g)] else [])"

primrec results :: "re \<Rightarrow> state \<Rightarrow> state list" where
  "results Eps st = [st]"
| "results (Chr P) st =
     (case st of ((b, a), g) \<Rightarrow> (case a of [] \<Rightarrow> [] | c # cs \<Rightarrow> if P c then [((c # b, cs), g)] else []))"
| "results (Cat r q) st = concat (map (results q) (results r st))"
| "results (Alt r q) st = results r st @ results q st"
| "results (Rep greedy least most r) st =
     concat (map (\<lambda>q. repeats greedy (results r) (budget least most q) q) (times least (results r) st))"
| "results (Grp n r) st =
     map (\<lambda>q. let from = length (fst (fst st))
        in (fst q, (n, from, rev (take (length (fst (fst q)) - from) (fst (fst q)))) # snd q))
       (results r st)"
| "results (Back n) st =
     (case map_of (snd st) n of None \<Rightarrow> [] | Some (_, s) \<Rightarrow> consume s st)"
| "results (Ahead positive r) st = (if (results r st \<noteq> []) = positive then [st] else [])"
| "results (Behind positive P) st =
     (if (case fst (fst st) of [] \<Rightarrow> False | c # _ \<Rightarrow> P c) = positive then [st] else [])"
| "results (Bol lines) st =
     (if (case fst (fst st) of [] \<Rightarrow> True | c # _ \<Rightarrow> lines \<and> c = CHR 0x0A) then [st] else [])"
| "results (Eol lines) st =
     (if (case snd (fst st) of [] \<Rightarrow> True | c # cs \<Rightarrow> c = CHR 0x0A \<and> (lines \<or> cs = [])) then [st] else [])"
| "results Bnd st = (if at_word (fst (fst st)) \<noteq> at_word (snd (fst st)) then [st] else [])"

text \<open>Every result lies ahead of the position it started at.\<close>

definition ahead :: "state \<Rightarrow> state \<Rightarrow> bool" where
  "ahead st q \<longleftrightarrow> (\<exists>u. snd (fst st) = u @ snd (fst q) \<and> fst (fst q) = rev u @ fst (fst st))"

lemma ahead_refl [simp, intro]: "ahead st st"
  by (simp add: ahead_def)

lemma ahead_groups [simp]:
  "ahead (cur, g) (cur, g')" "ahead st (fst q, g') = ahead st q"
  by (simp_all add: ahead_def)

lemma ahead_trans: "ahead st q \<Longrightarrow> ahead q p \<Longrightarrow> ahead st p"
  unfolding ahead_def by (metis append.assoc rev_append)

lemma times_ahead:
  assumes "\<And>st q. q \<in> set (m st) \<Longrightarrow> ahead st q" and "q \<in> set (times n m st)"
  shows "ahead st q"
  using assms(2)
proof (induction n arbitrary: st)
  case (Suc n)
  then obtain p where "p \<in> set (m st)" "q \<in> set (times n m p)" by auto
  with Suc.IH assms(1) show ?case by (blast intro: ahead_trans)
qed simp

lemma repeats_ahead:
  assumes "\<And>st q. q \<in> set (m st) \<Longrightarrow> ahead st q" and "q \<in> set (repeats greedy m bud st)"
  shows "ahead st q"
  using assms(2)
proof (induction bud arbitrary: st)
  case (Cons c bud)
  then consider "q = st" | p where "p \<in> set (m st)" "q \<in> set (repeats greedy m bud p)"
    by (auto simp: Let_def split: if_split_asm)
  then show ?case
  proof cases
    case 2
    from assms(1) [OF 2(1)] Cons.IH [OF 2(2)] show ?thesis by (rule ahead_trans)
  qed simp
qed simp

lemma consume_ahead: "q \<in> set (consume s st) \<Longrightarrow> ahead st q"
  by (auto simp: consume_def py_prefix_iff ahead_def split: prod.splits if_split_asm)

lemma results_ahead: "q \<in> set (results r st) \<Longrightarrow> ahead st q"
proof (induction r arbitrary: st q)
  case (Chr P)
  then show ?case by (auto simp: ahead_def split: prod.splits list.splits if_split_asm)
next
  case (Cat r1 r2)
  then obtain p where "p \<in> set (results r1 st)" "q \<in> set (results r2 p)" by auto
  with Cat.IH show ?case by (blast intro: ahead_trans)
next
  case (Rep greedy least most r)
  then obtain p where "p \<in> set (times least (results r) st)"
    "q \<in> set (repeats greedy (results r) (budget least most p) p)" by auto
  with times_ahead [of "results r"] repeats_ahead [of "results r"] Rep.IH show ?case
    by (blast intro: ahead_trans)
next
  case (Grp n r)
  then obtain p where "p \<in> set (results r st)" "fst q = fst p" by (auto simp: Let_def)
  with Grp.IH [of p st] show ?case by (simp add: ahead_def)
next
  case (Back n)
  then show ?case by (auto split: option.splits intro: consume_ahead)
qed (auto split: if_split_asm)

subsection \<open>The methods of a pattern\<close>

record found =
  f_before :: string
  f_text :: string
  f_after :: string
  f_groups :: groups

definition found_at :: "cursor \<Rightarrow> state \<Rightarrow> found" where
  "found_at cur q = \<lparr>f_before = rev (fst cur),
     f_text = take (length (snd cur) - length (snd (fst q))) (snd cur),
     f_after = snd (fst q), f_groups = snd q\<rparr>"

text \<open>\<^verbatim>\<open>m.group(n)\<close>, \<^verbatim>\<open>None\<close> where the group took no part.\<close>

definition group :: "nat \<Rightarrow> found \<Rightarrow> string option" where
  "group n m = (if n = 0 then Some (f_text m) else map_option snd (map_of (f_groups m) n))"

definition group_text :: "nat \<Rightarrow> found \<Rightarrow> string" where
  "group_text n m = (case group n m of None \<Rightarrow> [] | Some s \<Rightarrow> s)"

definition group_start :: "nat \<Rightarrow> found \<Rightarrow> nat" where
  "group_start n m = (case map_of (f_groups m) n of None \<Rightarrow> 0 | Some (k, _) \<Rightarrow> k)"

definition match_here :: "re \<Rightarrow> cursor \<Rightarrow> found option" where
  "match_here r cur = map_option (found_at cur) (head_option (results r (cur, [])))"

definition re_match :: "re \<Rightarrow> string \<Rightarrow> found option" where
  "re_match r s = match_here r ([], s)"

definition re_fullmatch :: "re \<Rightarrow> string \<Rightarrow> found option" where
  "re_fullmatch r s =
     map_option (found_at ([], s)) (head_option (filter (\<lambda>q. snd (fst q) = []) (results r (([], s), []))))"

text \<open>The next match from a position; after an empty match the next one there is not empty.\<close>

fun scan :: "re \<Rightarrow> bool \<Rightarrow> string \<Rightarrow> string \<Rightarrow> (cursor \<times> state) option" where
  "scan r must b a =
     (case filter (\<lambda>q. must \<longrightarrow> fst q \<noteq> (b, a)) (results r ((b, a), [])) of
        q # _ \<Rightarrow> Some ((b, a), q)
      | [] \<Rightarrow> (case a of [] \<Rightarrow> None | c # cs \<Rightarrow> scan r False (c # b) cs))"

declare scan.simps [simp del]

definition re_search :: "re \<Rightarrow> string \<Rightarrow> found option" where
  "re_search r s = map_option (\<lambda>(cur, q). found_at cur q) (scan r False [] s)"

definition searches :: "re \<Rightarrow> string \<Rightarrow> bool" where
  "searches r s \<longleftrightarrow> re_search r s \<noteq> None"

definition matches :: "re \<Rightarrow> string \<Rightarrow> bool" where
  "matches r s \<longleftrightarrow> re_match r s \<noteq> None"

definition fullmatches :: "re \<Rightarrow> string \<Rightarrow> bool" where
  "fullmatches r s \<longleftrightarrow> re_fullmatch r s \<noteq> None"

lemma scan_ahead:
  assumes "scan r must b a = Some (cur, q)"
  shows "\<exists>u. a = u @ snd cur \<and> fst cur = rev u @ b
    \<and> ahead (cur, []) q \<and> (u = [] \<longrightarrow> must \<longrightarrow> fst q \<noteq> cur)"
  using assms
proof (induction r must b a rule: scan.induct)
  case (1 r must b a)
  show ?case
  proof (cases "filter (\<lambda>q. must \<longrightarrow> fst q \<noteq> (b, a)) (results r ((b, a), []))")
    case (Cons p ps)
    have "p \<in> set (filter (\<lambda>q. must \<longrightarrow> fst q \<noteq> (b, a)) (results r ((b, a), [])))" using Cons by simp
    moreover have "cur = (b, a) \<and> q = p" using 1(2) Cons by (simp add: scan.simps [of r must b a])
    ultimately show ?thesis using results_ahead [of q r "((b, a), [])"] by simp
  next
    case Nil
    then obtain c cs where a: "a = c # cs"
      using 1(2) Nil by (cases a) (simp_all add: scan.simps [of r must b "[]"])
    have "scan r must b (c # cs) = scan r False (c # b) cs"
      using Nil unfolding a by (subst scan.simps) (simp del: results.simps)
    with 1(2) a have "scan r False (c # b) cs = Some (cur, q)" by simp
    from 1(1) [OF Nil a this] obtain u where
      "cs = u @ snd cur" "fst cur = rev u @ c # b" "ahead (cur, []) q" by blast
    with a show ?thesis by (intro exI [of _ "c # u"]) simp
  qed
qed

lemma scan_shorter:
  assumes "scan r must b a = Some (cur, q)"
  shows "2 * length (snd (fst q)) + (if fst q = cur then 0 else 1)
    < 2 * length a + (if must then 0 else 1)"
proof -
  from scan_ahead [OF assms] obtain u where u: "a = u @ snd cur" "ahead (cur, []) q"
    "u = [] \<longrightarrow> must \<longrightarrow> fst q \<noteq> cur" by blast
  from u(2) obtain w where w: "snd cur = w @ snd (fst q)" "fst (fst q) = rev w @ fst cur"
    by (auto simp: ahead_def)
  have arith: "2 * k + (if e then 0 else 1) < 2 * n + (if must then 0 else (1 :: nat))"
    if "n = i + j + k" "e \<longleftrightarrow> j = 0" "i = 0 \<longrightarrow> must \<longrightarrow> j \<noteq> 0" for i j k n :: nat and e
    using that by (cases must; cases e; simp)
  have "fst q = cur \<longleftrightarrow> length w = 0"
    using w by (cases "fst q"; cases cur) auto
  then show ?thesis
    using u w(1) by (intro arith [of _ "length u" "length w"]) auto
qed

text \<open>All matches, each with the text between the one before and it, and the text left over.\<close>

function all_from :: "re \<Rightarrow> bool \<Rightarrow> string \<Rightarrow> string \<Rightarrow> (string \<times> found) list \<times> string" where
  "all_from r must b a =
     (case scan r must b a of
        None \<Rightarrow> ([], a)
      | Some (cur, q) \<Rightarrow>
          (let (ms, rest) = all_from r (fst q = cur) (fst (fst q)) (snd (fst q))
           in ((take (length a - length (snd cur)) a, found_at cur q) # ms, rest)))"
  by pat_completeness auto

termination
proof (relation "measure (\<lambda>(r, must, b, a). 2 * length a + (if must then 0 else 1))", simp)
  fix r must b a x cur q
  assume s: "scan r must b a = Some x" and x: "(cur, q) = x"
  from s x have "scan r must b a = Some (cur, q)" by simp
  from scan_shorter [OF this] show "((r, fst q = cur, fst (fst q), snd (fst q)), r, must, b, a)
    \<in> measure (\<lambda>(r, must, b, a). 2 * length a + (if must then 0 else 1))"
    by (cases "fst q") (simp split: prod.split if_splits)
qed

declare all_from.simps [simp del]

definition re_all :: "re \<Rightarrow> string \<Rightarrow> (string \<times> found) list \<times> string" where
  "re_all r s = all_from r False [] s"

definition re_finditer :: "re \<Rightarrow> string \<Rightarrow> found list" where
  "re_finditer r s = map snd (fst (re_all r s))"

definition re_sub :: "re \<Rightarrow> (found \<Rightarrow> string) \<Rightarrow> string \<Rightarrow> string" where
  "re_sub r new s = (let (ms, rest) = re_all r s in concat (map (\<lambda>(t, m). t @ new m) ms) @ rest)"

text \<open>\<^verbatim>\<open>sub(new, text, count=1)\<close>.\<close>

definition re_sub_once :: "re \<Rightarrow> string \<Rightarrow> string \<Rightarrow> string" where
  "re_sub_once r new s =
     (case re_search r s of None \<Rightarrow> s | Some m \<Rightarrow> f_before m @ new @ f_after m)"

text \<open>\<^verbatim>\<open>split(text)\<close> for a pattern without groups.\<close>

definition re_split :: "re \<Rightarrow> string \<Rightarrow> string list" where
  "re_split r s = (let (ms, rest) = re_all r s in map fst ms @ [rest])"

subsection \<open>Nothing is lost\<close>

lemma all_from_text:
  "concat (map (\<lambda>(t, m). t @ f_text m) (fst (all_from r must b a))) @ snd (all_from r must b a) = a"
proof (induction r must b a rule: all_from.induct)
  case (1 r must b a)
  show ?case
  proof (cases "scan r must b a")
    case None
    then show ?thesis by (simp add: all_from.simps [of r must b a])
  next
    case (Some x)
    obtain cur q where x: "x = (cur, q)" by (cases x)
    from scan_ahead [OF Some [unfolded x]] obtain u where u: "a = u @ snd cur" "ahead (cur, []) q" by blast
    from u(2) obtain w where w: "snd cur = w @ snd (fst q)" by (auto simp: ahead_def)
    let ?rest = "all_from r (fst q = cur) (fst (fst q)) (snd (fst q))"
    have "concat (map (\<lambda>(t, m). t @ f_text m) (fst ?rest)) @ snd ?rest = snd (fst q)"
      using 1 Some x by simp
    moreover have "fst (all_from r must b a) = (u, found_at cur q) # fst ?rest"
      "snd (all_from r must b a) = snd ?rest"
      by (simp_all add: all_from.simps [of r must b a] Some x case_prod_beta) (simp_all add: u(1))
    moreover have "f_text (found_at cur q) = w" using w by (simp add: found_at_def)
    ultimately show ?thesis using u(1) w by simp
  qed
qed

text \<open>Replacing every match by itself gives the text back.\<close>

lemma re_sub_same: "re_sub r f_text s = s"
  using all_from_text [of r False "[]" s]
  by (simp add: re_sub_def re_all_def case_prod_beta)

lemma re_sub_idle:
  assumes "re_search r s = None"
  shows "re_sub r new s = s"
proof -
  have "scan r False [] s = None" using assms by (auto simp: re_search_def)
  then show ?thesis by (simp add: re_sub_def re_all_def all_from.simps)
qed

lemma match_here_text:
  assumes "match_here r (b, a) = Some m"
  shows "f_before m = rev b \<and> a = f_text m @ f_after m"
proof -
  obtain q where q: "q \<in> set (results r ((b, a), []))" "m = found_at (b, a) q"
    using assms by (auto simp: match_here_def head_option_def split: list.splits)
  from results_ahead [OF q(1)] obtain u where "a = u @ snd (fst q)" by (auto simp: ahead_def)
  with q(2) show ?thesis by (simp add: found_at_def)
qed

lemma re_match_text: "re_match r s = Some m \<Longrightarrow> s = f_text m @ f_after m \<and> f_before m = []"
  using match_here_text [of r "[]" s m] by (simp add: re_match_def)

lemma re_search_text:
  assumes "re_search r s = Some m"
  shows "s = f_before m @ f_text m @ f_after m"
proof -
  obtain cur q where s: "scan r False [] s = Some (cur, q)" "m = found_at cur q"
    using assms by (auto simp: re_search_def)
  from scan_ahead [OF s(1)] obtain u where u: "s = u @ snd cur" "fst cur = rev u" "ahead (cur, []) q"
    by auto
  from u(3) obtain w where "snd cur = w @ snd (fst q)" by (auto simp: ahead_def)
  with u s(2) show ?thesis by (simp add: found_at_def)
qed

lemma re_sub_once_idle: "re_search r s = None \<Longrightarrow> re_sub_once r new s = s"
  by (simp add: re_sub_once_def)

subsection \<open>Repetitions of a character class\<close>

definition skip :: "nat \<Rightarrow> state \<Rightarrow> state" where
  "skip n st = ((rev (take n (snd (fst st))) @ fst (fst st), drop n (snd (fst st))), snd st)"

lemma skip_0 [simp]: "skip 0 st = st"
  by (cases st; cases "fst st") (simp add: skip_def)

lemma skip_Suc [simp]: "skip (Suc n) ((b, c # a), g) = skip n ((c # b, a), g)"
  by (simp add: skip_def)

lemma class_step [simp]:
  "results (Chr P) ((b, []), g) = []"
  "results (Chr P) ((b, c # a), g) = (if P c then [((c # b, a), g)] else [])"
  by simp_all

lemma repeats_class:
  assumes "length (takeWhile P a) \<le> length bud"
  shows "repeats True (results (Chr P)) bud ((b, a), g) =
    map (\<lambda>n. skip n ((b, a), g)) (rev [0..<Suc (length (takeWhile P a))])"
  using assms
  supply results.simps [simp del]
proof (induction bud arbitrary: a b)
  case Nil
  then have "takeWhile P a = []" by simp
  then show ?case by simp
next
  case (Cons d bud)
  show ?case
  proof (cases a)
    case Nil
    then show ?thesis by simp
  next
    case (Cons c cs)
    show ?thesis
    proof (cases "P c")
      case True
      have "length (takeWhile P cs) \<le> length bud" using Cons.prems Cons True by simp
      from Cons.IH [OF this, of "c # b"]
      have "repeats True (results (Chr P)) (d # bud) ((b, a), g) =
        map (\<lambda>n. skip n ((c # b, cs), g)) (rev [0..<Suc (length (takeWhile P cs))]) @ [((b, a), g)]"
        using Cons True by (auto simp: Let_def)
      also have "\<dots> = map (\<lambda>n. skip n ((b, a), g))
          (map Suc (rev [0..<Suc (length (takeWhile P cs))]) @ [0])"
        using Cons by (simp del: upt_Suc)
      also have "map Suc (rev [0..<Suc k]) @ [0] = rev [0..<Suc (Suc k)]" for k
        by (simp only: rev_map [symmetric] map_Suc_upt rev.simps(2) [symmetric] upt_conv_Cons [of 0, symmetric] zero_less_Suc One_nat_def [symmetric])
          (simp add: upt_conv_Cons del: upt_Suc)
      finally show ?thesis using Cons True by simp
    next
      case False
      then show ?thesis using Cons by simp
    qed
  qed
qed

lemma star_class:
  "results (star (Chr P)) ((b, a), g) =
    map (\<lambda>n. skip n ((b, a), g)) (rev [0..<Suc (length (takeWhile P a))])"
  using repeats_class [of P a a b g]
  by (simp add: star_def budget_def length_takeWhile_le del: upt_Suc)

end
