(* ===== verification/Pystr.thy ===== *)
theory Pystr
  imports Regex
begin

section \<open>Pystr: more of Python's string, shell and path functions\<close>

text \<open>
  What the ticket and review code uses of \<^verbatim>\<open>str\<close>, of \<^verbatim>\<open>pathlib.PurePosixPath\<close> and of
  \<^verbatim>\<open>shlex.shlex(posix=True, punctuation_chars=";&|()")\<close> with \<^verbatim>\<open>whitespace_split\<close>.
\<close>

subsection \<open>Strings\<close>

definition py_rstrip :: "string \<Rightarrow> string" where
  "py_rstrip s = rev (dropWhile py_space (rev s))"

definition py_lstrip :: "string \<Rightarrow> string" where
  "py_lstrip s = dropWhile py_space s"

text \<open>\<^verbatim>\<open>s.strip(chars)\<close>, \<^verbatim>\<open>s.rstrip(chars)\<close> and \<^verbatim>\<open>s.lstrip(chars)\<close>.\<close>

definition lstrip_of :: "string \<Rightarrow> string \<Rightarrow> string" where
  "lstrip_of cs s = dropWhile (\<lambda>c. c \<in> set cs) s"

definition rstrip_of :: "string \<Rightarrow> string \<Rightarrow> string" where
  "rstrip_of cs s = rev (dropWhile (\<lambda>c. c \<in> set cs) (rev s))"

definition strip_of :: "string \<Rightarrow> string \<Rightarrow> string" where
  "strip_of cs s = rstrip_of cs (lstrip_of cs s)"

definition py_suffix :: "string \<Rightarrow> string \<Rightarrow> bool" where
  "py_suffix p s \<longleftrightarrow> py_prefix (rev p) (rev s)"

definition remove_prefix :: "string \<Rightarrow> string \<Rightarrow> string" where
  "remove_prefix p s = (if py_prefix p s then drop (length p) s else s)"

definition remove_suffix :: "string \<Rightarrow> string \<Rightarrow> string" where
  "remove_suffix p s = (if py_suffix p s then take (length s - length p) s else s)"

text \<open>\<^verbatim>\<open>s.split(c)\<close> for one character, and \<^verbatim>\<open>s.partition(c)\<close>.\<close>

fun split_on :: "char \<Rightarrow> string \<Rightarrow> string list" where
  "split_on c [] = [[]]"
| "split_on c (d # ds) =
     (if d = c then [] # split_on c ds
      else case split_on c ds of [] \<Rightarrow> [[d]] | p # ps \<Rightarrow> (d # p) # ps)"

definition partition_at :: "char \<Rightarrow> string \<Rightarrow> string \<times> bool \<times> string" where
  "partition_at c s =
     (let a = takeWhile (\<lambda>d. d \<noteq> c) s
      in if c \<in> set s then (a, True, drop (Suc (length a)) s) else (s, False, []))"

text \<open>\<^verbatim>\<open>splitlines(keepends=True)\<close>.\<close>

fun keep_lines :: "string \<Rightarrow> string \<Rightarrow> string list" where
  "keep_lines acc [] = (if acc = [] then [] else [rev acc])"
| "keep_lines acc [c] = [rev (c # acc)]"
| "keep_lines acc (c # d # cs) =
     (if c = CHR 13 \<and> d = CHR 10 then rev (d # c # acc) # keep_lines [] cs
      else if line_break c then rev (c # acc) # keep_lines [] (d # cs)
      else keep_lines (c # acc) (d # cs))"

definition py_keep_lines :: "string \<Rightarrow> string list" where
  "py_keep_lines s = keep_lines [] s"

lemma keep_lines_concat: "concat (keep_lines acc s) = rev acc @ s"
  by (induction acc s rule: keep_lines.induct) auto

lemma py_keep_lines_concat [simp]: "concat (py_keep_lines s) = s"
  by (simp add: py_keep_lines_def keep_lines_concat)

text \<open>\<^verbatim>\<open>re.sub(r"\s+", " ", s).strip()\<close>.\<close>

definition clean :: "string \<Rightarrow> string" where
  "clean s = py_strip (re_sub (plus space) (\<lambda>_. '' '') s)"

text \<open>\<^verbatim>\<open>list(dict.fromkeys(xs))\<close>: the first of equal elements stays.\<close>

definition dedup :: "'a list \<Rightarrow> 'a list" where
  "dedup xs = rev (remdups (rev xs))"

lemma set_dedup [simp]: "set (dedup xs) = set xs"
  by (simp add: dedup_def)

lemma distinct_dedup [simp]: "distinct (dedup xs)"
  by (simp add: dedup_def)

text \<open>\<^verbatim>\<open>enumerate(xs, 1)\<close>.\<close>

definition numbered_from_1 :: "'a list \<Rightarrow> (nat \<times> 'a) list" where
  "numbered_from_1 xs = zip [1..<Suc (length xs)] xs"

lemma set_map_filter: "set (List.map_filter f xs) = {y. \<exists>x \<in> set xs. f x = Some y}"
  by (induction xs) (auto simp: map_filter_simps split: option.split)

lemma split_on_nonempty [simp]: "split_on c s \<noteq> []"
  by (induction s) (auto split: list.split)

lemma join_split_on: "join [c] (split_on c s) = s"
proof (induction s)
  case (Cons d ds)
  obtain p ps where "split_on c ds = p # ps" by (cases "split_on c ds") auto
  with Cons show ?case by (cases ps) auto
qed simp

lemma split_on_no_sep: "p \<in> set (split_on c s) \<Longrightarrow> c \<notin> set p"
proof (induction s arbitrary: p)
  case (Cons d ds)
  obtain q qs where "split_on c ds = q # qs" by (cases "split_on c ds") auto
  with Cons show ?case by (auto split: if_split_asm)
qed simp

subsection \<open>Paths\<close>

text \<open>\<^verbatim>\<open>str(PurePosixPath(p))\<close>, its \<^verbatim>\<open>parts\<close> without the root, \<^verbatim>\<open>name\<close> and \<^verbatim>\<open>suffix\<close>.\<close>

definition path_root :: "string \<Rightarrow> string" where
  "path_root p =
     (if py_prefix ''//'' p \<and> \<not> py_prefix ''///'' p then ''//''
      else if py_prefix ''/'' p then ''/'' else [])"

definition path_parts :: "string \<Rightarrow> string list" where
  "path_parts p = filter (\<lambda>q. q \<noteq> [] \<and> q \<noteq> ''.'') (split_on CHR ''/'' p)"

definition path_str :: "string \<Rightarrow> string" where
  "path_str p =
     (let s = path_root p @ join ''/'' (path_parts p) in if s = [] then ''.'' else s)"

definition path_name :: "string \<Rightarrow> string" where
  "path_name p = (case rev (path_parts p) of [] \<Rightarrow> [] | q # _ \<Rightarrow> q)"

definition path_parent :: "string \<Rightarrow> string" where
  "path_parent p =
     (let s = path_root p @ join ''/'' (butlast (path_parts p)) in if s = [] then ''.'' else s)"

definition path_join :: "string \<Rightarrow> string \<Rightarrow> string" where
  "path_join a b =
     (if path_root b \<noteq> [] then path_str b
      else let s = path_root a @ join ''/'' (path_parts a @ path_parts b)
           in if s = [] then ''.'' else s)"

definition path_suffix :: "string \<Rightarrow> string" where
  "path_suffix p =
     (let n = path_name p; ext = takeWhile (\<lambda>c. c \<noteq> CHR ''.'') (rev n)
      in if CHR ''.'' \<in> set n \<and> ext \<noteq> [] \<and> Suc (length ext) < length n then CHR ''.'' # rev ext else [])"

subsection \<open>Shell words\<close>

datatype shell_mode = InSpace | InComment | InWord | InPunct | InQuote char | InEscape "char option"

definition shell_space :: "char \<Rightarrow> bool" where
  "shell_space c \<longleftrightarrow> c = CHR '' '' \<or> c = CHR 9 \<or> c = CHR 13 \<or> c = CHR 10"

definition shell_punct :: "char \<Rightarrow> bool" where
  "shell_punct c \<longleftrightarrow> c \<in> set '';&|()''"

text \<open>What a character starts after a space, and the token it starts with.\<close>

definition word_start :: "char \<Rightarrow> shell_mode \<times> string" where
  "word_start c =
     (if shell_space c then (InSpace, [])
      else if c = CHR ''#'' then (InComment, [])
      else if c = CHR 92 then (InEscape None, [])
      else if shell_punct c then (InPunct, [c])
      else if c = CHR 34 \<or> c = CHR 39 then (InQuote c, [])
      else (InWord, [c]))"

definition emit :: "string \<Rightarrow> bool \<Rightarrow> string list \<Rightarrow> string list" where
  "emit token quoted rest = (if token \<noteq> [] \<or> quoted then token # rest else rest)"

fun shell_words :: "shell_mode \<Rightarrow> string \<Rightarrow> bool \<Rightarrow> string \<Rightarrow> string list option" where
  "shell_words (InQuote q) token quoted [] = None"
| "shell_words (InEscape r) token quoted [] = None"
| "shell_words InSpace token quoted [] = Some []"
| "shell_words InComment token quoted [] = Some []"
| "shell_words mode token quoted [] = Some (emit token quoted [])"
| "shell_words InSpace token quoted (c # cs) =
     (let (mode, token) = word_start c in shell_words mode token False cs)"
| "shell_words InComment token quoted (c # cs) =
     shell_words (if c = CHR 10 then InSpace else InComment) [] False cs"
| "shell_words (InQuote q) token quoted (c # cs) =
     (if c = q then shell_words InWord token True cs
      else if c = CHR 92 \<and> q = CHR 34 then shell_words (InEscape (Some q)) token True cs
      else shell_words (InQuote q) (token @ [c]) True cs)"
| "shell_words (InEscape r) token quoted (c # cs) =
     (case r of
        None \<Rightarrow> shell_words InWord (token @ [c]) quoted cs
      | Some q \<Rightarrow> shell_words (InQuote q)
          (token @ (if c \<noteq> CHR 92 \<and> c \<noteq> q then [CHR 92, c] else [c])) quoted cs)"
| "shell_words InWord token quoted (c # cs) =
     (if shell_space c then map_option (emit token quoted) (shell_words InSpace [] False cs)
      else if c = CHR ''#'' then map_option (emit token quoted) (shell_words InComment [] False cs)
      else if c = CHR 34 \<or> c = CHR 39 then shell_words (InQuote c) token quoted cs
      else if c = CHR 92 then shell_words (InEscape None) token quoted cs
      else if shell_punct c then map_option (emit token quoted) (shell_words InPunct [c] False cs)
      else shell_words InWord (token @ [c]) quoted cs)"
| "shell_words InPunct token quoted (c # cs) =
     (if shell_punct c then shell_words InPunct (token @ [c]) quoted cs
      else map_option (emit token quoted)
        (let (mode, token) = word_start c in shell_words mode token False cs))"

text \<open>\<^verbatim>\<open>list(lexer)\<close>, \<open>None\<close> where it raises \<^verbatim>\<open>ValueError\<close>.\<close>

definition shlex_tokens :: "string \<Rightarrow> string list option" where
  "shlex_tokens s = shell_words InSpace [] False s"

text \<open>A token is a run of punctuation, or holds no punctuation outside quotes and escapes: a
  plain word of a command is never joined with the operator after it.\<close>

lemma shell_words_plain:
  assumes "\<forall>c \<in> set w. \<not> shell_space c \<and> \<not> shell_punct c \<and> c \<notin> {CHR ''#'', CHR 92, CHR 34, CHR 39}"
  shows "shell_words InWord token quoted (w @ s) = shell_words InWord (token @ w) quoted s"
  using assms by (induction w arbitrary: token) auto

end
