(* ===== verification/TicketText.thy ===== *)
theory TicketText
  imports Pystr
begin

section \<open>TicketText: the patterns of a ticket and the pieces they read\<close>

text \<open>
  The regular expressions and the section readers of \<^verbatim>\<open>holophyte/tickets/ticket_template.py\<close>,
  under their names there. A character beyond code point 255 (the typographic apostrophe of
  \<open>EVIDENCE_OUTPUT_RE\<close>) cannot occur in a text of the model.
\<close>

subsection \<open>Patterns\<close>

definition bullet :: re where "bullet = any_of ''-*+''"

definition H1_RE :: re where
  "H1_RE = seq [Bol False, ch CHR ''#'', plus space, Grp 1 (star_lazy dot), star space, Eol False]"

definition H2_RE :: re where
  "H2_RE = seq [Bol False, lit ''##'', plus space, Grp 1 (star_lazy dot), star space, Eol False]"

definition UNCHECKED_RE :: re where
  "UNCHECKED_RE = seq [Bol False, bullet, plus space, lit ''[ ]'', star space, Grp 1 (star dot), Eol False]"

definition CHECKED_RE :: re where
  "CHECKED_RE = seq [Bol False, bullet, plus space, ch CHR ''['', any_of ''xX'', ch CHR '']'', star space,
     Grp 1 (star dot), Eol False]"

definition list_marker :: re where
  "list_marker = alts [bullet, seq [plus digit, any_of ''.)'']]"

definition LIST_ITEM_RE :: re where
  "LIST_ITEM_RE = seq [Bol False, list_marker, plus space, Grp 1 (star dot), Eol False]"

definition state_item_re :: re where
  "state_item_re = seq [Bol False, list_marker, maybe (seq [plus space, Grp 1 (star dot)]), Eol False]"

definition BOLD_KEY_RE :: re where
  "BOLD_KEY_RE = seq [Bol False, maybe (lit ''**''),
     Grp 1 (alts [lit ''What'', lit ''Why'', lit ''How'', lit ''UI change'', lit ''Blast radius'']),
     ch CHR '':'', maybe (seq [star (any_of [CHR '' '', CHR 9]), lit ''**'']), star space,
     Grp 2 (star dot), Eol False]"

definition ESTIMATE_RE :: re where
  "ESTIMATE_RE = seq [Bol False, lit ''Estimate:'', star space, Grp 1 (plus digit), star space, lit ''min'',
     star space, ch (CHR 0xB7), star space, lit ''Depends on:'', star space, Grp 2 (plus dot), Eol False]"

definition ORCHESTRATION_RE :: re where
  "ORCHESTRATION_RE = seq [Bol False, lit ''Orchestration:'', star space, Grp 1 (star_lazy dot), star space, Eol False]"

definition IMPLEMENTER_RE :: re where
  "IMPLEMENTER_RE = seq [Bol False, lit ''Implementer:'', star space, Grp 1 (star_lazy dot), star space, Eol False]"

definition IMPLEMENTER_NAME_RE :: re where
  "IMPLEMENTER_NAME_RE = plus (Chr (\<lambda>c. ascii_letter c \<or> is_digit_char c \<or> c = CHR ''_'' \<or> c = CHR ''-''))"

definition LINEAR_ID_RE :: re where
  "LINEAR_ID_RE = seq [Bol False, Chr ascii_letter, star (Chr (\<lambda>c. ascii_letter c \<or> is_digit_char c)),
     ch CHR ''-'', plus digit, Eol False]"

definition PLACEHOLDER_RE :: re where
  "PLACEHOLDER_RE = alts
     [seq [lit ''{{'', star (none_of ''{}''), lit ''}}''],
      seq [ch CHR ''<'', Chr (\<lambda>c. c \<notin> {CHR ''<'', CHR ''>'', CHR 10} \<and> \<not> py_space c),
        star (none_of [CHR ''<'', CHR ''>'', CHR 10]), ch CHR ''>'']]"

definition MD_LINK_RE :: re where
  "MD_LINK_RE = seq [ch CHR ''['', Grp 1 (star (none_of [CHR ''['', CHR '']'', CHR 10])), lit ''](''
     , alts [seq [ch CHR ''<'', star (none_of [CHR ''<'', CHR ''>'', CHR 10]), ch CHR ''>''],
             star (Chr (\<lambda>c. c \<noteq> CHR ''('' \<and> c \<noteq> CHR '')'' \<and> \<not> py_space c))], ch CHR '')'']"

definition MARKDOWN_LINK_RE :: re where
  "MARKDOWN_LINK_RE = seq [ch CHR ''['', Grp 1 (star (none_of '']'')), lit ''](''
     , star (none_of '')''), ch CHR '')'']"

definition COMMENT_RE :: re where
  "COMMENT_RE = seq [lit ''<!--'', star_lazy dot_all, lit ''-->'']"

definition FENCE_RE :: re where
  "FENCE_RE = seq [Bol False, lit ''```'', Grp 1 (star (none_of [CHR 10])), Eol False]"

definition CONTRACT_RE :: re where
  "CONTRACT_RE = seq [Bol False, Grp 1 (plus_lazy non_space), ch CHR '':'', star space, Grp 2 (star dot), Eol False]"

text \<open>\<^verbatim>\<open>COMMENT_RE.sub("", text)\<close> and \<^verbatim>\<open>MD_LINK_RE.sub(r"\1", text)\<close>.\<close>

definition uncommented :: "string \<Rightarrow> string" where
  "uncommented = re_sub COMMENT_RE (\<lambda>_. [])"

definition unlinked :: "string \<Rightarrow> string" where
  "unlinked = re_sub MD_LINK_RE (group_text 1)"

subsection \<open>Sections\<close>

definition TEMPLATE_ORDER :: "string list" where
  "TEMPLATE_ORDER =
     [''Summary'', ''What / Why / How'', ''Reproduce'', ''Mock-up'', ''In scope'', ''Out of scope'',
      ''Acceptance criteria'', ''Verify command(s)'', ''Contract checks'', ''Evidence'',
      ''Implementation notes'', ''Story'', ''Estimate & dependencies'', ''Open questions'']"

definition OPTIONAL_SECTIONS :: "string list" where
  "OPTIONAL_SECTIONS = [''Reproduce'', ''Mock-up'', ''Contract checks'', ''Evidence'', ''Story'']"

definition ESTIMATE :: string where "ESTIMATE = ''Estimate & dependencies''"
definition MAX_ESTIMATE_MIN :: nat where "MAX_ESTIMATE_MIN = 90"
definition MAX_CRITERIA :: nat where "MAX_CRITERIA = 10"
definition MAX_IN_SCOPE :: nat where "MAX_IN_SCOPE = 6"

definition UI_CHANGE_VALUES :: "string list" where "UI_CHANGE_VALUES = [''major'', ''minor'', ''none'']"
definition BLAST_RADIUS_VALUES :: "string list" where "BLAST_RADIUS_VALUES = [''high'', ''medium'']"
definition ORCHESTRATION_MODES :: "string list" where "ORCHESTRATION_MODES = [''off'', ''subagents'', ''workflow'']"

definition list_items :: "string \<Rightarrow> string list" where
  "list_items body =
     List.map_filter (\<lambda>line. map_option (\<lambda>m. clean (group_text 1 m)) (re_match LIST_ITEM_RE (py_strip line)))
       (py_splitlines body)"

text \<open>One entry of \<^verbatim>\<open>_list_item_blocks\<close> with the lines that continue it: the entry open at the
  line, if any, and whether the line before was blank.\<close>

fun item_blocks :: "string list option \<Rightarrow> bool \<Rightarrow> string list \<Rightarrow> string list list" where
  "item_blocks entry was_blank [] = (case entry of None \<Rightarrow> [] | Some e \<Rightarrow> [e])"
| "item_blocks entry was_blank (line # lines) =
     (case re_match LIST_ITEM_RE (py_strip line) of
        Some m \<Rightarrow>
          (case entry of None \<Rightarrow> [] | Some e \<Rightarrow> [e])
            @ item_blocks (Some [group_text 1 m]) (blank line) lines
      | None \<Rightarrow>
          (case entry of
             None \<Rightarrow> item_blocks None (blank line) lines
           | Some e \<Rightarrow>
               if blank line then item_blocks (Some e) True lines
               else if \<not> was_blank \<or> (case line of [] \<Rightarrow> False | c # _ \<Rightarrow> py_space c)
               then item_blocks (Some (e @ [py_strip line])) False lines
               else e # item_blocks None False lines))"

definition list_item_blocks :: "string \<Rightarrow> string list" where
  "list_item_blocks body = map (\<lambda>e. clean (join '' '' e)) (item_blocks None False (py_splitlines body))"

definition read_evidence_states :: "string \<Rightarrow> string list" where
  "read_evidence_states body =
     List.map_filter (\<lambda>line. let txt = py_strip line in
       if txt = [] then None
       else Some (case re_match state_item_re txt of None \<Rightarrow> txt | Some m \<Rightarrow> group_text 1 m))
       (py_splitlines (uncommented body))"

datatype box = Todo string | Done string | Unboxed string

definition criterion_box :: "string \<Rightarrow> box option" where
  "criterion_box line =
     (let s = py_strip line in
      case re_match LIST_ITEM_RE s of
        None \<Rightarrow> None
      | Some item \<Rightarrow>
          (case re_match UNCHECKED_RE s of
             Some m \<Rightarrow> Some (Todo (clean (group_text 1 m)))
           | None \<Rightarrow>
               (case re_match CHECKED_RE s of
                  Some m \<Rightarrow> Some (Done (clean (group_text 1 m)))
                | None \<Rightarrow> Some (Unboxed (clean (group_text 1 item))))))"

text \<open>\<^verbatim>\<open>_criteria\<close>: the unchecked, the checked, the other entries, and the boxes in order.\<close>

definition read_criteria :: "string \<Rightarrow> string list \<times> string list \<times> string list \<times> string list" where
  "read_criteria body =
     (let entries = List.map_filter criterion_box (py_splitlines body)
      in (List.map_filter (\<lambda>b. case b of Todo s \<Rightarrow> Some s | _ \<Rightarrow> None) entries,
          List.map_filter (\<lambda>b. case b of Done s \<Rightarrow> Some s | _ \<Rightarrow> None) entries,
          List.map_filter (\<lambda>b. case b of Unboxed s \<Rightarrow> Some s | _ \<Rightarrow> None) entries,
          List.map_filter (\<lambda>b. case b of Todo s \<Rightarrow> Some s | Done s \<Rightarrow> Some s | Unboxed _ \<Rightarrow> None) entries))"

fun fenced_from :: "bool \<Rightarrow> string list \<Rightarrow> string list" where
  "fenced_from in_fence [] = []"
| "fenced_from in_fence (line # lines) =
     (let s = py_strip line in
      if matches FENCE_RE s then fenced_from (\<not> in_fence) lines
      else if in_fence \<and> s \<noteq> [] then s # fenced_from in_fence lines
      else fenced_from in_fence lines)"

definition fenced_lines :: "string \<Rightarrow> string list" where
  "fenced_lines body = fenced_from False (py_splitlines body)"

definition read_verify_commands :: "string \<Rightarrow> string list" where
  "read_verify_commands body =
     filter (\<lambda>s. \<not> py_prefix ''Rules:'' s \<and> \<not> py_prefix ''- '' s) (fenced_lines body)"

definition contract_check :: "string \<Rightarrow> string \<times> string" where
  "contract_check line =
     (case re_match CONTRACT_RE line of
        None \<Rightarrow> ([], line) | Some m \<Rightarrow> (group_text 1 m, py_strip (group_text 2 m)))"

definition read_contract_checks :: "string \<Rightarrow> (string \<times> string) list" where
  "read_contract_checks body =
     map contract_check (takeWhile (\<lambda>line. \<not> py_prefix ''Rules:'' line) (fenced_lines body))"

definition deps :: "string \<Rightarrow> string list" where
  "deps raw =
     (let parts = filter (\<lambda>p. p \<noteq> []) (map py_strip (split_on CHR '','' raw))
      in if length parts = 1 \<and> py_lower (hd parts) = ''none'' then [] else parts)"

subsection \<open>What the readers keep\<close>

lemma read_criteria_boxes:
  assumes "read_criteria body = (todo, ticked, other, boxes)"
  shows "length boxes = length todo + length ticked \<and> set boxes = set todo \<union> set ticked"
proof -
  have "length (List.map_filter (\<lambda>b. case b of Todo s \<Rightarrow> Some s | Done s \<Rightarrow> Some s | Unboxed _ \<Rightarrow> None) bs) =
      length (List.map_filter (\<lambda>b. case b of Todo s \<Rightarrow> Some s | _ \<Rightarrow> None) bs)
      + length (List.map_filter (\<lambda>b. case b of Done s \<Rightarrow> Some s | _ \<Rightarrow> None) bs)
    \<and> set (List.map_filter (\<lambda>b. case b of Todo s \<Rightarrow> Some s | Done s \<Rightarrow> Some s | Unboxed _ \<Rightarrow> None) bs) =
      set (List.map_filter (\<lambda>b. case b of Todo s \<Rightarrow> Some s | _ \<Rightarrow> None) bs)
      \<union> set (List.map_filter (\<lambda>b. case b of Done s \<Rightarrow> Some s | _ \<Rightarrow> None) bs)" for bs
    by (induction bs) (auto simp: List.map_filter_def split: box.split)
  then show ?thesis using assms by (auto simp: read_criteria_def Let_def)
qed

lemma fenced_from_nonempty: "s \<in> set (fenced_from in_fence lines) \<Longrightarrow> s \<noteq> []"
  by (induction in_fence lines rule: fenced_from.induct) (auto simp: Let_def split: if_split_asm)

lemma verify_commands_nonempty: "s \<in> set (read_verify_commands body) \<Longrightarrow> s \<noteq> []"
  by (auto simp: read_verify_commands_def fenced_lines_def dest: fenced_from_nonempty)

lemma deps_none: "deps ''none'' = []"
  by (simp add: deps_def py_strip_def py_space_def py_lower_def lower_char_def)

end
