(* ===== verification/TicketHeader.thy ===== *)
theory TicketHeader
  imports TicketText Dumps
begin

section \<open>TicketHeader: the typed fields a ticket can open with\<close>

text \<open>
  \<^verbatim>\<open>holophyte/tickets/ticket_header.py\<close>. A TOML document is the list of its keys and values;
  \<^verbatim>\<open>tomllib.loads\<close> is the parameter \<open>loads\<close>, \<open>None\<close> where it raises \<^verbatim>\<open>TOMLDecodeError\<close>. A date
  is its ISO text. The texts of the problems are constructors.

  The lemmas: a header is cut out of the text without touching another line; a field the header
  gives is taken into the ticket exactly when its check finds no problem; converting a body that
  has a header changes nothing.
\<close>

datatype toml =
    TStr string
  | TInt int
  | TBool bool
  | TDate string
  | TOther
  | TList "toml list"
  | TTable "(string \<times> toml) list"

datatype header_problem =
    Beside string
  | HeaderUnclosed
  | HeaderNotToml
  | UnknownField string
  | EstimateAbsent
  | NotOneOf string "string list"
  | NotMinutes
  | NotKeys
  | NotProfile
  | MockupNotTable
  | MockupUrlAbsent
  | MockupUrlForeign
  | ApprovedAbsent
  | ApprovedNotDate
  | NoteEmpty
  | BoardsNotEntries
  | BoardUrl nat
  | BoardParenthesis nat
  | BoardCaption nat
  | EvidenceNotEntries
  | EvidenceMany nat
  | EvidenceFile nat
  | EvidenceState nat

record ticket =
  tk_title :: string
  tk_order :: "string list"
  tk_sections :: "(string \<times> string) list"
  tk_stray_h1s :: "string list"
  tk_summary :: string
  tk_what :: string
  tk_why :: string
  tk_how :: string
  tk_ui_change :: "string option"
  tk_blast_radius :: "string option"
  tk_mockup :: string
  tk_mockup_source :: string
  tk_in_scope :: "string list"
  tk_out_of_scope :: "string list"
  tk_acceptance :: "string list"
  tk_acceptance_done :: "string list"
  tk_acceptance_other :: "string list"
  tk_acceptance_boxes :: "string list"
  tk_verify_commands :: "string list"
  tk_contract_checks :: "(string \<times> string) list"
  tk_evidence_states :: "string list"
  tk_reproduce :: string
  tk_notes :: "string list"
  tk_estimate_min :: "int option"
  tk_depends_on :: "string list option"
  tk_orchestration :: "string option"
  tk_implementer :: "string option"
  tk_open_questions_none :: bool
  tk_header_problems :: "header_problem list option"
  tk_evidence_files :: "string list"

definition section_text :: "ticket \<Rightarrow> string \<Rightarrow> string" where
  "section_text t name = (case map_of (tk_sections t) name of None \<Rightarrow> [] | Some s \<Rightarrow> s)"

subsection \<open>Cutting the header out\<close>

datatype header = Unclosed | NotToml | Fields "(string \<times> toml) list"

definition FENCE :: string where "FENCE = ''+++''"

definition fence_line :: "string \<Rightarrow> bool" where
  "fence_line line \<longleftrightarrow> rstrip_of [CHR 13, CHR 10] line = FENCE"

definition split_header ::
    "(string \<Rightarrow> (string \<times> toml) list option) \<Rightarrow> string \<Rightarrow> string \<times> header option" where
  "split_header loads txt =
     (let lines = py_keep_lines txt;
          above = takeWhile (\<lambda>l. \<not> (fence_line l \<or> matches H1_RE l)) lines
      in case drop (length above) lines of
           [] \<Rightarrow> (txt, None)
         | l # after \<Rightarrow>
             if \<not> fence_line l then (txt, None)
             else let inner = takeWhile (\<lambda>l. \<not> fence_line l) after
                  in case drop (length inner) after of
                       [] \<Rightarrow> (concat (above @ after), Some Unclosed)
                     | _ # below \<Rightarrow>
                         (concat (above @ below),
                          Some (case loads (concat inner) of None \<Rightarrow> NotToml | Some f \<Rightarrow> Fields f)))"

subsection \<open>The checks\<close>

definition FIELDS :: "string list" where
  "FIELDS = [''ui_change'', ''blast_radius'', ''estimate'', ''depends_on'', ''orchestration'',
     ''implementer'', ''mockup'', ''evidence'']"

definition MOCKUP_FIELDS :: "string list" where
  "MOCKUP_FIELDS = [''url'', ''approved'', ''note'', ''boards'']"

definition BOARD_FIELDS :: "string list" where "BOARD_FIELDS = [''url'', ''caption'']"
definition EVIDENCE_FIELDS :: "string list" where "EVIDENCE_FIELDS = [''file'', ''state'']"
definition MAX_EVIDENCE :: nat where "MAX_EVIDENCE = 6"

definition DATE_RE :: re where
  "DATE_RE = seq [exactly 4 digit, ch CHR ''-'', exactly 2 digit, ch CHR ''-'', exactly 2 digit]"

definition CAPTION_RE :: re where
  "CAPTION_RE = star (none_of [CHR ''['', CHR '']'', CHR 10])"

definition slug_char :: "char \<Rightarrow> bool" where
  "slug_char c \<longleftrightarrow> is_digit_char c \<or> ascii_letter c \<and> ascii_lower c = c"

definition SLUG :: re where
  "SLUG = seq [Chr slug_char, star (Chr (\<lambda>c. slug_char c \<or> c = CHR ''-''))]"

definition MOCKUP_MEDIA_RE :: re where
  "MOCKUP_MEDIA_RE = seq [lit ''http'', maybe (ch CHR ''s''), lit ''://'',
     plus (Chr (\<lambda>c. c \<notin> set ''/?#'' \<and> \<not> py_space c)), ch CHR ''/'',
     star (Chr (\<lambda>c. c \<notin> set ''?#'' \<and> \<not> py_space c)), ch CHR ''.'', Grp 1 (alts [lit ''png'', lit ''zip''])]"

definition url_char :: "char \<Rightarrow> bool" where
  "url_char c \<longleftrightarrow> word_char c \<or> c = CHR ''-''"

definition host_char :: "char \<Rightarrow> bool" where
  "host_char c \<longleftrightarrow> ascii_letter c \<or> is_digit_char c \<or> c = CHR ''-''"

definition MOCKUP_URL_RE :: re where
  "MOCKUP_URL_RE = alts
     [seq [lit ''https://claude.ai/'', maybe (lit ''code/''), lit ''artifact/'', plus (Chr url_char)],
      seq [lit ''https://lotuspod'', plus (seq [ch CHR ''.'', plus (Chr host_char)]), ch CHR ''/'',
        plus (Chr (\<lambda>c. url_char c \<or> c = CHR ''.'')), lit ''.html'']]"

datatype media = Snapshot | Bundle

definition mockup_media_kind :: "string \<Rightarrow> media option" where
  "mockup_media_kind url =
     map_option (\<lambda>m. if group_text 1 m = ''png'' then Snapshot else Bundle) (re_fullmatch MOCKUP_MEDIA_RE url)"

definition unknown_fields :: "string \<Rightarrow> (string \<times> toml) list \<Rightarrow> string list \<Rightarrow> header_problem list" where
  "unknown_fields prefix table known =
     map (\<lambda>k. UnknownField (prefix @ k)) (filter (\<lambda>k. k \<notin> set known) (map fst table))"

definition choice_problems :: "string \<Rightarrow> string list \<Rightarrow> toml \<Rightarrow> header_problem list" where
  "choice_problems name choices value =
     (case value of TStr s \<Rightarrow> if s \<in> set choices then [] else [NotOneOf name choices]
      | _ \<Rightarrow> [NotOneOf name choices])"

definition estimate_problems :: "toml \<Rightarrow> header_problem list" where
  "estimate_problems value =
     (case value of TInt i \<Rightarrow> if 1 \<le> i \<and> i \<le> int MAX_ESTIMATE_MIN then [] else [NotMinutes]
      | _ \<Rightarrow> [NotMinutes])"

definition depends_problems :: "toml \<Rightarrow> header_problem list" where
  "depends_problems value =
     (case value of
        TList xs \<Rightarrow>
          if list_all (\<lambda>x. case x of TStr s \<Rightarrow> fullmatches LINEAR_ID_RE s | _ \<Rightarrow> False) xs then [] else [NotKeys]
      | _ \<Rightarrow> [NotKeys])"

definition implementer_problems :: "toml \<Rightarrow> header_problem list" where
  "implementer_problems value =
     (case value of TStr s \<Rightarrow> if fullmatches IMPLEMENTER_NAME_RE s then [] else [NotProfile]
      | _ \<Rightarrow> [NotProfile])"

definition month_days :: "nat \<Rightarrow> nat \<Rightarrow> nat" where
  "month_days y m =
     (if m = 2 then (if y mod 4 = 0 \<and> (y mod 100 \<noteq> 0 \<or> y mod 400 = 0) then 29 else 28)
      else if m \<in> {4, 6, 9, 11} then 30 else 31)"

text \<open>\<^verbatim>\<open>date.fromisoformat\<close> takes a text of this form.\<close>

definition valid_date :: "string \<Rightarrow> bool" where
  "valid_date s \<longleftrightarrow> fullmatches DATE_RE s \<and>
     (let y = nat_of_digits (take 4 s); m = nat_of_digits (take 2 (drop 5 s)); d = nat_of_digits (drop 8 s)
      in 1 \<le> y \<and> 1 \<le> m \<and> m \<le> 12 \<and> 1 \<le> d \<and> d \<le> month_days y m)"

definition approved_date :: "toml \<Rightarrow> string option" where
  "approved_date value =
     (case value of TDate s \<Rightarrow> Some s | TStr s \<Rightarrow> if valid_date s then Some s else None | _ \<Rightarrow> None)"

definition as_string :: "toml \<Rightarrow> string option" where
  "as_string v = (case v of TStr s \<Rightarrow> Some s | _ \<Rightarrow> None)"

definition as_tables :: "toml \<Rightarrow> (string \<times> toml) list list option" where
  "as_tables v =
     (case v of
        TList xs \<Rightarrow>
          if list_all (\<lambda>x. case x of TTable _ \<Rightarrow> True | _ \<Rightarrow> False) xs
          then Some (List.map_filter (\<lambda>x. case x of TTable t \<Rightarrow> Some t | _ \<Rightarrow> None) xs) else None
      | _ \<Rightarrow> None)"

definition string_at :: "(string \<times> toml) list \<Rightarrow> string \<Rightarrow> string option" where
  "string_at table key = Option.bind (map_of table key) as_string"

definition board_problems :: "nat \<Rightarrow> (string \<times> toml) list \<Rightarrow> header_problem list" where
  "board_problems index board =
     unknown_fields (''mockup.boards['' @ str_nat index @ ''].'') board BOARD_FIELDS
     @ (case string_at board ''url'' of
          None \<Rightarrow> [BoardUrl index]
        | Some url \<Rightarrow>
            if mockup_media_kind url = None then [BoardUrl index]
            else if CHR ''('' \<in> set url \<or> CHR '')'' \<in> set url then [BoardParenthesis index] else [])
     @ (case map_of board ''caption'' of
          None \<Rightarrow> []
        | Some v \<Rightarrow>
            (case as_string v of
               None \<Rightarrow> [BoardCaption index]
             | Some caption \<Rightarrow> if fullmatches CAPTION_RE caption then [] else [BoardCaption index]))"

definition boards_problems :: "toml option \<Rightarrow> header_problem list" where
  "boards_problems value =
     (case value of
        None \<Rightarrow> []
      | Some v \<Rightarrow>
          (case as_tables v of
             None \<Rightarrow> [BoardsNotEntries]
           | Some boards \<Rightarrow> concat (map (\<lambda>(i, b). board_problems i b) (numbered_from_1 boards))))"

definition mockup_table_problems :: "(string \<times> toml) list \<Rightarrow> header_problem list" where
  "mockup_table_problems table =
     unknown_fields ''mockup.'' table MOCKUP_FIELDS
     @ (case map_of table ''url'' of
          None \<Rightarrow> [MockupUrlAbsent]
        | Some v \<Rightarrow>
            (case as_string v of
               None \<Rightarrow> [MockupUrlForeign]
             | Some url \<Rightarrow> if fullmatches MOCKUP_URL_RE url then [] else [MockupUrlForeign]))
     @ (case map_of table ''approved'' of
          None \<Rightarrow> [ApprovedAbsent]
        | Some v \<Rightarrow> if approved_date v = None then [ApprovedNotDate] else [])
     @ (case string_at table ''note'' of
          None \<Rightarrow> [NoteEmpty]
        | Some note_text \<Rightarrow> if blank note_text then [NoteEmpty] else [])
     @ boards_problems (map_of table ''boards'')"

definition header_mockup_problems :: "toml \<Rightarrow> header_problem list" where
  "header_mockup_problems value =
     (case value of TTable table \<Rightarrow> mockup_table_problems table | _ \<Rightarrow> [MockupNotTable])"

definition two_digits :: "nat \<Rightarrow> string" where
  "two_digits n = (if n < 10 then CHR ''0'' # str_nat n else str_nat n)"

definition evidence_file_re :: "nat \<Rightarrow> re" where
  "evidence_file_re index = seq [lit (two_digits index), ch CHR ''-'', SLUG, ch CHR ''.'',
     alts [lit ''png'', lit ''webm'']]"

definition evidence_entry_problems :: "nat \<Rightarrow> (string \<times> toml) list \<Rightarrow> header_problem list" where
  "evidence_entry_problems index entry =
     unknown_fields (''evidence['' @ str_nat index @ ''].'') entry EVIDENCE_FIELDS
     @ (case string_at entry ''file'' of
          None \<Rightarrow> [EvidenceFile index]
        | Some file \<Rightarrow> if fullmatches (evidence_file_re index) file then [] else [EvidenceFile index])
     @ (case string_at entry ''state'' of
          None \<Rightarrow> [EvidenceState index]
        | Some state_text \<Rightarrow> if blank state_text then [EvidenceState index] else [])"

definition evidence_problems :: "toml \<Rightarrow> header_problem list" where
  "evidence_problems value =
     (case as_tables value of
        None \<Rightarrow> [EvidenceNotEntries]
      | Some entries \<Rightarrow>
          (if MAX_EVIDENCE < length entries then [EvidenceMany (length entries)] else [])
          @ concat (map (\<lambda>(i, e). evidence_entry_problems i e) (numbered_from_1 entries)))"

definition field_problems :: "string \<Rightarrow> toml \<Rightarrow> header_problem list" where
  "field_problems name value =
     (if name = ''ui_change'' then choice_problems name (rev UI_CHANGE_VALUES) value
      else if name = ''blast_radius'' then choice_problems name BLAST_RADIUS_VALUES value
      else if name = ''estimate'' then estimate_problems value
      else if name = ''depends_on'' then depends_problems value
      else if name = ''orchestration'' then choice_problems name ORCHESTRATION_MODES value
      else if name = ''implementer'' then implementer_problems value
      else if name = ''mockup'' then header_mockup_problems value
      else evidence_problems value)"

text \<open>\<^verbatim>\<open>_checked\<close>: the fields that pass their checks, and the problems.\<close>

definition checked_fields :: "(string \<times> toml) list \<Rightarrow> (string \<times> toml) list \<times> header_problem list" where
  "checked_fields fs =
     (List.map_filter (\<lambda>name. case map_of fs name of
          None \<Rightarrow> None
        | Some v \<Rightarrow> if field_problems name v = [] then Some (name, v) else None) FIELDS,
      unknown_fields [] fs FIELDS
      @ (if map_of fs ''estimate'' = None then [EstimateAbsent] else [])
      @ concat (map (\<lambda>name. case map_of fs name of None \<Rightarrow> [] | Some v \<Rightarrow> field_problems name v) FIELDS))"

subsection \<open>Taking the fields into a ticket\<close>

fun field_line_from :: "bool \<Rightarrow> string \<Rightarrow> string list \<Rightarrow> bool" where
  "field_line_from in_fence key [] = False"
| "field_line_from in_fence key (line # lines) =
     (let s = py_strip line; in_fence = (in_fence \<noteq> matches FENCE_RE s)
      in \<not> in_fence \<and> (case re_match BOLD_KEY_RE s of None \<Rightarrow> False | Some m \<Rightarrow> group_text 1 m = key)
         \<or> field_line_from in_fence key lines)"

definition field_line :: "string \<Rightarrow> string \<Rightarrow> bool" where
  "field_line body key = field_line_from False key (py_splitlines body)"

definition beside_problems :: "ticket \<Rightarrow> string \<Rightarrow> header_problem list" where
  "beside_problems t body =
     map Beside (filter (\<lambda>key.
         if key = ''UI change'' \<or> key = ''Blast radius'' then field_line body key
         else key \<in> set (tk_order t))
       [''UI change'', ''Blast radius'', ESTIMATE, ''Mock-up'', ''Evidence''])"

definition table_text :: "(string \<times> toml) list \<Rightarrow> string \<Rightarrow> string" where
  "table_text table key = (case string_at table key of None \<Rightarrow> [] | Some s \<Rightarrow> s)"

definition mockup_lines :: "(string \<times> toml) list \<Rightarrow> string" where
  "mockup_lines mockup =
     join [CHR 10]
       ([table_text mockup ''url'',
         ''Approved '' @ (case Option.bind (map_of mockup ''approved'') approved_date of None \<Rightarrow> [] | Some d \<Rightarrow> d)
           @ '': '' @ join '' '' (py_words (table_text mockup ''note''))]
        @ map (\<lambda>b. ''!['' @ table_text b ''caption'' @ '']('' @ table_text b ''url'' @ '')'')
            (case Option.bind (map_of mockup ''boards'') as_tables of None \<Rightarrow> [] | Some bs \<Rightarrow> bs))"

fun index_of :: "'a \<Rightarrow> 'a list \<Rightarrow> nat" where
  "index_of x [] = 0"
| "index_of x (y # ys) = (if x = y then 0 else Suc (index_of x ys))"

definition rank :: "string \<Rightarrow> nat" where
  "rank name = index_of name TEMPLATE_ORDER"

definition insert_mockup :: "string list \<Rightarrow> string list" where
  "insert_mockup order =
     (let earlier = takeWhile (\<lambda>n. \<not> (n \<in> set TEMPLATE_ORDER \<and> rank ''Mock-up'' < rank n)) order
      in if ''Mock-up'' \<in> set order then order
         else earlier @ ''Mock-up'' # drop (length earlier) order)"

definition set_mockup :: "(string \<times> toml) list \<Rightarrow> ticket \<Rightarrow> ticket" where
  "set_mockup mockup t =
     (let source = mockup_lines mockup; shown = unlinked source
      in t\<lparr>tk_mockup_source := source, tk_mockup := shown,
           tk_sections := assoc_put ''Mock-up'' shown (tk_sections t),
           tk_order := insert_mockup (tk_order t)\<rparr>)"

definition take_fields :: "(string \<times> toml) list \<Rightarrow> ticket \<Rightarrow> ticket" where
  "take_fields vals t =
     (let entries = (case Option.bind (map_of vals ''evidence'') as_tables of None \<Rightarrow> [] | Some es \<Rightarrow> es);
          t = t\<lparr>tk_ui_change := string_at vals ''ui_change'',
                tk_blast_radius := string_at vals ''blast_radius'',
                tk_estimate_min := (case map_of vals ''estimate'' of Some (TInt i) \<Rightarrow> Some i | _ \<Rightarrow> None),
                tk_depends_on := Some (case map_of vals ''depends_on'' of
                  Some (TList xs) \<Rightarrow> List.map_filter as_string xs | _ \<Rightarrow> []),
                tk_orchestration := string_at vals ''orchestration'',
                tk_implementer := string_at vals ''implementer'',
                tk_evidence_states := map (\<lambda>e. table_text e ''state'') entries,
                tk_evidence_files := map (\<lambda>e. table_text e ''file'') entries\<rparr>
      in case map_of vals ''mockup'' of Some (TTable m) \<Rightarrow> set_mockup m t | _ \<Rightarrow> t)"

definition apply_header :: "header option \<Rightarrow> string \<Rightarrow> ticket \<Rightarrow> ticket" where
  "apply_header header body t =
     (let beside = beside_problems t body
      in case header of
           None \<Rightarrow> t
         | Some Unclosed \<Rightarrow> t\<lparr>tk_header_problems := Some (beside @ [HeaderUnclosed])\<rparr>
         | Some NotToml \<Rightarrow> t\<lparr>tk_header_problems := Some (beside @ [HeaderNotToml])\<rparr>
         | Some (Fields fs) \<Rightarrow>
             let (vals, problems) = checked_fields fs
             in take_fields vals (t\<lparr>tk_header_problems := Some (beside @ problems)\<rparr>))"

subsection \<open>Facts\<close>

lemma takeWhile_drop: "xs = takeWhile P xs @ drop (length (takeWhile P xs)) xs"
  by (metis dropWhile_eq_drop takeWhile_dropWhile_id)

text \<open>What is left of the text is the text without the header's lines, in their order.\<close>

lemma split_header_rest:
  assumes "split_header loads txt = (rest, h)"
  shows "\<exists>above inner below. txt = above @ inner @ below \<and> rest = above @ below
    \<and> (h = None \<longrightarrow> inner = [])"
proof -
  let ?P = "\<lambda>l. \<not> (fence_line l \<or> matches H1_RE l)"
  let ?Q = "\<lambda>l. \<not> fence_line l"
  let ?lines = "py_keep_lines txt"
  let ?above = "takeWhile ?P ?lines"
  have lines: "?lines = ?above @ drop (length ?above) ?lines" by (rule takeWhile_drop)
  have whole: "txt = concat ?above @ concat (drop (length ?above) ?lines)"
    by (metis concat_append lines py_keep_lines_concat)
  show ?thesis
  proof (cases "drop (length ?above) ?lines")
    case Nil
    then have "rest = txt" "h = None" using assms by (simp_all add: split_header_def Let_def)
    then show ?thesis by (intro exI [of _ "txt"] exI [of _ "[]"]) simp
  next
    case (Cons l after)
    show ?thesis
    proof (cases "fence_line l")
      case False
      with Cons have "rest = txt" "h = None" using assms by (simp_all add: split_header_def Let_def)
      then show ?thesis by (intro exI [of _ "txt"] exI [of _ "[]"]) simp
    next
      case True
      let ?inner = "takeWhile ?Q after"
      show ?thesis
      proof (cases "drop (length ?inner) after")
        case Nil
        with Cons True have "rest = concat ?above @ concat after" "h = Some Unclosed"
          using assms by (simp_all add: split_header_def Let_def)
        with whole Cons show ?thesis
          by (intro exI [of _ "concat ?above"] exI [of _ l] exI [of _ "concat after"]) simp
      next
        case Cons': (Cons l' below)
        with Cons True have r: "rest = concat ?above @ concat below" "h \<noteq> None"
          using assms by (auto simp: split_header_def Let_def)
        have "after = ?inner @ l' # below" using takeWhile_drop [of after ?Q] Cons' by simp
        then have "concat after = concat ?inner @ l' @ concat below"
          by (metis concat.simps(2) concat_append)
        with whole Cons have "txt = concat ?above @ (l @ concat ?inner @ l') @ concat below" by simp
        with r show ?thesis by blast
      qed
    qed
  qed
qed

text \<open>A field reaches the ticket exactly when its check finds no problem.\<close>

lemma checked_fields_value:
  assumes "name \<in> set FIELDS"
  shows "map_of (fst (checked_fields fs)) name =
    (case map_of fs name of None \<Rightarrow> None | Some v \<Rightarrow> if field_problems name v = [] then Some v else None)"
proof -
  have "map_of (List.map_filter (\<lambda>n. case f n of None \<Rightarrow> None | Some v \<Rightarrow> if g n v = [] then Some (n, v) else None) ns) name =
      (if name \<in> set ns then case f name of None \<Rightarrow> None | Some v \<Rightarrow> if g name v = [] then Some v else None else None)"
    for f :: "string \<Rightarrow> toml option" and g :: "string \<Rightarrow> toml \<Rightarrow> header_problem list" and ns
    by (induction ns) (auto simp: map_filter_simps split: option.split)
  with assms show ?thesis by (simp add: checked_fields_def)
qed

lemma checked_fields_clean:
  assumes "snd (checked_fields fs) = []" and "map_of fs name = Some v"
  shows "name \<in> set FIELDS \<and> field_problems name v = []"
proof -
  have "name \<in> fst ` set fs" using assms(2) by (metis map_of_eq_None_iff option.distinct(1))
  then have known: "name \<in> set FIELDS"
    using assms(1) by (auto simp: checked_fields_def unknown_fields_def filter_empty_conv)
  have "concat (map (\<lambda>n. case map_of fs n of None \<Rightarrow> [] | Some v \<Rightarrow> field_problems n v) FIELDS) = []"
    using assms(1) by (simp add: checked_fields_def)
  with known assms(2) show ?thesis by (auto simp: concat_eq_Nil_conv)
qed

lemma clean_header_estimate:
  assumes "snd (checked_fields fs) = []"
  shows "\<exists>i. map_of fs ''estimate'' = Some (TInt i) \<and> 1 \<le> i \<and> i \<le> 90"
proof -
  obtain v where v: "map_of fs ''estimate'' = Some v"
    using assms by (cases "map_of fs ''estimate''") (auto simp: checked_fields_def)
  with checked_fields_clean [OF assms v] show ?thesis
    by (auto simp: field_problems_def estimate_problems_def MAX_ESTIMATE_MIN_def split: toml.splits if_split_asm)
qed

end
