(* ===== verification/TicketParse.thy ===== *)
theory TicketParse
  imports TicketHeader
begin

section \<open>TicketParse: reading a ticket's text\<close>

text \<open>
  \<^verbatim>\<open>parse()\<close> of \<^verbatim>\<open>holophyte/tickets/ticket_template.py\<close>. \<open>sections_of\<close> is its loop over the lines,
  with the section being read and its lines so far; a name that occurs again keeps its first body
  and is listed again in the order.

  The lemmas: the sections are those of the lines after the title, each name's body the one of
  its first occurrence; a ticket without a header has no header problems.
\<close>

fun sections_of :: "(string \<times> string list) option \<Rightarrow> string list \<Rightarrow> (string \<times> string) list" where
  "sections_of cur [] = (case cur of None \<Rightarrow> [] | Some (name, buf) \<Rightarrow> [(name, join [CHR 10] buf)])"
| "sections_of cur (line # lines) =
     (case re_match H2_RE line of
        Some m \<Rightarrow>
          (case cur of None \<Rightarrow> [] | Some (name, buf) \<Rightarrow> [(name, join [CHR 10] buf)])
            @ sections_of (Some (py_strip (group_text 1 m), [])) lines
      | None \<Rightarrow> sections_of (map_option (\<lambda>(name, buf). (name, buf @ [line])) cur) lines)"

text \<open>\<^verbatim>\<open>_keep\<close>: the order lists every heading, the dictionary keeps the first body of a name.\<close>

fun keep_first :: "(string \<times> string) list \<Rightarrow> (string \<times> string) list \<Rightarrow> (string \<times> string) list" where
  "keep_first kept [] = kept"
| "keep_first kept ((name, body) # rest) =
     keep_first (if name \<in> fst ` set kept then kept else kept @ [(name, body)]) rest"

text \<open>\<^verbatim>\<open>_section_source\<close>: the lines of the first section of a name, with their links.\<close>

fun source_lines :: "string \<Rightarrow> bool \<Rightarrow> string list \<Rightarrow> string list" where
  "source_lines name found [] = []"
| "source_lines name found (line # lines) =
     (case re_match H2_RE line of
        Some m \<Rightarrow> if found then [] else source_lines name (py_strip (group_text 1 m) = name) lines
      | None \<Rightarrow> if found then line # source_lines name found lines else source_lines name found lines)"

definition section_source :: "string \<Rightarrow> string \<Rightarrow> string" where
  "section_source txt name =
     py_strip (uncommented (join [CHR 10] (source_lines name False (py_splitlines txt))))"

text \<open>The \<^verbatim>\<open>**Key:**\<close> lines, the last of a key winning.\<close>

definition bold_keys :: "string \<Rightarrow> (string \<times> string) list" where
  "bold_keys body =
     fold (\<lambda>line kv. case re_match BOLD_KEY_RE (py_strip line) of
         None \<Rightarrow> kv | Some m \<Rightarrow> assoc_put (group_text 1 m) (clean (group_text 2 m)) kv)
       (py_splitlines body) []"

definition dict_text :: "(string \<times> string) list \<Rightarrow> string \<Rightarrow> string" where
  "dict_text kv k = (case map_of kv k of None \<Rightarrow> [] | Some s \<Rightarrow> s)"

text \<open>The first line of the section that a pattern matches.\<close>

definition first_match :: "re \<Rightarrow> string \<Rightarrow> found option" where
  "first_match r body = head_option (List.map_filter (\<lambda>line. re_match r (py_strip line)) (py_splitlines body))"

definition read_title :: "string list \<Rightarrow> string \<times> string list \<times> string list" where
  "read_title lines =
     (let above = takeWhile (\<lambda>l. \<not> matches H1_RE l) lines
      in case drop (length above) lines of
           [] \<Rightarrow> ([], [], lines)
         | l # rest \<Rightarrow>
             (case re_match H1_RE l of None \<Rightarrow> [] | Some m \<Rightarrow> group_text 1 m,
              List.map_filter (\<lambda>l. map_option (group_text 1) (re_match H1_RE l)) rest, rest))"

definition parse :: "(string \<Rightarrow> (string \<times> toml) list option) \<Rightarrow> string \<Rightarrow> ticket" where
  "parse loads whole =
     (let (body, header) = split_header loads whole;
          (title, strays, lines) = read_title (py_splitlines (unlinked body));
          listed = sections_of None lines;
          sections = keep_first [] listed;
          section = dict_text sections;
          kv = bold_keys (section ''What / Why / How'');
          (todo, ticked, other, boxes) = read_criteria (section ''Acceptance criteria'');
          est = first_match ESTIMATE_RE (section ESTIMATE)
      in apply_header header body
          \<lparr>tk_title = title, tk_order = map fst listed, tk_sections = sections, tk_stray_h1s = strays,
           tk_summary = clean (section ''Summary''), tk_what = dict_text kv ''What'',
           tk_why = dict_text kv ''Why'', tk_how = dict_text kv ''How'',
           tk_ui_change = map_of kv ''UI change'', tk_blast_radius = map_of kv ''Blast radius'',
           tk_mockup = py_strip (uncommented (section ''Mock-up'')),
           tk_mockup_source = section_source body ''Mock-up'',
           tk_in_scope = list_items (section ''In scope''),
           tk_out_of_scope = list_items (section ''Out of scope''),
           tk_acceptance = todo, tk_acceptance_done = ticked, tk_acceptance_other = other,
           tk_acceptance_boxes = boxes,
           tk_verify_commands = read_verify_commands (section ''Verify command(s)''),
           tk_contract_checks = read_contract_checks (section ''Contract checks''),
           tk_evidence_states = read_evidence_states (section ''Evidence''),
           tk_reproduce = py_strip (uncommented (section ''Reproduce'')),
           tk_notes = list_items (section ''Implementation notes''),
           tk_estimate_min = map_option (\<lambda>m. int (nat_of_digits (group_text 1 m))) est,
           tk_depends_on = map_option (\<lambda>m. deps (group_text 2 m)) est,
           tk_orchestration = map_option (group_text 1) (first_match ORCHESTRATION_RE (section ESTIMATE)),
           tk_implementer = map_option (group_text 1) (first_match IMPLEMENTER_RE (section ESTIMATE)),
           tk_open_questions_none =
             (clean (uncommented (section ''Open questions'')) \<in> {''- None'', ''* None'', ''+ None''}),
           tk_header_problems = None, tk_evidence_files = []\<rparr>)"

subsection \<open>Facts\<close>

lemma keep_first_map:
  "map_of (keep_first kept listed) n = (case map_of kept n of None \<Rightarrow> map_of listed n | Some b \<Rightarrow> Some b)"
proof (induction kept listed rule: keep_first.induct)
  case (2 kept name body rest)
  have known: "map_of kept name \<noteq> None \<longleftrightarrow> name \<in> fst ` set kept" by (simp add: map_of_eq_None_iff)
  show ?case
  proof (cases "name \<in> fst ` set kept")
    case True
    with known obtain b where "map_of kept name = Some b" by auto
    with 2 True show ?thesis by (auto split: option.split)
  next
    case False
    then have "map_of kept name = None" by (simp add: map_of_eq_None_iff)
    with 2 False show ?thesis by (auto simp: map_of_append split: option.split)
  qed
qed (simp split: option.split)

lemma keep_first_keys: "fst ` set (keep_first kept listed) = fst ` set kept \<union> fst ` set listed"
  by (induction kept listed rule: keep_first.induct) auto

lemma keep_first_distinct: "distinct (map fst kept) \<Longrightarrow> distinct (map fst (keep_first kept listed))"
  by (induction kept listed rule: keep_first.induct) auto

text \<open>A ticket without a header keeps what the sections say.\<close>

lemma parse_plain:
  assumes "snd (split_header loads whole) = None"
  shows "tk_header_problems (parse loads whole) = None
    \<and> distinct (map fst (tk_sections (parse loads whole)))
    \<and> fst ` set (tk_sections (parse loads whole)) = set (tk_order (parse loads whole))"
proof -
  obtain body where s: "split_header loads whole = (body, None)"
    using assms by (cases "split_header loads whole") simp
  obtain title strays lines where r: "read_title (py_splitlines (unlinked body)) = (title, strays, lines)"
    by (cases "read_title (py_splitlines (unlinked body))") auto
  obtain c1 c2 c3 c4 where c: "read_criteria (dict_text (keep_first [] (sections_of None lines)) ''Acceptance criteria'')
      = (c1, c2, c3, c4)"
    by (cases "read_criteria (dict_text (keep_first [] (sections_of None lines)) ''Acceptance criteria'')") auto
  have "tk_header_problems (parse loads whole) = None
    \<and> tk_sections (parse loads whole) = keep_first [] (sections_of None lines)
    \<and> tk_order (parse loads whole) = map fst (sections_of None lines)"
    by (simp add: parse_def s r c Let_def apply_header_def)
  then show ?thesis
    using keep_first_distinct [of "[]"] keep_first_keys [of "[]"] by simp
qed

end
