(* ===== verification/TicketRules.thy ===== *)
theory TicketRules
  imports TicketParse
begin

section \<open>TicketRules: the rules a ticket is held to, one by one\<close>

text \<open>
  The helpers of \<^verbatim>\<open>holophyte/tickets/ticket_template.py\<close> that \<^verbatim>\<open>validate()\<close> calls. The text of a
  problem is a constructor of \<open>problem\<close>; \<open>advisory\<close> are the ones that start with
  \<^verbatim>\<open>ADVISORY_PREFIX\<close>. What git and the file system say of a path is \<open>repo_view\<close>.

  The lemmas: a contract path accepted is relative and stays inside the repository; masking the
  code spans keeps every position.
\<close>

datatype problem =
    MissingTitle
  | ExtraH1 nat
  | OutOfOrder string string
  | MissingSection string
  | DuplicateSection string nat
  | UnknownSection string
  | Placeholder string string
  | ManyStates
  | EmptyReproduce
  | EmptyEvidence
  | EmptyState nat
  | OutputState nat string
  | EmptySummary
  | NoWhat
  | NoHow
  | NoInScope
  | ManyInScope nat
  | NoOutOfScope
  | NoCriteria
  | AllChecked
  | EmptyCriterion nat
  | NotCheckbox string
  | ManyCriteria nat
  | NoVerify
  | NotRelative string
  | NoContract
  | ContractPath string string
  | ContractLiteral string
  | HeaderProblem header_problem
  | NoEstimate
  | LongEstimate int
  | NotTicketId string
  | BadOrchestration string
  | BadImplementer string
  | OpenQuestions
  | ChainedScope string
  | BareInterpreter string string
  | BlankTemplate string
  | FenceTag string string
  | WholeSuite string
  | HardCount string "string list" string
  | OtherState nat string
  | NoTestFile nat string
  | WideVerify string nat nat string
  | LintOnMain string string
  | SchemaVersion string string
  | OperatorWitness nat
  | BadUiChange string
  | BadBlastRadius string
  | ForeignMockup string
  | NoDesign
  | ManyDesigns nat
  | NotOneApproval nat
  | UndeclaredUi nat
  | Gitignored string string
  | IgnoreUnknown
  | OutsideRepo string string
  | MissingPath bool string string
  | MissingModule string

fun advisory :: "problem \<Rightarrow> bool" where
  "advisory (ChainedScope _) = True"
| "advisory (BareInterpreter _ _) = True"
| "advisory (FenceTag _ _) = True"
| "advisory (WholeSuite _) = True"
| "advisory (HardCount _ _ _) = True"
| "advisory (OtherState _ _) = True"
| "advisory (NoTestFile _ _) = True"
| "advisory (WideVerify _ _ _ _) = True"
| "advisory (LintOnMain _ _) = True"
| "advisory (SchemaVersion _ _) = True"
| "advisory (OperatorWitness _) = True"
| "advisory (UndeclaredUi _) = True"
| "advisory IgnoreUnknown = True"
| "advisory (MissingPath prose _ _) = prose"
| "advisory (MissingModule _) = True"
| "advisory _ = False"

text \<open>\<^verbatim>\<open>FILING_REFUSED\<close>: the advisories that stop a filing all the same.\<close>

fun filing_refused :: "problem \<Rightarrow> bool" where
  "filing_refused (WholeSuite _) = True"
| "filing_refused (SchemaVersion _ _) = True"
| "filing_refused _ = False"

record repo_view =
  rv_exists :: "string \<Rightarrow> bool"
  rv_outside :: "string \<Rightarrow> bool"
  rv_ignored :: "string \<Rightarrow> bool option"
  rv_tracked :: "string list"
  rv_lint_fails :: "string option"

subsection \<open>Patterns\<close>

definition path_char :: "char \<Rightarrow> bool" where
  "path_char c \<longleftrightarrow> word_char c \<or> c = CHR ''.'' \<or> c = CHR ''-''"

definition PATH_TOKEN_RE :: re where
  "PATH_TOKEN_RE = seq [Bol False, maybe (lit ''./''), Chr (\<lambda>c. word_char c \<or> c = CHR ''.''),
     star (Chr path_char), star (seq [ch CHR ''/'', plus (Chr path_char)]), maybe (ch CHR ''/''), Eol False]"

definition FILE_EXT_RE :: re where
  "FILE_EXT_RE = seq [ch CHR ''.'', Chr (\<lambda>c. ascii_letter c \<and> ascii_lower c = c),
     Rep True 0 (Some 9) (Chr slug_char), Eol False]"

definition ABBREVIATION_RE :: re where
  "ABBREVIATION_RE = seq [Bol False, plus (seq [word, ch CHR ''.'']), word, Eol False]"

definition BARE_INTERPRETER_RE :: re where
  "BARE_INTERPRETER_RE = seq [Behind False (\<lambda>c. word_char c \<or> c \<in> set ''./-''),
     Grp 1 (alts [seq [lit ''python'', maybe (ch CHR ''3'')], lit ''pip'']), Ahead False (Chr path_char)]"

definition VENV_ACTIVATE_RE :: re where
  "VENV_ACTIVATE_RE = seq [alts [Bol False, Chr (\<lambda>c. py_space c \<or> c \<in> set '';&|'')],
     alts [ch CHR ''.'', lit ''source''], plus space, lit ''.venv/bin/activate'', Bnd]"

definition SCHEMA_VERSION_RE :: re where
  "SCHEMA_VERSION_RE = alts
     [seq [Bnd, lit_i ''schema version'', plus space, maybe (ch (CHR 0x60)), digit],
      seq [Bnd, lit ''SCHEMA_VERSION'', maybe (ch (CHR 0x60)),
        alts [seq [plus space, lit ''to'', plus space], seq [star space, ch CHR ''='', star space]],
        maybe (ch (CHR 0x60)), digit]]"

definition EVIDENCE_OUTPUT_RE :: re where
  "EVIDENCE_OUTPUT_RE = seq [Bnd, alts
     [seq [alts [seq [lit_i ''test'', maybe (ch_i CHR ''s'')], lit_i ''command''], plus space,
        maybe (seq [lit_i ''file'', ch (CHR 0x27), ch_i CHR ''s'', plus space]), lit_i ''output''],
      seq [lit_i ''output'', plus space, lit_i ''of''],
      lit_i ''terminal'', lit_i ''vitest'', lit_i ''unittest'', lit_i ''pytest'', lit_i ''stdout'',
      seq [lit_i ''exit'', plus space, lit_i ''code''],
      seq [alts [lit_i ''passing'', lit_i ''failing''], plus space, lit_i ''test'', maybe (ch_i CHR ''s'')],
      seq [lit_i ''test'', maybe (ch_i CHR ''s''), plus space, alts [lit_i ''passing'', lit_i ''failing'']]], Bnd]"

definition URL_TOKEN_RE :: re where
  "URL_TOKEN_RE = seq [Behind False (\<lambda>c. word_char c \<or> c \<in> set ''+.-''), Chr ascii_letter,
     star (Chr (\<lambda>c. word_char c \<or> c \<in> set ''+.-'')), ch CHR '':'',
     Chr (\<lambda>c. \<not> py_space c \<and> c \<notin> {CHR ''*'', CHR 0x60, CHR ''>'', CHR '')'', CHR '']'', CHR 34, CHR 39}),
     star non_space]"

definition APPROVED_RE :: re where
  "APPROVED_RE = seq [Bol False, maybe (seq [bullet, plus space]), lit ''Approved '', DATE_RE,
     ch CHR '':'', star space, non_space]"

definition SPAN_RE :: re where
  "SPAN_RE = seq [ch (CHR 0x60), Grp 1 (plus (none_of [CHR 0x60, CHR 10])), ch (CHR 0x60)]"

subsection \<open>Paths a text names\<close>

definition path_token :: "string \<Rightarrow> string option" where
  "path_token raw =
     (let token = rstrip_of ''.'' (strip_of ([CHR 0x60, CHR 39, CHR 34] @ ''(),;:!?<>[]{}'') raw)
      in if token = [] \<or> py_contains ''://'' token then None
         else if \<not> matches PATH_TOKEN_RE token \<or> matches ABBREVIATION_RE token then None
         else if py_prefix ''.venv/'' token then None
         else if CHR ''/'' \<notin> set token \<and> \<not> searches FILE_EXT_RE token then None
         else Some token)"

definition path_candidates :: "string \<Rightarrow> string list" where
  "path_candidates s =
     dedup (List.map_filter path_token
       (re_split (plus (Chr (\<lambda>c. py_space c \<or> c = CHR ''=''))) (re_sub MARKDOWN_LINK_RE (group_text 1) s)))"

definition SOURCE_EXTENSIONS :: "string list" where
  "SOURCE_EXTENSIONS =
     [''.py'', ''.pyi'', ''.js'', ''.jsx'', ''.ts'', ''.tsx'', ''.json'', ''.md'', ''.toml'', ''.yaml'', ''.yml'',
      ''.txt'', ''.html'', ''.css'', ''.scss'', ''.sh'', ''.bash'', ''.sql'', ''.rs'', ''.go'', ''.c'', ''.h'', ''.cpp'',
      ''.java'', ''.rb'', ''.vue'', ''.svelte'', ''.xml'', ''.ini'', ''.cfg'']"

definition repo_paths :: "string \<Rightarrow> string list" where
  "repo_paths s = filter (\<lambda>p. CHR ''/'' \<in> set p \<or> path_suffix p \<in> set SOURCE_EXTENSIONS) (path_candidates s)"

text \<open>\<^verbatim>\<open>_prose_paths\<close>: the code spans that are one path and nothing else.\<close>

definition prose_paths :: "string \<Rightarrow> string list" where
  "prose_paths s =
     List.map_filter (\<lambda>span. if repo_paths (group_text 1 span) = [group_text 1 span]
         then Some (group_text 1 span) else None) (re_finditer SPAN_RE s)"

definition mask_code_spans :: "char \<Rightarrow> string \<Rightarrow> string" where
  "mask_code_spans fill = re_sub SPAN_RE (\<lambda>m. replicate (length (f_text m)) fill)"

definition sentence_before :: "string \<Rightarrow> string" where
  "sentence_before masked =
     last (re_split (alts
       [seq [any_of ''.!?'', alts [space, Eol False]],
        seq [ch (CHR 10), star space, alts [ch (CHR 10), seq [any_of ''-*+'', ch CHR '' '']]]]) masked)"

definition PREPOSITIONS :: "string list" where
  "PREPOSITIONS = py_words (''aboard about above across after against along alongside amid among''
     @ '' around as at atop before behind below beneath beside besides between''
     @ '' beyond by concerning despite during except excluding following for from''
     @ '' in including inside into like near of off on onto opposite out outside''
     @ '' over past per regarding respecting round since than through throughout''
     @ '' till to toward towards under underneath unlike until unto upon versus''
     @ '' via with within without'')"

definition and_or :: re where "and_or = alts [lit_i ''and'', lit_i ''or'']"

definition NEW_GAP_RE :: re where
  "NEW_GAP_RE = seq [star space,
     Grp 1 (seq [star (seq [word, star (Chr (\<lambda>c. word_char c \<or> c = CHR ''-'')), plus space]),
       maybe (seq [word, star (Chr (\<lambda>c. word_char c \<or> c = CHR ''-''))])]),
     star space, maybe (any_of '',:(''), star space,
     star (seq [plus (ch (CHR 0x00)), star space,
       alts [seq [ch CHR '','', star space, maybe (seq [and_or, plus space])], seq [and_or, plus space]]])]"

definition TRAILING_NEW_RE :: re where
  "TRAILING_NEW_RE = seq [star space, ch CHR ''('', maybe (seq [lit_i ''a'', plus space]), lit_i ''new'', Bnd,
     maybe (Grp 1 (seq [plus space, lit_i ''director'', alts [lit_i ''y'', lit_i ''ies''], Bnd])),
     star (none_of '')''), ch CHR '')'']"

definition declarable :: "string \<Rightarrow> bool \<Rightarrow> bool" where
  "declarable path directory \<longleftrightarrow> fullmatches PATH_TOKEN_RE path \<and> (repo_paths path \<noteq> [] \<or> directory)"

text \<open>
  \<^verbatim>\<open>_governing_new\<close> on the sentence before a span: \<open>shown\<close> is its text, \<open>marked\<close> the same with the
  code spans blotted out. The result says whether a directory is declared.
\<close>

definition governing_new :: "string \<Rightarrow> string \<Rightarrow> string \<Rightarrow> bool option" where
  "governing_new marked_before shown marked =
     (case rev (re_finditer (seq [Bnd, lit_i ''new'', Bnd]) marked) of
        [] \<Rightarrow> None
      | new # _ \<Rightarrow>
          let k = length (f_before new) + length (f_text new);
              cur = (rev (marked_before @ take k marked), drop k marked)
          in (case head_option (filter (\<lambda>q. snd (fst q) = []) (results NEW_GAP_RE (cur, []))) of
                None \<Rightarrow> None
              | Some q \<Rightarrow>
                  let gap_words = py_words (py_lower (group_text 1 (found_at cur q)));
                      directory = list_ex (\<lambda>w. w = ''directory'' \<or> w = ''directories'') gap_words
                  in if 3 < length gap_words \<or> list_ex (\<lambda>w. w \<in> set PREPOSITIONS) gap_words then None
                     else if list_all (\<lambda>m. declarable (group_text 1 m) directory) (re_finditer SPAN_RE (drop k shown))
                     then Some directory else None))"

definition declared_new :: "string \<Rightarrow> found \<Rightarrow> (string \<times> bool) option" where
  "declared_new s span =
     (let path = group_text 1 span; at_start = length (f_before span);
          sentence = sentence_before (take at_start (mask_code_spans CHR '' '' s));
          from = at_start - length sentence;
          marked = mask_code_spans (CHR 0x00) s;
          governed = governing_new (take from marked) (drop from (take at_start s)) (drop from (take at_start marked));
          directory = (case governed of
              Some d \<Rightarrow> Some d
            | None \<Rightarrow> map_option (\<lambda>m. group 1 m \<noteq> None)
                (match_here TRAILING_NEW_RE (rev (f_before span @ f_text span), f_after span)))
      in if \<not> fullmatches PATH_TOKEN_RE path then None
         else case directory of
             None \<Rightarrow> None
           | Some d \<Rightarrow> if declarable path d then Some (path_str path, d \<or> py_suffix ''/'' path) else None)"

text \<open>\<^verbatim>\<open>_new_paths\<close>: the files and the directories a ticket calls new.\<close>

definition new_paths :: "ticket \<Rightarrow> string list \<times> string list" where
  "new_paths t =
     (let found = concat (map (\<lambda>s. List.map_filter (declared_new s) (re_finditer SPAN_RE s)) (map snd (tk_sections t)))
      in (map fst found, map fst (filter snd found)))"

subsection \<open>Commands\<close>

fun command_groups :: "string list \<Rightarrow> string list \<Rightarrow> string list list" where
  "command_groups cur [] = [cur]"
| "command_groups cur (tok # toks) =
     (if tok \<noteq> [] \<and> list_all shell_punct tok then cur # command_groups [] toks
      else command_groups (cur @ [tok]) toks)"

definition shell_commands :: "string \<Rightarrow> string list list" where
  "shell_commands command =
     (case shlex_tokens command of None \<Rightarrow> [] | Some toks \<Rightarrow> command_groups [] toks)"

fun unittest_args :: "string list \<Rightarrow> string list option" where
  "unittest_args [] = None"
| "unittest_args [a] = None"
| "unittest_args (a # b # rest) =
     (if a = ''-m'' \<and> b = ''unittest'' then Some rest else unittest_args (b # rest))"

definition dotted_name_re :: re where
  "dotted_name_re = (let name = seq [Chr (\<lambda>c. ascii_letter c \<or> c = CHR ''_''), star word]
     in seq [name, star (seq [ch CHR ''.'', name])])"

fun modules_of :: "string list \<Rightarrow> string list" where
  "modules_of [] = []"
| "modules_of (arg # args) =
     (if arg = ''discover'' then []
      else if arg = ''-k'' then (case args of [] \<Rightarrow> [] | _ # rest \<Rightarrow> modules_of rest)
      else if arg = ''--locals'' then modules_of args
      else if fullmatches dotted_name_re arg then arg # modules_of args
      else modules_of args)"

definition unittest_modules :: "string list \<Rightarrow> string list" where
  "unittest_modules tokens = modules_of (case unittest_args tokens of None \<Rightarrow> [] | Some args \<Rightarrow> args)"

text \<open>The arguments after \<^verbatim>\<open>-m unittest discover\<close> with their indices: the start directory, and
  where the last pattern stands.\<close>

fun discover_args :: "string \<Rightarrow> (nat \<times> string) option \<Rightarrow> (nat \<times> string) list \<Rightarrow> string \<times> (nat \<times> string) option" where
  "discover_args start found [] = (start, found)"
| "discover_args start found ((i, arg) # rest) =
     (let (name, eq, val) = (if py_prefix ''--'' arg then partition_at CHR ''='' arg else (arg, False, []))
      in if name = ''-s'' \<or> name = ''--start-directory'' then
           (if eq then discover_args val found rest
            else case rest of [] \<Rightarrow> (start, found) | (_, v) # later \<Rightarrow> discover_args v found later)
         else if name = ''-p'' \<or> name = ''--pattern'' then
           (if eq then discover_args start (Some (i, val)) rest
            else case rest of [] \<Rightarrow> (start, found) | (j, v) # later \<Rightarrow> discover_args start (Some (j, v)) later)
         else discover_args start found rest)"

fun discover_from :: "nat \<Rightarrow> string list \<Rightarrow> (nat \<times> string list) option" where
  "discover_from i (a # b # c # rest) =
     (if a = ''-m'' \<and> b = ''unittest'' \<and> c = ''discover'' then Some (i + 3, rest)
      else discover_from (Suc i) (b # c # rest))"
| "discover_from i _ = None"

definition discover_pattern :: "string list \<Rightarrow> (nat \<times> string) option" where
  "discover_pattern tokens =
     (case discover_from 0 tokens of
        None \<Rightarrow> None
      | Some (k, rest) \<Rightarrow>
          let (start, found) = discover_args ''.'' None (zip [k..<k + length rest] rest)
          in map_option (\<lambda>(i, p). (i, path_join start p)) found)"

definition verify_paths :: "string \<Rightarrow> string list" where
  "verify_paths command =
     (let commands = shell_commands command
      in if commands = [] then repo_paths command
         else dedup (concat (map (\<lambda>tokens. repo_paths (join '' '' (case discover_pattern tokens of
             None \<Rightarrow> tokens | Some (i, p) \<Rightarrow> tokens[i := p]))) commands)))"

definition assignment_re :: re where
  "assignment_re = seq [Bol False, Chr (\<lambda>c. ascii_letter c \<or> c = CHR ''_''), star word, ch CHR ''='']"

definition python_name_re :: re where
  "python_name_re = seq [lit ''python'', maybe (seq [plus digit, star (seq [ch CHR ''.'', plus digit])])]"

fun python_arguments :: "string list \<Rightarrow> string list" where
  "python_arguments [] = []"
| "python_arguments (arg # args) =
     (if arg = ''-m'' then (case args of [] \<Rightarrow> [] | m # rest \<Rightarrow> if m = ''ticket_template'' then rest else [])
      else if arg = ''-c'' then []
      else if arg = ''-W'' \<or> arg = ''-X'' then (case args of [] \<Rightarrow> [] | _ # rest \<Rightarrow> python_arguments rest)
      else if \<not> py_prefix ''-'' arg then (if path_name arg = ''ticket_template.py'' then args else [])
      else python_arguments args)"

definition script_arguments :: "string list \<Rightarrow> string list" where
  "script_arguments tokens =
     (case dropWhile (\<lambda>a. a = ''env'' \<or> matches assignment_re a) tokens of
        [] \<Rightarrow> []
      | executable # args \<Rightarrow>
          if path_name executable = ''ticket_template.py'' then args
          else if \<not> fullmatches python_name_re (path_name executable) then []
          else python_arguments args)"

definition windows_path_re :: re where
  "windows_path_re = seq [Bol False, Chr ascii_letter, ch CHR '':'', any_of [CHR 92, CHR ''/'']]"

definition has_nonrelative_path :: "string \<Rightarrow> bool" where
  "has_nonrelative_path cmd \<longleftrightarrow>
     list_ex (\<lambda>piece. py_prefix ''/'' piece \<or> py_prefix ''~/'' piece \<or> matches windows_path_re piece)
       (re_split (Chr (\<lambda>c. c = CHR ''='' \<or> py_space c))
         (re_sub (seq [ch (CHR 34), star (none_of [CHR 34]), ch (CHR 34)]) (\<lambda>_. [CHR 34, CHR 34]) cmd))"

definition bare_interpreter :: "string \<Rightarrow> string option" where
  "bare_interpreter cmd =
     map_option (group_text 1) (find (\<lambda>m. \<not> searches VENV_ACTIVATE_RE (f_before m)) (re_finditer BARE_INTERPRETER_RE cmd))"

datatype contract_problem = NoColon | Absolute | Escapes

definition contract_path_problem :: "string \<Rightarrow> contract_problem option" where
  "contract_path_problem path =
     (if path = [] then Some NoColon
      else if py_prefix ''/'' path \<or> py_prefix ''~'' path \<or> matches windows_path_re path then Some Absolute
      else if ''..'' \<in> set (split_on CHR ''/'' path) then Some Escapes
      else None)"

subsection \<open>The rules\<close>

definition labeled_texts :: "ticket \<Rightarrow> (string \<times> string) list" where
  "labeled_texts t =
     (''title'', tk_title t) # (''Summary'', tk_summary t)
     # filter (\<lambda>(_, v). v \<noteq> [])
         [(''What:'', tk_what t), (''Why:'', tk_why t), (''How:'', tk_how t),
          (''Reproduce'', tk_reproduce t), (''Mock-up'', tk_mockup t)]
     @ concat (map (\<lambda>(label, items). map (\<lambda>(i, item). (label @ '' #'' @ str_nat i, item)) (numbered_from_1 items))
         [(''In scope'', tk_in_scope t), (''Out of scope'', tk_out_of_scope t),
          (''Acceptance criteria'', tk_acceptance t), (''Implementation notes'', tk_notes t),
          (''Evidence'', tk_evidence_states t)])
     @ map (Pair ''verify command'') (tk_verify_commands t)
     @ map (\<lambda>(path, literal). (''contract check'', path @ '': '' @ literal)) (tk_contract_checks t)"

definition witnessable_texts :: "ticket \<Rightarrow> (string \<times> string) list" where
  "witnessable_texts t =
     map (\<lambda>(i, ac). (''Acceptance criteria #'' @ str_nat i, ac)) (numbered_from_1 (tk_acceptance_boxes t))
     @ map (Pair ''verify command'') (tk_verify_commands t)
     @ map (\<lambda>(path, _). (''contract check'', path)) (tk_contract_checks t)"

fun fence_tags :: "string \<Rightarrow> bool \<Rightarrow> string list \<Rightarrow> problem list" where
  "fence_tags label in_fence [] = []"
| "fence_tags label in_fence (line # lines) =
     (case re_match FENCE_RE (py_strip line) of
        None \<Rightarrow> fence_tags label in_fence lines
      | Some m \<Rightarrow>
          (let tag = py_strip (group_text 1 m) in if \<not> in_fence \<and> tag \<noteq> [] then [FenceTag label tag] else [])
          @ fence_tags label (\<not> in_fence) lines)"

definition fence_advisories :: "ticket \<Rightarrow> problem list" where
  "fence_advisories t =
     fence_tags ''verify'' False (py_splitlines (section_text t ''Verify command(s)''))
     @ fence_tags ''contract checks'' False (py_splitlines (section_text t ''Contract checks''))"

definition gitignored_path_problems :: "repo_view \<Rightarrow> ticket \<Rightarrow> problem list" where
  "gitignored_path_problems rv t =
     (let asked = concat (map (\<lambda>(label, s). map (Pair label) (path_candidates s)) (witnessable_texts t))
      in List.map_filter (\<lambda>(label, token). if rv_ignored rv token = Some True then Some (Gitignored label token) else None) asked
         @ (if list_ex (\<lambda>(_, token). rv_ignored rv token = None) asked then [IgnoreUnknown] else []))"

definition schema_version_advisories :: "ticket \<Rightarrow> problem list" where
  "schema_version_advisories t =
     concat (map (\<lambda>(section, body). List.map_filter (\<lambda>line.
         if searches SCHEMA_VERSION_RE line then Some (SchemaVersion section (py_strip line)) else None)
       (py_splitlines (uncommented body))) (tk_sections t))"

definition ui_change_problems :: "ticket \<Rightarrow> problem list" where
  "ui_change_problems t =
     (case tk_ui_change t of
        None \<Rightarrow> [] | Some v \<Rightarrow> if py_lower v \<in> set UI_CHANGE_VALUES then [] else [BadUiChange v])"

definition blast_radius_problems :: "ticket \<Rightarrow> problem list" where
  "blast_radius_problems t =
     (case tk_blast_radius t of
        None \<Rightarrow> [] | Some v \<Rightarrow> if py_lower v \<in> set BLAST_RADIUS_VALUES then [] else [BadBlastRadius v])"

definition url_tail :: string where
  "url_tail = ''.,;:!?'' @ [CHR 0x60] @ ''*>'' @ [CHR 34, CHR 39]"

definition mockup_urls :: "string \<Rightarrow> string list" where
  "mockup_urls s =
     map (\<lambda>m. let url = rstrip_of url_tail (f_text m)
           in if py_suffix '')'' url \<and> CHR ''('' \<notin> set url then rstrip_of url_tail (butlast url) else url)
       (re_finditer URL_TOKEN_RE s)"

definition mockup_problems :: "ticket \<Rightarrow> problem list" where
  "mockup_problems t =
     (if ''Mock-up'' \<notin> set (tk_order t) then []
      else let urls = filter (fullmatches MOCKUP_URL_RE) (mockup_urls (tk_mockup t));
               approvals = filter (\<lambda>line. matches APPROVED_RE (py_strip line)) (py_splitlines (tk_mockup t))
           in map ForeignMockup (filter (\<lambda>url. \<not> fullmatches MOCKUP_URL_RE url \<and> mockup_media_kind url = None)
                (mockup_urls (tk_mockup_source t)))
              @ (if urls = [] then [NoDesign] else if 1 < length urls then [ManyDesigns (length urls)] else [])
              @ (if length approvals \<noteq> 1 then [NotOneApproval (length approvals)] else []))"

definition EVIDENCE_STATES_FOR_MOCKUP :: nat where "EVIDENCE_STATES_FOR_MOCKUP = 3"

definition mockup_advisories :: "ticket \<Rightarrow> problem list" where
  "mockup_advisories t =
     (let states = filter (\<lambda>s. s \<noteq> []) (tk_evidence_states t)
      in if length states < EVIDENCE_STATES_FOR_MOCKUP \<or> tk_ui_change t \<noteq> None \<or> ''Mock-up'' \<in> set (tk_order t)
         then [] else [UndeclaredUi (length states)])"

definition OPERATOR_WITNESS_PHRASES :: "string list" where
  "OPERATOR_WITNESS_PHRASES =
     [''after the merge'', ''once merged'', ''on the writer host'', ''operator'', ''visual pass'', ''when viewed'',
      ''by hand'']"

definition operator_witness_advisories :: "ticket \<Rightarrow> problem list" where
  "operator_witness_advisories t =
     List.map_filter (\<lambda>(i, ac). if list_ex (\<lambda>phrase. py_contains phrase (py_lower ac)) OPERATOR_WITNESS_PHRASES
         then Some (OperatorWitness i) else None) (numbered_from_1 (tk_acceptance_boxes t))"

definition blank_template_problems :: "ticket \<Rightarrow> problem list" where
  "blank_template_problems t =
     concat (map (\<lambda>command. List.map_filter (\<lambda>tokens.
         if ''ticketTemplate.md'' \<in> set (map path_name (script_arguments tokens)) then Some (BlankTemplate command) else None)
       (shell_commands command)) (tk_verify_commands t))"

definition available :: "repo_view \<Rightarrow> string list \<times> string list \<Rightarrow> string \<Rightarrow> bool" where
  "available rv declared path \<longleftrightarrow> \<not> rv_outside rv path \<and>
     (rv_exists rv path \<or> path_str path \<in> set (fst declared)
      \<or> list_ex (\<lambda>d. py_prefix (d @ ''/'') (path_str path)) (snd declared)
      \<or> rv_ignored rv path = Some True)"

text \<open>\<^verbatim>\<open>unittest\<close> takes package names and qualified class and method names too.\<close>

definition module_available :: "repo_view \<Rightarrow> string list \<times> string list \<Rightarrow> string \<Rightarrow> bool" where
  "module_available rv declared module =
     (let parts = split_on CHR ''.'' module
      in list_ex (\<lambda>k. available rv declared (join ''/'' (take k parts) @ ''.py'')) (rev [1..<Suc (length parts)])
         \<or> available rv declared (join ''/'' parts @ ''/__init__.py''))"

definition path_problem :: "repo_view \<Rightarrow> string list \<times> string list \<Rightarrow> bool \<Rightarrow> string \<Rightarrow> string \<Rightarrow> problem option" where
  "path_problem rv declared prose label path =
     (if rv_outside rv path then Some (OutsideRepo label path)
      else if \<not> available rv declared path then Some (MissingPath prose label path)
      else None)"

definition repository_problems :: "repo_view \<Rightarrow> ticket \<Rightarrow> problem list" where
  "repository_problems rv t =
     (let declared = new_paths t;
          texts = map (\<lambda>(i, s). (''Acceptance criteria #'' @ str_nat i, s)) (numbered_from_1 (tk_acceptance_boxes t))
            @ [(''Implementation notes'', section_text t ''Implementation notes'')]
      in concat (map (\<lambda>(label, s). List.map_filter (path_problem rv declared True label) (dedup (prose_paths s))) texts)
         @ concat (map (\<lambda>command.
             List.map_filter (path_problem rv declared False ''verify command'') (verify_paths command)
             @ concat (map (\<lambda>tokens. map MissingModule
                 (filter (\<lambda>m. \<not> module_available rv declared m) (unittest_modules tokens))) (shell_commands command)))
           (tk_verify_commands t)))"

subsection \<open>Facts\<close>

lemma contract_path_safe:
  assumes "contract_path_problem path = None"
  shows "path \<noteq> [] \<and> hd path \<noteq> CHR ''/'' \<and> hd path \<noteq> CHR ''~''
    \<and> ''..'' \<notin> set (split_on CHR ''/'' path)"
  using assms by (cases path) (auto simp: contract_path_problem_def split: if_split_asm)

text \<open>Masking the code spans moves nothing: the positions of the text stay.\<close>

lemma all_from_lengths:
  "length (concat (map (\<lambda>(t, m). t @ replicate (length (f_text m)) fill) ms) @ rest) =
   length (concat (map (\<lambda>(t, m). t @ f_text m) ms) @ rest)"
  by (induction ms) (auto simp: case_prod_beta)

lemma mask_code_spans_length [simp]: "length (mask_code_spans fill s) = length s"
proof -
  obtain ms rest where a: "re_all SPAN_RE s = (ms, rest)" by (cases "re_all SPAN_RE s")
  have "concat (map (\<lambda>(t, m). t @ f_text m) ms) @ rest = s"
    using all_from_text [of SPAN_RE False "[]" s] a by (simp add: re_all_def)
  then show ?thesis
    using all_from_lengths [of fill ms rest] by (simp add: mask_code_spans_def re_sub_def a)
qed

lemma command_groups_concat:
  "concat (command_groups cur toks) = cur @ filter (\<lambda>tok. tok = [] \<or> \<not> list_all shell_punct tok) toks"
  by (induction cur toks rule: command_groups.induct) auto

lemma new_paths_directories: "set (snd (new_paths t)) \<subseteq> set (fst (new_paths t))"
  by (auto simp: new_paths_def Let_def)

end
