(* ===== verification/TicketAdvice.thy ===== *)
theory TicketAdvice
  imports TicketRules
begin

section \<open>TicketAdvice: the advisories on verify commands and criteria\<close>

text \<open>
  \<^verbatim>\<open>holophyte/tickets/ticket_advisories.py\<close>, with the test files a criterion names
  (\<^verbatim>\<open>named_files\<close> of \<^verbatim>\<open>review/witness_precheck.py\<close>) and the runs it asks for (\<^verbatim>\<open>demands\<close> of
  \<^verbatim>\<open>review/main_baseline.py\<close>). The tracked files and whether the lint fails on main are fields of
  \<open>repo_view\<close>; \<open>fnmatch_re\<close> is \<^verbatim>\<open>fnmatch.translate\<close>.

  The lemmas: every file a criterion names is a test file; the criteria that say "the same test"
  repeat the files of the last criterion that named one.
\<close>

subsection \<open>Shell patterns\<close>

text \<open>The inside of a bracket: characters and ranges, a reversed range matching nothing.\<close>

fun class_ranges :: "string \<Rightarrow> (char \<times> char) list" where
  "class_ranges (x # d # y # rest) =
     (if d = CHR ''-'' then (x, y) # class_ranges rest else (x, x) # class_ranges (d # y # rest))"
| "class_ranges [x, y] = [(x, x), (y, y)]"
| "class_ranges [x] = [(x, x)]"
| "class_ranges [] = []"

definition in_class :: "string \<Rightarrow> char \<Rightarrow> bool" where
  "in_class body c \<longleftrightarrow>
     (let (negated, inner) = (case body of [] \<Rightarrow> (False, []) | b # bs \<Rightarrow> if b = CHR ''!'' then (True, bs) else (False, body))
      in list_ex (\<lambda>(lo, hi). (of_char lo :: nat) \<le> of_char c \<and> (of_char c :: nat) \<le> of_char hi) (class_ranges inner)
         \<noteq> negated)"

text \<open>Where the bracket that opens here closes: the length of its inside.\<close>

definition class_length :: "string \<Rightarrow> nat option" where
  "class_length s =
     (let skip1 = (case s of [] \<Rightarrow> 0 | c # _ \<Rightarrow> if c = CHR ''!'' then (1 :: nat) else 0);
          skip2 = (case drop skip1 s of [] \<Rightarrow> skip1 | c # _ \<Rightarrow> if c = CHR '']'' then skip1 + 1 else skip1);
          rest = drop skip2 s
      in if CHR '']'' \<in> set rest then Some (skip2 + length (takeWhile (\<lambda>c. c \<noteq> CHR '']'') rest)) else None)"

function fnmatch_re :: "string \<Rightarrow> re" where
  "fnmatch_re s =
     (case s of
        [] \<Rightarrow> Eps
      | c # cs \<Rightarrow>
          if c = CHR ''*'' then Cat (star dot_all) (fnmatch_re cs)
          else if c = CHR ''?'' then Cat dot_all (fnmatch_re cs)
          else if c = CHR ''['' then
            (case class_length cs of
               None \<Rightarrow> Cat (ch c) (fnmatch_re cs)
             | Some n \<Rightarrow> Cat (Chr (in_class (take n cs))) (fnmatch_re (drop (Suc n) cs)))
          else Cat (ch c) (fnmatch_re cs))"
  by pat_completeness auto
termination
  by (relation "measure length") (auto simp: less_Suc_eq_le)

declare fnmatch_re.simps [simp del]

definition fnmatchcase :: "string \<Rightarrow> string \<Rightarrow> bool" where
  "fnmatchcase name pat \<longleftrightarrow> fullmatches (fnmatch_re pat) name"

subsection \<open>The test files a criterion names\<close>

definition TEST_FILE :: re where
  "TEST_FILE = alts
     [seq [lit ''test_'', star dot, lit ''.py''],
      seq [star dot, lit ''_test.'', alts [lit ''py'', lit ''go'']],
      seq [star dot, ch CHR ''.'', alts [lit ''test'', lit ''spec''], ch CHR ''.'',
        alts [lit ''js'', lit ''jsx'', lit ''ts'', lit ''tsx'', lit ''mjs'']]]"

definition UNITTEST :: re where
  "UNITTEST = seq [lit ''-m'', plus space, lit ''unittest'', Ahead True (alts [space, Eol False]), Grp 1 (star dot)]"

definition DOTTED :: re where
  "DOTTED = (let name = seq [Chr (\<lambda>c. ascii_letter c \<or> c = CHR ''_''), star word]
     in seq [name, plus (seq [ch CHR ''.'', name])])"

definition SAME :: re where
  "SAME = seq [Bnd, alts
     [seq [lit_i ''the same '', alts [lit_i ''test file'', lit_i ''file'', lit_i ''test class'', lit_i ''spec'', lit_i ''check'']],
      lit_i ''that test''], Bnd]"

definition dotted_path :: "string \<Rightarrow> string option" where
  "dotted_path w =
     (let parts = split_on CHR ''.'' w
      in map_option (\<lambda>k. join ''/'' (take (Suc k) parts) @ ''.py'')
           (find (\<lambda>k. fullmatches TEST_FILE (parts ! k @ ''.py'')) [0..<length parts]))"

fun before_colons :: "string \<Rightarrow> string" where
  "before_colons (a # b # s) = (if a = CHR '':'' \<and> b = CHR '':'' then [] else a # before_colons (b # s))"
| "before_colons s = s"

definition span_files :: "string \<Rightarrow> string list" where
  "span_files span =
     (case re_search UNITTEST span of
        Some m \<Rightarrow> List.map_filter (\<lambda>w. if fullmatches DOTTED w then dotted_path w else None) (py_words (group_text 1 m))
      | None \<Rightarrow>
          let path = before_colons (py_strip span)
          in if path = [] \<or> list_ex py_space path then []
             else if fullmatches TEST_FILE (last (split_on CHR ''/'' path)) then [path] else [])"

fun named_from :: "string list \<Rightarrow> string list \<Rightarrow> string list list" where
  "named_from latest [] = []"
| "named_from latest (s # rest) =
     (let own = dedup (concat (map (\<lambda>m. span_files (group_text 1 m)) (re_finditer SPAN_RE s)));
          files = (if own = [] \<and> searches SAME s then latest else own)
      in files # named_from (if files = [] then latest else files) rest)"

definition named_files :: "string list \<Rightarrow> string list list" where
  "named_files criteria = named_from [] criteria"

subsection \<open>The runs a criterion asks for\<close>

datatype run_form = OnMain | AsOnMain | Reverted | OtherForm

definition run_form_of :: "string \<Rightarrow> run_form option" where
  "run_form_of sentence =
     (if \<not> py_contains (''that run'' @ [CHR 39] @ ''s output is in the implementer output'') sentence then None
      else if py_prefix ''On main'' sentence then Some OnMain
      else if py_contains ''as on main'' sentence then Some AsOnMain
      else if py_prefix ''With the change reverted'' sentence then Some Reverted
      else Some OtherForm)"

definition demands :: "string \<Rightarrow> run_form list" where
  "demands s =
     List.map_filter (\<lambda>sentence. run_form_of (py_strip sentence))
       (re_split (Cat (Behind True (\<lambda>c. c \<in> set ''.!?'')) (plus space)) (py_strip s))"

definition wanted_runs :: "(nat \<times> string) list \<Rightarrow> (nat \<times> run_form \<times> string list) list" where
  "wanted_runs pairs =
     List.map_filter (\<lambda>((n, s), files). case find (\<lambda>f. f \<noteq> OtherForm) (demands s) of
         None \<Rightarrow> None | Some form \<Rightarrow> if files = [] then None else Some (n, form, files))
       (zip pairs (named_files (map snd pairs)))"

subsection \<open>Whole suites and counts\<close>

definition discovers_whole_suite :: "string list \<Rightarrow> bool" where
  "discovers_whole_suite tokens \<longleftrightarrow>
     (case dropWhile (\<lambda>a. a \<noteq> ''discover'') (case unittest_args tokens of None \<Rightarrow> [] | Some args \<Rightarrow> args) of
        [] \<Rightarrow> False
      | _ # after \<Rightarrow> \<not> list_ex (\<lambda>a. py_prefix ''-p'' a \<or> py_prefix ''--pattern'' a) after)"

definition suite_advisories :: "ticket \<Rightarrow> problem list" where
  "suite_advisories t =
     map WholeSuite (filter (\<lambda>cmd. list_ex discovers_whole_suite (shell_commands cmd)) (tk_verify_commands t))"

definition COUNT_RE :: re where
  "COUNT_RE = alts
     [seq [Bnd, lit ''Ran '', plus digit, lit '' test'', maybe (ch CHR ''s''), Bnd],
      seq [Bnd, alts [lit ''failures'', lit ''errors'', lit ''passed'', lit ''failed''], ch CHR ''='', plus digit, Bnd],
      seq [Behind False (\<lambda>c. word_char c \<or> c \<in> set ''#.-''), plus digit, ch CHR '' '',
        maybe (seq [lit ''test'', maybe (ch CHR ''s''), ch CHR '' '']),
        alts [seq [lit ''pass'', maybe (alts [lit ''ed'', lit ''ing''])],
              seq [lit ''fail'', maybe (alts [lit ''ed'', lit ''s'', lit ''ing'', seq [lit ''ure'', maybe (ch CHR ''s'')]])]],
        Bnd]]"

definition ORDINAL_WORDS :: "string list" where
  "ORDINAL_WORDS =
     [''attempt'', ''case'', ''check'', ''code'', ''criteria'', ''criterion'', ''exit'', ''item'', ''line'', ''phase'',
      ''round'', ''run'', ''stage'', ''status'', ''step'', ''test'']"

definition ADDING_WORDS :: "string list" where
  "ADDING_WORDS = [''add'', ''added'', ''adding'', ''adds'', ''new'']"

definition ID_CHAIN_RE :: re where
  "ID_CHAIN_RE = seq [plus (seq [Bnd, Grp 1 (star (Chr ascii_letter)), plus digit, star space,
     alts [ch CHR '','', seq [Bnd, lit ''and'', Bnd], seq [Bnd, lit ''or'', Bnd]], star space]), Eol False]"

definition names_an_item :: "string \<Rightarrow> bool" where
  "names_an_item before_count \<longleftrightarrow>
     (let last_word = (\<lambda>s. case re_search (seq [Grp 1 (plus word), star (Chr (\<lambda>c. \<not> word_char c)), Eol False]) s of
            None \<Rightarrow> False | Some m \<Rightarrow> py_lower (group_text 1 m) \<in> set ORDINAL_WORDS \<union> set ADDING_WORDS)
      in case re_search ID_CHAIN_RE before_count of
           None \<Rightarrow> last_word before_count
         | Some chain \<Rightarrow> group_text 1 chain \<noteq> [] \<or> last_word (f_before chain))"

definition counts :: "string \<Rightarrow> string list" where
  "counts s = map f_text (filter (\<lambda>m. \<not> names_an_item (f_before m)) (re_finditer COUNT_RE s))"

definition count_advisories :: "ticket \<Rightarrow> problem list" where
  "count_advisories t =
     List.map_filter (\<lambda>(label, s). if counts s = [] then None else Some (HardCount label (counts s) s))
       (map (\<lambda>(i, s). (''criterion '' @ str_nat i, s)) (numbered_from_1 (tk_acceptance_boxes t))
        @ map (Pair ''verify command'') (tk_verify_commands t))"

definition baseline_advisories :: "ticket \<Rightarrow> problem list" where
  "baseline_advisories t =
     concat (map (\<lambda>(i, s, files).
         (if OtherForm \<in> set (demands s) then [OtherState i s] else [])
         @ (if files = [] \<and> list_ex (\<lambda>f. f \<noteq> OtherForm) (demands s) then [NoTestFile i s] else []))
       (numbered_from_1 (zip (tk_acceptance_boxes t) (named_files (tk_acceptance_boxes t)))))"

subsection \<open>Wide verify commands and lint\<close>

fun glob_matches :: "string list \<Rightarrow> string list \<Rightarrow> bool" where
  "glob_matches [] path = (path = [])"
| "glob_matches (p # ps) path =
     (if p = ''**'' then list_ex (\<lambda>i. glob_matches ps (drop i path)) [0..<Suc (length path)]
      else case path of [] \<Rightarrow> False | q # qs \<Rightarrow> fnmatchcase q p \<and> glob_matches ps qs)"

definition GLOB_TOKEN_RE :: re where
  "GLOB_TOKEN_RE = (let part = Chr (\<lambda>c. word_char c \<or> c \<in> set ''.*?/[]-'')
     in seq [star part, any_of ''*?'', star part])"

definition glob_base :: "string \<Rightarrow> string" where
  "glob_base pat =
     (let parts = (if path_root pat = [] then [] else [path_root pat]) @ path_parts pat;
          fixed = takeWhile (\<lambda>part. CHR ''*'' \<notin> set part \<and> CHR ''?'' \<notin> set part) (butlast parts)
      in fold (\<lambda>part p. path_join p part) fixed ''.'')"

definition selections :: "string list \<Rightarrow> string list \<Rightarrow> (string \<times> string \<times> string list) list" where
  "selections tokens tracked =
     (case discover_pattern tokens of
        Some (_, pat) \<Rightarrow>
          let start = path_parent pat; prefix = (if start = ''.'' then [] else start @ ''/'')
          in [(pat, start, filter (\<lambda>f. py_prefix prefix f
               \<and> fnmatchcase (last (split_on CHR ''/'' f)) (path_name pat)) tracked)]
      | None \<Rightarrow>
          if (case tokens of [] \<Rightarrow> False | a # _ \<Rightarrow> a = ''cd'' \<or> a = ''pushd'') then []
          else List.map_filter (\<lambda>(previous, token).
                 let token = remove_prefix ''./'' token
                 in if previous \<noteq> ''-k'' \<and> previous \<noteq> ''-m'' \<and> fullmatches GLOB_TOKEN_RE token
                    then Some (token, glob_base token, filter (\<lambda>f. glob_matches (split_on CHR ''/'' token) (split_on CHR ''/'' f)) tracked)
                    else None) (zip ([] # tokens) tokens)
               @ map (\<lambda>path. let dir = rstrip_of ''/'' (remove_prefix ''./'' path)
                   in (path, dir, filter (py_prefix (dir @ ''/'')) tracked)) (repo_paths (join '' '' tokens)))"

definition wide_verify_advisories :: "repo_view \<Rightarrow> ticket \<Rightarrow> problem list" where
  "wide_verify_advisories rv t =
     (let named = map (remove_prefix ''./'') (prose_paths (section_text t ''In scope''))
      in if named = [] then []
         else concat (map (\<lambda>cmd. concat (map (\<lambda>tokens. List.map_filter (\<lambda>(selection, base, covered).
             let hits = filter (\<lambda>f. f \<in> set named) covered
             in if hits = [] \<or> length hits = length covered
                  \<or> list_ex (\<lambda>p. base = rstrip_of ''/'' p \<or> py_prefix (rstrip_of ''/'' p @ ''/'') base) named
                then None else Some (WideVerify selection (length covered) (length hits) cmd))
             (selections tokens (rv_tracked rv))) (shell_commands cmd))) (tk_verify_commands t)))"

definition LINT_VALUE_OPTIONS :: "string list" where
  "LINT_VALUE_OPTIONS =
     [''--select'', ''--ignore'', ''--extend-select'', ''--extend-ignore'', ''--fixable'', ''--unfixable'',
      ''--extend-fixable'', ''--per-file-ignores'', ''--extend-per-file-ignores'', ''--exclude'',
      ''--extend-exclude'', ''--config'', ''--output-format'', ''--output-file'', ''-o'', ''--target-version'',
      ''--line-length'', ''--cache-dir'', ''--stdin-filename'']"

definition PYTHON_RE :: re where
  "PYTHON_RE = seq [maybe (seq [star dot, ch CHR ''/'']), lit ''python'', star (Chr (\<lambda>c. is_digit_char c \<or> c = CHR ''.''))]"

definition ruff_arguments :: "string list \<Rightarrow> string list option" where
  "ruff_arguments tokens =
     (case dropWhile (\<lambda>a. a \<in> {''env'', ''exec'', ''time''} \<or> CHR ''='' \<in> set a) tokens of
        [] \<Rightarrow> None
      | a # rest \<Rightarrow>
          if a = ''ruff'' \<or> py_suffix ''/ruff'' a then Some rest
          else if fullmatches PYTHON_RE a \<and> take 2 rest = [''-m'', ''ruff''] then Some (drop 2 rest) else None)"

definition lints_whole_repository :: "string list \<Rightarrow> bool" where
  "lints_whole_repository tokens \<longleftrightarrow>
     (case ruff_arguments tokens of
        Some (a # rest) \<Rightarrow> a = ''check'' \<and> list_all (\<lambda>(earlier, p).
          (p = ''-'' \<or> \<not> py_prefix ''-'' p) \<and> earlier \<notin> set LINT_VALUE_OPTIONS \<longrightarrow> p = ''.'' \<or> p = ''./'')
          (zip (a # rest) rest)
      | _ \<Rightarrow> False)"

definition lint_advisories :: "repo_view \<Rightarrow> ticket \<Rightarrow> problem list" where
  "lint_advisories rv t =
     (case rv_lint_fails rv of
        None \<Rightarrow> []
      | Some sha \<Rightarrow> map (LintOnMain (take 12 sha))
          (filter (\<lambda>cmd. list_ex lints_whole_repository (shell_commands cmd)) (tk_verify_commands t)))"

definition advisories :: "ticket \<Rightarrow> repo_view option \<Rightarrow> problem list" where
  "advisories t repo =
     suite_advisories t @ count_advisories t @ baseline_advisories t
     @ (case repo of None \<Rightarrow> [] | Some rv \<Rightarrow> wide_verify_advisories rv t @ lint_advisories rv t)"

subsection \<open>Facts\<close>

lemma advisories_advise: "p \<in> set (advisories t repo) \<Longrightarrow> advisory p"
  by (auto simp: advisories_def suite_advisories_def count_advisories_def baseline_advisories_def
      wide_verify_advisories_def lint_advisories_def Let_def set_map_filter
      split: option.splits if_split_asm)

lemma named_from_length [simp]: "length (named_from latest cs) = length cs"
  by (induction latest cs rule: named_from.induct) (simp_all add: Let_def)

lemma named_files_length [simp]: "length (named_files cs) = length cs"
  by (simp add: named_files_def)

text \<open>Every file named was named by a code span of this criterion or of an earlier one.\<close>

lemma named_from_source:
  "fs \<in> set (named_from latest cs) \<Longrightarrow> f \<in> set fs \<Longrightarrow>
   f \<in> set latest \<or> (\<exists>s \<in> set cs. \<exists>m \<in> set (re_finditer SPAN_RE s). f \<in> set (span_files (group_text 1 m)))"
proof (induction latest cs arbitrary: fs rule: named_from.induct)
  case (2 latest s rest)
  define own where "own = dedup (concat (map (\<lambda>m. span_files (group_text 1 m)) (re_finditer SPAN_RE s)))"
  define files where "files = (if own = [] \<and> searches SAME s then latest else own)"
  have own: "g \<in> set own \<Longrightarrow> \<exists>m \<in> set (re_finditer SPAN_RE s). g \<in> set (span_files (group_text 1 m))" for g
    by (auto simp: own_def)
  have here: "g \<in> set files \<Longrightarrow> g \<in> set latest \<or> g \<in> set own" for g
    by (auto simp: files_def split: if_split_asm)
  have "named_from latest (s # rest) = files # named_from (if files = [] then latest else files) rest"
    by (simp add: Let_def own_def files_def)
  then consider "fs = files" | "fs \<in> set (named_from (if files = [] then latest else files) rest)"
    using 2(2) by auto
  then show ?case
  proof cases
    case 1
    then show ?thesis using here own 2(3) by fastforce
  next
    case 2
    have "f \<in> set (if files = [] then latest else files)
        \<or> (\<exists>s \<in> set rest. \<exists>m \<in> set (re_finditer SPAN_RE s). f \<in> set (span_files (group_text 1 m)))"
      using "2.IH" [OF own_def files_def 2 \<open>f \<in> set fs\<close>] .
    then show ?thesis using here own by (fastforce split: if_split_asm)
  qed
qed simp

end
