(* ===== verification/StoryTemplate.thy ===== *)
theory StoryTemplate
  imports StoryGraph TicketTemplate
begin

section \<open>StoryTemplate: the judgement of a story's files\<close>

text \<open>
  \<^verbatim>\<open>holophyte/tickets/story_template.py\<close>. A story directory is \<open>story_dir\<close>: the body, the files of
  \<^verbatim>\<open>children/\<close> and what \<^verbatim>\<open>witnesses/\<close> holds at a path (nothing when the path leaves the tree or
  is no file). A problem line is a constructor of \<open>story_problem\<close>.

  The lemmas: a plan with no blocking problem is acyclic, its slugs are distinct, each witness is
  completed by exactly one child and that child comes after every child that advances the witness.
\<close>

subsection \<open>Patterns\<close>

definition STORY_ORDER :: "string list" where
  "STORY_ORDER = [''Summary'', ''Goal'', ''Witnesses'', ''Witness commands'', ''Standing orders'', ''Out of scope'',
     ''Open questions'']"

definition MAX_CHILDREN :: nat where "MAX_CHILDREN = 10"
definition MAX_WITNESSES :: nat where "MAX_WITNESSES = 10"
definition ADVISED_WITNESSES :: nat where "ADVISED_WITNESSES = 5"
definition MAX_STANDING_ORDERS :: nat where "MAX_STANDING_ORDERS = 5"
definition MAX_WITNESS_PATHS :: nat where "MAX_WITNESS_PATHS = 10"

definition checkbox_re :: re where
  "checkbox_re = seq [Bol False, ch CHR ''['', any_of '' xX'', ch CHR '']'', star space]"

definition witness_key_re :: re where "witness_key_re = seq [ch CHR ''W'', plus digit]"

definition WITNESS_RE :: re where
  "WITNESS_RE = seq [checkbox_re, Grp 1 witness_key_re, ch CHR '':'', star space, Grp 2 (plus_lazy dot), star space,
     lit ''(a test in '', Grp 3 (plus non_space), lit '' witnesses '', plus (none_of ''()''), ch CHR '')'', Eol False]"

definition COMMAND_RE :: re where
  "COMMAND_RE = seq [Bol False, Grp 1 witness_key_re, ch CHR '':'', star space, Grp 2 (seq [non_space, star dot]),
     Eol False]"

definition KEY_RE :: re where
  "KEY_RE = seq [checkbox_re, Grp 1 witness_key_re, ch CHR '':'']"

definition CHILD_NAME_RE :: re where
  "CHILD_NAME_RE = seq [Bol False, exactly 2 digit, ch CHR ''-'', Grp 1 (plus dot), lit ''.md'', Eol False]"

definition HEADER_RE :: re where
  "HEADER_RE = (let gap = star (any_of [CHR '' '', CHR 9])
     in seq [Bol False, lit ''Ticket:'', gap, plus non_space, gap, ch (CHR 10)])"

definition ROLE_RE :: re where
  "ROLE_RE = seq [Bol False, lit ''Role:'', star space, alts
     [Grp 1 (lit ''scaffolding''),
      seq [Grp 2 (alts [lit ''completes'', lit ''advances'']), plus space,
        Grp 3 (seq [witness_key_re, star (seq [star space, ch CHR '','', star space, witness_key_re])])]], Eol False]"

definition SKIP_CALLS :: "string list" where
  "SKIP_CALLS = [''skipTest('', ''unittest.skip'', ''pytest.skip'', ''pytest.mark.skip'']"

definition ONE_PASS_WORDS :: "string list" where
  "ONE_PASS_WORDS = [''one pass'', ''first pass'', ''immediately'']"

subsection \<open>The body\<close>

record story_witness =
  sw_key :: string
  sw_outcome :: string
  sw_file :: string
  sw_command :: "string option"
  sw_line :: string

record story_body =
  sb_order :: "string list"
  sb_sections :: "(string \<times> string) list"
  sb_witness_lines :: "string list"
  sb_witnesses :: "story_witness list"
  sb_standing_orders :: "string list"
  sb_open_questions_none :: bool
  sb_path_lines :: "string list"

datatype child_part = Completing | Advancing | Scaffold

record story_child =
  ch_name :: string
  ch_slug :: string
  ch_ticket :: ticket
  ch_role :: "child_part option"
  ch_witnesses :: "string list"
  ch_depends_on :: "string list"

record story_dir =
  sd_body :: "string option"
  sd_children :: "(string \<times> string) list"
  sd_witness_file :: "string \<Rightarrow> string option"

definition section_items :: "ticket \<Rightarrow> string \<Rightarrow> string list" where
  "section_items t name = list_items (uncommented (section_text t name))"

definition is_witness_path :: "string \<Rightarrow> bool" where
  "is_witness_path line \<longleftrightarrow> \<not> py_prefix ''/'' line \<and> ''..'' \<notin> set (split_on CHR ''/'' line)"

definition witness_paths :: "story_body \<Rightarrow> string list" where
  "witness_paths story = filter is_witness_path (sb_path_lines story)"

definition witness_commands :: "ticket \<Rightarrow> (string \<times> string) list" where
  "witness_commands t =
     List.map_filter (\<lambda>line. map_option (\<lambda>m. (group_text 1 m, py_strip (group_text 2 m))) (re_match COMMAND_RE line))
       (fenced_lines (uncommented (section_text t ''Witness commands'')))"

definition parse_story :: "(string \<Rightarrow> (string \<times> toml) list option) \<Rightarrow> string \<Rightarrow> story_body" where
  "parse_story loads txt =
     (let t = parse loads txt; commands = witness_commands t; lines = section_items t ''Witnesses''
      in \<lparr>sb_order = tk_order t, sb_sections = tk_sections t, sb_witness_lines = lines,
          sb_witnesses = List.map_filter (\<lambda>line. map_option (\<lambda>m.
              \<lparr>sw_key = group_text 1 m, sw_outcome = group_text 2 m, sw_file = group_text 3 m,
               sw_command = map_of commands (group_text 1 m), sw_line = line\<rparr>) (re_match WITNESS_RE line)) lines,
          sb_standing_orders = section_items t ''Standing orders'',
          sb_open_questions_none = tk_open_questions_none t,
          sb_path_lines = fenced_lines (uncommented (section_text t ''Witness paths''))\<rparr>)"

datatype story_problem =
    NoStoryBody
  | LacksSection string
  | NoWitnesses
  | ManyWitnesses nat
  | LargeStory nat
  | WitnessForm string
  | NoCommand string
  | SharedFile string string string
  | NotRepoPath string
  | ManyPaths nat
  | ManyOrders nat
  | StoryQuestions
  | OutsideWitness string string
  | MissingWitnessFile string string
  | SkippedWitness string string
  | OnePass string bool string
  | GitignoredWitness string string
  | WitnessesUnchecked
  | InvalidChild string "problem list"
  | ChildAdvice string problem
  | NoStorySection string
  | NoRole string
  | UnknownWitness string string
  | NotCompleted string
  | CompletedBy string "string list"
  | NotDeclaredNew string string string
  | NoSibling string string
  | PlanCycle "string list"
  | NotAfter string string string
  | IdleScaffolding string
  | SharedPath string string string
  | ManyChildren nat
  | SharedSlug string string string

fun story_advisory :: "story_problem \<Rightarrow> bool" where
  "story_advisory (LargeStory _) = True"
| "story_advisory (SkippedWitness _ _) = True"
| "story_advisory (OnePass _ _ _) = True"
| "story_advisory WitnessesUnchecked = True"
| "story_advisory (ChildAdvice _ _) = True"
| "story_advisory (IdleScaffolding _) = True"
| "story_advisory (SharedPath _ _ _) = True"
| "story_advisory _ = False"

text \<open>\<^verbatim>\<open>posixpath.normpath\<close>.\<close>

fun normal_parts :: "bool \<Rightarrow> string list \<Rightarrow> string list \<Rightarrow> string list" where
  "normal_parts rooted kept [] = rev kept"
| "normal_parts rooted kept (c # cs) =
     (if c = [] \<or> c = ''.'' then normal_parts rooted kept cs
      else if c \<noteq> ''..'' \<or> \<not> rooted \<and> kept = [] \<or> kept \<noteq> [] \<and> hd kept = ''..''
      then normal_parts rooted (c # kept) cs
      else normal_parts rooted (tl kept) cs)"

definition normpath :: "string \<Rightarrow> string" where
  "normpath p =
     (let s = path_root p @ join ''/'' (normal_parts (path_root p \<noteq> []) [] (split_on CHR ''/'' p))
      in if s = [] then ''.'' else s)"

text \<open>The witnesses one by one, with the key that first named each file.\<close>

fun owner_problems :: "(string \<times> string) list \<Rightarrow> story_witness list \<Rightarrow> story_problem list" where
  "owner_problems owners [] = []"
| "owner_problems owners (w # ws) =
     (let file = normpath (sw_file w)
      in (if sw_command w = None then [NoCommand (sw_key w)] else [])
         @ (case map_of owners file of
              None \<Rightarrow> owner_problems ((file, sw_key w) # owners) ws
            | Some key \<Rightarrow> SharedFile key (sw_key w) (sw_file w) # owner_problems owners ws))"

definition body_problems :: "story_body \<Rightarrow> story_problem list" where
  "body_problems story =
     (let count = length (sb_witness_lines story)
      in map LacksSection (filter (\<lambda>name. name \<notin> set (sb_order story)) STORY_ORDER)
         @ (if count = 0 then [NoWitnesses]
            else if MAX_WITNESSES < count then [ManyWitnesses count]
            else if ADVISED_WITNESSES < count then [LargeStory count] else [])
         @ map WitnessForm (filter (\<lambda>line. \<not> matches WITNESS_RE line) (sb_witness_lines story))
         @ owner_problems [] (sb_witnesses story)
         @ map NotRepoPath (filter (\<lambda>line. \<not> is_witness_path line) (sb_path_lines story))
         @ (if MAX_WITNESS_PATHS < length (sb_path_lines story) then [ManyPaths (length (sb_path_lines story))] else [])
         @ (if MAX_STANDING_ORDERS < length (sb_standing_orders story)
            then [ManyOrders (length (sb_standing_orders story))] else [])
         @ (if sb_open_questions_none story then [] else [StoryQuestions]))"

subsection \<open>The witness files\<close>

definition one_pass_word :: "string \<Rightarrow> string option" where
  "one_pass_word s = find (\<lambda>w. py_contains w (py_lower s)) ONE_PASS_WORDS"

definition one_pass_advisories :: "story_witness \<Rightarrow> string \<Rightarrow> story_problem list" where
  "one_pass_advisories w file_text =
     (case one_pass_word (sw_line w) of
        Some phrase \<Rightarrow> [OnePass (sw_key w) True phrase]
      | None \<Rightarrow> (case one_pass_word file_text of Some phrase \<Rightarrow> [OnePass (sw_key w) False phrase] | None \<Rightarrow> []))"

definition witness_file_problems :: "story_dir \<Rightarrow> repo_view option \<Rightarrow> story_witness \<Rightarrow> story_problem list" where
  "witness_file_problems sd repo w =
     (if (case repo of None \<Rightarrow> False | Some rv \<Rightarrow> rv_outside rv (sw_file w))
      then [OutsideWitness (sw_key w) (sw_file w)]
      else (case sd_witness_file sd (sw_file w) of
              None \<Rightarrow> [MissingWitnessFile (sw_key w) (sw_file w)]
            | Some s \<Rightarrow>
                (case find (\<lambda>call. py_contains call s) SKIP_CALLS of None \<Rightarrow> [] | Some call \<Rightarrow> [SkippedWitness (sw_key w) call])
                @ one_pass_advisories w s))"

definition ignore_problems :: "repo_view \<Rightarrow> story_witness list \<Rightarrow> story_problem list" where
  "ignore_problems rv ws =
     (let inside = filter (\<lambda>w. \<not> rv_outside rv (sw_file w)) ws
      in map (\<lambda>w. GitignoredWitness (sw_key w) (sw_file w)) (filter (\<lambda>w. rv_ignored rv (sw_file w) = Some True) inside)
         @ (if list_ex (\<lambda>w. rv_ignored rv (sw_file w) = None) inside then [WitnessesUnchecked] else []))"

subsection \<open>The children\<close>

fun role_in :: "string list \<Rightarrow> child_part option \<times> string list" where
  "role_in [] = (None, [])"
| "role_in (line # lines) =
     (case re_match ROLE_RE (py_strip line) of
        None \<Rightarrow> role_in lines
      | Some m \<Rightarrow>
          if group 1 m \<noteq> None then (Some Scaffold, [])
          else (Some (if group_text 2 m = ''completes'' then Completing else Advancing),
                map py_strip (split_on CHR '','' (group_text 3 m))))"

definition child_role_of :: "ticket \<Rightarrow> child_part option \<times> string list" where
  "child_role_of t = role_in (py_splitlines (uncommented (section_text t ''Story'')))"

definition path_stem :: "string \<Rightarrow> string" where
  "path_stem name = take (length name - length (path_suffix name)) name"

definition parse_child :: "(string \<Rightarrow> (string \<times> toml) list option) \<Rightarrow> string \<times> string \<Rightarrow> story_child" where
  "parse_child loads file =
     (let (name, txt) = file; t = parse loads (re_sub_once HEADER_RE [] txt); (role, keys) = child_role_of t
      in \<lparr>ch_name = path_stem name,
          ch_slug = (case re_match CHILD_NAME_RE name of Some m \<Rightarrow> group_text 1 m | None \<Rightarrow> path_stem name),
          ch_ticket = t, ch_role = role, ch_witnesses = keys,
          ch_depends_on = (case tk_depends_on t of None \<Rightarrow> [] | Some ds \<Rightarrow> ds)\<rparr>)"

definition parse_children :: "(string \<Rightarrow> (string \<times> toml) list option) \<Rightarrow> story_dir \<Rightarrow> story_child list" where
  "parse_children loads sd =
     map (parse_child loads)
       (sort_key (\<lambda>(name, _). map (of_char :: char \<Rightarrow> nat) name)
         (filter (\<lambda>(name, _). py_suffix ''.md'' name) (sd_children sd)))"

text \<open>A sibling's slug stands for the key its ticket will get; an unknown name is left out here
  and reported by \<open>graph_problems\<close>.\<close>

definition placeholders :: "story_child list \<Rightarrow> (string \<times> string) list" where
  "placeholders children = rev (map (\<lambda>(i, c). (ch_slug c, ''STORY-'' @ str_nat i)) (numbered_from_1 children))"

definition filed_ticket :: "story_child list \<Rightarrow> story_child \<Rightarrow> ticket" where
  "filed_ticket children child =
     (let t = ch_ticket child; names = placeholders children
      in t\<lparr>tk_depends_on := map_option (List.map_filter (\<lambda>d.
            case map_of names d of Some p \<Rightarrow> Some p
            | None \<Rightarrow> if matches LINEAR_ID_RE d then Some d else None)) (tk_depends_on t)\<rparr>)"

definition child_problems :: "story_child list \<Rightarrow> repo_view option \<Rightarrow> story_problem list" where
  "child_problems children repo =
     concat (map (\<lambda>child.
       let found = validate (filed_ticket children child) repo; blockers = blocking found
       in (if blockers = [] then [] else [InvalidChild (ch_name child) blockers])
          @ map (ChildAdvice (ch_name child)) (filter (\<lambda>p. p \<notin> set blockers) found)
          @ (if ''Story'' \<notin> set (tk_order (ch_ticket child)) then [NoStorySection (ch_name child)]
             else if ch_role child = None then [NoRole (ch_name child)] else [])) children)"

definition declares_new :: "ticket \<Rightarrow> string \<Rightarrow> bool" where
  "declares_new t file \<longleftrightarrow>
     (let (files, directories) = new_paths t
      in path_str file \<in> set files \<or> list_ex (\<lambda>d. py_prefix (d @ ''/'') (path_str file)) directories)"

definition completing :: "string \<Rightarrow> story_child list \<Rightarrow> story_child list" where
  "completing key children = filter (\<lambda>c. ch_role c = Some Completing \<and> key \<in> set (ch_witnesses c)) children"

definition completion_problems :: "story_child list \<Rightarrow> story_witness \<Rightarrow> story_problem list" where
  "completion_problems children w =
     (case completing (sw_key w) children of
        [] \<Rightarrow> [NotCompleted (sw_key w)]
      | [c] \<Rightarrow> if declares_new (ch_ticket c) (sw_file w) then [] else [NotDeclaredNew (ch_name c) (sw_key w) (sw_file w)]
      | cs \<Rightarrow> [CompletedBy (sw_key w) (map ch_name cs)])"

definition role_problems :: "story_child list \<Rightarrow> story_body \<Rightarrow> story_problem list" where
  "role_problems children story =
     (let keys = List.map_filter (\<lambda>line. map_option (group_text 1) (re_match KEY_RE line)) (sb_witness_lines story)
      in concat (map (\<lambda>c. map (UnknownWitness (ch_name c)) (filter (\<lambda>k. k \<notin> set keys) (ch_witnesses c))) children)
         @ concat (map (completion_problems children) (sb_witnesses story)))"

subsection \<open>The plan\<close>

definition plan_edges :: "story_child list \<Rightarrow> slug_edges" where
  "plan_edges children =
     (let slugs = set (map ch_slug children)
      in map (\<lambda>c. (ch_slug c, filter (\<lambda>d. d \<in> slugs) (ch_depends_on c))) children)"

definition child_named :: "story_child list \<Rightarrow> string \<Rightarrow> string" where
  "child_named children slug =
     (case map_of (map (\<lambda>c. (ch_slug c, ch_name c)) children) slug of None \<Rightarrow> slug | Some n \<Rightarrow> n)"

definition after_problems :: "story_child list \<Rightarrow> slug_edges \<Rightarrow> story_child \<Rightarrow> story_problem list" where
  "after_problems children edges c =
     (if ch_role c \<noteq> Some Completing then []
      else concat (map (\<lambda>key. map (\<lambda>other. NotAfter (ch_name c) key (ch_name other))
        (filter (\<lambda>other. ch_role other = Some Advancing \<and> key \<in> set (ch_witnesses other)
           \<and> ch_slug other \<notin> set (ancestors (ch_slug c) edges)) children)) (ch_witnesses c)))"

definition graph_problems :: "story_child list \<Rightarrow> slug_edges \<Rightarrow> story_problem list" where
  "graph_problems children edges =
     concat (map (\<lambda>c. map (NoSibling (ch_name c))
       (filter (\<lambda>d. d \<notin> set (map ch_slug children) \<and> \<not> matches LINEAR_ID_RE d) (ch_depends_on c))) children)
     @ (case story_cycle edges of None \<Rightarrow> [] | Some c \<Rightarrow> [PlanCycle (map (child_named children) c)])
     @ concat (map (after_problems children edges) children)"

definition named_in_scope :: "ticket \<Rightarrow> string list" where
  "named_in_scope t = dedup (map path_str (concat (map (\<lambda>name. prose_paths (uncommented (section_text t name)))
     [''In scope'', ''Implementation notes''])))"

fun pairs_of :: "'a list \<Rightarrow> ('a \<times> 'a) list" where
  "pairs_of [] = []"
| "pairs_of (x # xs) = map (Pair x) xs @ pairs_of xs"

definition plan_advisories :: "story_child list \<Rightarrow> slug_edges \<Rightarrow> story_problem list" where
  "plan_advisories children edges =
     map (\<lambda>c. IdleScaffolding (ch_name c)) (filter (\<lambda>c. ch_role c = Some Scaffold
       \<and> \<not> list_ex (\<lambda>other. ch_role other = Some Completing \<and> ch_slug c \<in> set (ancestors (ch_slug other) edges)) children)
       children)
     @ concat (map (\<lambda>(one, two).
         if ch_slug one \<in> set (ancestors (ch_slug two) edges) \<or> ch_slug two \<in> set (ancestors (ch_slug one) edges) then []
         else map (SharedPath (ch_name one) (ch_name two))
           (sorted_names (filter (\<lambda>p. p \<in> set (named_in_scope (ch_ticket two))) (named_in_scope (ch_ticket one)))))
       (pairs_of children))"

text \<open>Each child whose slug an earlier one has, with the first that has it.\<close>

fun slug_problems :: "story_child list \<Rightarrow> story_child list \<Rightarrow> story_problem list" where
  "slug_problems seen [] = []"
| "slug_problems seen (c # cs) =
     (case find (\<lambda>other. ch_slug other = ch_slug c) seen of
        None \<Rightarrow> slug_problems (seen @ [c]) cs
      | Some other \<Rightarrow> SharedSlug (ch_name other) (ch_name c) (ch_slug c) # slug_problems seen cs)"

definition children_problems :: "story_child list \<Rightarrow> story_body \<Rightarrow> repo_view option \<Rightarrow> story_problem list" where
  "children_problems children story repo =
     (let edges = plan_edges children; shared = slug_problems [] children
      in (if MAX_CHILDREN < length children then [ManyChildren (length children)] else [])
         @ child_problems children repo @ role_problems children story @ shared
         @ (if shared \<noteq> [] then [] else graph_problems children edges @ plan_advisories children edges))"

definition validate_story ::
    "(string \<Rightarrow> (string \<times> toml) list option) \<Rightarrow> story_dir \<Rightarrow> repo_view option \<Rightarrow> story_problem list" where
  "validate_story loads sd repo =
     (case sd_body sd of
        None \<Rightarrow> [NoStoryBody]
      | Some txt \<Rightarrow>
          let story = parse_story loads txt
          in body_problems story
             @ (case repo of None \<Rightarrow> [] | Some rv \<Rightarrow> ignore_problems rv (sb_witnesses story))
             @ concat (map (witness_file_problems sd repo) (sb_witnesses story))
             @ children_problems (parse_children loads sd) story repo)"

fun parse_story_args :: "string option \<Rightarrow> string option \<Rightarrow> string list \<Rightarrow> (string option \<times> string) option" where
  "parse_story_args repo story [] =
     (case story of None \<Rightarrow> None | Some d \<Rightarrow> if d = [] \<or> repo = Some [] then None else Some (repo, d))"
| "parse_story_args repo story (arg # args) =
     (let (name, eq, value) = partition_at CHR ''='' arg
      in if name \<noteq> ''--repo'' \<and> name \<noteq> ''--story'' then None
         else if eq then (if name = ''--repo'' then parse_story_args (Some value) story args
                          else parse_story_args repo (Some value) args)
         else (case args of [] \<Rightarrow> None
               | v # rest \<Rightarrow> if name = ''--repo'' then parse_story_args (Some v) story rest
                             else parse_story_args repo (Some v) rest))"

definition story_blocking :: "story_problem list \<Rightarrow> story_problem list" where
  "story_blocking ps = filter (\<lambda>p. \<not> story_advisory p) ps"

subsection \<open>What an accepted plan is\<close>

lemma story_blocking_append [simp]: "story_blocking (ps @ qs) = story_blocking ps @ story_blocking qs"
  by (simp add: story_blocking_def)

lemma story_blocking_concat [simp]: "story_blocking (concat pss) = concat (map story_blocking pss)"
  by (induction pss) (simp_all add: story_blocking_def)

lemma story_blocking_all: "(\<And>p. p \<in> set ps \<Longrightarrow> \<not> story_advisory p) \<Longrightarrow> story_blocking ps = ps"
  by (simp add: story_blocking_def)

lemma completion_binding: "p \<in> set (completion_problems children w) \<Longrightarrow> \<not> story_advisory p"
  by (auto simp: completion_problems_def split: list.split_asm if_split_asm)

lemma role_problems_block: "story_blocking (role_problems children story) = role_problems children story"
  by (rule story_blocking_all)
     (auto simp: role_problems_def Let_def dest: completion_binding)

lemma graph_problems_block: "story_blocking (graph_problems children edges) = graph_problems children edges"
  by (rule story_blocking_all)
     (auto simp: graph_problems_def after_problems_def split: option.split_asm if_split_asm)

lemma slug_problems_block: "story_blocking (slug_problems seen cs) = slug_problems seen cs"
  by (induction seen cs rule: slug_problems.induct) (auto simp: story_blocking_def split: option.split)

lemma slug_problems_distinct:
  assumes "slug_problems seen cs = []" and "distinct (map ch_slug seen)"
  shows "distinct (map ch_slug (seen @ cs))"
  using assms
proof (induction seen cs rule: slug_problems.induct)
  case (2 seen c cs)
  then have none: "find (\<lambda>other. ch_slug other = ch_slug c) seen = None" by (auto split: option.splits)
  then have "ch_slug c \<notin> set (map ch_slug seen)" by (auto simp: find_None_iff)
  then show ?case using 2 none by simp
qed simp

lemma validate_story_parts:
  assumes "story_blocking (validate_story loads sd repo) = []" and "sd_body sd = Some txt"
    and "story = parse_story loads txt" and "children = parse_children loads sd"
  shows "story_blocking (body_problems story) = []" and "length children \<le> MAX_CHILDREN"
    and "story_blocking (child_problems children repo) = []" and "role_problems children story = []"
    and "slug_problems [] children = []" and "graph_problems children (plan_edges children) = []"
  using assms
  by (auto simp: validate_story_def children_problems_def Let_def role_problems_block graph_problems_block
      slug_problems_block story_blocking_def [of "[ManyChildren _]"] not_less split: if_split_asm)

lemma accepted_body:
  assumes "story_blocking (body_problems story) = []"
  shows "sb_witness_lines story \<noteq> [] \<and> length (sb_witness_lines story) \<le> 10
    \<and> list_all (matches WITNESS_RE) (sb_witness_lines story)
    \<and> set STORY_ORDER \<subseteq> set (sb_order story) \<and> sb_open_questions_none story"
  using assms
  by (auto simp: body_problems_def Let_def story_blocking_def MAX_WITNESSES_def filter_empty_conv list_all_iff
      split: if_split_asm)

lemma accepted_children:
  assumes "story_blocking (child_problems children repo) = []" and "c \<in> set children"
  shows "blocking (validate (filed_ticket children c) repo) = [] \<and> ch_role c \<noteq> None"
proof -
  let ?found = "validate (filed_ticket children c) repo"
  have "story_blocking ((if blocking ?found = [] then [] else [InvalidChild (ch_name c) (blocking ?found)])
          @ map (ChildAdvice (ch_name c)) (filter (\<lambda>p. p \<notin> set (blocking ?found)) ?found)
          @ (if ''Story'' \<notin> set (tk_order (ch_ticket c)) then [NoStorySection (ch_name c)]
             else if ch_role c = None then [NoRole (ch_name c)] else [])) = []"
    using assms by (auto simp: child_problems_def Let_def)
  then show ?thesis by (auto simp: story_blocking_def split: if_split_asm)
qed

text \<open>Every witness has its one completing child, and that child comes after those that advance it.\<close>

lemma accepted_roles:
  assumes "role_problems children story = []" and "w \<in> set (sb_witnesses story)"
  shows "\<exists>c. completing (sw_key w) children = [c] \<and> declares_new (ch_ticket c) (sw_file w)"
proof -
  have "completion_problems children w = []" using assms by (auto simp: role_problems_def Let_def)
  then show ?thesis by (auto simp: completion_problems_def split: list.split_asm if_split_asm)
qed

lemma accepted_graph:
  assumes "graph_problems children edges = []"
  shows "acyclic (depends_rel edges)"
    and "\<lbrakk>c \<in> set children; ch_role c = Some Completing; key \<in> set (ch_witnesses c);
      other \<in> set children; ch_role other = Some Advancing; key \<in> set (ch_witnesses other)\<rbrakk>
      \<Longrightarrow> (ch_slug c, ch_slug other) \<in> (depends_rel edges)\<^sup>+"
proof -
  show "acyclic (depends_rel edges)"
    using assms unfolding story_cycle_none_iff [symmetric] by (auto simp: graph_problems_def split: option.split_asm)
  assume c: "c \<in> set children" "ch_role c = Some Completing" "key \<in> set (ch_witnesses c)"
    and other: "other \<in> set children" "ch_role other = Some Advancing" "key \<in> set (ch_witnesses other)"
  have "after_problems children edges c = []" using assms c(1) by (auto simp: graph_problems_def)
  then have "ch_slug other \<in> set (ancestors (ch_slug c) edges)"
    using c other by (auto simp: after_problems_def filter_empty_conv)
  then show "(ch_slug c, ch_slug other) \<in> (depends_rel edges)\<^sup>+" by (simp add: ancestors_exact)
qed

end
