(* ===== verification/Github.thy ===== *)
theory Github
  imports Pystr Dumps
begin

section \<open>Github: requests, pull requests and their text\<close>

text \<open>
  \<^verbatim>\<open>holophyte/pr/github.py\<close>: the address of a repository and of a pull request, the retries of a
  \<^verbatim>\<open>gh api\<close> request, the merge request, and the text of a pull request's body. What GitHub or a
  process answers is a parameter. A JSON answer is a \<open>json\<close> document; \<open>jget\<close> is \<^verbatim>\<open>answer.get(key)\<close>,
  \<open>JNull\<close> where the key is absent or the answer is no object (where the code would not ask).

  The lemmas: a request that reached GitHub is sent once, at most three are; splitting a body
  loses nothing; a merge is reported only when GitHub said so.
\<close>

subsection \<open>Answers\<close>

definition jget :: "string \<Rightarrow> json \<Rightarrow> json" where
  "jget k j = (case j of JObj fs \<Rightarrow> (case map_of fs k of None \<Rightarrow> JNull | Some x \<Rightarrow> x) | _ \<Rightarrow> JNull)"

definition is_obj :: "json \<Rightarrow> bool" where
  "is_obj j \<longleftrightarrow> (case j of JObj _ \<Rightarrow> True | _ \<Rightarrow> False)"

definition jlist :: "json \<Rightarrow> json list option" where
  "jlist j = (case j of JList xs \<Rightarrow> Some xs | _ \<Rightarrow> None)"

definition jint :: "json \<Rightarrow> int option" where
  "jint j = (case j of JInt i \<Rightarrow> Some i | _ \<Rightarrow> None)"

definition jstr :: "json \<Rightarrow> string option" where
  "jstr j = (case j of JStr s \<Rightarrow> Some s | _ \<Rightarrow> None)"

text \<open>\<^verbatim>\<open>bool(x)\<close> and \<^verbatim>\<open>x or ""\<close> for a text.\<close>

definition truthy :: "json \<Rightarrow> bool" where
  "truthy j =
     (case j of JNull \<Rightarrow> False | JBool b \<Rightarrow> b | JInt i \<Rightarrow> i \<noteq> 0 | JStr s \<Rightarrow> s \<noteq> [] | JList xs \<Rightarrow> xs \<noteq> [] | JObj fs \<Rightarrow> fs \<noteq> [])"

definition text_of :: "json \<Rightarrow> string" where
  "text_of j = (case j of JStr s \<Rightarrow> s | _ \<Rightarrow> [])"

definition short :: "json \<Rightarrow> string" where
  "short j = take 300 (join '' '' (py_words (case j of JStr s \<Rightarrow> s | _ \<Rightarrow> json_dumps j)))"

datatype gh_error = Infra string | MergeRefused string | Crash string

record pull =
  pu_host :: string
  pu_owner :: string
  pu_name :: string
  pu_number :: nat
  pu_url :: string
  pu_awaited :: "string list"

definition pull_repo :: "pull \<Rightarrow> string" where
  "pull_repo p = pu_owner p @ ''/'' @ pu_name p"

definition segment :: re where
  "segment = plus (Chr (\<lambda>c. c \<noteq> CHR ''/'' \<and> \<not> py_space c))"

definition PR_URL_RE :: re where
  "PR_URL_RE = seq [Bol False, lit ''https://'', Grp 1 segment, ch CHR ''/'', Grp 2 segment, ch CHR ''/'',
     Grp 3 segment, lit ''/pull/'', Grp 4 (plus digit), maybe (ch CHR ''/''), Eol False]"

definition parse_pr_url :: "string \<Rightarrow> pull option" where
  "parse_pr_url url = map_option (\<lambda>m.
     \<lparr>pu_host = group_text 1 m, pu_owner = group_text 2 m, pu_name = group_text 3 m,
      pu_number = nat_of_digits (group_text 4 m), pu_url = py_strip url, pu_awaited = []\<rparr>)
     (re_match PR_URL_RE (py_strip url))"

text \<open>\<^verbatim>\<open>_origin_pull\<close>, from the URL git gives for \<^verbatim>\<open>origin\<close>.\<close>

definition SSH_RE :: re where
  "SSH_RE = seq [alts [lit ''git@'', lit ''ssh://git@''], Grp 1 (plus (none_of ''/:'')), any_of '':/'', Grp 2 (star dot)]"

definition origin_pull :: "string option \<Rightarrow> pull option" where
  "origin_pull url =
     (case url of
        None \<Rightarrow> None
      | Some u \<Rightarrow>
          if u = [] then None
          else let s = py_strip u;
                   s = (case re_match SSH_RE s of None \<Rightarrow> s
                        | Some m \<Rightarrow> ''https://'' @ group_text 1 m @ ''/'' @ group_text 2 m);
                   s = re_sub (seq [lit ''.git'', Eol False]) (\<lambda>_. []) (rstrip_of ''/'' s)
               in parse_pr_url (s @ ''/pull/0''))"

definition repo_of :: "string \<Rightarrow> string option" where
  "repo_of url =
     (if url = [] then None
      else map_option (\<lambda>m. group_text 1 m @ ''/'' @ group_text 2 m)
        (re_search (seq [lit ''github.com'', any_of '':/'', Grp 1 segment, ch CHR ''/'',
           Grp 2 (plus_lazy (Chr (\<lambda>c. c \<noteq> CHR ''/'' \<and> \<not> py_space c))), maybe (lit ''.git''), maybe (ch CHR ''/''),
           Eol False]) url))"

definition url_in :: "string \<Rightarrow> string option" where
  "url_in s = (case rev (re_finditer (seq [lit ''https://'', plus non_space]) s) of [] \<Rightarrow> None | m # _ \<Rightarrow> Some (f_text m))"

definition token_from_env :: "(string \<times> string) list \<Rightarrow> string option" where
  "token_from_env environ =
     find (\<lambda>v. v \<noteq> []) (map (\<lambda>name. case map_of environ name of None \<Rightarrow> [] | Some v \<Rightarrow> py_strip v)
       [''GH_TOKEN'', ''GITHUB_TOKEN''])"

definition count_field :: "json \<Rightarrow> int option" where
  "count_field j = (case j of JInt i \<Rightarrow> if 0 \<le> i then Some i else None | _ \<Rightarrow> None)"

definition acknowledged :: "json \<Rightarrow> bool" where
  "acknowledged node =
     (case jget ''reactionGroups'' node of
        JList gs \<Rightarrow> list_ex (\<lambda>g. is_obj g \<and> jget ''content'' g = JStr ''EYES'' \<and> jget ''viewerHasReacted'' g = JBool True) gs
      | _ \<Rightarrow> False)"

subsection \<open>One request and its retries\<close>

datatype gh_run = Ran int string string | TimedOut

definition GH_NEVER_CONNECTED :: "string list" where
  "GH_NEVER_CONNECTED = [''dial tcp'', ''connection refused'', ''no such host'', ''network is unreachable'']"

definition never_connected :: "string \<Rightarrow> bool" where
  "never_connected stderr =
     (let s = py_lower stderr
      in \<not> searches (seq [Bnd, lit ''http '', exactly 3 digit, Bnd]) s
         \<and> list_ex (\<lambda>p. py_contains p s) GH_NEVER_CONNECTED)"

text \<open>
  \<^verbatim>\<open>_gh_output\<close> over the answers of the runs it makes, first the first: its result and the
  number of requests sent. \<open>errors_in\<close> is \<^verbatim>\<open>_graphql_errors\<close> on the output. The list of waits
  is \<^verbatim>\<open>GH_RETRY_S\<close> and the end of it.
\<close>

definition GH_RETRY_S :: "nat list" where "GH_RETRY_S = [5, 15]"

fun gh_attempts :: "(nat \<Rightarrow> gh_run) \<Rightarrow> nat \<Rightarrow> nat list \<Rightarrow> gh_run \<times> nat" where
  "gh_attempts run n waits =
     (case run n of
        TimedOut \<Rightarrow> (TimedOut, Suc n)
      | Ran code out err \<Rightarrow>
          if code = 0 then (Ran code out err, Suc n)
          else (case waits of
                  [] \<Rightarrow> (Ran code out err, Suc n)
                | _ # ws \<Rightarrow> if never_connected err then gh_attempts run (Suc n) ws else (Ran code out err, Suc n)))"

declare gh_attempts.simps [simp del]

definition gh_output :: "(string \<Rightarrow> bool) \<Rightarrow> string \<Rightarrow> (nat \<Rightarrow> gh_run) \<Rightarrow> gh_error + string" where
  "gh_output errors_in path run =
     (case fst (gh_attempts run 0 GH_RETRY_S) of
        TimedOut \<Rightarrow> Inl (Infra (''gh api '' @ path @ '' did not answer in 120s''))
      | Ran code out err \<Rightarrow>
          if code = 0 then Inr out
          else if path = ''graphql'' \<and> errors_in out then Inr out
          else let said = join '' '' (py_words (if err \<noteq> [] then err else out));
                   detail = drop (length said - 500) said
               in Inl (Infra (''gh api '' @ path @ '' failed: '' @ (if detail = [] then ''no output'' else detail))))"

text \<open>\<^verbatim>\<open>graphql\<close> on the answer of \<^verbatim>\<open>_call\<close>.\<close>

definition graphql_answer :: "json \<Rightarrow> gh_error + json" where
  "graphql_answer answer =
     (if \<not> is_obj answer then Inl (Infra (''GitHub GraphQL answered '' @ short answer))
      else if truthy (jget ''errors'' answer) then
        (case jget ''errors'' answer of
           JList (first # _) \<Rightarrow>
             Inl (Infra (''GitHub GraphQL refused: '' @ (if is_obj first then text_of (jget ''message'' first) else text_of first)))
         | _ \<Rightarrow> Inl (Crash ''errors is no list''))
      else Inr (if truthy (jget ''data'' answer) then jget ''data'' answer else JObj []))"

subsection \<open>Merging\<close>

type_synonym gh_call = "string \<Rightarrow> string \<Rightarrow> json option \<Rightarrow> gh_error + json"

definition pull_path :: "pull \<Rightarrow> string" where
  "pull_path p = ''repos/'' @ pull_repo p @ ''/pulls/'' @ str_nat (pu_number p)"

definition SUMMARY_RE :: re where
  "SUMMARY_RE = seq [Bol True, lit ''## Summary'', star space, ch (CHR 10), Grp 1 (star_lazy dot_all),
     Ahead True (alts [seq [Bol True, lit ''## ''], Ahead False dot_all])]"

definition merge_message :: "string \<Rightarrow> string" where
  "merge_message body =
     (case re_search SUMMARY_RE body of
        None \<Rightarrow> []
      | Some m \<Rightarrow> hd (re_split (seq [ch (CHR 10), star space, ch (CHR 10)]) (py_strip (group_text 1 m))))"

definition merge_payload :: "gh_call \<Rightarrow> string \<Rightarrow> pull \<Rightarrow> string \<Rightarrow> gh_error + json" where
  "merge_payload call method p sha =
     (let base = [(''merge_method'', JStr method), (''sha'', JStr sha)]
      in if method = ''squash'' \<or> method = ''merge'' then
           bindE (call ''GET'' (pull_path p) None) (\<lambda>details.
             case jget ''title'' details of
               JStr title \<Rightarrow> Inr (JObj (base @
                 [(''commit_title'', JStr (title @ '' (#'' @ str_nat (pu_number p) @ '')'')),
                  (''commit_message'', JStr (merge_message (text_of (jget ''body'' details))))]))
             | _ \<Rightarrow> Inl (Crash ''title''))
         else Inr (JObj base))"

definition refused_status :: "string \<Rightarrow> bool" where
  "refused_status s = searches (seq [Bnd, alts [lit ''405'', lit ''409'', lit ''422''], Bnd]) s"

definition merge_pull_request :: "gh_call \<Rightarrow> string \<Rightarrow> pull \<Rightarrow> string \<Rightarrow> gh_error + string" where
  "merge_pull_request call method p sha =
     bindE (merge_payload call method p sha) (\<lambda>payload.
       case call ''PUT'' (pull_path p @ ''/merge'') (Some payload) of
         Inl (Infra e) \<Rightarrow> Inl (if refused_status e then MergeRefused e else Infra e)
       | Inl e \<Rightarrow> Inl e
       | Inr answer \<Rightarrow>
           (case jget ''sha'' answer of
              JStr merged \<Rightarrow>
                if merged = [] \<or> \<not> truthy (jget ''merged'' answer)
                then Inl (MergeRefused (''GitHub did not merge '' @ pu_url p @ '': '' @ short answer)) else Inr merged
            | _ \<Rightarrow> Inl (MergeRefused (''GitHub did not merge '' @ pu_url p @ '': '' @ short answer))))"

subsection \<open>The text of a pull request\<close>

definition PR_TITLE_MAX :: nat where "PR_TITLE_MAX = 120"

fun titled :: "string list \<Rightarrow> (string \<times> string) option option" where
  "titled [] = None"
| "titled (line # lines) =
     (if py_prefix ''TITLE:'' (py_lstrip line)
      then (let title = py_strip (drop 6 (py_lstrip line))
            in Some (if title = [] \<or> PR_TITLE_MAX < length title then None
                     else Some (title, py_strip (join [CHR 10] lines))))
      else titled lines)"

definition parse_pr_text :: "bool \<Rightarrow> string \<Rightarrow> (string \<times> string) option" where
  "parse_pr_text title_optional reply =
     (if reply = [] then None
      else case titled (py_splitlines reply) of
             Some found \<Rightarrow> found
           | None \<Rightarrow> if title_optional then Some ([], py_strip reply) else None)"

definition pr_body_written :: "string \<Rightarrow> string \<Rightarrow> string \<Rightarrow> bool \<Rightarrow> string" where
  "pr_body_written body task_id issue_url native =
     (let body = py_strip body;
          link = (if native then ''Ticket: '' @ task_id else ''Linear: '' @ task_id);
          link = (if issue_url \<noteq> [] \<and> \<not> native then link @ '' ('' @ issue_url @ '')'' else link)
      in if body = [] then link else body @ [CHR 10, CHR 10] @ link)"

definition key_letter :: "char \<Rightarrow> bool" where
  "key_letter c \<longleftrightarrow> ascii_letter c \<and> ascii_lower c \<noteq> c"

definition blank_end :: re where
  "blank_end = seq [star (any_of [CHR '' '', CHR 9]), maybe (ch (CHR 13)), Eol True]"

definition FOOTER_START :: re where
  "FOOTER_START = seq [Bol True, alts [lit ''Linear:'',
     seq [lit ''Ticket: '', Chr key_letter, Rep True 0 (Some 9) (Chr (\<lambda>c. key_letter c \<or> is_digit_char c)),
       ch CHR ''-'', plus digit, blank_end]]]"

definition TICKET_LINE :: re where
  "TICKET_LINE = seq [FOOTER_START, star (none_of [CHR 10]), alts [ch (CHR 10), Eol True]]"

definition EVIDENCE_HEADING :: re where
  "EVIDENCE_HEADING = seq [Bol True, lit ''## Evidence'', blank_end]"

definition comment_open :: re where "comment_open = lit ''<!--''"

text \<open>The evidence section of a body with a footer: what is before it, it, and what is after.\<close>

definition section_at :: "found \<Rightarrow> string \<Rightarrow> string \<times> string \<times> string" where
  "section_at h body =
     (let below = drop (length (f_before h) + length (f_text h)) body;
          inner = (case re_search (alts [seq [Bol True, lit ''## ''], FOOTER_START, comment_open]) below of
              None \<Rightarrow> below | Some m \<Rightarrow> f_before m)
      in (take (length (f_before h)) body,
          take (length (f_text h)) (drop (length (f_before h)) body) @ inner,
          drop (length inner) below))"

definition cut_evidence :: "found \<Rightarrow> string \<Rightarrow> string \<times> string \<times> string" where
  "cut_evidence footer body =
     (let region = (case re_search comment_open (f_after footer) of
            None \<Rightarrow> body | Some m \<Rightarrow> f_before footer @ f_text footer @ f_before m)
      in case re_search EVIDENCE_HEADING region of
           None \<Rightarrow> (body, [], [])
         | Some h \<Rightarrow> section_at h body)"

definition split_pr_body :: "string \<Rightarrow> (string \<times> string \<times> string \<times> string) option" where
  "split_pr_body body =
     (case re_search TICKET_LINE body of
        None \<Rightarrow> Some (body, [], [], [])
      | Some footer \<Rightarrow>
          let (upper, evidence, below) = cut_evidence footer body
          in (case (if evidence = [] then Some footer else re_search TICKET_LINE (upper @ below)) of
                None \<Rightarrow> None
              | Some f \<Rightarrow>
                  let left = f_after f; space = takeWhile (\<lambda>c. c = CHR 13 \<or> c = CHR 10) left
                  in Some (f_before f, f_text f @ space, evidence, drop (length space) left)))"

fun index_at :: "string \<Rightarrow> string \<Rightarrow> nat option" where
  "index_at needle s =
     (if py_prefix needle s then Some 0
      else case s of [] \<Rightarrow> None | _ # cs \<Rightarrow> map_option Suc (index_at needle cs))"

declare index_at.simps [simp del]

definition replace_pr_text :: "string \<Rightarrow> string \<Rightarrow> string option" where
  "replace_pr_text body new =
     Option.bind (split_pr_body body) (\<lambda>(own, link, evidence, tail).
       let gap = (if link = [] then [] else [CHR 10, CHR 10])
       in if evidence = [] then Some (py_rstrip new @ gap @ link @ tail)
          else case (index_at evidence body, index_at link body) of
                 (Some i, Some j) \<Rightarrow> Some (py_rstrip new @ gap @ (if i < j then evidence @ link else link @ evidence) @ tail)
               | _ \<Rightarrow> None)"

definition replace_pr_evidence :: "string \<Rightarrow> string \<Rightarrow> string option" where
  "replace_pr_evidence body section =
     Option.bind (split_pr_body body) (\<lambda>(own, link, evidence, tail).
       let section = py_rstrip section
       in if evidence = [] then
            (if link = [] then Some (py_rstrip body @ [CHR 10, CHR 10] @ section)
             else Some ((if py_strip own = [] then [] else py_rstrip own @ [CHR 10, CHR 10])
                        @ section @ [CHR 10, CHR 10] @ link @ tail))
          else map_option (\<lambda>i. take i body @ section @ drop (length (py_rstrip evidence)) evidence
                               @ drop (i + length evidence) body) (index_at evidence body))"

subsection \<open>What holds of them\<close>

lemma gh_attempts_stop:
  "run n = TimedOut \<Longrightarrow> gh_attempts run n waits = (TimedOut, Suc n)"
  "run n = Ran 0 out err \<Longrightarrow> gh_attempts run n waits = (Ran 0 out err, Suc n)"
  "run n = Ran code out err \<Longrightarrow> \<not> never_connected err \<Longrightarrow> gh_attempts run n waits = (Ran code out err, Suc n)"
  "run n = Ran code out err \<Longrightarrow> gh_attempts run n [] = (Ran code out err, Suc n)"
  by (simp_all add: gh_attempts.simps split: list.split)

lemma gh_attempts_more:
  "run n = Ran code out err \<Longrightarrow> code \<noteq> 0 \<Longrightarrow> never_connected err \<Longrightarrow>
   gh_attempts run n (w # ws) = gh_attempts run (Suc n) ws"
  by (subst gh_attempts.simps) simp

lemma gh_attempts_bounds:
  "n < snd (gh_attempts run n waits) \<and> snd (gh_attempts run n waits) \<le> Suc n + length waits"
proof (induction waits arbitrary: n)
  case Nil
  show ?case by (cases "run n") (simp_all add: gh_attempts_stop)
next
  case (Cons w ws)
  show ?case
  proof (cases "\<exists>code out err. run n = Ran code out err \<and> code \<noteq> 0 \<and> never_connected err")
    case True
    then have "gh_attempts run n (w # ws) = gh_attempts run (Suc n) ws" by (auto simp: gh_attempts_more)
    then show ?thesis using Cons.IH [of "Suc n"] by simp
  next
    case False
    then have "snd (gh_attempts run n (w # ws)) = Suc n"
      by (cases "run n") (auto simp: gh_attempts_stop)
    then show ?thesis by simp
  qed
qed

text \<open>A run that is not the last one never connected: no request GitHub saw is sent again.\<close>

lemma gh_attempts_repeats:
  assumes "n \<le> k" and "Suc k < snd (gh_attempts run n waits)"
  shows "\<exists>code out err. run k = Ran code out err \<and> code \<noteq> 0 \<and> never_connected err"
  using assms
proof (induction waits arbitrary: n)
  case Nil
  then show ?case by (cases "run n") (simp_all add: gh_attempts_stop)
next
  case (Cons w ws)
  show ?case
  proof (cases "\<exists>code out err. run n = Ran code out err \<and> code \<noteq> 0 \<and> never_connected err")
    case True
    then have "gh_attempts run n (w # ws) = gh_attempts run (Suc n) ws" by (auto simp: gh_attempts_more)
    then show ?thesis using Cons.IH [of "Suc n"] Cons.prems True by (cases "k = n") (blast, simp)
  next
    case False
    then have "snd (gh_attempts run n (w # ws)) = Suc n"
      by (cases "run n") (auto simp: gh_attempts_stop)
    then show ?thesis using Cons.prems by simp
  qed
qed

lemma merge_payload_sha:
  assumes "merge_payload call method p sha = Inr payload"
  shows "jget ''sha'' payload = JStr sha"
proof (cases "method = ''squash'' \<or> method = ''merge''")
  case True
  then obtain details where "call ''GET'' (pull_path p) None = Inr details"
    using assms by (auto simp: merge_payload_def)
  then show ?thesis
    using assms True by (cases "jget ''title'' details") (auto simp: merge_payload_def jget_def)
next
  case False
  then show ?thesis using assms by (auto simp: merge_payload_def jget_def)
qed

lemma merge_pull_request_merged:
  assumes "merge_pull_request call method p sha = Inr merged"
  shows "\<exists>payload answer. jget ''sha'' payload = JStr sha
    \<and> call ''PUT'' (pull_path p @ ''/merge'') (Some payload) = Inr answer
    \<and> jget ''sha'' answer = JStr merged \<and> merged \<noteq> [] \<and> truthy (jget ''merged'' answer)"
proof -
  obtain payload where m: "merge_payload call method p sha = Inr payload"
    using assms by (auto simp: merge_pull_request_def)
  obtain answer where a: "call ''PUT'' (pull_path p @ ''/merge'') (Some payload) = Inr answer"
    using assms m
    by (cases "call ''PUT'' (pull_path p @ ''/merge'') (Some payload)")
       (auto simp: merge_pull_request_def split: gh_error.split_asm)
  show ?thesis
    using assms m a merge_payload_sha [OF m]
    by (cases "jget ''sha'' answer") (auto simp: merge_pull_request_def split: if_split_asm)
qed

lemma section_at_text:
  assumes "section_at h body = (upper, evidence, below)"
  shows "upper @ evidence @ below = body"
proof -
  define rest where "rest = drop (length (f_before h) + length (f_text h)) body"
  define inner where "inner = (case re_search (alts [seq [Bol True, lit ''## ''], FOOTER_START, comment_open]) rest of
    None \<Rightarrow> rest | Some m \<Rightarrow> f_before m)"
  have parts: "upper = take (length (f_before h)) body" "below = drop (length inner) rest"
      "evidence = take (length (f_text h)) (drop (length (f_before h)) body) @ inner"
    using assms unfolding section_at_def Let_def rest_def [symmetric] inner_def [symmetric] by simp_all
  have "inner = rest \<or> (\<exists>m. rest = inner @ m)"
    using re_search_text by (fastforce simp: inner_def split: option.split)
  then have "inner @ below = rest" using parts(2) by auto
  moreover have "body = take (length (f_before h)) body @ take (length (f_text h)) (drop (length (f_before h)) body) @ rest"
    unfolding rest_def by (metis add.commute append_take_drop_id drop_drop)
  ultimately show ?thesis using parts by simp
qed

lemma cut_evidence_text:
  "cut_evidence footer body = (upper, evidence, below) \<Longrightarrow> upper @ evidence @ below = body"
  by (auto simp: cut_evidence_def Let_def dest: section_at_text split: option.split_asm)

text \<open>Splitting a body loses nothing: the parts put together are the body without its evidence.\<close>

lemma split_pr_body_text:
  assumes "split_pr_body body = Some (own, link, evidence, tail)"
  shows "\<exists>upper below. body = upper @ evidence @ below \<and> own @ link @ tail = upper @ below"
proof (cases "re_search TICKET_LINE body")
  case None
  then show ?thesis using assms by (auto simp: split_pr_body_def intro: exI [of _ body])
next
  case (Some footer)
  obtain upper ev below where c: "cut_evidence footer body = (upper, ev, below)"
    by (cases "cut_evidence footer body")
  obtain f where f: "(if ev = [] then Some footer else re_search TICKET_LINE (upper @ below)) = Some f"
    using assms Some c by (auto simp: split_pr_body_def split: option.split_asm if_split_asm)
  have pieces: "f_before f @ f_text f @ f_after f = upper @ below"
    using f re_search_text [OF Some] re_search_text cut_evidence_text [OF c] by (fastforce split: if_split_asm)
  have parts: "own = f_before f" "link = f_text f @ takeWhile (\<lambda>c. c = CHR 13 \<or> c = CHR 10) (f_after f)"
      "evidence = ev" "tail = drop (length (takeWhile (\<lambda>c. c = CHR 13 \<or> c = CHR 10) (f_after f))) (f_after f)"
    using assms Some c f by (auto simp: split_pr_body_def Let_def split: if_split_asm)
  have "takeWhile P xs @ drop (length (takeWhile P xs)) xs = xs" for P and xs :: string
    by (metis dropWhile_eq_drop takeWhile_dropWhile_id)
  then show ?thesis using pieces parts cut_evidence_text [OF c] by (intro exI [of _ upper] exI [of _ below]) simp
qed

text \<open>A new text leaves the ticket line and what other tools wrote after it as they were.\<close>

lemma replace_pr_text_keeps:
  assumes "split_pr_body body = Some (own, link, evidence, tail)" and "replace_pr_text body new = Some out"
  shows "\<exists>middle. out = py_rstrip new @ middle @ tail \<and> (middle = (if link = [] then [] else [CHR 10, CHR 10]) @ link @ evidence
    \<or> middle = (if link = [] then [] else [CHR 10, CHR 10]) @ evidence @ link)"
  using assms by (auto simp: replace_pr_text_def Let_def split: if_split_asm option.split_asm)

end
