(* ===== verification/Checks.thy ===== *)
theory Checks
  imports Github
begin

section \<open>Checks: the check runs of a commit, read and judged\<close>

text \<open>
  The parts of \<^verbatim>\<open>holophyte/pr/pr_status.py\<close> that read GitHub's check runs and fold them into one
  verdict, \<^verbatim>\<open>pr/check_holds.py\<close> (the reading of main) and \<^verbatim>\<open>unreported\<close> of
  \<^verbatim>\<open>pr/missing_checks.py\<close>. \<open>get\<close> stands for \<^verbatim>\<open>rest(target, pull, "GET", path)\<close> and \<open>iso_ms\<close> for the
  reading of an ISO time. The pages of a commit's runs are read until GitHub's total is reached,
  a loop whose end depends on GitHub: \<open>None\<close> is the loop that never ends.

  The lemmas: checks fold to success only when every required context completed and no blocking
  run is red, whatever the rollup says; an unreadable answer is never success; the pages are
  read to their end when GitHub's total does not grow for ever; a check is called unreported
  only after it was absent for the limit.
\<close>

subsection \<open>Folding\<close>

datatype verdict = Success | Pending | Failure

definition rollup_state :: "json \<Rightarrow> verdict" where
  "rollup_state rollup =
     (if rollup = JNull \<or> rollup = JStr ''SUCCESS'' then Success
      else if rollup = JStr ''PENDING'' \<or> rollup = JStr ''EXPECTED'' then Pending
      else Failure)"

definition RED_CONCLUSIONS :: "string list" where
  "RED_CONCLUSIONS = [''failure'', ''timed_out'', ''cancelled'', ''action_required'', ''startup_failure'', ''error'']"

definition red :: "json \<Rightarrow> bool" where
  "red run \<longleftrightarrow> jget ''conclusion'' run \<in> set (map JStr RED_CONCLUSIONS)"

definition completed :: "json \<Rightarrow> bool" where
  "completed run \<longleftrightarrow> jget ''status'' run = JStr ''completed''"

definition run_blocks :: "string list option \<Rightarrow> json \<Rightarrow> bool" where
  "run_blocks blocking run \<longleftrightarrow> red run \<and>
     (case blocking of None \<Rightarrow> True | Some names \<Rightarrow> jget ''name'' run \<in> set (map JStr names))"

definition only_optional_red :: "json list option \<Rightarrow> string list option \<Rightarrow> bool" where
  "only_optional_red runs blocking \<longleftrightarrow>
     (case (runs, blocking) of
        (Some rs, Some _) \<Rightarrow>
          (let reds = filter (\<lambda>r. is_obj r \<and> red r) rs
           in reds \<noteq> [] \<and> \<not> list_ex (run_blocks blocking) reds)
      | _ \<Rightarrow> False)"

text \<open>The loop over the runs: \<open>None\<close> is the return of a blocking run.\<close>

fun fold_runs :: "string list option \<Rightarrow> verdict \<Rightarrow> json list \<Rightarrow> json list \<Rightarrow> (verdict \<times> json list) option" where
  "fold_runs blocking state names [] = Some (state, names)"
| "fold_runs blocking state names (run # runs) =
     (if \<not> is_obj run then fold_runs blocking Pending names runs
      else if \<not> completed run then fold_runs blocking Pending names runs
      else if run_blocks blocking run then None
      else fold_runs blocking state (jget ''name'' run # names) runs)"

definition fold_checks ::
    "json \<Rightarrow> json list option \<Rightarrow> string list option \<Rightarrow> string list option \<Rightarrow> verdict" where
  "fold_checks rollup runs required blocking =
     (let state = rollup_state rollup
      in if state = Failure \<and> \<not> only_optional_red runs blocking then Failure
         else let state = (if state = Failure then Success else state)
              in case (runs, required) of
                   (Some rs, Some req) \<Rightarrow>
                     (case fold_runs blocking state [] rs of
                        None \<Rightarrow> Failure
                      | Some (state, names) \<Rightarrow>
                          if list_ex (\<lambda>c. JStr c \<notin> set names) req then Pending else state)
                 | _ \<Rightarrow> Pending)"

record failed_check =
  fc_name :: string
  fc_conclusion :: string
  fc_url :: string
  fc_job :: "int option"
  fc_run :: "nat option"

definition ACTIONS_APP :: string where "ACTIONS_APP = ''github-actions''"

definition job_id :: "json \<Rightarrow> int option" where
  "job_id run = (if jget ''slug'' (jget ''app'' run) = JStr ACTIONS_APP then jint (jget ''id'' run) else None)"

definition WORKFLOW_RUN_RE :: re where
  "WORKFLOW_RUN_RE = seq [lit ''/actions/runs/'', Grp 1 (plus digit), lit ''/job/'', plus digit]"

definition workflow_run_id :: "json \<Rightarrow> nat option" where
  "workflow_run_id run =
     map_option (\<lambda>m. nat_of_digits (group_text 1 m)) (re_search WORKFLOW_RUN_RE (text_of (jget ''html_url'' run)))"

definition failed_checks :: "json list option \<Rightarrow> failed_check list" where
  "failed_checks runs =
     map (\<lambda>r. \<lparr>fc_name = text_of (jget ''name'' r), fc_conclusion = text_of (jget ''conclusion'' r),
               fc_url = text_of (jget ''html_url'' r), fc_job = job_id r, fc_run = workflow_run_id r\<rparr>)
       (filter (\<lambda>r. is_obj r \<and> red r) (case runs of None \<Rightarrow> [] | Some rs \<Rightarrow> rs))"

definition missing_checks :: "json list option \<Rightarrow> string list option \<Rightarrow> string list" where
  "missing_checks runs required =
     (case (runs, required) of
        (Some rs, Some req) \<Rightarrow>
          (let reported = map (jget ''name'') (filter (\<lambda>r. is_obj r \<and> jget ''conclusion'' r \<noteq> JStr ''expected'') rs)
           in filter (\<lambda>c. JStr c \<notin> set reported) (dedup req))
      | _ \<Rightarrow> [])"

definition awaiting :: "json list option \<Rightarrow> string list \<Rightarrow> string list" where
  "awaiting runs awaited =
     (case runs of
        None \<Rightarrow> awaited
      | Some rs \<Rightarrow>
          (let names = map (jget ''name'') (filter (\<lambda>r. is_obj r \<and> completed r) rs)
           in filter (\<lambda>n. JStr n \<notin> set names) awaited))"

subsection \<open>Runs of a commit that a later run of the same check replaced\<close>

definition start_ms :: "(json \<Rightarrow> int option) \<Rightarrow> json \<Rightarrow> int option" where
  "start_ms iso_ms run = (if is_obj run then iso_ms (jget ''started_at'' run) else None)"

definition run_order :: "(json \<Rightarrow> int option) \<Rightarrow> json \<Rightarrow> int \<times> int" where
  "run_order iso_ms run =
     (case start_ms iso_ms run of None \<Rightarrow> 0 | Some t \<Rightarrow> t,
      case jget ''id'' run of JInt i \<Rightarrow> i | _ \<Rightarrow> - 1)"

definition order_le :: "int \<times> int \<Rightarrow> int \<times> int \<Rightarrow> bool" where
  "order_le a b \<longleftrightarrow> fst a < fst b \<or> fst a = fst b \<and> snd a \<le> snd b"

text \<open>The position of the newest started run of a name (the later of two equal ones).\<close>

fun newest_of :: "(json \<Rightarrow> int option) \<Rightarrow> (json \<times> nat \<times> json) list \<Rightarrow> nat \<Rightarrow> json list \<Rightarrow> (json \<times> nat \<times> json) list" where
  "newest_of iso_ms found i [] = found"
| "newest_of iso_ms found i (run # runs) =
     (if start_ms iso_ms run = None then newest_of iso_ms found (Suc i) runs
      else (case map_of found (jget ''name'' run) of
              Some (_, held) \<Rightarrow>
                if order_le (run_order iso_ms held) (run_order iso_ms run)
                then newest_of iso_ms ((jget ''name'' run, i, run) # found) (Suc i) runs
                else newest_of iso_ms found (Suc i) runs
            | None \<Rightarrow> newest_of iso_ms ((jget ''name'' run, i, run) # found) (Suc i) runs))"

definition ready_ms :: "(json \<Rightarrow> int option) \<Rightarrow> json \<Rightarrow> int option" where
  "ready_ms iso_ms node =
     (case jget ''nodes'' (jget ''readyEvent'' node) of
        JList xs \<Rightarrow> if xs = [] \<or> \<not> is_obj (last xs) then None else iso_ms (jget ''createdAt'' (last xs))
      | _ \<Rightarrow> None)"

definition fold_by_ready ::
    "(json \<Rightarrow> int option) \<Rightarrow> json list option \<Rightarrow> json \<Rightarrow> json list option \<times> bool" where
  "fold_by_ready iso_ms runs node =
     (case (runs, ready_ms iso_ms node) of
        (Some rs, Some ready) \<Rightarrow>
          (let newest = newest_of iso_ms [] 0 rs;
               started = filter (\<lambda>(i, r). start_ms iso_ms r \<noteq> None) (zip [0..<length rs] rs);
               newest_start = (\<lambda>r. case map_of newest (jget ''name'' r) of
                  None \<Rightarrow> 0 | Some (_, q) \<Rightarrow> fst (run_order iso_ms q))
           in (Some (map snd (filter (\<lambda>(i, r). start_ms iso_ms r = None
                    \<or> map_option fst (map_of newest (jget ''name'' r)) = Some i) (zip [0..<length rs] rs))),
               list_ex (\<lambda>(i, r). fst (run_order iso_ms r) < ready \<and> ready \<le> newest_start r) started))
      | _ \<Rightarrow> (runs, False))"

subsection \<open>Reading GitHub\<close>

type_synonym get = "string \<Rightarrow> gh_error + json"

definition gh_repo_path :: "pull \<Rightarrow> string" where
  "gh_repo_path p = ''repos/'' @ pull_repo p"

definition runs_path :: "pull \<Rightarrow> string \<Rightarrow> nat \<Rightarrow> string" where
  "runs_path p sha page =
     gh_repo_path p @ ''/commits/'' @ sha @ ''/check-runs?per_page=100''
       @ (if page = 1 then [] else ''&page='' @ str_nat page)"

definition page_total :: "json \<Rightarrow> json list \<Rightarrow> nat \<Rightarrow> int option" where
  "page_total answer batch page =
     (case jget ''total_count'' answer of
        JInt n \<Rightarrow> Some n
      | _ \<Rightarrow> if page = 1 then Some (int (length batch)) else None)"

partial_function (option) runs_from ::
    "get \<Rightarrow> pull \<Rightarrow> string \<Rightarrow> json list \<Rightarrow> nat \<Rightarrow> (gh_error + json list option) option" where
  [code]: "runs_from get p sha runs page =
     (case get (runs_path p sha page) of
        Inl e \<Rightarrow> Some (Inl e)
      | Inr answer \<Rightarrow>
          (case jget ''check_runs'' answer of
             JList batch \<Rightarrow>
               if \<not> list_all is_obj batch then Some (Inr None)
               else (case page_total answer batch page of
                       None \<Rightarrow> Some (Inr None)
                     | Some promised \<Rightarrow>
                         if promised \<le> int (length (runs @ batch)) then Some (Inr (Some (runs @ batch)))
                         else if batch = [] then Some (Inr None)
                         else runs_from get p sha (runs @ batch) (Suc page))
           | _ \<Rightarrow> Some (Inr None)))"

definition check_runs_of :: "get \<Rightarrow> pull \<Rightarrow> string \<Rightarrow> (gh_error + json list option) option" where
  "check_runs_of get p sha = runs_from get p sha [] 1"

definition PLAN_GATED :: string where
  "PLAN_GATED = ''Upgrade to GitHub Pro or make this repository public''"

definition main_rules :: "get \<Rightarrow> pull \<Rightarrow> gh_error + json" where
  "main_rules get p =
     (case get (gh_repo_path p @ ''/rules/branches/main'') of
        Inl (Infra e) \<Rightarrow> if py_contains PLAN_GATED e then Inr (JList []) else Inl (Infra e)
      | r \<Rightarrow> r)"

fun check_contexts :: "json list \<Rightarrow> string list option" where
  "check_contexts [] = Some []"
| "check_contexts (check # checks) =
     (case jget ''context'' check of
        JStr c \<Rightarrow> if c = [] then None else map_option (Cons c) (check_contexts checks)
      | _ \<Rightarrow> None)"

fun rule_contexts :: "json list \<Rightarrow> string list option" where
  "rule_contexts [] = Some []"
| "rule_contexts (rule # rules) =
     (if \<not> is_obj rule then None
      else if jget ''type'' rule \<noteq> JStr ''required_status_checks'' then rule_contexts rules
      else (case jget ''required_status_checks'' (jget ''parameters'' rule) of
              JList checks \<Rightarrow>
                Option.bind (check_contexts checks) (\<lambda>cs. map_option (append cs) (rule_contexts rules))
            | _ \<Rightarrow> None))"

definition required_contexts :: "json \<Rightarrow> string list option" where
  "required_contexts rules = Option.bind (jlist rules) rule_contexts"

definition protected_contexts :: "get \<Rightarrow> pull \<Rightarrow> string list" where
  "protected_contexts get p =
     (case get (gh_repo_path p @ ''/branches/main'') of
        Inl _ \<Rightarrow> []
      | Inr branch \<Rightarrow>
          (case jget ''contexts'' (jget ''required_status_checks'' (jget ''protection'' branch)) of
             JList cs \<Rightarrow> List.map_filter (\<lambda>c. case c of JStr s \<Rightarrow> if s = [] then None else Some s | _ \<Rightarrow> None) cs
           | _ \<Rightarrow> []))"

text \<open>\<^verbatim>\<open>_check_reads\<close>: what cannot be read stays unknown.\<close>

definition check_reads ::
    "get \<Rightarrow> pull \<Rightarrow> string \<Rightarrow> (json list option \<times> string list option) option" where
  "check_reads get p sha =
     map_option (\<lambda>read.
       (case read of Inr runs \<Rightarrow> runs | Inl _ \<Rightarrow> None,
        case main_rules get p of
          Inl _ \<Rightarrow> None
        | Inr rules \<Rightarrow> map_option (\<lambda>cs. cs @ protected_contexts get p) (required_contexts rules)))
       (if sha = [] then Some (Inr None) else check_runs_of get p sha)"

subsection \<open>The reading of main\<close>

definition newest_runs :: "json list \<Rightarrow> (json \<times> json) list" where
  "newest_runs runs =
     rev (map (\<lambda>r. (jget ''name'' r, r))
       (sort_key (\<lambda>r. case jget ''id'' r of JInt i \<Rightarrow> i | _ \<Rightarrow> 0) (filter (\<lambda>r. jint (jget ''id'' r) \<noteq> None) runs)))"

definition required_green :: "json list \<Rightarrow> string list \<Rightarrow> bool" where
  "required_green runs required \<longleftrightarrow> required \<noteq> [] \<and>
     list_all (\<lambda>name. case map_of (newest_runs runs) (JStr name) of
        None \<Rightarrow> False | Some r \<Rightarrow> jget ''conclusion'' r = JStr ''success'') required"

record failed_job =
  fj_name :: string
  fj_required :: bool
  fj_job :: "int option"
  fj_run :: "nat option"

definition failed_jobs :: "json list \<Rightarrow> string list \<Rightarrow> failed_job list" where
  "failed_jobs runs required =
     map (\<lambda>c. \<lparr>fj_name = fc_name c, fj_required = fc_name c \<in> set required, fj_job = fc_job c, fj_run = fc_run c\<rparr>)
       (failed_checks (Some runs))"

datatype main_state = MainSkipped | MainUnknown | MainFailure | MainNone | MainPending | MainSuccess

record main_checks =
  mc_state :: main_state
  mc_sha :: "string option"
  mc_failed :: "failed_job list"

definition main_head :: "get \<Rightarrow> pull \<Rightarrow> gh_error + string" where
  "main_head get p =
     bindE (get (gh_repo_path p @ ''/commits/main'')) (\<lambda>answer.
       case jget ''sha'' answer of
         JStr sha \<Rightarrow> if sha = [] then Inl (Infra ''no sha'') else Inr sha
       | _ \<Rightarrow> Inl (Infra ''no sha''))"

text \<open>\<^verbatim>\<open>_reads\<close>: the runs of a commit and the required contexts, or the error.\<close>

definition strict_reads :: "get \<Rightarrow> pull \<Rightarrow> string \<Rightarrow> (gh_error + json list \<times> string list) option" where
  "strict_reads get p ref =
     map_option (\<lambda>read. bindE read (\<lambda>runs. bindE (main_rules get p) (\<lambda>rules.
       case (runs, required_contexts rules) of
         (Some rs, Some req) \<Rightarrow> Inr (rs, req @ protected_contexts get p)
       | _ \<Rightarrow> Inl (Infra ''unreadable check read''))))
       (check_runs_of get p ref)"

definition judged_main :: "string \<Rightarrow> json list \<Rightarrow> string list \<Rightarrow> main_checks \<times> bool" where
  "judged_main sha runs required =
     (let green = required_green runs required; failed = failed_jobs runs required
      in if failed \<noteq> [] then (\<lparr>mc_state = MainFailure, mc_sha = Some sha, mc_failed = failed\<rparr>, green)
         else if runs = [] then (\<lparr>mc_state = MainNone, mc_sha = Some sha, mc_failed = []\<rparr>, green)
         else if list_ex (\<lambda>r. \<not> completed r) runs
         then (\<lparr>mc_state = MainPending, mc_sha = Some sha, mc_failed = []\<rparr>, green)
         else (\<lparr>mc_state = MainSuccess, mc_sha = Some sha, mc_failed = []\<rparr>, green \<or> required = []))"

definition main_reading :: "get \<Rightarrow> pull option \<Rightarrow> (main_checks \<times> bool) option" where
  "main_reading get origin =
     (let unread = (\<lambda>st. (\<lparr>mc_state = st, mc_sha = None, mc_failed = []\<rparr>, False))
      in case origin of
           None \<Rightarrow> Some (unread MainSkipped)
         | Some p \<Rightarrow>
             (case main_head get p of
                Inl _ \<Rightarrow> Some (unread MainUnknown)
              | Inr sha \<Rightarrow>
                  map_option (\<lambda>read. case read of
                      Inl _ \<Rightarrow> unread MainUnknown
                    | Inr (runs, required) \<Rightarrow> judged_main sha runs required) (strict_reads get p sha)))"

definition pull_checks :: "get \<Rightarrow> pull \<Rightarrow> (gh_error + (string \<times> bool) list) option" where
  "pull_checks get p =
     (case get (pull_path p) of
        Inl e \<Rightarrow> Some (Inl e)
      | Inr answer \<Rightarrow>
          if jget ''state'' answer = JStr ''closed'' then Some (Inr [])
          else if jget ''state'' answer \<noteq> JStr ''open'' then Some (Inl (Infra ''no state''))
          else (case jget ''sha'' (jget ''head'' answer) of
                  JStr sha \<Rightarrow>
                    if sha = [] then Some (Inl (Infra ''no head''))
                    else map_option (\<lambda>read. bindE read (\<lambda>(runs, required).
                      let failed = map (\<lambda>c. (fc_name c, fc_name c \<in> set required)) (failed_checks (Some runs))
                      in Inr (if list_ex (\<lambda>(_, needed). needed \<or> required = []) failed then failed else [])))
                      (strict_reads get p sha)
                | _ \<Rightarrow> Some (Inl (Infra ''no head''))))"

subsection \<open>Checks that never report\<close>

text \<open>\<^verbatim>\<open>unreported\<close>: the table of first sightings, keyed by head and name, after one look, and the
  names absent for the limit.\<close>

definition unreported ::
    "string \<Rightarrow> string list \<Rightarrow> int \<Rightarrow> int \<Rightarrow> ((string \<times> string) \<times> int) list \<Rightarrow>
     string list \<times> ((string \<times> string) \<times> int) list" where
  "unreported head missing limit now absent =
     (let kept = filter (\<lambda>((h, n), _). h = head \<and> n \<in> set missing) absent;
          seen = fold (\<lambda>n table. if map_of table (head, n) = None then ((head, n), now) # table else table) missing kept
      in (filter (\<lambda>n. case map_of seen (head, n) of None \<Rightarrow> False | Some t \<Rightarrow> limit \<le> now - t) missing, seen))"

text \<open>A sequence of looks, each with the head, the missing checks and the time; newest last.\<close>

definition look :: "int \<Rightarrow> ((string \<times> string) \<times> int) list \<Rightarrow> string \<times> string list \<times> int \<Rightarrow> ((string \<times> string) \<times> int) list" where
  "look limit absent l = (case l of (head, missing, now) \<Rightarrow> snd (unreported head missing limit now absent))"

definition looks :: "int \<Rightarrow> (string \<times> string list \<times> int) list \<Rightarrow> ((string \<times> string) \<times> int) list" where
  "looks limit ls = foldl (look limit) [] ls"

subsection \<open>What the verdicts mean\<close>

lemma fold_runs_Some:
  assumes "fold_runs blocking state names runs = Some (state', names')"
  shows "(state' = Success \<longrightarrow> state = Success \<and> list_all (\<lambda>r. is_obj r \<and> completed r) runs)
    \<and> list_all (\<lambda>r. is_obj r \<and> completed r \<longrightarrow> \<not> run_blocks blocking r) runs
    \<and> set names' = set names \<union> jget ''name'' ` {r \<in> set runs. is_obj r \<and> completed r}"
  using assms
proof (induction blocking state names runs rule: fold_runs.induct)
  case (2 blocking state names run runs)
  show ?case
  proof (cases "is_obj run \<and> completed run")
    case True
    then have "\<not> run_blocks blocking run" "fold_runs blocking state (jget ''name'' run # names) runs = Some (state', names')"
      using 2(4) by (auto split: if_split_asm)
    moreover have "{r \<in> set (run # runs). is_obj r \<and> completed r} = insert run {r \<in> set runs. is_obj r \<and> completed r}"
      using True by auto
    ultimately show ?thesis using 2(3) True by auto
  next
    case False
    then have "fold_runs blocking Pending names runs = Some (state', names')"
      using 2(4) by (auto split: if_split_asm)
    moreover have "{r \<in> set (run # runs). is_obj r \<and> completed r} = {r \<in> set runs. is_obj r \<and> completed r}"
      using False by auto
    ultimately show ?thesis using 2(1,2) False by (cases "is_obj run") auto
  qed
qed simp

lemma fold_success:
  assumes "fold_checks rollup runs required blocking = Success"
  shows "\<exists>rs req. runs = Some rs \<and> required = Some req
    \<and> list_all (\<lambda>r. is_obj r \<and> completed r \<and> \<not> run_blocks blocking r) rs
    \<and> list_all (\<lambda>c. list_ex (\<lambda>r. completed r \<and> jget ''name'' r = JStr c) rs) req
    \<and> (rollup_state rollup = Success \<or> only_optional_red runs blocking)"
proof -
  obtain state names rs req where parts: "runs = Some rs" "required = Some req"
      "fold_runs blocking (if rollup_state rollup = Failure then Success else rollup_state rollup) [] rs = Some (Success, names)"
      "\<not> list_ex (\<lambda>c. JStr c \<notin> set names) req"
      "rollup_state rollup = Failure \<longrightarrow> only_optional_red runs blocking"
    using assms by (auto simp: fold_checks_def Let_def split: option.split_asm if_split_asm prod.split_asm)
  have f: "list_all (\<lambda>r. is_obj r \<and> completed r) rs"
      "list_all (\<lambda>r. is_obj r \<and> completed r \<longrightarrow> \<not> run_blocks blocking r) rs"
      "set names = jget ''name'' ` {r \<in> set rs. is_obj r \<and> completed r}"
      "(if rollup_state rollup = Failure then Success else rollup_state rollup) = Success"
    using fold_runs_Some [OF parts(3)] by simp_all
  have named: "list_all (\<lambda>c. list_ex (\<lambda>r. completed r \<and> jget ''name'' r = JStr c) rs) req"
    unfolding list_all_iff
  proof
    fix c
    assume "c \<in> set req"
    then have "JStr c \<in> jget ''name'' ` {r \<in> set rs. is_obj r \<and> completed r}"
      using parts(4) f(3) by (auto simp: list_ex_iff)
    then show "list_ex (\<lambda>r. completed r \<and> jget ''name'' r = JStr c) rs" by (force simp: list_ex_iff)
  qed
  have "list_all (\<lambda>r. is_obj r \<and> completed r \<and> \<not> run_blocks blocking r) rs" using f(1,2) by (auto simp: list_all_iff)
  moreover have "rollup_state rollup = Success \<or> only_optional_red runs blocking"
    using f(4) parts(5) by (auto split: if_split_asm)
  ultimately show ?thesis using parts(1,2) named by blast
qed

lemma fold_unreadable: "runs = None \<or> required = None \<Longrightarrow> fold_checks rollup runs required blocking \<noteq> Success"
  using fold_success by blast

text \<open>Reading the pages ends when GitHub's total stays under a bound.\<close>

lemma runs_from_returns:
  assumes "\<And>page answer batch promised. get (runs_path p sha page) = Inr answer \<Longrightarrow>
      jget ''check_runs'' answer = JList batch \<Longrightarrow> page_total answer batch page = Some promised \<Longrightarrow> promised \<le> int bound"
  shows "runs_from get p sha runs page \<noteq> None"
proof (induction "bound - length runs" arbitrary: runs page rule: less_induct)
  case less
  show ?case
  proof (cases "\<exists>answer batch promised. get (runs_path p sha page) = Inr answer \<and> jget ''check_runs'' answer = JList batch
      \<and> list_all is_obj batch \<and> page_total answer batch page = Some promised \<and> int (length (runs @ batch)) < promised \<and> batch \<noteq> []")
    case True
    then obtain answer batch promised where a: "get (runs_path p sha page) = Inr answer"
      "jget ''check_runs'' answer = JList batch" "list_all is_obj batch" "page_total answer batch page = Some promised"
      "int (length (runs @ batch)) < promised" "batch \<noteq> []" by blast
    have b: "promised \<le> int bound" by (rule assms [OF a(1,2,4)])
    have "0 < length batch" using a(6) by simp
    moreover have "length runs + length batch < bound" using a(5) b by simp
    ultimately have "bound - length (runs @ batch) < bound - length runs"
      unfolding length_append by linarith
    from less [OF this] show ?thesis using a by (subst runs_from.simps) simp
  next
    case False
    show ?thesis
    proof (cases "get (runs_path p sha page)")
      case (Inl e)
      then show ?thesis by (subst runs_from.simps) simp
    next
      case (Inr answer)
      show ?thesis
      proof (cases "jget ''check_runs'' answer")
        case (JList batch)
        then show ?thesis
          using False Inr by (subst runs_from.simps) (auto simp: not_less split: option.split)
      qed (use Inr in \<open>subst runs_from.simps, simp\<close>)+
    qed
  qed
qed

text \<open>Main is called green only on the newest run of each required check.\<close>

lemma judged_main_green:
  assumes "snd (judged_main sha runs required)"
  shows "(required \<noteq> [] \<and> list_all (\<lambda>name. \<exists>r. map_of (newest_runs runs) (JStr name) = Some r
      \<and> jget ''conclusion'' r = JStr ''success'') required)
    \<or> (required = [] \<and> runs \<noteq> [] \<and> list_all completed runs \<and> failed_jobs runs required = [])"
proof (cases "required = []")
  case True
  then show ?thesis using assms
    by (auto simp: judged_main_def Let_def required_green_def list_all_iff list_ex_iff split: if_split_asm)
next
  case False
  then have "required_green runs required" using assms by (auto simp: judged_main_def Let_def split: if_split_asm)
  then show ?thesis using False by (auto simp: required_green_def list_all_iff split: option.split_asm)
qed

lemma newest_runs_newest:
  assumes "map_of (newest_runs runs) n = Some r" and "q \<in> set runs" and "jget ''name'' q = n" and "jget ''id'' q = JInt i"
  shows "r \<in> set runs \<and> (\<exists>k. jget ''id'' r = JInt k \<and> i \<le> k)"
proof -
  let ?key = "\<lambda>r. case jget ''id'' r of JInt i \<Rightarrow> i | _ \<Rightarrow> 0"
  define xs where "xs = sort_key ?key (filter (\<lambda>r. jint (jget ''id'' r) \<noteq> None) runs)"
  have r: "map_of (rev (map (\<lambda>r. (jget ''name'' r, r)) xs)) n = Some r"
    using assms(1) by (simp add: newest_runs_def xs_def)
  have q: "q \<in> set xs" using assms(2,4) by (simp add: xs_def jint_def)
  have in_xs: "r \<in> set xs" using map_of_SomeD [OF r] by auto
  have sorted: "sorted (map ?key xs)" by (simp add: xs_def)
  have "?key q \<le> ?key r"
    using r q sorted assms(3)
  proof (induction xs rule: rev_induct)
    case (snoc x xs)
    show ?case
    proof (cases "jget ''name'' x = n")
      case True
      then have "r = x" using snoc.prems(1) by simp
      then show ?thesis using snoc.prems(2,3) by (auto simp: sorted_append)
    next
      case False
      then show ?thesis using snoc by (auto simp: sorted_append)
    qed
  qed simp
  moreover obtain k where "jget ''id'' r = JInt k" "r \<in> set runs"
    using in_xs by (auto simp: xs_def jint_def split: json.split_asm)
  ultimately show ?thesis using assms(4) by simp
qed

subsection \<open>When a check is called unreported\<close>

lemma seen_table:
  "map_of (fold (\<lambda>n table. if map_of table (head, n) = None then ((head, n), now) # table else table) missing kept) k
     = (case map_of kept k of
          Some t \<Rightarrow> Some t
        | None \<Rightarrow> if fst k = head \<and> snd k \<in> set missing then Some now else None)"
  by (induction missing arbitrary: kept) (auto split: option.split)

lemma kept_table:
  "map_of (filter (\<lambda>((h, n), _). h = head \<and> n \<in> set missing) absent) k
     = (if fst k = head \<and> snd k \<in> set missing then map_of absent k else None)"
  by (induction absent) (auto split: if_split_asm)

lemma looks_standing:
  assumes "map_of (looks limit ls) (h, n) = Some t"
  shows "\<exists>before_look since. ls = before_look @ since \<and> since \<noteq> [] \<and> snd (snd (hd since)) = t
    \<and> list_all (\<lambda>(head, missing, now). head = h \<and> n \<in> set missing) since"
  using assms
proof (induction ls arbitrary: t rule: rev_induct)
  case Nil
  then show ?case by (simp add: looks_def)
next
  case (snoc l ls)
  obtain head missing now where l: "l = (head, missing, now)" by (cases l)
  have t: "map_of (look limit (looks limit ls) l) (h, n) = Some t" using snoc.prems by (simp add: looks_def)
  have m: "head = h" "n \<in> set missing"
    and cases: "map_of (looks limit ls) (h, n) = Some t \<or> t = now"
    using t by (auto simp: l look_def unreported_def seen_table kept_table Let_def split: option.split_asm if_split_asm)
  from cases show ?case
  proof
    assume "map_of (looks limit ls) (h, n) = Some t"
    from snoc.IH [OF this] obtain b since where s: "ls = b @ since" "since \<noteq> []" "snd (snd (hd since)) = t"
      "list_all (\<lambda>(head, missing, now). head = h \<and> n \<in> set missing) since" by blast
    then show ?thesis using m l by (intro exI [of _ b] exI [of _ "since @ [l]"]) auto
  next
    assume "t = now"
    then show ?thesis using m l by (intro exI [of _ ls] exI [of _ "[l]"]) auto
  qed
qed

lemma unreported_waited:
  assumes "n \<in> set (fst (unreported head missing limit now (looks limit ls)))" and "0 < limit"
  shows "\<exists>before_look since. ls = before_look @ since \<and> since \<noteq> [] \<and> limit \<le> now - snd (snd (hd since))
    \<and> list_all (\<lambda>(h, miss, _). h = head \<and> n \<in> set miss) since \<and> n \<in> set missing"
proof -
  have n: "n \<in> set missing" and t: "\<exists>t. map_of (looks limit ls) (head, n) = Some t \<and> limit \<le> now - t"
    using assms by (auto simp: unreported_def seen_table kept_table Let_def split: option.split_asm if_split_asm)
  then obtain t where "map_of (looks limit ls) (head, n) = Some t" "limit \<le> now - t" by blast
  from looks_standing [OF this(1)] this(2) n show ?thesis by fastforce
qed

end
