(* ===== verification/Reads.thy ===== *)
theory Reads
  imports Frontier
begin

section \<open>Reads: the queries the console and the loop put to the store\<close>

text \<open>
  \<^verbatim>\<open>store/read.py\<close>. A query that selects columns of joined rows returns the rows themselves; a
  value the code computes beside them is a field of its own. \<open>queued_behind\<close> is the worklist of
  \<^verbatim>\<open>_queued_behind\<close>, a function because every turn either shortens the worklist or enlarges the
  set of issues seen.

  The lemmas: the worklist ends with exactly the issues that wait on the ticket, directly or
  through others, whatever cycles the dependencies have; a stuck wait names a dependency that
  is stuck; a ledger line is cleared by the later of the question and the end before it.
\<close>

subsection \<open>SQL patterns and limits\<close>

fun sql_like :: "string \<Rightarrow> string \<Rightarrow> bool" where
  "sql_like [] cs = (cs = [])"
| "sql_like (p # ps) [] = (p = CHR ''%'' \<and> sql_like ps [])"
| "sql_like (p # ps) (c # cs) =
     (if p = CHR ''%'' then sql_like ps (c # cs) \<or> sql_like (p # ps) cs
      else (p = CHR ''_'' \<or> ascii_lower p = ascii_lower c) \<and> sql_like ps cs)"

text \<open>\<^verbatim>\<open>LIMIT\<close>: a negative number is no limit.\<close>

definition sql_limit :: "int \<Rightarrow> 'a list \<Rightarrow> 'a list" where
  "sql_limit n xs = (if n < 0 then xs else take (nat n) xs)"

definition max_at :: "int list \<Rightarrow> int option" where
  "max_at xs = (case xs of [] \<Rightarrow> None | x # rest \<Rightarrow> Some (foldr max rest x))"

definition last_run_of :: "ticket_row \<Rightarrow> store \<Rightarrow> run_row option" where
  "last_run_of t s = Option.bind (t_last t) (\<lambda>k. run_of k s)"

definition closed_status :: "ticket_status \<Rightarrow> bool" where
  "closed_status st \<longleftrightarrow> st = TS_MERGED \<or> st = TS_ABANDONED"

subsection \<open>Tickets\<close>

definition ticket_by_id :: "nat \<Rightarrow> store \<Rightarrow> ticket_row option" where
  "ticket_by_id tid s = ticket_of tid s"

text \<open>An issue's identifier, status and pull request, by project and issue.\<close>

definition dependency_rows ::
    "store \<Rightarrow> nat \<times> string \<Rightarrow> (string \<times> ticket_status option \<times> string option) option" where
  "dependency_rows s = map_of (rev (map (\<lambda>t. ((t_project t, t_issue t),
     (t_ident t, Some (t_status t),
      Option.bind (Option.bind (case t_active t of None \<Rightarrow> t_last t | Some k \<Rightarrow> Some k)
        (\<lambda>k. run_of k s)) r_pr))) (tickets s)))"

definition unmerged ::
    "(nat \<times> string \<Rightarrow> (string \<times> ticket_status option \<times> string option) option) \<Rightarrow> nat \<Rightarrow> string list \<Rightarrow>
     (string \<times> string option) list" where
  "unmerged deps project issues =
     List.map_filter (\<lambda>issue.
       let (ident, status, url) = (case deps (project, issue) of None \<Rightarrow> (issue, None, None) | Some d \<Rightarrow> d)
       in if status \<noteq> Some TS_MERGED then Some (ident, url) else None) issues"

definition judged_rounds :: "nat \<Rightarrow> store \<Rightarrow> nat" where
  "judged_rounds rid s = length (filter (\<lambda>r. rr_run r = rid \<and> rr_verdict r \<noteq> RV_ERROR) (rounds s))"

definition redirected_at :: "nat \<Rightarrow> store \<Rightarrow> int option" where
  "redirected_at rid s =
     max_at (map i_at (filter (\<lambda>i. i_run i = Some rid \<and> i_action i = IA_REDIRECT) (interventions s)))"

record blocked_ticket =
  bt_ticket :: ticket_row
  bt_run :: "run_row option"
  bt_asked :: "int option"
  bt_rounds :: nat
  bt_waits :: "(string \<times> string option) list"

definition blocked_tickets :: "nat option \<Rightarrow> store \<Rightarrow> blocked_ticket list" where
  "blocked_tickets project s =
     (let rows = sort_key t_id (filter (\<lambda>t. t_status t = TS_BLOCKED_ON_OPERATOR
            \<and> (case project of None \<Rightarrow> True | Some p \<Rightarrow> t_project t = p)) (tickets s));
          deps = (if list_ex (\<lambda>t. t_depends t \<noteq> []) rows then dependency_rows s else (\<lambda>_. None))
      in map (\<lambda>t. let run = last_run_of t s in
           \<lparr>bt_ticket = t, bt_run = run,
            bt_asked = (case Option.bind run (\<lambda>r. redirected_at (r_id r) s) of
                          None \<Rightarrow> map_option r_heartbeat run | Some n \<Rightarrow> Some n),
            bt_rounds = (case run of None \<Rightarrow> 0 | Some r \<Rightarrow> judged_rounds (r_id r) s),
            bt_waits = unmerged deps (t_project t) (t_depends t)\<rparr>) rows)"

text \<open>The open tickets, each with the dependencies that are not closed, by identifier.\<close>

definition open_tickets :: "nat option \<Rightarrow> store \<Rightarrow> (ticket_row \<times> string list) list" where
  "open_tickets project s =
     (let rows = sort_key t_ident (filter (\<lambda>t. \<not> closed_status (t_status t)
            \<and> (case project of None \<Rightarrow> True | Some p \<Rightarrow> t_project t = p)) (tickets s));
          mirrored = map_of (rev (map (\<lambda>t. (t_issue t, t_ident t)) rows));
          closed = map t_issue (filter (\<lambda>t. closed_status (t_status t)) (tickets s))
      in map (\<lambda>t. (t, map (\<lambda>dep. case mirrored dep of None \<Rightarrow> dep | Some i \<Rightarrow> i)
             (filter (\<lambda>dep. dep \<notin> set closed) (t_depends t)))) rows)"

definition search_tickets :: "string \<Rightarrow> store \<Rightarrow> string list" where
  "search_tickets query s =
     (let needle = py_lower query
      in map t_ident (filter (\<lambda>t. list_ex (\<lambda>txt. py_contains needle (py_lower txt))
             (t_ident t # t_title t # t_body t # t_labels t))
           (sort_key t_ident (tickets s))))"

text \<open>The open stories by identifier, each with its children by identifier.\<close>

record shown_story =
  os_ident :: string
  os_title :: string
  os_children :: "(string \<times> ticket_status) list"

definition story_members :: "nat \<Rightarrow> store \<Rightarrow> ticket_row list" where
  "story_members sid s = List.map_filter (\<lambda>k. ticket_of k s)
     (remdups (map ch_ticket (filter (\<lambda>c. ch_story c = sid) (story_children s))))"

definition open_stories :: "store \<Rightarrow> shown_story list" where
  "open_stories s =
     (let parents = sort_key t_ident (List.map_filter (\<lambda>y. case ticket_of (y_ticket y) s of
            None \<Rightarrow> None | Some t \<Rightarrow> if closed_status (t_status t) then None else Some t) (stories s));
          named = rev (remdups (rev (map t_ident parents)))
      in List.map_filter (\<lambda>i. map_option (\<lambda>p.
           \<lparr>os_ident = i, os_title = t_title p,
            os_children = map (\<lambda>c. (t_ident c, t_status c))
              (sort_key t_ident (concat (map (\<lambda>p. story_members (t_id p) s)
                (filter (\<lambda>p. t_ident p = i) parents))))\<rparr>)
           (find (\<lambda>p. t_ident p = i) parents)) named)"

definition ticket_by_identifier :: "string \<Rightarrow> store \<Rightarrow> (ticket_row \<times> run_row option) option" where
  "ticket_by_identifier ident s =
     map_option (\<lambda>t. (t, Option.bind (t_active t) (\<lambda>k. run_of k s)))
       (find (\<lambda>t. t_ident t = ident) (tickets s))"

definition revisions_of_ticket :: "nat \<Rightarrow> store \<Rightarrow> revision_row list" where
  "revisions_of_ticket tid s = rev (sort_key v_revision (filter (\<lambda>v. v_ticket v = tid) (revisions s)))"

definition pending_notes :: "nat \<Rightarrow> store \<Rightarrow> (note_row \<times> ticket_row) list" where
  "pending_notes pid s =
     List.map_filter (\<lambda>n. case ticket_of (n_ticket n) s of
         None \<Rightarrow> None
       | Some t \<Rightarrow> if t_project t = pid \<and> t_gone t = None then Some (n, t) else None)
       (sort_key n_at (sort_key n_id (filter (\<lambda>n. n_posted n = None) (ticket_notes s))))"

definition notes_of_ticket :: "nat \<Rightarrow> store \<Rightarrow> note_row list" where
  "notes_of_ticket tid s = sort_key n_at (sort_key n_id (filter (\<lambda>n. n_ticket n = tid) (ticket_notes s)))"

definition ticket_runs :: "nat \<Rightarrow> store \<Rightarrow> (run_row \<times> nat) list" where
  "ticket_runs tid s =
     map (\<lambda>r. (r, length (filter (\<lambda>q. rr_run q = r_id r) (rounds s))))
       (rev (sort_key r_attempt (sort_key r_id (filter (\<lambda>r. r_ticket r = tid) (runs s)))))"

definition pull_request_runs :: "nat \<Rightarrow> store \<Rightarrow> (nat \<times> int option) list" where
  "pull_request_runs rid s =
     (case run_of rid s of
        None \<Rightarrow> []
      | Some r \<Rightarrow> map (\<lambda>q. (r_id q, r_ended q)) (sort_key r_id (filter (\<lambda>q. r_ticket q = r_ticket r
          \<and> (r_id q = r_id r \<or> r_pr q \<noteq> None \<and> r_pr q = r_pr r)) (runs s))))"

subsection \<open>Runs, rounds, events\<close>

definition review_rounds :: "store \<Rightarrow> (round_row \<times> string) list" where
  "review_rounds s =
     List.map_filter (\<lambda>q. map_option (\<lambda>t. (q, t_ident t))
       (Option.bind (run_of (rr_run q) s) (\<lambda>r. ticket_of (r_ticket r) s))) (rounds s)"

definition newest_ended_rounds :: "nat \<Rightarrow> int \<Rightarrow> store \<Rightarrow> (int \<times> finding list) list" where
  "newest_ended_rounds rid count s =
     map (\<lambda>q. (rr_round q, rr_findings q)) (sql_limit count
       (rev (sort_key rr_round (filter (\<lambda>q. rr_run q = rid \<and> rr_ended q \<noteq> None) (rounds s)))))"

definition run_detail :: "nat \<Rightarrow> store \<Rightarrow> (run_row \<times> ticket_row) option" where
  "run_detail rid s =
     Option.bind (run_of rid s) (\<lambda>r. map_option (Pair r) (ticket_of (r_ticket r) s))"

definition rounds_of :: "nat \<Rightarrow> store \<Rightarrow> round_row list" where
  "rounds_of rid s = sort_key rr_round (filter (\<lambda>q. rr_run q = rid) (rounds s))"

definition narrative_events :: "nat \<Rightarrow> string list \<Rightarrow> store \<Rightarrow> (int \<times> string \<times> string) list" where
  "narrative_events rid detail_kinds s =
     map (\<lambda>e. (e_at e, e_kind e, e_summary e))
       (sort_key e_seq (filter (\<lambda>e. e_run e = Some rid
          \<and> (e_level e = EL_NARRATIVE \<or> e_kind e \<in> set detail_kinds)) (events s)))"

definition latest_event_summary :: "nat \<Rightarrow> string \<Rightarrow> store \<Rightarrow> string option" where
  "latest_event_summary rid kind s =
     (case rev (sort_key e_seq (filter (\<lambda>e. e_run e = Some rid \<and> e_kind e = kind) (events s))) of
        [] \<Rightarrow> None | e # _ \<Rightarrow> Some (e_summary e))"

definition narrative_events_after :: "nat \<Rightarrow> int \<Rightarrow> store \<Rightarrow> (event_row \<times> string option) list" where
  "narrative_events_after after since s =
     List.map_filter (\<lambda>e. map_option (\<lambda>r. (e, map_option t_ident (ticket_of (r_ticket r) s)))
         (Option.bind (e_run e) (\<lambda>k. run_of k s)))
       (sort_key e_id (filter (\<lambda>e. after < e_id e \<and> since \<le> e_at e \<and> e_level e = EL_NARRATIVE) (events s)))"

subsection \<open>The ledger\<close>

text \<open>The last question put to the run before the line, and the run's end when it came before.\<close>

definition asked_before :: "ledger_row \<Rightarrow> store \<Rightarrow> int option" where
  "asked_before l s = max_at (map i_at (filter (\<lambda>i. i_run i = Some (l_run l)
     \<and> i_action i = IA_REDIRECT \<and> i_at i < l_at l) (interventions s)))"

definition ended_before :: "ledger_row \<Rightarrow> store \<Rightarrow> int option" where
  "ended_before l s =
     (case Option.bind (run_of (l_run l) s) r_ended of
        None \<Rightarrow> None | Some n \<Rightarrow> if n < l_at l then Some n else None)"

datatype cleared = ClearedQuestion | ClearedFailed

definition cleared_by :: "ledger_kind \<Rightarrow> int \<Rightarrow> int option \<Rightarrow> int option \<Rightarrow> (cleared \<times> int) option" where
  "cleared_by kind at_ms asked ended =
     (if kind \<noteq> LK_INTERVENTION then None
      else case (asked, ended) of
          (None, None) \<Rightarrow> None
        | (Some a, None) \<Rightarrow> Some (ClearedQuestion, at_ms - a)
        | (None, Some e) \<Rightarrow> Some (ClearedFailed, at_ms - e)
        | (Some a, Some e) \<Rightarrow> if a > e then Some (ClearedQuestion, at_ms - a) else Some (ClearedFailed, at_ms - e))"

record ledger_entry =
  le_line :: ledger_row
  le_ticket :: "string option"
  le_cleared :: "(cleared \<times> int) option"
  le_pr :: "string option"

definition ledger_entry :: "store \<Rightarrow> string option \<Rightarrow> string option \<Rightarrow> ledger_row \<Rightarrow> ledger_entry" where
  "ledger_entry s ident url l =
     \<lparr>le_line = l, le_ticket = ident,
      le_cleared = cleared_by (l_kind l) (l_at l) (asked_before l s) (ended_before l s), le_pr = url\<rparr>"

definition run_ledger :: "nat \<Rightarrow> store \<Rightarrow> ledger_entry list" where
  "run_ledger rid s =
     map (ledger_entry s None None) (sort_key l_at (sort_key l_id (filter (\<lambda>l. l_run l = rid) (ledger s))))"

text \<open>The lines of a standing launch backoff are shown only where its first ones were not.\<close>

definition launch_backoff_shown :: "store \<Rightarrow> ticket_row \<Rightarrow> ledger_row \<Rightarrow> bool" where
  "launch_backoff_shown s t l \<longleftrightarrow>
     \<not> (l_kind l = LK_INTERVENTION
        \<and> (sql_like ''supervisor launch_loop:%'' (l_text l)
           \<or> sql_like ''supervisor launch_backoff:%'' (l_text l))
        \<and> (\<exists>p \<in> set (projects s). p_id p = t_project t
             \<and> (case p_backoff p of None \<Rightarrow> False | Some (_, since, _) \<Rightarrow> since \<le> l_at l)))"

definition ledger_since ::
    "int \<Rightarrow> ledger_kind option \<Rightarrow> string option \<Rightarrow> int \<Rightarrow> bool \<Rightarrow> store \<Rightarrow> ledger_entry list" where
  "ledger_since since kind ident limit hide s =
     sql_limit limit (List.map_filter (\<lambda>l. case ticket_of (l_ticket l) s of
         None \<Rightarrow> None
       | Some t \<Rightarrow>
           if since \<le> l_at l \<and> (hide \<longrightarrow> launch_backoff_shown s t l)
              \<and> (kind = None \<or> kind = Some (l_kind l)) \<and> (ident = None \<or> ident = Some (t_ident t))
           then Some (ledger_entry s (Some (t_ident t)) (Option.bind (run_of (l_run l) s) r_pr) l) else None)
       (rev (sort_key l_at (sort_key l_id (ledger s)))))"

definition ledger_after :: "nat \<Rightarrow> int \<Rightarrow> int \<Rightarrow> store \<Rightarrow> ledger_entry list" where
  "ledger_after after since limit s =
     sql_limit limit (List.map_filter (\<lambda>l. case ticket_of (l_ticket l) s of
         None \<Rightarrow> None
       | Some t \<Rightarrow>
           if after < l_id l \<and> since \<le> l_at l \<and> launch_backoff_shown s t l
           then Some (ledger_entry s (Some (t_ident t)) None l) else None)
       (sort_key l_id (ledger s)))"

subsection \<open>The supervisor and the queue\<close>

definition strike :: "nat \<Rightarrow> store \<Rightarrow> strike_row option" where
  "strike rid s = find (\<lambda>q. s_run q = rid) (sweep_strikes s)"

definition supervisor_beat :: "store \<Rightarrow> beat_row option" where
  "supervisor_beat s =
     (case sort_key (\<lambda>b. - b_last b) (sort_key (\<lambda>b. - b_started b) (beats s)) of [] \<Rightarrow> None | b # _ \<Rightarrow> Some b)"

definition ready_tickets :: "nat option \<Rightarrow> store \<Rightarrow> (nat \<times> nat option) list" where
  "ready_tickets project s =
     map (\<lambda>t. (t_id t, t_last t)) (sort_key t_id (filter (\<lambda>t. t_status t = TS_READY \<and> t_active t = None
       \<and> (case project of None \<Rightarrow> True | Some p \<Rightarrow> t_project t = p)) (tickets s)))"

definition queued_tickets :: "nat \<Rightarrow> store \<Rightarrow> (ticket_row \<times> run_row) list" where
  "queued_tickets pid s =
     sort_key (\<lambda>(_, r). case r_ended r of None \<Rightarrow> 0 | Some n \<Rightarrow> n)
       (List.map_filter (\<lambda>t. case last_run_of t s of
           None \<Rightarrow> None
         | Some r \<Rightarrow> if t_status t = TS_READY \<and> t_active t = None \<and> t_column t \<noteq> Some BC_BACKLOG
             \<and> t_column t \<noteq> Some BC_CANCELED \<and> r_ended r \<noteq> None \<and> t_project t = pid
             then Some (t, r) else None) (sort_key t_id (tickets s)))"

definition pull_request_parked :: "run_outcome option \<Rightarrow> string option \<Rightarrow> park_kind option \<Rightarrow> bool" where
  "pull_request_parked outcome url kind \<longleftrightarrow>
     outcome \<noteq> Some OC_PAUSED \<and> url \<noteq> None \<and> url \<noteq> Some []
     \<and> kind \<in> {Some PK_PULL_REQUEST, Some PK_CI, Some PK_ROUTE}"

subsection \<open>Stuck waits\<close>

datatype stuck = StuckSpec | StuckAbandoned | StuckParked | StuckFailed | StuckClosed

type_synonym wait_row = "ticket_row \<times> run_row option"

definition wait_rows :: "store \<Rightarrow> wait_row list" where
  "wait_rows s = map (\<lambda>t. (t, last_run_of t s)) (sort_key t_ident (tickets s))"

definition stuck_state :: "wait_row \<Rightarrow> stuck option" where
  "stuck_state w =
     (let (t, r) = w; outcome = Option.bind r r_outcome
      in if t_status t = TS_NEEDS_SPEC then Some StuckSpec
         else if t_status t = TS_ABANDONED then Some StuckAbandoned
         else if t_status t = TS_BLOCKED_ON_OPERATOR
             \<and> \<not> pull_request_parked outcome (Option.bind r r_pr) (Option.bind r r_park) then Some StuckParked
         else if t_status t = TS_IN_FLIGHT \<and> t_active t = None \<and> outcome = Some OC_FAILED then Some StuckFailed
         else None)"

fun stuck_note_kinds :: "stuck \<Rightarrow> string list" where
  "stuck_note_kinds StuckSpec = [''critic'', ''stale'', ''validation'']"
| "stuck_note_kinds StuckAbandoned = [''cancel'']"
| "stuck_note_kinds StuckClosed = [''verdict'']"
| "stuck_note_kinds _ = []"

definition stuck_reason :: "wait_row \<Rightarrow> stuck \<Rightarrow> store \<Rightarrow> string option" where
  "stuck_reason w state s =
     (case state of
        StuckParked \<Rightarrow> t_question (fst w)
      | StuckFailed \<Rightarrow> Option.bind (snd w) r_reason
      | _ \<Rightarrow>
          (case rev (sort_key n_at (sort_key n_id (filter (\<lambda>n. n_ticket n = t_id (fst w)
              \<and> n_kind n \<in> set (stuck_note_kinds state)) (ticket_notes s)))) of
             [] \<Rightarrow> None | n # _ \<Rightarrow> Some (n_text n)))"

text \<open>
  The worklist: \<open>found_behind\<close> is one \<^verbatim>\<open>for other in waiting\<close>, which adds to the set seen and
  to the frontier; \<^verbatim>\<open>pop()\<close> takes the issue pushed last, here the head.
\<close>

fun found_behind :: "string \<Rightarrow> string \<Rightarrow> (string \<times> string list) list \<Rightarrow> string list \<Rightarrow> string list" where
  "found_behind me issue [] seen = []"
| "found_behind me issue ((other, deps) # waiting) seen =
     (if issue \<in> set deps \<and> other \<notin> set seen \<and> other \<noteq> me
      then other # found_behind me issue waiting (other # seen)
      else found_behind me issue waiting seen)"

lemma found_behind_set:
  "set (found_behind me issue waiting seen) =
     {i. i \<noteq> me \<and> i \<notin> set seen \<and> (\<exists>deps. (i, deps) \<in> set waiting \<and> issue \<in> set deps)}"
  by (induction me issue waiting seen rule: found_behind.induct) auto

lemma found_behind_distinct: "distinct (found_behind me issue waiting seen)"
  by (induction me issue waiting seen rule: found_behind.induct) (auto simp: found_behind_set)

definition unseen :: "(string \<times> string list) list \<Rightarrow> string list \<Rightarrow> nat" where
  "unseen waiting seen = card (fst ` set waiting - set seen)"

lemma unseen_found:
  "unseen waiting (rev (found_behind me issue waiting seen) @ seen)
     + length (found_behind me issue waiting seen) = unseen waiting seen"
proof -
  let ?new = "found_behind me issue waiting seen"
  have sub: "set ?new \<subseteq> fst ` set waiting - set seen"
    by (force simp: found_behind_set)
  have "fst ` set waiting - set (rev ?new @ seen) = (fst ` set waiting - set seen) - set ?new" by auto
  then show ?thesis
    using sub card_Diff_subset [OF _ sub] card_mono [OF _ sub] distinct_card [OF found_behind_distinct]
    by (simp add: unseen_def)
qed

function queued_loop ::
    "string \<Rightarrow> (string \<times> string list) list \<Rightarrow> string list \<Rightarrow> string list \<Rightarrow> string list" where
  "queued_loop me waiting seen [] = seen"
| "queued_loop me waiting seen (issue # frontier) =
     (let new = found_behind me issue waiting seen
      in queued_loop me waiting (rev new @ seen) (rev new @ frontier))"
  by pat_completeness auto

termination
proof (relation "measure (\<lambda>(me, waiting, seen, frontier). 2 * unseen waiting seen + length frontier)")
  fix me issue frontier seen x and waiting :: "(string \<times> string list) list"
  assume x: "x = found_behind me issue waiting seen"
  show "((me, waiting, rev x @ seen, rev x @ frontier), me, waiting, seen, issue # frontier)
    \<in> measure (\<lambda>(me, waiting, seen, frontier). 2 * unseen waiting seen + length frontier)"
    using unseen_found [of waiting me issue seen] unfolding x by simp
qed simp

definition queued_behind :: "ticket_row \<Rightarrow> ticket_row list \<Rightarrow> nat" where
  "queued_behind t waiting =
     length (queued_loop (t_issue t) (map (\<lambda>w. (t_issue w, t_depends w)) waiting) [] [t_issue t])"

definition by_issue :: "store \<Rightarrow> nat \<times> string \<Rightarrow> wait_row option" where
  "by_issue s = map_of (rev (map (\<lambda>w. ((t_project (fst w), t_issue (fst w)), w)) (wait_rows s)))"

definition related_tickets :: "nat \<Rightarrow> store \<Rightarrow> wait_row list \<times> wait_row list" where
  "related_tickets rid s =
     (case Option.bind (run_of rid s) (\<lambda>r. find (\<lambda>w. t_id (fst w) = r_ticket r) (wait_rows s)) of
        None \<Rightarrow> ([], [])
      | Some (t, _) \<Rightarrow>
          (List.map_filter (\<lambda>issue. by_issue s (t_project t, issue)) (t_depends t),
           filter (\<lambda>w. t_project (fst w) = t_project t \<and> t_issue t \<in> set (t_depends (fst w))) (wait_rows s)))"

text \<open>A ready child with no run in progress whose story has ended, by child.\<close>

definition ended_stories :: "store \<Rightarrow> nat \<Rightarrow> (nat \<times> story_state) option" where
  "ended_stories s = map_of (rev (List.map_filter (\<lambda>c.
     case (story_of (ch_story c) s, ticket_of (ch_ticket c) s) of
       (Some y, Some t) \<Rightarrow>
         if (y_state y = SY_CLOSED \<or> y_state y = SY_ABANDONED) \<and> t_status t = TS_READY
            \<and> \<not> (\<exists>r \<in> set (runs s). r_ticket r = t_id t \<and> r_ended r = None)
         then Some (ch_ticket c, (y_ticket y, y_state y)) else None
     | _ \<Rightarrow> None) (story_children s)))"

definition waited_on :: "ticket_row \<Rightarrow> store \<Rightarrow> (wait_row \<times> stuck) option" where
  "waited_on t s =
     (case ended_stories s (t_id t) of
        Some (sid, state) \<Rightarrow>
          map_option (\<lambda>p. ((p, last_run_of p s), if state = SY_CLOSED then StuckClosed else StuckAbandoned))
            (ticket_of sid s)
      | None \<Rightarrow>
          if t_status t \<noteq> TS_BLOCKED_ON_DEPS then None
          else
            (case filter (\<lambda>w. stuck_state w \<noteq> None)
                (List.map_filter (\<lambda>issue. by_issue s (t_project t, issue)) (t_depends t)) of
               [] \<Rightarrow> None
             | w # _ \<Rightarrow> map_option (Pair w) (stuck_state w)))"

record stuck_wait =
  sw_ticket :: ticket_row
  sw_dependency :: string
  sw_state :: stuck
  sw_reason :: "string option"
  sw_behind :: nat

definition stuck_waits :: "store \<Rightarrow> stuck_wait list" where
  "stuck_waits s =
     List.map_filter (\<lambda>(t, _). map_option (\<lambda>(dep, state).
       \<lparr>sw_ticket = t, sw_dependency = t_ident (fst dep), sw_state = state,
        sw_reason = stuck_reason dep state s,
        sw_behind = queued_behind t (map fst (filter (\<lambda>w. t_project (fst w) = t_project t
          \<and> t_status (fst w) = TS_BLOCKED_ON_DEPS) (wait_rows s)))\<rparr>) (waited_on t s)) (wait_rows s)"

subsection \<open>What the worklist returns\<close>

text \<open>The waits among the issues other than the ticket's own, as a relation.\<close>

definition waits_behind :: "string \<Rightarrow> (string \<times> string list) list \<Rightarrow> string \<Rightarrow> string \<Rightarrow> bool" where
  "waits_behind me waiting i j \<longleftrightarrow> j \<noteq> me \<and> (\<exists>deps. (j, deps) \<in> set waiting \<and> i \<in> set deps)"

lemma found_behind_waits:
  "set (found_behind me issue waiting seen) = {j. waits_behind me waiting issue j \<and> j \<notin> set seen}"
  by (auto simp: found_behind_set waits_behind_def)

lemma queued_loop_distinct: "distinct seen \<Longrightarrow> distinct (queued_loop me waiting seen frontier)"
  by (induction me waiting seen frontier rule: queued_loop.induct)
    (auto simp: Let_def found_behind_distinct found_behind_set)

lemma queued_loop_grows: "set seen \<subseteq> set (queued_loop me waiting seen frontier)"
  by (induction me waiting seen frontier rule: queued_loop.induct) (auto simp: Let_def)

lemma queued_loop_sound:
  "\<forall>i \<in> set seen \<union> set frontier. i = me \<or> (waits_behind me waiting)\<^sup>+\<^sup>+ me i \<Longrightarrow>
   j \<in> set (queued_loop me waiting seen frontier) \<Longrightarrow> j \<in> set seen \<or> (waits_behind me waiting)\<^sup>+\<^sup>+ me j"
proof (induction me waiting seen frontier rule: queued_loop.induct)
  case (2 me waiting seen issue frontier)
  let ?new = "found_behind me issue waiting seen"
  have new: "(waits_behind me waiting)\<^sup>+\<^sup>+ me i" if "i \<in> set ?new" for i
    using that 2(2) by (auto simp: found_behind_waits intro: tranclp.trancl_into_trancl)
  with 2 show ?case by (auto simp: Let_def)
qed simp

lemma queued_loop_closed:
  "\<forall>i \<in> set seen \<union> {me}. i \<in> set frontier \<or> (\<forall>j. waits_behind me waiting i j \<longrightarrow> j \<in> set seen) \<Longrightarrow>
   i \<in> set (queued_loop me waiting seen frontier) \<union> {me} \<Longrightarrow> waits_behind me waiting i j \<Longrightarrow>
   j \<in> set (queued_loop me waiting seen frontier)"
proof (induction me waiting seen frontier rule: queued_loop.induct)
  case (2 me waiting seen issue frontier)
  let ?new = "found_behind me issue waiting seen"
  have "\<forall>i \<in> set (rev ?new @ seen) \<union> {me}. i \<in> set (rev ?new @ frontier)
      \<or> (\<forall>j. waits_behind me waiting i j \<longrightarrow> j \<in> set (rev ?new @ seen))"
    using 2(2) by (auto simp: found_behind_waits)
  with 2 show ?case by (simp add: Let_def)
qed auto

theorem queued_loop_exact:
  "set (queued_loop me waiting [] [me]) = {j. (waits_behind me waiting)\<^sup>+\<^sup>+ me j}"
proof
  show "set (queued_loop me waiting [] [me]) \<subseteq> {j. (waits_behind me waiting)\<^sup>+\<^sup>+ me j}"
    using queued_loop_sound [of "[]" "[me]" me waiting] by auto
  have step: "j \<in> set (queued_loop me waiting [] [me])"
    if "i \<in> set (queued_loop me waiting [] [me]) \<union> {me}" "waits_behind me waiting i j" for i j
    using queued_loop_closed [of "[]" me "[me]" waiting i j] that by simp
  have "j \<in> set (queued_loop me waiting [] [me])" if "(waits_behind me waiting)\<^sup>+\<^sup>+ me j" for j
    using that by (induction rule: tranclp_induct) (auto intro: step simp del: queued_loop.simps)
  then show "{j. (waits_behind me waiting)\<^sup>+\<^sup>+ me j} \<subseteq> set (queued_loop me waiting [] [me])" by blast
qed

lemma queued_behind_card:
  "queued_behind t waiting =
     card {j. (waits_behind (t_issue t) (map (\<lambda>w. (t_issue w, t_depends w)) waiting))\<^sup>+\<^sup>+ (t_issue t) j}"
  unfolding queued_behind_def queued_loop_exact [symmetric]
  by (rule distinct_card [symmetric]) (simp add: queued_loop_distinct del: queued_loop.simps)

subsection \<open>Facts of the reads\<close>

lemma cleared_by_later:
  assumes "cleared_by LK_INTERVENTION n (Some a) (Some e) = Some (c, w)"
  shows "w = n - max a e"
  using assms by (auto simp: cleared_by_def split: if_splits)

lemma waited_on_stuck:
  assumes "waited_on t s = Some (w, st)" and "ended_stories s (t_id t) = None"
  shows "t_status t = TS_BLOCKED_ON_DEPS \<and> stuck_state w = Some st"
  using assms
  by (auto simp: waited_on_def split: if_splits list.splits dest!: filter_eq_ConsD)

end
