(* ===== verification/RunReads.thy ===== *)
theory RunReads
  imports Reads Notes
begin

section \<open>RunReads: the queries about runs\<close>

text \<open>
  \<^verbatim>\<open>store/run_reads.py\<close>, in the conventions of \<open>Reads\<close>. \<open>recent_runs\<close> is the paged history: its
  filters, its sort keys and the count it returns beside a page.

  The lemmas: the pages of a query tile its result in one order and the count beside a page is
  the length of that result; the run history counts every run in at most one state group.
\<close>

subsection \<open>Patterns\<close>

text \<open>\<^verbatim>\<open>GLOB\<close> without character classes.\<close>

fun sql_glob :: "string \<Rightarrow> string \<Rightarrow> bool" where
  "sql_glob [] cs = (cs = [])"
| "sql_glob (p # ps) [] = (p = CHR ''*'' \<and> sql_glob ps [])"
| "sql_glob (p # ps) (c # cs) =
     (if p = CHR ''*'' then sql_glob ps (c # cs) \<or> sql_glob (p # ps) cs
      else (p = CHR ''?'' \<or> p = c) \<and> sql_glob ps cs)"

text \<open>\<^verbatim>\<open>text.partition(sep)[2]\<close>: what follows the first separator.\<close>

fun partition_after :: "string \<Rightarrow> string \<Rightarrow> string" where
  "partition_after sep [] = []"
| "partition_after sep (c # cs) =
     (if py_prefix sep (c # cs) then drop (length sep) (c # cs) else partition_after sep cs)"

text \<open>\<^verbatim>\<open>ORDER BY ... DESC\<close> on two keys.\<close>

definition newest_first :: "('a \<Rightarrow> int) \<Rightarrow> ('a \<Rightarrow> nat) \<Rightarrow> 'a list \<Rightarrow> 'a list" where
  "newest_first time key xs = rev (sort_key time (sort_key key xs))"

subsection \<open>One run\<close>

definition run_snapshot :: "nat \<Rightarrow> store \<Rightarrow> (run_row \<times> nat) option" where
  "run_snapshot rid s = map_option (\<lambda>r. (r, judged_rounds (r_id r) s)) (run_of rid s)"

record approved_candidate =
  ac_run :: nat
  ac_sha :: "string option"
  ac_pr :: "string option"
  ac_approved :: bool
  ac_approved_sha :: "string option"
  ac_paused :: bool

definition approved_candidate :: "nat \<Rightarrow> nat \<Rightarrow> store \<Rightarrow> approved_candidate option" where
  "approved_candidate tid rid s =
     (case rev (sort_key r_attempt (filter (\<lambda>r. r_ticket r = tid \<and> r_id r \<noteq> rid) (runs s))) of
        [] \<Rightarrow> None
      | r # _ \<Rightarrow>
          if r_resume r \<noteq> Some PH_MERGE_GATE \<and> r_resume r \<noteq> Some PH_MERGING then None
          else Some \<lparr>ac_run = r_id r, ac_sha = r_candidate r, ac_pr = r_pr r,
            ac_approved = (r_approved_at r \<noteq> None
              \<or> list_ex (\<lambda>e. e_run e = Some (r_id r) \<and> e_kind e = ''approval_carried'') (events s)),
            ac_approved_sha = r_approved_sha r, ac_paused = (r_outcome r = Some OC_PAUSED)\<rparr>)"

record park_facts =
  pf_run :: run_row
  pf_ticket :: ticket_row
  pf_newest :: bool

definition park_facts :: "nat \<Rightarrow> store \<Rightarrow> park_facts option" where
  "park_facts rid s =
     Option.bind (run_of rid s) (\<lambda>r. map_option (\<lambda>t.
       \<lparr>pf_run = r, pf_ticket = t,
        pf_newest = (t_last t = Some (r_id r)
          \<and> \<not> list_ex (\<lambda>q. r_ticket q = r_ticket r \<and> r_id r < r_id q) (runs s))\<rparr>)
       (ticket_of (r_ticket r) s))"

definition last_independent_verdict :: "nat \<Rightarrow> store \<Rightarrow> (review_verdict \<times> string option) option" where
  "last_independent_verdict tid s =
     map_option (\<lambda>(q, r). (rr_verdict q, r_approved_sha r)) (head_option (rev (
       sort_key (\<lambda>(_, r). r_attempt r) (sort_key (\<lambda>(q, _). rr_round q)
         (List.map_filter (\<lambda>q. case run_of (rr_run q) s of
              None \<Rightarrow> None
            | Some r \<Rightarrow> if r_ticket r = tid \<and> \<not> sql_glob ''github:*'' (rr_model q) then Some (q, r) else None)
           (rounds s))))))"

definition babysit_note :: "nat \<Rightarrow> store \<Rightarrow> string" where
  "babysit_note rid s =
     (if list_ex (\<lambda>e. e_run e = Some rid \<and> (e_kind e = ''ci_wake'' \<or> e_kind e = ''conflict_wake'')) (events s)
      then []
      else case head_option (concat (map (\<lambda>i. map e_summary (rev (sort_key e_seq (filter (\<lambda>e.
               e_run e = i_run i \<and> e_at e = i_at i \<and> e_kind e = ''intervention''
               \<and> sql_like (source_value (i_source i) @ '' babysit: %'') (e_summary e)) (events s)))))
             (rev (sort_key i_id (filter (\<lambda>i. i_run i = Some rid \<and> i_action i = IA_BABYSIT
               \<and> i_source i \<noteq> IS_AUTOMATION) (interventions s)))))) of
          None \<Rightarrow> []
        | Some summary \<Rightarrow> partition_after '' babysit: '' summary)"

text \<open>When a live run of a parked pull request woke: its start, if an earlier run parked on it.\<close>

definition parked_for_approval :: "nat \<Rightarrow> store \<Rightarrow> bool" where
  "parked_for_approval rid s \<longleftrightarrow> list_ex (\<lambda>e. e_run e = Some rid \<and> e_kind e = ''phase_change''
     \<and> (sql_glob ''* -> awaiting_merge_approval'' (e_summary e)
        \<or> sql_glob ''* -> awaiting_merge_approval:*'' (e_summary e))) (events s)"

definition woke_at :: "run_row \<Rightarrow> store \<Rightarrow> int option" where
  "woke_at r s =
     (if list_ex (\<lambda>q. r_ticket q = r_ticket r \<and> r_id q < r_id r \<and> r_pr q \<noteq> None \<and> r_pr q = r_pr r
          \<and> parked_for_approval (r_id q) s) (runs s)
      then Some (r_started r) else None)"

record live_run_row =
  lv_run :: run_row
  lv_ticket :: ticket_row
  lv_rounds :: nat
  lv_woke :: "int option"

definition live_runs :: "run_phase list \<Rightarrow> store \<Rightarrow> live_run_row list" where
  "live_runs phases s =
     List.map_filter (\<lambda>r. map_option (\<lambda>t.
         \<lparr>lv_run = r, lv_ticket = t, lv_rounds = judged_rounds (r_id r) s, lv_woke = woke_at r s\<rparr>)
         (ticket_of (r_ticket r) s))
       (sort_key r_id (filter (\<lambda>r. r_ended r = None \<and> r_phase r \<in> set phases) (runs s)))"

definition newest_run_id :: "store \<Rightarrow> nat option" where
  "newest_run_id s = (case runs s of [] \<Rightarrow> None | rs \<Rightarrow> Some (foldr max (map r_id rs) 0))"

text \<open>A live run's rounds are counted, an ended run's were stamped at its end.\<close>

definition shown_rounds :: "run_row \<Rightarrow> store \<Rightarrow> nat" where
  "shown_rounds r s = (if r_ended r = None then judged_rounds (r_id r) s else r_rounds r)"

definition runs_for_prs :: "string list \<Rightarrow> store \<Rightarrow> (string \<times> run_row \<times> string \<times> nat) list" where
  "runs_for_prs urls s =
     List.map_filter (\<lambda>r. case r_pr r of
         None \<Rightarrow> None
       | Some url \<Rightarrow>
           if url \<in> set urls \<and> \<not> list_ex (\<lambda>q. r_pr q = Some url \<and> r_id r < r_id q) (runs s)
           then map_option (\<lambda>t. (url, r, t_ident t, shown_rounds r s)) (ticket_of (r_ticket r) s) else None)
       (runs s)"

definition ended_runs :: "store \<Rightarrow> (run_row \<times> string) list" where
  "ended_runs s =
     List.map_filter (\<lambda>r. map_option (\<lambda>t. (r, t_ident t)) (ticket_of (r_ticket r) s))
       (sort_key (\<lambda>r. case r_ended r of None \<Rightarrow> 0 | Some n \<Rightarrow> n)
         (sort_key r_id (filter (\<lambda>r. r_ended r \<noteq> None) (runs s))))"

subsection \<open>Toil\<close>

definition by_action :: "int \<Rightarrow> store \<Rightarrow> (intervention_action \<times> nat) list" where
  "by_action since s =
     (let acts = map i_action (filter (\<lambda>i. i_source i = IS_HUMAN \<and> since \<le> i_at i) (interventions s));
          counted = map (\<lambda>a. (a, length (filter ((=) a) acts))) (remdups acts)
      in sort_key (\<lambda>(_, n). - int n) (sort_key (\<lambda>(a, _). action_value a) counted))"

definition actor_counts ::
    "int \<Rightarrow> store \<Rightarrow> (intervention_actor \<times> nat) list \<times> nat" where
  "actor_counts since s =
     (let actors = map i_actor (filter (\<lambda>i. i_action i \<noteq> IA_MIGRATE \<and> since \<le> i_at i) (interventions s))
      in (map (\<lambda>a. (a, length (filter ((=) (Some a)) actors))) [IC_MAINTAINER, IC_OPERATOR, IC_SUPERVISOR],
          length (filter ((=) None) actors)))"

definition toil_since ::
    "int \<Rightarrow> store \<Rightarrow> (intervention_action \<times> nat) list \<times> nat \<times> (intervention_actor \<times> nat) list \<times> nat" where
  "toil_since since s =
     (by_action since s,
      length (filter (\<lambda>r. r_outcome r = Some OC_MERGED
        \<and> (case r_ended r of None \<Rightarrow> False | Some n \<Rightarrow> since \<le> n)) (runs s)),
      actor_counts since s)"

subsection \<open>Finished runs\<close>

definition SQLITE_INT64_MIN :: int where
  "SQLITE_INT64_MIN = - (2 ^ 63)"

definition INT64_MAX :: int where
  "INT64_MAX = 2 ^ 63 - 1"

definition newest_of_ticket :: "run_row \<Rightarrow> store \<Rightarrow> bool" where
  "newest_of_ticket r s \<longleftrightarrow> \<not> list_ex (\<lambda>q. r_ticket q = r_ticket r \<and> r_id r < r_id q) (runs s)"

definition finding_count :: "nat \<Rightarrow> store \<Rightarrow> nat" where
  "finding_count rid s = sum_list (map (\<lambda>q. length (rr_findings q)) (filter (\<lambda>q. rr_run q = rid) (rounds s)))"

definition ends_before :: "int option \<Rightarrow> run_row \<Rightarrow> store \<Rightarrow> bool" where
  "ends_before before r s =
     (case before of
        None \<Rightarrow> True
      | Some k \<Rightarrow>
          (case find (\<lambda>q. int (r_id q) = k \<and> r_ended q \<noteq> None) (runs s) of
             None \<Rightarrow> False
           | Some q \<Rightarrow>
               (case (r_ended r, r_ended q) of
                  (Some a, Some b) \<Rightarrow> a < b \<or> a = b \<and> r_id r < r_id q
                | _ \<Rightarrow> False)))"

definition finished_runs ::
    "int \<Rightarrow> int option \<Rightarrow> run_outcome list option \<Rightarrow> store \<Rightarrow> (run_row \<times> ticket_row \<times> nat) list" where
  "finished_runs limit before outcomes s =
     (if (case before of None \<Rightarrow> False | Some k \<Rightarrow> k < SQLITE_INT64_MIN \<or> INT64_MAX < k) then []
      else sql_limit limit (List.map_filter (\<lambda>r.
          if r_ended r \<noteq> None \<and> (r_outcome r = Some OC_MERGED \<or> newest_of_ticket r s)
             \<and> (case outcomes of None \<Rightarrow> True | Some os \<Rightarrow> r_outcome r \<in> Some ` set os)
             \<and> ends_before before r s
          then map_option (\<lambda>t. (r, t, finding_count (r_id r) s)) (ticket_of (r_ticket r) s) else None)
        (newest_first (\<lambda>r. case r_ended r of None \<Rightarrow> 0 | Some n \<Rightarrow> n) r_id (runs s))))"

definition merged_runs :: "int \<Rightarrow> int option \<Rightarrow> store \<Rightarrow> (run_row \<times> ticket_row \<times> nat) list" where
  "merged_runs limit before s = finished_runs limit before (Some [OC_MERGED]) s"

subsection \<open>The history\<close>

record recent_run =
  rn_run :: run_row
  rn_ticket :: ticket_row
  rn_rounds :: nat
  rn_findings :: nat
  rn_resumed :: "nat option"
  rn_implementer :: "string option"

datatype history_sort = SortStarted | SortEnded | SortDuration | SortRounds | SortState

datatype state_group = GroupActive | GroupMerged | GroupFailed | GroupAbandoned

record run_query =
  qy_offset :: int
  qy_sort :: history_sort
  qy_desc :: bool
  qy_text :: string
  qy_states :: "state_group list"
  qy_failures :: "failure_kind list"
  qy_implementers :: "string list"
  qy_now :: "int option"

definition default_query :: run_query where
  "default_query = \<lparr>qy_offset = 0, qy_sort = SortStarted, qy_desc = True, qy_text = [], qy_states = [],
     qy_failures = [], qy_implementers = [], qy_now = None\<rparr>"

definition state_group :: "recent_run \<Rightarrow> state_group option" where
  "state_group n =
     (let r = rn_run n in
      if r_ended r = None \<or> r_outcome r = Some OC_PAUSED \<and> rn_resumed n = None then Some GroupActive
      else if r_outcome r = Some OC_PAUSED then None
      else if r_outcome r = Some OC_MERGED then Some GroupMerged
      else if r_outcome r = Some OC_ABANDONED then Some GroupAbandoned
      else Some GroupFailed)"

definition state_rank :: "state_group option \<Rightarrow> int" where
  "state_rank g =
     (case g of Some GroupActive \<Rightarrow> 0 | Some GroupMerged \<Rightarrow> 1 | Some GroupFailed \<Rightarrow> 2
      | Some GroupAbandoned \<Rightarrow> 3 | None \<Rightarrow> 4)"

definition query_now :: "env \<Rightarrow> run_query \<Rightarrow> int" where
  "query_now v q = (case qy_now q of None \<Rightarrow> clock v | Some n \<Rightarrow> n)"

definition history_key :: "env \<Rightarrow> run_query \<Rightarrow> recent_run \<Rightarrow> int" where
  "history_key v q n =
     (let r = rn_run n in
      case qy_sort q of
        SortStarted \<Rightarrow> r_started r
      | SortEnded \<Rightarrow> (case r_ended r of None \<Rightarrow> INT64_MAX | Some e \<Rightarrow> e)
      | SortDuration \<Rightarrow> (case r_ended r of None \<Rightarrow> query_now v q | Some e \<Rightarrow> e) - r_started r
      | SortRounds \<Rightarrow> int (rn_rounds n)
      | SortState \<Rightarrow> state_rank (state_group n))"

definition resumed_as :: "run_row \<Rightarrow> store \<Rightarrow> nat option" where
  "resumed_as r s =
     (if r_outcome r \<noteq> Some OC_PAUSED then None
      else head_option (sort (map r_id (filter (\<lambda>n. r_ticket n = r_ticket r \<and> r_id r < r_id n) (runs s)))))"

definition implementer_label :: "event_row \<Rightarrow> string option" where
  "implementer_label e = payload_text ''label'' (e_payload e)"

definition implementer :: "nat \<Rightarrow> store \<Rightarrow> string option" where
  "implementer rid s =
     Option.bind (head_option (rev (sort_key e_id (filter (\<lambda>e. e_run e = Some rid
       \<and> e_kind e = ''implementer_profile'') (events s))))) implementer_label"

definition clamp64 :: "int \<Rightarrow> int" where
  "clamp64 n = max SQLITE_INT64_MIN (min n INT64_MAX)"

definition in_window :: "int \<Rightarrow> int option \<Rightarrow> run_row \<Rightarrow> bool" where
  "in_window since until r \<longleftrightarrow>
     (case until of
        None \<Rightarrow> r_ended r = None \<or> clamp64 since \<le> r_started r
      | Some u \<Rightarrow> r_ended r \<noteq> None \<and> clamp64 since \<le> r_started r \<and> r_started r < clamp64 u)"

definition history_base :: "int \<Rightarrow> int option \<Rightarrow> store \<Rightarrow> recent_run list" where
  "history_base since until s =
     List.map_filter (\<lambda>r. map_option (\<lambda>t.
         \<lparr>rn_run = r, rn_ticket = t, rn_rounds = shown_rounds r s, rn_findings = finding_count (r_id r) s,
          rn_resumed = resumed_as r s, rn_implementer = implementer (r_id r) s\<rparr>) (ticket_of (r_ticket r) s))
       (filter (in_window since until) (runs s))"

datatype facet = FacetState | FacetFailure | FacetImplementer

definition facet_admits :: "facet option \<Rightarrow> run_query \<Rightarrow> recent_run \<Rightarrow> facet \<Rightarrow> bool" where
  "facet_admits skip q n f \<longleftrightarrow> skip = Some f \<or>
     (case f of
        FacetState \<Rightarrow> qy_states q = [] \<or> state_group n \<in> Some ` set (qy_states q)
      | FacetFailure \<Rightarrow> qy_failures q = [] \<or> r_failure (rn_run n) \<in> Some ` set (qy_failures q)
      | FacetImplementer \<Rightarrow> qy_implementers q = [] \<or> rn_implementer n \<in> Some ` set (qy_implementers q))"

definition history_filter :: "facet option \<Rightarrow> run_query \<Rightarrow> recent_run \<Rightarrow> bool" where
  "history_filter skip q n \<longleftrightarrow>
     (qy_text q = []
      \<or> py_contains (map ascii_lower (qy_text q)) (map ascii_lower (t_ident (rn_ticket n)))
      \<or> py_contains (map ascii_lower (qy_text q)) (map ascii_lower (t_title (rn_ticket n))))
     \<and> list_all (facet_admits skip q n) [FacetState, FacetFailure, FacetImplementer]"

definition history_rows :: "env \<Rightarrow> int \<Rightarrow> int option \<Rightarrow> run_query \<Rightarrow> store \<Rightarrow> recent_run list" where
  "history_rows v since until q s =
     sort_key (\<lambda>n. if qy_desc q then - history_key v q n else history_key v q n)
       (newest_first (r_started \<circ> rn_run) (r_id \<circ> rn_run)
         (filter (history_filter None q) (history_base since until s)))"

definition recent_runs ::
    "env \<Rightarrow> int \<Rightarrow> int \<Rightarrow> int option \<Rightarrow> run_query \<Rightarrow> store \<Rightarrow> recent_run list \<times> nat" where
  "recent_runs v since limit until q s =
     (let rows = history_rows v since until q s;
          page = sql_limit limit (drop (nat (qy_offset q)) rows)
      in if page \<noteq> [] then (page, length rows)
         else if qy_offset q = 0 then ([], 0)
         else ([], length rows))"

definition implementer_labels :: "store \<Rightarrow> string list" where
  "implementer_labels s =
     sort (remdups (List.map_filter implementer_label
       (filter (\<lambda>e. e_kind e = ''implementer_profile'') (events s))))"

record run_counts =
  rc_states :: "(state_group \<times> nat) list"
  rc_failures :: "(failure_kind \<times> nat) list"
  rc_implementers :: "(string \<times> nat) list"

definition run_counts :: "int \<Rightarrow> int option \<Rightarrow> run_query \<Rightarrow> store \<Rightarrow> run_counts" where
  "run_counts since until q s =
     (let rows = (\<lambda>f. filter (history_filter (Some f) q) (history_base since until s))
      in \<lparr>rc_states = map (\<lambda>g. (g, length (filter (\<lambda>n. state_group n = Some g) (rows FacetState))))
            [GroupActive, GroupMerged, GroupFailed, GroupAbandoned],
          rc_failures = map (\<lambda>k. (k, length (filter (\<lambda>n. r_failure (rn_run n) = Some k) (rows FacetFailure))))
            [FK_VERIFY, FK_REVIEW_ROUTE, FK_FIX_NO_PROGRESS, FK_NO_COMMITS, FK_BUDGET, FK_MERGE_LOCK,
             FK_INFRA, FK_SWEPT, FK_UNCLASSIFIED],
          rc_implementers = map (\<lambda>l. (l, length (filter (\<lambda>n. rn_implementer n = Some l) (rows FacetImplementer))))
            (implementer_labels s)\<rparr>)"

subsection \<open>Chains of attempts\<close>

text \<open>The attempts before a run back to the last merge of its ticket.\<close>

definition in_chain :: "run_row \<Rightarrow> run_row \<Rightarrow> store \<Rightarrow> bool" where
  "in_chain c r s \<longleftrightarrow> r_ticket r = r_ticket c \<and> r_id r \<le> r_id c
     \<and> \<not> list_ex (\<lambda>m. r_ticket m = r_ticket c \<and> r_outcome m = Some OC_MERGED
          \<and> r_id r \<le> r_id m \<and> r_id m < r_id c) (runs s)"

definition run_chains :: "nat list \<Rightarrow> store \<Rightarrow> (nat \<times> (run_row \<times> nat \<times> nat) list) list" where
  "run_chains ids s =
     map (\<lambda>c. (r_id c, map (\<lambda>r. (r, shown_rounds r s, finding_count (r_id r) s))
         (sort_key r_id (filter (\<lambda>r. in_chain c r s) (runs s)))))
       (sort_key r_id (filter (\<lambda>c. r_id c \<in> set ids) (runs s)))"

definition earlier_cap :: "run_row \<Rightarrow> store \<Rightarrow> int option" where
  "earlier_cap r s =
     Option.bind (head_option (rev (sort_key r_id (filter (\<lambda>e. r_id e < r_id r \<and> in_chain r e s
       \<and> r_round_cap e \<noteq> None) (runs s))))) r_round_cap"

definition round_caps :: "nat list \<Rightarrow> store \<Rightarrow> (nat \<times> int option) list" where
  "round_caps ids s =
     map (\<lambda>k. (k, Option.bind (run_of k s) (\<lambda>r.
       case r_round_cap r of None \<Rightarrow> earlier_cap r s | Some c \<Rightarrow> Some c))) (rev (remdups (rev ids)))"

definition criteria_events :: "nat list \<Rightarrow> store \<Rightarrow> (nat option \<times> payload option) list" where
  "criteria_events ids s =
     map (\<lambda>e. (e_run e, e_payload e)) (rev (sort_key (\<lambda>e. case e_run e of None \<Rightarrow> 0 | Some k \<Rightarrow> k)
       (sort_key e_seq (filter (\<lambda>e. e_kind e = ''criteria'' \<and> e_run e \<in> Some ` set ids) (events s)))))"

definition witness_prechecks :: "nat \<Rightarrow> store \<Rightarrow> payload option list" where
  "witness_prechecks rid s =
     map e_payload (sort_key e_seq (filter (\<lambda>e. e_kind e = ''witness_precheck_results''
       \<and> e_run e = Some rid) (events s)))"

subsection \<open>Interventions and failures\<close>

definition admission_changes :: "nat \<Rightarrow> int \<Rightarrow> store \<Rightarrow> intervention_row list" where
  "admission_changes pid limit s =
     sql_limit (limit + 1) (newest_first i_at i_id (filter (\<lambda>i. i_project i = Some pid
       \<and> i_action i \<in> {IA_HOLD, IA_RELEASE_HOLD, IA_DISABLE}) (interventions s)))"

definition run_project :: "nat option \<Rightarrow> store \<Rightarrow> nat option" where
  "run_project rid s = Option.bind rid (\<lambda>k. map_option r_project (run_of k s))"

definition latest_intervention ::
    "intervention_action \<Rightarrow> nat \<Rightarrow> store \<Rightarrow> (int \<times> intervention_actor option) option" where
  "latest_intervention action pid s =
     map_option (\<lambda>i. (i_at i, i_actor i)) (head_option (newest_first i_at i_id
       (filter (\<lambda>i. i_action i = action \<and> run_project (i_run i) s = Some pid) (interventions s))))"

definition latest_human_intervention_at :: "nat \<Rightarrow> store \<Rightarrow> int" where
  "latest_human_intervention_at tid s =
     (case max_at (map i_at (filter (\<lambda>i. i_source i = IS_HUMAN
         \<and> Option.bind (i_run i) (\<lambda>k. map_option r_ticket (run_of k s)) = Some tid) (interventions s))) of
        None \<Rightarrow> 0 | Some n \<Rightarrow> n)"

definition failed_attempts_since :: "nat \<Rightarrow> int \<Rightarrow> store \<Rightarrow> (nat \<times> string option) list" where
  "failed_attempts_since tid since s =
     map (\<lambda>r. (r_attempt r, r_reason r)) (sort_key r_attempt (filter (\<lambda>r. r_ticket r = tid
       \<and> r_outcome r = Some OC_FAILED \<and> (case r_ended r of None \<Rightarrow> False | Some n \<Rightarrow> since < n)
       \<and> r_class r = CL_WORK
       \<and> \<not> list_ex (\<lambda>i. i_run i = Some (r_id r) \<and> i_source i = IS_HUMAN \<and> i_action i = IA_CLOSE_OUT)
           (interventions s)) (runs s)))"

definition failed_run :: "run_row \<Rightarrow> store \<Rightarrow> (run_row \<times> ticket_row \<times> payload option) option" where
  "failed_run r s =
     map_option (\<lambda>t. (r, t, Option.bind (head_option (rev (sort_key e_seq (filter (\<lambda>e.
         e_run e = Some (r_id r) \<and> e_kind e = ''failure_triage'') (events s))))) e_payload))
       (ticket_of (r_ticket r) s)"

definition by_end :: "run_row list \<Rightarrow> run_row list" where
  "by_end rs = sort_key (\<lambda>r. case r_ended r of None \<Rightarrow> 0 | Some n \<Rightarrow> n) (sort_key r_id rs)"

definition recent_failed_runs :: "int \<Rightarrow> store \<Rightarrow> (run_row \<times> ticket_row \<times> payload option) list" where
  "recent_failed_runs since s =
     List.map_filter (\<lambda>r. failed_run r s) (by_end (filter (\<lambda>r. r_outcome r = Some OC_FAILED
       \<and> (case r_ended r of None \<Rightarrow> False | Some n \<Rightarrow> since < n)) (runs s)))"

definition stranded_runs :: "store \<Rightarrow> (run_row \<times> ticket_row \<times> payload option) list" where
  "stranded_runs s =
     filter (\<lambda>(r, t, _). t_status t = TS_IN_FLIGHT \<and> t_active t = None \<and> t_last t = Some (r_id r))
       (List.map_filter (\<lambda>r. failed_run r s)
         (by_end (filter (\<lambda>r. r_outcome r = Some OC_FAILED) (runs s))))"

definition newest_run :: "nat \<Rightarrow> store \<Rightarrow> run_row option" where
  "newest_run tid s = head_option (rev (sort_key r_id (filter (\<lambda>r. r_ticket r = tid) (runs s))))"

definition stranded_tickets :: "store \<Rightarrow> (string \<times> run_row option) list" where
  "stranded_tickets s =
     List.map_filter (\<lambda>t. let r = newest_run (t_id t) s in
       if t_status t = TS_IN_FLIGHT \<and> (r = None \<or> Option.bind r r_ended \<noteq> None)
       then Some (t_ident t, r) else None) (sort_key t_id (tickets s))"

definition last_event_at :: "nat list \<Rightarrow> store \<Rightarrow> (nat \<times> int option) list" where
  "last_event_at ids s =
     map (\<lambda>k. (k, max_at (map e_at (filter (\<lambda>e. e_run e = Some k) (events s))))) (rev (remdups (rev ids)))"

text \<open>The newest \<open>count\<close> ended runs of each open ticket that works or waits, by identifier.\<close>

definition last_ended_runs :: "int \<Rightarrow> store \<Rightarrow> (string \<times> run_row list) list" where
  "last_ended_runs count s =
     (let rows = List.map_filter (\<lambda>t. case take (nat count) (rev (sort_key r_id (filter (\<lambda>r.
                 r_ticket r = t_id t \<and> r_ended r \<noteq> None) (runs s)))) of
              [] \<Rightarrow> None
            | rs \<Rightarrow> Some (t_ident t, rs))
            (sort_key t_id (filter (\<lambda>t. t_status t \<in> {TS_READY, TS_IN_FLIGHT, TS_BLOCKED_ON_OPERATOR}) (tickets s)))
      in map (\<lambda>i. (i, concat (map snd (filter (\<lambda>p. fst p = i) rows)))) (rev (remdups (rev (map fst rows)))))"

subsection \<open>Pages and counts\<close>

lemma history_rows_offset [simp]:
  "history_rows v since until (q\<lparr>qy_offset := n\<rparr>) s = history_rows v since until q s"
proof -
  have "facet_admits None (q\<lparr>qy_offset := n\<rparr>) r f = facet_admits None q r f" for r f
    by (simp add: facet_admits_def split: facet.split)
  then have "history_filter None (q\<lparr>qy_offset := n\<rparr>) = history_filter None q"
    by (simp add: history_filter_def fun_eq_iff)
  moreover have "history_key v (q\<lparr>qy_offset := n\<rparr>) = history_key v q"
    by (cases "qy_sort q") (simp_all add: history_key_def query_now_def fun_eq_iff Let_def split: option.split)
  ultimately show ?thesis by (simp add: history_rows_def cong: if_cong)
qed

text \<open>Pages of \<open>k\<close> rows follow each other without a gap or an overlap.\<close>

theorem recent_runs_tile:
  assumes "0 \<le> k" and "0 \<le> n"
  shows "take (nat (n + k)) (history_rows v since until q s) =
    take (nat n) (history_rows v since until q s)
    @ fst (recent_runs v since k until (q\<lparr>qy_offset := n\<rparr>) s)"
proof -
  have "nat (n + k) = nat n + nat k" using assms by (simp add: nat_add_distrib)
  then show ?thesis
    using assms by (simp add: recent_runs_def Let_def sql_limit_def take_add)
qed

lemma recent_runs_total:
  assumes "fst (recent_runs v since limit until q s) \<noteq> []"
  shows "snd (recent_runs v since limit until q s) = length (history_rows v since until q s)"
  using assms by (auto simp: recent_runs_def Let_def split: if_split_asm)

lemma length_groups:
  "length (filter (\<lambda>n. state_group n = Some GroupActive) ns)
   + length (filter (\<lambda>n. state_group n = Some GroupMerged) ns)
   + length (filter (\<lambda>n. state_group n = Some GroupFailed) ns)
   + length (filter (\<lambda>n. state_group n = Some GroupAbandoned) ns)
   + length (filter (\<lambda>n. state_group n = None) ns) = length ns"
proof (induction ns)
  case (Cons n ns)
  consider "state_group n = None" | g where "state_group n = Some g" by (cases "state_group n") auto
  then show ?case
  proof cases
    case 2
    then show ?thesis using Cons by (cases g) simp_all
  qed (use Cons in simp)
qed simp

lemma run_counts_states:
  "sum_list (map snd (rc_states (run_counts since until q s)))
     \<le> length (filter (history_filter (Some FacetState) q) (history_base since until s))"
  using length_groups [of "filter (history_filter (Some FacetState) q) (history_base since until s)"]
  by (simp add: run_counts_def Let_def)

lemma finished_before:
  "(r, t, n) \<in> set (finished_runs limit before outcomes s) \<Longrightarrow> r_ended r \<noteq> None \<and> ends_before before r s"
  by (auto simp: finished_runs_def sql_limit_def List.map_filter_def dest!: in_set_takeD
      split: if_split_asm)

end
