(* ===== verification/MergeReady.thy ===== *)
theory MergeReady
  imports Checks RunReads
begin

section \<open>MergeReady: whether a parked pull request may be merged\<close>

text \<open>
  \<^verbatim>\<open>holophyte/pr/merge_ready.py\<close> and the state of a pull request it reads (\<^verbatim>\<open>_state_of\<close> of
  \<^verbatim>\<open>pr/pr_status.py\<close>). A fact is its name, whether it holds and the reason when it does not; the
  sentences shown beside it are not modelled. \<open>get\<close> is GitHub, \<open>state_read\<close> and \<open>remote_read\<close> are
  the two reads of \<^verbatim>\<open>read_github\<close>, \<open>iso_ms\<close> the reading of a time.

  The lemmas: a run is called ready only when every local and every GitHub fact holds, the
  candidate at origin is the one that was parked or approved, and a review that is still
  required is one the host's user is exempt from on every ruleset that asks for it.
\<close>

subsection \<open>The state of a pull request\<close>

record pr_state =
  ps_threads :: "string list"
  ps_checks :: verdict
  ps_head :: "string option"
  ps_merged :: bool
  ps_merge_sha :: "string option"
  ps_closed :: bool
  ps_closed_by :: "string option"
  ps_mergeable :: string
  ps_updated :: "int option"
  ps_review :: "string option"
  ps_pending :: "string list"
  ps_failed :: "failed_check list"
  ps_optional :: "failed_check list"
  ps_missing :: "string list"
  ps_awaiting :: "string list"
  ps_draft :: bool
  ps_node :: string

definition last_node :: "json \<Rightarrow> json" where
  "last_node connection = (case jget ''nodes'' connection of JList xs \<Rightarrow> if xs = [] then JNull else last xs | _ \<Rightarrow> JNull)"

definition closed_by :: "json \<Rightarrow> string option" where
  "closed_by node = jstr (jget ''login'' (jget ''actor'' (last_node (jget ''timelineItems'' node))))"

definition head_rollup :: "json \<Rightarrow> json" where
  "head_rollup node =
     jget ''state'' (jget ''statusCheckRollup'' (jget ''commit'' (last_node (jget ''commits'' node))))"

definition state_of ::
    "(json \<Rightarrow> int option) \<Rightarrow> json \<Rightarrow> string list \<Rightarrow> json list option \<Rightarrow> string list option \<Rightarrow> string list \<Rightarrow> bool \<Rightarrow> pr_state" where
  "state_of iso_ms node threads reads required awaited rollup_stale =
     (let rollup = (if rollup_stale then JNull else head_rollup node);
          blocking = (case required of None \<Rightarrow> None | Some req \<Rightarrow> if req = [] then None else Some (req @ awaited));
          checks = fold_checks rollup reads (map_option (\<lambda>req. req @ awaited) required) blocking;
          failed = failed_checks reads
      in \<lparr>ps_threads = threads, ps_checks = checks, ps_head = jstr (jget ''headRefOid'' node),
          ps_merged = truthy (jget ''merged'' node), ps_merge_sha = jstr (jget ''oid'' (jget ''mergeCommit'' node)),
          ps_closed = (jget ''state'' node = JStr ''CLOSED''), ps_closed_by = closed_by node,
          ps_mergeable = (let m = text_of (jget ''mergeable'' node) in if m = [] then ''UNKNOWN'' else m),
          ps_updated = iso_ms (jget ''updatedAt'' node),
          ps_review = (let d = text_of (jget ''reviewDecision'' node) in if d = [] then None else Some (py_lower d)),
          ps_pending = List.map_filter (\<lambda>r. if is_obj r \<and> truthy (jget ''name'' r) \<and> \<not> completed r
              then jstr (jget ''name'' r) else None) (case reads of None \<Rightarrow> [] | Some rs \<Rightarrow> rs),
          ps_failed = (if checks = Failure then failed else []),
          ps_optional = (case blocking of None \<Rightarrow> [] | Some names \<Rightarrow>
              if checks = Failure then [] else filter (\<lambda>c. fc_name c \<notin> set names) failed),
          ps_missing = missing_checks reads required, ps_awaiting = awaiting reads awaited,
          ps_draft = (jget ''isDraft'' node = JBool True), ps_node = text_of (jget ''id'' node)\<rparr>)"

subsection \<open>The facts\<close>

datatype unready =
    NotParked | NotHumanApproval | Draft | ReviewNotApproved | ReviewBypassable | ChecksPending | ChecksFailing
  | Conflicting | MergeableUnknown | ThreadsUnresolved | HeadMoved | GithubUnreadable

type_synonym fact = "string \<times> bool \<times> unready option"

definition PARKED_PHASE :: run_phase where "PARKED_PHASE = PH_AWAITING_MERGE_APPROVAL"

definition parked_reason :: "park_facts option \<Rightarrow> unready option" where
  "parked_reason parked =
     (case parked of
        None \<Rightarrow> Some NotParked
      | Some f \<Rightarrow>
          let r = pf_run f; t = pf_ticket f
          in if \<not> pf_newest f \<or> r_phase r \<noteq> PARKED_PHASE \<or> t_active t \<noteq> None \<or> t_status t \<noteq> TS_BLOCKED_ON_OPERATOR
                \<or> parse_pr_url (case r_pr r of None \<Rightarrow> [] | Some u \<Rightarrow> u) = None
                \<or> (case r_branch r of None \<Rightarrow> True | Some b \<Rightarrow> b = [])
             then Some NotParked else None)"

definition human_approval_reason :: "string \<Rightarrow> unready option" where
  "human_approval_reason mode = (if mode = ''human'' then None else Some NotHumanApproval)"

definition review_reason :: "pr_state \<Rightarrow> unready option" where
  "review_reason st = (if ps_review st = Some ''approved'' then None else Some ReviewNotApproved)"

definition checks_reason :: "pr_state \<Rightarrow> unready option" where
  "checks_reason st = (case ps_checks st of Success \<Rightarrow> None | Pending \<Rightarrow> Some ChecksPending | Failure \<Rightarrow> Some ChecksFailing)"

definition mergeable_reason :: "pr_state \<Rightarrow> unready option" where
  "mergeable_reason st =
     (if ps_mergeable st = ''MERGEABLE'' then None
      else if ps_mergeable st = ''CONFLICTING'' then Some Conflicting else Some MergeableUnknown)"

definition threads_reason :: "pr_state \<Rightarrow> unready option" where
  "threads_reason st = (if ps_threads st = [] then None else Some ThreadsUnresolved)"

definition head_reason :: "run_row \<Rightarrow> pr_state \<Rightarrow> string option \<Rightarrow> unready option" where
  "head_reason r st remote =
     (case remote of
        None \<Rightarrow> Some GithubUnreadable
      | Some h \<Rightarrow>
          if ps_head st \<noteq> Some h then Some HeadMoved
          else if r_candidate r \<noteq> Some h \<and> r_approved_sha r \<noteq> Some h then Some HeadMoved else None)"

definition REVIEW_FACT :: string where "REVIEW_FACT = ''review_approved''"

definition GITHUB_FACTS :: "string list" where
  "GITHUB_FACTS = [''ready_for_review'', REVIEW_FACT, ''checks_passed'', ''mergeable'', ''threads_resolved'', ''head_unchanged'']"

definition fact :: "string \<Rightarrow> unready option \<Rightarrow> fact" where
  "fact name reason = (name, reason = None, reason)"

subsection \<open>A review the host's user may bypass\<close>

definition asked_reviews :: "json \<Rightarrow> nat option" where
  "asked_reviews rule =
     (let params = jget ''parameters'' rule;
          flag = (\<lambda>k. case map_of (case params of JObj fs \<Rightarrow> fs | _ \<Rightarrow> []) k of
              None \<Rightarrow> Some False | Some (JBool b) \<Rightarrow> Some b | _ \<Rightarrow> None);
          reviewers = (case map_of (case params of JObj fs \<Rightarrow> fs | _ \<Rightarrow> []) ''required_reviewers'' of
              None \<Rightarrow> Some [] | Some (JList xs) \<Rightarrow> Some xs | _ \<Rightarrow> None)
      in case (jget ''required_approving_review_count'' params, flag ''require_code_owner_review'',
               flag ''require_last_push_approval'', reviewers) of
           (JInt n, Some owners, Some push, Some groups) \<Rightarrow>
             if n < 0 then None
             else Some (length (filter id [0 < n, owners, push, groups \<noteq> []]))
         | _ \<Rightarrow> None)"

text \<open>The rulesets on main that ask for a review; \<open>None\<close> is \<^verbatim>\<open>NoBypass\<close>.\<close>

fun asking_rulesets :: "json list \<Rightarrow> int list option" where
  "asking_rulesets [] = Some []"
| "asking_rulesets (rule # rules) =
     (if jstr (jget ''type'' rule) = None then None
      else if jget ''type'' rule \<noteq> JStr ''pull_request'' then asking_rulesets rules
      else (case asked_reviews rule of
              None \<Rightarrow> None
            | Some n \<Rightarrow>
                if n = 0 then asking_rulesets rules
                else (case jget ''ruleset_id'' rule of
                        JInt i \<Rightarrow> map_option (Cons i) (asking_rulesets rules)
                      | _ \<Rightarrow> None)))"

definition review_rulesets :: "json \<Rightarrow> int list option" where
  "review_rulesets rules =
     (case rules of
        JList rs \<Rightarrow> (case asking_rulesets rs of None \<Rightarrow> None | Some asking \<Rightarrow> if asking = [] then None else Some (dedup asking))
      | _ \<Rightarrow> None)"

definition BYPASSING_ANSWERS :: "string list" where
  "BYPASSING_ANSWERS = [''always'', ''pull_requests_only'', ''exempt'']"

definition ruleset_bypass :: "get \<Rightarrow> pull \<Rightarrow> int \<Rightarrow> string option" where
  "ruleset_bypass get p ruleset =
     (case get (gh_repo_path p @ ''/rulesets/'' @ str_int ruleset) of
        Inl _ \<Rightarrow> None
      | Inr answer \<Rightarrow>
          if text_of (jget ''name'' answer) = [] then None
          else (case jget ''current_user_can_bypass'' answer of
                  JStr b \<Rightarrow> if b \<in> set BYPASSING_ANSWERS then Some b else None
                | _ \<Rightarrow> None))"

fun all_some :: "'a option list \<Rightarrow> 'a list option" where
  "all_some [] = Some []"
| "all_some (x # xs) = (case x of None \<Rightarrow> None | Some y \<Rightarrow> map_option (Cons y) (all_some xs))"

definition review_bypass :: "get \<Rightarrow> pull \<Rightarrow> unready option" where
  "review_bypass get p =
     (case main_rules get p of
        Inl _ \<Rightarrow> Some ReviewNotApproved
      | Inr rules \<Rightarrow>
          (case review_rulesets rules of
             None \<Rightarrow> Some ReviewNotApproved
           | Some asking \<Rightarrow>
               (case all_some (map (ruleset_bypass get p) asking) of
                  None \<Rightarrow> Some ReviewNotApproved
                | Some modes \<Rightarrow> if list_all (\<lambda>m. m = ''exempt'') modes then None else Some ReviewBypassable)))"

subsection \<open>Readiness\<close>

definition review_required :: "pr_state \<Rightarrow> bool" where
  "review_required st \<longleftrightarrow> ps_review st = Some ''review_required''"

definition state_facts :: "run_row \<Rightarrow> pr_state \<Rightarrow> string option \<Rightarrow> fact list" where
  "state_facts r st remote =
     [fact ''ready_for_review'' (if ps_draft st then Some Draft else None), fact REVIEW_FACT (review_reason st),
      fact ''checks_passed'' (checks_reason st), fact ''mergeable'' (mergeable_reason st),
      fact ''threads_resolved'' (threads_reason st), fact ''head_unchanged'' (head_reason r st remote)]"

definition github_facts :: "get \<Rightarrow> run_row \<Rightarrow> pull \<Rightarrow> (pr_state option \<times> string option) option \<Rightarrow> fact list" where
  "github_facts get r p reads =
     (case reads of
        None \<Rightarrow> map (\<lambda>name. (name, False, None)) GITHUB_FACTS
      | Some (None, _) \<Rightarrow> map (\<lambda>name. (name, False, Some GithubUnreadable)) GITHUB_FACTS
      | Some (Some st, remote) \<Rightarrow>
          let facts = state_facts r st remote;
              others_hold = list_all (\<lambda>(name, ok, _). name = REVIEW_FACT \<or> ok) facts
          in if \<not> review_required st \<or> \<not> others_hold then facts
             else map (\<lambda>f. if fst f = REVIEW_FACT then fact REVIEW_FACT (review_bypass get p) else f) facts)"

record ready_answer =
  rd_facts :: "fact list"
  rd_head :: "string option"
  rd_yielding :: "string list"

definition failing_fact :: "ready_answer \<Rightarrow> fact option" where
  "failing_fact rd =
     (let failing = filter (\<lambda>(_, ok, _). \<not> ok) (rd_facts rd)
      in case find (\<lambda>(name, _, _). name \<notin> set (rd_yielding rd)) failing of
           Some f \<Rightarrow> Some f | None \<Rightarrow> head_option failing)"

definition readiness_reason :: "ready_answer \<Rightarrow> unready option" where
  "readiness_reason rd = (case failing_fact rd of None \<Rightarrow> None | Some (_, _, reason) \<Rightarrow> reason)"

text \<open>\<^verbatim>\<open>read_github\<close>: an unreadable branch leaves the state of the pull request.\<close>

definition read_github :: "gh_error + pr_state \<Rightarrow> gh_error + string \<Rightarrow> pr_state option \<times> string option" where
  "read_github state_read remote_read =
     (case state_read of
        Inl _ \<Rightarrow> (None, None)
      | Inr st \<Rightarrow> (Some st, case remote_read of Inl _ \<Rightarrow> None | Inr h \<Rightarrow> Some h))"

definition ready_of ::
    "get \<Rightarrow> string \<Rightarrow> park_facts option \<Rightarrow> gh_error + pr_state \<Rightarrow> gh_error + string \<Rightarrow> ready_answer" where
  "ready_of get mode parked state_read remote_read =
     (let local = [fact ''parked'' (parked_reason parked), fact ''human_approval'' (human_approval_reason mode)]
      in case (parked, list_all (fst \<circ> snd) local) of
           (Some f, True) \<Rightarrow>
             (let reads = read_github state_read remote_read;
                  p = the (parse_pr_url (case r_pr (pf_run f) of None \<Rightarrow> [] | Some u \<Rightarrow> u))
              in \<lparr>rd_facts = local @ github_facts get (pf_run f) p (Some reads), rd_head = snd reads,
                  rd_yielding = (case fst reads of Some st \<Rightarrow> if review_required st then [REVIEW_FACT] else [] | None \<Rightarrow> [])\<rparr>)
         | _ \<Rightarrow> \<lparr>rd_facts = local @ map (\<lambda>name. (name, False, None)) GITHUB_FACTS, rd_head = None, rd_yielding = []\<rparr>)"

definition readiness ::
    "get \<Rightarrow> string \<Rightarrow> (park_facts \<Rightarrow> gh_error + pr_state) \<Rightarrow> (park_facts \<Rightarrow> gh_error + string) \<Rightarrow> nat \<Rightarrow> store \<Rightarrow> ready_answer" where
  "readiness get mode state_read remote_read rid s =
     (case park_facts rid s of
        None \<Rightarrow> ready_of get mode None (Inl (Infra [])) (Inl (Infra []))
      | Some f \<Rightarrow> ready_of get mode (Some f) (state_read f) (remote_read f))"

subsection \<open>What a ready run is\<close>

lemma failing_fact_None: "failing_fact rd = None \<longleftrightarrow> list_all (\<lambda>(_, ok, _). ok) (rd_facts rd)"
proof -
  have "failing_fact rd = None \<longleftrightarrow> filter (\<lambda>(_, ok, _). \<not> ok) (rd_facts rd) = []"
    by (cases "filter (\<lambda>(_, ok, _). \<not> ok) (rd_facts rd)")
       (auto simp: failing_fact_def Let_def split: option.split)
  then show ?thesis by (auto simp: filter_empty_conv list_all_iff)
qed

lemma fact_ok [simp]: "fst (snd (fact name reason)) \<longleftrightarrow> reason = None" "fst (fact name reason) = name"
  by (simp_all add: fact_def)

lemma all_some_exact: "all_some xs = Some ys \<longleftrightarrow> xs = map Some ys"
  by (induction xs arbitrary: ys) (auto split: option.split)

lemma review_bypass_exempt:
  assumes "review_bypass get p = None"
  shows "\<exists>rules asking. main_rules get p = Inr rules \<and> review_rulesets rules = Some asking \<and> asking \<noteq> []
    \<and> list_all (\<lambda>i. ruleset_bypass get p i = Some ''exempt'') asking"
proof -
  obtain rules asking modes where r: "main_rules get p = Inr rules" "review_rulesets rules = Some asking"
      "all_some (map (ruleset_bypass get p) asking) = Some modes" "list_all (\<lambda>m. m = ''exempt'') modes"
    using assms by (auto simp: review_bypass_def split: sum.split_asm option.split_asm if_split_asm)
  have "asking \<noteq> []"
    using r(2) by (auto simp: review_rulesets_def dedup_def split: json.split_asm option.split_asm if_split_asm)
  moreover have "ruleset_bypass get p i = Some ''exempt''" if "i \<in> set asking" for i
  proof -
    have "ruleset_bypass get p i \<in> set (map Some modes)"
      using that r(3) unfolding all_some_exact by (metis image_eqI set_map)
    with r(4) show ?thesis by (auto simp: list_all_iff)
  qed
  then have "list_all (\<lambda>i. ruleset_bypass get p i = Some ''exempt'') asking" by (simp add: list_all_iff)
  ultimately show ?thesis using r by blast
qed

lemma ready_facts:
  assumes "failing_fact (ready_of get mode parked state_read remote_read) = None"
  shows "\<exists>f st h. parked = Some f \<and> state_read = Inr st \<and> remote_read = Inr h
    \<and> parked_reason parked = None \<and> mode = ''human'' \<and> \<not> ps_draft st \<and> ps_checks st = Success
    \<and> ps_mergeable st = ''MERGEABLE'' \<and> ps_threads st = [] \<and> ps_head st = Some h
    \<and> (r_candidate (pf_run f) = Some h \<or> r_approved_sha (pf_run f) = Some h)
    \<and> (ps_review st = Some ''approved''
       \<or> review_required st \<and> review_bypass get (the (parse_pr_url (case r_pr (pf_run f) of None \<Rightarrow> [] | Some u \<Rightarrow> u))) = None)"
proof -
  let ?rd = "ready_of get mode parked state_read remote_read"
  have ok: "list_all (\<lambda>(_, ok, _). ok) (rd_facts ?rd)" using assms by (simp add: failing_fact_None)
  obtain f where f: "parked = Some f" "parked_reason parked = None" "mode = ''human''"
    using ok by (auto simp: ready_of_def Let_def fact_def human_approval_reason_def GITHUB_FACTS_def
        split: option.split_asm bool.split_asm if_split_asm)
  define p where "p = the (parse_pr_url (case r_pr (pf_run f) of None \<Rightarrow> [] | Some u \<Rightarrow> u))"
  have g: "list_all (\<lambda>(_, ok, _). ok) (github_facts get (pf_run f) p (Some (read_github state_read remote_read)))"
    using ok f by (simp add: ready_of_def Let_def fact_def human_approval_reason_def p_def)
  obtain st where st: "state_read = Inr st"
    using g by (cases state_read) (auto simp: github_facts_def read_github_def GITHUB_FACTS_def)
  define remote where "remote = (case remote_read of Inl _ \<Rightarrow> None | Inr h \<Rightarrow> Some h)"
  have g': "list_all (\<lambda>(_, ok, _). ok) (github_facts get (pf_run f) p (Some (Some st, remote)))"
    using g by (simp add: st read_github_def remote_def)
  have others: "\<not> ps_draft st" "checks_reason st = None" "mergeable_reason st = None" "threads_reason st = None"
      "head_reason (pf_run f) st remote = None"
    using g' by (auto simp: github_facts_def Let_def state_facts_def fact_def REVIEW_FACT_def split: if_split_asm)
  have review: "review_reason st = None \<or> review_required st \<and> review_bypass get p = None"
    using g' others by (auto simp: github_facts_def Let_def state_facts_def fact_def REVIEW_FACT_def split: if_split_asm)
  obtain h where h: "remote = Some h" "ps_head st = Some h" "r_candidate (pf_run f) = Some h \<or> r_approved_sha (pf_run f) = Some h"
    using others(5) by (auto simp: head_reason_def split: option.split_asm if_split_asm)
  have "remote_read = Inr h" using h(1) by (auto simp: remote_def split: sum.split_asm)
  moreover have "ps_checks st = Success" "ps_mergeable st = ''MERGEABLE''" "ps_threads st = []"
    using others by (auto simp: checks_reason_def mergeable_reason_def threads_reason_def split: verdict.split_asm if_split_asm)
  moreover have "ps_review st = Some ''approved'' \<or> review_required st \<and> review_bypass get p = None"
    using review by (auto simp: review_reason_def split: if_split_asm)
  ultimately show ?thesis
    using f st others(1) h(2,3) unfolding p_def [symmetric] by (intro exI [of _ f] exI [of _ st] exI [of _ h]) (simp add: p_def)
qed

end
