(* ===== verification/WatchRules.thy ===== *)
theory WatchRules
  imports Checks Automations
begin

section \<open>WatchRules: what an automation may do\<close>

text \<open>
  The rules of \<^verbatim>\<open>holophyte/automation/\<close> ahead of any act: the project's opt-in
  (\<^verbatim>\<open>automation_config.py\<close>), the list of acts and the report-only repositories (\<^verbatim>\<open>policy.py\<close>), the
  host's switch (\<^verbatim>\<open>gate.py\<close>), the limits, the host's reruns per day and the self-pause
  (\<^verbatim>\<open>limits.py\<close>). A configuration is a \<open>json\<close> document (TOML has no null); \<open>day_of\<close> is \<^verbatim>\<open>midnight\<close>:
  the Pacific midnight that starts a day, and the day's name.

  The lemmas: no act in \<^verbatim>\<open>NEVER\<close> is ever allowed; a configuration that acts names an approved
  revision; the rerun count of a day only grows and the limit is read before each act.
\<close>

subsection \<open>The project's opt-in\<close>

definition MAIN_WATCH :: string where "MAIN_WATCH = ''main_watch''"

datatype watch_mode = WOff | WDryRun | WAct

definition watch_mode_of :: "json \<Rightarrow> watch_mode option" where
  "watch_mode_of j =
     (if j = JStr ''off'' then Some WOff else if j = JStr ''dry_run'' then Some WDryRun
      else if j = JStr ''act'' then Some WAct else None)"

record watch_config =
  wc_mode :: watch_mode
  wc_revision :: "int option"

definition dict_get :: "string \<Rightarrow> json \<Rightarrow> json \<Rightarrow> json" where
  "dict_get k d j = (case j of JObj fs \<Rightarrow> (case map_of fs k of None \<Rightarrow> d | Some x \<Rightarrow> x) | _ \<Rightarrow> d)"

definition dict_keys :: "json \<Rightarrow> string list" where
  "dict_keys j = (case j of JObj fs \<Rightarrow> map fst fs | _ \<Rightarrow> [])"

definition main_watch_config :: "json \<Rightarrow> string + watch_config" where
  "main_watch_config config =
     (let table = dict_get ''automations'' (JObj []) config; watch = dict_get MAIN_WATCH (JObj []) table
      in if \<not> is_obj table then Inl ''[automations] must be a table''
         else if \<not> is_obj watch then Inl ''[automations.main_watch] must be a table''
         else if \<not> set (dict_keys watch) \<subseteq> {''mode'', ''revision''} then Inl ''unknown key''
         else (case watch_mode_of (dict_get ''mode'' (JStr ''off'') watch) of
                 None \<Rightarrow> Inl ''mode must be one of off, dry_run, act''
               | Some mode \<Rightarrow>
                   (case map_of (case watch of JObj fs \<Rightarrow> fs | _ \<Rightarrow> []) ''revision'' of
                      None \<Rightarrow> if mode = WAct then Inl ''act needs revision'' else Inr \<lparr>wc_mode = mode, wc_revision = None\<rparr>
                    | Some (JInt n) \<Rightarrow>
                        if n < 0 then Inl ''revision must be a whole number'' else Inr \<lparr>wc_mode = mode, wc_revision = Some n\<rparr>
                    | Some _ \<Rightarrow> Inl ''revision must be a whole number'')))"

definition unapproved :: "watch_config \<Rightarrow> nat \<Rightarrow> string option" where
  "unapproved config revision =
     (if wc_revision config = Some (int revision) then None
      else Some (''rule revision '' @ str_nat revision @ '' is not approved ([automations.main_watch] revision = ''
        @ (case wc_revision config of None \<Rightarrow> ''None'' | Some n \<Rightarrow> str_int n) @ '')''))"

subsection \<open>The list of acts\<close>

definition RERUN_FAILED_JOBS :: string where "RERUN_FAILED_JOBS = ''rerun_failed_jobs''"
definition HOLD_MERGES :: string where "HOLD_MERGES = ''hold_merges''"
definition RELEASE_HELD_MERGES :: string where "RELEASE_HELD_MERGES = ''release_held_merges''"

definition CAPABILITIES :: "(string \<times> string list) list" where
  "CAPABILITIES = [(MAIN_WATCH, [RERUN_FAILED_JOBS, HOLD_MERGES, RELEASE_HELD_MERGES])]"

definition NEVER :: "string list" where
  "NEVER = [''approve'', ''merge'', ''cancel'', ''abort'', ''close'', ''repoint'', ''force'', ''steer'',
     ''edit_config'', ''edit_ticket'']"

text \<open>The action a firing names, \<open>None\<close> when its detail names none; the quotes are those of
  \<^verbatim>\<open>repr\<close> for a name without quotes.\<close>

definition action_shown :: "string option \<Rightarrow> string" where
  "action_shown action = (case action of None \<Rightarrow> ''None'' | Some a \<Rightarrow> CHR 39 # a @ [CHR 39])"

definition act_refusal :: "string \<Rightarrow> string option \<Rightarrow> string option" where
  "act_refusal automation action =
     (if action \<in> set (map Some NEVER)
      then Some (''action '' @ action_shown action @ '' is in NEVER, which no automation may take'')
      else let allowed = (case map_of CAPABILITIES automation of None \<Rightarrow> [] | Some xs \<Rightarrow> xs)
           in if action \<in> set (map Some allowed) then None
              else Some (''action '' @ action_shown action @ '' is not in '' @ automation @ [CHR 39] @ ''s list (''
                @ (if allowed = [] then ''none'' else join '', '' allowed) @ '')''))"

text \<open>\<^verbatim>\<open>report_only\<close>: the host's list, or its error.\<close>

definition report_only :: "json \<Rightarrow> string + string list" where
  "report_only host_table =
     (case dict_get ''report_only'' (JList []) (dict_get ''automations'' (JObj []) host_table) of
        JList xs \<Rightarrow>
          if list_all (\<lambda>x. case x of JStr s \<Rightarrow> count_list s CHR ''/'' = 1 | _ \<Rightarrow> False) xs
          then Inr (map (\<lambda>x. py_lower (text_of x)) xs)
          else Inl ''[automations] report_only must be a list of OWNER/NAME''
      | _ \<Rightarrow> Inl ''[automations] report_only must be a list of OWNER/NAME'')"

definition report_only_reason :: "pull \<Rightarrow> string list \<Rightarrow> string option" where
  "report_only_reason p listed =
     (if py_lower (pull_repo p) \<in> set listed then Some (''report-only repository '' @ pull_repo p) else None)"

subsection \<open>The host's switch\<close>

datatype file_read = NoFile | BadFile string | ReadFile json

record switch =
  sw_off :: bool
  sw_record :: "json option"
  sw_problem :: "string option"

definition read_switch :: "file_read \<Rightarrow> switch" where
  "read_switch file =
     (case file of
        NoFile \<Rightarrow> \<lparr>sw_off = False, sw_record = None, sw_problem = None\<rparr>
      | BadFile bad \<Rightarrow> \<lparr>sw_off = True, sw_record = None, sw_problem = Some (''unreadable ('' @ bad @ '')'')\<rparr>
      | ReadFile doc \<Rightarrow>
          (case jget ''off'' doc of
             JBool b \<Rightarrow> \<lparr>sw_off = b, sw_record = Some doc, sw_problem = None\<rparr>
           | _ \<Rightarrow> \<lparr>sw_off = True, sw_record = None, sw_problem = Some ''holds no boolean off''\<rparr>))"

definition inhibitor :: "file_read \<Rightarrow> string \<Rightarrow> store \<Rightarrow> string option" where
  "inhibitor file automation s =
     (let switch = read_switch file
      in if sw_off switch
         then Some (''automations are off on this host: ''
           @ (case sw_problem switch of
                Some why \<Rightarrow> why
              | None \<Rightarrow> (case sw_record switch of
                    Some doc \<Rightarrow> (case jget ''note'' doc of JStr n \<Rightarrow> n | _ \<Rightarrow> ''None'') | None \<Rightarrow> ''None'')))
         else map_option (\<lambda>p. ''automation '' @ automation @ '' is paused: '' @ ap_note p) (automation_pause automation s))"

subsection \<open>Limits\<close>

definition QUEUED :: nat where "QUEUED = 3"
definition PER_HOUR :: nat where "PER_HOUR = 6"
definition PER_DAY :: nat where "PER_DAY = 30"
definition RERUNS_PER_DAY :: int where "RERUNS_PER_DAY = 10"
definition HOUR_MS :: int where "HOUR_MS = 60 * 60 * 1000"
definition DAY_MS :: int where "DAY_MS = 24 * HOUR_MS"

definition reruns_per_day :: "json \<Rightarrow> string + int" where
  "reruns_per_day host_table =
     (case dict_get ''reruns_per_day'' (JInt RERUNS_PER_DAY) (dict_get ''automations'' (JObj []) host_table) of
        JInt n \<Rightarrow> if n < 1 then Inl ''reruns_per_day must be a whole number of at least 1'' else Inr n
      | _ \<Rightarrow> Inl ''reruns_per_day must be a whole number of at least 1'')"

definition limit_reason :: "act_count \<Rightarrow> int \<Rightarrow> int \<Rightarrow> string option" where
  "limit_reason counts reruns cap =
     (if QUEUED \<le> ac_queued counts then Some (''rate: '' @ str_nat QUEUED @ '' firings queued'')
      else if PER_HOUR \<le> ac_hour counts then Some (''rate: '' @ str_nat PER_HOUR @ '' actions in the last hour'')
      else if PER_DAY \<le> ac_today counts then Some (''rate: '' @ str_nat PER_DAY @ '' actions today'')
      else if cap \<le> reruns then Some (''GitHub rerun cap: '' @ str_int cap @ '' today'')
      else None)"

type_synonym rerun_count = "(string \<times> int) option"

definition reruns_today :: "(int \<Rightarrow> int \<times> string) \<Rightarrow> rerun_count \<Rightarrow> int \<Rightarrow> int" where
  "reruns_today day_of saved now =
     (case saved of None \<Rightarrow> 0 | Some (day, n) \<Rightarrow> if day = snd (day_of now) then n else 0)"

definition reruns_start :: "(int \<Rightarrow> int \<times> string) \<Rightarrow> rerun_count \<Rightarrow> int \<Rightarrow> int \<Rightarrow> rerun_count" where
  "reruns_start day_of saved committed now = Some (snd (day_of now), max (reruns_today day_of saved now) committed)"

definition reruns_counted :: "(int \<Rightarrow> int \<times> string) \<Rightarrow> rerun_count \<Rightarrow> int \<Rightarrow> rerun_count" where
  "reruns_counted day_of saved now = Some (snd (day_of now), reruns_today day_of saved now + 1)"

definition rerun_limit ::
    "(int \<Rightarrow> int \<times> string) \<Rightarrow> rerun_count \<Rightarrow> int \<Rightarrow> nat \<Rightarrow> string \<Rightarrow> int \<Rightarrow> store \<Rightarrow> string option" where
  "rerun_limit day_of saved cap project automation now s =
     limit_reason (act_counts project automation RERUN_FAILED_JOBS (now - HOUR_MS) (fst (day_of now)) s)
       (reruns_today day_of saved now) cap"

subsection \<open>The self-pause\<close>

definition act_firings :: "nat \<Rightarrow> string \<Rightarrow> store \<Rightarrow> firing_row list" where
  "act_firings project automation s =
     filter (\<lambda>r. fr_project r = project \<and> fr_automation r = automation \<and> fr_mode r = FM_ACT
       \<and> map_of (fr_detail r) ''action'' = Some (JStr RERUN_FAILED_JOBS)) (all_firings (- 1) s)"

definition RED_AGAIN :: string where "RED_AGAIN = ''red_again''"

definition red_again :: "firing_row \<Rightarrow> bool" where
  "red_again r \<longleftrightarrow> map_of (fr_detail r) ''result'' = Some (JStr RED_AGAIN)"

definition result_checks :: "firing_row \<Rightarrow> string list" where
  "result_checks r = (case map_of (fr_detail r) ''result_checks'' of Some (JList xs) \<Rightarrow> map text_of xs | _ \<Rightarrow> [])"

definition result_at :: "firing_row \<Rightarrow> int" where
  "result_at r = (case map_of (fr_detail r) ''result_at'' of Some (JInt t) \<Rightarrow> t | _ \<Rightarrow> 0)"

definition same_failure_twice :: "firing_row list \<Rightarrow> firing_row \<Rightarrow> int \<Rightarrow> string option" where
  "same_failure_twice fired trigger now =
     (if \<not> red_again trigger then None
      else map_option (\<lambda>r. ''same failure twice: firings '' @ str_nat (fr_id r) @ '' and '' @ str_nat (fr_id trigger)
          @ '' were red again on '' @ join '', '' (result_checks trigger) @ '' within 24 hours'')
        (find (\<lambda>r. fr_id r \<noteq> fr_id trigger \<and> red_again r
           \<and> map_of (fr_detail r) ''result_checks'' = map_of (fr_detail trigger) ''result_checks''
           \<and> now - DAY_MS < result_at r) fired))"

definition refused_twice :: "firing_row list \<Rightarrow> firing_row \<Rightarrow> string option" where
  "refused_twice fired trigger =
     (case fired of
        a # b # _ \<Rightarrow>
          if fr_id trigger \<in> {fr_id a, fr_id b}
             \<and> list_all (\<lambda>r. fr_state r = FS_REFUSED
                 \<and> (case map_of (fr_detail r) ''github_refused'' of None \<Rightarrow> False | Some x \<Rightarrow> truthy x)) [a, b]
          then Some (''refused twice: GitHub refused firings '' @ str_nat (fr_id b) @ '' and '' @ str_nat (fr_id a) @ '' in a row'')
          else None
      | _ \<Rightarrow> None)"

definition self_pause :: "env \<Rightarrow> nat \<Rightarrow> store \<Rightarrow> store" where
  "self_pause v fid s =
     (case firing fid s of
        None \<Rightarrow> s
      | Some trigger \<Rightarrow>
          let fired = act_firings (fr_project trigger) (fr_automation trigger) s
          in case (case same_failure_twice fired trigger (clock v) of
                     Some why \<Rightarrow> Some why | None \<Rightarrow> refused_twice fired trigger) of
               None \<Rightarrow> s
             | Some why \<Rightarrow> snd (pause_automation v (fr_automation trigger) why PA_AUTOMATION s))"

subsection \<open>What the rules promise\<close>

lemma never_refused: "a \<in> set NEVER \<Longrightarrow> act_refusal automation (Some a) \<noteq> None"
  by (simp add: act_refusal_def)

lemma capabilities_not_never:
  "(automation, actions) \<in> set CAPABILITIES \<Longrightarrow> set actions \<inter> set NEVER = {}"
  by (auto simp: CAPABILITIES_def NEVER_def RERUN_FAILED_JOBS_def HOLD_MERGES_def RELEASE_HELD_MERGES_def)

lemma refusal_None_iff:
  "act_refusal automation action = None \<longleftrightarrow>
     (\<exists>a actions. action = Some a \<and> map_of CAPABILITIES automation = Some actions \<and> a \<in> set actions)"
proof -
  have "a \<notin> set NEVER" if "map_of CAPABILITIES automation = Some actions" "a \<in> set actions" for a actions
    using capabilities_not_never [OF map_of_SomeD [OF that(1)]] that(2) by blast
  then show ?thesis by (auto simp: act_refusal_def Let_def split: option.splits)
qed

lemma act_names_revision:
  "main_watch_config config = Inr c \<Longrightarrow> wc_mode c = WAct \<Longrightarrow> \<exists>n. wc_revision c = Some n \<and> 0 \<le> n"
  by (auto simp: main_watch_config_def Let_def split: if_split_asm option.split_asm json.split_asm)

lemma limit_reason_None:
  "limit_reason counts reruns cap = None \<longleftrightarrow>
     ac_queued counts < QUEUED \<and> ac_hour counts < PER_HOUR \<and> ac_today counts < PER_DAY \<and> reruns < cap"
  by (auto simp: limit_reason_def)

lemma reruns_counted_today [simp]:
  "reruns_today day_of (reruns_counted day_of saved now) now = reruns_today day_of saved now + 1"
  by (simp add: reruns_today_def reruns_counted_def)

lemma self_pause_safe [simp]: "safe s (self_pause v fid s)"
  by (auto simp: self_pause_def Let_def split: option.split)

lemma find_snoc_hit: "P y \<Longrightarrow> find P (xs @ [y]) \<noteq> None"
  by (induction xs) auto

text \<open>An automation that was red again twice on the same checks within a day is paused.\<close>

lemma same_failure_pauses:
  assumes "firing fid s = Some trigger" and "red_again trigger"
    and "r \<in> set (act_firings (fr_project trigger) (fr_automation trigger) s)" and "fr_id r \<noteq> fr_id trigger"
    and "red_again r" and "map_of (fr_detail r) ''result_checks'' = map_of (fr_detail trigger) ''result_checks''"
    and "clock v - DAY_MS < result_at r"
  shows "automation_pause (fr_automation trigger) (self_pause v fid s) \<noteq> None"
proof -
  let ?fired = "act_firings (fr_project trigger) (fr_automation trigger) s"
  have "same_failure_twice ?fired trigger (clock v) \<noteq> None"
    using assms(2-7) by (auto simp: same_failure_twice_def find_None_iff)
  then obtain why where "same_failure_twice ?fired trigger (clock v) = Some why" by blast
  then have "self_pause v fid s = snd (pause_automation v (fr_automation trigger) why PA_AUTOMATION s)"
    using assms(1) by (simp add: self_pause_def Let_def)
  moreover have "automation_pause a (snd (pause_automation v a n x s)) \<noteq> None" for a n x
  proof (cases "automation_pause a s")
    case None
    then show ?thesis
      by (simp add: pause_automation_def Let_def del: not_None_eq) (simp add: automation_pause_def find_snoc_hit del: not_None_eq)
  next
    case (Some p)
    then show ?thesis by (simp add: pause_automation_def)
  qed
  ultimately show ?thesis by simp
qed

end
