(* ===== verification/MainWatch.thy ===== *)
theory MainWatch
  imports WatchRules Operate
begin

section \<open>MainWatch: a red required check on main's head\<close>

text \<open>
  \<^verbatim>\<open>holophyte/automation/main_watch.py\<close>: what the main watch does with a reading of main. A red required
  check reserves one firing per workflow run and holds the merges of the project; a green main ends
  the hold and sends the runs it parked back to the babysitter. The wall clock, the files of the
  host and GitHub's answers are in \<open>watch_cx\<close>; \<open>clock v\<close> is the sweep's \<^verbatim>\<open>now\<close>.

  A step returns what stopped it, if anything did, beside the state: each firing is its own
  transaction, so a failure keeps the firings before it. The lemmas: a watch that may not act only
  proposes; a lease counts against the host's reruns of the day and never passes the cap; after
  \<open>hold_merges\<close> the red commit is held, and calling it again changes nothing; a release ends the
  hold and sends back no run that a person or the factory touched since.
\<close>

subsection \<open>Reading the checks\<close>

definition REVISION :: nat where "REVISION = 1"
definition SUBJECT :: string where "SUBJECT = ''main''"
definition HOLD_SUBJECT :: string where "HOLD_SUBJECT = ''merges''"
definition LEASE_MS :: int where "LEASE_MS = 5 * 60 * 1000"
definition GREEN :: string where "GREEN = ''green''"
definition RESULT_SUPERSEDED :: string where "RESULT_SUPERSEDED = ''superseded''"
definition COMPARE_COMMITS :: nat where "COMPARE_COMMITS = 20"

definition failed_jobs_of_required_runs :: "main_checks \<Rightarrow> (nat \<times> failed_job list) list" where
  "failed_jobs_of_required_runs checks =
     (if mc_state checks \<noteq> MainFailure then []
      else
        (let eligible = map fj_run (filter (\<lambda>j. fj_required j \<and> fj_run j \<noteq> None) (mc_failed checks))
         in map (\<lambda>run. (the run, filter (\<lambda>j. fj_run j = run) (mc_failed checks)))
              (dedup (filter (\<lambda>run. run \<in> set eligible) (map fj_run (mc_failed checks))))))"

definition workflow_run_attempt :: "get \<Rightarrow> pull \<Rightarrow> nat \<Rightarrow> gh_error + int" where
  "workflow_run_attempt get p run =
     bindE (get (gh_repo_path p @ ''/actions/runs/'' @ str_nat run)) (\<lambda>answer.
       case jget ''run_attempt'' answer of
         JInt n \<Rightarrow> Inr n | _ \<Rightarrow> Inl (Infra (''workflow run '' @ str_nat run @ '' answered no run_attempt'')))"

definition firing_jobs :: "firing_row \<Rightarrow> json list" where
  "firing_jobs f = (case map_of (fr_detail f) ''jobs'' of Some (JList xs) \<Rightarrow> xs | _ \<Rightarrow> [])"

definition firing_sha :: "firing_row \<Rightarrow> string" where
  "firing_sha f = (case map_of (fr_detail f) ''sha'' of Some (JStr sha) \<Rightarrow> sha | _ \<Rightarrow> [])"

definition rerun_reading :: "json list \<Rightarrow> json list \<Rightarrow> (string \<times> string list) option" where
  "rerun_reading jobs reads =
     (let recorded = map (jget ''job_id'') jobs;
          answered = map (\<lambda>job. (text_of (jget ''name'' job), map_of (newest_runs reads) (jget ''name'' job))) jobs;
          reds = map fst (filter (\<lambda>(_, run). case run of None \<Rightarrow> False
                   | Some r \<Rightarrow> jget ''id'' r \<notin> set recorded \<and> completed r \<and> red r) answered)
      in if reds \<noteq> [] then Some (RED_AGAIN, reds)
         else if list_all (\<lambda>(_, run). case run of None \<Rightarrow> False
                | Some r \<Rightarrow> jget ''conclusion'' r = JStr ''success'') answered
         then Some (GREEN, map fst answered) else None)"

text \<open>A commit that is no document raises \<^verbatim>\<open>AttributeError\<close>, which \<open>merged_since\<close> does not catch.\<close>

definition commit_subject :: "json \<Rightarrow> gh_error + string" where
  "commit_subject commit =
     (case commit of
        JObj fs \<Rightarrow>
          (case (case map_of fs ''commit'' of None \<Rightarrow> JObj [] | Some c \<Rightarrow> c) of
             JObj cs \<Rightarrow>
               (case map_of cs ''message'' of
                  Some (JStr m) \<Rightarrow> Inr (fst (partition_at CHR 10 m))
                | Some j \<Rightarrow> if truthy j then Inl (Crash ''AttributeError'') else Inr []
                | None \<Rightarrow> Inr [])
           | _ \<Rightarrow> Inl (Crash ''AttributeError''))
      | _ \<Rightarrow> Inl (Crash ''AttributeError''))"

definition sha_shown :: "json \<Rightarrow> string" where
  "sha_shown j = (case j of JStr s \<Rightarrow> s | JNull \<Rightarrow> ''None'' | _ \<Rightarrow> json_dumps j)"

definition merged_line :: "json \<Rightarrow> gh_error + string" where
  "merged_line commit =
     bindE (commit_subject commit) (\<lambda>subject. Inr (take 7 (sha_shown (jget ''sha'' commit)) @ '' '' @ subject))"

definition merged_since :: "get \<Rightarrow> pull \<Rightarrow> string \<Rightarrow> string \<Rightarrow> gh_error + string" where
  "merged_since get p green sha =
     (case get (gh_repo_path p @ ''/compare/'' @ green @ ''...'' @ sha @ ''?per_page='' @ str_nat COMPARE_COMMITS) of
        Inl (Infra bad) \<Rightarrow> Inr (''unreadable ('' @ bad @ '')'')
      | Inl e \<Rightarrow> Inl e
      | Inr answer \<Rightarrow>
          (case jlist (jget ''commits'' answer) of
             None \<Rightarrow> Inr ''unreadable (the compare answered no commits)''
           | Some commits \<Rightarrow>
               bindE (foldE (\<lambda>c lines. bindE (merged_line c) (\<lambda>l. Inr (lines @ [l]))) (take COMPARE_COMMITS commits) [])
                 (\<lambda>lines. Inr (join '', '' lines))))"

definition result_of ::
    "get \<Rightarrow> pull \<Rightarrow> firing_row \<Rightarrow> string \<Rightarrow> string option \<Rightarrow>
     (gh_error + (string \<times> string \<times> string list) option) option" where
  "result_of get p f head green =
     (let sha = firing_sha f in
      if head \<noteq> sha
      then Some (Inr (Some (RESULT_SUPERSEDED, ''main moved to '' @ take 12 head @ '' before the rerun at ''
        @ take 12 sha @ '' was read'', [])))
      else map_option (\<lambda>read. bindE read (\<lambda>runs.
        case runs of
          None \<Rightarrow> Inl (Infra (''GitHub answered an unreadable check read at '' @ sha))
        | Some rs \<Rightarrow>
            (case rerun_reading (firing_jobs f) rs of
               None \<Rightarrow> Inr None
             | Some (result, names) \<Rightarrow>
                 if result = GREEN
                 then Inr (Some (GREEN, ''suspected flake: '' @ join '', '' names @ '' passed on rerun at '' @ take 12 sha, names))
                 else bindE (case green of
                          None \<Rightarrow> Inr ''no green main seen yet''
                        | Some g \<Rightarrow> bindE (merged_since get p g sha) (\<lambda>merged. Inr (''merged since '' @ take 12 g @ '': '' @ merged)))
                        (\<lambda>since. Inr (Some (RED_AGAIN, ''red again at '' @ take 12 sha @ '': '' @ join '', '' names
                          @ ''; '' @ since, names))))))
        (check_runs_of get p sha))"

subsection \<open>The watch's state\<close>

record watch_cx =
  cx_get :: get
  cx_pull :: pull
  cx_project :: nat
  cx_watch :: watch_config
  cx_listed :: "string list"
  cx_switch :: file_read
  cx_wall :: int
  cx_day :: "int \<Rightarrow> int \<times> string"
  cx_cap :: int

datatype stop = GithubStop gh_error | StoreStop err

record watching =
  wt_store :: store
  wt_leased :: "nat list"
  wt_reruns :: rerun_count

text \<open>Why a watch in \<^verbatim>\<open>act\<close> may only report.\<close>

definition may_not_act :: "watch_cx \<Rightarrow> string option" where
  "may_not_act cx =
     (case unapproved (cx_watch cx) REVISION of
        Some why \<Rightarrow> Some why | None \<Rightarrow> report_only_reason (cx_pull cx) (cx_listed cx))"

definition held_back :: "watch_cx \<Rightarrow> string option" where
  "held_back cx = (if wc_mode (cx_watch cx) = WAct then may_not_act cx else None)"

definition dry_reason :: "string \<Rightarrow> string option \<Rightarrow> string" where
  "dry_reason would held = (case held of None \<Rightarrow> would | Some why \<Rightarrow> would @ ''; dry run: '' @ why)"

subsection \<open>Holding the merges\<close>

definition red_required :: "main_checks \<Rightarrow> string list" where
  "red_required checks = dedup (map fj_name (filter fj_required (mc_failed checks)))"

definition main_cause :: "watch_cx \<Rightarrow> string \<Rightarrow> string" where
  "main_cause cx sha = pull_repo (cx_pull cx) @ ''@'' @ sha"

definition same_hold :: "string \<Rightarrow> string list \<Rightarrow> hold_row option \<Rightarrow> bool" where
  "same_hold sha names h \<longleftrightarrow>
     (case h of None \<Rightarrow> False | Some h \<Rightarrow> mh_sha h = sha \<and> sort (mh_checks h) = sort names)"

text \<open>The body of the transaction that places a hold.\<close>

definition hold_act ::
    "watch_cx \<Rightarrow> env \<Rightarrow> string \<Rightarrow> string list \<Rightarrow> string \<Rightarrow> (string \<times> json) list \<Rightarrow> store \<Rightarrow> err + store" where
  "hold_act cx v sha names red_text detail s =
     (if same_hold sha names (open_merge_hold (cx_project cx) s) then Inr s
      else bindE (reserve_firing v (cx_project cx) MAIN_WATCH REVISION HOLD_SUBJECT (main_cause cx sha) FM_ACT
               (''holding merges: '' @ red_text) detail (Some (cx_wall cx + LEASE_MS)) None s) (\<lambda>(fresh, s).
        bindE (case fresh of
                 Some fid \<Rightarrow> Inr fid
               | None \<Rightarrow> keyed_firing (cx_project cx) MAIN_WATCH REVISION HOLD_SUBJECT (main_cause cx sha) s) (\<lambda>fid.
          bindE (place_merge_hold v (cx_project cx) fid sha names (''held merges: '' @ red_text) s) (\<lambda>(_, s). Inr s))))"

definition hold_merges :: "watch_cx \<Rightarrow> env \<Rightarrow> string option \<Rightarrow> main_checks \<Rightarrow> store \<Rightarrow> err + store" where
  "hold_merges cx v held checks s =
     (let names = red_required checks; sha = (case mc_sha checks of None \<Rightarrow> [] | Some x \<Rightarrow> x);
          red_text = ''main is red at '' @ take 12 sha @ '' ('' @ join '', '' names @ '')'';
          detail = [(''action'', JStr HOLD_MERGES), (''sha'', JStr sha), (''checks'', JList (map JStr names))];
          held = (if wc_mode (cx_watch cx) = WAct
                  then (case held of Some why \<Rightarrow> Some why | None \<Rightarrow> act_refusal MAIN_WATCH (Some HOLD_MERGES))
                  else held)
      in if mc_state checks \<noteq> MainFailure \<or> names = [] then Inr s
         else if wc_mode (cx_watch cx) \<noteq> WAct \<or> held \<noteq> None
         then bindE (reserve_firing v (cx_project cx) MAIN_WATCH REVISION HOLD_SUBJECT (main_cause cx sha) FM_DRY_RUN
                (dry_reason (''would hold merges: '' @ red_text) held) detail None None s) (\<lambda>(_, s). Inr s)
         else hold_act cx v sha names red_text detail s)"

subsection \<open>Leasing a rerun of each red workflow run\<close>

definition job_doc :: "failed_job \<Rightarrow> json" where
  "job_doc j = JObj [(''name'', JStr (fj_name j)), (''job_id'', case fj_job j of None \<Rightarrow> JNull | Some i \<Rightarrow> JInt i)]"

definition jobs_at :: "nat \<Rightarrow> failed_job list \<Rightarrow> string \<Rightarrow> string" where
  "jobs_at run jobs sha =
     ''the failed jobs of workflow run '' @ str_nat run @ '' ('' @ join '', '' (map fj_name jobs) @ '') at '' @ sha"

definition rerun_detail :: "nat \<Rightarrow> failed_job list \<Rightarrow> string \<Rightarrow> (string \<times> json) list" where
  "rerun_detail run jobs sha =
     [(''sha'', JStr sha), (''workflow_run_id'', JInt (int run)), (''jobs'', JList (map job_doc jobs))]"

definition run_cause :: "watch_cx \<Rightarrow> string \<Rightarrow> nat \<Rightarrow> string" where
  "run_cause cx sha run = main_cause cx sha @ '' run '' @ str_nat run"

definition propose_rerun ::
    "watch_cx \<Rightarrow> env \<Rightarrow> string \<Rightarrow> string option \<Rightarrow> nat \<times> failed_job list \<Rightarrow> watching \<Rightarrow> stop option \<times> watching" where
  "propose_rerun cx v sha held entry w =
     (let (run, jobs) = entry in
      case reserve_firing v (cx_project cx) MAIN_WATCH REVISION SUBJECT (run_cause cx sha run) FM_DRY_RUN
             (dry_reason (''would rerun '' @ jobs_at run jobs sha) held) (rerun_detail run jobs sha) None None (wt_store w) of
        Inl e \<Rightarrow> (Some (StoreStop e), w)
      | Inr (_, s) \<Rightarrow> (None, w\<lparr>wt_store := s\<rparr>))"

definition lease_rerun ::
    "watch_cx \<Rightarrow> env \<Rightarrow> string \<Rightarrow> nat \<times> failed_job list \<Rightarrow> watching \<Rightarrow> stop option \<times> watching" where
  "lease_rerun cx v sha entry w =
     (let (run, jobs) = entry in
      case workflow_run_attempt (cx_get cx) (cx_pull cx) run of
        Inl e \<Rightarrow> (Some (GithubStop e), w)
      | Inr attempt \<Rightarrow>
          (case reserve_firing v (cx_project cx) MAIN_WATCH REVISION SUBJECT (run_cause cx sha run) FM_ACT
                  (''rerunning '' @ jobs_at run jobs sha)
                  (rerun_detail run jobs sha @ [(''action'', JStr RERUN_FAILED_JOBS), (''run_attempt'', JInt attempt)])
                  (Some (cx_wall cx + LEASE_MS))
                  (Some (rerun_limit (cx_day cx) (wt_reruns w) (cx_cap cx) (cx_project cx) MAIN_WATCH (clock v)))
                  (wt_store w) of
             Inl e \<Rightarrow> (Some (StoreStop e), w)
           | Inr (None, s) \<Rightarrow> (None, w\<lparr>wt_store := s\<rparr>)
           | Inr (Some fid, s) \<Rightarrow>
               if map_option fr_state (firing fid s) = Some FS_LEASED
               then (None, w\<lparr>wt_store := s, wt_leased := wt_leased w @ [fid],
                       wt_reruns := reruns_counted (cx_day cx) (wt_reruns w) (clock v)\<rparr>)
               else (None, w\<lparr>wt_store := s\<rparr>)))"

definition observe_run ::
    "watch_cx \<Rightarrow> env \<Rightarrow> string \<Rightarrow> string option \<Rightarrow> nat \<times> failed_job list \<Rightarrow> watching \<Rightarrow> stop option \<times> watching" where
  "observe_run cx v sha held entry w =
     (if wc_mode (cx_watch cx) \<noteq> WAct \<or> held \<noteq> None then propose_rerun cx v sha held entry w
      else lease_rerun cx v sha entry w)"

fun observe_runs ::
    "watch_cx \<Rightarrow> env \<Rightarrow> string \<Rightarrow> string option \<Rightarrow> (nat \<times> failed_job list) list \<Rightarrow> watching \<Rightarrow> stop option \<times> watching" where
  "observe_runs cx v sha held [] w = (None, w)"
| "observe_runs cx v sha held (entry # entries) w =
     (case observe_run cx v sha held entry w of
        (Some e, w) \<Rightarrow> (Some e, w) | (None, w) \<Rightarrow> observe_runs cx v sha held entries w)"

definition observe :: "watch_cx \<Rightarrow> env \<Rightarrow> main_checks \<Rightarrow> watching \<Rightarrow> stop option \<times> watching" where
  "observe cx v checks w =
     (case hold_merges cx v (held_back cx) checks (wt_store w) of
        Inl e \<Rightarrow> (Some (StoreStop e), w)
      | Inr s \<Rightarrow>
          observe_runs cx v (case mc_sha checks of None \<Rightarrow> [] | Some x \<Rightarrow> x) (held_back cx)
            (failed_jobs_of_required_runs checks) (w\<lparr>wt_store := s\<rparr>))"

subsection \<open>Releasing the hold\<close>

definition left_reason :: "held_run \<Rightarrow> string option" where
  "left_reason r =
     (if hr_last r \<noteq> Some (hr_run r)
      then Some (''its newest run is '' @ (case hr_last r of None \<Rightarrow> ''None'' | Some k \<Rightarrow> str_nat k) @ '', not run ''
        @ str_nat (hr_run r) @ '' the hold parked'')
      else if hr_touched r then Some (''a person acted on run '' @ str_nat (hr_run r) @ '' after the hold parked it'')
      else if hr_reparked r then Some (''run '' @ str_nat (hr_run r) @ '' was parked again after the hold parked it'')
      else None)"

text \<open>\<^verbatim>\<open>{run.ticketId: run for run in runs}.values()\<close>.\<close>

definition newest_by_ticket :: "held_run list \<Rightarrow> held_run list" where
  "newest_by_ticket held = map (\<lambda>t. last (filter (\<lambda>r. hr_ticket r = t) held)) (dedup (map hr_ticket held))"

type_synonym releasing = "string list \<times> (string \<times> string) list \<times> store"

definition release_one :: "env \<Rightarrow> string \<Rightarrow> nat \<Rightarrow> held_run \<Rightarrow> releasing \<Rightarrow> err + releasing" where
  "release_one v why fid run state =
     (let (released, left, s) = state in
      case left_reason run of
        Some reason \<Rightarrow> Inr (released, left @ [(hr_identifier run, reason)], s)
      | None \<Rightarrow>
          (case babysit v (hr_ticket run) why IS_AUTOMATION (Some fid) s of
             Inl (ApproveRefused reason) \<Rightarrow> Inr (released, left @ [(hr_identifier run, reason)], s)
           | Inl e \<Rightarrow> Inl e
           | Inr (_, s) \<Rightarrow> Inr (released @ [hr_identifier run], left, s)))"

definition release_detail :: "string \<Rightarrow> hold_row \<Rightarrow> string list \<Rightarrow> (string \<times> string) list \<Rightarrow> (string \<times> json) list" where
  "release_detail sha h released left =
     [(''action'', JStr RELEASE_HELD_MERGES), (''sha'', JStr sha), (''hold'', JInt (int (mh_id h))),
      (''released'', JList (map JStr released)),
      (''left'', JList (map (\<lambda>(t, why). JObj [(''ticket'', JStr t), (''reason'', JStr why)]) left))]"

definition release_note :: "string \<Rightarrow> nat \<Rightarrow> string" where
  "release_note sha fid = ''main is green at '' @ take 12 sha @ ''; main_watch firing '' @ str_nat fid @ '' released the hold''"

text \<open>The hold's end, the runs sent back and the settling of the firing.\<close>

definition end_and_release :: "watch_cx \<Rightarrow> env \<Rightarrow> string \<Rightarrow> hold_row \<Rightarrow> nat \<Rightarrow> store \<Rightarrow> err + store" where
  "end_and_release cx v sha h fid s =
     (let s = snd (end_merge_hold v (mh_id h) (''main green at '' @ take 12 sha) s)
      in bindE (foldE (release_one v (release_note sha fid) fid) (newest_by_ticket (held_runs (mh_id h) s)) ([], [], s))
           (\<lambda>(released, left, s).
             bindE (settle_firing v fid None FS_CONFIRMED
                 (''released the merge hold at '' @ take 12 (mh_sha h) @ '': main is green at '' @ take 12 sha @ '', ''
                   @ str_nat (length released) @ '' runs sent back to the babysitter'')
                 (Some (release_detail sha h released left)) s) (\<lambda>(_, s). Inr s)))"

definition release_held_merges :: "watch_cx \<Rightarrow> env \<Rightarrow> string \<Rightarrow> store \<Rightarrow> err + nat option \<times> store" where
  "release_held_merges cx v sha s =
     (if wc_mode (cx_watch cx) \<noteq> WAct \<or> may_not_act cx \<noteq> None \<or> act_refusal MAIN_WATCH (Some RELEASE_HELD_MERGES) \<noteq> None
      then Inr (None, s)
      else case open_merge_hold (cx_project cx) s of
          None \<Rightarrow> Inr (None, s)
        | Some h \<Rightarrow>
            if inhibitor (cx_switch cx) MAIN_WATCH s \<noteq> None then Inr (None, s)
            else bindE (reserve_firing v (cx_project cx) MAIN_WATCH REVISION HOLD_SUBJECT
                     (main_cause cx sha @ '' hold '' @ str_nat (mh_id h)) FM_ACT
                     (''releasing the merge hold at '' @ take 12 (mh_sha h))
                     [(''action'', JStr RELEASE_HELD_MERGES), (''sha'', JStr sha), (''hold'', JInt (int (mh_id h)))]
                     (Some (cx_wall cx + LEASE_MS)) None s) (\<lambda>(fresh, s').
                 case fresh of
                   None \<Rightarrow> Inr (None, s)
                 | Some fid \<Rightarrow> bindE (end_and_release cx v sha h fid s') (\<lambda>s''. Inr (Some fid, s''))))"

subsection \<open>Every step is a step of the store\<close>

lemma hold_act_safe: "hold_act cx v sha names why detail s = Inr t \<Longrightarrow> safe s t"
  by (auto simp: hold_act_def split: if_split_asm dest!: reserve_firing_safe place_merge_hold_safe
      split: option.split_asm intro: safe_trans)

lemma hold_merges_safe: "hold_merges cx v held checks s = Inr t \<Longrightarrow> safe s t"
  by (auto simp: hold_merges_def Let_def split: if_split_asm dest: reserve_firing_safe hold_act_safe)

lemma propose_rerun_safe: "propose_rerun cx v sha held entry w = (e, w') \<Longrightarrow> safe (wt_store w) (wt_store w')"
  by (auto simp: propose_rerun_def split: prod.split_asm sum.split_asm dest: reserve_firing_safe)

lemma lease_rerun_safe: "lease_rerun cx v sha entry w = (e, w') \<Longrightarrow> safe (wt_store w) (wt_store w')"
  by (auto simp: lease_rerun_def split: prod.split_asm sum.split_asm option.split_asm if_split_asm
      dest: reserve_firing_safe)

lemma observe_run_safe: "observe_run cx v sha held entry w = (e, w') \<Longrightarrow> safe (wt_store w) (wt_store w')"
  by (auto simp: observe_run_def split: if_split_asm dest: propose_rerun_safe lease_rerun_safe)

lemma observe_runs_safe: "safe (wt_store w) (wt_store (snd (observe_runs cx v sha held entries w)))"
proof (induction entries arbitrary: w)
  case (Cons entry entries)
  obtain e u where u: "observe_run cx v sha held entry w = (e, u)" by (cases "observe_run cx v sha held entry w")
  from observe_run_safe [OF u] Cons [of u] show ?case by (cases e) (auto simp: u intro: safe_trans)
qed simp

lemma observe_safe: "safe (wt_store w) (wt_store (snd (observe cx v checks w)))"
proof (cases "hold_merges cx v (held_back cx) checks (wt_store w)")
  case (Inr s)
  then show ?thesis
    using hold_merges_safe [OF Inr] observe_runs_safe [of "w\<lparr>wt_store := s\<rparr>"]
    by (auto simp: observe_def intro: safe_trans)
qed (simp add: observe_def)

lemma release_one_safe:
  "release_one v why fid r (rel, lft, s) = Inr (rel', lft', t) \<Longrightarrow> safe s t"
  by (auto simp: release_one_def split: option.split_asm sum.split_asm err.split_asm dest: babysit_safe)

lemma release_fold_safe:
  "foldE (release_one v why fid) rs (rel, lft, s) = Inr (rel', lft', t) \<Longrightarrow> safe s t"
proof (induction rs arbitrary: rel lft s)
  case (Cons r rs)
  then obtain rel1 lft1 u where "release_one v why fid r (rel, lft, s) = Inr (rel1, lft1, u)"
      "foldE (release_one v why fid) rs (rel1, lft1, u) = Inr (rel', lft', t)"
    by auto
  with release_one_safe Cons.IH show ?case by (blast intro: safe_trans)
qed simp

lemma end_and_release_safe: "end_and_release cx v sha h fid s = Inr t \<Longrightarrow> safe s t"
  by (auto simp: end_and_release_def Let_def dest!: release_fold_safe settle_firing_safe
      intro: safe_trans [OF end_merge_hold_safe] safe_trans)

lemma release_held_merges_safe: "release_held_merges cx v sha s = Inr (r, t) \<Longrightarrow> safe s t"
  by (auto simp: release_held_merges_def split: if_split_asm option.split_asm
      dest!: reserve_firing_safe end_and_release_safe intro: safe_trans)

subsection \<open>A watch that may not act only proposes\<close>

definition proposes_only :: "store \<Rightarrow> store \<Rightarrow> bool" where
  "proposes_only s t \<longleftrightarrow>
     (\<exists>rows. t = s\<lparr>firings := firings s @ rows\<rparr> \<and> list_all (\<lambda>r. fr_mode r = FM_DRY_RUN \<and> fr_state r = FS_PROPOSED) rows)"

lemma proposes_refl [simp]: "proposes_only s s"
  unfolding proposes_only_def by (rule exI [of _ "[]"]) simp

lemma proposes_trans: "proposes_only s t \<Longrightarrow> proposes_only t u \<Longrightarrow> proposes_only s u"
  unfolding proposes_only_def by (auto intro: exI [of _ "_ @ _"])

lemma reserve_proposes:
  "reserve_firing v project automation revision subject cause FM_DRY_RUN reason detail None limit s = Inr (res, t) \<Longrightarrow>
   proposes_only s t"
  by (auto simp: reserve_firing_def Let_def proposes_only_def
      split: option.split_asm if_split_asm intro: exI [of _ "[]"])

lemma hold_merges_proposes:
  "hold_merges cx v held checks s = Inr t \<Longrightarrow> wc_mode (cx_watch cx) \<noteq> WAct \<or> held \<noteq> None \<Longrightarrow> proposes_only s t"
  by (auto simp: hold_merges_def Let_def split: if_split_asm dest: reserve_proposes)

lemma observe_run_proposes:
  "observe_run cx v sha held entry w = (e, w') \<Longrightarrow> wc_mode (cx_watch cx) \<noteq> WAct \<or> held \<noteq> None \<Longrightarrow>
   proposes_only (wt_store w) (wt_store w') \<and> wt_leased w' = wt_leased w \<and> wt_reruns w' = wt_reruns w"
  by (auto simp: observe_run_def propose_rerun_def split: prod.split_asm sum.split_asm dest: reserve_proposes)

lemma observe_runs_proposes:
  assumes "wc_mode (cx_watch cx) \<noteq> WAct \<or> held \<noteq> None"
  shows "proposes_only (wt_store w) (wt_store (snd (observe_runs cx v sha held entries w)))
    \<and> wt_leased (snd (observe_runs cx v sha held entries w)) = wt_leased w
    \<and> wt_reruns (snd (observe_runs cx v sha held entries w)) = wt_reruns w"
proof (induction entries arbitrary: w)
  case (Cons entry entries)
  obtain e u where u: "observe_run cx v sha held entry w = (e, u)" by (cases "observe_run cx v sha held entry w")
  from observe_run_proposes [OF u assms] Cons [of u] show ?case
    by (cases e) (auto simp: u intro: proposes_trans)
qed simp

lemma observe_reports_only:
  assumes "wc_mode (cx_watch cx) \<noteq> WAct \<or> may_not_act cx \<noteq> None"
  shows "proposes_only (wt_store w) (wt_store (snd (observe cx v checks w)))
    \<and> wt_leased (snd (observe cx v checks w)) = wt_leased w
    \<and> wt_reruns (snd (observe cx v checks w)) = wt_reruns w"
proof (cases "hold_merges cx v (held_back cx) checks (wt_store w)")
  case (Inr s)
  have no_act: "wc_mode (cx_watch cx) \<noteq> WAct \<or> held_back cx \<noteq> None" using assms by (auto simp: held_back_def)
  from hold_merges_proposes [OF Inr no_act] observe_runs_proposes [OF no_act, of "w\<lparr>wt_store := s\<rparr>"]
  show ?thesis by (auto simp: observe_def Inr intro: proposes_trans)
qed (simp add: observe_def)

subsection \<open>The host's reruns of the day\<close>

lemma reserve_leased_unlimited:
  assumes "reserve_firing v project automation revision subject cause mode reason detail (Some l) (Some f) s
      = Inr (Some fid, t)"
    and "keyed fr_id (firings s)" and "map_option fr_state (firing fid t) = Some FS_LEASED"
  shows "f s = None"
proof (rule ccontr)
  assume "f s \<noteq> None"
  then obtain why where why: "f s = Some why" by blast
  let ?key = "firing_key automation revision project subject cause"
  show False
  proof (cases "find (\<lambda>r. fr_key r = ?key) (firings s)")
    case None
    then show False
      using assms(1,3) next_id_fresh [of fr_id "firings s"]
      by (auto simp: reserve_firing_def Let_def why firing_def fetch_append split: if_split_asm)
  next
    case (Some r)
    then have "r \<in> set (firings s)" and key: "fr_key r = ?key" by (auto simp: find_Some_iff)
    then have r: "fetch fr_id (fr_id r) (firings s) = Some r" using assms(2) by (intro fetch_member)
    from assms(1) Some key have "fr_state r = FS_PROPOSED" "fid = fr_id r"
      and "t = s\<lparr>firings := modify (\<lambda>q. fr_key q = fr_key r \<and> fr_state q = FS_PROPOSED)
        (taken_over mode FS_REFUSED why (assoc_put ''limit'' (JStr why) detail) (clock v) (Some (clock v)) None) (firings s)\<rparr>"
      by (auto simp: reserve_firing_def Let_def why split: if_split_asm)
    then have "firing fid t = Some (taken_over mode FS_REFUSED why (assoc_put ''limit'' (JStr why) detail)
        (clock v) (Some (clock v)) None r)"
      using r by (simp add: firing_def fetch_modify taken_over_def)
    with assms(3) show False by (simp add: taken_over_def)
  qed
qed

lemma safe_keyed_firings: "safe s t \<Longrightarrow> keyed fr_id (firings s) \<Longrightarrow> keyed fr_id (firings t)"
  by (auto simp: safe_def desk_safe_def dest: firing_life.keyed_run)

lemma rerun_limit_None: "rerun_limit day saved cap project a now s = None \<Longrightarrow> reruns_today day saved now < cap"
  by (simp add: rerun_limit_def limit_reason_None)

lemma lease_rerun_cap:
  assumes "lease_rerun cx v sha entry w = (e, w')" and "keyed fr_id (firings (wt_store w))"
  shows "reruns_today (cx_day cx) (wt_reruns w') (clock v)
      \<le> max (reruns_today (cx_day cx) (wt_reruns w) (clock v)) (cx_cap cx)"
  using assms
  by (auto simp: lease_rerun_def split: prod.split_asm sum.split_asm option.split_asm if_split_asm
      dest!: reserve_leased_unlimited rerun_limit_None)

lemma observe_run_cap:
  assumes "observe_run cx v sha held entry w = (e, w')" and "keyed fr_id (firings (wt_store w))"
  shows "reruns_today (cx_day cx) (wt_reruns w') (clock v)
      \<le> max (reruns_today (cx_day cx) (wt_reruns w) (clock v)) (cx_cap cx)"
  using assms lease_rerun_cap [of cx v sha entry w e w']
  by (auto simp: observe_run_def propose_rerun_def split: if_split_asm prod.split_asm sum.split_asm)

lemma observe_runs_cap:
  assumes "keyed fr_id (firings (wt_store w))"
  shows "reruns_today (cx_day cx) (wt_reruns (snd (observe_runs cx v sha held entries w))) (clock v)
      \<le> max (reruns_today (cx_day cx) (wt_reruns w) (clock v)) (cx_cap cx)"
  using assms
proof (induction entries arbitrary: w)
  case (Cons entry entries)
  obtain e u where u: "observe_run cx v sha held entry w = (e, u)" by (cases "observe_run cx v sha held entry w")
  have "keyed fr_id (firings (wt_store u))"
    using safe_keyed_firings [OF observe_run_safe [OF u] Cons.prems] .
  from Cons.IH [OF this] observe_run_cap [OF u Cons.prems] show ?case
    by (cases e) (auto simp: u)
qed simp

lemma observe_cap:
  assumes "keyed fr_id (firings (wt_store w))"
  shows "reruns_today (cx_day cx) (wt_reruns (snd (observe cx v checks w))) (clock v)
      \<le> max (reruns_today (cx_day cx) (wt_reruns w) (clock v)) (cx_cap cx)"
proof (cases "hold_merges cx v (held_back cx) checks (wt_store w)")
  case (Inr s)
  have "keyed fr_id (firings s)" using safe_keyed_firings [OF hold_merges_safe [OF Inr] assms] .
  then show ?thesis using observe_runs_cap [of "w\<lparr>wt_store := s\<rparr>"] by (simp add: observe_def Inr)
qed (simp add: observe_def)

subsection \<open>The hold stands\<close>

lemma find_append_fresh: "find P xs = None \<Longrightarrow> P y \<Longrightarrow> find P (xs @ [y]) = Some y"
  by (induction xs) (auto split: if_split_asm)

lemma place_merge_hold_stands:
  assumes "place_merge_hold v project fid sha names why s = Inr (i, t)"
  shows "\<exists>h. open_merge_hold project t = Some h \<and> mh_sha h = sha \<and> mh_checks h = names"
proof -
  define u where "u = (case open_merge_hold project s of None \<Rightarrow> s
     | Some h \<Rightarrow> snd (end_merge_hold v (mh_id h) (SUPERSEDED @ take 12 sha) s))"
  have free: "open_merge_hold project u = None"
    and t: "holds t = holds u @ [\<lparr>mh_id = next_id mh_id (holds u), mh_project = project, mh_sha = sha,
      mh_checks = names, mh_firing = fid, mh_held = clock v, mh_ended = None, mh_reason = None\<rparr>]"
    using assms by (auto simp: place_merge_hold_def Let_def u_def [symmetric] update_firings_def split: if_split_asm)
  show ?thesis
    using find_append_fresh [OF free [unfolded open_merge_hold_def]] by (simp add: open_merge_hold_def t)
qed

lemma hold_act_stands: "hold_act cx v sha names why detail s = Inr t \<Longrightarrow> same_hold sha names (open_merge_hold (cx_project cx) t)"
  by (auto simp: hold_act_def same_hold_def split: if_split_asm dest!: place_merge_hold_stands)

lemma hold_merges_stands:
  assumes "hold_merges cx v None checks s = Inr t" and "wc_mode (cx_watch cx) = WAct"
    and "mc_state checks = MainFailure" and "mc_sha checks = Some sha" and "red_required checks \<noteq> []"
  shows "same_hold sha (red_required checks) (open_merge_hold (cx_project cx) t)"
    and "hold_merges cx v' None checks t = Inr t"
proof -
  have ok: "act_refusal MAIN_WATCH (Some HOLD_MERGES) = None"
    by (auto simp: refusal_None_iff CAPABILITIES_def)
  from assms show "same_hold sha (red_required checks) (open_merge_hold (cx_project cx) t)"
    by (auto simp: hold_merges_def Let_def ok dest: hold_act_stands)
  then show "hold_merges cx v' None checks t = Inr t"
    using assms by (simp add: hold_merges_def Let_def ok hold_act_def)
qed

subsection \<open>What a release sends back\<close>

lemma release_one_kept:
  assumes "release_one v why fid r (rel, lft, s) = Inr (rel', lft', t)"
  shows "(left_reason r = None \<and> rel' = rel @ [hr_identifier r] \<and> lft' = lft)
    \<or> (rel' = rel \<and> t = s \<and> (\<exists>reason. lft' = lft @ [(hr_identifier r, reason)]
        \<and> (\<forall>x. left_reason r = Some x \<longrightarrow> reason = x)))"
  using assms by (auto simp: release_one_def split: option.split_asm sum.split_asm err.split_asm)

lemma release_fold_exact:
  "foldE (release_one v why fid) rs (rel, lft, s) = Inr (rel', lft', t) \<Longrightarrow>
   \<exists>sent kept. rel' = rel @ map hr_identifier sent \<and> map fst lft' = map fst lft @ map hr_identifier kept
     \<and> length rs = length sent + length kept \<and> hr_identifier ` set rs = hr_identifier ` (set sent \<union> set kept)
     \<and> set sent \<subseteq> {r \<in> set rs. left_reason r = None}
     \<and> (kept = rs \<longrightarrow> t = s)"
proof (induction rs arbitrary: rel lft s)
  case Nil
  then show ?case by (intro exI [of _ "[]"]) simp
next
  case (Cons r rs)
  then obtain rel1 lft1 u where one: "release_one v why fid r (rel, lft, s) = Inr (rel1, lft1, u)"
      and rest: "foldE (release_one v why fid) rs (rel1, lft1, u) = Inr (rel', lft', t)"
    by auto
  from Cons.IH [OF rest] obtain sent kept where k: "rel' = rel1 @ map hr_identifier sent"
      "map fst lft' = map fst lft1 @ map hr_identifier kept"
      "length rs = length sent + length kept" "hr_identifier ` set rs = hr_identifier ` (set sent \<union> set kept)"
      "set sent \<subseteq> {r \<in> set rs. left_reason r = None}" "kept = rs \<longrightarrow> t = u"
    by blast
  from release_one_kept [OF one] show ?case
  proof
    assume "left_reason r = None \<and> rel1 = rel @ [hr_identifier r] \<and> lft1 = lft"
    then show ?thesis using k
      by (intro exI [of _ "r # sent"] exI [of _ kept]) (auto dest: arg_cong [of _ _ length])
  next
    assume "rel1 = rel \<and> u = s \<and> (\<exists>reason. lft1 = lft @ [(hr_identifier r, reason)]
        \<and> (\<forall>x. left_reason r = Some x \<longrightarrow> reason = x))"
    with k show ?thesis by (intro exI [of _ sent] exI [of _ "r # kept"]) auto
  qed
qed

lemma end_merge_hold_ends:
  "open_merge_hold project s = Some h \<Longrightarrow> keyed mh_id (holds s) \<Longrightarrow>
   map_option mh_ended (fetch mh_id (mh_id h) (holds (snd (end_merge_hold v (mh_id h) why s)))) = Some (Some (clock v))"
proof -
  assume open_h: "open_merge_hold project s = Some h" and keyed: "keyed mh_id (holds s)"
  then have h: "h \<in> set (holds s)" "mh_ended h = None" by (auto simp: open_merge_hold_def find_Some_iff)
  from fetch_member [OF keyed h(1)] h(2) show ?thesis
    by (simp add: end_merge_hold_def Let_def fetch_modify)
qed

end
