(* ===== verification/MergeHold.thy ===== *)
theory MergeHold
  imports MainWatch
begin

section \<open>MergeHold: the merge gate while main is red\<close>

text \<open>
  \<^verbatim>\<open>holophyte/automation/merge_hold.py\<close>: while a merge hold of the main watch stands, only a candidate
  that carries the red commit and passes the checks it failed may merge. The project's config and
  the host's table are read again at the gate (\<open>Inl\<close> when they no longer read); \<open>git\<close> answers the
  commands run in the worktree, in the order a call makes them.

  The lemmas: the gate lets a candidate pass only when no hold stands or both conditions hold, and
  says so in the run's log either way.
\<close>

record gate_cx =
  gt_get :: get
  gt_git :: "string list \<Rightarrow> gh_run"
  gt_config :: "string + watch_config"
  gt_listed :: "string + string list"
  gt_switch :: file_read

definition stopped :: "gate_cx \<Rightarrow> watch_config \<Rightarrow> pull \<Rightarrow> store \<Rightarrow> bool" where
  "stopped cx watch p s \<longleftrightarrow>
     wc_mode watch \<noteq> WAct \<or> unapproved watch REVISION \<noteq> None
     \<or> (case gt_listed cx of
          Inl _ \<Rightarrow> True
        | Inr listed \<Rightarrow> report_only_reason p listed \<noteq> None \<or> inhibitor (gt_switch cx) MAIN_WATCH s \<noteq> None)"

text \<open>\<open>None\<close> as the run stands for a call without a connection or a run id.\<close>

definition standing_hold :: "gate_cx \<Rightarrow> nat option \<Rightarrow> pull \<Rightarrow> store \<Rightarrow> hold_row option" where
  "standing_hold cx rid p s =
     (case Option.bind rid (\<lambda>k. run_of k s) of
        None \<Rightarrow> None
      | Some r \<Rightarrow>
          (case open_merge_hold (r_project r) s of
             None \<Rightarrow> None
           | Some h \<Rightarrow>
               (case gt_config cx of
                  Inl _ \<Rightarrow> None
                | Inr watch \<Rightarrow> if stopped cx watch p s then None else Some h)))"

definition git_answer :: "gate_cx \<Rightarrow> string list \<Rightarrow> gh_error + int \<times> string" where
  "git_answer cx args =
     (case gt_git cx args of
        TimedOut \<Rightarrow> Inl (Infra (''git '' @ join '' '' args @ '' timed out after 120s before the merge hold's check''))
      | Ran code out err \<Rightarrow> Inr (code, py_strip (if err \<noteq> [] then err else out)))"

definition carries :: "gate_cx \<Rightarrow> string \<Rightarrow> string \<Rightarrow> gh_error + bool" where
  "carries cx held sha =
     bindE (git_answer cx [''cat-file'', ''-e'', held @ ''^{commit}'']) (\<lambda>(present, _).
       bindE (if present = 0 then Inr ()
              else bindE (git_answer cx [''fetch'', ''origin'', ''main'']) (\<lambda>(code, said).
                if code \<noteq> 0
                then Inl (Infra (''git fetch origin main failed before the merge hold's check: '' @ said))
                else Inr ())) (\<lambda>_.
         bindE (git_answer cx [''merge-base'', ''--is-ancestor'', held, sha]) (\<lambda>(code, said).
           if code \<noteq> 0 \<and> code \<noteq> 1
           then Inl (Infra (''git merge-base --is-ancestor '' @ take 12 held @ '' '' @ take 12 sha
                  @ '' failed before the merge hold's check: '' @ said))
           else Inr (code = 0))))"

definition latest_runs :: "json list \<Rightarrow> (json \<times> json) list" where
  "latest_runs reads =
     rev (map (\<lambda>r. (jget ''name'' r, r)) (sort_key (\<lambda>r. case jget ''id'' r of JInt i \<Rightarrow> i | _ \<Rightarrow> 0) reads))"

definition all_passed :: "json list \<Rightarrow> string list \<Rightarrow> bool" where
  "all_passed reads names \<longleftrightarrow>
     list_all (\<lambda>name. case map_of (latest_runs reads) (JStr name) of
         None \<Rightarrow> False
       | Some r \<Rightarrow> completed r \<and> jget ''conclusion'' r = JStr ''success'') names"

definition passes :: "gate_cx \<Rightarrow> pull \<Rightarrow> string \<Rightarrow> string list \<Rightarrow> (gh_error + bool) option" where
  "passes cx p sha names =
     map_option (\<lambda>read. bindE read (\<lambda>reads.
       case reads of
         None \<Rightarrow> Inl (Infra (''GitHub answered an unreadable check read at '' @ take 12 sha @ ''; the merge hold's check waits''))
       | Some rs \<Rightarrow> Inr (all_passed rs names)))
     (check_runs_of (gt_get cx) p sha)"

text \<open>\<^verbatim>\<open>carries(...) and passes(...)\<close>: the checks are read only for a candidate that carries the commit.\<close>

definition may_pass :: "gate_cx \<Rightarrow> pull \<Rightarrow> string \<Rightarrow> hold_row \<Rightarrow> (gh_error + bool) option" where
  "may_pass cx p sha h =
     (case carries cx (mh_sha h) sha of
        Inl e \<Rightarrow> Some (Inl e)
      | Inr False \<Rightarrow> Some (Inr False)
      | Inr True \<Rightarrow> passes cx p sha (mh_checks h))"

definition passed_text :: "string \<Rightarrow> hold_row \<Rightarrow> string" where
  "passed_text sha h =
     ''the candidate at '' @ take 12 sha @ '' carries main's red commit '' @ take 12 (mh_sha h)
     @ '' and passes '' @ join '', '' (mh_checks h)"

definition waits_text :: "string \<Rightarrow> hold_row \<Rightarrow> string" where
  "waits_text sha h = ''the candidate at '' @ take 12 sha @ '' waits on the merge hold at '' @ take 12 (mh_sha h)"

definition held_text :: "hold_row \<Rightarrow> string" where
  "held_text h =
     ''main is red at '' @ take 12 (mh_sha h) @ '' ('' @ join '', '' (mh_checks h) @ ''); merges wait for it to go green''"

definition hold_payload :: "hold_row \<Rightarrow> payload option" where
  "hold_payload h = Some (PDoc (JObj [(''hold'', JInt (int (mh_id h)))]))"

definition logged_answer ::
    "env \<Rightarrow> nat \<Rightarrow> string \<Rightarrow> string \<Rightarrow> hold_row \<Rightarrow> string option \<Rightarrow> store \<Rightarrow> stop + string option \<times> store" where
  "logged_answer v rid kind summary h answer s =
     (case record_event v rid kind summary EL_DETAIL (hold_payload h) s of
        Inl e \<Rightarrow> Inl (StoreStop e) | Inr (_, s) \<Rightarrow> Inr (answer, s))"

definition gate_answer ::
    "env \<Rightarrow> nat \<Rightarrow> string \<Rightarrow> hold_row \<Rightarrow> store \<Rightarrow> gh_error + bool \<Rightarrow> stop + string option \<times> store" where
  "gate_answer v rid sha h s answer =
     (case answer of
        Inl e \<Rightarrow> Inl (GithubStop e)
      | Inr pass \<Rightarrow>
          if pass then logged_answer v rid ''main_hold_passed'' (passed_text sha h) h None s
          else logged_answer v rid ''main_hold_parked'' (waits_text sha h) h (Some (held_text h)) s)"

definition held_merge ::
    "gate_cx \<Rightarrow> env \<Rightarrow> nat option \<Rightarrow> string \<Rightarrow> pull \<Rightarrow> store \<Rightarrow> (stop + string option \<times> store) option" where
  "held_merge cx v rid sha p s =
     (case (rid, standing_hold cx rid p s) of
        (Some k, Some h) \<Rightarrow> map_option (gate_answer v k sha h s) (may_pass cx p sha h)
      | _ \<Rightarrow> Some (Inr (None, s)))"

subsection \<open>What passes\<close>

lemma standing_hold_open:
  assumes "standing_hold cx rid p s = Some h"
  shows "\<exists>k r. rid = Some k \<and> run_of k s = Some r \<and> open_merge_hold (r_project r) s = Some h
    \<and> (\<exists>watch. gt_config cx = Inr watch \<and> wc_mode watch = WAct \<and> wc_revision watch = Some (int REVISION))
    \<and> inhibitor (gt_switch cx) MAIN_WATCH s = None"
proof -
  obtain k r where k: "rid = Some k" "run_of k s = Some r" "open_merge_hold (r_project r) s = Some h"
    using assms by (auto simp: standing_hold_def bind_eq_Some_conv split: option.split_asm sum.split_asm if_split_asm)
  from assms k have "\<exists>watch. gt_config cx = Inr watch \<and> \<not> stopped cx watch p s"
    by (auto simp: standing_hold_def split: sum.split_asm if_split_asm)
  with k show ?thesis
    by (auto simp: stopped_def unapproved_def split: sum.split_asm if_split_asm)
qed

lemma all_passed_iff:
  "all_passed reads names \<longleftrightarrow>
     (\<forall>name \<in> set names. \<exists>r. map_of (latest_runs reads) (JStr name) = Some r
        \<and> completed r \<and> jget ''conclusion'' r = JStr ''success'')"
  by (auto simp: all_passed_def list_all_iff split: option.split)

lemma may_pass_True:
  "may_pass cx p sha h = Some (Inr True) \<longleftrightarrow>
     carries cx (mh_sha h) sha = Inr True
     \<and> (\<exists>rs. check_runs_of (gt_get cx) p sha = Some (Inr (Some rs)) \<and> all_passed rs (mh_checks h))"
  by (auto simp: may_pass_def passes_def split: sum.split bool.split option.split_asm)

lemma logged_answer_Inr:
  "logged_answer v k kind summary h answer s = Inr (a, t) \<Longrightarrow> a = answer \<and> safe s t"
  by (auto simp: logged_answer_def split: sum.split_asm dest: record_event_safe)

lemma gate_answer_Inr:
  "gate_answer v k sha h s answer = Inr (a, t) \<Longrightarrow> safe s t \<and> (a = None \<longleftrightarrow> answer = Inr True)"
  by (auto simp: gate_answer_def split: sum.split_asm if_split_asm dest: logged_answer_Inr)

lemma held_merge_passes:
  assumes "held_merge cx v rid sha p s = Some (Inr (None, t))" and "standing_hold cx rid p s = Some h"
  shows "carries cx (mh_sha h) sha = Inr True
    \<and> (\<exists>rs. check_runs_of (gt_get cx) p sha = Some (Inr (Some rs)) \<and> all_passed rs (mh_checks h))"
proof -
  obtain k where "rid = Some k" using standing_hold_open [OF assms(2)] by blast
  then have "may_pass cx p sha h = Some (Inr True)"
    using assms by (auto simp: held_merge_def dest!: gate_answer_Inr)
  then show ?thesis by (simp add: may_pass_True)
qed

lemma held_merge_free: "standing_hold cx rid p s = None \<Longrightarrow> held_merge cx v rid sha p s = Some (Inr (None, s))"
  by (cases rid) (simp_all add: held_merge_def)

lemma held_merge_safe: "held_merge cx v rid sha p s = Some (Inr (a, t)) \<Longrightarrow> safe s t"
  by (auto simp: held_merge_def split: option.split_asm dest!: gate_answer_Inr)

end
