(* ===== verification/Worker.thy ===== *)
theory Worker
  imports MergeHold
begin

section \<open>Worker: an act firing's worker and the sweep's step\<close>

text \<open>
  \<^verbatim>\<open>holophyte/automation/worker.py\<close> and \<^verbatim>\<open>step.py\<close>. The sweep leases a firing to a worker process; the
  worker takes the lease, reads the switch, the pause, the config, the host's list and the run's
  attempt again, and sends one rerun under the store's lock. The sweep settles the firings whose
  lease ran out, reads back what GitHub did, and goes round the projects so that a pass that was
  cut starts where it stopped.

  A \<open>world\<close> is what the worker reads outside the store at one moment; a run reads it twice, since
  anything may change between the first check and the send, the store included. The lemmas: a rerun
  is sent only if, at the send, every guard holds and the firing is still leased to this worker;
  a firing whose rerun was answered never sends another; the sweep's passes leave no project out.
\<close>

record world =
  wd_switch :: file_read
  wd_config :: "string + watch_config"
  wd_host :: "string + string list"
  wd_pull :: "pull option"

subsection \<open>What still stands\<close>

definition mode_name :: "watch_mode \<Rightarrow> string" where
  "mode_name m = (case m of WOff \<Rightarrow> ''off'' | WDryRun \<Rightarrow> ''dry_run'' | WAct \<Rightarrow> ''act'')"

definition config_change :: "world \<Rightarrow> firing_row \<Rightarrow> string option" where
  "config_change w f =
     (let table = ''[automations.'' @ fr_automation f @ '']'' in
      case wd_config w of
        Inl bad \<Rightarrow> Some (''the config no longer reads: '' @ bad)
      | Inr watch \<Rightarrow>
          if wc_mode watch \<noteq> WAct then Some (table @ '' mode is now '' @ mode_name (wc_mode watch))
          else if unapproved watch REVISION \<noteq> None then unapproved watch REVISION
          else if wc_revision watch \<noteq> Some (int (fr_revision f))
          then Some (table @ '' revision is now '' @ (case wc_revision watch of None \<Rightarrow> ''None'' | Some n \<Rightarrow> str_int n)
                 @ '', not rule revision '' @ str_nat (fr_revision f))
          else None)"

definition report_only_listing :: "world \<Rightarrow> string option" where
  "report_only_listing w =
     (case wd_host w of
        Inl bad \<Rightarrow> Some (''the host config no longer reads: '' @ bad)
      | Inr listed \<Rightarrow> Option.bind (wd_pull w) (\<lambda>p. report_only_reason p listed))"

definition firing_action :: "firing_row \<Rightarrow> string option" where
  "firing_action f = Option.bind (map_of (fr_detail f) ''action'') jstr"

text \<open>\<^verbatim>\<open>a or b or c\<close> of texts that are \<^verbatim>\<open>None\<close> or not empty.\<close>

fun first_reason :: "string option list \<Rightarrow> string option" where
  "first_reason [] = None"
| "first_reason (Some why # xs) = Some why"
| "first_reason (None # xs) = first_reason xs"

definition standing_refusal :: "world \<Rightarrow> firing_row \<Rightarrow> store \<Rightarrow> (firing_state \<times> string) option" where
  "standing_refusal w f s =
     (case first_reason [inhibitor (wd_switch w) (fr_automation f) s, config_change w f, report_only_listing w] of
        Some why \<Rightarrow> Some (FS_CANCELED, why)
      | None \<Rightarrow> map_option (Pair FS_REFUSED) (act_refusal (fr_automation f) (firing_action f)))"

subsection \<open>One worker\<close>

text \<open>\<^verbatim>\<open>Worker.settle\<close>; \<open>None\<close> leaves the detail as it is.\<close>

definition worker_settle ::
    "env \<Rightarrow> firing_row \<Rightarrow> firing_state \<Rightarrow> string \<Rightarrow> (string \<times> json) list option \<Rightarrow> store \<Rightarrow> err + store" where
  "worker_settle v f state reason detail s =
     bindE (settle_firing v (fr_id f) (fr_pid f) state reason detail s) (\<lambda>(won, s).
       Inr (if won then self_pause v (fr_id f) s else s))"

definition settled_if_refused ::
    "env \<Rightarrow> world \<Rightarrow> firing_row \<Rightarrow> string option \<Rightarrow> store \<Rightarrow> err + bool \<times> store" where
  "settled_if_refused v w f refused s =
     (case (case standing_refusal w f s of Some found \<Rightarrow> Some found | None \<Rightarrow> map_option (Pair FS_REFUSED) refused) of
        None \<Rightarrow> Inr (False, s)
      | Some (state, why) \<Rightarrow> bindE (worker_settle v f state why None s) (\<lambda>s. Inr (True, s)))"

definition still_leased :: "firing_row \<Rightarrow> store \<Rightarrow> bool" where
  "still_leased f s \<longleftrightarrow>
     (case firing (fr_id f) s of None \<Rightarrow> False | Some r \<Rightarrow> fr_state r = FS_LEASED \<and> fr_pid r = fr_pid f)"

text \<open>The workflow run and its attempt at detection, which every act firing of a rerun records.\<close>

definition firing_run :: "firing_row \<Rightarrow> nat" where
  "firing_run f = (case map_of (fr_detail f) ''workflow_run_id'' of Some (JInt n) \<Rightarrow> nat n | _ \<Rightarrow> 0)"

definition firing_attempt :: "firing_row \<Rightarrow> int" where
  "firing_attempt f = (case map_of (fr_detail f) ''run_attempt'' of Some (JInt n) \<Rightarrow> n | _ \<Rightarrow> 0)"

definition attempt_refusal :: "get \<Rightarrow> world \<Rightarrow> firing_row \<Rightarrow> gh_error + string option" where
  "attempt_refusal get w f =
     (case wd_pull w of
        None \<Rightarrow> Inr (Some ''the project has no GitHub origin'')
      | Some p \<Rightarrow>
          (case workflow_run_attempt get p (firing_run f) of
             Inl (Infra bad) \<Rightarrow> Inr (Some (''GitHub refused the read: '' @ bad))
           | Inl e \<Rightarrow> Inl e
           | Inr attempt \<Rightarrow>
               Inr (if firing_attempt f < attempt
                    then Some (''workflow run '' @ str_nat (firing_run f) @ '' is at attempt '' @ str_int attempt
                      @ '', past attempt '' @ str_int (firing_attempt f) @ '' seen at detection; someone reran it already'')
                    else None)))"

definition GITHUB_REFUSAL :: re where
  "GITHUB_REFUSAL = alts [seq [Bnd, lit ''HTTP 4'', digit, digit, Bnd],
     seq [Bol False, lit ''GitHub refused '', star dot, lit '' (4'', digit, digit, lit ''):'']]"

text \<open>
  \<^verbatim>\<open>Worker.run\<close> from its second transaction on: whether the rerun was sent, and the store. \<open>answer\<close>
  is what GitHub answers to the POST of \<^verbatim>\<open>rerun_failed_jobs\<close>.
\<close>

definition rerun_settled ::
    "env \<Rightarrow> firing_row \<Rightarrow> gh_error + json \<Rightarrow> store \<Rightarrow> stop + store" where
  "rerun_settled v f answer s =
     (case (case answer of
              Inl (Infra bad) \<Rightarrow> Inr (worker_settle v f FS_REFUSED (''GitHub refused the rerun: '' @ bad)
                (Some (assoc_put ''github_refused'' (JBool (searches GITHUB_REFUSAL bad)) (fr_detail f))) s)
            | Inl e \<Rightarrow> Inl e
            | Inr _ \<Rightarrow> Inr (worker_settle v f FS_CONFIRMED
                (''reran the failed jobs of workflow run '' @ str_nat (firing_run f) @ '' at '' @ firing_sha f
                 @ '', attempt '' @ str_int (firing_attempt f + 1))
                (Some (assoc_put ''rerun_attempt'' (JInt (firing_attempt f + 1)) (fr_detail f))) s)) of
        Inl e \<Rightarrow> Inl (GithubStop e)
      | Inr (Inl e) \<Rightarrow> Inl (StoreStop e)
      | Inr (Inr s) \<Rightarrow> Inr s)"

definition worker_send ::
    "env \<Rightarrow> world \<Rightarrow> gh_error + json \<Rightarrow> string option \<Rightarrow> firing_row \<Rightarrow> store \<Rightarrow> bool \<times> (stop + store)" where
  "worker_send v w answer refused f s =
     (case settled_if_refused v w f refused s of
        Inl e \<Rightarrow> (False, Inl (StoreStop e))
      | Inr (True, s) \<Rightarrow> (False, Inr s)
      | Inr (False, s) \<Rightarrow>
          if \<not> still_leased f s then (False, Inr s) else (True, rerun_settled v f answer s))"

text \<open>\<open>between\<close> is what others do to the store between the two transactions.\<close>

definition worker_run ::
    "env \<Rightarrow> get \<Rightarrow> world \<Rightarrow> world \<Rightarrow> gh_error + json \<Rightarrow> (store \<Rightarrow> store) \<Rightarrow> firing_row \<Rightarrow> store \<Rightarrow> bool \<times> (stop + store)" where
  "worker_run v get first later answer between f s =
     (case settled_if_refused v first f None s of
        Inl e \<Rightarrow> (False, Inl (StoreStop e))
      | Inr (True, s) \<Rightarrow> (False, Inr s)
      | Inr (False, s) \<Rightarrow>
          (case attempt_refusal get first f of
             Inl e \<Rightarrow> (False, Inl (GithubStop e))
           | Inr refused \<Rightarrow> worker_send v later answer refused f (between s)))"

definition automation_firing_mode ::
    "env \<Rightarrow> get \<Rightarrow> world \<Rightarrow> world \<Rightarrow> gh_error + json \<Rightarrow> (store \<Rightarrow> store) \<Rightarrow> nat \<Rightarrow> store \<Rightarrow> bool \<times> (stop + store)" where
  "automation_firing_mode v get first later answer between fid s =
     (case take_firing v fid (process_id v) s of
        (None, s) \<Rightarrow> (False, Inr s)
      | (Some f, s) \<Rightarrow> worker_run v get first later answer between f s)"

subsection \<open>Firings the sweep finds\<close>

definition project_reruns :: "nat \<Rightarrow> firing_state \<Rightarrow> store \<Rightarrow> firing_row list" where
  "project_reruns project state s =
     filter (\<lambda>r. fr_project r = project \<and> fr_state r = state \<and> fr_automation r = MAIN_WATCH
       \<and> firing_action r = Some RERUN_FAILED_JOBS) (all_firings (- 1) s)"

definition NO_WORKER :: string where "NO_WORKER = ''no worker took the firing after one replay''"
definition UNSENT :: string where "UNSENT = ''the worker ended before its rerun reached GitHub''"

definition read_back :: "env \<Rightarrow> get \<Rightarrow> pull \<Rightarrow> firing_row \<Rightarrow> store \<Rightarrow> stop + store" where
  "read_back v get p f s =
     (case (case workflow_run_attempt get p (firing_run f) of
              Inl (Infra bad) \<Rightarrow> Inr (FS_UNKNOWN, ''the worker ended and workflow run '' @ str_nat (firing_run f)
                @ '' could not be read back: '' @ bad, None)
            | Inl e \<Rightarrow> Inl e
            | Inr attempt \<Rightarrow>
                Inr (if firing_attempt f < attempt
                     then (FS_CONFIRMED, ''read back workflow run '' @ str_nat (firing_run f) @ '' at '' @ firing_sha f
                         @ '', attempt '' @ str_int attempt,
                       Some (assoc_put ''rerun_attempt'' (JInt attempt) (assoc_put ''read_back'' (JBool True) (fr_detail f))))
                     else (FS_CANCELED, UNSENT, None))) of
        Inl e \<Rightarrow> Inl (GithubStop e)
      | Inr (state, reason, written) \<Rightarrow>
          (case settle_firing v (fr_id f) (fr_pid f) state reason written s of
             Inl e \<Rightarrow> Inl (StoreStop e) | Inr (_, s) \<Rightarrow> Inr s))"

definition settle_one :: "env \<Rightarrow> get \<Rightarrow> pull \<Rightarrow> firing_row \<Rightarrow> nat list \<times> store \<Rightarrow> stop + nat list \<times> store" where
  "settle_one v get p f state =
     (let (taken, s) = state in
      case fr_lease f of
        None \<Rightarrow> Inr (taken, s)
      | Some until \<Rightarrow>
          if clock v < until then Inr (taken, s)
          else if fr_pid f \<noteq> None then bindE (read_back v get p f s) (\<lambda>s. Inr (taken, s))
          else if 1 \<le> replays (fr_detail f)
          then (case settle_firing v (fr_id f) None FS_CANCELED NO_WORKER None s of
                  Inl e \<Rightarrow> Inl (StoreStop e) | Inr (_, s) \<Rightarrow> Inr (taken, s))
          else (case replay_firing v (fr_id f) (clock v + LEASE_MS) s of
                  (True, s) \<Rightarrow> Inr (taken @ [fr_id f], s) | (False, s) \<Rightarrow> Inr (taken, s)))"

text \<open>A failure stops the loop and keeps what it has done: the firings before it are settled.\<close>

fun until_stop :: "('a \<Rightarrow> 's \<Rightarrow> stop + 's) \<Rightarrow> 'a list \<Rightarrow> 's \<Rightarrow> stop option \<times> 's" where
  "until_stop f [] s = (None, s)"
| "until_stop f (x # xs) s = (case f x s of Inl e \<Rightarrow> (Some e, s) | Inr s' \<Rightarrow> until_stop f xs s')"

definition settle_expired :: "env \<Rightarrow> get \<Rightarrow> pull \<Rightarrow> nat \<Rightarrow> nat list \<times> store \<Rightarrow> stop option \<times> nat list \<times> store" where
  "settle_expired v get p project state =
     until_stop (settle_one v get p) (project_reruns project FS_LEASED (snd state)) state"

text \<open>\<open>None\<close> of \<open>result_of\<close>'s value is a read of check runs that never ends.\<close>

definition result_recorded :: "env \<Rightarrow> firing_row \<Rightarrow> (string \<times> string \<times> string list) option \<Rightarrow> store \<Rightarrow> store" where
  "result_recorded v f found s =
     (case found of
        None \<Rightarrow> s
      | Some (result, reason, names) \<Rightarrow>
          (case record_result v (fr_id f) result reason names s of
             (True, s) \<Rightarrow> self_pause v (fr_id f) s | (False, s) \<Rightarrow> s))"

fun read_results_of ::
    "env \<Rightarrow> get \<Rightarrow> pull \<Rightarrow> string \<Rightarrow> string option \<Rightarrow> firing_row list \<Rightarrow> store \<Rightarrow> (stop option \<times> store) option" where
  "read_results_of v get p head green [] s = Some (None, s)"
| "read_results_of v get p head green (f # fs) s =
     (if map_of (fr_detail f) ''result'' \<noteq> None then read_results_of v get p head green fs s
      else case result_of get p f head green of
          None \<Rightarrow> None
        | Some (Inl (Infra _)) \<Rightarrow> read_results_of v get p head green fs s
        | Some (Inl e) \<Rightarrow> Some (Some (GithubStop e), s)
        | Some (Inr found) \<Rightarrow> read_results_of v get p head green fs (result_recorded v f found s))"

definition read_results ::
    "env \<Rightarrow> get \<Rightarrow> pull \<Rightarrow> nat \<Rightarrow> main_checks \<Rightarrow> string option \<Rightarrow> store \<Rightarrow> (stop option \<times> store) option" where
  "read_results v get p project checks green s =
     (case mc_sha checks of
        None \<Rightarrow> Some (None, s)
      | Some head \<Rightarrow> read_results_of v get p head green (project_reruns project FS_CONFIRMED s) s)"

subsection \<open>One project's pass\<close>

text \<open>The pass after the reading of main: the watch acts, and a green main releases.\<close>

definition watch_and_release :: "watch_cx \<Rightarrow> env \<Rightarrow> main_checks \<Rightarrow> bool \<Rightarrow> watching \<Rightarrow> stop option \<times> watching" where
  "watch_and_release cx v checks green w =
     (case (if automation_pause MAIN_WATCH (wt_store w) = None then observe cx v checks w else (None, w)) of
        (Some e, w) \<Rightarrow> (Some e, w)
      | (None, w) \<Rightarrow>
          if green
          then (case release_held_merges cx v (case mc_sha checks of None \<Rightarrow> [] | Some x \<Rightarrow> x) (wt_store w) of
                  Inl e \<Rightarrow> (Some (StoreStop e), w) | Inr (_, s) \<Rightarrow> (None, w\<lparr>wt_store := s\<rparr>))
          else (None, w))"

text \<open>
  \<^verbatim>\<open>observe_store\<close> for a project with a row and an origin: what stopped it, its state and the last
  green head of main.
\<close>

definition observe_store ::
    "watch_cx \<Rightarrow> env \<Rightarrow> string option \<Rightarrow> watching \<Rightarrow> (stop option \<times> watching \<times> string option) option" where
  "observe_store cx v green w =
     (case settle_expired v (cx_get cx) (cx_pull cx) (cx_project cx) (wt_leased w, wt_store w) of
        (Some e, taken, s) \<Rightarrow> Some (Some e, w\<lparr>wt_leased := taken, wt_store := s\<rparr>, green)
      | (None, taken, s) \<Rightarrow>
          Option.bind (main_reading (cx_get cx) (Some (cx_pull cx))) (\<lambda>(checks, required_green).
            Option.bind (read_results v (cx_get cx) (cx_pull cx) (cx_project cx) checks green s) (\<lambda>(bad, s).
              let w = w\<lparr>wt_leased := taken, wt_store := s\<rparr> in
              case bad of
                Some e \<Rightarrow> Some (Some e, w, green)
              | None \<Rightarrow>
                  (let (bad, w) = watch_and_release cx v checks required_green w
                   in Some (bad, w, if required_green then mc_sha checks else green)))))"

subsection \<open>The round of projects\<close>

text \<open>
  \<^verbatim>\<open>run_automations\<close>' round: \<open>order\<close> is the projects from the cursor on, each with whether the pass
  had time for it and whether it was cut or failed. The result is the projects visited and the next
  cursor; \<open>after_cut\<close> is the project after the last one cut.
\<close>

fun round_from ::
    "string list \<Rightarrow> (string \<Rightarrow> bool) \<Rightarrow> (string \<Rightarrow> bool) \<Rightarrow> string \<Rightarrow> string option \<Rightarrow> string list \<Rightarrow> string list \<times> string" where
  "round_from names late bad second after_cut [] =
     ([], case after_cut of None \<Rightarrow> second | Some name \<Rightarrow> name)"
| "round_from names late bad second after_cut (name # rest) =
     (if late name then ([], name)
      else
        (let follower = (case rest of next # _ \<Rightarrow> next | [] \<Rightarrow> hd names);
             round = round_from names late bad second (if bad name then Some follower else after_cut) rest
         in (name # fst round, snd round)))"

definition round_order :: "string list \<Rightarrow> string option \<Rightarrow> string list" where
  "round_order names cursor =
     (let start = (case cursor of
            Some c \<Rightarrow> if c \<in> set names then length (takeWhile (\<lambda>n. n \<noteq> c) names) else 0 | None \<Rightarrow> 0)
      in drop start names @ take start names)"

definition automation_round ::
    "string list \<Rightarrow> (string \<Rightarrow> bool) \<Rightarrow> (string \<Rightarrow> bool) \<Rightarrow> string option \<Rightarrow> string list \<times> string option" where
  "automation_round names late bad cursor =
     (if names = [] then ([], cursor)
      else
        (let order = round_order names cursor; second = (if length order = 1 then hd order else order ! 1);
             (visited, next) = round_from order late bad second None order
         in (visited, Some next)))"

subsection \<open>Every step is a step of the store\<close>

lemma worker_settle_safe: "worker_settle v f st why d s = Inr t \<Longrightarrow> safe s t"
  by (auto simp: worker_settle_def dest!: settle_firing_safe split: if_split_asm intro: safe_trans)

lemma settled_if_refused_safe: "settled_if_refused v w f refused s = Inr (b, t) \<Longrightarrow> safe s t"
  by (auto simp: settled_if_refused_def split: option.split_asm prod.split_asm dest: worker_settle_safe)

lemma rerun_settled_safe: "rerun_settled v f answer s = Inr t \<Longrightarrow> safe s t"
  by (auto simp: rerun_settled_def split: sum.split_asm gh_error.split_asm dest: worker_settle_safe)

lemma worker_send_safe: "worker_send v w answer refused f s = (sent, Inr t) \<Longrightarrow> safe s t"
  by (auto simp: worker_send_def split: sum.split_asm prod.split_asm bool.split_asm if_split_asm
      dest!: settled_if_refused_safe rerun_settled_safe intro: safe_trans)

lemma read_back_safe: "read_back v get p f s = Inr t \<Longrightarrow> safe s t"
  by (auto simp: read_back_def split: sum.split_asm prod.split_asm dest: settle_firing_safe)

lemma replay_firing_step: "replay_firing v fid until s = (b, t) \<Longrightarrow> safe s t"
  using replay_firing_safe by (metis snd_conv)

lemma record_result_step: "record_result v fid res why cs s = (b, t) \<Longrightarrow> safe s t"
  using record_result_safe by (metis snd_conv)

lemma settle_one_safe:
  assumes "settle_one v get p f (l, s) = Inr (l', t)"
  shows "safe s t"
  using assms
  by (auto simp: settle_one_def split: option.split_asm if_split_asm sum.split_asm prod.split_asm bool.split_asm
      dest: read_back_safe settle_firing_safe replay_firing_step)

lemma until_stop_safe:
  assumes "\<And>x l s l' t. f x (l, s) = Inr (l', t) \<Longrightarrow> safe s t"
  shows "safe s (snd (snd (until_stop f xs (l, s))))"
proof (induction xs arbitrary: l s)
  case (Cons x xs)
  then show ?case
    by (cases "f x (l, s)") (auto intro: safe_trans dest: assms)
qed simp

lemma settle_expired_safe: "safe s (snd (snd (settle_expired v get p project (l, s))))"
  unfolding settle_expired_def by (rule until_stop_safe) (rule settle_one_safe)

lemma result_recorded_safe [simp]: "safe s (result_recorded v f found s)"
proof (cases found)
  case (Some r)
  obtain result reason names where r: "r = (result, reason, names)" by (cases r)
  show ?thesis
    by (auto simp: result_recorded_def Some r split: prod.split bool.split dest!: record_result_step intro: safe_trans)
qed (simp add: result_recorded_def)

lemma read_results_of_safe: "read_results_of v get p head green fs s = Some (e, t) \<Longrightarrow> safe s t"
proof (induction fs arbitrary: s)
  case (Cons f fs)
  then show ?case
    by (auto split: if_split_asm option.split_asm sum.split_asm gh_error.split_asm
        intro: safe_trans [OF result_recorded_safe])
qed simp

lemma read_results_safe: "read_results v get p project checks green s = Some (e, t) \<Longrightarrow> safe s t"
  by (auto simp: read_results_def split: option.split_asm dest: read_results_of_safe)

lemma watch_and_release_safe: "watch_and_release cx v checks green w = (e, u) \<Longrightarrow> safe (wt_store w) (wt_store u)"
  using observe_safe [of w cx v checks]
  by (auto simp: watch_and_release_def split: prod.split_asm option.split_asm if_split_asm sum.split_asm
      dest!: release_held_merges_safe intro: safe_trans)

lemma observe_store_safe:
  assumes "observe_store cx v green w = Some (e, u, green')"
  shows "safe (wt_store w) (wt_store u)"
proof -
  obtain e1 l1 s1 where x: "settle_expired v (cx_get cx) (cx_pull cx) (cx_project cx) (wt_leased w, wt_store w) = (e1, l1, s1)"
    by (cases "settle_expired v (cx_get cx) (cx_pull cx) (cx_project cx) (wt_leased w, wt_store w)")
  have s1: "safe (wt_store w) s1" using settle_expired_safe [of "wt_store w" v _ _ _ "wt_leased w"] x by (metis snd_conv)
  show ?thesis
    using assms s1
    by (auto simp: observe_store_def x Let_def bind_eq_Some_conv split: option.split_asm prod.split_asm
        dest!: read_results_safe watch_and_release_safe) (blast intro: safe_trans)+
qed

subsection \<open>When a rerun is sent\<close>

lemma first_reason_None: "first_reason xs = None \<longleftrightarrow> set xs \<subseteq> {None}"
  by (induction xs rule: first_reason.induct) auto

lemma standing_refusal_None:
  assumes "standing_refusal w f s = None"
  shows "\<not> sw_off (read_switch (wd_switch w)) \<and> automation_pause (fr_automation f) s = None
    \<and> (\<exists>watch. wd_config w = Inr watch \<and> wc_mode watch = WAct \<and> wc_revision watch = Some (int REVISION)
        \<and> fr_revision f = REVISION)
    \<and> (\<exists>listed. wd_host w = Inr listed \<and> (\<forall>p. wd_pull w = Some p \<longrightarrow> py_lower (pull_repo p) \<notin> set listed))
    \<and> act_refusal (fr_automation f) (firing_action f) = None"
proof -
  from assms have "inhibitor (wd_switch w) (fr_automation f) s = None" "config_change w f = None"
      "report_only_listing w = None" "act_refusal (fr_automation f) (firing_action f) = None"
    by (auto simp: standing_refusal_def first_reason_None split: option.split_asm)
  then show ?thesis
    by (auto simp: inhibitor_def Let_def config_change_def unapproved_def report_only_listing_def
        report_only_reason_def split: if_split_asm sum.split_asm)
qed

lemma worker_send_only_if:
  assumes "worker_send v w answer refused f s = (True, r)"
  shows "still_leased f s \<and> standing_refusal w f s = None \<and> refused = None \<and> r = rerun_settled v f answer s"
  using assms
  by (auto simp: worker_send_def settled_if_refused_def split: sum.split_asm prod.split_asm bool.split_asm
      if_split_asm option.split_asm)

text \<open>A firing that was sent and answered is settled, so it is never sent again.\<close>

lemma self_pause_firings [simp]: "firings (self_pause v fid s) = firings s"
  by (auto simp: self_pause_def Let_def pause_automation_def split: option.split)

lemma worker_settle_leaves:
  assumes "worker_settle v f state why detail s = Inr t" and "still_leased f s" and "state \<noteq> FS_LEASED"
  shows "\<not> still_leased f t"
proof -
  obtain won u where u: "settle_firing v (fr_id f) (fr_pid f) state why detail s = Inr (won, u)" "firings t = firings u"
    using assms(1) by (auto simp: worker_settle_def split: if_split_asm)
  obtain r where r: "fetch fr_id (fr_id f) (firings s) = Some r" "fr_state r = FS_LEASED" "fr_pid r = fr_pid f"
    using assms(2) by (auto simp: still_leased_def firing_def split: option.split_asm)
  have "map_option fr_state (fetch fr_id (fr_id f) (firings u)) = Some state"
    using u(1) r by (auto simp: settle_firing_def update_firings_def Let_def fetch_modify split: if_split_asm
        dest: fetch_SomeD)
  with u(2) assms(3) show ?thesis by (auto simp: still_leased_def firing_def split: option.split)
qed

lemma rerun_settled_leaves:
  "rerun_settled v f answer s = Inr t \<Longrightarrow> still_leased f s \<Longrightarrow> \<not> still_leased f t"
  by (auto simp: rerun_settled_def split: sum.split_asm gh_error.split_asm dest: worker_settle_leaves)

lemma sent_once:
  assumes "worker_send v w answer refused f s = (True, Inr t)"
  shows "fst (worker_send v' w' answer' refused' f t) = False"
proof (rule ccontr)
  assume "fst (worker_send v' w' answer' refused' f t) \<noteq> False"
  then have "still_leased f t"
    using worker_send_only_if [of v' w' answer' refused' f t] by (metis (full_types) prod.collapse)
  moreover have "still_leased f s" "rerun_settled v f answer s = Inr t" using worker_send_only_if [OF assms] by simp_all
  ultimately show False using rerun_settled_leaves by blast
qed

subsection \<open>The round\<close>

lemma round_visits_prefix:
  "fst (round_from names late bad second c0 order) = takeWhile (\<lambda>n. \<not> late n) order"
  by (induction order arbitrary: c0) (auto simp: Let_def)

lemma round_stops_at:
  "list_ex late order \<Longrightarrow> snd (round_from names late bad second c0 order) = hd (dropWhile (\<lambda>n. \<not> late n) order)"
  by (induction order arbitrary: c0) (auto simp: Let_def)

lemma round_full:
  "\<not> list_ex late order \<Longrightarrow> \<not> list_ex bad order \<Longrightarrow>
   snd (round_from names late bad second c0 order) = (case c0 of None \<Rightarrow> second | Some n \<Rightarrow> n)"
  by (induction order arbitrary: c0) (auto simp: Let_def)

lemma set_rotated: "set (drop n xs @ take n xs) = set xs"
  by (metis Un_commute append_take_drop_id set_append)

lemma set_round_order [simp]: "set (round_order names cursor) = set names"
  unfolding round_order_def Let_def by (rule set_rotated)

end
