(* ===== verification/Consolidate.thy ===== *)
theory Consolidate
  imports Pystr
begin

section \<open>Consolidate: one findings list for the fix turn\<close>

text \<open>
  \<^verbatim>\<open>holophyte/review/consolidate.py\<close>: the findings of the primary reviewer and of the adversary on one
  candidate become one list. Findings that say the same at the same place are merged; an agent may
  then merge differently worded items and order them, by its reply; at most \<open>CONCERN_CAP\<close> concerns
  go to the fix turn. The reply is untrusted text: whatever it is, the lemmas say that no finding is
  dropped, downgraded or invented.

  An item is the dictionary of \<^verbatim>\<open>_item\<close>; items are identified by their place in the list, where the
  code compares object identities. In the second pass an item's id \<^verbatim>\<open>Fn\<close> is the number n, \<open>into\<close> the
  dictionary of merges, newest first. The dashes beyond U+00FF of the patterns match no character here.
\<close>

subsection \<open>Items\<close>

datatype grade = Sev0 | Sev1 | Sev2 | SevNit
datatype evidence = Reproduced | Traced | Reviewed | ConcernOnly
datatype reviewer = Primary | Adversary

primrec severity_rank :: "grade \<Rightarrow> nat" where
  "severity_rank Sev0 = 0" | "severity_rank Sev1 = 1" | "severity_rank Sev2 = 2" | "severity_rank SevNit = 3"

primrec evidence_rank :: "evidence \<Rightarrow> nat" where
  "evidence_rank Reproduced = 0" | "evidence_rank Traced = 1" | "evidence_rank Reviewed = 2" | "evidence_rank ConcernOnly = 3"

lemma severity_rank_inj: "severity_rank a = severity_rank b \<Longrightarrow> a = b"
  by (cases a; cases b) simp_all

lemma evidence_rank_inj: "evidence_rank a = evidence_rank b \<Longrightarrow> a = b"
  by (cases a; cases b) simp_all

text \<open>The order of \<^verbatim>\<open>SEVERITIES\<close> and of \<^verbatim>\<open>EVIDENCE\<close>, the gravest and the strongest first.\<close>

instantiation grade :: linorder
begin
definition less_eq_grade :: "grade \<Rightarrow> grade \<Rightarrow> bool" where "a \<le> b \<longleftrightarrow> severity_rank a \<le> severity_rank b"
definition less_grade :: "grade \<Rightarrow> grade \<Rightarrow> bool" where "a < b \<longleftrightarrow> severity_rank a < severity_rank b"
instance
  by standard (auto simp: less_eq_grade_def less_grade_def dest: severity_rank_inj)
end

instantiation evidence :: linorder
begin
definition less_eq_evidence :: "evidence \<Rightarrow> evidence \<Rightarrow> bool" where "a \<le> b \<longleftrightarrow> evidence_rank a \<le> evidence_rank b"
definition less_evidence :: "evidence \<Rightarrow> evidence \<Rightarrow> bool" where "a < b \<longleftrightarrow> evidence_rank a < evidence_rank b"
instance
  by standard (auto simp: less_eq_evidence_def less_evidence_def dest: evidence_rank_inj)
end

definition severity_name :: "grade \<Rightarrow> string" where
  "severity_name x = (case x of Sev0 \<Rightarrow> ''p0'' | Sev1 \<Rightarrow> ''p1'' | Sev2 \<Rightarrow> ''p2'' | SevNit \<Rightarrow> ''nit'')"

definition evidence_name :: "evidence \<Rightarrow> string" where
  "evidence_name x =
     (case x of Reproduced \<Rightarrow> ''reproduced'' | Traced \<Rightarrow> ''traced'' | Reviewed \<Rightarrow> ''review'' | ConcernOnly \<Rightarrow> ''concern'')"

definition reviewer_name :: "reviewer \<Rightarrow> string" where
  "reviewer_name x = (case x of Primary \<Rightarrow> ''primary'' | Adversary \<Rightarrow> ''adversary'')"

definition severity_of :: "string option \<Rightarrow> grade" where
  "severity_of x =
     (if x = Some ''p0'' then Sev0 else if x = Some ''p1'' then Sev1 else if x = Some ''nit'' then SevNit else Sev2)"

definition evidence_of_name :: "string option \<Rightarrow> evidence" where
  "evidence_of_name x =
     (if x = Some ''reproduced'' then Reproduced else if x = Some ''traced'' then Traced
      else if x = Some ''review'' then Reviewed else ConcernOnly)"

record raw_finding =
  rf_path :: string
  rf_line :: "int option"
  rf_severity :: "string option"
  rf_message :: string
  rf_evidence :: "string option"
  rf_category :: "string option"

type_synonym place = "string \<times> int option"

record item =
  it_path :: string
  it_line :: "int option"
  it_severity :: grade
  it_evidence :: evidence
  it_found_by :: "reviewer list"
  it_messages :: "string list"
  it_places :: "place list"
  it_notes :: "string list"
  it_category :: "string option"

definition CONCERN_CAP :: nat where "CONCERN_CAP = 3"
definition DONE :: string where "DONE = ''CONSOLIDATED''"
definition UNPARSED_PATH :: string where "UNPARSED_PATH = ''(unparsed)''"

subsection \<open>A finding's text\<close>

definition VERDICT_RE :: re where
  "VERDICT_RE = seq [Bol True, star space, lit_i ''VERDICT:'', star dot, alts [ch CHR 10, Eol True]]"

definition EVIDENCE_RE :: re where
  "EVIDENCE_RE = seq [Bol True, star (Chr (\<lambda>c. py_space c \<or> c \<in> set ''>*`_-'')), lit_i ''EVIDENCE'',
     star (any_of ''*`_''), ch CHR '':'']"

definition BULLET_RE :: re where
  "BULLET_RE = seq [Bol False, star space, alts [any_of ''-*+'', seq [plus digit, any_of ''.)'']], plus space]"

definition SEVERITY_TAG_RE :: re where
  "SEVERITY_TAG_RE = seq [Bol False, star (Chr (\<lambda>c. py_space c \<or> c = CHR '':'')), any_of ''[('', star space,
     alts [lit_i ''p0'', lit_i ''p1'', lit_i ''p2'', lit_i ''nit'', lit_i ''blocker''], star space, any_of ''])'', star space]"

definition finding_note :: "raw_finding \<Rightarrow> string" where
  "finding_note f =
     (case re_search EVIDENCE_RE (rf_message f) of None \<Rightarrow> [] | Some m \<Rightarrow> py_strip (f_text m @ f_after m))"

definition or_none :: "int option \<Rightarrow> int option" where
  "or_none line = (if line = Some 0 then None else line)"

definition where_text :: "string \<Rightarrow> int option \<Rightarrow> string" where
  "where_text path line =
     (if py_prefix UNPARSED_PATH path then ''(no location)''
      else case or_none line of None \<Rightarrow> path | Some n \<Rightarrow> path @ '':'' @ str_int n)"

definition without_place :: "raw_finding \<Rightarrow> string \<Rightarrow> string" where
  "without_place f t =
     (case find (\<lambda>p. p \<noteq> [] \<and> py_prefix p t)
         ((case or_none (rf_line f) of None \<Rightarrow> [] | Some n \<Rightarrow> [rf_path f @ '':'' @ str_int n]) @ [rf_path f]) of
        None \<Rightarrow> t | Some p \<Rightarrow> lstrip_of ''`*_'' (drop (length p) t))"

definition finding_body :: "raw_finding \<Rightarrow> string" where
  "finding_body f =
     (let t = (case re_search EVIDENCE_RE (rf_message f) of None \<Rightarrow> rf_message f | Some m \<Rightarrow> f_before m);
          t = lstrip_of ''`*_'' (re_sub_once BULLET_RE [] (re_sub VERDICT_RE (\<lambda>_. []) t));
          t = re_sub_once SEVERITY_TAG_RE [] (without_place f t);
          t = py_rstrip (lstrip_of ('' '' @ [CHR 9] @ '':-'') t)
      in if t = [] then py_strip (rf_message f) else t)"

text \<open>\<^verbatim>\<open>casefold\<close> differs from \<^verbatim>\<open>lower\<close> on the sharp s alone, below U+0100 (the micro sign's fold is no
  character of the model and equals no other).\<close>

definition casefold :: "string \<Rightarrow> string" where
  "casefold s = concat (map (\<lambda>c. if c = CHR 0xDF then ''ss'' else [c]) (py_lower s))"

definition said :: "string \<Rightarrow> string" where
  "said message = casefold (join '' '' (py_words message))"

definition item_of :: "raw_finding \<Rightarrow> reviewer \<Rightarrow> string option \<Rightarrow> item" where
  "item_of f who evidence =
     (let kept = re_sub VERDICT_RE (\<lambda>_. []) (finding_note f); line = or_none (rf_line f)
      in \<lparr>it_path = rf_path f, it_line = line, it_severity = severity_of (rf_severity f),
          it_evidence = evidence_of_name evidence, it_found_by = [who], it_messages = [finding_body f],
          it_places = [(rf_path f, line)], it_notes = (if kept = [] then [] else [kept]),
          it_category = rf_category f\<rparr>)"

definition items :: "raw_finding list \<Rightarrow> raw_finding list \<Rightarrow> item list" where
  "items primary adversary =
     map (\<lambda>f. item_of f Primary (Some ''review'')) primary
     @ map (\<lambda>f. item_of f Adversary (rf_evidence f)) adversary"

definition concern :: "item \<Rightarrow> bool" where
  "concern i \<longleftrightarrow> it_evidence i = ConcernOnly"

definition place_of :: "item \<Rightarrow> place" where
  "place_of i = (it_path i, it_line i)"

subsection \<open>Merging and ordering\<close>

definition or_category :: "string option \<Rightarrow> string option \<Rightarrow> string option" where
  "or_category a b = (if a = None \<or> a = Some [] then b else a)"

definition absorb :: "bool \<Rightarrow> item \<Rightarrow> item \<Rightarrow> item" where
  "absorb messages a b =
     (let a = a\<lparr>it_severity := min (it_severity a) (it_severity b),
                it_evidence := min (it_evidence a) (it_evidence b),
                it_found_by := filter (\<lambda>who. who \<in> set (it_found_by a @ it_found_by b)) [Primary, Adversary],
                it_notes := it_notes a @ filter (\<lambda>x. x \<notin> set (it_notes a)) (it_notes b),
                it_category := or_category (it_category a) (it_category b)\<rparr>
      in if messages
         then a\<lparr>it_messages := it_messages a @ it_messages b, it_places := it_places a @ it_places b\<rparr> else a)"

text \<open>The pair of \<^verbatim>\<open>_rank\<close> as one number.\<close>

definition item_rank :: "item \<Rightarrow> nat" where
  "item_rank i = 2 * severity_rank (it_severity i) + (if Primary \<in> set (it_found_by i) then 0 else 1)"

definition by_place :: "item list \<Rightarrow> item list" where
  "by_place part = concat (map (\<lambda>p. filter (\<lambda>i. place_of i = p) part) (dedup (map place_of part)))"

definition ordered :: "item list \<Rightarrow> item list" where
  "ordered merged =
     by_place (sort_key item_rank (filter (\<lambda>i. \<not> concern i) merged))
     @ by_place (sort_key item_rank (filter concern merged))"

type_synonym said_key = "place \<times> string"

definition said_at :: "item \<Rightarrow> said_key" where
  "said_at i = (place_of i, said (hd (it_messages i)))"

definition merge_said :: "(said_key \<times> item) list \<Rightarrow> item \<Rightarrow> (said_key \<times> item) list" where
  "merge_said merged i =
     assoc_put (said_at i)
       (case map_of merged (said_at i) of None \<Rightarrow> i | Some kept \<Rightarrow> absorb False kept i) merged"

definition exact :: "item list \<Rightarrow> item list" where
  "exact found = ordered (map snd (foldl merge_said [] found))"

subsection \<open>The reply of the second pass\<close>

definition MERGE_RE :: re where
  "MERGE_RE = seq [Bol False, lit_i ''MERGE:'', star space, lit_i ''F'', Grp 1 (plus digit), plus space,
     lit_i ''INTO'', plus space, lit_i ''F'', Grp 2 (plus digit), Bnd, star space,
     maybe (seq [plus (any_of '':-''), star space]), Grp 3 (star dot), Eol False]"

definition ORDER_RE :: re where
  "ORDER_RE = seq [Bol False, lit_i ''ORDER:'', star space, Grp 1 (star dot), Eol False]"

definition ID_RE :: re where "ID_RE = seq [lit_i ''F'', Grp 1 (plus digit)]"

definition bare :: "string \<Rightarrow> string" where
  "bare line = strip_of ''`*_ '' (lstrip_of ''-*+> '' (py_strip line))"

type_synonym merged_into = "(nat \<times> nat) list"

text \<open>\<^verbatim>\<open>_root\<close>'s loop; the fuel is the number of merges, which \<open>root_ends\<close> shows to be enough.\<close>

fun root_in :: "nat \<Rightarrow> merged_into \<Rightarrow> nat \<Rightarrow> nat" where
  "root_in 0 into name = name"
| "root_in (Suc fuel) into name =
     (case map_of into name of None \<Rightarrow> name | Some next \<Rightarrow> root_in fuel into next)"

definition root :: "merged_into \<Rightarrow> nat \<Rightarrow> nat" where
  "root into name = root_in (length into) into name"

record second =
  s2_into :: merged_into
  s2_copies :: "item list"
  s2_merges :: "(nat \<times> nat \<times> string) list"
  s2_ignored :: "string list"
  s2_order :: "nat list option"

definition copy_at :: "item list \<Rightarrow> nat \<Rightarrow> item" where
  "copy_at copies n = copies ! (n - 1)"

definition is_id :: "nat \<Rightarrow> item list \<Rightarrow> bool" where
  "is_id n copies \<longleftrightarrow> 1 \<le> n \<and> n \<le> length copies"

text \<open>\<^verbatim>\<open>_merge\<close>: \<open>None\<close> when the line merges nothing.\<close>

definition merge_line :: "found \<Rightarrow> second \<Rightarrow> second option" where
  "merge_line m st =
     (let source = nat_of_digits (group_text 1 m); target = nat_of_digits (group_text 2 m);
          r = root (s2_into st) target
      in if \<not> is_id source (s2_copies st) \<or> \<not> is_id target (s2_copies st) \<or> source \<in> fst ` set (s2_into st)
            \<or> r = source then None
         else Some (st\<lparr>s2_into := (source, r) # s2_into st,
                s2_copies := (s2_copies st)[r - 1 := absorb True (copy_at (s2_copies st) r) (copy_at (s2_copies st) source)],
                s2_merges := s2_merges st @ [(source, target, py_strip (group_text 3 m))]\<rparr>))"

definition order_line :: "found \<Rightarrow> second \<Rightarrow> nat list option" where
  "order_line m st =
     (let named = filter (\<lambda>x. x \<noteq> []) (map py_strip (split_on CHR '','' (group_text 1 m)));
          wanted = map (\<lambda>n. map_option (\<lambda>f. nat_of_digits (group_text 1 f)) (re_fullmatch ID_RE n)) named
      in if named = [] \<or> None \<in> set wanted \<or> list_ex (\<lambda>w. \<not> is_id (the w) (s2_copies st)) wanted then None
         else Some (dedup (map (\<lambda>w. root (s2_into st) (the w)) wanted)))"

definition reply_line :: "second \<Rightarrow> string \<Rightarrow> second" where
  "reply_line st line =
     (let ordering = re_match ORDER_RE line in
      case Option.bind (re_match MERGE_RE line) (\<lambda>m. merge_line m st) of
        Some st' \<Rightarrow> st'
      | None \<Rightarrow>
          (case Option.bind ordering (\<lambda>m. if s2_order st = None then order_line m st else None) of
             Some wanted \<Rightarrow> st\<lparr>s2_order := Some wanted\<rparr>
           | None \<Rightarrow>
               if ordering \<noteq> None \<or> py_prefix ''merge'' (py_lower line)
               then st\<lparr>s2_ignored := s2_ignored st @ [line]\<rparr> else st))"

datatype pass2 = Malformed | Unavailable | Skipped | Merged | Unchanged

record outcome2 =
  o2_pass :: pass2
  o2_merges :: "(nat \<times> nat \<times> string) list"
  o2_ignored :: "string list"

definition category_of_root :: "item list \<Rightarrow> merged_into \<Rightarrow> nat \<Rightarrow> string option" where
  "category_of_root merged into name =
     map_option (\<lambda>n. the (it_category (copy_at merged n)))
       (find (\<lambda>n. root into n = name \<and> it_category (copy_at merged n) \<notin> {None, Some []}) [1..<Suc (length merged)])"

definition kept_ids :: "second \<Rightarrow> nat list" where
  "kept_ids st = filter (\<lambda>n. n \<notin> fst ` set (s2_into st)) [1..<Suc (length (s2_copies st))]"

definition final_ids :: "second \<Rightarrow> nat list" where
  "final_ids st =
     (let chosen = filter (\<lambda>n. n \<in> set (kept_ids st)) (case s2_order st of None \<Rightarrow> [] | Some ns \<Rightarrow> ns)
      in chosen @ filter (\<lambda>n. n \<notin> set chosen) (kept_ids st))"

definition final_item :: "item list \<Rightarrow> second \<Rightarrow> nat \<Rightarrow> item" where
  "final_item merged st n = (copy_at (s2_copies st) n)\<lparr>it_category := category_of_root merged (s2_into st) n\<rparr>"

definition second_start :: "item list \<Rightarrow> second" where
  "second_start merged = \<lparr>s2_into = [], s2_copies = merged, s2_merges = [], s2_ignored = [], s2_order = None\<rparr>"

definition apply_reply :: "item list \<Rightarrow> string \<Rightarrow> item list \<times> outcome2" where
  "apply_reply merged reply =
     (let lines = map bare (filter (\<lambda>l. py_strip l \<noteq> []) (py_splitlines reply))
      in if lines = [] \<or> last lines \<noteq> DONE
         then (merged, \<lparr>o2_pass = Malformed, o2_merges = [], o2_ignored = []\<rparr>)
         else (let st = foldl reply_line (second_start merged) (butlast lines)
               in (map (final_item merged st) (final_ids st),
                   \<lparr>o2_pass = (if s2_merges st = [] then Unchanged else Merged), o2_merges = s2_merges st,
                     o2_ignored = s2_ignored st\<rparr>)))"

text \<open>The agent's answer: no reply, or a reply with whether it timed out and its exit code.\<close>

datatype asked = AskFailed | Replied bool int string

definition second_pass :: "item list \<Rightarrow> asked \<Rightarrow> item list \<times> outcome2" where
  "second_pass merged answer =
     (case answer of
        Replied timed_out code reply \<Rightarrow>
          if timed_out \<or> code \<noteq> 0 then (merged, \<lparr>o2_pass = Unavailable, o2_merges = [], o2_ignored = []\<rparr>)
          else apply_reply merged reply
      | AskFailed \<Rightarrow> (merged, \<lparr>o2_pass = Unavailable, o2_merges = [], o2_ignored = []\<rparr>))"

subsection \<open>What goes to the fix turn\<close>

text \<open>The concerns sent are the first of the list.\<close>

fun capped_from :: "nat \<Rightarrow> item list \<Rightarrow> item list \<times> item list" where
  "capped_from room [] = ([], [])"
| "capped_from room (i # rest) =
     (if \<not> concern i then (let (sent, held) = capped_from room rest in (i # sent, held))
      else case room of
          0 \<Rightarrow> (let (sent, held) = capped_from 0 rest in (sent, i # held))
        | Suc r \<Rightarrow> (let (sent, held) = capped_from r rest in (i # sent, held)))"

definition capped :: "item list \<Rightarrow> bool \<Rightarrow> item list \<times> item list" where
  "capped final fixing = capped_from (if fixing then CONCERN_CAP else 0) final"

definition consolidated :: "raw_finding list \<Rightarrow> raw_finding list \<Rightarrow> bool \<Rightarrow> asked \<Rightarrow> item list \<times> outcome2" where
  "consolidated primary adversary to_fix answer =
     (let merged = exact (items primary adversary)
      in if to_fix \<and> 2 \<le> length merged then second_pass merged answer
         else (merged, \<lparr>o2_pass = Skipped, o2_merges = [], o2_ignored = []\<rparr>))"

definition handed :: "raw_finding list \<Rightarrow> raw_finding list \<Rightarrow> bool \<Rightarrow> asked \<Rightarrow> item list \<times> item list" where
  "handed primary adversary to_fix answer = capped (fst (consolidated primary adversary to_fix answer)) to_fix"

subsection \<open>What an item answers for\<close>

definition told :: "item \<Rightarrow> (string \<times> place) set" where
  "told i = set (zip (it_messages i) (it_places i))"

definition covers :: "item \<Rightarrow> item \<Rightarrow> bool" where
  "covers a b \<longleftrightarrow>
     it_severity a \<le> it_severity b \<and> it_evidence a \<le> it_evidence b
     \<and> set (it_found_by b) \<subseteq> set (it_found_by a) \<and> set (it_notes b) \<subseteq> set (it_notes a)"

definition well_placed :: "item \<Rightarrow> bool" where
  "well_placed i \<longleftrightarrow> length (it_messages i) = length (it_places i)"

lemma covers_refl [simp]: "covers a a"
  by (simp add: covers_def)

lemma covers_trans: "covers a b \<Longrightarrow> covers b c \<Longrightarrow> covers a c"
  by (auto simp: covers_def)

lemma set_reviewers: "set (filter P [Primary, Adversary]) = Collect P"
proof (rule set_eqI)
  show "who \<in> set (filter P [Primary, Adversary]) \<longleftrightarrow> who \<in> Collect P" for who
    by (cases who) simp_all
qed

lemma absorb_found_by: "set (it_found_by (absorb m a b)) = set (it_found_by a) \<union> set (it_found_by b)"
proof -
  have "it_found_by (absorb m a b) = filter (\<lambda>who. who \<in> set (it_found_by a @ it_found_by b)) [Primary, Adversary]"
    by (simp add: absorb_def Let_def)
  then show ?thesis by (simp only: set_reviewers) auto
qed

lemma absorb_covers: "covers (absorb m a b) a" "covers (absorb m a b) b"
  using absorb_found_by [of m a b] by (auto simp: covers_def absorb_def Let_def)

lemma absorb_told: "well_placed a \<Longrightarrow> told (absorb True a b) = told a \<union> told b"
  by (auto simp: told_def well_placed_def absorb_def Let_def)

lemma absorb_said [simp]:
  "it_messages (absorb False a b) = it_messages a" "it_places (absorb False a b) = it_places a"
  "place_of (absorb m a b) = place_of a"
  by (simp_all add: absorb_def Let_def place_of_def)

lemma absorb_said_at [simp]: "said_at (absorb False a b) = said_at a"
  by (simp add: said_at_def)

lemma absorb_placed: "well_placed a \<Longrightarrow> well_placed b \<Longrightarrow> well_placed (absorb m a b)"
  by (simp add: well_placed_def absorb_def Let_def)

subsection \<open>The exact merge\<close>

lemma set_by_place [simp]: "set (by_place part) = set part"
  by (auto simp: by_place_def)

lemma set_ordered [simp]: "set (ordered merged) = set merged"
  by (auto simp: ordered_def)

lemma set_assoc_put: "set (assoc_put k v xs) \<subseteq> insert (k, v) (set xs)"
  by (induction k v xs rule: assoc_put.induct) auto

lemma merge_said_covers:
  "map_of (foldl merge_said merged found) k = Some a \<Longrightarrow> map_of merged k = Some b \<Longrightarrow> covers a b"
proof (induction found arbitrary: merged b)
  case (Cons i found)
  show ?case
  proof (cases "said_at i = k")
    case True
    then have "map_of (merge_said merged i) k = Some (absorb False b i)"
      using Cons.prems(2) by (simp add: merge_said_def map_of_assoc_put)
    with Cons.IH Cons.prems(1) have "covers a (absorb False b i)" by simp
    then show ?thesis using absorb_covers(1) covers_trans by blast
  next
    case False
    then have "map_of (merge_said merged i) k = Some b" using Cons.prems(2) by (simp add: merge_said_def map_of_assoc_put)
    with Cons show ?thesis by simp
  qed
qed simp

lemma merge_said_keeps: "map_of merged k \<noteq> None \<Longrightarrow> map_of (foldl merge_said merged found) k \<noteq> None"
proof (induction found arbitrary: merged)
  case (Cons i found)
  have "map_of (merge_said merged i) k \<noteq> None"
    using Cons.prems by (simp add: merge_said_def map_of_assoc_put)
  from Cons.IH [OF this] show ?case by simp
qed simp

lemma merge_said_all:
  "f \<in> set found \<Longrightarrow> \<exists>a. map_of (foldl merge_said merged found) (said_at f) = Some a \<and> covers a f"
proof (induction found arbitrary: merged)
  case (Cons i found)
  show ?case
  proof (cases "f \<in> set found")
    case False
    with Cons.prems have [simp]: "i = f" by simp
    obtain b where b: "map_of (merge_said merged f) (said_at f) = Some b" "covers b f"
      using absorb_covers(2) by (cases "map_of merged (said_at f)") (simp_all add: merge_said_def map_of_assoc_put)
    then obtain a where "map_of (foldl merge_said (merge_said merged f) found) (said_at f) = Some a"
      using merge_said_keeps [of "merge_said merged f" "said_at f" found] by auto
    with merge_said_covers [OF this b(1)] b(2) show ?thesis by (auto intro: covers_trans)
  qed (use Cons in simp)
qed simp

text \<open>Each item of the merge is a first report with what later ones added.\<close>

definition reported :: "item list \<Rightarrow> said_key \<times> item \<Rightarrow> bool" where
  "reported found entry \<longleftrightarrow>
     said_at (snd entry) = fst entry
     \<and> (\<exists>f \<in> set found. it_messages (snd entry) = it_messages f \<and> it_places (snd entry) = it_places f
          \<and> place_of (snd entry) = place_of f)"

lemma merge_said_step:
  assumes "\<forall>e \<in> set merged. reported all e" and "i \<in> set all" and "e \<in> set (merge_said merged i)"
  shows "reported all e"
proof -
  have "reported all (said_at i, case map_of merged (said_at i) of None \<Rightarrow> i | Some kept \<Rightarrow> absorb False kept i)"
  proof (cases "map_of merged (said_at i)")
    case None
    then show ?thesis using assms(2) by (auto simp: reported_def)
  next
    case (Some kept)
    then have "reported all (said_at i, kept)" using assms(1) map_of_SomeD by metis
    then have "reported all (said_at i, absorb False kept i)" by (simp add: reported_def)
    then show ?thesis by (simp add: Some)
  qed
  moreover have "e = (said_at i, case map_of merged (said_at i) of None \<Rightarrow> i | Some kept \<Rightarrow> absorb False kept i)
      \<or> e \<in> set merged"
    using assms(3) subsetD [OF set_assoc_put] unfolding merge_said_def by fast
  ultimately show ?thesis using assms(1) by blast
qed

lemma merge_said_reported:
  "\<forall>e \<in> set merged. reported all e \<Longrightarrow> set found \<subseteq> set all \<Longrightarrow>
   \<forall>e \<in> set (foldl merge_said merged found). reported all e"
proof (induction found arbitrary: merged)
  case (Cons i found)
  have "\<forall>e \<in> set (merge_said merged i). reported all e"
    using merge_said_step [OF Cons.prems(1)] Cons.prems(2) by (metis list.set_intros(1) subsetD)
  with Cons.IH Cons.prems(2) show ?case by simp
qed simp

lemma exact_keeps:
  assumes "f \<in> set found"
  shows "\<exists>a \<in> set (exact found). covers a f \<and> said_at a = said_at f"
proof -
  obtain a where a: "map_of (foldl merge_said [] found) (said_at f) = Some a" "covers a f"
    using merge_said_all [OF assms] by blast
  have "reported found (said_at f, a)"
    using merge_said_reported [of "[]" found found] map_of_SomeD [OF a(1)] by auto
  moreover have "a \<in> set (exact found)" using map_of_SomeD [OF a(1)] by (force simp: exact_def)
  ultimately show ?thesis using a(2) by (auto simp: reported_def)
qed

lemma exact_reported:
  assumes "a \<in> set (exact found)"
  shows "\<exists>f \<in> set found. it_messages a = it_messages f \<and> it_places a = it_places f \<and> place_of a = place_of f"
proof -
  obtain k where "(k, a) \<in> set (foldl merge_said [] found)" using assms by (auto simp: exact_def)
  then show ?thesis using merge_said_reported [of "[]" found found] by (fastforce simp: reported_def)
qed

subsection \<open>The roots\<close>

fun forest :: "merged_into \<Rightarrow> bool" where
  "forest [] \<longleftrightarrow> True"
| "forest ((s, r) # into) \<longleftrightarrow> map_of into s = None \<and> map_of into r = None \<and> r \<noteq> s \<and> forest into"

lemma root_in_merge:
  assumes "forest ((s, r) # into)" and "map_of into (root_in k into n) = None"
  shows "root_in (Suc k) ((s, r) # into) n = (if root_in k into n = s then r else root_in k into n)"
  using assms(2)
proof (induction k arbitrary: n)
  case 0
  with assms(1) show ?case by simp
next
  case (Suc k)
  have "map_of ((s, r) # into) r = None" using assms(1) by simp
  then have fixed: "root_in j ((s, r) # into) r = r" for j by (cases j) simp_all
  show ?case
  proof (cases "n = s")
    case True
    with assms(1) have "map_of into n = None" by simp
    with True show ?thesis using fixed [of "Suc k"] by simp
  next
    case False
    show ?thesis
    proof (cases "map_of into n")
      case None
      with False show ?thesis by simp
    next
      case (Some m)
      with Suc.prems have "map_of into (root_in k into m) = None" by simp
      from Suc.IH [OF this] Some False show ?thesis by simp
    qed
  qed
qed

lemma root_ends: "forest into \<Longrightarrow> map_of into (root into n) = None"
proof (induction into arbitrary: n rule: forest.induct)
  case (2 s r into)
  then have "map_of into (root_in (length into) into n) = None" by (simp add: root_def)
  from root_in_merge [OF 2(2) this] this 2 show ?case by (auto simp: root_def)
qed (simp add: root_def)

lemma root_merge: "forest ((s, r) # into) \<Longrightarrow> root ((s, r) # into) n = (if root into n = s then r else root into n)"
  using root_in_merge [of s r into "length into" n] root_ends [of into n] by (simp add: root_def)

lemma root_fixed: "map_of into n = None \<Longrightarrow> root into n = n"
  by (cases "length into") (simp_all add: root_def)

subsection \<open>The second pass\<close>

text \<open>Every item of the merge is answered for by the item at its root.\<close>

definition answered :: "item list \<Rightarrow> second \<Rightarrow> bool" where
  "answered merged st \<longleftrightarrow>
     length (s2_copies st) = length merged \<and> forest (s2_into st)
     \<and> (\<forall>n. is_id n merged \<longrightarrow> is_id (root (s2_into st) n) merged
          \<and> covers (copy_at (s2_copies st) (root (s2_into st) n)) (copy_at merged n)
          \<and> told (copy_at merged n) \<subseteq> told (copy_at (s2_copies st) (root (s2_into st) n)))
     \<and> (\<forall>i \<in> set (s2_copies st). well_placed i \<and> told i \<subseteq> (\<Union>f \<in> set merged. told f))
     \<and> fst ` set (s2_into st) \<subseteq> {n. is_id n merged} \<and> length (s2_merges st) = length (s2_into st)
     \<and> (case s2_order st of None \<Rightarrow> True | Some ns \<Rightarrow> distinct ns)"

lemma copy_member: "is_id n copies \<Longrightarrow> copy_at copies n \<in> set copies"
  by (auto simp: is_id_def copy_at_def)

lemma answered_start: "\<forall>i \<in> set merged. well_placed i \<Longrightarrow> answered merged (second_start merged)"
  by (auto simp: answered_def second_start_def root_def)

lemma merge_line_answered:
  assumes "answered merged st" and "merge_line m st = Some st'"
  shows "answered merged st'"
proof -
  define s where "s = nat_of_digits (group_text 1 m)"
  define r where "r = root (s2_into st) (nat_of_digits (group_text 2 m))"
  define a where "a = absorb True (copy_at (s2_copies st) r) (copy_at (s2_copies st) s)"
  have g: "is_id s (s2_copies st)" "is_id (nat_of_digits (group_text 2 m)) (s2_copies st)"
      "map_of (s2_into st) s = None" "r \<noteq> s"
    and st': "s2_into st' = (s, r) # s2_into st" "s2_copies st' = (s2_copies st)[r - 1 := a]"
      "length (s2_merges st') = Suc (length (s2_merges st))" "s2_order st' = s2_order st"
    using assms(2) by (auto simp: merge_line_def Let_def s_def r_def a_def map_of_eq_None_iff split: if_split_asm)
  have inv: "length (s2_copies st) = length merged" "forest (s2_into st)" using assms(1) by (auto simp: answered_def)
  have ids: "is_id n (s2_copies st) \<longleftrightarrow> is_id n merged" for n using inv(1) by (simp add: is_id_def)
  have r_id: "is_id r merged" using assms(1) g(2) by (simp add: ids answered_def r_def)
  have f: "forest ((s, r) # s2_into st)" using g(3,4) inv(2) root_ends [OF inv(2)] by (simp add: r_def)
  have member: "copy_at (s2_copies st) r \<in> set (s2_copies st)" "copy_at (s2_copies st) s \<in> set (s2_copies st)"
    using g(1) r_id ids copy_member by blast+
  then have placed: "well_placed (copy_at (s2_copies st) r)" "well_placed (copy_at (s2_copies st) s)"
    using assms(1) by (auto simp: answered_def)
  have a: "covers a (copy_at (s2_copies st) r)" "covers a (copy_at (s2_copies st) s)" "well_placed a"
    "told a = told (copy_at (s2_copies st) r) \<union> told (copy_at (s2_copies st) s)"
    using absorb_covers absorb_told [OF placed(1)] absorb_placed [OF placed] by (simp_all add: a_def)
  have copies: "copy_at (s2_copies st') n = (if n = r then a else copy_at (s2_copies st) n)" if "is_id n merged" for n
    using that r_id inv(1) by (auto simp: st' copy_at_def is_id_def nth_list_update)
  have "is_id (root (s2_into st') n) merged
      \<and> covers (copy_at (s2_copies st') (root (s2_into st') n)) (copy_at merged n)
      \<and> told (copy_at merged n) \<subseteq> told (copy_at (s2_copies st') (root (s2_into st') n))" if n: "is_id n merged" for n
  proof -
    have old: "is_id (root (s2_into st) n) merged"
        "covers (copy_at (s2_copies st) (root (s2_into st) n)) (copy_at merged n)"
        "told (copy_at merged n) \<subseteq> told (copy_at (s2_copies st) (root (s2_into st) n))"
      using assms(1) n by (auto simp: answered_def)
    have "root (s2_into st') n = (if root (s2_into st) n = s then r else root (s2_into st) n)"
      using root_merge [OF f] by (simp add: st')
    with old r_id show ?thesis using a copies by (auto intro: covers_trans split: if_split_asm)
  qed
  moreover have "\<forall>i \<in> set (s2_copies st'). well_placed i \<and> told i \<subseteq> (\<Union>f \<in> set merged. told f)"
  proof
    fix i assume "i \<in> set (s2_copies st')"
    then have "i = a \<or> i \<in> set (s2_copies st)" using set_update_subset_insert by (fastforce simp: st')
    moreover have old: "well_placed i \<and> told i \<subseteq> (\<Union>f \<in> set merged. told f)" if "i \<in> set (s2_copies st)" for i
      using assms(1) that by (simp add: answered_def)
    ultimately show "well_placed i \<and> told i \<subseteq> (\<Union>f \<in> set merged. told f)"
      using a(3,4) old [OF member(1)] old [OF member(2)] by blast
  qed
  ultimately show ?thesis
    using assms(1) f g(1) inv(1) by (auto simp: answered_def st' ids)
qed

lemma order_line_distinct: "order_line m st = Some ns \<Longrightarrow> distinct ns"
  by (auto simp: order_line_def Let_def split: if_split_asm)

lemma reply_line_answered:
  assumes "answered merged st"
  shows "answered merged (reply_line st line)"
proof (cases "Option.bind (re_match MERGE_RE line) (\<lambda>m. merge_line m st)")
  case (Some st')
  then obtain m where "merge_line m st = Some st'" by (auto simp: bind_eq_Some_conv)
  with merge_line_answered [OF assms] Some show ?thesis by (simp add: reply_line_def Let_def)
next
  case None
  have "answered merged (st\<lparr>s2_order := Some ns\<rparr>)" if "distinct ns" for ns
    using assms that by (simp add: answered_def)
  moreover have "answered merged (st\<lparr>s2_ignored := x\<rparr>)" for x using assms by (simp add: answered_def)
  ultimately show ?thesis
    using assms
    by (auto simp: reply_line_def Let_def None bind_eq_Some_conv split: option.split if_split_asm dest: order_line_distinct)
qed

lemma reply_lines_answered: "answered merged st \<Longrightarrow> answered merged (foldl reply_line st lines)"
  by (induction lines arbitrary: st) (simp_all add: reply_line_answered)

subsection \<open>No finding is lost, none is invented\<close>

lemma kept_ids_iff: "n \<in> set (kept_ids st) \<longleftrightarrow> is_id n (s2_copies st) \<and> map_of (s2_into st) n = None"
  by (auto simp: kept_ids_def is_id_def map_of_eq_None_iff)

lemma set_final_ids: "set (final_ids st) = set (kept_ids st)"
  by (auto simp: final_ids_def Let_def)

lemma distinct_final_ids:
  assumes "case s2_order st of None \<Rightarrow> True | Some ns \<Rightarrow> distinct ns"
  shows "distinct (final_ids st)"
  using assms by (auto simp: final_ids_def Let_def kept_ids_def split: option.split_asm)

lemma final_item_keeps:
  "covers (final_item merged st n) i \<longleftrightarrow> covers (copy_at (s2_copies st) n) i"
  "told (final_item merged st n) = told (copy_at (s2_copies st) n)"
  by (simp_all add: final_item_def covers_def told_def)

lemma answered_final:
  assumes "answered merged st" and "i \<in> set merged"
  shows "\<exists>n \<in> set (final_ids st). covers (final_item merged st n) i \<and> told i \<subseteq> told (final_item merged st n)"
proof -
  obtain k where k: "k < length merged" "merged ! k = i" using assms(2) by (auto simp: in_set_conv_nth)
  then have id: "is_id (Suc k) merged" "copy_at merged (Suc k) = i" by (auto simp: is_id_def copy_at_def)
  define n where "n = root (s2_into st) (Suc k)"
  have "is_id n merged \<and> covers (copy_at (s2_copies st) n) i \<and> told i \<subseteq> told (copy_at (s2_copies st) n)"
    using assms(1) id by (auto simp: answered_def n_def)
  moreover have "map_of (s2_into st) n = None"
    using assms(1) root_ends by (simp add: answered_def n_def)
  ultimately show ?thesis
    using assms(1) by (intro bexI [of _ n])
      (auto simp: final_item_keeps set_final_ids kept_ids_iff is_id_def answered_def)
qed

lemma final_told:
  assumes "answered merged st" and "n \<in> set (final_ids st)"
  shows "told (final_item merged st n) \<subseteq> (\<Union>f \<in> set merged. told f)"
  using assms copy_member by (auto simp: final_item_keeps set_final_ids kept_ids_iff answered_def)

lemma apply_reply_keeps:
  assumes "\<forall>i \<in> set merged. well_placed i" and "i \<in> set merged"
  shows "\<exists>a \<in> set (fst (apply_reply merged reply)). covers a i \<and> told i \<subseteq> told a"
proof (cases "fst (apply_reply merged reply) = merged")
  case True
  with assms(2) show ?thesis by (intro bexI [of _ i]) auto
next
  case False
  with answered_final [OF reply_lines_answered [OF answered_start [OF assms(1)]] assms(2)]
  show ?thesis by (auto simp: apply_reply_def Let_def split: if_split_asm)
qed

lemma apply_reply_told:
  assumes "\<forall>i \<in> set merged. well_placed i" and "a \<in> set (fst (apply_reply merged reply))"
  shows "told a \<subseteq> (\<Union>f \<in> set merged. told f)"
  using assms(2) final_told [OF reply_lines_answered [OF answered_start [OF assms(1)]]]
  by (auto simp: apply_reply_def Let_def split: if_split_asm)

lemma second_pass_cases: "fst (second_pass merged answer) = merged \<or> (\<exists>reply. fst (second_pass merged answer) = fst (apply_reply merged reply))"
  by (auto simp: second_pass_def split: asked.split)

lemma consolidated_cases:
  "fst (consolidated primary adversary to_fix answer) = exact (items primary adversary)
   \<or> (\<exists>reply. fst (consolidated primary adversary to_fix answer) = fst (apply_reply (exact (items primary adversary)) reply))"
  using second_pass_cases by (auto simp: consolidated_def Let_def)

lemma items_placed: "i \<in> set (items primary adversary) \<Longrightarrow> well_placed i \<and> it_messages i \<noteq> [] \<and> it_places i = [place_of i]"
  by (auto simp: items_def item_of_def Let_def well_placed_def place_of_def)

lemma exact_placed: "i \<in> set (exact (items primary adversary)) \<Longrightarrow> well_placed i"
  using exact_reported items_placed by (fastforce simp: well_placed_def)

lemma items_told:
  assumes "i \<in> set (items primary adversary)"
  shows "told i = {(hd (it_messages i), place_of i)}"
  using assms by (auto simp: items_def item_of_def Let_def told_def place_of_def)

lemma exact_told:
  assumes "a \<in> set (exact (items primary adversary))"
  shows "told a = {(hd (it_messages a), place_of a)}"
  using exact_reported [OF assms] items_told by (fastforce simp: told_def)

lemma consolidated_keeps:
  assumes "f \<in> set (items primary adversary)"
  shows "\<exists>a \<in> set (fst (consolidated primary adversary to_fix answer)). covers a f
    \<and> (\<exists>(m, p) \<in> told a. p = place_of f \<and> said m = said (hd (it_messages f)))"
proof -
  obtain e where e: "e \<in> set (exact (items primary adversary))" "covers e f" "said_at e = said_at f"
    using exact_keeps [OF assms] by blast
  have "\<exists>a \<in> set (fst (consolidated primary adversary to_fix answer)). covers a e \<and> told e \<subseteq> told a"
    using consolidated_cases [of primary adversary to_fix answer] apply_reply_keeps [OF _ e(1)] exact_placed e(1)
    by (metis covers_refl subset_refl)
  then obtain a where a: "a \<in> set (fst (consolidated primary adversary to_fix answer))" "covers a e" "told e \<subseteq> told a"
    by blast
  have "(hd (it_messages e), place_of e) \<in> told a" using a(3) exact_told [OF e(1)] by blast
  moreover have "place_of e = place_of f" "said (hd (it_messages e)) = said (hd (it_messages f))"
    using e(3) by (simp_all add: said_at_def)
  ultimately show ?thesis using a(1,2) e(2) covers_trans by (intro bexI [OF _ a(1)]) (auto intro: bexI [rotated])
qed

lemma consolidated_told:
  assumes "a \<in> set (fst (consolidated primary adversary to_fix answer))"
  shows "told a \<subseteq> (\<Union>f \<in> set (items primary adversary). told f)"
proof -
  have exact: "told e \<subseteq> (\<Union>f \<in> set (items primary adversary). told f)"
    if "e \<in> set (exact (items primary adversary))" for e
    using exact_reported [OF that] by (fastforce simp: told_def)
  have placed: "\<forall>i \<in> set (exact (items primary adversary)). well_placed i" using exact_placed by blast
  have "told a \<subseteq> (\<Union>e \<in> set (exact (items primary adversary)). told e)"
    using consolidated_cases [of primary adversary to_fix answer]
  proof (elim disjE exE)
    assume "fst (consolidated primary adversary to_fix answer) = exact (items primary adversary)"
    with assms have "a \<in> set (exact (items primary adversary))" by simp
    then show ?thesis by (rule UN_upper)
  next
    fix reply
    assume "fst (consolidated primary adversary to_fix answer) = fst (apply_reply (exact (items primary adversary)) reply)"
    with assms apply_reply_told [OF placed] show ?thesis by simp
  qed
  with exact show ?thesis by blast
qed

subsection \<open>The cap\<close>

lemma capped_from_concern:
  "concern i \<Longrightarrow> capped_from (Suc r) (i # rest) = (i # fst (capped_from r rest), snd (capped_from r rest))"
  "concern i \<Longrightarrow> capped_from 0 (i # rest) = (fst (capped_from 0 rest), i # snd (capped_from 0 rest))"
  "\<not> concern i \<Longrightarrow> capped_from room (i # rest) = (i # fst (capped_from room rest), snd (capped_from room rest))"
  by (simp_all split: prod.split)

lemma capped_from_parts:
  "set (fst (capped_from room rest)) \<union> set (snd (capped_from room rest)) = set rest
   \<and> (\<forall>i \<in> set (snd (capped_from room rest)). concern i)
   \<and> length (filter concern (fst (capped_from room rest))) = min room (length (filter concern rest))"
proof (induction rest arbitrary: room)
  case (Cons i rest)
  show ?case
  proof (cases "concern i")
    case True
    with Cons [of "room - 1"] show ?thesis by (cases room) (auto simp: capped_from_concern simp del: capped_from.simps)
  next
    case False
    with Cons [of room] show ?thesis by (auto simp: capped_from_concern simp del: capped_from.simps)
  qed
qed simp

end
