(* ===== verification/DemoWork.thy ===== *)
theory DemoWork
  imports Demo StoryTemplate MergeReady Worker Consolidate
begin

section \<open>DemoWork: concrete inputs around the store\<close>

text \<open>
  A ticket, a small story, a pull request with its checks, a red main with the watch that may act on
  it, a held project and two findings: what the properties about tickets, pull requests, automations
  and reviews are instantiated on.
\<close>

definition demo_ticket :: ticket where
  "demo_ticket = \<lparr>tk_title = ''Fix'', tk_order = filter (\<lambda>n. n \<notin> set OPTIONAL_SECTIONS) TEMPLATE_ORDER,
     tk_sections = [], tk_stray_h1s = [], tk_summary = ''s'', tk_what = ''w'', tk_why = ''y'', tk_how = ''h'',
     tk_ui_change = Some ''none'', tk_blast_radius = None, tk_mockup = [], tk_mockup_source = [],
     tk_in_scope = [''a.py''], tk_out_of_scope = [''b''], tk_acceptance = [''c''], tk_acceptance_done = [],
     tk_acceptance_other = [], tk_acceptance_boxes = [''c''], tk_verify_commands = [''make''],
     tk_contract_checks = [], tk_evidence_states = [], tk_reproduce = [], tk_notes = [], tk_estimate_min = Some 30,
     tk_depends_on = Some [], tk_orchestration = None, tk_implementer = None, tk_open_questions_none = True,
     tk_header_problems = None, tk_evidence_files = []\<rparr>"

definition demo_children :: "story_child list" where
  "demo_children =
     [\<lparr>ch_name = ''1'', ch_slug = ''a'', ch_ticket = demo_ticket, ch_role = Some Advancing, ch_witnesses = [''W1''],
        ch_depends_on = []\<rparr>,
      \<lparr>ch_name = ''2'', ch_slug = ''b'', ch_ticket = demo_ticket\<lparr>tk_sections := [(''In scope'', ''`w.py` (new)'')]\<rparr>,
        ch_role = Some Completing, ch_witnesses = [''W1''], ch_depends_on = [''a'']\<rparr>]"

definition demo_story :: story_body where
  "demo_story = \<lparr>sb_order = [], sb_sections = [], sb_witness_lines = [''[ ] W1:''],
     sb_witnesses = [\<lparr>sw_key = ''W1'', sw_outcome = ''x'', sw_file = ''w.py'', sw_command = None, sw_line = ''''\<rparr>],
     sb_standing_orders = [], sb_open_questions_none = True, sb_path_lines = []\<rparr>"

definition demo_check :: json where
  "demo_check = JObj [(''name'', JStr ''ci''), (''status'', JStr ''completed''), (''conclusion'', JStr ''success''), (''id'', JInt 7)]"

definition demo_pull :: pull where
  "demo_pull = \<lparr>pu_host = ''h'', pu_owner = ''o'', pu_name = ''n'', pu_number = 1, pu_url = ''u'', pu_awaited = []\<rparr>"

definition demo_page :: json where
  "demo_page = JObj [(''check_runs'', JList [demo_check]), (''total_count'', JInt 5)]"

definition demo_ready :: store where
  "demo_ready = upd_run 1 (\<lambda>r. r\<lparr>r_pr := Some ''https://h/o/n/pull/1'', r_branch := Some ''b''\<rparr>) demo_parked"

definition demo_state :: pr_state where
  "demo_state = (state_of (\<lambda>_. None) (JObj [(''mergeable'', JStr ''MERGEABLE''), (''headRefOid'', JStr ''cand''),
     (''reviewDecision'', JStr ''APPROVED'')]) [] (Some [demo_check]) (Some [''ci'']) [] False)"

definition demo_gh :: "nat \<Rightarrow> gh_run" where
  "demo_gh n = (if n = 0 then Ran 1 [] ''dial tcp'' else Ran 0 ''{}'' [])"

definition demo_cx :: watch_cx where
  "demo_cx = \<lparr>cx_get = (\<lambda>_. Inr (JObj [(''run_attempt'', JInt 1)])), cx_pull = demo_pull, cx_project = 1,
     cx_watch = \<lparr>wc_mode = WAct, wc_revision = Some 1\<rparr>, cx_listed = [], cx_switch = NoFile, cx_wall = 0,
     cx_day = (\<lambda>_. (0, ''d'')), cx_cap = 1\<rparr>"

definition demo_red :: main_checks where
  "demo_red = \<lparr>mc_state = MainFailure, mc_sha = Some ''c'', mc_failed =
     [\<lparr>fj_name = ''ci'', fj_required = True, fj_job = Some 7, fj_run = Some 8\<rparr>,
      \<lparr>fj_name = ''lint'', fj_required = True, fj_job = Some 9, fj_run = Some 10\<rparr>]\<rparr>"

definition demo_watching :: watching where
  "demo_watching = \<lparr>wt_store = demo0, wt_leased = [], wt_reruns = None\<rparr>"

definition demo_watched :: watching where
  "demo_watched = snd (observe demo_cx demo_env demo_red demo_watching)"

definition demo_lease :: store where
  "demo_lease = snd (take_firing demo_env 2 5 (wt_store demo_watched))"

definition demo_firing :: firing_row where
  "demo_firing = the (firing 2 demo_lease)"

definition demo_world :: world where
  "demo_world = \<lparr>wd_switch = NoFile, wd_config = Inr \<lparr>wc_mode = WAct, wc_revision = Some 1\<rparr>, wd_host = Inr [],
     wd_pull = Some demo_pull\<rparr>"

definition demo_gate_cx :: gate_cx where
  "demo_gate_cx = \<lparr>gt_get = (\<lambda>_. Inr (JObj [(''check_runs'', JList [demo_check]), (''total_count'', JInt 1)])),
     gt_git = (\<lambda>_. Ran 0 [] []), gt_config = Inr \<lparr>wc_mode = WAct, wc_revision = Some 1\<rparr>, gt_listed = Inr [], gt_switch = NoFile\<rparr>"

definition demo_hold :: hold_row where
  "demo_hold = \<lparr>mh_id = 1, mh_project = 1, mh_sha = ''c'', mh_checks = [''ci''], mh_firing = 1, mh_held = 0,
     mh_ended = None, mh_reason = None\<rparr>"

definition demo_held :: store where
  "demo_held = demo2\<lparr>holds := [demo_hold]\<rparr>"

definition demo_raised :: "raw_finding list \<times> raw_finding list" where
  "demo_raised =
     ([\<lparr>rf_path = ''a'', rf_line = Some 1, rf_severity = Some ''p1'', rf_message = ''x'', rf_evidence = None, rf_category = None\<rparr>],
      [\<lparr>rf_path = ''b'', rf_line = None, rf_severity = None, rf_message = ''y'', rf_evidence = Some ''traced'', rf_category = None\<rparr>])"

definition demo_sent :: "item list" where
  "demo_sent = fst (handed (fst demo_raised) (snd demo_raised) True
     (Replied False 0 (''MERGE: F2 INTO F1'' @ [CHR 10] @ ''CONSOLIDATED'')))"

end
