(* ===== verification/Histories.thy ===== *)
theory Histories
  imports Prelude
begin

section \<open>Histories: invariants and abstractions of step relations\<close>

text \<open>
  The interfaces of the step relations beside the store: \<open>guarded_steps\<close>, whose steps keep an invariant
  that holds at the start, and \<open>implements\<close>, whose guarded steps are steps of a smaller machine or
  leave it as it is. A client gets both for every history.
\<close>

locale guarded_steps =
  fixes step :: "'s \<Rightarrow> 's \<Rightarrow> bool"
    and start :: 's
    and inv :: "'s \<Rightarrow> bool"
  assumes starts: "inv start"
    and keeps: "step s t \<Longrightarrow> inv s \<Longrightarrow> inv t"
begin

lemma kept: "step\<^sup>*\<^sup>* s t \<Longrightarrow> inv s \<Longrightarrow> inv t"
  by (induction rule: rtranclp_induct) (auto dest: keeps)

lemma reached: "step\<^sup>*\<^sup>* start s \<Longrightarrow> inv s"
  using kept starts by blast

end

locale implements = guarded_steps step start inv
  for step :: "'s \<Rightarrow> 's \<Rightarrow> bool" and start :: 's and inv :: "'s \<Rightarrow> bool" +
  fixes view :: "'s \<Rightarrow> 'a"
    and spec :: "'a \<Rightarrow> 'a \<Rightarrow> bool"
  assumes simulated: "step s t \<Longrightarrow> inv s \<Longrightarrow> view t = view s \<or> spec (view s) (view t)"
begin

lemma step_reached: "step\<^sup>*\<^sup>* start s \<Longrightarrow> step s t \<Longrightarrow> view t = view s \<or> spec (view s) (view t)"
  using simulated reached by blast

lemma history: "step\<^sup>*\<^sup>* start s \<Longrightarrow> spec\<^sup>*\<^sup>* (view start) (view s)"
proof (induction rule: rtranclp_induct)
  case (step s t)
  from step_reached [OF step.hyps] show ?case
  proof
    assume "view t = view s"
    with step.IH show ?thesis by simp
  next
    assume "spec (view s) (view t)"
    with step.IH show ?thesis by (rule rtranclp.rtrancl_into_rtrancl)
  qed
qed simp

end

end
