(* ===== verification/MergeLock.thy ===== *)
theory MergeLock
  imports Text Regex Histories
begin

section \<open>MergeLock: one merge at a time, and the sweep of a lock left behind\<close>

text \<open>
  The lock file of \<^verbatim>\<open>holophyte/loop/gates.py\<close> (\<^verbatim>\<open>merge_lock\<close>, \<^verbatim>\<open>merge_lock_arbiter\<close>, \<^verbatim>\<open>read_merge_lock\<close>,
  \<^verbatim>\<open>remove_dead_merge_lock\<close>), the wait of \<^verbatim>\<open>holophyte/loop/merge_lock.py\<close> and the sweep's lines of
  \<^verbatim>\<open>holophyte/host/sweep_report.py\<close>. Several processes run the same code, so the lock is a step relation:
  each step is one file operation of one process, and a process may die between any two. A file is an
  inode: its text, the process whose flock it carries, and whether the path still names it.

  The lemmas: the steps implement a lock that has at most one holder; the path names the holder's file, and
  the sweep unlinks no file whose holder lives.
\<close>

subsection \<open>Reading the file\<close>

text \<open>\<open>BadStamp\<close>: \<^verbatim>\<open>int()\<close> raises on a superscript digit, which \<^verbatim>\<open>isdigit\<close> accepts. \<open>float_of\<close> is \<^verbatim>\<open>float(word)\<close>.\<close>

datatype 't lock_read = NoLock | BadStamp | LockBy "nat option" "'t option"

definition superscript_digit :: "char \<Rightarrow> bool" where
  "superscript_digit c \<longleftrightarrow> (of_char c :: nat) \<in> {178, 179, 185}"

definition read_merge_lock :: "(string \<Rightarrow> 't option) \<Rightarrow> string option \<Rightarrow> 't lock_read" where
  "read_merge_lock float_of file =
     (case file of
        None \<Rightarrow> NoLock
      | Some t \<Rightarrow>
          (let parts = py_words t;
               taken = (case parts of _ # w # _ \<Rightarrow> float_of w | _ \<Rightarrow> None)
           in case parts of
                [] \<Rightarrow> LockBy None None
              | w # _ \<Rightarrow>
                  if \<not> list_all (\<lambda>c. is_digit_char c \<or> superscript_digit c) w then LockBy None taken
                  else if list_ex superscript_digit w then BadStamp
                  else LockBy (Some (nat_of_digits w)) taken))"

definition lock_stamp :: "(int \<Rightarrow> string) \<Rightarrow> nat option \<Rightarrow> int \<Rightarrow> string" where
  "lock_stamp shown rid now =
     (case rid of None \<Rightarrow> ''-'' | Some n \<Rightarrow> str_nat n) @ '' '' @ shown now @ [CHR 0x0A]"

subsection \<open>The wait\<close>

definition CHECK_POLL_S :: int where "CHECK_POLL_S = 30"

record lock_wait =
  lw_wait :: int
  lw_poll :: int
  lw_ceiling :: int
  lw_stale :: int

text \<open>The holder's run, as the store shows it: \<open>Some None\<close> ended, \<open>Some (Some age)\<close> since its last heartbeat.\<close>

definition extend_wait :: "lock_wait \<Rightarrow> bool \<Rightarrow> (nat \<Rightarrow> int option option) \<Rightarrow> 't lock_read \<Rightarrow> int \<Rightarrow> int" where
  "extend_wait k known snapshot holder elapsed =
     (case holder of
        LockBy (Some rid) _ \<Rightarrow>
          (case snapshot rid of
             Some (Some age) \<Rightarrow>
               if \<not> known \<or> lw_stale k < age \<or> lw_ceiling k \<le> elapsed then 0
               else min CHECK_POLL_S (lw_ceiling k - elapsed)
           | _ \<Rightarrow> 0)
      | _ \<Rightarrow> 0)"

text \<open>\<open>None\<close>: \<^verbatim>\<open>MergeLockHeld\<close> is raised.\<close>

definition lock_nap :: "lock_wait \<Rightarrow> ('t lock_read \<Rightarrow> int \<Rightarrow> int) option \<Rightarrow> 't lock_read \<Rightarrow> int \<Rightarrow> int option" where
  "lock_nap k longer holder elapsed =
     (if elapsed < lw_wait k then Some (min (lw_poll k) (lw_wait k - elapsed))
      else case longer of
        None \<Rightarrow> None
      | Some f \<Rightarrow> if 0 < f holder elapsed then Some (f holder elapsed) else None)"

lemma lock_nap_bounded:
  assumes "lock_nap k (Some (extend_wait k known snapshot)) holder elapsed = Some n" and "0 < lw_poll k"
  shows "0 < n \<and> elapsed + n \<le> max (lw_wait k) (lw_ceiling k)"
  using assms
  by (auto simp: lock_nap_def extend_wait_def CHECK_POLL_S_def split: if_split_asm lock_read.split_asm option.split_asm)

subsection \<open>What a sweep says of the lock\<close>

text \<open>The run a lock names: \<open>None\<close> not in the store, else its phase and whether it ended. \<open>None\<close>: the read raises.\<close>

datatype swept_lock = LockRemoved | LockInUse | LockGone

datatype lock_line =
    NamesNoRun
  | HeldByRun nat string "int option"
  | StaleLock nat bool
  | SweptLock nat bool swept_lock

definition merge_lock_lines ::
    "(nat \<Rightarrow> (string \<times> bool) option) \<Rightarrow> bool \<Rightarrow> swept_lock \<Rightarrow> int lock_read \<Rightarrow> int \<Rightarrow> lock_line list option" where
  "merge_lock_lines snapshot act outcome holder now =
     (case holder of
        BadStamp \<Rightarrow> None
      | NoLock \<Rightarrow> Some []
      | LockBy None _ \<Rightarrow> Some [NamesNoRun]
      | LockBy (Some rid) taken \<Rightarrow>
          (case snapshot rid of
             Some (phase, False) \<Rightarrow> Some [HeldByRun rid phase (map_option (\<lambda>t. now - t) taken)]
           | gone \<Rightarrow> Some [if act then SweptLock rid (gone \<noteq> None) outcome else StaleLock rid (gone \<noteq> None)]))"

subsection \<open>The lock as steps of processes\<close>

text \<open>
  Where a process is in the code. \<open>Asking\<close> to \<open>Flocked\<close> and \<open>Sweeping\<close> to \<open>Swept\<close> hold the arbiter;
  \<open>Inside\<close> is the body of the \<^verbatim>\<open>with\<close>; \<open>Leaving\<close> has read its own stamp back.
\<close>

datatype lock_pc =
    Away
  | Asking string
  | Made string nat
  | Flocked string nat
  | Inside string nat
  | Leaving string nat
  | Closing nat
  | Sweeping
  | Opened nat
  | Seized nat
  | Swept nat

record lock_world =
  lk_path :: "nat option"
  lk_text :: "nat \<Rightarrow> string"
  lk_flock :: "nat \<Rightarrow> nat option"
  lk_arbiter :: "nat option"
  lk_at :: "nat \<Rightarrow> lock_pc"
  lk_next :: nat

definition at_place :: "nat \<Rightarrow> lock_pc \<Rightarrow> lock_world \<Rightarrow> lock_world" where
  "at_place p l w = w\<lparr>lk_at := (lk_at w)(p := l)\<rparr>"

definition leave_arbiter :: "lock_world \<Rightarrow> lock_world" where
  "leave_arbiter w = w\<lparr>lk_arbiter := None\<rparr>"

definition drop_flock :: "nat \<Rightarrow> lock_world \<Rightarrow> lock_world" where
  "drop_flock i w = w\<lparr>lk_flock := (lk_flock w)(i := None)\<rparr>"

text \<open>A process that ends gives up its flocks and the arbiter, and leaves the file.\<close>

definition died :: "nat \<Rightarrow> lock_world \<Rightarrow> lock_world" where
  "died p w = at_place p Away
     (w\<lparr>lk_flock := (\<lambda>i. if lk_flock w i = Some p then None else lk_flock w i),
       lk_arbiter := (if lk_arbiter w = Some p then None else lk_arbiter w)\<rparr>)"

inductive lock_step :: "lock_world \<Rightarrow> lock_world \<Rightarrow> bool" where
  ask: "lk_at w p = Away \<Longrightarrow> lk_arbiter w = None \<Longrightarrow> lock_step w (at_place p (Asking t) (w\<lparr>lk_arbiter := Some p\<rparr>))"
| busy: "lk_at w p = Asking t \<Longrightarrow> lk_path w = Some i \<Longrightarrow> lock_step w (at_place p Away (leave_arbiter w))"
| make: "lk_at w p = Asking t \<Longrightarrow> lk_path w = None
    \<Longrightarrow> lock_step w (at_place p (Made t (lk_next w))
          (w\<lparr>lk_path := Some (lk_next w), lk_text := (lk_text w)(lk_next w := []), lk_next := lk_next w + 1\<rparr>))"
| flock: "lk_at w p = Made t i \<Longrightarrow> lk_flock w i = None
    \<Longrightarrow> lock_step w (at_place p (Flocked t i) (w\<lparr>lk_flock := (lk_flock w)(i := Some p)\<rparr>))"
| refused: "lk_at w p = Made t i \<Longrightarrow> lk_flock w i \<noteq> None \<Longrightarrow> lock_step w (at_place p Away (leave_arbiter w))"
| wrote: "lk_at w p = Flocked t i
    \<Longrightarrow> lock_step w (at_place p (Inside t i) (leave_arbiter (w\<lparr>lk_text := (lk_text w)(i := t)\<rparr>)))"
| own: "lk_at w p = Inside t i \<Longrightarrow> lk_path w = Some j \<Longrightarrow> lk_text w j = t \<Longrightarrow> lock_step w (at_place p (Leaving t i) w)"
| not_own: "lk_at w p = Inside t i \<Longrightarrow> (case lk_path w of None \<Rightarrow> True | Some j \<Rightarrow> lk_text w j \<noteq> t)
    \<Longrightarrow> lock_step w (at_place p (Closing i) w)"
| unlinked: "lk_at w p = Leaving t i \<Longrightarrow> lock_step w (at_place p (Closing i) (w\<lparr>lk_path := None\<rparr>))"
| closed: "lk_at w p = Closing i \<Longrightarrow> lock_step w (at_place p Away (drop_flock i w))"
| sweep: "lk_at w p = Away \<Longrightarrow> lk_arbiter w = None \<Longrightarrow> lock_step w (at_place p Sweeping (w\<lparr>lk_arbiter := Some p\<rparr>))"
| gone: "lk_at w p = Sweeping \<Longrightarrow> lk_path w = None \<Longrightarrow> lock_step w (at_place p Away (leave_arbiter w))"
| opened: "lk_at w p = Sweeping \<Longrightarrow> lk_path w = Some i \<Longrightarrow> lock_step w (at_place p (Opened i) w)"
| in_use: "lk_at w p = Opened i \<Longrightarrow> lk_flock w i \<noteq> None \<Longrightarrow> lock_step w (at_place p Away (leave_arbiter w))"
| seized: "lk_at w p = Opened i \<Longrightarrow> lk_flock w i = None
    \<Longrightarrow> lock_step w (at_place p (Seized i) (w\<lparr>lk_flock := (lk_flock w)(i := Some p)\<rparr>))"
| removed: "lk_at w p = Seized i \<Longrightarrow> lock_step w (at_place p (Swept i) (w\<lparr>lk_path := None\<rparr>))"
| swept: "lk_at w p = Swept i \<Longrightarrow> lock_step w (at_place p Away (leave_arbiter (drop_flock i w)))"
| dies: "lock_step w (died p w)"

definition lock_start :: lock_world where
  "lock_start = \<lparr>lk_path = None, lk_text = (\<lambda>_. []), lk_flock = (\<lambda>_. None), lk_arbiter = None,
     lk_at = (\<lambda>_. Away), lk_next = 0\<rparr>"

subsection \<open>The invariant\<close>

fun arbitrating :: "lock_pc \<Rightarrow> bool" where
  "arbitrating Away = False"
| "arbitrating (Inside _ _) = False"
| "arbitrating (Leaving _ _) = False"
| "arbitrating (Closing _) = False"
| "arbitrating _ = True"

text \<open>The file a process has locked.\<close>

fun flocks :: "lock_pc \<Rightarrow> nat option" where
  "flocks (Flocked _ i) = Some i"
| "flocks (Inside _ i) = Some i"
| "flocks (Leaving _ i) = Some i"
| "flocks (Closing i) = Some i"
| "flocks (Seized i) = Some i"
| "flocks (Swept i) = Some i"
| "flocks _ = None"

text \<open>The file a process made or holds as the lock, which the path must name.\<close>

fun owns :: "lock_pc \<Rightarrow> nat option" where
  "owns (Made _ i) = Some i"
| "owns (Flocked _ i) = Some i"
| "owns (Inside _ i) = Some i"
| "owns (Leaving _ i) = Some i"
| "owns _ = None"

fun stamped :: "lock_pc \<Rightarrow> (nat \<times> string) option" where
  "stamped (Inside t i) = Some (i, t)"
| "stamped (Leaving t i) = Some (i, t)"
| "stamped _ = None"

fun looks_at :: "lock_pc \<Rightarrow> nat option" where
  "looks_at (Opened i) = Some i"
| "looks_at (Seized i) = Some i"
| "looks_at _ = None"

fun fresh :: "lock_pc \<Rightarrow> nat option" where
  "fresh (Made _ i) = Some i"
| "fresh _ = None"

definition lock_ok :: "lock_world \<Rightarrow> bool" where
  "lock_ok w \<longleftrightarrow>
     (\<forall>p. arbitrating (lk_at w p) \<longleftrightarrow> lk_arbiter w = Some p)
   \<and> (\<forall>p i. lk_flock w i = Some p \<longleftrightarrow> flocks (lk_at w p) = Some i)
   \<and> (\<forall>p i. owns (lk_at w p) = Some i \<longrightarrow> lk_path w = Some i)
   \<and> (\<forall>p i. fresh (lk_at w p) = Some i \<longrightarrow> lk_flock w i = None)
   \<and> (\<forall>p i t. stamped (lk_at w p) = Some (i, t) \<longrightarrow> lk_text w i = t)
   \<and> (\<forall>p i. looks_at (lk_at w p) = Some i \<longrightarrow> lk_path w \<in> {None, Some i})
   \<and> (\<forall>i. lk_flock w i \<noteq> None \<longrightarrow> i < lk_next w) \<and> (\<forall>i. lk_path w = Some i \<longrightarrow> i < lk_next w)
   \<and> (\<forall>p i. looks_at (lk_at w p) = Some i \<longrightarrow> i < lk_next w)"

lemma lock_start_ok: "lock_ok lock_start"
  by (simp add: lock_ok_def lock_start_def)

lemmas lock_effects = at_place_def leave_arbiter_def drop_flock_def died_def


lemma lock_okD:
  assumes "lock_ok w"
  shows "\<And>p. arbitrating (lk_at w p) \<longleftrightarrow> lk_arbiter w = Some p"
    and "\<And>p i. lk_flock w i = Some p \<longleftrightarrow> flocks (lk_at w p) = Some i"
    and "\<And>p i. owns (lk_at w p) = Some i \<Longrightarrow> lk_path w = Some i"
    and "\<And>p i. fresh (lk_at w p) = Some i \<Longrightarrow> lk_flock w i = None"
    and "\<And>p i t. stamped (lk_at w p) = Some (i, t) \<Longrightarrow> lk_text w i = t"
    and "\<And>p i. looks_at (lk_at w p) = Some i \<Longrightarrow> lk_path w \<in> {None, Some i}"
    and "\<And>i q. lk_flock w i = Some q \<Longrightarrow> i < lk_next w"
    and "\<And>i. lk_path w = Some i \<Longrightarrow> i < lk_next w"
    and "\<And>p i. looks_at (lk_at w p) = Some i \<Longrightarrow> i < lk_next w"
  using assms unfolding lock_ok_def by blast+

lemma owns_flocks: "owns l = Some i \<Longrightarrow> flocks l = Some i \<or> fresh l = Some i"
  by (cases l) simp_all

lemma fresh_arbitrating: "fresh l = Some i \<Longrightarrow> arbitrating l"
  by (cases l) simp_all

lemma looks_arbitrating: "looks_at l = Some i \<Longrightarrow> arbitrating l"
  by (cases l) simp_all

lemma fresh_owns: "fresh l = Some i \<Longrightarrow> owns l = Some i"
  by (cases l) simp_all

lemma stamped_owns: "stamped l = Some (i, t) \<Longrightarrow> owns l = Some i \<and> flocks l = Some i"
  by (cases l) simp_all

lemma flocks_unique: "lock_ok w \<Longrightarrow> flocks (lk_at w p) = Some i \<Longrightarrow> flocks (lk_at w q) = Some i \<Longrightarrow> p = q"
  using lock_okD(2) by (metis option.inject)

lemma unlocked_free: "lock_ok w \<Longrightarrow> lk_flock w i = None \<Longrightarrow> flocks (lk_at w q) \<noteq> Some i"
  using lock_okD(2) [of w i q] by simp

lemma owner_unique:
  assumes "lock_ok w" and "flocks (lk_at w p) = Some i" and "lk_path w \<in> {None, Some i}" and "q \<noteq> p"
  shows "owns (lk_at w q) = None"
proof (rule ccontr)
  assume "owns (lk_at w q) \<noteq> None"
  then obtain j where j: "owns (lk_at w q) = Some j" by blast
  with lock_okD(3) [OF assms(1) j] assms(3) have own: "owns (lk_at w q) = Some i" by simp
  from owns_flocks [OF own] show False
  proof
    assume "flocks (lk_at w q) = Some i"
    with flocks_unique [OF assms(1) assms(2)] assms(4) show False by blast
  next
    assume "fresh (lk_at w q) = Some i"
    from lock_okD(4) [OF assms(1) this] unlocked_free [OF assms(1)] assms(2) show False by blast
  qed
qed

text \<open>What the steps use of the invariant.\<close>

lemma sole_holder: "lock_ok w \<Longrightarrow> flocks (lk_at w p) = Some i \<Longrightarrow> \<forall>q. flocks (lk_at w q) = Some i \<longrightarrow> q = p"
  using flocks_unique by blast

lemma sole_stamp:
  "lock_ok w \<Longrightarrow> flocks (lk_at w p) = Some i \<Longrightarrow> \<forall>q t. stamped (lk_at w q) = Some (i, t) \<longrightarrow> q = p"
  using flocks_unique stamped_owns by blast

lemma no_holder: "lock_ok w \<Longrightarrow> lk_flock w i = None \<Longrightarrow> \<forall>q. flocks (lk_at w q) \<noteq> Some i"
  using unlocked_free by blast

lemma sole_owner:
  "lock_ok w \<Longrightarrow> flocks (lk_at w p) = Some i \<Longrightarrow> lk_path w \<in> {None, Some i} \<Longrightarrow> \<forall>q. q \<noteq> p \<longrightarrow> owns (lk_at w q) = None"
  using owner_unique by blast

lemma new_file:
  assumes "lock_ok w" and "lk_path w = None"
  shows "lk_flock w (lk_next w) = None" and "\<forall>q k t. stamped (lk_at w q) \<noteq> Some (k, t)"
    and "\<forall>q k. flocks (lk_at w q) = Some k \<longrightarrow> k < Suc (lk_next w)"
proof -
  show "lk_flock w (lk_next w) = None"
    using lock_okD(7) [OF assms(1), of "lk_next w"] by (cases "lk_flock w (lk_next w)") auto
  show "\<forall>q k t. stamped (lk_at w q) \<noteq> Some (k, t)"
    using stamped_owns lock_okD(3) [OF assms(1)] assms(2) by fastforce
  show "\<forall>q k. flocks (lk_at w q) = Some k \<longrightarrow> k < Suc (lk_next w)"
    using lock_okD(2,7) [OF assms(1)] less_SucI by blast
qed

lemmas lock_place = owns_flocks fresh_arbitrating looks_arbitrating

lemma lock_step_ok:
  assumes step: "lock_step w w'" and ok: "lock_ok w"
  shows "lock_ok w'"
  using step
proof cases
  case (ask p t)
  from ask ok lock_okD(1) [OF ok, of p] show ?thesis
    unfolding lock_ok_def lock_effects by (auto split: if_splits dest: lock_place)
next
  case (busy p t i)
  from busy ok lock_okD(1) [OF ok, of p] show ?thesis
    unfolding lock_ok_def lock_effects by (auto split: if_splits dest: lock_place)
next
  case (make p t)
  from make ok lock_okD(1) [OF ok, of p] new_file [OF ok make(3)] show ?thesis
    unfolding lock_ok_def lock_effects by (auto split: if_splits dest: lock_place)
next
  case (flock p t i)
  have extra: "lk_path w = Some i \<and> i < lk_next w" using lock_okD(3) [OF ok, of p i] lock_okD(8) [OF ok, of i] flock(2) by simp
  from flock ok lock_okD(1) [OF ok, of p] no_holder [OF ok flock(3)] extra show ?thesis
    unfolding lock_ok_def lock_effects by (auto split: if_splits dest: lock_place)
next
  case (refused p t i)
  from refused ok lock_okD(1) [OF ok, of p] show ?thesis
    unfolding lock_ok_def lock_effects by (auto split: if_splits dest: lock_place)
next
  case (wrote p t i)
  have stamp: "\<forall>q t. stamped (lk_at w q) = Some (i, t) \<longrightarrow> q = p" using sole_stamp [OF ok, of p i] wrote(2) by simp
  have extra: "lk_path w = Some i" using lock_okD(3) [OF ok, of p i] wrote(2) by simp
  from wrote ok lock_okD(1) [OF ok, of p] stamp extra show ?thesis
    unfolding lock_ok_def lock_effects by (auto split: if_splits dest: lock_place)
next
  case (own p t i j)
  have extra: "lk_path w = Some i \<and> lk_text w i = t" using lock_okD(3) [OF ok, of p i] lock_okD(5) [OF ok, of p i t] own(2) by simp
  from own ok lock_okD(1) [OF ok, of p] extra show ?thesis
    unfolding lock_ok_def lock_effects by (auto split: if_splits dest: lock_place)
next
  case (not_own p t i)
  from not_own ok lock_okD(1) [OF ok, of p] show ?thesis
    unfolding lock_ok_def lock_effects by (auto split: if_splits dest: lock_place)
next
  case (unlinked p t i)
  have extra: "\<forall>q. q \<noteq> p \<longrightarrow> owns (lk_at w q) = None" using sole_owner [OF ok, of p i] lock_okD(3) [OF ok, of p i] unlinked(2) by simp
  from unlinked ok lock_okD(1) [OF ok, of p] extra show ?thesis
    unfolding lock_ok_def lock_effects by (auto split: if_splits dest: lock_place)
next
  case (closed p i)
  have extra: "\<forall>q. flocks (lk_at w q) = Some i \<longrightarrow> q = p" using sole_holder [OF ok, of p i] closed(2) by simp
  from closed ok lock_okD(1) [OF ok, of p] extra show ?thesis
    unfolding lock_ok_def lock_effects by (auto split: if_splits dest: lock_place)
next
  case (sweep p)
  from sweep ok lock_okD(1) [OF ok, of p] show ?thesis
    unfolding lock_ok_def lock_effects by (auto split: if_splits dest: lock_place)
next
  case (gone p)
  from gone ok lock_okD(1) [OF ok, of p] show ?thesis
    unfolding lock_ok_def lock_effects by (auto split: if_splits dest: lock_place)
next
  case (opened p i)
  from opened ok lock_okD(1) [OF ok, of p] show ?thesis
    unfolding lock_ok_def lock_effects by (auto split: if_splits dest: lock_place)
next
  case (in_use p i)
  from in_use ok lock_okD(1) [OF ok, of p] show ?thesis
    unfolding lock_ok_def lock_effects by (auto split: if_splits dest: lock_place)
next
  case (seized p i)
  have extra: "(lk_path w = None \<or> lk_path w = Some i) \<and> i < lk_next w" using lock_okD(6,9) [OF ok, of p i] seized(2) by simp
  from seized ok lock_okD(1) [OF ok, of p] no_holder [OF ok seized(3)] extra show ?thesis
    unfolding lock_ok_def lock_effects by (auto split: if_splits dest: lock_place)
next
  case (removed p i)
  have extra: "\<forall>q. q \<noteq> p \<longrightarrow> owns (lk_at w q) = None" using sole_owner [OF ok, of p i] lock_okD(6) [OF ok, of p i] removed(2) by simp
  from removed ok lock_okD(1) [OF ok, of p] extra show ?thesis
    unfolding lock_ok_def lock_effects by (auto split: if_splits dest: lock_place)
next
  case (swept p i)
  have extra: "\<forall>q. flocks (lk_at w q) = Some i \<longrightarrow> q = p" using sole_holder [OF ok, of p i] swept(2) by simp
  from swept ok lock_okD(1) [OF ok, of p] extra show ?thesis
    unfolding lock_ok_def lock_effects by (auto split: if_splits dest: lock_place)
next
  case (dies p)
  have extra: "\<forall>i q. flocks (lk_at w p) = Some i \<longrightarrow> flocks (lk_at w q) = Some i \<longrightarrow> q = p" using flocks_unique [OF ok, of p] by blast
  from dies ok lock_okD(1) [OF ok, of p] extra show ?thesis
    unfolding lock_ok_def lock_effects by (auto split: if_splits dest: lock_place)
qed

subsection \<open>A lock with one holder\<close>

text \<open>The abstract lock is its holder: taken when free, given back. The concrete one implements it: the
  holder is who flocked the file the path names and is inside or on its way out.\<close>

inductive lock_use :: "nat option \<Rightarrow> nat option \<Rightarrow> bool" where
  taken: "lock_use None (Some p)"
| given_back: "lock_use (Some p) None"

fun guarding :: "lock_pc \<Rightarrow> bool" where
  "guarding (Inside _ _) = True"
| "guarding (Leaving _ _) = True"
| "guarding _ = False"

definition lock_holder :: "lock_world \<Rightarrow> nat option" where
  "lock_holder w =
     (case lk_path w of
        None \<Rightarrow> None
      | Some i \<Rightarrow> (case lk_flock w i of None \<Rightarrow> None | Some p \<Rightarrow> if guarding (lk_at w p) then Some p else None))"

lemma guarding_owns: "guarding l \<Longrightarrow> \<exists>i. owns l = Some i \<and> flocks l = Some i"
  by (cases l) simp_all

lemma lock_holder_iff:
  assumes "lock_ok w"
  shows "lock_holder w = Some p \<longleftrightarrow> guarding (lk_at w p)"
proof
  assume "guarding (lk_at w p)"
  moreover from guarding_owns [OF this] obtain i where "owns (lk_at w p) = Some i" "flocks (lk_at w p) = Some i" by blast
  with lock_okD(2,3) [OF assms] have "lk_path w = Some i" "lk_flock w i = Some p" by blast+
  ultimately show "lock_holder w = Some p" by (simp add: lock_holder_def)
qed (auto simp: lock_holder_def split: option.split_asm if_split_asm)

lemma lock_step_mover: "lock_step w w' \<Longrightarrow> \<exists>p. \<forall>q. q \<noteq> p \<longrightarrow> lk_at w' q = lk_at w q"
  by (induction rule: lock_step.induct) (auto simp: lock_effects)

lemma lock_step_holder:
  assumes step: "lock_step w w'" and ok: "lock_ok w"
  shows "lock_holder w' = lock_holder w \<or> lock_use (lock_holder w) (lock_holder w')"
proof (cases "lock_holder w")
  case None
  then show ?thesis by (cases "lock_holder w'") (auto intro: lock_use.taken)
next
  case (Some q)
  obtain p where p: "\<And>r. r \<noteq> p \<Longrightarrow> lk_at w' r = lk_at w r" using lock_step_mover [OF step] by blast
  note before = lock_holder_iff [OF ok] and later = lock_holder_iff [OF lock_step_ok [OF step ok]]
  show ?thesis
  proof (cases "lock_holder w'")
    case None
    with Some show ?thesis by (auto intro: lock_use.given_back)
  next
    case new: (Some r)
    have "r = q"
    proof (rule ccontr)
      assume "r \<noteq> q"
      show False
      proof (cases "q = p")
        case True
        with p [of r] \<open>r \<noteq> q\<close> later [of r] before [of r] new Some show False by simp
      next
        case False
        with p [of q] later [of q] before [of q] new Some \<open>r \<noteq> q\<close> show False by simp
      qed
    qed
    with Some new show ?thesis by simp
  qed
qed

interpretation lock: implements lock_step lock_start lock_ok lock_holder lock_use
  by unfold_locales (auto intro: lock_start_ok lock_step_ok dest: lock_step_holder)

subsection \<open>What the lock gives\<close>

lemma inside_holds: "lock_ok w \<Longrightarrow> lk_at w p = Inside t i \<Longrightarrow> lock_holder w = Some p"
  by (simp add: lock_holder_iff)

lemma inside_alone:
  assumes "lock_ok w" and "lk_at w p = Inside t i" and "lk_at w q = Inside u j"
  shows "p = q \<and> lk_path w = Some i \<and> lk_text w i = t \<and> lk_flock w i = Some p"
proof -
  from lock_okD(3) [OF assms(1), of p i] lock_okD(3) [OF assms(1), of q j] assms(2,3)
  have path: "lk_path w = Some i" "lk_path w = Some j" by simp_all
  with flocks_unique [OF assms(1), of p i q] assms(2,3) have "p = q" by simp
  with path(1) lock_okD(2) [OF assms(1), of i p] lock_okD(5) [OF assms(1), of p i t] assms(2) show ?thesis by simp
qed

text \<open>The path loses its file only by its own holder on its way out, or by a sweep of a dead holder's.\<close>

lemma unlink_cases:
  assumes "lock_ok w" and "lock_step w w'" and "lk_path w = Some i" and "lk_path w' = None"
  shows "\<exists>p. (\<exists>t. lk_at w p = Leaving t i) \<or> lk_at w p = Seized i \<and> lk_flock w i = Some p"
  using assms(2)
proof cases
  case (unlinked p t k)
  with lock_okD(3) [OF assms(1), of p k] assms(3) show ?thesis by auto
next
  case (removed p k)
  with lock_okD(6) [OF assms(1), of p k] lock_okD(2) [OF assms(1), of k p] assms(3) show ?thesis by auto
qed (use assms(3,4) in \<open>auto simp: lock_effects\<close>)

lemma swept_dead:
  assumes "lock_ok w" and "lock_step w w'" and "lk_path w \<noteq> None" and "lk_path w' = None"
  shows "lk_at w' q \<noteq> Inside t i"
proof
  assume q: "lk_at w' q = Inside t i"
  from lock_step_ok [OF assms(2,1)] lock_okD(3) [of w' q i] q have "lk_path w' = Some i" by simp
  with assms(4) show False by simp
qed

text \<open>The flock a process asks for under the arbiter is never refused.\<close>

lemma flock_granted: "lock_ok w \<Longrightarrow> lk_at w p = Made t i \<Longrightarrow> lk_flock w i = None"
  using lock_okD(4) [of w p i] by simp

text \<open>A file whose holder is dead is removed by any sweep that finds the arbiter free.\<close>

lemma stale_removed:
  assumes "lk_path w = Some i" and "lk_flock w i = None" and "lk_arbiter w = None" and "lk_at w p = Away"
  shows "\<exists>w'. lock_step\<^sup>*\<^sup>* w w' \<and> lk_path w' = None \<and> lk_arbiter w' = None \<and> lk_at w' = lk_at w"
proof -
  define w1 where "w1 = at_place p Sweeping (w\<lparr>lk_arbiter := Some p\<rparr>)"
  define w2 where "w2 = at_place p (Opened i) w1"
  define w3 where "w3 = at_place p (Seized i) (w2\<lparr>lk_flock := (lk_flock w2)(i := Some p)\<rparr>)"
  define w4 where "w4 = at_place p (Swept i) (w3\<lparr>lk_path := None\<rparr>)"
  define w5 where "w5 = at_place p Away (leave_arbiter (drop_flock i w4))"
  note ws = w1_def w2_def w3_def w4_def w5_def lock_effects
  have "lock_step w w1" unfolding w1_def using assms by (intro lock_step.sweep)
  moreover have "lock_step w1 w2" unfolding w2_def using assms by (intro lock_step.opened) (simp_all add: w1_def lock_effects)
  moreover have "lock_step w2 w3" unfolding w3_def using assms by (intro lock_step.seized) (simp_all add: ws)
  moreover have "lock_step w3 w4" unfolding w4_def by (intro lock_step.removed) (simp add: w3_def lock_effects)
  moreover have "lock_step w4 w5" unfolding w5_def by (intro lock_step.swept) (simp add: w4_def lock_effects)
  ultimately have "lock_step\<^sup>*\<^sup>* w w5" by (meson converse_rtranclp_into_rtranclp rtranclp.rtrancl_refl)
  moreover have "lk_path w5 = None" "lk_arbiter w5 = None" "lk_at w5 = lk_at w" using assms(4) by (auto simp: ws)
  ultimately show ?thesis by blast
qed

end
