(* ===== verification/Replies.thy ===== *)
theory Replies
  imports Consolidate
begin

section \<open>Replies: a reviewer's reply, its verdict and its findings\<close>

text \<open>
  The reading half of \<^verbatim>\<open>holophyte/review/reply_parsing.py\<close>, and \<^verbatim>\<open>fence_flags\<close> and
  \<^verbatim>\<open>terminal_verdict\<close> of \<^verbatim>\<open>holophyte/review/review_runner.py\<close>: which lines of a reply stand in a
  code fence, the verdict that ends it, its findings as records, and the accounts it gives of the
  ticket's criteria and of the files outside its scope. \<^verbatim>\<open>Exception\<close> of \<^verbatim>\<open>terminal_verdict\<close> is \<open>None\<close>.

  The two signs of the messages beyond U+00FF (the ellipsis of \<^verbatim>\<open>TRUNCATION_MARKER\<close> and the long
  dash) and \<^verbatim>\<open>hashlib.sha256\<close> are a \<open>signs\<close> argument; the dashes beyond U+00FF of a pattern's class
  match no character here. \<^verbatim>\<open>UNPARSED_PATH\<close> is declared in Consolidate.

  The lemmas: an accepted verdict is the reply's last line and its only one; cutting a reply into
  blocks loses no line; a sanitized text holds no control character and keeps its bound.
\<close>

record signs =
  sg_ellipsis :: string
  sg_dash :: string
  sg_sha256 :: "string \<Rightarrow> string"

definition NL :: char where "NL = CHR 0x0A"

subsection \<open>Code fences and the verdict\<close>

definition list_mark :: re where
  "list_mark = alts [any_of ''-*+'', seq [plus digit, any_of ''.)'']]"

definition tabs :: re where "tabs = star (any_of ('' '' @ [CHR 9]))"
definition tabs1 :: re where "tabs1 = plus (any_of ('' '' @ [CHR 9]))"

definition LINE_FENCE_RE :: re where
  "LINE_FENCE_RE = seq [tabs, maybe (Grp 1 (seq [list_mark, tabs1])),
     Grp 2 (alts [Rep True 3 None (ch CHR 0x60), Rep True 3 None (ch CHR 0x7E)]), Grp 3 (star dot)]"

definition fence_run :: "string \<Rightarrow> string" where
  "fence_run line = (case re_match LINE_FENCE_RE line of None \<Rightarrow> [] | Some m \<Rightarrow> group_text 2 m)"

definition fence_rest :: "string \<Rightarrow> string" where
  "fence_rest line = (case re_match LINE_FENCE_RE line of None \<Rightarrow> [] | Some m \<Rightarrow> group_text 3 m)"

definition fence_indent :: "string \<Rightarrow> nat" where
  "fence_indent line =
     (case re_match LINE_FENCE_RE line of None \<Rightarrow> 0 | Some m \<Rightarrow> if group_text 1 m \<noteq> [] then group_start 2 m else 0)"

fun fence_flags :: "string \<Rightarrow> nat \<Rightarrow> string list \<Rightarrow> (string \<times> bool) list" where
  "fence_flags fence indent [] = []"
| "fence_flags fence indent (line # lines) =
     (let run = fence_run line; tail = fence_rest line;
          fence = (if fence \<noteq> [] \<and> \<not> blank line \<and> length line - length (py_lstrip line) < indent then [] else fence)
      in if fence = [] \<and> run \<noteq> [] \<and> \<not> (hd run = CHR 0x60 \<and> CHR 0x60 \<in> set tail)
         then (line, True) # fence_flags run (fence_indent line) lines
         else if fence \<noteq> [] \<and> py_prefix fence run \<and> blank tail then (line, True) # fence_flags [] indent lines
         else if fence = [] then (line, False) # fence_flags [] indent lines
         else (line, True) # fence_flags fence indent lines)"

definition unwrapped :: "string \<Rightarrow> string" where
  "unwrapped line =
     (case find (\<lambda>t. 2 * length t < length line \<and> py_prefix t line \<and> py_suffix t line) [''**'', ''__'', [CHR 0x60]] of
        None \<Rightarrow> line | Some t \<Rightarrow> drop (length t) (take (length line - length t) line))"

definition REVIEW_VERDICTS :: "string list" where
  "REVIEW_VERDICTS = [''APPROVE'', ''REQUEST_CHANGES'']"

definition ADJUDICATION_VERDICTS :: "string list" where
  "ADJUDICATION_VERDICTS = [''PASS'', ''FAIL'']"

definition verdict_lines :: "string \<Rightarrow> string list" where
  "verdict_lines message =
     map (\<lambda>(line, fenced). if fenced then py_strip line else unwrapped (py_strip line))
       (filter (\<lambda>(line, fenced). py_strip line \<noteq> []) (fence_flags [] 0 (py_splitlines message)))"

definition terminal_verdict :: "string list \<Rightarrow> string \<Rightarrow> string option" where
  "terminal_verdict verdicts message =
     (let allowed = map (append ''VERDICT: '') verdicts; lines = verdict_lines message;
          found = filter (\<lambda>line. line \<in> set allowed) lines
      in if length found \<noteq> 1 \<or> last lines \<noteq> hd found then None
         else Some (remove_prefix ''VERDICT: '' (hd found)))"

datatype round_result = RoundPass | RoundChanges | RoundError

text \<open>\<^verbatim>\<open>round_verdict\<close>.\<close>

definition round_verdict :: "string list \<Rightarrow> string \<Rightarrow> round_result" where
  "round_verdict verdicts reply =
     (case terminal_verdict verdicts reply of
        None \<Rightarrow> RoundError
      | Some v \<Rightarrow> if v \<in> {''APPROVE'', ''PASS''} then RoundPass else RoundChanges)"

subsection \<open>Sanitizing\<close>

definition ANSI_CSI_RE :: re where
  "ANSI_CSI_RE = seq [alts [seq [ch CHR 0x1B, ch CHR ''[''], ch CHR 0x9B],
     star (Chr (\<lambda>c. is_digit_char c \<or> c \<in> set '';?'')),
     star (Chr (\<lambda>c. let n = (of_char c :: nat) in 0x20 \<le> n \<and> n \<le> 0x2F)),
     Chr (\<lambda>c. let n = (of_char c :: nat) in 0x40 \<le> n \<and> n \<le> 0x7E)]"

definition control_char :: "char \<Rightarrow> bool" where
  "control_char c \<longleftrightarrow> (let n = (of_char c :: nat) in n \<le> 0x08 \<or> 0x0B \<le> n \<and> n \<le> 0x1F \<or> 0x7F \<le> n \<and> n \<le> 0x9F)"

definition CONTROL_RE :: re where "CONTROL_RE = Chr control_char"

definition SETEXT_RE :: re where
  "SETEXT_RE = seq [Bol True, Rep True 0 (Some 3) (ch CHR '' ''), Ahead False (Chr (\<lambda>c. c \<in> set ''-*+>#'' \<or> py_space c)),
     Grp 1 (plus_lazy dot), tabs, ch NL, Rep True 0 (Some 3) (ch CHR '' ''),
     alts [plus (ch CHR ''=''), plus (ch CHR ''-'')], tabs, Eol True]"

definition ATX_RE :: re where
  "ATX_RE = seq [Bol True, Rep True 0 (Some 3) (ch CHR '' ''), Grp 1 (Rep True 1 (Some 6) (ch CHR ''#'')), tabs1,
     Grp 2 (plus_lazy dot), star (any_of ('' #'' @ [CHR 9])), Eol True]"

definition MAX_VERDICT_CHARS :: nat where "MAX_VERDICT_CHARS = 200"

definition TRUNCATION_MARKER :: "signs \<Rightarrow> string" where
  "TRUNCATION_MARKER g = ''['' @ sg_ellipsis g @ '' truncated]''"

definition trailing_verdict :: "signs \<Rightarrow> string \<Rightarrow> string option" where
  "trailing_verdict g t =
     (let lines = filter (\<lambda>l. l \<noteq> []) (map py_strip (py_splitlines t))
      in if lines = [] \<or> \<not> py_prefix ''VERDICT:'' (last lines) then None
         else let verdict = last lines
              in Some (if length verdict > MAX_VERDICT_CHARS
                       then take (MAX_VERDICT_CHARS - length (TRUNCATION_MARKER g)) verdict @ TRUNCATION_MARKER g
                       else verdict))"

definition emphasized :: "nat \<Rightarrow> found \<Rightarrow> string" where
  "emphasized n m = ''**'' @ group_text n m @ ''**''"

definition plain_text :: "string \<Rightarrow> string" where
  "plain_text t =
     re_sub ATX_RE (emphasized 2) (re_sub SETEXT_RE (emphasized 1)
       (re_sub CONTROL_RE (\<lambda>_. []) (re_sub ANSI_CSI_RE (\<lambda>_. []) t)))"

definition before_last_newline :: "string \<Rightarrow> string" where
  "before_last_newline s = rev (tl (dropWhile (\<lambda>c. c \<noteq> NL) (rev s)))"

definition verdict_tail :: "signs \<Rightarrow> string \<Rightarrow> string" where
  "verdict_tail g t =
     [NL, NL] @ TRUNCATION_MARKER g @ (case trailing_verdict g t of None \<Rightarrow> [] | Some v \<Rightarrow> [NL, NL] @ v)"

text \<open>The limit is \<open>None\<close> for \<^verbatim>\<open>math.inf\<close>; the natural numbers' difference is the code's \<^verbatim>\<open>max(0, \<dots>)\<close>.\<close>

definition sanitize_findings :: "signs \<Rightarrow> nat option \<Rightarrow> string \<Rightarrow> string" where
  "sanitize_findings g limit s =
     (let t = plain_text s
      in case limit of
           None \<Rightarrow> t
         | Some n \<Rightarrow>
             if length t \<le> n then t
             else let tail = verdict_tail g t; head = take (n - length tail) t;
                      head = (if t ! length head \<noteq> NL \<and> NL \<in> set head then before_last_newline head else head)
                  in py_rstrip head @ tail)"

definition MAX_FINDING_CHARS :: nat where "MAX_FINDING_CHARS = 2000"

definition finding_message :: "signs \<Rightarrow> string \<Rightarrow> string" where
  "finding_message g s = py_strip (sanitize_findings g (Some MAX_FINDING_CHARS) s)"

definition unparsed_path :: "signs \<Rightarrow> string \<Rightarrow> string" where
  "unparsed_path g message =
     UNPARSED_PATH @ '':'' @ take 12 (sg_sha256 g (py_lower (join '' '' (py_words message))))"

subsection \<open>Blocks\<close>

definition BLOCK_BREAK_RE :: re where
  "BLOCK_BREAK_RE = seq [Bol False, star space, list_mark, plus space]"

definition closed_fence_flags :: "string list \<Rightarrow> bool list" where
  "closed_fence_flags lines =
     (let flags = map snd (fence_flags [] 0 lines);
          tail = length (dropWhile (\<lambda>fenced. fenced) (rev flags));
          close = (if lines = [] then None else re_match LINE_FENCE_RE (last lines))
      in if length flags - tail < 2 \<or> (case close of None \<Rightarrow> True | Some m \<Rightarrow> \<not> blank (group_text 3 m))
         then take tail flags @ replicate (length flags - tail) False else flags)"

definition block_step :: "string list \<times> string list \<Rightarrow> string \<times> bool \<Rightarrow> string list \<times> string list" where
  "block_step st lf =
     (let line = fst lf; fenced = snd lf;
          st = (if fenced \<and> snd st = [] \<and> fst st \<noteq> [] then (butlast (fst st), [last (fst st), []]) else st)
      in if \<not> fenced \<and> (blank line \<or> matches BLOCK_BREAK_RE line)
         then (if snd st \<noteq> [] then fst st @ [join [NL] (snd st)] else fst st, if blank line then [] else [line])
         else (fst st, snd st @ [line]))"

definition finding_blocks :: "string \<Rightarrow> string list" where
  "finding_blocks t =
     (let lines = py_splitlines t; st = foldl block_step ([], []) (zip lines (closed_fence_flags lines))
      in if snd st \<noteq> [] then fst st @ [join [NL] (snd st)] else fst st)"

definition unfenced :: "string \<Rightarrow> string" where
  "unfenced block =
     (let lines = py_splitlines block
      in join [NL] (map fst (filter (\<lambda>(line, fenced). \<not> fenced) (zip lines (closed_fence_flags lines)))))"

definition REFUTED_OPEN :: string where "REFUTED_OPEN = ''REFUTED FINDINGS (non-blocking)''"
definition REFUTED_CLOSE :: string where "REFUTED_CLOSE = ''END REFUTED FINDINGS''"

definition REFUTED_SECTION_RE :: re where
  "REFUTED_SECTION_RE = seq [Bol True, tabs, lit REFUTED_OPEN, star (any_of ('' '' @ [CHR 9, CHR 13])), Eol True,
     star_lazy dot_all, Bol True, tabs, lit REFUTED_CLOSE, star (any_of ('' '' @ [CHR 9, CHR 13])), Eol True,
     maybe (ch NL)]"

definition without_refuted :: "string \<Rightarrow> string" where
  "without_refuted reply = re_sub REFUTED_SECTION_RE (\<lambda>_. []) reply"

subsection \<open>Findings\<close>

definition finding_char :: "char \<Rightarrow> bool" where
  "finding_char c \<longleftrightarrow> word_char c \<or> c \<in> set ''.-''"

definition finding_or_slash :: "char \<Rightarrow> bool" where
  "finding_or_slash c \<longleftrightarrow> finding_char c \<or> c = CHR ''/''"

definition FINDING_PATH_RE :: re where
  "FINDING_PATH_RE = seq [Behind False (\<lambda>c. word_char c \<or> c \<in> set '':/.-''),
     Grp 1 (alts [seq [star (Chr finding_char), ch CHR ''/'', star (Chr finding_or_slash), ch CHR ''.'', plus word],
                  seq [star (Chr finding_or_slash), Chr (\<lambda>c. word_char c \<or> c = CHR ''-''), ch CHR ''.'',
                       Chr ascii_letter, plus word]]),
     maybe (seq [ch CHR '':'', Grp 2 (plus digit)])]"

definition MD_LINK_TARGET_RE :: re where
  "MD_LINK_TARGET_RE = seq [ch CHR ''['', star (none_of ('']'' @ [NL])), ch CHR '']'', ch CHR ''('',
     Grp 1 (plus (Chr (\<lambda>c. c \<noteq> CHR '')'' \<and> \<not> py_space c))), ch CHR '')'']"

definition WORKSPACE_PREFIXES :: "string list" where
  "WORKSPACE_PREFIXES = [''/workspace/'', ''/home/reviewer/candidate/'']"

definition severity_words :: re where
  "severity_words = alts [lit_i ''p0'', lit_i ''p1'', lit_i ''p2'', lit_i ''nit'', lit_i ''blocker'']"

definition SEVERITY_RE :: re where
  "SEVERITY_RE = alts [
     seq [any_of ''[('', star space, Grp 1 severity_words, star space, any_of ''])''],
     seq [Bol True, star (Chr (\<lambda>c. py_space c \<or> is_digit_char c \<or> c \<in> set ''-*.)'')),
          Grp 2 severity_words, Bnd, star space, any_of '':-'']]"

definition DEFAULT_SEVERITY :: string where "DEFAULT_SEVERITY = ''p2''"

definition FINDING_CATEGORIES :: "string list" where
  "FINDING_CATEGORIES = [''correctness'', ''security'', ''tests'', ''performance'', ''maintainability'', ''docs'']"

text \<open>Group 1 is \<^verbatim>\<open>head\<close>, group 2 \<^verbatim>\<open>category\<close>.\<close>

definition CATEGORY_TAG_RE :: re where
  "CATEGORY_TAG_RE = seq [Bol False,
     Grp 1 (seq [star space, maybe (seq [list_mark, plus space]),
       maybe (alts [
         seq [ch CHR ''['', star (none_of ('']'' @ [NL])), ch CHR '']'', ch CHR ''('',
              star (Chr (\<lambda>c. c \<noteq> CHR '')'' \<and> \<not> py_space c)), ch CHR '')''],
         seq [ch CHR 0x60, plus (Chr (\<lambda>c. c \<noteq> CHR 0x60 \<and> \<not> py_space c)), ch CHR 0x60],
         plus (Chr (\<lambda>c. c \<notin> {CHR ''['', CHR 0x60} \<and> \<not> py_space c))]), tabs]),
     maybe (seq [any_of ''[('', star space, severity_words, star space, any_of ''])'', tabs]),
     ch CHR ''['', star space, Grp 2 (alts (map lit_i FINDING_CATEGORIES)), star space, ch CHR '']'',
     Ahead False (ch CHR ''(''), tabs]"

definition first_line :: "string \<Rightarrow> string" where
  "first_line block = takeWhile (\<lambda>c. c \<noteq> NL) block"

definition citation :: "string \<Rightarrow> string" where
  "citation block =
     (case re_search MD_LINK_TARGET_RE block of
        None \<Rightarrow> block
      | Some m \<Rightarrow> (let target = group_text 1 m
          in case find (\<lambda>p. py_prefix p target) WORKSPACE_PREFIXES of
               None \<Rightarrow> target | Some p \<Rightarrow> drop (length p) target))"

definition finding_severity :: "string \<Rightarrow> string" where
  "finding_severity block =
     (case re_search SEVERITY_RE block of
        None \<Rightarrow> DEFAULT_SEVERITY
      | Some m \<Rightarrow> (let marker = py_lower (if group_text 1 m \<noteq> [] then group_text 1 m else group_text 2 m)
          in if marker = ''blocker'' then ''p0'' else marker))"

definition finding_category :: "signs \<Rightarrow> string \<Rightarrow> string option" where
  "finding_category g block =
     map_option (\<lambda>m. py_lower (group_text 2 m))
       (re_search CATEGORY_TAG_RE (first_line (sanitize_findings g None block)))"

definition without_category :: "string \<Rightarrow> string" where
  "without_category message =
     (let first = first_line message
      in (case re_search CATEGORY_TAG_RE first of
            None \<Rightarrow> first | Some m \<Rightarrow> f_before m @ group_text 1 m @ f_after m)
         @ drop (length first) message)"

definition line_of_digits :: "string \<Rightarrow> int option" where
  "line_of_digits d = (if d \<noteq> [] \<and> 0 < nat_of_digits d then Some (int (nat_of_digits d)) else None)"

definition finding_place :: "string \<Rightarrow> found option" where
  "finding_place block =
     (case re_search FINDING_PATH_RE (citation (unfenced block)) of
        Some m \<Rightarrow> Some m | None \<Rightarrow> re_search FINDING_PATH_RE (citation block))"

definition block_finding :: "signs \<Rightarrow> string \<Rightarrow> raw_finding option" where
  "block_finding g block =
     (let place = finding_place block; message = finding_message g block
      in if place = None \<and> \<not> matches BLOCK_BREAK_RE block \<or> message = [] then None
         else Some \<lparr>rf_path = (case place of None \<Rightarrow> unparsed_path g message | Some m \<Rightarrow> group_text 1 m),
                rf_line = (case place of None \<Rightarrow> None | Some m \<Rightarrow> line_of_digits (group_text 2 m)),
                rf_severity = Some (finding_severity block), rf_message = without_category message,
                rf_evidence = None, rf_category = finding_category g block\<rparr>)"

text \<open>\<^verbatim>\<open>raw_finding\<close>.\<close>

definition whole_finding :: "signs \<Rightarrow> string \<Rightarrow> raw_finding" where
  "whole_finding g reply =
     (let message = finding_message g reply
      in \<lparr>rf_path = unparsed_path g message, rf_line = None, rf_severity = Some DEFAULT_SEVERITY,
          rf_message = message, rf_evidence = None, rf_category = None\<rparr>)"

subsection \<open>The accounts of criteria and of scope\<close>

text \<open>
  The groups of \<open>CRITERION_LINE_RE\<close>: 1 \<^verbatim>\<open>open\<close>, 2 \<^verbatim>\<open>n\<close>, 3 \<^verbatim>\<open>status\<close>, 4 \<^verbatim>\<open>close\<close>, 5 \<^verbatim>\<open>note\<close>. The code's
  \<^verbatim>\<open>(?P<close>(?P=open))? \<dots> (?(close)|(?P=open)?)\<close> is the alternative of its two cases, in the order of
  trial: with the closing mark, then without it.
\<close>

definition dash_and_note :: re where
  "dash_and_note = seq [star space, maybe (seq [plus (any_of ''-:''), star space]), Grp 5 (star_lazy dot)]"

definition CRITERION_LINE_RE :: re where
  "CRITERION_LINE_RE = seq [Bol True, star space, maybe (seq [list_mark, tabs1]),
     maybe (Grp 1 (alts [lit ''**'', lit ''__'', ch CHR 0x60])),
     lit_i ''CRITERION'', plus space, Grp 2 (seq [maybe (any_of ''Cc''), plus digit]), star space, ch CHR '':'', star space,
     Grp 3 (alts [lit_i ''met'', lit_i ''not met'', lit_i ''unwitnessed'']),
     alts [Bnd, Ahead True (Back 1)],
     alts [seq [Grp 4 (Back 1), dash_and_note], seq [dash_and_note, maybe (Back 1)]],
     star space, Eol True]"

text \<open>The groups of \<open>SCOPE_LINE_RE\<close>: 1 \<^verbatim>\<open>quoted\<close>, 2 \<^verbatim>\<open>path\<close>, 3 \<^verbatim>\<open>status\<close>, 4 \<^verbatim>\<open>note\<close>.\<close>

definition SCOPE_LINE_RE :: re where
  "SCOPE_LINE_RE = seq [Bol True, tabs, lit_i ''SCOPE'', tabs1,
     alts [seq [ch CHR 0x60, Grp 1 (plus (none_of [CHR 0x60, NL])), ch CHR 0x60], Grp 2 (plus_lazy (none_of [NL]))],
     tabs, ch CHR '':'', tabs, Grp 3 (alts [lit_i ''needed'', lit_i ''tangent'']), Bnd,
     tabs, maybe (seq [plus (any_of ''-:''), tabs]), Grp 4 (star_lazy dot), tabs, Eol True]"

fun spans_from :: "nat \<Rightarrow> (string \<times> bool) list \<Rightarrow> (nat \<times> nat) list" where
  "spans_from offset [] = []"
| "spans_from offset ((line, fenced) # rest) =
     (let after = offset + length line
      in (if fenced then [(offset, after)] else []) @ spans_from after rest)"

definition fenced_spans :: "string \<Rightarrow> (nat \<times> nat) list" where
  "fenced_spans reply = spans_from 0 (fence_flags [] 0 (py_keep_lines reply))"

definition criterion_accounts :: "string \<Rightarrow> found list" where
  "criterion_accounts reply =
     filter (\<lambda>m. py_lower (take 9 (py_lstrip (f_text m))) = ''criterion''
        \<or> \<not> list_ex (\<lambda>(a, b). a \<le> group_start 2 m \<and> group_start 2 m < b) (fenced_spans reply))
       (re_finditer CRITERION_LINE_RE reply)"

text \<open>\<^verbatim>\<open>criterion_ids.parse\<close>.\<close>

definition account_number :: "string \<Rightarrow> nat" where
  "account_number token = nat_of_digits (remove_prefix ''c'' (remove_prefix ''C'' token))"

definition criterion_account :: "found \<Rightarrow> nat \<times> string \<times> string" where
  "criterion_account m = (account_number (group_text 2 m), py_lower (group_text 3 m), group_text 5 m)"

text \<open>The dictionary of \<^verbatim>\<open>criteria_block\<close>: the last account of a number stands.\<close>

definition criteria_block :: "string \<Rightarrow> nat \<Rightarrow> (string \<times> string) option" where
  "criteria_block reply = map_of (rev (map criterion_account (criterion_accounts reply)))"

fun cut_out :: "nat \<Rightarrow> found list \<Rightarrow> string \<Rightarrow> string" where
  "cut_out offset [] reply = drop offset reply"
| "cut_out offset (m # ms) reply =
     (let start = length (f_before m)
      in take (start - offset) (drop offset reply) @ cut_out (start + length (f_text m)) ms reply)"

definition without_criteria :: "string \<Rightarrow> string" where
  "without_criteria reply = cut_out 0 (criterion_accounts reply) reply"

definition accounts_removed :: "string \<Rightarrow> string" where
  "accounts_removed reply = re_sub SCOPE_LINE_RE (\<lambda>_. []) (without_criteria reply)"

definition parse_findings :: "signs \<Rightarrow> string \<Rightarrow> raw_finding list" where
  "parse_findings g reply =
     (let reply = without_refuted reply;
          findings = List.map_filter (block_finding g) (finding_blocks (accounts_removed reply))
      in if findings = [] then [whole_finding g reply] else findings)"

text \<open>The dictionary of \<^verbatim>\<open>_scope_findings\<close>'s answers.\<close>

definition scope_account :: "found \<Rightarrow> string \<times> string \<times> string" where
  "scope_account m =
     (if group_text 1 m \<noteq> [] then group_text 1 m else group_text 2 m, py_lower (group_text 3 m), group_text 4 m)"

definition scope_answers :: "string \<Rightarrow> string \<Rightarrow> (string \<times> string) option" where
  "scope_answers reply = map_of (rev (map scope_account (re_finditer SCOPE_LINE_RE reply)))"

subsection \<open>The verdict\<close>

lemma terminal_verdict_Some:
  assumes "terminal_verdict verdicts message = Some v"
  shows "v \<in> set verdicts
    \<and> (\<exists>above. verdict_lines message = above @ [''VERDICT: '' @ v]
        \<and> (\<forall>line \<in> set above. \<forall>w \<in> set verdicts. line \<noteq> ''VERDICT: '' @ w))"
proof -
  let ?allowed = "append ''VERDICT: '' ` set verdicts"
  obtain line where one: "filter (\<lambda>line. line \<in> ?allowed) (verdict_lines message) = [line]"
    and v: "last (verdict_lines message) = line" "v = remove_prefix ''VERDICT: '' line"
    using assms by (auto simp: terminal_verdict_def Let_def length_Suc_conv split: if_split_asm)
  have "line \<in> set (filter (\<lambda>line. line \<in> ?allowed) (verdict_lines message))"
    unfolding one by simp
  then obtain w where w: "w \<in> set verdicts" "line = ''VERDICT: '' @ w" by auto
  with v have "v = w" by (simp add: remove_prefix_def py_prefix_iff)
  moreover have "verdict_lines message \<noteq> []" using one by auto
  then have split: "verdict_lines message = butlast (verdict_lines message) @ [line]"
    using v(1) by (metis append_butlast_last_id)
  moreover have "filter (\<lambda>line. line \<in> ?allowed) (butlast (verdict_lines message)) = []"
    using one w by (subst (asm) split) auto
  ultimately show ?thesis using w
    by (intro conjI exI [of _ "butlast (verdict_lines message)"]) (auto simp: filter_empty_conv)
qed

lemma filter_last_only: "x \<in> A \<Longrightarrow> \<forall>y \<in> set ys. y \<notin> A \<Longrightarrow> filter (\<lambda>y. y \<in> A) (ys @ [x]) = [x]"
  by (simp add: filter_empty_conv)

lemma terminal_verdict_last:
  assumes "v \<in> set verdicts" and "verdict_lines message = front @ [''VERDICT: '' @ v]"
    and "\<forall>line \<in> set front. \<forall>w \<in> set verdicts. line \<noteq> ''VERDICT: '' @ w"
  shows "terminal_verdict verdicts message = Some v"
proof -
  have "''VERDICT: '' @ v \<in> set (map (append ''VERDICT: '') verdicts)"
    unfolding set_map using assms(1) by (rule imageI)
  moreover have "\<forall>line \<in> set front. line \<notin> set (map (append ''VERDICT: '') verdicts)"
    unfolding set_map using assms(3) by blast
  ultimately have found: "filter (\<lambda>line. line \<in> set (map (append ''VERDICT: '') verdicts)) (verdict_lines message)
      = [''VERDICT: '' @ v]"
    unfolding assms(2) by (rule filter_last_only)
  moreover have "last (verdict_lines message) = ''VERDICT: '' @ v" by (simp add: assms(2))
  moreover have "remove_prefix ''VERDICT: '' (''VERDICT: '' @ v) = v" by (simp add: remove_prefix_def py_prefix_iff)
  ultimately show ?thesis by (simp add: terminal_verdict_def Let_def del: set_map)
qed

subsection \<open>Blocks lose no line\<close>

lemma line_break_NL: "\<not> line_break c \<Longrightarrow> NL \<noteq> c"
  by (auto simp: line_break_def NL_def)

lemma split_lines_no_newline:
  "NL \<notin> set acc \<Longrightarrow> line \<in> set (split_lines acc s) \<Longrightarrow> NL \<notin> set line"
proof (induction acc s rule: split_lines.induct)
  case (3 acc c d cs)
  then show ?case using line_break_NL [of c] by (auto split: if_split_asm)
qed (auto dest: line_break_NL split: if_split_asm)

lemma splitlines_no_newline: "line \<in> set (py_splitlines s) \<Longrightarrow> NL \<notin> set line"
  using split_lines_no_newline [of "[]"] by (simp add: py_splitlines_def)

lemma split_on_plain: "c \<notin> set p \<Longrightarrow> split_on c p = [p]"
  by (induction p) auto

definition said_lines :: "string list \<Rightarrow> string list" where
  "said_lines ls = filter (\<lambda>l. \<not> blank l) ls"

definition block_lines :: "string list \<Rightarrow> string list" where
  "block_lines blocks = said_lines (concat (map (split_on NL) blocks))"

lemma said_lines_append [simp]: "said_lines (a @ b) = said_lines a @ said_lines b"
  by (simp add: said_lines_def)

lemma block_lines_append [simp]: "block_lines (a @ b) = block_lines a @ block_lines b"
  by (simp add: block_lines_def)

text \<open>A popped block rejoined with more lines: its own lines come back.\<close>

lemma split_on_joined:
  "ls \<noteq> [] \<Longrightarrow> split_on c (join [c] ls) = concat (map (split_on c) ls)"
proof (induction ls rule: induct_list012)
  case (3 x y zs)
  have "split_on c (p @ c # s) = split_on c p @ split_on c s" for p s
    by (induction p) (auto split: list.split)
  with 3 show ?case by simp
qed simp_all

lemma block_lines_of_join: "block_lines [join [NL] ls] = block_lines ls"
proof (cases "ls = []")
  case True
  then show ?thesis by (simp add: block_lines_def said_lines_def blank_def py_strip_def)
qed (simp add: block_lines_def split_on_joined)

lemma block_lines_line: "NL \<notin> set l \<Longrightarrow> block_lines [l] = (if blank l then [] else [l])"
  by (simp add: block_lines_def said_lines_def split_on_plain)

lemma block_lines_Cons: "block_lines (x # y # zs) = block_lines [x] @ block_lines (y # zs)"
  by (simp add: block_lines_def)

lemma block_lines_none: "block_lines [] = []" "block_lines [[]] = []"
  by (simp_all add: block_lines_def said_lines_def blank_def py_strip_def)

lemma block_step_lines:
  assumes "NL \<notin> set (fst lf)"
  shows "block_lines (fst (block_step st lf) @ snd (block_step st lf))
    = block_lines (fst st @ snd st) @ (if blank (fst lf) then [] else [fst lf])"
proof -
  have split: "xs \<noteq> [] \<Longrightarrow> block_lines xs = block_lines (butlast xs) @ block_lines [last xs]" for xs
    by (metis append_butlast_last_id block_lines_append)
  show ?thesis
    using assms split [of "fst st"]
    by (cases "snd st = []"; cases "fst st = []")
      (auto simp: block_step_def Let_def block_lines_of_join block_lines_line block_lines_none block_lines_Cons)
qed

lemma blocks_lines:
  "\<forall>l \<in> fst ` set lfs. NL \<notin> set l \<Longrightarrow>
    block_lines (fst (foldl block_step st lfs) @ snd (foldl block_step st lfs))
    = block_lines (fst st @ snd st) @ said_lines (map fst lfs)"
proof (induction lfs arbitrary: st)
  case (Cons lf lfs)
  then show ?case by (simp add: block_step_lines said_lines_def del: block_lines_append)
qed (simp add: said_lines_def)

lemma length_fence_flags [simp]: "length (fence_flags fence indent lines) = length lines"
  by (induction lines arbitrary: fence indent) (auto simp: Let_def)

lemma fence_flags_lines [simp]: "map fst (fence_flags fence indent lines) = lines"
  by (induction lines arbitrary: fence indent) (auto simp: Let_def)

lemma length_closed_fence_flags [simp]: "length (closed_fence_flags lines) = length lines"
proof -
  have "length (dropWhile (\<lambda>fenced. fenced) (rev (map snd (fence_flags [] 0 lines)))) \<le> length lines"
    by (metis length_dropWhile_le length_fence_flags length_map length_rev)
  then show ?thesis by (simp add: closed_fence_flags_def Let_def)
qed

theorem blocks_keep_lines:
  "block_lines (finding_blocks t) = said_lines (py_splitlines t)"
proof -
  let ?lfs = "zip (py_splitlines t) (closed_fence_flags (py_splitlines t))"
  have "\<forall>l \<in> fst ` set ?lfs. NL \<notin> set l"
    by (auto dest!: set_zip_leftD splitlines_no_newline)
  from blocks_lines [OF this, of "([], [])"]
  have "block_lines (fst (foldl block_step ([], []) ?lfs) @ snd (foldl block_step ([], []) ?lfs))
    = said_lines (py_splitlines t)"
    by (simp add: block_lines_def said_lines_def)
  then show ?thesis
    by (auto simp: finding_blocks_def Let_def block_lines_of_join block_lines_none)
qed

subsection \<open>The characters of a match\<close>

definition within :: "char set \<Rightarrow> state \<Rightarrow> bool" where
  "within C st \<longleftrightarrow> set (fst (fst st)) \<subseteq> C \<and> set (snd (fst st)) \<subseteq> C \<and> (\<forall>e \<in> set (snd st). set (snd (snd e)) \<subseteq> C)"

lemma times_within:
  assumes "\<And>st q. within C st \<Longrightarrow> q \<in> set (m st) \<Longrightarrow> within C q"
  shows "within C st \<Longrightarrow> q \<in> set (times n m st) \<Longrightarrow> within C q"
  by (induction n arbitrary: st) (auto dest: assms)

lemma repeats_within:
  assumes "\<And>st q. within C st \<Longrightarrow> q \<in> set (m st) \<Longrightarrow> within C q"
  shows "within C st \<Longrightarrow> q \<in> set (repeats greedy m bud st) \<Longrightarrow> within C q"
  by (induction bud arbitrary: st) (auto simp: Let_def dest: assms split: if_split_asm)

lemma consume_within: "within C st \<Longrightarrow> q \<in> set (consume u st) \<Longrightarrow> within C q"
  by (auto simp: consume_def within_def py_prefix_iff split: prod.splits if_split_asm)

lemma results_within: "within C st \<Longrightarrow> q \<in> set (results r st) \<Longrightarrow> within C q"
proof (induction r arbitrary: st q)
  case (Chr P)
  then show ?case by (auto simp: within_def split: prod.splits list.splits if_split_asm)
next
  case (Rep greedy least most r)
  from Rep.prems(2) obtain p where "p \<in> set (times least (results r) st)"
    "q \<in> set (repeats greedy (results r) (budget least most p) p)" by auto
  with times_within [of C "results r"] repeats_within [of C "results r"] Rep show ?case by metis
next
  case (Grp n r)
  from Grp.prems(2) obtain p where "p \<in> set (results r st)"
    "q = (fst p, (n, length (fst (fst st)), rev (take (length (fst (fst p)) - length (fst (fst st))) (fst (fst p)))) # snd p)"
    by (auto simp: Let_def)
  with Grp have "within C p" by blast
  with \<open>q = _\<close> show ?case by (auto simp: within_def dest!: in_set_takeD)
next
  case (Back n)
  then show ?case by (auto split: option.splits intro: consume_within)
next
  case (Cat r1 r2)
  from Cat(4) obtain p where "p \<in> set (results r1 st)" "q \<in> set (results r2 p)" by auto
  with Cat(1,2,3) show ?case by metis
next
  case (Alt r1 r2)
  from Alt.prems(2) have "q \<in> set (results r1 st) \<or> q \<in> set (results r2 st)" by simp
  with Alt.IH Alt.prems(1) show ?case by metis
next
  case (Ahead positive r)
  from Ahead.prems show ?case by (simp split: if_split_asm)
qed (simp_all split: if_split_asm)

lemma group_within:
  assumes "within C q" and "set (snd cur) \<subseteq> C"
  shows "set (group_text n (found_at cur q)) \<subseteq> C"
proof (cases "n = 0")
  case True
  then show ?thesis
    using assms(2) by (auto simp: group_text_def group_def found_at_def dest!: in_set_takeD)
next
  case False
  show ?thesis
  proof (cases "map_of (snd q) n")
    case (Some e)
    from map_of_SomeD [OF this] assms(1) have "set (snd e) \<subseteq> C" unfolding within_def by fastforce
    then show ?thesis using False Some by (simp add: group_text_def group_def found_at_def)
  qed (use False in \<open>simp add: group_text_def group_def found_at_def\<close>)
qed

lemma scan_result: "scan r must b a = Some (cur, q) \<Longrightarrow> q \<in> set (results r (cur, []))"
proof (induction r must b a rule: scan.induct)
  case (1 r must b a)
  show ?case
  proof (cases "filter (\<lambda>q. must \<longrightarrow> fst q \<noteq> (b, a)) (results r ((b, a), []))")
    case (Cons p ps)
    have "p \<in> set (filter (\<lambda>q. must \<longrightarrow> fst q \<noteq> (b, a)) (results r ((b, a), [])))" using Cons by simp
    moreover have "cur = (b, a) \<and> q = p" using 1(2) Cons by (simp add: scan.simps [of r must b a])
    ultimately show ?thesis by simp
  next
    case Nil
    then obtain c cs where a: "a = c # cs"
      using 1(2) Nil by (cases a) (simp_all add: scan.simps [of r must b "[]"])
    have "scan r must b (c # cs) = scan r False (c # b) cs"
      using Nil unfolding a by (subst scan.simps) (simp del: results.simps)
    with 1(2) a 1(1) [OF Nil a] show ?thesis by simp
  qed
qed

lemma all_from_within:
  "set b \<subseteq> C \<Longrightarrow> set a \<subseteq> C \<Longrightarrow> (t, m) \<in> set (fst (all_from r must b a)) \<Longrightarrow> set (group_text n m) \<subseteq> C"
proof (induction r must b a rule: all_from.induct)
  case (1 r must b a)
  show ?case
  proof (cases "scan r must b a")
    case None
    with 1 show ?thesis by (simp add: all_from.simps [of r must b a])
  next
    case (Some x)
    obtain cur q where x: "x = (cur, q)" by (cases x)
    from scan_ahead [OF Some [unfolded x]] obtain u where u: "a = u @ snd cur" "fst cur = rev u @ b" by blast
    from 1(2,3) u have cur: "within C (cur, [])" by (auto simp: within_def)
    have "q \<in> set (results r (cur, []))" using Some [unfolded x] by (rule scan_result)
    with results_within [OF cur] have q: "within C q" by blast
    from 1(4) consider "m = found_at cur q"
      | "(t, m) \<in> set (fst (all_from r (fst q = cur) (fst (fst q)) (snd (fst q))))"
      by (auto simp: all_from.simps [of r must b a] Some x case_prod_beta)
    then show ?thesis
    proof cases
      case 1
      with group_within [OF q] cur show ?thesis by (simp add: within_def)
    next
      case 2
      with 1(1) [OF Some x [symmetric]] q show ?thesis by (simp add: within_def)
    qed
  qed
qed

lemma re_sub_within:
  assumes "\<And>t m. (t, m) \<in> set (fst (re_all r s)) \<Longrightarrow> set (new m) \<subseteq> C" and "set s \<subseteq> C"
  shows "set (re_sub r new s) \<subseteq> C"
proof -
  let ?p = "re_all r s"
  have "set (concat (map (\<lambda>(t, m). t @ f_text m) (fst ?p)) @ snd ?p) = set s"
    by (simp only: re_all_def all_from_text)
  then have "(\<forall>(t, m) \<in> set (fst ?p). set t \<subseteq> set s) \<and> set (snd ?p) \<subseteq> set s" by auto
  with assms show ?thesis by (fastforce simp: re_sub_def case_prod_beta)
qed

lemma emphasized_within:
  assumes "set s \<subseteq> C" and "CHR ''*'' \<in> C"
  shows "set (re_sub r (emphasized n) s) \<subseteq> C"
  using assms all_from_within [of "[]" C s _ _ r False n]
  by (intro re_sub_within) (auto simp: emphasized_def re_all_def)

subsection \<open>No control character, and the bound\<close>

lemma scan_chr:
  "scan (Chr P) must b a = (case dropWhile (\<lambda>c. \<not> P c) a of
      [] \<Rightarrow> None
    | c # cs \<Rightarrow> (let b' = rev (takeWhile (\<lambda>c. \<not> P c) a) @ b in Some ((b', c # cs), ((c # b', cs), []))))"
proof (induction a arbitrary: must b)
  case Nil
  then show ?case by (simp add: scan.simps [of "Chr P" must b "[]"])
next
  case (Cons c cs)
  then show ?case
    by (simp add: scan.simps [of "Chr P" must b "c # cs"] Let_def del: dropWhile_eq_Nil_conv split: list.split)
qed

lemma sub_chr: "re_sub (Chr P) (\<lambda>_. []) s = filter (\<lambda>c. \<not> P c) s"
proof -
  have "concat (map fst (fst (all_from (Chr P) must b s))) @ snd (all_from (Chr P) must b s)
      = filter (\<lambda>c. \<not> P c) s" for must b
  proof (induction s arbitrary: must b rule: length_induct)
    case (1 s)
    show ?case
    proof (cases "dropWhile (\<lambda>c. \<not> P c) s")
      case Nil
      then have "filter (\<lambda>c. \<not> P c) s = s" by simp
      with Nil show ?thesis by (simp add: all_from.simps [of "Chr P" must b s] scan_chr del: dropWhile_eq_Nil_conv)
    next
      case (Cons c cs)
      let ?u = "takeWhile (\<lambda>c. \<not> P c) s"
      have s: "s = ?u @ c # cs" using Cons takeWhile_dropWhile_id [of "\<lambda>c. \<not> P c" s] by simp
      have c: "P c" using Cons hd_dropWhile [of "\<lambda>c. \<not> P c" s] by simp
      have u: "filter (\<lambda>c. \<not> P c) ?u = ?u" by (rule filter_True) (metis set_takeWhileD)
      have "length cs < length s" by (subst s) simp
      with 1 have IH: "concat (map fst (fst (all_from (Chr P) must b cs))) @ snd (all_from (Chr P) must b cs)
          = filter (\<lambda>c. \<not> P c) cs" for must b by blast
      have "filter (\<lambda>c. \<not> P c) s = ?u @ filter (\<lambda>c. \<not> P c) cs"
        using c u by (subst s) simp
      moreover have "take (length s - Suc (length cs)) s = ?u"
      proof -
        have "length s = length ?u + Suc (length cs)" by (subst s) simp
        then have "length s - Suc (length cs) = length ?u" by simp
        then show ?thesis by (metis append_eq_conv_conj s)
      qed
      ultimately show ?thesis
        using IH by (simp add: all_from.simps [of "Chr P" must b s] scan_chr Cons Let_def case_prod_beta)
    qed
  qed
  then have "concat (map fst (fst (all_from (Chr P) False [] s))) @ snd (all_from (Chr P) False [] s) = filter (\<lambda>c. \<not> P c) s" .
  moreover have "map (\<lambda>(t, m). t @ []) ms = map fst ms" for ms :: "(string \<times> found) list" by (induction ms) auto
  ultimately show ?thesis by (simp add: re_sub_def re_all_def case_prod_beta')
qed

lemma plain_text_chars: "c \<in> set (plain_text s) \<Longrightarrow> \<not> control_char c"
proof -
  let ?C = "{c. \<not> control_char c}"
  have "CHR ''*'' \<in> ?C" by (simp add: control_char_def)
  moreover have "set (re_sub CONTROL_RE (\<lambda>_. []) (re_sub ANSI_CSI_RE (\<lambda>_. []) s)) \<subseteq> ?C"
    by (auto simp: CONTROL_RE_def sub_chr)
  ultimately have "set (plain_text s) \<subseteq> ?C"
    by (simp only: plain_text_def emphasized_within)
  then show "c \<in> set (plain_text s) \<Longrightarrow> \<not> control_char c" by auto
qed

definition printable :: "signs \<Rightarrow> bool" where
  "printable g \<longleftrightarrow> (\<forall>c \<in> set (sg_ellipsis g). \<not> control_char c)"

lemma py_strip_chars: "set (py_strip s) \<subseteq> set s"
  by (auto simp: py_strip_def dest!: set_dropWhileD)

lemma split_lines_chars: "l \<in> set (split_lines acc s) \<Longrightarrow> set l \<subseteq> set acc \<union> set s"
  by (induction acc s rule: split_lines.induct) (auto split: if_split_asm)

lemma trailing_verdict_chars:
  assumes "trailing_verdict g t = Some v"
  shows "set v \<subseteq> set t \<union> set (TRUNCATION_MARKER g) \<and> length v \<le> max MAX_VERDICT_CHARS (length (TRUNCATION_MARKER g))"
proof -
  let ?lines = "filter (\<lambda>l. l \<noteq> []) (map py_strip (py_splitlines t))"
  have v: "?lines \<noteq> []" "v = (if length (last ?lines) > MAX_VERDICT_CHARS
      then take (MAX_VERDICT_CHARS - length (TRUNCATION_MARKER g)) (last ?lines) @ TRUNCATION_MARKER g else last ?lines)"
    using assms by (auto simp: trailing_verdict_def Let_def split: if_split_asm)
  have "last ?lines \<in> set ?lines" using v(1) by (rule last_in_set)
  then obtain l where "l \<in> set (py_splitlines t)" "last ?lines = py_strip l" by auto
  then have "set (last ?lines) \<subseteq> set t"
    using py_strip_chars [of l] split_lines_chars [of l "[]" t] by (auto simp: py_splitlines_def)
  then show ?thesis unfolding v(2) by (auto dest: in_set_takeD)
qed

lemma verdict_tail_chars: "set (verdict_tail g t) \<subseteq> {NL} \<union> set t \<union> set (TRUNCATION_MARKER g)"
proof (cases "trailing_verdict g t")
  case (Some v)
  from trailing_verdict_chars [OF Some] show ?thesis by (auto simp: verdict_tail_def Some)
qed (auto simp: verdict_tail_def)

lemma verdict_tail_length:
  "length (verdict_tail g t) \<le> 4 + length (TRUNCATION_MARKER g) + max MAX_VERDICT_CHARS (length (TRUNCATION_MARKER g))"
proof (cases "trailing_verdict g t")
  case (Some v)
  from trailing_verdict_chars [OF Some] show ?thesis by (simp add: verdict_tail_def Some)
qed (simp add: verdict_tail_def)

definition cut_head :: "nat \<Rightarrow> string \<Rightarrow> string" where
  "cut_head n t = (let head = take n t
     in if t ! length head \<noteq> NL \<and> NL \<in> set head then before_last_newline head else head)"

lemma before_last_newline_sub: "set (before_last_newline s) \<subseteq> set s \<and> length (before_last_newline s) \<le> length s"
proof -
  let ?d = "dropWhile (\<lambda>c. c \<noteq> NL) (rev s)"
  have "set (tl xs) \<subseteq> set xs" for xs :: string by (cases xs) auto
  from this [of ?d] have "set (tl ?d) \<subseteq> set ?d" .
  moreover have "set ?d \<subseteq> set s" using set_dropWhileD [of _ _ "rev s"] by auto
  moreover have "length (tl ?d) \<le> length s"
    using length_dropWhile_le [of "\<lambda>c. c \<noteq> NL" "rev s"] by simp
  ultimately show ?thesis unfolding before_last_newline_def set_rev length_rev by blast
qed

lemma cut_head_sub: "set (cut_head n t) \<subseteq> set t \<and> length (cut_head n t) \<le> n"
  using before_last_newline_sub [of "take n t"] set_take_subset [of n t]
  by (auto simp: cut_head_def Let_def min_def split: if_split_asm dest: in_set_takeD)

lemma py_rstrip_sub: "set (py_rstrip s) \<subseteq> set s \<and> length (py_rstrip s) \<le> length s"
  using set_dropWhileD [of _ py_space "rev s"] length_dropWhile_le [of py_space "rev s"]
  by (auto simp: py_rstrip_def)

lemma sanitize_findings_cut:
  "sanitize_findings g (Some n) s =
     (if length (plain_text s) \<le> n then plain_text s
      else py_rstrip (cut_head (n - length (verdict_tail g (plain_text s))) (plain_text s))
        @ verdict_tail g (plain_text s))"
  by (simp add: sanitize_findings_def cut_head_def Let_def)

theorem sanitize_bounded:
  "length (sanitize_findings g (Some n) s)
    \<le> max n (4 + length (TRUNCATION_MARKER g) + max MAX_VERDICT_CHARS (length (TRUNCATION_MARKER g)))"
proof (cases "length (plain_text s) \<le> n")
  case True
  then show ?thesis by (simp add: sanitize_findings_cut)
next
  case False
  let ?t = "plain_text s" let ?k = "verdict_tail g ?t"
  have "length (py_rstrip (cut_head (n - length ?k) ?t)) \<le> n - length ?k"
    using py_rstrip_sub cut_head_sub order_trans by blast
  then have "length (sanitize_findings g (Some n) s) \<le> max n (length ?k)"
    using False by (simp add: sanitize_findings_cut)
  with verdict_tail_length [of g ?t] show ?thesis by linarith
qed

theorem sanitize_no_control:
  assumes "printable g"
  shows "\<forall>c \<in> set (sanitize_findings g limit s). \<not> control_char c"
proof -
  have "NL \<notin> Collect control_char" by (simp add: NL_def control_char_def)
  moreover have "\<forall>c \<in> set (TRUNCATION_MARKER g). \<not> control_char c"
    using assms by (auto simp: TRUNCATION_MARKER_def printable_def control_char_def)
  ultimately have tail: "\<forall>c \<in> set (verdict_tail g (plain_text s)). \<not> control_char c"
    using verdict_tail_chars [of g "plain_text s"] plain_text_chars [of _ s] by blast
  show ?thesis
  proof (cases limit)
    case None
    then show ?thesis using plain_text_chars by (auto simp: sanitize_findings_def Let_def)
  next
    case (Some n)
    have "set (py_rstrip (cut_head m (plain_text s))) \<subseteq> set (plain_text s)" for m
      using py_rstrip_sub cut_head_sub by blast
    then have "set (sanitize_findings g limit s) \<subseteq> set (plain_text s) \<union> set (verdict_tail g (plain_text s))"
      unfolding Some sanitize_findings_cut by auto
    with tail plain_text_chars show ?thesis by blast
  qed
qed

end
