(* ===== verification/VerifyCmd.thy ===== *)
theory VerifyCmd
  imports Replies Github
begin

section \<open>VerifyCmd: a verify command, its clauses and its output\<close>

text \<open>
  The command side of \<^verbatim>\<open>holophyte/loop/gates.py\<close>: cutting a command at its top-level \<^verbatim>\<open>&&\<close>, the script
  that runs the clauses with a mark before each, and reading its output back.

  The lemmas: the clauses of a command, joined by \<^verbatim>\<open>&&\<close>, are the command; what each clause printed
  is read back as it was printed, whatever it printed, as long as no line holds a mark.
\<close>

subsection \<open>The clauses\<close>

definition quotes :: string where "quotes = [CHR 34, CHR 39]"
definition backslash :: char where "backslash = CHR 0x5C"

definition comment_start :: "char option \<Rightarrow> bool" where
  "comment_start before = (case before of None \<Rightarrow> True | Some b \<Rightarrow> py_space b \<or> b \<in> set ''&('')"

definition last_solid :: "string \<Rightarrow> char option" where
  "last_solid buf = (case filter (\<lambda>c. \<not> py_space c) buf of [] \<Rightarrow> None | cs \<Rightarrow> Some (last cs))"

text \<open>The tokenizer: the character before, the open quote, the open parentheses, whether the next character
  is escaped, the clause so far and the clauses before it.\<close>

fun scan_clauses ::
    "bool \<Rightarrow> char option \<Rightarrow> char option \<Rightarrow> nat \<Rightarrow> bool \<Rightarrow> string \<Rightarrow> string list \<Rightarrow> string \<Rightarrow> string list option" where
  "scan_clauses allow_or before q depth esc buf found [] =
     (if q \<noteq> None \<or> esc \<or> depth \<noteq> 0 then None else Some (found @ [buf]))"
| "scan_clauses allow_or before q depth esc buf found (c # rest) =
     (let go = (\<lambda>q depth esc. scan_clauses allow_or (Some c) q depth esc (buf @ [c]) found rest)
      in if esc then go q depth False
         else if c = backslash then go q depth True
         else if q \<noteq> None then go (if q = Some c then None else q) depth False
         else if c \<in> set quotes then go (Some c) depth False
         else if c = CHR 0x60 then None
         else if c = CHR ''('' then go None (depth + 1) False
         else if c = CHR '')'' then (if depth = 0 then None else go None (depth - 1) False)
         else if c = CHR ''#'' \<and> comment_start before
         then (if depth \<noteq> 0 \<or> NL \<in> set rest then None else Some (found @ [buf @ c # rest]))
         else if depth \<noteq> 0 then go None depth False
         else if c = CHR ''&'' \<and> py_prefix ''&'' rest
         then scan_clauses allow_or (Some CHR ''&'') None 0 False [] (found @ [buf]) (tl rest)
         else if c = CHR ''&'' \<and> (case last_solid buf of None \<Rightarrow> False | Some p \<Rightarrow> p \<notin> set ''><'') then None
         else if c = CHR ''|'' \<and> py_prefix ''|'' rest \<and> \<not> allow_or \<or> c = CHR '';'' \<or> c = NL then None
         else go None 0 False)"

definition split_and_clauses :: "string \<Rightarrow> bool \<Rightarrow> string list option" where
  "split_and_clauses cmd allow_or =
     (if py_contains ''<<'' cmd then None
      else case scan_clauses allow_or None None 0 False [] [] cmd of
        None \<Rightarrow> None
      | Some raw \<Rightarrow> if [] \<in> set (map py_strip raw) then None else Some (map py_strip raw))"

text \<open>Cutting loses nothing: the clauses before blanks are stripped, joined again, are the command.\<close>

lemma scan_clauses_step:
  assumes "scan_clauses allow_or before q depth esc buf found (c # rest) = Some raw"
  shows "(\<exists>q' depth' esc'. scan_clauses allow_or (Some c) q' depth' esc' (buf @ [c]) found rest = Some raw)
    \<or> raw = found @ [buf @ c # rest]
    \<or> c = CHR ''&'' \<and> py_prefix ''&'' rest
       \<and> scan_clauses allow_or (Some CHR ''&'') None 0 False [] (found @ [buf]) (tl rest) = Some raw"
  using assms [unfolded scan_clauses.simps(2) Let_def] by (auto simp del: scan_clauses.simps split: if_split_asm)

lemma scan_clauses_join:
  "scan_clauses allow_or before q depth esc buf found s = Some raw \<Longrightarrow>
     \<exists>parts. raw = found @ parts \<and> parts \<noteq> [] \<and> join ''&&'' parts = buf @ s"
proof (induction "length s" arbitrary: before q depth esc buf found s rule: less_induct)
  case less
  show ?case
  proof (cases s)
    case Nil
    with less.prems have "raw = found @ [buf]" by (simp split: if_split_asm)
    with Nil show ?thesis by simp
  next
    case (Cons c rest)
    note step = scan_clauses_step [OF less.prems [unfolded Cons]]
    from step show ?thesis
    proof (elim disjE exE conjE)
      fix q' depth' esc'
      assume "scan_clauses allow_or (Some c) q' depth' esc' (buf @ [c]) found rest = Some raw"
      from less.hyps [OF _ this] Cons show ?thesis by simp
    next
      assume "raw = found @ [buf @ c # rest]"
      with Cons show ?thesis by simp
    next
      assume c: "c = CHR ''&''" and p: "py_prefix ''&'' rest"
        and go: "scan_clauses allow_or (Some CHR ''&'') None 0 False [] (found @ [buf]) (tl rest) = Some raw"
      from p obtain rest' where r: "rest = CHR ''&'' # rest'" by (cases rest) simp_all
      from less.hyps [OF _ go] Cons r obtain parts where parts: "raw = (found @ [buf]) @ parts" "parts \<noteq> []"
        "join ''&&'' parts = rest'" by auto
      then have "join ''&&'' (buf # parts) = buf @ s" using c Cons r by (cases parts) simp_all
      with parts(1) show ?thesis by (intro exI [of _ "buf # parts"]) simp
    qed
  qed
qed

lemma split_and_clauses_join:
  assumes "split_and_clauses cmd allow_or = Some clauses"
  shows "\<exists>raw. clauses = map py_strip raw \<and> join ''&&'' raw = cmd \<and> clauses \<noteq> [] \<and> [] \<notin> set clauses"
proof -
  obtain raw where raw: "scan_clauses allow_or None None 0 False [] [] cmd = Some raw" "clauses = map py_strip raw"
      "[] \<notin> set clauses"
    using assms by (auto simp: split_and_clauses_def split: if_split_asm option.split_asm)
  with scan_clauses_join [OF raw(1)] show ?thesis by auto
qed


subsection \<open>The script and its output\<close>

definition CLAUSE_MARK :: string where "CLAUSE_MARK = ''__holo2_verify_clause__''"
definition FAIL_MARK :: string where "FAIL_MARK = ''__holo2_verify_failed__''"

definition trap_line :: string where
  "trap_line = ''trap '' @ [CHR 39] @ ''__holo2_rc=$?; [ '' @ [CHR 34] @ ''$__holo2_rc'' @ [CHR 34] @ '' -eq 0 ] || printf ''
     @ [CHR 34] @ ''%s'' @ [backslash] @ ''n'' @ [CHR 34] @ '' '' @ [CHR 34] @ FAIL_MARK @ '' $__holo2_clause $__holo2_rc''
     @ [CHR 34, CHR 39] @ '' EXIT''"

definition mark_function :: string where
  "mark_function = ''__holo2_mark() { local status=$1; __holo2_clause=$2; printf '' @ [CHR 34] @ ''%s'' @ [backslash] @ ''n''
     @ [CHR 34] @ '' '' @ [CHR 34] @ CLAUSE_MARK @ '' $2'' @ [CHR 34] @ ''; return '' @ [CHR 34] @ ''$status'' @ [CHR 34] @ ''; }''"

definition clause_script :: "bool \<Rightarrow> nat \<times> string \<Rightarrow> string list" where
  "clause_script stops nc =
     (case nc of (n, clause) \<Rightarrow>
        (if stops
         then [''__holo2_clause='' @ str_nat n,
               ''printf '' @ [CHR 39] @ ''%s'' @ [backslash] @ ''n'' @ [CHR 39] @ '' '' @ [CHR 39] @ CLAUSE_MARK @ '' '' @ str_nat n @ [CHR 39]]
         else [''__holo2_mark $? '' @ str_nat n])
        @ [''{ '' @ clause @ [NL] @ ''}'' @ (if stops then '' || exit $?'' else [])])"

definition instrumented_script :: "string list \<Rightarrow> bool \<Rightarrow> string" where
  "instrumented_script clauses stops =
     join [NL] ([''__holo2_clause=0'', trap_line] @ (if stops then [] else [mark_function])
       @ concat (map (clause_script stops) (numbered_from_1 clauses)))"

text \<open>Reading the output back: what each clause printed, the clause that failed and its status, the lines
  without the marks. A mark may follow text that no line break ended.\<close>

type_synonym clause_lines = "(int \<times> string list) list"

record clause_read =
  cd_clauses :: clause_lines
  cd_failed :: "(int \<times> int) option"
  cd_cleaned :: "string list"
  cd_current :: "int option"

fun clause_put :: "int \<Rightarrow> string list \<Rightarrow> clause_lines \<Rightarrow> clause_lines" where
  "clause_put n ls [] = [(n, ls)]"
| "clause_put n ls ((k, v) # rest) = (if k = n then (n, ls) # rest else (k, v) # clause_put n ls rest)"

definition clause_get :: "clause_lines \<Rightarrow> int \<Rightarrow> string list" where
  "clause_get cs n = (case map_of cs n of None \<Rightarrow> [] | Some ls \<Rightarrow> ls)"

definition emit_line :: "string \<Rightarrow> clause_read \<Rightarrow> clause_read" where
  "emit_line t d =
     d\<lparr>cd_cleaned := cd_cleaned d @ [t],
       cd_clauses := (case cd_current d of None \<Rightarrow> cd_clauses d | Some n \<Rightarrow> clause_put n (clause_get (cd_clauses d) n @ [t]) (cd_clauses d))\<rparr>"

definition mark_at :: "string \<Rightarrow> nat" where
  "mark_at line =
     foldl (\<lambda>cut mark. case index_at mark line of None \<Rightarrow> cut | Some pos \<Rightarrow> if 0 < pos then min cut pos else cut)
       (length line) [CLAUSE_MARK, FAIL_MARK]"

text \<open>\<^verbatim>\<open>int(word)\<close> of a word without blanks: a sign, digits, single underscores between them; \<open>None\<close> raises.\<close>

definition digit_groups :: "string \<Rightarrow> nat option" where
  "digit_groups w =
     (let parts = split_on CHR ''_'' w
      in if list_all (\<lambda>p. p \<noteq> [] \<and> list_all is_digit_char p) parts then Some (nat_of_digits (concat parts)) else None)"

definition int_word :: "string \<Rightarrow> int option" where
  "int_word w =
     (if py_prefix ''-'' w then map_option (\<lambda>n. - int n) (digit_groups (tl w))
      else map_option int (digit_groups (if py_prefix ''+'' w then tl w else w)))"

definition read_mark :: "string \<Rightarrow> clause_read \<Rightarrow> clause_read option" where
  "read_mark line d =
     (if py_prefix (CLAUSE_MARK @ '' '') line
      then (case py_words line of
              _ # w # _ \<Rightarrow> map_option (\<lambda>n. d\<lparr>cd_current := Some n, cd_clauses := clause_put n [] (cd_clauses d)\<rparr>) (int_word w)
            | _ \<Rightarrow> None)
      else if py_prefix (FAIL_MARK @ '' '') line
      then (case py_words line of
              [_, i, rc] \<Rightarrow>
                (case (int_word i, int_word rc) of (Some i, Some rc) \<Rightarrow> Some (d\<lparr>cd_failed := Some (i, rc)\<rparr>) | _ \<Rightarrow> None)
            | _ \<Rightarrow> None)
      else Some (emit_line line d))"

definition read_line :: "string \<Rightarrow> clause_read \<Rightarrow> clause_read option" where
  "read_line line d =
     (let cut = mark_at line
      in if cut < length line then read_mark (drop cut line) (emit_line (take cut line) d) else read_mark line d)"

fun read_lines :: "string list \<Rightarrow> clause_read \<Rightarrow> clause_read option" where
  "read_lines [] d = Some d"
| "read_lines (line # lines) d = Option.bind (read_line line d) (read_lines lines)"

definition no_clauses :: clause_read where
  "no_clauses = \<lparr>cd_clauses = [], cd_failed = None, cd_cleaned = [], cd_current = None\<rparr>"

definition parse_clause_output :: "string \<Rightarrow> ((int \<times> string) list \<times> (int \<times> int) option \<times> string) option" where
  "parse_clause_output out =
     map_option (\<lambda>d. (map (\<lambda>(n, ls). (n, join [NL] ls)) (cd_clauses d), cd_failed d, join [NL] (cd_cleaned d)))
       (read_lines (py_splitlines out) no_clauses)"

subsection \<open>What was printed is read back\<close>

text \<open>The lines a script prints: for each clause its mark and what it printed, and the mark of a failure.\<close>

definition mark_line :: "int \<Rightarrow> string" where "mark_line n = CLAUSE_MARK @ '' '' @ str_int n"

definition fail_line :: "int \<times> int \<Rightarrow> string" where
  "fail_line f = FAIL_MARK @ '' '' @ str_int (fst f) @ '' '' @ str_int (snd f)"

definition transcript :: "clause_lines \<Rightarrow> (int \<times> int) option \<Rightarrow> string list" where
  "transcript outs failed =
     concat (map (\<lambda>(n, ls). mark_line n # ls) outs) @ (case failed of None \<Rightarrow> [] | Some f \<Rightarrow> [fail_line f])"

definition mark_free :: "string \<Rightarrow> bool" where
  "mark_free line \<longleftrightarrow> index_at CLAUSE_MARK line = None \<and> index_at FAIL_MARK line = None"

lemma index_at_None_prefix: "index_at m s = None \<Longrightarrow> \<not> py_prefix m s"
  by (subst (asm) index_at.simps) (auto split: if_split_asm)

lemma index_at_chars: "index_at m s = Some k \<Longrightarrow> set m \<subseteq> set s"
proof (induction s arbitrary: k)
  case Nil
  then show ?case by (subst (asm) index_at.simps) (auto simp: py_prefix_iff split: if_split_asm)
next
  case (Cons c s)
  show ?case
  proof (cases "py_prefix m (c # s)")
    case True
    then obtain r where "c # s = m @ r" by (auto simp: py_prefix_iff)
    then have "set (c # s) = set m \<union> set r" by (simp only: set_append)
    then show ?thesis by blast
  next
    case False
    with Cons.prems obtain j where "index_at m s = Some j"
      by (subst (asm) index_at.simps) auto
    from Cons.IH [OF this] show ?thesis by auto
  qed
qed

lemma index_at_prefix: "py_prefix m s \<Longrightarrow> index_at m s = Some 0"
  by (subst index_at.simps) simp

lemma mark_free_prefix:
  assumes "mark_free line"
  shows "\<not> py_prefix (CLAUSE_MARK @ x) line \<and> \<not> py_prefix (FAIL_MARK @ x) line"
  using assms index_at_None_prefix [of CLAUSE_MARK line] index_at_None_prefix [of FAIL_MARK line]
  by (auto simp: mark_free_def py_prefix_iff)

lemma read_line_mark_free:
  assumes "mark_free line"
  shows "read_line line d = Some (emit_line line d)"
  using assms mark_free_prefix [OF assms]
  by (simp add: read_line_def mark_at_def mark_free_def read_mark_def)

lemma py_words_word:
  assumes "w \<noteq> []" and "\<forall>c \<in> set w. \<not> py_space c"
  shows "py_words w = [w]" and "py_words (w @ CHR '' '' # s) = w # py_words s"
proof -
  have skip: "dropWhile py_space (w @ t) = w @ t" for t using assms by (cases w) simp_all
  have word: "takeWhile (\<lambda>c. \<not> py_space c) w = w" "dropWhile (\<lambda>c. \<not> py_space c) w = []"
    using assms(2) by (auto simp: takeWhile_eq_all_conv dropWhile_eq_Nil_conv)
  have sp: "py_space (CHR '' '')" by (simp add: py_space_def)
  show "py_words w = [w]"
    using skip [of "[]"] assms(1) by (subst py_words.simps) (simp add: Let_def word py_words.simps [of "[]"])
  have "py_words (CHR '' '' # s) = py_words s"
    using sp by (subst py_words.simps) (simp add: py_words.simps [of s])
  moreover have "takeWhile (\<lambda>c. \<not> py_space c) (w @ CHR '' '' # s) = w"
    "dropWhile (\<lambda>c. \<not> py_space c) (w @ CHR '' '' # s) = CHR '' '' # s"
    using assms(2) sp by (simp_all add: takeWhile_append2 dropWhile_append2)
  ultimately show "py_words (w @ CHR '' '' # s) = w # py_words s"
    using skip [of "CHR '' '' # s"] assms(1) by (subst py_words.simps) (simp add: Let_def)
qed

lemma str_int_char: "c \<in> set (str_int n) \<Longrightarrow> c = CHR ''-'' \<or> 48 \<le> (of_char c :: nat) \<and> (of_char c :: nat) < 58"
  using str_nat_digits by (auto simp: str_int_def split: if_split_asm)

lemma str_int_solid: "\<forall>c \<in> set (str_int n). \<not> py_space c" and str_int_not_nil: "str_int n \<noteq> []"
proof -
  show "\<forall>c \<in> set (str_int n). \<not> py_space c"
    using str_int_char [of _ n] by (force simp: py_space_def Let_def)
  show "str_int n \<noteq> []" by (auto simp: str_int_def)
qed

lemma str_nat_first: "\<not> py_prefix ''-'' (str_nat n)" "\<not> py_prefix ''+'' (str_nat n)"
  using str_nat_no_char [of "CHR ''-''" n] str_nat_no_char [of "CHR ''+''" n] by (cases "str_nat n"; simp)+

lemma digit_groups_str_nat [simp]: "digit_groups (str_nat n) = Some n"
proof -
  have "split_on CHR ''_'' (str_nat n) = [str_nat n]" using str_nat_no_char [of "CHR ''_''" n] by (simp add: split_on_plain)
  moreover have "list_all is_digit_char (str_nat n)"
    using str_nat_digits by (force simp: list_all_iff is_digit_char_def Let_def)
  ultimately show ?thesis by (simp add: digit_groups_def)
qed

lemma int_word_str_int [simp]: "int_word (str_int n) = Some n"
  using str_nat_first by (simp add: int_word_def str_int_def)

lemma marks_solid: "\<forall>c \<in> set CLAUSE_MARK. \<not> py_space c" "\<forall>c \<in> set FAIL_MARK. \<not> py_space c"
  by code_simp+

lemma mark_words:
  "py_words (mark_line n) = [CLAUSE_MARK, str_int n]"
  "py_words (fail_line (i, rc)) = [FAIL_MARK, str_int i, str_int rc]"
proof -
  have "CLAUSE_MARK \<noteq> []" "FAIL_MARK \<noteq> []" by (simp_all add: CLAUSE_MARK_def FAIL_MARK_def)
  with str_int_solid str_int_not_nil marks_solid
  show "py_words (mark_line n) = [CLAUSE_MARK, str_int n]"
    "py_words (fail_line (i, rc)) = [FAIL_MARK, str_int i, str_int rc]"
    by (simp_all add: mark_line_def fail_line_def py_words_word)
qed

lemma marks_apart: "index_at FAIL_MARK (mark_line n) = None" "index_at CLAUSE_MARK (fail_line f) = None"
proof -
  have "CHR ''d'' \<notin> set (mark_line n)"
    using str_int_char [of "CHR ''d''" n] by (auto simp: mark_line_def CLAUSE_MARK_def)
  moreover have "CHR ''d'' \<in> set FAIL_MARK" by (simp add: FAIL_MARK_def)
  ultimately show "index_at FAIL_MARK (mark_line n) = None"
    using index_at_chars by (cases "index_at FAIL_MARK (mark_line n)") auto
  have "CHR ''c'' \<notin> set (fail_line f)"
    using str_int_char [of "CHR ''c''"] by (auto simp: fail_line_def FAIL_MARK_def)
  moreover have "CHR ''c'' \<in> set CLAUSE_MARK" by (simp add: CLAUSE_MARK_def)
  ultimately show "index_at CLAUSE_MARK (fail_line f) = None"
    using index_at_chars by (cases "index_at CLAUSE_MARK (fail_line f)") auto
qed

lemma mark_at_marks: "mark_at (mark_line n) = length (mark_line n)" "mark_at (fail_line f) = length (fail_line f)"
proof -
  have "index_at CLAUSE_MARK (mark_line n) = Some 0" by (simp add: index_at_prefix mark_line_def py_prefix_iff)
  then show "mark_at (mark_line n) = length (mark_line n)" by (simp add: mark_at_def marks_apart)
  have "index_at FAIL_MARK (fail_line f) = Some 0" by (simp add: index_at_prefix fail_line_def py_prefix_iff)
  then show "mark_at (fail_line f) = length (fail_line f)" by (simp add: mark_at_def marks_apart)
qed

lemma read_mark_line:
  "read_line (mark_line n) d = Some (d\<lparr>cd_current := Some n, cd_clauses := clause_put n [] (cd_clauses d)\<rparr>)"
proof -
  have "py_prefix (CLAUSE_MARK @ '' '') (mark_line n)" by (simp add: mark_line_def py_prefix_iff)
  then show ?thesis by (simp add: read_line_def mark_at_marks read_mark_def mark_words)
qed

lemma read_fail_line: "read_line (fail_line f) d = Some (d\<lparr>cd_failed := Some f\<rparr>)"
proof -
  obtain i rc where f: "f = (i, rc)" by (cases f)
  have "\<not> py_prefix (CLAUSE_MARK @ '' '') (fail_line f)"
    using index_at_None_prefix [OF marks_apart(2), of f] by (auto simp: py_prefix_iff)
  moreover have "py_prefix (FAIL_MARK @ '' '') (fail_line f)" by (simp add: fail_line_def py_prefix_iff)
  ultimately show ?thesis by (simp add: read_line_def mark_at_marks read_mark_def mark_words f)
qed

lemma clause_put_new: "n \<notin> fst ` set before \<Longrightarrow> clause_put n ls before = before @ [(n, ls)]"
  by (induction n ls before rule: clause_put.induct) auto

lemma clause_put_last: "n \<notin> fst ` set before \<Longrightarrow> clause_put n ls (before @ [(n, xs)]) = before @ [(n, ls)]"
  by (induction n ls before rule: clause_put.induct) auto

lemma clause_get_last: "n \<notin> fst ` set before \<Longrightarrow> clause_get (before @ [(n, xs)]) n = xs"
  by (induction before) (auto simp: clause_get_def)

lemma read_lines_printed:
  assumes "\<forall>l \<in> set ls. mark_free l" and "cd_current d = Some n" and "cd_clauses d = before @ [(n, xs)]"
    and "n \<notin> fst ` set before"
  shows "read_lines (ls @ tail) d = read_lines tail (d\<lparr>cd_cleaned := cd_cleaned d @ ls, cd_clauses := before @ [(n, xs @ ls)]\<rparr>)"
  using assms
proof (induction ls arbitrary: d xs)
  case Nil
  have "d\<lparr>cd_cleaned := cd_cleaned d, cd_clauses := cd_clauses d\<rparr> = d" by simp
  with Nil show ?case by (simp only: append_Nil append_Nil2 flip: Nil.prems(3))
next
  case (Cons l ls)
  have "emit_line l d = d\<lparr>cd_cleaned := cd_cleaned d @ [l], cd_clauses := before @ [(n, xs @ [l])]\<rparr>"
    using Cons.prems by (simp add: emit_line_def clause_get_last clause_put_last)
  with Cons.prems Cons.IH [of "d\<lparr>cd_cleaned := cd_cleaned d @ [l], cd_clauses := before @ [(n, xs @ [l])]\<rparr>" "xs @ [l]"]
  show ?case by (simp add: read_line_mark_free)
qed

definition current_after :: "clause_lines \<Rightarrow> int option \<Rightarrow> int option" where
  "current_after outs before = (if outs = [] then before else Some (fst (last outs)))"

lemma read_lines_clauses:
  assumes "\<forall>(n, ls) \<in> set outs. \<forall>l \<in> set ls. mark_free l" and "distinct (map fst (cd_clauses d @ outs))"
  shows "read_lines (concat (map (\<lambda>(n, ls). mark_line n # ls) outs) @ tail) d
    = read_lines tail (d\<lparr>cd_cleaned := cd_cleaned d @ concat (map snd outs), cd_clauses := cd_clauses d @ outs,
        cd_current := current_after outs (cd_current d)\<rparr>)"
  using assms
proof (induction outs arbitrary: d)
  case Nil
  show ?case by (simp add: current_after_def)
next
  case (Cons o1 outs)
  obtain n ls where o1: "o1 = (n, ls)" by (cases o1)
  have new: "n \<notin> fst ` set (cd_clauses d)" using Cons.prems(2) o1 by auto
  let ?d = "d\<lparr>cd_current := Some n, cd_clauses := cd_clauses d @ [(n, [])]\<rparr>"
  let ?e = "?d\<lparr>cd_cleaned := cd_cleaned d @ ls, cd_clauses := cd_clauses d @ [(n, ls)]\<rparr>"
  let ?rest = "concat (map (\<lambda>(n, ls). mark_line n # ls) outs) @ tail"
  have "read_lines (mark_line n # ls @ ?rest) d = read_lines (ls @ ?rest) ?d"
    using new by (simp add: read_mark_line clause_put_new)
  also have "\<dots> = read_lines ?rest ?e"
    using read_lines_printed [of ls ?d n "cd_clauses d" "[]" ?rest] Cons.prems(1) new o1 by simp
  also have "\<dots> = read_lines tail (?e\<lparr>cd_cleaned := cd_cleaned ?e @ concat (map snd outs), cd_clauses := cd_clauses ?e @ outs,
        cd_current := current_after outs (cd_current ?e)\<rparr>)"
    using Cons.prems o1 by (intro Cons.IH) auto
  finally show ?case using o1 by (simp add: current_after_def)
qed

lemma split_lines_line:
  assumes "\<forall>c \<in> set l. \<not> line_break c"
  shows "split_lines acc (l @ NL # rest) = (rev acc @ l) # split_lines [] rest"
  using assms
proof (induction l arbitrary: acc)
  case Nil
  have "line_break NL" by (simp add: line_break_def NL_def)
  then show ?case by (cases rest) (simp_all add: NL_def)
next
  case (Cons c l)
  have "c \<noteq> CHR 13" using Cons.prems by (auto simp: line_break_def)
  with Cons show ?case by (cases l) simp_all
qed

lemma splitlines_lines:
  "\<forall>l \<in> set ls. \<forall>c \<in> set l. \<not> line_break c \<Longrightarrow> py_splitlines (concat (map (\<lambda>l. l @ [NL]) ls)) = ls"
  unfolding py_splitlines_def by (induction ls) (simp_all add: split_lines_line)

lemma marks_unbroken: "\<forall>c \<in> set (mark_line n). \<not> line_break c" "\<forall>c \<in> set (fail_line f). \<not> line_break c"
proof -
  have d: "\<forall>c \<in> set (str_int k). \<not> line_break c" for k
    using str_int_char [of _ k] by (force simp: line_break_def Let_def)
  have "\<forall>c \<in> set CLAUSE_MARK. \<not> line_break c" "\<forall>c \<in> set FAIL_MARK. \<not> line_break c" "\<not> line_break (CHR '' '')"
    by code_simp+
  with d show "\<forall>c \<in> set (mark_line n). \<not> line_break c" "\<forall>c \<in> set (fail_line f). \<not> line_break c"
    by (auto simp: mark_line_def fail_line_def)
qed

lemma clause_output_read:
  assumes "distinct (map fst outs)" and "\<forall>(n, ls) \<in> set outs. \<forall>l \<in> set ls. mark_free l \<and> (\<forall>c \<in> set l. \<not> line_break c)"
  shows "parse_clause_output (concat (map (\<lambda>l. l @ [NL]) (transcript outs failed)))
    = Some (map (\<lambda>(n, ls). (n, join [NL] ls)) outs, failed, join [NL] (concat (map snd outs)))"
proof -
  have "\<forall>l \<in> set (transcript outs failed). \<forall>c \<in> set l. \<not> line_break c"
    using assms(2) marks_unbroken by (fastforce simp: transcript_def split: option.split_asm)
  from splitlines_lines [OF this]
  have "py_splitlines (concat (map (\<lambda>l. l @ [NL]) (transcript outs failed))) = transcript outs failed" .
  moreover have "read_lines (transcript outs failed) no_clauses
      = Some \<lparr>cd_clauses = outs, cd_failed = failed, cd_cleaned = concat (map snd outs), cd_current = current_after outs None\<rparr>"
    unfolding transcript_def using assms
    by (subst read_lines_clauses) (auto simp: no_clauses_def read_fail_line split: option.split)
  ultimately show ?thesis by (simp add: parse_clause_output_def)
qed

end
