(* ===== verification/VerifyRun.thy ===== *)
theory VerifyRun
  imports VerifyCmd TicketRules
begin

section \<open>VerifyRun: whether a candidate verifies\<close>

text \<open>
  The rest of the verify gate of \<^verbatim>\<open>holophyte/loop/gates.py\<close>: a task line, the reports of a run that failed,
  timed out or ran no test, the contract checks, the passes remembered in a process, \<^verbatim>\<open>run_verify\<close> with its
  rerun, and the project's own commands of \<^verbatim>\<open>run_baseline\<close> and \<^verbatim>\<open>with_baseline\<close>. What a command does in
  its worktree is a \<open>verify_look\<close>: the files, the commits, whether the tree is dirty, and the end of the
  process for the script it is given. \<open>None\<close> as a result: the code raises. A timeout comes as \<^verbatim>\<open>:g\<close> prints it.

  The lemmas: a verify passes only where the contracts hold and the command exited 0 having run a test, or
  did so earlier in this process for the same run, worktree, commits, command and limit with a clean tree.
\<close>

subsection \<open>A task line\<close>

definition BUDGET_RE :: re where
  "BUDGET_RE = seq [ch CHR ''('', Grp 1 (plus digit), star space, lit ''min)'', star space, Eol False]"

definition TASK_VERIFY_RE :: re where
  "TASK_VERIFY_RE = seq [lit ''(verify:'', star space, Grp 1 (plus_lazy dot), ch CHR '')'', star space, Eol False]"

definition DEFAULT_BUDGET_MIN :: nat where "DEFAULT_BUDGET_MIN = 20"

definition parse_task :: "string \<Rightarrow> string \<times> string option \<times> nat" where
  "parse_task line =
     (let t = py_strip line;
          (t, budget) = (case re_search BUDGET_RE t of
            None \<Rightarrow> (t, DEFAULT_BUDGET_MIN)
          | Some m \<Rightarrow> (py_strip (re_sub BUDGET_RE (\<lambda>_. []) t), nat_of_digits (group_text 1 m)))
      in case re_search TASK_VERIFY_RE t of
           None \<Rightarrow> (t, None, budget)
         | Some m \<Rightarrow> (py_strip (re_sub TASK_VERIFY_RE (\<lambda>_. []) t), Some (py_strip (group_text 1 m)), budget))"

subsection \<open>The reports\<close>

text \<open>\<open>vs_cross\<close> is the failure mark above U+00FF.\<close>

record verify_signs = signs +
  vs_cross :: string

definition FAILURE_MARKERS :: "verify_signs \<Rightarrow> string list" where
  "FAILURE_MARKERS g = [''FAIL'', ''Error'', ''Traceback'', ''AssertionError'', ''assert'', ''expect('', vs_cross g,
     ''panic:'', ''--- FAIL'']"

definition ACCESS_LOG_RE :: re where
  "ACCESS_LOG_RE = seq [Bol False, star space, plus non_space, ch CHR '' '', plus non_space, ch CHR '' '', plus non_space,
     lit '' ['', plus (none_of '']''), lit ('']'' @ '' '' @ [CHR 34]), plus (Chr (\<lambda>c. 65 \<le> (of_char c :: nat) \<and> (of_char c :: nat) \<le> 90)),
     ch CHR '' '', plus non_space, lit '' HTTP/'', plus (alts [digit, ch CHR ''.'']), lit ([CHR 34] @ '' ''), exactly 3 digit, Bnd]"

definition VACUOUS_RE :: re where
  "VACUOUS_RE = seq [Bol True, star space, alts [seq [lit ''Ran 0 tests'', Bnd], seq [lit ''collected 0 items'', Bnd]]]"

definition KEY_LINES :: nat where "KEY_LINES = 40"
definition KEY_LINE_WIDTH :: nat where "KEY_LINE_WIDTH = 300"

definition is_access_log :: "string \<Rightarrow> bool" where
  "is_access_log line \<longleftrightarrow> re_match ACCESS_LOG_RE line \<noteq> None"

definition key_lines :: "verify_signs \<Rightarrow> string \<Rightarrow> string" where
  "key_lines g out =
     (let found = take KEY_LINES (map (\<lambda>l. take KEY_LINE_WIDTH (py_rstrip l))
            (filter (\<lambda>l. list_ex (\<lambda>m. py_contains m l) (FAILURE_MARKERS g) \<and> \<not> is_access_log l) (py_splitlines out)))
      in if found = [] then [] else ''[verify]   key lines:'' @ [NL] @ concat (map (\<lambda>l. l @ [NL]) found))"

definition shown_output :: "string \<Rightarrow> string \<Rightarrow> string" where
  "shown_output out silent =
     (let kept = py_strip (join [NL] (filter (\<lambda>l. \<not> is_access_log l) (py_splitlines out)))
      in if kept \<noteq> [] then kept else if py_strip out \<noteq> [] then ''(only access-log lines)'' else silent)"

definition last_chars :: "nat \<Rightarrow> string \<Rightarrow> string" where
  "last_chars n s = drop (length s - n) s"

definition text_at :: "(int \<times> string) list \<Rightarrow> int \<Rightarrow> string \<Rightarrow> string" where
  "text_at d k other = (case map_of d k of None \<Rightarrow> other | Some t \<Rightarrow> t)"

text \<open>The report of the whole command, and the one by clauses, which failure and timeout share.\<close>

definition whole_report :: "verify_signs \<Rightarrow> string \<Rightarrow> string \<Rightarrow> string \<Rightarrow> string \<Rightarrow> string" where
  "whole_report g head cmd cleaned silent =
     head @ [NL] @ ''[verify]   full command: '' @ cmd @ [NL] @ key_lines g cleaned
     @ ''[verify]   output:'' @ [NL] @ last_chars 2000 (shown_output cleaned silent)"

definition clause_report ::
    "verify_signs \<Rightarrow> string \<Rightarrow> string list \<Rightarrow> (int \<times> string) list \<Rightarrow> nat \<Rightarrow> string \<Rightarrow> string \<Rightarrow> string" where
  "clause_report g head clauses per n status silent =
     (let lines = concat (map (\<lambda>(k, clause).
            [''[verify]   --- clause '' @ str_nat k @ '' ('' @ (if k = n then status else ''ok'') @ ''): '' @ clause,
             shown_output (text_at per (int k) []) (if k = n then silent else ''(no output)'')])
          (take n (numbered_from_1 clauses)));
          rest = map str_nat [n + 1..<length clauses + 1]
      in head @ [NL] @ key_lines g (text_at per (int n) [])
         @ last_chars 2000 (join [NL] (lines @ (if rest = [] then [] else [''[verify]   not executed: clause '' @ join '', '' rest]))))"

text \<open>A clause the list has: \<^verbatim>\<open>1 <= n <= len(clauses)\<close>.\<close>

definition clause_of :: "string list option \<Rightarrow> int \<Rightarrow> string option" where
  "clause_of clauses n =
     (case clauses of None \<Rightarrow> None
      | Some cs \<Rightarrow> if 1 \<le> n \<and> n \<le> int (length cs) then Some (cs ! nat (n - 1)) else None)"

definition failure_report ::
    "verify_signs \<Rightarrow> string \<Rightarrow> string list option \<Rightarrow> (int \<times> string) list \<Rightarrow> (int \<times> int) option \<Rightarrow> int \<Rightarrow> string \<Rightarrow> string" where
  "failure_report g cmd clauses per failed rc cleaned =
     (case (failed, Option.bind failed (clause_of clauses \<circ> fst)) of
        (Some (n, status), Some clause) \<Rightarrow>
          (let cs = the clauses
           in clause_report g
                (''[verify] FAILED: clause '' @ str_int n @ '' of '' @ str_nat (length cs) @ '' exited '' @ str_int status @ [NL]
                 @ ''[verify]   full command: '' @ cmd @ [NL] @ ''[verify]   failing clause: '' @ clause)
                cs per (nat n) (''exit '' @ str_int status)
                (''(no output '' @ sg_dash g @ '' the clause failed silently)''))
      | _ \<Rightarrow> whole_report g (''[verify] FAILED: command exited '' @ str_int rc) cmd cleaned
               (''(no output '' @ sg_dash g @ '' the command failed silently)''))"

definition TIMEOUT_HEAD :: string where "TIMEOUT_HEAD = ''[verify] FAILED: verify timed out after ''"

definition verify_timed_out :: "string \<Rightarrow> bool" where
  "verify_timed_out out = py_prefix TIMEOUT_HEAD out"

definition last_clause :: "(int \<times> string) list \<Rightarrow> int option" where
  "last_clause per = (if per = [] then None else Some (Max (set (map fst per))))"

definition timeout_failure_report ::
    "verify_signs \<Rightarrow> string \<Rightarrow> string list option \<Rightarrow> (int \<times> string) list \<Rightarrow> string \<Rightarrow> string \<Rightarrow> string" where
  "timeout_failure_report g cmd clauses per cleaned limit =
     (let head = TIMEOUT_HEAD @ limit @ ''s''
      in case (last_clause per, Option.bind (last_clause per) (clause_of clauses)) of
           (Some n, Some clause) \<Rightarrow>
             (let cs = the clauses
              in clause_report g
                   (head @ '' in clause '' @ str_int n @ '' of '' @ str_nat (length cs) @ [NL]
                    @ ''[verify]   full command: '' @ cmd @ [NL] @ ''[verify]   running clause: '' @ clause)
                   cs per (nat n) ''timed out'' ''(no output before the timeout)'')
         | _ \<Rightarrow> whole_report g head cmd cleaned ''(no output before the timeout)'')"

definition vacuous_green_report :: "verify_signs \<Rightarrow> string \<Rightarrow> string \<Rightarrow> string option" where
  "vacuous_green_report g cmd cleaned =
     (case re_search VACUOUS_RE cleaned of
        None \<Rightarrow> None
      | Some m \<Rightarrow>
          (let summary = py_strip (hd (py_splitlines (drop (length (f_before m)) cleaned)));
               body = (if py_strip cleaned = [] then ''(no output)'' else py_strip cleaned)
           in Some (''[verify] FAILED: vacuous-green '' @ sg_dash g @ '' exited 0 but ran no tests'' @ [NL]
                @ ''[verify]   zero-test summary: '' @ summary @ [NL]
                @ ''[verify]   full command: '' @ cmd @ [NL]
                @ ''[verify]   output:'' @ [NL] @ last_chars 2000 body)))"

subsection \<open>The contract checks\<close>

datatype contract_fail = BadPath contract_problem | EmptyLiteral | NoDeclaredFile | LiteralAbsent

text \<open>\<open>file\<close> is the text of a declared path that is a file.\<close>

definition contract_fail_of :: "(string \<Rightarrow> string option) \<Rightarrow> string \<times> string \<Rightarrow> contract_fail option" where
  "contract_fail_of file c =
     (case c of (path, literal) \<Rightarrow>
        (case contract_path_problem path of
           Some p \<Rightarrow> Some (BadPath p)
         | None \<Rightarrow>
             if literal = [] then Some EmptyLiteral
             else case file path of
               None \<Rightarrow> Some NoDeclaredFile
             | Some t \<Rightarrow> if py_contains literal t then None else Some LiteralAbsent))"

definition contract_problem_text :: "contract_fail \<Rightarrow> string" where
  "contract_problem_text p =
     (case p of
        BadPath NoColon \<Rightarrow> ''declaration must read '' @ [CHR 39] @ ''relative/path: expected literal'' @ [CHR 39]
      | BadPath Absolute \<Rightarrow> ''path must be relative to the repo root''
      | BadPath Escapes \<Rightarrow> ''path must stay inside the repo (no '' @ [CHR 39] @ ''..'' @ [CHR 39] @ '' segments)''
      | EmptyLiteral \<Rightarrow> ''declaration has an empty expected literal''
      | NoDeclaredFile \<Rightarrow> ''declared file does not exist''
      | LiteralAbsent \<Rightarrow> ''expected literal is absent from the file'')"

definition contract_report :: "verify_signs \<Rightarrow> (string \<times> string) list \<Rightarrow> (string \<Rightarrow> string option) \<Rightarrow> string option" where
  "contract_report g contracts file =
     (case List.map_filter (\<lambda>c. map_option (\<lambda>p. (c, p)) (contract_fail_of file c)) contracts of
        [] \<Rightarrow> None
      | ((path, literal), p) # _ \<Rightarrow>
          Some (''[verify] FAILED: contract check '' @ sg_dash g @ '' '' @ contract_problem_text p @ [NL]
            @ ''[verify]   path: '' @ path @ [NL] @ ''[verify]   expected literal: '' @ literal))"

definition contract_holds :: "(string \<Rightarrow> string option) \<Rightarrow> string \<times> string \<Rightarrow> bool" where
  "contract_holds file c \<longleftrightarrow> (case c of (path, literal) \<Rightarrow>
     contract_path_problem path = None \<and> literal \<noteq> [] \<and> (\<exists>t. file path = Some t \<and> (\<exists>a b. t = a @ literal @ b)))"

lemma contract_report_none: "contract_report g contracts file = None \<longleftrightarrow> list_all (contract_holds file) contracts"
proof -
  have one: "contract_fail_of file c = None \<longleftrightarrow> contract_holds file c" for c
    by (auto simp: contract_fail_of_def contract_holds_def py_contains_iff split: prod.split option.split)
  have "contract_report g contracts file = None \<longleftrightarrow> list_all (\<lambda>c. contract_fail_of file c = None) contracts"
    by (induction contracts) (auto simp: contract_report_def map_filter_simps split: option.split list.split prod.split)
  then show ?thesis by (simp add: one)
qed

subsection \<open>Running a command\<close>

record verify_failure =
  vy_index :: int
  vy_command :: string
  vy_status :: "int option"
  vy_last :: string

text \<open>\<^verbatim>\<open>VerificationOutput\<close>: the report, its results and the facts of its failure; both empty on a plain string.\<close>

datatype verified_by = FromTicket | FromAlways | FromBeforeMerge

record verify_result =
  vt_source :: verified_by
  vt_command :: string
  vt_exit :: nat
  vt_output :: string

record verified =
  vd_text :: string
  vd_results :: "verify_result list"
  vd_failure :: "verify_failure option"

definition plain_out :: "string \<Rightarrow> verified" where "plain_out t = \<lparr>vd_text = t, vd_results = [], vd_failure = None\<rparr>"

datatype launched = Exited int string | Overran string string

record verify_look =
  vl_file :: "string \<Rightarrow> string option"
  vl_heads :: "string option"
  vl_dirty :: "string option"
  vl_parses :: "string \<Rightarrow> bool"
  vl_launch :: "string \<Rightarrow> launched option"

definition last_line :: "string \<Rightarrow> string" where
  "last_line out = (if out = [] then ''(no output)'' else last (py_splitlines out))"

definition verify_failed :: "string \<Rightarrow> string \<Rightarrow> string list option \<Rightarrow> int \<Rightarrow> int option \<Rightarrow> string \<Rightarrow> verified" where
  "verify_failed report cmd clauses n status out =
     \<lparr>vd_text = report, vd_results = [],
      vd_failure = Some \<lparr>vy_index = n, vy_command = (case clause_of clauses n of None \<Rightarrow> cmd | Some c \<Rightarrow> c),
        vy_status = status, vy_last = last_line out\<rparr>\<rparr>"

definition command_lines :: "string \<Rightarrow> string list" where
  "command_lines cmd = filter (\<lambda>t. py_strip t \<noteq> [] \<and> \<not> py_prefix ''#'' (py_lstrip t)) (py_splitlines cmd)"

definition is_block :: "(string \<Rightarrow> bool) \<Rightarrow> string \<Rightarrow> bool" where
  "is_block parses cmd \<longleftrightarrow> 1 < length (command_lines cmd)
     \<and> list_all (\<lambda>t. split_and_clauses t True \<noteq> None \<and> parses t) (command_lines cmd)"

definition command_clauses :: "(string \<Rightarrow> bool) \<Rightarrow> string \<Rightarrow> string list option" where
  "command_clauses parses cmd = (if is_block parses cmd then Some (command_lines cmd) else split_and_clauses cmd False)"

definition marked_clauses :: "(string \<Rightarrow> bool) \<Rightarrow> string \<Rightarrow> string list option" where
  "marked_clauses parses cmd =
     (case command_clauses parses cmd of None \<Rightarrow> None | Some cs \<Rightarrow> if 1 < length cs then Some cs else None)"

definition command_script :: "(string \<Rightarrow> bool) \<Rightarrow> string \<Rightarrow> string" where
  "command_script parses cmd = (case marked_clauses parses cmd of None \<Rightarrow> cmd | Some cs \<Rightarrow> instrumented_script cs True)"

definition run_command :: "verify_signs \<Rightarrow> verify_look \<Rightarrow> string \<Rightarrow> (bool \<times> verified) option" where
  "run_command g k cmd =
     (let marked = marked_clauses (vl_parses k) cmd in
      case vl_launch k (command_script (vl_parses k) cmd) of
        None \<Rightarrow> None
      | Some (Overran limit out) \<Rightarrow>
          map_option (\<lambda>(per, _, cleaned).
            (let n = (case last_clause per of None \<Rightarrow> 1 | Some n \<Rightarrow> n)
             in (False, verify_failed (timeout_failure_report g cmd marked per cleaned limit) cmd marked n None (text_at per n cleaned))))
            (parse_clause_output out)
      | Some (Exited rc out) \<Rightarrow>
          map_option (\<lambda>(per, failed, cleaned).
            (if rc = 0
             then (case vacuous_green_report g cmd cleaned of
                     None \<Rightarrow> (True, plain_out (last_chars 2000 (py_strip cleaned)))
                   | Some report \<Rightarrow>
                       (let n = (case filter (\<lambda>(_, t). searches VACUOUS_RE t) per of [] \<Rightarrow> 1 | (n, _) # _ \<Rightarrow> n)
                        in (False, verify_failed report cmd (command_clauses (vl_parses k) cmd) n (Some 0) (text_at per n cleaned))))
             else (let n = (case failed of Some (n, _) \<Rightarrow> n | None \<Rightarrow> (case last_clause per of None \<Rightarrow> 1 | Some n \<Rightarrow> n))
                   in (False, verify_failed (failure_report g cmd marked per failed rc cleaned) cmd marked n (Some rc)
                         (text_at per n cleaned)))))
            (parse_clause_output out))"

subsection \<open>The passes of a process\<close>

record pass_key =
  pk_run :: nat
  pk_tree :: string
  pk_head :: string
  pk_main :: string
  pk_cmd :: string
  pk_limit :: int

definition VERIFY_TIMEOUT :: int where "VERIFY_TIMEOUT = 300"

record verify_ask =
  va_run :: "nat option"
  va_tree :: string
  va_cmd :: string
  va_contracts :: "(string \<times> string) list"
  va_limit :: "int option"

definition pass_key :: "verify_ask \<Rightarrow> verify_look \<Rightarrow> pass_key option" where
  "pass_key a k =
     (case (va_run a, map_option py_words (vl_heads k), map_option py_strip (vl_dirty k)) of
        (Some rid, Some [head, main], Some []) \<Rightarrow>
          Some \<lparr>pk_run = rid, pk_tree = va_tree a, pk_head = head, pk_main = main, pk_cmd = va_cmd a,
            pk_limit = (case va_limit a of None \<Rightarrow> VERIFY_TIMEOUT | Some n \<Rightarrow> n)\<rparr>
      | _ \<Rightarrow> None)"

definition prefixed :: "string \<Rightarrow> verified \<Rightarrow> verified" where
  "prefixed t v = v\<lparr>vd_text := t @ vd_text v\<rparr>"

definition run_verify_once ::
    "verify_signs \<Rightarrow> verify_ask \<Rightarrow> verify_look \<Rightarrow> pass_key list \<Rightarrow> ((bool \<times> verified) \<times> pass_key list) option" where
  "run_verify_once g a k passes =
     (case contract_report g (va_contracts a) (vl_file k) of
        Some report \<Rightarrow> Some ((False, plain_out report), passes)
      | None \<Rightarrow>
          (let passed = (if va_contracts a = [] then []
                 else ''[verify] contract checks passed: '' @ str_nat (length (va_contracts a)) @ [NL]);
               key = pass_key a k
           in if va_cmd a = [] then Some ((True, plain_out (passed @ ''(no verify command)'')), passes)
              else case filter (\<lambda>q. key = Some q) passes of
                q # _ \<Rightarrow>
                  Some ((True, plain_out (passed @ ''[verify] not run again: passed earlier in this run at head ''
                    @ take 12 (pk_head q) @ '' with main at '' @ take 12 (pk_main q))), passes)
              | [] \<Rightarrow>
                  map_option (\<lambda>(ok, out).
                    ((ok, if ok then prefixed passed out else out),
                     (case key of Some q \<Rightarrow> if ok then passes @ [q] else passes | None \<Rightarrow> passes)))
                    (run_command g k (va_cmd a))))"

text \<open>A command that exited with another status than 0, or did not finish.\<close>

definition failed_to_finish :: "verified \<Rightarrow> bool" where
  "failed_to_finish out = (case vd_failure out of None \<Rightarrow> False | Some f \<Rightarrow> vy_status f \<noteq> Some 0)"

text \<open>\<^verbatim>\<open>run_verify\<close>: \<open>k\<close> and \<open>k'\<close> are what the two attempts find; the last part is the report of a flaky pass.\<close>

definition run_verify ::
    "verify_signs \<Rightarrow> verify_ask \<Rightarrow> bool \<Rightarrow> verify_look \<Rightarrow> verify_look \<Rightarrow> pass_key list
     \<Rightarrow> ((bool \<times> verified) \<times> pass_key list \<times> string option) option" where
  "run_verify g a rerun k k' passes =
     (case run_verify_once g a k passes of
        None \<Rightarrow> None
      | Some ((ok, out), passes) \<Rightarrow>
          if ok \<or> \<not> rerun \<or> \<not> failed_to_finish out then Some ((ok, out), passes, None)
          else map_option (\<lambda>((again_ok, again), passes).
            (if again_ok
             then ((True, plain_out (vd_text again @ [NL] @ ''[verify] passed on an immediate rerun; the first attempt failed:'' @ [NL]
                     @ vd_text out)), passes, (if va_run a = None then None else Some (vd_text out)))
             else ((False, out\<lparr>vd_text := vd_text out @ [NL] @ ''[verify] an immediate rerun failed too:'' @ [NL] @ vd_text again\<rparr>),
                   passes, None)))
            (run_verify_once g a k' passes))"

subsection \<open>The project's own commands\<close>

text \<open>Each command comes with what its run finds; the rows, the reports and the failure of those that ran.\<close>

type_synonym baseline_run = "bool \<times> verify_result list \<times> string list \<times> verify_failure option"

definition tier_name :: "verified_by \<Rightarrow> string" where
  "tier_name t = (case t of FromTicket \<Rightarrow> ''ticket'' | FromAlways \<Rightarrow> ''always'' | FromBeforeMerge \<Rightarrow> ''before_merge'')"

definition verify_row :: "verified_by \<Rightarrow> string \<Rightarrow> bool \<Rightarrow> verified \<Rightarrow> verify_result" where
  "verify_row t cmd ok out = \<lparr>vt_source = t, vt_command = cmd, vt_exit = (if ok then 0 else 1), vt_output = vd_text out\<rparr>"

definition baseline_report :: "verified_by \<Rightarrow> string \<Rightarrow> verified \<Rightarrow> string" where
  "baseline_report t cmd out = ''[baseline:'' @ tier_name t @ ''] '' @ cmd @ [NL] @ vd_text out"

fun baseline_commands ::
    "verify_signs \<Rightarrow> verify_ask \<Rightarrow> verified_by \<Rightarrow> (string \<times> verify_look) list \<Rightarrow> pass_key list
     \<Rightarrow> (baseline_run \<times> pass_key list) option" where
  "baseline_commands g a t [] passes = Some ((True, [], [], None), passes)"
| "baseline_commands g a t ((cmd, k) # cmds) passes =
     (case run_verify g (a\<lparr>va_cmd := cmd, va_contracts := []\<rparr>) False k k passes of
        None \<Rightarrow> None
      | Some ((ok, out), passes, _) \<Rightarrow>
          if \<not> ok then Some ((False, [verify_row t cmd False out], [baseline_report t cmd out], vd_failure out), passes)
          else map_option (\<lambda>((oks, rows, reports, failure), passes).
              ((oks, verify_row t cmd True out # rows, baseline_report t cmd out # reports, failure), passes))
            (baseline_commands g a t cmds passes))"

definition run_baseline ::
    "verify_signs \<Rightarrow> verify_ask \<Rightarrow> verified_by \<Rightarrow> (string \<times> verify_look) list \<Rightarrow> pass_key list
     \<Rightarrow> ((bool \<times> verified) \<times> pass_key list) option" where
  "run_baseline g a t cmds passes =
     map_option (\<lambda>((ok, rows, reports, failure), passes).
       ((ok, \<lparr>vd_text = join [NL] reports, vd_results = rows, vd_failure = failure\<rparr>), passes))
     (baseline_commands g a t cmds passes)"

text \<open>The tiers one after the other, each only while all went well.\<close>

fun baseline_tiers ::
    "verify_signs \<Rightarrow> verify_ask \<Rightarrow> (verified_by \<times> (string \<times> verify_look) list) list \<Rightarrow> baseline_run \<Rightarrow> pass_key list
     \<Rightarrow> (baseline_run \<times> pass_key list) option" where
  "baseline_tiers g a [] b passes = Some (b, passes)"
| "baseline_tiers g a ((t, cmds) # tiers) (ok, rows, reports, failure) passes =
     (if \<not> ok then Some ((ok, rows, reports, failure), passes)
      else case run_baseline g a t cmds passes of
        None \<Rightarrow> None
      | Some ((ok, v), passes) \<Rightarrow>
          baseline_tiers g a tiers
            (ok, rows @ vd_results v, (if vd_text v = [] then reports else reports @ [vd_text v]), vd_failure v) passes)"

text \<open>The last part: the \<^verbatim>\<open>verification\<close> event, whether the verification passed.\<close>

definition with_baseline ::
    "verify_signs \<Rightarrow> verify_ask \<Rightarrow> (string \<times> verify_look) list \<Rightarrow> (string \<times> verify_look) list option \<Rightarrow> bool \<Rightarrow> verified
     \<Rightarrow> pass_key list \<Rightarrow> ((bool \<times> verified) \<times> pass_key list \<times> bool option) option" where
  "with_baseline g a always before_merge ok out passes =
     (let tiers = (FromAlways, always) # (case before_merge of None \<Rightarrow> [] | Some cmds \<Rightarrow> [(FromBeforeMerge, cmds)]);
          rows = (if va_cmd a = [] then [] else [verify_row FromTicket (va_cmd a) ok out])
      in map_option (\<lambda>((ok, rows, reports, failure), passes).
           ((ok, \<lparr>vd_text = join [NL] reports, vd_results = rows, vd_failure = failure\<rparr>), passes,
            (if list_ex (\<lambda>r. vt_source r \<noteq> FromTicket) rows \<and> va_run a \<noteq> None then Some ok else None)))
         (baseline_tiers g a tiers (ok, rows, [vd_text out], vd_failure out) passes))"

subsection \<open>What a pass means\<close>

text \<open>The command exited 0 and no line of its output says that no test ran.\<close>

definition ran_green :: "verify_look \<Rightarrow> string \<Rightarrow> bool" where
  "ran_green k cmd \<longleftrightarrow>
     (case vl_launch k (command_script (vl_parses k) cmd) of
        Some (Exited rc out) \<Rightarrow>
          (case parse_clause_output out of Some (per, failed, cleaned) \<Rightarrow> rc = 0 \<and> \<not> searches VACUOUS_RE cleaned | None \<Rightarrow> False)
      | _ \<Rightarrow> False)"

lemma vacuous_none: "vacuous_green_report g cmd cleaned = None \<longleftrightarrow> \<not> searches VACUOUS_RE cleaned"
  by (simp add: vacuous_green_report_def searches_def Let_def split: option.split)

lemma run_command_green:
  assumes "run_command g k cmd = Some (ok, out)"
  shows "ok \<longleftrightarrow> ran_green k cmd"
proof (cases "vl_launch k (command_script (vl_parses k) cmd)")
  case None
  with assms show ?thesis by (simp add: run_command_def Let_def)
next
  case (Some e)
  show ?thesis
  proof (cases e)
    case (Overran limit printed)
    with Some assms show ?thesis
      by (cases "parse_clause_output printed") (auto simp: run_command_def ran_green_def Let_def)
  next
    case (Exited rc printed)
    with Some assms obtain per failed cleaned where p: "parse_clause_output printed = Some (per, failed, cleaned)"
      by (cases "parse_clause_output printed") (auto simp only: run_command_def Let_def option.case launched.case option.map option.distinct)
    have green: "ran_green k cmd \<longleftrightarrow> rc = 0 \<and> \<not> searches VACUOUS_RE cleaned"
      by (simp only: ran_green_def Some Exited p option.case launched.case prod.case)
    show ?thesis
    proof (cases "vacuous_green_report g cmd cleaned")
      case None
      with vacuous_none have "\<not> searches VACUOUS_RE cleaned" by blast
      with green assms Some Exited p None show ?thesis
        by (simp only: run_command_def Let_def option.case launched.case option.map prod.case option.inject prod.inject
            split: if_split_asm) simp_all
    next
      case (Some r)
      with vacuous_none have "searches VACUOUS_RE cleaned" by (metis option.distinct(1))
      with green assms \<open>vl_launch _ _ = _\<close> Exited p Some show ?thesis
        by (simp only: run_command_def Let_def option.case launched.case option.map prod.case option.inject prod.inject
            split: if_split_asm) simp_all
    qed
  qed
qed

definition verified_by_look :: "verify_ask \<Rightarrow> verify_look \<Rightarrow> pass_key list \<Rightarrow> bool" where
  "verified_by_look a k passes \<longleftrightarrow> list_all (contract_holds (vl_file k)) (va_contracts a)
     \<and> (va_cmd a = [] \<or> (\<exists>q \<in> set passes. pass_key a k = Some q) \<or> ran_green k (va_cmd a))"

lemma run_verify_once_iff:
  assumes "run_verify_once g a k passes = Some ((ok, out), passes')"
  shows "ok \<longleftrightarrow> verified_by_look a k passes"
proof (cases "contract_report g (va_contracts a) (vl_file k)")
  case (Some r)
  then have "\<not> list_all (contract_holds (vl_file k)) (va_contracts a)" using contract_report_none by (metis option.distinct(1))
  with Some assms show ?thesis by (simp add: run_verify_once_def verified_by_look_def)
next
  case None
  have c: "list_all (contract_holds (vl_file k)) (va_contracts a)" using None contract_report_none by blast
  show ?thesis
  proof (cases "va_cmd a = [] \<or> (\<exists>q \<in> set passes. pass_key a k = Some q)")
    case True
    with None c assms show ?thesis
      by (auto simp: run_verify_once_def verified_by_look_def Let_def filter_empty_conv split: list.split_asm if_split_asm)
  next
    case False
    then have "filter (\<lambda>q. pass_key a k = Some q) passes = []" by (auto simp: filter_empty_conv)
    with False None assms obtain out' where "run_command g k (va_cmd a) = Some (ok, out')"
      by (auto simp: run_verify_once_def Let_def)
    from run_command_green [OF this] False c show ?thesis by (auto simp: verified_by_look_def)
  qed
qed

text \<open>A key is remembered only of a command that ran green with it.\<close>

lemma run_verify_once_passes:
  assumes "run_verify_once g a k passes = Some (r, passes')" and "q \<in> set passes'"
  shows "q \<in> set passes \<or> pass_key a k = Some q \<and> ran_green k (va_cmd a)"
  using assms run_command_green
  by (fastforce simp: run_verify_once_def Let_def split: option.split_asm list.split_asm if_split_asm)

lemma run_verify_looks:
  assumes "run_verify g a rerun k k' passes = Some ((ok, out), passes', flaky)"
  shows "(ok \<longrightarrow> verified_by_look a k passes \<or> rerun \<and> verified_by_look a k' passes)
    \<and> (\<forall>q \<in> set passes'. q \<in> set passes \<or> (\<exists>l \<in> {k, k'}. pass_key a l = Some q \<and> ran_green l (va_cmd a)))"
proof -
  obtain ok1 out1 p1 where one: "run_verify_once g a k passes = Some ((ok1, out1), p1)"
    using assms by (cases "run_verify_once g a k passes") (auto simp: run_verify_def)
  have keep: "p1 = passes" if "\<not> ok1"
    using one that by (auto simp: run_verify_once_def Let_def split: option.split_asm list.split_asm if_split_asm)
  show ?thesis
  proof (cases "ok1 \<or> \<not> rerun \<or> \<not> failed_to_finish out1")
    case True
    then have "ok = ok1" "passes' = p1" using assms one by (simp_all add: run_verify_def)
    with run_verify_once_iff [OF one] run_verify_once_passes [OF one] show ?thesis by blast
  next
    case False
    with assms one keep obtain ok2 out2 p2 where two: "run_verify_once g a k' passes = Some ((ok2, out2), p2)"
      and r: "ok = ok2" "passes' = p2"
      by (cases "run_verify_once g a k' passes") (auto simp: run_verify_def split: if_split_asm)
    from run_verify_once_iff [OF two] run_verify_once_passes [OF two] r False show ?thesis by blast
  qed
qed

text \<open>A process: its verifies one after the other, each with what its two attempts find.\<close>

type_synonym verify_call = "verify_ask \<times> bool \<times> verify_look \<times> verify_look"

fun verify_all :: "verify_signs \<Rightarrow> verify_call list \<Rightarrow> pass_key list \<Rightarrow> pass_key list option" where
  "verify_all g [] passes = Some passes"
| "verify_all g ((a, rerun, k, k') # calls) passes =
     Option.bind (run_verify g a rerun k k' passes) (\<lambda>(_, passes, _). verify_all g calls passes)"

text \<open>The command ran green, with this key, in one of the calls.\<close>

definition earned :: "verify_call list \<Rightarrow> pass_key \<Rightarrow> bool" where
  "earned calls q \<longleftrightarrow> list_ex (\<lambda>(a, _, k, k'). list_ex (\<lambda>l. pass_key a l = Some q \<and> ran_green l (va_cmd a)) [k, k']) calls"

lemma verify_all_earned:
  "verify_all g calls passes = Some passes' \<Longrightarrow> q \<in> set passes' \<Longrightarrow> q \<in> set passes \<or> earned calls q"
proof (induction calls arbitrary: passes)
  case (Cons c calls)
  obtain a rerun k k' where c: "c = (a, rerun, k, k')" by (cases c)
  from Cons.prems c obtain ok out p flaky where one: "run_verify g a rerun k k' passes = Some ((ok, out), p, flaky)"
    and rest: "verify_all g calls p = Some passes'"
    by (auto simp: Option.bind_eq_Some_conv)
  from Cons.IH [OF rest Cons.prems(2)] show ?case
  proof
    assume "q \<in> set p"
    with run_verify_looks [OF one] c show ?thesis by (auto simp: earned_def)
  qed (simp add: earned_def)
qed simp

text \<open>The key holds the run, the worktree, the commits, the command and the limit of a clean tree.\<close>

lemma pass_key_at:
  assumes "pass_key a k = Some q"
  shows "va_run a = Some (pk_run q) \<and> va_tree a = pk_tree q \<and> va_cmd a = pk_cmd q
    \<and> map_option py_words (vl_heads k) = Some [pk_head q, pk_main q] \<and> map_option py_strip (vl_dirty k) = Some []"
  using assms by (auto simp: pass_key_def split: option.split_asm list.split_asm)

subsection \<open>What the project's commands decide\<close>

lemma baseline_commands_rows:
  "baseline_commands g a t cmds passes = Some ((ok, rows, reports, failure), passes') \<Longrightarrow>
     map vt_command rows = take (length rows) (map fst cmds) \<and> length reports = length rows
     \<and> (\<forall>r \<in> set rows. vt_source r = t) \<and> [] \<notin> set reports
     \<and> (if ok then length rows = length cmds \<and> (\<forall>r \<in> set rows. vt_exit r = 0)
        else rows \<noteq> [] \<and> vt_exit (last rows) = 1 \<and> (\<forall>r \<in> set (butlast rows). vt_exit r = 0))"
proof (induction cmds arbitrary: passes ok rows reports failure)
  case (Cons c cmds)
  obtain cmd k where c: "c = (cmd, k)" by (cases c)
  from Cons.prems c obtain ok1 out p flaky where one: "run_verify g (a\<lparr>va_cmd := cmd, va_contracts := []\<rparr>) False k k passes
      = Some ((ok1, out), p, flaky)"
    by (auto split: option.split_asm)
  show ?case
  proof (cases ok1)
    case False
    with Cons.prems one c show ?thesis by (auto simp: verify_row_def baseline_report_def)
  next
    case True
    with Cons.prems one c obtain rows' reports' where
      rest: "baseline_commands g a t cmds p = Some ((ok, rows', reports', failure), passes')"
      and r: "rows = verify_row t cmd True out # rows'" "reports = baseline_report t cmd out # reports'"
      by auto
    from Cons.IH [OF rest] r c show ?thesis by (auto simp: verify_row_def baseline_report_def)
  qed
qed simp

definition tier_commands :: "(verified_by \<times> (string \<times> verify_look) list) list \<Rightarrow> (verified_by \<times> string) list" where
  "tier_commands tiers = concat (map (\<lambda>(t, cmds). map (\<lambda>c. (t, fst c)) cmds) tiers)"

definition row_id :: "verify_result \<Rightarrow> verified_by \<times> string" where
  "row_id r = (vt_source r, vt_command r)"

lemma baseline_tiers_rows:
  "baseline_tiers g a tiers (ok, rows, reports, failure) passes = Some ((ok', rows', reports', failure'), passes') \<Longrightarrow>
     \<exists>new. rows' = rows @ new \<and> map row_id new = take (length new) (tier_commands tiers)
       \<and> (if ok' then ok \<and> length new = length (tier_commands tiers) \<and> (\<forall>r \<in> set new. vt_exit r = 0)
          else if ok then new \<noteq> [] \<and> vt_exit (last new) = 1 \<and> (\<forall>r \<in> set (butlast new). vt_exit r = 0) else new = [])"
proof (induction tiers arbitrary: ok rows reports failure passes)
  case Nil
  then show ?case by (auto simp: tier_commands_def)
next
  case (Cons tc tiers)
  obtain t cmds where tc: "tc = (t, cmds)" by (cases tc)
  show ?case
  proof (cases ok)
    case False
    with Cons.prems tc show ?thesis by auto
  next
    case True
    with Cons.prems tc obtain ok1 v p where one: "run_baseline g a t cmds passes = Some ((ok1, v), p)"
      and rest: "baseline_tiers g a tiers
        (ok1, rows @ vd_results v, (if vd_text v = [] then reports else reports @ [vd_text v]), vd_failure v) p
        = Some ((ok', rows', reports', failure'), passes')"
      by (auto split: option.split_asm)
    from one obtain reports1 where b: "baseline_commands g a t cmds passes = Some ((ok1, vd_results v, reports1, vd_failure v), p)"
      by (auto simp: run_baseline_def)
    note rows1 = baseline_commands_rows [OF b]
    have ids: "map row_id (vd_results v) = take (length (vd_results v)) (map (\<lambda>c. (t, fst c)) cmds)"
    proof -
      from rows1 have c: "map vt_command (vd_results v) = take (length (vd_results v)) (map fst cmds)"
        and src: "\<forall>r \<in> set (vd_results v). vt_source r = t" by blast+
      from src have "map row_id (vd_results v) = map (Pair t \<circ> vt_command) (vd_results v)" by (simp add: row_id_def)
      also have "\<dots> = map (Pair t) (map vt_command (vd_results v))" by simp
      also have "\<dots> = take (length (vd_results v)) (map (\<lambda>c. (t, fst c)) cmds)"
        unfolding c by (simp add: take_map comp_def)
      finally show ?thesis .
    qed
    have le: "length (vd_results v) \<le> length cmds" using arg_cong [OF ids, of length] by simp
    from Cons.IH [OF rest] obtain new where new: "rows' = (rows @ vd_results v) @ new"
      "map row_id new = take (length new) (tier_commands tiers)"
      "if ok' then ok1 \<and> length new = length (tier_commands tiers) \<and> (\<forall>r \<in> set new. vt_exit r = 0)
       else if ok1 then new \<noteq> [] \<and> vt_exit (last new) = 1 \<and> (\<forall>r \<in> set (butlast new). vt_exit r = 0) else new = []"
      by blast
    have tcs: "tier_commands (tc # tiers) = map (\<lambda>c. (t, fst c)) cmds @ tier_commands tiers"
      by (simp add: tier_commands_def tc)
    show ?thesis
    proof (cases ok1)
      case False
      with new rows1 ids tcs True le show ?thesis by (intro exI [of _ "vd_results v"]) auto
    next
      case True
      with rows1 have len: "length (vd_results v) = length cmds" by simp
      with new rows1 ids tcs True \<open>ok\<close> show ?thesis
        by (intro exI [of _ "vd_results v @ new"]) (auto simp: butlast_append)
    qed
  qed
qed

end
