(* ===== verification/Witnesses.thy ===== *)
theory Witnesses
  imports Replies
begin

section \<open>Witnesses: the tests a reply names\<close>

text \<open>
  The checking half of \<^verbatim>\<open>holophyte/review/reply_parsing.py\<close>: the tests a criterion's note refers to
  (\<open>test_references\<close>), whether each is in the worktree (\<open>checked_witnesses\<close>), by the import of its
  module or by a scan of its text, for Python, JavaScript and Go; and whether one still stands for an
  earlier approval.

  The worktree is a \<open>worktree\<close> record: where a path leads and what a file holds, what the child
  interpreter of \<^verbatim>\<open>_import_witnesses\<close> answered, and the two functions of
  \<^verbatim>\<open>holophyte/review/citations.py\<close> that parse Python source with \<^verbatim>\<open>ast\<close>. A text is scanned at a cursor
  where the code has an index into it; the fuel of \<open>code_end\<close> is the length of the text.
\<close>

subsection \<open>References\<close>

text \<open>A \<^verbatim>\<open>DottedReference\<close> has \<open>tr_dotted\<close>.\<close>

record test_ref =
  tr_path :: string
  tr_cls :: "string option"
  tr_name :: string
  tr_dotted :: bool

definition file_chars :: re where
  "file_chars = seq [maybe (ch CHR ''/''), Chr (\<lambda>c. word_char c \<or> c = CHR ''.''),
     star (Chr (\<lambda>c. word_char c \<or> c \<in> set ''./()[]-''))]"

definition quoted_title :: "nat \<Rightarrow> char \<Rightarrow> re" where
  "quoted_title n q = seq [ch q,
     Grp n (plus (alts [none_of [q, CHR 92, NL], seq [ch CHR 92, dot]])), ch q]"

text \<open>The groups: 1 \<^verbatim>\<open>path\<close>, 2 \<^verbatim>\<open>cls\<close>, 3 \<^verbatim>\<open>name\<close>, 4 \<^verbatim>\<open>script\<close>, 5 \<^verbatim>\<open>title_dq\<close>, 6 \<^verbatim>\<open>title_sq\<close>,
  7 \<^verbatim>\<open>other\<close>, 8 \<^verbatim>\<open>title\<close>, 9 \<^verbatim>\<open>ident\<close>, 10 \<^verbatim>\<open>mod\<close>, 11 \<^verbatim>\<open>name2\<close>.\<close>

definition WITNESS_TEST_RE :: re where
  "WITNESS_TEST_RE = alts [
     seq [Grp 1 (seq [file_chars, lit ''.py'']), lit ''::'', maybe (seq [Grp 2 (plus word), lit ''::'']),
          Grp 3 (seq [lit ''test'', star word])],
     seq [Grp 4 (seq [file_chars, ch CHR ''.'',
            alts [seq [any_of ''jt'', ch CHR ''s'', maybe (ch CHR ''x'')], seq [any_of ''mc'', any_of ''jt'', ch CHR ''s'']]]),
          lit ''::'', alts [quoted_title 5 CHR 34, quoted_title 6 CHR 39]],
     seq [Grp 7 (seq [file_chars,
            alts [seq [ch CHR ''.'', alts [lit ''test'', lit ''spec''], lit ''.ts'', maybe (ch CHR ''x'')], lit ''.test.js'', lit ''_test.go'']]),
          lit ''::'', alts [quoted_title 8 CHR 34, Grp 9 (plus word)]],
     seq [Grp 10 (seq [lit ''tests'', plus (seq [ch CHR ''.'', plus word])]), ch CHR ''.'',
          Grp 11 (seq [lit ''test'', star word])]]"

definition upper_char :: "char \<Rightarrow> bool" where
  "upper_char c \<longleftrightarrow> (let n = (of_char c :: nat) in 65 \<le> n \<and> n \<le> 90 \<or> 192 \<le> n \<and> n \<le> 222 \<and> n \<noteq> 215)"

definition unescaped :: "string \<Rightarrow> string" where
  "unescaped t = re_sub (seq [ch CHR 92, Grp 1 dot]) (group_text 1) t"

definition optional :: "string \<Rightarrow> string option" where
  "optional t = (if t = [] then None else Some t)"

definition found_reference :: "found \<Rightarrow> test_ref" where
  "found_reference m =
     (if group_text 1 m \<noteq> []
      then \<lparr>tr_path = group_text 1 m, tr_cls = optional (group_text 2 m), tr_name = group_text 3 m, tr_dotted = False\<rparr>
      else if group_text 4 m \<noteq> [] \<or> group_text 7 m \<noteq> []
      then (let titles = filter (\<lambda>t. t \<noteq> []) (map (\<lambda>n. group_text n m) [5, 6, 8]);
                title = (if titles = [] then [] else unescaped (hd titles))
            in \<lparr>tr_path = (if group_text 4 m \<noteq> [] then group_text 4 m else group_text 7 m), tr_cls = None,
                tr_name = (if title \<noteq> [] then title else group_text 9 m), tr_dotted = False\<rparr>)
      else (let segments = split_on CHR ''.'' (group_text 10 m);
                named = length segments > 1 \<and> last segments \<noteq> [] \<and> upper_char (hd (last segments))
            in \<lparr>tr_path = join ''/'' (if named then butlast segments else segments) @ ''.py'',
                tr_cls = (if named then Some (last segments) else None), tr_name = group_text 11 m, tr_dotted = True\<rparr>))"

definition test_references :: "string \<Rightarrow> test_ref list" where
  "test_references note = map found_reference (re_finditer WITNESS_TEST_RE note)"

text \<open>\<^verbatim>\<open>citations.dotted_module\<close>: the module file a reference without a class may mean.\<close>

definition dotted_module :: "test_ref \<Rightarrow> string option" where
  "dotted_module ref =
     (if \<not> tr_dotted ref \<or> tr_cls ref \<noteq> None then None
      else Some (path_join (remove_suffix (path_suffix (tr_path ref)) (path_str (tr_path ref))) (tr_name ref @ ''.py'')))"

definition test_spec :: "string \<Rightarrow> string option \<Rightarrow> string option \<Rightarrow> string" where
  "test_spec path cls name =
     join ''::'' (filter (\<lambda>p. p \<noteq> []) [path, case cls of None \<Rightarrow> [] | Some c \<Rightarrow> c, case name of None \<Rightarrow> [] | Some n \<Rightarrow> n])"

definition ref_spec :: "test_ref \<Rightarrow> string" where
  "ref_spec ref = test_spec (tr_path ref) (tr_cls ref) (Some (tr_name ref))"

subsection \<open>The scan of a Python file\<close>

definition def_line :: "string \<Rightarrow> string \<Rightarrow> bool" where
  "def_line name line \<longleftrightarrow> matches (seq [star space, lit ''def '', lit name, ch CHR ''('']) line"

definition indent_of :: "string \<Rightarrow> nat" where
  "indent_of line = length line - length (py_lstrip line)"

fun def_below :: "nat \<Rightarrow> string \<Rightarrow> string list \<Rightarrow> bool" where
  "def_below depth name [] = False"
| "def_below depth name (inner # rest) =
     (if \<not> blank inner \<and> indent_of inner \<le> depth then False
      else def_line name inner \<or> def_below depth name rest)"

text \<open>\<^verbatim>\<open>_defines_in_class\<close>; the class statement's indentation is group 1.\<close>

fun defines_in_class :: "bool \<Rightarrow> string list \<Rightarrow> string \<Rightarrow> string \<Rightarrow> bool option" where
  "defines_in_class seen [] cls name = (if seen then Some False else None)"
| "defines_in_class seen (line # rest) cls name =
     (case re_match (seq [Grp 1 (star space), lit ''class '', lit cls, Bnd]) line of
        None \<Rightarrow> defines_in_class seen rest cls name
      | Some m \<Rightarrow>
          if def_below (length (group_text 1 m)) name rest then Some True
          else defines_in_class True rest cls name)"

subsection \<open>The scan of a JavaScript file\<close>

text \<open>Of \<^verbatim>\<open>_JS_QUOTED\<close> only the pattern is used, in \<open>JS_SKIPPED\<close>, where \<^verbatim>\<open>re.S\<close> holds for it too.\<close>

definition JS_SKIPPED :: re where
  "JS_SKIPPED = alts [
     seq [Grp 1 (any_of [CHR 39, CHR 34]),
       star (alts [seq [Ahead False (Back 1), none_of [CHR 92, NL]], seq [ch CHR 92, dot_all]]), Back 1],
     seq [lit ''//'', star (none_of [NL])],
     seq [lit ''/*'', star_lazy dot_all, lit ''*/'']]"

definition JS_REGEX :: re where
  "JS_REGEX = seq [ch CHR ''/'', Ahead False (any_of ''/*''),
     plus (alts [none_of [CHR ''/'', CHR 92, NL, CHR ''[''], seq [ch CHR 92, dot],
       seq [ch CHR ''['', star (alts [none_of [CHR '']'', CHR 92, NL], seq [ch CHR 92, dot]]), ch CHR '']'']]),
     ch CHR ''/'']"

definition REGEX_AFTER :: "string list" where
  "REGEX_AFTER = map (\<lambda>c. [c]) ''(,=:[!&|?{};'' @ [''return'', ''typeof'', ''case'', ''do'', ''else'', ''in'', ''of'', ''new'',
     ''delete'', ''void'', ''throw'', ''instanceof'', ''yield'', ''await'']"

text \<open>\<^verbatim>\<open>_previous_token\<close> of the text before the cursor, which is reversed.\<close>

definition previous_token :: "string \<Rightarrow> string" where
  "previous_token before =
     (let stripped = rev (dropWhile py_space (take 200 before))
      in case re_search (seq [plus word, Eol False]) stripped of
           Some m \<Rightarrow> f_text m
         | None \<Rightarrow> if stripped = [] then ''('' else [last stripped])"

definition js_skip :: "cursor \<Rightarrow> found option" where
  "js_skip cur =
     (case match_here JS_SKIPPED cur of
        Some m \<Rightarrow> Some m
      | None \<Rightarrow>
          if snd cur \<noteq> [] \<and> hd (snd cur) = CHR ''/'' \<and> previous_token (fst cur) \<in> set REGEX_AFTER
          then match_here JS_REGEX cur else None)"

definition move :: "nat \<Rightarrow> cursor \<Rightarrow> cursor" where
  "move n cur = (rev (take n (snd cur)) @ fst cur, drop n (snd cur))"

definition brace_depth :: "char \<Rightarrow> int \<Rightarrow> int" where
  "brace_depth c depth = (if c = CHR ''{'' then depth + 1 else if c = CHR ''}'' then depth - 1 else depth)"

text \<open>
  \<^verbatim>\<open>_code_end\<close> and \<^verbatim>\<open>_template_literals\<close>: the position they end at, and the patterns they append,
  each the list of its literals. The whole text has the depth \<open>None\<close>. What \<open>js_skip\<close> matches is two
  characters or more.
\<close>

fun code_end :: "nat \<Rightarrow> cursor \<Rightarrow> int option \<Rightarrow> cursor \<times> string list list"
  and template_literals :: "nat \<Rightarrow> cursor \<Rightarrow> string \<Rightarrow> (string list \<times> cursor) \<times> string list list" where
  "code_end 0 cur depth = (cur, [])"
| "code_end (Suc fuel) cur depth =
     (case snd cur of
        [] \<Rightarrow> (cur, [])
      | c # cs \<Rightarrow>
          if depth = Some 0 then (cur, [])
          else case js_skip cur of
                 Some m \<Rightarrow> code_end fuel (move (max 1 (length (f_text m))) cur) depth
               | None \<Rightarrow>
                   if c = CHR 0x60
                   then (let t = template_literals fuel (move 1 cur) []; literals = fst (fst t);
                             k = code_end fuel (move 1 (snd (fst t))) depth
                         in (fst k, snd t @ (if length literals > 1 then [literals] else []) @ snd k))
                   else code_end fuel (move 1 cur) (map_option (brace_depth c) depth))"
| "template_literals 0 cur piece = (([piece], cur), [])"
| "template_literals (Suc fuel) cur piece =
     (case snd cur of
        [] \<Rightarrow> (([piece], cur), [])
      | c # cs \<Rightarrow>
          if c = CHR 0x60 then (([piece], cur), [])
          else if c = CHR 92 then template_literals fuel (move 2 cur) (piece @ take 1 cs)
          else if c = CHR ''$'' \<and> cs \<noteq> [] \<and> hd cs = CHR ''{''
          then (let k = code_end fuel (move 2 cur) (Some 1); t = template_literals fuel (fst k) []
                in ((piece # fst (fst t), snd (fst t)), snd k @ snd t))
          else template_literals fuel (move 1 cur) (piece @ [c]))"

definition template_pattern :: "string list \<Rightarrow> re" where
  "template_pattern literals =
     seq (lit (hd literals) # concat (map (\<lambda>l. [plus_lazy (none_of [NL]), lit l]) (tl literals)))"

definition template_patterns :: "string \<Rightarrow> re list" where
  "template_patterns t = map template_pattern (snd (code_end (length t) ([], t) None))"

definition quoted_spellings :: "string \<Rightarrow> string list" where
  "quoted_spellings name =
     (let doubled = py_replace [CHR 92] [CHR 92, CHR 92] name
      in name # map (\<lambda>q. py_replace [q] [CHR 92, q] doubled) [CHR 34, CHR 39, CHR 0x60])"

subsection \<open>The scan of a Go file\<close>

definition GO_STRING :: re where
  "GO_STRING = seq [ch CHR 34, Grp 1 (star (alts [none_of [CHR 34, CHR 92, NL], seq [ch CHR 92, dot]])), ch CHR 34]"

text \<open>Group 1 is a string's text, group 2 a comment; \<^verbatim>\<open>re.S\<close>.\<close>

definition GO_TOKEN :: re where
  "GO_TOKEN = alts [
     seq [ch CHR 34, Grp 1 (star (alts [none_of [CHR 34, CHR 92, NL], seq [ch CHR 92, dot_all]])), ch CHR 34],
     seq [ch CHR 0x60, star (none_of [CHR 0x60]), ch CHR 0x60],
     seq [ch CHR 39, star (alts [none_of [CHR 39, CHR 92, NL], seq [ch CHR 92, dot_all]]), ch CHR 39],
     Grp 2 (alts [seq [lit ''//'', star (none_of [NL])], seq [lit ''/*'', star_lazy dot_all, lit ''*/'']])]"

definition func_of :: "string \<Rightarrow> string \<Rightarrow> bool" where
  "func_of parent t \<longleftrightarrow> searches (seq [Bnd, lit ''func '', lit parent, ch CHR ''('']) t"

definition underscored :: "string \<Rightarrow> string" where
  "underscored t = map (\<lambda>c. if py_space c then CHR ''_'' else c) t"

text \<open>The body of the test from its \<^verbatim>\<open>func\<close> line; a name with a line break other than the newline, on which
  the code raises \<^verbatim>\<open>StopIteration\<close>, has none.\<close>

definition go_body :: "string \<Rightarrow> string \<Rightarrow> string" where
  "go_body t parent =
     (case dropWhile (\<lambda>l. \<not> func_of parent l) (py_splitlines t) of
        [] \<Rightarrow> []
      | l # rest \<Rightarrow> (let inner = takeWhile (\<lambda>x. x \<noteq> ''}'') rest
          in join [NL] (l # inner @ take 1 (drop (length inner) rest))))"

definition go_code :: "string \<Rightarrow> string" where
  "go_code body = re_sub GO_TOKEN (\<lambda>m. if group_text 2 m \<noteq> [] then '' '' else f_text m) body"

definition go_table_titles :: "string \<Rightarrow> string \<Rightarrow> string list" where
  "go_table_titles t parent =
     (let body = go_body t parent
      in if \<not> searches (seq [lit ''.Run('', Ahead False (seq [star space, ch CHR 34])]) (go_code body) then []
         else map underscored (List.map_filter (group 1) (re_finditer GO_TOKEN body)))"

definition go_runs :: "string \<Rightarrow> string \<Rightarrow> string list" where
  "go_runs t parent =
     map (underscored \<circ> group_text 1) (re_finditer (seq [lit ''.Run('', GO_STRING]) t) @ go_table_titles t parent"

definition scan_go_subtest :: "string \<Rightarrow> string \<Rightarrow> string option" where
  "scan_go_subtest t name =
     (let parts = split_on CHR ''/'' name; parent = hd parts
      in if \<not> func_of parent t then Some (''no func '' @ parent)
         else map_option (\<lambda>child. ''no .Run('' @ [CHR 34] @ child @ [CHR 34] @ '') for '' @ parent)
                (find (\<lambda>child. underscored child \<notin> set (go_runs t parent)) (tl parts)))"

definition scan_witness :: "string \<Rightarrow> string \<Rightarrow> string option \<Rightarrow> string \<Rightarrow> string option" where
  "scan_witness suffix t cls name =
     (if suffix = ''.go'' \<and> CHR ''/'' \<in> set name then scan_go_subtest t name
      else if suffix \<noteq> ''.py''
      then (if list_ex (\<lambda>spelling. py_contains spelling t) (quoted_spellings name)
              \<or> suffix \<noteq> ''.go'' \<and> list_ex (\<lambda>form. fullmatches form name) (template_patterns t)
            then None else Some (''no test named '' @ [CHR 34] @ name @ [CHR 34]))
      else case cls of
             None \<Rightarrow> if list_ex (def_line name) (py_splitlines t) then None else Some (''no def '' @ name)
           | Some c \<Rightarrow>
               (case defines_in_class False (py_splitlines t) c name of
                  None \<Rightarrow> Some (''no class '' @ c)
                | Some found \<Rightarrow> if found then None else Some (''no def '' @ name @ '' in class '' @ c)))"

subsection \<open>The worktree\<close>

text \<open>What the child interpreter says of a class witness: nothing, that it is callable, or the classes
  that define the name.\<close>

datatype imported = Unresolved | Callable | DefinedOn "string list"

record worktree =
  wt_inside :: "string \<Rightarrow> string option"
  wt_read :: "string \<Rightarrow> string option"
  wt_import :: "test_ref \<Rightarrow> imported"
  wt_classes :: "string \<Rightarrow> string \<Rightarrow> string list"
  wt_changed :: "string list"
  wt_unchanged :: "string \<Rightarrow> string option \<Rightarrow> string \<Rightarrow> bool"

text \<open>The resolved path of \<^verbatim>\<open>_inside\<close>, with the text where it is a file.\<close>

definition file_text :: "worktree \<Rightarrow> string \<Rightarrow> string option" where
  "file_text w path = Option.bind (wt_inside w path) (wt_read w)"

definition imported_of :: "worktree \<Rightarrow> test_ref \<Rightarrow> imported" where
  "imported_of w ref =
     (if tr_cls ref = None \<or> file_text w (tr_path ref) = None then Unresolved else wt_import w ref)"

definition witness_reason :: "worktree \<Rightarrow> string \<Rightarrow> string \<Rightarrow> test_ref \<Rightarrow> string option \<times> string list" where
  "witness_reason w file t ref =
     (case imported_of w ref of
        Callable \<Rightarrow> (None, [])
      | DefinedOn classes \<Rightarrow>
          (Some (''import: no callable '' @ tr_name ref @ '' on class ''
             @ (case tr_cls ref of None \<Rightarrow> ''None'' | Some c \<Rightarrow> c)), classes)
      | Unresolved \<Rightarrow>
          (case scan_witness (path_suffix file) t (tr_cls ref) (tr_name ref) of
             None \<Rightarrow> (None, [])
           | Some reason \<Rightarrow>
               (Some ((if tr_cls ref \<noteq> None then ''textual fallback: '' else ''textual scan: '') @ reason),
                if tr_cls ref \<noteq> None \<and> path_suffix file = ''.py'' then wt_classes w t (tr_name ref) else [])))"

text \<open>A reference stands as it is, stands for another test by a rule, or is missing.\<close>

datatype checked = Stands | StandsAs string "string option" "string option" string | Missing string

definition check_witness :: "worktree \<Rightarrow> test_ref \<Rightarrow> checked" where
  "check_witness w ref =
     (case wt_inside w (tr_path ref) of
        None \<Rightarrow> Missing (ref_spec ref @ '' (outside the worktree: '' @ tr_path ref @ '')'')
      | Some file \<Rightarrow>
          (let (reason, classes) =
                 (case wt_read w file of
                    None \<Rightarrow> (Some (''no file '' @ tr_path ref), []) | Some t \<Rightarrow> witness_reason w file t ref)
           in case reason of
                None \<Rightarrow> Stands
              | Some why \<Rightarrow>
                  (let others = filter (\<lambda>other. Some other \<noteq> tr_cls ref) classes
                   in if length others = 1
                      then StandsAs (tr_path ref) (Some (hd others)) (Some (tr_name ref)) ''other class''
                      else case dotted_module ref of
                             Some module \<Rightarrow>
                               if file_text w module \<noteq> None then StandsAs module None None ''dotted module''
                               else Missing (ref_spec ref @ '' ('' @ why @ (if others \<noteq> [] then ''; defined on classes '' @ join '', '' others else []) @ '')'')
                           | None \<Rightarrow>
                               Missing (ref_spec ref @ '' ('' @ why @ (if others \<noteq> [] then ''; defined on classes '' @ join '', '' others else []) @ '')''))))"

definition missing_witnesses :: "worktree \<Rightarrow> test_ref list \<Rightarrow> string list" where
  "missing_witnesses w refs =
     List.map_filter (\<lambda>ref. case check_witness w ref of Missing why \<Rightarrow> Some why | _ \<Rightarrow> None) refs"

subsection \<open>An earlier approval\<close>

definition APPROVAL_RE :: re where
  "APPROVAL_RE = seq [Bnd, lit_i ''approval'', plus space, lit_i ''at'', plus space,
     Grp 1 (Rep True 7 (Some 40) (Chr (\<lambda>c. is_digit_char c \<or> c \<in> set ''abcdefABCDEF''))), Bnd]"

definition cites_approval :: "string \<Rightarrow> bool" where
  "cites_approval note \<longleftrightarrow> searches (seq [Bnd, lit_i ''approval'', plus space, lit_i ''at'', Bnd]) note"

text \<open>\<^verbatim>\<open>_approval_problems\<close>, \<open>None\<close> where no approval is in question; the range is the approved and the
  reviewed commit.\<close>

definition approval_problems :: "string \<Rightarrow> test_ref list \<Rightarrow> (string \<times> string) option \<Rightarrow> string list option" where
  "approval_problems note refs approved =
     (case approved of
        None \<Rightarrow> None
      | Some (sha, _) \<Rightarrow>
          if \<not> cites_approval note then None
          else if \<not> list_ex (\<lambda>m. py_prefix (py_lower (group_text 1 m)) (py_lower sha)) (re_finditer APPROVAL_RE note)
          then Some [''prior approval must name the approved sha'']
          else if refs \<noteq> [] then Some [] else Some [''prior approval must name a test''])"

text \<open>The dictionary \<^verbatim>\<open>corrected\<close>: a reference and the test it stands for instead.\<close>

type_synonym test_key = "string \<times> string option \<times> string option"

definition ref_key :: "test_ref \<Rightarrow> test_key" where
  "ref_key ref = (tr_path ref, tr_cls ref, Some (tr_name ref))"

definition corrections :: "worktree \<Rightarrow> test_ref list \<Rightarrow> (test_key \<times> test_key \<times> string) list" where
  "corrections w refs =
     dedup (List.map_filter (\<lambda>ref. case check_witness w ref of
        StandsAs path cls name rule \<Rightarrow> Some (ref_key ref, (path, cls, name), rule) | _ \<Rightarrow> None) refs)"

definition stands_at :: "(test_key \<times> test_key \<times> string) list \<Rightarrow> test_ref \<Rightarrow> test_key" where
  "stands_at corrected ref = (case map_of corrected (ref_key ref) of None \<Rightarrow> ref_key ref | Some (key, _) \<Rightarrow> key)"

definition key_spec :: "test_key \<Rightarrow> string" where
  "key_spec key = (case key of (path, cls, name) \<Rightarrow> test_spec path cls name)"

definition changed_since :: "worktree \<Rightarrow> string \<Rightarrow> bool" where
  "changed_since w path \<longleftrightarrow> wt_inside w path \<in> Some ` set (wt_changed w)"

definition kept_test :: "worktree \<Rightarrow> test_key \<Rightarrow> bool" where
  "kept_test w at = (case at of (path, cls, name) \<Rightarrow>
     (case name of None \<Rightarrow> False | Some n \<Rightarrow> n \<noteq> [] \<and> py_suffix ''.py'' path \<and> wt_unchanged w path cls n))"

type_synonym resolution = "string \<times> string \<times> string"

definition checked_approval ::
    "worktree \<Rightarrow> string \<Rightarrow> test_ref list \<Rightarrow> (string \<times> string) option \<Rightarrow> string list \<times> resolution list" where
  "checked_approval w note refs approved =
     (if approval_problems note refs approved \<noteq> Some [] then ([], [])
      else let touched = filter (\<lambda>(path, cls, name). changed_since w path) (map (stands_at (corrections w refs)) refs)
           in (map (\<lambda>(path, cls, name). path @ '' (changed since approval at '' @ fst (the approved) @ '')'')
                 (filter (\<lambda>at. \<not> kept_test w at) touched),
               map (\<lambda>key. (key_spec key, key_spec key, ''unchanged since approval''))
                 (filter (kept_test w) touched)))"

subsection \<open>The scan of JavaScript ends within its fuel\<close>

abbreviation left :: "cursor \<Rightarrow> nat" where "left cur \<equiv> length (snd cur)"

lemma left_move [simp]: "left (move n cur) = left cur - n"
  by (simp add: move_def)

lemma scan_shrinks:
  "left (fst (code_end fuel cur depth)) \<le> left cur"
  "left (snd (fst (template_literals fuel cur piece))) \<le> left cur"
  by (induction fuel cur depth and fuel cur piece rule: code_end_template_literals.induct)
    (fastforce simp: Let_def split: list.split option.split)+

lemma one_more_fuel:
  "left cur \<le> fuel \<Longrightarrow> code_end (Suc fuel) cur depth = code_end fuel cur depth
    \<and> template_literals (Suc fuel) cur piece = template_literals fuel cur piece"
proof (induction fuel arbitrary: cur depth piece)
  case 0
  then show ?case by simp
next
  case (Suc fuel)
  have code: "left q \<le> fuel \<Longrightarrow> code_end (Suc fuel) q d = code_end fuel q d" for q d
    using Suc.IH by blast
  have template: "left q \<le> fuel \<Longrightarrow> template_literals (Suc fuel) q p = template_literals fuel q p" for q p
    using Suc.IH by blast
  have after_template: "left (snd (fst (template_literals fuel (move 1 cur) p))) - 1 \<le> fuel" for p
    using scan_shrinks(2) [of fuel "move 1 cur" p] Suc.prems by simp
  have after_code: "left (fst (code_end fuel (move 2 cur) d)) \<le> fuel" for d
    using scan_shrinks(1) [of fuel "move 2 cur" d] Suc.prems by simp
  show ?case
  proof (cases "snd cur")
    case Nil
    then show ?thesis by simp
  next
    case (Cons c cs)
    with Suc.prems have "left cur - 1 \<le> fuel" "left cur - 2 \<le> fuel" "left cur - max 1 n \<le> fuel" for n by auto
    then show ?thesis
      using Cons after_template after_code
      by (simp add: code_end.simps(2) [of "Suc fuel" cur depth] code_end.simps(2) [of fuel cur depth]
          template_literals.simps(2) [of "Suc fuel" cur piece] template_literals.simps(2) [of fuel cur piece]
          code template Let_def del: code_end.simps template_literals.simps split: option.split)
  qed
qed

theorem template_patterns_fuel:
  "template_patterns t = map template_pattern (snd (code_end (length t + k) ([], t) None))"
proof (induction k)
  case (Suc k)
  with one_more_fuel [of "([], t)" "length t + k"] show ?case by simp
qed (simp add: template_patterns_def)

subsection \<open>What a check says\<close>

text \<open>A reference outside the worktree, or to no file, never stands.\<close>

lemma check_witness_stands:
  assumes "check_witness w ref = Stands"
  shows "\<exists>file t. wt_inside w (tr_path ref) = Some file \<and> wt_read w file = Some t
    \<and> fst (witness_reason w file t ref) = None"
  using assms
  by (auto simp: check_witness_def Let_def split: option.splits prod.splits if_split_asm)

lemma witness_reason_none:
  assumes "fst (witness_reason w file t ref) = None"
  shows "imported_of w ref = Callable
    \<or> imported_of w ref = Unresolved \<and> scan_witness (path_suffix file) t (tr_cls ref) (tr_name ref) = None"
  using assms by (auto simp: witness_reason_def split: imported.splits option.splits)

text \<open>A Python test without a class stands only by a line that defines it, or by its import.\<close>

lemma check_witness_python:
  assumes "check_witness w ref = Stands" and "tr_cls ref = None"
    and "wt_inside w (tr_path ref) = Some file" and "path_suffix file = ''.py''"
  shows "\<exists>t line. wt_read w file = Some t \<and> line \<in> set (py_splitlines t) \<and> def_line (tr_name ref) line"
proof -
  from check_witness_stands [OF assms(1)] assms(3) obtain t where
    t: "wt_read w file = Some t" "fst (witness_reason w file t ref) = None" by auto
  have "imported_of w ref = Unresolved" using assms(2) by (simp add: imported_of_def)
  with witness_reason_none [OF t(2)] have "scan_witness (path_suffix file) t (tr_cls ref) (tr_name ref) = None" by simp
  with assms(2,4) t(1) show ?thesis by (auto simp: scan_witness_def list_ex_iff split: if_split_asm)
qed

end
