(* ===== verification/Gate.thy ===== *)
theory Gate
  imports Witnesses
begin

section \<open>Gate: what a reviewer's reply lets through\<close>

text \<open>
  The judging part of \<^verbatim>\<open>holophyte/review/reply_parsing.py\<close>: \<open>judge\<close> decides for one criterion what
  the reply's account of it is worth, \<open>criteria_findings\<close> turns every criterion that is not met, and
  every file outside the ticket's scope that the reply does not call needed, into a finding, and
  \<open>review_reply\<close> asks the reviewer at most twice. Of \<^verbatim>\<open>review_round.py\<close>: \<open>review\<close>, the findings of a
  round from its reply, the adversary, the verification and the leak guard. The criteria come
  numbered (\<open>judged_list\<close> of CriterionIds); without a worktree no witness is checked.

  \<open>criteria_clear\<close> says when the gate is open: each criterion has an account with the status
  \<^verbatim>\<open>met\<close> whose note names something, each test named there is in the worktree, and a cited approval is
  the one in question.
\<close>

subsection \<open>Judging a criterion\<close>

record judged =
  jd_n :: nat
  jd_criterion :: string
  jd_status :: string
  jd_note :: string
  jd_stale :: bool
  jd_resolved :: "resolution list"

definition UNWITNESSED_NOTE :: string where "UNWITNESSED_NOTE = ''no CRITERION line in the reply''"
definition MISSING_WITNESS_NOTE :: string where "MISSING_WITNESS_NOTE = ''named test not found: ''"

definition approval_missing :: "string \<Rightarrow> test_ref list \<Rightarrow> (string \<times> string) option \<Rightarrow> string list" where
  "approval_missing note refs approved = (case approval_problems note refs approved of None \<Rightarrow> [] | Some ps \<Rightarrow> ps)"

definition met :: "nat \<times> string \<Rightarrow> string \<Rightarrow> resolution list \<Rightarrow> judged" where
  "met pair note resolved =
     \<lparr>jd_n = fst pair, jd_criterion = snd pair, jd_status = ''met'', jd_note = note, jd_stale = False, jd_resolved = resolved\<rparr>"

definition not_met :: "nat \<times> string \<Rightarrow> string \<Rightarrow> string \<Rightarrow> bool \<Rightarrow> judged" where
  "not_met pair status note stale =
     \<lparr>jd_n = fst pair, jd_criterion = snd pair, jd_status = status, jd_note = note, jd_stale = stale, jd_resolved = []\<rparr>"

text \<open>A note that says \<^verbatim>\<open>met\<close>, checked against the worktree.\<close>

definition judge_met :: "worktree \<Rightarrow> (string \<times> string) option \<Rightarrow> nat \<times> string \<Rightarrow> string \<Rightarrow> judged" where
  "judge_met w approved pair note =
     (let refs = test_references note;
          missing = missing_witnesses w refs @ approval_missing note refs approved;
          (stale, kept) = checked_approval w note refs approved
      in if missing \<noteq> [] \<or> stale \<noteq> []
         then not_met pair ''unwitnessed'' (MISSING_WITNESS_NOTE @ join ''; '' (missing @ stale)) (missing = [])
         else met pair note (map (\<lambda>(ref, stands, rule). (key_spec ref, key_spec stands, rule)) (corrections w refs) @ kept))"

definition judge ::
    "worktree option \<Rightarrow> (string \<times> string) option \<Rightarrow> (nat \<Rightarrow> (string \<times> string) option) \<Rightarrow> nat \<times> string \<Rightarrow> judged" where
  "judge wt approved block pair =
     (let (status, note) = (case block (fst pair) of None \<Rightarrow> (''unwitnessed'', UNWITNESSED_NOTE) | Some account \<Rightarrow> account)
      in if status \<noteq> ''met'' then not_met pair status note False
         else if note = [] then not_met pair ''unwitnessed'' ''met claimed but no test or check named'' False
         else case wt of None \<Rightarrow> met pair note [] | Some w \<Rightarrow> judge_met w approved pair note)"

definition judged_criteria ::
    "worktree option \<Rightarrow> (string \<times> string) option \<Rightarrow> string \<Rightarrow> (nat \<times> string) list \<Rightarrow> judged list" where
  "judged_criteria wt approved reply pairs = map (judge wt approved (criteria_block reply)) pairs"

record status_entry =
  cs_n :: nat
  cs_status :: string
  cs_note :: string
  cs_resolved :: "resolution list"

definition criteria_statuses ::
    "worktree option \<Rightarrow> (string \<times> string) option \<Rightarrow> string \<Rightarrow> (nat \<times> string) list \<Rightarrow> status_entry list" where
  "criteria_statuses wt approved reply pairs =
     map (\<lambda>j. \<lparr>cs_n = jd_n j, cs_status = map (\<lambda>c. if c = CHR '' '' then CHR ''_'' else c) (jd_status j),
             cs_note = jd_note j, cs_resolved = jd_resolved j\<rparr>)
       (judged_criteria wt approved reply pairs)"

subsection \<open>Findings\<close>

text \<open>A finding, with the approval it found stale.\<close>

type_synonym gate_finding = "raw_finding \<times> string option"

definition CRITERIA_PATH :: string where "CRITERIA_PATH = ''criteria''"

definition or_no_reason :: "string \<Rightarrow> string" where
  "or_no_reason note = (if note = [] then ''(no reason given)'' else note)"

definition plain_finding :: "string \<Rightarrow> int option \<Rightarrow> string \<Rightarrow> raw_finding" where
  "plain_finding path line message =
     \<lparr>rf_path = path, rf_line = line, rf_severity = Some DEFAULT_SEVERITY, rf_message = message,
      rf_evidence = None, rf_category = None\<rparr>"

definition criterion_finding :: "signs \<Rightarrow> (string \<times> string) option \<Rightarrow> judged \<Rightarrow> gate_finding" where
  "criterion_finding g approved j =
     (plain_finding CRITERIA_PATH (Some (int (jd_n j)))
        (finding_message g (''CRITERION C'' @ str_nat (jd_n j) @ '': '' @ jd_status j @ '' '' @ sg_dash g @ '' ''
           @ or_no_reason (jd_note j) @ [NL] @ jd_criterion j)),
      if jd_stale j then map_option fst approved else None)"

definition scope_finding :: "signs \<Rightarrow> (string \<Rightarrow> (string \<times> string) option) \<Rightarrow> string \<Rightarrow> gate_finding" where
  "scope_finding g answers path =
     (plain_finding path None (finding_message g
        (case answers path of
           Some (status, note) \<Rightarrow>
             if status = ''tangent'' then ''SCOPE '' @ path @ '': tangent '' @ sg_dash g @ '' '' @ or_no_reason note
             else ''SCOPE '' @ path @ '': unaccounted '' @ sg_dash g
               @ '' the ticket does not name this file and the reply gave no SCOPE line for it''
         | None \<Rightarrow> ''SCOPE '' @ path @ '': unaccounted '' @ sg_dash g
               @ '' the ticket does not name this file and the reply gave no SCOPE line for it'')),
      None)"

definition needed :: "(string \<Rightarrow> (string \<times> string) option) \<Rightarrow> string \<Rightarrow> bool" where
  "needed answers path \<longleftrightarrow> map_option fst (answers path) = Some ''needed''"

definition scope_findings :: "signs \<Rightarrow> string \<Rightarrow> string list \<Rightarrow> gate_finding list" where
  "scope_findings g reply scope =
     map (scope_finding g (scope_answers reply)) (filter (\<lambda>path. \<not> needed (scope_answers reply) path) scope)"

definition criteria_findings ::
    "signs \<Rightarrow> worktree option \<Rightarrow> (string \<times> string) option \<Rightarrow> string \<Rightarrow> (nat \<times> string) list \<Rightarrow> string list \<Rightarrow> gate_finding list" where
  "criteria_findings g wt approved reply pairs scope =
     map (criterion_finding g approved)
       (filter (\<lambda>j. jd_status j \<noteq> ''met'') (judged_criteria wt approved reply pairs))
     @ scope_findings g reply scope"

datatype decision = Verdict string | MalformedReply

definition stale_approvals :: "decision \<Rightarrow> gate_finding list \<Rightarrow> gate_finding list" where
  "stale_approvals d findings =
     (if d = Verdict ''APPROVE'' \<and> (\<forall>f \<in> set findings. snd f \<notin> {None, Some []}) then findings else [])"

text \<open>\<^verbatim>\<open>cited_approval\<close>; \<open>resolve\<close> is \<^verbatim>\<open>git rev-parse\<close> of a commit, empty where git knows none.\<close>

definition cited_approval :: "(string \<Rightarrow> string) \<Rightarrow> string \<Rightarrow> string \<Rightarrow> (string \<times> string) option" where
  "cited_approval resolve reply sha =
     (case dedup (map (\<lambda>m. resolve (group_text 1 m)) (re_finditer APPROVAL_RE reply)) of
        [commit] \<Rightarrow> if commit = [] then None else Some (commit, sha)
      | _ \<Rightarrow> None)"

subsection \<open>Asking the reviewer\<close>

definition decision_of :: "string \<Rightarrow> decision" where
  "decision_of reply =
     (case terminal_verdict REVIEW_VERDICTS reply of None \<Rightarrow> MalformedReply | Some v \<Rightarrow> Verdict v)"

text \<open>The agent's reply of each attempt, and whether a stop is requested after a malformed one; \<open>None\<close> when
  the stop ends the run. The first reply is kept where it had no verdict.\<close>

definition review_reply :: "(nat \<Rightarrow> string) \<Rightarrow> (nat \<Rightarrow> bool) \<Rightarrow> (string \<times> decision \<times> string option) option" where
  "review_reply answer stop =
     (if decision_of (answer 0) \<noteq> MalformedReply then Some (answer 0, decision_of (answer 0), None)
      else if stop 0 then None
      else if decision_of (answer 1) = MalformedReply \<and> stop 1 then None
      else Some (answer 1, decision_of (answer 1), Some (answer 0)))"

subsection \<open>The findings of a round\<close>

text \<open>The facts of a verification: whether it passed, whether its output starts as a timeout's does,
  and of the failed command its index, text, exit status and last line.\<close>

record verification =
  vf_ok :: bool
  vf_timed_out :: bool
  vf_index :: "nat option"
  vf_command :: string
  vf_status :: "int option"
  vf_last :: string

definition verify_title :: "string \<Rightarrow> verification \<Rightarrow> string" where
  "verify_title verify_cmd v =
     ''failing verify command: ''
     @ (if vf_command v \<noteq> [] then vf_command v else if verify_cmd \<noteq> [] then verify_cmd else ''(no command)'')
     @ (case vf_status v of None \<Rightarrow> [] | Some n \<Rightarrow> '' (exit '' @ str_int n @ '')'')"

definition verify_findings :: "string \<Rightarrow> verification \<Rightarrow> gate_finding list" where
  "verify_findings verify_cmd v =
     (if vf_ok v \<or> vf_timed_out v then []
      else [(\<lparr>rf_path = ''verify'',
              rf_line = (case vf_index v of None \<Rightarrow> None | Some n \<Rightarrow> if n = 0 then None else Some (int n)),
              rf_severity = Some ''p1'',
              rf_message = verify_title verify_cmd v @ (if vf_last v = [] then [] else [NL] @ vf_last v),
              rf_evidence = None, rf_category = None\<rparr>, None)])"

text \<open>The adversary's part of a round: not asked, no reply twice, or its blocking findings.\<close>

datatype attack = NotAsked | NoDone | Attacked "raw_finding list"

definition blocking_findings :: "attack \<Rightarrow> gate_finding list" where
  "blocking_findings a = (case a of Attacked fs \<Rightarrow> map (\<lambda>f. (f, None)) fs | _ \<Rightarrow> [])"

record round_facts =
  rq_answer :: "nat \<Rightarrow> string"
  rq_stop :: "nat \<Rightarrow> bool"
  rq_tree :: worktree
  rq_resolve :: "string \<Rightarrow> string"
  rq_pairs :: "(nat \<times> string) list"
  rq_scope :: "string list"
  rq_attack :: attack
  rq_leaks :: "raw_finding list"

datatype review_end = ReviewStopped | NoVerdict | NoAdversary | Reviewed_as string decision "gate_finding list"

definition round_findings :: "signs \<Rightarrow> round_facts \<Rightarrow> string \<Rightarrow> verification \<Rightarrow> string \<Rightarrow> string \<Rightarrow> gate_finding list" where
  "round_findings g q verify_cmd v sha reply =
     criteria_findings g (Some (rq_tree q)) (cited_approval (rq_resolve q) reply sha) reply (rq_pairs q) (rq_scope q)
     @ blocking_findings (rq_attack q) @ verify_findings verify_cmd v @ map (\<lambda>f. (f, None)) (rq_leaks q)"

definition review :: "signs \<Rightarrow> round_facts \<Rightarrow> string \<Rightarrow> verification \<Rightarrow> string \<Rightarrow> review_end" where
  "review g q verify_cmd v sha =
     (case review_reply (rq_answer q) (rq_stop q) of
        None \<Rightarrow> ReviewStopped
      | Some (reply, d, _) \<Rightarrow>
          if d = MalformedReply then NoVerdict
          else if rq_attack q = NoDone then NoAdversary
          else Reviewed_as reply d (round_findings g q verify_cmd v sha reply))"

subsection \<open>What the store is told of a round\<close>

text \<open>The verdict and the findings \<^verbatim>\<open>record_round\<close> of \<^verbatim>\<open>holophyte/loop/runs.py\<close> stores; the reply of a first
  attempt without a verdict comes before them, as evidence.\<close>

datatype round_role = ReviewRole | AdjudicateRole

record round_record =
  rcd_verdict :: round_result
  rcd_prior :: "raw_finding option"
  rcd_findings :: "gate_finding list"

definition role_verdicts :: "round_role \<Rightarrow> string list" where
  "role_verdicts role = (case role of ReviewRole \<Rightarrow> REVIEW_VERDICTS | AdjudicateRole \<Rightarrow> ADJUDICATION_VERDICTS)"

definition prior_finding :: "signs \<Rightarrow> string \<Rightarrow> raw_finding option" where
  "prior_finding g prior =
     (if prior = [] then None
      else let shown = sanitize_findings g (Some (length prior)) prior
           in Some ((whole_finding g shown)\<lparr>rf_message := shown\<rparr>))"

definition round_record_of ::
    "signs \<Rightarrow> round_role \<Rightarrow> string \<Rightarrow> gate_finding list option \<Rightarrow> gate_finding list \<Rightarrow> gate_finding list \<Rightarrow> string \<Rightarrow> round_record" where
  "round_record_of g role reply structured unwitnessed adversary prior =
     (let verdict = round_verdict (role_verdicts role) reply;
          findings = (if verdict = RoundError then [(whole_finding g reply, None)]
                      else if verdict = RoundChanges \<and> role = ReviewRole then map (\<lambda>f. (f, None)) (parse_findings g reply)
                      else []);
          (verdict, findings) = (case structured of
              None \<Rightarrow> (verdict, findings)
            | Some fs \<Rightarrow> (if role = AdjudicateRole \<and> verdict = RoundPass \<and> fs \<noteq> [] then RoundChanges else verdict, fs));
          more = unwitnessed @ adversary;
          (verdict, findings) =
            (if role = ReviewRole \<and> verdict \<noteq> RoundError \<and> more \<noteq> [] then (RoundChanges, findings @ more)
             else (verdict, findings))
      in \<lparr>rcd_verdict = verdict, rcd_prior = prior_finding g prior, rcd_findings = findings\<rparr>)"

subsection \<open>When the gate is open\<close>

definition witnessed :: "worktree \<Rightarrow> (string \<times> string) option \<Rightarrow> string \<Rightarrow> bool" where
  "witnessed w approved note \<longleftrightarrow>
     missing_witnesses w (test_references note) = []
     \<and> approval_missing note (test_references note) approved = []
     \<and> fst (checked_approval w note (test_references note) approved) = []"

definition criterion_met ::
    "worktree option \<Rightarrow> (string \<times> string) option \<Rightarrow> (nat \<Rightarrow> (string \<times> string) option) \<Rightarrow> nat \<Rightarrow> bool" where
  "criterion_met wt approved block n \<longleftrightarrow>
     (\<exists>note. block n = Some (''met'', note) \<and> note \<noteq> [] \<and> (\<forall>w. wt = Some w \<longrightarrow> witnessed w approved note))"

lemma judge_status_met:
  "jd_status (judge wt approved block pair) = ''met'' \<longleftrightarrow> criterion_met wt approved block (fst pair)"
  by (auto simp: judge_def criterion_met_def not_met_def met_def judge_met_def witnessed_def Let_def
      split: option.splits prod.splits)

lemma judge_fields [simp]:
  "jd_n (judge wt approved block pair) = fst pair" "jd_criterion (judge wt approved block pair) = snd pair"
  by (auto simp: judge_def not_met_def met_def judge_met_def Let_def split: option.splits prod.splits)

lemma criteria_clear:
  "criteria_findings g wt approved reply pairs scope = [] \<longleftrightarrow>
     (\<forall>pair \<in> set pairs. criterion_met wt approved (criteria_block reply) (fst pair))
     \<and> (\<forall>path \<in> set scope. needed (scope_answers reply) path)"
  by (auto simp: criteria_findings_def scope_findings_def judged_criteria_def filter_empty_conv judge_status_met)

lemma criteria_block_account:
  assumes "criteria_block reply n = Some (status, note)"
  shows "\<exists>m \<in> set (criterion_accounts reply). criterion_account m = (n, status, note)"
  using map_of_SomeD [OF assms [unfolded criteria_block_def]] by auto

text \<open>An approval that raises no finding.\<close>

definition clear_round :: "round_facts \<Rightarrow> verification \<Rightarrow> string \<Rightarrow> string \<Rightarrow> bool" where
  "clear_round q v sha reply \<longleftrightarrow>
     (\<forall>pair \<in> set (rq_pairs q). criterion_met (Some (rq_tree q)) (cited_approval (rq_resolve q) reply sha)
        (criteria_block reply) (fst pair))
     \<and> (\<forall>path \<in> set (rq_scope q). needed (scope_answers reply) path)
     \<and> blocking_findings (rq_attack q) = [] \<and> rq_leaks q = [] \<and> (vf_ok v \<or> vf_timed_out v)"

lemma round_findings_clear: "round_findings g q verify_cmd v sha reply = [] \<longleftrightarrow> clear_round q v sha reply"
proof -
  have "verify_findings verify_cmd v = [] \<longleftrightarrow> vf_ok v \<or> vf_timed_out v" by (simp add: verify_findings_def)
  then show ?thesis unfolding round_findings_def clear_round_def by (simp add: criteria_clear conj_ac)
qed

lemma review_reply_decision:
  "review_reply answer stop = Some (reply, d, first) \<Longrightarrow> d = decision_of reply"
  by (auto simp: review_reply_def split: if_split_asm)

lemma review_reviewed:
  assumes "review g q verify_cmd v sha = Reviewed_as reply d fs"
  shows "d = decision_of reply \<and> d \<noteq> MalformedReply \<and> rq_attack q \<noteq> NoDone
    \<and> fs = round_findings g q verify_cmd v sha reply"
  using assms by (auto simp: review_def split: option.splits if_split_asm dest: review_reply_decision)

lemma review_approves:
  assumes "review g q verify_cmd v sha = Reviewed_as reply (Verdict ''APPROVE'') []"
  shows "terminal_verdict REVIEW_VERDICTS reply = Some ''APPROVE'' \<and> clear_round q v sha reply"
proof -
  from review_reviewed [OF assms] have "decision_of reply = Verdict ''APPROVE''"
    "round_findings g q verify_cmd v sha reply = []" by simp_all
  then show ?thesis by (simp add: decision_of_def round_findings_clear split: option.splits)
qed

lemma stale_approvals_all:
  "stale_approvals d findings \<noteq> [] \<Longrightarrow> stale_approvals d findings = findings \<and> d = Verdict ''APPROVE''"
  by (simp add: stale_approvals_def split: if_split_asm)

text \<open>The stored verdict is the one the round acts on.\<close>

lemma round_record_pass:
  "rcd_verdict (round_record_of g ReviewRole reply None unwitnessed adversary prior) = RoundPass \<longleftrightarrow>
     terminal_verdict REVIEW_VERDICTS reply = Some ''APPROVE'' \<and> unwitnessed @ adversary = []"
proof -
  have "v \<in> {''APPROVE'', ''REQUEST_CHANGES''}" if "terminal_verdict REVIEW_VERDICTS reply = Some v" for v
    using terminal_verdict_Some [OF that] by (simp add: REVIEW_VERDICTS_def)
  then show ?thesis
    by (auto simp: round_record_of_def role_verdicts_def round_verdict_def Let_def
        split: option.split round_role.split if_split)
qed

lemma round_record_error:
  "rcd_verdict (round_record_of g ReviewRole reply None unwitnessed adversary prior) = RoundError \<longleftrightarrow>
     terminal_verdict REVIEW_VERDICTS reply = None"
  by (auto simp: round_record_of_def role_verdicts_def round_verdict_def Let_def split: option.split if_split)

end
