(* ===== verification/Rounds.thy ===== *)
theory Rounds
  imports Gate
begin

section \<open>Rounds: from the implementer's commit to the merge gate\<close>

text \<open>
  \<^verbatim>\<open>holophyte/loop/review_round.py\<close> (\<open>run_rounds\<close>: verify, review and one fix turn per round, up to
  the cap), \<^verbatim>\<open>holophyte/loop/adjudicate.py\<close> (\<open>adjudicate\<close>, the verdict once the rounds are spent) and
  the part of \<^verbatim>\<open>holophyte/loop/pipeline.py\<close> between them and the merge gate (\<open>adjudications\<close>,
  \<open>gate_candidate\<close>). A run that raises ends with a value of \<open>ended\<close>.

  What the rounds are told by the agents, git, the verify commands and the store is a \<open>round_input\<close>:
  functions of the commit asked about, so that what a verdict is on is part of the statement. The
  world gives one for each round. What is kept between rounds, \<^verbatim>\<open>pending\<close>, is a \<open>carried\<close>; a resumed
  run starts with the one of its checkpoint. The stops at the boundaries of a round are \<open>ri_stop\<close>.

  The lemmas: a candidate approved by a round was verified by the commands then adopted and approved
  by a reply that met every criterion, at that commit; one that reaches the gate is so approved, or
  was passed by an adjudication after a green verification; the same head is reviewed again for stale
  approvals at most once.
\<close>

subsection \<open>The cap\<close>

record cap_config =
  cc_rounds :: nat
  cc_per_lines :: nat
  cc_max :: nat

definition review_round_cap :: "nat \<Rightarrow> cap_config \<Rightarrow> nat" where
  "review_round_cap changed_lines cfg =
     min (cc_max cfg) (cc_rounds cfg + (if cc_per_lines cfg \<noteq> 0 then changed_lines div cc_per_lines cfg else 0))"

subsection \<open>The inputs of a round\<close>

datatype ended =
    RunStopped
  | Conflicts "string list"
  | RunCapReached
  | SteerTimedOut
  | NoVerdictTwice
  | NoAdversaryReply
  | VerifyTimedOut
  | StaleAgain
  | Contradicted
  | FixNoTokens
  | FixTimedOut
  | FixNoProgress
  | VerifyFailed
  | AdjudicatorFailed
  | PassNamedNoCriterion
  | Rejected decision

datatype steering_turn = NoSteer | SteeredTo string | SteerEnds ended

datatype stop_point = AtVerifying | AtReviewing | AtAddressing | AtNext | AtMergeGate

record fix_result =
  fx_cap :: bool
  fx_contradicted :: bool
  fx_head :: string
  fx_spec_moved :: bool
  fx_timed_out :: bool
  fx_no_tokens :: bool

record round_input =
  ri_steer :: "string \<Rightarrow> steering_turn"
  ri_cmd :: string
  ri_stop :: "stop_point \<Rightarrow> bool"
  ri_conflicts :: "string list"
  ri_verify :: "string \<Rightarrow> string \<Rightarrow> ended + string \<times> verification"
  ri_review :: "string \<Rightarrow> round_facts"
  ri_pending :: bool
  ri_steer_after :: "string \<Rightarrow> steering_turn"
  ri_cap :: bool
  ri_fix :: "string \<Rightarrow> fix_result"

datatype resumed_phase = InReview | InFix

record carried =
  pd_phase :: "resumed_phase option"
  pd_verified :: verification
  pd_cmd :: "string option"
  pd_stale :: "gate_finding list"

definition unverified :: verification where
  "unverified = \<lparr>vf_ok = False, vf_timed_out = False, vf_index = None, vf_command = [], vf_status = None, vf_last = []\<rparr>"

definition nothing :: carried where
  "nothing = \<lparr>pd_phase = None, pd_verified = unverified, pd_cmd = None, pd_stale = []\<rparr>"

subsection \<open>One round\<close>

datatype step = Ends ended | Approves string | Goes_on string carried

text \<open>\<^verbatim>\<open>_steer_at_top\<close> and \<^verbatim>\<open>_round_contract\<close>.\<close>

definition steered_at_top :: "round_input \<Rightarrow> string \<Rightarrow> carried \<Rightarrow> ended + string \<times> carried" where
  "steered_at_top r sha p =
     (case ri_steer r sha of NoSteer \<Rightarrow> Inr (sha, p) | SteeredTo s \<Rightarrow> Inr (s, nothing) | SteerEnds e \<Rightarrow> Inl e)"

definition kept_pending :: "string \<Rightarrow> round_input \<Rightarrow> carried \<Rightarrow> carried" where
  "kept_pending claimed r p =
     (if (case pd_cmd p of None \<Rightarrow> claimed | Some c \<Rightarrow> c) = ri_cmd r then p else nothing)"

definition round_verified :: "round_input \<Rightarrow> string \<Rightarrow> carried \<Rightarrow> ended + string \<times> verification" where
  "round_verified r sha p =
     (if pd_phase p \<noteq> None then Inr (sha, pd_verified p) else ri_verify r sha (ri_cmd r))"

text \<open>The fix turn and what follows it.\<close>

definition fix_step :: "round_input \<Rightarrow> string \<Rightarrow> step" where
  "fix_step r sha =
     (let f = ri_fix r sha
      in if ri_cap r then Ends RunCapReached
         else if ri_stop r AtAddressing then Ends RunStopped
         else if fx_cap f then Ends RunCapReached
         else if fx_contradicted f \<and> \<not> fx_timed_out f then Ends Contradicted
         else if ri_stop r AtNext then Ends RunStopped
         else if fx_timed_out f then Ends FixTimedOut
         else if fx_head f = sha \<and> \<not> fx_spec_moved f
         then Ends (if fx_no_tokens f then FixNoTokens else FixNoProgress)
         else Goes_on (fx_head f) nothing)"

definition rereview_step :: "round_input \<Rightarrow> string \<Rightarrow> verification \<Rightarrow> gate_finding list \<Rightarrow> carried \<Rightarrow> step" where
  "rereview_step r sha v stale p =
     (if pd_stale p \<noteq> [] then Ends StaleAgain
      else if ri_stop r AtNext then Ends RunStopped
      else Goes_on sha \<lparr>pd_phase = Some InReview, pd_verified = v, pd_cmd = Some (ri_cmd r), pd_stale = stale\<rparr>)"

definition approved_step :: "round_input \<Rightarrow> string \<Rightarrow> step" where
  "approved_step r sha =
     (if ri_pending r
      then if ri_stop r AtNext then Ends RunStopped
           else (case ri_steer_after r sha of
                   NoSteer \<Rightarrow> Goes_on sha nothing | SteeredTo s \<Rightarrow> Goes_on s nothing | SteerEnds e \<Rightarrow> Ends e)
      else if ri_stop r AtMergeGate then Ends RunStopped
      else Approves sha)"

definition judged_step ::
    "round_input \<Rightarrow> string \<Rightarrow> verification \<Rightarrow> carried \<Rightarrow> decision \<Rightarrow> gate_finding list \<Rightarrow> step" where
  "judged_step r sha v p d findings =
     (if vf_ok v \<and> findings = [] \<and> d = Verdict ''APPROVE'' then approved_step r sha
      else if \<not> vf_ok v \<and> findings = [] \<and> d = Verdict ''APPROVE'' \<and> vf_timed_out v then Ends VerifyTimedOut
      else (let stale = (if vf_ok v then stale_approvals d findings else [])
            in if stale \<noteq> [] then rereview_step r sha v stale p else fix_step r sha))"

definition round_step :: "signs \<Rightarrow> string \<Rightarrow> nat \<Rightarrow> round_input \<Rightarrow> string \<Rightarrow> carried \<Rightarrow> step" where
  "round_step g claimed rnd r sha p =
     (case steered_at_top r sha p of
        Inl e \<Rightarrow> Ends e
      | Inr (sha, p) \<Rightarrow>
          (let p = kept_pending claimed r p
           in if ri_stop r AtVerifying then Ends RunStopped
              else if rnd = 1 \<and> ri_conflicts r \<noteq> [] then Ends (Conflicts (ri_conflicts r))
              else (case round_verified r sha p of
                      Inl e \<Rightarrow> Ends e
                    | Inr (sha, v) \<Rightarrow>
                        if ri_stop r AtReviewing then Ends RunStopped
                        else if pd_phase p = Some InFix then fix_step r sha
                        else (case review g (ri_review r sha) (ri_cmd r) v sha of
                                ReviewStopped \<Rightarrow> Ends RunStopped
                              | NoVerdict \<Rightarrow> Ends NoVerdictTwice
                              | NoAdversary \<Rightarrow> Ends NoAdversaryReply
                              | Reviewed_as reply d findings \<Rightarrow> judged_step r sha v p d findings))))"

subsection \<open>The rounds\<close>

text \<open>The rounds after \<open>rnd\<close>, as many as \<open>left\<close>: the last commit, the last round, and whether it approved.\<close>

fun rounds_from ::
    "signs \<Rightarrow> (nat \<Rightarrow> round_input) \<Rightarrow> string \<Rightarrow> nat \<Rightarrow> nat \<Rightarrow> string \<Rightarrow> carried \<Rightarrow> ended + string \<times> nat \<times> bool" where
  "rounds_from g world claimed 0 rnd sha p = Inr (sha, rnd, False)"
| "rounds_from g world claimed (Suc k) rnd sha p =
     (case round_step g claimed (Suc rnd) (world (Suc rnd)) sha p of
        Ends e \<Rightarrow> Inl e
      | Approves s \<Rightarrow> Inr (s, Suc rnd, True)
      | Goes_on s p \<Rightarrow> rounds_from g world claimed k (Suc rnd) s p)"

text \<open>\<open>resume\<close> is the checkpoint's round and what it carries; a fresh run has none.\<close>

definition run_rounds ::
    "signs \<Rightarrow> (nat \<Rightarrow> round_input) \<Rightarrow> string \<Rightarrow> nat \<Rightarrow> string \<Rightarrow> (nat \<times> carried) option \<Rightarrow> ended + string \<times> nat \<times> bool" where
  "run_rounds g world claimed cap sha resume =
     (let (first, p) = (case resume of None \<Rightarrow> (1, nothing) | Some (rnd, p) \<Rightarrow> (rnd, p))
      in rounds_from g world claimed (Suc cap - first) (first - 1) sha p)"

subsection \<open>The terminal adjudication\<close>

text \<open>\<^verbatim>\<open>_left_open\<close>: the criteria the last review round's findings left open, of those still numbered.\<close>

definition left_open :: "raw_finding list \<Rightarrow> (nat \<times> string) list \<Rightarrow> nat list" where
  "left_open findings pairs =
     filter (\<lambda>n. \<exists>f \<in> set findings. rf_path f = CRITERIA_PATH \<and> rf_line f = Some (int n))
       (sort (remdups (map fst pairs)))"

definition left_open_finding :: "signs \<Rightarrow> (nat \<times> string) list \<Rightarrow> nat \<Rightarrow> gate_finding" where
  "left_open_finding g pairs n =
     (plain_finding CRITERIA_PATH (Some (int n))
        (finding_message g (''CRITERION C'' @ str_nat n @ '': unwitnessed '' @ sg_dash g
           @ '' the review round left it unmet or unwitnessed; only a named test overturns that'' @ [NL]
           @ (case map_of pairs n of None \<Rightarrow> [] | Some t \<Rightarrow> t))), None)"

definition names_test :: "string \<Rightarrow> nat \<Rightarrow> bool" where
  "names_test reply n \<longleftrightarrow> (case criteria_block reply n of None \<Rightarrow> False | Some (_, note) \<Rightarrow> test_references note \<noteq> [])"

definition criteria_gate :: "signs \<Rightarrow> worktree \<Rightarrow> string \<Rightarrow> (nat \<times> string) list \<Rightarrow> nat list \<Rightarrow> gate_finding list" where
  "criteria_gate g w reply pairs open_ns =
     (let findings = criteria_findings g (Some w) None reply pairs []
      in sort_key (\<lambda>f. case rf_line (fst f) of None \<Rightarrow> 0 | Some n \<Rightarrow> n)
           (findings @ map (left_open_finding g pairs)
              (filter (\<lambda>n. Some (int n) \<notin> (rf_line \<circ> fst) ` set findings \<and> \<not> names_test reply n) open_ns)))"

datatype adj_answer = TurnFailed | Answered string

record adj_input =
  aj_cmd :: string
  aj_pairs :: "(nat \<times> string) list"
  aj_left :: "nat list"
  aj_tree :: "string \<Rightarrow> worktree"
  aj_stop :: "stop_point \<Rightarrow> bool"
  aj_verify :: "string \<Rightarrow> string \<Rightarrow> verification"
  aj_answer :: "string \<Rightarrow> adj_answer"

text \<open>The checkpoint of an adjudication a pause interrupted; its reply where there was one.\<close>

record adj_carried =
  ac_cmd :: "string option"
  ac_verified :: verification
  ac_left :: "nat list"
  ac_reply :: "string option"

definition adj_decision :: "string \<Rightarrow> decision" where
  "adj_decision reply =
     (case terminal_verdict ADJUDICATION_VERDICTS reply of None \<Rightarrow> MalformedReply | Some v \<Rightarrow> Verdict v)"

definition judge_reply :: "signs \<Rightarrow> adj_input \<Rightarrow> nat list \<Rightarrow> string \<Rightarrow> bool \<Rightarrow> string \<Rightarrow> ended + unit" where
  "judge_reply g a open_ns sha recorded reply =
     (let d = adj_decision reply
      in if \<not> recorded \<and> d = Verdict ''PASS'' \<and> aj_pairs a \<noteq> [] \<and> criterion_accounts reply = []
         then Inl PassNamedNoCriterion
         else if d = Verdict ''PASS'' \<and> criteria_gate g (aj_tree a sha) reply (aj_pairs a) open_ns \<noteq> []
         then Inl (if aj_stop a AtNext then RunStopped else Rejected (Verdict ''FAIL''))
         else if d \<noteq> Verdict ''PASS'' then Inl (if aj_stop a AtNext then RunStopped else Rejected d)
         else if aj_stop a AtMergeGate then Inl RunStopped else Inr ())"

definition adjudicate :: "signs \<Rightarrow> string \<Rightarrow> adj_input \<Rightarrow> string \<Rightarrow> adj_carried option \<Rightarrow> ended + unit" where
  "adjudicate g claimed a sha resume =
     (let resume = (case resume of None \<Rightarrow> None | Some c \<Rightarrow>
            if (case ac_cmd c of None \<Rightarrow> claimed | Some cmd \<Rightarrow> cmd) = aj_cmd a then Some c else None);
          open_ns = (case resume of None \<Rightarrow> aj_left a | Some c \<Rightarrow> ac_left c);
          v = (case resume of None \<Rightarrow> aj_verify a sha (aj_cmd a) | Some c \<Rightarrow> ac_verified c)
      in if aj_stop a AtVerifying then Inl RunStopped
         else if aj_stop a AtReviewing then Inl RunStopped
         else if \<not> vf_ok v then Inl VerifyFailed
         else (case Option.bind resume ac_reply of
                 Some reply \<Rightarrow> if reply \<noteq> [] then judge_reply g a open_ns sha True reply
                   else (case aj_answer a sha of
                           TurnFailed \<Rightarrow> Inl AdjudicatorFailed | Answered reply \<Rightarrow> judge_reply g a open_ns sha False reply)
               | None \<Rightarrow>
                   (case aj_answer a sha of
                      TurnFailed \<Rightarrow> Inl AdjudicatorFailed | Answered reply \<Rightarrow> judge_reply g a open_ns sha False reply)))"

subsection \<open>To the merge gate\<close>

text \<open>
  One turn of the loop of \<^verbatim>\<open>_run_stages\<close>: whether the run could be closed to steer notes, the steer turn,
  and the adjudication. The list bounds the turns looked at; \<open>None\<close> where it does not reach the end.
\<close>

record closing =
  cl_closes :: bool
  cl_steer :: "string \<Rightarrow> steering_turn"
  cl_adj :: adj_input

fun adjudications ::
    "signs \<Rightarrow> string \<Rightarrow> closing list \<Rightarrow> bool \<Rightarrow> string \<Rightarrow> adj_carried option \<Rightarrow> (ended + string) option" where
  "adjudications g claimed [] approved sha resume = None"
| "adjudications g claimed (c # cs) approved sha resume =
     (if approved \<and> cl_closes c then Some (Inr sha)
      else case cl_steer c sha of
             SteerEnds e \<Rightarrow> Some (Inl e)
           | NoSteer \<Rightarrow>
               (case adjudicate g claimed (cl_adj c) sha resume of
                  Inl e \<Rightarrow> Some (Inl e) | Inr _ \<Rightarrow> adjudications g claimed cs True sha None)
           | SteeredTo s \<Rightarrow>
               (case adjudicate g claimed (cl_adj c) s None of
                  Inl e \<Rightarrow> Some (Inl e) | Inr _ \<Rightarrow> adjudications g claimed cs True s None))"

definition gate_candidate ::
    "signs \<Rightarrow> (nat \<Rightarrow> round_input) \<Rightarrow> string \<Rightarrow> nat \<Rightarrow> string \<Rightarrow> (nat \<times> carried) option \<Rightarrow> closing list \<Rightarrow>
      adj_carried option \<Rightarrow> (ended + string) option" where
  "gate_candidate g world claimed cap sha resume closings adj =
     (case run_rounds g world claimed cap sha resume of
        Inl e \<Rightarrow> Some (Inl e)
      | Inr (s, rnd, approved) \<Rightarrow> adjudications g claimed closings approved s adj)"

subsection \<open>What an approval rests on\<close>

definition cmd_of :: "string \<Rightarrow> carried \<Rightarrow> string" where
  "cmd_of claimed p = (case pd_cmd p of None \<Rightarrow> claimed | Some c \<Rightarrow> c)"

lemma fix_step_goes_on: "fix_step r sha = Goes_on s q \<Longrightarrow> q = nothing"
  by (auto simp: fix_step_def Let_def split: if_split_asm)

lemma fix_step_not_approves [simp]: "fix_step r sha \<noteq> Approves s"
  by (auto simp: fix_step_def Let_def)

lemma approved_step_cases:
  "approved_step r sha = Goes_on s q \<Longrightarrow> q = nothing"
  "approved_step r sha = Approves s \<Longrightarrow> s = sha \<and> \<not> ri_pending r"
  by (auto simp: approved_step_def split: if_split_asm steering_turn.split_asm)

lemma rereview_step_cases:
  "rereview_step r sha v stale p = Goes_on s q \<Longrightarrow>
     s = sha \<and> pd_stale p = [] \<and> pd_phase q = Some InReview \<and> pd_verified q = v \<and> pd_cmd q = Some (ri_cmd r)
     \<and> pd_stale q = stale"
  "rereview_step r sha v stale p \<noteq> Approves s"
  by (auto simp: rereview_step_def split: if_split_asm)

lemma judged_step_approves:
  assumes "judged_step r sha v p d findings = Approves s"
  shows "s = sha \<and> vf_ok v \<and> findings = [] \<and> d = Verdict ''APPROVE'' \<and> \<not> ri_pending r"
  using assms approved_step_cases(2)
  by (auto simp: judged_step_def Let_def rereview_step_cases(2) split: if_split_asm)

lemma judged_step_goes_on:
  assumes "judged_step r sha v p d findings = Goes_on s q"
  shows "q = nothing \<or> s = sha \<and> pd_phase q = Some InReview \<and> pd_verified q = v \<and> pd_cmd q = Some (ri_cmd r)
    \<and> pd_stale p = [] \<and> vf_ok v"
  using assms
  by (auto simp: judged_step_def Let_def dest: fix_step_goes_on approved_step_cases(1) rereview_step_cases(1)
      split: if_split_asm)

text \<open>The commit and the verification a round judges: its own, or those carried into it.\<close>

definition judges :: "string \<Rightarrow> round_input \<Rightarrow> string \<Rightarrow> carried \<Rightarrow> string \<Rightarrow> verification \<Rightarrow> bool" where
  "judges claimed r sha p s v \<longleftrightarrow>
     (\<exists>h. ri_verify r h (ri_cmd r) = Inr (s, v))
     \<or> ri_steer r sha = NoSteer \<and> s = sha \<and> v = pd_verified p \<and> pd_phase p \<noteq> None \<and> cmd_of claimed p = ri_cmd r"

lemma round_step_judged:
  assumes "round_step g claimed rnd r sha p = out" and "\<forall>e. out \<noteq> Ends e"
  shows "(\<exists>s. out = fix_step r s) \<or> (\<exists>s v q reply d findings. judges claimed r sha p s v
    \<and> review g (ri_review r s) (ri_cmd r) v s = Reviewed_as reply d findings
    \<and> out = judged_step r s v q d findings \<and> (q = p \<or> q = nothing))"
proof -
  obtain t q where t: "steered_at_top r sha p = Inr (t, q)"
    using assms by (cases "steered_at_top r sha p") (auto simp: round_step_def)
  then have tq: "t = sha \<and> q = p \<and> ri_steer r sha = NoSteer \<or> q = nothing"
    by (auto simp: steered_at_top_def split: steering_turn.split_asm)
  let ?q = "kept_pending claimed r q"
  obtain s v where v: "round_verified r t ?q = Inr (s, v)"
    using assms t by (cases "round_verified r t ?q") (auto simp: round_step_def Let_def split: if_split_asm)
  have judges: "judges claimed r sha p s v"
    using v tq by (auto simp: judges_def round_verified_def kept_pending_def cmd_of_def nothing_def split: if_split_asm)
  have kept: "?q = p \<or> ?q = nothing" using tq by (auto simp: kept_pending_def)
  show ?thesis
  proof (cases "pd_phase ?q = Some InFix")
    case True
    then have "out = fix_step r s"
      using assms t v by (auto simp: round_step_def Let_def split: if_split_asm)
    then show ?thesis by blast
  next
    case False
    then obtain reply d findings where
      "review g (ri_review r s) (ri_cmd r) v s = Reviewed_as reply d findings" "out = judged_step r s v ?q d findings"
      using assms t v by (auto simp: round_step_def Let_def split: if_split_asm review_end.split_asm)
    with judges kept show ?thesis by blast
  qed
qed

lemma round_step_approves:
  assumes "round_step g claimed rnd r sha p = Approves s"
  shows "\<exists>v reply. judges claimed r sha p s v \<and> vf_ok v \<and> \<not> ri_pending r
    \<and> review g (ri_review r s) (ri_cmd r) v s = Reviewed_as reply (Verdict ''APPROVE'') []"
proof -
  from round_step_judged [OF assms] obtain t v q reply d findings where
    "judges claimed r sha p t v" "review g (ri_review r t) (ri_cmd r) v t = Reviewed_as reply d findings"
    "Approves s = judged_step r t v q d findings"
    by (auto dest: sym)
  with judged_step_approves [of r t v q d findings s] show ?thesis by auto
qed

lemma round_step_goes_on:
  assumes "round_step g claimed rnd r sha p = Goes_on s q"
  shows "pd_phase q = None \<or> pd_phase q = Some InReview \<and> pd_cmd q = Some (ri_cmd r)
    \<and> judges claimed r sha p s (pd_verified q) \<and> vf_ok (pd_verified q)"
proof -
  have "\<forall>e. Goes_on s q \<noteq> Ends e" by simp
  from round_step_judged [OF assms this] show ?thesis
  proof (elim disjE exE conjE)
    fix t assume "Goes_on s q = fix_step r t"
    from fix_step_goes_on [OF this [symmetric]] show ?thesis by (simp add: nothing_def)
  next
    fix t v x reply d findings
    assume j: "judges claimed r sha p t v" and "Goes_on s q = judged_step r t v x d findings"
    from judged_step_goes_on [OF this(2) [symmetric]] j show ?thesis by (auto simp: nothing_def)
  next
    fix t v x reply d findings
    assume j: "judges claimed r sha p t v" and "Goes_on s q = judged_step r t v x d findings"
    from judged_step_goes_on [OF this(2) [symmetric]] j show ?thesis by (auto simp: nothing_def)
  qed
qed

text \<open>The same head is not sent back for stale approvals twice running.\<close>

lemma round_step_stale_once:
  assumes "round_step g claimed rnd r sha p = Goes_on s q" and "pd_stale q \<noteq> []"
    and "ri_steer r sha = NoSteer" and "cmd_of claimed p = ri_cmd r"
  shows "pd_stale p = []"
proof (rule ccontr)
  assume stale: "pd_stale p \<noteq> []"
  have "steered_at_top r sha p = Inr (sha, p)" using assms(3) by (simp add: steered_at_top_def)
  moreover have "kept_pending claimed r p = p" using assms(4) by (simp add: kept_pending_def cmd_of_def)
  moreover have "judged_step r t v p d findings \<noteq> Goes_on s q" for t v d findings
    using assms(2) stale rereview_step_cases(1) [of r t v _ p s q]
    by (auto simp: judged_step_def Let_def nothing_def dest!: fix_step_goes_on approved_step_cases(1) split: if_split_asm)
  moreover have "fix_step r t \<noteq> Goes_on s q" for t
    using assms(2) by (auto simp: nothing_def dest!: fix_step_goes_on)
  ultimately show False
    using assms(1) by (auto simp: round_step_def Let_def split: sum.split_asm if_split_asm review_end.split_asm)
qed

subsection \<open>The rounds together\<close>

text \<open>What is carried between the rounds of a run was verified in one of them, as it stands.\<close>

definition verified_in :: "(nat \<Rightarrow> round_input) \<Rightarrow> nat \<Rightarrow> string \<Rightarrow> string \<Rightarrow> verification \<Rightarrow> bool" where
  "verified_in world rnd cmd s v \<longleftrightarrow>
     (\<exists>j h. 1 \<le> j \<and> j \<le> rnd \<and> ri_cmd (world j) = cmd \<and> ri_verify (world j) h cmd = Inr (s, v))"

definition carries_verified :: "(nat \<Rightarrow> round_input) \<Rightarrow> string \<Rightarrow> nat \<Rightarrow> string \<Rightarrow> carried \<Rightarrow> bool" where
  "carries_verified world claimed rnd sha p \<longleftrightarrow>
     pd_phase p = None \<or> verified_in world rnd (cmd_of claimed p) sha (pd_verified p)"

lemma verified_in_mono: "verified_in world rnd cmd s v \<Longrightarrow> rnd \<le> k \<Longrightarrow> verified_in world k cmd s v"
  unfolding verified_in_def using order_trans by blast

lemma judges_verified:
  assumes "judges claimed (world (Suc rnd)) sha p s v" and "carries_verified world claimed rnd sha p"
  shows "verified_in world (Suc rnd) (ri_cmd (world (Suc rnd))) s v"
  using assms(1) unfolding judges_def
proof (elim disjE exE conjE)
  fix h
  assume "ri_verify (world (Suc rnd)) h (ri_cmd (world (Suc rnd))) = Inr (s, v)"
  then show ?thesis unfolding verified_in_def by (intro exI [of _ "Suc rnd"] exI [of _ h]) simp
next
  assume "s = sha" "v = pd_verified p" "pd_phase p \<noteq> None" "cmd_of claimed p = ri_cmd (world (Suc rnd))"
  with assms(2) have "verified_in world rnd (ri_cmd (world (Suc rnd))) s v" by (simp add: carries_verified_def)
  then show ?thesis by (rule verified_in_mono) simp
qed

text \<open>A round's approval: the reply, on the commit verified by the commands of that round.\<close>

definition approved_by_review :: "signs \<Rightarrow> (nat \<Rightarrow> round_input) \<Rightarrow> nat \<Rightarrow> string \<Rightarrow> bool" where
  "approved_by_review g world n s \<longleftrightarrow>
     (\<exists>v reply. verified_in world n (ri_cmd (world n)) s v \<and> vf_ok v
        \<and> terminal_verdict REVIEW_VERDICTS reply = Some ''APPROVE''
        \<and> clear_round (ri_review (world n) s) v s reply \<and> \<not> ri_pending (world n))"

lemma rounds_from_approved:
  assumes "rounds_from g world claimed k rnd sha p = Inr (s, n, True)" and "carries_verified world claimed rnd sha p"
  shows "rnd < n \<and> n \<le> rnd + k \<and> approved_by_review g world n s"
  using assms
proof (induction g world claimed k rnd sha p rule: rounds_from.induct)
  case (2 g world claimed k rnd sha p)
  show ?case
  proof (cases "round_step g claimed (Suc rnd) (world (Suc rnd)) sha p")
    case (Ends e)
    with 2 show ?thesis by simp
  next
    case (Approves t)
    with "2.prems"(1) have "t = s" "n = Suc rnd" by simp_all
    from round_step_approves [OF Approves] \<open>t = s\<close> obtain v reply where
      r: "judges claimed (world (Suc rnd)) sha p s v" "vf_ok v" "\<not> ri_pending (world (Suc rnd))"
        "review g (ri_review (world (Suc rnd)) s) (ri_cmd (world (Suc rnd))) v s = Reviewed_as reply (Verdict ''APPROVE'') []"
      by blast
    with judges_verified [of claimed world rnd sha p s v] "2.prems"(2) review_approves [OF r(4)] \<open>n = Suc rnd\<close>
    show ?thesis unfolding approved_by_review_def by auto
  next
    case (Goes_on t q)
    have "carries_verified world claimed (Suc rnd) t q"
      using round_step_goes_on [OF Goes_on] judges_verified [of claimed world rnd sha p t "pd_verified q"] "2.prems"(2)
      by (auto simp: carries_verified_def cmd_of_def)
    with 2 Goes_on show ?thesis by fastforce
  qed
qed simp

lemma rounds_from_bound:
  "rounds_from g world claimed k rnd sha p = Inr (s, n, approved) \<Longrightarrow> rnd \<le> n \<and> n \<le> rnd + k"
  by (induction g world claimed k rnd sha p rule: rounds_from.induct) (fastforce split: step.split_asm)+

lemma run_rounds_approved:
  assumes "run_rounds g world claimed cap sha None = Inr (s, n, True)"
  shows "1 \<le> n \<and> n \<le> cap \<and> approved_by_review g world n s"
proof -
  have "carries_verified world claimed 0 sha nothing" by (simp add: carries_verified_def nothing_def)
  with assms rounds_from_approved [of g world claimed cap 0 sha nothing s n] show ?thesis
    by (simp add: run_rounds_def)
qed

subsection \<open>What reaches the merge gate\<close>

definition passed :: "signs \<Rightarrow> adj_input \<Rightarrow> string \<Rightarrow> bool" where
  "passed g a s \<longleftrightarrow>
     (\<exists>reply. aj_answer a s = Answered reply \<and> terminal_verdict ADJUDICATION_VERDICTS reply = Some ''PASS''
        \<and> (\<forall>pair \<in> set (aj_pairs a). criterion_met (Some (aj_tree a s)) None (criteria_block reply) (fst pair)))
     \<and> vf_ok (aj_verify a s (aj_cmd a))"

lemma criteria_gate_Nil:
  "criteria_gate g w reply pairs open_ns = [] \<Longrightarrow> criteria_findings g (Some w) None reply pairs [] = []"
  by (simp add: criteria_gate_def Let_def sort_key_simps [symmetric] flip: set_empty)

lemma adjudicate_passed:
  assumes "adjudicate g claimed a sha None = Inr u"
  shows "passed g a sha"
proof -
  obtain reply where reply: "aj_answer a sha = Answered reply" and ok: "vf_ok (aj_verify a sha (aj_cmd a))"
    and judged: "judge_reply g a (aj_left a) sha False reply = Inr u"
    using assms by (auto simp: adjudicate_def Let_def split: if_split_asm adj_answer.split_asm)
  from judged have d: "adj_decision reply = Verdict ''PASS''"
    and gate: "criteria_gate g (aj_tree a sha) reply (aj_pairs a) (aj_left a) = []"
    by (auto simp: judge_reply_def Let_def split: if_split_asm)
  from criteria_gate_Nil [OF gate]
  have "\<forall>pair \<in> set (aj_pairs a). criterion_met (Some (aj_tree a sha)) None (criteria_block reply) (fst pair)"
    by (simp add: criteria_clear)
  moreover from d have "terminal_verdict ADJUDICATION_VERDICTS reply = Some ''PASS''"
    by (auto simp: adj_decision_def split: option.split_asm)
  ultimately show ?thesis using reply ok by (auto simp: passed_def)
qed

lemma adjudications_gate:
  assumes "adjudications g claimed cs approved sha None = Some (Inr s)"
  shows "(\<exists>c \<in> set cs. cl_closes c) \<and> (approved \<and> s = sha \<or> (\<exists>c \<in> set cs. passed g (cl_adj c) s))"
  using assms
proof (induction cs arbitrary: approved sha)
  case (Cons c cs)
  show ?case
  proof (cases "approved \<and> cl_closes c")
    case True
    with Cons.prems show ?thesis by auto
  next
    case False
    obtain t where t: "adjudicate g claimed (cl_adj c) t None = Inr ()"
      "adjudications g claimed cs True t None = Some (Inr s)"
      using Cons.prems False by (auto split: steering_turn.split_asm sum.split_asm)
    from Cons.IH [OF t(2)] adjudicate_passed [OF t(1)] show ?thesis by auto
  qed
qed simp

theorem gate_candidate_judged:
  assumes "gate_candidate g world claimed cap sha None closings None = Some (Inr s)"
  shows "(\<exists>n. 1 \<le> n \<and> n \<le> cap \<and> approved_by_review g world n s) \<or> (\<exists>c \<in> set closings. passed g (cl_adj c) s)"
proof -
  obtain t n approved where r: "run_rounds g world claimed cap sha None = Inr (t, n, approved)"
    and a: "adjudications g claimed closings approved t None = Some (Inr s)"
    using assms by (auto simp: gate_candidate_def split: sum.split_asm)
  from adjudications_gate [OF a] show ?thesis
  proof (elim conjE disjE)
    assume "approved" "s = t"
    with r run_rounds_approved [of g world claimed cap sha t n] show ?thesis by auto
  qed blast
qed

end
