(* ===== verification/Settle.thy ===== *)
theory Settle
  imports MergeReady Rounds Findings
begin

section \<open>Settle: when a babysat pull request is looked at\<close>

text \<open>
  The waiting half of \<^verbatim>\<open>holophyte/babysit/babysitter.py\<close> (\<open>quiet_left\<close>, \<open>settle_from\<close> for
  \<^verbatim>\<open>_settled_state\<close> and \<^verbatim>\<open>_settled_or_park\<close>), the empty commit of \<^verbatim>\<open>pr/missing_checks.py\<close> and the
  head checks of \<^verbatim>\<open>pr/pr_head.py\<close>. A pass that ends the run raises; \<open>pass_stop\<close> is what it raises, and a
  park carries the candidate and the commit recorded as approved.

  One turn of the waiting loop has a \<open>settle_look\<close>: what GitHub shows, how pending notes and the routing
  of the bots' threads change it, and the clocks. \<open>settle_from\<close> goes through a list of looks; where they do
  not reach an end it is \<open>StillWaiting\<close>. The lemmas: a green settled state has been quiet for the time
  asked, and the approved commit is moved only together with the candidate.
\<close>

subsection \<open>How a pass ends a run\<close>

datatype park_why =
    ForeignHead string
  | ChecksWait
  | QuietWait
  | NeverReported "string list"
  | WaitTooLong
  | RerunSilent "string list"
  | RedChecks
  | RepeatedFailure nat
  | FixRoundsUsed nat
  | DraftPull
  | HeldForFrontend
  | CaptureFiles "string list"
  | BehindMain string
  | HeldMerge string
  | MergeWasRefused string
  | LeftQueue string
  | QueueEjected
  | VerifyRed
  | MovedSince "string option"
  | NoVerdictOnFix
  | ChangesAsked
  | RepeatedFindings nat
  | CoveringUsed nat
  | CaptureFails
  | AdjudicatorOut
  | NeedsHuman
  | LeftOpenThreads nat nat
  | NothingFixed
  | ConflictLeft
  | MainIsRed
  | ReadyForHuman "string option"
  | CapReached bool
  | AskAnswered

datatype pass_stop =
    ParkedAt string "string option" park_kind park_why
  | PassStopped
  | PassFailed string
  | PassInfra
  | PrClosed
  | StillWaiting

subsection \<open>The settings of \<^verbatim>\<open>[merge]\<close>\<close>

datatype draft_mode = DraftOff | DraftOn | DraftUi

record merge_cfg =
  mc_auto :: bool
  mc_review_fixes :: bool
  mc_draft :: draft_mode
  mc_rounds :: nat
  mc_refreshes :: nat
  mc_quiet_ms :: int
  mc_missing_s :: int
  mc_check_wait_s :: int
  mc_retrigger :: bool
  mc_check_fixes :: nat
  mc_covering_fixes :: nat
  mc_overlap :: rat
  mc_up_to_date :: bool
  mc_queue_label :: bool
  mc_act :: bool
  mc_advisory :: bool
  mc_handle :: string
  mc_accounts :: "string list"
  mc_bot_authors :: "string list"
  mc_bot_logins :: "string list"

definition fixes_reviewed :: "merge_cfg \<Rightarrow> bool" where
  "fixes_reviewed cfg \<longleftrightarrow> mc_auto cfg \<or> mc_review_fixes cfg"

subsection \<open>The quiet clock\<close>

text \<open>\<^verbatim>\<open>refresh\<close> holds at most one key: the head and update a merge of main left, with the time the
  pull request was quiet since.\<close>

type_synonym refreshed = "((string option \<times> int option) \<times> int option) option"

definition quiet_left :: "pr_state \<Rightarrow> int \<Rightarrow> int \<Rightarrow> refreshed \<Rightarrow> int \<times> refreshed" where
  "quiet_left st quiet_ms now refresh =
     (let refresh = (case refresh of
            Some (key, since) \<Rightarrow> if key = (ps_head st, ps_updated st) then Some (key, since) else None
          | None \<Rightarrow> None);
          updated = (case refresh of Some (_, since) \<Rightarrow> since | None \<Rightarrow> ps_updated st)
      in (case updated of None \<Rightarrow> quiet_ms | Some since \<Rightarrow> max 0 (quiet_ms - (now - since)), refresh))"

subsection \<open>The head of the pull request\<close>

text \<open>\<^verbatim>\<open>_pr_terminal\<close>; \<open>remote\<close> is the remote branch's commit, and whether the candidate contains it.\<close>

definition pr_terminal ::
    "string \<Rightarrow> string option \<Rightarrow> pr_state \<Rightarrow> string \<times> bool \<Rightarrow> pass_stop + string option" where
  "pr_terminal sha reviewed st remote =
     (if ps_merged st then Inr (ps_merge_sha st)
      else if ps_closed st then Inl PrClosed
      else if ps_head st \<notin> {None, Some [], Some sha} \<and> fst remote \<noteq> sha \<and> \<not> snd remote
      then Inl (ParkedAt sha reviewed PK_PULL_REQUEST (ForeignHead (fst remote)))
      else Inr None)"

text \<open>\<^verbatim>\<open>_just_pushed_state\<close>: the view is read again, at most four times, until it shows the pushed head.\<close>

fun reads_until :: "string \<Rightarrow> nat \<Rightarrow> pr_state list \<Rightarrow> pr_state option" where
  "reads_until sha reads_left [] = None"
| "reads_until sha reads_left (st # sts) =
     (if ps_head st \<noteq> Some sha \<and> \<not> ps_merged st \<and> \<not> ps_closed st \<and> 0 < reads_left
      then reads_until sha (reads_left - 1) sts else Some st)"

definition just_pushed_state ::
    "string \<Rightarrow> string option \<Rightarrow> pr_state list \<Rightarrow> string \<times> bool \<Rightarrow> pass_stop + pr_state" where
  "just_pushed_state sha reviewed reads remote =
     (case reads_until sha 3 reads of
        None \<Rightarrow> Inl StillWaiting
      | Some st \<Rightarrow>
          let shown = (if ps_merged st \<or> ps_closed st then st else st\<lparr>ps_head := Some sha\<rparr>)
          in if ps_head st \<noteq> Some sha
             then (case pr_terminal sha reviewed st remote of Inl e \<Rightarrow> Inl e | Inr _ \<Rightarrow> Inr shown)
             else Inr shown)"

subsection \<open>The empty commit for missing checks\<close>

text \<open>The candidate and the commit an approval covers.\<close>

type_synonym tip = "string \<times> string option"

definition moved_tip :: "string \<Rightarrow> tip \<Rightarrow> tip" where
  "moved_tip new t = (new, if snd t = Some (fst t) then Some new else snd t)"

text \<open>\<^verbatim>\<open>Retrigger\<close>: whether the head is such a commit already, what the push left, and the reads after it.\<close>

record retrigger_input =
  rt_already :: bool
  rt_stop :: bool
  rt_new :: "string option"
  rt_reads :: "pr_state list"
  rt_remote :: "string \<times> bool"

definition retrigger :: "merge_cfg \<Rightarrow> retrigger_input \<Rightarrow> tip \<Rightarrow> pass_stop + (tip \<times> pr_state) option" where
  "retrigger cfg r t =
     (if \<not> mc_retrigger cfg \<or> rt_already r then Inr None
      else if rt_stop r then Inl PassStopped
      else case rt_new r of
        None \<Rightarrow> Inl PassInfra
      | Some new \<Rightarrow>
          let t = moved_tip new t
          in (case just_pushed_state (fst t) (snd t) (rt_reads r) (rt_remote r) of
                Inl e \<Rightarrow> Inl e | Inr st \<Rightarrow> Inr (Some (t, st))))"

subsection \<open>Waiting\<close>

text \<open>Where the state of a turn comes from: a fresh read, the read after a push, or a retrigger's.\<close>

datatype state_source = Fresh | Pushed pr_state | Retried pr_state

record settle_look =
  sl_read :: pr_state
  sl_pending :: "pr_state \<Rightarrow> pr_state"
  sl_route :: "pr_state \<Rightarrow> pass_stop + pr_state"
  sl_now :: int
  sl_mono :: int
  sl_later :: int
  sl_stop :: bool
  sl_retrigger :: retrigger_input

definition look_state :: "settle_look \<Rightarrow> state_source \<Rightarrow> pass_stop + pr_state" where
  "look_state l src =
     sl_route l (case src of Fresh \<Rightarrow> sl_pending l (sl_read l) | Pushed st \<Rightarrow> sl_pending l st | Retried st \<Rightarrow> st)"

definition busy :: "pr_state \<Rightarrow> bool" where
  "busy st \<longleftrightarrow> ps_threads st \<noteq> [] \<or> ps_merged st \<or> ps_closed st \<or> ps_mergeable st = ''CONFLICTING''"

definition head_key :: "pr_state \<Rightarrow> string" where
  "head_key st = (case ps_head st of None \<Rightarrow> [] | Some h \<Rightarrow> h)"

record settle_cx =
  sx_cfg :: merge_cfg
  sx_retriggers :: bool
  sx_deadline :: int

datatype settled = Settled pr_state tip refreshed | SettleEnds pass_stop

type_synonym absent_table = "((string \<times> string) \<times> int) list"

definition wait_ends :: "settle_cx \<Rightarrow> settle_look \<Rightarrow> tip \<Rightarrow> pass_stop option" where
  "wait_ends cx l t =
     (if sx_deadline cx - sl_later l \<le> 0 then Some (ParkedAt (fst t) (snd t) PK_PULL_REQUEST WaitTooLong)
      else if sl_stop l then Some PassStopped else None)"

text \<open>
  The loop of \<^verbatim>\<open>_settled_state\<close>. \<open>park_ci\<close>: a wait on checks or quiet parks the run at once.
\<close>

fun settle_from ::
    "settle_cx \<Rightarrow> bool \<Rightarrow> absent_table \<Rightarrow> refreshed \<Rightarrow> tip \<Rightarrow> state_source \<Rightarrow> settle_look list \<Rightarrow> settled" where
  "settle_from cx park_ci absent refresh t src [] = SettleEnds StillWaiting"
| "settle_from cx park_ci absent refresh t src (l # ls) =
     (case look_state l src of
        Inl e \<Rightarrow> SettleEnds e
      | Inr st \<Rightarrow>
         if busy st then Settled st t refresh
         else case ps_checks st of
           Failure \<Rightarrow> Settled st t refresh
         | Pending \<Rightarrow>
             (let (late, absent) = unreported (head_key st) (ps_missing st) (mc_missing_s (sx_cfg cx)) (sl_mono l) absent
              in if late \<noteq> []
                 then (case (if sx_retriggers cx then retrigger (sx_cfg cx) (sl_retrigger l) t else Inr None) of
                         Inl e \<Rightarrow> SettleEnds e
                       | Inr None \<Rightarrow> SettleEnds (ParkedAt (fst t) (snd t) PK_PULL_REQUEST (NeverReported late))
                       | Inr (Some (t, st)) \<Rightarrow> settle_from cx False absent refresh t (Retried st) ls)
                 else if park_ci \<and> ps_missing st = []
                 then SettleEnds (if sl_stop l then PassStopped else ParkedAt (fst t) (snd t) PK_CI ChecksWait)
                 else (case wait_ends cx l t of
                         Some e \<Rightarrow> SettleEnds e | None \<Rightarrow> settle_from cx park_ci absent refresh t Fresh ls))
         | Success \<Rightarrow>
             (let (left, refresh) = quiet_left st (mc_quiet_ms (sx_cfg cx)) (sl_now l) refresh
              in if left = 0 then Settled st t refresh
                 else if park_ci
                 then SettleEnds (if sl_stop l then PassStopped else ParkedAt (fst t) (snd t) PK_CI QuietWait)
                 else (case wait_ends cx l t of
                         Some e \<Rightarrow> SettleEnds e | None \<Rightarrow> settle_from cx park_ci absent refresh t Fresh ls)))"

subsection \<open>What a settled state is\<close>

text \<open>The time the pull request is taken to be quiet since.\<close>

definition quiet_since :: "pr_state \<Rightarrow> refreshed \<Rightarrow> int option" where
  "quiet_since st refresh =
     (case refresh of Some (key, since) \<Rightarrow> if key = (ps_head st, ps_updated st) then since else ps_updated st
      | None \<Rightarrow> ps_updated st)"

lemma quiet_left_zero:
  assumes "fst (quiet_left st quiet_ms now refresh) = 0" and "0 < quiet_ms"
  shows "\<exists>since. quiet_since st refresh = Some since \<and> quiet_ms \<le> now - since"
  using assms by (auto simp: quiet_left_def quiet_since_def Let_def split: option.splits if_splits)

lemma quiet_left_keeps: "snd (quiet_left st quiet_ms now refresh) \<in> {None, refresh}"
  by (auto simp: quiet_left_def Let_def split: option.split)

lemma quiet_since_none: "quiet_since st None = ps_updated st"
  by (simp add: quiet_since_def)

text \<open>A settled state is busy, red, or green and quiet for long enough at one of the looks.\<close>

definition settled_at :: "merge_cfg \<Rightarrow> refreshed \<Rightarrow> settle_look list \<Rightarrow> pr_state \<Rightarrow> bool" where
  "settled_at cfg refresh ls st \<longleftrightarrow> (\<exists>l \<in> set ls. \<exists>src. look_state l src = Inr st
     \<and> (busy st \<or> ps_checks st = Failure
        \<or> ps_checks st = Success \<and> (\<exists>r \<in> {None, refresh}. fst (quiet_left st (mc_quiet_ms cfg) (sl_now l) r) = 0)))"

lemma settled_at_later:
  "settled_at cfg r ls st \<Longrightarrow> r \<in> {None, refresh} \<Longrightarrow> settled_at cfg refresh (l # ls) st"
  unfolding settled_at_def by auto

lemma settled_at_now:
  "look_state l src = Inr st \<Longrightarrow> busy st \<or> ps_checks st = Failure
     \<or> ps_checks st = Success \<and> fst (quiet_left st (mc_quiet_ms cfg) (sl_now l) refresh) = 0
   \<Longrightarrow> settled_at cfg refresh (l # ls) st"
  unfolding settled_at_def by auto

lemma settle_from_settled:
  "settle_from cx park_ci absent refresh t src ls = Settled st t' refresh' \<Longrightarrow> settled_at (sx_cfg cx) refresh ls st"
proof (induction ls arbitrary: park_ci absent refresh t src)
  case (Cons l ls)
  then obtain q where q: "look_state l src = Inr q" by (auto split: sum.split_asm)
  note step = Cons.prems [unfolded settle_from.simps(2) q sum.case Let_def]
  show ?case
  proof (cases "busy q \<or> ps_checks q = Failure")
    case True
    with step have "q = st" by (auto split: if_split_asm)
    with True q show ?thesis by (intro settled_at_now) auto
  next
    case False
    show ?thesis
    proof (cases "ps_checks q")
      case Success
      obtain left r where ql: "quiet_left q (mc_quiet_ms (sx_cfg cx)) (sl_now l) refresh = (left, r)"
        by (cases "quiet_left q (mc_quiet_ms (sx_cfg cx)) (sl_now l) refresh")
      have r: "r \<in> {None, refresh}"
        using quiet_left_keeps [of q "mc_quiet_ms (sx_cfg cx)" "sl_now l" refresh] ql by simp
      show ?thesis
      proof (cases "left = 0")
        case True
        with step False Success ql have "q = st" by simp
        with Success q ql True show ?thesis by (intro settled_at_now) auto
      next
        case False': False
        with step False Success ql have "settle_from cx park_ci absent r t Fresh ls = Settled st t' refresh'"
          by (auto split: if_split_asm option.split_asm)
        from settled_at_later [OF Cons.IH [OF this] r] show ?thesis .
      qed
    next
      case Pending
      obtain late a where u: "unreported (head_key q) (ps_missing q) (mc_missing_s (sx_cfg cx)) (sl_mono l) absent = (late, a)"
        by (cases "unreported (head_key q) (ps_missing q) (mc_missing_s (sx_cfg cx)) (sl_mono l) absent")
      have "\<exists>p t1 t2 u. settle_from cx p a refresh (t1, t2) u ls = Settled st t' refresh'"
        using step False Pending u by (cases t) (auto split: if_split_asm sum.split_asm option.split_asm)
      then show ?thesis using settled_at_later [OF Cons.IH] by blast
    qed (use False in auto)
  qed
qed simp

end
