(* ===== verification/CheckFix.thy ===== *)
theory CheckFix
  imports Settle
begin

section \<open>CheckFix: what a babysitter does about red checks\<close>

text \<open>
  \<^verbatim>\<open>holophyte/babysit/check_failures.py\<close>, what a red job's log says failed, and
  \<^verbatim>\<open>holophyte/babysit/check_fix.py\<close>: the failed jobs are rerun once per babysit, then each failure is
  given to one fix turn, a bounded number of times. \<open>log_signs\<close> holds the three characters above U+00FF
  the patterns name. The brief of the fix turn is not modelled, the turn and the reads are inputs.

  The lemmas: the rounds given out never exceed the cap and no failure handed out repeats an earlier
  one; a rerun ends only on a state that tells of the rerun.
\<close>

subsection \<open>The failures a log names\<close>

record log_signs =
  lg_bom :: string
  lg_chevron :: string
  lg_bar :: string

definition STAMP_RE :: "log_signs \<Rightarrow> re" where
  "STAMP_RE g = seq [Bol False, maybe (lit (lg_bom g)), exactly 4 digit, ch CHR ''-'', exactly 2 digit,
     ch CHR ''-'', exactly 2 digit, ch CHR ''T'', exactly 2 digit, ch CHR '':'', exactly 2 digit, ch CHR '':'',
     exactly 2 digit, maybe (seq [ch CHR ''.'', plus digit]), ch CHR ''Z'', maybe (ch CHR '' '')]"

definition FAILURE_RE :: "log_signs \<Rightarrow> re" where
  "FAILURE_RE g = alts [
     seq [alts [lit ''FAIL'', lit ''ERROR''], lit '': '', plus non_space, lit '' ('', plus non_space, ch CHR '')''],
     seq [alts [lit ''FAILED'', lit ''ERROR''], ch CHR '' '', star non_space, lit ''::''],
     seq [plus digit, lit '') ['', plus (none_of '']''), lit ''] '', lit (lg_chevron g), ch CHR '' ''],
     seq [star (Chr (\<lambda>c. word_char c \<or> c = CHR ''.'')), alts [lit ''Error'', lit ''Exception''], ch CHR '':'']]"

definition DURATION_RE :: re where
  "DURATION_RE = seq [ch CHR ''('', star space,
     plus (seq [plus digit, maybe (seq [ch CHR ''.'', plus digit]), star space,
       alts [lit_i ''ms'', lit_i ''s'', lit_i ''m'', lit_i ''h'', lit_i ''sec'', seq [lit_i ''second'', maybe (ch_i CHR ''s'')],
             lit_i ''min''], star space]), ch CHR '')'']"

definition RETRY_RE :: re where
  "RETRY_RE = seq [maybe (ch CHR ''(''), Bnd, lit_i ''retry #'', plus digit, maybe (ch CHR '')'')]"

definition hex_letter :: "char \<Rightarrow> bool" where
  "hex_letter c \<longleftrightarrow> is_digit_char c \<or> lower_char c \<in> set ''abcdef''"

definition HEX_RE :: re where "HEX_RE = Rep True 7 None (Chr hex_letter)"
definition CHARS_RE :: re where "CHARS_RE = seq [ch CHR ''['', plus digit, lit '' chars]'']"

definition failure_lines :: "log_signs \<Rightarrow> string option \<Rightarrow> string list" where
  "failure_lines g job =
     dedup (filter (\<lambda>line. matches (FAILURE_RE g) line)
       (map (\<lambda>line. py_strip (re_sub (STAMP_RE g) (\<lambda>_. []) line))
         (py_splitlines (case job of None \<Rightarrow> [] | Some t \<Rightarrow> t))))"

definition normalized_line :: "string \<Rightarrow> string" where
  "normalized_line line =
     (let line = re_sub CHARS_RE (\<lambda>_. ''[N chars]'') (re_sub RETRY_RE (\<lambda>_. []) (re_sub DURATION_RE (\<lambda>_. []) line))
      in join '' '' (py_words (re_sub HEX_RE (\<lambda>_. ''HEX'') line)))"

record check_failure =
  fl_lines :: "string list"
  fl_signature :: "string set"
  fl_names :: "string set"

definition read_failure :: "log_signs \<Rightarrow> string list \<Rightarrow> string option list \<Rightarrow> check_failure" where
  "read_failure g names logs =
     (let lines = dedup (concat (map (failure_lines g) logs))
      in \<lparr>fl_lines = lines, fl_signature = set (map normalized_line lines), fl_names = set names\<rparr>)"

definition repeats_failure :: "check_failure \<Rightarrow> check_failure \<Rightarrow> bool" where
  "repeats_failure f earlier \<longleftrightarrow>
     (if fl_signature f \<noteq> {} then fl_signature f \<subseteq> fl_signature earlier else fl_names f \<subseteq> fl_names earlier)"

fun repeated_from :: "nat \<Rightarrow> check_failure \<Rightarrow> check_failure list \<Rightarrow> nat option" where
  "repeated_from n f [] = None"
| "repeated_from n f (earlier # given) =
     (if repeats_failure f earlier then Some n else repeated_from (Suc n) f given)"

definition repeated_round :: "check_failure \<Rightarrow> check_failure list \<Rightarrow> nat option" where
  "repeated_round f given = repeated_from 1 f given"

subsection \<open>The rounds\<close>

definition next_check_round :: "check_failure list \<Rightarrow> check_failure \<Rightarrow> nat \<Rightarrow> park_why + nat" where
  "next_check_round given f cap =
     (case repeated_round f given of
        Some n \<Rightarrow> Inl (RepeatedFailure n)
      | None \<Rightarrow> if cap \<le> length given then Inl (FixRoundsUsed cap) else Inr (length given + 1))"

definition LOG_TAIL_LINES :: nat where "LOG_TAIL_LINES = 80"

definition log_tail :: "string \<Rightarrow> string" where
  "log_tail t =
     (let lines = py_splitlines t;
          errors = filter (\<lambda>n. py_contains ''##[error]'' (lines ! n)) [0..<length lines];
          end = (if errors = [] then length lines else last errors + 1)
      in join [NL] (drop (end - LOG_TAIL_LINES) (take end lines)))"

record check_fix =
  cf_reran :: bool
  cf_awaited :: "string list"
  cf_handed :: "check_failure list"
  cf_noted :: "string option list"

definition new_check_fix :: check_fix where
  "new_check_fix = \<lparr>cf_reran = False, cf_awaited = [], cf_handed = [], cf_noted = []\<rparr>"

text \<open>\<^verbatim>\<open>note_optional\<close>, with the names of the event it writes.\<close>

definition note_optional :: "pr_state \<Rightarrow> check_fix \<Rightarrow> check_fix \<times> string list option" where
  "note_optional st cf =
     (if ps_optional st = [] \<or> ps_head st \<in> set (cf_noted cf) then (cf, None)
      else (cf\<lparr>cf_noted := ps_head st # cf_noted cf\<rparr>, Some (map fc_name (ps_optional st))))"

definition open_at :: "pr_state \<Rightarrow> string \<Rightarrow> bool" where
  "open_at st sha \<longleftrightarrow> \<not> busy st \<and> ps_head st = Some sha"

definition red_at :: "pr_state \<Rightarrow> string \<Rightarrow> bool" where
  "red_at st sha \<longleftrightarrow> ps_checks st = Failure \<and> open_at st sha"

definition fixable :: "failed_check list \<Rightarrow> bool" where
  "fixable failed \<longleftrightarrow> failed \<noteq> [] \<and> list_all (\<lambda>c. fc_job c \<noteq> None) failed"

definition park_checks :: "string \<Rightarrow> string option \<Rightarrow> park_why \<Rightarrow> pass_stop" where
  "park_checks sha reviewed why = ParkedAt sha reviewed PK_PULL_REQUEST why"

subsection \<open>The rerun\<close>

record rerun_look =
  rl_state :: pr_state
  rl_looks :: "settle_look list"
  rl_left :: int
  rl_stop :: bool

definition rerun_unreported :: "pr_state \<Rightarrow> string \<Rightarrow> int option list \<Rightarrow> bool" where
  "rerun_unreported st sha jobs \<longleftrightarrow>
     open_at st sha \<and> (ps_awaiting st \<noteq> [] \<or> ps_checks st = Failure \<and> list_ex (\<lambda>c. fc_job c \<in> set jobs) (ps_failed st))"

definition rerun_looked :: "merge_cfg \<Rightarrow> int \<Rightarrow> tip \<Rightarrow> rerun_look \<Rightarrow> settled" where
  "rerun_looked cfg deadline t l =
     settle_from \<lparr>sx_cfg = cfg, sx_retriggers = False, sx_deadline = deadline\<rparr> False [] None t
       (Pushed (rl_state l)) (rl_looks l)"

fun rerun_result ::
    "merge_cfg \<Rightarrow> int \<Rightarrow> tip \<Rightarrow> string list \<Rightarrow> int option list \<Rightarrow> rerun_look list \<Rightarrow> pass_stop + pr_state" where
  "rerun_result cfg deadline t names jobs [] = Inl StillWaiting"
| "rerun_result cfg deadline t names jobs (l # ls) =
     (let again =
            (if rl_left l \<le> 0 then Inl (park_checks (fst t) (snd t) (RerunSilent names))
             else if rl_stop l then Inl PassStopped
             else rerun_result cfg deadline t names jobs ls)
      in if rerun_unreported (rl_state l) (fst t) jobs then again
         else case rerun_looked cfg deadline t l of
           SettleEnds e \<Rightarrow> Inl e
         | Settled st _ _ \<Rightarrow> if rerun_unreported st (fst t) jobs then again else Inr st)"

subsection \<open>The fix turn\<close>

text \<open>What a check fix is told: whether GitHub refused the rerun, the looks after it, the logs of the
  failed jobs, the commit the fix turn of a round left, and the reads of the pushed head.\<close>

record check_input =
  ck_stop :: bool
  ck_refused :: bool
  ck_deadline :: int
  ck_looks :: "rerun_look list"
  ck_log :: "failed_check \<Rightarrow> string option"
  ck_fix :: "string \<Rightarrow> nat \<Rightarrow> pass_stop + string"
  ck_reads :: "string \<Rightarrow> pr_state list"
  ck_remote :: "string \<times> bool"

definition may_rerun :: "pr_state \<Rightarrow> string option \<Rightarrow> check_fix \<Rightarrow> bool" where
  "may_rerun st grp cf \<longleftrightarrow>
     grp = None \<and> \<not> cf_reran cf \<and> cf_handed cf = [] \<and> list_all (\<lambda>c. fc_run c \<notin> {None, Some 0}) (ps_failed st)"

definition rerun_and_settle :: "merge_cfg \<Rightarrow> check_input \<Rightarrow> tip \<Rightarrow> pr_state \<Rightarrow> pass_stop + pr_state" where
  "rerun_and_settle cfg k t st =
     (if ck_refused k then Inr st
      else rerun_result cfg (ck_deadline k) t (map fc_name (ps_failed st)) (map fc_job (ps_failed st)) (ck_looks k))"

definition hand_round ::
    "log_signs \<Rightarrow> merge_cfg \<Rightarrow> check_input \<Rightarrow> tip \<Rightarrow> pr_state \<Rightarrow> check_fix \<Rightarrow> pass_stop + string \<times> pr_state \<times> check_fix" where
  "hand_round g cfg k t st cf =
     (let f = read_failure g (map fc_name (ps_failed st)) (map (ck_log k) (ps_failed st))
      in case next_check_round (cf_handed cf) f (mc_check_fixes cfg) of
           Inl why \<Rightarrow> Inl (park_checks (fst t) (snd t) why)
         | Inr n \<Rightarrow>
             (case ck_fix k (fst t) n of
                Inl e \<Rightarrow> Inl e
              | Inr sha \<Rightarrow>
                  (case just_pushed_state sha (snd t) (ck_reads k sha) (ck_remote k) of
                     Inl e \<Rightarrow> Inl e
                   | Inr st \<Rightarrow> Inr (sha, st, cf\<lparr>cf_handed := cf_handed cf @ [f]\<rparr>))))"

definition fix_checks_or_park ::
    "log_signs \<Rightarrow> merge_cfg \<Rightarrow> check_input \<Rightarrow> tip \<Rightarrow> string option \<Rightarrow> pr_state \<Rightarrow> check_fix \<Rightarrow>
      pass_stop + string \<times> pr_state \<times> check_fix" where
  "fix_checks_or_park g cfg k t grp st cf =
     (if \<not> fixable (ps_failed st) then Inl (park_checks (fst t) (snd t) RedChecks)
      else if ck_stop k then Inl PassStopped
      else if may_rerun st grp cf
      then (let cf = cf\<lparr>cf_reran := True, cf_awaited := dedup (map fc_name (ps_failed st))\<rparr>
            in case rerun_and_settle cfg k t st of
                 Inl e \<Rightarrow> Inl e
               | Inr st \<Rightarrow>
                   if \<not> red_at st (fst t) then Inr (fst t, st, cf)
                   else if \<not> fixable (ps_failed st) then Inl (park_checks (fst t) (snd t) RedChecks)
                   else hand_round g cfg k t st cf)
      else hand_round g cfg k t st cf)"

subsection \<open>Each failure is given out once\<close>

lemma repeated_from_None: "repeated_from n f given = None \<longleftrightarrow> (\<forall>e \<in> set given. \<not> repeats_failure f e)"
  by (induction n f given rule: repeated_from.induct) auto

definition handed_ok :: "nat \<Rightarrow> check_failure list \<Rightarrow> bool" where
  "handed_ok cap given \<longleftrightarrow>
     length given \<le> cap \<and> (\<forall>j < length given. \<forall>i < j. \<not> repeats_failure (given ! j) (given ! i))"

lemma next_check_round_ok:
  assumes "next_check_round given f cap = Inr n" and "handed_ok cap given"
  shows "handed_ok cap (given @ [f]) \<and> n = length (given @ [f])"
proof -
  have "\<forall>e \<in> set given. \<not> repeats_failure f e" and len: "length given < cap" and n: "n = length given + 1"
    using assms(1) by (auto simp: next_check_round_def repeated_round_def repeated_from_None
        split: option.split_asm if_split_asm)
  then have "\<not> repeats_failure f (given ! i)" if "i < length given" for i
    using nth_mem [OF that] by blast
  then show ?thesis
    using assms(2) len n by (auto simp: handed_ok_def nth_append less_Suc_eq)
qed

lemma hand_round_ok:
  assumes "hand_round g cfg k t st cf = Inr (sha, st', cf')" and "handed_ok (mc_check_fixes cfg) (cf_handed cf)"
  shows "handed_ok (mc_check_fixes cfg) (cf_handed cf') \<and> length (cf_handed cf') = length (cf_handed cf) + 1
    \<and> cf_reran cf' = cf_reran cf"
  using assms next_check_round_ok
  by (auto simp: hand_round_def Let_def split: sum.split_asm)

lemma fix_checks_ok:
  assumes "fix_checks_or_park g cfg k t grp st cf = Inr (sha, st', cf')"
    and "handed_ok (mc_check_fixes cfg) (cf_handed cf)"
  shows "handed_ok (mc_check_fixes cfg) (cf_handed cf') \<and> (cf_reran cf \<longrightarrow> cf_reran cf')
    \<and> (length (cf_handed cf') = length (cf_handed cf) + 1
       \<or> sha = fst t \<and> \<not> red_at st' sha \<and> \<not> cf_reran cf \<and> cf_reran cf' \<and> cf_handed cf' = [])"
  using assms hand_round_ok
  by (fastforce simp: fix_checks_or_park_def may_rerun_def Let_def split: sum.split_asm if_split_asm)

lemma rerun_result_reports:
  "rerun_result cfg deadline t names jobs ls = Inr st \<Longrightarrow> \<not> rerun_unreported st (fst t) jobs"
  by (induction cfg deadline t names jobs ls rule: rerun_result.induct)
    (auto simp: Let_def split: if_split_asm settled.split_asm)

end
