(* ===== verification/Covering.thy ===== *)
theory Covering
  imports CheckFix
begin

section \<open>Covering: the review of a fix a babysitter pushed\<close>

text \<open>
  \<open>review_fix\<close> is \<^verbatim>\<open>_review_fix\<close> of \<^verbatim>\<open>holophyte/babysit/babysitter.py\<close>: verify the fix, review the range
  it adds to what was approved, once more where only stale approvals or only the description of the
  pull request is at fault, then approve it, give it a fix turn or park the run. \<open>covering_review\<close> is
  \<^verbatim>\<open>_covering_review\<close>; \<^verbatim>\<open>babysit/description_review.py\<close> and \<^verbatim>\<open>babysit/covering_fix.py\<close> decide between
  these. The answers of the reviewer, the verification and the turns are inputs, one \<open>review_turn\<close>
  for each commit reviewed.

  The lemmas: the commit \<open>review_fix\<close> returns was verified and approved, as that commit, by a review that
  met every criterion; the fix turns it hands out itself stay within their cap.
\<close>

subsection \<open>Findings on the description alone\<close>

definition grade_re :: re where
  "grade_re = alts [seq [ch_i CHR ''p'', any_of ''0123''], lit_i ''nit'', lit_i ''blocker'', lit_i ''major'', lit_i ''minor'']"

definition DESCRIPTION_SUBJECT_RE :: re where
  "DESCRIPTION_SUBJECT_RE = seq [Bol False, star space, maybe (seq [list_mark, plus space]), maybe (lit ''**''),
     maybe (seq [ch CHR ''['', star space, grade_re, star space, ch CHR '']'', star space]),
     maybe (seq [grade_re, Bnd, star (Chr (\<lambda>c. \<not> word_char c \<and> c \<noteq> CHR ''('' \<and> c \<noteq> NL))]),
     maybe (any_of ''([''), star space, lit_i ''path:'', star space, lit_i [CHR 34], lit_i ''PR description'', lit_i [CHR 34]]"

definition VERDICT_ANY_RE :: re where
  "VERDICT_ANY_RE = seq [Bol True, star space, lit ''VERDICT:'', star dot, Eol True]"

definition heading_words :: re where
  "heading_words = alts [
     seq [maybe (seq [alts (map lit_i [''review'', ''open'', ''remaining'', ''description'']), plus space]),
          alts (map lit_i [''findings'', ''blockers'', ''issues'', ''comments'', ''notes'', ''problems''])],
     lit_i ''summary'', seq [lit_i ''required'', plus space, lit_i ''changes''],
     seq [lit_i ''changes'', plus space, lit_i ''requested'']]"

definition HEADING_RE :: re where
  "HEADING_RE = seq [Bol True, tabs, maybe (seq [Rep True 1 (Some 6) (ch CHR ''#''), tabs1]), maybe (lit ''**''),
     heading_words, tabs, maybe (ch CHR '':''), maybe (lit ''**''), maybe (ch CHR '':''), tabs, Eol True]"

definition description_findings :: "string \<Rightarrow> decision \<Rightarrow> gate_finding list \<Rightarrow> string list" where
  "description_findings reply d unwitnessed =
     (if d \<noteq> Verdict ''REQUEST_CHANGES'' \<or> unwitnessed \<noteq> [] then []
      else let reply = foldl (\<lambda>t r. re_sub r (\<lambda>_. []) t) (without_criteria (without_refuted reply))
                 [SCOPE_LINE_RE, VERDICT_ANY_RE, HEADING_RE];
               findings = filter (\<lambda>l. l \<noteq> []) (map py_strip (py_splitlines reply))
           in if list_all (matches DESCRIPTION_SUBJECT_RE) findings then findings else [])"

subsection \<open>A fix turn or a park\<close>

record stored_round =
  sr_round :: nat
  sr_ended :: bool
  sr_findings :: "finding list"

definition unmet_lines :: "finding list \<Rightarrow> int option set" where
  "unmet_lines fs = set (map (fk_line \<circ> fd_key) (filter (\<lambda>f. fk_path (fd_key f) = criteria_path) fs))"

text \<open>\<^verbatim>\<open>repeat_overlap\<close>; the fingerprint of no findings is that of no keys.\<close>

definition overlap_with :: "finding list \<Rightarrow> finding list \<Rightarrow> err + rat" where
  "overlap_with earlier covering =
     (case findings_overlap earlier covering of
        Inl e \<Rightarrow> Inl e
      | Inr None \<Rightarrow> Inr (if unmet_lines covering \<subseteq> unmet_lines earlier then 1 else 0)
      | Inr (Some r) \<Rightarrow> Inr r)"

fun repeat_overlap :: "stored_round list \<Rightarrow> nat \<Rightarrow> finding list \<Rightarrow> rat \<times> nat option \<Rightarrow> err + rat \<times> nat option" where
  "repeat_overlap [] rnd covering best = Inr best"
| "repeat_overlap (q # qs) rnd covering best =
     (if rnd \<le> sr_round q \<or> \<not> sr_ended q then repeat_overlap qs rnd covering best
      else case finding_keys (sr_findings q) of
        Inl e \<Rightarrow> Inl e
      | Inr [] \<Rightarrow> repeat_overlap qs rnd covering best
      | Inr (k # ks) \<Rightarrow>
          (case overlap_with (sr_findings q) covering of
             Inl e \<Rightarrow> Inl e
           | Inr shared \<Rightarrow>
               repeat_overlap qs rnd covering (if fst best \<le> shared then (shared, Some (sr_round q)) else best)))"

datatype fix_goal = NoteAllowance | AutomaticRound nat

text \<open>What \<^verbatim>\<open>fix_or_park\<close> reads of the run: whether the allowance of a note is spent, the automatic rounds made,
  the rounds on record, and this round with its stored findings.\<close>

record covering_record =
  cr_spent :: bool
  cr_made :: nat
  cr_rounds :: "stored_round list"
  cr_round :: nat
  cr_findings :: "finding list"

definition fix_or_park ::
    "merge_cfg \<Rightarrow> covering_record \<Rightarrow> string \<Rightarrow> decision \<Rightarrow> gate_finding list \<Rightarrow> bool \<Rightarrow> err + park_why + fix_goal" where
  "fix_or_park cfg q reply d unwitnessed noted =
     (if unwitnessed = [] \<and> d \<noteq> Verdict ''REQUEST_CHANGES'' then Inr (Inl ChangesAsked)
      else if noted \<and> \<not> cr_spent q then Inr (Inr NoteAllowance)
      else if mc_covering_fixes cfg = 0 \<or> description_findings reply d unwitnessed \<noteq> [] then Inr (Inl ChangesAsked)
      else case repeat_overlap (cr_rounds q) (cr_round q) (cr_findings q) (0, None) of
        Inl e \<Rightarrow> Inl e
      | Inr (shared, earlier) \<Rightarrow>
          Inr (if mc_overlap cfg \<le> shared then Inl (RepeatedFindings (case earlier of None \<Rightarrow> 0 | Some n \<Rightarrow> n))
               else if mc_covering_fixes cfg \<le> cr_made q then Inl (CoveringUsed (mc_covering_fixes cfg))
               else Inr (AutomaticRound (cr_made q + 1))))"

subsection \<open>One review of a fix\<close>

record covering_facts =
  cv_answer :: "nat \<Rightarrow> string"
  cv_stops :: "nat \<Rightarrow> bool"
  cv_stop :: bool
  cv_tree :: worktree
  cv_pairs :: "(nat \<times> string) list"
  cv_scope :: "string list"

definition covering_review ::
    "signs \<Rightarrow> covering_facts \<Rightarrow> string option \<Rightarrow> string \<Rightarrow> pass_stop + string \<times> decision \<times> gate_finding list" where
  "covering_review g q reviewed sha =
     (case review_reply (cv_answer q) (cv_stops q) of
        None \<Rightarrow> Inl PassStopped
      | Some (reply, d, _) \<Rightarrow>
          if cv_stop q then Inl PassStopped
          else if d = MalformedReply then Inl (ParkedAt sha None PK_PULL_REQUEST NoVerdictOnFix)
          else Inr (reply, d, criteria_findings g (Some (cv_tree q)) (map_option (\<lambda>r. (r, sha)) reviewed) reply
                 (cv_pairs q) (cv_scope q)))"

record review_turn =
  vt_verify :: "string \<Rightarrow> bool"
  vt_stop :: bool
  vt_capture :: "string \<Rightarrow> pass_stop + string"
  vt_answers :: "nat \<Rightarrow> covering_facts"
  vt_rewrites :: bool
  vt_record :: covering_record
  vt_fix :: "string \<Rightarrow> pass_stop + string"

text \<open>The reviews of one commit: again for stale approvals, again for a description rewritten. The note's
  allowance is gone when the description is all that is left.\<close>

definition again_for_stale ::
    "signs \<Rightarrow> review_turn \<Rightarrow> string option \<Rightarrow> string \<Rightarrow> pass_stop + string \<times> decision \<times> gate_finding list" where
  "again_for_stale g t reviewed sha =
     (case covering_review g (vt_answers t 0) reviewed sha of
        Inl e \<Rightarrow> Inl e
      | Inr (reply, d, fs) \<Rightarrow>
          if stale_approvals d fs = [] then Inr (reply, d, fs) else covering_review g (vt_answers t 1) reviewed sha)"

definition rereviewed ::
    "signs \<Rightarrow> review_turn \<Rightarrow> string option \<Rightarrow> string \<Rightarrow> bool \<Rightarrow> string \<times> decision \<times> gate_finding list \<Rightarrow>
      pass_stop + (string \<times> decision \<times> gate_finding list) \<times> bool" where
  "rereviewed g t reviewed sha noted outcome =
     (case outcome of (reply, d, fs) \<Rightarrow>
        if description_findings reply d fs = [] \<or> \<not> vt_rewrites t then Inr (outcome, noted)
        else case covering_review g (vt_answers t 2) reviewed sha of
          Inl e \<Rightarrow> Inl e
        | Inr (reply, d, fs) \<Rightarrow> Inr ((reply, d, fs), noted \<and> description_findings reply d fs = []))"

definition judged_fix ::
    "signs \<Rightarrow> review_turn \<Rightarrow> string option \<Rightarrow> string \<Rightarrow> bool \<Rightarrow> pass_stop + (string \<times> decision \<times> gate_finding list) \<times> bool" where
  "judged_fix g t reviewed sha noted =
     (case again_for_stale g t reviewed sha of
        Inl e \<Rightarrow> Inl e | Inr outcome \<Rightarrow> rereviewed g t reviewed sha noted outcome)"

fun review_fix ::
    "signs \<Rightarrow> merge_cfg \<Rightarrow> review_turn list \<Rightarrow> string \<Rightarrow> string option \<Rightarrow> bool \<Rightarrow> pass_stop + string" where
  "review_fix g cfg [] sha reviewed noted = Inl StillWaiting"
| "review_fix g cfg (t # ts) sha reviewed noted =
     (if vt_stop t then Inl PassStopped
      else if \<not> vt_verify t sha then Inl (ParkedAt sha reviewed PK_PULL_REQUEST VerifyRed)
      else case vt_capture t sha of
        Inl e \<Rightarrow> Inl e
      | Inr sha \<Rightarrow>
          if \<not> fixes_reviewed cfg then Inl (ParkedAt sha reviewed PK_PULL_REQUEST (MovedSince reviewed))
          else case judged_fix g t reviewed sha noted of
            Inl e \<Rightarrow> Inl e
          | Inr ((reply, d, fs), noted) \<Rightarrow>
              if fs = [] \<and> d = Verdict ''APPROVE'' then Inr sha
              else if stale_approvals d fs \<noteq> [] then Inl (PassFailed sha)
              else case fix_or_park cfg (vt_record t) reply d fs noted of
                Inl _ \<Rightarrow> Inl (PassFailed sha)
              | Inr (Inl why) \<Rightarrow> Inl (ParkedAt sha None PK_PULL_REQUEST why)
              | Inr (Inr _) \<Rightarrow>
                  (case vt_fix t sha of Inl e \<Rightarrow> Inl e | Inr fixed \<Rightarrow> review_fix g cfg ts fixed None False))"

subsection \<open>What a fix's approval rests on\<close>

definition fix_approved :: "signs \<Rightarrow> review_turn \<Rightarrow> string \<Rightarrow> bool" where
  "fix_approved g t sha \<longleftrightarrow>
     (\<exists>n reviewed reply. covering_review g (vt_answers t n) reviewed sha = Inr (reply, Verdict ''APPROVE'', []))
     \<and> (\<exists>s. vt_verify t s \<and> vt_capture t s = Inr sha)"

lemma judged_fix_review:
  assumes "judged_fix g t reviewed sha noted = Inr (outcome, noted')"
  shows "\<exists>n. covering_review g (vt_answers t n) reviewed sha = Inr outcome"
  using assms
  by (auto simp: judged_fix_def again_for_stale_def rereviewed_def split: sum.split_asm prod.split_asm if_split_asm)

lemma review_fix_approved:
  "review_fix g cfg ts sha reviewed noted = Inr fixed \<Longrightarrow>
     fixes_reviewed cfg \<and> (\<exists>t \<in> set ts. fix_approved g t fixed)"
proof (induction g cfg ts sha reviewed noted rule: review_fix.induct)
  case (2 g cfg t ts sha reviewed noted)
  obtain s where s: "\<not> vt_stop t" "vt_verify t sha" "vt_capture t sha = Inr s" "fixes_reviewed cfg"
    using "2.prems" by (auto split: if_split_asm sum.split_asm)
  obtain reply d fs noted' where j: "judged_fix g t reviewed s noted = Inr ((reply, d, fs), noted')"
    using "2.prems" s by (auto split: if_split_asm sum.split_asm)
  show ?case
  proof (cases "fs = [] \<and> d = Verdict ''APPROVE''")
    case True
    with "2.prems" s j have "fixed = s" by simp
    with judged_fix_review [OF j] True s show ?thesis by (auto simp: fix_approved_def)
  next
    case False
    with "2.prems" s j obtain goal after_fix where
      "fix_or_park cfg (vt_record t) reply d fs noted' = Inr (Inr goal)" "vt_fix t s = Inr after_fix"
      "stale_approvals d fs = []" "review_fix g cfg ts after_fix None False = Inr fixed"
      by (auto split: if_split_asm sum.split_asm)
    with "2.IH" s j False show ?thesis by fastforce
  qed
qed simp

text \<open>An approved fix meets every criterion.\<close>

lemma covering_review_clear:
  assumes "covering_review g q reviewed sha = Inr (reply, Verdict ''APPROVE'', [])"
  shows "terminal_verdict REVIEW_VERDICTS reply = Some ''APPROVE''
    \<and> (\<forall>pair \<in> set (cv_pairs q). criterion_met (Some (cv_tree q)) (map_option (\<lambda>r. (r, sha)) reviewed)
         (criteria_block reply) (fst pair))
    \<and> (\<forall>path \<in> set (cv_scope q). needed (scope_answers reply) path)"
proof -
  obtain first where r: "review_reply (cv_answer q) (cv_stops q) = Some (reply, Verdict ''APPROVE'', first)"
    and f: "criteria_findings g (Some (cv_tree q)) (map_option (\<lambda>r. (r, sha)) reviewed) reply (cv_pairs q) (cv_scope q) = []"
    using assms by (auto simp: covering_review_def split: option.split_asm if_split_asm)
  from review_reply_decision [OF r] have "terminal_verdict REVIEW_VERDICTS reply = Some ''APPROVE''"
    by (auto simp: decision_of_def split: option.split_asm)
  with f show ?thesis by (simp add: criteria_clear)
qed

lemma fix_or_park_bound:
  "fix_or_park cfg q reply d fs noted = Inr (Inr goal) \<Longrightarrow>
     goal = NoteAllowance \<and> noted \<and> \<not> cr_spent q \<or> goal = AutomaticRound (cr_made q + 1) \<and> cr_made q < mc_covering_fixes cfg"
  by (auto simp: fix_or_park_def split: if_split_asm sum.split_asm)

end
