(* ===== verification/PrThreads.thy ===== *)
theory PrThreads
  imports CheckFix
begin

section \<open>PrThreads: the comments on a pull request\<close>

text \<open>
  Who may instruct the factory in a comment (\<^verbatim>\<open>babysit/thread_mentions.py\<close>, \<^verbatim>\<open>babysit/bot_threads.py\<close>),
  what the adjudicator's reply says of each thread (\<^verbatim>\<open>babysit/thread_text.py\<close>,
  \<^verbatim>\<open>babysit/note_triage.py\<close>, \<^verbatim>\<open>babysit/adjudicator_outage.py\<close>), and what a pass does with the verdicts
  (\<^verbatim>\<open>_verdicts_by_kind\<close> and \<^verbatim>\<open>_answer_threads\<close> of \<^verbatim>\<open>babysit/babysitter.py\<close>). The classifier a comment
  without a mark is put to, the adjudicator and the fix turn are inputs; what is posted is returned as a
  list of \<open>post\<close>.

  The lemmas: every thread gets one verdict, a person's thread is never declined, and a thread that waits
  for a person stops the pass.
\<close>

subsection \<open>Threads\<close>

record pr_comment =
  cm_author :: string
  cm_body :: string
  cm_kind :: string

record triage =
  tg_decision :: string
  tg_fix :: bool
  tg_reason :: string

record pr_thread =
  th_id :: string
  th_path :: string
  th_line :: "nat option"
  th_author :: string
  th_body :: string
  th_url :: string
  th_replies :: "pr_comment list"
  th_author_kind :: string
  th_kind :: string
  th_class :: string
  th_request :: string
  th_intent :: string
  th_triage :: "triage option"

definition thread_comments :: "pr_thread \<Rightarrow> pr_comment list" where
  "thread_comments t = \<lparr>cm_author = th_author t, cm_body = th_body t, cm_kind = th_author_kind t\<rparr> # th_replies t"

definition latest :: "pr_thread \<Rightarrow> pr_comment" where "latest t = last (thread_comments t)"

definition is_note :: "pr_thread \<Rightarrow> bool" where
  "is_note t \<longleftrightarrow> th_author_kind t = ''maintainer'' \<and> py_prefix ''operator_note:'' (th_id t)"

definition is_console_ask :: "pr_thread \<Rightarrow> bool" where
  "is_console_ask t \<longleftrightarrow> py_prefix ''console_ask:'' (th_id t)"

definition note_event_id :: "pr_thread \<Rightarrow> nat" where
  "note_event_id t = nat_of_digits (case partition_at CHR '':'' (th_id t) of (_, _, rest) \<Rightarrow> rest)"

definition mentioned :: "pr_thread \<Rightarrow> bool" where "mentioned t \<longleftrightarrow> th_class t = ''MENTIONED''"

definition by_bot :: "pr_thread \<Rightarrow> bool" where "by_bot t \<longleftrightarrow> th_author_kind t = ''bot''"

subsection \<open>Who may instruct\<close>

definition authorized :: "string \<Rightarrow> string list \<Rightarrow> bool" where
  "authorized author accounts \<longleftrightarrow> accounts = [] \<or> py_lower author \<in> set (map py_lower accounts)"

definition bot_author :: "string \<Rightarrow> string list \<Rightarrow> string \<Rightarrow> bool" where
  "bot_author author logins kind \<longleftrightarrow>
     kind = ''bot'' \<or> py_suffix ''[bot]'' (py_lower author) \<or> py_lower author \<in> set (map py_lower logins)"

definition bots :: "merge_cfg \<Rightarrow> string list" where
  "bots cfg = mc_bot_authors cfg @ mc_bot_logins cfg"

definition mention_re :: "string \<Rightarrow> re" where
  "mention_re handle = seq [Behind False (\<lambda>c. word_char c \<or> c \<in> set ''@-''), ch CHR ''@'', lit_i handle,
     Ahead False (Chr (\<lambda>c. word_char c \<or> c = CHR ''-''))]"

definition INTENT_RE :: re where
  "INTENT_RE = seq [Bol False, Grp 1 (alts [ch CHR ''?'', seq [lit_i ''ask'', star space, ch CHR '':''],
     seq [lit_i ''fix'', star space, ch CHR '':'']]), star space]"

definition unclassified :: "pr_thread \<Rightarrow> pr_thread" where
  "unclassified t = t\<lparr>th_class := [], th_request := [], th_intent := ''unmarked'', th_triage := None\<rparr>"

definition mention_of :: "string \<Rightarrow> string \<Rightarrow> string \<times> string" where
  "mention_of handle body =
     (let request = py_strip (re_sub (mention_re handle) (\<lambda>_. []) body)
      in case re_match INTENT_RE request of
           None \<Rightarrow> (request, ''unmarked'')
         | Some m \<Rightarrow> (py_strip (f_after m), if py_prefix ''fix'' (py_lower (group_text 1 m)) then ''fix'' else ''ask''))"

definition classify :: "string \<Rightarrow> string list \<Rightarrow> string list \<Rightarrow> pr_thread \<Rightarrow> pr_thread" where
  "classify handle accounts logins t =
     (if is_console_ask t then t
      else if bot_author (cm_author (latest t)) logins (cm_kind (latest t))
      then (unclassified t)\<lparr>th_author_kind :=
             (if \<not> is_note t \<and> bot_author (th_author t) logins (th_author_kind t) then ''bot'' else th_author_kind t)\<rparr>
      else if \<not> authorized (cm_author (latest t)) accounts then unclassified t
      else if th_triage t \<noteq> None then t
      else if handle \<noteq> [] \<and> searches (mention_re handle) (cm_body (latest t))
      then (case mention_of handle (cm_body (latest t)) of (request, intent) \<Rightarrow>
              t\<lparr>th_class := ''MENTIONED'', th_request := request, th_intent := intent\<rparr>)
      else t)"

definition classified :: "merge_cfg \<Rightarrow> pr_thread list \<Rightarrow> pr_thread list" where
  "classified cfg threads = map (classify (mc_handle cfg) (mc_accounts cfg) (bots cfg)) threads"

definition refused_thread :: "merge_cfg \<Rightarrow> pr_thread \<Rightarrow> bool" where
  "refused_thread cfg t \<longleftrightarrow>
     \<not> is_console_ask t \<and> \<not> bot_author (cm_author (latest t)) (bots cfg) (cm_kind (latest t))
     \<and> \<not> authorized (cm_author (latest t)) (mc_accounts cfg) \<and> mentioned (classify (mc_handle cfg) [] [] t)"

text \<open>\<^verbatim>\<open>triage\<close>; the answer of the classifier is \<open>None\<close> where asking failed, with its reason.\<close>

definition triage_of :: "string + (string \<times> rat) \<Rightarrow> rat \<Rightarrow> triage" where
  "triage_of answer min_confidence =
     (case answer of
        Inl reason \<Rightarrow> \<lparr>tg_decision = ''unclear'', tg_fix = False, tg_reason = reason\<rparr>
      | Inr (choice, confidence) \<Rightarrow>
          (let low = confidence < min_confidence; decision = (if low then ''unclear'' else choice)
           in \<lparr>tg_decision = decision, tg_fix = (decision = ''fix''),
               tg_reason = (if low then ''low_confidence'' else choice)\<rparr>))"

definition triaged :: "merge_cfg \<Rightarrow> (pr_thread \<Rightarrow> string + (string \<times> rat)) \<Rightarrow> rat \<Rightarrow> pr_thread \<Rightarrow> pr_thread" where
  "triaged cfg ask min_confidence t =
     (if mentioned t \<and> th_intent t = ''unmarked'' \<and> \<not> is_note t
         \<and> \<not> bot_author (cm_author (latest t)) (bots cfg) (cm_kind (latest t)) \<and> th_triage t = None
      then (let r = triage_of (ask t) min_confidence
            in t\<lparr>th_triage := Some r, th_intent := (if tg_fix r then ''fix'' else ''ask'')\<rparr>)
      else t)"

text \<open>The asks a pass answers, and the threads it keeps.\<close>

definition is_ask :: "pr_thread \<Rightarrow> bool" where
  "is_ask t \<longleftrightarrow> \<not> is_note t \<and> mentioned t \<and> th_intent t = ''ask''"

definition without_asks :: "pr_thread list \<Rightarrow> pr_thread list" where
  "without_asks threads = filter (\<lambda>t. \<not> is_ask t) threads"

subsection \<open>Bots' threads under advisory\<close>

definition FACTORY_COMMENT :: string where "FACTORY_COMMENT = ''---- Comment by ''"

definition human_reply :: "merge_cfg \<Rightarrow> pr_thread \<Rightarrow> bool" where
  "human_reply cfg t \<longleftrightarrow>
     list_ex (\<lambda>c. \<not> bot_author (cm_author c) (bots cfg) (cm_kind c) \<and> \<not> py_prefix FACTORY_COMMENT (cm_body c)) (th_replies t)"

text \<open>The threads left for the pass, and those answered as advisory and resolved.\<close>

definition route_bot_thread :: "merge_cfg \<Rightarrow> pr_thread \<Rightarrow> pr_thread option" where
  "route_bot_thread cfg t =
     (if is_note t \<or> mentioned (classify (mc_handle cfg) (mc_accounts cfg) (bots cfg) t) then Some t
      else if \<not> bot_author (th_author t) (bots cfg) (th_author_kind t) then Some t
      else if human_reply cfg t then Some (t\<lparr>th_author_kind := ''user''\<rparr>) else None)"

definition route_bot_threads :: "merge_cfg \<Rightarrow> pr_thread list \<Rightarrow> pr_thread list \<times> pr_thread list" where
  "route_bot_threads cfg threads =
     (if \<not> mc_advisory cfg then (threads, [])
      else (List.map_filter (route_bot_thread cfg) threads, filter (\<lambda>t. route_bot_thread cfg t = None) threads))"

subsection \<open>What the adjudicator says\<close>

datatype thread_verdict = Address | Decline | Human

text \<open>The dashes above U+00FF the patterns allow before the reason do not occur in a text.\<close>

definition THREAD_RE :: "re \<Rightarrow> re \<Rightarrow> re" where
  "THREAD_RE blanks kinds = seq [Bol True, star blanks, maybe (seq [any_of ''-*'', star blanks]), lit_i ''THREAD'', plus blanks,
     Grp 1 (plus digit), star blanks, any_of '':.)-'', star blanks, Grp 2 kinds, Bnd, star blanks,
     maybe (seq [plus (any_of ''-:,''), star blanks]), Grp 3 (star_lazy dot), star blanks, Eol True]"

definition VERDICT_LINE_RE :: re where
  "VERDICT_LINE_RE = THREAD_RE space (alts [lit_i ''ADDRESS'', lit_i ''DECLINE'', lit_i ''HUMAN''])"

definition SUMMARY_LINE_RE :: re where
  "SUMMARY_LINE_RE = seq [Bol True, star space, maybe (seq [any_of ''-*'', star space]), lit_i ''THREAD'', plus space,
     Grp 1 (plus digit), star space, any_of '':.)-'', star space, Grp 2 (plus_lazy dot), star space, Eol True]"

definition verdict_of_text :: "string \<Rightarrow> thread_verdict" where
  "verdict_of_text s =
     (if py_lower s = ''address'' then Address else if py_lower s = ''decline'' then Decline else Human)"

definition NO_VERDICT :: string where "NO_VERDICT = ''the adjudicator gave no verdict for this thread''"

definition numbered_match :: "found \<Rightarrow> nat" where "numbered_match m = nat_of_digits (group_text 1 m)"

definition parse_verdicts :: "string \<Rightarrow> nat \<Rightarrow> nat \<Rightarrow> thread_verdict \<times> string" where
  "parse_verdicts reply count n =
     (case map_of (rev (map (\<lambda>m. (numbered_match m, verdict_of_text (group_text 2 m), py_strip (group_text 3 m)))
             (filter (\<lambda>m. 1 \<le> numbered_match m \<and> numbered_match m \<le> count) (re_finditer VERDICT_LINE_RE reply)))) n of
        None \<Rightarrow> (Human, NO_VERDICT) | Some v \<Rightarrow> v)"

definition parse_summaries :: "string \<Rightarrow> nat \<Rightarrow> string option" where
  "parse_summaries output =
     map_of (rev (map (\<lambda>m. (numbered_match m, py_strip (group_text 2 m))) (re_finditer SUMMARY_LINE_RE output)))"

text \<open>\<^verbatim>\<open>outage_line\<close>; the failure line of a reply is that of the agent's turn.\<close>

definition outage_line :: "string option \<Rightarrow> string \<Rightarrow> nat \<Rightarrow> string option" where
  "outage_line failed reply count =
     (case failed of
        Some line \<Rightarrow> Some line
      | None \<Rightarrow>
          if list_ex (\<lambda>m. 1 \<le> numbered_match m \<and> numbered_match m \<le> count) (re_finditer VERDICT_LINE_RE reply)
          then None else Some ''no verdict for any thread'')"

text \<open>\<^verbatim>\<open>note_triage.parse\<close>: the first line of a number stands, and a note needs a reason.\<close>

definition TRIAGE_LINE_RE :: re where
  "TRIAGE_LINE_RE = THREAD_RE (any_of ('' '' @ [CHR 9])) (alts [lit_i ''FINDING'', lit_i ''NOTE''])"

definition parse_triage :: "string \<Rightarrow> nat \<Rightarrow> nat \<Rightarrow> bool \<times> string" where
  "parse_triage reply count n =
     (case map_of (map (\<lambda>m. (numbered_match m,
               let finding = (py_lower (group_text 2 m) = ''finding''); reason = group_text 3 m
               in if reason = [] \<and> \<not> finding then (True, ''the triage called it a note but gave no reason'')
                  else (finding, if reason = [] then ''no reason given'' else reason)))
             (filter (\<lambda>m. 1 \<le> numbered_match m \<and> numbered_match m \<le> count) (re_finditer TRIAGE_LINE_RE reply))) n of
        None \<Rightarrow> (True, ''the triage gave no verdict for this comment'') | Some v \<Rightarrow> v)"

subsection \<open>What a pass does with the verdicts\<close>

text \<open>The threads put to the adjudicator: the bots', and the people's where the setting says so.\<close>

definition judged_thread :: "bool \<Rightarrow> pr_thread \<Rightarrow> bool" where
  "judged_thread act t \<longleftrightarrow> \<not> is_note t \<and> \<not> mentioned t \<and> (act \<or> by_bot t)"

definition PERSON_OPENED :: string where "PERSON_OPENED = ''opened by a person''"
definition NOT_ADDRESSED :: string where "NOT_ADDRESSED = ''a person's thread the adjudicator would not address''"

text \<open>\<^verbatim>\<open>_verdicts_by_kind\<close>: \<open>k\<close> is the number of the next judged thread.\<close>

fun verdicts_by_kind ::
    "bool \<Rightarrow> (nat \<Rightarrow> thread_verdict \<times> string) \<Rightarrow> nat \<Rightarrow> pr_thread list \<Rightarrow> (pr_thread \<times> thread_verdict \<times> string) list" where
  "verdicts_by_kind act parsed k [] = []"
| "verdicts_by_kind act parsed k (t # ts) =
     (if is_note t
      then (t, Address, ''operator_note event '' @ str_nat (note_event_id t)) # verdicts_by_kind act parsed k ts
      else if mentioned t then (t, Address, th_request t) # verdicts_by_kind act parsed k ts
      else if \<not> judged_thread act t then (t, Human, PERSON_OPENED) # verdicts_by_kind act parsed k ts
      else (t, if \<not> by_bot t \<and> fst (parsed k) \<noteq> Address then (Human, NOT_ADDRESSED) else parsed k)
        # verdicts_by_kind act parsed (Suc k) ts)"

datatype post =
    DeclineReply pr_thread string bool
  | FixReply pr_thread bool

text \<open>The answers of a fix turn's threads; a note is answered by the commit that cites it.\<close>

definition fix_replies :: "pr_thread list \<Rightarrow> post list" where
  "fix_replies addressed = map (\<lambda>t. FixReply t (by_bot t \<or> mentioned t)) (filter (\<lambda>t. \<not> is_note t) addressed)"

definition resolves_decline :: "merge_cfg \<Rightarrow> pr_thread \<Rightarrow> bool" where
  "resolves_decline cfg t \<longleftrightarrow>
     th_kind t = ''review_body'' \<or> py_suffix ''[bot]'' (th_author t) \<or> th_author t \<in> set (mc_bot_authors cfg)"

definition decline_replies :: "merge_cfg \<Rightarrow> (pr_thread \<times> string) list \<Rightarrow> post list" where
  "decline_replies cfg declined = map (\<lambda>(t, reason). DeclineReply t reason (resolves_decline cfg t)) declined"

definition of_verdict :: "thread_verdict \<Rightarrow> (pr_thread \<times> thread_verdict \<times> string) list \<Rightarrow> (pr_thread \<times> string) list" where
  "of_verdict v vs = map (\<lambda>(t, _, reason). (t, reason)) (filter (\<lambda>(_, w, _). w = v) vs)"

text \<open>
  What a pass answers with: the adjudicator's reply and how its turn failed, the stop after it, the stop
  before a post, and the fix turn: the commit it left, or how it ended the run.
\<close>

record thread_input =
  ti_reply :: string
  ti_failed :: "string option"
  ti_stop :: bool
  ti_stop_at :: "nat option"
  ti_fix :: "pr_thread list \<Rightarrow> string \<Rightarrow> pass_stop + string"

definition posted_until :: "nat option \<Rightarrow> post list \<Rightarrow> post list \<times> bool" where
  "posted_until stop ps = (case stop of None \<Rightarrow> (ps, False) | Some n \<Rightarrow> if n < length ps then (take n ps, True) else (ps, False))"

definition left_for_people :: "merge_cfg \<Rightarrow> (pr_thread \<times> string) list \<Rightarrow> (pr_thread \<times> string) list \<Rightarrow> pr_thread list \<times> pr_thread list" where
  "left_for_people cfg declined addressed =
     (filter (\<lambda>t. \<not> resolves_decline cfg t) (map fst declined),
      filter (\<lambda>t. \<not> by_bot t \<and> \<not> is_note t \<and> \<not> mentioned t) (map fst addressed))"

definition judged_threads :: "merge_cfg \<Rightarrow> pr_thread list \<Rightarrow> pr_thread list" where
  "judged_threads cfg threads = filter (judged_thread (mc_act cfg)) threads"

definition thread_verdicts :: "merge_cfg \<Rightarrow> string \<Rightarrow> pr_thread list \<Rightarrow> (pr_thread \<times> thread_verdict \<times> string) list" where
  "thread_verdicts cfg reply threads =
     verdicts_by_kind (mc_act cfg) (parse_verdicts reply (length (judged_threads cfg threads))) 1 threads"

text \<open>The end of \<^verbatim>\<open>_answer_threads\<close>, with the commit the fix turn left.\<close>

definition close_threads ::
    "merge_cfg \<Rightarrow> nat option \<Rightarrow> string option \<Rightarrow> (pr_thread \<times> thread_verdict \<times> string) list \<Rightarrow> string \<Rightarrow>
      post list \<times> (pass_stop + string)" where
  "close_threads cfg stop reviewed vs fixed =
     (let addressed = of_verdict Address vs; declined = of_verdict Decline vs;
          (posted, stopped) = posted_until stop (fix_replies (map fst addressed) @ decline_replies cfg declined);
          (open_declined, open_addressed) = left_for_people cfg declined addressed
      in (posted,
          if stopped then Inl PassStopped
          else if of_verdict Human vs \<noteq> [] then Inl (ParkedAt fixed reviewed PK_THREAD NeedsHuman)
          else if open_declined @ open_addressed \<noteq> []
          then Inl (ParkedAt fixed reviewed PK_PULL_REQUEST
                 (LeftOpenThreads (length open_declined) (length open_addressed)))
          else Inr fixed))"

definition answer_threads ::
    "merge_cfg \<Rightarrow> thread_input \<Rightarrow> string \<Rightarrow> string option \<Rightarrow> pr_thread list \<Rightarrow> post list \<times> (pass_stop + string)" where
  "answer_threads cfg k sha reviewed threads =
     (let judged = judged_threads cfg threads; vs = thread_verdicts cfg (ti_reply k) threads;
          human = of_verdict Human vs; addressed = map fst (of_verdict Address vs)
      in if ti_stop k then ([], Inl PassStopped)
         else if judged \<noteq> [] \<and> outage_line (ti_failed k) (ti_reply k) (length judged) \<noteq> None
         then ([], Inl (ParkedAt sha reviewed PK_ROUTE AdjudicatorOut))
         else if human \<noteq> [] \<and> (\<not> mc_act cfg \<or> list_ex (by_bot \<circ> fst) human)
         then ([], Inl (ParkedAt sha reviewed PK_THREAD NeedsHuman))
         else (case (if addressed = [] then Inr sha else ti_fix k addressed sha) of
                 Inl e \<Rightarrow> ([], Inl e) | Inr fixed \<Rightarrow> close_threads cfg (ti_stop_at k) reviewed vs fixed))"

subsection \<open>No person is argued with\<close>

lemma map_fst_verdicts [simp]: "map fst (verdicts_by_kind act parsed k ts) = ts"
  by (induction act parsed k ts rule: verdicts_by_kind.induct) (simp_all add: Let_def)

lemma verdicts_by_kind_of:
  assumes "(t, v, reason) \<in> set (verdicts_by_kind act parsed k ts)"
  shows "t \<in> set ts
    \<and> (is_note t \<or> mentioned t \<longrightarrow> v = Address)
    \<and> (\<not> is_note t \<and> \<not> mentioned t \<and> \<not> by_bot t \<longrightarrow> v \<noteq> Decline \<and> (\<not> act \<longrightarrow> v = Human))"
  using assms
proof (induction act parsed k ts rule: verdicts_by_kind.induct)
  case (2 act parsed k t' ts)
  show ?case
  proof (cases "is_note t' \<or> mentioned t' \<or> \<not> judged_thread act t'")
    case True
    with 2 show ?thesis by (auto simp: judged_thread_def split: if_split_asm)
  next
    case False
    obtain w r where w: "parsed k = (w, r)" by (cases "parsed k")
    from False "2.prems" consider "t = t'" "v = (if \<not> by_bot t' \<and> w \<noteq> Address then Human else w)"
      | "(t, v, reason) \<in> set (verdicts_by_kind act parsed (Suc k) ts)"
      by (auto simp: w split: if_split_asm)
    then show ?thesis
    proof cases
      case 1
      with False show ?thesis by (auto simp: judged_thread_def)
    next
      case later: 2
      with "2.IH"(4) False show ?thesis by auto
    qed
  qed
qed simp

lemma of_verdict_mem: "(t, reason) \<in> set (of_verdict v vs) \<longleftrightarrow> (t, v, reason) \<in> set vs"
  by (force simp: of_verdict_def)

lemma set_posted_until: "set (fst (posted_until stop ps)) \<subseteq> set ps"
  by (auto simp: posted_until_def split: option.split dest: in_set_takeD)

lemma thread_verdicts_of:
  assumes "(t, v, reason) \<in> set (thread_verdicts cfg reply threads)"
  shows "t \<in> set threads"
    and "is_note t \<or> mentioned t \<Longrightarrow> v = Address"
    and "\<not> is_note t \<Longrightarrow> \<not> mentioned t \<Longrightarrow> \<not> by_bot t \<Longrightarrow> v \<noteq> Decline \<and> (\<not> mc_act cfg \<longrightarrow> v = Human)"
  using verdicts_by_kind_of [OF assms [unfolded thread_verdicts_def]] by blast+

lemma thread_verdicts_all:
  assumes "t \<in> set threads"
  shows "\<exists>v reason. (t, v, reason) \<in> set (thread_verdicts cfg reply threads)"
proof -
  have "t \<in> fst ` set (thread_verdicts cfg reply threads)"
    using assms unfolding thread_verdicts_def by (metis list.set_map map_fst_verdicts)
  then show ?thesis by force
qed

text \<open>A pass either posts nothing or posts the answers of its verdicts.\<close>

lemma answer_threads_cases:
  assumes "answer_threads cfg k sha reviewed threads = (posts, result)"
  shows "posts = [] \<and> (\<exists>e. result = Inl e)
    \<or> (\<exists>fixed. close_threads cfg (ti_stop_at k) reviewed (thread_verdicts cfg (ti_reply k) threads) fixed = (posts, result))"
  using assms by (auto simp: answer_threads_def Let_def split: if_split_asm sum.split_asm) (metis+)?

lemma close_threads_posts:
  assumes "close_threads cfg stop reviewed vs fixed = (posts, result)"
  shows "set posts \<subseteq> set (fix_replies (map fst (of_verdict Address vs))) \<union> set (decline_replies cfg (of_verdict Decline vs))"
  using assms set_posted_until [of stop "fix_replies (map fst (of_verdict Address vs)) @ decline_replies cfg (of_verdict Decline vs)"]
  by (auto simp: close_threads_def Let_def split: prod.split_asm)

lemma answer_threads_posts:
  assumes "answer_threads cfg k sha reviewed threads = (posts, result)" and "p \<in> set posts"
  shows "case p of
      DeclineReply t reason r \<Rightarrow> t \<in> set threads \<and> by_bot t \<and> \<not> is_note t \<and> \<not> mentioned t \<and> r = resolves_decline cfg t
    | FixReply t r \<Rightarrow> t \<in> set threads \<and> \<not> is_note t \<and> r = (by_bot t \<or> mentioned t)"
proof -
  let ?vs = "thread_verdicts cfg (ti_reply k) threads"
  have "p \<in> set (fix_replies (map fst (of_verdict Address ?vs))) \<union> set (decline_replies cfg (of_verdict Decline ?vs))"
    using answer_threads_cases [OF assms(1)] assms(2) close_threads_posts by fastforce
  then consider t reason where "p = FixReply t (by_bot t \<or> mentioned t)" "(t, Address, reason) \<in> set ?vs" "\<not> is_note t"
    | t reason where "p = DeclineReply t reason (resolves_decline cfg t)" "(t, Decline, reason) \<in> set ?vs"
    by (auto simp: fix_replies_def decline_replies_def of_verdict_mem)
  then show ?thesis
  proof cases
    case 1
    then show ?thesis using thread_verdicts_of(1) by fastforce
  next
    case 2
    from thread_verdicts_of [OF 2(2)] 2(1) show ?thesis by auto
  qed
qed

text \<open>A pass goes on only where no thread is left to a person.\<close>

lemma close_threads_on:
  assumes "close_threads cfg stop reviewed vs fixed = (posts, Inr sha)"
  shows "of_verdict Human vs = [] \<and> left_for_people cfg (of_verdict Decline vs) (of_verdict Address vs) = ([], [])"
  using assms by (auto simp: close_threads_def Let_def split: prod.split_asm if_split_asm)

lemma answer_threads_on:
  assumes "answer_threads cfg k sha reviewed threads = (posts, Inr fixed)" and "t \<in> set threads"
  shows "is_note t \<or> mentioned t \<or> by_bot t"
proof (rule ccontr)
  let ?vs = "thread_verdicts cfg (ti_reply k) threads"
  assume person: "\<not> (is_note t \<or> mentioned t \<or> by_bot t)"
  from thread_verdicts_all [OF assms(2)] obtain v reason where v: "(t, v, reason) \<in> set ?vs" by blast
  have closed: "of_verdict Human ?vs = []" "snd (left_for_people cfg (of_verdict Decline ?vs) (of_verdict Address ?vs)) = []"
    using answer_threads_cases [OF assms(1)] close_threads_on by fastforce+
  from closed(1) v have "v \<noteq> Human" using of_verdict_mem [of t reason v ?vs] by auto
  moreover have "v \<noteq> Decline" using thread_verdicts_of(3) [OF v] person by blast
  ultimately have "(t, reason) \<in> set (of_verdict Address ?vs)"
    using v by (cases v) (auto simp: of_verdict_mem)
  with closed(2) person show False
    by (force simp: left_for_people_def filter_empty_conv)
qed

end
