(* ===== verification/Babysit.thy ===== *)
theory Babysit
  imports Covering PrThreads
begin

section \<open>Babysit: the passes over an open pull request\<close>

text \<open>
  \<^verbatim>\<open>_babysit_pass\<close> of \<^verbatim>\<open>holophyte/babysit/babysitter.py\<close>, with \<^verbatim>\<open>babysit/pass_ends.py\<close>, \<^verbatim>\<open>pr/pr_ready.py\<close>,
  \<^verbatim>\<open>verified_merge\<close> of \<^verbatim>\<open>pr/merge_queue.py\<close> and \<^verbatim>\<open>_merge_pr\<close> of \<^verbatim>\<open>pr/pullrequest.py\<close>. A pass waits for the
  pull request to settle, answers its threads, brings main in where it conflicts, fixes its checks, has
  a moved candidate reviewed, and merges or parks. \<open>pass_vars\<close> is what the loop carries; a \<open>pass_input\<close> is
  what one turn is told by GitHub, git, the agents and the operator, as functions of the commit in hand;
  \<open>pi_open\<close> are the threads behind those a state names.
  \<open>babysit_pull\<close> goes through a list of turns, \<open>StillWaiting\<close> where they do not reach the end of the loop.
\<close>

subsection \<open>Merging\<close>

text \<open>\<^verbatim>\<open>_merge_pr\<close>: whether notes let the merge begin, capture files the candidate adds, whether main moved
  on, a merge hold, and GitHub's answer.\<close>

datatype landed =
    Landed string
  | QueueDropped string
  | EjectedRed "failed_check list" string
  | RefusedConflict
  | RefusedOther string

record merge_input =
  me_gate :: "string \<Rightarrow> pass_stop option"
  me_begun :: bool
  me_capture :: "string \<Rightarrow> string list"
  me_behind :: "string \<Rightarrow> string option"
  me_held :: "string \<Rightarrow> string option"
  me_landed :: "string \<Rightarrow> landed"

datatype merge_result = MergeDone string | NotBegun | Ejected "failed_check list" string | Refused | MergeStops pass_stop

definition merge_pr :: "merge_cfg \<Rightarrow> merge_input \<Rightarrow> string \<Rightarrow> string option \<Rightarrow> merge_result" where
  "merge_pr cfg m sha reviewed =
     (let park = (\<lambda>why. MergeStops (ParkedAt sha reviewed PK_PULL_REQUEST why))
      in if \<not> me_begun m then NotBegun
         else if me_capture m sha \<noteq> [] then park (CaptureFiles (me_capture m sha))
         else case (if mc_up_to_date cfg then me_behind m sha else None) of
           Some behind \<Rightarrow> if mc_auto cfg then Refused else park (BehindMain behind)
         | None \<Rightarrow>
             (case me_held m sha of
                Some why \<Rightarrow> park (HeldMerge why)
              | None \<Rightarrow>
                  (case me_landed m sha of
                     Landed merge_sha \<Rightarrow> MergeDone merge_sha
                   | QueueDropped why \<Rightarrow> park (LeftQueue why)
                   | EjectedRed failed grp \<Rightarrow> Ejected failed grp
                   | RefusedConflict \<Rightarrow> if mc_auto cfg then Refused else park (MergeWasRefused ''conflicts'')
                   | RefusedOther why \<Rightarrow> park (MergeWasRefused why))))"

text \<open>\<^verbatim>\<open>verified_merge\<close>: the merge gate verifies a commit that is not the one verified already.\<close>

definition verified_merge ::
    "merge_cfg \<Rightarrow> merge_input \<Rightarrow> string \<Rightarrow> string option \<Rightarrow> string option \<Rightarrow> merge_result" where
  "verified_merge cfg m sha reviewed verified =
     (case (if verified = Some sha then None else me_gate m sha) of
        Some e \<Rightarrow> MergeStops e | None \<Rightarrow> merge_pr cfg m sha reviewed)"

text \<open>The loop of \<^verbatim>\<open>_merge_or_fix_checks\<close>: the merges tried, and of each ejection under a queue label what
  \<^verbatim>\<open>requeue_or_park\<close> makes of it: queue again, the head's own failures, or a park.\<close>

datatype requeued = QueueAgain | HeadFailed "failed_check list" | RequeueStops pass_stop

datatype tried = TriedMerged string | TriedNothing | TriedRefused | TriedFailed "failed_check list" "string option" | TriedStops pass_stop

fun try_merge ::
    "merge_cfg \<Rightarrow> string \<Rightarrow> string option \<Rightarrow> string option \<Rightarrow> (merge_input \<times> (failed_check list \<Rightarrow> string \<Rightarrow> requeued)) list \<Rightarrow> tried" where
  "try_merge cfg sha reviewed verified [] = TriedStops StillWaiting"
| "try_merge cfg sha reviewed verified ((m, again) # ms) =
     (case verified_merge cfg m sha reviewed verified of
        MergeStops e \<Rightarrow> TriedStops e
      | NotBegun \<Rightarrow> TriedNothing
      | Refused \<Rightarrow> TriedRefused
      | MergeDone merge_sha \<Rightarrow> TriedMerged merge_sha
      | Ejected failed grp \<Rightarrow>
          if \<not> mc_queue_label cfg then TriedFailed failed (Some grp)
          else case again failed grp of
            QueueAgain \<Rightarrow> try_merge cfg sha reviewed (Some sha) ms
          | HeadFailed failed \<Rightarrow> TriedFailed failed None
          | RequeueStops e \<Rightarrow> TriedStops e)"

subsection \<open>What a turn is told\<close>

text \<open>A merge of main: the commit it left, the reads after its push, and whether the diff is the same.\<close>

record main_merge =
  mm_sha :: string
  mm_reads :: "pr_state list"
  mm_remote :: "string \<times> bool"
  mm_same :: bool

record pass_input =
  pi_stop :: bool
  pi_stop_settled :: bool
  pi_deadline :: int
  pi_looks :: "settle_look list"
  pi_remote :: "string \<times> bool"
  pi_answered :: "pr_state \<Rightarrow> pass_stop + string list"
  pi_triaged :: "pr_state \<Rightarrow> pass_stop + string list option"
  pi_main :: "string \<Rightarrow> string option \<Rightarrow> pass_stop + main_merge"
  pi_open :: "pr_state \<Rightarrow> pr_thread list"
  pi_thread :: thread_input
  pi_reads :: "string \<Rightarrow> pr_state list"
  pi_checks :: check_input
  pi_review :: "review_turn list"
  pi_meanwhile :: pr_state
  pi_marked_before :: bool
  pi_full :: "pass_stop + failed_check list option"
  pi_merges :: "(merge_input \<times> (failed_check list \<Rightarrow> string \<Rightarrow> requeued)) list"

record pass_vars =
  pv_sha :: string
  pv_reviewed :: "string option"
  pv_approved :: bool
  pv_verified :: "string option"
  pv_noted :: bool
  pv_pushed :: "pr_state option"
  pv_refresh :: refreshed
  pv_check :: check_fix
  pv_pass :: nat
  pv_refreshes :: nat
  pv_marked :: bool
  pv_released :: "string option"

datatype pass_out = PassEnds pass_stop | FoundMerged string string | MergedBy string string | PassOn pass_vars

subsection \<open>The parts of a turn\<close>

definition settled_pass :: "merge_cfg \<Rightarrow> string \<Rightarrow> pass_input \<Rightarrow> pass_vars \<Rightarrow> settled" where
  "settled_pass cfg first w v =
     settle_from \<lparr>sx_cfg = cfg, sx_retriggers = True, sx_deadline = pi_deadline w\<rparr>
       (pv_sha v = first \<and> \<not> cf_reran (pv_check v)) [] (pv_refresh v) (pv_sha v, pv_reviewed v)
       (case pv_pushed v of None \<Rightarrow> Fresh | Some st \<Rightarrow> Pushed st) (pi_looks w)"

text \<open>\<^verbatim>\<open>_merge_origin_main\<close>, from the commit it left; a merge that changed no diff carries the review
  and the quiet clock over. \<open>previous\<close> is the state the clock is read from.\<close>

definition merge_main ::
    "pass_input \<Rightarrow> pass_vars \<Rightarrow> pr_state option \<Rightarrow> pass_stop + pass_vars" where
  "merge_main w v previous =
     (case pi_main w (pv_sha v) (pv_reviewed v) of
        Inl e \<Rightarrow> Inl e
      | Inr m \<Rightarrow>
          (case just_pushed_state (mm_sha m) (pv_reviewed v) (mm_reads m) (mm_remote m) of
             Inl e \<Rightarrow> Inl e
           | Inr st \<Rightarrow>
               (let same = (mm_sha m \<noteq> pv_sha v \<and> mm_same m)
                in Inr (v\<lparr>pv_sha := mm_sha m, pv_pushed := Some st,
                     pv_reviewed := (if same \<and> pv_reviewed v = Some (pv_sha v) then Some (mm_sha m) else pv_reviewed v),
                     pv_refresh := (case previous of
                         Some p \<Rightarrow> if same
                           then Some ((Some (mm_sha m), ps_updated st),
                                  (case pv_refresh v of
                                     Some (key, since) \<Rightarrow> if key = (Some (pv_sha v), ps_updated p) then since else ps_updated p
                                   | None \<Rightarrow> ps_updated p))
                           else pv_refresh v
                       | None \<Rightarrow> pv_refresh v)\<rparr>))))"

text \<open>\<^verbatim>\<open>hold_for_frontend\<close> and \<^verbatim>\<open>mark_or_park\<close>.\<close>

definition held_for_frontend :: "merge_cfg \<Rightarrow> pr_state \<Rightarrow> bool" where
  "held_for_frontend cfg st \<longleftrightarrow> ps_draft st \<and> mc_draft cfg = DraftUi"

definition hold_park :: "pass_vars \<Rightarrow> park_why \<Rightarrow> pass_stop" where
  "hold_park v why = ParkedAt (pv_sha v) (pv_reviewed v) PK_PULL_REQUEST why"

definition mark_ready :: "merge_cfg \<Rightarrow> pass_input \<Rightarrow> pr_state \<Rightarrow> pass_vars \<Rightarrow> pass_out" where
  "mark_ready cfg w st v =
     (if held_for_frontend cfg st then PassEnds (hold_park v HeldForFrontend)
      else if pv_marked v \<or> mc_draft cfg \<noteq> DraftOn \<or> pi_marked_before w then PassEnds (hold_park v DraftPull)
      else PassOn (v\<lparr>pv_marked := True, pv_pushed := None, pv_pass := pv_pass v - 1\<rparr>))"

definition pass_tip :: "pass_vars \<Rightarrow> tip" where "pass_tip v = (pv_sha v, pv_reviewed v)"

definition checks_turn ::
    "log_signs \<Rightarrow> merge_cfg \<Rightarrow> pass_input \<Rightarrow> string option \<Rightarrow> pr_state \<Rightarrow> pass_vars \<Rightarrow> pass_out" where
  "checks_turn lg cfg w grp st v =
     (case fix_checks_or_park lg cfg (pi_checks w) (pass_tip v) grp st (pv_check v) of
        Inl e \<Rightarrow> PassEnds e
      | Inr (sha, pushed, cf) \<Rightarrow> PassOn (v\<lparr>pv_sha := sha, pv_pushed := Some pushed, pv_check := cf\<rparr>))"

text \<open>The merge of a candidate that is ready, and what follows where it did not land.\<close>

definition after_try ::
    "log_signs \<Rightarrow> merge_cfg \<Rightarrow> pass_input \<Rightarrow> pr_state \<Rightarrow> pass_vars \<Rightarrow> tried \<Rightarrow> pass_out" where
  "after_try lg cfg w st v result =
     (case result of
        TriedStops e \<Rightarrow> PassEnds e
      | TriedMerged merge_sha \<Rightarrow> MergedBy (pv_sha v) merge_sha
      | TriedNothing \<Rightarrow> PassOn (v\<lparr>pv_pushed := None\<rparr>)
      | TriedRefused \<Rightarrow>
          (case merge_main w (v\<lparr>pv_verified := Some (pv_sha v)\<rparr>) (Some st) of
             Inl e \<Rightarrow> PassEnds e
           | Inr v \<Rightarrow> PassOn (v\<lparr>pv_pass := pv_pass v - 1, pv_refreshes := pv_refreshes v + 1\<rparr>))
      | TriedFailed failed grp \<Rightarrow>
          checks_turn lg cfg w grp (st\<lparr>ps_checks := Failure, ps_failed := failed\<rparr>)
            (v\<lparr>pv_check := (pv_check v)\<lparr>cf_reran := cf_reran (pv_check v) \<or> grp = None\<rparr>\<rparr>))"

definition merge_turn ::
    "log_signs \<Rightarrow> merge_cfg \<Rightarrow> pass_input \<Rightarrow> pr_state \<Rightarrow> pass_vars \<Rightarrow> pass_out" where
  "merge_turn lg cfg w st v =
     (case pi_full w of
        Inl e \<Rightarrow> PassEnds e
      | Inr (Some failed) \<Rightarrow> after_try lg cfg w st v (TriedFailed failed None)
      | Inr None \<Rightarrow> after_try lg cfg w st v (try_merge cfg (pv_sha v) (pv_reviewed v) (pv_verified v) (pi_merges w)))"

text \<open>An approval by the operator covered the release, not the fixes reviewed since.\<close>

definition on_reviewed :: "pass_vars \<Rightarrow> pass_vars" where
  "on_reviewed v =
     (if pv_reviewed v = Some (pv_sha v)
      then v\<lparr>pv_released := (if pv_marked v then pv_released v else Some (pv_sha v))\<rparr>
      else v\<lparr>pv_released := pv_reviewed v, pv_reviewed := Some (pv_sha v), pv_approved := False\<rparr>)"

definition ready_turn :: "log_signs \<Rightarrow> merge_cfg \<Rightarrow> pass_input \<Rightarrow> pr_state \<Rightarrow> pass_vars \<Rightarrow> pass_out" where
  "ready_turn lg cfg w st v =
     (if ps_draft st then mark_ready cfg w st v
      else if mc_auto cfg \<or> pv_approved v then merge_turn lg cfg w st v
      else PassEnds (hold_park v (ReadyForHuman (pv_released v))))"

text \<open>A green pull request without threads: its review, its draft, its merge.\<close>

definition green_turn ::
    "signs \<Rightarrow> log_signs \<Rightarrow> merge_cfg \<Rightarrow> pass_input \<Rightarrow> pr_state \<Rightarrow> pass_vars \<Rightarrow> pass_out" where
  "green_turn g lg cfg w st v =
     (let v = v\<lparr>pv_check := fst (note_optional st (pv_check v))\<rparr>
      in if held_for_frontend cfg st \<and> \<not> fixes_reviewed cfg then PassEnds (hold_park v HeldForFrontend)
         else case (if pv_reviewed v = Some (pv_sha v) then Inr (pv_sha v)
                    else review_fix g cfg (pi_review w) (pv_sha v) (pv_reviewed v) (pv_noted v)) of
           Inl e \<Rightarrow> PassEnds e
         | Inr fixed \<Rightarrow>
             if fixed \<noteq> pv_sha v
             then (case just_pushed_state fixed (Some fixed) (pi_reads w fixed) (pi_remote w) of
                     Inl e \<Rightarrow> PassEnds e
                   | Inr pushed \<Rightarrow> PassOn (v\<lparr>pv_sha := fixed, pv_reviewed := Some fixed, pv_noted := False,
                       pv_pushed := Some pushed\<rparr>))
             else (case (if Some fixed = pv_reviewed v then Inr None
                         else pr_terminal (pv_sha v) (pv_reviewed v) (pi_meanwhile w) (pi_remote w)) of
                     Inl e \<Rightarrow> PassEnds e
                   | Inr meanwhile \<Rightarrow>
                       if meanwhile \<notin> {None, Some []} then FoundMerged (pv_sha v) (the meanwhile)
                       else ready_turn lg cfg w st (on_reviewed v)))"

subsection \<open>A turn of the loop\<close>

definition threads_turn :: "merge_cfg \<Rightarrow> pass_input \<Rightarrow> pr_state \<Rightarrow> pass_vars \<Rightarrow> pass_out" where
  "threads_turn cfg w st v =
     (case snd (answer_threads cfg (pi_thread w) (pv_sha v) (pv_reviewed v) (pi_open w st)) of
        Inl e \<Rightarrow> PassEnds e
      | Inr sha \<Rightarrow>
          if Some sha = ps_head st then PassOn (v\<lparr>pv_sha := sha\<rparr>)
          else (case just_pushed_state sha (pv_reviewed v) (pi_reads w sha) (pi_remote w) of
                  Inl e \<Rightarrow> PassEnds e
                | Inr pushed \<Rightarrow> PassOn (v\<lparr>pv_sha := sha, pv_pushed := Some pushed\<rparr>)))"

text \<open>The turn once its asks are answered and its notes triaged; \<open>noted\<close>: the triage took threads away.\<close>

definition triaged_turn ::
    "signs \<Rightarrow> log_signs \<Rightarrow> merge_cfg \<Rightarrow> pass_input \<Rightarrow> bool \<Rightarrow> pr_state \<Rightarrow> pass_vars \<Rightarrow> pass_out" where
  "triaged_turn g lg cfg w noted st v =
     (if ps_mergeable st = ''CONFLICTING''
      then (case merge_main w v (if noted then None else Some st) of
              Inl e \<Rightarrow> PassEnds e
            | Inr v \<Rightarrow> PassOn (v\<lparr>pv_refreshes := pv_refreshes v + 1, pv_pass := pv_pass v - 1\<rparr>))
      else if noted \<and> ps_threads st = [] then PassOn (v\<lparr>pv_pass := pv_pass v - 1\<rparr>)
      else if ps_threads st \<noteq> [] then threads_turn cfg w st v
      else if ps_checks st \<noteq> Success then checks_turn lg cfg w None st v
      else green_turn g lg cfg w st v)"

definition settled_turn ::
    "signs \<Rightarrow> log_signs \<Rightarrow> merge_cfg \<Rightarrow> pass_input \<Rightarrow> pr_state \<Rightarrow> pass_vars \<Rightarrow> pass_out" where
  "settled_turn g lg cfg w st v =
     (case pr_terminal (pv_sha v) (pv_reviewed v) st (pi_remote w) of
        Inl e \<Rightarrow> PassEnds e
      | Inr (Some merge_sha) \<Rightarrow> FoundMerged (pv_sha v) merge_sha
      | Inr None \<Rightarrow>
          (case pi_answered w st of
             Inl e \<Rightarrow> PassEnds e
           | Inr unasked \<Rightarrow>
               (case pi_triaged w (st\<lparr>ps_threads := unasked\<rparr>) of
                  Inl e \<Rightarrow> PassEnds e
                | Inr notes \<Rightarrow>
                    triaged_turn g lg cfg w (notes \<noteq> None)
                      (st\<lparr>ps_threads := (case notes of None \<Rightarrow> unasked | Some ts \<Rightarrow> ts)\<rparr>) v)))"

definition at_settled :: "pass_vars \<Rightarrow> tip \<Rightarrow> refreshed \<Rightarrow> pass_vars" where
  "at_settled v t refresh =
     v\<lparr>pv_pass := pv_pass v + 1, pv_sha := fst t, pv_reviewed := snd t, pv_refresh := refresh, pv_pushed := None\<rparr>"

definition babysit_pass ::
    "signs \<Rightarrow> log_signs \<Rightarrow> merge_cfg \<Rightarrow> string \<Rightarrow> pass_input \<Rightarrow> pass_vars \<Rightarrow> pass_out" where
  "babysit_pass g lg cfg first w v =
     (if pi_stop w then PassEnds PassStopped
      else case settled_pass cfg first w v of
        SettleEnds e \<Rightarrow> PassEnds e
      | Settled st t refresh \<Rightarrow>
          if pi_stop_settled w then PassEnds PassStopped
          else settled_turn g lg cfg w st (at_settled v t refresh))"

text \<open>\<^verbatim>\<open>_at_the_cap\<close>: the state once more, for a merge made meanwhile.\<close>

definition at_the_cap :: "merge_cfg \<Rightarrow> pass_input \<Rightarrow> pass_vars \<Rightarrow> pass_out" where
  "at_the_cap cfg w v =
     (case settle_from \<lparr>sx_cfg = cfg, sx_retriggers = True, sx_deadline = pi_deadline w\<rparr> False [] (pv_refresh v)
             (pass_tip v) (case pv_pushed v of None \<Rightarrow> Fresh | Some st \<Rightarrow> Pushed st) (pi_looks w) of
        SettleEnds e \<Rightarrow> PassEnds e
      | Settled st (sha, reviewed) _ \<Rightarrow>
          (case pr_terminal sha reviewed st (pi_remote w) of
             Inl e \<Rightarrow> PassEnds e
           | Inr (Some merge_sha) \<Rightarrow> FoundMerged sha merge_sha
           | Inr None \<Rightarrow> PassEnds (ParkedAt sha reviewed PK_PULL_REQUEST (CapReached (pv_refreshes v = mc_refreshes cfg)))))"

definition under_caps :: "merge_cfg \<Rightarrow> pass_vars \<Rightarrow> bool" where
  "under_caps cfg v \<longleftrightarrow> pv_pass v < mc_rounds cfg \<and> pv_refreshes v < mc_refreshes cfg"

fun babysit_passes ::
    "signs \<Rightarrow> log_signs \<Rightarrow> merge_cfg \<Rightarrow> string \<Rightarrow> pass_input list \<Rightarrow> pass_vars \<Rightarrow> pass_out" where
  "babysit_passes g lg cfg first [] v = PassEnds StillWaiting"
| "babysit_passes g lg cfg first (w # ws) v =
     (if \<not> under_caps cfg v then at_the_cap cfg w v
      else case babysit_pass g lg cfg first w v of PassOn v \<Rightarrow> babysit_passes g lg cfg first ws v | out \<Rightarrow> out)"

text \<open>\<open>approved\<close> says the operator released \<open>reviewed\<close>; \<open>noted\<close> that a note asked for this babysit.\<close>

definition pass_start :: "string \<Rightarrow> bool \<Rightarrow> string option \<Rightarrow> string option \<Rightarrow> bool \<Rightarrow> pr_state option \<Rightarrow> pass_vars" where
  "pass_start sha approved reviewed verified noted pushed =
     \<lparr>pv_sha = sha, pv_reviewed = reviewed, pv_approved = approved, pv_verified = verified, pv_noted = noted,
      pv_pushed = pushed, pv_refresh = None, pv_check = new_check_fix, pv_pass = 0, pv_refreshes = 0,
      pv_marked = False, pv_released = None\<rparr>"

definition babysit_pull ::
    "signs \<Rightarrow> log_signs \<Rightarrow> merge_cfg \<Rightarrow> string \<Rightarrow> bool \<Rightarrow> string option \<Rightarrow> string option \<Rightarrow> bool \<Rightarrow> pr_state option \<Rightarrow>
      pass_input list \<Rightarrow> pass_out" where
  "babysit_pull g lg cfg sha approved reviewed verified noted pushed ws =
     babysit_passes g lg cfg sha ws (pass_start sha approved reviewed verified noted pushed)"

subsection \<open>What a turn keeps\<close>

text \<open>
  \<open>P\<close> holds of the commits the review of a merge may rest on, \<open>Q\<close> of those verified. A turn rests on them
  when what moves the candidate without changing it, an empty commit or a merge of main with the same
  diff, keeps \<open>P\<close>, when its reviews give \<open>P\<close>, or, for \<open>kept\<close>, change no commit, and its merge gate gives \<open>Q\<close>.
\<close>

definition turn_rests ::
    "signs \<Rightarrow> merge_cfg \<Rightarrow> bool \<Rightarrow> (string \<Rightarrow> bool) \<Rightarrow> (string \<Rightarrow> bool) \<Rightarrow> pass_input \<Rightarrow> bool" where
  "turn_rests g cfg kept P Q w \<longleftrightarrow>
     (\<forall>l \<in> set (pi_looks w). \<forall>new a. rt_new (sl_retrigger l) = Some new \<and> P a \<longrightarrow> P new)
     \<and> (\<forall>s r m. pi_main w s r = Inr m \<and> mm_same m \<and> P s \<longrightarrow> P (mm_sha m))
     \<and> (if kept then (\<forall>s r n c. review_fix g cfg (pi_review w) s r n = Inr c \<longrightarrow> c = s)
        else (\<forall>t \<in> set (pi_review w). \<forall>c. fix_approved g t c \<longrightarrow> P c))
     \<and> (\<forall>(m, again) \<in> set (pi_merges w). \<forall>c. me_gate m c = None \<longrightarrow> Q c)"

definition vars_ok :: "bool \<Rightarrow> bool \<Rightarrow> (string \<Rightarrow> bool) \<Rightarrow> (string \<Rightarrow> bool) \<Rightarrow> pass_vars \<Rightarrow> bool" where
  "vars_ok app kept P Q v \<longleftrightarrow>
     ((kept \<longrightarrow> pv_approved v) \<longrightarrow> (\<forall>r. pv_reviewed v = Some r \<longrightarrow> P r)) \<and> (\<forall>x. pv_verified v = Some x \<longrightarrow> Q x)
     \<and> (pv_approved v \<longrightarrow> app)"

lemma settle_from_tip:
  assumes "settle_from cx park_ci absent refresh t src ls = Settled st t' refresh'"
    and "\<forall>l \<in> set ls. \<forall>new a. rt_new (sl_retrigger l) = Some new \<and> P a \<longrightarrow> P new"
    and "\<forall>r. snd t = Some r \<longrightarrow> P r"
  shows "\<forall>r. snd t' = Some r \<longrightarrow> P r"
  using assms
proof (induction ls arbitrary: park_ci absent refresh t src)
  case (Cons l ls)
  have moved: "\<forall>r. snd u = Some r \<longrightarrow> P r"
    if "retrigger cfg (sl_retrigger l) t = Inr (Some (u, q))" for cfg u q
    using that Cons.prems(2,3)
    by (auto simp: retrigger_def moved_tip_def Let_def split: if_split_asm option.split_asm sum.split_asm)
  have rest: "\<forall>l \<in> set ls. \<forall>new a. rt_new (sl_retrigger l) = Some new \<and> P a \<longrightarrow> P new"
    using Cons.prems(2) by simp
  consider "t' = t" | p a r u s where "settle_from cx p a r u s ls = Settled st t' refresh'"
      "u = t \<or> (\<exists>cfg q. retrigger cfg (sl_retrigger l) t = Inr (Some (u, q)))"
    using Cons.prems(1)
    by (auto simp: Let_def split: sum.split_asm if_split_asm verdict.split_asm option.split_asm prod.split_asm) blast+
  then show ?case
  proof cases
    case 1
    with Cons.prems(3) show ?thesis by simp
  next
    case 2
    from 2(2) moved Cons.prems(3) have "\<forall>r. snd u = Some r \<longrightarrow> P r" by blast
    from Cons.IH [OF 2(1) rest this] show ?thesis .
  qed
qed simp

text \<open>How far a turn moves the counters.\<close>

definition turn_counts :: "pass_vars \<Rightarrow> nat \<times> nat \<times> bool" where
  "turn_counts v = (pv_pass v, pv_refreshes v, pv_marked v)"

definition same_standing :: "pass_vars \<Rightarrow> pass_vars \<Rightarrow> bool" where
  "same_standing v u \<longleftrightarrow>
     pv_reviewed u = pv_reviewed v \<and> pv_verified u = pv_verified v \<and> pv_approved u = pv_approved v"

lemma same_standing_ok: "same_standing v u \<Longrightarrow> vars_ok app kept P Q v \<Longrightarrow> vars_ok app kept P Q u"
  by (simp add: same_standing_def vars_ok_def)

lemma checks_turn_on:
  "checks_turn lg cfg w grp st v = PassOn u \<Longrightarrow> same_standing v u \<and> turn_counts u = turn_counts v"
  by (auto simp: checks_turn_def same_standing_def turn_counts_def split: sum.split_asm)

lemma merge_main_on:
  assumes "merge_main w v previous = Inr u"
  shows "pv_verified u = pv_verified v \<and> pv_approved u = pv_approved v \<and> turn_counts u = turn_counts v
    \<and> (pv_reviewed u = pv_reviewed v
       \<or> (\<exists>m r. pi_main w (pv_sha v) r = Inr m \<and> mm_same m \<and> pv_reviewed v = Some (pv_sha v) \<and> pv_reviewed u = Some (mm_sha m)))"
  using assms by (auto simp: merge_main_def turn_counts_def Let_def split: sum.split_asm if_split_asm)

lemma merge_main_ok:
  assumes "merge_main w v previous = Inr u" and "turn_rests g cfg kept P Q w" and "vars_ok app kept P Q v"
  shows "vars_ok app kept P Q u"
  using merge_main_on [OF assms(1)] assms(2,3) by (auto simp: turn_rests_def vars_ok_def)

lemma try_merge_gated:
  assumes "try_merge cfg sha reviewed verified ms = out" and "\<forall>e. out \<noteq> TriedStops e"
    and "\<forall>(m, again) \<in> set ms. \<forall>c. me_gate m c = None \<longrightarrow> Q c" and "verified = Some sha \<longrightarrow> Q sha"
  shows "Q sha"
  using assms
  by (induction cfg sha reviewed verified ms rule: try_merge.induct)
    (auto simp: verified_merge_def split: if_split_asm option.split_asm)

definition merge_open :: "merge_cfg \<Rightarrow> merge_input \<Rightarrow> string \<Rightarrow> string \<Rightarrow> bool" where
  "merge_open cfg m sha merge_sha \<longleftrightarrow>
     me_begun m \<and> me_capture m sha = [] \<and> (mc_up_to_date cfg \<longrightarrow> me_behind m sha = None)
     \<and> me_held m sha = None \<and> me_landed m sha = Landed merge_sha"

lemma merge_pr_done: "merge_pr cfg m sha reviewed = MergeDone merge_sha \<Longrightarrow> merge_open cfg m sha merge_sha"
  by (auto simp: merge_pr_def merge_open_def Let_def split: if_split_asm option.split_asm landed.split_asm)

lemma try_merge_merged:
  "try_merge cfg sha reviewed verified ms = TriedMerged merge_sha \<Longrightarrow>
     \<exists>(m, again) \<in> set ms. merge_open cfg m sha merge_sha"
  by (induction cfg sha reviewed verified ms rule: try_merge.induct)
    (auto simp: verified_merge_def dest: merge_pr_done split: if_split_asm option.split_asm merge_result.split_asm requeued.split_asm)

lemma vars_ok_mono:
  assumes "vars_ok app kept P Q v" and "(\<forall>r. pv_reviewed v = Some r \<longrightarrow> P r) \<longrightarrow> (\<forall>r. pv_reviewed u = Some r \<longrightarrow> P r)"
    and "pv_approved u = pv_approved v" and "pv_verified u = pv_verified v"
  shows "vars_ok app kept P Q u"
  using assms unfolding vars_ok_def by presburger

lemma settled_pass_ok:
  assumes "settled_pass cfg first w v = Settled st t refresh" and "turn_rests g cfg kept P Q w" and "vars_ok app kept P Q v"
  shows "vars_ok app kept P Q (at_settled v t refresh)"
proof (rule vars_ok_mono [OF assms(3)])
  have looks: "\<forall>l \<in> set (pi_looks w). \<forall>new a. rt_new (sl_retrigger l) = Some new \<and> P a \<longrightarrow> P new"
    using assms(2) by (simp add: turn_rests_def)
  have "\<forall>r. snd t = Some r \<longrightarrow> P r" if "\<forall>r. pv_reviewed v = Some r \<longrightarrow> P r"
    by (rule settle_from_tip [OF assms(1) [unfolded settled_pass_def] looks]) (simp add: that)
  moreover have "pv_reviewed (at_settled v t refresh) = snd t" by (simp add: at_settled_def)
  ultimately show "(\<forall>r. pv_reviewed v = Some r \<longrightarrow> P r) \<longrightarrow> (\<forall>r. pv_reviewed (at_settled v t refresh) = Some r \<longrightarrow> P r)"
    by presburger
qed (simp_all add: at_settled_def)

lemma mark_ready_on: "mark_ready cfg w st v = PassOn u \<Longrightarrow> same_standing v u"
  by (auto simp: mark_ready_def same_standing_def split: if_split_asm)

lemma after_try_failed_ok:
  assumes "after_try lg cfg w st v (TriedFailed failed grp) = PassOn u" and "vars_ok app kept P Q v"
  shows "vars_ok app kept P Q u"
proof -
  from checks_turn_on [OF assms(1) [unfolded after_try_def tried.case]] have "same_standing v u"
    by (simp add: same_standing_def)
  then show ?thesis using assms(2) by (rule same_standing_ok)
qed

lemma merge_turn_ok:
  assumes on: "merge_turn lg cfg w st v = PassOn u" and r: "turn_rests g cfg kept P Q w" and v: "vars_ok app kept P Q v"
  shows "vars_ok app kept P Q u"
proof (cases "\<exists>failed. pi_full w = Inr (Some failed)")
  case True
  with on v show ?thesis by (auto simp: merge_turn_def intro: after_try_failed_ok)
next
  case False
  define result where "result = try_merge cfg (pv_sha v) (pv_reviewed v) (pv_verified v) (pi_merges w)"
  have t: "after_try lg cfg w st v result = PassOn u"
    using on False by (auto simp: merge_turn_def result_def split: sum.split_asm option.split_asm)
  show ?thesis
  proof (cases result)
    case TriedRefused
    have gate: "\<forall>(m, again) \<in> set (pi_merges w). \<forall>c. me_gate m c = None \<longrightarrow> Q c"
      using r by (simp add: turn_rests_def)
    from TriedRefused v have "Q (pv_sha v)"
      by (intro try_merge_gated [OF result_def [symmetric] _ gate]) (auto simp: vars_ok_def)
    with v have "vars_ok app kept P Q (v\<lparr>pv_verified := Some (pv_sha v)\<rparr>)" by (simp add: vars_ok_def)
    moreover obtain u' where "merge_main w (v\<lparr>pv_verified := Some (pv_sha v)\<rparr>) (Some st) = Inr u'" "same_standing u' u"
      using t TriedRefused by (auto simp: after_try_def same_standing_def split: sum.split_asm)
    ultimately show ?thesis using merge_main_ok [OF _ r] same_standing_ok by blast
  next
    case (TriedFailed failed grp)
    with t v show ?thesis by (blast intro: after_try_failed_ok)
  qed (use t v in \<open>auto simp: after_try_def vars_ok_def\<close>)
qed

lemma on_reviewed_ok:
  assumes "vars_ok app kept P Q v" and "pv_reviewed v = Some (pv_sha v) \<or> kept \<or> P (pv_sha v)"
  shows "vars_ok app kept P Q (on_reviewed v)"
  using assms by (auto simp: on_reviewed_def vars_ok_def)

lemma ready_turn_ok:
  assumes "ready_turn lg cfg w st v = PassOn u" and "turn_rests g cfg kept P Q w" and "vars_ok app kept P Q v"
  shows "vars_ok app kept P Q u"
  using assms(1) mark_ready_on merge_turn_ok [OF _ assms(2,3)] same_standing_ok [OF _ assms(3)]
  by (auto simp: ready_turn_def split: if_split_asm)

text \<open>What a green turn goes on with: the fix its review left, or the candidate, reviewed.\<close>

lemma green_turn_cases:
  assumes "green_turn g lg cfg w st v = out" and "\<forall>e. out \<noteq> PassEnds e" and "\<forall>a b. out \<noteq> FoundMerged a b"
  obtains (refixed) c st' cf where
      "review_fix g cfg (pi_review w) (pv_sha v) (pv_reviewed v) (pv_noted v) = Inr c" "c \<noteq> pv_sha v"
      "out = PassOn (v\<lparr>pv_check := cf, pv_sha := c, pv_reviewed := Some c, pv_noted := False, pv_pushed := Some st'\<rparr>)"
    | (ready) cf where
      "pv_reviewed v = Some (pv_sha v) \<or> review_fix g cfg (pi_review w) (pv_sha v) (pv_reviewed v) (pv_noted v) = Inr (pv_sha v)"
      "ready_turn lg cfg w st (on_reviewed (v\<lparr>pv_check := cf\<rparr>)) = out"
proof (cases "pv_reviewed v = Some (pv_sha v)")
  case True
  with assms have "ready_turn lg cfg w st (on_reviewed (v\<lparr>pv_check := fst (note_optional st (pv_check v))\<rparr>)) = out"
    by (auto simp: green_turn_def Let_def split: if_split_asm)
  with True ready show thesis by blast
next
  case False
  obtain c where c: "review_fix g cfg (pi_review w) (pv_sha v) (pv_reviewed v) (pv_noted v) = Inr c"
    using assms False
    by (cases "review_fix g cfg (pi_review w) (pv_sha v) (pv_reviewed v) (pv_noted v)")
      (auto simp: green_turn_def Let_def split: if_split_asm)
  show thesis
  proof (cases "c = pv_sha v")
    case True
    with assms False c have "ready_turn lg cfg w st (on_reviewed (v\<lparr>pv_check := fst (note_optional st (pv_check v))\<rparr>)) = out"
      by (auto simp: green_turn_def Let_def split: if_split_asm sum.split_asm)
    with True c ready show thesis by blast
  next
    case other: False
    with assms False c obtain st' where "out = PassOn (v\<lparr>pv_check := fst (note_optional st (pv_check v)),
        pv_sha := c, pv_reviewed := Some c, pv_noted := False, pv_pushed := Some st'\<rparr>)"
      by (auto simp: green_turn_def Let_def split: if_split_asm sum.split_asm)
    with c other refixed show thesis by blast
  qed
qed

lemma vars_ok_check: "vars_ok app kept P Q (v\<lparr>pv_check := cf\<rparr>) \<longleftrightarrow> vars_ok app kept P Q v"
  by (simp add: vars_ok_def)

lemma review_gives:
  assumes "turn_rests g cfg kept P Q w" and "review_fix g cfg (pi_review w) s r n = Inr c"
  shows "if kept then c = s else P c"
  using assms review_fix_approved [OF assms(2)] by (auto simp: turn_rests_def split: if_split_asm)

lemma green_turn_ready_ok:
  assumes "turn_rests g cfg kept P Q w" and "vars_ok app kept P Q v"
    and "pv_reviewed v = Some (pv_sha v) \<or> review_fix g cfg (pi_review w) (pv_sha v) (pv_reviewed v) (pv_noted v) = Inr (pv_sha v)"
  shows "vars_ok app kept P Q (on_reviewed (v\<lparr>pv_check := cf\<rparr>))"
proof (rule on_reviewed_ok)
  show "vars_ok app kept P Q (v\<lparr>pv_check := cf\<rparr>)" using assms(2) by (simp only: vars_ok_check)
  show "pv_reviewed (v\<lparr>pv_check := cf\<rparr>) = Some (pv_sha (v\<lparr>pv_check := cf\<rparr>)) \<or> kept \<or> P (pv_sha (v\<lparr>pv_check := cf\<rparr>))"
    using assms(3) review_gives [OF assms(1), of "pv_sha v" "pv_reviewed v" "pv_noted v" "pv_sha v"] by (auto split: if_split_asm)
qed

lemma green_turn_ok:
  assumes "green_turn g lg cfg w st v = PassOn u" and r: "turn_rests g cfg kept P Q w" and v: "vars_ok app kept P Q v"
  shows "vars_ok app kept P Q u"
proof -
  have e: "\<forall>e. PassOn u \<noteq> PassEnds e" "\<forall>a b. PassOn u \<noteq> FoundMerged a b" by simp_all
  show ?thesis
    using assms(1) e
  proof (cases rule: green_turn_cases)
    case (refixed c st' cf)
    from review_gives [OF r refixed(1)] refixed(2) have "\<not> kept \<and> P c" by (simp split: if_split_asm)
    with refixed(3) v show ?thesis by (auto simp: vars_ok_def)
  next
    case (ready cf)
    from ready_turn_ok [OF ready(2) r green_turn_ready_ok [OF r v ready(1)]] show ?thesis .
  qed
qed


subsection \<open>A turn\<close>

lemma threads_turn_on: "threads_turn cfg w st v = PassOn u \<Longrightarrow> same_standing v u \<and> turn_counts u = turn_counts v"
  by (auto simp: threads_turn_def same_standing_def turn_counts_def split: sum.split_asm if_split_asm)

lemma threads_turn_out: "threads_turn cfg w st v \<noteq> MergedBy c m"
  by (auto simp: threads_turn_def split: sum.split)

lemma checks_turn_out: "checks_turn lg cfg w grp st v \<noteq> MergedBy c m"
  by (auto simp: checks_turn_def split: sum.split)

lemma triaged_turn_ok:
  assumes on: "triaged_turn g lg cfg w noted st v = PassOn u" and r: "turn_rests g cfg kept P Q w" and v: "vars_ok app kept P Q v"
  shows "vars_ok app kept P Q u"
proof -
  consider (main) u' previous where "merge_main w v previous = Inr u'" "same_standing u' u" | (same) "same_standing v u"
    | (green) "green_turn g lg cfg w st v = PassOn u"
    using on threads_turn_on checks_turn_on
    by (fastforce simp: triaged_turn_def same_standing_def split: if_split_asm sum.split_asm)
  then show ?thesis
  proof cases
    case main
    from same_standing_ok [OF main(2) merge_main_ok [OF main(1) r v]] show ?thesis .
  next
    case same
    from same_standing_ok [OF this v] show ?thesis .
  next
    case green
    from green_turn_ok [OF this r v] show ?thesis .
  qed
qed

lemma settled_turn_on:
  assumes "settled_turn g lg cfg w st v = out" and "\<forall>e. out \<noteq> PassEnds e" and "\<forall>a b. out \<noteq> FoundMerged a b"
  obtains noted st' where "triaged_turn g lg cfg w noted st' v = out"
    and "ps_checks st' = ps_checks st \<and> ps_mergeable st' = ps_mergeable st \<and> ps_draft st' = ps_draft st"
    and "\<not> (\<exists>st. pi_triaged w st = Inr (Some [])) \<Longrightarrow> noted \<Longrightarrow> ps_threads st' \<noteq> []"
proof -
  obtain unasked where t: "pi_answered w st = Inr unasked" "pr_terminal (pv_sha v) (pv_reviewed v) st (pi_remote w) = Inr None"
    using assms by (auto simp: settled_turn_def split: sum.split_asm option.split_asm)
  obtain judged where n: "pi_triaged w (st\<lparr>ps_threads := unasked\<rparr>) = Inr judged"
    using assms t by (auto simp: settled_turn_def split: sum.split_asm)
  show thesis
  proof (rule that)
    show "triaged_turn g lg cfg w (judged \<noteq> None) (st\<lparr>ps_threads := (case judged of None \<Rightarrow> unasked | Some ts \<Rightarrow> ts)\<rparr>) v = out"
      using assms(1) t n by (simp add: settled_turn_def)
    assume "\<not> (\<exists>st. pi_triaged w st = Inr (Some []))" "judged \<noteq> None"
    with n show "ps_threads (st\<lparr>ps_threads := (case judged of None \<Rightarrow> unasked | Some ts \<Rightarrow> ts)\<rparr>) \<noteq> []" by auto
  qed simp
qed

lemma babysit_pass_on:
  assumes "babysit_pass g lg cfg first w v = out" and "\<forall>e. out \<noteq> PassEnds e" and "\<forall>a b. out \<noteq> FoundMerged a b"
  obtains st t refresh where "settled_pass cfg first w v = Settled st t refresh"
    and "settled_turn g lg cfg w st (at_settled v t refresh) = out"
  using assms by (auto simp: babysit_pass_def split: if_split_asm settled.split_asm)

lemma babysit_pass_ok:
  assumes "babysit_pass g lg cfg first w v = PassOn u" and r: "turn_rests g cfg kept P Q w" and v: "vars_ok app kept P Q v"
  shows "vars_ok app kept P Q u"
proof -
  obtain st t refresh where s: "settled_pass cfg first w v = Settled st t refresh"
      "settled_turn g lg cfg w st (at_settled v t refresh) = PassOn u"
    by (rule babysit_pass_on [OF assms(1)]) simp_all
  obtain noted st' where "triaged_turn g lg cfg w noted st' (at_settled v t refresh) = PassOn u"
    by (rule settled_turn_on [OF s(2)]) simp_all
  from triaged_turn_ok [OF this r settled_pass_ok [OF s(1) r v]] show ?thesis .
qed


subsection \<open>What a merge rests on\<close>

definition merged_on ::
    "merge_cfg \<Rightarrow> bool \<Rightarrow> (string \<Rightarrow> bool) \<Rightarrow> (string \<Rightarrow> bool) \<Rightarrow> pass_input \<Rightarrow> string \<Rightarrow> string \<Rightarrow> bool" where
  "merged_on cfg kept P Q w c merge_sha \<longleftrightarrow>
     Q c \<and> (kept \<longrightarrow> \<not> mc_auto cfg \<longrightarrow> P c) \<and> (\<not> kept \<longrightarrow> P c) \<and> (\<exists>(m, again) \<in> set (pi_merges w). merge_open cfg m c merge_sha)"

lemma merge_turn_merged:
  assumes "merge_turn lg cfg w st v = MergedBy c merge_sha"
  shows "c = pv_sha v \<and> try_merge cfg (pv_sha v) (pv_reviewed v) (pv_verified v) (pi_merges w) = TriedMerged merge_sha"
  using assms
  by (auto simp: merge_turn_def after_try_def checks_turn_def split: sum.split_asm option.split_asm tried.split_asm)

lemma on_reviewed_reviewed: "pv_reviewed (on_reviewed v) = Some (pv_sha v) \<and> pv_sha (on_reviewed v) = pv_sha v"
  by (simp add: on_reviewed_def)

lemma mark_ready_out: "mark_ready cfg w st v \<noteq> MergedBy c m"
  by (auto simp: mark_ready_def)

lemma ready_turn_merged:
  assumes on: "ready_turn lg cfg w st (on_reviewed v) = MergedBy c merge_sha" and r: "turn_rests g cfg kept P Q w"
    and v: "vars_ok app kept P Q (on_reviewed v)"
  shows "merged_on cfg kept P Q w c merge_sha \<and> c = pv_sha v \<and> \<not> ps_draft st \<and> (mc_auto cfg \<or> pv_approved (on_reviewed v))"
proof -
  have m: "merge_turn lg cfg w st (on_reviewed v) = MergedBy c merge_sha" and d: "\<not> ps_draft st"
    and a: "mc_auto cfg \<or> pv_approved (on_reviewed v)"
    using on mark_ready_out by (auto simp: ready_turn_def split: if_split_asm)
  from merge_turn_merged [OF m] on_reviewed_reviewed [of v]
  have c: "c = pv_sha v" and t: "try_merge cfg c (Some c) (pv_verified (on_reviewed v)) (pi_merges w) = TriedMerged merge_sha"
    by auto
  have gate: "\<forall>(m, again) \<in> set (pi_merges w). \<forall>c. me_gate m c = None \<longrightarrow> Q c"
    using r by (simp add: turn_rests_def)
  have "Q c" using try_merge_gated [OF t _ gate] v by (auto simp: vars_ok_def)
  moreover have "(kept \<longrightarrow> \<not> mc_auto cfg \<longrightarrow> P c) \<and> (\<not> kept \<longrightarrow> P c)"
    using v a on_reviewed_reviewed [of v] c by (auto simp: vars_ok_def)
  ultimately show ?thesis using try_merge_merged [OF t] c d a by (simp add: merged_on_def)
qed

text \<open>A turn that merges: it saw the candidate green, without a conflict, without threads and not a draft.\<close>

definition seen_green :: "merge_cfg \<Rightarrow> pass_input \<Rightarrow> bool" where
  "seen_green cfg w \<longleftrightarrow> (\<exists>refresh st. settled_at cfg refresh (pi_looks w) st
     \<and> ps_checks st = Success \<and> ps_mergeable st \<noteq> ''CONFLICTING'' \<and> \<not> ps_draft st)"

lemma triaged_turn_merged:
  assumes on: "triaged_turn g lg cfg w noted st v = MergedBy c merge_sha" and r: "turn_rests g cfg kept P Q w"
    and v: "vars_ok app kept P Q v"
  shows "merged_on cfg kept P Q w c merge_sha \<and> ps_checks st = Success \<and> ps_mergeable st \<noteq> ''CONFLICTING''
    \<and> ps_threads st = [] \<and> \<not> ps_draft st \<and> (mc_auto cfg \<or> pv_approved v)"
proof -
  have green: "green_turn g lg cfg w st v = MergedBy c merge_sha" and st: "ps_checks st = Success"
      "ps_mergeable st \<noteq> ''CONFLICTING''" "ps_threads st = []"
    using on threads_turn_out checks_turn_out
    by (auto simp: triaged_turn_def split: if_split_asm sum.split_asm)
  have e: "\<forall>e. MergedBy c merge_sha \<noteq> PassEnds e" "\<forall>a b. MergedBy c merge_sha \<noteq> FoundMerged a b" by simp_all
  show ?thesis
    using green e
  proof (cases rule: green_turn_cases)
    case (ready cf)
    from ready_turn_merged [OF ready(2) r green_turn_ready_ok [OF r v ready(1)]] st
    show ?thesis by (auto simp: on_reviewed_def split: if_split_asm)
  qed simp
qed

lemma babysit_pass_merged:
  assumes "babysit_pass g lg cfg first w v = MergedBy c merge_sha" and r: "turn_rests g cfg kept P Q w"
    and v: "vars_ok app kept P Q v"
  shows "merged_on cfg kept P Q w c merge_sha \<and> seen_green cfg w \<and> (mc_auto cfg \<or> app)"
proof -
  obtain st t refresh where s: "settled_pass cfg first w v = Settled st t refresh"
      "settled_turn g lg cfg w st (at_settled v t refresh) = MergedBy c merge_sha"
    by (rule babysit_pass_on [OF assms(1)]) simp_all
  obtain noted st' where on: "triaged_turn g lg cfg w noted st' (at_settled v t refresh) = MergedBy c merge_sha"
    and st': "ps_checks st' = ps_checks st \<and> ps_mergeable st' = ps_mergeable st \<and> ps_draft st' = ps_draft st"
    by (rule settled_turn_on [OF s(2)]) simp_all
  note ok = settled_pass_ok [OF s(1) r v]
  from settle_from_settled [OF s(1) [unfolded settled_pass_def]]
  have "settled_at cfg (pv_refresh v) (pi_looks w) st" by simp
  with triaged_turn_merged [OF on r ok] st' ok show ?thesis by (auto simp: seen_green_def vars_ok_def)
qed

lemma passes_merged:
  assumes "babysit_passes g lg cfg first ws v = MergedBy c merge_sha" and "\<forall>w \<in> set ws. turn_rests g cfg kept P Q w"
    and "vars_ok app kept P Q v"
  shows "\<exists>w \<in> set ws. merged_on cfg kept P Q w c merge_sha \<and> seen_green cfg w \<and> (mc_auto cfg \<or> app)"
  using assms
proof (induction ws arbitrary: v)
  case (Cons w ws)
  have cap: "at_the_cap cfg w v \<noteq> MergedBy c merge_sha"
    by (auto simp: at_the_cap_def split: settled.split prod.split sum.split option.split)
  show ?case
  proof (cases "babysit_pass g lg cfg first w v")
    case (PassOn u)
    with Cons.prems(1) cap have "babysit_passes g lg cfg first ws u = MergedBy c merge_sha" by (auto split: if_split_asm)
    from Cons.IH [OF this] babysit_pass_ok [OF PassOn] Cons.prems(2,3) show ?thesis by auto
  next
    case (MergedBy c' m')
    with Cons.prems(1) cap have "babysit_pass g lg cfg first w v = MergedBy c merge_sha" by (auto split: if_split_asm)
    from babysit_pass_merged [OF this] Cons.prems(2,3) show ?thesis by auto
  qed (use Cons.prems(1) cap in \<open>auto split: if_split_asm\<close>)
qed simp

subsection \<open>The commits a review covers\<close>

text \<open>
  \<open>covered\<close>: the commit approved before the babysit, a fix its reviews approved, and what an empty commit or a
  merge of main with the same diff makes of a covered one. \<open>carried\<close> is the same without the fixes.
\<close>

inductive covered :: "signs \<Rightarrow> pass_input list \<Rightarrow> string option \<Rightarrow> string \<Rightarrow> bool" for g ws reviewed where
  covered_before: "reviewed = Some c \<Longrightarrow> covered g ws reviewed c"
| covered_fix: "w \<in> set ws \<Longrightarrow> t \<in> set (pi_review w) \<Longrightarrow> fix_approved g t c \<Longrightarrow> covered g ws reviewed c"
| covered_empty: "w \<in> set ws \<Longrightarrow> l \<in> set (pi_looks w) \<Longrightarrow> rt_new (sl_retrigger l) = Some c \<Longrightarrow>
    covered g ws reviewed a \<Longrightarrow> covered g ws reviewed c"
| covered_main: "w \<in> set ws \<Longrightarrow> pi_main w a r = Inr m \<Longrightarrow> mm_same m \<Longrightarrow> covered g ws reviewed a \<Longrightarrow>
    covered g ws reviewed (mm_sha m)"

inductive carried :: "pass_input list \<Rightarrow> string option \<Rightarrow> string \<Rightarrow> bool" for ws reviewed where
  carried_before: "reviewed = Some c \<Longrightarrow> carried ws reviewed c"
| carried_empty: "w \<in> set ws \<Longrightarrow> l \<in> set (pi_looks w) \<Longrightarrow> rt_new (sl_retrigger l) = Some c \<Longrightarrow>
    carried ws reviewed a \<Longrightarrow> carried ws reviewed c"
| carried_main: "w \<in> set ws \<Longrightarrow> pi_main w a r = Inr m \<Longrightarrow> mm_same m \<Longrightarrow> carried ws reviewed a \<Longrightarrow>
    carried ws reviewed (mm_sha m)"

definition gated :: "pass_input list \<Rightarrow> string option \<Rightarrow> string \<Rightarrow> bool" where
  "gated ws verified c \<longleftrightarrow> verified = Some c \<or> (\<exists>w \<in> set ws. \<exists>(m, again) \<in> set (pi_merges w). me_gate m c = None)"

lemma gated_gate: "w \<in> set ws \<Longrightarrow> (m, again) \<in> set (pi_merges w) \<Longrightarrow> me_gate m c = None \<Longrightarrow> gated ws verified c"
  unfolding gated_def by blast

lemma covered_rests: "w \<in> set ws \<Longrightarrow> turn_rests g cfg False (covered g ws reviewed) (gated ws verified) w"
  unfolding turn_rests_def
  by (auto intro: gated_gate covered_fix covered_empty covered_main)

lemma carried_rests:
  assumes "w \<in> set ws" and "\<forall>s r n c. review_fix g cfg (pi_review w) s r n = Inr c \<longrightarrow> c = s"
  shows "turn_rests g cfg True (carried ws reviewed) (gated ws verified) w"
  unfolding turn_rests_def
  using assms by (auto intro: gated_gate carried_empty carried_main)

lemma babysit_merge_covered:
  assumes "babysit_pull g lg cfg sha approved reviewed verified noted pushed ws = MergedBy c merge_sha"
  shows "covered g ws reviewed c \<and> gated ws verified c \<and> (mc_auto cfg \<or> approved)
    \<and> (\<exists>w \<in> set ws. seen_green cfg w \<and> (\<exists>(m, again) \<in> set (pi_merges w). merge_open cfg m c merge_sha))"
proof -
  have "vars_ok approved False (covered g ws reviewed) (gated ws verified) (pass_start sha approved reviewed verified noted pushed)"
    by (auto simp: vars_ok_def pass_start_def gated_def intro: covered_before)
  from passes_merged [OF assms [unfolded babysit_pull_def] _ this] covered_rests
  show ?thesis unfolding merged_on_def by blast
qed

lemma babysit_merge_released:
  assumes "babysit_pull g lg cfg sha approved reviewed verified noted pushed ws = MergedBy c merge_sha" and "\<not> mc_auto cfg"
    and "\<forall>w \<in> set ws. \<forall>s r n c. review_fix g cfg (pi_review w) s r n = Inr c \<longrightarrow> c = s"
  shows "approved \<and> carried ws reviewed c"
proof -
  have "vars_ok approved True (carried ws reviewed) (gated ws verified) (pass_start sha approved reviewed verified noted pushed)"
    by (auto simp: vars_ok_def pass_start_def gated_def intro: carried_before)
  from passes_merged [OF assms(1) [unfolded babysit_pull_def] _ this] carried_rests assms(2,3)
  show ?thesis unfolding merged_on_def by blast
qed


subsection \<open>The turns are bounded\<close>

text \<open>A turn counts as a pass, or as a merge of main, or marks a draft ready, which happens once; a turn that
  only triages notes counts as nothing.\<close>

definition moved_on :: "pass_vars \<Rightarrow> pass_vars \<Rightarrow> bool" where
  "moved_on v u \<longleftrightarrow> turn_counts u = turn_counts v
     \<or> pv_pass u = pv_pass v - 1 \<and> pv_refreshes u = pv_refreshes v + 1 \<and> pv_marked u = pv_marked v
     \<or> pv_pass u = pv_pass v - 1 \<and> pv_refreshes u = pv_refreshes v \<and> \<not> pv_marked v \<and> pv_marked u"

lemma moved_on_counts: "turn_counts u = turn_counts v \<Longrightarrow> moved_on v u"
  by (simp add: moved_on_def)

lemma moved_on_from: "turn_counts v' = turn_counts v \<Longrightarrow> moved_on v' u \<Longrightarrow> moved_on v u"
  by (simp add: moved_on_def turn_counts_def)

lemma moved_on_main:
  "merge_main w v previous = Inr u \<Longrightarrow> moved_on v (u\<lparr>pv_refreshes := pv_refreshes u + 1, pv_pass := pv_pass u - 1\<rparr>)
     \<and> moved_on v (u\<lparr>pv_pass := pv_pass u - 1, pv_refreshes := pv_refreshes u + 1\<rparr>)"
  using merge_main_on [of w v previous u] by (simp add: moved_on_def turn_counts_def)

lemma mark_ready_moved: "mark_ready cfg w st v = PassOn u \<Longrightarrow> moved_on v u"
  by (auto simp: mark_ready_def moved_on_def split: if_split_asm)

lemma after_try_moved:
  assumes "after_try lg cfg w st v result = PassOn u"
  shows "moved_on v u"
proof (cases result)
  case TriedRefused
  have e: "turn_counts (v\<lparr>pv_verified := Some (pv_sha v)\<rparr>) = turn_counts v" by (simp add: turn_counts_def)
  from TriedRefused assms moved_on_main moved_on_from [OF e] show ?thesis
    by (fastforce simp: after_try_def split: sum.split_asm)
next
  case (TriedFailed failed grp)
  with assms have "checks_turn lg cfg w grp (st\<lparr>ps_checks := Failure, ps_failed := failed\<rparr>)
      (v\<lparr>pv_check := (pv_check v)\<lparr>cf_reran := cf_reran (pv_check v) \<or> grp = None\<rparr>\<rparr>) = PassOn u" by (simp add: after_try_def)
  from checks_turn_on [OF this] show ?thesis by (simp add: moved_on_def turn_counts_def)
qed (use assms in \<open>auto simp: after_try_def moved_on_def turn_counts_def\<close>)

lemma ready_turn_moved:
  assumes "ready_turn lg cfg w st v = PassOn u" shows "moved_on v u"
  using assms mark_ready_moved after_try_moved
  by (fastforce simp: ready_turn_def merge_turn_def split: if_split_asm sum.split_asm option.split_asm)

lemma green_turn_moved:
  assumes "green_turn g lg cfg w st v = PassOn u" shows "moved_on v u"
proof -
  have e: "\<forall>e. PassOn u \<noteq> PassEnds e" "\<forall>a b. PassOn u \<noteq> FoundMerged a b" by simp_all
  show ?thesis
    using assms e
  proof (cases rule: green_turn_cases)
    case (refixed c st' cf)
    then show ?thesis by (simp add: moved_on_def turn_counts_def)
  next
    case (ready cf)
    have "turn_counts (on_reviewed (v\<lparr>pv_check := cf\<rparr>)) = turn_counts v" by (simp add: on_reviewed_def turn_counts_def)
    from moved_on_from [OF this ready_turn_moved [OF ready(2)]] show ?thesis .
  qed
qed

lemma triaged_turn_moved:
  assumes on: "triaged_turn g lg cfg w noted st v = PassOn u" and "noted \<longrightarrow> ps_threads st \<noteq> []"
  shows "moved_on v u"
proof -
  consider (main) u' previous where "merge_main w v previous = Inr u'" "u = u'\<lparr>pv_refreshes := pv_refreshes u' + 1, pv_pass := pv_pass u' - 1\<rparr>"
    | (same) "turn_counts u = turn_counts v" | (green) "green_turn g lg cfg w st v = PassOn u"
    using assms threads_turn_on checks_turn_on by (auto simp: triaged_turn_def split: if_split_asm sum.split_asm)
  then show ?thesis
  proof cases
    case main
    with moved_on_main [OF main(1)] show ?thesis by simp
  qed (use moved_on_counts green_turn_moved in blast)+
qed

lemma babysit_pass_moved:
  assumes "babysit_pass g lg cfg first w v = PassOn u" and "\<forall>st. pi_triaged w st \<noteq> Inr (Some [])"
  shows "moved_on (v\<lparr>pv_pass := pv_pass v + 1\<rparr>) u"
proof -
  obtain st t refresh where s: "settled_turn g lg cfg w st (at_settled v t refresh) = PassOn u"
    by (rule babysit_pass_on [OF assms(1)]) simp_all
  obtain noted st' where t: "triaged_turn g lg cfg w noted st' (at_settled v t refresh) = PassOn u"
    and n: "\<not> (\<exists>st. pi_triaged w st = Inr (Some [])) \<Longrightarrow> noted \<Longrightarrow> ps_threads st' \<noteq> []"
    by (rule settled_turn_on [OF s]) simp_all
  have "turn_counts (at_settled v t refresh) = turn_counts (v\<lparr>pv_pass := pv_pass v + 1\<rparr>)" by (simp add: at_settled_def turn_counts_def)
  from moved_on_from [OF this triaged_turn_moved [OF t]] n assms(2) show ?thesis by blast
qed

definition turns_left :: "merge_cfg \<Rightarrow> pass_vars \<Rightarrow> nat" where
  "turns_left cfg v = (mc_rounds cfg - pv_pass v) + (mc_refreshes cfg - pv_refreshes v) + (if pv_marked v then 0 else 1)"

lemma turns_left_falls:
  assumes "under_caps cfg v" and "moved_on (v\<lparr>pv_pass := pv_pass v + 1\<rparr>) u"
  shows "turns_left cfg u < turns_left cfg v"
  using assms by (auto simp: under_caps_def moved_on_def turn_counts_def turns_left_def)

lemma passes_bounded:
  assumes "turns_left cfg v < length ws" and "\<forall>w \<in> set ws. \<forall>st. pi_triaged w st \<noteq> Inr (Some [])"
  shows "babysit_passes g lg cfg first (ws @ others) v = babysit_passes g lg cfg first ws v"
  using assms
proof (induction ws arbitrary: v)
  case (Cons w ws)
  show ?case
  proof (cases "under_caps cfg v")
    case True
    show ?thesis
    proof (cases "babysit_pass g lg cfg first w v")
      case (PassOn u)
      with Cons.prems(2) babysit_pass_moved have "moved_on (v\<lparr>pv_pass := pv_pass v + 1\<rparr>) u" by auto
      from turns_left_falls [OF True this] Cons.prems(1) have "turns_left cfg u < length ws" by simp
      from Cons.IH [OF this] Cons.prems(2) True PassOn show ?thesis by simp
    qed (use True in simp_all)
  qed simp
qed simp

lemma babysit_turns:
  assumes "mc_rounds cfg + mc_refreshes cfg + 1 < length ws" and "\<forall>w \<in> set ws. \<forall>st. pi_triaged w st \<noteq> Inr (Some [])"
  shows "babysit_pull g lg cfg sha approved reviewed verified noted pushed (ws @ others)
    = babysit_pull g lg cfg sha approved reviewed verified noted pushed ws"
  using assms by (simp add: babysit_pull_def pass_start_def passes_bounded turns_left_def)

end
