(* ===== verification/Queue.thy ===== *)
theory Queue
  imports Babysit Histories
begin

section \<open>Queue: what a merge queue did with a pull request\<close>

text \<open>
  \<^verbatim>\<open>holophyte/babysit/queue_eject.py\<close>, and of \<^verbatim>\<open>pr/merge_queue.py\<close> the wait for a queued merge and the
  reading of why a pull request left the queue. An ejection is told from the evidence of its failed
  checks: a park signature, evidence that could not be read, an infra failure, or tests that failed.
  \<open>queue_record\<close> is what the events of a pull request's runs keep: the ejections queued again, and the
  label of the full run. The user's signatures are the predicates \<open>parks\<close> and \<open>infra\<close>.

  The lemmas: an ejection is queued again at most once for its kind and its failures, whatever sequence
  of ejections and full runs follows; a queued merge is reported only where GitHub shows it with its commit.
\<close>

subsection \<open>What ejected a pull request\<close>

definition SPEC_RES :: "log_signs \<Rightarrow> re list" where
  "SPEC_RES g = [
     seq [alts [lit ''FAIL'', lit ''ERROR''], lit '': '', Grp 1 (seq [plus non_space, lit '' ('', plus non_space, ch CHR '')''])],
     seq [alts [lit ''FAILED'', lit ''ERROR''], ch CHR '' '', Grp 1 (seq [star non_space, lit ''::'', star non_space])],
     seq [plus digit, lit '') '', Grp 1 (seq [ch CHR ''['', plus (none_of '']''), lit ''] '', lit (lg_chevron g), ch CHR '' '',
            star_lazy dot]), star (alts [space, lit (lg_bar g)]), Eol False]]"

definition spec_of_line :: "log_signs \<Rightarrow> string \<Rightarrow> string" where
  "spec_of_line g line =
     (case List.map_filter (\<lambda>p. re_match p line) (SPEC_RES g) of
        [] \<Rightarrow> [] | m # _ \<Rightarrow> normalized_line (group_text 1 m))"

text \<open>The log of a failed check and its annotations, \<open>None\<close> where GitHub did not give them.\<close>

definition annotation_lines :: "json list \<Rightarrow> string list" where
  "annotation_lines notes =
     concat (map (\<lambda>note. concat (map (\<lambda>field. map py_strip (py_splitlines (text_of (jget field note))))
       [''title'', ''message'', ''raw_details''])) notes)"

definition evidence_lines :: "log_signs \<Rightarrow> string option \<Rightarrow> json list option \<Rightarrow> string list \<times> bool" where
  "evidence_lines g job notes =
     (case job of
        None \<Rightarrow> ([], False)
      | Some t \<Rightarrow>
          (let lines = map (\<lambda>line. py_strip (re_sub (STAMP_RE g) (\<lambda>_. []) line)) (py_splitlines t)
           in case notes of
                None \<Rightarrow> (filter (\<lambda>l. l \<noteq> []) lines, False)
              | Some notes \<Rightarrow> (filter (\<lambda>l. l \<noteq> []) (lines @ annotation_lines notes), True)))"

datatype ejection = EjectPark string | EjectUnread | EjectInfra | EjectTests "string list"

definition first_line_of :: "(string \<Rightarrow> bool) \<Rightarrow> string list \<Rightarrow> string option" where
  "first_line_of p lines = (case filter p lines of [] \<Rightarrow> None | l # _ \<Rightarrow> Some l)"

definition names_sorted :: "string list \<Rightarrow> string list" where "names_sorted xs = sort (remdups xs)"

definition classify_ejection ::
    "log_signs \<Rightarrow> (string \<Rightarrow> bool) \<Rightarrow> (string \<Rightarrow> bool) \<Rightarrow> (failed_check \<times> string list \<times> bool) list \<Rightarrow> ejection" where
  "classify_ejection g parks infra texts =
     (case List.map_filter (\<lambda>(_, lines, _). first_line_of parks lines) texts of
        line # _ \<Rightarrow> EjectPark line
      | [] \<Rightarrow>
          if \<not> list_all (\<lambda>(_, _, read). read) texts then EjectUnread
          else if list_all (\<lambda>(c, lines, _). fc_conclusion c = ''cancelled'' \<or> first_line_of infra lines \<noteq> None) texts
          then EjectInfra
          else (let specs = filter (\<lambda>s. s \<noteq> [])
                      (map (spec_of_line g) (concat (map (\<lambda>(_, lines, _). failure_lines g (Some (join [NL] lines))) texts)))
                in EjectTests (if specs \<noteq> [] then names_sorted specs else names_sorted (map (fc_name \<circ> fst) texts))))"

subsection \<open>What is on record\<close>

datatype requeue_kind = QueuedInfra | QueuedTests

record requeue_row =
  rq_kind :: requeue_kind
  rq_key :: "string list"
  rq_group :: string

text \<open>The full run a label stands for, \<open>lb_run\<close> where one is due; \<open>lb_on\<close>: the factory put the label on.\<close>

record full_run =
  fu_run :: nat
  fu_sha :: string
  fu_attempt :: nat
  fu_specs :: "string list"
  fu_group :: string

record label_record =
  lb_on :: bool
  lb_run :: "full_run option"

record queue_record =
  qr_requeues :: "requeue_row list"
  qr_label :: label_record

definition no_label :: label_record where "no_label = \<lparr>lb_on = False, lb_run = None\<rparr>"

definition earlier_group :: "requeue_kind \<Rightarrow> string list \<Rightarrow> requeue_row list \<Rightarrow> string option" where
  "earlier_group kind key rows =
     (case filter (\<lambda>r. rq_kind r = kind \<and> rq_key r = key) rows of [] \<Rightarrow> None | r # _ \<Rightarrow> Some (rq_group r))"

definition with_requeue :: "requeue_kind \<Rightarrow> string list \<Rightarrow> string \<Rightarrow> queue_record \<Rightarrow> queue_record" where
  "with_requeue kind key grp s =
     s\<lparr>qr_requeues := qr_requeues s @ [\<lparr>rq_kind = kind, rq_key = key, rq_group = grp\<rparr>]\<rparr>"

subsection \<open>The full run on the head commit\<close>

text \<open>
  What GitHub answers: the labels before and after adding one, whether adding and removing it and the
  rerun succeeded, the attempt of the workflow run, the reads of it, and of its failed jobs and checks.
\<close>

record run_look =
  wl_done :: bool
  wl_attempt :: nat
  wl_conclusion :: string
  wl_left :: int
  wl_stop :: bool

record jobs_look =
  jl_jobs :: "int option list option"
  jl_failed :: "failed_check list"
  jl_left :: int
  jl_stop :: bool

record full_input =
  fi_labelled :: "bool option"
  fi_added :: bool
  fi_shown :: "bool option"
  fi_attempt :: nat
  fi_refused :: bool
  fi_looks :: "run_look list"
  fi_jobs :: "jobs_look list"
  fi_dropped :: bool
  fi_latest :: "(nat \<times> nat) option"

definition queue_park :: "string \<Rightarrow> string option \<Rightarrow> pass_stop" where
  "queue_park sha reviewed = ParkedAt sha reviewed PK_PULL_REQUEST QueueEjected"

definition label_if_absent :: "full_input \<Rightarrow> full_run option \<Rightarrow> bool \<Rightarrow> queue_record \<Rightarrow> queue_record \<times> bool option" where
  "label_if_absent k pending owned s =
     (let mark = (\<lambda>on. s\<lparr>qr_label := \<lparr>lb_on = on, lb_run = pending\<rparr>\<rparr>)
      in case fi_labelled k of
           None \<Rightarrow> (s, None)
         | Some True \<Rightarrow> (s, Some owned)
         | Some False \<Rightarrow>
             if fi_added k \<or> fi_shown k = Some True then (mark True, Some True)
             else (mark (fi_shown k \<noteq> Some False), None))"

text \<open>\<^verbatim>\<open>_awaited\<close>: the conclusion of the attempt, \<open>None\<close> a park.\<close>

fun awaited_run :: "pass_stop \<Rightarrow> nat \<Rightarrow> run_look list \<Rightarrow> pass_stop + string" where
  "awaited_run ends attempt [] = Inl StillWaiting"
| "awaited_run ends attempt (l # ls) =
     (if wl_done l \<and> attempt \<le> wl_attempt l then Inr (wl_conclusion l)
      else if wl_left l \<le> 0 then Inl ends
      else if wl_stop l then Inl PassStopped
      else awaited_run ends attempt ls)"

text \<open>\<^verbatim>\<open>_reported_failures\<close>: the failed jobs of the attempt are read once, its checks until they name all of them.\<close>

fun reported_failures :: "int option list option \<Rightarrow> jobs_look list \<Rightarrow> pass_stop + failed_check list option" where
  "reported_failures known [] = Inl StillWaiting"
| "reported_failures known (l # ls) =
     (let jobs = (case known of None \<Rightarrow> jl_jobs l | Some j \<Rightarrow> Some j);
          failed = (case jobs of None \<Rightarrow> [] | Some j \<Rightarrow> filter (\<lambda>c. fc_job c \<in> set j) (jl_failed l))
      in if jobs \<noteq> None \<and> set (the jobs) \<subseteq> set (map fc_job failed) then Inr (Some failed)
         else if jl_left l \<le> 0 then Inr (if jobs = None then None else Some failed)
         else if jl_stop l then Inl PassStopped
         else reported_failures jobs ls)"

definition red_or_park :: "pass_stop \<Rightarrow> full_input \<Rightarrow> requeued" where
  "red_or_park ends k =
     (case reported_failures None (fi_jobs k) of
        Inl e \<Rightarrow> RequeueStops e
      | Inr None \<Rightarrow> RequeueStops ends
      | Inr (Some failed) \<Rightarrow> if failed = [] then RequeueStops ends else HeadFailed failed)"

definition drop_or_park :: "pass_stop \<Rightarrow> full_input \<Rightarrow> queue_record \<Rightarrow> queue_record \<times> requeued" where
  "drop_or_park ends k s =
     (if fi_dropped k then (s\<lparr>qr_label := no_label\<rparr>, QueueAgain) else (s, RequeueStops ends))"

definition full_result :: "pass_stop \<Rightarrow> full_input \<Rightarrow> full_run \<Rightarrow> bool \<Rightarrow> queue_record \<Rightarrow> queue_record \<times> requeued" where
  "full_result ends k f on s =
     (if fi_attempt k < fu_attempt f \<and> fi_refused k then (s, RequeueStops ends)
      else case awaited_run ends (fu_attempt f) (fi_looks k) of
        Inl e \<Rightarrow> (s, RequeueStops e)
      | Inr ended \<Rightarrow>
          if ended \<noteq> ''success'' then (s, red_or_park ends k)
          else (let s = (with_requeue QueuedTests (fu_specs f) (fu_group f) s)\<lparr>qr_label := \<lparr>lb_on = on, lb_run = None\<rparr>\<rparr>
                in if on then drop_or_park ends k s else (s, QueueAgain)))"

text \<open>\<^verbatim>\<open>_reproduce\<close>: a test failure is tried again on the head commit before it is queued again.\<close>

definition reproduce ::
    "pass_stop \<Rightarrow> full_input \<Rightarrow> string \<Rightarrow> string list \<Rightarrow> string \<Rightarrow> queue_record \<Rightarrow> queue_record \<times> requeued" where
  "reproduce ends k sha specs grp s =
     (if earlier_group QueuedTests specs (qr_requeues s) \<noteq> None then (s, RequeueStops ends)
      else case fi_latest k of
        None \<Rightarrow> (s, RequeueStops ends)
      | Some (rid, attempt) \<Rightarrow>
          (let f = \<lparr>fu_run = rid, fu_sha = sha, fu_attempt = attempt + 1, fu_specs = specs, fu_group = grp\<rparr>
           in case label_if_absent k (Some f) False s of
                (s, None) \<Rightarrow> (s, RequeueStops ends)
              | (s, Some on) \<Rightarrow> full_result ends k f on (s\<lparr>qr_label := \<lparr>lb_on = on, lb_run = Some f\<rparr>\<rparr>)))"

definition requeue_or_park ::
    "pass_stop \<Rightarrow> full_input \<Rightarrow> string \<Rightarrow> ejection \<Rightarrow> failed_check list \<Rightarrow> string \<Rightarrow> queue_record \<Rightarrow> queue_record \<times> requeued" where
  "requeue_or_park ends k sha kind failed grp s =
     (case kind of
        EjectPark _ \<Rightarrow> (s, RequeueStops ends)
      | EjectTests specs \<Rightarrow> reproduce ends k sha specs grp s
      | _ \<Rightarrow>
          (let names = names_sorted (map fc_name failed)
           in if earlier_group QueuedInfra names (qr_requeues s) \<noteq> None then (s, RequeueStops ends)
              else (with_requeue QueuedInfra names grp s, QueueAgain)))"

text \<open>\<^verbatim>\<open>labelled_full_run\<close>: the full run on record, before the merge is tried; \<open>labelled_head\<close> where
  only the label is left of it.\<close>

definition labelled_head :: "pass_stop \<Rightarrow> full_input \<Rightarrow> queue_record \<Rightarrow> queue_record \<times> requeued" where
  "labelled_head ends k s =
     (case fi_latest k of
        None \<Rightarrow> (s, RequeueStops ends)
      | Some (_, attempt) \<Rightarrow>
          (case awaited_run ends attempt (fi_looks k) of
             Inl e \<Rightarrow> (s, RequeueStops e)
           | Inr ended \<Rightarrow> if ended \<noteq> ''success'' then (s, red_or_park ends k) else drop_or_park ends k s))"

definition labelled_full_run :: "pass_stop \<Rightarrow> full_input \<Rightarrow> string \<Rightarrow> queue_record \<Rightarrow> queue_record \<times> requeued" where
  "labelled_full_run ends k sha s =
     (case lb_run (qr_label s) of
        Some f \<Rightarrow>
          if fu_sha f = sha
          then (case label_if_absent k (Some f) (lb_on (qr_label s)) s of
                  (s, None) \<Rightarrow> (s, RequeueStops ends)
                | (s, Some on) \<Rightarrow> full_result ends k f on s)
          else if lb_on (qr_label s) then labelled_head ends k s else (s, QueueAgain)
      | None \<Rightarrow> if lb_on (qr_label s) then labelled_head ends k s else (s, QueueAgain))"

text \<open>\<^verbatim>\<open>unlabel_ended_run\<close>: the label of a pull request none of whose runs is open any more.\<close>

definition unlabel_ended_run :: "bool \<Rightarrow> bool \<Rightarrow> queue_record \<Rightarrow> queue_record" where
  "unlabel_ended_run run_open dropped s =
     (if lb_on (qr_label s) \<and> \<not> run_open \<and> dropped then s\<lparr>qr_label := no_label\<rparr> else s)"

subsection \<open>Queued again at most once\<close>

definition requeue_id :: "requeue_row \<Rightarrow> requeue_kind \<times> string list" where
  "requeue_id r = (rq_kind r, rq_key r)"

definition queued_once :: "queue_record \<Rightarrow> bool" where
  "queued_once s \<longleftrightarrow> distinct (map requeue_id (qr_requeues s))
     \<and> (\<forall>f. lb_run (qr_label s) = Some f \<longrightarrow> (QueuedTests, fu_specs f) \<notin> set (map requeue_id (qr_requeues s)))"

lemma earlier_group_none:
  "earlier_group kind key rows = None \<longleftrightarrow> (kind, key) \<notin> set (map requeue_id rows)"
proof -
  have "earlier_group kind key rows = None \<longleftrightarrow> filter (\<lambda>r. rq_kind r = kind \<and> rq_key r = key) rows = []"
    by (simp add: earlier_group_def split: list.split)
  then show ?thesis by (auto simp: requeue_id_def filter_empty_conv)
qed

lemma with_requeue_once:
  assumes "queued_once s" and "(kind, key) \<notin> set (map requeue_id (qr_requeues s))"
    and "\<forall>f. lb_run (qr_label s) = Some f \<longrightarrow> kind = QueuedInfra"
  shows "queued_once (with_requeue kind key grp s)"
  using assms by (auto simp: queued_once_def with_requeue_def requeue_id_def)

lemma drop_or_park_once: "queued_once s \<Longrightarrow> queued_once (fst (drop_or_park ends k s))"
  by (auto simp: drop_or_park_def queued_once_def no_label_def)

lemma drop_or_park_requeues: "qr_requeues (fst (drop_or_park ends k s)) = qr_requeues s"
  by (simp add: drop_or_park_def)

lemma label_if_absent_keeps:
  assumes "label_if_absent k pending owned s = (t, on)"
  shows "qr_requeues t = qr_requeues s \<and> (qr_label t = qr_label s \<or> lb_run (qr_label t) = pending)"
  using assms by (auto simp: label_if_absent_def Let_def split: option.split_asm bool.split_asm if_split_asm)

text \<open>A full run that passed appends its failures, which were not queued again before.\<close>

lemma full_result_once:
  assumes "queued_once s" and "(QueuedTests, fu_specs f) \<notin> set (map requeue_id (qr_requeues s))"
  shows "queued_once (fst (full_result ends k f on s))
    \<and> (snd (full_result ends k f on s) = QueueAgain \<longrightarrow>
         map requeue_id (qr_requeues (fst (full_result ends k f on s)))
         = map requeue_id (qr_requeues s) @ [(QueuedTests, fu_specs f)])"
proof -
  let ?s = "(with_requeue QueuedTests (fu_specs f) (fu_group f) s)\<lparr>qr_label := \<lparr>lb_on = on, lb_run = None\<rparr>\<rparr>"
  have s: "queued_once ?s" and m: "map requeue_id (qr_requeues ?s) = map requeue_id (qr_requeues s) @ [(QueuedTests, fu_specs f)]"
    using assms by (auto simp: queued_once_def with_requeue_def requeue_id_def)
  have red: "red_or_park ends k \<noteq> QueueAgain" by (auto simp: red_or_park_def split: sum.split option.split)
  show ?thesis
    using assms(1) s m red drop_or_park_once [OF s, of ends k] drop_or_park_requeues [of ends k ?s]
    by (auto simp: full_result_def Let_def split: sum.split)
qed

lemma reproduce_once:
  assumes "queued_once s" and "reproduce ends k sha specs grp s = (t, out)"
  shows "queued_once t \<and> (out = QueueAgain \<longrightarrow> (QueuedTests, specs) \<notin> set (map requeue_id (qr_requeues s))
    \<and> map requeue_id (qr_requeues t) = map requeue_id (qr_requeues s) @ [(QueuedTests, specs)])"
proof (cases "earlier_group QueuedTests specs (qr_requeues s) = None \<and> fi_latest k \<noteq> None")
  case False
  with assms show ?thesis by (auto simp: reproduce_def split: if_split_asm option.split_asm)
next
  case True
  then obtain rid attempt where l: "fi_latest k = Some (rid, attempt)" by auto
  have new: "(QueuedTests, specs) \<notin> set (map requeue_id (qr_requeues s))" using True by (simp add: earlier_group_none)
  define f where "f = \<lparr>fu_run = rid, fu_sha = sha, fu_attempt = attempt + 1, fu_specs = specs, fu_group = grp\<rparr>"
  obtain s' on where a: "label_if_absent k (Some f) False s = (s', on)" by force
  from label_if_absent_keeps [OF a] assms(1) new have s': "qr_requeues s' = qr_requeues s" "queued_once s'"
    by (auto simp: queued_once_def f_def)
  show ?thesis
  proof (cases on)
    case None
    with assms(2) True l a s' show ?thesis by (auto simp: reproduce_def f_def)
  next
    case (Some b)
    have "queued_once (s'\<lparr>qr_label := \<lparr>lb_on = b, lb_run = Some f\<rparr>\<rparr>)" using s' new by (simp add: queued_once_def f_def)
    moreover have "(t, out) = full_result ends k f b (s'\<lparr>qr_label := \<lparr>lb_on = b, lb_run = Some f\<rparr>\<rparr>)"
      using assms(2) True l a Some by (simp add: reproduce_def f_def Let_def)
    ultimately show ?thesis
      using full_result_once [of "s'\<lparr>qr_label := \<lparr>lb_on = b, lb_run = Some f\<rparr>\<rparr>" f ends k b] new s'
      by (simp add: f_def prod_eq_iff)
  qed
qed

text \<open>What an ejection is queued again for: its failed checks, or the tests of its evidence.\<close>

definition ejection_id :: "ejection \<Rightarrow> failed_check list \<Rightarrow> requeue_kind \<times> string list" where
  "ejection_id kind failed =
     (case kind of EjectTests specs \<Rightarrow> (QueuedTests, specs) | _ \<Rightarrow> (QueuedInfra, names_sorted (map fc_name failed)))"

lemma requeue_or_park_once:
  assumes "queued_once s" and "requeue_or_park ends k sha kind failed grp s = (t, out)"
  shows "queued_once t \<and> (out = QueueAgain \<longrightarrow> ejection_id kind failed \<notin> set (map requeue_id (qr_requeues s))
    \<and> map requeue_id (qr_requeues t) = map requeue_id (qr_requeues s) @ [ejection_id kind failed])"
proof (cases kind)
  case (EjectTests specs)
  with assms(2) have "reproduce ends k sha specs grp s = (t, out)" by (simp add: requeue_or_park_def)
  from reproduce_once [OF assms(1) this] EjectTests show ?thesis by (simp add: ejection_id_def)
next
  case EjectUnread
  with assms show ?thesis
    by (auto simp: requeue_or_park_def Let_def earlier_group_none ejection_id_def with_requeue_def queued_once_def
        requeue_id_def split: if_split_asm)
next
  case EjectInfra
  with assms show ?thesis
    by (auto simp: requeue_or_park_def Let_def earlier_group_none ejection_id_def with_requeue_def queued_once_def
        requeue_id_def split: if_split_asm)
qed (use assms in \<open>auto simp: requeue_or_park_def\<close>)

lemma labelled_head_once: "queued_once s \<Longrightarrow> queued_once (fst (labelled_head ends k s))"
  using drop_or_park_once by (auto simp: labelled_head_def split: option.split sum.split)

lemma labelled_full_run_once:
  assumes "queued_once s"
  shows "queued_once (fst (labelled_full_run ends k sha s))"
proof (cases "\<exists>f. lb_run (qr_label s) = Some f \<and> fu_sha f = sha")
  case True
  then obtain f where f: "lb_run (qr_label s) = Some f" "fu_sha f = sha" by blast
  with assms have new: "(QueuedTests, fu_specs f) \<notin> set (map requeue_id (qr_requeues s))" by (simp add: queued_once_def)
  obtain s' on where a: "label_if_absent k (Some f) (lb_on (qr_label s)) s = (s', on)" by force
  from label_if_absent_keeps [OF a] assms new f have s': "qr_requeues s' = qr_requeues s" "queued_once s'"
    by (auto simp: queued_once_def)
  with full_result_once [OF s'(2)] new a f show ?thesis
    by (cases on) (simp_all add: labelled_full_run_def)
next
  case False
  with assms labelled_head_once [OF assms] show ?thesis by (auto simp: labelled_full_run_def split: option.split)
qed

text \<open>The histories of a pull request: ejections and full runs, in any order, with any answers.\<close>

inductive queue_step :: "queue_record \<Rightarrow> queue_record \<Rightarrow> bool" where
  ejected: "queue_step s (fst (requeue_or_park ends k sha kind failed grp s))"
| full_run_tried: "queue_step s (fst (labelled_full_run ends k sha s))"
| unlabelled: "queue_step s (unlabel_ended_run run_open dropped s)"

definition queue_start :: queue_record where "queue_start = \<lparr>qr_requeues = [], qr_label = no_label\<rparr>"

lemma queue_step_once: "queue_step s t \<Longrightarrow> queued_once s \<Longrightarrow> queued_once t"
proof (induction rule: queue_step.induct)
  case (ejected s ends k sha kind failed grp)
  then show ?case using requeue_or_park_once [OF ejected.prems prod.collapse [symmetric]] by blast
next
  case (unlabelled s run_open dropped)
  then show ?case by (auto simp: unlabel_ended_run_def queued_once_def no_label_def)
qed (rule labelled_full_run_once)

lemma queue_start_once: "queued_once queue_start"
  by (simp add: queue_start_def queued_once_def no_label_def)

interpretation queue: guarded_steps queue_step queue_start queued_once
  by unfold_locales (fact queue_start_once, fact queue_step_once)

subsection \<open>The merge of a queue\<close>

text \<open>\<^verbatim>\<open>land_through_queue\<close> after the pull request was added: what GitHub shows, the time left, a stop.\<close>

datatype queue_end = QueueMerged string | QueueLeft string | QueueTimedOut bool | QueueStopped | QueueWaiting

definition merge_oid :: "json \<Rightarrow> string" where
  "merge_oid node = text_of (jget ''oid'' (jget ''mergeCommit'' node))"

fun land_through_queue :: "(json \<times> int \<times> bool) list \<Rightarrow> queue_end" where
  "land_through_queue [] = QueueWaiting"
| "land_through_queue ((node, time_left, stop) # reads) =
     (let merged = truthy (jget ''merged'' node)
      in if merged \<and> merge_oid node \<noteq> [] then QueueMerged (merge_oid node)
         else if \<not> merged \<and> \<not> truthy (jget ''isInMergeQueue'' node) then QueueLeft (text_of (jget ''state'' node))
         else if time_left \<le> 0 then QueueTimedOut merged
         else if stop then QueueStopped
         else land_through_queue reads)"

lemma land_through_queue_merged:
  "land_through_queue reads = QueueMerged c \<Longrightarrow>
     c \<noteq> [] \<and> (\<exists>(node, time_left, stop) \<in> set reads. truthy (jget ''merged'' node) \<and> merge_oid node = c)"
  by (induction reads rule: land_through_queue.induct) (auto simp: Let_def split: if_split_asm)

subsection \<open>Why a pull request left the queue\<close>

definition ADDED :: string where "ADDED = ''AddedToMergeQueueEvent''"
definition REMOVED :: string where "REMOVED = ''RemovedFromMergeQueueEvent''"
definition MERGED :: string where "MERGED = ''MergedEvent''"
definition LEFT_WINDOW_MS :: int where "LEFT_WINDOW_MS = 2 * 60 * 60 * 1000"
definition MERGE_OWN_REMOVAL_MS :: int where "MERGE_OWN_REMOVAL_MS = 60 * 1000"

definition of_type :: "string \<Rightarrow> json \<Rightarrow> bool" where
  "of_type name e \<longleftrightarrow> jget ''__typename'' e = JStr name"

definition departure :: "(int \<times> json) list \<Rightarrow> bool \<Rightarrow> (int \<times> string \<times> json) option" where
  "departure stint queued =
     (let merges = map fst (filter (\<lambda>e. of_type MERGED (snd e)) stint);
          removals = map (\<lambda>(ms, e). (ms, jget ''reason'' e)) (filter (\<lambda>e. of_type REMOVED (snd e)) stint);
          deliberate = filter (\<lambda>(ms, reason). py_lower (text_of reason) \<notin> {[], ''merged''} \<or> merges = []
              \<or> MERGE_OWN_REMOVAL_MS < \<bar>ms - hd merges\<bar>) removals
      in if queued \<and> merges \<noteq> [] \<and> \<not> list_ex (\<lambda>(ms, _). ms < hd merges) deliberate
         then Some (hd merges, ''merged'', JNull)
         else case deliberate of [] \<Rightarrow> None | (ms, reason) # _ \<Rightarrow> Some (ms, ''removed'', reason))"

text \<open>The events since it was last added, and whether it was.\<close>

definition last_stint :: "(int \<times> json) list \<Rightarrow> bool \<times> (int \<times> json) list" where
  "last_stint evs =
     foldl (\<lambda>(queued, stint) e. if of_type ADDED (snd e) then (True, [e]) else (queued, stint @ [e])) (False, []) evs"

definition nodes_of :: "json \<Rightarrow> json list" where
  "nodes_of connection = (case jget ''nodes'' connection of JList ns \<Rightarrow> filter is_obj ns | _ \<Rightarrow> [])"

definition pull_row :: "json \<Rightarrow> (string \<times> json) list" where
  "pull_row node = [(''number'', jget ''number'' node), (''title'', jget ''title'' node),
     (''author'', jget ''login'' (jget ''author'' node)), (''url'', jget ''url'' node), (''head_oid'', jget ''headRefOid'' node)]"

definition dated :: "(json \<Rightarrow> int option) \<Rightarrow> json list \<Rightarrow> (int \<times> json) list" where
  "dated msec evs =
     sort_key fst (List.map_filter (\<lambda>e. map_option (\<lambda>ms. (ms, e)) (msec (jget ''createdAt'' e))) evs)"

definition left_row :: "(json \<Rightarrow> int option) \<Rightarrow> json \<Rightarrow> int \<Rightarrow> ((string \<times> json) list \<times> int \<times> string \<times> json) option" where
  "left_row msec node now =
     (case last_stint (dated msec (nodes_of (jget ''timelineItems'' node))) of
        (queued, stint) \<Rightarrow>
          (case departure stint queued of
             None \<Rightarrow> None
           | Some (at_ms, outcome, reason) \<Rightarrow>
               if at_ms < now - LEFT_WINDOW_MS then None else Some (pull_row node, at_ms, outcome, reason)))"

lemma last_stint_from:
  "foldl (\<lambda>(queued, stint) e. if of_type ADDED (snd e) then (True, [e]) else (queued, stint @ [e])) (q, before) evs
     = (q', stint) \<Longrightarrow>
   (\<exists>above. before @ evs = above @ stint)
   \<and> (if (\<exists>e \<in> set evs. of_type ADDED (snd e))
      then q' \<and> of_type ADDED (snd (hd stint)) \<and> stint \<noteq> [] \<and> \<not> (\<exists>e \<in> set (tl stint). of_type ADDED (snd e))
      else q' = q \<and> stint = before @ evs)"
proof (induction evs arbitrary: q before)
  case (Cons e evs)
  show ?case
  proof (cases "of_type ADDED (snd e)")
    case True
    with Cons.prems have "foldl (\<lambda>(queued, stint) e. if of_type ADDED (snd e) then (True, [e]) else (queued, stint @ [e]))
        (True, [e]) evs = (q', stint)" by simp
    from Cons.IH [OF this] True show ?thesis by (auto split: if_split_asm)
  next
    case False
    with Cons.prems have "foldl (\<lambda>(queued, stint) e. if of_type ADDED (snd e) then (True, [e]) else (queued, stint @ [e]))
        (q, before @ [e]) evs = (q', stint)" by simp
    from Cons.IH [OF this] False show ?thesis by (auto split: if_split_asm)
  qed
qed simp

text \<open>A pull request left merged only in its last stint, queued, before any deliberate removal.\<close>

lemma departure_merged:
  assumes "departure stint queued = Some (at_ms, ''merged'', reason)"
  shows "queued \<and> (\<exists>e. (at_ms, e) \<in> set stint \<and> of_type MERGED e)"
proof -
  let ?m = "map fst (filter (\<lambda>e. of_type MERGED (snd e)) stint)"
  have q: "queued" "?m \<noteq> []" "at_ms = hd ?m"
    using assms by (auto simp: departure_def Let_def split: if_split_asm list.split_asm)
  from q(2) have "hd ?m \<in> set ?m" by (rule hd_in_set)
  then have "at_ms \<in> set ?m" by (simp only: q(3))
  with q(1) show ?thesis by force
qed


end
