(* ===== verification/QueueReads.thy ===== *)
theory QueueReads
  imports Queue
begin

section \<open>QueueReads: what a merge queue holds\<close>

text \<open>
  The reads of \<^verbatim>\<open>holophyte/pr/merge_queue.py\<close>: the workflow runs of merge groups, page by page, the group
  of each pull request that is building, the entries of the queue with the checks of their groups, and
  the pull requests that left it lately. \<open>get\<close> and \<open>ask\<close> are GitHub's answers, to a path and to a cursor.

  The lemmas: reading the runs ends with the pages; a group belongs to the pull request whose branch names
  it and was built since it was added; the group an ejection is laid to is red.
\<close>

subsection \<open>The workflow runs of merge groups\<close>

definition GROUP_RED :: "string list" where "GROUP_RED = [''failure'', ''cancelled'']"
definition RUNS_PAGE :: nat where "RUNS_PAGE = 100"

definition unreserved :: "char \<Rightarrow> bool" where
  "unreserved c \<longleftrightarrow> c \<in> set ''ABCDEFGHIJKLMNOPQRSTUVWXYZabcdefghijklmnopqrstuvwxyz0123456789_.-~''"

definition percent :: "nat \<Rightarrow> string" where
  "percent n = [CHR ''%'', ''0123456789ABCDEF'' ! (n div 16), ''0123456789ABCDEF'' ! (n mod 16)]"

text \<open>\<^verbatim>\<open>quote(t, safe='')\<close>: the bytes of UTF-8, two of them from U+0080.\<close>

definition url_quote :: "string \<Rightarrow> string" where
  "url_quote t = concat (map (\<lambda>c. if unreserved c then [c]
     else let n = of_char c :: nat
          in if n < 128 then percent n else percent (192 + n div 64) @ percent (128 + n mod 64)) t)"

definition groups_path :: "pull \<Rightarrow> string \<Rightarrow> string" where
  "groups_path p since = gh_repo_path p @ ''/actions/runs?event=merge_group&created=''
     @ url_quote (''>='' @ since) @ ''&per_page='' @ str_nat RUNS_PAGE"

definition made_ms :: "(json \<Rightarrow> int option) \<Rightarrow> json \<Rightarrow> int" where
  "made_ms msec r = (case msec (jget ''created_at'' r) of None \<Rightarrow> 0 | Some ms \<Rightarrow> ms)"

partial_function (option) group_runs_from ::
    "get \<Rightarrow> (json \<Rightarrow> int option) \<Rightarrow> string \<Rightarrow> int \<Rightarrow> json list \<Rightarrow> nat \<Rightarrow> (gh_error + json list) option" where
  [code]: "group_runs_from get msec base since_ms wruns page =
     (case get (base @ ''&page='' @ str_nat page) of
        Inl e \<Rightarrow> Some (Inl e)
      | Inr answer \<Rightarrow>
          (case jget ''workflow_runs'' answer of
             JList batch \<Rightarrow>
               if length batch < RUNS_PAGE \<or> list_ex (\<lambda>r. made_ms msec r < since_ms) (filter is_obj batch)
               then Some (Inr (wruns @ filter is_obj batch))
               else group_runs_from get msec base since_ms (wruns @ filter is_obj batch) (Suc page)
           | _ \<Rightarrow> Some (Inr wruns)))"

definition group_runs :: "get \<Rightarrow> (json \<Rightarrow> int option) \<Rightarrow> pull \<Rightarrow> string \<Rightarrow> int \<Rightarrow> (gh_error + json list) option" where
  "group_runs get msec p since since_ms = group_runs_from get msec (groups_path p since) since_ms [] 1"

subsection \<open>The group of each pull request\<close>

definition py_dict :: "('k \<times> 'v) list \<Rightarrow> ('k \<times> 'v) list" where
  "py_dict kvs = List.map_filter (\<lambda>k. map_option (Pair k) (map_of (rev kvs) k)) (dedup (map fst kvs))"

definition first_max :: "('a \<Rightarrow> int) \<Rightarrow> 'a list \<Rightarrow> 'a option" where
  "first_max f xs = (case filter (\<lambda>x. list_all (\<lambda>y. f y \<le> f x) xs) xs of [] \<Rightarrow> None | x # _ \<Rightarrow> Some x)"

definition number_text :: "json \<Rightarrow> string" where
  "number_text n = (case n of JInt i \<Rightarrow> str_int i | JStr t \<Rightarrow> t | _ \<Rightarrow> ''None'')"

definition group_prefix :: "json \<Rightarrow> string" where
  "group_prefix n = ''gh-readonly-queue/main/pr-'' @ number_text n @ ''-''"

definition runs_since :: "(json \<Rightarrow> int option) \<Rightarrow> json \<Rightarrow> int \<Rightarrow> json list \<Rightarrow> json list" where
  "runs_since msec n since_ms wruns =
     filter (\<lambda>r. py_prefix (group_prefix n) (text_of (jget ''head_branch'' r)) \<and> since_ms \<le> made_ms msec r) wruns"

definition group_of :: "(json \<Rightarrow> int option) \<Rightarrow> json \<Rightarrow> int \<Rightarrow> json list \<Rightarrow> (string \<times> json list) option" where
  "group_of msec n since_ms wruns =
     (case first_max (made_ms msec) (runs_since msec n since_ms wruns) of
        None \<Rightarrow> None
      | Some r \<Rightarrow>
          (case jget ''head_sha'' r of
             JStr sha \<Rightarrow> if sha = [] then None
               else Some (sha, filter (\<lambda>r. jget ''head_sha'' r = JStr sha) (runs_since msec n since_ms wruns))
           | _ \<Rightarrow> None))"

type_synonym pull_groups = "(json \<times> string \<times> json list) list"

definition merge_groups ::
    "get \<Rightarrow> (json \<Rightarrow> int option) \<Rightarrow> pull \<Rightarrow> (json \<times> json) list \<Rightarrow> (gh_error + pull_groups) option" where
  "merge_groups get msec p entered =
     (case List.map_filter (\<lambda>(n, since). map_option (\<lambda>ms. (n, since, ms)) (msec since)) (py_dict entered) of
        [] \<Rightarrow> Some (Inr [])
      | sinces \<Rightarrow>
          (case first_max (\<lambda>(_, _, ms). - ms) sinces of
             None \<Rightarrow> Some (Inr [])
           | Some (_, since, earliest) \<Rightarrow>
               map_option (\<lambda>read. bindE read (\<lambda>wruns.
                   Inr (List.map_filter (\<lambda>(n, _, ms). map_option (Pair n) (group_of msec n ms wruns)) sinces)))
                 (group_runs get msec p (text_of since) earliest)))"

text \<open>\<^verbatim>\<open>red_merge_group\<close>, and the checks \<^verbatim>\<open>red_group\<close> lays the ejection to.\<close>

definition group_for :: "json \<Rightarrow> pull_groups \<Rightarrow> (string \<times> json list) option" where
  "group_for n gs = map_of gs n"

definition red_merge_group :: "get \<Rightarrow> (json \<Rightarrow> int option) \<Rightarrow> pull \<Rightarrow> json \<Rightarrow> (gh_error + string option) option" where
  "red_merge_group get msec p since =
     map_option (\<lambda>read. bindE read (\<lambda>gs.
         Inr (case group_for (JInt (int (pu_number p))) gs of
                None \<Rightarrow> None
              | Some (sha, wruns) \<Rightarrow>
                  if list_ex (\<lambda>r. text_of (jget ''conclusion'' r) \<in> set GROUP_RED) wruns then Some sha else None)))
       (merge_groups get msec p [(JInt (int (pu_number p)), since)])"

definition red_group ::
    "get \<Rightarrow> (json \<Rightarrow> int option) \<Rightarrow> pull \<Rightarrow> json option \<Rightarrow> (failed_check list \<times> string) option option" where
  "red_group get msec p since =
     (case since of
        None \<Rightarrow> Some None
      | Some since \<Rightarrow>
          Option.bind (red_merge_group get msec p since) (\<lambda>read.
            (case read of
               Inr (Some sha) \<Rightarrow>
                 map_option (\<lambda>checks. (case checks of
                     Inl _ \<Rightarrow> None
                   | Inr wruns \<Rightarrow>
                       if failed_checks wruns = [] \<or> list_ex (\<lambda>c. fc_job c = None) (failed_checks wruns) then None
                       else Some (failed_checks wruns, sha)))
                   (check_runs_of get p sha)
             | _ \<Rightarrow> Some None)))"

subsection \<open>The entries of the queue\<close>

record check_row =
  qk_name :: json
  qk_workflow :: json
  qk_status :: json
  qk_conclusion :: json
  qk_started :: "int option"
  qk_completed :: "int option"
  qk_url :: json
  qk_required :: bool

record queue_entry =
  qe_position :: json
  qe_state :: json
  qe_enqueued :: "int option"
  qe_estimated :: json
  qe_jump :: bool
  qe_solo :: bool
  qe_pr :: "(string \<times> json) list"
  qe_group :: "string option"
  qe_building :: "int option"
  qe_checks :: "check_row list"

definition check_row_of :: "(json \<Rightarrow> int option) \<Rightarrow> (json \<times> json) list \<Rightarrow> string list \<Rightarrow> json \<Rightarrow> check_row" where
  "check_row_of msec workflows required r =
     \<lparr>qk_name = jget ''name'' r,
      qk_workflow = (case map_of workflows (jget ''id'' (jget ''check_suite'' r)) of None \<Rightarrow> JNull | Some w \<Rightarrow> w),
      qk_status = jget ''status'' r, qk_conclusion = jget ''conclusion'' r, qk_started = msec (jget ''started_at'' r),
      qk_completed = msec (jget ''completed_at'' r), qk_url = jget ''html_url'' r,
      qk_required = (jget ''name'' r \<in> JStr ` set required)\<rparr>"

definition least_of :: "int list \<Rightarrow> int option" where
  "least_of xs = (case xs of [] \<Rightarrow> None | x # xs \<Rightarrow> Some (foldl min x xs))"

definition run_start :: "(json \<Rightarrow> int option) \<Rightarrow> json \<Rightarrow> int option" where
  "run_start msec r =
     msec (if truthy (jget ''run_started_at'' r) then jget ''run_started_at'' r else jget ''created_at'' r)"

definition queue_entry_of ::
    "get \<Rightarrow> (json \<Rightarrow> int option) \<Rightarrow> pull \<Rightarrow> string list \<Rightarrow> pull_groups \<Rightarrow> json \<Rightarrow> (gh_error + queue_entry) option" where
  "queue_entry_of get msec p required gs node =
     (let found = group_for (jget ''number'' (jget ''pullRequest'' node)) gs;
          workflow_runs = (case found of None \<Rightarrow> [] | Some (_, wruns) \<Rightarrow> wruns);
          workflows = rev (map (\<lambda>r. (jget ''check_suite_id'' r, jget ''name'' r)) workflow_runs);
          entry = (\<lambda>wruns. \<lparr>qe_position = jget ''position'' node, qe_state = jget ''state'' node,
             qe_enqueued = msec (jget ''enqueuedAt'' node), qe_estimated = jget ''estimatedTimeToMerge'' node,
             qe_jump = truthy (jget ''jump'' node), qe_solo = truthy (jget ''solo'' node),
             qe_pr = pull_row (jget ''pullRequest'' node), qe_group = map_option fst found,
             qe_building = least_of (List.map_filter (run_start msec) workflow_runs),
             qe_checks = map (check_row_of msec workflows required) wruns\<rparr>)
      in case found of
           None \<Rightarrow> Some (Inr (entry []))
         | Some (sha, _) \<Rightarrow>
             map_option (\<lambda>read. bindE read (\<lambda>wruns.
                 (case wruns of None \<Rightarrow> Inl (Infra ''check wruns incomplete'') | Some wruns \<Rightarrow> Inr (entry wruns))))
               (check_runs_of get p sha))"

definition checks_done :: "queue_entry \<Rightarrow> nat \<times> nat \<times> nat" where
  "checks_done q = (length (filter (\<lambda>c. qk_status c = JStr ''completed'') (qe_checks q)), length (qe_checks q),
     length (filter (\<lambda>c. text_of (qk_conclusion c) \<in> set RED_CONCLUSIONS) (qe_checks q)))"

fun entries_of ::
    "get \<Rightarrow> (json \<Rightarrow> int option) \<Rightarrow> pull \<Rightarrow> string list \<Rightarrow> pull_groups \<Rightarrow> json list \<Rightarrow> (gh_error + queue_entry list) option" where
  "entries_of get msec p required gs [] = Some (Inr [])"
| "entries_of get msec p required gs (node # nodes) =
     (case queue_entry_of get msec p required gs node of
        None \<Rightarrow> None
      | Some (Inl e) \<Rightarrow> Some (Inl e)
      | Some (Inr q) \<Rightarrow> map_option (\<lambda>r. bindE r (\<lambda>qs. Inr (q # qs))) (entries_of get msec p required gs nodes))"

definition position_of :: "json \<Rightarrow> int" where
  "position_of node = (case jget ''position'' node of JInt i \<Rightarrow> i | _ \<Rightarrow> 0)"

definition queue_entries ::
    "get \<Rightarrow> (json \<Rightarrow> int option) \<Rightarrow> pull \<Rightarrow> json list \<Rightarrow> (gh_error + queue_entry list) option" where
  "queue_entries get msec p nodes =
     (let nodes = sort_key position_of nodes;
          building = map (\<lambda>node. (jget ''number'' (jget ''pullRequest'' node), jget ''enqueuedAt'' node))
            (filter (\<lambda>node. jget ''state'' node \<noteq> JStr ''QUEUED'') nodes)
      in Option.bind (merge_groups get msec p building) (\<lambda>read.
           (case read of
              Inl e \<Rightarrow> Some (Inl e)
            | Inr gs \<Rightarrow>
                (case (if gs = [] then Inr [] else bindE (main_rules get p) (\<lambda>rules.
                         Inr (case required_contexts rules of None \<Rightarrow> [] | Some cs \<Rightarrow> cs))) of
                   Inl e \<Rightarrow> Some (Inl e) | Inr required \<Rightarrow> entries_of get msec p required gs nodes))))"

subsection \<open>Reading the queue\<close>

definition last_page :: "json \<Rightarrow> bool" where
  "last_page page \<longleftrightarrow> \<not> truthy (jget ''hasNextPage'' (jget ''pageInfo'' page))"

definition cursor_of :: "json \<Rightarrow> json" where "cursor_of page = jget ''endCursor'' (jget ''pageInfo'' page)"

partial_function (option) all_entries :: "(json \<Rightarrow> gh_error + json) \<Rightarrow> json list \<Rightarrow> json \<Rightarrow> (gh_error + json list) option" where
  [code]: "all_entries ask nodes page =
     (if last_page page then Some (Inr (nodes @ nodes_of page))
      else case ask (cursor_of page) of
        Inl e \<Rightarrow> Some (Inl e) | Inr page' \<Rightarrow> all_entries ask (nodes @ nodes_of page) page')"

definition oldest_of :: "(json \<Rightarrow> int option) \<Rightarrow> json \<Rightarrow> int option" where
  "oldest_of msec page = (if nodes_of page = [] then None else msec (jget ''updatedAt'' (last (nodes_of page))))"

partial_function (option) recent_pulls ::
    "(json \<Rightarrow> gh_error + json) \<Rightarrow> (json \<Rightarrow> int option) \<Rightarrow> int \<Rightarrow> json list \<Rightarrow> json \<Rightarrow> (gh_error + json list) option" where
  [code]: "recent_pulls ask msec since_ms pulls page =
     (if last_page page \<or> (case oldest_of msec page of None \<Rightarrow> True | Some ms \<Rightarrow> ms < since_ms)
      then Some (Inr (pulls @ nodes_of page))
      else case ask (cursor_of page) of
        Inl e \<Rightarrow> Some (Inl e) | Inr page' \<Rightarrow> recent_pulls ask msec since_ms (pulls @ nodes_of page) page')"

definition CONFIGURATION :: "(string \<times> string) list" where
  "CONFIGURATION = [(''mergeMethod'', ''merge_method''), (''mergingStrategy'', ''merging_strategy''),
     (''maximumEntriesToBuild'', ''maximum_entries_to_build''), (''minimumEntriesToMerge'', ''minimum_entries_to_merge''),
     (''checkResponseTimeout'', ''check_response_timeout'')]"

type_synonym left_pull = "(string \<times> json) list \<times> int \<times> string \<times> json"

record queue_reading =
  qd_configuration :: "(string \<times> json) list option"
  qd_entries :: "queue_entry list"
  qd_left :: "left_pull list"

text \<open>\<^verbatim>\<open>queue_read\<close>, from GitHub's answer on the repository.\<close>

definition queue_read ::
    "get \<Rightarrow> (json \<Rightarrow> gh_error + json) \<Rightarrow> (json \<Rightarrow> gh_error + json) \<Rightarrow> (json \<Rightarrow> int option) \<Rightarrow> pull \<Rightarrow> int \<Rightarrow> json \<Rightarrow>
      (gh_error + queue_reading) option" where
  "queue_read get ask_pulls ask_entries msec p now repository =
     (let q = jget ''mergeQueue'' repository
      in if \<not> is_obj q then Some (Inr \<lparr>qd_configuration = None, qd_entries = [], qd_left = []\<rparr>)
         else Option.bind (recent_pulls ask_pulls msec (now - LEFT_WINDOW_MS) [] (jget ''pullRequests'' repository)) (\<lambda>pulls.
           (case pulls of
              Inl e \<Rightarrow> Some (Inl e)
            | Inr pulls \<Rightarrow>
                Option.bind (all_entries ask_entries [] (jget ''entries'' q)) (\<lambda>nodes.
                  (case nodes of
                     Inl e \<Rightarrow> Some (Inl e)
                   | Inr nodes \<Rightarrow>
                       map_option (\<lambda>read. bindE read (\<lambda>entries.
                           Inr \<lparr>qd_configuration = Some (map (\<lambda>(field, key). (key, jget field (jget ''configuration'' q))) CONFIGURATION),
                                qd_entries = entries,
                                qd_left = sort_key (\<lambda>(_, ms, _). - ms)
                                  (List.map_filter (\<lambda>node. left_row msec node now) pulls)\<rparr>))
                         (queue_entries get msec p nodes))))))"

subsection \<open>What the reads promise\<close>

lemma group_runs_from_ends:
  assumes "\<And>page. ends \<le> page \<Longrightarrow> case get (base @ ''&page='' @ str_nat page) of
      Inl _ \<Rightarrow> True | Inr answer \<Rightarrow> (case jget ''workflow_runs'' answer of JList batch \<Rightarrow> length batch < RUNS_PAGE | _ \<Rightarrow> True)"
  shows "group_runs_from get msec base since_ms wruns page \<noteq> None"
proof (induction "ends - page" arbitrary: wruns page)
  case 0
  then have "ends \<le> page" by simp
  with assms [of page] show ?case
    by (subst group_runs_from.simps) (auto split: sum.split json.split)
next
  case (Suc n)
  then have "n = ends - Suc page" by simp
  from Suc.hyps(1) [OF this] show ?case
    by (subst group_runs_from.simps) (auto split: sum.split json.split)
qed

lemma first_max_mem: "first_max f xs = Some x \<Longrightarrow> x \<in> set xs \<and> (\<forall>y \<in> set xs. f y \<le> f x)"
  by (auto simp: first_max_def list_all_iff split: list.split_asm dest: filter_eq_ConsD)

lemma group_of_own:
  assumes "group_of msec n since_ms wruns = Some (sha, own)" and "r \<in> set own"
  shows "r \<in> set wruns \<and> py_prefix (group_prefix n) (text_of (jget ''head_branch'' r)) \<and> since_ms \<le> made_ms msec r
    \<and> jget ''head_sha'' r = JStr sha"
  using assms by (auto simp: group_of_def runs_since_def split: option.split_asm json.split_asm if_split_asm)

lemma group_of_some:
  assumes "group_of msec n since_ms wruns = Some (sha, own)"
  shows "own \<noteq> []"
proof -
  obtain r where "first_max (made_ms msec) (runs_since msec n since_ms wruns) = Some r" "jget ''head_sha'' r = JStr sha"
    "own = filter (\<lambda>r. jget ''head_sha'' r = JStr sha) (runs_since msec n since_ms wruns)"
    using assms by (auto simp: group_of_def split: option.split_asm json.split_asm if_split_asm)
  with first_max_mem show ?thesis by (fastforce simp: filter_empty_conv)
qed

end
