(* ===== verification/CriterionIds.thy ===== *)
theory CriterionIds
  imports Steers TicketParse
begin

section \<open>CriterionIds: the numbers a review round judges criteria by\<close>

text \<open>
  \<^verbatim>\<open>holophyte/review/criterion_ids.py\<close>: a run's criteria, with the numbers the ticket's history
  holds for their texts, as its adopted revision and its amendments left them. A list of criteria
  that already has numbers is \<open>Numbered\<close>. The lemmas: numbering changes no text, keeps the numbers
  held, and gives no number twice; a retired criterion is not judged and an amended one is judged
  by its new text.
\<close>

datatype criteria_list = Filed "string list" | Numbered "(nat \<times> string) list"

subsection \<open>Numbering filed texts\<close>

fun number_loop :: "nat \<Rightarrow> (nat option \<times> string) list \<Rightarrow> nat set \<Rightarrow> nat \<Rightarrow> (nat \<times> string) list" where
  "number_loop position [] taken highest = []"
| "number_loop position ((assigned, txt) # rest) taken highest =
     (let n = (case assigned of
          Some n \<Rightarrow> n | None \<Rightarrow> if position \<notin> taken then position else highest + 1)
      in (n, txt) # number_loop (Suc position) rest (insert n taken) (max highest n))"

definition assigned_numbers :: "(string \<times> nat) list \<Rightarrow> string list \<Rightarrow> (nat option \<times> string) list" where
  "assigned_numbers held filed =
     map (\<lambda>c. (case fst (split_id c) of Some n \<Rightarrow> Some n | None \<Rightarrow> map_of held (snd (split_id c)), snd (split_id c)))
       filed"

definition with_numbers :: "(string \<times> nat) list \<Rightarrow> string list \<Rightarrow> (nat \<times> string) list" where
  "with_numbers held filed =
     (if held = [] then zip [1..<Suc (length filed)] (map (snd \<circ> split_id) filed)
      else let assigned = assigned_numbers held filed;
               taken = map snd held @ List.map_filter fst assigned
           in number_loop 1 assigned (set taken) (foldr max taken 0))"

definition number_filed :: "(string \<times> nat) list \<Rightarrow> criteria_list \<Rightarrow> (nat \<times> string) list" where
  "number_filed held filed = (case filed of Filed texts \<Rightarrow> with_numbers held texts | Numbered pairs \<Rightarrow> pairs)"

subsection \<open>A run's criteria\<close>

text \<open>The criteria of \<^verbatim>\<open>parse_body("", body)\<close>.\<close>

definition body_criteria :: "(string \<Rightarrow> (string \<times> toml) list option) \<Rightarrow> string \<Rightarrow> string list" where
  "body_criteria loads body =
     (let t = parse loads body in tk_acceptance t @ tk_acceptance_done t @ tk_acceptance_other t)"

definition adopted_body :: "nat \<Rightarrow> store \<Rightarrow> string option" where
  "adopted_body rid s = Option.bind (run_of rid s) (\<lambda>r. body_at r (adopted_revision rid s) s)"

definition adopted_criteria :: "(string \<Rightarrow> (string \<times> toml) list option) \<Rightarrow> nat \<Rightarrow> store \<Rightarrow> string list option" where
  "adopted_criteria loads rid s = map_option (body_criteria loads) (adopted_body rid s)"

definition claimed_body :: "nat \<Rightarrow> store \<Rightarrow> string option" where
  "claimed_body rid s = Option.bind (run_of rid s) (\<lambda>r. body_at r (r_revision r) s)"

definition steer_edits :: "nat \<Rightarrow> store \<Rightarrow> criterion_row list" where
  "steer_edits tid s = filter (\<lambda>c. c_steer c \<noteq> None) (current_criteria tid s)"

definition amended_pairs :: "criterion_row list \<Rightarrow> (nat \<times> string) list \<Rightarrow> (nat \<times> string) list" where
  "amended_pairs edits pairs =
     List.map_filter (\<lambda>(n, txt).
        case fetch c_criterion n edits of
          None \<Rightarrow> Some (n, txt)
        | Some row \<Rightarrow> if c_status row = CS_RETIRED then None else Some (n, c_text row)) pairs
     @ map (\<lambda>row. (c_criterion row, c_text row))
         (filter (\<lambda>row. c_criterion row \<notin> fst ` set pairs \<and> c_status row \<noteq> CS_RETIRED) edits)"

text \<open>\<^verbatim>\<open>numbered\<close>; the run is \<open>None\<close> without a store, a run unknown to it, or no run.\<close>

definition judged_list ::
    "(string \<Rightarrow> (string \<times> toml) list option) \<Rightarrow> nat option \<Rightarrow> criteria_list \<Rightarrow> store \<Rightarrow> (nat \<times> string) list" where
  "judged_list loads rid filed s =
     (case Option.bind rid (\<lambda>rid. run_of rid s) of
        None \<Rightarrow> number_filed [] filed
      | Some r \<Rightarrow>
          (let revised = (case adopted_criteria loads (r_id r) s of None \<Rightarrow> filed | Some texts \<Rightarrow> Filed texts)
           in amended_pairs (steer_edits (r_ticket r) s) (number_filed (criterion_numbers (r_ticket r) s) revised)))"

subsection \<open>Numbering changes no text and gives no number twice\<close>

lemma number_loop_texts: "map snd (number_loop position as taken highest) = map snd as"
  by (induction position as taken highest rule: number_loop.induct) (simp_all add: Let_def)

lemma number_loop_assigned:
  "i < length as \<Longrightarrow> fst (as ! i) = Some n \<Longrightarrow>
    number_loop position as taken highest ! i = (n, snd (as ! i))"
proof (induction position as taken highest arbitrary: i rule: number_loop.induct)
  case (2 position a t rest taken highest)
  then show ?case by (cases i) (auto simp: Let_def)
qed simp

lemma length_number_loop [simp]: "length (number_loop position as taken highest) = length as"
  by (metis length_map number_loop_texts)

text \<open>A number is either as or one that nothing had taken.\<close>

lemma number_loop_fresh:
  assumes "\<forall>n \<in> taken. n \<le> highest" and "m \<in> fst ` set (number_loop position as taken highest)"
    and "m \<in> taken"
  shows "Some m \<in> fst ` set as"
  using assms
proof (induction position as taken highest rule: number_loop.induct)
  case (2 position a t rest taken highest)
  let ?n = "case a of Some n \<Rightarrow> n | None \<Rightarrow> if position \<notin> taken then position else highest + 1"
  have "\<forall>n \<in> insert ?n taken. n \<le> max highest ?n" using "2.prems"(1) by (auto simp: le_max_iff_disj)
  moreover have "?n = m \<Longrightarrow> a = Some m"
    using "2.prems"(1,3) by (auto split: option.splits if_splits)
  ultimately show ?case
    using "2.IH" [OF refl] "2.prems"(2,3) by (auto simp: Let_def)
qed simp

lemma number_loop_distinct:
  assumes "\<forall>n \<in> taken. n \<le> highest" and "\<forall>n. Some n \<in> fst ` set as \<longrightarrow> n \<in> taken"
    and "distinct (List.map_filter fst as)"
  shows "distinct (map fst (number_loop position as taken highest))"
  using assms
proof (induction position as taken highest rule: number_loop.induct)
  case (2 position a t rest taken highest)
  let ?n = "case a of Some n \<Rightarrow> n | None \<Rightarrow> if position \<notin> taken then position else highest + 1"
  have bound: "\<forall>n \<in> insert ?n taken. n \<le> max highest ?n" using "2.prems"(1) by (auto simp: le_max_iff_disj)
  have "distinct (map fst (number_loop (Suc position) rest (insert ?n taken) (max highest ?n)))"
    using "2.IH" [OF refl bound] "2.prems" by (auto simp: map_filter_simps split: option.splits)
  moreover have "?n \<notin> fst ` set (number_loop (Suc position) rest (insert ?n taken) (max highest ?n))"
  proof
    assume "?n \<in> fst ` set (number_loop (Suc position) rest (insert ?n taken) (max highest ?n))"
    from number_loop_fresh [OF bound this] have later: "Some ?n \<in> fst ` set rest" by simp
    show False
    proof (cases a)
      case None
      with later "2.prems"(2) have "?n \<in> taken" by auto
      with None "2.prems"(1) show False by (auto split: if_split_asm)
    next
      case (Some n)
      with later "2.prems"(3) show False by (auto simp: map_filter_simps set_map_filter)
    qed
  qed
  ultimately show ?case by (auto simp: Let_def)
qed simp

lemma foldr_max_ge: "n \<in> set ns \<Longrightarrow> n \<le> foldr max ns (0 :: nat)"
  by (induction ns) auto

lemma with_numbers_texts: "map snd (with_numbers held filed) = map (snd \<circ> split_id) filed"
  by (simp add: with_numbers_def number_loop_texts assigned_numbers_def Let_def del: upt_Suc)

lemma with_numbers_held:
  assumes "held \<noteq> []" and "i < length filed"
    and "(case fst (split_id (filed ! i)) of Some n \<Rightarrow> Some n | None \<Rightarrow> map_of held (snd (split_id (filed ! i)))) = Some n"
  shows "with_numbers held filed ! i = (n, snd (split_id (filed ! i)))"
  using assms number_loop_assigned [of i "assigned_numbers held filed" n]
  by (simp add: with_numbers_def Let_def assigned_numbers_def)

lemma with_numbers_distinct:
  assumes "distinct (List.map_filter fst (assigned_numbers held filed))"
  shows "distinct (map fst (with_numbers held filed))"
proof (cases "held = []")
  case True
  then show ?thesis by (simp add: with_numbers_def)
next
  case False
  let ?taken = "map snd held @ List.map_filter fst (assigned_numbers held filed)"
  have "\<forall>n \<in> set ?taken. n \<le> foldr max ?taken 0" using foldr_max_ge by blast
  moreover have "\<forall>n. Some n \<in> fst ` set (assigned_numbers held filed) \<longrightarrow> n \<in> set ?taken"
    by (force simp: set_map_filter)
  ultimately show ?thesis
    using False number_loop_distinct [OF _ _ assms, of "set ?taken" "foldr max ?taken 0"]
    by (simp add: with_numbers_def Let_def)
qed

subsection \<open>Amendments\<close>

lemma amended_pairs_mem:
  "(n, t) \<in> set (amended_pairs edits pairs) \<longleftrightarrow>
     (case fetch c_criterion n edits of
        None \<Rightarrow> (n, t) \<in> set pairs
      | Some row \<Rightarrow> n \<in> fst ` set pairs \<and> c_status row \<noteq> CS_RETIRED \<and> t = c_text row)
     \<or> n \<notin> fst ` set pairs \<and> (\<exists>row \<in> set edits. c_criterion row = n \<and> c_status row \<noteq> CS_RETIRED \<and> t = c_text row)"
proof -
  have kept: "(n, t) \<in> set (List.map_filter (\<lambda>(n, u). case fetch c_criterion n edits of
            None \<Rightarrow> Some (n, u) | Some row \<Rightarrow> if c_status row = CS_RETIRED then None else Some (n, c_text row)) pairs)
      \<longleftrightarrow> (case fetch c_criterion n edits of
          None \<Rightarrow> (n, t) \<in> set pairs
        | Some row \<Rightarrow> n \<in> fst ` set pairs \<and> c_status row \<noteq> CS_RETIRED \<and> t = c_text row)"
    by (induction pairs) (auto simp: map_filter_simps split: option.splits if_splits)
  show ?thesis
    unfolding amended_pairs_def set_append Un_iff kept by auto
qed

lemma amended_pairs_edit:
  assumes "keyed c_criterion edits" and "row \<in> set edits"
  shows "(c_criterion row, t) \<in> set (amended_pairs edits pairs)
    \<longleftrightarrow> c_status row \<noteq> CS_RETIRED \<and> t = c_text row"
proof -
  have "fetch c_criterion (c_criterion row) edits = Some row" by (rule fetch_member [OF assms])
  moreover have "q = row" if "q \<in> set edits" "c_criterion q = c_criterion row" for q
    using fetch_member [OF assms(1) that(1)] calculation that(2) by (metis option.inject)
  ultimately show ?thesis
    using assms(2) by (auto simp: amended_pairs_mem)
qed

lemma amended_pairs_other:
  assumes "n \<notin> c_criterion ` set edits"
  shows "(n, t) \<in> set (amended_pairs edits pairs) \<longleftrightarrow> (n, t) \<in> set pairs"
proof -
  have "fetch c_criterion n edits = None" using assms by (simp add: fetch_None_iff)
  then show ?thesis using assms by (auto simp: amended_pairs_mem)
qed

lemma first_per_keyed: "keyed key (first_per key rows)"
proof (induction key rows rule: first_per.induct)
  case (2 key r rows)
  have "set (first_per key xs) \<subseteq> set xs" for xs
    by (induction key xs rule: first_per.induct) auto
  then have "key r \<notin> key ` set (first_per key (filter (\<lambda>q. key q \<noteq> key r) rows))" by fastforce
  with 2 show ?case by (simp add: keyed_def)
qed (simp add: keyed_def)

lemma keyed_sort: "keyed key (sort_key f rows) \<longleftrightarrow> keyed key rows"
  by (metis (no_types, lifting) keyed_def distinct_map distinct_sort set_sort)

lemma steer_edits_keyed: "keyed c_criterion (steer_edits tid s)"
proof -
  have "keyed c_criterion (current_criteria tid s)"
    by (simp add: current_criteria_def Let_def keyed_sort first_per_keyed)
  then show ?thesis by (simp add: steer_edits_def keyed_def distinct_map_filter)
qed

text \<open>An amended criterion is judged by its new text, a retired one not at all.\<close>

lemma judged_list_amended:
  assumes "run_of rid s = Some r" and "row \<in> set (current_criteria (r_ticket r) s)" and "c_steer row \<noteq> None"
  shows "(c_criterion row, t) \<in> set (judged_list loads (Some rid) filed s)
    \<longleftrightarrow> c_status row \<noteq> CS_RETIRED \<and> t = c_text row"
proof -
  have "row \<in> set (steer_edits (r_ticket r) s)" using assms(2,3) by (simp add: steer_edits_def)
  with amended_pairs_edit [OF steer_edits_keyed this] assms(1) show ?thesis
    by (simp add: judged_list_def Let_def)
qed

end
