(* ===== verification/DemoLoop.thy ===== *)
theory DemoLoop
  imports Rounds CriterionIds Demo
begin

section \<open>DemoLoop: a run with one criterion\<close>

text \<open>
  A reply that meets the one criterion by naming a test, the worktree that holds the test, the round
  that asks for it, and a criterion an operator's note amended: what the properties about reviews
  and the loop are instantiated on.
\<close>

definition demo_reply :: string where
  "demo_reply = ''CRITERION 1: met - t.py::test_a'' @ [NL] @ ''VERDICT: APPROVE''"

definition demo_pass :: string where
  "demo_pass = ''CRITERION 1: met - t.py::test_a'' @ [NL] @ ''VERDICT: PASS''"

definition demo_signs :: signs where
  "demo_signs = \<lparr>sg_ellipsis = ''..'', sg_dash = ''-'', sg_sha256 = (\<lambda>_. [])\<rparr>"

definition demo_tree :: worktree where
  "demo_tree = \<lparr>wt_inside = (\<lambda>p. if p = ''t.py'' then Some p else None),
     wt_read = (\<lambda>_. Some (''def test_a(self):'' @ [NL])), wt_import = (\<lambda>_. Unresolved),
     wt_classes = (\<lambda>_ _. []), wt_changed = [], wt_unchanged = (\<lambda>_ _ _. False)\<rparr>"

definition demo_green :: verification where
  "demo_green = unverified\<lparr>vf_ok := True\<rparr>"

definition demo_facts :: round_facts where
  "demo_facts = \<lparr>rq_answer = (\<lambda>n. if n = 0 then [] else demo_reply), rq_stop = (\<lambda>_. False), rq_tree = demo_tree, rq_resolve = (\<lambda>_. []),
     rq_pairs = [(1, ''c'')], rq_scope = [], rq_attack = NotAsked, rq_leaks = []\<rparr>"

definition demo_round :: round_input where
  "demo_round = \<lparr>ri_steer = (\<lambda>_. NoSteer), ri_cmd = ''make'', ri_stop = (\<lambda>_. False), ri_conflicts = [],
     ri_verify = (\<lambda>sha _. Inr (sha, demo_green)), ri_review = (\<lambda>_. demo_facts), ri_pending = False,
     ri_steer_after = (\<lambda>_. NoSteer), ri_cap = False,
     ri_fix = (\<lambda>sha. \<lparr>fx_cap = False, fx_contradicted = False, fx_head = sha, fx_spec_moved = False,
       fx_timed_out = False, fx_no_tokens = False\<rparr>)\<rparr>"

definition demo_adj :: adj_input where
  "demo_adj = \<lparr>aj_cmd = ''make'', aj_pairs = [(1, ''c'')], aj_left = [1], aj_tree = (\<lambda>_. demo_tree),
     aj_stop = (\<lambda>_. False), aj_verify = (\<lambda>_ _. demo_green), aj_answer = (\<lambda>_. Answered demo_pass)\<rparr>"

definition demo_closings :: "closing list" where
  "demo_closings = map (\<lambda>b. \<lparr>cl_closes = b, cl_steer = (\<lambda>_. NoSteer), cl_adj = demo_adj\<rparr>) [False, True]"

definition demo_edit :: criterion_row where
  "demo_edit = \<lparr>c_id = 1, c_ticket = 1, c_criterion = 1, c_position = Some 1, c_text = ''new'', c_kind = CW_TEST,
     c_target = None, c_status = CS_OPEN, c_source = [], c_steer = Some 1, c_at = 0\<rparr>"

definition demo_amended :: store where
  "demo_amended = demo2\<lparr>criteria := [demo_edit]\<rparr>"

lemma demo_judged: "criteria_findings demo_signs (Some demo_tree) None demo_reply [(1, ''c'')] [] = []"
  by code_simp

end
