(* ===== verification/DemoSit.thy ===== *)
theory DemoSit
  imports Babysit DemoLoop
begin

section \<open>DemoSit: a babysat pull request\<close>

text \<open>
  The settings, states, reviews and turns the properties about babysitting are instantiated on: main is
  merged into the released candidate \<^verbatim>\<open>c1\<close>, which leaves \<^verbatim>\<open>c2\<close>; its review asks for changes, and an
  automatic fix leaves \<^verbatim>\<open>c3\<close>, which is approved.
\<close>

definition sit_cfg :: merge_cfg where
  "sit_cfg = \<lparr>mc_auto = False, mc_review_fixes = True, mc_draft = DraftOff, mc_rounds = 5, mc_refreshes = 3, mc_quiet_ms = 0,
     mc_missing_s = 600, mc_check_wait_s = 600, mc_retrigger = False, mc_check_fixes = 1, mc_covering_fixes = 1,
     mc_overlap = 1, mc_up_to_date = False, mc_queue_label = False, mc_act = True, mc_advisory = False,
     mc_handle = ''holo'', mc_accounts = [], mc_bot_authors = [], mc_bot_logins = []\<rparr>"

definition sit_state :: "string \<Rightarrow> bool \<Rightarrow> pr_state" where
  "sit_state head conflict = \<lparr>ps_threads = [], ps_checks = Success, ps_head = Some head, ps_merged = False, ps_merge_sha = None,
     ps_closed = False, ps_closed_by = None, ps_mergeable = (if conflict then ''CONFLICTING'' else ''MERGEABLE''),
     ps_updated = None, ps_review = None, ps_pending = [], ps_failed = [], ps_optional = [], ps_missing = [],
     ps_awaiting = [], ps_draft = False, ps_node = []\<rparr>"

definition sit_look :: "pr_state \<Rightarrow> settle_look" where
  "sit_look st = \<lparr>sl_read = st, sl_pending = (\<lambda>st. st), sl_route = Inr, sl_now = 0, sl_mono = 0, sl_later = 0, sl_stop = False,
     sl_retrigger = \<lparr>rt_already = False, rt_stop = False, rt_new = None, rt_reads = [], rt_remote = ([], False)\<rparr>\<rparr>"

definition sit_facts :: "string \<Rightarrow> covering_facts" where
  "sit_facts reply = \<lparr>cv_answer = (\<lambda>_. reply), cv_stops = (\<lambda>_. False), cv_stop = False, cv_tree = demo_tree,
     cv_pairs = [], cv_scope = []\<rparr>"

definition sit_review :: "string \<Rightarrow> review_turn" where
  "sit_review reply = \<lparr>vt_verify = (\<lambda>_. True), vt_stop = False, vt_capture = Inr, vt_answers = (\<lambda>_. sit_facts reply),
     vt_rewrites = False, vt_record = \<lparr>cr_spent = False, cr_made = 0, cr_rounds = [], cr_round = 1, cr_findings = []\<rparr>,
     vt_fix = (\<lambda>_. Inr ''c3'')\<rparr>"

definition sit_merge :: merge_input where
  "sit_merge = \<lparr>me_gate = (\<lambda>_. None), me_begun = True, me_capture = (\<lambda>_. []), me_behind = (\<lambda>_. None), me_held = (\<lambda>_. None),
     me_landed = (\<lambda>_. Landed ''m'')\<rparr>"

definition sit_turn :: "pr_state \<Rightarrow> review_turn list \<Rightarrow> pass_input" where
  "sit_turn st reviews = \<lparr>pi_stop = False, pi_stop_settled = False, pi_deadline = 1, pi_looks = [sit_look st], pi_remote = ([], True),
     pi_answered = (\<lambda>st. Inr (ps_threads st)), pi_triaged = (\<lambda>_. Inr None),
     pi_main = (\<lambda>_ _. Inr \<lparr>mm_sha = ''c2'', mm_reads = [sit_state ''c2'' False], mm_remote = ([], True), mm_same = False\<rparr>),
     pi_open = (\<lambda>_. []),
     pi_thread = \<lparr>ti_reply = [], ti_failed = None, ti_stop = False, ti_stop_at = None, ti_fix = (\<lambda>_. Inr)\<rparr>,
     pi_reads = (\<lambda>head. [sit_state head False]),
     pi_checks = \<lparr>ck_stop = False, ck_refused = False, ck_deadline = 0, ck_looks = [], ck_log = (\<lambda>_. None), ck_fix = (\<lambda>sha _. Inr sha),
       ck_reads = (\<lambda>_. []), ck_remote = ([], True)\<rparr>,
     pi_review = reviews, pi_meanwhile = st, pi_marked_before = False, pi_full = Inr None,
     pi_merges = [(sit_merge, \<lambda>_ _. QueueAgain)]\<rparr>"

definition sit_turns :: "review_turn list \<Rightarrow> pass_input list" where
  "sit_turns reviews =
     [sit_turn (sit_state ''c1'' True) [], sit_turn (sit_state ''c2'' False) reviews, sit_turn (sit_state ''c3'' False) []]"

definition sit_rejects :: review_turn where
  "sit_rejects = sit_review (''a.py:3: the limit is off by one'' @ [NL] @ ''VERDICT: REQUEST_CHANGES'')"

definition sit_approves :: review_turn where
  "sit_approves = sit_review ''VERDICT: APPROVE''"

definition sit_signs :: log_signs where
  "sit_signs = \<lparr>lg_bom = [], lg_chevron = ''>'', lg_bar = ''-''\<rparr>"

definition sit_babysit :: "review_turn list \<Rightarrow> pass_out" where
  "sit_babysit reviews =
     babysit_pull demo_signs sit_signs sit_cfg ''c1'' True (Some ''c1'') None False None (sit_turns reviews)"


lemma sit_approved: "sit_babysit [sit_approves] = PassEnds (ParkedAt ''c2'' (Some ''c2'') PK_PULL_REQUEST (ReadyForHuman (Some ''c1'')))"
  by code_simp

lemma sit_fixed: "sit_babysit [sit_rejects, sit_approves] = MergedBy ''c3'' ''m''"
  by code_simp

lemma sit_released: "babysit_pull demo_signs sit_signs sit_cfg ''c1'' True (Some ''c1'') None False None
    [sit_turn (sit_state ''c1'' False) []] = MergedBy ''c1'' ''m''"
  by code_simp

lemma sit_not_carried: "\<not> carried (sit_turns reviews) (Some ''c1'') ''c3''"
proof -
  have "c = ''c1''" if "carried (sit_turns reviews) (Some ''c1'') c" for c
    using that by (induction rule: carried.induct) (auto simp: sit_turns_def sit_turn_def sit_look_def)
  then show ?thesis by auto
qed

text \<open>A red check whose rerun GitHub refuses, handed to a fix turn.\<close>

definition sit_red :: pr_state where
  "sit_red = (sit_state ''c1'' False)\<lparr>ps_checks := Failure,
     ps_failed := [\<lparr>fc_name = ''ci'', fc_conclusion = ''failure'', fc_url = [], fc_job = Some 1, fc_run = Some 1\<rparr>]\<rparr>"

definition sit_check :: "pass_stop + string \<times> pr_state \<times> check_fix" where
  "sit_check = fix_checks_or_park sit_signs sit_cfg
     \<lparr>ck_stop = False, ck_refused = True, ck_deadline = 1, ck_looks = [], ck_log = (\<lambda>_. Some ''error: off by one''),
       ck_fix = (\<lambda>_ _. Inr ''c2''), ck_reads = (\<lambda>head. [sit_state head False]), ck_remote = ([], True)\<rparr>
     (''c1'', None) None sit_red new_check_fix"

lemma sit_check_on: "\<exists>st cf. sit_check = Inr (''c2'', st, cf)"
proof -
  have "case sit_check of Inl _ \<Rightarrow> False | Inr (sha, _) \<Rightarrow> sha = ''c2''" by code_simp
  then show ?thesis by (auto split: sum.split_asm prod.split_asm)
qed

text \<open>A bot's thread the adjudicator declines.\<close>

definition sit_thread :: pr_thread where
  "sit_thread = \<lparr>th_id = ''T1'', th_path = ''a.py'', th_line = Some 3, th_author = ''lint[bot]'', th_body = ''rename'', th_url = [],
     th_replies = [], th_author_kind = ''bot'', th_kind = ''review_thread'', th_class = [], th_request = [], th_intent = [],
     th_triage = None\<rparr>"

definition sit_answers :: thread_input where
  "sit_answers = \<lparr>ti_reply = ''THREAD 1: DECLINE: by design'', ti_failed = None, ti_stop = False, ti_stop_at = None,
     ti_fix = (\<lambda>_. Inr)\<rparr>"

lemma sit_declined:
  "answer_threads sit_cfg sit_answers ''c1'' None [sit_thread] = ([DeclineReply sit_thread ''by design'' True], Inr ''c1'')"
  by code_simp

end
