(* ===== verification/DemoVerify.thy ===== *)
theory DemoVerify
  imports MergeLock VerifyRun QueueReads DemoSit
begin

section \<open>DemoVerify: a lock taken, commands verified, an ejection queued again\<close>

text \<open>
  The inputs the properties about the verify gate, the merge lock and the merge queue are instantiated on:
  process 1 takes the lock; a command of two clauses prints \<^verbatim>\<open>ok\<close> and exits 0, with the tree clean; of the
  project's two commands the second fails; and a pull request ejected by a cancelled check is queued again.
\<close>

subsection \<open>The lock\<close>

definition lock_asked :: lock_world where
  "lock_asked = at_place 1 (Asking ''7 1.000'') (lock_start\<lparr>lk_arbiter := Some 1\<rparr>)"
definition lock_made :: lock_world where
  "lock_made = at_place 1 (Made ''7 1.000'' 0) (lock_asked\<lparr>lk_path := Some 0, lk_text := (lk_text lock_asked)(0 := []), lk_next := 1\<rparr>)"
definition lock_flocked :: lock_world where
  "lock_flocked = at_place 1 (Flocked ''7 1.000'' 0) (lock_made\<lparr>lk_flock := (lk_flock lock_made)(0 := Some 1)\<rparr>)"
definition lock_taken :: lock_world where
  "lock_taken = at_place 1 (Inside ''7 1.000'' 0)
     (leave_arbiter (lock_flocked\<lparr>lk_text := (lk_text lock_flocked)(0 := ''7 1.000'')\<rparr>))"

text \<open>Process 1 dies holding it; process 2 sweeps.\<close>

definition lock_orphan :: lock_world where "lock_orphan = died 1 lock_taken"
definition lock_sweeping :: lock_world where
  "lock_sweeping = at_place 2 Sweeping (lock_orphan\<lparr>lk_arbiter := Some 2\<rparr>)"
definition lock_opened :: lock_world where "lock_opened = at_place 2 (Opened 0) lock_sweeping"
definition lock_seized :: lock_world where
  "lock_seized = at_place 2 (Seized 0) (lock_opened\<lparr>lk_flock := (lk_flock lock_opened)(0 := Some 2)\<rparr>)"
definition lock_removed :: lock_world where "lock_removed = at_place 2 (Swept 0) (lock_seized\<lparr>lk_path := None\<rparr>)"

lemmas lock_demo_defs = lock_start_def lock_asked_def lock_made_def lock_flocked_def lock_taken_def lock_orphan_def
  lock_sweeping_def lock_opened_def lock_seized_def lock_removed_def lock_effects

lemma lock_asked_step: "lock_step lock_start lock_asked"
  unfolding lock_asked_def by (rule lock_step.ask) (simp_all add: lock_start_def)

lemma lock_made_step: "lock_step lock_asked lock_made"
proof -
  have "lk_next lock_asked = 0" by (simp add: lock_demo_defs)
  then show ?thesis
    using lock_step.make [of lock_asked 1 "''7 1.000''"] by (simp add: lock_demo_defs)
qed

lemma lock_flocked_step: "lock_step lock_made lock_flocked"
  unfolding lock_flocked_def by (rule lock_step.flock) (simp_all add: lock_demo_defs)

lemma lock_taken_step: "lock_step lock_flocked lock_taken"
  unfolding lock_taken_def by (rule lock_step.wrote) (simp add: lock_demo_defs)

lemma lock_orphan_step: "lock_step lock_taken lock_orphan"
  unfolding lock_orphan_def by (rule lock_step.dies)

lemma lock_sweeping_step: "lock_step lock_orphan lock_sweeping"
  unfolding lock_sweeping_def by (rule lock_step.sweep) (simp_all add: lock_demo_defs)

lemma lock_opened_step: "lock_step lock_sweeping lock_opened"
  unfolding lock_opened_def by (rule lock_step.opened) (simp_all add: lock_demo_defs)

lemma lock_seized_step: "lock_step lock_opened lock_seized"
  unfolding lock_seized_def by (rule lock_step.seized) (simp_all add: lock_demo_defs)

lemma lock_removed_step: "lock_step lock_seized lock_removed"
  unfolding lock_removed_def by (rule lock_step.removed) (simp add: lock_demo_defs)

lemma lock_taken_reached: "lock_step\<^sup>*\<^sup>* lock_start lock_taken"
  using lock_asked_step lock_made_step lock_flocked_step lock_taken_step
  by (meson converse_rtranclp_into_rtranclp rtranclp.rtrancl_refl)

lemma lock_seized_reached: "lock_step\<^sup>*\<^sup>* lock_start lock_seized"
  using lock_taken_reached lock_orphan_step lock_sweeping_step lock_opened_step lock_seized_step
  by (meson rtranclp.rtrancl_into_rtrancl)

subsection \<open>Commands\<close>

definition verify_demo_signs :: verify_signs where
  "verify_demo_signs = \<lparr>sg_ellipsis = ''...'', sg_dash = ''--'', sg_sha256 = (\<lambda>s. s), vs_cross = ''x''\<rparr>"

definition demo_verify_ask :: verify_ask where
  "demo_verify_ask = \<lparr>va_run = Some 7, va_tree = ''/w'', va_cmd = ''make && ./t'', va_contracts = [(''a.txt'', ''two'')], va_limit = None\<rparr>"

definition demo_look :: "launched \<Rightarrow> verify_look" where
  "demo_look ended = \<lparr>vl_file = (\<lambda>path. if path = ''a.txt'' then Some ''one two'' else None), vl_heads = Some ''c1 m1'',
     vl_dirty = Some [], vl_parses = (\<lambda>_. True), vl_launch = (\<lambda>_. Some ended)\<rparr>"

definition demo_ok :: verify_look where
  "demo_ok = demo_look (Exited 0 (concat (map (\<lambda>l. l @ [NL]) (transcript [(1, [''built'']), (2, [''ok''])] None))))"

definition demo_bad :: verify_look where "demo_bad = demo_look (Exited 2 (''boom'' @ [NL]))"

definition demo_pass_key :: pass_key where
  "demo_pass_key = \<lparr>pk_run = 7, pk_tree = ''/w'', pk_head = ''c1'', pk_main = ''m1'', pk_cmd = ''make && ./t'', pk_limit = 300\<rparr>"

lemma demo_parsed:
  "parse_clause_output (concat (map (\<lambda>l. l @ [NL]) (transcript [(1, [''built'']), (2, [''ok''])] None)))
   = Some ([(1, ''built''), (2, ''ok'')], None, ''built'' @ [NL] @ ''ok'')"
proof -
  have "mark_free ''built'' \<and> mark_free ''ok''" and "\<not> list_ex line_break (''built'' @ ''ok'')" by code_simp+
  then show ?thesis using clause_output_read [of "[(1, [''built'']), (2, [''ok''])]" None] by simp
qed

lemma demo_boom: "parse_clause_output (''boom'' @ [NL]) = Some ([], None, ''boom'')"
  by code_simp

lemma demo_tested: "\<not> searches VACUOUS_RE (''built'' @ [NL] @ ''ok'')"
  by code_simp

lemma demo_ok_run:
  "run_command verify_demo_signs demo_ok cmd = Some (True, plain_out (last_chars 2000 (py_strip (''built'' @ [NL] @ ''ok''))))"
  using demo_tested
  by (simp add: run_command_def demo_ok_def demo_look_def demo_parsed vacuous_none [THEN iffD2] Let_def)

lemma demo_bad_run: "\<exists>v. run_command verify_demo_signs demo_bad cmd = Some (False, v)"
  by (simp add: run_command_def demo_bad_def demo_look_def demo_boom Let_def del: append.simps)

lemma demo_contracts: "contract_report verify_demo_signs [(''a.txt'', ''two'')] (vl_file demo_ok) = None"
  "contract_report verify_demo_signs [(''a.txt'', ''two'')] (vl_file demo_bad) = None"
  by code_simp+

lemma demo_keys: "pass_key demo_verify_ask demo_ok = Some demo_pass_key" "pass_key demo_verify_ask demo_bad = Some demo_pass_key"
  by code_simp+

lemma demo_verified: "verify_all verify_demo_signs [(demo_verify_ask, True, demo_ok, demo_bad)] [] = Some [demo_pass_key]"
proof -
  have "va_contracts demo_verify_ask = [(''a.txt'', ''two'')]" "va_cmd demo_verify_ask \<noteq> []" by (simp_all add: demo_verify_ask_def)
  then show ?thesis by (simp add: run_verify_def run_verify_once_def demo_contracts demo_keys demo_ok_run Let_def)
qed

lemma demo_not_rerun:
  "\<exists>v. run_verify verify_demo_signs demo_verify_ask True demo_bad demo_bad [demo_pass_key] = Some ((True, v), [demo_pass_key], None)"
proof -
  have "va_contracts demo_verify_ask = [(''a.txt'', ''two'')]" "va_cmd demo_verify_ask \<noteq> []" by (simp_all add: demo_verify_ask_def)
  then show ?thesis by (simp add: run_verify_def run_verify_once_def demo_contracts demo_keys Let_def)
qed

lemma demo_bad_red: "\<not> ran_green demo_bad cmd"
  by (simp add: ran_green_def demo_bad_def demo_look_def demo_boom del: append.simps)

text \<open>Of three commands the second fails, so the third does not run; no pass is remembered outside a run.\<close>

definition demo_commands :: "(string \<times> verify_look) list" where
  "demo_commands = [(''lint'', demo_ok), (''unit'', demo_bad), (''slow'', demo_ok)]"

lemma demo_once:
  assumes "va_contracts a = []" and "va_cmd a \<noteq> []" and "va_run a = None" and "run_command g k (va_cmd a) = Some (ok, v)"
  shows "\<exists>w. run_verify g a False k k' passes = Some ((ok, w), passes, None)"
proof -
  have "contract_report g (va_contracts a) (vl_file k) = None" using assms(1) by (simp add: contract_report_none)
  moreover have "pass_key a k = None" using assms(3) by (simp add: pass_key_def)
  ultimately show ?thesis using assms by (auto simp: run_verify_def run_verify_once_def Let_def)
qed

lemma demo_baseline:
  "\<exists>v. with_baseline verify_demo_signs (demo_verify_ask\<lparr>va_run := None\<rparr>) demo_commands None True (plain_out ''ok'') []
     = Some ((False, v), [], None)"
proof -
  let ?a = "\<lambda>cmd. (demo_verify_ask\<lparr>va_run := None\<rparr>)\<lparr>va_cmd := cmd, va_contracts := []\<rparr>"
  have run: "va_contracts (?a cmd) = []" "va_run (?a cmd) = None" "va_cmd (?a cmd) = cmd" for cmd by simp_all
  have "\<exists>w. run_verify verify_demo_signs (?a ''lint'') False demo_ok demo_ok [] = Some ((True, w), [], None)"
    by (rule demo_once [OF _ _ _ demo_ok_run]) (simp_all add: run)
  then obtain w where lint: "run_verify verify_demo_signs (?a ''lint'') False demo_ok demo_ok [] = Some ((True, w), [], None)" ..
  obtain v where bad: "run_command verify_demo_signs demo_bad (va_cmd (?a ''unit'')) = Some (False, v)" using demo_bad_run by blast
  have "\<exists>x. run_verify verify_demo_signs (?a ''unit'') False demo_bad demo_bad [] = Some ((False, x), [], None)"
    by (rule demo_once [OF _ _ _ bad]) (simp_all add: run)
  then obtain x where unit: "run_verify verify_demo_signs (?a ''unit'') False demo_bad demo_bad [] = Some ((False, x), [], None)" ..
  from lint unit show ?thesis
    by (simp add: with_baseline_def run_baseline_def demo_commands_def Let_def)
qed

subsection \<open>An ejection\<close>

definition demo_full :: full_input where
  "demo_full = \<lparr>fi_labelled = None, fi_added = False, fi_shown = None, fi_attempt = 1, fi_refused = False, fi_looks = [], fi_jobs = [],
     fi_dropped = False, fi_latest = None\<rparr>"

definition demo_queued_again :: queue_record where "demo_queued_again = with_requeue QueuedInfra [] ''g1'' queue_start"

lemma demo_requeue:
  "requeue_or_park StillWaiting demo_full ''c1'' EjectInfra [] ''g1'' queue_start = (demo_queued_again, QueueAgain)"
  by (simp add: requeue_or_park_def demo_queued_again_def earlier_group_def queue_start_def names_sorted_def)

end
