(* ===== verification/Spec2Isabelle.thy ===== *)
theory Spec2Isabelle
  imports DemoWork RunReads DemoVerify
begin

section \<open>Holophyte: the store, the ticket templates, the checks, the automations, the review loop, the babysitter, the verify gate\<close>

text \<open>
  Holophyte runs coding agents on the tickets of a board: a loop claims a ticket, an agent works
  on it in a worktree, reviewers judge it, a gate merges it, and an operator or a supervisor
  stops, resumes or requeues what went wrong. Every part of it (loop, babysitter, supervisor,
  HTTP server, command lines) keeps its state in one SQLite database and changes it only through
  the package \<^verbatim>\<open>store/\<close>. This development models that package, and of the package
  \<^verbatim>\<open>holophyte/\<close> around it the parts that decide: what a ticket and a story must be, what the
  checks of a pull request say and when a run may be merged, what the host's automations may do on
  their own, what a reviewer's reply says and lets through, what the review loop sends to the
  merge gate, what a babysat pull request is fixed, answered and merged on, when a candidate verifies, and
  who may merge at a time.

  The theories of the store, in the order they build on each other, and the files they model:
  \<^item> \<open>Prelude\<close>: errors as sums (\<open>bindE\<close>, \<open>foldE\<close>), tables as lists of rows with their laws
    (\<open>keyed\<close>, \<open>fetch\<close>, \<open>modify\<close>, the interfaces \<open>keyed_table\<close> and \<open>growing_table\<close>).
  \<^item> \<open>Text\<close>: the Python string functions the store uses.
  \<^item> \<open>Enums\<close>: \<^verbatim>\<open>store/enums.py\<close>, the enumerations and the two transition tables.
  \<^item> \<open>Redact\<close>: the registry of secret values and their replacement, \<^verbatim>\<open>holophyte/redact.py\<close>.
  \<^item> \<open>Store\<close>: \<^verbatim>\<open>store/ddl.py\<close>, one record per table and the record \<open>store\<close> of all tables.
  \<^item> \<open>Desk\<close>: how the rows of the tables beside the lifecycle live (firings, pauses, merge holds,
    scouts, threads, follow-ups, proposals, steers): when a row may arrive, how it may change.
  \<^item> \<open>Spec\<close>: the abstract lifecycle, a step relation on runs, tickets, stories and event
    numbers, with its invariants.
  \<^item> \<open>Log\<close>: events, ledger, interventions, notes, revisions (\<^verbatim>\<open>store/__init__.py\<close>,
    \<^verbatim>\<open>store/operate.py\<close>, \<^verbatim>\<open>store/notes.py\<close>, \<^verbatim>\<open>store/revisions.py\<close>).
  \<^item> \<open>Tickets\<close>: \<^verbatim>\<open>store/tickets.py\<close>; \<open>Amend\<close>: \<^verbatim>\<open>store/criteria.py\<close> and the criterion edits of
    \<^verbatim>\<open>holophyte/tickets/ticket_criteria.py\<close>.
  \<^item> \<open>Runs\<close>: the run API of \<^verbatim>\<open>store/__init__.py\<close> and \<^verbatim>\<open>store/writes.py\<close>.
  \<^item> \<open>Operate\<close>: \<^verbatim>\<open>store/operate.py\<close>.
  \<^item> \<open>Working\<close>: \<^verbatim>\<open>store/working.py\<close> and \<^verbatim>\<open>store/launch_backoff.py\<close>.
  \<^item> \<open>Findings\<close>: review findings and rounds of \<^verbatim>\<open>store/__init__.py\<close>.
  \<^item> \<open>Stories\<close> and \<open>Frontier\<close>: \<^verbatim>\<open>store/stories.py\<close>, and \<open>claimable\<close> of \<^verbatim>\<open>store/read.py\<close>.
  \<^item> \<open>Claim\<close>: \<open>claim\<close> of \<^verbatim>\<open>store/__init__.py\<close>.
  \<^item> \<open>Reads\<close> and \<open>RunReads\<close>: the queries of \<^verbatim>\<open>store/read.py\<close> and \<^verbatim>\<open>store/run_reads.py\<close>.
  \<^item> \<open>Board\<close>: \<^verbatim>\<open>store/board.py\<close>, filing, editing, moving, canceling and resolving tickets; the
    judgement and parsing of a ticket text are the parameters \<open>board_code\<close>.
  \<^item> \<open>Automations\<close>: \<^verbatim>\<open>store/automations.py\<close>; the limit a firing is held to is a parameter.
  \<^item> \<open>Scouts\<close> and \<open>Thread\<close>: \<^verbatim>\<open>store/scouts.py\<close> and \<^verbatim>\<open>store/scout_thread.py\<close>; \<open>held\<close> is the
    process's own table of the scouts it holds.
  \<^item> \<open>FollowUps\<close>: \<^verbatim>\<open>store/follow_ups.py\<close> and \<^verbatim>\<open>store/story_proposals.py\<close>.
  \<^item> \<open>Dumps\<close>: the text \<^verbatim>\<open>json.dumps\<close> gives a document; \<open>Notes\<close>: \<^verbatim>\<open>store/operator_notes.py\<close> and
    \<^verbatim>\<open>store/console_asks.py\<close>; \<open>Steers\<close>: \<^verbatim>\<open>store/steer_notes.py\<close>.
  \<^item> \<open>System\<close>: \<open>store_step\<close>, one rule per operation that writes, and the interfaces that carry
    the lifecycle's invariants to every history of calls.
  \<^item> \<open>Demo\<close>: the concrete stores the properties with hypotheses are instantiated on.

  The theories of \<^verbatim>\<open>holophyte/\<close>:
  \<^item> \<open>Regex\<close>: patterns as a datatype with the backtracking matcher of Python's \<^verbatim>\<open>re\<close> (results in its
    order of preference), \<open>Pystr\<close>: further string, path and shell functions.
  \<^item> \<open>TicketText\<close>, \<open>TicketHeader\<close>, \<open>TicketParse\<close>, \<open>TicketRules\<close>, \<open>TicketAdvice\<close>, \<open>TicketTemplate\<close>:
    \<^verbatim>\<open>tickets/ticket_template.py\<close>, \<^verbatim>\<open>ticket_header.py\<close>, \<^verbatim>\<open>ticket_advisories.py\<close> and the rules of
    \<^verbatim>\<open>review/witness_precheck.py\<close> and \<^verbatim>\<open>review/main_baseline.py\<close> they use: a ticket's parser and its
    problems. \<open>StoryGraph\<close> and \<open>StoryTemplate\<close>: \<^verbatim>\<open>tickets/story_template.py\<close>.
  \<^item> \<open>Github\<close>: \<^verbatim>\<open>pr/github.py\<close>, requests, the merge call, the body of a pull request; \<open>Checks\<close>:
    \<^verbatim>\<open>pr/pr_status.py\<close>, \<^verbatim>\<open>pr/check_holds.py\<close>, \<^verbatim>\<open>pr/missing_checks.py\<close>; \<open>MergeReady\<close>: \<^verbatim>\<open>pr/merge_ready.py\<close>.
  \<^item> \<open>WatchRules\<close>, \<open>MainWatch\<close>, \<open>MergeHold\<close>, \<open>Worker\<close>: \<^verbatim>\<open>automation/\<close>, the rules an act is held to, the
    main watch, the merge gate under its hold, the worker and the sweep's step.
  \<^item> \<open>Consolidate\<close>: \<^verbatim>\<open>review/consolidate.py\<close>; \<open>CriterionIds\<close>: \<^verbatim>\<open>review/criterion_ids.py\<close>.
  \<^item> \<open>Replies\<close>, \<open>Witnesses\<close>, \<open>Gate\<close>: \<^verbatim>\<open>review/reply_parsing.py\<close>, the verdict of
    \<^verbatim>\<open>review/review_runner.py\<close> and the judging parts of \<^verbatim>\<open>loop/review_round.py\<close> and \<^verbatim>\<open>loop/runs.py\<close>:
    reading a reply, checking the tests it names, the findings of a round and what is stored of it.
  \<^item> \<open>Rounds\<close>: \<^verbatim>\<open>loop/review_round.py\<close>, \<^verbatim>\<open>loop/adjudicate.py\<close> and the end of \<^verbatim>\<open>loop/pipeline.py\<close>.
  \<^item> \<open>Settle\<close>, \<open>CheckFix\<close>, \<open>PrThreads\<close>, \<open>Covering\<close>, \<open>Babysit\<close>: \<^verbatim>\<open>babysit/\<close>, when an open pull request is looked at,
    its red checks and their fix turns, its threads, the review of a fix, and the passes over them up to the merge
    (with \<^verbatim>\<open>pr/pr_head.py\<close>, \<^verbatim>\<open>pr/pr_ready.py\<close> and the merges of \<^verbatim>\<open>pr/merge_queue.py\<close> and \<^verbatim>\<open>pr/pullrequest.py\<close>).
  \<^item> \<open>Queue\<close>, \<open>QueueReads\<close>: \<^verbatim>\<open>babysit/queue_eject.py\<close> and \<^verbatim>\<open>pr/merge_queue.py\<close>, what becomes of a pull request a merge
    queue ejected, and what the queue holds.
  \<^item> \<open>VerifyCmd\<close>, \<open>VerifyRun\<close>: the verify gate of \<^verbatim>\<open>loop/gates.py\<close>, a command's clauses and output, and whether a
    candidate verifies; \<open>Histories\<close>, \<open>MergeLock\<close>: its lock file as steps of processes, \<^verbatim>\<open>loop/merge_lock.py\<close> and the lock's lines of
    \<^verbatim>\<open>host/sweep_report.py\<close>.
  \<^item> \<open>DemoWork\<close>, \<open>DemoLoop\<close>, \<open>DemoSit\<close>, \<open>DemoVerify\<close>: the concrete inputs for these parts.

  How state and operations correspond. A row is a record with one field per column, a column that
  may be NULL an option, a JSON column the value it encodes; a table is the list of its rows in
  rowid order. An operation takes the store and returns the new one beside its value,
  \<open>Inr (value, store)\<close>, or \<open>Inl error\<close> where the code raises; the code runs each operation in
  one transaction, so an operation that raises leaves the store as it was, and \<^verbatim>\<open>BEGIN IMMEDIATE\<close>
  makes the operations of concurrent processes a sequence of \<open>store_step\<close>s. \<open>env\<close> holds what
  an operation reads elsewhere: the clock, host, process, login and acting operator, the
  registered secrets, and as parameters the ticket-body parser (\<open>evidence_of\<close>,
  \<open>witnesses_of\<close>) and the hash (\<open>sha256\<close>). A value outside an enumeration, which the code
  refuses with a \<^verbatim>\<open>ValueError\<close>, is excluded by the types. The texts of exceptions and of a
  ticket's problems are abstracted to constructors.

  What lies outside the repository is a parameter: \<open>loads\<close> (\<^verbatim>\<open>tomllib.loads\<close>), \<open>repo_view\<close> and
  \<open>story_dir\<close> (files), \<open>get\<close> and \<open>gh_call\<close> (GitHub's answers by path), \<open>iso_ms\<close> and \<open>day_of\<close> (calendar),
  \<open>file_read\<close> (a file of the host), \<open>git\<close> (the answers of git), the agent's reply, a \<open>worktree\<close>
  (the files a reply's tests are looked for in), a \<open>round_input\<close> (what a round is told, as functions of
  the commit it asks about), a \<open>pass_input\<close> (the same for a turn of the babysitter), \<open>signs\<close> (the characters above U+00FF the code writes). A step that keeps
  its earlier effects when it fails returns what stopped it beside the state (\<open>observe\<close>,
  \<open>until_stop\<close>); what a process reads twice, while others write, it takes twice (\<open>world\<close>, \<open>between\<close>). A loop
  that waits on GitHub goes through a list of looks or turns, and \<open>StillWaiting\<close> is where the list does
  not reach its end; C29 says how many turns are enough. A \<open>verify_look\<close> is what one run of a verify command finds
  in its worktree, a \<open>full_input\<close> what GitHub answers about a full run.

  What the lemmas show. In every component theory of the store each operation has its result on
  every branch that matters and a lemma that it is \<open>safe\<close>: a sequence of lifecycle steps that only
  appends to the logs and takes the rows of the desk only through steps of their own lives. \<open>System\<close>
  collects these into \<open>store_step_safe\<close>, and \<open>reachable\<close> carries the invariants of \<open>Spec\<close> and \<open>Desk\<close>
  over to all histories; the steps of the automations are \<open>safe\<close> too. The properties below are about
  every history of calls (C1 to C10 and C39), about tickets, stories, pull requests, automations,
  reviews, the loop and the babysitter (C11 to C31), the merge lock, the verify gate and the merge queue (C32 to
  C37), and about single operations of the store (the others).

  Bounds. Loops are structural recursion or have a termination proof (\<open>status_search\<close> by the
  unseen statuses, \<open>sweeps\<close> by the unreached children, \<open>queued_loop\<close> by the issues not seen and
  the length of the worklist, \<open>all_from\<close> by the text left, \<open>visit\<close> and \<open>ancestors_from\<close> by the slugs
  not yet marked). A pattern's repetitions are bounded by the characters left, each of them
  consuming one. Reading the pages of check runs, which only GitHub's totals end, is a
  \<open>partial_function\<close>, and C14 says when it returns. \<open>root_in\<close> takes as fuel the number of merges,
  which \<open>root_ends\<close> shows to be enough.

  Not modelled: schema creation and migrations and the reads' guards for databases of older
  schemas, the processes (agents, git, worktrees, containers), network clients, the HTTP server and
  the command lines, the configuration files, and the rest of the loop and review
  packages, the texts the babysitter posts, whose decisions reach the store through the operations modelled here. Times are integers
  (milliseconds); the seconds of a witness result, a REAL column, are too. A text is a list of
  characters, one per code point below 256. The lock's writes are taken to succeed, and nothing but the code is taken to remove its file.
  The outcome reason that \<open>bounded_reason\<close> moves to
  an event is taken to be a text that is not itself a JSON document.
\<close>

section \<open>Safety over every history of calls\<close>

text \<open>C1: in every reachable store a ticket's lease names a run of that very ticket that exists
  and has not ended, and no other ticket holds that run.\<close>

theorem lease_safety:
  assumes "reachable s" and "t \<in> set (tickets s)" and "t_active t = Some k"
  shows "(\<exists>r. run_of k s = Some r \<and> r_ticket r = t_id t \<and> r_ended r = None)
    \<and> (\<forall>t' \<in> set (tickets s). t_active t' = Some k \<longrightarrow> t' = t)"
proof -
  have "t' = t" if "t' \<in> set (tickets s)" "t_active t' = Some k" for t'
  proof -
    have "t_id t' = t_id t" using lease_row [OF assms] lease_row [OF assms(1) that] by auto
    then show "t' = t"
      using reachable_keyed [OF assms(1)] fetch_member [of t_id "tickets s" t]
        fetch_member [of t_id "tickets s" t'] assms(2) that(1) by simp
  qed
  with lease_row [OF assms] show ?thesis by blast
qed

theorem lease_safety_witness:
  "\<exists>r. run_of 1 demo2 = Some r \<and> r_ticket r = 1 \<and> r_ended r = None"
proof -
  have "tickets demo2 \<noteq> [] \<and> t_active (hd (tickets demo2)) = Some 1 \<and> t_id (hd (tickets demo2)) = 1"
    by code_simp
  then show ?thesis
    using lease_safety [OF demo2_reachable, of "hd (tickets demo2)" 1] by simp
qed

text \<open>C2: in every reachable store a run has ended exactly when it has an outcome, and then it
  rests in the phase that outcome ends in.\<close>

theorem run_end_consistent:
  assumes "reachable s" and "run_of k s = Some r"
  shows "(r_ended r = None \<longleftrightarrow> r_outcome r = None)
    \<and> (\<forall>oc. r_outcome r = Some oc \<longrightarrow> r_phase r = terminal_phase oc)"
  using reachable_run [OF assms] .

theorem run_end_consistent_witness:
  "\<exists>r. run_of 1 demo4 = Some r \<and> r_phase r = PH_FAILED \<and> r_ended r \<noteq> None"
proof -
  have "map_option r_outcome (run_of 1 demo4) = Some (Some OC_FAILED)" by code_simp
  then obtain r where r: "run_of 1 demo4 = Some r" and oc: "r_outcome r = Some OC_FAILED" by auto
  with run_end_consistent [OF demo4_reachable r] show ?thesis by auto
qed

text \<open>C3: a run that ended done, killed or rejected never changes phase,
  outcome, end, ticket or attempt again, whatever calls follow.\<close>

theorem sealed_run_final:
  assumes "store_step\<^sup>*\<^sup>* s t" and "run_of k s = Some r" and "r_phase r \<in> {PH_DONE, PH_KILLED, PH_REJECTED}"
    and "r_ended r \<noteq> None"
  shows "\<exists>r'. run_of k t = Some r' \<and> r_phase r' = r_phase r \<and> r_outcome r' = r_outcome r
    \<and> r_ended r' = r_ended r \<and> r_ticket r' = r_ticket r \<and> r_attempt r' = r_attempt r"
proof -
  have "fetch u_id k (spec_runs (spec_of t)) = Some (run_core r)"
    by (rule sealed_history [OF life.history [OF assms(1)] run_core_of [OF assms(2)]])
      (use assms(3,4) in \<open>auto simp: run_core_def sealed_phases_def\<close>)
  then obtain r' where "run_of k t = Some r'" "run_core r' = run_core r"
    using of_run_core by blast
  then show ?thesis by (auto simp: run_core_def)
qed

theorem sealed_run_final_witness:
  "\<exists>r. run_of 1 demo_closed = Some r \<and> r_phase r = PH_DONE \<and> r_ended r = Some 1000"
proof -
  have "map_option (\<lambda>r. (r_phase r, r_ended r)) (run_of 1 demo_merged) = Some (PH_DONE, Some 1000)"
    by code_simp
  then obtain r where r: "run_of 1 demo_merged = Some r" "r_phase r = PH_DONE" "r_ended r = Some 1000"
    by auto
  have "store_step demo_merged demo_closed" using demo_closed_ok by (rule store_step.walk_ticket)
  from sealed_run_final [OF r_into_rtranclp [of store_step, OF this] r(1)] r(2,3)
  show ?thesis by auto
qed

text \<open>C4: a merged or abandoned ticket keeps that status through every further call.\<close>

theorem ticket_final:
  assumes "store_step\<^sup>*\<^sup>* s t" and "ticket_of k s = Some q"
    and "t_status q = TS_MERGED \<or> t_status q = TS_ABANDONED"
  shows "\<exists>q'. ticket_of k t = Some q' \<and> t_status q' = t_status q"
proof -
  obtain z where z: "fetch x_id k (spec_tickets (spec_of t)) = Some z" "x_status z = t_status q"
    using final_history [OF life.history [OF assms(1)] ticket_core_of [OF assms(2)]] assms(3)
    by (auto simp: ticket_core_def final_status_def)
  then obtain q' where "ticket_of k t = Some q'" "ticket_core q' = z"
    using of_ticket_core by blast
  with z show ?thesis by (auto simp: ticket_core_def)
qed

theorem ticket_final_witness: "\<exists>q. ticket_of 1 demo_noted = Some q \<and> t_status q = TS_MERGED"
proof -
  have "map_option t_status (ticket_of 1 demo_closed) = Some TS_MERGED" by code_simp
  then obtain q where q: "ticket_of 1 demo_closed = Some q" "t_status q = TS_MERGED" by auto
  have "store_step demo_closed demo_noted" unfolding demo_noted_def by (rule store_step.record_note)
  from ticket_final [OF r_into_rtranclp [of store_step, OF this] q(1)] q(2) show ?thesis by auto
qed

text \<open>C5: the attempts of a ticket's runs are 1, 2, ... in the order they were claimed, with no
  gap and no repetition.\<close>

theorem attempts_numbered:
  assumes "reachable s"
  shows "map r_attempt (filter (\<lambda>r. r_ticket r = tid) (runs s))
    = [1..<Suc (length (filter (\<lambda>r. r_ticket r = tid) (runs s)))]"
proof -
  have "attempts tid (spec_of s) = map r_attempt (filter (\<lambda>r. r_ticket r = tid) (runs s))"
    by (simp add: attempts_def spec_of_def filter_map o_def run_core_def)
  moreover have "numbered (attempts tid (spec_of s))"
    using reachable_attempts_inv [OF assms] unfolding attempts_inv_def by blast
  ultimately show ?thesis by (metis One_nat_def length_map map_Suc_upt numbered_def)
qed

theorem attempts_numbered_witness:
  "map r_attempt (filter (\<lambda>r. r_ticket r = 1) (runs demo_again)) = [1, 2]"
proof -
  have "length (filter (\<lambda>r. r_ticket r = 1) (runs demo_again)) = 2" by code_simp
  then show ?thesis
    using attempts_numbered [OF demo_again_reachable, of 1] by (simp add: upt_rec)
qed

text \<open>C6: the events of a run are numbered 1, 2, ... in the order they were written.\<close>

theorem event_seqs_numbered:
  assumes "reachable s"
  shows "map e_seq (run_events rid s) = [1..<Suc (length (run_events rid s))]"
proof -
  have "numbered (map e_seq (run_events rid s))"
    using reachable_log_inv [OF assms] unfolding log_inv_def log_core_seqs [symmetric] by blast
  then show ?thesis by (metis One_nat_def length_map map_Suc_upt numbered_def)
qed

theorem event_seqs_numbered_witness: "map e_seq (run_events 1 demo4) = [1, 2]"
proof -
  have "length (run_events 1 demo4) = 2" by code_simp
  then show ?thesis using event_seqs_numbered [OF demo4_reachable, of 1] by (simp add: upt_rec)
qed

text \<open>C7: the event log, the ledger, the interventions and the ticket revisions only grow at
  the end; no call of the modelled API rewrites or drops a row of them.\<close>

theorem logs_append_only:
  assumes "store_step\<^sup>*\<^sup>* s t"
  shows "prefix (events s) (events t) \<and> prefix (ledger s) (ledger t)
    \<and> prefix (interventions s) (interventions t) \<and> prefix (revisions s) (revisions t)"
  using event_log.history_grows ledger_log.history_grows intervention_log.history_grows
    revision_log.history_grows assms by blast

theorem logs_append_only_witness: "prefix (events demo3) (events demo4)"
proof -
  have "store_step demo3 demo4" using demo4_ok by (rule store_step.release)
  from logs_append_only [OF r_into_rtranclp [of store_step, OF this]] show ?thesis by simp
qed

text \<open>C8: two open (approved or parked) stories of one project are the same story.\<close>

theorem one_open_story:
  assumes "reachable s" and "story_of i s = Some y" and "story_of j s = Some z"
    and "y_state y \<in> {SY_APPROVED, SY_PARKED}" and "y_state z \<in> {SY_APPROVED, SY_PARKED}"
    and "ticket_of i s = Some p" and "ticket_of j s = Some q" and "t_project p = t_project q"
  shows "i = j"
proof -
  have "open_in (t_project p) (spec_of s) k"
    if "story_of k s = Some w" "y_state w \<in> {SY_APPROVED, SY_PARKED}" "ticket_of k s = Some t"
      "t_project t = t_project p" for k w t
  proof -
    have "(k, y_state w) \<in> set (spec_stories (spec_of s))" "ticket_core t \<in> set (spec_tickets (spec_of s))"
      "t_id t = k"
      using fetch_SomeD [OF that(1)] fetch_SomeD [OF that(3)] by (force simp: spec_of_def)+
    with that(2,4) show ?thesis
      unfolding open_in_def open_story_def by (force simp: ticket_core_def)
  qed
  from this [OF assms(2,4,6) refl] this [OF assms(3,5,7) assms(8) [symmetric]]
  show ?thesis
    using reachable_stories_inv [OF assms(1)] unfolding stories_inv_def one_open_def by blast
qed

theorem one_open_story_witness:
  "{j. \<exists>z q. story_of j demo_open = Some z \<and> y_state z \<in> {SY_APPROVED, SY_PARKED} \<and>
     ticket_of j demo_open = Some q \<and> t_project q = 1} = {1}"
proof -
  have "map_option y_state (story_of 1 demo_open) = Some SY_APPROVED"
    "map_option t_project (ticket_of 1 demo_open) = Some 1" by code_simp+
  then obtain y p where "story_of 1 demo_open = Some y" "y_state y = SY_APPROVED"
    "ticket_of 1 demo_open = Some p" "t_project p = 1" by auto
  then show ?thesis
    using one_open_story [OF demo_open_reachable, of _ _ 1 y _ p] by auto
qed

text \<open>C9: a closed or abandoned story keeps that state through every further call.\<close>

theorem story_final:
  assumes "store_step\<^sup>*\<^sup>* s t" and "story_of k s = Some y"
    and "y_state y = SY_CLOSED \<or> y_state y = SY_ABANDONED"
  shows "\<exists>y'. story_of k t = Some y' \<and> y_state y' = y_state y"
proof -
  have "fetch fst k (spec_stories (spec_of s)) = Some (y_ticket y, y_state y)"
    using assms(2) by (simp add: spec_of_def fetch_story_core)
  from ended_history [OF life.history [OF assms(1)] this] assms(3)
  have "fetch fst k (spec_stories (spec_of t)) = Some (y_ticket y, y_state y)"
    by (auto simp: ended_story_def)
  then show ?thesis by (auto simp: spec_of_def fetch_story_core)
qed

theorem story_final_witness:
  "\<exists>y. story_of 1 (snd (record_note demo_env 1 ''verdict'' ''x'' None ''op'' None demo_dropped)) = Some y
     \<and> y_state y = SY_ABANDONED"
proof -
  have "map_option y_state (story_of 1 demo_dropped) = Some SY_ABANDONED" by code_simp
  then obtain y where y: "story_of 1 demo_dropped = Some y" "y_state y = SY_ABANDONED" by auto
  from story_final [OF r_into_rtranclp [of store_step, OF store_step.record_note] y(1)] y(2)
  show ?thesis by auto
qed

text \<open>C10: the store implements the lifecycle: whatever one call of any operation does to the
  store is a sequence of steps of the abstract machine, each with that machine's guard.\<close>

theorem store_refines_lifecycle:
  assumes "store_step s t"
  shows "spec_step\<^sup>*\<^sup>* (spec_of s) (spec_of t)"
  using assms by (rule life.simulates)

theorem store_refines_lifecycle_witness: "spec_step\<^sup>*\<^sup>* (spec_of demo1) (spec_of demo2)"
  by (rule store_refines_lifecycle [OF demo2_step])

section \<open>Tickets and stories\<close>



text \<open>C12: in a story whose roles and plan have no problem, the order of the children has no cycle,
  every witness is completed by exactly one child, which declares the witness's file new, and that
  child comes after every child that advances the witness.\<close>

theorem accepted_plan:
  assumes "role_problems children story = []" and "graph_problems children edges = []"
  shows "acyclic (depends_rel edges)
    \<and> (\<forall>w \<in> set (sb_witnesses story). \<exists>c. completing (sw_key w) children = [c]
        \<and> declares_new (ch_ticket c) (sw_file w)
        \<and> (\<forall>other \<in> set children. ch_role other = Some Advancing \<and> sw_key w \<in> set (ch_witnesses other) \<longrightarrow>
            (ch_slug c, ch_slug other) \<in> (depends_rel edges)\<^sup>+))"
proof (intro conjI ballI)
  show "acyclic (depends_rel edges)" by (rule accepted_graph(1) [OF assms(2)])
  fix w assume "w \<in> set (sb_witnesses story)"
  then obtain c where c: "completing (sw_key w) children = [c]" "declares_new (ch_ticket c) (sw_file w)"
    using accepted_roles [OF assms(1)] by blast
  then have "c \<in> set (completing (sw_key w) children)" by simp
  then have "c \<in> set children" "ch_role c = Some Completing" "sw_key w \<in> set (ch_witnesses c)"
    by (simp_all add: completing_def)
  with c accepted_graph(2) [OF assms(2)] show "\<exists>c. completing (sw_key w) children = [c]
      \<and> declares_new (ch_ticket c) (sw_file w)
      \<and> (\<forall>other \<in> set children. ch_role other = Some Advancing \<and> sw_key w \<in> set (ch_witnesses other) \<longrightarrow>
          (ch_slug c, ch_slug other) \<in> (depends_rel edges)\<^sup>+)"
    by blast
qed

theorem accepted_plan_witness: "(''b'', ''a'') \<in> (depends_rel (plan_edges demo_children))\<^sup>+"
proof -
  have "role_problems demo_children demo_story = []" "graph_problems demo_children (plan_edges demo_children) = []"
    by code_simp+
  from accepted_plan [OF this] obtain c where "completing ''W1'' demo_children = [c]"
      "\<forall>other \<in> set demo_children. ch_role other = Some Advancing \<and> ''W1'' \<in> set (ch_witnesses other) \<longrightarrow>
        (ch_slug c, ch_slug other) \<in> (depends_rel (plan_edges demo_children))\<^sup>+"
    by (auto simp: demo_story_def)
  then show ?thesis by (auto simp: demo_children_def completing_def)
qed

section \<open>Pull requests\<close>

text \<open>C13: the checks of a pull request are folded to success only when every run is completed and
  none that blocks is red, a completed run answers every required check, and GitHub's own rollup is
  green or all that is red in it is optional.\<close>

theorem checks_success:
  assumes "fold_checks rollup reads required bars = Success"
  shows "\<exists>rs req. reads = Some rs \<and> required = Some req
    \<and> list_all (\<lambda>r. is_obj r \<and> completed r \<and> \<not> run_blocks bars r) rs
    \<and> list_all (\<lambda>c. list_ex (\<lambda>r. completed r \<and> jget ''name'' r = JStr c) rs) req
    \<and> (rollup_state rollup = Success \<or> only_optional_red reads bars)"
  by (rule fold_success [OF assms])

theorem checks_success_witness: "list_ex (\<lambda>r. completed r \<and> jget ''name'' r = JStr ''ci'') [demo_check]"
proof -
  have "fold_checks (JStr ''SUCCESS'') (Some [demo_check]) (Some [''ci'']) None = Success" by code_simp
  from checks_success [OF this] show ?thesis by simp
qed

text \<open>C14: reading the check runs of a commit ends, whatever the pages hold, as long as the totals
  the pages promise stay below some bound.\<close>

theorem check_reads_end:
  assumes "\<And>page answer batch promised. get (runs_path p sha page) = Inr answer \<Longrightarrow>
      jget ''check_runs'' answer = JList batch \<Longrightarrow> page_total answer batch page = Some promised \<Longrightarrow> promised \<le> int bound"
  shows "check_runs_of get p sha \<noteq> None"
  unfolding check_runs_of_def by (rule runs_from_returns) (rule assms)

theorem check_reads_end_witness: "check_runs_of (\<lambda>_. Inr demo_page) demo_pull ''c'' \<noteq> None"
proof (rule check_reads_end [where bound = 5])
  fix page answer batch promised
  assume "(Inr demo_page :: gh_error + json) = Inr answer" and "page_total answer batch page = Some promised"
  then show "promised \<le> int 5" by (auto simp: demo_page_def page_total_def jget_def)
qed

text \<open>C15: a run that no fact keeps from merging is a ticket's newest run, parked on its pull request
  for a human's merge, its checks green, GitHub able to merge it, no review thread open, and the
  branch at origin, the pull request and the parked candidate (or the approved one) at one commit;
  its review is approved, or the rules on main exempt the host's user from it.\<close>

theorem ready_run:
  assumes "failing_fact (readiness get mode state_read remote_read rid s) = None"
  shows "\<exists>f st h. park_facts rid s = Some f \<and> state_read f = Inr st \<and> remote_read f = Inr h
    \<and> parked_reason (Some f) = None \<and> mode = ''human'' \<and> \<not> ps_draft st \<and> ps_checks st = Success
    \<and> ps_mergeable st = ''MERGEABLE'' \<and> ps_threads st = [] \<and> ps_head st = Some h
    \<and> (r_candidate (pf_run f) = Some h \<or> r_approved_sha (pf_run f) = Some h)
    \<and> (ps_review st = Some ''approved''
       \<or> review_required st \<and> review_bypass get (the (parse_pr_url (case r_pr (pf_run f) of None \<Rightarrow> [] | Some u \<Rightarrow> u))) = None)"
proof (cases "park_facts rid s")
  case None
  then show ?thesis using ready_facts [of get mode None] assms by (auto simp: readiness_def)
next
  case (Some f)
  then show ?thesis using ready_facts [of get mode "Some f" "state_read f" "remote_read f"] assms
    by (auto simp: readiness_def)
qed

theorem ready_run_witness: "\<exists>f. park_facts 1 demo_ready = Some f \<and> r_candidate (pf_run f) = Some ''cand''"
proof -
  have "failing_fact (readiness (\<lambda>_. Inr JNull) ''human'' (\<lambda>_. Inr demo_state) (\<lambda>_. Inr ''cand'') 1 demo_ready) = None"
    by code_simp
  from ready_run [OF this] have "\<exists>f. park_facts 1 demo_ready = Some f
      \<and> (r_candidate (pf_run f) = Some ''cand'' \<or> r_approved_sha (pf_run f) = Some ''cand'')" by auto
  moreover have "map_option (r_approved_sha \<circ> pf_run) (park_facts 1 demo_ready) = Some None" by code_simp
  ultimately show ?thesis by auto
qed



text \<open>C17: taking the body of a pull request apart loses no text: the evidence section is a piece of
  the body, and what is left of it is the own text, the ticket line and the tail, in that order.\<close>

theorem pr_body_lossless:
  assumes "split_pr_body body = Some (own, link, evidence, tail)"
  shows "\<exists>upper below. body = upper @ evidence @ below \<and> own @ link @ tail = upper @ below"
  by (rule split_pr_body_text [OF assms])

theorem pr_body_lossless_witness:
  "\<exists>upper below. ''Hi'' @ [CHR 10] @ ''Linear:A'' = upper @ [] @ below \<and> (''Hi'' @ [CHR 10]) @ ''Linear:A'' @ [] = upper @ below"
proof -
  have "split_pr_body (''Hi'' @ [CHR 10] @ ''Linear:A'') = Some (''Hi'' @ [CHR 10], ''Linear:A'', [], [])" by code_simp
  from pr_body_lossless [OF this] show ?thesis by simp
qed

section \<open>Automations\<close>





text \<open>C20: while a merge hold stands for a run's project, the merge gate lets its candidate pass only
  when the candidate carries the red commit and its newest run of every check the hold names is
  completed with success.\<close>

theorem held_merge_gate:
  assumes "standing_hold cx rid p s = Some h" and "held_merge cx v rid sha p s = Some (Inr (None, t))"
  shows "carries cx (mh_sha h) sha = Inr True
    \<and> (\<exists>rs. check_runs_of (gt_get cx) p sha = Some (Inr (Some rs)) \<and> (\<forall>name \<in> set (mh_checks h).
        \<exists>r. map_of (latest_runs rs) (JStr name) = Some r \<and> completed r \<and> jget ''conclusion'' r = JStr ''success''))"
  using held_merge_passes [OF assms(2,1)] by (auto simp: all_passed_iff)

theorem held_merge_gate_witness: "carries demo_gate_cx ''c'' ''d'' = Inr True"
proof -
  have h: "standing_hold demo_gate_cx (Some 1) demo_pull demo_held = Some demo_hold" by code_simp
  have "case held_merge demo_gate_cx demo_env (Some 1) ''d'' demo_pull demo_held of
      Some (Inr (None, _)) \<Rightarrow> True | _ \<Rightarrow> False" by code_simp
  then obtain t where "held_merge demo_gate_cx demo_env (Some 1) ''d'' demo_pull demo_held = Some (Inr (None, t))"
    by (auto split: option.split_asm sum.split_asm)
  from held_merge_gate [OF h this] show ?thesis by (simp add: demo_hold_def)
qed

text \<open>C21: once a watch that may act has seen main red on a required check, a merge hold of the project
  stands at that commit for the red checks, and seeing the same again changes nothing.\<close>

theorem merges_stay_held:
  assumes "hold_merges cx v None checks s = Inr t" and "wc_mode (cx_watch cx) = WAct"
    and "mc_state checks = MainFailure" and "mc_sha checks = Some sha" and "red_required checks \<noteq> []"
  shows "(\<exists>h. open_merge_hold (cx_project cx) t = Some h \<and> mh_sha h = sha
      \<and> sort (mh_checks h) = sort (red_required checks))
    \<and> hold_merges cx v' None checks t = Inr t"
  using hold_merges_stands [OF assms] by (auto simp: same_hold_def split: option.split_asm)

theorem merges_stay_held_witness:
  "\<exists>t h. open_merge_hold 1 t = Some h \<and> mh_sha h = ''c'' \<and> hold_merges demo_cx demo_env None demo_red t = Inr t"
proof -
  have "case hold_merges demo_cx demo_env None demo_red demo0 of Inr _ \<Rightarrow> True | _ \<Rightarrow> False" by code_simp
  then obtain t where t: "hold_merges demo_cx demo_env None demo_red demo0 = Inr t" by (auto split: sum.split_asm)
  have "red_required demo_red \<noteq> []" by code_simp
  from merges_stay_held [OF t _ _ _ this, of "''c''" demo_env]
  have "(\<exists>h. open_merge_hold (cx_project demo_cx) t = Some h \<and> mh_sha h = ''c''
      \<and> sort (mh_checks h) = sort (red_required demo_red)) \<and> hold_merges demo_cx demo_env None demo_red t = Inr t"
    by (simp add: demo_cx_def demo_red_def)
  moreover have "cx_project demo_cx = 1" by (simp add: demo_cx_def)
  ultimately show ?thesis by auto
qed

section \<open>Review\<close>



text \<open>C23: a reply has a verdict exactly when one line says one and that line is its last, fences
  and emphasis read as the code reads them; no earlier line says any verdict.\<close>

theorem verdict_is_last_line:
  "terminal_verdict verdicts message = Some v \<longleftrightarrow> v \<in> set verdicts
     \<and> (\<exists>above. verdict_lines message = above @ [''VERDICT: '' @ v]
         \<and> (\<forall>line \<in> set above. \<forall>w \<in> set verdicts. line \<noteq> ''VERDICT: '' @ w))"
  using terminal_verdict_Some terminal_verdict_last by blast

theorem verdict_is_last_line_witness:
  "\<exists>above. verdict_lines demo_reply = above @ [''VERDICT: APPROVE'']"
proof -
  have "terminal_verdict REVIEW_VERDICTS demo_reply = Some ''APPROVE''" by code_simp
  with verdict_is_last_line [of REVIEW_VERDICTS demo_reply "''APPROVE''"] show ?thesis by auto
qed

text \<open>Cutting a reply into findings loses no line: the lines of the blocks, in order, are the
  lines of the text that are not blank, whatever bullets, fences and blank lines it has.\<close>

theorem findings_keep_lines:
  "block_lines (finding_blocks t) = said_lines (py_splitlines t)"
  by (rule blocks_keep_lines)

text \<open>What is stored of a reply is bounded, whatever the reply's length, and holds no
  control character; only the line feed and the tab remain.\<close>

theorem stored_text_safe:
  assumes "printable g"
  shows "length (sanitize_findings g (Some n) reply)
      \<le> max n (4 + length (TRUNCATION_MARKER g) + max MAX_VERDICT_CHARS (length (TRUNCATION_MARKER g)))
    \<and> (\<forall>c \<in> set (sanitize_findings g limit reply). \<not> control_char c)"
  using sanitize_bounded sanitize_no_control [OF assms] by blast

theorem stored_text_safe_witness:
  "CHR 0x1B \<notin> set (sanitize_findings demo_signs None (CHR 0x1B # ''ab''))"
proof -
  have "printable demo_signs" by (simp add: printable_def demo_signs_def control_char_def)
  from stored_text_safe [OF this] have "\<forall>c \<in> set (sanitize_findings demo_signs None (CHR 0x1B # ''ab'')). \<not> control_char c"
    by blast
  moreover have "control_char (CHR 0x1B)" by (simp add: control_char_def)
  ultimately show ?thesis by blast
qed



text \<open>The verdict stored for a review is an error exactly when the reply has none, a pass exactly when
  it approves and neither a criterion nor the adversary raises a finding, and changes otherwise.\<close>

theorem stored_verdict:
  "rcd_verdict (round_record_of g ReviewRole reply None unwitnessed adversary prior) =
     (case terminal_verdict REVIEW_VERDICTS reply of
        None \<Rightarrow> RoundError
      | Some v \<Rightarrow> if v = ''APPROVE'' \<and> unwitnessed = [] \<and> adversary = [] then RoundPass else RoundChanges)"
  using round_record_pass [of g reply unwitnessed adversary prior]
    round_record_error [of g reply unwitnessed adversary prior]
  by (cases "rcd_verdict (round_record_of g ReviewRole reply None unwitnessed adversary prior)")
    (auto split: option.split)

text \<open>Numbering filed criteria changes no text, gives no number twice, and gives a criterion that has
  a number, in its text or in the ticket's history, that number.\<close>

theorem criteria_numbered:
  assumes "distinct (List.map_filter fst (assigned_numbers held filed))"
  shows "map snd (with_numbers held filed) = map (snd \<circ> split_id) filed
    \<and> distinct (map fst (with_numbers held filed))
    \<and> (\<forall>i < length filed. \<forall>n. held \<noteq> [] \<and> fst (assigned_numbers held filed ! i) = Some n \<longrightarrow>
         with_numbers held filed ! i = (n, snd (split_id (filed ! i))))"
  using with_numbers_texts with_numbers_distinct [OF assms] with_numbers_held [of held _ filed]
  by (simp add: assigned_numbers_def)

theorem criteria_numbered_witness:
  "with_numbers [(''a'', 2)] [''b'', ''a''] ! 1 = (2, ''a'')"
proof -
  have "distinct (List.map_filter fst (assigned_numbers [(''a'', 2)] [''b'', ''a'']))"
    and "fst (assigned_numbers [(''a'', 2)] [''b'', ''a''] ! 1) = Some 2" and "snd (split_id ''a'') = ''a''"
    by code_simp+
  with criteria_numbered [of "[(''a'', 2)]" "[''b'', ''a'']"] show ?thesis by fastforce
qed

text \<open>A review judges a criterion an operator's note amended by its new text and no other, and
  one the note retired not at all.\<close>

theorem amended_criterion_judged:
  assumes "run_of rid s = Some r" and "row \<in> set (current_criteria (r_ticket r) s)" and "c_steer row \<noteq> None"
  shows "(c_criterion row, t) \<in> set (judged_list loads (Some rid) filed s)
    \<longleftrightarrow> c_status row \<noteq> CS_RETIRED \<and> t = c_text row"
  by (rule judged_list_amended [OF assms])

theorem amended_criterion_judged_witness:
  "(1, ''new'') \<in> set (judged_list (\<lambda>_. None) (Some 1) (Filed [''old'']) demo_amended)
    \<and> (1, ''old'') \<notin> set (judged_list (\<lambda>_. None) (Some 1) (Filed [''old'']) demo_amended)"
proof -
  have "map_option r_ticket (run_of 1 demo_amended) = Some 1" by code_simp
  then obtain r where r: "run_of 1 demo_amended = Some r" "r_ticket r = 1" by auto
  have "demo_edit \<in> set (current_criteria 1 demo_amended)" by code_simp
  with amended_criterion_judged [OF r(1), of demo_edit] r(2) show ?thesis
    by (simp add: demo_edit_def)
qed

section \<open>The loop\<close>



section \<open>Babysitting\<close>






text \<open>C29: babysitting ends: after as many turns as the caps on passes and on merges of main allow, and one more
  for a draft, the turns that follow change nothing, as long as none only triages notes.\<close>

theorem babysitting_bounded:
  assumes "mc_rounds cfg + mc_refreshes cfg + 1 < length ws" and "\<forall>w \<in> set ws. \<forall>st. pi_triaged w st \<noteq> Inr (Some [])"
  shows "babysit_pull g lg cfg sha approved reviewed verified noted pushed (ws @ others)
    = babysit_pull g lg cfg sha approved reviewed verified noted pushed ws"
  by (rule babysit_turns [OF assms])

theorem babysitting_bounded_witness:
  "babysit_pull demo_signs sit_signs sit_cfg ''c1'' True None None False None (replicate 10 (sit_turn (sit_state ''c1'' True) []) @ [sit_turn (sit_state ''c2'' False) []])
   = babysit_pull demo_signs sit_signs sit_cfg ''c1'' True None None False None (replicate 10 (sit_turn (sit_state ''c1'' True) []))"
  by (rule babysitting_bounded) (simp_all add: sit_cfg_def sit_turn_def)

text \<open>C30: on red checks a babysit reruns them at most once and hands out no more fix turns than
  \<^verbatim>\<open>check_fix_rounds\<close>, none for a failure that repeats an earlier one; what goes on without a fix turn
  is the same commit, rerun and no longer red.\<close>

theorem check_rounds_bounded:
  assumes "fix_checks_or_park g cfg k t grp st cf = Inr (sha, st', cf')"
    and "handed_ok (mc_check_fixes cfg) (cf_handed cf)"
  shows "handed_ok (mc_check_fixes cfg) (cf_handed cf') \<and> (cf_reran cf \<longrightarrow> cf_reran cf')
    \<and> (length (cf_handed cf') = length (cf_handed cf) + 1
       \<or> sha = fst t \<and> \<not> red_at st' sha \<and> \<not> cf_reran cf \<and> cf_reran cf' \<and> cf_handed cf' = [])"
  by (rule fix_checks_ok [OF assms])

theorem check_rounds_bounded_witness:
  "handed_ok 1 (cf_handed (snd (snd (projr sit_check))))"
proof -
  obtain st' cf' where c: "sit_check = Inr (''c2'', st', cf')" using sit_check_on by blast
  have "handed_ok (mc_check_fixes sit_cfg) (cf_handed new_check_fix)" by (simp add: new_check_fix_def handed_ok_def)
  from check_rounds_bounded [OF c [unfolded sit_check_def] this] have "handed_ok 1 (cf_handed cf')" by (simp add: sit_cfg_def)
  then show ?thesis by (simp add: c)
qed



section \<open>The verify gate, the merge lock and the merge queue\<close>

text \<open>C32: whatever the processes of a host do and wherever they die, at most one of them is between taking
  the merge lock and releasing it; the path then names its file, which carries its stamp and its flock.\<close>

theorem one_merge_at_a_time:
  assumes "lock_step\<^sup>*\<^sup>* lock_start w" and "lk_at w p = Inside t i" and "lk_at w q = Inside u j"
  shows "p = q \<and> lk_path w = Some i \<and> lk_text w i = t \<and> lk_flock w i = Some p"
  by (rule inside_alone [OF lock.reached [OF assms(1)] assms(2,3)])

theorem one_merge_at_a_time_witness: "lk_path lock_taken = Some 0 \<and> lk_flock lock_taken 0 = Some 1"
  using one_merge_at_a_time [OF lock_taken_reached, of 1 "''7 1.000''" 0 1] by (simp add: lock_taken_def at_place_def)

text \<open>C33: the files, flocks and arbiter of the merge lock implement a lock with at most one holder: each step
  of any process leaves the holder as it was, gives a free lock to one process or takes it back from its
  holder, and a process between acquiring and releasing is the holder.\<close>

theorem lock_refines_mutex:
  assumes "lock_step\<^sup>*\<^sup>* lock_start w" and "lock_step w w'"
  shows "(lock_holder w' = lock_holder w \<or> lock_use (lock_holder w) (lock_holder w'))
    \<and> (\<forall>p t i. lk_at w p = Inside t i \<longrightarrow> lock_holder w = Some p)"
  using lock.step_reached [OF assms] inside_holds [OF lock.reached [OF assms(1)]] by blast

theorem lock_refines_mutex_witness: "lock_holder lock_taken = Some 1"
proof -
  have "lk_at lock_taken 1 = Inside ''7 1.000'' 0" by (simp add: lock_taken_def at_place_def)
  with lock_refines_mutex [OF lock_taken_reached lock_orphan_step] show ?thesis by blast
qed

text \<open>C34: the lock file is unlinked only by the process that holds it, on its way out, or by a sweep that
  took the flock a dead holder had left; no process is inside the lock then.\<close>

theorem unlinked_lock_is_free:
  assumes "lock_step\<^sup>*\<^sup>* lock_start w" and "lock_step w w'" and "lk_path w = Some i" and "lk_path w' = None"
  shows "(\<exists>p. (\<exists>t. lk_at w p = Leaving t i) \<or> lk_at w p = Seized i \<and> lk_flock w i = Some p)
    \<and> (\<forall>q t j. lk_at w' q \<noteq> Inside t j)"
  using unlink_cases [OF lock.reached [OF assms(1)] assms(2-4)]
    swept_dead [OF lock.reached [OF assms(1)] assms(2) _ assms(4)] assms(3) by blast

theorem unlinked_lock_is_free_witness: "\<forall>q t j. lk_at lock_removed q \<noteq> Inside t j"
proof -
  have "lk_path lock_seized = Some 0" "lk_path lock_removed = None" by (simp_all add: lock_demo_defs)
  from unlinked_lock_is_free [OF lock_seized_reached lock_removed_step this] show ?thesis by blast
qed



text \<open>C36: the verification of a candidate holds the ticket's row and then, in the order of the configuration,
  the rows of the project's own commands up to the first that failed; it passes exactly when the ticket's
  verify did, every command ran and every one of them exited 0.\<close>

theorem baseline_in_order:
  assumes "with_baseline g a always before_merge ok out kept = Some ((ok', v), kept', event)"
  shows "\<exists>new. vd_results v = (if va_cmd a = [] then [] else [verify_row FromTicket (va_cmd a) ok out]) @ new
    \<and> (let configured = map (\<lambda>c. (FromAlways, fst c)) always
         @ (case before_merge of None \<Rightarrow> [] | Some cs \<Rightarrow> map (\<lambda>c. (FromBeforeMerge, fst c)) cs)
       in map row_id new = take (length new) configured
         \<and> (if ok' then ok \<and> length new = length configured \<and> list_all (\<lambda>r. vt_exit r = 0) new
            else if ok then new \<noteq> [] \<and> vt_exit (last new) = 1 \<and> list_all (\<lambda>r. vt_exit r = 0) (butlast new)
            else new = []))"
proof -
  define tiers where "tiers = (FromAlways, always) # (case before_merge of None \<Rightarrow> [] | Some cs \<Rightarrow> [(FromBeforeMerge, cs)])"
  from assms obtain reports where run: "baseline_tiers g a tiers
      (ok, (if va_cmd a = [] then [] else [verify_row FromTicket (va_cmd a) ok out]), [vd_text out], vd_failure out) kept
      = Some ((ok', vd_results v, reports, vd_failure v), kept')"
    by (auto simp: with_baseline_def tiers_def Let_def)
  have configured: "tier_commands tiers = map (\<lambda>c. (FromAlways, fst c)) always
      @ (case before_merge of None \<Rightarrow> [] | Some cs \<Rightarrow> map (\<lambda>c. (FromBeforeMerge, fst c)) cs)"
    by (auto simp: tier_commands_def tiers_def split: option.split)
  from baseline_tiers_rows [OF run] show ?thesis
    unfolding Let_def list_all_iff configured [symmetric] by blast
qed

theorem baseline_in_order_witness:
  "\<exists>v. with_baseline verify_demo_signs (demo_verify_ask\<lparr>va_run := None\<rparr>) demo_commands None True (plain_out ''ok'') [] = Some ((False, v), [], None)
     \<and> vt_exit (last (vd_results v)) = 1"
proof -
  obtain v where v: "with_baseline verify_demo_signs (demo_verify_ask\<lparr>va_run := None\<rparr>) demo_commands None True (plain_out ''ok'') []
      = Some ((False, v), [], None)" using demo_baseline by blast
  from baseline_in_order [OF v] have "vt_exit (last (vd_results v)) = 1" by (auto simp: Let_def)
  with v show ?thesis by blast
qed

text \<open>C37: over every history of ejections and full runs of a pull request, an ejection is queued again only
  where none with its kind and its failed checks or tests was before, and it goes on record.\<close>

theorem ejection_queued_once:
  assumes "queue_step\<^sup>*\<^sup>* queue_start s" and "requeue_or_park ends k sha kind failed grp s = (t, QueueAgain)"
  shows "distinct (map requeue_id (qr_requeues t))
    \<and> map requeue_id (qr_requeues t) = map requeue_id (qr_requeues s) @ [ejection_id kind failed]"
  using requeue_or_park_once [OF queue.reached [OF assms(1)] assms(2)] by (auto simp: queued_once_def)

theorem ejection_queued_once_witness:
  "map requeue_id (qr_requeues demo_queued_again) = [(QueuedInfra, [])]"
  using ejection_queued_once [OF rtranclp.rtrancl_refl demo_requeue]
  by (simp add: queue_start_def ejection_id_def names_sorted_def)

section \<open>Tickets\<close>

text \<open>The search of \<^verbatim>\<open>status_path\<close> returns a non-empty walk along the transition table
  that ends at the status asked for, no non-empty walk is shorter, and it returns nothing
  exactly when there is no such walk.\<close>

theorem status_path_shortest:
  "case status_path a b of
     Some p \<Rightarrow> p \<noteq> [] \<and> valid_walk a p b \<and> (\<forall>q. q \<noteq> [] \<and> valid_walk a q b \<longrightarrow> length p \<le> length q)
   | None \<Rightarrow> \<not> (\<exists>q. q \<noteq> [] \<and> valid_walk a q b)"
proof (cases "status_path a b")
  case None
  have "\<not> valid_walk a (c # q) b" for c q
  proof
    assume "valid_walk a (c # q) b"
    then obtain p where "status_path a b = Some p" by (rule valid_walk_path)
    with None show False by simp
  qed
  then show ?thesis using None by (auto simp: neq_Nil_conv simp del: valid_walk.simps)
next
  case (Some p)
  have "length p \<le> length q" if q: "q \<noteq> []" "valid_walk a q b" for q
  proof -
    obtain c q' where "q = c # q'" using q(1) by (cases q) auto
    with q(2) obtain p' where "status_path a b = Some p'" "length p' \<le> length q"
      using valid_walk_path by blast
    with Some show ?thesis by simp
  qed
  then show ?thesis using Some status_path_SomeD [OF Some] by simp
qed

theorem status_path_shortest_witness:
  "\<exists>p. status_path TS_NEEDS_SPEC TS_MERGED = Some p \<and> length p \<le> 5"
proof -
  have walk: "\<exists>p. status_path a b = Some p \<and> length p \<le> length q" if "q \<noteq> [] \<and> valid_walk a q b" for a b q
    using status_path_shortest [of a b] that by (auto split: option.split_asm)
  show ?thesis
    using walk [of "[TS_READY, TS_BLOCKED_ON_DEPS, TS_READY, TS_IN_FLIGHT, TS_MERGED]" TS_NEEDS_SPEC TS_MERGED]
    by (simp add: eval_nat_numeral del: status_search.simps)
qed

text \<open>Walking a ticket succeeds exactly when the table has a walk (the empty one when it is
  already there); the ticket then has the status asked for, every other field of its row and
  every other ticket are as before.\<close>

theorem walk_ticket_arrives:
  assumes "ticket_of tid s = Some t"
  shows "(\<exists>q. valid_walk (t_status t) q to) \<longleftrightarrow> (\<exists>path s'. walk_ticket tid to s = Inr (path, s')
    \<and> (\<forall>k. ticket_of k s' = (if k = tid then Some (t\<lparr>t_status := to\<rparr>) else ticket_of k s)))"
proof
  assume "\<exists>q. valid_walk (t_status t) q to"
  then obtain q where "valid_walk (t_status t) q to" ..
  then have "t_status t = to \<or> status_path (t_status t) to \<noteq> None"
    by (cases q) (simp, metis valid_walk_path option.distinct(1))
  from walk_ticket_ok [OF assms this] obtain path s' where ok: "walk_ticket tid to s = Inr (path, s')" by blast
  have "ticket_of k s' = (if k = tid then Some (t\<lparr>t_status := to\<rparr>) else ticket_of k s)" for k
    using walk_ticket_ticket [OF ok, of k] assms by simp
  with ok show "\<exists>path s'. walk_ticket tid to s = Inr (path, s')
    \<and> (\<forall>k. ticket_of k s' = (if k = tid then Some (t\<lparr>t_status := to\<rparr>) else ticket_of k s))" by blast
next
  assume "\<exists>path s'. walk_ticket tid to s = Inr (path, s')
    \<and> (\<forall>k. ticket_of k s' = (if k = tid then Some (t\<lparr>t_status := to\<rparr>) else ticket_of k s))"
  then obtain path s' where "walk_ticket tid to s = Inr (path, s')" by blast
  then show "\<exists>q. valid_walk (t_status t) q to"
    using assms by (elim walk_ticket_cases) (auto dest: status_path_SomeD intro: exI [of _ "[]"])
qed

theorem walk_ticket_arrives_witness:
  "\<exists>path s'. walk_ticket 1 TS_BLOCKED_ON_OPERATOR demo1 = Inr (path, s')
    \<and> map_option t_status (ticket_of 1 s') = Some TS_BLOCKED_ON_OPERATOR"
proof -
  have "map_option t_status (ticket_of 1 demo1) = Some TS_READY" by code_simp
  then obtain t where t: "ticket_of 1 demo1 = Some t" "t_status t = TS_READY" by auto
  have "valid_walk (t_status t) [TS_IN_FLIGHT, TS_BLOCKED_ON_OPERATOR] TS_BLOCKED_ON_OPERATOR"
    by (simp add: t(2))
  then obtain path s' where "walk_ticket 1 TS_BLOCKED_ON_OPERATOR demo1 = Inr (path, s')"
    "\<forall>k. ticket_of k s' = (if k = 1 then Some (t\<lparr>t_status := TS_BLOCKED_ON_OPERATOR\<rparr>) else ticket_of k demo1)"
    using walk_ticket_arrives [OF t(1), of TS_BLOCKED_ON_OPERATOR] by blast
  then show ?thesis by (intro exI [of _ path] exI [of _ s']) simp
qed

text \<open>The one-ticket pickability check and the whole-project one give every ticket the same
  verdict, \<open>Pickable\<close> exactly when it is ready, unleased, has criteria and commands, and all its
  dependencies are merged.\<close>

theorem pickability_reads_agree:
  assumes "distinct (map t_issue (tickets s))"
    and "distinct (map t_ident (filter (\<lambda>u. t_project u = t_project t) (tickets s)))"
    and "keyed t_id (tickets s)" and "t \<in> set (tickets s)"
  shows "map_of (rev (pickable_tickets (t_project t) s)) (t_ident t) = Some (pickable (t_id t) s)
    \<and> (pickable (t_id t) s = Pickable \<longleftrightarrow> t_status t = TS_READY \<and> t_active t = None
         \<and> t_criteria t \<noteq> [] \<and> t_commands t \<noteq> []
         \<and> (\<forall>dep \<in> set (t_depends t). issue_status (t_project t) s dep = Some TS_MERGED))"
  using pickable_agrees [OF assms] fetch_member [OF assms(3,4)] by (simp add: pickable_iff)

theorem pickability_reads_agree_witness:
  "map_of (rev (pickable_tickets 1 demo_tickets)) ''K-1'' = Some Pickable"
proof -
  let ?t = "hd (tickets demo_tickets)"
  have "distinct (map t_issue (tickets demo_tickets))"
    "distinct (map t_ident (filter (\<lambda>u. t_project u = t_project ?t) (tickets demo_tickets)))"
    "keyed t_id (tickets demo_tickets)" "?t \<in> set (tickets demo_tickets)"
    "t_project ?t = 1 \<and> t_ident ?t = ''K-1'' \<and> pickable (t_id ?t) demo_tickets = Pickable"
    by code_simp+
  then show ?thesis using pickability_reads_agree [of demo_tickets ?t] by simp
qed

section \<open>Claiming\<close>

text \<open>C38: in a reachable store a claim wins a run exactly when the ticket exists, is unleased
  and of the project, no admission holds the project, the expected revision is still current on
  a ready ticket of the board, and the parallelism cap has room; it then appends exactly one run
  and sets exactly one lease.\<close>

theorem claim_wins_iff:
  assumes "reachable s"
  shows "claim v pid tid expected cap s = Inr (Some rid, s') \<longleftrightarrow>
    (\<exists>t. ticket_of tid s = Some t \<and> t_active t = None \<and> t_project t = pid
       \<and> (\<forall>p. project_of pid s = Some p \<longrightarrow> p_admission p = AD_ENABLED)
       \<and> (\<forall>r. expected = Some r \<longrightarrow> t_revision t = r \<and> t_column t = Some BC_READY
              \<and> t_status t = TS_READY \<and> t_gone t = None)
       \<and> (\<forall>c. cap = Some c \<longrightarrow> cap_refusal tid c s = None)
       \<and> rid = next_run s
       \<and> s' = s\<lparr>runs := runs s @ [new_run v rid pid tid
              (Suc (length (filter (\<lambda>r. r_ticket r = tid) (runs s)))) (Some t) (story_generation tid s)],
            tickets := modify (\<lambda>t. t_id t = tid \<and> t_project t = pid)
              (\<lambda>t. t\<lparr>t_active := Some rid\<rparr>) (tickets s)\<rparr>)"
  using claim_iff [of s v pid tid expected cap rid s'] reachable_keyed [OF assms]
  by (auto simp: claim_admits_def won_claim_def)

theorem claim_wins_iff_witness:
  "\<exists>t. ticket_of 1 demo1 = Some t \<and> t_active t = None \<and> t_status t = TS_READY"
proof -
  have "reachable demo1"
    unfolding reachable_def using demo0_fresh demo1_step by blast
  from claim_wins_iff [OF this, of demo_env 1 1 "Some 1" "Some 2" 1 demo2] demo2_ok
  show ?thesis by auto
qed

text \<open>After a claim won the lease, every claim of that ticket by an admitted project is
  refused with a conflict, whatever the claimer passes.\<close>

theorem claim_exclusive:
  assumes "reachable s" and "claim v pid tid expected cap s = Inr (Some rid, s')"
    and "project_of pid' s = None \<or> (\<exists>p. project_of pid' s = Some p \<and> p_admission p = AD_ENABLED)"
  shows "claim v' pid' tid expected' cap' s' = Inl (ClaimConflict ''lease already held'')"
  using claim_twice assms reachable_keyed by blast

theorem claim_exclusive_witness:
  "claim demo_env 1 1 None None demo2 = Inl (ClaimConflict ''lease already held'')"
proof -
  have "map_option p_admission (project_of 1 demo1) = Some AD_ENABLED" by code_simp
  then have "\<exists>p. project_of 1 demo1 = Some p \<and> p_admission p = AD_ENABLED" by auto
  moreover have "reachable demo1"
    unfolding reachable_def using demo0_fresh demo1_step by blast
  ultimately show ?thesis using claim_exclusive demo2_ok by blast
qed

section \<open>Runs\<close>

text \<open>The outcome reason a run stores is never longer than the one given and keeps its first
  1000 and last 900 characters; it differs from it only above 2000 characters, and then one
  event of the run carries the whole text.\<close>

theorem reason_bounded:
  "\<exists>x. fst (bounded_reason v rid (Some t) s) = Some x \<and> length x \<le> length t
    \<and> take 1000 x = take 1000 t \<and> drop (length x - 900) x = drop (length t - 900) t
    \<and> (x = t \<and> snd (bounded_reason v rid (Some t) s) = s
       \<or> 2000 < length t \<and> (\<exists>e. events (snd (bounded_reason v rid (Some t) s)) = events s @ [e]
            \<and> e_run e = Some rid \<and> e_payload e = Some (PText (redact_values (secrets v) t))))"
  by (rule bounded_reason_spec)

text \<open>A release that succeeds on a live run ends it: its outcome, class, sha and end are
  those given, it rests in the outcome's terminal phase, it has a failure kind exactly when it
  failed, the phase it stopped in is kept for a resume, the review rounds it used are counted,
  and no ticket holds it any more.\<close>

theorem release_ends:
  assumes "reachable s" and "release v rid outcome reason cls merge_sha failure resume_phase candidate s = Inr s'"
    and "run_of rid s = Some r" and "r_ended r = None"
  shows "(\<exists>r'. run_of rid s' = Some r' \<and> r_phase r' = terminal_phase outcome
      \<and> r_ended r' = Some (clock v) \<and> r_outcome r' = Some outcome \<and> r_class r' = cls
      \<and> r_merge_sha r' = merge_sha \<and> r_resume r' = resume_point outcome resume_phase (r_phase r)
      \<and> r_candidate r' = coalesce candidate (r_candidate r)
      \<and> (r_failure r' \<noteq> None \<longleftrightarrow> outcome = OC_FAILED) \<and> r_rounds r' = counted_rounds rid s)
    \<and> (\<forall>t \<in> set (tickets s'). t_active t \<noteq> Some rid)"
proof -
  have step: "store_step s s'" using assms(2) by (rule store_step.release)
  have "reachable s'" using assms(1) step unfolding reachable_def by (meson rtranclp.rtrancl_into_rtrancl)
  then have "t_active t \<noteq> Some rid" if "t \<in> set (tickets s')" for t
    using lease_row [of s' t rid] that release_ends_run [OF assms(2-4)] by auto
  then show ?thesis using release_ends_run [OF assms(2-4)] by blast
qed

theorem release_ends_witness:
  "\<exists>r. run_of 1 demo4 = Some r \<and> r_failure r \<noteq> None \<and> r_resume r = Some PH_WORKING"
proof -
  have "map_option (\<lambda>r. (r_ended r, r_phase r)) (run_of 1 demo3) = Some (None, PH_WORKING)" by code_simp
  then obtain r where r: "run_of 1 demo3 = Some r" "r_ended r = None" "r_phase r = PH_WORKING" by auto
  have "store_step demo2 demo3" using demo3_ok by (rule store_step.set_phase)
  then have "reachable demo3"
    using demo2_reachable unfolding reachable_def by (meson rtranclp.rtrancl_into_rtrancl)
  from release_ends [OF this demo4_ok r(1,2)] r(3)
  show ?thesis by (auto simp: resume_point_def resumable_work_phases_def)
qed

text \<open>Release is idempotent: once a live run has been released, releasing it again, with any
  outcome a release accepts, succeeds and changes nothing.\<close>

theorem release_idempotent:
  assumes "release v rid outcome reason cls merge_sha failure resume_phase candidate s = Inr s'"
    and "merge_sha' \<noteq> None \<longrightarrow> outcome' = OC_MERGED"
  shows "release v' rid outcome' reason' cls' merge_sha' failure' resume' candidate' s' = Inr s'"
  using assms(1)
proof (cases rule: release_cases)
  case (again r)
  with release_again [OF again(1-3) assms(2)] show ?thesis by simp
next
  case (ends r w)
  from release_ends_run [OF assms(1) ends(1,5)]
  obtain r' where "run_of rid s' = Some r'" "r_phase r' = terminal_phase outcome" "r_ended r' = Some (clock v)"
    by blast
  then show ?thesis using release_again [of rid s' r'] assms(2) by simp
qed

theorem release_idempotent_witness:
  "release demo_env 1 OC_KILLED None CL_WORK None None None None demo4 = Inr demo4"
  by (rule release_idempotent [OF demo4_ok]) simp

text \<open>A run that fails while it works, verifies, reviews or addresses is re-entered by resume
  in that same phase, live again, with no outcome, reason, failure kind, resume point or stop
  request left.\<close>

theorem fail_then_resume:
  assumes "run_of rid s = Some r" and "r_phase r \<in> {PH_WORKING, PH_VERIFYING, PH_REVIEWING, PH_ADDRESSING}"
    and "release v rid OC_FAILED reason cls None failure resume_phase candidate s = Inr s1"
    and "r_ended r = None"
  shows "\<exists>s2 r2. resume v' rid None source note s1 = Inr (r_phase r, s2) \<and> run_of rid s2 = Some r2
    \<and> r_phase r2 = r_phase r \<and> r_ended r2 = None \<and> r_outcome r2 = None \<and> r_reason r2 = None
    \<and> r_failure r2 = None \<and> r_resume r2 = None \<and> r_stop r2 = None \<and> r_ticket r2 = r_ticket r"
proof -
  obtain r1 where r1: "run_of rid s1 = Some r1" "r_phase r1 = PH_FAILED" "r_ticket r1 = r_ticket r"
      "r_resume r1 = Some (r_phase r)"
    using release_ends_run [OF assms(3,1,4)] assms(2)
    by (auto simp: resume_point_def resumable_work_phases_def)
  have "\<exists>s2. resume v' rid None source note s1 = Inr (resume_target PH_FAILED (Some (r_phase r)), s2)"
    using r1 by (auto simp: resume_iff resumable_phases_def)
  then obtain s2 where s2: "resume v' rid None source note s1 = Inr (r_phase r, s2)"
    by (auto simp: resume_target_def)
  from resume_run [OF s2 r1(1)] s2 show ?thesis
    using r1 by (auto simp: reopen_run_def Let_def ended_phases_def)
qed

theorem fail_then_resume_witness:
  "\<exists>s2 r2. resume demo_env 1 None IS_HUMAN None demo4 = Inr (PH_WORKING, s2) \<and> run_of 1 s2 = Some r2
    \<and> r_ended r2 = None"
proof -
  have "map_option (\<lambda>r. (r_ended r, r_phase r)) (run_of 1 demo3) = Some (None, PH_WORKING)" by code_simp
  then obtain r where r: "run_of 1 demo3 = Some r" "r_ended r = None" "r_phase r = PH_WORKING" by auto
  from fail_then_resume [OF r(1) _ demo4_ok r(2), of demo_env IS_HUMAN None] r(3)
  show ?thesis by fastforce
qed

text \<open>Parking keeps the run alive, in the parked phase asked for with its kind, and gives its
  ticket's lease back, with the run left as the ticket's last one.\<close>

theorem park_gives_lease_back:
  assumes "park v rid phase note candidate pr_url approved seen kind s = Inr s'"
    and "run_of rid s = Some r" and "ticket_of (r_ticket r) s = Some t" and "t_active t = Some rid"
  shows "phase \<in> {PH_BLOCKED_ON_OPERATOR, PH_AWAITING_MERGE_APPROVAL}
    \<and> (\<exists>r'. run_of rid s' = Some r' \<and> r_phase r' = phase \<and> r_ended r' = None \<and> r_outcome r' = r_outcome r
         \<and> r_park r' = Some kind \<and> r_candidate r' = coalesce candidate (r_candidate r)
         \<and> r_pr r' = coalesce pr_url (r_pr r))
    \<and> ticket_of (r_ticket r) s' = Some (t\<lparr>t_active := None, t_last := Some rid\<rparr>)"
proof -
  obtain previous u where "phase \<in> set parked_phases" and u: "set_phase v rid phase note s = Inr (previous, u)"
    and s': "s' = lease_back (r_ticket r) rid
       (case seen of None \<Rightarrow> upd_run rid (parked_row kind candidate pr_url approved) u
        | Some q \<Rightarrow> record_pr_seen rid q False False (upd_run rid (parked_row kind candidate pr_url approved) u))"
    using assms(1,2) by (elim park_cases) simp
  moreover have "run_of rid u = Some (r\<lparr>r_phase := phase, r_heartbeat := clock v\<rparr>)"
    by (rule set_phase_run [OF u assms(2)])
  moreover have "tickets u = tickets s" and "r_ended r = None"
    using u assms(2) by (auto simp: set_phase_iff log_frame upd_run_def)
  moreover have "r_id r = rid" "t_id t = r_ticket r"
    using assms(2,3) by (auto dest: fetch_SomeD)
  ultimately show ?thesis
    using assms(3,4)
    by (auto simp: s' parked_phases_def lease_back_ticket upd_run_def fetch_modify_key parked_row_def
        record_pr_seen_def upd_runs_def fetch_modify split: option.split)
qed

theorem park_gives_lease_back_witness:
  "\<exists>r. run_of 1 (after' (park demo_env 1 PH_BLOCKED_ON_OPERATOR None None None None None PK_CONTRADICTION demo3))
     = Some r \<and> r_park r = Some PK_CONTRADICTION"
proof -
  define d where "d = after' (park demo_env 1 PH_BLOCKED_ON_OPERATOR None None None None None PK_CONTRADICTION demo3)"
  have ok: "park demo_env 1 PH_BLOCKED_ON_OPERATOR None None None None None PK_CONTRADICTION demo3 = Inr d"
    unfolding d_def by code_simp
  have "map_option (\<lambda>r. r_ticket r) (run_of 1 demo3) = Some 1"
    "map_option t_active (ticket_of 1 demo3) = Some (Some 1)" by code_simp+
  then obtain r t where "run_of 1 demo3 = Some r" "r_ticket r = 1" "ticket_of 1 demo3 = Some t" "t_active t = Some 1"
    by auto
  with park_gives_lease_back [OF ok, of r t] show ?thesis unfolding d_def by auto
qed

section \<open>The operator's verbs\<close>

text \<open>An approval is accepted only for the newest run of an unleased ticket blocked on the
  operator, parked awaiting its merge; it ends that run as abandoned with the merge gate as the
  point to resume at and the approver and time stamped, and makes the ticket ready for a claim.\<close>

theorem approve_resumes_at_gate:
  assumes "reachable s" and "approve v tid note expected s = Inr (rid, s')"
  shows "(\<exists>t r. ticket_of tid s = Some t \<and> t_active t = None \<and> t_status t = TS_BLOCKED_ON_OPERATOR
      \<and> t_last t = Some rid \<and> (expected = None \<or> expected = Some rid)
      \<and> run_of rid s = Some r \<and> r_phase r = PH_AWAITING_MERGE_APPROVAL)
    \<and> (\<exists>r'. run_of rid s' = Some r' \<and> r_ended r' = Some (clock v) \<and> r_outcome r' = Some OC_ABANDONED
      \<and> r_resume r' = Some PH_MERGE_GATE \<and> r_approved_at r' = Some (clock v)
      \<and> r_approved_by r' = Some (login v))
    \<and> (\<exists>t'. ticket_of tid s' = Some t' \<and> t_status t' = TS_READY \<and> t_active t' = None)"
proof -
  have ok: "release_parked v tid IA_APPROVE note
       ''approved for merge; the next claim resumes the candidate at the merge gate''
       False IS_HUMAN None Inr expected None s = Inr (rid, s')"
    using assms(2) by (simp add: approve_def)
  then have "parked_guard tid expected False s = Inr rid" by (elim release_parked_cases) auto
  then obtain t r where g: "ticket_of tid s = Some t" "t_active t = None"
      "t_status t = TS_BLOCKED_ON_OPERATOR" "t_last t = Some rid" "expected = None \<or> expected = Some rid"
      "run_of rid s = Some r" "r_phase r = PH_AWAITING_MERGE_APPROVAL"
    by (auto simp: parked_guard_iff)
  have live: "r_ended r = None"
    using reachable_run [OF assms(1) g(6)] g(7) terminal_phase_ended [of "the (r_outcome r)"]
    by (cases "r_outcome r") (auto simp: ended_phases_def)
  from release_parked_result [OF ok g(6) live] g show ?thesis by auto
qed

theorem approve_resumes_at_gate_witness:
  "\<exists>r. run_of 1 demo_approved = Some r \<and> r_resume r = Some PH_MERGE_GATE \<and> r_approved_by r = Some ''op''"
  using approve_resumes_at_gate [OF demo_parked_reachable demo_approved_ok] by (auto simp: demo_env_def)

text \<open>A requeue sends a ticket whose last run has given its lease back to ready, with no
  question left on it; without \<open>force\<close> and a diagnosis it never goes past the relaunch limit of
  two relaunches since the last other human act.\<close>

theorem requeue_bounded:
  assumes "requeue v tid note source force s = Inr (rid, s')"
  shows "(\<exists>t t'. ticket_of tid s = Some t \<and> t_last t = Some rid \<and> t_active t = None
      \<and> ticket_of tid s' = Some t' \<and> t_status t' = TS_READY \<and> t_active t' = None \<and> t_question t' = None)
    \<and> (length (relaunches tid s) < 2 \<or> force \<and> \<not> blank note)"
  using requeue_result [OF assms] by (simp add: relaunch_limit_def)

theorem requeue_bounded_witness:
  "\<exists>t. ticket_of 1 demo_requeued = Some t \<and> t_status t = TS_READY"
  using requeue_bounded [OF demo_history_ok(4)] by auto

text \<open>Once an abort that closes the pull request is pending on a run, no later abort, with
  or without \<open>close\<close>, downgrades it: the request pending afterwards still closes.\<close>

theorem abort_close_kept:
  assumes "abort v rid note source close trigger comment s = Inr (i, s')"
    and "run_of rid s = Some r" and "pending_stop r s = Some q" and "i_action q = IA_ABORT_CLOSE"
  shows "\<exists>r' q'. run_of rid s' = Some r' \<and> pending_stop r' s' = Some q' \<and> i_id q' = i
    \<and> i_action q' = IA_ABORT_CLOSE"
  using abort_keeps_close [OF assms] .

theorem abort_close_kept_witness:
  "\<exists>r q. run_of 1 demo_aborted_twice = Some r \<and> pending_stop r demo_aborted_twice = Some q
     \<and> i_action q = IA_ABORT_CLOSE"
proof -
  have "map_option (\<lambda>r. map_option i_action (pending_stop r demo_aborted)) (run_of 1 demo_aborted)
      = Some (Some IA_ABORT_CLOSE)" by code_simp
  then obtain r q where "run_of 1 demo_aborted = Some r" "pending_stop r demo_aborted = Some q"
    "i_action q = IA_ABORT_CLOSE" by auto
  from abort_close_kept [OF demo_aborted_twice_ok this] show ?thesis by blast
qed

section \<open>The supervisor\<close>

text \<open>The strikes of a run count the sweeps that found it silent: after n further sweeps with
  no newer heartbeat than the last one it was struck for, it has n more strikes.\<close>

theorem strikes_count_silence:
  assumes "run_of rid s = Some r" and "\<forall>v \<in> set vs. beat \<le> clock v"
    and "strike_of rid s = Some k" and "beat \<le> s_last_seen k"
  shows "\<exists>s' k'. silent_sweeps vs rid beat s = Inr s' \<and> strike_of rid s' = Some k'
    \<and> s_strikes k' = s_strikes k + length vs"
  using silent_sweeps_count [OF assms] .

theorem strikes_count_silence_witness:
  "\<exists>s' k'. silent_sweeps [demo_env, demo_env] 1 500 demo_struck = Inr s' \<and> strike_of 1 s' = Some k'
    \<and> s_strikes k' = 3"
proof -
  have "run_of 1 demo_struck \<noteq> None"
    "map_option (\<lambda>k. (s_strikes k, s_last_seen k)) (strike_of 1 demo_struck) = Some (1, 1000)" by code_simp+
  then obtain r k where "run_of 1 demo_struck = Some r" "strike_of 1 demo_struck = Some k"
    "s_strikes k = 1" "s_last_seen k = 1000" by auto
  with strikes_count_silence [of 1 demo_struck r "[demo_env, demo_env]" 500 k]
  show ?thesis by (auto simp: demo_env_def)
qed

text \<open>A loop restart that was never followed by a return is reported once: a read that
  reports it marks it, and no later read, at any time and with any grace, reports it again.\<close>

theorem restart_reported_once:
  assumes "i \<in> set (map fst (fst (unreturned_loop_restarts v grace s)))"
  shows "i \<notin> set (map fst (fst (unreturned_loop_restarts v' grace' (snd (unreturned_loop_restarts v grace s)))))"
  using unreturned_once [OF assms] .

theorem restart_reported_once_witness:
  "1 \<notin> set (map fst (fst (unreturned_loop_restarts demo_env 0
     (snd (unreturned_loop_restarts demo_env 0 demo_restarted)))))"
proof -
  have "map fst (fst (unreturned_loop_restarts demo_env 0 demo_restarted)) = [1]" by code_simp
  then have "1 \<in> set (map fst (fst (unreturned_loop_restarts demo_env 0 demo_restarted)))" by simp
  then show ?thesis by (rule restart_reported_once)
qed

section \<open>The work clock and the launch backoff\<close>

text \<open>A work span entered at one clock and left at another adds exactly their difference to
  the run's work, once, leaves the clock stopped and gives the caller's active runs back; and
  while a run is timed its agent and verify parts add up to the whole.\<close>

theorem work_span_exact:
  assumes "enter_working v (Some rid) verify active s = Inr ((owner, active'), s')"
    and "rid \<notin> set active" and "run_of rid s = Some r" and "r_working r = Some w"
  shows "\<exists>r'. run_of rid (snd (exit_working v' owner active' s')) = Some r'
    \<and> effective_work r' later = Some (w + (clock v' - clock v)) \<and> r_work_started r' = None
    \<and> fst (exit_working v' owner active' s') = active
    \<and> (r_verify r' \<noteq> None \<longrightarrow> (\<exists>a b. agent_work r' later = Some a \<and> verify_work r' later = Some b
         \<and> a + b = w + (clock v' - clock v)))"
  using working_span [OF assms, of v' later] work_splits by blast

theorem work_span_exact_witness:
  "\<exists>r. run_of 1 (snd (exit_working (demo_env\<lparr>clock := 1700\<rparr>) (Some 1) [1] demo_timed)) = Some r
     \<and> effective_work r 9999 = Some 700"
proof -
  have "map_option r_working (run_of 1 demo2) = Some (Some 0)" by code_simp
  then obtain r where r: "run_of 1 demo2 = Some r" "r_working r = Some 0" by auto
  from work_span_exact [OF demo_timed_ok _ r, of "demo_env\<lparr>clock := 1700\<rparr>" 9999]
  show ?thesis by (auto simp: demo_env_def)
qed

text \<open>After the first failure and n more in a row, at whatever times, the
  project's backoff interval is \<open>min 1800 (60 * 2 ^ n)\<close> seconds and its start is the first
  failure's.\<close>

theorem backoff_doubles:
  assumes "project_of pid s = Some p" and "p_backoff p = None"
  shows "\<exists>s' p' r. route_failures (v # vs) pid reason s = Inr s' \<and> project_of pid s' = Some p'
    \<and> p_backoff p' = Some (r, clock v, min 1800 (60 * 2 ^ length vs))"
proof -
  obtain nt s1 where s1: "backoff_failure v pid reason False None s = Inr (nt, s1)"
      "project_of pid s1 = Some (p\<lparr>p_backoff_until := Some (clock v + backoff_interval False None * 1000),
        p_backoff := Some (reason, clock v, backoff_interval False None)\<rparr>)"
    using backoff_failure_project [OF assms(1), of v reason] assms(2) by auto
  from route_failures_interval [OF s1(2), of reason "clock v" 0 vs reason] s1(1)
  show ?thesis by (auto simp: nth_interval backoff_interval_def)
qed

theorem backoff_doubles_witness:
  "\<exists>s' p r. route_failures [demo_env, demo_env, demo_env] 1 ''no route'' demo0 = Inr s'
     \<and> project_of 1 s' = Some p \<and> p_backoff p = Some (r, 1000, 240)"
proof -
  have "map_option p_backoff (project_of 1 demo0) = Some None" by code_simp
  then obtain p where "project_of 1 demo0 = Some p" "p_backoff p = None" by auto
  from backoff_doubles [OF this, of demo_env "[demo_env, demo_env]" "''no route''"]
  show ?thesis by (simp add: demo_env_def)
qed

section \<open>Review findings\<close>

text \<open>Two sets of findings with the same keys (path, line, severity) have the same
  fingerprint, and, when the hash does not collide on their canonical forms, only those do: the
  separators of the canonical form keep distinct key sets apart.\<close>

theorem fingerprint_iff_same_keys:
  assumes "finding_keys fs = Inr ks" and "finding_keys gs = Inr qs"
    and "sha256 v (canonical_form ks) = sha256 v (canonical_form qs) \<Longrightarrow> canonical_form ks = canonical_form qs"
  shows "findings_fingerprint v fs = findings_fingerprint v gs \<longleftrightarrow> set ks = set qs"
  using fingerprint_determines [OF assms(1,2)] assms by (auto simp: findings_fingerprint_def)

theorem fingerprint_iff_same_keys_witness:
  "findings_fingerprint demo_env demo_findings = findings_fingerprint demo_env (rev demo_findings)
   \<and> findings_fingerprint demo_env demo_findings \<noteq> findings_fingerprint demo_env (tl demo_findings)"
proof -
  define ks where "ks = (case finding_keys demo_findings of Inr ks \<Rightarrow> ks | Inl _ \<Rightarrow> [])"
  define rs where "rs = (case finding_keys (rev demo_findings) of Inr ks \<Rightarrow> ks | Inl _ \<Rightarrow> [])"
  define ts where "ts = (case finding_keys (tl demo_findings) of Inr ks \<Rightarrow> ks | Inl _ \<Rightarrow> [])"
  have "finding_keys demo_findings = Inr ks" "finding_keys (rev demo_findings) = Inr rs"
    "finding_keys (tl demo_findings) = Inr ts" "set ks = set rs" "set ks \<noteq> set ts"
    unfolding ks_def rs_def ts_def by code_simp+
  then show ?thesis
    using fingerprint_iff_same_keys [of demo_findings ks "rev demo_findings" rs demo_env]
      fingerprint_iff_same_keys [of demo_findings ks "tl demo_findings" ts demo_env]
    by (simp add: demo_env_def)
qed

text \<open>The overlap of two rounds of findings does not depend on their order and is a ratio
  between 0 and 1 whenever it is given.\<close>

theorem overlap_symmetric_ratio:
  assumes "findings_overlap fs gs = Inr r"
  shows "findings_overlap gs fs = Inr r \<and> (case r of None \<Rightarrow> True | Some x \<Rightarrow> 0 \<le> x \<and> x \<le> 1)"
proof -
  obtain ks qs where keys: "finding_keys fs = Inr ks" "finding_keys gs = Inr qs"
    using assms by (auto simp: findings_overlap_def)
  have d: "distinct ks" "distinct qs" using keys finding_keys_distinct by blast+
  have r: "r = overlap fs gs ks qs" using assms findings_overlap_overlap [OF keys] by simp
  show ?thesis
    using findings_overlap_overlap [OF keys(2,1)] overlap_sym [OF d, of fs gs] overlap_bounds [OF d, of fs gs] r
    by (auto split: option.split)
qed

theorem overlap_symmetric_ratio_witness:
  "findings_overlap (tl demo_findings) demo_findings = Inr (Some (1 / 2))"
proof -
  have "findings_overlap demo_findings (tl demo_findings) = Inr (Some (1 / 2))" by code_simp
  from overlap_symmetric_ratio [OF this] show ?thesis by simp
qed

section \<open>Notes and revisions\<close>

text \<open>The worklist behind a stuck ticket ends for every list of waiting tickets, whatever
  cycles their dependencies have, and counts exactly the issues that wait on the ticket, directly
  or through others, each once and never the ticket itself.\<close>

theorem queued_behind_counts:
  "queued_behind t waiting =
     card {j. (\<lambda>i j. j \<noteq> t_issue t
       \<and> (\<exists>w \<in> set waiting. t_issue w = j \<and> i \<in> set (t_depends w)))\<^sup>+\<^sup>+ (t_issue t) j}"
proof -
  have "waits_behind (t_issue t) (map (\<lambda>w. (t_issue w, t_depends w)) waiting) =
    (\<lambda>i j. j \<noteq> t_issue t \<and> (\<exists>w \<in> set waiting. t_issue w = j \<and> i \<in> set (t_depends w)))"
    by (auto simp: waits_behind_def fun_eq_iff)
  with queued_behind_card [of t waiting] show ?thesis by simp
qed

text \<open>Recording a ticket's board fields keeps its revisions numbered 1, 2, ... with the
  ticket pointing at the newest; it adds one exactly when the fields differ from the newest
  revision, and the newest revision afterwards holds the ticket's fields.\<close>

theorem board_fields_revisions:
  assumes "revision_inv s" and "record_board_fields v tid author s = Inr (res, s')"
  shows "revision_inv s' \<and>
    (\<exists>t x. ticket_of tid s = Some t \<and> latest_revision (ticket_revisions tid s') = Some x \<and> same_fields x t
       \<and> v_revision x = length (ticket_revisions tid s')
       \<and> length (ticket_revisions tid s') = length (ticket_revisions tid s) + (if res = None then 0 else 1))"
  by (rule record_board_fields_result [OF assms])

theorem board_fields_revisions_witness:
  "\<exists>x. latest_revision (ticket_revisions 1 demo_retitled) = Some x \<and> v_revision x = 2"
proof -
  have ok: "record_board_fields demo_env 1 ''op''
      (upd_ticket 1 (\<lambda>t. t\<lparr>t_title := ''new title''\<rparr>) demo1) = Inr (Some 2, demo_retitled)"
    and inv: "revision_inv (upd_ticket 1 (\<lambda>t. t\<lparr>t_title := ''new title''\<rparr>) demo1)"
    and l: "length (ticket_revisions 1 demo_retitled) = 2"
    by code_simp+
  from board_fields_revisions [OF inv ok] l show ?thesis by auto
qed

section \<open>Stories\<close>

text \<open>The sweep over the approved edges returns exactly the children that wait, directly or
  through others, on the named child, and the child itself, cycles or not.\<close>

theorem downstream_exact:
  "x \<in> set (downstream children edges name) \<longleftrightarrow> waits_on (issue_ident children) edges name x"
  by (rule downstream_iff)

text \<open>In a reachable store a child offered on a story's frontier belongs to that open story, is ready, unleased
  and on the board's ready column; every approved dependency of it is merged, no open decision
  blocks it and the parallelism cap has room.\<close>

theorem frontier_sound:
  assumes "reachable s" and "story_frontier tid cap s = Inr names" and "n \<in> set names"
  shows "\<exists>y p t. story_row tid s = Some y \<and> y_state y \<in> {SY_APPROVED, SY_PARKED} \<and> y_plan y = Some p
    \<and> t \<in> set (tickets s) \<and> t_ident t = n \<and> t_id t \<in> set (children_ids (y_ticket y) s)
    \<and> t_status t = TS_READY \<and> t_active t = None \<and> t_column t = Some BC_READY \<and> t_gone t = None
    \<and> (\<forall>dep \<in> set (edges_of p n). issue_merged (y_ticket y) s dep)
    \<and> (\<forall>d \<in> set (open_decisions (y_ticket y) s). \<not> blocks (child_tickets (y_ticket y) s) (pl_edges p) n d)
    \<and> cap_refusal (t_id t) cap s = None"
  using story_frontier_member [OF assms(2,3)] reachable_keyed [OF assms(1)] by blast

theorem frontier_sound_witness:
  "\<exists>t. t \<in> set (tickets demo_open) \<and> t_ident t = ''K-2'' \<and> t_status t = TS_READY"
proof -
  have "story_frontier 1 3 demo_open = Inr [''K-2'']" by code_simp
  from frontier_sound [OF demo_open_reachable this] show ?thesis by auto
qed

text \<open>The edges inherited over a canceled dependency are the others and, when the canceled
  one was among them, its own dependencies, each named once.\<close>

theorem inherited_edges_exact:
  "set (inherited_edges depends canceled inherited) =
     (set depends - {canceled}) \<union> (if canceled \<in> set depends then set inherited else {})
   \<and> distinct (inherited_edges depends canceled inherited)"
  using inherited_edges_facts by simp

text \<open>Answering a decision records one of its options, refuses a second answer, and takes
  the story from parked back to approved exactly when it was the last one open.\<close>

theorem decision_answered:
  assumes "answer_decision v did answer author note s = Inr (st, s')"
    and "fetch d_id did (decisions s) = Some d" and "story_of (d_story d) s = Some y"
    and "keyed d_id (decisions s)"
  shows "st = (if y_state y = SY_PARKED \<and> filter (\<lambda>q. d_id q \<noteq> did) (open_decisions (d_story d) s) = []
      then SY_APPROVED else y_state y)
    \<and> answer \<in> set (d_options d) \<and> d_answer d = None
    \<and> map_option d_answer (fetch d_id did (decisions s')) = Some (Some answer)"
  using answer_decision_result [OF assms] .

theorem decision_answered_witness:
  "map_option d_answer (fetch d_id 1 (decisions demo_left)) = Some (Some ''left'')"
proof -
  have ok: "answer_decision demo_env 1 ''left'' ''op'' ''left it is'' demo_asked = Inr (SY_APPROVED, demo_left)"
    by code_simp
  have "map_option d_story (fetch d_id 1 (decisions demo_asked)) = Some 1" "story_of 1 demo_asked \<noteq> None"
    "keyed d_id (decisions demo_asked)" by code_simp+
  then obtain d y where "fetch d_id 1 (decisions demo_asked) = Some d" "story_of (d_story d) demo_asked = Some y"
    by auto
  from decision_answered [OF ok this] \<open>keyed d_id (decisions demo_asked)\<close> show ?thesis by simp
qed

section \<open>The tables beside the lifecycle\<close>



text \<open>A firing is never lost and never changes its key or project; once refused, confirmed
  or canceled its state stays, a taken firing stays with the process that took it, and none goes
  back to proposed, whatever calls follow.\<close>

theorem firing_settles_once:
  assumes "reachable s" and "store_step\<^sup>*\<^sup>* s t" and "firing_of k s = Some r"
  shows "\<exists>q. firing_of k t = Some q \<and> fr_key q = fr_key r \<and> fr_project q = fr_project r
    \<and> (fr_state r \<in> {FS_REFUSED, FS_CONFIRMED, FS_CANCELED} \<longrightarrow> fr_state q = fr_state r)
    \<and> (fr_state q = FS_PROPOSED \<longrightarrow> fr_state r = FS_PROPOSED)
    \<and> (fr_pid r \<noteq> None \<longrightarrow> fr_pid q = fr_pid r)"
  using firing_history [OF assms] unfolding firing_keeps_def by blast

theorem firing_settles_once_witness:
  "\<exists>q. firing_of 1 (snd (take_firing demo_env 1 9 demo_settled)) = Some q \<and> fr_state q = FS_CONFIRMED"
proof -
  have "map_option fr_state (firing_of 1 demo_settled) = Some FS_CONFIRMED" by code_simp
  then obtain r where r: "firing_of 1 demo_settled = Some r" "fr_state r = FS_CONFIRMED" by auto
  from firing_settles_once [OF demo_settled_reachable(2)
      r_into_rtranclp [of store_step, OF store_step.take_firing [of demo_settled demo_env 1 9]] r(1)] r(2)
  show ?thesis by auto
qed

text \<open>A scout that failed or was stopped keeps that phase, and a scout's task that ended
  keeps the phase it ended in, whatever calls follow.\<close>

theorem scout_ends_final:
  assumes "reachable s" and "store_step\<^sup>*\<^sup>* s t"
  shows "(\<forall>c. scout_of k s = Some c \<and> sc_phase c \<in> {SP_FAILED, SP_STOPPED} \<longrightarrow>
      (\<exists>c'. scout_of k t = Some c' \<and> sc_phase c' = sc_phase c))
    \<and> (\<forall>x. fetch sk_id k (scout_tasks s) = Some x \<and> sk_phase x \<in> {ST_DONE, ST_FAILED, ST_STOPPED} \<longrightarrow>
      (\<exists>x'. fetch sk_id k (scout_tasks t) = Some x' \<and> sk_phase x' = sk_phase x))"
  using scout_stays_ended [OF assms] task_stays_ended [OF assms]
  by (simp add: task_ended_def)

theorem scout_ends_final_witness:
  "\<exists>c. scout_of 1 (snd (take_firing demo_env 1 9 demo_failed_scout)) = Some c \<and> sc_phase c = SP_FAILED"
proof -
  have "map_option sc_phase (scout_of 1 demo_failed_scout) = Some SP_FAILED" by code_simp
  then obtain c where c: "scout_of 1 demo_failed_scout = Some c" "sc_phase c = SP_FAILED" by auto
  from scout_ends_final [OF demo_scout_reachable(2)
      r_into_rtranclp [of store_step, OF store_step.take_firing [of demo_failed_scout demo_env 1 9]], of 1] c
  show ?thesis by auto
qed

text \<open>C40: on a reachable store, resolving a project's dependencies always succeeds; it readies
  exactly the tickets of the project that wait on dependencies, have some, have criteria and
  commands, and whose dependencies are all merged, changes no other ticket, and leaves none such.\<close>

theorem resolve_readies_exactly:
  assumes "reachable s"
  shows "\<exists>met u. resolve_dependencies pid s = Inr (map t_ident met, u)
    \<and> (\<forall>t. t \<in> set met \<longleftrightarrow> t \<in> set (tickets s) \<and> t_project t = pid \<and> t_status t = TS_BLOCKED_ON_DEPS
          \<and> t_depends t \<noteq> [] \<and> t_criteria t \<noteq> [] \<and> t_commands t \<noteq> []
          \<and> (\<forall>d \<in> set (t_depends t). status_of_issue pid s d = Some TS_MERGED))
    \<and> tickets u = map (\<lambda>t. if t \<in> set met then t\<lparr>t_status := TS_READY\<rparr> else t) (tickets s)
    \<and> (\<exists>u'. resolve_dependencies pid u = Inr ([], u'))"
proof -
  let ?met = "filter (resolvable (status_of_issue pid s)) (project_tickets pid s)"
  have keyed: "keyed t_id (tickets s)" using reachable_keyed [OF assms] ..
  obtain u where u: "resolve_dependencies pid s = Inr (map t_ident ?met, u)"
    and rows: "tickets u = map (readied (t_id ` set ?met)) (tickets s)"
    and rest: "filter (resolvable (status_of_issue pid u)) (project_tickets pid u) = []"
    using resolve_readies [OF keyed] .
  have "t_id t \<in> t_id ` set ?met \<longleftrightarrow> t \<in> set ?met" if "t \<in> set (tickets s)" for t
    using that keyed by (auto simp: keyed_def distinct_map inj_on_def)
  with rows have "tickets u = map (\<lambda>t. if t \<in> set ?met then t\<lparr>t_status := TS_READY\<rparr> else t) (tickets s)"
    by (simp add: readied_def)
  moreover have "resolve_dependencies pid u = Inr ([], u)"
    by (simp add: resolve_dependencies_def rest)
  moreover have "t \<in> set ?met \<longleftrightarrow> t \<in> set (tickets s) \<and> t_project t = pid \<and> t_status t = TS_BLOCKED_ON_DEPS
          \<and> t_depends t \<noteq> [] \<and> t_criteria t \<noteq> [] \<and> t_commands t \<noteq> []
          \<and> (\<forall>d \<in> set (t_depends t). status_of_issue pid s d = Some TS_MERGED)" for t
    by (auto simp: resolvable_def deps_merged_def list_all_iff)
  ultimately show ?thesis using u by (intro exI [of _ ?met] exI [of _ u]) blast
qed

theorem resolve_readies_exactly_witness:
  "\<exists>u. resolve_dependencies 1 demo_waiting = Inr ([''K-2''], u)
    \<and> map_option t_status (ticket_of 2 u) = Some TS_READY"
proof -
  have "map_option (\<lambda>(is, u). (is, map_option t_status (ticket_of 2 u)))
      (case resolve_dependencies 1 demo_waiting of Inr x \<Rightarrow> Some x | Inl _ \<Rightarrow> None)
      = Some ([''K-2''], Some TS_READY)" by code_simp
  with resolve_readies_exactly [OF demo_waiting_reachable, of 1] show ?thesis by auto
qed

text \<open>Taking a message succeeds exactly when the message is one of the waiting messages of
  a done scout that this process does not hold; the message is then consumed by the event
  returned. A message that does not wait is refused as such, a held scout's as no longer held,
  and nothing else is raised.\<close>

theorem take_message_errors:
  assumes "reachable s"
  shows "case take_message v h mid host s of
      Inr (e, t) \<Rightarrow> (\<exists>sid. takeable mid sid s \<and> h sid = None)
        \<and> map_option tm_consumed_by (fetch tm_id mid (messages t)) = Some (Some e)
    | Inl (ThreadRefused _) \<Rightarrow> \<not> (\<exists>sid. takeable mid sid s)
    | Inl (ScoutRefused sid _) \<Rightarrow> takeable mid sid s \<and> h sid \<noteq> None
    | Inl _ \<Rightarrow> False"
  by (rule take_message_result [OF desk_keys(4,2) [OF assms]])

theorem take_message_errors_witness:
  "\<exists>e t. take_message demo_env (\<lambda>_. None) 1 None demo_question = Inr (e, t)
    \<and> map_option tm_consumed_by (fetch tm_id 1 (messages t)) = Some (Some e)"
proof -
  have "takeable 1 1 demo_question" by code_simp
  with take_message_errors [OF demo_scout_reachable(3),
      where v = demo_env and h = "\<lambda>_. None" and mid = 1 and host = None] show ?thesis
    by (auto split: sum.splits err.splits)
qed

end
